(* ===== verification/Go_Prelude.thy ===== *)
theory Go_Prelude
  imports Main "HOL-Library.Sublist"
begin

text \<open>
  What the components share of the Go language and of its standard library: 64-bit integers
  with wrap-around, byte strings and the functions of package \<^verbatim>\<open>strings\<close> and
  \<^verbatim>\<open>strconv\<close> the sources call, and the lemma collections the component proofs use.

  A Go string is a sequence of bytes, here a \<^typ>\<open>string\<close> (a list of 8-bit characters); so
  \<open>length\<close> is Go's \<^verbatim>\<open>len\<close>. A Go \<^verbatim>\<open>int\<close>, \<^verbatim>\<open>int64\<close> or
  \<^verbatim>\<open>time.Duration\<close> is an \<^typ>\<open>int\<close>; wherever the source's arithmetic can leave the
  64-bit range the model applies \<open>wrap64\<close>.
\<close>

named_theorems go_simps \<open>unfolding rules for the Go library functions\<close>

section \<open>64-bit integers\<close>

definition wrap64 :: "int \<Rightarrow> int" where
  "wrap64 x = (x + 2 ^ 63) mod 2 ^ 64 - 2 ^ 63"

definition int64_min :: int where "int64_min = - (2 ^ 63)"

definition int64_max :: int where "int64_max = 2 ^ 63 - 1"

definition in_int64 :: "int \<Rightarrow> bool" where
  "in_int64 x \<longleftrightarrow> int64_min \<le> x \<and> x \<le> int64_max"

lemmas int64_defs = wrap64_def int64_min_def int64_max_def in_int64_def

lemma wrap64_in_range [simp]: "in_int64 (wrap64 x)"
proof -
  have "0 \<le> (x + 2 ^ 63) mod (2 ^ 64 :: int)" and "(x + 2 ^ 63) mod (2 ^ 64 :: int) < 2 ^ 64"
    by simp_all
  then show ?thesis by (simp add: int64_defs)
qed

lemma wrap64_id [simp]: "in_int64 x \<Longrightarrow> wrap64 x = x"
  by (simp add: int64_defs)

lemma wrap64_wrap64 [simp]: "wrap64 (wrap64 x) = wrap64 x"
  by simp

text \<open>Adding to a value near the top of the range wraps to the bottom.\<close>

lemma wrap64_add_overflow:
  "\<lbrakk>in_int64 a; in_int64 b; int64_max < a + b\<rbrakk> \<Longrightarrow> wrap64 (a + b) = a + b - 2 ^ 64"
  by (simp add: int64_defs) (smt (verit, ccfv_threshold) mod_add_self2 mod_pos_pos_trivial minus_mod_self2)

section \<open>Association lists and lists\<close>

text \<open>A Go map literal with string keys and \<^verbatim>\<open>true\<close> values is a list of keys.\<close>

definition in_table :: "string list \<Rightarrow> string \<Rightarrow> bool" where
  "in_table ks k \<longleftrightarrow> k \<in> set ks"

lemma in_table_iff [simp]: "in_table ks k \<longleftrightarrow> k \<in> set ks"
  by (simp add: in_table_def)

section \<open>Package strings\<close>

definition ascii_space :: "char \<Rightarrow> bool" where
  "ascii_space c \<longleftrightarrow> of_char c \<in> {9, 10, 11, 12, 13, 32 :: nat}"

text \<open>
  \<open>unicode.IsSpace\<close>: the ASCII spaces, U+0085, U+00A0, U+1680, U+2000..U+200A, U+2028,
  U+2029, U+202F, U+205F and U+3000 in their UTF-8 encodings. The result is the number of
  bytes of the white-space rune at the front, 0 when there is none.
\<close>

definition space_rune2 :: "nat \<Rightarrow> nat \<Rightarrow> bool" where
  "space_rune2 a b \<longleftrightarrow> a = 194 \<and> (b = 133 \<or> b = 160)"

definition space_rune3 :: "nat \<Rightarrow> nat \<Rightarrow> nat \<Rightarrow> bool" where
  "space_rune3 a b c \<longleftrightarrow>
     (a = 225 \<and> b = 154 \<and> c = 128) \<or>
     (a = 226 \<and> b = 128 \<and> (128 \<le> c \<and> c \<le> 138 \<or> c = 168 \<or> c = 169 \<or> c = 175)) \<or>
     (a = 226 \<and> b = 129 \<and> c = 159) \<or>
     (a = 227 \<and> b = 128 \<and> c = 128)"

fun space_at :: "string \<Rightarrow> nat" where
  "space_at [] = 0"
| "space_at (a # s) =
     (if ascii_space a then 1
      else case s of
        b # s' \<Rightarrow>
          if space_rune2 (of_char a) (of_char b) then 2
          else (case s' of
            c # _ \<Rightarrow> if space_rune3 (of_char a) (of_char b) (of_char c) then 3 else 0
          | [] \<Rightarrow> 0)
      | [] \<Rightarrow> 0)"

lemma space_at_le: "space_at s \<le> length s"
  by (cases s) (auto split: list.splits)

text \<open>The same test on the last bytes of a string, given reversed.\<close>

fun space_at_rev :: "string \<Rightarrow> nat" where
  "space_at_rev [] = 0"
| "space_at_rev (a # s) =
     (if ascii_space a then 1
      else case s of
        b # s' \<Rightarrow>
          if space_rune2 (of_char b) (of_char a) then 2
          else (case s' of
            c # _ \<Rightarrow> if space_rune3 (of_char c) (of_char b) (of_char a) then 3 else 0
          | [] \<Rightarrow> 0)
      | [] \<Rightarrow> 0)"

function trim_left_space :: "string \<Rightarrow> string" where
  "trim_left_space s = (if space_at s = 0 then s else trim_left_space (drop (space_at s) s))"
  by pat_completeness auto
termination
proof (relation "measure length", simp)
  fix s assume "space_at s \<noteq> 0"
  then have "s \<noteq> []" by (cases s) auto
  with \<open>space_at s \<noteq> 0\<close> show "(drop (space_at s) s, s) \<in> measure length" by simp
qed

function trim_left_rev :: "string \<Rightarrow> string" where
  "trim_left_rev s = (if space_at_rev s = 0 then s else trim_left_rev (drop (space_at_rev s) s))"
  by pat_completeness auto
termination
proof (relation "measure length", simp)
  fix s assume "space_at_rev s \<noteq> 0"
  then have "s \<noteq> []" by (cases s) auto
  with \<open>space_at_rev s \<noteq> 0\<close> show "(drop (space_at_rev s) s, s) \<in> measure length" by simp
qed

declare trim_left_space.simps [simp del] trim_left_rev.simps [simp del]

definition trimSpace :: "string \<Rightarrow> string" where
  "trimSpace s = rev (trim_left_rev (rev (trim_left_space s)))"

lemma trim_left_space_nil [simp]: "trim_left_space [] = []"
  by (subst trim_left_space.simps) simp

lemma trim_left_rev_nil [simp]: "trim_left_rev [] = []"
  by (subst trim_left_rev.simps) simp

lemma trimSpace_nil [simp]: "trimSpace [] = []"
  by (simp add: trimSpace_def)

lemma suffix_trim_left_space: "suffix (trim_left_space s) s"
proof (induction s rule: trim_left_space.induct)
  case (1 s)
  then show ?case
    by (subst trim_left_space.simps) (auto intro: suffix_order.trans suffix_drop)
qed

lemma space_at_trim_left_space [simp]: "space_at (trim_left_space s) = 0"
proof (induction s rule: trim_left_space.induct)
  case (1 s)
  then show ?case by (subst trim_left_space.simps) auto
qed

lemma trim_left_space_id: "space_at s = 0 \<Longrightarrow> trim_left_space s = s"
  by (subst trim_left_space.simps) simp

lemma trim_left_rev_id: "space_at_rev s = 0 \<Longrightarrow> trim_left_rev s = s"
  by (subst trim_left_rev.simps) simp

text \<open>A string whose bytes are all printable ASCII is its own trimming.\<close>

definition ascii_graphic :: "char \<Rightarrow> bool" where
  "ascii_graphic c \<longleftrightarrow> 33 \<le> (of_char c :: nat) \<and> (of_char c :: nat) \<le> 126"

lemma space_at_graphic: "ascii_graphic c \<Longrightarrow> space_at (c # s) = 0"
  by (auto simp: ascii_graphic_def ascii_space_def space_rune2_def space_rune3_def
      split: list.splits)

lemma space_at_rev_graphic: "ascii_graphic c \<Longrightarrow> space_at_rev (c # s) = 0"
  by (auto simp: ascii_graphic_def ascii_space_def space_rune2_def space_rune3_def
      split: list.splits)

lemma trimSpace_ends_graphic:
  assumes "s \<noteq> []" "ascii_graphic (hd s)" "ascii_graphic (last s)"
  shows "trimSpace s = s"
proof -
  from assms have l: "trim_left_space s = s"
    by (cases s) (auto intro!: trim_left_space_id simp: space_at_graphic simp del: space_at.simps)
  have "rev s \<noteq> []" "ascii_graphic (hd (rev s))" using assms by (auto simp: hd_rev)
  then have "trim_left_rev (rev s) = rev s"
    by (cases "rev s") (auto intro!: trim_left_rev_id simp: space_at_rev_graphic
        simp del: space_at_rev.simps)
  with l show ?thesis by (simp add: trimSpace_def)
qed

text \<open>\<open>strings.Split\<close> with a one-byte separator: never the empty list.\<close>

fun split_char :: "char \<Rightarrow> string \<Rightarrow> string list" where
  "split_char c [] = [[]]"
| "split_char c (x # xs) =
     (if x = c then [] # split_char c xs
      else case split_char c xs of
             [] \<Rightarrow> [[x]]
           | p # ps \<Rightarrow> (x # p) # ps)"

lemma split_char_not_nil [simp]: "split_char c s \<noteq> []"
  by (induction s) (auto split: list.splits)

fun join_char :: "char \<Rightarrow> string list \<Rightarrow> string" where
  "join_char c [] = []"
| "join_char c [p] = p"
| "join_char c (p # ps) = p @ c # join_char c ps"

lemma join_char_cons: "ps \<noteq> [] \<Longrightarrow> join_char c (p # ps) = p @ c # join_char c ps"
  by (cases ps) auto

lemma join_split_char [simp]: "join_char c (split_char c s) = s"
proof (induction s)
  case (Cons x xs)
  then show ?case
    by (cases "split_char c xs"; cases "tl (split_char c xs)")
       (auto simp: join_char_cons split: list.splits)
qed simp

lemma split_char_parts: "p \<in> set (split_char c s) \<Longrightarrow> c \<notin> set p"
  by (induction s arbitrary: p) (auto split: list.splits if_splits)

lemma split_char_subset: "p \<in> set (split_char c s) \<Longrightarrow> set p \<subseteq> set s"
  by (induction s arbitrary: p) (auto split: list.splits if_splits, blast+)

lemma split_char_no_sep: "c \<notin> set s \<Longrightarrow> split_char c s = [s]"
  by (induction s) auto

lemma split_char_append:
  "c \<notin> set p \<Longrightarrow> split_char c (p @ c # s) = p # split_char c s"
  by (induction p) auto

lemma split_join_char:
  "ps \<noteq> [] \<Longrightarrow> \<forall>p\<in>set ps. c \<notin> set p \<Longrightarrow> split_char c (join_char c ps) = ps"
  by (induction c ps rule: join_char.induct) (simp_all add: split_char_no_sep split_char_append)

text \<open>\<open>strings.SplitN(s, sep, 2)\<close>: the part before the first separator and the rest.\<close>

fun cut_char :: "char \<Rightarrow> string \<Rightarrow> string \<times> string option" where
  "cut_char c [] = ([], None)"
| "cut_char c (x # xs) =
     (if x = c then ([], Some xs) else (x # fst (cut_char c xs), snd (cut_char c xs)))"

lemma cut_char_None: "snd (cut_char c s) = None \<longleftrightarrow> c \<notin> set s"
  by (induction s) auto

lemma cut_char_fst: "fst (cut_char c s) = takeWhile (\<lambda>x. x \<noteq> c) s"
  by (induction s) auto

lemma cut_char_no_sep: "c \<notin> set s \<Longrightarrow> cut_char c s = (s, None)"
  by (induction s) auto

lemma cut_char_append: "c \<notin> set a \<Longrightarrow> cut_char c (a @ c # b) = (a, Some b)"
  by (induction a) auto

lemma cut_char_join: "cut_char c s = (a, Some b) \<Longrightarrow> s = a @ c # b"
proof (induction s arbitrary: a)
  case (Cons x s)
  then show ?case by (cases "cut_char c s") (auto split: if_splits)
qed simp

lemma cut_char_length: "snd (cut_char c s) = Some b \<Longrightarrow> length b < length s"
  by (induction s) (auto split: if_splits)

text \<open>\<open>strings.Fields\<close>: maximal runs of bytes that start no white-space rune.\<close>

function fields_go :: "string \<Rightarrow> string \<Rightarrow> string list" where
  "fields_go cur s =
     (case s of
        [] \<Rightarrow> (if cur = [] then [] else [rev cur])
      | c # s' \<Rightarrow>
          (if space_at s = 0 then fields_go (c # cur) s'
           else (if cur = [] then [] else [rev cur]) @ fields_go [] (drop (space_at s) s)))"
  by pat_completeness auto
termination
  by (relation "measure (\<lambda>(cur, s). length s)") (auto simp del: space_at.simps)

declare fields_go.simps [simp del]

definition str_fields :: "string \<Rightarrow> string list" where
  "str_fields s = fields_go [] s"

text \<open>\<open>strings.ReplaceAll(s, c, "")\<close> for a one-byte pattern.\<close>

definition remove_char :: "char \<Rightarrow> string \<Rightarrow> string" where
  "remove_char c s = filter (\<lambda>x. x \<noteq> c) s"

text \<open>\<open>strings.Trim(s, c)\<close> for a one-byte cutset.\<close>

definition trim_char :: "char \<Rightarrow> string \<Rightarrow> string" where
  "trim_char c s = rev (dropWhile (\<lambda>x. x = c) (rev (dropWhile (\<lambda>x. x = c) s)))"

text \<open>
  \<open>strings.ToLower\<close>. ASCII letters are exact. Of the other runes only U+0130 and U+212A
  (Kelvin) have an ASCII lower case, \<open>i\<close> and \<open>k\<close>; the remaining non-ASCII bytes are kept,
  since the code modelled here only compares the result with ASCII words.
\<close>

definition lower_ascii :: "char \<Rightarrow> char" where
  "lower_ascii c =
     (if 65 \<le> (of_char c :: nat) \<and> (of_char c :: nat) \<le> 90 then char_of ((of_char c :: nat) + 32) else c)"

fun toLower :: "string \<Rightarrow> string" where
  "toLower [] = []"
| "toLower (a # s) =
     (if of_char a = (196 :: nat) \<and> s \<noteq> [] \<and> of_char (hd s) = (176 :: nat)
      then CHR ''i'' # toLower (tl s)
      else if of_char a = (226 :: nat) \<and> 2 \<le> length s \<and> of_char (hd s) = (132 :: nat)
              \<and> of_char (s ! 1) = (170 :: nat)
      then CHR ''k'' # toLower (drop 2 s)
      else lower_ascii a # toLower s)"

lemma lower_ascii_idem [simp]: "lower_ascii (lower_ascii c) = lower_ascii c"
  by (simp add: lower_ascii_def)

lemma toLower_ascii:
  "\<forall>c\<in>set s. (of_char c :: nat) < 128 \<Longrightarrow> toLower s = map lower_ascii s"
  by (induction s rule: toLower.induct) auto

text \<open>
  \<open>strings.EqualFold(s, w)\<close> for an ASCII word \<open>w\<close>: beside the ASCII letters, U+212A (Kelvin) folds to
  \<open>k\<close> and U+017F (long s) to \<open>s\<close>; every other non-ASCII rune folds to no ASCII letter.
\<close>

fun fold_case :: "string \<Rightarrow> string" where
  "fold_case [] = []"
| "fold_case (a # s) =
     (if of_char a = (197 :: nat) \<and> s \<noteq> [] \<and> of_char (hd s) = (191 :: nat)
      then CHR ''s'' # fold_case (tl s)
      else if of_char a = (226 :: nat) \<and> 2 \<le> length s \<and> of_char (hd s) = (132 :: nat)
              \<and> of_char (s ! 1) = (170 :: nat)
      then CHR ''k'' # fold_case (drop 2 s)
      else lower_ascii a # fold_case s)"

definition equalFold :: "string \<Rightarrow> string \<Rightarrow> bool" where
  "equalFold s w \<longleftrightarrow> fold_case s = map lower_ascii w"

lemma fold_case_ascii: "\<forall>c\<in>set s. (of_char c :: nat) < 128 \<Longrightarrow> fold_case s = map lower_ascii s"
  by (induction s rule: fold_case.induct) auto

text \<open>\<open>strings.TrimRight(s, c)\<close> and \<open>strings.TrimSuffix\<close>.\<close>

definition trim_right_char :: "char \<Rightarrow> string \<Rightarrow> string" where
  "trim_right_char c s = rev (dropWhile (\<lambda>x. x = c) (rev s))"

definition trimSuffix :: "string \<Rightarrow> string \<Rightarrow> string" where
  "trimSuffix s suf = (if suffix suf s then take (length s - length suf) s else s)"

lemma trim_right_char_last: "trim_right_char c s \<noteq> [] \<Longrightarrow> last (trim_right_char c s) \<noteq> c"
  unfolding trim_right_char_def using hd_dropWhile [of "\<lambda>x. x = c" "rev s"] by (simp add: last_rev)

lemma trim_right_char_id: "s = [] \<or> last s \<noteq> c \<Longrightarrow> trim_right_char c s = s"
  by (cases s rule: rev_cases) (auto simp: trim_right_char_def)

lemma prefix_trim_right_char: "prefix (trim_right_char c s) s"
  unfolding trim_right_char_def by (metis suffix_dropWhile suffix_to_prefix rev_rev_ident)

section \<open>Package strconv\<close>

definition is_digit :: "char \<Rightarrow> bool" where
  "is_digit c \<longleftrightarrow> 48 \<le> (of_char c :: nat) \<and> (of_char c :: nat) \<le> 57"

definition digit_val :: "char \<Rightarrow> int" where
  "digit_val c = int (of_char c) - 48"

definition digits_val :: "string \<Rightarrow> int" where
  "digits_val s = foldl (\<lambda>n c. 10 * n + digit_val c) 0 s"

text \<open>\<open>strconv.Atoi\<close>: an optional sign and decimal digits, in the 64-bit range.\<close>

definition atoi :: "string \<Rightarrow> int option" where
  "atoi s =
     (let (neg, ds) = (case s of
            [] \<Rightarrow> (False, s)
          | c # r \<Rightarrow> if c = CHR ''-'' then (True, r) else if c = CHR ''+'' then (False, r)
                     else (False, s));
          v = (if neg then - digits_val ds else digits_val ds)
      in if ds \<noteq> [] \<and> list_all is_digit ds \<and> in_int64 v then Some v else None)"

lemma atoi_range: "atoi s = Some v \<Longrightarrow> in_int64 v"
  by (auto simp: atoi_def Let_def split: prod.splits if_splits)

text \<open>\<open>strconv.Itoa\<close> and \<^verbatim>\<open>%d\<close> on a natural number.\<close>

fun nat_digits :: "nat \<Rightarrow> string" where
  "nat_digits n = (if n < 10 then [char_of (48 + n)]
                   else nat_digits (n div 10) @ [char_of (48 + n mod 10)])"

declare nat_digits.simps [simp del]

definition itoa :: "int \<Rightarrow> string" where
  "itoa v = (if v < 0 then CHR ''-'' # nat_digits (nat (- v)) else nat_digits (nat v))"

lemma is_digit_char_of [simp]: "n < 10 \<Longrightarrow> is_digit (char_of (48 + n :: nat))"
  by (simp add: is_digit_def)

lemma digit_val_char_of [simp]: "n < 10 \<Longrightarrow> digit_val (char_of (48 + n :: nat)) = int n"
  by (simp add: digit_val_def)

lemma nat_digits_props:
  "nat_digits n \<noteq> [] \<and> list_all is_digit (nat_digits n) \<and> digits_val (nat_digits n) = int n"
proof (induction n rule: nat_digits.induct)
  case (1 n)
  show ?case
  proof (cases "n < 10")
    case True
    then show ?thesis by (subst (1 2 3) nat_digits.simps) (simp add: digits_val_def)
  next
    case False
    have "10 * int (n div 10) + int (n mod 10) = int n" by presburger
    with False 1 show ?thesis
      by (subst (1 2 3) nat_digits.simps) (simp add: digits_val_def)
  qed
qed

lemma atoi_nat_digits: "in_int64 (int n) \<Longrightarrow> atoi (nat_digits n) = Some (int n)"
proof -
  assume r: "in_int64 (int n)"
  have p: "nat_digits n \<noteq> []" "list_all is_digit (nat_digits n)" "digits_val (nat_digits n) = int n"
    using nat_digits_props by auto
  then obtain c ds where cd: "nat_digits n = c # ds" "is_digit c" by (cases "nat_digits n") auto
  then have "c \<noteq> CHR ''-''" "c \<noteq> CHR ''+''" by (auto simp: is_digit_def)
  with p cd r show ?thesis by (simp add: atoi_def)
qed

lemma atoi_itoa: "in_int64 v \<Longrightarrow> atoi (itoa v) = Some v"
proof (cases "v < 0")
  case True
  assume "in_int64 v"
  with True nat_digits_props [of "nat (- v)"] show ?thesis
    by (simp add: atoi_def itoa_def)
next
  case False
  assume "in_int64 v"
  with False atoi_nat_digits [of "nat v"] show ?thesis by (simp add: itoa_def)
qed

section \<open>Package base64\<close>

text \<open>
  \<open>EncodeToString\<close> of the padded encodings, on bytes given as numbers; \<open>e\<close> gives the character of a
  six-bit value.
\<close>

fun base64_encode :: "(nat \<Rightarrow> char) \<Rightarrow> nat list \<Rightarrow> string" where
  "base64_encode e [] = []"
| "base64_encode e [a] = [e (a div 4), e (a mod 4 * 16), CHR ''='', CHR ''='']"
| "base64_encode e [a, b] = [e (a div 4), e (a mod 4 * 16 + b div 16), e (b mod 16 * 4), CHR ''='']"
| "base64_encode e (a # b # c # r) =
     [e (a div 4), e (a mod 4 * 16 + b div 16), e (b mod 16 * 4 + c div 64), e (c mod 64)] @ base64_encode e r"

definition base64_chars :: string where
  "base64_chars = ''ABCDEFGHIJKLMNOPQRSTUVWXYZabcdefghijklmnopqrstuvwxyz0123456789''"

definition StdEncoding :: "nat list \<Rightarrow> string" where
  "StdEncoding = base64_encode (\<lambda>n. (base64_chars @ ''+/'') ! n)"

definition URLEncoding :: "nat list \<Rightarrow> string" where
  "URLEncoding = base64_encode (\<lambda>n. (base64_chars @ ''-_'') ! n)"

lemma base64_encode_nil [simp]: "base64_encode e bs = [] \<longleftrightarrow> bs = []"
  by (cases "(e, bs)" rule: base64_encode.cases) auto

lemma StdEncoding_nil [simp]: "StdEncoding bs = [] \<longleftrightarrow> bs = []"
  by (simp add: StdEncoding_def)

lemma URLEncoding_nil [simp]: "URLEncoding bs = [] \<longleftrightarrow> bs = []"
  by (simp add: URLEncoding_def)

section \<open>Lists\<close>

lemma in_set_map_filter: "y \<in> set (List.map_filter f xs) \<longleftrightarrow> (\<exists>x\<in>set xs. f x = Some y)"
  by (force simp: map_filter_def)

lemma sorted_le_last: "sorted xs \<Longrightarrow> x \<in> set xs \<Longrightarrow> x \<le> last xs"
  by (induction xs) auto

section \<open>Text search and separators\<close>

fun contains :: "string \<Rightarrow> string \<Rightarrow> bool" where
  "contains pat [] \<longleftrightarrow> pat = []"
| "contains pat (c # s) \<longleftrightarrow> prefix pat (c # s) \<or> contains pat s"

lemma contains_chars: "contains pat s \<Longrightarrow> set pat \<subseteq> set s"
proof (induction s)
  case (Cons c s)
  then show ?case using set_mono_prefix [of pat "c # s"] by auto
qed simp

lemma contains_append1: "contains pat s \<Longrightarrow> contains pat (a @ s)"
  by (induction a) auto

lemma contains_append2: "contains pat s \<Longrightarrow> contains pat (s @ b)"
proof (induction s)
  case Nil
  then show ?case by (cases b) auto
next
  case (Cons c s)
  then show ?case using prefix_prefix [of pat "c # s" b] by auto
qed

lemma split_char_sep: "split_char c (a @ c # b) = split_char c a @ split_char c b"
proof (induction a)
  case (Cons x a)
  then show ?case by (cases "split_char c a") (auto simp: split: list.splits)
qed simp

lemma trim_char_cons [simp]: "trim_char c (c # s) = trim_char c s"
  by (simp add: trim_char_def)

lemma trim_char_id: "s \<noteq> [] \<Longrightarrow> hd s \<noteq> c \<Longrightarrow> last s \<noteq> c \<Longrightarrow> trim_char c s = s"
proof -
  assume "s \<noteq> []" "hd s \<noteq> c" "last s \<noteq> c"
  then have "\<not> (\<lambda>x. x = c) (hd s)" "\<not> (\<lambda>x. x = c) (hd (rev s))" by (simp_all add: hd_rev)
  then have "dropWhile (\<lambda>x. x = c) s = s" "dropWhile (\<lambda>x. x = c) (rev s) = rev s"
    using dropWhile_eq_self_iff [of _ s] dropWhile_eq_self_iff [of _ "rev s"] by blast+
  then show ?thesis by (simp add: trim_char_def)
qed

lemma trim_char_nil [simp]: "trim_char c [] = []"
  by (simp add: trim_char_def)

lemma trim_char_eq_nil:
  assumes "trim_char c s = []"
  shows "\<forall>x\<in>set s. x = c"
proof -
  let ?d = "dropWhile (\<lambda>x. x = c) s"
  have "dropWhile (\<lambda>x. x = c) (rev ?d) = []" using assms by (simp only: trim_char_def rev_is_Nil_conv)
  then have all: "\<forall>x\<in>set ?d. x = c" by (simp only: dropWhile_eq_Nil_conv set_rev)
  have "?d = []"
  proof (rule ccontr)
    assume n: "?d \<noteq> []"
    from hd_dropWhile [OF this] have "hd ?d \<noteq> c" .
    with all hd_in_set [OF n] show False by blast
  qed
  then show ?thesis by (simp only: dropWhile_eq_Nil_conv)
qed

end
