(* ===== verification/Go_Time.thy ===== *)
theory Go_Time
  imports Go_Prelude
begin

text \<open>
  Package \<^verbatim>\<open>time\<close> as the sources use it. An instant (\<^verbatim>\<open>time.Time\<close>) is the number of
  nanoseconds since the Unix epoch, a \<^verbatim>\<open>time.Duration\<close> a number of nanoseconds. The calendar
  is the proleptic Gregorian one. A location is the offset in seconds that applies at a Unix
  second; it stands for the zone database of the host and is a parameter of every definition
  that reads local fields.
\<close>

type_synonym instant = int
type_synonym duration = int
type_synonym location = "int \<Rightarrow> int"

definition second_ns :: int where "second_ns = 1000000000"
definition minute_ns :: int where "minute_ns = 60 * second_ns"
definition hour_ns :: int where "hour_ns = 60 * minute_ns"
definition day_ns :: int where "day_ns = 24 * hour_ns"

lemmas unit_defs = second_ns_def minute_ns_def hour_ns_def day_ns_def

definition utc :: location where "utc s = 0"

text \<open>The zero \<^verbatim>\<open>time.Time\<close>: 0001-01-01 00:00:00 UTC.\<close>

definition zero_time :: instant where "zero_time = - 62135596800 * second_ns"

definition isZero :: "instant \<Rightarrow> bool" where "isZero t \<longleftrightarrow> t = zero_time"

section \<open>The calendar\<close>

definition leap :: "int \<Rightarrow> bool" where
  "leap y \<longleftrightarrow> y mod 4 = 0 \<and> (y mod 100 \<noteq> 0 \<or> y mod 400 = 0)"

text \<open>Days from 0001-01-01 to January 1 of year \<open>y\<close>.\<close>

definition days_before_year :: "int \<Rightarrow> int" where
  "days_before_year y = 365 * (y - 1) + (y - 1) div 4 - (y - 1) div 100 + (y - 1) div 400"

definition month_len :: "int \<Rightarrow> int \<Rightarrow> int" where
  "month_len y m =
     (if m = 2 then (if leap y then 29 else 28)
      else if m = 4 \<or> m = 6 \<or> m = 9 \<or> m = 11 then 30 else 31)"

text \<open>Days from January 1 to the first of month \<open>m\<close>.\<close>

definition days_before_month :: "int \<Rightarrow> int \<Rightarrow> int" where
  "days_before_month y m = (\<Sum>k\<leftarrow>[1..m - 1]. month_len y k)"

definition year_of :: "int \<Rightarrow> int" where
  "year_of a =
     (let y = (400 * a) div 146097 + 1
      in if a < days_before_year y then y - 1
         else if days_before_year (y + 1) \<le> a then y + 1 else y)"

function month_from :: "int \<Rightarrow> int \<Rightarrow> int \<Rightarrow> int \<times> int" where
  "month_from y m r =
     (if m < 12 \<and> month_len y m \<le> r then month_from y (m + 1) (r - month_len y m) else (m, r + 1))"
  by pat_completeness auto
termination by (relation "measure (\<lambda>(y, m, r). nat (12 - m))") auto

declare month_from.simps [simp del]

text \<open>Year, month and day of a day number counted from 1970-01-01.\<close>

definition civil :: "int \<Rightarrow> int \<times> int \<times> int" where
  "civil d =
     (let a = d + 719162; y = year_of a in (y, month_from y 1 (a - days_before_year y)))"

definition days_of :: "int \<Rightarrow> int \<Rightarrow> int \<Rightarrow> int" where
  "days_of y m d = days_before_year y + days_before_month y m + (d - 1) - 719162"

definition valid_date :: "int \<Rightarrow> int \<Rightarrow> int \<Rightarrow> bool" where
  "valid_date y m d \<longleftrightarrow> 1 \<le> m \<and> m \<le> 12 \<and> 1 \<le> d \<and> d \<le> month_len y m"

lemma month_len_bounds: "28 \<le> month_len y m \<and> month_len y m \<le> 31"
  by (simp add: month_len_def)

lemma upto_simps_12:
  "[1..1] = [1::int]" "[1..2] = [1,2::int]" "[1..3] = [1,2,3::int]" "[1..4] = [1,2,3,4::int]"
  "[1..5] = [1,2,3,4,5::int]" "[1..6] = [1,2,3,4,5,6::int]" "[1..7] = [1,2,3,4,5,6,7::int]"
  "[1..8] = [1,2,3,4,5,6,7,8::int]" "[1..9] = [1,2,3,4,5,6,7,8,9::int]"
  "[1..10] = [1,2,3,4,5,6,7,8,9,10::int]" "[1..11] = [1,2,3,4,5,6,7,8,9,10,11::int]"
  "[1..12] = [1,2,3,4,5,6,7,8,9,10,11,12::int]"
  by (simp_all add: upto_rec1)

lemma days_before_month_Suc:
  "1 \<le> m \<Longrightarrow> days_before_month y (m + 1) = days_before_month y m + month_len y m"
  by (simp add: days_before_month_def upto_rec2)

lemma days_before_month_1 [simp]: "days_before_month y 1 = 0"
  by (simp add: days_before_month_def)

lemma days_before_month_13: "days_before_month y 13 = (if leap y then 366 else 365)"
  by (simp add: days_before_month_def upto_simps_12 month_len_def)

lemma div_of_step:
  fixes n k :: int
  assumes "0 < k"
  shows "n div k = (n - 1) div k + (if n mod k = 0 then 1 else 0)"
proof (cases "n mod k = 0")
  case True
  then obtain q where "n = k * q" by (auto simp: mod_eq_0_iff_dvd)
  moreover have "(k * q - 1) div k = q - 1"
    using assms by (intro int_div_pos_eq [where r = "k - 1"]) (auto simp: algebra_simps)
  ultimately show ?thesis using assms by simp
next
  case False
  have "(n - 1) div k = n div k"
  proof (rule int_div_pos_eq [where r = "n mod k - 1"])
    show "n - 1 = k * (n div k) + (n mod k - 1)" by simp
    show "0 \<le> n mod k - 1" using False assms pos_mod_sign [of k n] by linarith
    show "n mod k - 1 < k" using pos_mod_bound [OF assms, of n] by linarith
  qed
  with False show ?thesis by simp
qed

lemma leap_carry:
  fixes y p q r :: int
  assumes "B \<Longrightarrow> A" "C \<Longrightarrow> B"
  shows "365 * y + (p + (if A then 1 else 0)) - (q + (if B then 1 else 0)) + (r + (if C then 1 else 0))
    = 365 * (y - 1) + p - q + r + (if A \<and> (\<not> B \<or> C) then 366 else 365)"
  using assms by (cases A; cases B; cases C) simp_all

lemma days_before_year_Suc:
  "days_before_year (y + 1) = days_before_year y + (if leap y then 366 else 365)"
proof -
  have "y mod 100 = 0 \<Longrightarrow> y mod 4 = 0" and "y mod 400 = 0 \<Longrightarrow> y mod 100 = 0"
    unfolding mod_eq_0_iff_dvd by (rule dvd_trans [rotated], assumption, simp)+
  then have "365 * y + ((y - 1) div 4 + (if y mod 4 = 0 then 1 else 0))
      - ((y - 1) div 100 + (if y mod 100 = 0 then 1 else 0))
      + ((y - 1) div 400 + (if y mod 400 = 0 then 1 else 0))
    = days_before_year y + (if leap y then 366 else 365)"
    unfolding days_before_year_def leap_def by (rule leap_carry)
  moreover have "days_before_year (y + 1) = 365 * y + y div 4 - y div 100 + y div 400"
    by (simp add: days_before_year_def)
  moreover have "0 < (4::int)" "0 < (100::int)" "0 < (400::int)" by simp_all
  ultimately show ?thesis by (metis div_of_step)
qed

lemma div_mult_bounds:
  fixes n k :: int
  assumes "0 < k"
  shows "k * (n div k) \<le> n \<and> n \<le> k * (n div k) + (k - 1)"
proof -
  have "k * (n div k) + n mod k = n" by (rule mult_div_mod_eq)
  moreover have "0 \<le> n mod k" "n mod k < k" using assms by simp_all
  ultimately show ?thesis by linarith
qed

lemma div_below:
  fixes r k n :: int
  assumes "0 < k" "0 \<le> r" "r < k * n"
  shows "0 \<le> r div k \<and> r div k \<le> n - 1"
proof
  show "0 \<le> r div k" using assms by (simp add: pos_imp_zdiv_nonneg_iff)
  have "k * (r div k) < k * n" using div_mult_bounds [OF assms(1), of r] assms(3) by linarith
  with assms(1) show "r div k \<le> n - 1" by simp
qed

lemma days_before_year_bounds:
  "146097 * (y - 1) - 699 \<le> 400 * days_before_year y"
  "400 * days_before_year y \<le> 146097 * (y - 1) + 396"
proof -
  define p q r where "p = (y - 1) div 4" and "q = (y - 1) div 100" and "r = (y - 1) div 400"
  have e: "days_before_year y = 365 * (y - 1) + p - q + r"
    by (simp add: days_before_year_def p_def q_def r_def)
  have b: "4 * p \<le> y - 1" "y - 1 \<le> 4 * p + 3" "100 * q \<le> y - 1" "y - 1 \<le> 100 * q + 99"
    "400 * r \<le> y - 1" "y - 1 \<le> 400 * r + 399"
    using div_mult_bounds [of 4 "y - 1"] div_mult_bounds [of 100 "y - 1"]
      div_mult_bounds [of 400 "y - 1"] by (simp_all add: p_def q_def r_def)
  show "146097 * (y - 1) - 699 \<le> 400 * days_before_year y"
    unfolding e using b by (simp add: algebra_simps)
  show "400 * days_before_year y \<le> 146097 * (y - 1) + 396"
    unfolding e using b by (simp add: algebra_simps)
qed

lemma year_of_spec: "days_before_year (year_of a) \<le> a \<and> a < days_before_year (year_of a + 1)"
proof -
  define y where "y = (400 * a) div 146097 + 1"
  have q: "146097 * (y - 1) \<le> 400 * a" "400 * a < 146097 * (y - 1) + 146097"
    using div_mult_bounds [of 146097 "400 * a"] by (simp_all add: y_def)
  have lo: "days_before_year (y - 1) \<le> a"
    using q days_before_year_bounds(2) [of "y - 1"] by (simp add: algebra_simps)
  have hi: "a < days_before_year (y + 2)"
    using q days_before_year_bounds(1) [of "y + 2"] by (simp add: algebra_simps)
  have "year_of a = (if a < days_before_year y then y - 1
      else if days_before_year (y + 1) \<le> a then y + 1 else y)"
    by (simp only: year_of_def Let_def y_def)
  then show ?thesis using lo hi by (simp add: not_less not_le add.commute [of y])
qed

lemma days_before_year_mono: "y < z \<Longrightarrow> days_before_year (y + 1) \<le> days_before_year z"
proof -
  assume "y < z"
  then obtain n where "z = y + 1 + int n" by (metis zless_iff_Suc_zadd add.assoc of_nat_Suc add.commute)
  moreover have "days_before_year (y + 1) \<le> days_before_year (y + 1 + int n)"
  proof (induction n)
    case (Suc n)
    then show ?case
      using days_before_year_Suc [of "y + 1 + int n"] by (simp add: algebra_simps split: if_splits)
  qed simp
  ultimately show ?thesis by simp
qed

lemma year_of_unique:
  assumes "days_before_year y \<le> a" "a < days_before_year (y + 1)"
  shows "year_of a = y"
proof (rule ccontr)
  assume "year_of a \<noteq> y"
  then consider "year_of a < y" | "y < year_of a" by linarith
  then show False
    using assms year_of_spec [of a] days_before_year_mono [of "year_of a" y]
      days_before_year_mono [of y "year_of a"] by cases linarith+
qed

lemma month_from_spec:
  assumes "1 \<le> m" "m \<le> 12" "0 \<le> r" "days_before_month y m + r < days_before_month y 13"
  shows "case month_from y m r of (m', d) \<Rightarrow>
    valid_date y m' d \<and> days_before_month y m' + (d - 1) = days_before_month y m + r"
  using assms
proof (induction y m r rule: month_from.induct)
  case (1 y m r)
  show ?case
  proof (cases "m < 12 \<and> month_len y m \<le> r")
    case True
    have "case month_from y (m + 1) (r - month_len y m) of (m', d) \<Rightarrow>
      valid_date y m' d \<and>
      days_before_month y m' + (d - 1) = days_before_month y (m + 1) + (r - month_len y m)"
      using True "1.prems" by (intro "1.IH") (auto simp: days_before_month_Suc)
    with True "1.prems" show ?thesis
      by (subst month_from.simps) (simp add: days_before_month_Suc split: prod.splits)
  next
    case False
    have "r < month_len y m"
    proof (cases "m < 12")
      case False
      with "1.prems" have "m = 12" by simp
      with "1.prems" days_before_month_Suc [of 12 y] show ?thesis by simp
    qed (use False in simp)
    with False "1.prems" show ?thesis
      by (subst month_from.simps) (auto simp: valid_date_def)
  qed
qed

lemma civil_spec:
  assumes "civil d = (y, m, dd)"
  shows "valid_date y m dd" "days_of y m dd = d"
proof -
  define a where "a = d + 719162"
  have y: "y = year_of a" and md: "month_from y 1 (a - days_before_year y) = (m, dd)"
    using assms by (auto simp: civil_def Let_def a_def)
  have b: "days_before_year y \<le> a" "a < days_before_year (y + 1)"
    using year_of_spec y by auto
  have "a - days_before_year y < days_before_month y 13"
    using b days_before_year_Suc [of y] by (simp add: days_before_month_13)
  with b month_from_spec [of 1 "a - days_before_year y" y] md
  have "valid_date y m dd \<and> days_before_month y m + (dd - 1) = a - days_before_year y" by simp
  then show "valid_date y m dd" "days_of y m dd = d"
    by (auto simp: days_of_def a_def)
qed

lemma days_before_month_mono:
  assumes "1 \<le> m" "m < k" "k \<le> 13"
  shows "days_before_month y m + month_len y m \<le> days_before_month y k"
proof -
  have "days_before_month y (m + 1) \<le> days_before_month y (m + 1 + int n)" for n
  proof (induction n)
    case (Suc n)
    have "days_before_month y (m + 1 + int n + 1)
        = days_before_month y (m + 1 + int n) + month_len y (m + 1 + int n)"
      using assms(1) by (intro days_before_month_Suc) simp
    with Suc month_len_bounds [of y "m + 1 + int n"] show ?case by (simp add: algebra_simps)
  qed simp
  from this [of "nat (k - m - 1)"] assms show ?thesis by (simp add: days_before_month_Suc)
qed

lemma valid_date_unique:
  assumes "valid_date y m d" "valid_date y m' d'"
    "days_before_month y m + d = days_before_month y m' + d'"
  shows "m = m' \<and> d = d'"
proof -
  consider "m = m'" | "m < m'" | "m' < m" by linarith
  then show ?thesis
    using assms days_before_month_mono [of m m' y] days_before_month_mono [of m' m y]
    by cases (auto simp: valid_date_def)
qed

lemma civil_days_of:
  assumes "valid_date y m d"
  shows "civil (days_of y m d) = (y, m, d)"
proof -
  obtain y' m' d' where c: "civil (days_of y m d) = (y', m', d')" by (cases "civil (days_of y m d)")
  note s = civil_spec [OF c]
  have in_year: "days_before_year z \<le> days_of z k e + 719162 \<and>
      days_of z k e + 719162 < days_before_year (z + 1)" if "valid_date z k e" for z k e
  proof -
    have k: "1 \<le> k" "k \<le> 12" "1 \<le> e" "e \<le> month_len z k" using that by (auto simp: valid_date_def)
    have "0 \<le> days_before_month z k"
      using days_before_month_mono [of 1 k z] month_len_bounds [of z 1] k by (cases "k = 1") auto
    moreover have "days_before_month z k + month_len z k \<le> days_before_month z 13"
      using k by (intro days_before_month_mono) auto
    ultimately show ?thesis
      using k days_before_year_Suc [of z] by (auto simp: days_of_def days_before_month_13)
  qed
  have "y' = y"
    using in_year [OF s(1)] in_year [OF assms] s(2)
      year_of_unique [of y "days_of y m d + 719162"]
      year_of_unique [of y' "days_of y m d + 719162"] by simp
  with s(2) have "days_before_month y m + d = days_before_month y m' + d'"
    by (simp add: days_of_def)
  with s(1) assms \<open>y' = y\<close> c valid_date_unique [of y m d m' d'] show ?thesis by simp
qed

section \<open>Fields of an instant\<close>

definition unix_sec :: "instant \<Rightarrow> int" where "unix_sec t = t div second_ns"

definition local_sec :: "location \<Rightarrow> instant \<Rightarrow> int" where
  "local_sec z t = unix_sec t + z (unix_sec t)"

definition year :: "location \<Rightarrow> instant \<Rightarrow> int" where
  "year z t = fst (civil (local_sec z t div 86400))"

definition month :: "location \<Rightarrow> instant \<Rightarrow> int" where
  "month z t = fst (snd (civil (local_sec z t div 86400)))"

definition day :: "location \<Rightarrow> instant \<Rightarrow> int" where
  "day z t = snd (snd (civil (local_sec z t div 86400)))"

text \<open>0 is Sunday; 1970-01-01 was a Thursday.\<close>

definition weekday :: "location \<Rightarrow> instant \<Rightarrow> int" where
  "weekday z t = (local_sec z t div 86400 + 4) mod 7"

definition hour :: "location \<Rightarrow> instant \<Rightarrow> int" where
  "hour z t = local_sec z t mod 86400 div 3600"

definition minute :: "location \<Rightarrow> instant \<Rightarrow> int" where
  "minute z t = local_sec z t mod 3600 div 60"

definition sec :: "location \<Rightarrow> instant \<Rightarrow> int" where
  "sec z t = local_sec z t mod 60"

text \<open>\<open>t.Truncate(time.Minute)\<close>: the zero time is a whole number of minutes before the epoch.\<close>

definition truncate_minute :: "instant \<Rightarrow> instant" where
  "truncate_minute t = t - t mod minute_ns"

lemma date_valid: "valid_date (year z t) (month z t) (day z t)"
  using civil_spec(1) [of "local_sec z t div 86400" "year z t" "month z t" "day z t"]
  by (simp add: year_def month_def day_def)

lemma field_ranges:
  "1 \<le> month z t" "month z t \<le> 12" "1 \<le> day z t" "day z t \<le> 31"
  "0 \<le> weekday z t" "weekday z t \<le> 6" "0 \<le> hour z t" "hour z t \<le> 23"
  "0 \<le> minute z t" "minute z t \<le> 59"
proof -
  show "1 \<le> month z t" "month z t \<le> 12" "1 \<le> day z t" "day z t \<le> 31"
    using date_valid [of z t] month_len_bounds [of "year z t" "month z t"]
    by (auto simp: valid_date_def)
  show "0 \<le> weekday z t" "weekday z t \<le> 6"
    using pos_mod_bound [of 7 "local_sec z t div 86400 + 4"] by (simp_all add: weekday_def)
  show "0 \<le> hour z t" "hour z t \<le> 23"
    using div_below [of 3600 "local_sec z t mod 86400" 24] by (simp_all add: hour_def)
  show "0 \<le> minute z t" "minute z t \<le> 59"
    using div_below [of 60 "local_sec z t mod 3600" 60] by (simp_all add: minute_def)
qed

lemma feb_day: "month z t = 2 \<Longrightarrow> day z t \<le> 29"
  using date_valid [of z t] by (auto simp: valid_date_def month_len_def split: if_splits)

lemma truncate_minute_bounds: "truncate_minute t \<le> t" "t < truncate_minute t + minute_ns"
proof -
  have "0 \<le> t mod minute_ns" "t mod minute_ns < minute_ns" by (simp_all add: unit_defs)
  then show "truncate_minute t \<le> t" "t < truncate_minute t + minute_ns"
    by (simp_all add: truncate_minute_def)
qed

section \<open>Duration.String\<close>

text \<open>\<open>prec\<close> fractional digits of \<open>v\<close>, least significant first, without trailing zeros.\<close>

fun frac_digits_rev :: "nat \<Rightarrow> int \<Rightarrow> string" where
  "frac_digits_rev 0 v = []"
| "frac_digits_rev (Suc prec) v = char_of (48 + nat (v mod 10)) # frac_digits_rev prec (v div 10)"

definition fmtFrac :: "nat \<Rightarrow> int \<Rightarrow> string" where
  "fmtFrac prec v =
     (let ds = dropWhile (\<lambda>c. c = CHR ''0'') (frac_digits_rev prec v)
      in if ds = [] then [] else CHR ''.'' # rev ds)"

definition duration_string :: "duration \<Rightarrow> string" where
  "duration_string d =
     (let u = \<bar>d\<bar>;
          body =
            (if u < second_ns then
               (if u = 0 then ''0s''
                else if u < 1000 then itoa u @ ''ns''
                else if u < 1000000 then itoa (u div 1000) @ fmtFrac 3 u @ [char_of (194::nat), char_of (181::nat)] @ ''s''
                else itoa (u div 1000000) @ fmtFrac 6 u @ ''ms'')
             else
               (let secs = u div second_ns; mins = secs div 60; hours = mins div 60;
                    s_part = itoa (secs mod 60) @ fmtFrac 9 u @ ''s'';
                    m_part = (if mins > 0 then itoa (mins mod 60) @ ''m'' else []);
                    h_part = (if hours > 0 then itoa hours @ ''h'' else [])
                in h_part @ m_part @ s_part))
      in if d < 0 then CHR ''-'' # body else body)"

end
