(* ===== verification/Cron.thy ===== *)
theory Cron
  imports Go_Time
begin

text \<open>
  The schedule language of \<^verbatim>\<open>src/scheduler/cron.go\<close>: five-field cron expressions,
  descriptors and \<^verbatim>\<open>@every\<close> intervals, the parser and the search for the next
  activation. The parser's value loop is kept at 64 bits and may in principle run forever, so
  the parser returns an option (\<open>None\<close>: it does not return); that it always returns is proved.
  The one floating-point expression of \<^verbatim>\<open>time.ParseDuration\<close> (the nanoseconds of a decimal
  fraction) is the parameter \<open>fracNs\<close>.
\<close>

section \<open>Schedules\<close>

type_synonym fieldSet = "int set"

record cronSchedule =
  cminute :: fieldSet
  chour :: fieldSet
  cdom :: fieldSet
  cmonth :: fieldSet
  cdow :: fieldSet

datatype Schedule = EverySchedule duration | CronSchedule cronSchedule

definition maxScanMinutes :: int where
  "maxScanMinutes = 4 * 366 * 24 * 60"

text \<open>The condition tested for one minute of the scan.\<close>

definition cron_matches :: "location \<Rightarrow> cronSchedule \<Rightarrow> instant \<Rightarrow> bool" where
  "cron_matches z c t \<longleftrightarrow>
     month z t \<in> cmonth c \<and> day z t \<in> cdom c \<and> weekday z t \<in> cdow c \<and>
     hour z t \<in> chour c \<and> minute z t \<in> cminute c"

function cron_scan :: "location \<Rightarrow> cronSchedule \<Rightarrow> int \<Rightarrow> instant \<Rightarrow> instant" where
  "cron_scan z c i next =
     (if i < maxScanMinutes
      then (if cron_matches z c next then next else cron_scan z c (i + 1) (next + minute_ns))
      else zero_time)"
  by pat_completeness auto
termination by (relation "measure (\<lambda>(z, c, i, n). nat (maxScanMinutes - i))") auto

declare cron_scan.simps [simp del]

definition cron_next :: "location \<Rightarrow> cronSchedule \<Rightarrow> instant \<Rightarrow> instant" where
  "cron_next z c t = cron_scan z c 0 (truncate_minute t + minute_ns)"

definition every_next :: "duration \<Rightarrow> instant \<Rightarrow> instant" where
  "every_next interval t = t + interval"

definition schedule_next :: "location \<Rightarrow> Schedule \<Rightarrow> instant \<Rightarrow> instant" where
  "schedule_next z s t =
     (case s of EverySchedule d \<Rightarrow> every_next d t | CronSchedule c \<Rightarrow> cron_next z c t)"

section \<open>time.ParseDuration\<close>

fun leadingInt :: "int \<Rightarrow> string \<Rightarrow> (int \<times> string) option" where
  "leadingInt x [] = Some (x, [])"
| "leadingInt x (c # s) =
     (if \<not> is_digit c then Some (x, c # s)
      else if x > 2 ^ 63 div 10 then None
      else if x * 10 + digit_val c > 2 ^ 63 then None
      else leadingInt (x * 10 + digit_val c) s)"

fun leadingFraction :: "int \<Rightarrow> int \<Rightarrow> bool \<Rightarrow> string \<Rightarrow> int \<times> int \<times> string" where
  "leadingFraction x scale ovf [] = (x, scale, [])"
| "leadingFraction x scale ovf (c # s) =
     (if \<not> is_digit c then (x, scale, c # s)
      else if ovf \<or> x > (2 ^ 63 - 1) div 10 \<or> x * 10 + digit_val c > 2 ^ 63
      then leadingFraction x scale True s
      else leadingFraction (x * 10 + digit_val c) (scale * 10) False s)"

definition unitMap :: "(string \<times> int) list" where
  "unitMap =
     [(''ns'', 1), (''us'', 1000), (char_of (194::nat) # char_of (181::nat) # ''s'', 1000),
      (char_of (206::nat) # char_of (188::nat) # ''s'', 1000), (''ms'', 1000000),
      (''s'', second_ns), (''m'', minute_ns), (''h'', hour_ns)]"

definition unit_char :: "char \<Rightarrow> bool" where
  "unit_char c \<longleftrightarrow> \<not> (c = CHR ''.'' \<or> is_digit c)"

type_synonym frac_ns = "int \<Rightarrow> int \<Rightarrow> int \<Rightarrow> int"

text \<open>One \<^verbatim>\<open>number unit\<close> group: its value in nanoseconds and the rest of the text.\<close>

definition duration_group :: "frac_ns \<Rightarrow> string \<Rightarrow> (int \<times> string) option" where
  "duration_group fracNs s =
     (if s = [] \<or> unit_char (hd s) then None
      else case leadingInt 0 s of
        None \<Rightarrow> None
      | Some (v, s1) \<Rightarrow>
          (let pre = length s1 \<noteq> length s;
               (f, scale, s2) = (case s1 of
                   c # r \<Rightarrow> if c = CHR ''.'' then leadingFraction 0 1 False r else (0, 1, s1)
                 | [] \<Rightarrow> (0, 1, s1));
               post = (s1 \<noteq> [] \<and> hd s1 = CHR ''.'' \<and> length s2 \<noteq> length (tl s1));
               u = takeWhile unit_char s2;
               rest = dropWhile unit_char s2
           in if \<not> pre \<and> \<not> post then None
              else if u = [] then None
              else case map_of unitMap u of
                None \<Rightarrow> None
              | Some unit \<Rightarrow>
                  if v > 2 ^ 63 div unit then None
                  else let v1 = (if f > 0 then (v * unit + fracNs f unit scale) mod 2 ^ 64
                                 else v * unit)
                       in if v1 > 2 ^ 63 then None else Some (v1, rest)))"

lemma leadingInt_length: "leadingInt x s = Some (v, r) \<Longrightarrow> length r \<le> length s"
  by (induction x s rule: leadingInt.induct) (auto split: if_splits)

lemma leadingFraction_length: "leadingFraction x sc ov s = (f, g, r) \<Longrightarrow> length r \<le> length s"
  by (induction x sc ov s rule: leadingFraction.induct) (auto split: if_splits)

lemma dropWhile_less:
  "takeWhile P xs \<noteq> [] \<Longrightarrow> length (dropWhile P xs) < length xs"
  by (cases xs) (auto simp: le_imp_less_Suc length_dropWhile_le split: if_splits)

lemma duration_group_length:
  assumes "duration_group fr s = Some (v, r)"
  shows "length r < length s"
proof -
  obtain v0 s1 where l: "leadingInt 0 s = Some (v0, s1)"
    using assms by (auto simp: duration_group_def split: if_splits option.splits)
  obtain f sc s2 where f: "(case s1 of c # r \<Rightarrow> if c = CHR ''.'' then leadingFraction 0 1 False r
      else (0, 1, s1) | [] \<Rightarrow> (0, 1, s1)) = (f, sc, s2)" by (metis prod.collapse)
  have le: "length s2 \<le> length s"
  proof -
    have "length s2 \<le> length s1"
      using f leadingFraction_length [of 0 1 False "tl s1" f sc s2]
      by (auto split: list.splits if_splits)
    with leadingInt_length [OF l] show ?thesis by simp
  qed
  have "takeWhile unit_char s2 \<noteq> [] \<and> r = dropWhile unit_char s2"
    using assms l f by (auto simp: duration_group_def Let_def split: if_splits option.splits)
  with dropWhile_less [of unit_char s2] le show ?thesis by simp
qed

function duration_loop :: "frac_ns \<Rightarrow> int \<Rightarrow> string \<Rightarrow> int option" where
  "duration_loop fracNs d s =
     (if s = [] then Some d
      else case duration_group fracNs s of
        None \<Rightarrow> None
      | Some (v, r) \<Rightarrow>
          (let d' = (d + v) mod 2 ^ 64
           in if d' > 2 ^ 63 then None else duration_loop fracNs d' r))"
  by pat_completeness auto
termination
  by (relation "measure (\<lambda>(fr, d, s). length s)") (auto dest: duration_group_length)

declare duration_loop.simps [simp del]

definition parseDuration :: "frac_ns \<Rightarrow> string \<Rightarrow> duration option" where
  "parseDuration fracNs s0 =
     (let neg = (s0 \<noteq> [] \<and> hd s0 = CHR ''-'');
          s = (if s0 \<noteq> [] \<and> (hd s0 = CHR ''-'' \<or> hd s0 = CHR ''+'') then tl s0 else s0)
      in if s = ''0'' then Some 0
         else if s = [] then None
         else case duration_loop fracNs 0 s of
           None \<Rightarrow> None
         | Some d \<Rightarrow> if neg then Some (wrap64 (- d))
                     else if d > 2 ^ 63 - 1 then None else Some d)"

section \<open>The parser\<close>

datatype field_error =
    InvalidStep string
  | NonPositiveStep string
  | InvalidValue string
  | OutOfRange string
  | EmptyField string

datatype schedule_error =
    EmptySchedule
  | InvalidEvery string
  | NonPositiveEvery string
  | UnknownDescriptor string
  | WrongFieldCount string nat
  | FieldError string field_error

definition splitStep :: "string \<Rightarrow> field_error + (string \<times> int)" where
  "splitStep part =
     (case cut_char CHR ''/'' part of
        (rangePart, None) \<Rightarrow> Inr (rangePart, 1)
      | (rangePart, Some st) \<Rightarrow>
          (case atoi st of
             None \<Rightarrow> Inl (InvalidStep st)
           | Some step \<Rightarrow> if step \<le> 0 then Inl (NonPositiveStep st) else Inr (rangePart, step)))"

text \<open>\<open>for v := lo; v <= hi; v += step { set[v] = true }\<close>, the addition at 64 bits.\<close>

partial_function (option) fill_range :: "int \<Rightarrow> int \<Rightarrow> int \<Rightarrow> fieldSet \<Rightarrow> fieldSet option" where
  "fill_range v hi step S =
     (if v \<le> hi then fill_range (wrap64 (v + step)) hi step (insert v S) else Some S)"

declare fill_range.simps [code]

text \<open>The bounds of one part of a field.\<close>

definition part_bounds :: "string \<Rightarrow> int \<Rightarrow> int \<Rightarrow> field_error + (int \<times> int)" where
  "part_bounds rangePart mn mx =
     (if rangePart = ''*'' then Inr (mn, mx)
      else case cut_char CHR ''-'' rangePart of
        (b0, b1) \<Rightarrow>
          (case atoi b0 of
             None \<Rightarrow> Inl (InvalidValue b0)
           | Some lo \<Rightarrow>
               (case b1 of
                  None \<Rightarrow> Inr (lo, lo)
                | Some s \<Rightarrow>
                    (case atoi s of None \<Rightarrow> Inl (InvalidValue s) | Some hi \<Rightarrow> Inr (lo, hi)))))"

fun parse_parts :: "string list \<Rightarrow> int \<Rightarrow> int \<Rightarrow> fieldSet \<Rightarrow> (field_error + fieldSet) option" where
  "parse_parts [] mn mx S = Some (Inr S)"
| "parse_parts (part # parts) mn mx S =
     (case splitStep part of
        Inl e \<Rightarrow> Some (Inl e)
      | Inr (rangePart, step) \<Rightarrow>
          (case part_bounds rangePart mn mx of
             Inl e \<Rightarrow> Some (Inl e)
           | Inr (lo, hi) \<Rightarrow>
               if lo < mn \<or> hi > mx \<or> lo > hi then Some (Inl (OutOfRange part))
               else case fill_range lo hi step S of
                 None \<Rightarrow> None
               | Some S' \<Rightarrow> parse_parts parts mn mx S'))"

definition parseField :: "string \<Rightarrow> int \<Rightarrow> int \<Rightarrow> (field_error + fieldSet) option" where
  "parseField field mn mx =
     (case parse_parts (split_char CHR '','' field) mn mx {} of
        None \<Rightarrow> None
      | Some (Inl e) \<Rightarrow> Some (Inl e)
      | Some (Inr S) \<Rightarrow> Some (if S = {} then Inl (EmptyField field) else Inr S))"

definition descriptors :: "(string \<times> string) list" where
  "descriptors =
     [(''@yearly'', ''0 0 1 1 *''), (''@annually'', ''0 0 1 1 *''), (''@monthly'', ''0 0 1 * *''),
      (''@weekly'', ''0 0 * * 0''), (''@daily'', ''0 0 * * *''), (''@midnight'', ''0 0 * * *''),
      (''@hourly'', ''0 * * * *'')]"

text \<open>Sequencing of results that may not return (\<open>None\<close>) or be an error (\<open>Some (Inl e)\<close>).\<close>

definition bind_field ::
  "string \<Rightarrow> (field_error + fieldSet) option \<Rightarrow> (fieldSet \<Rightarrow> (schedule_error + 'a) option) \<Rightarrow>
     (schedule_error + 'a) option" where
  "bind_field name r k =
     (case r of
        None \<Rightarrow> None
      | Some (Inl e) \<Rightarrow> Some (Inl (FieldError name e))
      | Some (Inr S) \<Rightarrow> k S)"

definition parse_cron :: "string \<Rightarrow> (schedule_error + Schedule) option" where
  "parse_cron spec =
     (let fs = str_fields spec
      in if length fs \<noteq> 5 then Some (Inl (WrongFieldCount spec (length fs)))
         else
           bind_field ''minute'' (parseField (fs ! 0) 0 59) (\<lambda>mi.
           bind_field ''hour'' (parseField (fs ! 1) 0 23) (\<lambda>ho.
           bind_field ''day-of-month'' (parseField (fs ! 2) 1 31) (\<lambda>dom.
           bind_field ''month'' (parseField (fs ! 3) 1 12) (\<lambda>mo.
           bind_field ''day-of-week'' (parseField (fs ! 4) 0 7) (\<lambda>dow.
             Some (Inr (CronSchedule
               \<lparr>cminute = mi, chour = ho, cdom = dom, cmonth = mo,
                cdow = (if 7 \<in> dow then insert 0 dow - {7} else dow)\<rparr>))))))))"

definition parseSchedule :: "frac_ns \<Rightarrow> string \<Rightarrow> (schedule_error + Schedule) option" where
  "parseSchedule fracNs spec0 =
     (let spec = trimSpace spec0
      in if spec = [] then Some (Inl EmptySchedule)
         else if prefix ''@every '' spec then
           (let durStr = trimSpace (drop (length ''@every '') spec)
            in case parseDuration fracNs durStr of
                 None \<Rightarrow> Some (Inl (InvalidEvery durStr))
               | Some dur \<Rightarrow>
                   if dur \<le> 0 then Some (Inl (NonPositiveEvery durStr))
                   else Some (Inr (EverySchedule dur)))
         else if prefix ''@'' spec then
           (case map_of descriptors spec of
              None \<Rightarrow> Some (Inl (UnknownDescriptor spec))
            | Some expanded \<Rightarrow> parse_cron expanded)
         else parse_cron spec)"

section \<open>The parser always returns\<close>

lemma fill_range_stop: "hi < v \<Longrightarrow> fill_range v hi step S = Some S"
  by (subst fill_range.simps) simp

lemma fill_range_step:
  "v \<le> hi \<Longrightarrow> fill_range v hi step S = fill_range (wrap64 (v + step)) hi step (insert v S)"
  by (subst fill_range.simps) simp

text \<open>
  Without overflow the loop collects exactly the arithmetic progression. A step so large that
  the counter overflows makes the loop visit the values \<open>v\<close>, \<open>v + step - 2 ^ 64\<close>,
  \<open>v - 2 * (2 ^ 63 - step)\<close>, ..., so it falls below \<open>2 ^ 63 - step\<close> and stops too.
\<close>

lemma progression_step:
  fixes v :: int
  assumes "1 \<le> step"
  shows "v + step \<le> w \<and> step dvd (w - (v + step)) \<longleftrightarrow> v < w \<and> step dvd (w - v)"
proof -
  have e: "step dvd (w - (v + step)) \<longleftrightarrow> step dvd (w - v)"
    using dvd_add_left_iff [of step step "w - (v + step)"] by (simp add: algebra_simps)
  have "v + step \<le> w" if "v < w" "step dvd (w - v)"
    using zdvd_imp_le [OF that(2)] that(1) by simp
  with e assms show ?thesis by auto
qed

lemma fill_range_exact:
  assumes "1 \<le> step" "0 \<le> v" "v \<le> hi + step" "hi + step \<le> int64_max"
  shows "fill_range v hi step S = Some (S \<union> {w. v \<le> w \<and> w \<le> hi \<and> step dvd (w - v)})"
  using assms
proof (induction "nat (hi + 1 - v)" arbitrary: v S rule: less_induct)
  case less
  show ?case
  proof (cases "v \<le> hi")
    case True
    have in64: "in_int64 (v + step)" using less.prems True by (simp add: int64_defs)
    have "fill_range v hi step S = fill_range (v + step) hi step (insert v S)"
      using True in64 by (simp add: fill_range_step)
    also have "\<dots> = Some (insert v S \<union> {w. v + step \<le> w \<and> w \<le> hi \<and> step dvd (w - (v + step))})"
      using less.prems True by (intro less.hyps) auto
    also have "insert v S \<union> {w. v + step \<le> w \<and> w \<le> hi \<and> step dvd (w - (v + step))}
        = S \<union> {w. v \<le> w \<and> w \<le> hi \<and> step dvd (w - v)}"
      using True less.prems(1) progression_step [OF less.prems(1), of v]
      by (fastforce simp: order_le_less)
    finally show ?thesis .
  next
    case False
    then show ?thesis by (auto simp: fill_range_stop)
  qed
qed

lemma fill_range_overflow_returns:
  assumes "1 \<le> step" "step \<le> int64_max" "0 \<le> hi" "hi < 2 ^ 61" "int64_max < hi + step"
    "- (2 ^ 63 - step) \<le> v" "v \<le> hi"
  shows "\<exists>T. fill_range v hi step S = Some T"
  using assms(6,7)
proof (induction "nat (v + 2 ^ 63)" arbitrary: v S rule: less_induct)
  case less
  define k where "k = 2 ^ 63 - step"
  have k: "1 \<le> k" "k \<le> hi" using assms by (auto simp: k_def int64_defs)
  show ?case
  proof (cases "v < k")
    case True
    have "in_int64 (v + step)" using True less.prems assms k by (simp add: k_def int64_defs)
    moreover have "hi < v + step" using less.prems assms k by (simp add: k_def)
    ultimately show ?thesis using less.prems by (simp add: fill_range_step fill_range_stop)
  next
    case False
    define u where "u = v + step - 2 ^ 64"
    have "wrap64 (v + step) = u"
      unfolding u_def using False less.prems assms
      by (intro wrap64_add_overflow) (simp_all add: k_def int64_defs)
    moreover have "u \<le> hi" using less.prems assms by (simp add: u_def int64_defs)
    moreover have "wrap64 (u + step) = v - 2 * k"
      using False less.prems assms k by (subst wrap64_id) (simp_all add: u_def k_def int64_defs)
    ultimately have "fill_range v hi step S = fill_range (v - 2 * k) hi step (insert u (insert v S))"
      using less.prems by (simp add: fill_range_step)
    moreover have "\<exists>T. fill_range (v - 2 * k) hi step (insert u (insert v S)) = Some T"
      using False k less.prems by (intro less.hyps) (auto simp: k_def)
    ultimately show ?thesis by simp
  qed
qed

lemma fill_range_returns:
  assumes "1 \<le> step" "step \<le> int64_max" "0 \<le> lo" "lo \<le> hi" "hi < 2 ^ 61"
  shows "\<exists>T. fill_range lo hi step S = Some T"
proof (cases "hi + step \<le> int64_max")
  case True
  with assms fill_range_exact [of step lo hi S] show ?thesis by auto
next
  case False
  with assms show ?thesis
    by (intro fill_range_overflow_returns) (auto simp: int64_defs)
qed

lemma splitStep_step: "splitStep part = Inr (r, st) \<Longrightarrow> 1 \<le> st \<and> st \<le> int64_max"
  by (auto simp: splitStep_def int64_defs dest!: atoi_range split: prod.splits option.splits if_splits)

lemma parse_parts_returns:
  "\<lbrakk>0 \<le> mn; mx < 2 ^ 61\<rbrakk> \<Longrightarrow> \<exists>r. parse_parts parts mn mx S = Some r"
proof (induction parts arbitrary: S)
  case (Cons part parts)
  show ?case
  proof (cases "splitStep part")
    case (Inr rs)
    obtain rp st where rs: "rs = (rp, st)" by (cases rs)
    show ?thesis
    proof (cases "part_bounds rp mn mx")
      case bounds: (Inr b)
      obtain lo hi where b: "b = (lo, hi)" by (cases b)
      show ?thesis
      proof (cases "lo < mn \<or> hi > mx \<or> lo > hi")
        case False
        with Cons.prems splitStep_step [OF Inr [unfolded rs]]
        obtain T where "fill_range lo hi st S = Some T"
          using fill_range_returns [of st lo hi S] by auto
        with Cons Inr rs bounds b False show ?thesis by simp
      qed (simp add: Inr rs bounds b)
    qed (simp add: Inr rs)
  qed simp
qed simp

lemma parseField_returns: "\<lbrakk>0 \<le> mn; mx < 2 ^ 61\<rbrakk> \<Longrightarrow> \<exists>r. parseField f mn mx = Some r"
  using parse_parts_returns [of mn mx "split_char CHR '','' f" "{}"]
  by (auto simp: parseField_def split: sum.splits)

lemma bind_field_returns:
  "\<lbrakk>\<exists>r. m = Some r; \<And>S. \<exists>r. k S = Some r\<rbrakk> \<Longrightarrow> \<exists>r. bind_field name m k = Some r"
  by (auto simp: bind_field_def split: sum.splits)

lemma parse_cron_returns: "\<exists>r. parse_cron spec = Some r"
  unfolding parse_cron_def Let_def
  by (auto intro!: bind_field_returns parseField_returns)

text \<open>
  C40. The schedule parser returns on every input: whatever the text, including steps so large
  that the loop counter of a field wraps around at 64 bits, parsing ends in a schedule or in an
  error.
\<close>

theorem parseSchedule_returns: "\<exists>r. parseSchedule fracNs spec = Some r"
proof -
  have "\<exists>r. parse_cron s = Some r" for s by (rule parse_cron_returns)
  then show ?thesis
    by (auto simp: parseSchedule_def Let_def split: option.splits)
qed

section \<open>What a field denotes\<close>

definition denotes_part :: "string \<Rightarrow> int \<Rightarrow> int \<Rightarrow> int set" where
  "denotes_part part mn mx =
     (case splitStep part of
        Inl e \<Rightarrow> {}
      | Inr (rp, st) \<Rightarrow>
          (case part_bounds rp mn mx of
             Inl e \<Rightarrow> {}
           | Inr (lo, hi) \<Rightarrow> {w. lo \<le> w \<and> w \<le> hi \<and> st dvd (w - lo)}))"

definition small_steps :: "string \<Rightarrow> bool" where
  "small_steps field \<longleftrightarrow>
     (\<forall>part \<in> set (split_char CHR '','' field).
        case splitStep part of Inl e \<Rightarrow> True | Inr (rp, st) \<Rightarrow> st \<le> 2 ^ 62)"

lemma parse_parts_denotes:
  assumes "parse_parts parts mn mx S = Some (Inr T)" "0 \<le> mn" "mx < 2 ^ 61"
    "\<forall>part \<in> set parts. case splitStep part of Inl e \<Rightarrow> True | Inr (rp, st) \<Rightarrow> st \<le> 2 ^ 62"
  shows "T = S \<union> (\<Union>part \<in> set parts. denotes_part part mn mx)
       \<and> (\<Union>part \<in> set parts. denotes_part part mn mx) \<subseteq> {mn..mx}"
  using assms
proof (induction parts arbitrary: S)
  case (Cons part parts)
  obtain rp st where ss: "splitStep part = Inr (rp, st)"
    using Cons.prems(1) by (auto split: sum.splits)
  obtain lo hi where pb: "part_bounds rp mn mx = Inr (lo, hi)"
    using Cons.prems(1) ss by (auto split: sum.splits)
  have range: "mn \<le> lo" "hi \<le> mx" "lo \<le> hi"
    using Cons.prems(1) ss pb by (auto split: if_splits)
  have st: "1 \<le> st" "st \<le> 2 ^ 62"
    using splitStep_step [OF ss] Cons.prems(4) ss by auto
  have fr: "fill_range lo hi st S = Some (S \<union> denotes_part part mn mx)"
    using range st Cons.prems(2,3) ss pb
    by (subst fill_range_exact) (auto simp: int64_defs denotes_part_def)
  then have "parse_parts parts mn mx (S \<union> denotes_part part mn mx) = Some (Inr T)"
    using Cons.prems(1) ss pb range by simp
  with Cons.IH Cons.prems(2-4)
  have "T = (S \<union> denotes_part part mn mx) \<union> (\<Union>p \<in> set parts. denotes_part p mn mx)
     \<and> (\<Union>p \<in> set parts. denotes_part p mn mx) \<subseteq> {mn..mx}" by simp
  moreover have "denotes_part part mn mx \<subseteq> {mn..mx}"
    using range ss pb by (auto simp: denotes_part_def)
  ultimately show ?case by auto
qed simp

lemma parseField_range:
  assumes "parseField field mn mx = Some (Inr S)" "0 \<le> mn" "mx < 2 ^ 61" "small_steps field"
  shows "S \<noteq> {} \<and> S \<subseteq> {mn..mx}"
proof -
  have p: "parse_parts (split_char CHR '','' field) mn mx {} = Some (Inr S)" and "S \<noteq> {}"
    using assms(1) by (auto simp: parseField_def split: option.splits sum.splits if_splits)
  with parse_parts_denotes [OF p assms(2,3)] assms(4) show ?thesis
    by (simp add: small_steps_def)
qed

text \<open>
  A field that parses denotes exactly the union, over its comma-separated parts, of the
  values \<open>lo, lo + step, ...\<close> up to \<open>hi\<close>; it is not empty and lies inside the field's range.
  (Steps above \<open>2 ^ 62\<close> are excluded: there the 64-bit loop counter can wrap.)
\<close>

lemma parseField_denotes:
  assumes "parseField field mn mx = Some (Inr S)" "0 \<le> mn" "mx < 2 ^ 61" "small_steps field"
  shows "S = (\<Union>part \<in> set (split_char CHR '','' field). denotes_part part mn mx)
    \<and> S \<noteq> {} \<and> S \<subseteq> {mn..mx}"
proof -
  have p: "parse_parts (split_char CHR '','' field) mn mx {} = Some (Inr S)" and "S \<noteq> {}"
    using assms(1) by (auto simp: parseField_def split: option.splits sum.splits if_splits)
  with parse_parts_denotes [OF p assms(2,3)] assms(4) show ?thesis
    by (simp add: small_steps_def)
qed

lemma parseField_denotes_example:
  "parseField ''1-5/2'' 0 59 = Some (Inr {1, 3, 5}) \<and> ({1, 3, 5} :: int set) \<subseteq> {0..59}"
proof -
  have ss: "splitStep ''1-5/2'' = Inr (''1-5'', 2)"
    and pb: "part_bounds ''1-5'' 0 59 = Inr (1, 5)"
    by (simp_all add: splitStep_def part_bounds_def atoi_def digits_val_def digit_val_def is_digit_def
        int64_defs)
  have sp: "split_char CHR '','' ''1-5/2'' = [''1-5/2'']" by simp
  have "fill_range 1 5 2 {} = Some {1, 3, 5}"
    by (subst fill_range.simps, simp add: wrap64_def)+ auto
  then have h: "parseField ''1-5/2'' 0 59 = Some (Inr {1, 3, 5})"
    by (simp add: parseField_def sp ss pb)
  have "small_steps ''1-5/2''" by (simp only: small_steps_def sp) (simp add: ss)
  then have "({1, 3, 5} :: int set) = (\<Union>part \<in> set (split_char CHR '','' ''1-5/2''). denotes_part part 0 59)
    \<and> ({1, 3, 5} :: int set) \<noteq> {} \<and> ({1, 3, 5} :: int set) \<subseteq> {0..59}"
    by (intro parseField_denotes [OF h]) simp_all
  with h show ?thesis by blast
qed

section \<open>The next activation\<close>

lemma cron_scan_spec:
  "(\<exists>k < nat (maxScanMinutes - i). cron_scan z c i n = n + int k * minute_ns
      \<and> cron_matches z c (n + int k * minute_ns)
      \<and> (\<forall>l < k. \<not> cron_matches z c (n + int l * minute_ns)))
   \<or> (cron_scan z c i n = zero_time
      \<and> (\<forall>l < nat (maxScanMinutes - i). \<not> cron_matches z c (n + int l * minute_ns)))"
proof (induction z c i n rule: cron_scan.induct)
  case (1 z c i n)
  consider "maxScanMinutes \<le> i" | "i < maxScanMinutes" "cron_matches z c n"
    | "i < maxScanMinutes" "\<not> cron_matches z c n" by linarith
  then show ?case
  proof cases
    case 1
    then show ?thesis by (simp add: cron_scan.simps [of z c i n])
  next
    case 2
    then show ?thesis
      by (intro disjI1 exI [of _ 0]) (simp add: cron_scan.simps [of z c i n])
  next
    case 3
    define m where "m = nat (maxScanMinutes - (i + 1))"
    have m: "nat (maxScanMinutes - i) = Suc m" using 3 by (simp add: m_def)
    have e: "cron_scan z c i n = cron_scan z c (i + 1) (n + minute_ns)"
      using 3 by (simp add: cron_scan.simps [of z c i n])
    have shift: "n + minute_ns + int l * minute_ns = n + int (Suc l) * minute_ns" for l
      by (simp add: algebra_simps)
    have all: "\<forall>l < k. \<not> cron_matches z c (n + int (Suc l) * minute_ns) \<Longrightarrow>
        \<forall>l < Suc k. \<not> cron_matches z c (n + int l * minute_ns)" for k
      using 3 by (auto simp: less_Suc_eq_0_disj)
    note IH = "1.IH" [OF 3, unfolded shift, folded m_def]
    show ?thesis
    proof (cases "cron_scan z c (i + 1) (n + minute_ns) = zero_time \<and>
        (\<forall>l < m. \<not> cron_matches z c (n + int (Suc l) * minute_ns))")
      case True
      with all [of m] show ?thesis unfolding e m by blast
    next
      case False
      with IH obtain k where "k < m" "cron_scan z c (i + 1) (n + minute_ns) = n + int (Suc k) * minute_ns"
        "cron_matches z c (n + int (Suc k) * minute_ns)"
        "\<forall>l < k. \<not> cron_matches z c (n + int (Suc l) * minute_ns)" by blast
      with all [of k] show ?thesis
        unfolding e m by (intro disjI1 exI [of _ "Suc k"]) auto
    qed
  qed
qed

text \<open>The minutes the scan looks at after \<open>t\<close>.\<close>

definition scan_minutes :: "instant \<Rightarrow> instant set" where
  "scan_minutes t = {u. u mod minute_ns = 0 \<and> t < u \<and> u \<le> truncate_minute t + maxScanMinutes * minute_ns}"

lemma scan_minutes_iff:
  "u \<in> scan_minutes t \<longleftrightarrow>
     (\<exists>l < nat maxScanMinutes. u = truncate_minute t + minute_ns + int l * minute_ns)"
proof -
  define b where "b = truncate_minute t div minute_ns"
  have "truncate_minute t mod minute_ns = 0"
    by (simp add: truncate_minute_def mod_diff_left_eq)
  then have b: "truncate_minute t = b * minute_ns"
    by (simp add: b_def) (metis add.right_neutral mult.commute mult_div_mod_eq)
  have pos: "0 < minute_ns" by (simp add: unit_defs)
  have lt: "t < k * minute_ns \<longleftrightarrow> b < k" for k
  proof -
    have "b * minute_ns \<le> t" "t < (b + 1) * minute_ns"
      using truncate_minute_bounds [of t] b by (simp_all add: algebra_simps)
    with pos show ?thesis
      by (smt (verit, best) mult_le_cancel_right mult_less_cancel_right)
  qed
  show ?thesis
  proof
    assume u: "u \<in> scan_minutes t"
    then obtain k where k: "u = k * minute_ns"
      by (auto simp: scan_minutes_def mod_eq_0_iff_dvd dvd_def mult.commute)
    with u lt have "b < k" by (auto simp: scan_minutes_def)
    moreover have "k \<le> b + maxScanMinutes"
      using u k b pos by (auto simp: scan_minutes_def distrib_right [symmetric])
    ultimately show "\<exists>l < nat maxScanMinutes. u = truncate_minute t + minute_ns + int l * minute_ns"
      by (intro exI [of _ "nat (k - b - 1)"]) (auto simp: k b algebra_simps)
  next
    assume "\<exists>l < nat maxScanMinutes. u = truncate_minute t + minute_ns + int l * minute_ns"
    then obtain l where l: "l < nat maxScanMinutes" and u: "u = (b + 1 + int l) * minute_ns"
      by (auto simp: b algebra_simps)
    have "b + 1 + int l \<le> b + maxScanMinutes" using l by simp
    then have "u \<le> (b + maxScanMinutes) * minute_ns" unfolding u using pos by simp
    then show "u \<in> scan_minutes t"
      using lt [of "b + 1 + int l"] by (simp add: scan_minutes_def u b distrib_right)
  qed
qed

lemma cron_next_correct_zero:
  assumes "\<And>u. \<not> cron_matches z c u"
  shows "cron_next z c t = zero_time"
  using cron_scan_spec [of 0 z c "truncate_minute t + minute_ns"] assms
  by (auto simp: cron_next_def)

text \<open>
  C4. The next activation of a cron schedule is the least matching minute after the reference
  time: when some minute of the four-year scan window matches, the result is a matching minute
  strictly after \<open>t\<close> and no matching minute lies between; when none matches, the result is the
  zero time.
\<close>

theorem cron_next_correct:
  "if \<exists>u \<in> scan_minutes t. cron_matches z c u
   then cron_next z c t \<in> scan_minutes t \<and> cron_matches z c (cron_next z c t)
        \<and> (\<forall>u \<in> scan_minutes t. cron_matches z c u \<longrightarrow> cron_next z c t \<le> u)
   else cron_next z c t = zero_time"
proof -
  let ?at = "\<lambda>l. truncate_minute t + minute_ns + int l * minute_ns"
  have pos: "0 < minute_ns" by (simp add: unit_defs)
  have mem: "u \<in> scan_minutes t \<longleftrightarrow> (\<exists>l < nat maxScanMinutes. u = ?at l)" for u
    by (rule scan_minutes_iff)
  consider
      (found) k where "k < nat maxScanMinutes" "cron_next z c t = ?at k" "cron_matches z c (?at k)"
        "\<forall>l < k. \<not> cron_matches z c (?at l)"
    | (none) "cron_next z c t = zero_time" "\<forall>l < nat maxScanMinutes. \<not> cron_matches z c (?at l)"
    using cron_scan_spec [of 0 z c "truncate_minute t + minute_ns"] by (auto simp: cron_next_def)
  then show ?thesis
  proof cases
    case found
    have "?at k \<le> ?at l" if "cron_matches z c (?at l)" for l
    proof -
      have "k \<le> l" using found(4) that by (meson not_le)
      with pos show ?thesis by simp
    qed
    with found mem show ?thesis by auto
  next
    case none
    with mem show ?thesis by auto
  qed
qed

definition every_day_2am :: cronSchedule where
  "every_day_2am = \<lparr>cminute = {0}, chour = {2}, cdom = {1..31}, cmonth = {1..12}, cdow = {0..6}\<rparr>"

theorem cron_next_correct_witness:
  "cron_next utc every_day_2am 7140000000000 = 7200000000000
   \<and> {u \<in> scan_minutes 7140000000000. cron_matches utc every_day_2am u \<and> u < 7200000000000} = {}"
proof -
  have m: "cron_matches utc every_day_2am 7200000000000"
    using field_ranges [of utc 7200000000000]
    by (simp add: cron_matches_def every_day_2am_def hour_def minute_def local_sec_def unix_sec_def
        utc_def second_ns_def)
  have n: "cron_next utc every_day_2am 7140000000000 = 7200000000000"
    unfolding cron_next_def
    by (subst cron_scan.simps)
       (use m in \<open>simp add: truncate_minute_def unit_defs maxScanMinutes_def\<close>)
  have s: "7200000000000 \<in> scan_minutes 7140000000000"
    by (simp add: scan_minutes_def truncate_minute_def unit_defs maxScanMinutes_def)
  have "\<forall>u \<in> scan_minutes 7140000000000. cron_matches utc every_day_2am u \<longrightarrow> 7200000000000 \<le> u"
    using cron_next_correct [of 7140000000000 utc every_day_2am] m s n by (auto split: if_splits)
  with n show ?thesis by fastforce
qed

text \<open>
  A schedule whose day can never occur in its months (February 30 and 31) parses like any
  other, and its next activation is the zero time, in every time zone and from every reference
  time.
\<close>

lemma cron_next_feb30:
  assumes "cmonth c = {2}" "\<forall>d \<in> cdom c. 30 \<le> d"
  shows "cron_next z c t = zero_time"
proof -
  have "\<not> cron_matches z c u" for u
    using assms feb_day [of z u] by (force simp: cron_matches_def)
  with cron_next_correct_zero show ?thesis by blast
qed

definition feb30 :: cronSchedule where
  "feb30 = \<lparr>cminute = {0}, chour = {0}, cdom = {30}, cmonth = {2}, cdow = {0, 1, 2, 3, 4, 5, 6}\<rparr>"

lemma cron_next_feb30_example:
  "parseSchedule (\<lambda>f u s. 0) ''0 0 30 2 *'' = Some (Inr (CronSchedule feb30))
   \<and> cron_next utc feb30 0 = zero_time"
proof
  show "parseSchedule (\<lambda>f u s. 0) ''0 0 30 2 *'' = Some (Inr (CronSchedule feb30))" by code_simp
  show "cron_next utc feb30 0 = zero_time"
    by (rule cron_next_feb30) (simp_all add: feb30_def)
qed

section \<open>Well-formed schedules\<close>

definition wf_cron :: "cronSchedule \<Rightarrow> bool" where
  "wf_cron c \<longleftrightarrow>
     cminute c \<noteq> {} \<and> cminute c \<subseteq> {0..59} \<and> chour c \<noteq> {} \<and> chour c \<subseteq> {0..23} \<and>
     cdom c \<noteq> {} \<and> cdom c \<subseteq> {1..31} \<and> cmonth c \<noteq> {} \<and> cmonth c \<subseteq> {1..12} \<and>
     cdow c \<noteq> {} \<and> cdow c \<subseteq> {0..6}"

definition wf_schedule :: "Schedule \<Rightarrow> bool" where
  "wf_schedule s = (case s of EverySchedule d \<Rightarrow> 0 < d | CronSchedule c \<Rightarrow> wf_cron c)"

lemma bind_field_Inr:
  "bind_field name r k = Some (Inr x) \<longleftrightarrow> (\<exists>S. r = Some (Inr S) \<and> k S = Some (Inr x))"
  by (auto simp: bind_field_def split: option.splits sum.splits)

lemma parse_cron_wf:
  assumes "parse_cron spec = Some (Inr s)" "\<forall>f \<in> set (str_fields spec). small_steps f"
  shows "\<exists>c. s = CronSchedule c \<and> wf_cron c"
proof -
  let ?fs = "str_fields spec"
  have len: "length ?fs = 5" using assms(1) by (auto simp: parse_cron_def Let_def split: if_splits)
  then have small: "small_steps (?fs ! i)" if "i < 5" for i using assms(2) that by simp
  obtain mi ho dom mo dow where
      f: "parseField (?fs ! 0) 0 59 = Some (Inr mi)" "parseField (?fs ! 1) 0 23 = Some (Inr ho)"
        "parseField (?fs ! 2) 1 31 = Some (Inr dom)" "parseField (?fs ! 3) 1 12 = Some (Inr mo)"
        "parseField (?fs ! 4) 0 7 = Some (Inr dow)"
    and s: "s = CronSchedule \<lparr>cminute = mi, chour = ho, cdom = dom, cmonth = mo,
         cdow = (if 7 \<in> dow then insert 0 dow - {7} else dow)\<rparr>"
    using assms(1) len by (auto simp: parse_cron_def Let_def bind_field_Inr)
  have r: "mi \<noteq> {} \<and> mi \<subseteq> {0..59}" "ho \<noteq> {} \<and> ho \<subseteq> {0..23}" "dom \<noteq> {} \<and> dom \<subseteq> {1..31}"
    "mo \<noteq> {} \<and> mo \<subseteq> {1..12}" "dow \<noteq> {} \<and> dow \<subseteq> {0..7}"
    using parseField_range [OF f(1)] parseField_range [OF f(2)] parseField_range [OF f(3)]
      parseField_range [OF f(4)] parseField_range [OF f(5)] small by simp_all
  have below7: "x \<in> {0..6}" if "x \<in> dow" "x \<noteq> 7" for x
  proof -
    have "0 \<le> x" "x \<le> 7" using r(5) that(1) by auto
    with that(2) show ?thesis by simp
  qed
  then have "(if 7 \<in> dow then insert 0 dow - {7} else dow) \<subseteq> {0..6}"
    and "(if 7 \<in> dow then insert 0 dow - {7} else dow) \<noteq> {}"
    using r(5) by (auto split: if_splits) (metis atLeastAtMost_iff)+
  with r s show ?thesis by (simp add: wf_cron_def)
qed

lemma descriptors_small:
  "map_of descriptors d = Some e \<Longrightarrow> \<forall>f \<in> set (str_fields e). small_steps f"
proof -
  have "\<forall>p \<in> set descriptors. \<forall>f \<in> set (str_fields (snd p)). small_steps f" by code_simp
  then show "map_of descriptors d = Some e \<Longrightarrow> ?thesis" by (auto dest!: map_of_SomeD)
qed

text \<open>
  Every schedule the parser accepts is well-formed: an interval is positive, and the five
  field sets of a cron expression are non-empty and inside the calendar's ranges, with day 7
  folded into Sunday (0). Hence each set can be compared with the fields of a real time.
\<close>

lemma parseSchedule_wf:
  assumes "parseSchedule fracNs spec = Some (Inr s)"
    "\<forall>f \<in> set (str_fields (trimSpace spec)). small_steps f"
  shows "wf_schedule s"
proof -
  let ?sp = "trimSpace spec"
  consider (every) d where "s = EverySchedule d" "0 < d"
    | (desc) e where "map_of descriptors ?sp = Some e" "parse_cron e = Some (Inr s)"
    | (cron) "parse_cron ?sp = Some (Inr s)"
    using assms(1) by (auto simp: parseSchedule_def Let_def split: if_splits option.splits)
  then show ?thesis
  proof cases
    case every
    then show ?thesis by (simp add: wf_schedule_def)
  next
    case desc
    with parse_cron_wf [OF desc(2) descriptors_small [OF desc(1)]] show ?thesis
      by (auto simp: wf_schedule_def)
  next
    case cron
    with parse_cron_wf [OF cron assms(2)] show ?thesis by (auto simp: wf_schedule_def)
  qed
qed

definition weekdays_9am :: cronSchedule where
  "weekdays_9am = \<lparr>cminute = {0}, chour = {9}, cdom = {1..31}, cmonth = {1..12}, cdow = {0, 1, 2}\<rparr>"

lemma parseSchedule_wf_example:
  "parseSchedule (\<lambda>f u s. 0) '' 0 9 * * 1,2,7 '' = Some (Inr (CronSchedule weekdays_9am))
   \<and> wf_schedule (CronSchedule weekdays_9am)"
proof
  show p: "parseSchedule (\<lambda>f u s. 0) '' 0 9 * * 1,2,7 '' = Some (Inr (CronSchedule weekdays_9am))"
    by code_simp
  have "\<forall>f \<in> set (str_fields (trimSpace '' 0 9 * * 1,2,7 '')). small_steps f" by code_simp
  from parseSchedule_wf [OF p this] show "wf_schedule (CronSchedule weekdays_9am)" .
qed

section \<open>Intervals of whole seconds\<close>

lemma digits_foldl_ge:
  "list_all is_digit ds \<Longrightarrow> 0 \<le> x \<Longrightarrow> x \<le> foldl (\<lambda>n c. 10 * n + digit_val c) x ds"
proof (induction ds arbitrary: x)
  case (Cons c ds)
  have "0 \<le> digit_val c" using Cons.prems(1) by (simp add: digit_val_def is_digit_def)
  then have "x \<le> 10 * x + digit_val c" "0 \<le> 10 * x + digit_val c" using Cons.prems(2) by simp_all
  with Cons.IH [of "10 * x + digit_val c"] Cons.prems(1) show ?case by simp
qed simp

lemma leadingInt_digits:
  "list_all is_digit ds \<Longrightarrow> 0 \<le> x \<Longrightarrow> foldl (\<lambda>n c. 10 * n + digit_val c) x ds \<le> 2 ^ 63 \<Longrightarrow>
     s = [] \<or> \<not> is_digit (hd s) \<Longrightarrow>
     leadingInt x (ds @ s) = Some (foldl (\<lambda>n c. 10 * n + digit_val c) x ds, s)"
proof (induction ds arbitrary: x)
  case Nil
  then show ?case by (cases s) auto
next
  case (Cons c ds)
  have d: "is_digit c" "0 \<le> digit_val c" using Cons.prems(1) by (simp_all add: digit_val_def is_digit_def)
  have ds: "list_all is_digit ds" and n: "0 \<le> 10 * x + digit_val c" using Cons.prems(1,2) d by simp_all
  have le: "10 * x + digit_val c \<le> 2 ^ 63"
    using digits_foldl_ge [OF ds n] Cons.prems(3) by simp
  then have "10 * x \<le> 2 ^ 63" using d(2) by linarith
  then have "x \<le> 2 ^ 63 div 10" by simp
  moreover have "x * 10 + digit_val c = 10 * x + digit_val c" by simp
  ultimately show ?case
    using Cons.IH [OF ds n] Cons.prems(3,4) d(1) le by (simp add: mult.commute [of x 10])
qed

lemma duration_group_digits:
  assumes "map_of unitMap u = Some k" "0 < k" "list_all unit_char u" "rest = [] \<or> \<not> unit_char (hd rest)"
    "int n * k \<le> 2 ^ 63"
  shows "duration_group fr (nat_digits n @ u @ rest) = Some (int n * k, rest)"
proof -
  have nd: "nat_digits n \<noteq> []" "list_all is_digit (nat_digits n)" "digits_val (nat_digits n) = int n"
    using nat_digits_props by auto
  have u: "u \<noteq> []" using assms(1) by (auto simp: unitMap_def)
  then obtain c us where cu: "u = c # us" "unit_char c" using assms(3) by (cases u) auto
  then have nc: "\<not> is_digit c" "c \<noteq> CHR ''.''" by (auto simp: unit_char_def)
  have nk: "int n \<le> int n * k" using assms(2) by (simp add: mult_le_cancel_left1)
  have l: "leadingInt 0 (nat_digits n @ u @ rest) = Some (int n, u @ rest)"
    using leadingInt_digits [of "nat_digits n" 0 "u @ rest"] nd cu nc assms(5) nk
    by (simp add: digits_val_def)
  have hd: "\<not> unit_char (hd (nat_digits n))"
    using nd by (cases "nat_digits n") (auto simp: unit_char_def)
  have tw: "takeWhile unit_char (u @ rest) = u" "dropWhile unit_char (u @ rest) = rest"
    using assms(3,4) by (cases rest; auto simp: list_all_iff takeWhile_append dropWhile_append)+
  have lim: "\<not> int n > 2 ^ 63 div k"
    using zdiv_mono1 [OF assms(5,2)] assms(2) by simp
  show ?thesis
    using l hd nd(1) tw u lim assms(1,5) nc
    by (simp add: duration_group_def Let_def cu(1))
qed


lemma duration_loop_digits:
  assumes "map_of unitMap u = Some k" "0 < k" "list_all unit_char u" "rest = [] \<or> \<not> unit_char (hd rest)"
    "0 \<le> d" "d + int n * k \<le> 2 ^ 63"
  shows "duration_loop fr d (nat_digits n @ u @ rest) = duration_loop fr (d + int n * k) rest"
proof -
  have "0 \<le> int n * k" using assms(2) by simp
  then have "int n * k \<le> 2 ^ 63" "0 \<le> d + int n * k" using assms(5,6) by linarith+
  moreover from this assms(6) have "(d + int n * k) mod 2 ^ 64 = d + int n * k" by (intro mod_pos_pos_trivial) simp_all
  moreover have "nat_digits n @ u @ rest \<noteq> []" using nat_digits_props by simp
  ultimately show ?thesis
    using duration_group_digits [OF assms(1-4), of n fr] assms(6)
    by (subst duration_loop.simps) auto
qed

lemma fmtFrac_whole: "u mod 10 ^ 9 = 0 \<Longrightarrow> fmtFrac 9 u = []"
proof -
  have z: "dropWhile (\<lambda>c. c = CHR ''0'') (frac_digits_rev k u) = []" if "u mod 10 ^ k = 0" for k u
    using that
  proof (induction k arbitrary: u)
    case (Suc k)
    then obtain q where q: "u = 10 * (10 ^ k * q)" by (metis mod_0_imp_dvd dvd_def mult.assoc power_Suc)
    then have "u mod 10 = 0" "(u div 10) mod 10 ^ k = 0" by simp_all
    moreover have "char_of (48::nat) = CHR ''0''" by code_simp
    ultimately show ?case using Suc.IH by simp
  qed simp
  assume "u mod 10 ^ 9 = 0"
  from z [OF this] show "fmtFrac 9 u = []" by (simp add: fmtFrac_def)
qed

lemma nat_digits_hd: "\<not> unit_char (hd (nat_digits n @ r))"
  using nat_digits_props [of n] by (cases "nat_digits n") (auto simp: unit_char_def)

definition whole_text :: "nat \<Rightarrow> string" where
  "whole_text n =
     (if n div 60 div 60 > 0 then nat_digits (n div 60 div 60) @ ''h'' else []) @
     (if n div 60 > 0 then nat_digits (n div 60 mod 60) @ ''m'' else []) @ nat_digits (n mod 60) @ ''s''"

lemma duration_string_whole:
  assumes "0 < n"
  shows "duration_string (int n * second_ns) = whole_text n"
proof -
  have pos: "0 < second_ns" by (simp add: unit_defs)
  have "fmtFrac 9 (int n * second_ns) = []" by (intro fmtFrac_whole) (simp add: second_ns_def)
  moreover have "\<not> int n * second_ns < second_ns" using assms pos by (simp add: not_less)
  moreover have "\<bar>int n * second_ns\<bar> = int n * second_ns" "int n * second_ns div second_ns = int n"
    "\<not> int n * second_ns < 0" using pos by (simp_all add: abs_mult mult_less_0_iff)
  moreover have "itoa (int n mod 60) = nat_digits (n mod 60)"
    "itoa (int n div 60 mod 60) = nat_digits (n div 60 mod 60)"
    "itoa (int n div 60 div 60) = nat_digits (n div 60 div 60)"
    by (simp_all add: itoa_def nat_div_distrib nat_mod_distrib)
  moreover have "0 < int n div 60 \<longleftrightarrow> 0 < n div 60" "0 < int n div 60 div 60 \<longleftrightarrow> 0 < n div 60 div 60"
  proof -
    have "int n div 60 = int (n div 60)" "int n div 60 div 60 = int (n div 60 div 60)"
      by (simp_all only: zdiv_int of_nat_numeral)
    then show "0 < int n div 60 \<longleftrightarrow> 0 < n div 60" "0 < int n div 60 div 60 \<longleftrightarrow> 0 < n div 60 div 60"
      by (simp_all only: of_nat_0_less_iff)
  qed
  ultimately show ?thesis by (simp add: duration_string_def Let_def whole_text_def)
qed

lemma duration_loop_hms:
  assumes "int h * hour_ns + int m * minute_ns + int s * second_ns \<le> 2 ^ 63"
  shows "duration_loop fr 0 (nat_digits h @ ''h'' @ nat_digits m @ ''m'' @ nat_digits s @ ''s'') =
      Some (int h * hour_ns + int m * minute_ns + int s * second_ns)"
    "duration_loop fr 0 (nat_digits m @ ''m'' @ nat_digits s @ ''s'') = Some (int m * minute_ns + int s * second_ns)"
    "duration_loop fr 0 (nat_digits s @ ''s'') = Some (int s * second_ns)"
proof -
  have units: "map_of unitMap ''s'' = Some second_ns" "map_of unitMap ''m'' = Some minute_ns"
    "map_of unitMap ''h'' = Some hour_ns" by (simp_all add: unitMap_def)
  have uc: "list_all unit_char ''s''" "list_all unit_char ''m''" "list_all unit_char ''h''"
    by (simp_all add: unit_char_def is_digit_def)
  have pos: "0 < second_ns" "0 < minute_ns" "0 < hour_ns" by (simp_all add: unit_defs)
  have nn: "0 \<le> int h * hour_ns" "0 \<le> int m * minute_ns" "0 \<le> int s * second_ns" using pos by simp_all
  have sl: "duration_loop fr d (nat_digits s @ ''s'') = Some (d + int s * second_ns)"
    if "0 \<le> d" "d + int s * second_ns \<le> 2 ^ 63" for d
    using duration_loop_digits [OF units(1) pos(1) uc(1), of "[]" d s fr] that
    by (simp add: duration_loop.simps)
  have ml: "duration_loop fr d (nat_digits m @ ''m'' @ nat_digits s @ ''s'') = Some (d + int m * minute_ns + int s * second_ns)"
    if "0 \<le> d" "d + int m * minute_ns + int s * second_ns \<le> 2 ^ 63" for d
    using duration_loop_digits [OF units(2) pos(2) uc(2), of "nat_digits s @ ''s''" d m fr]
      nat_digits_hd [of s] sl [of "d + int m * minute_ns"] nn that by simp
  show "duration_loop fr 0 (nat_digits h @ ''h'' @ nat_digits m @ ''m'' @ nat_digits s @ ''s'') =
      Some (int h * hour_ns + int m * minute_ns + int s * second_ns)"
    using duration_loop_digits [OF units(3) pos(3) uc(3), of "nat_digits m @ ''m'' @ nat_digits s @ ''s''" 0 h fr]
      nat_digits_hd [of m] ml [of "int h * hour_ns"] nn assms by simp
  show "duration_loop fr 0 (nat_digits m @ ''m'' @ nat_digits s @ ''s'') = Some (int m * minute_ns + int s * second_ns)"
    "duration_loop fr 0 (nat_digits s @ ''s'') = Some (int s * second_ns)"
    using ml [of 0] sl [of 0] nn assms by simp_all
qed

lemma duration_loop_whole:
  assumes "int n * second_ns < 2 ^ 63"
  shows "duration_loop fr 0 (whole_text n) = Some (int n * second_ns)"
proof -
  define h m s where "h = n div 60 div 60" and "m = n div 60 mod 60" and "s = n mod 60"
  have "n = 60 * (n div 60) + s" "n div 60 = 60 * h + m" by (simp_all add: s_def h_def m_def)
  then have n: "n = 3600 * h + 60 * m + s" by simp
  have tot: "int n * second_ns = int h * hour_ns + int m * minute_ns + int s * second_ns"
    by (subst n) (simp add: unit_defs algebra_simps)
  have le: "int h * hour_ns + int m * minute_ns + int s * second_ns \<le> 2 ^ 63" using assms tot by simp
  have "n div 60 = 0 \<Longrightarrow> h = 0 \<and> m = 0" by (simp add: h_def m_def)
  then show ?thesis
    using duration_loop_hms [OF le, of fr] tot
    by (cases "h = 0"; cases "n div 60 = 0")
      (auto simp: whole_text_def h_def [symmetric] m_def [symmetric] s_def [symmetric])
qed

lemma whole_text_shape: "whole_text n \<noteq> []" "is_digit (hd (whole_text n))" "last (whole_text n) = CHR ''s''"
proof -
  have "is_digit (hd (nat_digits k @ r))" for k r
    using nat_digits_props [of k] by (cases "nat_digits k") auto
  then show "is_digit (hd (whole_text n))" by (simp add: whole_text_def)
qed (simp_all add: whole_text_def)

lemma parseDuration_whole_seconds:
  assumes "0 < n" "int n * second_ns < 2 ^ 63"
  shows "parseDuration fr (whole_text n) = Some (int n * second_ns)"
proof -
  have "hd (whole_text n) \<noteq> CHR ''-''" "hd (whole_text n) \<noteq> CHR ''+''" "whole_text n \<noteq> ''0''"
    using whole_text_shape [of n] by (auto simp: is_digit_def)
  with whole_text_shape(1) duration_loop_whole [OF assms(2)] assms(2) show ?thesis
    by (simp add: parseDuration_def)
qed

lemma parseSchedule_every_whole:
  assumes "0 < n" "int n * second_ns < 2 ^ 63"
  shows "parseSchedule fr (''@every '' @ duration_string (int n * second_ns)) = Some (Inr (EverySchedule (int n * second_ns)))"
proof -
  have g: "ascii_graphic (last (whole_text n))" "ascii_graphic (hd (whole_text n))"
    using whole_text_shape [of n] by (auto simp: ascii_graphic_def is_digit_def)
  have t1: "trimSpace (''@every '' @ whole_text n) = ''@every '' @ whole_text n"
    using g whole_text_shape(1) by (intro trimSpace_ends_graphic) (auto simp: ascii_graphic_def)
  have t2: "trimSpace (whole_text n) = whole_text n"
    using g whole_text_shape(1) by (intro trimSpace_ends_graphic) auto
  have "0 < int n * second_ns" using assms(1) by (simp add: second_ns_def)
  then show ?thesis
    unfolding parseSchedule_def duration_string_whole [OF assms(1)] t1 Let_def
    using parseDuration_whole_seconds [OF assms, of fr] t2 by simp
qed

end
