(* ===== verification/Dbtime.thy ===== *)
theory Dbtime
  imports Go_Time
begin

text \<open>
  \<^verbatim>\<open>src/common/dbtime/dbtime.go\<close>: how instants are written to, read from and compared in
  SQL columns. The layouts of \<^verbatim>\<open>storedTimestampLayouts\<close> are lists of the chunks
  \<^verbatim>\<open>time.Parse\<close> splits a layout into, and \<open>parse_layout\<close> is its interpreter. A table is
  a list of rows with a scanned key and a scanned timestamp; a statement that reports an error
  is a \<open>False\<close> in the list of outcomes the driver gives.
\<close>

section \<open>Values a driver scans\<close>

datatype scanned = VNil | VTime instant | VBytes string | VStr string | VInt int

section \<open>Formatting\<close>

definition digit_char :: "int \<Rightarrow> char" where
  "digit_char d = char_of (48 + nat (d mod 10))"

definition pad2 :: "int \<Rightarrow> string" where
  "pad2 n = [digit_char (n div 10), digit_char n]"

text \<open>The year chunk \<^verbatim>\<open>2006\<close>: at least four digits.\<close>

definition pad4 :: "int \<Rightarrow> string" where
  "pad4 y =
     (if 0 \<le> y \<and> y \<le> 9999
      then [digit_char (y div 1000), digit_char (y div 100), digit_char (y div 10), digit_char y]
      else if y < 0 then CHR ''-'' # (if - y \<le> 9999
        then [digit_char (- y div 1000), digit_char (- y div 100), digit_char (- y div 10), digit_char (- y)]
        else itoa (- y))
      else itoa y)"

definition FormatSQLTimestamp :: "instant \<Rightarrow> string" where
  "FormatSQLTimestamp t =
     pad4 (year utc t) @ ''-'' @ pad2 (month utc t) @ ''-'' @ pad2 (day utc t) @ '' '' @
     pad2 (hour utc t) @ '':'' @ pad2 (minute utc t) @ '':'' @ pad2 (sec utc t)"

section \<open>time.Parse\<close>

datatype chunk = CYear | CMonth | CDay | CHour | CMinute | CSecond | CFrac | CNumTZ | CColonTZ
  | CIsoColonTZ | CTZ | CLit char

record parsed =
  p_year :: int
  p_month :: int
  p_day :: int
  p_hour :: int
  p_min :: int
  p_sec :: int
  p_nsec :: int
  p_off :: "int option"
  p_utc :: bool

definition parsed_init :: parsed where
  "parsed_init = \<lparr>p_year = 0, p_month = 1, p_day = 1, p_hour = 0, p_min = 0, p_sec = 0, p_nsec = 0,
     p_off = None, p_utc = False\<rparr>"

text \<open>\<open>getnum\<close>: two digits, or one when not \<open>fixed\<close>.\<close>

fun getnum :: "bool \<Rightarrow> string \<Rightarrow> (int \<times> string) option" where
  "getnum fixed [] = None"
| "getnum fixed (a # s) =
     (if \<not> is_digit a then None
      else case s of
        b # r \<Rightarrow> if is_digit b then Some (10 * digit_val a + digit_val b, r)
                 else if fixed then None else Some (digit_val a, s)
      | [] \<Rightarrow> if fixed then None else Some (digit_val a, s))"

definition getnum_below :: "bool \<Rightarrow> int \<Rightarrow> string \<Rightarrow> (int \<times> string) option" where
  "getnum_below fixed n s =
     (case getnum fixed s of None \<Rightarrow> None | Some (v, r) \<Rightarrow> if v < n then Some (v, r) else None)"

definition frac_start :: "string \<Rightarrow> bool" where
  "frac_start s \<longleftrightarrow> 2 \<le> length s \<and> (hd s = CHR ''.'' \<or> hd s = CHR '','') \<and> is_digit (s ! 1)"

text \<open>Nanoseconds of a fraction: at most nine digits count.\<close>

definition frac_nanos :: "string \<Rightarrow> int" where
  "frac_nanos ds = (let d = take 9 ds in digits_val d * 10 ^ (9 - length d))"

definition take_frac :: "string \<Rightarrow> int \<times> string" where
  "take_frac s = (frac_nanos (takeWhile is_digit (tl s)), dropWhile is_digit (tl s))"

definition offset_of :: "char \<Rightarrow> string \<Rightarrow> string \<Rightarrow> int option" where
  "offset_of sign hh mm =
     (case getnum True hh of
        None \<Rightarrow> None
      | Some (h, _) \<Rightarrow>
          (case getnum True mm of
             None \<Rightarrow> None
           | Some (m, _) \<Rightarrow>
               if h > 24 \<or> m > 60 then None
               else if sign = CHR ''+'' then Some ((h * 60 + m) * 60)
               else if sign = CHR ''-'' then Some (- ((h * 60 + m) * 60))
               else None))"

fun leading_digits :: "string \<Rightarrow> string \<times> string" where
  "leading_digits s = (takeWhile is_digit s, dropWhile is_digit s)"

definition parseSignedOffset :: "string \<Rightarrow> nat" where
  "parseSignedOffset s =
     (if s = [] \<or> (hd s \<noteq> CHR ''-'' \<and> hd s \<noteq> CHR ''+'') then 0
      else let (ds, rem) = leading_digits (tl s)
           in if ds = [] \<or> digits_val ds > 23 then 0 else length s - length rem)"

definition is_upper :: "char \<Rightarrow> bool" where
  "is_upper c \<longleftrightarrow> 65 \<le> (of_char c :: nat) \<and> (of_char c :: nat) \<le> 90"

text \<open>\<open>parseTimeZone\<close>: the length of the zone abbreviation at the front, if there is one.\<close>

definition parseTimeZone :: "string \<Rightarrow> nat option" where
  "parseTimeZone s =
     (if length s < 3 then None
      else if take 4 s = ''ChST'' \<or> take 4 s = ''MeST'' then Some 4
      else if take 3 s = ''GMT'' then Some (3 + parseSignedOffset (drop 3 s))
      else if hd s = CHR ''+'' \<or> hd s = CHR ''-'' then
        (if parseSignedOffset s > 0 then Some (parseSignedOffset s) else None)
      else let n = length (takeWhile is_upper (take 6 s))
           in if n = 3 then Some 3
              else if n = 4 then (if s ! 3 = CHR ''T'' \<or> take 4 s = ''WITA'' then Some 4 else None)
              else if n = 5 then (if s ! 4 = CHR ''T'' then Some 5 else None)
              else None)"

definition drop_spaces :: "string \<Rightarrow> string" where
  "drop_spaces s = dropWhile (\<lambda>c. c = CHR '' '') s"

text \<open>
  One chunk. The last argument says whether the next chunk of the layout is a fraction: a
  fraction after the seconds is taken even when the layout has none.
\<close>

definition parse_chunk :: "chunk \<Rightarrow> bool \<Rightarrow> parsed \<Rightarrow> string \<Rightarrow> (parsed \<times> string) option" where
  "parse_chunk ch nextFrac p s =
     (case ch of
        CYear \<Rightarrow> if length s < 4 \<or> \<not> list_all is_digit (take 4 s) then None
                 else Some (p\<lparr>p_year := digits_val (take 4 s)\<rparr>, drop 4 s)
      | CMonth \<Rightarrow> (case getnum_below True 13 s of None \<Rightarrow> None
                   | Some (v, r) \<Rightarrow> if v \<le> 0 then None else Some (p\<lparr>p_month := v\<rparr>, r))
      | CDay \<Rightarrow> (case getnum True s of None \<Rightarrow> None | Some (v, r) \<Rightarrow> Some (p\<lparr>p_day := v\<rparr>, r))
      | CHour \<Rightarrow> (case getnum_below False 24 s of None \<Rightarrow> None | Some (v, r) \<Rightarrow> Some (p\<lparr>p_hour := v\<rparr>, r))
      | CMinute \<Rightarrow> (case getnum_below True 60 s of None \<Rightarrow> None | Some (v, r) \<Rightarrow> Some (p\<lparr>p_min := v\<rparr>, r))
      | CSecond \<Rightarrow>
          (case getnum_below True 60 s of
             None \<Rightarrow> None
           | Some (v, r) \<Rightarrow>
               if frac_start r \<and> \<not> nextFrac
               then Some (p\<lparr>p_sec := v, p_nsec := fst (take_frac r)\<rparr>, snd (take_frac r))
               else Some (p\<lparr>p_sec := v\<rparr>, r))
      | CFrac \<Rightarrow> if frac_start s then Some (p\<lparr>p_nsec := fst (take_frac s)\<rparr>, snd (take_frac s))
                 else Some (p, s)
      | CNumTZ \<Rightarrow>
          if length s < 5 then None
          else (case offset_of (hd s) (take 2 (drop 1 s)) (take 2 (drop 3 s)) of
                  None \<Rightarrow> None | Some v \<Rightarrow> Some (p\<lparr>p_off := Some v\<rparr>, drop 5 s))
      | CColonTZ \<Rightarrow>
          if length s < 6 \<or> s ! 3 \<noteq> CHR '':'' then None
          else (case offset_of (hd s) (take 2 (drop 1 s)) (take 2 (drop 4 s)) of
                  None \<Rightarrow> None | Some v \<Rightarrow> Some (p\<lparr>p_off := Some v\<rparr>, drop 6 s))
      | CIsoColonTZ \<Rightarrow>
          if s \<noteq> [] \<and> hd s = CHR ''Z'' then Some (p\<lparr>p_utc := True\<rparr>, tl s)
          else if length s < 6 \<or> s ! 3 \<noteq> CHR '':'' then None
          else (case offset_of (hd s) (take 2 (drop 1 s)) (take 2 (drop 4 s)) of
                  None \<Rightarrow> None | Some v \<Rightarrow> Some (p\<lparr>p_off := Some v\<rparr>, drop 6 s))
      | CTZ \<Rightarrow>
          if take 3 s = ''UTC'' then Some (p\<lparr>p_utc := True\<rparr>, drop 3 s)
          else (case parseTimeZone s of None \<Rightarrow> None | Some n \<Rightarrow> Some (p, drop n s))
      | CLit c \<Rightarrow>
          if c = CHR '' '' then
            (if s \<noteq> [] \<and> hd s \<noteq> CHR '' '' then None else Some (p, drop_spaces s))
          else if s = [] \<or> hd s \<noteq> c then None else Some (p, tl s))"

fun parse_layout :: "chunk list \<Rightarrow> parsed \<Rightarrow> string \<Rightarrow> parsed option" where
  "parse_layout [] p s = (if s = [] then Some p else None)"
| "parse_layout (ch # cs) p s =
     (case parse_chunk ch (cs \<noteq> [] \<and> hd cs = CFrac) p s of
        None \<Rightarrow> None
      | Some (p', s') \<Rightarrow> parse_layout cs p' s')"

text \<open>\<open>time.Date\<close> and the choice of zone at the end of \<^verbatim>\<open>time.Parse\<close>.\<close>

definition parsed_instant :: "parsed \<Rightarrow> instant" where
  "parsed_instant p =
     ((days_of (p_year p) (p_month p) (p_day p) * 86400 + p_hour p * 3600 + p_min p * 60 + p_sec p)
       - (if p_utc p then 0 else case p_off p of None \<Rightarrow> 0 | Some v \<Rightarrow> v)) * second_ns + p_nsec p"

definition time_parse :: "chunk list \<Rightarrow> string \<Rightarrow> instant option" where
  "time_parse layout s =
     (case parse_layout layout parsed_init s of
        None \<Rightarrow> None
      | Some p \<Rightarrow>
          if p_day p < 1 \<or> p_day p > month_len (p_year p) (p_month p) then None
          else Some (parsed_instant p))"

definition date_chunks :: "chunk list" where
  "date_chunks = [CYear, CLit CHR ''-'', CMonth, CLit CHR ''-'', CDay]"

definition clock_chunks :: "char \<Rightarrow> chunk list" where
  "clock_chunks sep = CLit sep # [CHour, CLit CHR '':'', CMinute]"

definition sec_chunks :: "chunk list" where
  "sec_chunks = [CLit CHR '':'', CSecond, CFrac]"

definition storedTimestampLayouts :: "chunk list list" where
  "storedTimestampLayouts =
     [date_chunks @ clock_chunks CHR '' '' @ sec_chunks @ [CLit CHR '' '', CNumTZ, CLit CHR '' '', CTZ],
      date_chunks @ clock_chunks CHR '' '' @ sec_chunks @ [CLit CHR '' '', CNumTZ],
      date_chunks @ clock_chunks CHR ''T'' @ sec_chunks @ [CIsoColonTZ],
      date_chunks @ clock_chunks CHR ''T'' @ sec_chunks @ [CIsoColonTZ],
      date_chunks @ clock_chunks CHR '' '' @ sec_chunks @ [CColonTZ],
      date_chunks @ clock_chunks CHR ''T'' @ sec_chunks @ [CColonTZ],
      date_chunks @ clock_chunks CHR '' '' @ sec_chunks,
      date_chunks @ clock_chunks CHR ''T'' @ sec_chunks,
      date_chunks @ clock_chunks CHR '' '',
      date_chunks @ clock_chunks CHR ''T'',
      date_chunks]"

fun first_layout :: "chunk list list \<Rightarrow> string \<Rightarrow> instant option" where
  "first_layout [] s = None"
| "first_layout (l # ls) s = (case time_parse l s of Some t \<Rightarrow> Some t | None \<Rightarrow> first_layout ls s)"

text \<open>\<open>strings.Index(s, pat)\<close> as the part of \<open>s\<close> before the first occurrence.\<close>

fun before_sub :: "string \<Rightarrow> string \<Rightarrow> string option" where
  "before_sub pat s =
     (if prefix pat s then Some []
      else case s of [] \<Rightarrow> None | c # r \<Rightarrow> map_option (Cons c) (before_sub pat r))"

declare before_sub.simps [simp del]

definition ParseStoredTimestampText :: "string \<Rightarrow> instant option" where
  "ParseStoredTimestampText value0 =
     (let v1 = trimSpace value0
      in if v1 = [] then None
         else let v2 = (case before_sub '' m='' v1 of
                   Some pre \<Rightarrow> if pre \<noteq> [] then trimSpace pre else v1
                 | None \<Rightarrow> v1);
                  v3 = (if suffix ''Z'' v2 then butlast v2 else v2)
              in first_layout storedTimestampLayouts v3)"

definition ParseStoredTimestamp :: "scanned \<Rightarrow> instant option" where
  "ParseStoredTimestamp value =
     (case value of
        VNil \<Rightarrow> None
      | VTime t \<Rightarrow> Some t
      | VBytes s \<Rightarrow> ParseStoredTimestampText s
      | VStr s \<Rightarrow> ParseStoredTimestampText s
      | VInt i \<Rightarrow> None)"

definition IsAfter :: "scanned \<Rightarrow> instant \<Rightarrow> bool" where
  "IsAfter value threshold =
     (case ParseStoredTimestamp value of None \<Rightarrow> False | Some t \<Rightarrow> t > threshold)"

section \<open>Selecting and deleting by timestamp\<close>

definition NormalizeScannedRowID :: "scanned \<Rightarrow> scanned" where
  "NormalizeScannedRowID i = (case i of VBytes s \<Rightarrow> VStr s | _ \<Rightarrow> i)"

definition timestamp_expired :: "instant \<Rightarrow> bool \<Rightarrow> scanned \<Rightarrow> bool" where
  "timestamp_expired cutoff includeEqual v =
     (case ParseStoredTimestamp v of
        None \<Rightarrow> False
      | Some t \<Rightarrow> t < cutoff \<or> (includeEqual \<and> t = cutoff))"

definition SelectRowIDsWithTimestampBefore ::
  "('r \<Rightarrow> scanned) \<Rightarrow> ('r \<Rightarrow> scanned) \<Rightarrow> 'r list \<Rightarrow> instant \<Rightarrow> bool \<Rightarrow> scanned list" where
  "SelectRowIDsWithTimestampBefore idc tsc table cutoff includeEqual =
     map (NormalizeScannedRowID \<circ> idc)
       (filter (\<lambda>r. tsc r \<noteq> VNil \<and> timestamp_expired cutoff includeEqual (tsc r)) table)"

definition deleteChunkSize :: nat where "deleteChunkSize = 500"

text \<open>
  \<open>DELETE FROM table WHERE id IN (...)\<close>. A text key compares equal to a bound string; a bound
  byte string is a BLOB and equals no key, which \<open>NormalizeScannedRowID\<close> avoids.
\<close>

definition delete_ids :: "('r \<Rightarrow> scanned) \<Rightarrow> scanned list \<Rightarrow> 'r list \<Rightarrow> 'r list" where
  "delete_ids idc ids table = filter (\<lambda>r. NormalizeScannedRowID (idc r) \<notin> set ids) table"

text \<open>
  The chunked delete loop. \<open>oks\<close> lists the outcomes of the DELETE statements in order (an
  exhausted list means they succeed). The result holds the table, the number of deleted rows and
  whether an error was returned.
\<close>

function delete_chunks ::
  "('r \<Rightarrow> scanned) \<Rightarrow> bool list \<Rightarrow> scanned list \<Rightarrow> int \<Rightarrow> 'r list \<Rightarrow> 'r list \<times> int \<times> bool" where
  "delete_chunks idc oks ids deleted table =
     (if ids = [] then (table, deleted, True)
      else if oks \<noteq> [] \<and> \<not> hd oks then (table, deleted, False)
      else let table' = delete_ids idc (take deleteChunkSize ids) table
           in delete_chunks idc (tl oks) (drop deleteChunkSize ids)
                (deleted + (int (length table) - int (length table'))) table')"
  by pat_completeness auto
termination
  by (relation "measure (\<lambda>(idc, oks, ids, d, t). length ids)") (auto simp: deleteChunkSize_def)

declare delete_chunks.simps [simp del]

definition DeleteRowsWithTimestampBefore ::
  "('r \<Rightarrow> scanned) \<Rightarrow> ('r \<Rightarrow> scanned) \<Rightarrow> bool \<Rightarrow> bool list \<Rightarrow> instant \<Rightarrow> bool \<Rightarrow> 'r list \<Rightarrow>
     'r list \<times> int \<times> bool" where
  "DeleteRowsWithTimestampBefore idc tsc selectOk oks cutoff includeEqual table =
     (if \<not> selectOk then (table, 0, False)
      else delete_chunks idc oks (SelectRowIDsWithTimestampBefore idc tsc table cutoff includeEqual) 0 table)"

section \<open>Written timestamps read back\<close>

lemma digit_char_props [simp]: "is_digit (digit_char d)" "digit_val (digit_char d) = d mod 10"
proof -
  have b: "nat (d mod 10) < 10" by (simp add: nat_less_iff)
  show "is_digit (digit_char d)" unfolding digit_char_def by (rule is_digit_char_of [OF b])
  show "digit_val (digit_char d) = d mod 10"
    unfolding digit_char_def by (subst digit_val_char_of [OF b]) simp
qed

lemma digit_char_not_space [simp]: "digit_char d \<noteq> CHR '' ''" "ascii_graphic (digit_char d)"
proof -
  have "is_digit (digit_char d)" by simp
  then show "digit_char d \<noteq> CHR '' ''" "ascii_graphic (digit_char d)"
    by (auto simp: is_digit_def ascii_graphic_def)
qed

lemma two_digits: "\<lbrakk>0 \<le> n; n < 100\<rbrakk> \<Longrightarrow> 10 * (n div 10 mod 10) + n mod 10 = (n::int)"
  using div_below [of 10 n 10] mult_div_mod_eq [of 10 n] by simp

lemma four_digits:
  assumes "0 \<le> n" "n \<le> 9999"
  shows "10 * (10 * (10 * (n div 1000 mod 10) + n div 100 mod 10) + n div 10 mod 10) + n mod 10 = (n::int)"
proof -
  define a b c where "a = n div 10" and "b = a div 10" and "c = b div 10"
  have e: "n div 100 = b" "n div 1000 = c"
    unfolding a_def b_def c_def by (simp_all add: zdiv_zmult2_eq [symmetric])
  have "0 \<le> c" "c \<le> 9"
    using div_below [of 1000 n 10] assms e by auto
  then have "c mod 10 = c" by simp
  moreover have "10 * a + n mod 10 = n" unfolding a_def by (rule mult_div_mod_eq)
  moreover have "10 * b + a mod 10 = a" unfolding b_def by (rule mult_div_mod_eq)
  moreover have "10 * c + b mod 10 = b" unfolding c_def by (rule mult_div_mod_eq)
  ultimately show ?thesis by (simp only: e a_def [symmetric])
qed

lemma digits_val_4:
  "digits_val [a, b, c, d] = 10 * (10 * (10 * digit_val a + digit_val b) + digit_val c) + digit_val d"
  by (simp add: digits_val_def)

lemma pad4_props:
  assumes "0 \<le> y" "y \<le> 9999"
  shows "length (pad4 y) = 4" "list_all is_digit (pad4 y)" "digits_val (pad4 y) = y"
proof -
  have e: "pad4 y = [digit_char (y div 1000), digit_char (y div 100), digit_char (y div 10), digit_char y]"
    using assms by (simp only: pad4_def simp_thms if_True)
  show "length (pad4 y) = 4" "list_all is_digit (pad4 y)" by (simp_all add: e)
  show "digits_val (pad4 y) = y"
    unfolding e digits_val_4 digit_char_props by (rule four_digits [OF assms])
qed

lemma getnum_pad2 [simp]:
  "\<lbrakk>0 \<le> n; n < 100\<rbrakk> \<Longrightarrow> getnum fixed (pad2 n @ r) = Some (n, r)"
  using two_digits [of n] by (simp add: pad2_def)

lemma getnum_below_pad2 [simp]:
  "\<lbrakk>0 \<le> n; n < m; m \<le> 100\<rbrakk> \<Longrightarrow> getnum_below fixed m (pad2 n @ r) = Some (n, r)"
  by (simp add: getnum_below_def)

lemma parse_date_chunks:
  assumes "0 \<le> y" "y \<le> 9999" "1 \<le> m" "m \<le> 12" "1 \<le> d" "d \<le> 31"
  shows "parse_layout (date_chunks @ cs) p (pad4 y @ ''-'' @ pad2 m @ ''-'' @ pad2 d @ r)
    = parse_layout cs (p\<lparr>p_year := y, p_month := m, p_day := d\<rparr>) r"
proof -
  have y: "parse_chunk CYear nf p (pad4 y @ q) = Some (p\<lparr>p_year := y\<rparr>, q)" for nf q
    using pad4_props [OF assms(1,2)] by (simp add: parse_chunk_def)
  have m: "parse_chunk CMonth nf q (pad2 m @ x) = Some (q\<lparr>p_month := m\<rparr>, x)" for nf q x
    using assms by (simp add: parse_chunk_def)
  have d: "parse_chunk CDay nf q (pad2 d @ x) = Some (q\<lparr>p_day := d\<rparr>, x)" for nf q x
    using assms by (simp add: parse_chunk_def)
  have lit: "parse_chunk (CLit CHR ''-'') nf q (CHR ''-'' # x) = Some (q, x)" for nf q x
    by (simp add: parse_chunk_def)
  show ?thesis by (simp add: date_chunks_def y m d lit)
qed

lemma pad2_start: "\<exists>a b. pad2 n = [digit_char a, digit_char b]"
  by (auto simp: pad2_def)

lemma parse_clock_chunks:
  assumes "0 \<le> h" "h < 24" "0 \<le> mi" "mi < 60"
  shows "parse_layout (clock_chunks CHR '' '' @ cs) p ('' '' @ pad2 h @ '':'' @ pad2 mi @ r)
    = parse_layout cs (p\<lparr>p_hour := h, p_min := mi\<rparr>) r"
proof -
  have sp: "parse_chunk (CLit CHR '' '') nf q (CHR '' '' # pad2 h @ x) = Some (q, pad2 h @ x)" for nf q x
    using pad2_start [of h] by (auto simp: parse_chunk_def drop_spaces_def)
  have h: "parse_chunk CHour nf q (pad2 h @ x) = Some (q\<lparr>p_hour := h\<rparr>, x)" for nf q x
    using assms by (simp add: parse_chunk_def)
  have m: "parse_chunk CMinute nf q (pad2 mi @ x) = Some (q\<lparr>p_min := mi\<rparr>, x)" for nf q x
    using assms by (simp add: parse_chunk_def)
  have lit: "parse_chunk (CLit CHR '':'') nf q (CHR '':'' # x) = Some (q, x)" for nf q x
    by (simp add: parse_chunk_def)
  show ?thesis by (simp add: clock_chunks_def sp h m lit)
qed

lemma parse_clock_T_fails: "parse_layout (clock_chunks CHR ''T'' @ cs) p ('' '' @ r) = None"
  by (simp add: clock_chunks_def parse_chunk_def)

lemma parse_sec_chunks:
  assumes "0 \<le> se" "se < 60"
  shows "parse_layout (sec_chunks @ cs) p ('':'' @ pad2 se) = parse_layout cs (p\<lparr>p_sec := se\<rparr>) []"
proof -
  have lit: "parse_chunk (CLit CHR '':'') nf q (CHR '':'' # x) = Some (q, x)" for nf q x
    by (simp add: parse_chunk_def)
  have se: "parse_chunk CSecond nf q (pad2 se) = Some (q\<lparr>p_sec := se\<rparr>, [])" for nf q
    using assms getnum_below_pad2 [of se 60 True "[]"] by (simp add: parse_chunk_def frac_start_def)
  have fr: "parse_chunk CFrac nf q [] = Some (q, [])" for nf q
    by (simp add: parse_chunk_def frac_start_def)
  show ?thesis by (simp add: sec_chunks_def lit se fr)
qed

lemma zone_chunks_fail:
  "parse_layout [CLit CHR '' '', CNumTZ, CLit CHR '' '', CTZ] p [] = None"
  "parse_layout [CLit CHR '' '', CNumTZ] p [] = None"
  "parse_layout [CColonTZ] p [] = None"
  by (simp_all add: parse_chunk_def drop_spaces_def)

text \<open>The canonical text of a date and time, and what the layout list makes of it.\<close>

definition sql_text :: "int \<Rightarrow> int \<Rightarrow> int \<Rightarrow> int \<Rightarrow> int \<Rightarrow> int \<Rightarrow> string" where
  "sql_text y m d h mi se =
     pad4 y @ ''-'' @ pad2 m @ ''-'' @ pad2 d @ '' '' @ pad2 h @ '':'' @ pad2 mi @ '':'' @ pad2 se"

lemma first_layout_sql_text:
  assumes "0 \<le> y" "y \<le> 9999" "valid_date y m d" "0 \<le> h" "h < 24" "0 \<le> mi" "mi < 60" "0 \<le> se" "se < 60"
  shows "first_layout storedTimestampLayouts (sql_text y m d h mi se)
    = Some ((days_of y m d * 86400 + h * 3600 + mi * 60 + se) * second_ns)"
proof -
  have r: "1 \<le> m" "m \<le> 12" "1 \<le> d" "d \<le> month_len y m" "d \<le> 31"
    using assms(3) month_len_bounds [of y m] by (auto simp: valid_date_def)
  note steps = sql_text_def parse_date_chunks [OF assms(1,2) r(1,2,3,5)]
    parse_clock_chunks [OF assms(4-7)] parse_clock_T_fails parse_sec_chunks [OF assms(8,9)]
  have failT: "time_parse (date_chunks @ clock_chunks CHR ''T'' @ cs) (sql_text y m d h mi se) = None" for cs
    by (simp only: time_parse_def steps option.case)
  have go: "parse_layout (date_chunks @ clock_chunks CHR '' '' @ sec_chunks @ cs) parsed_init (sql_text y m d h mi se)
    = parse_layout cs (parsed_init\<lparr>p_year := y, p_month := m, p_day := d, p_hour := h, p_min := mi, p_sec := se\<rparr>) []"
    for cs by (simp only: steps)
  have fail1: "time_parse (date_chunks @ clock_chunks CHR '' '' @ sec_chunks
      @ [CLit CHR '' '', CNumTZ, CLit CHR '' '', CTZ]) (sql_text y m d h mi se) = None"
    and fail2: "time_parse (date_chunks @ clock_chunks CHR '' '' @ sec_chunks
      @ [CLit CHR '' '', CNumTZ]) (sql_text y m d h mi se) = None"
    and fail3: "time_parse (date_chunks @ clock_chunks CHR '' '' @ sec_chunks @ [CColonTZ])
      (sql_text y m d h mi se) = None"
    by (simp_all only: time_parse_def go zone_chunks_fail option.case)
  have ok: "time_parse (date_chunks @ clock_chunks CHR '' '' @ sec_chunks) (sql_text y m d h mi se)
    = Some ((days_of y m d * 86400 + h * 3600 + mi * 60 + se) * second_ns)"
    using go [of "[]"] r by (simp add: time_parse_def parsed_instant_def parsed_init_def)
  show ?thesis
    by (simp only: storedTimestampLayouts_def first_layout.simps failT fail1 fail2 fail3 ok option.case)
qed

lemma before_sub_none:
  assumes "pat \<noteq> []" "hd pat \<notin> set s"
  shows "before_sub pat s = None"
  using assms(2)
proof (induction s)
  case Nil
  with assms(1) show ?case by (subst before_sub.simps) simp
next
  case (Cons c s)
  with assms(1) have "\<not> prefix pat (c # s)" by (cases pat) auto
  with Cons show ?case by (subst before_sub.simps) simp
qed

lemma before_sub_space_m:
  assumes "CHR ''m'' \<notin> set s"
  shows "before_sub '' m='' s = None"
  using assms
proof (induction s)
  case Nil
  show ?case by (subst before_sub.simps) simp
next
  case (Cons c s)
  then have "\<not> prefix '' m='' (c # s)" by (cases s) auto
  with Cons show ?case by (subst before_sub.simps) simp
qed

lemma ParseStoredTimestampText_sql_text:
  assumes "0 \<le> y" "y \<le> 9999" "valid_date y m d" "0 \<le> h" "h < 24" "0 \<le> mi" "mi < 60" "0 \<le> se" "se < 60"
  shows "ParseStoredTimestampText (sql_text y m d h mi se)
    = Some ((days_of y m d * 86400 + h * 3600 + mi * 60 + se) * second_ns)"
proof -
  let ?s = "sql_text y m d h mi se"
  have chars: "c \<in> set ?s \<Longrightarrow> is_digit c \<or> c \<in> set ''- :''" for c
    using pad4_props [OF assms(1,2)] by (auto simp: sql_text_def pad2_def list_all_iff)
  obtain a q where y: "pad4 y = a # q" "is_digit a"
    using pad4_props [OF assms(1,2)] by (cases "pad4 y") auto
  have hd: "?s \<noteq> []" "ascii_graphic (hd ?s)"
    using y by (auto simp: sql_text_def is_digit_def ascii_graphic_def)
  have last: "last ?s = digit_char se" by (simp add: sql_text_def pad2_def)
  have "trimSpace ?s = ?s" using hd last by (intro trimSpace_ends_graphic) simp_all
  moreover have "before_sub '' m='' ?s = None"
    using chars [of "CHR ''m''"] by (intro before_sub_space_m) (auto simp: is_digit_def)
  moreover have "\<not> suffix ''Z'' ?s"
  proof
    assume "suffix ''Z'' ?s"
    then have "last ?s = CHR ''Z''" by (auto simp: suffix_def)
    with last have "is_digit (CHR ''Z'')" using digit_char_props(1) [of se] by metis
    then show False by (simp add: is_digit_def)
  qed
  ultimately show ?thesis
    using hd(1) first_layout_sql_text [OF assms] by (simp add: ParseStoredTimestampText_def)
qed

lemma local_sec_split:
  "days_of (year z t) (month z t) (day z t) * 86400 + hour z t * 3600 + minute z t * 60 + sec z t
    = local_sec z t"
proof -
  define q where "q = local_sec z t"
  have d: "days_of (year z t) (month z t) (day z t) = q div 86400"
    using civil_spec(2) [of "q div 86400" "year z t" "month z t" "day z t"]
    by (simp add: year_def month_def day_def q_def)
  have "q mod 86400 mod 3600 = q mod 3600" "q mod 3600 mod 60 = q mod 60"
    by (simp_all add: mod_mod_cancel)
  moreover have "3600 * (q mod 86400 div 3600) + q mod 86400 mod 3600 = q mod 86400"
    "60 * (q mod 3600 div 60) + q mod 3600 mod 60 = q mod 3600" "86400 * (q div 86400) + q mod 86400 = q"
    by (rule mult_div_mod_eq)+
  ultimately show ?thesis
    unfolding d hour_def minute_def sec_def q_def [symmetric] by linarith
qed

lemma stored_text_reads_back:
  assumes "0 \<le> year utc t" "year utc t \<le> 9999"
  shows "ParseStoredTimestamp (VStr (FormatSQLTimestamp t)) = Some (t - t mod second_ns)
    \<and> ParseStoredTimestamp (VBytes (FormatSQLTimestamp t)) = Some (t - t mod second_ns)"
proof -
  have "FormatSQLTimestamp t = sql_text (year utc t) (month utc t) (day utc t) (hour utc t)
      (minute utc t) (sec utc t)"
    by (simp add: FormatSQLTimestamp_def sql_text_def)
  moreover have "0 \<le> sec utc t" "sec utc t < 60" by (simp_all add: sec_def)
  moreover have "hour utc t < 24" "minute utc t < 60"
    using field_ranges(8) [of utc t] field_ranges(10) [of utc t] by simp_all
  ultimately have "ParseStoredTimestampText (FormatSQLTimestamp t) = Some (local_sec utc t * second_ns)"
    using ParseStoredTimestampText_sql_text [OF assms date_valid] field_ranges [of utc t]
    by (simp add: local_sec_split)
  moreover have "local_sec utc t * second_ns = t - t mod second_ns"
    by (simp add: local_sec_def unix_sec_def utc_def minus_mod_eq_div_mult)
  ultimately show ?thesis by (simp add: ParseStoredTimestamp_def)
qed

text \<open>
  What \<open>FormatSQLTimestamp\<close> writes, \<open>ParseStoredTimestamp\<close> reads back: for every instant
  of the years 0 to 9999 the stored text parses to that instant truncated to whole seconds,
  whether the driver returns it as a string or as bytes.
\<close>

lemma parse_format_sql_timestamp:
  assumes "0 \<le> year utc t" "year utc t \<le> 9999"
  shows "ParseStoredTimestamp (VStr (FormatSQLTimestamp t)) = Some (t - t mod second_ns)
    \<and> ParseStoredTimestamp (VBytes (FormatSQLTimestamp t)) = Some (t - t mod second_ns)"
  using stored_text_reads_back [OF assms] .

lemma parse_format_sql_timestamp_example:
  "ParseStoredTimestamp (VStr (FormatSQLTimestamp 1700000000123456789)) = Some 1700000000000000000"
proof -
  have y: "year utc 1700000000123456789 = 2023"
    by code_simp
  have "ParseStoredTimestamp (VStr (FormatSQLTimestamp 1700000000123456789))
      = Some (1700000000123456789 - 1700000000123456789 mod second_ns)"
    using parse_format_sql_timestamp [of 1700000000123456789] y by simp
  then show ?thesis by (simp add: second_ns_def)
qed

section \<open>Deleting expired rows\<close>

lemma delete_ids_append: "delete_ids idc ys (delete_ids idc xs t) = delete_ids idc (xs @ ys) t"
  by (auto simp: delete_ids_def intro: filter_cong)

lemma delete_ids_nil [simp]: "delete_ids idc [] t = t"
  by (simp add: delete_ids_def)

lemma delete_chunks_ok:
  "list_all id oks \<Longrightarrow> delete_chunks idc oks ids n t
     = (delete_ids idc ids t, n + (int (length t) - int (length (delete_ids idc ids t))), True)"
proof (induction idc oks ids n t rule: delete_chunks.induct)
  case (1 idc oks ids n t)
  show ?case
  proof (cases "ids = []")
    case False
    let ?t = "delete_ids idc (take deleteChunkSize ids) t"
    have ok: "\<not> (oks \<noteq> [] \<and> \<not> hd oks)" using "1.prems" by (cases oks) simp_all
    have oks: "list_all id (tl oks)" using "1.prems" by (cases oks) (simp_all add: id_def)
    from "1.IH" [OF False ok refl oks]
    show ?thesis
      using False ok by (subst delete_chunks.simps) (simp add: delete_ids_append Let_def)
  qed (simp add: delete_chunks.simps)
qed

text \<open>Whatever the statements' outcomes, a chunked delete removes only rows whose key was listed.\<close>

lemma delete_chunks_keeps:
  assumes "\<And>r. P r \<Longrightarrow> NormalizeScannedRowID (idc r) \<notin> set ids"
  shows "filter P (fst (delete_chunks idc oks ids n t)) = filter P t"
  using assms
proof (induction idc oks ids n t rule: delete_chunks.induct)
  case (1 idc oks ids n t)
  consider "ids = []" | "ids \<noteq> []" "oks \<noteq> [] \<and> \<not> hd oks" | "ids \<noteq> []" "\<not> (oks \<noteq> [] \<and> \<not> hd oks)"
    by blast
  then show ?case
  proof cases
    case 3
    let ?t = "delete_ids idc (take deleteChunkSize ids) t"
    have "filter P (fst (delete_chunks idc (tl oks) (drop deleteChunkSize ids)
        (n + (int (length t) - int (length ?t))) ?t)) = filter P ?t"
      using "1.prems" by (intro "1.IH" [OF 3 refl]) (auto dest: in_set_dropD)
    moreover have "filter P ?t = filter P t"
      using "1.prems" by (auto simp: delete_ids_def intro!: filter_cong dest: in_set_takeD)
    ultimately show ?thesis using 3 by (subst delete_chunks.simps) (simp add: Let_def)
  qed (simp_all add: delete_chunks.simps)
qed

lemma delete_chunks_subset: "set (fst (delete_chunks idc oks ids n t)) \<subseteq> set t"
proof (induction idc oks ids n t rule: delete_chunks.induct)
  case (1 idc oks ids n t)
  then show ?case
    by (subst delete_chunks.simps) (auto simp: Let_def delete_ids_def)
qed

lemma timestamp_expired_VNil [simp]: "\<not> timestamp_expired c e VNil"
  by (simp add: timestamp_expired_def ParseStoredTimestamp_def)

definition distinct_keys :: "('r \<Rightarrow> scanned) \<Rightarrow> 'r list \<Rightarrow> bool" where
  "distinct_keys idc t \<longleftrightarrow> distinct (map (NormalizeScannedRowID \<circ> idc) t)"

lemma selected_keys:
  assumes "distinct_keys idc t" "r \<in> set t"
  shows "NormalizeScannedRowID (idc r) \<in> set (SelectRowIDsWithTimestampBefore idc tsc t c e)
    \<longleftrightarrow> timestamp_expired c e (tsc r)"
proof
  assume "NormalizeScannedRowID (idc r) \<in> set (SelectRowIDsWithTimestampBefore idc tsc t c e)"
  then obtain q where q: "q \<in> set t" "timestamp_expired c e (tsc q)"
    "NormalizeScannedRowID (idc r) = NormalizeScannedRowID (idc q)"
    by (auto simp: SelectRowIDsWithTimestampBefore_def)
  have "inj_on (NormalizeScannedRowID \<circ> idc) (set t)"
    using assms(1) by (simp add: distinct_keys_def distinct_map)
  with q assms(2) show "timestamp_expired c e (tsc r)"
    by (metis comp_apply inj_on_eq_iff)
next
  assume "timestamp_expired c e (tsc r)"
  with assms(2) show "NormalizeScannedRowID (idc r) \<in> set (SelectRowIDsWithTimestampBefore idc tsc t c e)"
    by (auto simp: SelectRowIDsWithTimestampBefore_def intro!: image_eqI [where x = r])
qed

lemma DeleteRows_ok:
  assumes "distinct_keys idc table" "list_all id oks"
  shows "DeleteRowsWithTimestampBefore idc tsc True oks cutoff eq table
    = (filter (\<lambda>r. \<not> timestamp_expired cutoff eq (tsc r)) table,
       int (length (filter (\<lambda>r. timestamp_expired cutoff eq (tsc r)) table)), True)"
proof -
  let ?ids = "SelectRowIDsWithTimestampBefore idc tsc table cutoff eq"
  let ?exp = "\<lambda>r. timestamp_expired cutoff eq (tsc r)"
  have "delete_ids idc ?ids table = filter (\<lambda>r. \<not> ?exp r) table"
    unfolding delete_ids_def by (rule filter_cong) (simp_all add: selected_keys [OF assms(1)])
  moreover have "length (filter ?exp table) + length (filter (\<lambda>r. \<not> ?exp r) table) = length table"
    by (rule sum_length_filter_compl)
  ultimately show ?thesis
    by (simp add: DeleteRowsWithTimestampBefore_def delete_chunks_ok [OF assms(2)] flip: of_nat_add)
qed

text \<open>
  C36. Expiry by timestamp is exact: over a table with distinct keys and with statements that
  succeed, \<open>DeleteRowsWithTimestampBefore\<close> removes precisely the rows whose stored value parses
  to an instant before the cutoff (or equal to it when asked), in any number of 500-row chunks,
  and reports how many there were.
\<close>

theorem DeleteRows_exact:
  assumes "distinct_keys idc table" "list_all id oks"
  shows "DeleteRowsWithTimestampBefore idc tsc True oks cutoff eq table
    = (filter (\<lambda>r. \<not> timestamp_expired cutoff eq (tsc r)) table,
       int (length (filter (\<lambda>r. timestamp_expired cutoff eq (tsc r)) table)), True)"
  using assms by (rule DeleteRows_ok)

theorem DeleteRows_exact_witness:
  "DeleteRowsWithTimestampBefore fst snd True [True] 1700000000000000000 False
     [(VInt 1, VStr ''2023-11-14 22:13:19''), (VBytes ''b'', VStr ''not a time''),
      (VInt 3, VStr ''2023-11-14 17:13:20.5 -0500 EST'')]
   = ([(VBytes ''b'', VStr ''not a time''), (VInt 3, VStr ''2023-11-14 17:13:20.5 -0500 EST'')], 1, True)"
proof -
  let ?t = "[(VInt 1, VStr ''2023-11-14 22:13:19''), (VBytes ''b'', VStr ''not a time''),
      (VInt 3, VStr ''2023-11-14 17:13:20.5 -0500 EST'')]"
  have "distinct_keys fst ?t" by code_simp
  then have "DeleteRowsWithTimestampBefore fst snd True [True] 1700000000000000000 False ?t
    = (filter (\<lambda>r. \<not> timestamp_expired 1700000000000000000 False (snd r)) ?t,
       int (length (filter (\<lambda>r. timestamp_expired 1700000000000000000 False (snd r)) ?t)), True)"
    by (rule DeleteRows_exact) simp
  moreover have "timestamp_expired 1700000000000000000 False (VStr ''2023-11-14 22:13:19'')"
    "\<not> timestamp_expired 1700000000000000000 False (VStr ''not a time'')"
    "\<not> timestamp_expired 1700000000000000000 False (VStr ''2023-11-14 17:13:20.5 -0500 EST'')"
    by code_simp+
  ultimately show ?thesis by simp
qed

text \<open>
  Fail-safe deletion: whatever statement fails and however many chunks ran before, no row
  with an unexpired, missing or unreadable timestamp is ever removed, and their order is kept.
\<close>

lemma DeleteRows_keeps_live:
  assumes "distinct_keys idc table"
  shows "filter (\<lambda>r. \<not> timestamp_expired cutoff eq (tsc r))
       (fst (DeleteRowsWithTimestampBefore idc tsc selectOk oks cutoff eq table))
    = filter (\<lambda>r. \<not> timestamp_expired cutoff eq (tsc r)) table"
proof (cases selectOk)
  case True
  let ?ids = "SelectRowIDsWithTimestampBefore idc tsc table cutoff eq"
  let ?live = "\<lambda>r. r \<in> set table \<and> \<not> timestamp_expired cutoff eq (tsc r)"
  have keep: "filter ?live (fst (delete_chunks idc oks ?ids 0 table)) = filter ?live table"
    by (rule delete_chunks_keeps) (auto simp: selected_keys [OF assms])
  have sub: "set (fst (delete_chunks idc oks ?ids 0 table)) \<subseteq> set table"
    by (rule delete_chunks_subset)
  have "filter (\<lambda>r. \<not> timestamp_expired cutoff eq (tsc r)) (fst (delete_chunks idc oks ?ids 0 table))
      = filter ?live (fst (delete_chunks idc oks ?ids 0 table))"
    using sub by (intro filter_cong) auto
  also have "\<dots> = filter (\<lambda>r. \<not> timestamp_expired cutoff eq (tsc r)) table"
    unfolding keep by (intro filter_cong) auto
  finally show ?thesis using True by (simp add: DeleteRowsWithTimestampBefore_def)
qed (simp add: DeleteRowsWithTimestampBefore_def)

lemma DeleteRows_keeps_live_example:
  "filter (\<lambda>r. \<not> timestamp_expired 0 False (snd r))
     (fst (DeleteRowsWithTimestampBefore fst snd True [False] 0 False [(VInt 1, VNil), (VInt 2, VStr ''1969-12-31'')]))
   = [(VInt 1, VNil)]"
proof -
  have d: "distinct_keys fst [(VInt 1, VNil), (VInt 2, VStr ''1969-12-31'')]" by code_simp
  have "timestamp_expired 0 False (VStr ''1969-12-31'')" by code_simp
  with DeleteRows_keeps_live [OF d, of 0 False snd True "[False]"] show ?thesis by simp
qed

end
