(* ===== verification/Task_Lock.thy ===== *)
theory Task_Lock
  imports Dbtime
begin

text \<open>
  The table \<^verbatim>\<open>server_scheduler_state\<close> and the distributed task lock of
  \<^verbatim>\<open>src/scheduler/scheduler.go\<close>. A lock attempt is a read of the row, a decision taken in
  Go, and a conditional write (insert-if-absent or compare-and-swap on the observed holder),
  followed by a confirming read when the driver reports no affected row. The three are separate
  definitions: \<open>acquireTaskLock\<close> composes them for one node, and the step relation at the end
  interleaves them between nodes.
\<close>

section \<open>The state table\<close>

record state_row =
  sr_task_name :: string
  sr_schedule :: string
  sr_last_run :: scanned
  sr_last_status :: "string option"
  sr_last_error :: "string option"
  sr_next_run :: scanned
  sr_run_count :: int
  sr_fail_count :: int
  sr_enabled :: bool
  sr_locked_by :: "string option"
  sr_locked_at :: scanned

type_synonym state_table = "string \<rightharpoonup> state_row"

text \<open>The column defaults of the schema.\<close>

definition new_state_row :: "string \<Rightarrow> string \<Rightarrow> state_row" where
  "new_state_row name schedule =
     \<lparr>sr_task_name = name, sr_schedule = schedule, sr_last_run = VNil, sr_last_status = None,
      sr_last_error = None, sr_next_run = VNil, sr_run_count = 0, sr_fail_count = 0,
      sr_enabled = True, sr_locked_by = None, sr_locked_at = VNil\<rparr>"

text \<open>\<open>UPDATE ... WHERE task_id = ?\<close> with a further condition on the row.\<close>

definition update_where ::
  "string \<Rightarrow> (state_row \<Rightarrow> bool) \<Rightarrow> (state_row \<Rightarrow> state_row) \<Rightarrow> state_table \<Rightarrow> state_table" where
  "update_where k P f tbl =
     (case tbl k of None \<Rightarrow> tbl | Some r \<Rightarrow> if P r then tbl(k \<mapsto> f r) else tbl)"

definition update_all :: "(state_row \<Rightarrow> bool) \<Rightarrow> (state_row \<Rightarrow> state_row) \<Rightarrow> state_table \<Rightarrow> state_table" where
  "update_all P f tbl = (\<lambda>k. map_option (\<lambda>r. if P r then f r else r) (tbl k))"

lemma update_where_other [simp]: "k' \<noteq> k \<Longrightarrow> update_where k P f tbl k' = tbl k'"
  by (simp add: update_where_def split: option.splits)

lemma update_where_same:
  "update_where k P f tbl k = map_option (\<lambda>r. if P r then f r else r) (tbl k)"
  by (simp add: update_where_def split: option.splits)

section \<open>Global tasks\<close>

definition globalTasks :: "string list" where
  "globalTasks =
     [''ssl-renewal'', ''geoip-update'', ''blocklist-update'', ''cve-update'', ''backup-daily'',
      ''backup-hourly'', ''update-geoip-database'', ''update-check'']"

definition isGlobalTask :: "string \<Rightarrow> bool" where
  "isGlobalTask taskName = in_table globalTasks taskName"

definition LockTimeout :: duration where "LockTimeout = 5 * minute_ns"

section \<open>The lock\<close>

datatype lock_snapshot = ReadFailed | NoRow | Holder "string option" scanned

definition lock_read :: "bool \<Rightarrow> string \<Rightarrow> state_table \<Rightarrow> lock_snapshot" where
  "lock_read ok taskName tbl =
     (if \<not> ok then ReadFailed
      else case tbl taskName of None \<Rightarrow> NoRow | Some r \<Rightarrow> Holder (sr_locked_by r) (sr_locked_at r))"

datatype lock_decision = Refuse | InsertRow | CompareAndSwap "string option"

text \<open>
  A lock held by another node is taken only when its timestamp parses and is older than the
  expiry; an absent or unreadable timestamp counts as held.
\<close>

definition lock_decide :: "string \<Rightarrow> instant \<Rightarrow> lock_snapshot \<Rightarrow> lock_decision" where
  "lock_decide node lockExpiry snap =
     (case snap of
        ReadFailed \<Rightarrow> Refuse
      | NoRow \<Rightarrow> InsertRow
      | Holder lockedBy lockedAt \<Rightarrow>
          (case lockedBy of
             Some h \<Rightarrow>
               if h \<noteq> node then
                 (case ParseStoredTimestamp lockedAt of
                    None \<Rightarrow> Refuse
                  | Some heldSince \<Rightarrow>
                      if heldSince < lockExpiry then CompareAndSwap (Some h) else Refuse)
               else CompareAndSwap (Some h)
           | None \<Rightarrow> CompareAndSwap None))"

text \<open>
  The write statement and the rows it reports as affected. Some drivers count only rows whose
  values changed (\<open>changedOnly\<close>).
\<close>

definition lock_write ::
  "bool \<Rightarrow> string \<Rightarrow> string \<Rightarrow> string \<Rightarrow> string \<Rightarrow> lock_decision \<Rightarrow> state_table \<Rightarrow> state_table \<times> nat" where
  "lock_write changedOnly node nowText taskName schedule d tbl =
     (case d of
        Refuse \<Rightarrow> (tbl, 0)
      | InsertRow \<Rightarrow>
          (case tbl taskName of
             None \<Rightarrow>
               (tbl(taskName \<mapsto> (new_state_row taskName schedule)
                  \<lparr>sr_locked_by := Some node, sr_locked_at := VStr nowText\<rparr>), 1)
           | Some _ \<Rightarrow> (tbl, 0))
      | CompareAndSwap observed \<Rightarrow>
          (case tbl taskName of
             None \<Rightarrow> (tbl, 0)
           | Some r \<Rightarrow>
               if sr_locked_by r = observed then
                 (let r' = r\<lparr>sr_schedule := schedule, sr_locked_by := Some node,
                             sr_locked_at := VStr nowText\<rparr>
                  in (tbl(taskName \<mapsto> r'), if changedOnly \<and> r' = r then 0 else 1))
               else (tbl, 0)))"

definition lock_confirm :: "bool \<Rightarrow> string \<Rightarrow> string \<Rightarrow> state_table \<Rightarrow> bool" where
  "lock_confirm ok node taskName tbl =
     (ok \<and> (case tbl taskName of None \<Rightarrow> False | Some r \<Rightarrow> sr_locked_by r = Some node))"

text \<open>Outcomes of the statements of one lock attempt, and the driver's way of counting rows.\<close>

record lock_io =
  io_read_ok :: bool
  io_write_ok :: bool
  io_confirm_ok :: bool
  io_changed_only :: bool

definition acquireTaskLock ::
  "lock_io \<Rightarrow> string \<Rightarrow> instant \<Rightarrow> string \<Rightarrow> string \<Rightarrow> state_table \<Rightarrow> state_table \<times> bool" where
  "acquireTaskLock io node now taskName schedule tbl =
     (if \<not> isGlobalTask taskName then (tbl, True)
      else let d = lock_decide node (now - LockTimeout) (lock_read (io_read_ok io) taskName tbl)
           in if d = Refuse then (tbl, False)
              else if \<not> io_write_ok io then (tbl, False)
              else let (tbl', n) = lock_write (io_changed_only io) node (FormatSQLTimestamp now)
                                     taskName schedule d tbl
                   in if d = InsertRow then (tbl', n > 0)
                      else if n > 0 then (tbl', True)
                      else (tbl', lock_confirm (io_confirm_ok io) node taskName tbl'))"

definition releaseTaskLock :: "bool \<Rightarrow> string \<Rightarrow> string \<Rightarrow> state_table \<Rightarrow> state_table" where
  "releaseTaskLock writeOk node taskName tbl =
     (if \<not> isGlobalTask taskName \<or> \<not> writeOk then tbl
      else update_where taskName (\<lambda>r. sr_locked_by r = Some node)
             (\<lambda>r. r\<lparr>sr_locked_by := None, sr_locked_at := VNil\<rparr>) tbl)"

definition releaseNodeLocks :: "bool \<Rightarrow> bool \<Rightarrow> string \<Rightarrow> state_table \<Rightarrow> state_table" where
  "releaseNodeLocks hasDB writeOk node tbl =
     (if \<not> hasDB \<or> \<not> writeOk then tbl
      else update_all (\<lambda>r. sr_locked_by r = Some node)
             (\<lambda>r. r\<lparr>sr_locked_by := None, sr_locked_at := VNil\<rparr>) tbl)"

section \<open>One node\<close>

definition held_by :: "state_table \<Rightarrow> string \<Rightarrow> string option" where
  "held_by tbl taskName = (case tbl taskName of None \<Rightarrow> None | Some r \<Rightarrow> sr_locked_by r)"

lemma lock_write_wins:
  assumes "lock_write co node txt k sch d tbl = (tbl', n)" "0 < n"
  shows "\<exists>r. tbl' k = Some r \<and> sr_locked_by r = Some node \<and> sr_locked_at r = VStr txt"
  using assms by (auto simp: lock_write_def Let_def split: lock_decision.splits option.splits if_splits)

lemma lock_write_other:
  "lock_write co node txt k sch d tbl = (tbl', n) \<Longrightarrow> k' \<noteq> k \<Longrightarrow> tbl' k' = tbl k'"
  by (auto simp: lock_write_def Let_def split: lock_decision.splits option.splits if_splits)

lemma acquire_won:
  assumes "isGlobalTask k" "acquireTaskLock io node now k sch tbl = (tbl', True)"
  shows "held_by tbl' k = Some node \<and> (\<forall>k'. k' \<noteq> k \<longrightarrow> tbl' k' = tbl k')"
proof -
  define d where "d = lock_decide node (now - LockTimeout) (lock_read (io_read_ok io) k tbl)"
  obtain t n where w: "lock_write (io_changed_only io) node (FormatSQLTimestamp now) k sch d tbl = (t, n)"
    by (cases "lock_write (io_changed_only io) node (FormatSQLTimestamp now) k sch d tbl")
  have t: "tbl' = t" and win: "0 < n \<or> lock_confirm (io_confirm_ok io) node k t"
    using assms w by (auto simp: acquireTaskLock_def Let_def d_def [symmetric] split: if_splits)
  from win have "held_by t k = Some node"
    using lock_write_wins [OF w] by (auto simp: held_by_def lock_confirm_def split: option.splits)
  with t lock_write_other [OF w] show ?thesis by auto
qed

text \<open>When the lock can be taken: the row is missing, free, this node's own, or held past the timeout.\<close>

definition lock_available :: "string \<Rightarrow> instant \<Rightarrow> string \<Rightarrow> state_table \<Rightarrow> bool" where
  "lock_available node now k tbl \<longleftrightarrow>
     (case tbl k of
        None \<Rightarrow> True
      | Some r \<Rightarrow>
          (case sr_locked_by r of
             None \<Rightarrow> True
           | Some h \<Rightarrow>
               h = node \<or>
               (case ParseStoredTimestamp (sr_locked_at r) of None \<Rightarrow> False | Some t \<Rightarrow> LockTimeout < now - t)))"

lemma lock_available_decide:
  "lock_decide node (now - LockTimeout) (lock_read True k tbl) \<noteq> Refuse \<longleftrightarrow> lock_available node now k tbl"
  by (auto simp: lock_decide_def lock_read_def lock_available_def split: option.splits)

lemma lock_unavailable:
  "isGlobalTask k \<Longrightarrow> \<not> lock_available node now k tbl \<Longrightarrow> acquireTaskLock io node now k sch tbl = (tbl, False)"
  using lock_available_decide [of node now k tbl]
  by (cases "io_read_ok io") (auto simp: acquireTaskLock_def Let_def lock_read_def lock_decide_def)

lemma swap_confirmed:
  assumes "tbl k = Some r" "lock_write co node txt k sch (CompareAndSwap (sr_locked_by r)) tbl = (t', n)"
  shows "lock_confirm True node k t'"
proof -
  from assms have "t' = tbl(k \<mapsto> r\<lparr>sr_schedule := sch, sr_locked_by := Some node, sr_locked_at := VStr txt\<rparr>)"
    by (simp add: lock_write_def Let_def)
  then show ?thesis by (simp add: lock_confirm_def)
qed

lemma lock_taken:
  assumes "isGlobalTask k" "lock_available node now k tbl" "io_read_ok io" "io_write_ok io" "io_confirm_ok io"
  shows "snd (acquireTaskLock io node now k sch tbl)"
proof (cases "tbl k")
  case None
  with assms show ?thesis by (simp add: acquireTaskLock_def lock_read_def lock_decide_def lock_write_def)
next
  case (Some r)
  then have "lock_decide node (now - LockTimeout) (lock_read True k tbl) = CompareAndSwap (sr_locked_by r)"
    using assms(2) by (auto simp: lock_available_def lock_decide_def lock_read_def split: option.splits)
  moreover obtain t' n where
    "lock_write (io_changed_only io) node (FormatSQLTimestamp now) k sch (CompareAndSwap (sr_locked_by r)) tbl = (t', n)"
    by (cases "lock_write (io_changed_only io) node (FormatSQLTimestamp now) k sch (CompareAndSwap (sr_locked_by r)) tbl")
  moreover from swap_confirmed [OF Some this] have "lock_confirm True node k t'" .
  ultimately show ?thesis using assms by (simp add: acquireTaskLock_def)
qed

lemma acquire_other:
  assumes "acquireTaskLock io node now k sch tbl = (tbl', won)" "k' \<noteq> k"
  shows "tbl' k' = tbl k'"
proof -
  obtain t n where "lock_write (io_changed_only io) node (FormatSQLTimestamp now) k sch
      (lock_decide node (now - LockTimeout) (lock_read (io_read_ok io) k tbl)) tbl = (t, n)" by fastforce
  from lock_write_other [OF this assms(2)] this assms(1) show ?thesis
    by (auto simp: acquireTaskLock_def Let_def split: if_splits)
qed

definition io_ok :: lock_io where
  "io_ok = \<lparr>io_read_ok = True, io_write_ok = True, io_confirm_ok = True, io_changed_only = False\<rparr>"

definition held_row :: "string \<Rightarrow> scanned \<Rightarrow> state_row" where
  "held_row h at = (new_state_row ''backup-daily'' ''0 2 * * *'')\<lparr>sr_locked_by := Some h, sr_locked_at := at\<rparr>"

text \<open>
  What a lock attempt on a global task decides: whatever the statements do and however the driver
  counts rows, a node that is told it has the lock found it available (no row, free, its own, or held
  by a node for more than five minutes with a readable time) and is the holder the table names
  afterwards; a lock that is not available is refused and nothing is written; an available one is won
  when the statements succeed, so that a crashed holder does not block a task; and no other task's row
  changes.
\<close>

lemma acquireTaskLock_decides:
  assumes "isGlobalTask k" "acquireTaskLock io node now k sch tbl = (tbl', won)"
  shows "(won \<longrightarrow> lock_available node now k tbl \<and> held_by tbl' k = Some node) \<and>
    (\<not> lock_available node now k tbl \<longrightarrow> \<not> won \<and> tbl' = tbl) \<and>
    (lock_available node now k tbl \<and> io_read_ok io \<and> io_write_ok io \<and> io_confirm_ok io \<longrightarrow> won) \<and>
    (\<forall>k'. k' \<noteq> k \<longrightarrow> tbl' k' = tbl k')"
proof (cases "lock_available node now k tbl")
  case True
  have "held_by tbl' k = Some node" if won using acquire_won [OF assms(1), of io node now sch tbl tbl'] assms(2) that by simp
  moreover have "io_read_ok io \<and> io_write_ok io \<and> io_confirm_ok io \<longrightarrow> won"
    using lock_taken [OF assms(1) True, of io sch] assms(2) by auto
  ultimately show ?thesis using True acquire_other [OF assms(2)] by blast
next
  case False
  with lock_unavailable [OF assms(1) False] assms(2) show ?thesis by simp
qed

lemma acquireTaskLock_decides_example:
  "acquireTaskLock io_ok ''a'' (4 * minute_ns) ''backup-daily'' ''0 2 * * *''
     [''backup-daily'' \<mapsto> held_row ''b'' (VStr ''1970-01-01 00:00:00'')]
   = ([''backup-daily'' \<mapsto> held_row ''b'' (VStr ''1970-01-01 00:00:00'')], False) \<and>
   snd (acquireTaskLock io_ok ''a'' (6 * minute_ns) ''backup-daily'' ''0 2 * * *''
     [''backup-daily'' \<mapsto> held_row ''b'' (VStr ''1970-01-01 00:00:00'')])"
proof -
  let ?t = "[''backup-daily'' \<mapsto> held_row ''b'' (VStr ''1970-01-01 00:00:00'')]"
  have g: "isGlobalTask ''backup-daily''" by (simp add: isGlobalTask_def globalTasks_def)
  have p: "ParseStoredTimestamp (VStr ''1970-01-01 00:00:00'') = Some 0" by code_simp
  have "\<not> lock_available ''a'' (4 * minute_ns) ''backup-daily'' ?t" "lock_available ''a'' (6 * minute_ns) ''backup-daily'' ?t"
    using p by (simp_all add: lock_available_def held_row_def new_state_row_def LockTimeout_def unit_defs)
  moreover obtain t4 w4 where a4: "acquireTaskLock io_ok ''a'' (4 * minute_ns) ''backup-daily'' ''0 2 * * *'' ?t = (t4, w4)"
    by (cases "acquireTaskLock io_ok ''a'' (4 * minute_ns) ''backup-daily'' ''0 2 * * *'' ?t")
  moreover obtain t6 w6 where a6: "acquireTaskLock io_ok ''a'' (6 * minute_ns) ''backup-daily'' ''0 2 * * *'' ?t = (t6, w6)"
    by (cases "acquireTaskLock io_ok ''a'' (6 * minute_ns) ''backup-daily'' ''0 2 * * *'' ?t")
  moreover have "io_read_ok io_ok" "io_write_ok io_ok" "io_confirm_ok io_ok" by (simp_all add: io_ok_def)
  ultimately have "\<not> w4 \<and> t4 = ?t" "w6" using acquireTaskLock_decides [OF g a4] acquireTaskLock_decides [OF g a6] by blast+
  with a4 a6 show ?thesis by simp
qed

lemma releaseTaskLock_held:
  "held_by (releaseTaskLock ok node k tbl) k' =
     (if k' = k \<and> ok \<and> isGlobalTask k \<and> held_by tbl k = Some node then None else held_by tbl k')"
  by (auto simp: releaseTaskLock_def held_by_def update_where_def split: option.splits)

lemma releaseNodeLocks_held:
  "held_by (releaseNodeLocks True True node tbl) k =
     (if held_by tbl k = Some node then None else held_by tbl k)"
  by (auto simp: releaseNodeLocks_def held_by_def update_all_def split: option.splits)

section \<open>Several nodes\<close>

text \<open>
  A race for a lock has one winner: when two nodes decided on the same write and the first one's
  write lands, the second one's affects no row, changes nothing and is not confirmed.
\<close>

lemma lock_race_one_winner:
  assumes "d \<noteq> Refuse" "d \<noteq> CompareAndSwap (Some b)" "b \<noteq> c"
    "lock_write co b txt k sch d tbl = (tbl1, n)" "0 < n"
  shows "lock_write co c txt' k sch' d tbl1 = (tbl1, 0) \<and> \<not> lock_confirm ok c k tbl1"
proof -
  obtain r where r: "tbl1 k = Some r" "sr_locked_by r = Some b"
    using lock_write_wins [OF assms(4,5)] by blast
  with assms(1-3) show ?thesis
    by (auto simp: lock_write_def lock_confirm_def split: lock_decision.splits)
qed

text \<open>
  A run is one call of \<^verbatim>\<open>executeTask\<close> for the task: of a tick, of a manual trigger or of the catch-up goroutine. A node can
  have any number of them at once, since nothing in \<^verbatim>\<open>executeTask\<close> keeps a second run of a task from starting. Runs
  are numbered, and \<open>own\<close> gives the node of a run.
\<close>

datatype lock_pc = LIdle | LDecided lock_decision instant | LConfirm | LWon

record lock_sys =
  ls_table :: state_table
  ls_pc :: "nat \<Rightarrow> lock_pc"

definition idle_node :: "(nat \<Rightarrow> string) \<Rightarrow> lock_sys \<Rightarrow> string \<Rightarrow> bool" where
  "idle_node own s n \<longleftrightarrow> (\<forall>q. own q = n \<longrightarrow> ls_pc s q = LIdle)"

text \<open>
  Lock discipline at the moment run \<open>r\<close> has read the row and decided \<open>d\<close>. \<open>no_outlived\<close>: the lock of another node is
  found stale only while that node has no run under way, and a node does not start a run while another one is about
  to take over its stale lock; this is what it means that no run outlives its lock. \<open>no_overlap\<close>: the node has no
  other run of the task under way.
\<close>

definition no_outlived :: "(nat \<Rightarrow> string) \<Rightarrow> lock_sys \<Rightarrow> nat \<Rightarrow> lock_decision \<Rightarrow> bool" where
  "no_outlived own s r d \<longleftrightarrow>
     (\<forall>h. d = CompareAndSwap (Some h) \<and> h \<noteq> own r \<longrightarrow> idle_node own s h) \<and>
     (\<forall>q t. ls_pc s q = LDecided (CompareAndSwap (Some (own r))) t \<longrightarrow> own q = own r)"

definition no_overlap :: "(nat \<Rightarrow> string) \<Rightarrow> lock_sys \<Rightarrow> nat \<Rightarrow> bool" where
  "no_overlap own s r \<longleftrightarrow> idle_node own s (own r)"

text \<open>
  One run moving. It reads and decides; it writes, and the statement may fail without effect or report an error although it
  took effect; it confirms a write that affected no row; after its work it releases the lock, and the release may
  fail, as when the process dies. A node that shuts down releases all its locks, by itself only when its runs
  are over. With \<open>timely\<close> no run outlives its lock, with \<open>serial\<close> the runs of one node do not overlap and a shutdown waits
  for them.
\<close>

inductive lock_step :: "bool \<Rightarrow> bool \<Rightarrow> (nat \<Rightarrow> string) \<Rightarrow> string \<Rightarrow> string \<Rightarrow> lock_sys \<Rightarrow> lock_sys \<Rightarrow> bool"
  for timely :: bool and serial :: bool and own :: "nat \<Rightarrow> string" and k :: string and sch :: string where
  run_read: "\<lbrakk>ls_pc s r = LIdle; d = lock_decide (own r) (now - LockTimeout) (lock_read ok k (ls_table s));
      timely \<Longrightarrow> no_outlived own s r d; serial \<Longrightarrow> no_overlap own s r\<rbrakk>
    \<Longrightarrow> lock_step timely serial own k sch s (s\<lparr>ls_pc := (ls_pc s)(r := if d = Refuse then LIdle else LDecided d now)\<rparr>)"
| run_write: "\<lbrakk>ls_pc s r = LDecided d now;
      lock_write co (own r) (FormatSQLTimestamp now) k sch d (ls_table s) = (t, c)\<rbrakk>
    \<Longrightarrow> lock_step timely serial own k sch s
      (s\<lparr>ls_table := t,
         ls_pc := (ls_pc s)(r := if 0 < c then LWon else if d = InsertRow then LIdle else LConfirm)\<rparr>)"
| run_write_fails: "\<lbrakk>ls_pc s r = LDecided d now;
      t = (if effect then fst (lock_write co (own r) (FormatSQLTimestamp now) k sch d (ls_table s)) else ls_table s)\<rbrakk>
    \<Longrightarrow> lock_step timely serial own k sch s (s\<lparr>ls_table := t, ls_pc := (ls_pc s)(r := LIdle)\<rparr>)"
| run_confirm: "ls_pc s r = LConfirm
    \<Longrightarrow> lock_step timely serial own k sch s
      (s\<lparr>ls_pc := (ls_pc s)(r := if lock_confirm ok (own r) k (ls_table s) then LWon else LIdle)\<rparr>)"
| run_release: "ls_pc s r = LWon
    \<Longrightarrow> lock_step timely serial own k sch s
      (s\<lparr>ls_table := releaseTaskLock ok (own r) k (ls_table s), ls_pc := (ls_pc s)(r := LIdle)\<rparr>)"
| node_shutdown: "(serial \<Longrightarrow> idle_node own s n)
    \<Longrightarrow> lock_step timely serial own k sch s (s\<lparr>ls_table := releaseNodeLocks hasDB ok n (ls_table s)\<rparr>)"

text \<open>
  What the discipline keeps: a run that holds the lock is of the node in the table; a pending swap expects a free row,
  the run's own node or a node without runs; runs of one node do not overlap.
\<close>

definition lock_inv :: "(nat \<Rightarrow> string) \<Rightarrow> string \<Rightarrow> lock_sys \<Rightarrow> bool" where
  "lock_inv own k s \<longleftrightarrow>
     (\<forall>r. ls_pc s r = LWon \<longrightarrow> held_by (ls_table s) k = Some (own r)) \<and>
     (\<forall>r h t. ls_pc s r = LDecided (CompareAndSwap (Some h)) t \<longrightarrow> h = own r \<or> idle_node own s h) \<and>
     (\<forall>r t. ls_pc s r \<noteq> LDecided Refuse t) \<and>
     (\<forall>q r. own q = own r \<longrightarrow> ls_pc s q = LIdle \<or> ls_pc s r = LIdle \<or> q = r)"

lemma lock_write_held:
  assumes "lock_write co n txt k sch d tbl = (t, c)"
  shows "(0 < c \<longrightarrow> held_by t k = Some n) \<and>
    (held_by t k = held_by tbl k \<or>
     held_by t k = Some n \<and> (d = InsertRow \<and> held_by tbl k = None \<or> (\<exists>h. d = CompareAndSwap h \<and> held_by tbl k = h)))"
  using assms
  by (auto simp: lock_write_def held_by_def Let_def split: lock_decision.splits option.splits if_splits)

lemma lock_invD:
  assumes "lock_inv own k s"
  shows "ls_pc s r = LWon \<Longrightarrow> held_by (ls_table s) k = Some (own r)"
    "ls_pc s r = LDecided (CompareAndSwap (Some h)) t \<Longrightarrow> own q = h \<Longrightarrow> h = own r \<or> ls_pc s q = LIdle"
    "own q = own r \<Longrightarrow> ls_pc s q \<noteq> LIdle \<Longrightarrow> ls_pc s r \<noteq> LIdle \<Longrightarrow> q = r"
  using assms unfolding lock_inv_def idle_node_def by blast+

text \<open>A write changes the holder only when no other run holds the lock.\<close>

lemma lock_write_free:
  assumes "lock_inv own k s" "ls_pc s r = LDecided d now"
    "lock_write co (own r) txt k sch d (ls_table s) = (t, c)" "ls_pc s q = LWon" "q \<noteq> r"
  shows "held_by t k = Some (own q)"
proof -
  have q: "held_by (ls_table s) k = Some (own q)" using lock_invD(1) [OF assms(1,4)] .
  have "own q \<noteq> own r" using lock_invD(3) [OF assms(1), of q r] assms(2,4,5) by auto
  then have "d \<noteq> CompareAndSwap (Some (own q))" using lock_invD(2) [OF assms(1), of r "own q" now q] assms(2,4) by auto
  with lock_write_held [OF assms(3)] q show ?thesis by auto
qed

text \<open>A run that is under way moves on, with a table that keeps the other holders.\<close>

lemma lock_inv_move:
  assumes "lock_inv own k s" "ls_pc s r \<noteq> LIdle" "pc \<in> {LIdle, LConfirm, LWon}" "pc = LWon \<Longrightarrow> held_by t k = Some (own r)"
    "\<And>q. ls_pc s q = LWon \<Longrightarrow> q \<noteq> r \<Longrightarrow> held_by t k = Some (own q)"
  shows "lock_inv own k (s\<lparr>ls_table := t, ls_pc := (ls_pc s)(r := pc)\<rparr>)"
proof -
  have "\<forall>q u. ((ls_pc s)(r := pc)) q \<noteq> LDecided Refuse u" using assms(1,3) by (auto simp: lock_inv_def)
  moreover have "h = own q \<or> idle_node own (s\<lparr>ls_table := t, ls_pc := (ls_pc s)(r := pc)\<rparr>) h"
    if "((ls_pc s)(r := pc)) q = LDecided (CompareAndSwap (Some h)) u" for q h u
    using that assms(1-3) unfolding lock_inv_def idle_node_def by (auto split: if_splits)
  moreover have "((ls_pc s)(r := pc)) q = LIdle \<or> ((ls_pc s)(r := pc)) p = LIdle \<or> q = p" if "own q = own p" for q p
    using lock_invD(3) [OF assms(1) that] assms(2) by (cases "q = r"; cases "p = r") auto
  moreover have "held_by t k = Some (own q)" if "((ls_pc s)(r := pc)) q = LWon" for q
    using that assms(4,5) by (cases "q = r") auto
  ultimately show ?thesis unfolding lock_inv_def by simp
qed

lemma lock_step_inv:
  assumes "lock_step True True own k sch s s'" "lock_inv own k s" "isGlobalTask k"
  shows "lock_inv own k s'"
  using assms(1)
proof (cases rule: lock_step.cases)
  case (run_read r d now ok)
  show ?thesis
  proof (cases "d = Refuse")
    case True
    with run_read have "s' = s" by (simp add: fun_upd_idem)
    with assms(2) show ?thesis by simp
  next
    case False
    define s1 where "s1 = s\<lparr>ls_pc := (ls_pc s)(r := LDecided d now)\<rparr>"
    have s1: "s' = s1" "ls_table s1 = ls_table s" "ls_pc s1 r = LDecided d now" "\<And>q. q \<noteq> r \<Longrightarrow> ls_pc s1 q = ls_pc s q"
      using run_read False by (simp_all add: s1_def)
    have outlived: "no_outlived own s r d" and alone: "idle_node own s (own r)"
      using run_read by (simp_all add: no_overlap_def)
    have won: "held_by (ls_table s1) k = Some (own q)" if "ls_pc s1 q = LWon" for q
      using that s1 lock_invD(1) [OF assms(2), of q] by (cases "q = r") simp_all
    have swap: "h = own q \<or> idle_node own s1 h" if "ls_pc s1 q = LDecided (CompareAndSwap (Some h)) t" for q h t
    proof (cases "q = r")
      case True
      with that s1(3) outlived have "h = own r \<or> idle_node own s h" by (auto simp: no_outlived_def)
      moreover have "idle_node own s1 h" if "idle_node own s h" "h \<noteq> own r"
        using that s1(4) by (auto simp: idle_node_def) metis
      ultimately show ?thesis using True by auto
    next
      case False
      with that s1(4) have p: "ls_pc s q = LDecided (CompareAndSwap (Some h)) t" by simp
      then have "h = own q \<or> idle_node own s h" using assms(2) by (auto simp: lock_inv_def)
      moreover have "own q = own r" if "h = own r" using p outlived that by (auto simp: no_outlived_def)
      ultimately show ?thesis using s1(4) by (auto simp: idle_node_def) metis
    qed
    have "\<forall>q t. ls_pc s1 q \<noteq> LDecided Refuse t"
      using s1(3,4) False assms(2) unfolding lock_inv_def by (metis lock_pc.inject)
    moreover have "ls_pc s1 q = LIdle \<or> ls_pc s1 p = LIdle \<or> q = p" if "own q = own p" for q p
      using that s1(4) alone lock_invD(3) [OF assms(2) that] by (cases "q = r"; cases "p = r") (auto simp: idle_node_def)
    ultimately show ?thesis using won swap unfolding lock_inv_def s1(1) by blast
  qed
next
  case (run_write r d now co t c)
  show ?thesis unfolding run_write(1)
    by (rule lock_inv_move [OF assms(2)])
      (use run_write lock_write_free [OF assms(2) run_write(2,3)] lock_write_held [OF run_write(3)] in \<open>auto split: if_splits\<close>)
next
  case (run_write_fails r d now t effect co)
  obtain t' c where w: "lock_write co (own r) (FormatSQLTimestamp now) k sch d (ls_table s) = (t', c)" by fastforce
  show ?thesis unfolding run_write_fails(1)
    by (rule lock_inv_move [OF assms(2)])
      (use run_write_fails lock_write_free [OF assms(2) run_write_fails(2) w] lock_invD(1) [OF assms(2)] w in \<open>auto split: if_splits\<close>)
next
  case (run_confirm r ok)
  have "lock_inv own k (s\<lparr>ls_table := ls_table s, ls_pc := (ls_pc s)(r := if lock_confirm ok (own r) k (ls_table s) then LWon else LIdle)\<rparr>)"
    by (rule lock_inv_move [OF assms(2)])
      (use run_confirm lock_invD(1) [OF assms(2)] in \<open>auto simp: lock_confirm_def held_by_def split: option.splits if_splits\<close>)
  with run_confirm show ?thesis by simp
next
  case (run_release r ok)
  have "held_by (releaseTaskLock ok (own r) k (ls_table s)) k = Some (own q)" if "ls_pc s q = LWon" "q \<noteq> r" for q
    using lock_invD(1) [OF assms(2) that(1)] lock_invD(3) [OF assms(2), of q r] that run_release
    by (auto simp: releaseTaskLock_held)
  with run_release show ?thesis by (auto intro: lock_inv_move [OF assms(2)])
next
  case (node_shutdown n hasDB ok)
  have "held_by (releaseNodeLocks hasDB ok n (ls_table s)) k = Some (own q)" if "ls_pc s q = LWon" for q
    using lock_invD(1) [OF assms(2) that] node_shutdown(2) that
    by (cases "hasDB \<and> ok") (auto simp: releaseNodeLocks_held idle_node_def, auto simp: releaseNodeLocks_def)
  with assms(2) show ?thesis unfolding node_shutdown(1) by (simp add: lock_inv_def idle_node_def)
qed


definition idle_sys :: "state_table \<Rightarrow> lock_sys" where
  "idle_sys t = \<lparr>ls_table = t, ls_pc = (\<lambda>n. LIdle)\<rparr>"

definition stale_table :: state_table where
  "stale_table = [''backup-daily'' \<mapsto> held_row ''a'' (VStr ''1970-01-01 00:00:00'')]"

definition two_nodes :: "nat \<Rightarrow> string" where
  "two_nodes r = (if r = 1 then ''b'' else ''a'')"

definition swapped :: "string \<Rightarrow> string option \<Rightarrow> state_table \<Rightarrow> state_table" where
  "swapped n h t = fst (lock_write False n (FormatSQLTimestamp hour_ns) ''backup-daily'' ''s'' (CompareAndSwap h) t)"

lemma stale_lock_decisions:
  "lock_decide n (hour_ns - LockTimeout) (lock_read True ''backup-daily'' stale_table) = CompareAndSwap (Some ''a'')"
proof -
  have p: "ParseStoredTimestamp (VStr ''1970-01-01 00:00:00'') = Some 0" by code_simp
  show ?thesis
    using p by (simp add: lock_decide_def lock_read_def stale_table_def held_row_def new_state_row_def
        LockTimeout_def unit_defs)
qed

lemma swapped_write:
  assumes "held_by t ''backup-daily'' = h" "t ''backup-daily'' \<noteq> None"
  shows "lock_write False n (FormatSQLTimestamp hour_ns) ''backup-daily'' ''s'' (CompareAndSwap h) t = (swapped n h t, 1)"
    "held_by (swapped n h t) ''backup-daily'' = Some n" "swapped n h t ''backup-daily'' \<noteq> None"
  using assms by (auto simp: swapped_def lock_write_def held_by_def Let_def)

lemma stale_table_held: "held_by stale_table ''backup-daily'' = Some ''a''" "stale_table ''backup-daily'' \<noteq> None"
  by (simp_all add: held_by_def stale_table_def held_row_def)

lemma swap_decided:
  assumes "held_by t ''backup-daily'' = Some n" "t ''backup-daily'' \<noteq> None"
  shows "lock_decide n e (lock_read True ''backup-daily'' t) = CompareAndSwap (Some n)"
  using assms by (auto simp: lock_decide_def lock_read_def held_by_def split: option.splits)

lemma free_decided:
  assumes "held_by t ''backup-daily'' = None" "t ''backup-daily'' \<noteq> None"
  shows "lock_decide n e (lock_read True ''backup-daily'' t) = CompareAndSwap None"
  using assms by (auto simp: lock_decide_def lock_read_def held_by_def split: option.splits)

text \<open>Two steps of a run in one: it reads, decides on a swap and makes it.\<close>

lemma lock_takes:
  assumes "ls_pc s r = LIdle" "lock_decide (own r) (hour_ns - LockTimeout) (lock_read True ''backup-daily'' (ls_table s)) = CompareAndSwap h"
    "held_by (ls_table s) ''backup-daily'' = h" "ls_table s ''backup-daily'' \<noteq> None"
    "timely \<Longrightarrow> no_outlived own s r (CompareAndSwap h)" "serial \<Longrightarrow> no_overlap own s r"
  shows "(lock_step timely serial own ''backup-daily'' ''s'')\<^sup>*\<^sup>* s
    (s\<lparr>ls_table := swapped (own r) h (ls_table s), ls_pc := (ls_pc s)(r := LWon)\<rparr>)"
proof -
  let ?d = "CompareAndSwap h"
  define s1 where "s1 = s\<lparr>ls_pc := (ls_pc s)(r := LDecided ?d hour_ns)\<rparr>"
  have 1: "lock_step timely serial own ''backup-daily'' ''s'' s s1"
    using lock_step.run_read [of s r ?d own hour_ns True "''backup-daily''" timely serial "''s''"] assms by (simp add: s1_def)
  have "lock_write False (own r) (FormatSQLTimestamp hour_ns) ''backup-daily'' ''s'' ?d (ls_table s1) = (swapped (own r) h (ls_table s), 1)"
    using swapped_write(1) [OF assms(3,4)] by (simp add: s1_def)
  from lock_step.run_write [of s1 r ?d hour_ns False own "''backup-daily''" "''s''" _ _ timely serial, OF _ this]
  have "lock_step timely serial own ''backup-daily'' ''s'' s1
      (s\<lparr>ls_table := swapped (own r) h (ls_table s), ls_pc := (ls_pc s)(r := LWon)\<rparr>)"
    by (simp add: s1_def)
  with 1 show ?thesis by (meson converse_rtranclp_into_rtranclp rtranclp.rtrancl_refl)
qed


text \<open>
  The compare-and-swap compares the holder's name only. The lock therefore does not exclude a holder that comes back:
  from a stale lock of node \<open>a\<close> there is an interleaving (a run of each node reads, the one of \<open>a\<close> refreshes its
  lock, then the one of \<open>b\<close> swaps the holder it observed) after which both hold the global task, although the lock of \<open>a\<close>
  was zero seconds old when \<open>b\<close> took it. No two runs of one node overlap in it.
\<close>

lemma lock_double_acquire:
  "\<exists>s. (lock_step False True two_nodes ''backup-daily'' ''s'')\<^sup>*\<^sup>* (idle_sys stale_table) s
     \<and> ls_pc s 0 = LWon \<and> ls_pc s 1 = LWon \<and> held_by (ls_table s) ''backup-daily'' = Some ''b''"
proof -
  let ?k = "''backup-daily''" and ?d = "CompareAndSwap (Some ''a'')" and ?st = "lock_step False True two_nodes ''backup-daily'' ''s''"
  define s1 where "s1 = \<lparr>ls_table = stale_table, ls_pc = (\<lambda>r. LIdle)(1 := LDecided ?d hour_ns)\<rparr>"
  define s2 where "s2 = s1\<lparr>ls_table := swapped (two_nodes 0) (Some ''a'') (ls_table s1), ls_pc := (ls_pc s1)(0 := LWon)\<rparr>"
  have 1: "?st (idle_sys stale_table) s1"
    using lock_step.run_read [of "idle_sys stale_table" 1 ?d two_nodes hour_ns True ?k False True "''s''"]
    by (simp add: idle_sys_def s1_def stale_lock_decisions no_overlap_def idle_node_def)
  have 2: "?st\<^sup>*\<^sup>* s1 s2" unfolding s2_def
    by (rule lock_takes)
      (simp_all add: s1_def stale_lock_decisions stale_table_held no_overlap_def idle_node_def two_nodes_def)
  have t2: "held_by (ls_table s2) ?k = Some ''a''" "ls_table s2 ?k \<noteq> None"
    using swapped_write(2,3) [OF stale_table_held] by (simp_all add: s2_def s1_def two_nodes_def)
  have "lock_write False (two_nodes 1) (FormatSQLTimestamp hour_ns) ?k ''s'' ?d (ls_table s2) = (swapped ''b'' (Some ''a'') (ls_table s2), 1)"
    using swapped_write(1) [OF t2] by (simp add: two_nodes_def)
  from lock_step.run_write [of s2 1 ?d hour_ns False two_nodes ?k "''s''" _ _ False True, OF _ this]
  have 3: "?st s2 (s2\<lparr>ls_table := swapped ''b'' (Some ''a'') (ls_table s2), ls_pc := (ls_pc s2)(1 := LWon)\<rparr>)"
    by (simp add: s2_def s1_def)
  from 1 2 3 have "?st\<^sup>*\<^sup>* (idle_sys stale_table) (s2\<lparr>ls_table := swapped ''b'' (Some ''a'') (ls_table s2), ls_pc := (ls_pc s2)(1 := LWon)\<rparr>)"
    by (meson converse_rtranclp_into_rtranclp rtranclp.rtrancl_into_rtrancl)
  then show ?thesis using swapped_write(2) [OF t2] by (intro exI) (auto simp: s2_def)
qed

text \<open>
  Nor does it exclude overlapping runs of one node. A second run on node \<open>a\<close>, a manual trigger during a scheduled
  one, finds the lock its own and gets it; the first run's release frees it; and a run on node \<open>b\<close> takes it while the second
  is still at work. No lock is stale at any point.
\<close>

lemma lock_overlap:
  "\<exists>s. (lock_step True False two_nodes ''backup-daily'' ''s'')\<^sup>*\<^sup>* (idle_sys stale_table) s
     \<and> ls_pc s 1 = LWon \<and> ls_pc s 2 = LWon \<and> two_nodes 1 \<noteq> two_nodes 2 \<and> held_by (ls_table s) ''backup-daily'' = Some ''b''"
proof -
  let ?k = "''backup-daily''" and ?st = "lock_step True False two_nodes ''backup-daily'' ''s''"
  have g: "isGlobalTask ?k" by (simp add: isGlobalTask_def globalTasks_def)
  define s1 where "s1 = (idle_sys stale_table)\<lparr>ls_table := swapped (two_nodes 0) (Some ''a'') (ls_table (idle_sys stale_table)),
      ls_pc := (ls_pc (idle_sys stale_table))(0 := LWon)\<rparr>"
  define s2 where "s2 = s1\<lparr>ls_table := swapped (two_nodes 2) (Some ''a'') (ls_table s1), ls_pc := (ls_pc s1)(2 := LWon)\<rparr>"
  define s3 where "s3 = s2\<lparr>ls_table := releaseTaskLock True (two_nodes 0) ?k (ls_table s2), ls_pc := (ls_pc s2)(0 := LIdle)\<rparr>"
  define s4 where "s4 = s3\<lparr>ls_table := swapped (two_nodes 1) None (ls_table s3), ls_pc := (ls_pc s3)(1 := LWon)\<rparr>"
  have 1: "?st\<^sup>*\<^sup>* (idle_sys stale_table) s1" unfolding s1_def
    by (rule lock_takes)
      (simp_all add: idle_sys_def stale_lock_decisions stale_table_held no_outlived_def two_nodes_def)
  have t1: "held_by (ls_table s1) ?k = Some ''a''" "ls_table s1 ?k \<noteq> None"
    using swapped_write(2,3) [OF stale_table_held] by (simp_all add: s1_def idle_sys_def two_nodes_def)
  have 2: "?st\<^sup>*\<^sup>* s1 s2" unfolding s2_def
    by (rule lock_takes) (use t1 in \<open>simp_all add: s1_def idle_sys_def swap_decided no_outlived_def two_nodes_def\<close>)
  have t2: "held_by (ls_table s2) ?k = Some ''a''" "ls_table s2 ?k \<noteq> None"
    using swapped_write(2,3) [OF t1] by (simp_all add: s2_def two_nodes_def)
  have 3: "?st s2 s3" unfolding s3_def by (rule lock_step.run_release) (simp add: s2_def s1_def)
  have t3: "held_by (ls_table s3) ?k = None" "ls_table s3 ?k \<noteq> None"
    using t2 g by (simp_all add: s3_def releaseTaskLock_held two_nodes_def)
      (auto simp: releaseTaskLock_def update_where_def split: option.splits)
  have 4: "?st\<^sup>*\<^sup>* s3 s4" unfolding s4_def
    by (rule lock_takes)
      (use t3 in \<open>simp_all add: free_decided no_outlived_def\<close>, simp_all add: s3_def s2_def s1_def idle_sys_def)
  have "?st\<^sup>*\<^sup>* (idle_sys stale_table) s4" using 1 2 3 4 by (meson rtranclp.rtrancl_into_rtrancl rtranclp_trans)
  then show ?thesis using swapped_write(2) [OF t3]
    by (intro exI [of _ s4]) (simp add: s4_def s3_def s2_def two_nodes_def)
qed

end
