(* ===== verification/Task_History.thy ===== *)
theory Task_History
  imports Dbtime
begin

text \<open>
  \<^verbatim>\<open>src/scheduler/task_history.go\<close>: the execution history of the scheduler's tasks. The table
  \<^verbatim>\<open>server_scheduler_history\<close> is a list of rows with the next AUTOINCREMENT key; start and
  end times are scanned values, because rows of earlier builds hold other text layouts.
\<close>

record history_row =
  hr_id :: int
  hr_task :: string
  hr_start :: scanned
  hr_end :: scanned
  hr_duration :: int
  hr_status :: string
  hr_error :: "string option"

record history_table =
  ht_next :: int
  ht_rows :: "history_row list"

record TaskRun =
  run_ID :: int
  run_TaskName :: string
  run_StartTime :: instant
  run_EndTime :: instant
  run_Duration :: int
  run_Status :: string
  run_Error :: string

text \<open>Go's integer division truncates toward zero.\<close>

definition trunc_div :: "int \<Rightarrow> int \<Rightarrow> int" where
  "trunc_div a b = sgn a * sgn b * (\<bar>a\<bar> div \<bar>b\<bar>)"

definition milliseconds :: "duration \<Rightarrow> int" where
  "milliseconds d = trunc_div d 1000000"

text \<open>\<open>err\<close> is the task's error text, if it failed; \<open>ok\<close> whether the INSERT succeeded.\<close>

definition RecordTaskRun ::
  "bool \<Rightarrow> string \<Rightarrow> instant \<Rightarrow> instant \<Rightarrow> string option \<Rightarrow> history_table \<Rightarrow> history_table \<times> bool" where
  "RecordTaskRun ok taskName startTime endTime err h =
     (if \<not> ok then (h, False)
      else (\<lparr>ht_next = ht_next h + 1,
             ht_rows = ht_rows h @
               [\<lparr>hr_id = ht_next h, hr_task = taskName, hr_start = VStr (FormatSQLTimestamp startTime),
                 hr_end = VStr (FormatSQLTimestamp endTime),
                 hr_duration = milliseconds (endTime - startTime),
                 hr_status = (case err of None \<Rightarrow> ''success'' | Some e \<Rightarrow> ''error''),
                 hr_error = Some (case err of None \<Rightarrow> '''' | Some e \<Rightarrow> e)\<rparr>]\<rparr>, True))"

definition stored_or_zero :: "scanned \<Rightarrow> instant" where
  "stored_or_zero v = (case ParseStoredTimestamp v of Some t \<Rightarrow> t | None \<Rightarrow> zero_time)"

definition to_run :: "history_row \<Rightarrow> TaskRun" where
  "to_run r =
     \<lparr>run_ID = hr_id r, run_TaskName = hr_task r, run_StartTime = stored_or_zero (hr_start r),
      run_EndTime = stored_or_zero (hr_end r), run_Duration = hr_duration r, run_Status = hr_status r,
      run_Error = (case hr_error r of None \<Rightarrow> '''' | Some e \<Rightarrow> e)\<rparr>"

text \<open>
  The SELECT yields the task's rows by descending key, rows that fail to scan are skipped, and a
  stable sort by descending start instant follows. \<open>None\<close> is a query error.
\<close>

definition loadTaskRunsNewestFirst ::
  "bool \<Rightarrow> (history_row \<Rightarrow> bool) \<Rightarrow> string \<Rightarrow> int \<Rightarrow> history_table \<Rightarrow> TaskRun list option" where
  "loadTaskRunsNewestFirst queryOk scanOk taskName limit h =
     (if \<not> queryOk then None
      else let rows = sort_key (\<lambda>r. - hr_id r) (filter (\<lambda>r. hr_task r = taskName) (ht_rows h));
               runs = map to_run (filter scanOk rows);
               history = sort_key (\<lambda>r. - run_StartTime r) runs
           in Some (if limit > 0 \<and> int (length history) > limit then take (nat limit) history
                    else history))"

definition GetTaskHistory ::
  "bool \<Rightarrow> (history_row \<Rightarrow> bool) \<Rightarrow> string \<Rightarrow> int \<Rightarrow> history_table \<Rightarrow> TaskRun list option" where
  "GetTaskHistory queryOk scanOk taskName limit h =
     loadTaskRunsNewestFirst queryOk scanOk taskName (if limit \<le> 0 then 50 else limit) h"

definition GetLastTaskRun ::
  "bool \<Rightarrow> (history_row \<Rightarrow> bool) \<Rightarrow> string \<Rightarrow> history_table \<Rightarrow> TaskRun option option" where
  "GetLastTaskRun queryOk scanOk taskName h =
     (case loadTaskRunsNewestFirst queryOk scanOk taskName 1 h of
        None \<Rightarrow> None
      | Some [] \<Rightarrow> Some None
      | Some (r # _) \<Rightarrow> Some (Some r))"

text \<open>
  Total, successes and errors, and whether the scan succeeded: over no rows \<^verbatim>\<open>SUM\<close> is NULL,
  which does not scan into an integer.
\<close>

definition GetTaskStats :: "bool \<Rightarrow> string \<Rightarrow> history_table \<Rightarrow> int \<times> int \<times> int \<times> bool" where
  "GetTaskStats queryOk taskName h =
     (let rows = filter (\<lambda>r. hr_task r = taskName) (ht_rows h)
      in if \<not> queryOk then (0, 0, 0, False)
         else if rows = [] then (0, 0, 0, False)
         else (int (length rows), int (length (filter (\<lambda>r. hr_status r = ''success'') rows)),
               int (length (filter (\<lambda>r. hr_status r = ''error'') rows)), True))"

definition CleanupOldTaskHistory ::
  "bool \<Rightarrow> bool list \<Rightarrow> instant \<Rightarrow> int \<Rightarrow> history_table \<Rightarrow> history_table \<times> bool" where
  "CleanupOldTaskHistory selectOk oks now days h =
     (let d = (if days \<le> 0 then 90 else days);
          cutoff = now - d * day_ns;
          (rows, n, ok) = DeleteRowsWithTimestampBefore (\<lambda>r. VInt (hr_id r)) hr_start selectOk oks
                            cutoff False (ht_rows h)
      in (h\<lparr>ht_rows := rows\<rparr>, ok))"

section \<open>The order of the history\<close>

definition runs_of :: "(history_row \<Rightarrow> bool) \<Rightarrow> string \<Rightarrow> history_table \<Rightarrow> TaskRun set" where
  "runs_of scanOk taskName h = to_run ` {r \<in> set (ht_rows h). hr_task r = taskName \<and> scanOk r}"

definition newest_first :: "TaskRun list \<Rightarrow> bool" where
  "newest_first rs \<longleftrightarrow> sorted_wrt (\<lambda>a b. run_StartTime b \<le> run_StartTime a) rs"

lemma newest_first_sort_key: "newest_first (sort_key (\<lambda>r. - run_StartTime r) rs)"
proof -
  have "sorted (map (\<lambda>r. - run_StartTime r) (sort_key (\<lambda>r. - run_StartTime r) rs))" by simp
  then show ?thesis
    unfolding newest_first_def sorted_map by (auto elim: sorted_wrt_mono_rel [rotated])
qed

lemma newest_first_take: "newest_first rs \<Longrightarrow> newest_first (take n rs)"
  unfolding newest_first_def by (rule sorted_wrt_take)

lemma newest_first_hd: "newest_first (r # rs) \<Longrightarrow> x \<in> set (r # rs) \<Longrightarrow> run_StartTime x \<le> run_StartTime r"
  by (auto simp: newest_first_def)

definition history_sorted :: "(history_row \<Rightarrow> bool) \<Rightarrow> string \<Rightarrow> history_table \<Rightarrow> TaskRun list" where
  "history_sorted scanOk taskName h =
     sort_key (\<lambda>r. - run_StartTime r) (map to_run (filter scanOk
       (sort_key (\<lambda>r. - hr_id r) (filter (\<lambda>r. hr_task r = taskName) (ht_rows h)))))"

lemma loadTaskRuns_eq:
  "loadTaskRunsNewestFirst True scanOk name limit h
    = Some (if 0 < limit then take (nat limit) (history_sorted scanOk name h) else history_sorted scanOk name h)"
  by (auto simp: loadTaskRunsNewestFirst_def history_sorted_def Let_def)

lemma set_history_sorted: "set (history_sorted scanOk name h) = runs_of scanOk name h"
  by (auto simp: history_sorted_def runs_of_def)

text \<open>
  The history comes newest first, whatever mix of layouts is stored: the result is ordered
  by descending start instant, holds only runs of the task, and nothing that was cut off by the
  limit started after anything that was kept.
\<close>

lemma loadTaskRuns_newest_first:
  assumes "loadTaskRunsNewestFirst True scanOk name limit h = Some rs"
  shows "newest_first rs \<and> set rs \<subseteq> runs_of scanOk name h
    \<and> (\<forall>x \<in> runs_of scanOk name h - set rs. \<forall>y \<in> set rs. run_StartTime x \<le> run_StartTime y)"
proof -
  let ?hs = "history_sorted scanOk name h"
  define n where "n = (if 0 < limit then nat limit else length ?hs)"
  have rs: "rs = take n ?hs" using assms by (auto simp: loadTaskRuns_eq n_def)
  have srt: "newest_first ?hs" unfolding history_sorted_def by (rule newest_first_sort_key)
  have "run_StartTime x \<le> run_StartTime y" if "x \<in> set ?hs - set rs" "y \<in> set rs" for x y
  proof -
    have "x \<in> set (drop n ?hs)" using that rs by (metis DiffE Un_iff append_take_drop_id set_append)
    moreover have "sorted_wrt (\<lambda>a b. run_StartTime b \<le> run_StartTime a) (take n ?hs @ drop n ?hs)"
      using srt by (simp add: newest_first_def)
    ultimately show ?thesis using that(2) unfolding rs sorted_wrt_append by blast
  qed
  moreover have "newest_first rs" unfolding rs using srt by (rule newest_first_take)
  moreover have "set rs \<subseteq> runs_of scanOk name h"
    using rs set_history_sorted [of scanOk name h] by (auto dest: in_set_takeD)
  ultimately show ?thesis by (simp add: set_history_sorted)
qed

definition sample_history :: history_table where
  "sample_history =
     \<lparr>ht_next = 3, ht_rows =
       [\<lparr>hr_id = 1, hr_task = ''t'', hr_start = VStr ''2023-11-14 17:13:20 -0500 EST'', hr_end = VNil,
         hr_duration = 5, hr_status = ''success'', hr_error = None\<rparr>,
        \<lparr>hr_id = 2, hr_task = ''t'', hr_start = VStr ''2023-11-14 22:00:00'', hr_end = VNil,
         hr_duration = 5, hr_status = ''error'', hr_error = Some ''x''\<rparr>]\<rparr>"

lemma loadTaskRuns_newest_first_example:
  "newest_first (the (loadTaskRunsNewestFirst True (\<lambda>r. True) ''t'' 1 sample_history))
   \<and> map run_ID (the (loadTaskRunsNewestFirst True (\<lambda>r. True) ''t'' 1 sample_history)) = [1]"
proof -
  obtain rs where l: "loadTaskRunsNewestFirst True (\<lambda>r. True) ''t'' 1 sample_history = Some rs"
    by (simp add: loadTaskRuns_eq)
  have "map run_ID (the (loadTaskRunsNewestFirst True (\<lambda>r. True) ''t'' 1 sample_history)) = [1]" by code_simp
  with loadTaskRuns_newest_first [OF l] l show ?thesis by simp
qed

text \<open>The last run of a task, as the catch-up logic uses it.\<close>

lemma GetLastTaskRun_max:
  assumes "GetLastTaskRun True scanOk name h = Some (Some r)"
  shows "r \<in> runs_of scanOk name h \<and> (\<forall>x \<in> runs_of scanOk name h. run_StartTime x \<le> run_StartTime r)"
proof -
  obtain rest where hs: "history_sorted scanOk name h = r # rest"
    using assms by (cases "history_sorted scanOk name h")
      (auto simp: GetLastTaskRun_def loadTaskRuns_eq)
  have "newest_first (r # rest)"
    using newest_first_sort_key hs [unfolded history_sorted_def] by metis
  with hs show ?thesis
    using newest_first_hd [of r rest] set_history_sorted [of scanOk name h] by auto
qed

lemma GetLastTaskRun_none:
  "GetLastTaskRun True scanOk name h = Some None \<longleftrightarrow> runs_of scanOk name h = {}"
  unfolding set_history_sorted [symmetric]
  by (cases "history_sorted scanOk name h") (simp_all add: GetLastTaskRun_def loadTaskRuns_eq)

lemma RecordTaskRun_rows:
  "RecordTaskRun True name st en err h = (h', ok) \<Longrightarrow>
     ok \<and> (\<exists>r. ht_rows h' = ht_rows h @ [r] \<and> hr_task r = name
       \<and> hr_status r = (case err of None \<Rightarrow> ''success'' | Some e \<Rightarrow> ''error''))"
  by (auto simp: RecordTaskRun_def)

end
