(* ===== verification/Scheduler.thy ===== *)
theory Scheduler
  imports Cron Task_Lock Task_History "HOL-Library.AList" "HOL-Library.Char_ord" "HOL-Library.List_Lexorder"
begin

text \<open>
  The task scheduler of \<^verbatim>\<open>src/scheduler/scheduler.go\<close>: its in-memory state, the rows it keeps
  in the server database and every operation of it. The Go map of tasks is an association list
  whose order is the (unspecified) iteration order. A goroutine that runs one task is one
  application of \<open>executeTask\<close>; the outcome of the task's function, the clock readings and the
  outcomes of the database statements are its arguments.
\<close>

section \<open>State\<close>

record Task =
  t_Name :: string
  t_Schedule :: string
  t_schedule :: Schedule
  t_nextRun :: instant
  t_enabled :: bool
  t_lastRun :: "instant option"
  t_retryCount :: nat

record Scheduler =
  s_tasks :: "(string \<times> Task) list"
  s_hasDB :: bool
  s_nodeID :: string
  s_running :: bool
  s_active :: "string list"
  s_catchUpWindow :: duration

record audit_row =
  au_ulid :: string
  au_timestamp :: string
  au_actor_id :: string
  au_action :: string
  au_details :: string
  au_status :: string

text \<open>The tables of the server database the scheduler reads and writes.\<close>

record server_db =
  db_state :: state_table
  db_history :: history_table
  db_audit :: "audit_row list"
  db_config :: "string \<rightharpoonup> string"

definition retryDelays :: "duration list" where
  "retryDelays = [5 * minute_ns, 10 * minute_ns, 20 * minute_ns]"

definition defaultCatchUpWindow :: duration where "defaultCatchUpWindow = hour_ns"

definition maxCatchUpScan :: nat where "maxCatchUpScan = 512"

text \<open>\<open>None\<close> for the host name is an error of \<^verbatim>\<open>os.Hostname\<close>.\<close>

definition NewScheduler :: "string option \<Rightarrow> bool \<Rightarrow> Scheduler" where
  "NewScheduler hostname hasDB =
     \<lparr>s_tasks = [], s_hasDB = hasDB,
      s_nodeID = (case hostname of None \<Rightarrow> ''default'' | Some h \<Rightarrow> h),
      s_running = False, s_active = [], s_catchUpWindow = defaultCatchUpWindow\<rparr>"

definition SetCatchUpWindow :: "duration \<Rightarrow> Scheduler \<Rightarrow> Scheduler" where
  "SetCatchUpWindow window s = s\<lparr>s_catchUpWindow := (if window < 0 then 0 else window)\<rparr>"

section \<open>Registration\<close>

definition time_text :: "instant \<Rightarrow> string" where
  "time_text t = (if isZero t then [] else FormatSQLTimestamp t)"

text \<open>INSERT OR IGNORE, then UPDATE; a failed INSERT ends the function.\<close>

definition ensureTaskStateRow :: "bool \<Rightarrow> bool \<Rightarrow> bool \<Rightarrow> Task \<Rightarrow> state_table \<Rightarrow> state_table" where
  "ensureTaskStateRow hasDB insertOk updateOk task tbl =
     (if \<not> hasDB then tbl
      else if \<not> insertOk then tbl
      else let nextRun = VStr (time_text (t_nextRun task));
               tbl1 = (case tbl (t_Name task) of
                   Some _ \<Rightarrow> tbl
                 | None \<Rightarrow> tbl(t_Name task \<mapsto>
                     (new_state_row (t_Name task) (t_Schedule task))\<lparr>sr_next_run := nextRun\<rparr>))
           in if \<not> updateOk then tbl1
              else update_where (t_Name task) (\<lambda>r. True)
                     (\<lambda>r. r\<lparr>sr_task_name := t_Name task, sr_schedule := t_Schedule task,
                            sr_next_run := nextRun\<rparr>) tbl1)"

record add_io =
  ad_insert_ok :: bool
  ad_update_ok :: bool
  ad_now :: instant

text \<open>\<open>None\<close>: the parser did not return (it always does).\<close>

definition AddTask ::
  "frac_ns \<Rightarrow> location \<Rightarrow> add_io \<Rightarrow> string \<Rightarrow> string \<Rightarrow> Scheduler \<times> server_db \<Rightarrow>
     ((schedule_error + unit) \<times> Scheduler \<times> server_db) option" where
  "AddTask fr z io name schedule w =
     (case w of (s, db) \<Rightarrow>
       (case parseSchedule fr schedule of
          None \<Rightarrow> None
        | Some (Inl e) \<Rightarrow> Some (Inl e, s, db)
        | Some (Inr parsed) \<Rightarrow>
            (let task = \<lparr>t_Name = name, t_Schedule = schedule, t_schedule = parsed,
                         t_nextRun = schedule_next z parsed (ad_now io), t_enabled = True,
                         t_lastRun = None, t_retryCount = 0\<rparr>
             in Some (Inr (), s\<lparr>s_tasks := AList.update name task (s_tasks s)\<rparr>,
                  db\<lparr>db_state := ensureTaskStateRow (s_hasDB s) (ad_insert_ok io) (ad_update_ok io)
                                   task (db_state db)\<rparr>))))"

definition AddTaskInterval ::
  "frac_ns \<Rightarrow> location \<Rightarrow> add_io \<Rightarrow> string \<Rightarrow> duration \<Rightarrow> Scheduler \<times> server_db \<Rightarrow>
     ((schedule_error + unit) \<times> Scheduler \<times> server_db) option" where
  "AddTaskInterval fr z io name interval w = AddTask fr z io name (''@every '' @ duration_string interval) w"

section \<open>Running one task\<close>

datatype outcome = Returns "string option" | Panics string

definition runTaskFn :: "outcome \<Rightarrow> string option" where
  "runTaskFn oc = (case oc of Returns e \<Rightarrow> e | Panics m \<Rightarrow> Some (''task panicked: '' @ m))"

definition markActive :: "string \<Rightarrow> bool \<Rightarrow> Scheduler \<Rightarrow> Scheduler" where
  "markActive name active s =
     s\<lparr>s_active := (if active then List.insert name (s_active s) else removeAll name (s_active s))\<rparr>"

definition applyRetryPolicy :: "instant \<Rightarrow> string option \<Rightarrow> Task \<Rightarrow> Task" where
  "applyRetryPolicy end_time runErr task =
     (if runErr = None then task\<lparr>t_retryCount := 0\<rparr>
      else if t_retryCount task \<ge> length retryDelays then task\<lparr>t_retryCount := 0\<rparr>
      else let retryAt = end_time + retryDelays ! t_retryCount task;
               task1 = task\<lparr>t_retryCount := t_retryCount task + 1\<rparr>
           in if isZero (t_nextRun task1) \<or> retryAt < t_nextRun task1
              then task1\<lparr>t_nextRun := retryAt\<rparr> else task1)"

definition persistTaskState ::
  "bool \<Rightarrow> bool \<Rightarrow> Task \<Rightarrow> instant \<Rightarrow> string option \<Rightarrow> state_table \<Rightarrow> state_table" where
  "persistTaskState hasDB writeOk task end_time runErr tbl =
     (if \<not> hasDB \<or> \<not> writeOk then tbl
      else update_where (t_Name task) (\<lambda>r. True)
             (\<lambda>r. r\<lparr>sr_last_run := VStr (FormatSQLTimestamp end_time),
                    sr_last_status := Some (case runErr of None \<Rightarrow> ''success'' | Some e \<Rightarrow> ''failed''),
                    sr_last_error := Some (case runErr of None \<Rightarrow> [] | Some e \<Rightarrow> e),
                    sr_next_run := VStr (time_text (t_nextRun task)),
                    sr_run_count := sr_run_count r + 1,
                    sr_fail_count := sr_fail_count r + (case runErr of None \<Rightarrow> 0 | Some e \<Rightarrow> 1)\<rparr>) tbl)"

definition logTaskExecution ::
  "bool \<Rightarrow> bool \<Rightarrow> string \<Rightarrow> instant \<Rightarrow> string \<Rightarrow> string \<Rightarrow> duration \<Rightarrow> string option \<Rightarrow> server_db \<Rightarrow> server_db" where
  "logTaskExecution queryOk insertOk ulid now node taskName elapsed err db =
     (if \<not> queryOk \<or> db_config db ''audit.enabled'' \<noteq> Some ''true'' \<or> \<not> insertOk then db
      else db\<lparr>db_audit := db_audit db @
         [\<lparr>au_ulid = ulid, au_timestamp = FormatSQLTimestamp now, au_actor_id = node, au_action = taskName,
           au_details = (case err of None \<Rightarrow> ''Completed in '' @ duration_string elapsed
                         | Some e \<Rightarrow> ''Failed: '' @ e),
           au_status = (case err of None \<Rightarrow> ''success'' | Some e \<Rightarrow> ''error'')\<rparr>]\<rparr>)"

text \<open>Everything one execution receives from outside.\<close>

record exec_io =
  ex_lock :: lock_io
  ex_lock_now :: instant
  ex_outcome :: outcome
  ex_start :: instant
  ex_end :: instant
  ex_audit_query_ok :: bool
  ex_audit_insert_ok :: bool
  ex_ulid :: string
  ex_audit_now :: instant
  ex_persist_ok :: bool
  ex_record_ok :: bool
  ex_release_ok :: bool

definition set_task :: "string \<Rightarrow> Task \<Rightarrow> Scheduler \<Rightarrow> Scheduler" where
  "set_task name task s = s\<lparr>s_tasks := AList.update name task (s_tasks s)\<rparr>"

text \<open>The body between the lock and the deferred release.\<close>

definition run_locked :: "exec_io \<Rightarrow> Task \<Rightarrow> Scheduler \<times> server_db \<Rightarrow> Scheduler \<times> server_db" where
  "run_locked io task w =
     (case w of (s, db) \<Rightarrow>
       (let name = t_Name task;
            s1 = markActive name True s;
            err = runTaskFn (ex_outcome io);
            elapsed = ex_end io - ex_start io;
            task1 = applyRetryPolicy (ex_end io) err (task\<lparr>t_lastRun := Some (ex_end io)\<rparr>);
            s2 = set_task name task1 s1;
            db1 = logTaskExecution (ex_audit_query_ok io) (ex_audit_insert_ok io) (ex_ulid io)
                    (ex_audit_now io) (s_nodeID s) name elapsed err db;
            db2 = db1\<lparr>db_state := persistTaskState (s_hasDB s) (ex_persist_ok io) task1 (ex_end io) err (db_state db1)\<rparr>;
            db3 = db2\<lparr>db_history := fst (RecordTaskRun (ex_record_ok io) name (ex_start io) (ex_end io) err (db_history db2))\<rparr>
        in (markActive name False s2, db3)))"

definition executeTask :: "exec_io \<Rightarrow> string \<Rightarrow> Scheduler \<times> server_db \<Rightarrow> Scheduler \<times> server_db" where
  "executeTask io name w =
     (case w of (s, db) \<Rightarrow>
       (case map_of (s_tasks s) name of
          None \<Rightarrow> w
        | Some task \<Rightarrow>
            if \<not> t_enabled task then w
            else
              (let (tbl, got) = acquireTaskLock (ex_lock io) (s_nodeID s) (ex_lock_now io) (t_Name task)
                                  (t_Schedule task) (db_state db)
               in if \<not> got then (s, db\<lparr>db_state := tbl\<rparr>)
                  else
                    (let (s', db') = run_locked io task (s, db\<lparr>db_state := tbl\<rparr>)
                     in (s', db'\<lparr>db_state := releaseTaskLock (ex_release_ok io) (s_nodeID s) (t_Name task)
                                               (db_state db')\<rparr>)))))"

section \<open>Dispatch\<close>

text \<open>The loop over the tasks on a tick: the due task names and the tasks with their next run.\<close>

fun due_tasks :: "location \<Rightarrow> instant \<Rightarrow> (string \<times> Task) list \<Rightarrow> string list \<times> (string \<times> Task) list" where
  "due_tasks z now [] = ([], [])"
| "due_tasks z now ((n, t) # ts) =
     (let (due, rest) = due_tasks z now ts
      in if t_enabled t \<and> \<not> isZero (t_nextRun t) \<and> \<not> now < t_nextRun t
         then (n # due, (n, t\<lparr>t_nextRun := schedule_next z (t_schedule t) now\<rparr>) # rest)
         else (due, (n, t) # rest))"

definition runDueTasks :: "location \<Rightarrow> instant \<Rightarrow> Scheduler \<Rightarrow> string list \<times> Scheduler" where
  "runDueTasks z now s =
     (let (due, ts) = due_tasks z now (s_tasks s) in (due, s\<lparr>s_tasks := ts\<rparr>))"

text \<open>The walk over a schedule from the far edge of the catch-up window.\<close>

fun occurrence_walk :: "(instant \<Rightarrow> instant) \<Rightarrow> instant \<Rightarrow> nat \<Rightarrow> instant \<Rightarrow> instant option \<Rightarrow> instant option" where
  "occurrence_walk nxt now 0 cursor latest = latest"
| "occurrence_walk nxt now (Suc i) cursor latest =
     (if \<not> nxt cursor > cursor \<or> nxt cursor > now then latest
      else occurrence_walk nxt now i (nxt cursor) (Some (nxt cursor)))"

definition latestOccurrenceBefore :: "(instant \<Rightarrow> instant) \<Rightarrow> instant \<Rightarrow> duration \<Rightarrow> instant option" where
  "latestOccurrenceBefore nxt now window = occurrence_walk nxt now maxCatchUpScan (now - window) None"

text \<open>The occurrence of one task that was missed, if there is one.\<close>

definition missed_occurrence ::
  "location \<Rightarrow> (string \<Rightarrow> bool) \<Rightarrow> (history_row \<Rightarrow> bool) \<Rightarrow> instant \<Rightarrow> duration \<Rightarrow> history_table \<Rightarrow> Task \<Rightarrow> instant option" where
  "missed_occurrence z queryOk scanOk now window h task =
     (if \<not> t_enabled task then None
      else case latestOccurrenceBefore (schedule_next z (t_schedule task)) now window of
        None \<Rightarrow> None
      | Some due \<Rightarrow>
          (case GetLastTaskRun (queryOk (t_Name task)) scanOk (t_Name task) h of
             None \<Rightarrow> None
           | Some None \<Rightarrow> None
           | Some (Some lastRun) \<Rightarrow> if \<not> run_StartTime lastRun < due then None else Some due))"

definition missed_runs ::
  "location \<Rightarrow> (string \<Rightarrow> bool) \<Rightarrow> (history_row \<Rightarrow> bool) \<Rightarrow> instant \<Rightarrow> Scheduler \<Rightarrow> history_table \<Rightarrow> (string \<times> instant) list" where
  "missed_runs z queryOk scanOk now s h =
     (if s_catchUpWindow s \<le> 0 then []
      else sort_key snd
        (List.map_filter (\<lambda>(n, t). map_option (Pair n) (missed_occurrence z queryOk scanOk now (s_catchUpWindow s) h t))
           (s_tasks s)))"

text \<open>The catch-up goroutine: one execution after the other, in the order of the due times.\<close>

definition runMissedTasks ::
  "location \<Rightarrow> (string \<Rightarrow> bool) \<Rightarrow> (history_row \<Rightarrow> bool) \<Rightarrow> instant \<Rightarrow> (string \<Rightarrow> exec_io) \<Rightarrow>
     Scheduler \<times> server_db \<Rightarrow> Scheduler \<times> server_db" where
  "runMissedTasks z queryOk scanOk now io w =
     foldl (\<lambda>w' (n, due). executeTask (io n) n w') w (missed_runs z queryOk scanOk now (fst w) (db_history (snd w)))"

definition StartScheduler ::
  "location \<Rightarrow> (string \<Rightarrow> bool) \<Rightarrow> (history_row \<Rightarrow> bool) \<Rightarrow> instant \<Rightarrow> (string \<Rightarrow> exec_io) \<Rightarrow>
     Scheduler \<times> server_db \<Rightarrow> Scheduler \<times> server_db" where
  "StartScheduler z queryOk scanOk now io w =
     (case w of (s, db) \<Rightarrow>
       if s_running s then w
       else runMissedTasks z queryOk scanOk now io (s\<lparr>s_running := True\<rparr>, db))"

section \<open>Shutdown\<close>

definition activeTaskNames :: "Scheduler \<Rightarrow> string list" where
  "activeTaskNames s = sort (s_active s)"

fun mark_interrupted :: "(string \<Rightarrow> bool) \<Rightarrow> string list \<Rightarrow> state_table \<Rightarrow> state_table" where
  "mark_interrupted writeOk [] tbl = tbl"
| "mark_interrupted writeOk (n # ns) tbl =
     mark_interrupted writeOk ns
       (if writeOk n
        then update_where n (\<lambda>r. True)
               (\<lambda>r. r\<lparr>sr_last_status := Some ''interrupted'',
                      sr_last_error := Some ''interrupted by server shutdown'',
                      sr_fail_count := sr_fail_count r + 1\<rparr>) tbl
        else tbl)"

definition markTasksInterrupted :: "bool \<Rightarrow> (string \<Rightarrow> bool) \<Rightarrow> string list \<Rightarrow> state_table \<Rightarrow> state_table" where
  "markTasksInterrupted hasDB writeOk names tbl =
     (if \<not> hasDB \<or> names = [] then tbl else mark_interrupted writeOk names tbl)"

text \<open>\<open>drained\<close>: all executions ended within the 30 seconds.\<close>

definition StopScheduler ::
  "bool \<Rightarrow> (string \<Rightarrow> bool) \<Rightarrow> bool \<Rightarrow> Scheduler \<times> server_db \<Rightarrow> Scheduler \<times> server_db" where
  "StopScheduler drained markOk releaseOk w =
     (case w of (s, db) \<Rightarrow>
       if \<not> s_running s then w
       else
         (let tbl = (if drained then db_state db
                     else markTasksInterrupted (s_hasDB s) markOk (activeTaskNames s) (db_state db))
          in (s\<lparr>s_running := False\<rparr>, db\<lparr>db_state := releaseNodeLocks (s_hasDB s) releaseOk (s_nodeID s) tbl\<rparr>)))"

section \<open>Administration\<close>

definition set_enabled :: "bool \<Rightarrow> string \<Rightarrow> Scheduler \<Rightarrow> Scheduler option" where
  "set_enabled b taskName s =
     (case map_of (s_tasks s) taskName of
        None \<Rightarrow> None
      | Some task \<Rightarrow> Some (set_task taskName (task\<lparr>t_enabled := b\<rparr>) s))"

text \<open>\<open>None\<close> is the error \<^verbatim>\<open>task not found\<close>.\<close>

definition EnableTask :: "string \<Rightarrow> Scheduler \<Rightarrow> Scheduler option" where
  "EnableTask taskName s = set_enabled True taskName s"

definition DisableTask :: "string \<Rightarrow> Scheduler \<Rightarrow> Scheduler option" where
  "DisableTask taskName s = set_enabled False taskName s"

definition TriggerTask :: "exec_io \<Rightarrow> string \<Rightarrow> Scheduler \<times> server_db \<Rightarrow> (Scheduler \<times> server_db) option" where
  "TriggerTask io taskName w =
     (case map_of (s_tasks (fst w)) taskName of None \<Rightarrow> None | Some task \<Rightarrow> Some (executeTask io taskName w))"

definition GetTask :: "string \<Rightarrow> Scheduler \<Rightarrow> Task option" where
  "GetTask taskName s = map_of (s_tasks s) taskName"

record task_status =
  ts_name :: string
  ts_schedule :: string
  ts_enabled :: bool
  ts_lastRun :: "instant option"
  ts_nextRun :: instant

definition GetTaskStatus :: "Scheduler \<Rightarrow> task_status list" where
  "GetTaskStatus s =
     map (\<lambda>(n, t). \<lparr>ts_name = t_Name t, ts_schedule = t_Schedule t, ts_enabled = t_enabled t,
                     ts_lastRun = t_lastRun t, ts_nextRun = t_nextRun t\<rparr>) (s_tasks s)"

section \<open>The interface of schedules\<close>

text \<open>
  What the scheduler relies on in a \<^verbatim>\<open>Schedule\<close>: the next activation lies strictly after
  the reference time, or is the zero time ("never again").
\<close>

locale schedule_source =
  fixes ok :: "'s \<Rightarrow> bool" and nxt :: "'s \<Rightarrow> instant \<Rightarrow> instant"
  assumes advances: "ok sc \<Longrightarrow> t < nxt sc t \<or> nxt sc t = zero_time"
begin

definition is_due :: "instant \<Rightarrow> instant \<Rightarrow> bool" where
  "is_due now next_run \<longleftrightarrow> \<not> isZero next_run \<and> \<not> now < next_run"

lemma not_due_after_advance: "ok sc \<Longrightarrow> \<not> is_due now (nxt sc now)"
  using advances [of sc now] by (auto simp: is_due_def isZero_def)

lemma walk_range:
  "occurrence_walk (nxt sc) now i cursor latest = Some r \<Longrightarrow>
     latest = Some r \<or> cursor < r \<and> r \<le> now"
proof (induction i arbitrary: cursor latest)
  case (Suc i)
  show ?case
  proof (cases "\<not> nxt sc cursor > cursor \<or> nxt sc cursor > now")
    case False
    with Suc.prems have "occurrence_walk (nxt sc) now i (nxt sc cursor) (Some (nxt sc cursor)) = Some r"
      by simp
    from Suc.IH [OF this] False show ?thesis by auto
  qed (use Suc.prems in simp)
qed simp

lemma latest_in_window:
  "latestOccurrenceBefore (nxt sc) now window = Some due \<Longrightarrow> now - window < due \<and> due \<le> now"
  using walk_range [of sc now maxCatchUpScan "now - window" None due]
  by (simp add: latestOccurrenceBefore_def)

lemma latest_found:
  assumes "now - window < nxt sc (now - window)" "nxt sc (now - window) \<le> now"
  shows "\<exists>due. latestOccurrenceBefore (nxt sc) now window = Some due"
proof -
  have some: "\<exists>r. occurrence_walk (nxt sc) now i c (Some l) = Some r" for i c l
    by (induction i arbitrary: c l) auto
  obtain k where k: "maxCatchUpScan = Suc k" by (cases maxCatchUpScan) (simp_all add: maxCatchUpScan_def)
  have "latestOccurrenceBefore (nxt sc) now window =
      occurrence_walk (nxt sc) now k (nxt sc (now - window)) (Some (nxt sc (now - window)))"
    using assms by (simp add: latestOccurrenceBefore_def k)
  with some show ?thesis by simp
qed

end

definition sound_schedule :: "Schedule \<Rightarrow> bool" where
  "sound_schedule s = (case s of EverySchedule d \<Rightarrow> 0 < d | CronSchedule c \<Rightarrow> True)"

lemma cron_next_advances: "t < cron_next z c t \<or> cron_next z c t = zero_time"
proof -
  have m: "truncate_minute t + minute_ns + int k * minute_ns > t" for k
  proof -
    have "0 \<le> int k * minute_ns" by (simp add: unit_defs)
    with truncate_minute_bounds [of t] show ?thesis by linarith
  qed
  from cron_scan_spec [of 0 z c "truncate_minute t + minute_ns"] show ?thesis
    using m by (auto simp: cron_next_def)
qed

interpretation sched: schedule_source sound_schedule "schedule_next z" for z
proof
  fix sc t
  assume "sound_schedule sc"
  then show "t < schedule_next z sc t \<or> schedule_next z sc t = zero_time"
    using cron_next_advances
    by (cases sc) (auto simp: sound_schedule_def schedule_next_def every_next_def)
qed

lemma parse_cron_sound:
  assumes "parse_cron sp = Some (Inr s)"
  shows "sound_schedule s"
proof -
  have "length (str_fields sp) = 5"
    using assms by (auto simp: parse_cron_def Let_def split: if_splits)
  with assms obtain c where "s = CronSchedule c"
    by (auto simp: parse_cron_def Let_def bind_field_Inr)
  then show ?thesis by (simp add: sound_schedule_def)
qed

lemma parseSchedule_sound:
  assumes "parseSchedule fr spec = Some (Inr s)"
  shows "sound_schedule s"
proof (cases "prefix ''@every '' (trimSpace spec)")
  case True
  with assms have "\<exists>d. s = EverySchedule d \<and> 0 < d"
    unfolding parseSchedule_def Let_def by (auto split: if_splits option.splits)
  then show ?thesis by (auto simp: sound_schedule_def)
next
  case False
  with assms have "\<exists>sp. parse_cron sp = Some (Inr s)"
    unfolding parseSchedule_def Let_def by (auto split: if_splits option.splits)
  then show ?thesis by (auto intro: parse_cron_sound)
qed

section \<open>The invariant of the task table\<close>

definition wf_task :: "string \<Rightarrow> Task \<Rightarrow> bool" where
  "wf_task n t \<longleftrightarrow> t_Name t = n \<and> sound_schedule (t_schedule t) \<and> t_retryCount t \<le> length retryDelays"

definition wf_sched :: "Scheduler \<Rightarrow> bool" where
  "wf_sched s \<longleftrightarrow>
     distinct (map fst (s_tasks s)) \<and> distinct (s_active s) \<and> 0 \<le> s_catchUpWindow s \<and>
     (\<forall>n t. map_of (s_tasks s) n = Some t \<longrightarrow> wf_task n t)"

definition advance_task :: "location \<Rightarrow> instant \<Rightarrow> Task \<Rightarrow> Task" where
  "advance_task z now t =
     (if t_enabled t \<and> \<not> isZero (t_nextRun t) \<and> \<not> now < t_nextRun t
      then t\<lparr>t_nextRun := schedule_next z (t_schedule t) now\<rparr> else t)"

lemma due_tasks_eq:
  "due_tasks z now ts =
     (map fst (filter (\<lambda>(n, t). t_enabled t \<and> \<not> isZero (t_nextRun t) \<and> \<not> now < t_nextRun t) ts),
      map (\<lambda>(n, t). (n, advance_task z now t)) ts)"
proof (induction ts)
  case (Cons p ts)
  obtain n t where p: "p = (n, t)" by (cases p)
  show ?case
    by (cases "t_enabled t \<and> \<not> isZero (t_nextRun t) \<and> \<not> now < t_nextRun t")
       (simp_all add: p Cons.IH advance_task_def)
qed simp

lemma advance_task_keeps [simp]:
  "t_Name (advance_task z now t) = t_Name t" "t_schedule (advance_task z now t) = t_schedule t"
  "t_enabled (advance_task z now t) = t_enabled t" "t_retryCount (advance_task z now t) = t_retryCount t"
  by (simp_all add: advance_task_def)

lemma map_of_map_snd: "map_of (map (\<lambda>(n, t). (n, f t)) ts) n = map_option f (map_of ts n)"
  by (induction ts) auto

lemma map_fst_map_snd: "map (fst \<circ> (\<lambda>(n, t). (n, f t))) ts = map fst ts"
  by (induction ts) auto

lemma runDueTasks_wf: "wf_sched s \<Longrightarrow> wf_sched (snd (runDueTasks z now s))"
  by (auto simp: wf_sched_def runDueTasks_def due_tasks_eq map_of_map_snd map_fst_map_snd wf_task_def)

lemma set_task_wf:
  "wf_sched s \<Longrightarrow> wf_task n t \<Longrightarrow> wf_sched (set_task n t s)"
  unfolding wf_sched_def set_task_def
  by (auto simp: distinct_update update_conv' split: if_splits)

lemma markActive_wf: "wf_sched s \<Longrightarrow> wf_sched (markActive n b s)"
  by (auto simp: wf_sched_def markActive_def distinct_removeAll)

lemma applyRetryPolicy_wf: "wf_task n t \<Longrightarrow> wf_task n (applyRetryPolicy e err t)"
  by (auto simp: wf_task_def applyRetryPolicy_def Let_def)

lemma executeTask_wf:
  assumes "wf_sched s"
  shows "wf_sched (fst (executeTask io n (s, db)))"
proof (cases "map_of (s_tasks s) n")
  case (Some task)
  then have wt: "wf_task n task" using assms by (simp add: wf_sched_def)
  then have nm: "t_Name task = n" by (simp add: wf_task_def)
  have "wf_task n (applyRetryPolicy e err (task\<lparr>t_lastRun := x\<rparr>))" for e err x
    using wt by (intro applyRetryPolicy_wf) (simp add: wf_task_def)
  then have "wf_sched (fst (run_locked io task (s, d)))" for d
    using assms by (simp add: run_locked_def Let_def nm markActive_wf set_task_wf)
  with Some assms show ?thesis
    by (auto simp: executeTask_def Let_def split: prod.splits)
       (metis fst_conv)
qed (use assms in \<open>simp add: executeTask_def\<close>)

section \<open>Dispatch on a tick\<close>

lemma task_of_set: "wf_sched s \<Longrightarrow> (n, t) \<in> set (s_tasks s) \<longleftrightarrow> map_of (s_tasks s) n = Some t"
  by (simp add: wf_sched_def)

lemma runDueTasks_map: "map_of (s_tasks (snd (runDueTasks z now s))) n = map_option (advance_task z now) (map_of (s_tasks s) n)"
  by (simp add: runDueTasks_def due_tasks_eq map_of_map_snd)

lemma runDueTasks_due:
  assumes "wf_sched s"
  shows "n \<in> set (fst (runDueTasks z now s)) \<longleftrightarrow>
     (\<exists>t. map_of (s_tasks s) n = Some t \<and> t_enabled t \<and> \<not> isZero (t_nextRun t) \<and> t_nextRun t \<le> now)"
proof -
  have "n \<in> set (fst (runDueTasks z now s)) \<longleftrightarrow>
     (\<exists>t. (n, t) \<in> set (s_tasks s) \<and> t_enabled t \<and> \<not> isZero (t_nextRun t) \<and> \<not> now < t_nextRun t)"
    by (force simp: runDueTasks_def due_tasks_eq)
  then show ?thesis by (simp add: task_of_set [OF assms] not_less)
qed

lemma runDueTasks_distinct:
  assumes "wf_sched s"
  shows "distinct (fst (runDueTasks z now s))"
proof -
  have "distinct (map fst (filter P xs))" if "distinct (map fst xs)" for P and xs :: "(string \<times> Task) list"
    using that by (induction xs) auto
  with assms show ?thesis by (simp add: runDueTasks_def due_tasks_eq wf_sched_def)
qed

lemma dispatched_again:
  assumes "wf_sched s" "map_of (s_tasks s) n = Some t" "n \<in> set (fst (runDueTasks z now s))"
  shows "n \<in> set (fst (runDueTasks z now' (snd (runDueTasks z now s)))) \<longleftrightarrow>
     schedule_next z (t_schedule t) now \<noteq> zero_time \<and> schedule_next z (t_schedule t) now \<le> now'"
proof -
  have "advance_task z now t = t\<lparr>t_nextRun := schedule_next z (t_schedule t) now\<rparr>" "t_enabled t"
    using assms(2,3) by (auto simp: runDueTasks_due [OF assms(1)] advance_task_def)
  then show ?thesis
    using assms(2) by (simp add: runDueTasks_due [OF runDueTasks_wf [OF assms(1)]] runDueTasks_map isZero_def)
qed

lemma idle_after_tick:
  assumes "wf_sched s"
  shows "fst (runDueTasks z now (snd (runDueTasks z now s))) = []"
proof -
  have "n \<notin> set (fst (runDueTasks z now (snd (runDueTasks z now s))))" for n
  proof
    assume again: "n \<in> set (fst (runDueTasks z now (snd (runDueTasks z now s))))"
    then obtain t where t: "map_of (s_tasks s) n = Some t" "t_enabled t"
        "\<not> isZero (t_nextRun (advance_task z now t))" "t_nextRun (advance_task z now t) \<le> now"
      by (auto simp: runDueTasks_due [OF runDueTasks_wf [OF assms]] runDueTasks_map)
    then have "n \<in> set (fst (runDueTasks z now s))"
      by (auto simp: runDueTasks_due [OF assms] advance_task_def split: if_splits)
    moreover have "sound_schedule (t_schedule t)" using assms t(1) by (auto simp: wf_sched_def wf_task_def)
    ultimately show False
      using again dispatched_again [OF assms t(1)] sched.advances [of "t_schedule t" now z] by force
  qed
  then show ?thesis by (metis ex_in_conv set_empty)
qed

lemma AddTask_wf:
  assumes "wf_sched (fst w)" "AddTask fr z io n sch w = Some (r, w')"
  shows "wf_sched (fst w')"
proof -
  obtain s db where w: "w = (s, db)" by (cases w)
  show ?thesis
  proof (cases "parseSchedule fr sch")
    case (Some p)
    show ?thesis
    proof (cases p)
      case (Inl e)
      with assms Some w show ?thesis by (auto simp: AddTask_def)
    next
      case (Inr sc)
      let ?t = "\<lparr>t_Name = n, t_Schedule = sch, t_schedule = sc, t_nextRun = schedule_next z sc (ad_now io),
                 t_enabled = True, t_lastRun = None, t_retryCount = 0\<rparr>"
      have "wf_task n ?t" using Some Inr by (simp add: wf_task_def parseSchedule_sound)
      then have "wf_sched (set_task n ?t s)" using assms(1) w by (simp add: set_task_wf)
      with assms(2) Some Inr w show ?thesis by (auto simp: AddTask_def Let_def set_task_def)
    qed
  qed (use assms w in \<open>simp add: AddTask_def\<close>)
qed

text \<open>
  What may happen to the tasks between two ticks, seen from task \<open>n\<close>: executions of any tasks, by the scheduler, by hand or by
  the catch-up at a start, enabling and disabling, registration of other tasks, a change of the catch-up
  window, start and stop. \<open>es\<close> collects the ends of the failed executions of \<open>n\<close>, at clock readings after the year 1.
\<close>

inductive meanwhile :: "frac_ns \<Rightarrow> location \<Rightarrow> string \<Rightarrow> instant list \<Rightarrow> Scheduler \<times> server_db \<Rightarrow> Scheduler \<times> server_db \<Rightarrow> bool"
  for fr :: frac_ns and z :: location and n :: string where
  nothing: "meanwhile fr z n [] w w"
| execution: "\<lbrakk>meanwhile fr z n es w w'; zero_time \<le> ex_end io\<rbrakk>
    \<Longrightarrow> meanwhile fr z n (if m = n \<and> runTaskFn (ex_outcome io) \<noteq> None then ex_end io # es else es) w (executeTask io m w')"
| switch: "\<lbrakk>meanwhile fr z n es w (s, db); set_enabled b m s = Some s'\<rbrakk> \<Longrightarrow> meanwhile fr z n es w (s', db)"
| other_task: "\<lbrakk>meanwhile fr z n es w w'; AddTask fr z io m sch w' = Some (r, w''); m \<noteq> n\<rbrakk> \<Longrightarrow> meanwhile fr z n es w w''"
| start_stop: "meanwhile fr z n es w (s, db) \<Longrightarrow> meanwhile fr z n es w (s\<lparr>s_running := b\<rparr>, db')"
| window: "meanwhile fr z n es w (s, db) \<Longrightarrow> meanwhile fr z n es w (SetCatchUpWindow d s, db)"

text \<open>The next run of a task whose schedule gave \<open>nx\<close>: that, or the retry of a failed execution, if it comes earlier.\<close>

definition next_or_retry :: "instant \<Rightarrow> instant list \<Rightarrow> instant \<Rightarrow> bool" where
  "next_or_retry nx es t \<longleftrightarrow> t = nx \<or> (nx = zero_time \<or> t < nx) \<and> t \<noteq> zero_time \<and> (\<exists>e\<in>set es. \<exists>d\<in>set retryDelays. t = e + d)"

lemma next_or_retry_mono: "next_or_retry nx es t \<Longrightarrow> set es \<subseteq> set es' \<Longrightarrow> next_or_retry nx es' t"
  by (auto simp: next_or_retry_def)

lemma retryDelays_pos: "d \<in> set retryDelays \<Longrightarrow> 0 < d"
  by (auto simp: retryDelays_def unit_defs)

lemma applyRetryPolicy_next:
  assumes "next_or_retry nx es (t_nextRun t)" "zero_time \<le> e"
  shows "next_or_retry nx (if err = None then es else e # es) (t_nextRun (applyRetryPolicy e err t))"
proof (cases "err = None \<or> length retryDelays \<le> t_retryCount t")
  case True
  with assms(1) show ?thesis by (auto simp: applyRetryPolicy_def next_or_retry_def)
next
  case False
  define d where "d = retryDelays ! t_retryCount t"
  have d: "d \<in> set retryDelays" using False by (simp add: d_def)
  with retryDelays_pos [OF d] assms(2) have "e + d \<noteq> zero_time" by linarith
  with False d assms(1) show ?thesis
    by (auto simp: applyRetryPolicy_def Let_def next_or_retry_def isZero_def simp flip: d_def)
qed

lemma executeTask_other_task:
  assumes "wf_sched s" "m \<noteq> n"
  shows "map_of (s_tasks (fst (executeTask io m (s, db)))) n = map_of (s_tasks s) n"
proof (cases "map_of (s_tasks s) m")
  case (Some task)
  then have "t_Name task = m" using assms(1) by (auto simp: wf_sched_def wf_task_def)
  with Some assms(2) show ?thesis
    by (auto simp: executeTask_def run_locked_def Let_def markActive_def set_task_def update_conv' split: prod.splits)
qed (simp add: executeTask_def)

lemma executeTask_own_task:
  assumes "wf_sched s" "map_of (s_tasks s) n = Some t"
  shows "map_of (s_tasks (fst (executeTask io n (s, db)))) n \<in>
    {Some t, Some (applyRetryPolicy (ex_end io) (runTaskFn (ex_outcome io)) (t\<lparr>t_lastRun := Some (ex_end io)\<rparr>))}"
proof -
  have "t_Name t = n" using assms by (auto simp: wf_sched_def wf_task_def)
  with assms(2) show ?thesis
    by (auto simp: executeTask_def run_locked_def Let_def markActive_def set_task_def update_conv' split: prod.splits)
qed

lemma applyRetryPolicy_schedule [simp]: "t_schedule (applyRetryPolicy e err t) = t_schedule t"
  by (simp add: applyRetryPolicy_def Let_def)

lemma meanwhile_next:
  assumes "meanwhile fr z n es w w'" "wf_sched (fst w)" "map_of (s_tasks (fst w)) n = Some t" "t_nextRun t = nx"
  shows "wf_sched (fst w') \<and> (\<exists>t'. map_of (s_tasks (fst w')) n = Some t' \<and> next_or_retry nx es (t_nextRun t'))"
  using assms
proof (induction rule: meanwhile.induct)
  case (nothing w)
  then show ?case by (simp add: next_or_retry_def)
next
  case (execution es w w' io m)
  then obtain t' where t': "wf_sched (fst w')" "map_of (s_tasks (fst w')) n = Some t'" "next_or_retry nx es (t_nextRun t')" by auto
  obtain s db where w': "w' = (s, db)" by (cases w')
  show ?case
  proof (cases "m = n")
    case True
    let ?e = "runTaskFn (ex_outcome io)"
    have "next_or_retry nx (if ?e = None then es else ex_end io # es)
        (t_nextRun (applyRetryPolicy (ex_end io) ?e (t'\<lparr>t_lastRun := Some (ex_end io)\<rparr>)))"
      by (rule applyRetryPolicy_next) (use t' execution.hyps in simp_all)
    moreover have "next_or_retry nx (if ?e = None then es else ex_end io # es) (t_nextRun t')"
      using t'(3) by (rule next_or_retry_mono) auto
    ultimately show ?thesis
      using executeTask_own_task [of s n t' io db] t' executeTask_wf [of s io n db] True by (auto simp: w')
  next
    case False
    with t' executeTask_other_task [of s m n io db] executeTask_wf [of s io m db] show ?thesis by (simp add: w')
  qed
next
  case (switch es w s db b m s')
  then obtain t' where t': "wf_sched s" "map_of (s_tasks s) n = Some t'" "next_or_retry nx es (t_nextRun t')" by auto
  obtain u where u: "map_of (s_tasks s) m = Some u" "s' = set_task m (u\<lparr>t_enabled := b\<rparr>) s"
    using switch.hyps(2) by (auto simp: set_enabled_def split: option.splits)
  moreover have "wf_task m (u\<lparr>t_enabled := b\<rparr>)" using t'(1) u(1) by (simp add: wf_sched_def wf_task_def)
  ultimately show ?case using t' set_task_wf [of s m "u\<lparr>t_enabled := b\<rparr>"]
    by (cases "m = n") (auto simp: set_task_def update_conv')
next
  case (other_task es w w' io m sch r w'')
  then have "wf_sched (fst w')" by auto
  from AddTask_wf [OF this other_task.hyps(2)] have "wf_sched (fst w'')" .
  moreover have "map_of (s_tasks (fst w'')) n = map_of (s_tasks (fst w')) n"
    using other_task.hyps(2,3) by (cases w') (auto simp: AddTask_def Let_def update_conv' split: option.splits sum.splits)
  ultimately show ?case using other_task.IH other_task.prems by auto
qed (auto simp: wf_sched_def SetCatchUpWindow_def)

text \<open>
  C3. A tick dispatches each due task exactly once: the dispatched names are distinct, they are
  exactly the enabled tasks whose next run is set and has passed, and a second tick at the same time
  dispatches nothing. Between this tick and the next one, tasks may be executed with any outcome, enabled and disabled, other
  tasks may be registered and the scheduler stopped and started; after all of that a task dispatched now has as
  its next run the next activation of its schedule after this tick, strictly later than the tick, or the time of a retry of
  a failed execution in between (its end plus one of the retry delays), if that comes earlier or the schedule
  has no next activation; and the next tick dispatches it exactly when it is enabled and that time is set and has come. (Hypothesis: the state
  satisfies the invariant of the scheduler, as every reachable one does.)
\<close>

theorem runDueTasks_dispatch:
  assumes "wf_sched s" "runDueTasks z now s = (due, s')"
  shows "distinct due \<and>
    set due = {n. \<exists>t. map_of (s_tasks s) n = Some t \<and> t_enabled t \<and> \<not> isZero (t_nextRun t) \<and> t_nextRun t \<le> now} \<and>
    fst (runDueTasks z now s') = [] \<and>
    (\<forall>n\<in>set due. \<forall>t fr es db s'' db'' now'. map_of (s_tasks s) n = Some t \<longrightarrow> meanwhile fr z n es (s', db) (s'', db'') \<longrightarrow>
       (now < schedule_next z (t_schedule t) now \<or> schedule_next z (t_schedule t) now = zero_time) \<and>
       (\<exists>t''. map_of (s_tasks s'') n = Some t'' \<and>
          next_or_retry (schedule_next z (t_schedule t) now) es (t_nextRun t'') \<and>
          (n \<in> set (fst (runDueTasks z now' s'')) \<longleftrightarrow>
             t_enabled t'' \<and> t_nextRun t'' \<noteq> zero_time \<and> t_nextRun t'' \<le> now')))"
proof -
  have due: "fst (runDueTasks z now s) = due" "snd (runDueTasks z now s) = s'" using assms(2) by simp_all
  have wf': "wf_sched s'" using runDueTasks_wf [OF assms(1), of z now] due by simp
  have "(now < schedule_next z (t_schedule t) now \<or> schedule_next z (t_schedule t) now = zero_time) \<and>
       (\<exists>t''. map_of (s_tasks s'') n = Some t'' \<and>
          next_or_retry (schedule_next z (t_schedule t) now) es (t_nextRun t'') \<and>
          (n \<in> set (fst (runDueTasks z now' s'')) \<longleftrightarrow>
             t_enabled t'' \<and> t_nextRun t'' \<noteq> zero_time \<and> t_nextRun t'' \<le> now'))"
    if n: "n \<in> set due" and t: "map_of (s_tasks s) n = Some t" and m: "meanwhile fr z n es (s', db) (s'', db'')"
    for n t fr es db s'' db'' now'
  proof -
    have "sound_schedule (t_schedule t)" using assms(1) t by (auto simp: wf_sched_def wf_task_def)
    then have "now < schedule_next z (t_schedule t) now \<or> schedule_next z (t_schedule t) now = zero_time"
      by (rule sched.advances)
    moreover have "map_of (s_tasks s') n = Some (t\<lparr>t_nextRun := schedule_next z (t_schedule t) now\<rparr>)"
      using runDueTasks_map [of z now s n] runDueTasks_due [OF assms(1), of n z now] n t due by (simp add: advance_task_def)
    with meanwhile_next [OF m, of "t\<lparr>t_nextRun := schedule_next z (t_schedule t) now\<rparr>" "schedule_next z (t_schedule t) now"] wf'
    obtain t'' where "wf_sched s''" "map_of (s_tasks s'') n = Some t''"
        "next_or_retry (schedule_next z (t_schedule t) now) es (t_nextRun t'')" by auto
    ultimately show ?thesis by (auto simp: runDueTasks_due isZero_def)
  qed
  then show ?thesis
    using runDueTasks_distinct [OF assms(1), of z now] runDueTasks_due [OF assms(1), of _ z now]
      idle_after_tick [OF assms(1), of z now] unfolding due by blast
qed

definition demo_task :: "string \<Rightarrow> instant \<Rightarrow> Task" where
  "demo_task n nextRun =
     \<lparr>t_Name = n, t_Schedule = ''@every 1m'', t_schedule = EverySchedule minute_ns, t_nextRun = nextRun,
      t_enabled = True, t_lastRun = None, t_retryCount = 0\<rparr>"

definition demo_sched :: Scheduler where
  "demo_sched = (NewScheduler (Some ''node-a'') True)\<lparr>s_tasks := [(''a'', demo_task ''a'' 5), (''b'', demo_task ''b'' 9)]\<rparr>"

lemma demo_sched_wf: "wf_sched demo_sched"
  by (auto simp: wf_sched_def demo_sched_def NewScheduler_def demo_task_def defaultCatchUpWindow_def
      hour_ns_def unit_defs wf_task_def sound_schedule_def)

theorem runDueTasks_dispatch_witness:
  "fst (runDueTasks (\<lambda>t. 0) 7 demo_sched) = [''a''] \<and> fst (runDueTasks (\<lambda>t. 0) 7 (snd (runDueTasks (\<lambda>t. 0) 7 demo_sched))) = [] \<and>
   (\<exists>t. map_of (s_tasks (snd (runDueTasks (\<lambda>t. 0) 7 demo_sched))) ''a'' = Some t \<and>
      t_nextRun t = schedule_next (\<lambda>t. 0) (EverySchedule minute_ns) 7)"
proof -
  let ?s' = "snd (runDueTasks (\<lambda>t. 0) 7 demo_sched)"
  have f: "fst (runDueTasks (\<lambda>t. 0) 7 demo_sched) = [''a'']" by code_simp
  then have e: "runDueTasks (\<lambda>t. 0) 7 demo_sched = ([''a''], ?s')" by (simp add: prod_eq_iff)
  have m: "meanwhile undefined (\<lambda>t. 0) ''a'' [] (?s', undefined) (?s', undefined)" by (rule meanwhile.nothing)
  have t: "map_of (s_tasks demo_sched) ''a'' = Some (demo_task ''a'' 5)" by (simp add: demo_sched_def)
  note th = runDueTasks_dispatch [OF demo_sched_wf e]
  have "''a'' \<in> set [''a'']" by simp
  then have "\<exists>t''. map_of (s_tasks ?s') ''a'' = Some t'' \<and>
      next_or_retry (schedule_next (\<lambda>t. 0) (t_schedule (demo_task ''a'' 5)) 7) [] (t_nextRun t'')"
    using th [THEN conjunct2, THEN conjunct2, THEN conjunct2, rule_format, OF _ t m] by blast
  then have "\<exists>t. map_of (s_tasks ?s') ''a'' = Some t \<and> t_nextRun t = schedule_next (\<lambda>t. 0) (EverySchedule minute_ns) 7"
    by (auto simp: next_or_retry_def demo_task_def)
  then show ?thesis using th [THEN conjunct2, THEN conjunct2, THEN conjunct1] f by blast
qed

section \<open>One execution\<close>

lemma releaseTaskLock_row:
  "isGlobalTask n \<Longrightarrow> releaseTaskLock True me n tbl n =
     map_option (\<lambda>r. if sr_locked_by r = Some me then r\<lparr>sr_locked_by := None, sr_locked_at := VNil\<rparr> else r) (tbl n)"
  by (simp add: releaseTaskLock_def update_where_same)

definition run_error :: "exec_io \<Rightarrow> string option" where
  "run_error io = runTaskFn (ex_outcome io)"

lemma logTaskExecution_keeps [simp]:
  "db_state (logTaskExecution q i u now me n el e db) = db_state db"
  "db_history (logTaskExecution q i u now me n el e db) = db_history db"
  by (simp_all add: logTaskExecution_def)

lemma executeTask_locked:
  assumes "wf_sched s" "map_of (s_tasks s) n = Some task" "t_enabled task"
    "acquireTaskLock (ex_lock io) (s_nodeID s) (ex_lock_now io) n (t_Schedule task) (db_state db) = (tbl, True)"
  shows "executeTask io n (s, db) =
    (case run_locked io task (s, db\<lparr>db_state := tbl\<rparr>) of
       (s', db') \<Rightarrow> (s', db'\<lparr>db_state := releaseTaskLock (ex_release_ok io) (s_nodeID s) n (db_state db')\<rparr>))"
proof -
  have "t_Name task = n" using assms(1,2) by (auto simp: wf_sched_def wf_task_def)
  with assms show ?thesis by (simp add: executeTask_def)
qed

lemma removeAll_insert: "removeAll x (List.insert x xs) = removeAll x xs"
  by (simp add: List.insert_def)

text \<open>
  C9. One execution of an enabled task that may run (it is local, or got its lock), whether its function returned, failed or
  panicked. The task table changes only at this task: its last run is the end of the run, and the retry policy
  decides its next run; the task is off the set of active tasks, which is otherwise unchanged. The history gains exactly
  one row, with the times and the outcome, if that INSERT succeeds, and is unchanged if it fails. The state row of the
  task, if it has one, counts one more run, and one more failure on an error, when the scheduler has a database and
  that UPDATE succeeds, and keeps its counts otherwise; the lock of a global task is free afterwards if the release
  succeeds, and still this node's if it fails. No other task's state row changes. (Hypothesis: the scheduler's invariant.)
\<close>

theorem executeTask_complete:
  assumes "wf_sched s" "map_of (s_tasks s) n = Some task" "t_enabled task"
    "acquireTaskLock (ex_lock io) (s_nodeID s) (ex_lock_now io) n (t_Schedule task) (db_state db) = (tbl, True)"
    "executeTask io n (s, db) = (s', db')"
  shows "s_active s' = removeAll n (s_active s) \<and>
    map_of (s_tasks s') n =
      Some (applyRetryPolicy (ex_end io) (run_error io) (task\<lparr>t_lastRun := Some (ex_end io)\<rparr>)) \<and>
    (\<forall>m. m \<noteq> n \<longrightarrow> map_of (s_tasks s') m = map_of (s_tasks s) m \<and> db_state db' m = db_state db m) \<and>
    (if ex_record_ok io
     then \<exists>h. ht_rows (db_history db') = ht_rows (db_history db) @ [h] \<and> hr_task h = n \<and>
       hr_start h = VStr (FormatSQLTimestamp (ex_start io)) \<and> hr_end h = VStr (FormatSQLTimestamp (ex_end io)) \<and>
       hr_status h = (if run_error io = None then ''success'' else ''error'')
     else db_history db' = db_history db) \<and>
    (case tbl n of
       None \<Rightarrow> db_state db' n = None
     | Some row \<Rightarrow> \<exists>r. db_state db' n = Some r \<and>
         (if s_hasDB s \<and> ex_persist_ok io
          then sr_run_count r = sr_run_count row + 1 \<and>
            sr_fail_count r = sr_fail_count row + (if run_error io = None then 0 else 1) \<and>
            sr_last_status r = Some (if run_error io = None then ''success'' else ''failed'')
          else sr_run_count r = sr_run_count row \<and> sr_fail_count r = sr_fail_count row \<and> sr_last_status r = sr_last_status row) \<and>
         (isGlobalTask n \<longrightarrow> sr_locked_by r = (if ex_release_ok io then None else Some (s_nodeID s))))"
proof -
  have nm: "t_Name task = n" using assms(1,2) by (auto simp: wf_sched_def wf_task_def)
  have other: "\<And>m. m \<noteq> n \<Longrightarrow> tbl m = db_state db m" using acquire_other [OF assms(4)] by simp
  have lb: "sr_locked_by row = Some (s_nodeID s)" if "isGlobalTask n" "tbl n = Some row" for row
    using acquire_won [OF that(1) assms(4)] that(2) by (simp add: held_by_def)
  have n2: "t_Name (applyRetryPolicy e er (task\<lparr>t_lastRun := x\<rparr>)) = n" for e er x
    by (simp add: applyRetryPolicy_def Let_def nm)
  have run: "(s', db') = (case run_locked io task (s, db\<lparr>db_state := tbl\<rparr>) of
       (s', db') \<Rightarrow> (s', db'\<lparr>db_state := releaseTaskLock (ex_release_ok io) (s_nodeID s) n (db_state db')\<rparr>))"
    using executeTask_locked [OF assms(1-4)] assms(5) by simp
  have "s_active s' = removeAll n (s_active s)"
    "map_of (s_tasks s') = (map_of (s_tasks s))
      (n \<mapsto> applyRetryPolicy (ex_end io) (run_error io) (task\<lparr>t_lastRun := Some (ex_end io)\<rparr>))"
    using run by (simp_all add: run_locked_def Let_def nm markActive_def set_task_def removeAll_insert update_conv' run_error_def)
  moreover have "if ex_record_ok io
     then \<exists>h. ht_rows (db_history db') = ht_rows (db_history db) @ [h] \<and> hr_task h = n \<and>
       hr_start h = VStr (FormatSQLTimestamp (ex_start io)) \<and> hr_end h = VStr (FormatSQLTimestamp (ex_end io)) \<and>
       hr_status h = (if run_error io = None then ''success'' else ''error'')
     else db_history db' = db_history db"
    using run by (cases "run_error io") (simp_all add: run_locked_def Let_def nm RecordTaskRun_def run_error_def)
  moreover have st: "db_state db' = releaseTaskLock (ex_release_ok io) (s_nodeID s) n
      (persistTaskState (s_hasDB s) (ex_persist_ok io)
        (applyRetryPolicy (ex_end io) (run_error io) (task\<lparr>t_lastRun := Some (ex_end io)\<rparr>)) (ex_end io) (run_error io) tbl)"
    using run by (simp add: run_locked_def Let_def nm run_error_def)
  moreover have "db_state db' m = db_state db m" if "m \<noteq> n" for m
    using that by (simp add: st releaseTaskLock_def persistTaskState_def n2 other)
  moreover have "case tbl n of
       None \<Rightarrow> db_state db' n = None
     | Some row \<Rightarrow> \<exists>r. db_state db' n = Some r \<and>
         (if s_hasDB s \<and> ex_persist_ok io
          then sr_run_count r = sr_run_count row + 1 \<and>
            sr_fail_count r = sr_fail_count row + (if run_error io = None then 0 else 1) \<and>
            sr_last_status r = Some (if run_error io = None then ''success'' else ''failed'')
          else sr_run_count r = sr_run_count row \<and> sr_fail_count r = sr_fail_count row \<and> sr_last_status r = sr_last_status row) \<and>
         (isGlobalTask n \<longrightarrow> sr_locked_by r = (if ex_release_ok io then None else Some (s_nodeID s)))"
    using lb
    by (cases "tbl n"; cases "run_error io")
      (auto simp: st releaseTaskLock_def persistTaskState_def n2 update_where_same update_where_def)
  ultimately show ?thesis by simp
qed

definition demo_db :: server_db where
  "demo_db = \<lparr>db_state = Map.empty, db_history = \<lparr>ht_next = 1, ht_rows = []\<rparr>, db_audit = [], db_config = Map.empty\<rparr>"

definition demo_io :: "outcome \<Rightarrow> exec_io" where
  "demo_io oc = \<lparr>ex_lock = io_ok, ex_lock_now = 0, ex_outcome = oc, ex_start = 0, ex_end = 3 * second_ns,
     ex_audit_query_ok = True, ex_audit_insert_ok = True, ex_ulid = ''u'', ex_audit_now = 3 * second_ns,
     ex_persist_ok = True, ex_record_ok = True, ex_release_ok = True\<rparr>"

definition demo_backup :: Scheduler where
  "demo_backup = (NewScheduler (Some ''node-a'') True)\<lparr>s_tasks := [(''backup-daily'', demo_task ''backup-daily'' 5)]\<rparr>"

lemma demo_backup_wf: "wf_sched demo_backup"
  by (auto simp: wf_sched_def demo_backup_def NewScheduler_def demo_task_def defaultCatchUpWindow_def
      unit_defs wf_task_def sound_schedule_def)

theorem executeTask_complete_witness:
  "\<exists>h r. ht_rows (db_history (snd (executeTask (demo_io (Panics ''nil map'')) ''backup-daily'' (demo_backup, demo_db)))) = [h] \<and>
     hr_status h = ''error'' \<and>
     db_state (snd (executeTask (demo_io (Panics ''nil map'')) ''backup-daily'' (demo_backup, demo_db))) ''backup-daily'' = Some r \<and>
     sr_locked_by r = None \<and> sr_fail_count r = 1"
proof -
  let ?io = "demo_io (Panics ''nil map'')" and ?n = "''backup-daily''"
  let ?row = "(new_state_row ?n ''@every 1m'')\<lparr>sr_locked_by := Some ''node-a'', sr_locked_at := VStr (FormatSQLTimestamp 0)\<rparr>"
  have g: "isGlobalTask ?n" by (simp add: isGlobalTask_def globalTasks_def)
  obtain s' db' where e: "executeTask ?io ?n (demo_backup, demo_db) = (s', db')"
    by (cases "executeTask ?io ?n (demo_backup, demo_db)")
  have a: "acquireTaskLock (ex_lock ?io) (s_nodeID demo_backup) (ex_lock_now ?io) ?n
      (t_Schedule (demo_task ?n 5)) (db_state demo_db) = ([?n \<mapsto> ?row], True)"
    using g by (simp add: acquireTaskLock_def demo_io_def io_ok_def lock_read_def lock_decide_def
        lock_write_def demo_db_def demo_backup_def NewScheduler_def demo_task_def)
  have "map_of (s_tasks demo_backup) ?n = Some (demo_task ?n 5)" "t_enabled (demo_task ?n 5)" "s_hasDB demo_backup"
    by (simp_all add: demo_backup_def NewScheduler_def demo_task_def)
  moreover have "ex_persist_ok ?io" "ex_record_ok ?io" "ex_release_ok ?io" "run_error ?io \<noteq> None"
    by (simp_all add: demo_io_def run_error_def runTaskFn_def)
  ultimately show ?thesis
    using executeTask_complete [OF demo_backup_wf, of ?n "demo_task ?n 5" ?io demo_db "[?n \<mapsto> ?row]" s' db'] a e g
    by (auto simp: demo_db_def new_state_row_def)
qed

lemma retry_counter_step:
  "t_retryCount t \<le> 3 \<Longrightarrow>
     t_retryCount (applyRetryPolicy e (Some er) t) = (if t_retryCount t < 3 then t_retryCount t + 1 else 0)"
  by (simp add: applyRetryPolicy_def Let_def retryDelays_def)

lemma retry_counter_cycle:
  "t_retryCount t < 4 \<Longrightarrow>
     t_retryCount (foldl (\<lambda>t' e. applyRetryPolicy e (Some er) t') t ends) = (t_retryCount t + length ends) mod 4"
proof (induction ends arbitrary: t)
  case (Cons e ends)
  have c: "t_retryCount (applyRetryPolicy e (Some er) t) = Suc (t_retryCount t) mod 4"
    using Cons.prems retry_counter_step [of t e er] by (cases "t_retryCount t = 3") auto
  then have "t_retryCount (applyRetryPolicy e (Some er) t) < 4" by simp
  from Cons.IH [OF this] c show ?case by (simp add: mod_add_left_eq)
qed simp

text \<open>
  The retry policy of a task that keeps failing is bounded: after any sequence of consecutive
  failures starting from a fresh counter, the counter is the number of failures modulo four (three
  retries, then the normal schedule); and each single failure moves the next
  run, if at all, to the end of that run plus 5, 10 or 20 minutes, never later than the schedule's own.
\<close>

lemma applyRetryPolicy_bounded:
  assumes "t_retryCount t = 0"
  shows "t_retryCount (foldl (\<lambda>t' e. applyRetryPolicy e (Some er) t') t ends) = length ends mod 4 \<and>
    (\<forall>u e err. t_nextRun (applyRetryPolicy e err u) \<noteq> t_nextRun u \<longrightarrow>
       err \<noteq> None \<and> t_retryCount u < 3 \<and>
       t_nextRun (applyRetryPolicy e err u) = e + [5 * minute_ns, 10 * minute_ns, 20 * minute_ns] ! t_retryCount u \<and>
       (isZero (t_nextRun u) \<or> t_nextRun (applyRetryPolicy e err u) < t_nextRun u))"
  using assms retry_counter_cycle [of t er ends]
  by (auto simp: applyRetryPolicy_def Let_def retryDelays_def split: if_splits)

lemma applyRetryPolicy_bounded_example:
  "t_retryCount (foldl (\<lambda>t' e. applyRetryPolicy e (Some ''timeout'') t') (demo_task ''a'' 0) [1, 2, 3, 4, 5]) = 1"
  using applyRetryPolicy_bounded [of "demo_task ''a'' 0" "''timeout''" "[1, 2, 3, 4, 5]"]
  by (simp add: demo_task_def)

section \<open>Catch-up at start\<close>

lemma missed_occurrence_range:
  assumes "missed_occurrence z queryOk scanOk now window h t = Some due"
  shows "t_enabled t \<and> now - window < due \<and> due \<le> now \<and>
    (\<exists>r. GetLastTaskRun (queryOk (t_Name t)) scanOk (t_Name t) h = Some (Some r) \<and> run_StartTime r < due)"
  using assms sched.latest_in_window [of z "t_schedule t" now window due]
  by (auto simp: missed_occurrence_def split: if_splits option.splits)

lemma missed_runs_entry:
  assumes "wf_sched s" "(n, due) \<in> set (missed_runs z queryOk scanOk now s h)"
  shows "0 < s_catchUpWindow s \<and> (\<exists>t. map_of (s_tasks s) n = Some t \<and>
     missed_occurrence z queryOk scanOk now (s_catchUpWindow s) h t = Some due)"
  using assms(2) task_of_set [OF assms(1)]
  by (force simp: missed_runs_def map_filter_def split: if_splits)

lemma distinct_map_filter_fst:
  "distinct (map fst xs) \<Longrightarrow> distinct (map fst (List.map_filter (\<lambda>(n, t). map_option (Pair n) (f t)) xs))"
  by (induction xs) (auto simp: map_filter_def rev_image_eqI split: option.splits)

text \<open>
  The catch-up queue at start holds each task at most once and in the order of the original
  due times; every entry is an enabled task with an occurrence inside the catch-up window, not in the
  future, whose last recorded run started before that occurrence; with a zero window it is empty.
\<close>

lemma missed_runs_ordered:
  assumes "wf_sched s"
  shows "distinct (map fst (missed_runs z queryOk scanOk now s h)) \<and>
    sorted (map snd (missed_runs z queryOk scanOk now s h)) \<and>
    (\<forall>(n, due) \<in> set (missed_runs z queryOk scanOk now s h).
       now - s_catchUpWindow s < due \<and> due \<le> now \<and>
       (\<exists>t r. map_of (s_tasks s) n = Some t \<and> t_enabled t \<and>
          GetLastTaskRun (queryOk n) scanOk n h = Some (Some r) \<and> run_StartTime r < due)) \<and>
    (s_catchUpWindow s = 0 \<longrightarrow> missed_runs z queryOk scanOk now s h = [])"
proof (intro conjI)
  let ?f = "\<lambda>(n, t). map_option (Pair n) (missed_occurrence z queryOk scanOk now (s_catchUpWindow s) h t)"
  have "distinct (map fst (List.map_filter ?f (s_tasks s)))"
    using assms by (intro distinct_map_filter_fst) (simp add: wf_sched_def)
  then have "distinct (map fst (sort_key snd (List.map_filter ?f (s_tasks s))))"
    by (simp add: distinct_map)
  then show "distinct (map fst (missed_runs z queryOk scanOk now s h))" by (simp add: missed_runs_def)
  show "sorted (map snd (missed_runs z queryOk scanOk now s h))" by (simp add: missed_runs_def)
  show "\<forall>(n, due) \<in> set (missed_runs z queryOk scanOk now s h).
       now - s_catchUpWindow s < due \<and> due \<le> now \<and>
       (\<exists>t r. map_of (s_tasks s) n = Some t \<and> t_enabled t \<and>
          GetLastTaskRun (queryOk n) scanOk n h = Some (Some r) \<and> run_StartTime r < due)"
  proof clarify
    fix n due
    assume "(n, due) \<in> set (missed_runs z queryOk scanOk now s h)"
    from missed_runs_entry [OF assms this] obtain t where t: "map_of (s_tasks s) n = Some t"
        "missed_occurrence z queryOk scanOk now (s_catchUpWindow s) h t = Some due" by blast
    then have "t_Name t = n" using assms by (auto simp: wf_sched_def wf_task_def)
    with missed_occurrence_range [OF t(2)] t(1)
    show "now - s_catchUpWindow s < due \<and> due \<le> now \<and>
       (\<exists>t r. map_of (s_tasks s) n = Some t \<and> t_enabled t \<and>
          GetLastTaskRun (queryOk n) scanOk n h = Some (Some r) \<and> run_StartTime r < due)" by auto
  qed
  show "s_catchUpWindow s = 0 \<longrightarrow> missed_runs z queryOk scanOk now s h = []" by (simp add: missed_runs_def)
qed

definition demo_history :: history_table where
  "demo_history = \<lparr>ht_next = 2, ht_rows = [\<lparr>hr_id = 1, hr_task = ''a'', hr_start = VStr ''1970-01-01 00:00:00'',
     hr_end = VStr ''1970-01-01 00:00:01'', hr_duration = 1000, hr_status = ''success'', hr_error = None\<rparr>]\<rparr>"

lemma missed_runs_ordered_example:
  "missed_runs (\<lambda>t. 0) (\<lambda>n. True) (\<lambda>r. True) (2 * hour_ns) demo_sched demo_history = [(''a'', 2 * hour_ns)] \<and>
   sorted (map snd (missed_runs (\<lambda>t. 0) (\<lambda>n. True) (\<lambda>r. True) (2 * hour_ns) demo_sched demo_history))"
proof (rule conjI)
  show "missed_runs (\<lambda>t. 0) (\<lambda>n. True) (\<lambda>r. True) (2 * hour_ns) demo_sched demo_history = [(''a'', 2 * hour_ns)]"
    by code_simp
  show "sorted (map snd (missed_runs (\<lambda>t. 0) (\<lambda>n. True) (\<lambda>r. True) (2 * hour_ns) demo_sched demo_history))"
    using missed_runs_ordered [OF demo_sched_wf] by blast
qed

section \<open>The invariant over every history of operations\<close>

text \<open>
  One step of the scheduler, with the inputs of the operation and the outcomes of its statements
  chosen freely.
\<close>

inductive sched_step :: "frac_ns \<Rightarrow> location \<Rightarrow> Scheduler \<times> server_db \<Rightarrow> Scheduler \<times> server_db \<Rightarrow> bool"
  for fr :: frac_ns and z :: location where
  window: "sched_step fr z (s, db) (SetCatchUpWindow w s, db)"
| add: "AddTask fr z io n sch w = Some (r, w') \<Longrightarrow> sched_step fr z w w'"
| add_interval: "AddTaskInterval fr z io n d w = Some (r, w') \<Longrightarrow> sched_step fr z w w'"
| tick: "sched_step fr z (s, db) (snd (runDueTasks z now s), db)"
| execute: "sched_step fr z w (executeTask io n w)"
| start: "sched_step fr z w (StartScheduler z queryOk scanOk now io' w)"
| stop: "sched_step fr z w (StopScheduler drained markOk releaseOk w)"
| enable: "EnableTask n s = Some s' \<Longrightarrow> sched_step fr z (s, db) (s', db)"
| disable: "DisableTask n s = Some s' \<Longrightarrow> sched_step fr z (s, db) (s', db)"
| trigger: "TriggerTask io n w = Some w' \<Longrightarrow> sched_step fr z w w'"

lemma executeTask_wf_pair: "wf_sched (fst w) \<Longrightarrow> wf_sched (fst (executeTask io n w))"
  using executeTask_wf [of "fst w" io n "snd w"] by simp

lemma StartScheduler_wf:
  assumes "wf_sched (fst w)"
  shows "wf_sched (fst (StartScheduler z queryOk scanOk now io w))"
proof -
  have run: "wf_sched (fst (foldl (\<lambda>w' (n, due). executeTask (io n) n w') v xs))"
    if "wf_sched (fst v)" for v and xs :: "(string \<times> instant) list"
    using that by (induction xs arbitrary: v) (auto simp: executeTask_wf_pair split_beta)
  have "wf_sched ((fst w)\<lparr>s_running := True\<rparr>)" using assms by (simp add: wf_sched_def)
  with run assms show ?thesis
    by (cases w) (simp add: StartScheduler_def runMissedTasks_def)
qed

lemma StopScheduler_wf: "wf_sched (fst w) \<Longrightarrow> wf_sched (fst (StopScheduler d m r w))"
  by (cases w) (simp add: StopScheduler_def Let_def wf_sched_def)

lemma set_enabled_wf:
  assumes "wf_sched s" "set_enabled b n s = Some s'"
  shows "wf_sched s'"
proof -
  obtain t where t: "map_of (s_tasks s) n = Some t" "s' = set_task n (t\<lparr>t_enabled := b\<rparr>) s"
    using assms(2) by (auto simp: set_enabled_def split: option.splits)
  moreover have "wf_task n (t\<lparr>t_enabled := b\<rparr>)" using assms(1) t(1) by (simp add: wf_sched_def wf_task_def)
  ultimately show ?thesis using assms(1) by (simp add: set_task_wf)
qed

lemma sched_step_wf: "sched_step fr z w w' \<Longrightarrow> wf_sched (fst w) \<Longrightarrow> wf_sched (fst w')"
proof (induction rule: sched_step.induct)
  case (window s db w)
  then show ?case by (simp add: wf_sched_def SetCatchUpWindow_def)
next
  case (trigger io n w w')
  then show ?case by (auto simp: TriggerTask_def executeTask_wf_pair split: option.splits)
qed (auto simp: AddTask_wf AddTaskInterval_def runDueTasks_wf executeTask_wf_pair StartScheduler_wf
      StopScheduler_wf EnableTask_def DisableTask_def set_enabled_wf)

text \<open>
  C2. Whatever operations are run in whatever order on a new scheduler, with any outcome of every
  task function and database statement, the task table stays well formed: one entry per name, each
  under its own name, with a schedule that advances and at most three pending retries; the set of
  active tasks has no duplicates and the catch-up window is never negative.
\<close>

theorem scheduler_invariant:
  assumes "(sched_step fr z)\<^sup>*\<^sup>* (NewScheduler host hasDB, db) (s, db')"
  shows "wf_sched s"
proof -
  have "wf_sched (fst (NewScheduler host hasDB, db))"
    by (simp add: wf_sched_def NewScheduler_def defaultCatchUpWindow_def unit_defs)
  moreover have "wf_sched (fst w) \<Longrightarrow> wf_sched (fst w')" if "(sched_step fr z)\<^sup>*\<^sup>* w w'" for w w'
    using that by (induction rule: rtranclp_induct) (auto intro: sched_step_wf)
  ultimately show ?thesis using assms by force
qed

theorem scheduler_invariant_witness:
  "wf_sched (SetCatchUpWindow (-5) (NewScheduler None True))"
  by (rule scheduler_invariant [where fr = "\<lambda>a b c. 0" and z = "\<lambda>t. 0" and host = None and hasDB = True
        and db = demo_db and db' = demo_db])
     (rule r_into_rtranclp, rule sched_step.window)

section \<open>Shutdown and administration\<close>

lemma mark_interrupted_rows:
  "mark_interrupted writeOk ns tbl k = None \<longleftrightarrow> tbl k = None"
  "held_by (mark_interrupted writeOk ns tbl) k = held_by tbl k"
  by (induction ns arbitrary: tbl) (auto simp: update_where_def held_by_def split: option.splits)

lemma mark_interrupted_last_status:
  "map_option sr_last_status (mark_interrupted writeOk ns tbl k) =
     (if k \<in> set ns \<and> writeOk k then map_option (\<lambda>r. Some ''interrupted'') (tbl k)
      else map_option sr_last_status (tbl k))"
proof (induction ns arbitrary: tbl)
  case (Cons n ns)
  show ?case
    by (cases "n = k"; cases "writeOk n"; cases "tbl k") (simp_all add: Cons.IH update_where_same)
qed simp

lemma mark_interrupted_status:
  assumes "k \<in> set ns" "writeOk k" "mark_interrupted writeOk ns tbl k = Some r"
  shows "sr_last_status r = Some ''interrupted''"
  using mark_interrupted_last_status [of writeOk ns tbl k] assms by (cases "tbl k") auto

lemma releaseNodeLocks_status:
  "releaseNodeLocks hasDB ok me tbl k = Some r \<Longrightarrow> \<exists>q. tbl k = Some q \<and> sr_last_status r = sr_last_status q"
  by (auto simp: releaseNodeLocks_def update_all_def split: if_splits)

text \<open>
  Shutdown leaves no lock behind: when the release statement succeeds, no task is held by this
  node afterwards and every lock of another node is untouched, whether or not the running tasks
  drained in time; if they did not, every task that was still active is marked interrupted.
\<close>

lemma StopScheduler_releases:
  assumes "s_running s" "s_hasDB s" "StopScheduler drained markOk True (s, db) = (s', db')"
  shows "\<not> s_running s' \<and>
    (\<forall>k. held_by (db_state db') k = (if held_by (db_state db) k = Some (s_nodeID s) then None else held_by (db_state db) k)) \<and>
    (\<not> drained \<longrightarrow> (\<forall>k\<in>set (s_active s). \<forall>r. markOk k \<longrightarrow> db_state db' k = Some r \<longrightarrow>
        sr_last_status r = Some ''interrupted''))"
proof -
  define tbl where "tbl = (if drained then db_state db
      else markTasksInterrupted (s_hasDB s) markOk (activeTaskNames s) (db_state db))"
  have s': "s' = s\<lparr>s_running := False\<rparr>" and d: "db_state db' = releaseNodeLocks True True (s_nodeID s) tbl"
    using assms by (auto simp: StopScheduler_def Let_def tbl_def)
  have h: "held_by tbl k = held_by (db_state db) k" for k
    by (simp add: tbl_def markTasksInterrupted_def mark_interrupted_rows)
  have "sr_last_status r = Some ''interrupted''"
    if act: "\<not> drained" "k \<in> set (s_active s)" "markOk k" "db_state db' k = Some r" for k r
  proof -
    obtain q where q: "tbl k = Some q" "sr_last_status r = sr_last_status q"
      using releaseNodeLocks_status act(4) unfolding d by blast
    have "k \<in> set (activeTaskNames s)" using act(2) by (simp add: activeTaskNames_def)
    moreover from this have "tbl = mark_interrupted markOk (activeTaskNames s) (db_state db)"
      using act(1) assms(2) by (auto simp: tbl_def markTasksInterrupted_def)
    ultimately show ?thesis using mark_interrupted_status act(3) q by metis
  qed
  then show ?thesis by (simp add: s' d releaseNodeLocks_held h)
qed

lemma StopScheduler_releases_example:
  "held_by (db_state (snd (StopScheduler False (\<lambda>n. True) True
     (demo_backup\<lparr>s_running := True, s_active := [''backup-daily'']\<rparr>,
      demo_db\<lparr>db_state := [''backup-daily'' \<mapsto> held_row ''node-a'' VNil]\<rparr>)))) ''backup-daily'' = None"
proof -
  let ?s = "demo_backup\<lparr>s_running := True, s_active := [''backup-daily'']\<rparr>"
  let ?db = "demo_db\<lparr>db_state := [''backup-daily'' \<mapsto> held_row ''node-a'' VNil]\<rparr>"
  obtain s' db' where e: "StopScheduler False (\<lambda>n. True) True (?s, ?db) = (s', db')"
    by (cases "StopScheduler False (\<lambda>n. True) True (?s, ?db)")
  have "s_running ?s" "s_hasDB ?s" "s_nodeID ?s = ''node-a''" by (simp_all add: demo_backup_def NewScheduler_def)
  moreover have "held_by (db_state ?db) ''backup-daily'' = Some ''node-a''" by (simp add: held_by_def held_row_def)
  ultimately show ?thesis using StopScheduler_releases [of ?s False "\<lambda>n. True" ?db s' db'] e by simp
qed

lemma set_enabled_map:
  "set_enabled b n s = Some s' \<Longrightarrow>
     \<exists>t. map_of (s_tasks s) n = Some t \<and> map_of (s_tasks s') = (map_of (s_tasks s))(n \<mapsto> t\<lparr>t_enabled := b\<rparr>)"
  by (auto simp: set_enabled_def set_task_def update_conv' split: option.splits)

text \<open>
  A disabled task does not run: after \<open>DisableTask\<close> no tick dispatches it, the catch-up queue
  does not hold it and an execution, also one asked for by \<open>TriggerTask\<close>, changes nothing; enabling it
  again gives back the task as it was.
\<close>

lemma DisableTask_stops:
  assumes "wf_sched s" "DisableTask n s = Some s'"
  shows "n \<notin> set (fst (runDueTasks z now s')) \<and>
    (\<forall>due. (n, due) \<notin> set (missed_runs z queryOk scanOk now s' h)) \<and>
    executeTask io n (s', db) = (s', db) \<and> TriggerTask io n (s', db) = Some (s', db) \<and>
    (\<exists>s'' t. EnableTask n s' = Some s'' \<and> map_of (s_tasks s) n = Some t \<and>
       map_of (s_tasks s'') n = Some (t\<lparr>t_enabled := True\<rparr>))"
proof -
  obtain t where t: "map_of (s_tasks s) n = Some t" "map_of (s_tasks s') n = Some (t\<lparr>t_enabled := False\<rparr>)"
    using set_enabled_map [of False n s s'] assms(2) by (auto simp: DisableTask_def)
  have wf: "wf_sched s'" using assms set_enabled_wf by (simp add: DisableTask_def)
  have "n \<notin> set (fst (runDueTasks z now s'))" using t(2) by (simp add: runDueTasks_due [OF wf])
  moreover have "(n, due) \<notin> set (missed_runs z queryOk scanOk now s' h)" for due
    using missed_runs_entry [OF wf] t(2) by (force simp: missed_occurrence_def)
  moreover have "executeTask io n (s', db) = (s', db)" using t(2) by (simp add: executeTask_def)
  moreover have "\<exists>s''. EnableTask n s' = Some s'' \<and> map_of (s_tasks s'') n = Some (t\<lparr>t_enabled := True\<rparr>)"
    using t(2) by (simp add: EnableTask_def set_enabled_def set_task_def update_conv')
  ultimately show ?thesis using t by (simp add: TriggerTask_def)
qed

lemma DisableTask_stops_example:
  "\<exists>s'. DisableTask ''a'' demo_sched = Some s' \<and> ''a'' \<notin> set (fst (runDueTasks (\<lambda>t. 0) 7 s'))"
proof -
  obtain s' where "DisableTask ''a'' demo_sched = Some s'"
    by (simp add: DisableTask_def set_enabled_def demo_sched_def demo_task_def)
  with DisableTask_stops [OF demo_sched_wf this] show ?thesis by blast
qed

text \<open>
  \<open>AddTaskInterval\<close> registers the interval it was given: for every positive number of whole
  seconds that a \<^verbatim>\<open>time.Duration\<close> holds, the text it builds parses back to that interval, the task is
  stored enabled with a fresh retry counter under its name and no other task changes, and its first
  run is one interval from now.
\<close>

lemma AddTaskInterval_registers:
  assumes "0 < n" "int n * second_ns < 2 ^ 63"
  shows "\<exists>s' db' t. AddTaskInterval fr z io name (int n * second_ns) (s, db) = Some (Inr (), s', db') \<and>
    map_of (s_tasks s') = (map_of (s_tasks s))(name \<mapsto> t) \<and> t_Name t = name \<and> t_enabled t \<and>
    t_retryCount t = 0 \<and> t_nextRun t = ad_now io + int n * second_ns \<and>
    (\<forall>t0. schedule_next z (t_schedule t) t0 = t0 + int n * second_ns)"
  using parseSchedule_every_whole [OF assms, of fr]
  by (auto simp: AddTaskInterval_def AddTask_def Let_def update_conv' schedule_next_def every_next_def)

lemma AddTaskInterval_registers_example:
  "\<exists>s' db' t. AddTaskInterval (\<lambda>a b c. 0) (\<lambda>t. 0) \<lparr>ad_insert_ok = True, ad_update_ok = True, ad_now = 7\<rparr>
      ''geoip-check'' (int 5400 * second_ns) (demo_sched, demo_db) = Some (Inr (), s', db') \<and>
    map_of (s_tasks s') ''geoip-check'' = Some t \<and> t_nextRun t = 7 + int 5400 * second_ns"
  using AddTaskInterval_registers [of 5400 "\<lambda>a b c. 0" "\<lambda>t. 0"
      "\<lparr>ad_insert_ok = True, ad_update_ok = True, ad_now = 7\<rparr>" "''geoip-check''" demo_sched demo_db]
  by (auto simp: second_ns_def)

end
