(* ===== verification/Retention.thy ===== *)
theory Retention
  imports Complex_Main Dbtime "HOL-Library.Multiset"
begin

text \<open>
  The tiered backup retention of \<^verbatim>\<open>src/backup/retention.go\<close> and the disk-space guard and retention
  settings of \<^verbatim>\<open>src/scheduler/scheduler.go\<close>. The backup directory is the list of its entries; a
  backup is identified by its file name, since its path is the directory joined with the name.
  \<^verbatim>\<open>sort.Slice\<close> is not stable: the sort is an argument, of which only the documented contract is used.
  The \<^verbatim>\<open>float64\<close> operations are collected in a record.
\<close>

section \<open>Settings\<close>

record RetentionConfig =
  MaxBackups :: int
  KeepWeekly :: int
  KeepMonthly :: int
  KeepYearly :: int
  MaxTotalSize :: string

definition DefaultRetention :: RetentionConfig where
  "DefaultRetention = \<lparr>MaxBackups = 1, KeepWeekly = 0, KeepMonthly = 0, KeepYearly = 0, MaxTotalSize = ''10%''\<rparr>"

definition retentionFalseyValues :: "string list" where
  "retentionFalseyValues = [''0'', ''false'', ''no'', ''none'', ''disable'', ''disabled'', ''off'']"

definition isFalseyRetentionValue :: "string \<Rightarrow> bool" where
  "isFalseyRetentionValue s \<longleftrightarrow> toLower (trimSpace s) \<in> set retentionFalseyValues"

datatype retention_warning =
    InvalidSetting string int int
  | ExceedsRecommended string int int

definition check_setting :: "string \<Rightarrow> int \<Rightarrow> int \<Rightarrow> int \<Rightarrow> int \<times> retention_warning list" where
  "check_setting key lowest recommended v =
     (if v < lowest then (lowest, [InvalidSetting key v lowest])
      else if v > recommended then (v, [ExceedsRecommended key v recommended])
      else (v, []))"

definition Normalize :: "RetentionConfig \<Rightarrow> RetentionConfig \<times> retention_warning list" where
  "Normalize r =
     (let (mb, w1) = check_setting ''max_backups'' 1 7 (MaxBackups r);
          (kw, w2) = check_setting ''keep_weekly'' 0 8 (KeepWeekly r);
          (km, w3) = check_setting ''keep_monthly'' 0 12 (KeepMonthly r);
          (ky, w4) = check_setting ''keep_yearly'' 0 2 (KeepYearly r);
          sz = (if trimSpace (MaxTotalSize r) = [] then ''10%'' else MaxTotalSize r)
      in (\<lparr>MaxBackups = mb, KeepWeekly = kw, KeepMonthly = km, KeepYearly = ky, MaxTotalSize = sz\<rparr>,
          w1 @ w2 @ w3 @ w4))"

section \<open>The size cap\<close>

record 'f float64 =
  fl_parse :: "string \<Rightarrow> 'f option"
  fl_of_int :: "int \<Rightarrow> 'f"
  fl_mul :: "'f \<Rightarrow> 'f \<Rightarrow> 'f"
  fl_div :: "'f \<Rightarrow> 'f \<Rightarrow> 'f"
  fl_less :: "'f \<Rightarrow> 'f \<Rightarrow> bool"
  fl_leq :: "'f \<Rightarrow> 'f \<Rightarrow> bool"
  fl_to_int64 :: "'f \<Rightarrow> int"

definition re_space :: "char \<Rightarrow> bool" where
  "re_space c \<longleftrightarrow> of_char c \<in> {9, 10, 12, 13, 32 :: nat}"

definition size_units :: "string list" where
  "size_units = [''tb'', ''gb'', ''mb'', ''kb'', ''b'', ''t'', ''g'', ''m'', ''k'', '''']"

text \<open>The number and the unit of \<^verbatim>\<open>sizeSpecPattern\<close>; \<open>None\<close> when the text does not match.\<close>

definition size_spec :: "string \<Rightarrow> (string \<times> string) option" where
  "size_spec s =
     (let ds = takeWhile is_digit s; r = dropWhile is_digit s;
          fr = (if r \<noteq> [] \<and> hd r = CHR ''.'' then takeWhile is_digit (tl r) else []);
          num = (if fr = [] then ds else ds @ CHR ''.'' # fr);
          u = dropWhile re_space (if fr = [] then r else drop (length fr + 1) r)
      in if ds = [] \<or> toLower u \<notin> set size_units then None else Some (num, u))"

definition upper_ascii :: "char \<Rightarrow> char" where
  "upper_ascii c = (let n = of_char c :: nat in if 97 \<le> n \<and> n \<le> 122 then char_of (n - 32) else c)"

definition size_multiplier :: "string \<Rightarrow> int" where
  "size_multiplier u =
     (let v = map upper_ascii u
      in if v = ''K'' \<or> v = ''KB'' then 2 ^ 10
         else if v = ''M'' \<or> v = ''MB'' then 2 ^ 20
         else if v = ''G'' \<or> v = ''GB'' then 2 ^ 30
         else if v = ''T'' \<or> v = ''TB'' then 2 ^ 40
         else 1)"

datatype size_error = InvalidPercent string | InvalidSize string

definition ParseMaxTotalSizeBytes :: "'f float64 \<Rightarrow> string \<Rightarrow> int \<Rightarrow> size_error + int" where
  "ParseMaxTotalSizeBytes fl spec volumeTotalBytes =
     (let trimmed = trimSpace spec
      in if trimmed = [] \<or> isFalseyRetentionValue trimmed then Inr 0
         else if last trimmed = CHR ''%'' then
           (case fl_parse fl (trimSpace (butlast trimmed)) of
              None \<Rightarrow> Inl (InvalidPercent spec)
            | Some pct \<Rightarrow>
                if fl_leq fl pct (fl_of_int fl 0) then Inl (InvalidPercent spec)
                else if volumeTotalBytes \<le> 0 then Inr 0
                else Inr (fl_to_int64 fl (fl_div fl (fl_mul fl (fl_of_int fl volumeTotalBytes) pct) (fl_of_int fl 100))))
         else
           (case size_spec trimmed of
              None \<Rightarrow> Inl (InvalidSize spec)
            | Some (num, u) \<Rightarrow>
                (case fl_parse fl num of
                   None \<Rightarrow> Inl (InvalidSize spec)
                 | Some value \<Rightarrow>
                     if fl_less fl value (fl_of_int fl 0) then Inl (InvalidSize spec)
                     else Inr (fl_to_int64 fl (fl_mul fl value (fl_of_int fl (size_multiplier u)))))))"

section \<open>The directory\<close>

record dir_entry =
  de_name :: string
  de_size :: int
  de_mtime :: instant
  de_stat_ok :: bool

record retainedBackup =
  rb_name :: string
  rb_date :: instant
  rb_size :: int

definition digits_n :: "nat \<Rightarrow> string \<Rightarrow> bool" where
  "digits_n n s \<longleftrightarrow> length s = n \<and> list_all is_digit s"

definition archive_suffix :: "string \<Rightarrow> bool" where
  "archive_suffix s \<longleftrightarrow> s = ''.tar.gz'' \<or> s = ''.tar.gz.enc''"

text \<open>\<^verbatim>\<open>backupNamePattern\<close>: the date text of a dated backup.\<close>

definition backupNamePattern :: "string \<Rightarrow> string option" where
  "backupNamePattern name =
     (let pre = ''wthr_backup_''; rest = drop (length pre) name; d = take 10 rest; r = drop 10 rest
      in if prefix pre name \<and> length d = 10 \<and> digits_n 4 (take 4 d) \<and> d ! 4 = CHR ''-'' \<and>
            digits_n 2 (take 2 (drop 5 d)) \<and> d ! 7 = CHR ''-'' \<and> digits_n 2 (drop 8 d) \<and>
            (archive_suffix r \<or>
             r \<noteq> [] \<and> hd r = CHR ''_'' \<and> digits_n 6 (take 6 (tl r)) \<and> archive_suffix (drop 7 r))
         then Some d else None)"

definition incrementalNamePattern :: "string \<Rightarrow> bool" where
  "incrementalNamePattern name \<longleftrightarrow>
     prefix ''wthr-daily'' name \<and> archive_suffix (drop (length ''wthr-daily'') name) \<or>
     prefix ''wthr-hourly'' name \<and> archive_suffix (drop (length ''wthr-hourly'') name)"

type_synonym sorter = "retainedBackup list \<Rightarrow> retainedBackup list"

text \<open>A dated backup that cannot be inspected counts with size 0.\<close>

definition dated_backup :: "dir_entry \<Rightarrow> retainedBackup option" where
  "dated_backup e =
     (case backupNamePattern (de_name e) of
        None \<Rightarrow> None
      | Some d \<Rightarrow>
          (case time_parse date_chunks d of
             None \<Rightarrow> None
           | Some t \<Rightarrow> Some \<lparr>rb_name = de_name e, rb_date = t, rb_size = (if de_stat_ok e then de_size e else 0)\<rparr>))"

definition listRetainedBackups :: "sorter \<Rightarrow> dir_entry list \<Rightarrow> retainedBackup list" where
  "listRetainedBackups srt dir = srt (List.map_filter dated_backup dir)"

definition incremental_backup :: "dir_entry \<Rightarrow> retainedBackup option" where
  "incremental_backup e =
     (if incrementalNamePattern (de_name e) \<and> de_stat_ok e
      then Some \<lparr>rb_name = de_name e, rb_date = de_mtime e, rb_size = de_size e\<rparr> else None)"

definition listIncrementalBackups :: "sorter \<Rightarrow> dir_entry list \<Rightarrow> retainedBackup list" where
  "listIncrementalBackups srt dir = srt (List.map_filter incremental_backup dir)"

definition keepNewest :: "retainedBackup list \<Rightarrow> int \<Rightarrow> string set \<Rightarrow> string set" where
  "keepNewest list n kept =
     (if n \<le> 0 then kept
      else let start = (if int (length list) - n < 0 then 0 else int (length list) - n)
           in kept \<union> rb_name ` set (drop (nat start) list))"

definition ListDatedBackups :: "sorter \<Rightarrow> dir_entry list \<Rightarrow> retainedBackup list" where
  "ListDatedBackups srt dir = listRetainedBackups srt dir"

definition CountBackups :: "sorter \<Rightarrow> dir_entry list \<Rightarrow> nat" where
  "CountBackups srt dir = length (listRetainedBackups srt dir)"

section \<open>The sweep\<close>

definition is_yearly :: "retainedBackup \<Rightarrow> bool" where
  "is_yearly b \<longleftrightarrow> month utc (rb_date b) = 1 \<and> day utc (rb_date b) = 1"

definition is_monthly :: "retainedBackup \<Rightarrow> bool" where
  "is_monthly b \<longleftrightarrow> day utc (rb_date b) = 1"

definition is_weekly :: "retainedBackup \<Rightarrow> bool" where
  "is_weekly b \<longleftrightarrow> weekday utc (rb_date b) = 0"

definition kept_names :: "RetentionConfig \<Rightarrow> retainedBackup list \<Rightarrow> string set" where
  "kept_names cfg backups =
     keepNewest backups (MaxBackups cfg)
       (keepNewest (filter is_weekly backups) (KeepWeekly cfg)
         (keepNewest (filter is_monthly backups) (KeepMonthly cfg)
           (keepNewest (filter is_yearly backups) (KeepYearly cfg) {})))"

definition remove_entry :: "string \<Rightarrow> dir_entry list \<Rightarrow> dir_entry list" where
  "remove_entry name dir = filter (\<lambda>e. de_name e \<noteq> name) dir"

record sweep =
  sw_dir :: "dir_entry list"
  sw_deleted :: "string list"
  sw_error :: "string option"

text \<open>The count-based pass: the sweep so far and the survivors; a failed removal ends it.\<close>

fun prune_pass ::
  "(string \<Rightarrow> bool) \<Rightarrow> string set \<Rightarrow> retainedBackup list \<Rightarrow> sweep \<Rightarrow> sweep \<times> retainedBackup list" where
  "prune_pass removeOk kept [] w = (w, [])"
| "prune_pass removeOk kept (b # bs) w =
     (if rb_name b \<in> kept then
        (let (w', rem) = prune_pass removeOk kept bs w in (w', b # rem))
      else if \<not> removeOk (rb_name b) then (w\<lparr>sw_error := Some (rb_name b)\<rparr>, [])
      else prune_pass removeOk kept bs
             (w\<lparr>sw_dir := remove_entry (rb_name b) (sw_dir w), sw_deleted := sw_deleted w @ [rb_name b]\<rparr>))"

text \<open>The size pass, oldest first, on a 64-bit total.\<close>

fun cap_pass :: "(string \<Rightarrow> bool) \<Rightarrow> int \<Rightarrow> int \<Rightarrow> retainedBackup list \<Rightarrow> sweep \<Rightarrow> sweep" where
  "cap_pass removeOk capBytes tot [] w = w"
| "cap_pass removeOk capBytes tot (b # bs) w =
     (if \<not> tot > capBytes then w
      else if \<not> removeOk (rb_name b) then w\<lparr>sw_error := Some (rb_name b)\<rparr>
      else cap_pass removeOk capBytes (wrap64 (tot - rb_size b)) bs
             (w\<lparr>sw_dir := remove_entry (rb_name b) (sw_dir w), sw_deleted := sw_deleted w @ [rb_name b]\<rparr>))"

definition total_size :: "retainedBackup list \<Rightarrow> int" where
  "total_size bs = foldl (\<lambda>t b. wrap64 (t + rb_size b)) 0 bs"

definition applyRetention ::
  "'f float64 \<Rightarrow> sorter \<Rightarrow> (string \<Rightarrow> bool) \<Rightarrow> RetentionConfig \<Rightarrow> int \<Rightarrow> dir_entry list \<Rightarrow> sweep" where
  "applyRetention fl srt removeOk retention volumeTotalBytes dir =
     (let cfg = fst (Normalize retention);
          backups = listRetainedBackups srt dir;
          (w, remaining) = prune_pass removeOk (kept_names cfg backups) backups
                             \<lparr>sw_dir = dir, sw_deleted = [], sw_error = None\<rparr>
      in if sw_error w \<noteq> None then w
         else let all = srt (remaining @ listIncrementalBackups srt (sw_dir w))
              in case ParseMaxTotalSizeBytes fl (MaxTotalSize cfg) volumeTotalBytes of
                   Inl e \<Rightarrow> w
                 | Inr capBytes \<Rightarrow>
                     if capBytes > 0 then cap_pass removeOk capBytes (total_size all) all w else w)"

section \<open>The scheduled backup's guard and settings\<close>

datatype guard_reason = UsageAboveThreshold | FreeBelowTwiceLastBackup int int

definition diskSpaceGuardDecision :: "'f float64 \<Rightarrow> int \<Rightarrow> int \<Rightarrow> int \<Rightarrow> bool \<Rightarrow> guard_reason option" where
  "diskSpaceGuardDecision fl free tot mostRecentBackupSize hasPriorBackup =
     (let usedPercent = fl_mul fl (fl_div fl (fl_of_int fl (wrap64 (tot - free))) (fl_of_int fl tot)) (fl_of_int fl 100)
      in if fl_less fl (fl_of_int fl 90) usedPercent then Some UsageAboveThreshold
         else if \<not> hasPriorBackup then None
         else if free < wrap64 (2 * mostRecentBackupSize)
         then Some (FreeBelowTwiceLastBackup free mostRecentBackupSize)
         else None)"

text \<open>\<open>None\<close> for a volume size is an error of the system call.\<close>

definition backupDiskSpaceExceeded ::
  "'f float64 \<Rightarrow> sorter \<Rightarrow> int option \<Rightarrow> int option \<Rightarrow> dir_entry list \<Rightarrow> guard_reason option" where
  "backupDiskSpaceExceeded fl srt free tot dir =
     (case (free, tot) of
        (Some f, Some t) \<Rightarrow>
          if t \<le> 0 then None
          else let backups = ListDatedBackups srt dir
               in diskSpaceGuardDecision fl f t (if backups = [] then 0 else rb_size (last backups)) (backups \<noteq> [])
      | _ \<Rightarrow> None)"

definition int_setting :: "(string \<rightharpoonup> string) \<Rightarrow> string \<Rightarrow> int \<Rightarrow> int" where
  "int_setting get key dflt =
     (case get key of None \<Rightarrow> dflt | Some v \<Rightarrow> (case atoi v of None \<Rightarrow> dflt | Some n \<Rightarrow> n))"

definition systemBackupRetention :: "(string \<rightharpoonup> string) option \<Rightarrow> RetentionConfig" where
  "systemBackupRetention serverDB =
     (case serverDB of
        None \<Rightarrow> DefaultRetention
      | Some get \<Rightarrow>
          \<lparr>MaxBackups = int_setting get ''backup.retention.max_backups'' (MaxBackups DefaultRetention),
           KeepWeekly = int_setting get ''backup.retention.keep_weekly'' (KeepWeekly DefaultRetention),
           KeepMonthly = int_setting get ''backup.retention.keep_monthly'' (KeepMonthly DefaultRetention),
           KeepYearly = int_setting get ''backup.retention.keep_yearly'' (KeepYearly DefaultRetention),
           MaxTotalSize = (case get ''backup.retention.max_total_size'' of
               None \<Rightarrow> MaxTotalSize DefaultRetention
             | Some v \<Rightarrow> if v = [] then MaxTotalSize DefaultRetention else v)\<rparr>)"

section \<open>What the sweep removes\<close>

lemma names_kept:
  "dated_backup e = Some b \<Longrightarrow> rb_name b = de_name e"
  "incremental_backup e = Some b \<Longrightarrow> rb_name b = de_name e"
  by (auto simp: dated_backup_def incremental_backup_def split: option.splits if_splits)

lemma remove_entry_filter:
  "remove_entry n (filter (\<lambda>e. de_name e \<notin> N) dir) = filter (\<lambda>e. de_name e \<notin> insert n N) dir"
  by (auto simp: remove_entry_def intro: filter_cong)

definition swept :: "dir_entry list \<Rightarrow> sweep \<Rightarrow> bool" where
  "swept dir w \<longleftrightarrow> sw_dir w = filter (\<lambda>e. de_name e \<notin> set (sw_deleted w)) dir"

lemma swept_remove:
  assumes "swept dir w"
  shows "swept dir (w\<lparr>sw_dir := remove_entry n (sw_dir w), sw_deleted := sw_deleted w @ [n]\<rparr>)"
  using assms by (auto simp: swept_def remove_entry_filter)

lemma prune_pass_swept:
  assumes "prune_pass ok kept bs w = (w', rem)" "swept dir w"
  shows "swept dir w' \<and> set (sw_deleted w') \<subseteq> set (sw_deleted w) \<union> rb_name ` set bs"
  using assms
proof (induction bs arbitrary: w rem)
  case (Cons b bs)
  show ?case
  proof (cases "rb_name b \<in> kept")
    case True
    with Cons.prems(1) obtain r where "prune_pass ok kept bs w = (w', r)"
      by (auto simp: Let_def split: prod.splits)
    from Cons.IH [OF this Cons.prems(2)] show ?thesis by auto
  next
    case False
    show ?thesis
    proof (cases "ok (rb_name b)")
      case True
      with False Cons.prems(1) have "prune_pass ok kept bs
          (w\<lparr>sw_dir := remove_entry (rb_name b) (sw_dir w), sw_deleted := sw_deleted w @ [rb_name b]\<rparr>) = (w', rem)"
        by simp
      from Cons.IH [OF this swept_remove [OF Cons.prems(2)]] show ?thesis by auto
    qed (use False Cons.prems in \<open>auto simp: swept_def\<close>)
  qed
qed (auto simp: swept_def)

lemma cap_pass_swept:
  assumes "swept dir w"
  shows "swept dir (cap_pass ok cap t bs w) \<and>
    set (sw_deleted (cap_pass ok cap t bs w)) \<subseteq> set (sw_deleted w) \<union> rb_name ` set bs"
  using assms
proof (induction bs arbitrary: t w)
  case (Cons b bs)
  from Cons.IH [OF swept_remove [OF Cons.prems]] Cons.prems show ?case by (auto simp: swept_def)
qed simp

lemma applyRetention_eq:
  assumes "prune_pass ok (kept_names (fst (Normalize cfg)) (listRetainedBackups srt dir)) (listRetainedBackups srt dir)
      \<lparr>sw_dir = dir, sw_deleted = [], sw_error = None\<rparr> = (w, rem)"
    and "every = srt (rem @ listIncrementalBackups srt (sw_dir w))"
  shows "applyRetention fl srt ok cfg vol dir =
    (if sw_error w \<noteq> None then w
     else case ParseMaxTotalSizeBytes fl (MaxTotalSize (fst (Normalize cfg))) vol of
            Inl e \<Rightarrow> w
          | Inr c \<Rightarrow> if c > 0 then cap_pass ok c (total_size every) every w else w)"
  unfolding applyRetention_def Let_def assms(1) assms(2) prod.case ..

definition sort_contract :: "sorter \<Rightarrow> bool" where
  "sort_contract srt \<longleftrightarrow> (\<forall>xs. mset (srt xs) = mset xs \<and> sorted (map rb_date (srt xs)))"

definition is_backup :: "dir_entry \<Rightarrow> bool" where
  "is_backup e \<longleftrightarrow> dated_backup e \<noteq> None \<or> incremental_backup e \<noteq> None"

text \<open>The contract of the sort, as the sweep uses it.\<close>

locale backup_sorter =
  fixes srt :: sorter
  assumes contract: "sort_contract srt"
begin

lemma mset_srt [simp]: "mset (srt xs) = mset xs"
  using contract by (simp add: sort_contract_def)

lemma set_srt [simp]: "set (srt xs) = set xs"
  by (metis mset_srt set_mset_mset)

lemma length_srt [simp]: "length (srt xs) = length xs"
  by (metis mset_srt size_mset)

lemma sorted_srt: "sorted (map rb_date (srt xs))"
  using contract by (simp add: sort_contract_def)

lemma retained_set: "b \<in> set (listRetainedBackups srt dir) \<longleftrightarrow> (\<exists>e\<in>set dir. dated_backup e = Some b)"
  by (simp add: listRetainedBackups_def in_set_map_filter)

lemma incremental_set: "b \<in> set (listIncrementalBackups srt dir) \<longleftrightarrow> (\<exists>e\<in>set dir. incremental_backup e = Some b)"
  by (simp add: listIncrementalBackups_def in_set_map_filter)

lemma prune_subset: "prune_pass ok kept bs w = (w', rem) \<Longrightarrow> set rem \<subseteq> set bs"
proof (induction bs arbitrary: w rem)
  case (Cons b bs)
  from Cons.prems Cons.IH show ?case by (fastforce split: if_splits prod.splits)
qed simp

lemma sweep_shape:
  "swept dir (applyRetention fl srt ok cfg vol dir) \<and>
   set (sw_deleted (applyRetention fl srt ok cfg vol dir)) \<subseteq> de_name ` {e \<in> set dir. is_backup e}"
proof -
  let ?bs = "listRetainedBackups srt dir" and ?w0 = "\<lparr>sw_dir = dir, sw_deleted = [], sw_error = None\<rparr>"
  obtain w rem where p: "prune_pass ok (kept_names (fst (Normalize cfg)) ?bs) ?bs ?w0 = (w, rem)"
    by (cases "prune_pass ok (kept_names (fst (Normalize cfg)) ?bs) ?bs ?w0")
  let ?all = "srt (rem @ listIncrementalBackups srt (sw_dir w))"
  have "swept dir ?w0" by (simp add: swept_def)
  from prune_pass_swept [OF p this] have w: "swept dir w" "set (sw_deleted w) \<subseteq> rb_name ` set ?bs" by auto
  have names: "rb_name b \<in> de_name ` {e \<in> set dir. is_backup e}"
    if "b \<in> set ?bs \<or> b \<in> set (listIncrementalBackups srt (sw_dir w))" for b
  proof -
    have "\<exists>e\<in>set dir. dated_backup e = Some b \<or> incremental_backup e = Some b"
      using that w(1) by (auto simp: retained_set incremental_set swept_def)
    then show ?thesis using names_kept by (fastforce simp: is_backup_def)
  qed
  have c: "swept dir (cap_pass ok cap t ?all w)"
      "set (sw_deleted (cap_pass ok cap t ?all w)) \<subseteq> set (sw_deleted w) \<union> rb_name ` set ?all" for cap t
    using cap_pass_swept [OF w(1), of ok cap t ?all] by blast+
  have d: "set (sw_deleted w) \<subseteq> de_name ` {e \<in> set dir. is_backup e}" using w(2) names by auto
  moreover have "set (sw_deleted w) \<union> rb_name ` set ?all \<subseteq> de_name ` {e \<in> set dir. is_backup e}"
    using d names prune_subset [OF p] by auto
  moreover have "applyRetention fl srt ok cfg vol dir = w \<or>
      (\<exists>cap t. applyRetention fl srt ok cfg vol dir = cap_pass ok cap t ?all w)"
    unfolding applyRetention_eq [OF p refl] by (cases "ParseMaxTotalSizeBytes fl (MaxTotalSize (fst (Normalize cfg))) vol") auto
  ultimately show ?thesis
  proof (elim disjE exE)
    assume "applyRetention fl srt ok cfg vol dir = w"
    with w(1) d show ?thesis by simp
  next
    fix cap t
    assume "applyRetention fl srt ok cfg vol dir = cap_pass ok cap t ?all w"
    with c [of cap t] \<open>set (sw_deleted w) \<union> rb_name ` set ?all \<subseteq> de_name ` {e \<in> set dir. is_backup e}\<close>
    show ?thesis by (simp only:) blast
  qed
qed

end

text \<open>A stable sort by date is one implementation of \<^verbatim>\<open>sort.Slice\<close>.\<close>

interpretation date_sort: backup_sorter "sort_key rb_date"
  by unfold_locales (simp add: sort_contract_def)

lemma sort_contract_date_sort: "sort_contract (sort_key rb_date)"
  by (rule date_sort.contract)

text \<open>
  The retention sweep only removes backups and reports exactly what it removed: on every path,
  a failed removal included, the directory afterwards is the directory before without the reported
  names, and each reported name is a file of the directory with the name of a backup archive, so a
  foreign file is never touched.
\<close>

lemma applyRetention_accurate:
  assumes "sort_contract srt" "applyRetention fl srt removeOk cfg vol dir = w"
  shows "sw_dir w = filter (\<lambda>e. de_name e \<notin> set (sw_deleted w)) dir \<and>
    (\<forall>n\<in>set (sw_deleted w). \<exists>e\<in>set dir. de_name e = n \<and> (dated_backup e \<noteq> None \<or> incremental_backup e \<noteq> None))"
  using backup_sorter.sweep_shape [of srt dir fl removeOk cfg vol] assms
  by (fastforce simp: backup_sorter_def swept_def is_backup_def)

definition exact_fl :: "rat float64" where
  "exact_fl = \<lparr>fl_parse = (\<lambda>s. map_option rat_of_int (atoi s)), fl_of_int = rat_of_int, fl_mul = (*), fl_div = (/),
     fl_less = (<), fl_leq = (\<le>), fl_to_int64 = (\<lambda>q. wrap64 (floor q))\<rparr>"

definition sample_dir :: "dir_entry list" where
  "sample_dir = map (\<lambda>(n, k). \<lparr>de_name = n, de_size = k, de_mtime = 0, de_stat_ok = True\<rparr>)
     [(''wthr_backup_2024-01-01.tar.gz'', 40), (''wthr_backup_2024-02-01.tar.gz'', 50),
      (''wthr_backup_2024-02-02_101500.tar.gz.enc'', 60), (''notes.txt'', 9)]"

lemma applyRetention_accurate_example:
  "map de_name (sw_dir (applyRetention exact_fl (sort_key rb_date) (\<lambda>n. True) DefaultRetention 0 sample_dir))
     = [''wthr_backup_2024-02-02_101500.tar.gz.enc'', ''notes.txt''] \<and>
   sw_dir (applyRetention exact_fl (sort_key rb_date) (\<lambda>n. True) DefaultRetention 0 sample_dir) =
     filter (\<lambda>e. de_name e \<notin> set (sw_deleted
       (applyRetention exact_fl (sort_key rb_date) (\<lambda>n. True) DefaultRetention 0 sample_dir))) sample_dir"
proof (rule conjI)
  show "map de_name (sw_dir (applyRetention exact_fl (sort_key rb_date) (\<lambda>n. True) DefaultRetention 0 sample_dir))
     = [''wthr_backup_2024-02-02_101500.tar.gz.enc'', ''notes.txt'']" by code_simp
qed (use applyRetention_accurate [OF sort_contract_date_sort] in blast)

section \<open>The tiers\<close>

definition newest :: "int \<Rightarrow> retainedBackup list \<Rightarrow> retainedBackup set" where
  "newest n bs = set (drop (length bs - nat n) bs)"

lemma keepNewest_newest: "keepNewest bs n kept = kept \<union> rb_name ` newest n bs"
proof (cases "0 < n")
  case True
  then have "nat (if int (length bs) - n < 0 then 0 else int (length bs) - n) = length bs - nat n" by auto
  with True show ?thesis by (simp add: keepNewest_def newest_def Let_def)
qed (simp add: keepNewest_def newest_def)

lemma Normalize_values:
  "MaxBackups (fst (Normalize r)) = max 1 (MaxBackups r)" "KeepWeekly (fst (Normalize r)) = max 0 (KeepWeekly r)"
  "KeepMonthly (fst (Normalize r)) = max 0 (KeepMonthly r)" "KeepYearly (fst (Normalize r)) = max 0 (KeepYearly r)"
  by (simp_all add: Normalize_def check_setting_def split_beta Let_def)

lemma newest_max0: "newest (max 0 n) bs = newest n bs"
  by (cases "0 \<le> n") (simp_all add: newest_def)

definition tier_kept :: "RetentionConfig \<Rightarrow> retainedBackup list \<Rightarrow> retainedBackup set" where
  "tier_kept r bs =
     newest (max 1 (MaxBackups r)) bs \<union> newest (KeepWeekly r) (filter is_weekly bs) \<union>
     newest (KeepMonthly r) (filter is_monthly bs) \<union> newest (KeepYearly r) (filter is_yearly bs)"

lemma kept_names_tiers: "kept_names (fst (Normalize r)) bs = rb_name ` tier_kept r bs"
  by (auto simp: kept_names_def keepNewest_newest Normalize_values newest_max0 tier_kept_def)

lemma newest_subset: "newest n bs \<subseteq> set bs"
  by (auto simp: newest_def dest: in_set_dropD)

lemma tier_kept_subset: "tier_kept r bs \<subseteq> set bs"
  using newest_subset by (fastforce simp: tier_kept_def)

lemma prune_pass_all:
  assumes "\<forall>b\<in>set bs. ok (rb_name b)"
  shows "\<exists>d. prune_pass ok kept bs w =
    (w\<lparr>sw_dir := d, sw_deleted := sw_deleted w @ map rb_name (filter (\<lambda>b. rb_name b \<notin> kept) bs)\<rparr>,
     filter (\<lambda>b. rb_name b \<in> kept) bs)"
  using assms
proof (induction bs arbitrary: w)
  case Nil
  then show ?case by (auto intro: exI [of _ "sw_dir w"])
next
  case (Cons b bs)
  then have IH: "\<And>w. \<exists>d. prune_pass ok kept bs w =
    (w\<lparr>sw_dir := d, sw_deleted := sw_deleted w @ map rb_name (filter (\<lambda>b. rb_name b \<notin> kept) bs)\<rparr>,
     filter (\<lambda>b. rb_name b \<in> kept) bs)" by simp
  show ?case
  proof (cases "rb_name b \<in> kept")
    case True
    from IH [of w] True show ?thesis by auto
  next
    case False
    from IH [of "w\<lparr>sw_dir := remove_entry (rb_name b) (sw_dir w), sw_deleted := sw_deleted w @ [rb_name b]\<rparr>"]
      False Cons.prems show ?thesis by auto
  qed
qed

context backup_sorter
begin

lemma retained_inj:
  assumes "distinct (map de_name dir)"
  shows "inj_on rb_name (set (listRetainedBackups srt dir))"
proof (rule inj_onI)
  fix a b
  assume ab: "a \<in> set (listRetainedBackups srt dir)" "b \<in> set (listRetainedBackups srt dir)" "rb_name a = rb_name b"
  then obtain e f where ef: "e \<in> set dir" "dated_backup e = Some a" "f \<in> set dir" "dated_backup f = Some b"
    by (auto simp: retained_set)
  with ab(3) have "de_name e = de_name f" using names_kept(1) by metis
  with assms ef(1,3) have "e = f" by (simp add: distinct_map inj_on_def)
  with ef show "a = b" by simp
qed

lemma prune_result:
  assumes "distinct (map de_name dir)" "\<forall>n. ok n"
    "prune_pass ok (kept_names (fst (Normalize cfg)) (listRetainedBackups srt dir)) (listRetainedBackups srt dir)
       \<lparr>sw_dir = dir, sw_deleted = [], sw_error = None\<rparr> = (w, rem)"
  shows "sw_error w = None \<and> rem = filter (\<lambda>b. b \<in> tier_kept cfg (listRetainedBackups srt dir)) (listRetainedBackups srt dir) \<and>
    sw_dir w = filter (\<lambda>e. case dated_backup e of None \<Rightarrow> True | Some b \<Rightarrow> b \<in> tier_kept cfg (listRetainedBackups srt dir)) dir"
proof -
  let ?bs = "listRetainedBackups srt dir" and ?w0 = "\<lparr>sw_dir = dir, sw_deleted = [], sw_error = None\<rparr>"
  let ?K = "tier_kept cfg ?bs"
  have mem: "rb_name b \<in> rb_name ` ?K \<longleftrightarrow> b \<in> ?K" if "b \<in> set ?bs" for b
    using retained_inj [OF assms(1)] that tier_kept_subset [of cfg ?bs] by (auto dest: inj_onD)
  obtain d where d: "w = ?w0\<lparr>sw_dir := d, sw_deleted := map rb_name (filter (\<lambda>b. rb_name b \<notin> rb_name ` ?K) ?bs)\<rparr>"
      "rem = filter (\<lambda>b. rb_name b \<in> rb_name ` ?K) ?bs"
    using prune_pass_all [of ?bs ok "rb_name ` ?K" ?w0] assms(2,3) by (auto simp: kept_names_tiers)
  have sw: "sw_dir w = filter (\<lambda>e. de_name e \<notin> set (sw_deleted w)) dir"
    using prune_pass_swept [OF assms(3), of dir] by (simp add: swept_def)
  have gone: "de_name e \<notin> set (sw_deleted w) \<longleftrightarrow> (case dated_backup e of None \<Rightarrow> True | Some b \<Rightarrow> b \<in> ?K)"
    if e: "e \<in> set dir" for e
  proof (cases "dated_backup e")
    case None
    have "de_name e \<noteq> rb_name b" if b: "b \<in> set ?bs" for b
    proof
      assume n: "de_name e = rb_name b"
      obtain f where f: "f \<in> set dir" "dated_backup f = Some b" using b by (auto simp: retained_set)
      then have "de_name f = de_name e" using n names_kept(1) by metis
      with assms(1) e f(1) have "f = e" by (simp add: distinct_map inj_on_def)
      with f(2) None show False by simp
    qed
    with None show ?thesis by (auto simp: d(1))
  next
    case (Some b)
    then have b: "b \<in> set ?bs" "rb_name b = de_name e" using e names_kept(1) by (auto simp: retained_set)
    have "de_name e \<in> rb_name ` (set ?bs - ?K) \<longleftrightarrow> b \<notin> ?K"
      using b retained_inj [OF assms(1)] by (auto simp flip: b(2) dest: inj_onD)
    moreover have "set (sw_deleted w) = rb_name ` (set ?bs - ?K)" using mem by (auto simp: d(1))
    ultimately have "de_name e \<in> set (sw_deleted w) \<longleftrightarrow> b \<notin> ?K" by simp
    with Some show ?thesis by simp
  qed
  show ?thesis
    using d(2) mem sw gone by (auto simp: d(1) cong: filter_cong)
qed

end

text \<open>
  C5. Without a size cap the sweep keeps exactly the tiers: when every removal succeeds, a dated
  backup survives if and only if it is among the newest daily ones (at least one), the newest Sunday
  ones, the newest first-of-month ones or the newest first-of-January ones, in the configured numbers;
  in particular the newest backup survives whatever the settings.
\<close>

theorem applyRetention_tiers:
  assumes "sort_contract srt" "distinct (map de_name dir)" "\<forall>n. removeOk n"
    "case ParseMaxTotalSizeBytes fl (MaxTotalSize (fst (Normalize cfg))) vol of Inl e \<Rightarrow> True | Inr c \<Rightarrow> c \<le> 0"
    "bs = listRetainedBackups srt dir" "w = applyRetention fl srt removeOk cfg vol dir"
  shows "sw_error w = None \<and>
    (\<forall>e\<in>set dir. \<forall>b. dated_backup e = Some b \<longrightarrow>
       (e \<in> set (sw_dir w) \<longleftrightarrow>
          b \<in> newest (max 1 (MaxBackups cfg)) bs \<or> b \<in> newest (KeepWeekly cfg) (filter is_weekly bs) \<or>
          b \<in> newest (KeepMonthly cfg) (filter is_monthly bs) \<or> b \<in> newest (KeepYearly cfg) (filter is_yearly bs))) \<and>
    (bs \<noteq> [] \<longrightarrow> (\<exists>e\<in>set (sw_dir w). dated_backup e = Some (last bs)) \<and> (\<forall>b\<in>set bs. rb_date b \<le> rb_date (last bs)))"
proof -
  have srt: "backup_sorter srt" using assms(1) by (simp add: backup_sorter_def)
  obtain w1 rem where p: "prune_pass removeOk (kept_names (fst (Normalize cfg)) bs) bs
      \<lparr>sw_dir = dir, sw_deleted = [], sw_error = None\<rparr> = (w1, rem)"
    by (cases "prune_pass removeOk (kept_names (fst (Normalize cfg)) bs) bs \<lparr>sw_dir = dir, sw_deleted = [], sw_error = None\<rparr>")
  note r = backup_sorter.prune_result [OF srt assms(2,3) p [unfolded assms(5)], folded assms(5)]
  have w: "w = w1"
    using assms(4) unfolding assms(6) applyRetention_eq [OF p [unfolded assms(5)] refl] by (auto split: sum.splits)
  have surv: "e \<in> set (sw_dir w) \<longleftrightarrow> b \<in> tier_kept cfg bs" if "e \<in> set dir" "dated_backup e = Some b" for e b
    using r that by (simp add: w)
  have "(\<exists>e\<in>set (sw_dir w). dated_backup e = Some (last bs)) \<and> (\<forall>b\<in>set bs. rb_date b \<le> rb_date (last bs))" if "bs \<noteq> []"
  proof
    have "last bs \<in> set bs" using that by simp
    then obtain e where e: "e \<in> set dir" "dated_backup e = Some (last bs)"
      using backup_sorter.retained_set [OF srt, of _ dir] by (auto simp: assms(5))
    have "0 < length bs" "0 < nat (max 1 (MaxBackups cfg))" using that by simp_all
    then have "length bs - nat (max 1 (MaxBackups cfg)) < length bs" by (rule diff_less [rotated])
    then have "last bs = last (drop (length bs - nat (max 1 (MaxBackups cfg))) bs)" "drop (length bs - nat (max 1 (MaxBackups cfg))) bs \<noteq> []"
      by (simp_all add: last_drop)
    then have "last bs \<in> tier_kept cfg bs" unfolding tier_kept_def newest_def by (metis UnI1 last_in_set)
    with surv e show "\<exists>e\<in>set (sw_dir w). dated_backup e = Some (last bs)" by blast
    have "sorted (map rb_date bs)" using backup_sorter.sorted_srt [OF srt] by (simp add: assms(5) listRetainedBackups_def)
    then show "\<forall>b\<in>set bs. rb_date b \<le> rb_date (last bs)"
      using that sorted_le_last [of "map rb_date bs"] by (simp add: last_map)
  qed
  with r surv show ?thesis unfolding tier_kept_def w by blast
qed

theorem applyRetention_tiers_witness:
  "\<exists>e\<in>set (sw_dir (applyRetention exact_fl (sort_key rb_date) (\<lambda>n. True) DefaultRetention 0 sample_dir)).
     de_name e = ''wthr_backup_2024-02-02_101500.tar.gz.enc''"
proof -
  let ?bs = "listRetainedBackups (sort_key rb_date) sample_dir"
  have d: "distinct (map de_name sample_dir)" by code_simp
  have c: "case ParseMaxTotalSizeBytes exact_fl (MaxTotalSize (fst (Normalize DefaultRetention))) 0 of
      Inl e \<Rightarrow> True | Inr c \<Rightarrow> c \<le> 0" by code_simp
  have b: "?bs \<noteq> [] \<and> rb_name (last ?bs) = ''wthr_backup_2024-02-02_101500.tar.gz.enc''" by code_simp
  from applyRetention_tiers [OF sort_contract_date_sort d _ c refl refl, of "\<lambda>n. True"] b
  obtain e where e: "e \<in> set (sw_dir (applyRetention exact_fl (sort_key rb_date) (\<lambda>n. True) DefaultRetention 0 sample_dir))"
      "dated_backup e = Some (last ?bs)" by blast
  from names_kept(1) [OF e(2)] b e(1) show ?thesis by metis
qed

section \<open>The cap\<close>

lemma total_size_sum:
  assumes "\<forall>b\<in>set bs. 0 \<le> rb_size b" "sum_list (map rb_size bs) < 2 ^ 63"
  shows "total_size bs = sum_list (map rb_size bs)"
proof -
  have "foldl (\<lambda>t b. wrap64 (t + rb_size b)) a bs = a + sum_list (map rb_size bs)"
    if "0 \<le> a" "a + sum_list (map rb_size bs) < 2 ^ 63" "\<forall>b\<in>set bs. 0 \<le> rb_size b" for a
    using that
  proof (induction bs arbitrary: a)
    case (Cons b bs)
    have "0 \<le> sum_list (map rb_size bs)" using Cons.prems(3) by (intro sum_list_nonneg) auto
    then have "in_int64 (a + rb_size b)" using Cons.prems by (simp add: in_int64_def int64_min_def int64_max_def)
    then have "wrap64 (a + rb_size b) = a + rb_size b" by simp
    with Cons.IH [of "a + rb_size b"] Cons.prems show ?case by (simp add: add.assoc)
  qed simp
  from this [of 0] assms show ?thesis by (simp add: total_size_def)
qed

lemma cap_pass_all:
  assumes "\<forall>n. ok n" "tot = sum_list (map rb_size bs)" "\<forall>b\<in>set bs. 0 \<le> rb_size b" "tot < 2 ^ 63" "0 \<le> cap"
  shows "\<exists>k. sw_deleted (cap_pass ok cap tot bs w) = sw_deleted w @ map rb_name (take k bs) \<and>
    sw_error (cap_pass ok cap tot bs w) = sw_error w \<and> sum_list (map rb_size (drop k bs)) \<le> cap \<and>
    (\<forall>j<k. cap < sum_list (map rb_size (drop j bs)))"
  using assms
proof (induction bs arbitrary: tot w)
  case Nil
  then show ?case by (intro exI [of _ 0]) simp
next
  case (Cons b bs)
  show ?case
  proof (cases "cap < tot")
    case False
    with Cons.prems show ?thesis by (intro exI [of _ 0]) simp
  next
    case True
    let ?w = "w\<lparr>sw_dir := remove_entry (rb_name b) (sw_dir w), sw_deleted := sw_deleted w @ [rb_name b]\<rparr>"
    have t: "tot - rb_size b = sum_list (map rb_size bs)" using Cons.prems(2) by simp
    have "0 \<le> sum_list (map rb_size bs)" using Cons.prems(3) by (intro sum_list_nonneg) auto
    moreover have "0 \<le> rb_size b" using Cons.prems(3) by simp
    ultimately have "in_int64 (tot - rb_size b)" "tot - rb_size b < 2 ^ 63" using Cons.prems(4) t by (auto simp: in_int64_def int64_min_def int64_max_def)
    then have wr: "wrap64 (tot - rb_size b) = tot - rb_size b" by simp
    obtain k where k: "sw_deleted (cap_pass ok cap (tot - rb_size b) bs ?w) = sw_deleted ?w @ map rb_name (take k bs)"
        "sw_error (cap_pass ok cap (tot - rb_size b) bs ?w) = sw_error ?w" "sum_list (map rb_size (drop k bs)) \<le> cap"
        "\<forall>j<k. cap < sum_list (map rb_size (drop j bs))"
      using Cons.IH [OF Cons.prems(1) t _ \<open>tot - rb_size b < 2 ^ 63\<close> Cons.prems(5), of ?w] Cons.prems(3) by auto
    have "cap < sum_list (map rb_size (drop j (b # bs)))" if "j < Suc k" for j
      using that k(4) True Cons.prems(2) by (cases j) auto
    moreover have "ok (rb_name b)" using Cons.prems(1) by simp
    ultimately show ?thesis using k(1-3) True wr by (intro exI [of _ "Suc k"]) simp
  qed
qed

lemma map_filter_kept:
  assumes "\<And>e b. f e = Some b \<Longrightarrow> rb_name b = de_name e"
  shows "List.map_filter f (filter (\<lambda>e. de_name e \<notin> N) dir) = filter (\<lambda>b. rb_name b \<notin> N) (List.map_filter f dir)"
  using assms by (induction dir) (auto split: option.splits)

definition stored_backups :: "dir_entry list \<Rightarrow> retainedBackup list" where
  "stored_backups dir = List.map_filter dated_backup dir @ List.map_filter incremental_backup dir"

lemma stored_backups_filter:
  "stored_backups (filter (\<lambda>e. de_name e \<notin> N) dir) = filter (\<lambda>b. rb_name b \<notin> N) (stored_backups dir)"
  by (simp add: stored_backups_def map_filter_kept names_kept)

lemma dated_not_incremental: "dated_backup e = Some b \<Longrightarrow> incremental_backup e = None"
proof -
  assume "dated_backup e = Some b"
  then have "prefix ''wthr_backup_'' (de_name e)"
    by (auto simp: dated_backup_def backupNamePattern_def Let_def split: option.splits if_splits)
  then have "\<not> incrementalNamePattern (de_name e)"
    by (auto simp: incrementalNamePattern_def prefix_def)
  then show ?thesis by (simp add: incremental_backup_def)
qed

lemma stored_backups_distinct:
  "distinct (map de_name dir) \<Longrightarrow> distinct (map rb_name (stored_backups dir))"
proof (induction dir)
  case (Cons e dir)
  have names: "rb_name ` set (stored_backups dir) \<subseteq> de_name ` set dir"
    using names_kept by (force simp: stored_backups_def in_set_map_filter)
  with Cons.prems have ne: "de_name e \<notin> rb_name ` set (List.map_filter dated_backup dir)"
      "de_name e \<notin> rb_name ` set (List.map_filter incremental_backup dir)"
    by (auto simp: stored_backups_def)
  have IH: "distinct (map rb_name (stored_backups dir))" using Cons by simp
  show ?case
  proof (cases "dated_backup e")
    case (Some b)
    with names_kept(1) [OF this] dated_not_incremental [OF this] IH ne show ?thesis
      by (simp add: stored_backups_def)
  next
    case None
    then show ?thesis
      using names_kept(2) [of e] IH ne by (cases "incremental_backup e") (simp_all add: stored_backups_def)
  qed
qed (simp add: stored_backups_def)

lemma filter_not_taken:
  assumes "distinct (map rb_name bs)"
  shows "filter (\<lambda>b. rb_name b \<notin> rb_name ` set (take k bs)) bs = drop k bs"
proof -
  have d: "rb_name ` set (take k bs) \<inter> rb_name ` set (drop k bs) = {}"
    using assms by (metis append_take_drop_id distinct_append map_append set_map)
  have "filter (\<lambda>b. rb_name b \<notin> rb_name ` set (take k bs)) (take k bs @ drop k bs) = drop k bs"
    unfolding filter_append using d by (auto simp: filter_empty_conv filter_id_conv)
  then show ?thesis by simp
qed

lemma map_filter_case:
  "List.map_filter f (filter (\<lambda>e. case f e of None \<Rightarrow> True | Some b \<Rightarrow> P b) xs) = filter P (List.map_filter f xs)"
  by (induction xs) (auto split: option.splits)

lemma map_filter_dated_incremental:
  "List.map_filter incremental_backup (filter (\<lambda>e. case dated_backup e of None \<Rightarrow> True | Some b \<Rightarrow> P b) xs)
     = List.map_filter incremental_backup xs"
  using dated_not_incremental by (induction xs) (auto split: option.splits)

context backup_sorter
begin

lemma mset_every:
  assumes "rem = filter (\<lambda>b. b \<in> K) (listRetainedBackups srt dir)"
    "d = filter (\<lambda>e. case dated_backup e of None \<Rightarrow> True | Some b \<Rightarrow> b \<in> K) dir"
  shows "mset (srt (rem @ listIncrementalBackups srt d)) = mset (stored_backups d)"
  by (simp add: assms listRetainedBackups_def listIncrementalBackups_def stored_backups_def map_filter_case
      mset_filter)

lemma cap_result:
  assumes "swept dir w" "mset every = mset (stored_backups (sw_dir w))" "distinct (map de_name dir)"
    "every = srt xs" "sw_deleted w' = sw_deleted w @ map rb_name (take k every)" "swept dir w'"
  shows "mset (stored_backups (sw_dir w')) = mset (drop k every) \<and>
    (\<forall>b\<in>set (take k every). \<forall>c\<in>set (drop k every). rb_date b \<le> rb_date c)"
proof
  have dn: "distinct (map de_name (sw_dir w))" using assms(1,3) by (auto simp: swept_def distinct_map_filter)
  have "distinct (map rb_name (stored_backups (sw_dir w)))" by (rule stored_backups_distinct [OF dn])
  then have de: "distinct (map rb_name every)" using assms(2) by (metis mset_map mset_eq_imp_distinct_iff)
  have "sw_dir w' = filter (\<lambda>e. de_name e \<notin> rb_name ` set (take k every)) (sw_dir w)"
    using assms(1,5,6) by (auto simp: swept_def intro: filter_cong)
  then have "mset (stored_backups (sw_dir w')) = filter_mset (\<lambda>b. rb_name b \<notin> rb_name ` set (take k every)) (mset every)"
    by (simp only: stored_backups_filter mset_filter assms(2))
  also have "\<dots> = mset (drop k every)" by (simp only: filter_not_taken [OF de] flip: mset_filter)
  finally show "mset (stored_backups (sw_dir w')) = mset (drop k every)" .
  have "sorted (map rb_date (take k every @ drop k every))" using sorted_srt assms(4) by simp
  then show "\<forall>b\<in>set (take k every). \<forall>c\<in>set (drop k every). rb_date b \<le> rb_date c"
    by (simp only: map_append sorted_append) auto
qed

end

lemma stored_size_nonneg:
  assumes "\<forall>e\<in>set dir. 0 \<le> de_size e" "b \<in> set (stored_backups dir)"
  shows "0 \<le> rb_size b"
proof -
  have "rb_size b = de_size e \<or> rb_size b = 0" if "dated_backup e = Some b \<or> incremental_backup e = Some b" for e
    using that by (auto simp: dated_backup_def incremental_backup_def split: option.split_asm if_split_asm)
  with assms show ?thesis by (force simp: stored_backups_def in_set_map_filter)
qed

lemma stored_sum_filter_le:
  assumes "\<forall>e\<in>set dir. 0 \<le> de_size e"
  shows "sum_list (map rb_size (stored_backups (filter (\<lambda>e. de_name e \<notin> N) dir))) \<le> sum_list (map rb_size (stored_backups dir))"
proof -
  have "sum_list (map rb_size (filter P bs)) \<le> sum_list (map rb_size bs)"
    if "\<forall>b\<in>set bs. 0 \<le> rb_size b" for P bs using that by (induction bs) auto
  with stored_size_nonneg [OF assms] show ?thesis by (simp only: stored_backups_filter) blast
qed

context backup_sorter
begin

lemma cap_sweep:
  assumes "distinct (map de_name dir)" "\<forall>n. ok n"
    "ParseMaxTotalSizeBytes fl (MaxTotalSize (fst (Normalize cfg))) vol = Inr cap" "0 < cap"
    "\<forall>e\<in>set dir. 0 \<le> de_size e" "sum_list (map rb_size (stored_backups dir)) < 2 ^ 63"
    "w = applyRetention fl srt ok cfg vol dir" "bs = listRetainedBackups srt dir"
  shows "\<exists>every k. sw_error w = None \<and> sum_list (map rb_size (drop k every)) \<le> cap \<and>
    mset (stored_backups (sw_dir w)) = mset (drop k every) \<and>
    (\<forall>b\<in>set (take k every). \<forall>c\<in>set (drop k every). rb_date b \<le> rb_date c) \<and>
    (\<forall>b\<in>set bs. b \<in> tier_kept cfg bs \<longrightarrow> b \<in> set every) \<and>
    (\<forall>b\<in>set (List.map_filter incremental_backup dir). b \<in> set every)"
proof -
  let ?w0 = "\<lparr>sw_dir = dir, sw_deleted = [], sw_error = None\<rparr>"
  obtain w1 rem where p: "prune_pass ok (kept_names (fst (Normalize cfg)) bs) bs ?w0 = (w1, rem)"
    by (cases "prune_pass ok (kept_names (fst (Normalize cfg)) bs) bs ?w0")
  note r = prune_result [OF assms(1,2) p [unfolded assms(8)], folded assms(8)]
  have sw1: "swept dir w1" using prune_pass_swept [OF p, of dir] by (simp add: swept_def)
  define every where "every = srt (rem @ listIncrementalBackups srt (sw_dir w1))"
  have m: "mset every = mset (stored_backups (sw_dir w1))"
    unfolding every_def by (rule mset_every) (use r in \<open>simp_all add: assms(8)\<close>)
  have w: "w = cap_pass ok cap (total_size every) every w1"
    using r assms(3,4) unfolding assms(7) applyRetention_eq [OF p [unfolded assms(8)] every_def] by simp
  have "set every = set (stored_backups (sw_dir w1))" using m by (metis set_mset_mset)
  moreover have "\<forall>e\<in>set (sw_dir w1). 0 \<le> de_size e" using sw1 assms(5) by (simp add: swept_def)
  ultimately have nn: "\<forall>b\<in>set every. 0 \<le> rb_size b" using stored_size_nonneg by blast
  have "sum_list (map rb_size every) = sum_list (map rb_size (stored_backups (sw_dir w1)))"
    using m by (metis mset_map sum_mset_sum_list)
  also have "\<dots> < 2 ^ 63"
    using stored_sum_filter_le [OF assms(5)] sw1 assms(6) unfolding swept_def by (metis order_le_less_trans)
  finally have lt: "sum_list (map rb_size every) < 2 ^ 63" .
  obtain k where k: "sw_deleted w = sw_deleted w1 @ map rb_name (take k every)" "sw_error w = sw_error w1"
      "sum_list (map rb_size (drop k every)) \<le> cap"
    using cap_pass_all [OF assms(2) total_size_sum [OF nn lt] nn] lt assms(4) total_size_sum [OF nn lt]
    unfolding w by (metis less_imp_le)
  have "swept dir w" using cap_pass_swept [OF sw1] by (simp add: w)
  note res = cap_result [OF sw1 m assms(1) every_def k(1) this]
  have "b \<in> set every" if "b \<in> set bs" "b \<in> tier_kept cfg bs" for b
    using that r by (simp add: every_def)
  moreover have "b \<in> set every" if "b \<in> set (List.map_filter incremental_backup dir)" for b
  proof -
    have "List.map_filter incremental_backup (sw_dir w1) = List.map_filter incremental_backup dir"
      using r by (simp add: map_filter_dated_incremental)
    with that have "b \<in> set (stored_backups (sw_dir w1))" by (simp add: stored_backups_def)
    with m show ?thesis by (metis set_mset_mset)
  qed
  ultimately show ?thesis using res k(2,3) r by (intro exI [of _ every] exI [of _ k]) auto
qed

end

text \<open>
  C6. The size cap holds after the sweep: with a positive cap, every removal succeeding and file
  sizes whose sum a 64-bit integer holds, the backups left in the directory, incrementals included,
  take at most the cap, and whatever the cap pass removed is not newer than anything left: of the backups that are gone, those
  a tier keeps, which only the cap pass can have removed, and all incrementals, which no tier prunes, are each at most as new
  as every backup, dated or incremental, that is still there. (Hypotheses: \<^verbatim>\<open>sort.Slice\<close> sorts, and the names in a directory are distinct.)
\<close>

theorem applyRetention_cap:
  assumes "sort_contract srt" "distinct (map de_name dir)" "\<forall>n. removeOk n"
    "ParseMaxTotalSizeBytes fl (MaxTotalSize (fst (Normalize cfg))) vol = Inr cap" "0 < cap"
    "\<forall>e\<in>set dir. 0 \<le> de_size e" "sum_list (map rb_size (stored_backups dir)) < 2 ^ 63"
    "w = applyRetention fl srt removeOk cfg vol dir"
  shows "sw_error w = None \<and> sum_list (map rb_size (stored_backups (sw_dir w))) \<le> cap \<and>
    (\<forall>b \<in> (tier_kept cfg (listRetainedBackups srt dir) \<union> set (List.map_filter incremental_backup dir)) - set (stored_backups (sw_dir w)).
       \<forall>c\<in>set (stored_backups (sw_dir w)). rb_date b \<le> rb_date c)"
proof -
  have srt: "backup_sorter srt" using assms(1) by (simp add: backup_sorter_def)
  obtain every k where e: "sw_error w = None" "sum_list (map rb_size (drop k every)) \<le> cap"
      "mset (stored_backups (sw_dir w)) = mset (drop k every)"
      "\<forall>b\<in>set (take k every). \<forall>c\<in>set (drop k every). rb_date b \<le> rb_date c"
      "\<forall>b\<in>set (listRetainedBackups srt dir). b \<in> tier_kept cfg (listRetainedBackups srt dir) \<longrightarrow> b \<in> set every"
      "\<forall>b\<in>set (List.map_filter incremental_backup dir). b \<in> set every"
    using backup_sorter.cap_sweep [OF srt assms(2-8) refl] by blast
  have s: "set (stored_backups (sw_dir w)) = set (drop k every)" using e(3) by (metis set_mset_mset)
  have "sum_list (map rb_size (stored_backups (sw_dir w))) = sum_list (map rb_size (drop k every))"
    using e(3) by (metis mset_map sum_mset_sum_list)
  moreover have "b \<in> set (take k every)" if "b \<in> set every" "b \<notin> set (drop k every)" for b
    using that by (metis UnE append_take_drop_id set_append)
  moreover have "b \<in> set every" if "b \<in> tier_kept cfg (listRetainedBackups srt dir)" for b
    using that e(5) tier_kept_subset by blast
  ultimately have "rb_date b \<le> rb_date c"
    if "b \<in> tier_kept cfg (listRetainedBackups srt dir) \<union> set (List.map_filter incremental_backup dir)"
      "b \<notin> set (stored_backups (sw_dir w))" "c \<in> set (stored_backups (sw_dir w))" for b c
    using that e(4,6) s by blast
  with \<open>sum_list (map rb_size (stored_backups (sw_dir w))) = sum_list (map rb_size (drop k every))\<close> e(1,2) show ?thesis by simp
qed

theorem applyRetention_cap_witness:
  "sum_list (map rb_size (stored_backups (sw_dir
     (applyRetention exact_fl (sort_key rb_date) (\<lambda>n. True)
        (DefaultRetention\<lparr>MaxBackups := 7, MaxTotalSize := ''100B''\<rparr>) 0 sample_dir)))) \<le> 100"
proof -
  have "distinct (map de_name sample_dir)" "\<forall>e\<in>set sample_dir. 0 \<le> de_size e"
    "sum_list (map rb_size (stored_backups sample_dir)) < 2 ^ 63"
    "ParseMaxTotalSizeBytes exact_fl (MaxTotalSize (fst (Normalize
       (DefaultRetention\<lparr>MaxBackups := 7, MaxTotalSize := ''100B''\<rparr>)))) 0 = Inr 100" by code_simp+
  with applyRetention_cap [OF sort_contract_date_sort, of sample_dir "\<lambda>n. True" exact_fl
      "DefaultRetention\<lparr>MaxBackups := 7, MaxTotalSize := ''100B''\<rparr>" 0 100] show ?thesis by simp
qed

end
