(* ===== verification/Sql_Table.thy ===== *)
theory Sql_Table
  imports Go_Prelude
begin

text \<open>
  Tables of the server databases as lists of rows in key order, with the statements the Go code
  sends them: UPDATE and DELETE with a WHERE clause, INSERT, and a SELECT of at most one row by its
  key. The locale states what a component promises about its rows, once for all its statements.
\<close>

definition sql_update :: "('r \<Rightarrow> bool) \<Rightarrow> ('r \<Rightarrow> 'r) \<Rightarrow> 'r list \<Rightarrow> 'r list" where
  "sql_update P f rows = map (\<lambda>r. if P r then f r else r) rows"

definition sql_delete :: "('r \<Rightarrow> bool) \<Rightarrow> 'r list \<Rightarrow> 'r list" where
  "sql_delete P rows = filter (\<lambda>r. \<not> P r) rows"

definition sql_lookup :: "('r \<Rightarrow> 'k) \<Rightarrow> 'k \<Rightarrow> 'r list \<Rightarrow> 'r option" where
  "sql_lookup key k rows = find (\<lambda>r. key r = k) rows"

definition affected :: "('r \<Rightarrow> bool) \<Rightarrow> 'r list \<Rightarrow> int" where
  "affected P rows = int (length (filter P rows))"

lemma in_set_sql_delete: "r \<in> set (sql_delete P rows) \<longleftrightarrow> r \<in> set rows \<and> \<not> P r"
  by (simp add: sql_delete_def)

lemma sql_update_lookup:
  assumes "\<And>r. key (f r) = key r"
  shows "sql_lookup key k (sql_update P f rows) = map_option (\<lambda>r. if P r then f r else r) (sql_lookup key k rows)"
  using assms by (induction rows) (auto simp: sql_lookup_def sql_update_def)

lemma sql_lookup_Some: "sql_lookup key k rows = Some r \<Longrightarrow> r \<in> set rows \<and> key r = k"
  by (auto simp: sql_lookup_def find_Some_iff)

lemma sql_lookup_in:
  "distinct (map key rows) \<Longrightarrow> r \<in> set rows \<Longrightarrow> sql_lookup key (key r) rows = Some r"
  by (induction rows) (auto simp: sql_lookup_def rev_image_eqI)

lemma sql_lookup_iff:
  "distinct (map key rows) \<Longrightarrow> sql_lookup key k rows = Some r \<longleftrightarrow> r \<in> set rows \<and> key r = k"
  using sql_lookup_Some [of key k rows r] sql_lookup_in [of key rows r] by auto

lemma sql_lookup_None: "sql_lookup key k rows = None \<longleftrightarrow> k \<notin> key ` set rows"
  by (auto simp: sql_lookup_def find_None_iff)

lemma sql_lookup_delete:
  "distinct (map key rows) \<Longrightarrow> sql_lookup key k (sql_delete P rows) =
     (case sql_lookup key k rows of None \<Rightarrow> None | Some r \<Rightarrow> if P r then None else Some r)"
proof (induction rows)
  case (Cons r rows)
  have "k \<notin> key ` set rows \<Longrightarrow> sql_lookup key k (filter Q rows) = None" for Q
    by (auto simp: sql_lookup_None)
  with Cons show ?case by (auto simp: sql_lookup_def sql_delete_def split: option.splits)
qed (simp add: sql_lookup_def sql_delete_def)

lemma sql_lookup_append:
  "sql_lookup key k (rows @ new) = (case sql_lookup key k rows of Some r \<Rightarrow> Some r | None \<Rightarrow> sql_lookup key k new)"
  by (induction rows) (auto simp: sql_lookup_def)

lemma sql_lookup_single [simp]: "sql_lookup key k [r] = (if key r = k then Some r else None)"
  by (simp add: sql_lookup_def)

lemma sql_lookup_nil [simp]: "sql_lookup key k [] = None"
  by (simp add: sql_lookup_def)

section \<open>Row invariants\<close>

text \<open>
  \<open>row_ok\<close> is the invariant of one row and \<open>row_change\<close> the changes a component makes to a row. The laws:
  a change keeps the key and the invariant.
\<close>

locale row_machine =
  fixes key :: "'r \<Rightarrow> int" and row_ok :: "'r \<Rightarrow> bool" and row_change :: "'r \<Rightarrow> 'r \<Rightarrow> bool"
  assumes change_key: "row_change r r' \<Longrightarrow> key r' = key r"
    and change_ok: "row_change r r' \<Longrightarrow> row_ok r \<Longrightarrow> row_ok r'"
begin

definition table_ok :: "int \<Rightarrow> 'r list \<Rightarrow> bool" where
  "table_ok next_key rows \<longleftrightarrow> distinct (map key rows) \<and> (\<forall>r\<in>set rows. row_ok r \<and> key r < next_key)"

lemma update_ok:
  assumes "table_ok n rows" "\<And>r. r \<in> set rows \<Longrightarrow> P r \<Longrightarrow> row_change r (f r)"
  shows "table_ok n (sql_update P f rows)"
proof -
  have k: "key (if P r then f r else r) = key r" if "r \<in> set rows" for r
    using assms(2) that change_key by auto
  then have "map key (sql_update P f rows) = map key rows" by (simp add: sql_update_def)
  moreover have "row_ok (if P r then f r else r) \<and> key (if P r then f r else r) < n" if r: "r \<in> set rows" for r
  proof
    show "row_ok (if P r then f r else r)"
      using assms(1) r change_ok [OF assms(2) [OF r]] by (simp add: table_ok_def)
    show "key (if P r then f r else r) < n"
      using assms(1) r k [OF r] by (simp only: table_ok_def)
  qed
  moreover from this have "\<forall>r\<in>set (sql_update P f rows). row_ok r \<and> key r < n"
    unfolding sql_update_def set_map by blast
  ultimately show ?thesis using assms(1) by (simp add: table_ok_def)
qed

lemma delete_ok: "table_ok n rows \<Longrightarrow> table_ok n (sql_delete P rows)"
  by (auto simp: table_ok_def sql_delete_def distinct_map_filter)

lemma insert_ok: "table_ok n rows \<Longrightarrow> row_ok r \<Longrightarrow> key r = n \<Longrightarrow> table_ok (n + 1) (rows @ [r])"
  by (fastforce simp: table_ok_def)

lemma table_ok_lookup: "table_ok n rows \<Longrightarrow> sql_lookup key k rows = Some r \<Longrightarrow> row_ok r"
  by (auto simp: table_ok_def dest: sql_lookup_Some)

end

end
