(* ===== verification/Channels.thy ===== *)
theory Channels
  imports Sql_Table Go_Time
begin

text \<open>
  The notification channels of \<^verbatim>\<open>src/server/service/channel_manager.go\<close>: the rows of
  \<^verbatim>\<open>server_notification_channels\<close>, keyed by the channel type, and the statements that change them.
  A registered channel is the pair of its Send and Test functions.
\<close>

record channel_row =
  ch_name :: string
  ch_enabled :: bool
  ch_state :: string
  ch_config :: string
  ch_last_test_at :: "instant option"
  ch_last_test_result :: "string option"
  ch_last_error :: "string option"
  ch_last_success_at :: "instant option"
  ch_failure_count :: int
  ch_updated_at :: instant

type_synonym channel_table = "string \<rightharpoonup> channel_row"

text \<open>The error text of a failed send or test, \<open>None\<close> on success.\<close>

record NotificationChannel =
  nc_send :: "string \<Rightarrow> string \<Rightarrow> string \<Rightarrow> string option"
  nc_test :: "string \<Rightarrow> string option"

type_synonym channel_map = "string \<rightharpoonup> NotificationChannel"

record ChannelDefinition =
  cd_type :: string
  cd_name :: string
  cd_category :: string

definition ChannelRegistry :: "ChannelDefinition list" where
  "ChannelRegistry = map (\<lambda>(t, n, c). \<lparr>cd_type = t, cd_name = n, cd_category = c\<rparr>)
     [(''email'', ''Email (SMTP)'', ''email''),
      (''slack'', ''Slack'', ''messaging''),
      (''discord'', ''Discord'', ''messaging''),
      (''telegram'', ''Telegram'', ''messaging''),
      (''whatsapp'', ''WhatsApp Business'', ''messaging''),
      (''msteams'', ''Microsoft Teams'', ''messaging''),
      (''rocketchat'', ''Rocket.Chat'', ''messaging''),
      (''mattermost'', ''Mattermost'', ''messaging''),
      (''matrix'', ''Matrix'', ''messaging''),
      (''twilio'', ''Twilio SMS'', ''sms''),
      (''nexmo'', ''Vonage (Nexmo) SMS'', ''sms''),
      (''aws_sns'', ''AWS SNS'', ''sms''),
      (''plivo'', ''Plivo SMS'', ''sms''),
      (''messagebird'', ''MessageBird SMS'', ''sms''),
      (''fcm'', ''Firebase Cloud Messaging'', ''push''),
      (''apns'', ''Apple Push Notification'', ''push''),
      (''onesignal'', ''OneSignal'', ''push''),
      (''pushover'', ''Pushover'', ''push''),
      (''pushbullet'', ''Pushbullet'', ''push''),
      (''gotify'', ''Gotify'', ''push''),
      (''webhook'', ''Generic Webhook'', ''webhook''),
      (''zapier'', ''Zapier'', ''webhook''),
      (''ifttt'', ''IFTTT'', ''webhook''),
      (''n8n'', ''n8n'', ''webhook''),
      (''twilio_voice'', ''Twilio Voice'', ''voice''),
      (''aws_connect'', ''AWS Connect'', ''voice''),
      (''jira'', ''Jira'', ''collaboration''),
      (''trello'', ''Trello'', ''collaboration''),
      (''asana'', ''Asana'', ''collaboration''),
      (''github'', ''GitHub Issues'', ''collaboration''),
      (''gitlab'', ''GitLab Issues'', ''collaboration''),
      (''pagerduty'', ''PagerDuty'', ''monitoring''),
      (''opsgenie'', ''Opsgenie'', ''monitoring''),
      (''datadog'', ''Datadog'', ''monitoring''),
      (''newrelic'', ''New Relic'', ''monitoring''),
      (''splunk'', ''Splunk'', ''monitoring''),
      (''elastic'', ''Elasticsearch'', ''monitoring''),
      (''twitter'', ''Twitter'', ''social''),
      (''mastodon'', ''Mastodon'', ''social'')]"

definition RegisterChannel :: "string \<Rightarrow> NotificationChannel \<Rightarrow> channel_map \<Rightarrow> channel_map" where
  "RegisterChannel ty ch m = m(ty \<mapsto> ch)"

definition GetChannel :: "channel_map \<Rightarrow> string \<Rightarrow> NotificationChannel option" where
  "GetChannel m ty = m ty"

definition channel_update :: "bool \<Rightarrow> string \<Rightarrow> (channel_row \<Rightarrow> channel_row) \<Rightarrow> channel_table \<Rightarrow> channel_table" where
  "channel_update ok ty f tbl =
     (if \<not> ok then tbl else case tbl ty of None \<Rightarrow> tbl | Some r \<Rightarrow> tbl(ty \<mapsto> f r))"

text \<open>
  One pass over the registry: \<open>existsOk\<close> and \<open>insertOk\<close> are the outcomes of the statements for a type,
  \<open>config\<close> the JSON text of a definition. The second component is the error, if the loop stopped.
\<close>

datatype init_error = ExistenceCheckFailed string | InsertFailed string

fun InitializeChannels ::
  "(string \<Rightarrow> bool) \<Rightarrow> (string \<Rightarrow> bool) \<Rightarrow> (ChannelDefinition \<Rightarrow> string) \<Rightarrow> instant \<Rightarrow>
     ChannelDefinition list \<Rightarrow> channel_table \<Rightarrow> channel_table \<times> init_error option" where
  "InitializeChannels existsOk insertOk config now [] tbl = (tbl, None)"
| "InitializeChannels existsOk insertOk config now (def # defs) tbl =
     (if \<not> existsOk (cd_type def) then (tbl, Some (ExistenceCheckFailed (cd_type def)))
      else if tbl (cd_type def) \<noteq> None then InitializeChannels existsOk insertOk config now defs tbl
      else if \<not> insertOk (cd_type def) then (tbl, Some (InsertFailed (cd_type def)))
      else InitializeChannels existsOk insertOk config now defs
             (tbl(cd_type def \<mapsto>
                \<lparr>ch_name = cd_name def, ch_enabled = False, ch_state = ''disabled'', ch_config = config def,
                 ch_last_test_at = None, ch_last_test_result = None, ch_last_error = None,
                 ch_last_success_at = None, ch_failure_count = 0, ch_updated_at = now\<rparr>)))"

definition channel_listed :: "channel_table \<Rightarrow> string \<Rightarrow> bool" where
  "channel_listed tbl ty = (case tbl ty of None \<Rightarrow> False | Some r \<Rightarrow> ch_enabled r \<and> ch_state r = ''enabled'')"

text \<open>\<open>types\<close>: the keys of the table in the order the database returns them.\<close>

definition ListEnabledChannels :: "bool \<Rightarrow> string list \<Rightarrow> channel_table \<Rightarrow> string list option" where
  "ListEnabledChannels ok types tbl = (if \<not> ok then None else Some (filter (channel_listed tbl) types))"

definition GetChannelState :: "bool \<Rightarrow> string \<Rightarrow> channel_table \<Rightarrow> string option" where
  "GetChannelState ok ty tbl = (if \<not> ok then None else map_option ch_state (tbl ty))"

text \<open>The CHECK constraint of the table refuses any other state.\<close>

definition valid_channel_state :: "string \<Rightarrow> bool" where
  "valid_channel_state s \<longleftrightarrow> s \<in> {''disabled'', ''enabled'', ''failed'', ''testing''}"

definition UpdateChannelState :: "bool \<Rightarrow> string \<Rightarrow> string \<Rightarrow> instant \<Rightarrow> channel_table \<Rightarrow> channel_table \<times> bool" where
  "UpdateChannelState ok ty state now tbl =
     (let accepted = (ok \<and> (tbl ty \<noteq> None \<longrightarrow> valid_channel_state state))
      in (channel_update accepted ty (\<lambda>r. r\<lparr>ch_state := state, ch_updated_at := now\<rparr>) tbl, accepted))"

definition EnableChannel :: "bool \<Rightarrow> string \<Rightarrow> instant \<Rightarrow> channel_table \<Rightarrow> channel_table \<times> bool" where
  "EnableChannel ok ty now tbl =
     (channel_update ok ty (\<lambda>r. r\<lparr>ch_enabled := True, ch_state := ''enabled'', ch_updated_at := now\<rparr>) tbl, ok)"

definition DisableChannel :: "bool \<Rightarrow> string \<Rightarrow> instant \<Rightarrow> channel_table \<Rightarrow> channel_table \<times> bool" where
  "DisableChannel ok ty now tbl =
     (channel_update ok ty (\<lambda>r. r\<lparr>ch_enabled := False, ch_state := ''disabled'', ch_updated_at := now\<rparr>) tbl, ok)"

datatype test_result = ChannelNotFound string | TestFailed string | TestFailedAndDbError string | DbError | TestOk

definition TestChannel ::
  "channel_map \<Rightarrow> bool \<Rightarrow> bool \<Rightarrow> string \<Rightarrow> string \<Rightarrow> instant \<Rightarrow> instant \<Rightarrow> channel_table \<Rightarrow> channel_table \<times> test_result" where
  "TestChannel chans stateOk writeOk ty recipient t0 now tbl =
     (case GetChannel chans ty of
        None \<Rightarrow> (tbl, ChannelNotFound ty)
      | Some ch \<Rightarrow>
          (let tbl1 = fst (UpdateChannelState stateOk ty ''testing'' t0 tbl)
           in case nc_test ch recipient of
                Some err \<Rightarrow>
                  (channel_update writeOk ty
                     (\<lambda>r. r\<lparr>ch_state := ''failed'', ch_last_test_at := Some now, ch_last_test_result := Some ''failed'',
                            ch_last_error := Some err, ch_failure_count := ch_failure_count r + 1,
                            ch_updated_at := now\<rparr>) tbl1,
                   if writeOk then TestFailed err else TestFailedAndDbError err)
              | None \<Rightarrow>
                  (channel_update writeOk ty
                     (\<lambda>r. r\<lparr>ch_state := ''enabled'', ch_enabled := True, ch_last_test_at := Some now,
                            ch_last_test_result := Some ''success'', ch_last_success_at := Some now,
                            ch_last_error := None, ch_failure_count := 0, ch_updated_at := now\<rparr>) tbl1,
                   if writeOk then TestOk else DbError)))"

definition RecordSuccess :: "bool \<Rightarrow> string \<Rightarrow> instant \<Rightarrow> channel_table \<Rightarrow> channel_table" where
  "RecordSuccess ok ty now tbl =
     channel_update ok ty
       (\<lambda>r. r\<lparr>ch_last_success_at := Some now, ch_failure_count := 0, ch_updated_at := now\<rparr>) tbl"

text \<open>The right-hand sides of SET see the row before the update.\<close>

definition RecordFailure :: "bool \<Rightarrow> string \<Rightarrow> string \<Rightarrow> instant \<Rightarrow> channel_table \<Rightarrow> channel_table" where
  "RecordFailure ok ty errorMsg now tbl =
     channel_update ok ty
       (\<lambda>r. r\<lparr>ch_last_error := Some errorMsg, ch_failure_count := ch_failure_count r + 1,
              ch_state := (if ch_failure_count r + 1 \<ge> 5 then ''failed'' else ch_state r),
              ch_updated_at := now\<rparr>) tbl"

record channel_stats =
  cs_enabled :: bool
  cs_state :: string
  cs_failure_count :: int
  cs_last_test_at :: "instant option"
  cs_last_success_at :: "instant option"
  cs_last_error :: "string option"

definition GetChannelStats :: "bool \<Rightarrow> string \<Rightarrow> channel_table \<Rightarrow> channel_stats option" where
  "GetChannelStats ok ty tbl =
     (if \<not> ok then None
      else map_option (\<lambda>r. \<lparr>cs_enabled = ch_enabled r, cs_state = ch_state r,
             cs_failure_count = ch_failure_count r, cs_last_test_at = ch_last_test_at r,
             cs_last_success_at = ch_last_success_at r, cs_last_error = ch_last_error r\<rparr>) (tbl ty))"

section \<open>The failure breaker\<close>

lemma channel_update_same: "channel_update True ty f tbl ty = map_option f (tbl ty)"
  by (simp add: channel_update_def split: option.splits)

lemma channel_update_other: "ty' \<noteq> ty \<Longrightarrow> channel_update ok ty f tbl ty' = tbl ty'"
  by (simp add: channel_update_def split: option.splits)

definition failures :: "string \<Rightarrow> (string \<times> instant) list \<Rightarrow> channel_table \<Rightarrow> channel_table" where
  "failures ty es tbl = foldl (\<lambda>t (e, now). RecordFailure True ty e now t) tbl es"

lemma failures_row:
  assumes "tbl ty = Some r" "0 \<le> ch_failure_count r"
  shows "\<exists>q. failures ty es tbl ty = Some q \<and> ch_failure_count q = ch_failure_count r + int (length es) \<and>
    ch_enabled q = ch_enabled r \<and>
    ch_state q = (if es \<noteq> [] \<and> 5 \<le> ch_failure_count r + int (length es) then ''failed'' else ch_state r)"
  using assms
proof (induction es arbitrary: tbl r)
  case (Cons p es)
  obtain e now where p: "p = (e, now)" by (cases p)
  let ?r = "r\<lparr>ch_last_error := Some e, ch_failure_count := ch_failure_count r + 1,
     ch_state := (if ch_failure_count r + 1 \<ge> 5 then ''failed'' else ch_state r), ch_updated_at := now\<rparr>"
  have "RecordFailure True ty e now tbl ty = Some ?r"
    using Cons.prems(1) by (simp add: RecordFailure_def channel_update_same)
  from Cons.IH [of "RecordFailure True ty e now tbl" ?r] this Cons.prems(2) obtain q where
    "failures ty es (RecordFailure True ty e now tbl) ty = Some q"
    "ch_failure_count q = ch_failure_count r + 1 + int (length es)" "ch_enabled q = ch_enabled r"
    "ch_state q = (if es \<noteq> [] \<and> 5 \<le> ch_failure_count r + 1 + int (length es) then ''failed'' else ch_state ?r)"
    by auto
  then show ?case by (auto simp: failures_def p)
qed (simp add: failures_def)

end
