(* ===== verification/Delivery.thy ===== *)
theory Delivery
  imports Channels Task_Lock "HOL-Library.Product_Lexorder"
begin

text \<open>
  The notification delivery queue of \<^verbatim>\<open>src/server/service/delivery_system.go\<close>: the rows of
  \<^verbatim>\<open>notification_queue\<close>, the delivery history, the retry policy and every statement on them. A batch
  is read as snapshots of rows; each snapshot is then processed by its own goroutine
  (\<open>processNotification\<close>), so that the state at processing time may differ from the snapshot.
  The JSON decoder, the SMTP transport behind a channel and the comparison the database makes on
  stored times are arguments.
\<close>

section \<open>State\<close>

record NotificationQueue =
  nq_ID :: int
  nq_UserID :: "int option"
  nq_ChannelType :: string
  nq_Priority :: int
  nq_State :: string
  nq_Subject :: string
  nq_Body :: string
  nq_Variables :: string
  nq_RetryCount :: int
  nq_MaxRetries :: int
  nq_NextRetryAt :: "instant option"
  nq_DeliveredAt :: "instant option"
  nq_FailedAt :: "instant option"
  nq_ErrorMessage :: "string option"
  nq_CreatedAt :: instant
  nq_UpdatedAt :: instant

definition StateCreated :: string where "StateCreated = ''created''"
definition StateQueued :: string where "StateQueued = ''queued''"
definition StateSending :: string where "StateSending = ''sending''"
definition StateDelivered :: string where "StateDelivered = ''delivered''"
definition StateFailed :: string where "StateFailed = ''failed''"
definition StateDeadLetter :: string where "StateDeadLetter = ''dead_letter''"

lemmas state_defs = StateCreated_def StateQueued_def StateSending_def StateDelivered_def StateFailed_def
  StateDeadLetter_def

record DeliverySystem =
  ds_maxRetries :: int
  ds_retryBackoff :: string
  ds_queueWorkers :: int
  ds_batchSize :: int
  ds_rateLimitPerMin :: int

definition NewDeliverySystem :: DeliverySystem where
  "NewDeliverySystem = \<lparr>ds_maxRetries = 3, ds_retryBackoff = ''exponential'', ds_queueWorkers = 5,
     ds_batchSize = 100, ds_rateLimitPerMin = 60\<rparr>"

record delivery_history_row =
  dh_queue_id :: int
  dh_user_id :: "int option"
  dh_channel :: string
  dh_status :: string
  dh_subject :: string
  dh_body :: string
  dh_error :: string
  dh_retry_count :: int
  dh_priority :: int

text \<open>\<open>dd_sent\<close> is the log of what the channels were asked to send: queue id and recipient.\<close>

record delivery_db =
  dd_next :: int
  dd_queue :: "NotificationQueue list"
  dd_history :: "delivery_history_row list"
  dd_channels :: channel_table
  dd_sent :: "(int \<times> string) list"

section \<open>Settings\<close>

text \<open>\<^verbatim>\<open>fmt.Sscanf(value, "%d", &n)\<close> into a zero variable: blanks, an optional sign, digits; 0 on any error.\<close>

fun skip_blanks :: "string \<Rightarrow> string" where
  "skip_blanks [] = []"
| "skip_blanks (c # s) = (if ascii_space c \<and> of_char c \<noteq> (10 :: nat) then skip_blanks s else c # s)"

definition sscanf_d :: "string \<Rightarrow> int" where
  "sscanf_d s =
     (let t = skip_blanks s;
          neg = (t \<noteq> [] \<and> hd t = CHR ''-'');
          ds = takeWhile is_digit (if t \<noteq> [] \<and> (hd t = CHR ''-'' \<or> hd t = CHR ''+'') then tl t else t);
          v = (if neg then - digits_val ds else digits_val ds)
      in if ds = [] \<or> \<not> in_int64 v then 0 else v)"

definition load_int :: "(string \<rightharpoonup> string) \<Rightarrow> string \<Rightarrow> int \<Rightarrow> int" where
  "load_int config key v = (case config key of None \<Rightarrow> v | Some value \<Rightarrow> sscanf_d value)"

text \<open>\<open>config\<close>: the rows of \<^verbatim>\<open>server_config\<close> that can be read.\<close>

definition LoadSettings :: "(string \<rightharpoonup> string) \<Rightarrow> DeliverySystem \<Rightarrow> DeliverySystem" where
  "LoadSettings config ds =
     \<lparr>ds_maxRetries = load_int config ''notifications.retry_max'' (ds_maxRetries ds),
      ds_retryBackoff = (case config ''notifications.retry_backoff'' of None \<Rightarrow> ds_retryBackoff ds | Some b \<Rightarrow> b),
      ds_queueWorkers = load_int config ''notifications.queue_workers'' (ds_queueWorkers ds),
      ds_batchSize = load_int config ''notifications.batch_size'' (ds_batchSize ds),
      ds_rateLimitPerMin = load_int config ''notifications.rate_limit_per_min'' (ds_rateLimitPerMin ds)\<rparr>"

section \<open>Operations\<close>

definition Enqueue ::
  "bool \<Rightarrow> DeliverySystem \<Rightarrow> instant \<Rightarrow> int option \<Rightarrow> string \<Rightarrow> string \<Rightarrow> string \<Rightarrow> int \<Rightarrow> string \<Rightarrow> delivery_db \<Rightarrow>
     delivery_db \<times> int option" where
  "Enqueue ok ds now userID channelType subject body priority variablesJSON db =
     (if \<not> ok then (db, None)
      else (db\<lparr>dd_next := dd_next db + 1,
               dd_queue := dd_queue db @
                 [\<lparr>nq_ID = dd_next db, nq_UserID = userID, nq_ChannelType = channelType, nq_Priority = priority,
                   nq_State = StateCreated, nq_Subject = subject, nq_Body = body, nq_Variables = variablesJSON,
                   nq_RetryCount = 0, nq_MaxRetries = ds_maxRetries ds, nq_NextRetryAt = None,
                   nq_DeliveredAt = None, nq_FailedAt = None, nq_ErrorMessage = None,
                   nq_CreatedAt = now, nq_UpdatedAt = now\<rparr>]\<rparr>, Some (dd_next db)))"

definition pending_row :: "(instant \<Rightarrow> instant \<Rightarrow> bool) \<Rightarrow> instant \<Rightarrow> NotificationQueue \<Rightarrow> bool" where
  "pending_row dbLe now r \<longleftrightarrow>
     nq_State r \<in> {StateCreated, StateQueued, StateFailed} \<and>
     (case nq_NextRetryAt r of None \<Rightarrow> True | Some t \<Rightarrow> dbLe t now)"

text \<open>The LIMIT clause: a negative limit is no limit.\<close>

definition sql_limit :: "int \<Rightarrow> 'r list \<Rightarrow> 'r list" where
  "sql_limit n rows = (if n < 0 then rows else take (nat n) rows)"

text \<open>The snapshots one call of \<open>ProcessQueue\<close> hands to its goroutines; \<open>None\<close> is a query error.\<close>

definition ProcessQueue ::
  "bool \<Rightarrow> (NotificationQueue \<Rightarrow> bool) \<Rightarrow> (instant \<Rightarrow> instant \<Rightarrow> bool) \<Rightarrow> DeliverySystem \<Rightarrow> instant \<Rightarrow> delivery_db \<Rightarrow>
     NotificationQueue list option" where
  "ProcessQueue queryOk scanOk dbLe ds now db =
     (if \<not> queryOk then None
      else Some (filter scanOk (sql_limit (ds_batchSize ds)
             (sort_key (\<lambda>r. (- nq_Priority r, nq_CreatedAt r)) (filter (pending_row dbLe now) (dd_queue db))))))"

definition queue_update ::
  "bool \<Rightarrow> int \<Rightarrow> (NotificationQueue \<Rightarrow> NotificationQueue) \<Rightarrow> delivery_db \<Rightarrow> delivery_db" where
  "queue_update ok i f db = (if ok then db\<lparr>dd_queue := sql_update (\<lambda>r. nq_ID r = i) f (dd_queue db)\<rparr> else db)"

definition updateState :: "bool \<Rightarrow> int \<Rightarrow> string \<Rightarrow> instant \<Rightarrow> delivery_db \<Rightarrow> delivery_db" where
  "updateState ok i state now db = queue_update ok i (\<lambda>r. r\<lparr>nq_State := state, nq_UpdatedAt := now\<rparr>) db"

definition recordHistory :: "bool \<Rightarrow> NotificationQueue \<Rightarrow> string \<Rightarrow> string \<Rightarrow> delivery_db \<Rightarrow> delivery_db" where
  "recordHistory ok nq status errorMsg db =
     (if \<not> ok then db
      else db\<lparr>dd_history := dd_history db @
        [\<lparr>dh_queue_id = nq_ID nq, dh_user_id = nq_UserID nq, dh_channel = nq_ChannelType nq, dh_status = status,
          dh_subject = nq_Subject nq, dh_body = nq_Body nq, dh_error = errorMsg,
          dh_retry_count = nq_RetryCount nq, dh_priority = nq_Priority nq\<rparr>]\<rparr>)"

text \<open>
  Minutes before retry number \<open>retryCount\<close>. The float arithmetic is exact below the cap, and every
  larger value is cut to 60.
\<close>

definition retry_minutes :: "string \<Rightarrow> int \<Rightarrow> int" where
  "retry_minutes backoff retryCount =
     (let m = (if backoff = ''exponential'' then (if retryCount < 0 then 0 else 2 ^ nat retryCount)
               else wrap64 (retryCount * 5))
      in if m > 60 then 60 else m)"

definition calculateNextRetry :: "DeliverySystem \<Rightarrow> instant \<Rightarrow> int \<Rightarrow> instant" where
  "calculateNextRetry ds now retryCount = now + wrap64 (retry_minutes (ds_retryBackoff ds) retryCount * minute_ns)"

text \<open>The outcomes of the statements and the clock of one processing.\<close>

record deliver_io =
  io_begin_ok :: bool
  io_finish_ok :: bool
  io_history_ok :: bool
  io_stats_ok :: bool
  io_now :: instant

definition handleSuccess :: "deliver_io \<Rightarrow> NotificationQueue \<Rightarrow> delivery_db \<Rightarrow> delivery_db" where
  "handleSuccess io nq db =
     (if \<not> io_finish_ok io then db
      else let db1 = queue_update True (nq_ID nq)
                       (\<lambda>r. r\<lparr>nq_State := StateDelivered, nq_DeliveredAt := Some (io_now io), nq_UpdatedAt := io_now io\<rparr>) db;
               db2 = recordHistory (io_history_ok io) nq ''delivered'' [] db1
           in db2\<lparr>dd_channels := RecordSuccess (io_stats_ok io) (nq_ChannelType nq) (io_now io) (dd_channels db2)\<rparr>)"

definition handleFailure :: "DeliverySystem \<Rightarrow> deliver_io \<Rightarrow> NotificationQueue \<Rightarrow> string \<Rightarrow> delivery_db \<Rightarrow> delivery_db" where
  "handleFailure ds io nq0 errorMsg db =
     (let nq = nq0\<lparr>nq_RetryCount := wrap64 (nq_RetryCount nq0 + 1)\<rparr>;
          db2 = (if nq_RetryCount nq \<ge> nq_MaxRetries nq then
                   (let db1 = queue_update (io_finish_ok io) (nq_ID nq)
                        (\<lambda>r. r\<lparr>nq_State := StateDeadLetter, nq_FailedAt := Some (io_now io),
                               nq_ErrorMessage := Some errorMsg, nq_RetryCount := nq_RetryCount nq,
                               nq_UpdatedAt := io_now io\<rparr>) db
                    in if io_finish_ok io then recordHistory (io_history_ok io) nq ''dead_letter'' errorMsg db1 else db1)
                 else
                   (let nextRetry = calculateNextRetry ds (io_now io) (nq_RetryCount nq);
                        db1 = queue_update (io_finish_ok io) (nq_ID nq)
                        (\<lambda>r. r\<lparr>nq_State := StateFailed, nq_RetryCount := nq_RetryCount nq,
                               nq_NextRetryAt := Some nextRetry, nq_ErrorMessage := Some errorMsg,
                               nq_UpdatedAt := io_now io\<rparr>) db
                    in if io_finish_ok io then recordHistory (io_history_ok io) nq ''failed'' errorMsg db1 else db1))
      in db2\<lparr>dd_channels := RecordFailure (io_stats_ok io) (nq_ChannelType nq) errorMsg (io_now io) (dd_channels db2)\<rparr>)"

text \<open>
  What the recipient lookup reads from outside: the decoder of a JSON object into the printed values
  of its keys (empty on a syntax error), the enabled channel preference of a user and the e-mail
  address of an account (\<open>None\<close>: no row, or a query error).
\<close>

record recipient_env =
  re_decode :: "string \<Rightarrow> (string \<rightharpoonup> string)"
  re_preference :: "int \<Rightarrow> string \<Rightarrow> string option"
  re_email :: "int \<Rightarrow> string option"

definition getRecipient :: "recipient_env \<Rightarrow> NotificationQueue \<Rightarrow> string" where
  "getRecipient env nq =
     (let from_vars = (case re_decode env (nq_Variables nq) ''recipient'' of Some r \<Rightarrow> r | None \<Rightarrow> [])
      in case nq_UserID nq of
           None \<Rightarrow> from_vars
         | Some u \<Rightarrow>
             (let fallback = (if nq_ChannelType nq = ''email''
                              then (case re_email env u of Some e \<Rightarrow> e | None \<Rightarrow> []) else from_vars)
              in case re_preference env u (nq_ChannelType nq) of
                   None \<Rightarrow> fallback
                 | Some cfg \<Rightarrow>
                     if cfg = [] then fallback
                     else (case re_decode env cfg ''address'' of Some a \<Rightarrow> a | None \<Rightarrow> fallback)))"

definition processNotification ::
  "channel_map \<Rightarrow> recipient_env \<Rightarrow> DeliverySystem \<Rightarrow> deliver_io \<Rightarrow> NotificationQueue \<Rightarrow> delivery_db \<Rightarrow> delivery_db" where
  "processNotification chans env ds io nq db =
     (let db1 = updateState (io_begin_ok io) (nq_ID nq) StateSending (io_now io) db
      in case GetChannel chans (nq_ChannelType nq) of
           None \<Rightarrow> handleFailure ds io nq (''channel not found: channel not found: '' @ nq_ChannelType nq) db1
         | Some ch \<Rightarrow>
             (let recipient = getRecipient env nq
              in if recipient = [] then handleFailure ds io nq ''recipient not found'' db1
                 else let db2 = db1\<lparr>dd_sent := dd_sent db1 @ [(nq_ID nq, recipient)]\<rparr>
                      in case nc_send ch recipient (nq_Subject nq) (nq_Body nq) of
                           Some err \<Rightarrow> handleFailure ds io nq err db2
                         | None \<Rightarrow> handleSuccess io nq db2))"

record queue_stats =
  qs_by_state :: "string \<Rightarrow> int"
  qs_pending :: int
  qs_dead_letters :: int

text \<open>A failed count leaves 0.\<close>

definition GetQueueStats ::
  "bool \<Rightarrow> bool \<Rightarrow> bool \<Rightarrow> (instant \<Rightarrow> instant \<Rightarrow> bool) \<Rightarrow> instant \<Rightarrow> delivery_db \<Rightarrow> queue_stats option" where
  "GetQueueStats queryOk pendingOk deadOk dbLe now db =
     (if \<not> queryOk then None
      else Some \<lparr>qs_by_state = (\<lambda>st. affected (\<lambda>r. nq_State r = st) (dd_queue db)),
                 qs_pending = (if pendingOk then affected (pending_row dbLe now) (dd_queue db) else 0),
                 qs_dead_letters = (if deadOk then affected (\<lambda>r. nq_State r = StateDeadLetter) (dd_queue db) else 0)\<rparr>)"

text \<open>\<open>cutoff\<close>: now less the retention days, on the local calendar.\<close>

definition CleanupOld :: "bool \<Rightarrow> (instant \<Rightarrow> instant \<Rightarrow> bool) \<Rightarrow> instant \<Rightarrow> delivery_db \<Rightarrow> delivery_db" where
  "CleanupOld ok dbLt cutoff db =
     (if \<not> ok then db
      else db\<lparr>dd_queue := sql_delete (\<lambda>r. nq_State r = StateDelivered \<and>
             (case nq_DeliveredAt r of None \<Rightarrow> False | Some t \<Rightarrow> dbLt t cutoff)) (dd_queue db)\<rparr>)"

definition RequeueDeadLetters :: "bool \<Rightarrow> int list \<Rightarrow> instant \<Rightarrow> delivery_db \<Rightarrow> delivery_db" where
  "RequeueDeadLetters ok ids now db =
     (if ids = [] \<or> \<not> ok then db
      else db\<lparr>dd_queue := sql_update (\<lambda>r. nq_ID r \<in> set ids \<and> nq_State r = StateDeadLetter)
             (\<lambda>r. r\<lparr>nq_State := StateQueued, nq_RetryCount := 0, nq_NextRetryAt := None,
                    nq_ErrorMessage := None, nq_UpdatedAt := now\<rparr>) (dd_queue db)\<rparr>)"

section \<open>The state machine of one row\<close>

definition row_ok :: "NotificationQueue \<Rightarrow> bool" where
  "row_ok r \<longleftrightarrow>
     nq_State r \<in> {StateCreated, StateQueued, StateSending, StateDelivered, StateFailed, StateDeadLetter} \<and>
     (nq_State r \<in> {StateCreated, StateQueued} \<longrightarrow> nq_RetryCount r = 0 \<and> nq_NextRetryAt r = None) \<and>
     (nq_State r = StateDelivered \<longrightarrow> nq_DeliveredAt r \<noteq> None) \<and>
     (nq_State r = StateFailed \<longrightarrow> nq_RetryCount r < nq_MaxRetries r \<and> nq_NextRetryAt r \<noteq> None) \<and>
     (nq_State r = StateDeadLetter \<longrightarrow> nq_MaxRetries r \<le> nq_RetryCount r \<and> nq_FailedAt r \<noteq> None)"

text \<open>The changes the statements of the delivery system make to a row.\<close>

inductive row_change :: "NotificationQueue \<Rightarrow> NotificationQueue \<Rightarrow> bool" where
  begin_sending: "row_change r (r\<lparr>nq_State := StateSending, nq_UpdatedAt := now\<rparr>)"
| delivered: "row_change r (r\<lparr>nq_State := StateDelivered, nq_DeliveredAt := Some now, nq_UpdatedAt := now\<rparr>)"
| dead: "nq_MaxRetries r \<le> n \<Longrightarrow>
    row_change r (r\<lparr>nq_State := StateDeadLetter, nq_FailedAt := Some now, nq_ErrorMessage := Some e,
      nq_RetryCount := n, nq_UpdatedAt := now\<rparr>)"
| retry: "n < nq_MaxRetries r \<Longrightarrow>
    row_change r (r\<lparr>nq_State := StateFailed, nq_RetryCount := n, nq_NextRetryAt := Some t,
      nq_ErrorMessage := Some e, nq_UpdatedAt := now\<rparr>)"
| requeued: "nq_State r = StateDeadLetter \<Longrightarrow>
    row_change r (r\<lparr>nq_State := StateQueued, nq_RetryCount := 0, nq_NextRetryAt := None,
      nq_ErrorMessage := None, nq_UpdatedAt := now\<rparr>)"

interpretation queue_rows: row_machine nq_ID row_ok row_change
proof
  fix r r'
  assume "row_change r r'"
  then show "nq_ID r' = nq_ID r" by cases simp_all
  assume "row_ok r"
  with \<open>row_change r r'\<close> show "row_ok r'" by cases (auto simp: row_ok_def state_defs)
qed

section \<open>Every interleaving\<close>

text \<open>
  A state of the system: the database and the snapshots whose goroutines have not finished. Any
  number of nodes may select, and the goroutines end in any order.
\<close>

inductive deliver_step ::
  "channel_map \<Rightarrow> recipient_env \<Rightarrow> delivery_db \<times> NotificationQueue list \<Rightarrow> delivery_db \<times> NotificationQueue list \<Rightarrow> bool"
  for chans :: channel_map and env :: recipient_env where
  enqueue: "deliver_step chans env (db, snaps) (fst (Enqueue ok ds now u ch sub bdy pri vars db), snaps)"
| select: "ProcessQueue queryOk scanOk dbLe ds now db = Some batch \<Longrightarrow>
    deliver_step chans env (db, snaps) (db, batch @ snaps)"
| process: "deliver_step chans env (db, xs @ nq # ys) (processNotification chans env ds io nq db, xs @ ys)"
| crash: "deliver_step chans env (db, xs @ nq # ys)
    (updateState ok (nq_ID nq) StateSending now db, xs @ ys)"
| cleanup: "deliver_step chans env (db, snaps) (CleanupOld ok dbLt cutoff db, snaps)"
| requeue: "deliver_step chans env (db, snaps) (RequeueDeadLetters ok ids now db, snaps)"

definition snap_ok :: "delivery_db \<Rightarrow> NotificationQueue \<Rightarrow> bool" where
  "snap_ok db nq \<longleftrightarrow> nq_ID nq < dd_next db \<and>
     (\<forall>r\<in>set (dd_queue db). nq_ID r = nq_ID nq \<longrightarrow> nq_MaxRetries r = nq_MaxRetries nq)"

definition queue_inv :: "delivery_db \<Rightarrow> NotificationQueue list \<Rightarrow> bool" where
  "queue_inv db snaps \<longleftrightarrow> queue_rows.table_ok (dd_next db) (dd_queue db) \<and> (\<forall>nq\<in>set snaps. snap_ok db nq)"

text \<open>A statement on the queue that makes only legal changes keeps the invariant.\<close>

lemma change_max: "row_change r r' \<Longrightarrow> nq_MaxRetries r' = nq_MaxRetries r"
  by (erule row_change.cases) simp_all

lemma queue_inv_update:
  assumes "queue_inv db snaps" "dd_next db' = dd_next db" "dd_queue db' = sql_update P f (dd_queue db)"
    "\<And>r. r \<in> set (dd_queue db) \<Longrightarrow> P r \<Longrightarrow> row_change r (f r)"
  shows "queue_inv db' snaps"
proof -
  have keep: "nq_ID (if P r then f r else r) = nq_ID r" "nq_MaxRetries (if P r then f r else r) = nq_MaxRetries r"
    if "r \<in> set (dd_queue db)" for r
    using assms(4) [OF that] change_max [of r "f r"] queue_rows.change_key [of r "f r"] by auto
  have "snap_ok db' nq" if "snap_ok db nq" for nq
    unfolding snap_ok_def assms(2,3) sql_update_def set_map
    using that keep by (fastforce simp: snap_ok_def)
  moreover have "queue_rows.table_ok (dd_next db') (dd_queue db')"
    using queue_rows.update_ok [OF _ assms(4)] assms(1-3) by (simp add: queue_inv_def)
  ultimately show ?thesis using assms(1) by (simp add: queue_inv_def)
qed

lemma queue_inv_same:
  "queue_inv db snaps \<Longrightarrow> dd_next db' = dd_next db \<Longrightarrow> dd_queue db' = dd_queue db \<Longrightarrow> queue_inv db' snaps"
  by (simp add: queue_inv_def snap_ok_def)

lemma queue_inv_snaps: "queue_inv db snaps \<Longrightarrow> set snaps' \<subseteq> set snaps \<Longrightarrow> queue_inv db snaps'"
  by (auto simp: queue_inv_def)

lemma queue_update_inv:
  assumes "queue_inv db snaps" "\<And>r. r \<in> set (dd_queue db) \<Longrightarrow> nq_ID r = i \<Longrightarrow> row_change r (f r)"
  shows "queue_inv (queue_update ok i f db) snaps"
proof (cases ok)
  case True
  show ?thesis
    by (rule queue_inv_update [OF assms(1) _ _ assms(2)]) (simp_all add: queue_update_def True)
qed (use assms(1) in \<open>simp add: queue_update_def\<close>)

lemma updateState_inv: "queue_inv db snaps \<Longrightarrow> queue_inv (updateState ok i StateSending now db) snaps"
  unfolding updateState_def by (erule queue_update_inv) (rule row_change.begin_sending)

lemma recordHistory_queue [simp]:
  "dd_queue (recordHistory ok nq st e db) = dd_queue db" "dd_next (recordHistory ok nq st e db) = dd_next db"
  "dd_sent (recordHistory ok nq st e db) = dd_sent db"
  by (simp_all add: recordHistory_def)

lemma handleSuccess_inv:
  assumes "queue_inv db snaps"
  shows "queue_inv (handleSuccess io nq db) snaps"
proof (cases "io_finish_ok io")
  case True
  let ?db1 = "queue_update True (nq_ID nq)
     (\<lambda>r. r\<lparr>nq_State := StateDelivered, nq_DeliveredAt := Some (io_now io), nq_UpdatedAt := io_now io\<rparr>) db"
  have "queue_inv ?db1 snaps" by (rule queue_update_inv [OF assms]) (rule row_change.delivered)
  then show ?thesis by (rule queue_inv_same) (simp_all add: handleSuccess_def True Let_def)
qed (use assms in \<open>simp add: handleSuccess_def\<close>)

lemma handleFailure_inv:
  assumes "queue_inv db snaps" "snap_ok db nq"
  shows "queue_inv (handleFailure ds io nq e db) snaps"
proof -
  let ?n = "wrap64 (nq_RetryCount nq + 1)"
  have mx: "nq_MaxRetries r = nq_MaxRetries nq" if "r \<in> set (dd_queue db)" "nq_ID r = nq_ID nq" for r
    using assms(2) that by (simp add: snap_ok_def)
  show ?thesis
  proof (cases "nq_MaxRetries nq \<le> ?n")
    case True
    have "queue_inv (queue_update (io_finish_ok io) (nq_ID nq)
        (\<lambda>r. r\<lparr>nq_State := StateDeadLetter, nq_FailedAt := Some (io_now io), nq_ErrorMessage := Some e,
               nq_RetryCount := ?n, nq_UpdatedAt := io_now io\<rparr>) db) snaps"
      by (rule queue_update_inv [OF assms(1)]) (rule row_change.dead, simp add: mx True)
    then show ?thesis by (rule queue_inv_same) (simp_all add: handleFailure_def True Let_def)
  next
    case False
    have "queue_inv (queue_update (io_finish_ok io) (nq_ID nq)
        (\<lambda>r. r\<lparr>nq_State := StateFailed, nq_RetryCount := ?n,
               nq_NextRetryAt := Some (calculateNextRetry ds (io_now io) ?n), nq_ErrorMessage := Some e,
               nq_UpdatedAt := io_now io\<rparr>) db) snaps"
      by (rule queue_update_inv [OF assms(1)]) (rule row_change.retry, use mx False in force)
    then show ?thesis by (rule queue_inv_same) (simp_all add: handleFailure_def False Let_def)
  qed
qed

lemma processNotification_inv:
  assumes "queue_inv db snaps" "nq \<in> set snaps"
  shows "queue_inv (processNotification chans env ds io nq db) snaps"
proof -
  let ?db1 = "updateState (io_begin_ok io) (nq_ID nq) StateSending (io_now io) db"
  have i1: "queue_inv ?db1 snaps" using assms(1) by (rule updateState_inv)
  have i2: "queue_inv (?db1\<lparr>dd_sent := x\<rparr>) snaps" for x by (rule queue_inv_same [OF i1]) simp_all
  have s1: "snap_ok ?db1 nq" using i1 assms(2) by (simp add: queue_inv_def)
  then have s2: "snap_ok (?db1\<lparr>dd_sent := x\<rparr>) nq" for x by (simp add: snap_ok_def)
  show ?thesis
    by (auto simp: processNotification_def Let_def handleFailure_inv [OF i1 s1] handleFailure_inv [OF i2 s2]
        handleSuccess_inv [OF i2] split: option.splits)
qed

lemma Enqueue_inv:
  assumes "queue_inv db snaps"
  shows "queue_inv (fst (Enqueue ok ds now u ch sub bdy pri vars db)) snaps"
proof (cases ok)
  case True
  let ?db = "fst (Enqueue ok ds now u ch sub bdy pri vars db)"
  have "queue_rows.table_ok (dd_next ?db) (dd_queue ?db)"
    using assms queue_rows.insert_ok [of "dd_next db" "dd_queue db"]
    by (simp add: Enqueue_def True queue_inv_def row_ok_def state_defs)
  moreover have "snap_ok ?db nq" if "snap_ok db nq" for nq
    using that by (auto simp: snap_ok_def Enqueue_def True)
  ultimately show ?thesis using assms by (simp add: queue_inv_def)
qed (use assms in \<open>simp add: Enqueue_def\<close>)

lemma ProcessQueue_subset:
  assumes "ProcessQueue queryOk scanOk dbLe ds now db = Some batch" "nq \<in> set batch"
  shows "nq \<in> set (dd_queue db) \<and> pending_row dbLe now nq"
proof -
  have "set (sql_limit n rows) \<subseteq> set rows" for n and rows :: "NotificationQueue list"
    by (auto simp: sql_limit_def dest: in_set_takeD)
  with assms show ?thesis by (fastforce simp: ProcessQueue_def split: if_splits)
qed

lemma deliver_step_inv:
  assumes "deliver_step chans env c c'" "queue_inv (fst c) (snd c)"
  shows "queue_inv (fst c') (snd c')"
  using assms
proof (induction rule: deliver_step.induct)
  case (enqueue db snaps ok ds now u ch sub bdy pri vars)
  then show ?case by (simp add: Enqueue_inv)
next
  case (select queryOk scanOk dbLe ds now db batch snaps)
  have "snap_ok db nq" if "nq \<in> set batch" for nq
  proof -
    have "nq \<in> set (dd_queue db)" using ProcessQueue_subset [OF select.hyps that] by simp
    with select.prems show ?thesis
      by (auto simp: snap_ok_def queue_inv_def queue_rows.table_ok_def distinct_map inj_on_def)
  qed
  with select.prems show ?case by (auto simp: queue_inv_def)
next
  case (process db xs nq ys ds io)
  then have "queue_inv (processNotification chans env ds io nq db) (xs @ nq # ys)"
    by (simp add: processNotification_inv)
  then show ?case by (auto intro: queue_inv_snaps)
next
  case (crash db xs nq ys ok now)
  then have "queue_inv (updateState ok (nq_ID nq) StateSending now db) (xs @ nq # ys)"
    by (simp add: updateState_inv)
  then show ?case by (auto intro: queue_inv_snaps)
next
  case (cleanup db snaps ok dbLt cutoff)
  then show ?case
    by (auto simp: CleanupOld_def queue_inv_def snap_ok_def queue_rows.delete_ok in_set_sql_delete)
next
  case (requeue db snaps ok ids now)
  show ?case
  proof (cases "ids = [] \<or> \<not> ok")
    case False
    have "queue_inv (RequeueDeadLetters ok ids now db) snaps"
      by (rule queue_inv_update [where db = db and P = "\<lambda>r. nq_ID r \<in> set ids \<and> nq_State r = StateDeadLetter"
            and f = "\<lambda>r. r\<lparr>nq_State := StateQueued, nq_RetryCount := 0, nq_NextRetryAt := None,
                    nq_ErrorMessage := None, nq_UpdatedAt := now\<rparr>"])
         (use requeue False in \<open>auto simp: RequeueDeadLetters_def intro: row_change.requeued\<close>)
    then show ?thesis by simp
  qed (use requeue in \<open>auto simp: RequeueDeadLetters_def\<close>)
qed

definition empty_queue :: delivery_db where
  "empty_queue = \<lparr>dd_next = 1, dd_queue = [], dd_history = [], dd_channels = Map.empty, dd_sent = []\<rparr>"

text \<open>
  C7. The queue stays consistent in every interleaving of enqueuers, selecting nodes, delivery
  goroutines, crashes, clean-up and requeueing, with any outcome of the statements: row ids are
  unique, every row is in one of the six states, a row waiting for a retry has a retry time and
  attempts left, a dead letter has used all its attempts, and a delivered row has its time.
\<close>

theorem delivery_queue_invariant:
  assumes "(deliver_step chans env)\<^sup>*\<^sup>* (empty_queue, []) (db, snaps)"
  shows "distinct (map nq_ID (dd_queue db)) \<and> (\<forall>r\<in>set (dd_queue db). row_ok r \<and> nq_ID r < dd_next db)"
proof -
  have "queue_inv (fst c') (snd c')" if "(deliver_step chans env)\<^sup>*\<^sup>* (empty_queue, []) c'" for c'
    using that
  proof (induction rule: rtranclp_induct)
    case base
    show ?case by (simp add: queue_inv_def empty_queue_def queue_rows.table_ok_def)
  qed (rule deliver_step_inv)
  from this [OF assms] show ?thesis by (simp add: queue_inv_def queue_rows.table_ok_def)
qed

definition no_env :: recipient_env where
  "no_env = \<lparr>re_decode = (\<lambda>t. if t = [] then Map.empty else [''recipient'' \<mapsto> t]), re_preference = (\<lambda>u c. None), re_email = (\<lambda>u. None)\<rparr>"

definition fail_channel :: NotificationChannel where
  "fail_channel = \<lparr>nc_send = (\<lambda>r s b. Some ''timeout''), nc_test = (\<lambda>r. None)\<rparr>"

definition good_channel :: NotificationChannel where
  "good_channel = \<lparr>nc_send = (\<lambda>r s b. None), nc_test = (\<lambda>r. None)\<rparr>"

definition deliver_ok :: deliver_io where
  "deliver_ok = \<lparr>io_begin_ok = True, io_finish_ok = True, io_history_ok = True, io_stats_ok = True, io_now = 7\<rparr>"

theorem delivery_queue_invariant_witness:
  "distinct (map nq_ID (dd_queue (fst (Enqueue True NewDeliverySystem 3 None ''email'' ''s'' ''b'' 5 [] empty_queue))))"
proof -
  have "(deliver_step Map.empty no_env)\<^sup>*\<^sup>* (empty_queue, [])
      (fst (Enqueue True NewDeliverySystem 3 None ''email'' ''s'' ''b'' 5 [] empty_queue), [])"
    by (rule r_into_rtranclp) (rule deliver_step.enqueue)
  from delivery_queue_invariant [OF this] show ?thesis by blast
qed

section \<open>One worker: the attempts are bounded\<close>

text \<open>An attempt on the row with id \<open>i\<close>, from a snapshot taken just before.\<close>

definition attempt ::
  "channel_map \<Rightarrow> recipient_env \<Rightarrow> DeliverySystem \<Rightarrow> int \<Rightarrow> deliver_io \<Rightarrow> delivery_db \<Rightarrow> delivery_db" where
  "attempt chans env ds i io db =
     (case sql_lookup nq_ID i (dd_queue db) of
        None \<Rightarrow> db
      | Some r \<Rightarrow> if nq_State r \<in> {StateCreated, StateQueued, StateFailed}
                  then processNotification chans env ds io r db else db)"

definition attempts ::
  "channel_map \<Rightarrow> recipient_env \<Rightarrow> DeliverySystem \<Rightarrow> int \<Rightarrow> deliver_io list \<Rightarrow> delivery_db \<Rightarrow> delivery_db" where
  "attempts chans env ds i ios db = foldl (\<lambda>d io. attempt chans env ds i io d) db ios"

text \<open>The channel refuses every message, or there is no channel at all.\<close>

definition always_fails :: "channel_map \<Rightarrow> string \<Rightarrow> bool" where
  "always_fails chans ty \<longleftrightarrow> (case chans ty of None \<Rightarrow> True | Some ch \<Rightarrow> \<forall>to su bo. nc_send ch to su bo \<noteq> None)"

lemma queue_update_lookup:
  assumes "\<And>r. nq_ID (f r) = nq_ID r" "sql_lookup nq_ID i (dd_queue db) = Some r"
  shows "sql_lookup nq_ID i (dd_queue (queue_update True i f db)) = Some (f r)"
  using assms sql_lookup_Some [OF assms(2)] by (simp add: queue_update_def sql_update_lookup)

lemma handleFailure_lookup:
  assumes "sql_lookup nq_ID (nq_ID nq) (dd_queue db) = Some r" "io_finish_ok io"
  shows "\<exists>q. sql_lookup nq_ID (nq_ID nq) (dd_queue (handleFailure ds io nq e db)) = Some q \<and>
    nq_RetryCount q = wrap64 (nq_RetryCount nq + 1) \<and> nq_MaxRetries q = nq_MaxRetries r \<and>
    nq_ChannelType q = nq_ChannelType r \<and>
    nq_State q = (if nq_MaxRetries nq \<le> wrap64 (nq_RetryCount nq + 1) then StateDeadLetter else StateFailed)"
  by (simp add: handleFailure_def Let_def assms queue_update_lookup [OF _ assms(1)])

lemma attempt_fails:
  assumes "sql_lookup nq_ID i (dd_queue db) = Some r" "nq_State r \<in> {StateCreated, StateQueued, StateFailed}"
    "always_fails chans (nq_ChannelType r)" "io_finish_ok io"
  shows "\<exists>q. sql_lookup nq_ID i (dd_queue (attempt chans env ds i io db)) = Some q \<and>
    nq_RetryCount q = wrap64 (nq_RetryCount r + 1) \<and> nq_MaxRetries q = nq_MaxRetries r \<and>
    nq_ChannelType q = nq_ChannelType r \<and>
    nq_State q = (if nq_MaxRetries r \<le> wrap64 (nq_RetryCount r + 1) then StateDeadLetter else StateFailed)"
proof -
  have i: "nq_ID r = i" using sql_lookup_Some [OF assms(1)] by simp
  let ?db1 = "updateState (io_begin_ok io) i StateSending (io_now io) db"
  obtain r1 where r1: "sql_lookup nq_ID i (dd_queue ?db1) = Some r1" "nq_MaxRetries r1 = nq_MaxRetries r"
      "nq_ChannelType r1 = nq_ChannelType r"
    using assms(1) queue_update_lookup [of "\<lambda>r. r\<lparr>nq_State := StateSending, nq_UpdatedAt := io_now io\<rparr>" i db r]
    by (cases "io_begin_ok io") (auto simp: updateState_def queue_update_def)
  have "\<exists>e d. processNotification chans env ds io r db = handleFailure ds io r e d \<and> dd_queue d = dd_queue ?db1"
  proof (cases "chans (nq_ChannelType r)")
    case None
    with i show ?thesis by (auto simp: processNotification_def GetChannel_def)
  next
    case (Some ch)
    then have "nc_send ch (getRecipient env r) (nq_Subject r) (nq_Body r) \<noteq> None"
      using assms(3) by (simp add: always_fails_def)
    then obtain e where e: "nc_send ch (getRecipient env r) (nq_Subject r) (nq_Body r) = Some e" by blast
    let ?d = "if getRecipient env r = [] then ?db1 else ?db1\<lparr>dd_sent := dd_sent ?db1 @ [(i, getRecipient env r)]\<rparr>"
    from Some e i show ?thesis
      by (intro exI [of _ "if getRecipient env r = [] then ''recipient not found'' else e"] exI [of _ ?d])
         (simp add: processNotification_def GetChannel_def Let_def)
  qed
  then obtain e d where fx: "attempt chans env ds i io db = handleFailure ds io r e d" "dd_queue d = dd_queue ?db1"
    using assms(1,2) by (auto simp: attempt_def)
  show ?thesis
    unfolding fx(1) using handleFailure_lookup [of r d r1 io ds e] r1 i assms(4) fx(2) by simp
qed

lemma attempts_dead:
  assumes "sql_lookup nq_ID i (dd_queue db) = Some r" "nq_State r = StateDeadLetter"
  shows "attempts chans env ds i ios db = db"
  using assms by (induction ios) (auto simp: attempts_def attempt_def state_defs)

lemma attempts_failing:
  assumes "sql_lookup nq_ID i (dd_queue db) = Some r" "nq_State r \<in> {StateCreated, StateQueued, StateFailed}"
    "0 \<le> nq_RetryCount r" "nq_RetryCount r < max 1 (nq_MaxRetries r)" "nq_MaxRetries r < 2 ^ 63"
    "always_fails chans (nq_ChannelType r)" "\<forall>io\<in>set ios. io_finish_ok io"
  shows "\<exists>q. sql_lookup nq_ID i (dd_queue (attempts chans env ds i ios db)) = Some q \<and>
    nq_RetryCount q = min (nq_RetryCount r + int (length ios)) (max 1 (nq_MaxRetries r)) \<and>
    nq_State q = (if ios = [] then nq_State r
                  else if nq_RetryCount r + int (length ios) < max 1 (nq_MaxRetries r) then StateFailed else StateDeadLetter)"
  using assms
proof (induction ios arbitrary: db r)
  case (Cons io ios)
  have w: "wrap64 (nq_RetryCount r + 1) = nq_RetryCount r + 1"
    using Cons.prems(3-5) by (simp add: in_int64_def int64_min_def int64_max_def max_def split: if_splits)
  obtain q where q: "sql_lookup nq_ID i (dd_queue (attempt chans env ds i io db)) = Some q"
      "nq_RetryCount q = nq_RetryCount r + 1" "nq_MaxRetries q = nq_MaxRetries r" "nq_ChannelType q = nq_ChannelType r"
      "nq_State q = (if nq_MaxRetries r \<le> nq_RetryCount r + 1 then StateDeadLetter else StateFailed)"
    using attempt_fails [OF Cons.prems(1,2,6), of io env ds] Cons.prems(7) w by auto
  have step: "attempts chans env ds i (io # ios) db = attempts chans env ds i ios (attempt chans env ds i io db)"
    by (simp add: attempts_def)
  show ?case
  proof (cases "nq_MaxRetries r \<le> nq_RetryCount r + 1")
    case True
    with q have "attempts chans env ds i ios (attempt chans env ds i io db) = attempt chans env ds i io db"
      by (intro attempts_dead) simp_all
    with q True step Cons.prems(3,4) show ?thesis by auto
  next
    case False
    with q Cons.prems have "\<exists>p. sql_lookup nq_ID i (dd_queue (attempts chans env ds i ios (attempt chans env ds i io db))) = Some p \<and>
      nq_RetryCount p = min (nq_RetryCount q + int (length ios)) (max 1 (nq_MaxRetries q)) \<and>
      nq_State p = (if ios = [] then nq_State q
          else if nq_RetryCount q + int (length ios) < max 1 (nq_MaxRetries q) then StateFailed else StateDeadLetter)"
      by (intro Cons.IH) simp_all
    with q False step show ?thesis by auto
  qed
qed (simp add: attempts_def)

text \<open>
  C8. A notification whose deliveries keep failing is tried a bounded number of times: with one
  worker whose statements succeed, after any number of attempts the row has counted each attempt up
  to its limit (at least one), waits for a retry while attempts are left and is a dead letter from
  then on, which no further attempt changes.
\<close>

theorem delivery_attempts_bounded:
  assumes "sql_lookup nq_ID i (dd_queue db) = Some r" "nq_State r \<in> {StateCreated, StateQueued}"
    "nq_RetryCount r = 0" "nq_MaxRetries r < 2 ^ 63" "always_fails chans (nq_ChannelType r)"
    "\<forall>io\<in>set ios. io_finish_ok io" "ios \<noteq> []"
  shows "\<exists>q. sql_lookup nq_ID i (dd_queue (attempts chans env ds i ios db)) = Some q \<and>
    nq_RetryCount q = min (int (length ios)) (max 1 (nq_MaxRetries r)) \<and>
    nq_State q = (if int (length ios) < max 1 (nq_MaxRetries r) then StateFailed else StateDeadLetter)"
proof -
  have "nq_State r \<in> {StateCreated, StateQueued, StateFailed}" "0 \<le> nq_RetryCount r"
    "nq_RetryCount r < max 1 (nq_MaxRetries r)" using assms(2,3) by auto
  from attempts_failing [OF assms(1) this assms(4,5,6), of env ds] assms(3,7) show ?thesis
    by (simp only: add_0 if_False)
qed

definition one_mail :: delivery_db where
  "one_mail = fst (Enqueue True NewDeliverySystem 3 None ''email'' ''s'' ''b'' 5 ''me'' empty_queue)"

theorem delivery_attempts_bounded_witness:
  "\<exists>q. sql_lookup nq_ID 1 (dd_queue (attempts [''email'' \<mapsto> fail_channel] no_env NewDeliverySystem 1
      [deliver_ok, deliver_ok, deliver_ok, deliver_ok] one_mail)) = Some q \<and>
     nq_RetryCount q = 3 \<and> nq_State q = StateDeadLetter"
proof -
  obtain r where r: "sql_lookup nq_ID 1 (dd_queue one_mail) = Some r" "nq_State r = StateCreated"
      "nq_RetryCount r = 0" "nq_MaxRetries r = 3" "nq_ChannelType r = ''email''"
    by (simp add: one_mail_def Enqueue_def empty_queue_def NewDeliverySystem_def)
  have "always_fails [''email'' \<mapsto> fail_channel] (nq_ChannelType r)"
    by (simp add: always_fails_def r(5) fail_channel_def)
  then show ?thesis
    using delivery_attempts_bounded [OF r(1), of "[''email'' \<mapsto> fail_channel]"
        "[deliver_ok, deliver_ok, deliver_ok, deliver_ok]" no_env NewDeliverySystem] r
    by (simp add: deliver_ok_def)
qed

section \<open>The delay before a retry\<close>

lemma exp_minutes: "0 \<le> n \<Longrightarrow> retry_minutes ''exponential'' n = min 60 (2 ^ nat n)"
  by (simp add: retry_minutes_def min_def Let_def)

lemma linear_minutes:
  "b \<noteq> ''exponential'' \<Longrightarrow> 0 \<le> n \<Longrightarrow> n < 2 ^ 60 \<Longrightarrow> retry_minutes b n = min 60 (5 * n)"
  by (simp add: retry_minutes_def Let_def in_int64_def int64_min_def int64_max_def min_def)

lemma calculateNextRetry_eq:
  "0 \<le> retry_minutes (ds_retryBackoff ds) n \<Longrightarrow> retry_minutes (ds_retryBackoff ds) n \<le> 60 \<Longrightarrow>
     calculateNextRetry ds now n = now + retry_minutes (ds_retryBackoff ds) n * minute_ns"
  by (simp add: calculateNextRetry_def in_int64_def int64_min_def int64_max_def unit_defs)

text \<open>
  A retry is always in the near future and retries never come closer together: for retry
  number \<open>n \<ge> 1\<close> the next attempt is scheduled at least one minute and at most an hour after the failure,
  with either strategy, not earlier than that of a smaller retry number; the exponential delays
  start at 2, 4, 8, 16 and 32 minutes.
\<close>

lemma calculateNextRetry_bounds:
  assumes "1 \<le> m" "m \<le> n" "n < 2 ^ 60"
  shows "now + minute_ns \<le> calculateNextRetry ds now m \<and>
    calculateNextRetry ds now m \<le> calculateNextRetry ds now n \<and>
    calculateNextRetry ds now n \<le> now + 60 * minute_ns \<and>
    (ds_retryBackoff ds = ''exponential'' \<longrightarrow>
       map (\<lambda>k. calculateNextRetry ds now k - now) [1, 2, 3, 4, 5, 6] = map (\<lambda>k. k * minute_ns) [2, 4, 8, 16, 32, 60])"
proof -
  let ?f = "retry_minutes (ds_retryBackoff ds)"
  have r: "1 \<le> ?f k \<and> ?f k \<le> 60" if "1 \<le> k" "k < 2 ^ 60" for k
  proof (cases "ds_retryBackoff ds = ''exponential''")
    case True
    have "(1::int) \<le> 2 ^ nat k" by simp
    with True that exp_minutes [of k] show ?thesis by (simp add: min_def)
  qed (use that linear_minutes in simp)
  have mono: "?f m \<le> ?f n"
  proof (cases "ds_retryBackoff ds = ''exponential''")
    case True
    have "(2::int) ^ nat m \<le> 2 ^ nat n" using assms(1,2) by (intro power_increasing) auto
    then have "min 60 (2 ^ nat m) \<le> min 60 ((2::int) ^ nat n)" by (rule min.mono [OF order_refl])
    with True assms(1,2) show ?thesis by (simp add: exp_minutes)
  qed (use assms linear_minutes in simp)
  have e: "calculateNextRetry ds now k = now + ?f k * minute_ns" if "1 \<le> k" "k < 2 ^ 60" for k
    using r [OF that] by (intro calculateNextRetry_eq) auto
  have c: "minute_ns \<le> a * minute_ns" "b * minute_ns \<le> 60 * minute_ns" "a * minute_ns \<le> b * minute_ns"
    if "1 \<le> a" "a \<le> b" "b \<le> 60" for a b :: int using that by (simp_all add: unit_defs)
  have "1 \<le> ?f m" "?f n \<le> 60" using r [of m] r [of n] assms by simp_all
  note c = c [OF this(1) mono this(2)]
  have "map (\<lambda>k. calculateNextRetry ds now k - now) [1, 2, 3, 4, 5, 6] = map (\<lambda>k. k * minute_ns) [2, 4, 8, 16, 32, 60]"
    if "ds_retryBackoff ds = ''exponential''"
    using that by (simp add: e exp_minutes)
  with c e [of m] e [of n] assms show ?thesis by simp
qed

lemma calculateNextRetry_bounds_example:
  "calculateNextRetry NewDeliverySystem 0 1 \<le> calculateNextRetry NewDeliverySystem 0 7"
  using calculateNextRetry_bounds [of 1 7 0 NewDeliverySystem] by simp

section \<open>Two nodes and crashes\<close>

text \<open>
  Nothing claims a row before it is sent: the queue task is not one of the cluster-wide tasks, and
  when two nodes select before either has marked the row, both hold the same notification and both
  send it, so that the recipient gets it twice.
\<close>

lemma delivery_sent_twice:
  "\<exists>nq. \<not> isGlobalTask ''process-notification-queue'' \<and>
     ProcessQueue True (\<lambda>r. True) (\<le>) NewDeliverySystem 5 one_mail = Some [nq] \<and>
     (deliver_step [''email'' \<mapsto> good_channel] no_env)\<^sup>*\<^sup>* (one_mail, [])
       (processNotification [''email'' \<mapsto> good_channel] no_env NewDeliverySystem deliver_ok nq
          (processNotification [''email'' \<mapsto> good_channel] no_env NewDeliverySystem deliver_ok nq one_mail), []) \<and>
     dd_sent (processNotification [''email'' \<mapsto> good_channel] no_env NewDeliverySystem deliver_ok nq
          (processNotification [''email'' \<mapsto> good_channel] no_env NewDeliverySystem deliver_ok nq one_mail))
       = [(1, ''me''), (1, ''me'')]"
proof -
  let ?c = "[''email'' \<mapsto> good_channel]"
  obtain nq where nq: "ProcessQueue True (\<lambda>r. True) (\<le>) NewDeliverySystem 5 one_mail = Some [nq]"
      "nq_ID nq = 1" "nq_ChannelType nq = ''email''" "nq_UserID nq = None" "nq_Variables nq = ''me''"
    by (simp add: ProcessQueue_def one_mail_def Enqueue_def empty_queue_def NewDeliverySystem_def pending_row_def
        sql_limit_def)
  let ?p = "processNotification ?c no_env NewDeliverySystem deliver_ok nq"
  have "deliver_step ?c no_env (one_mail, []) (one_mail, [nq] @ [])" by (rule deliver_step.select [OF nq(1)])
  moreover have "deliver_step ?c no_env (one_mail, [nq]) (one_mail, [nq] @ [nq])" by (rule deliver_step.select [OF nq(1)])
  moreover have "deliver_step ?c no_env (one_mail, [] @ nq # [nq]) (?p one_mail, [] @ [nq])" by (rule deliver_step.process)
  moreover have "deliver_step ?c no_env (?p one_mail, [] @ nq # []) (?p (?p one_mail), [] @ [])" by (rule deliver_step.process)
  ultimately have steps: "(deliver_step ?c no_env)\<^sup>*\<^sup>* (one_mail, []) (?p (?p one_mail), [])"
    by (auto intro: converse_rtranclp_into_rtranclp)
  have "dd_sent (?p db) = dd_sent db @ [(1, ''me'')]" for db
    by (simp add: processNotification_def GetChannel_def getRecipient_def no_env_def nq good_channel_def handleSuccess_def
        deliver_ok_def updateState_def queue_update_def Let_def)
  moreover have "dd_sent one_mail = []" by (simp add: one_mail_def Enqueue_def empty_queue_def)
  ultimately have "dd_sent (?p (?p one_mail)) = [(1, ''me''), (1, ''me'')]" by simp
  with steps nq(1) show ?thesis by (auto simp: isGlobalTask_def globalTasks_def)
qed

text \<open>
  A notification whose goroutine died after marking it is stranded: a row in state sending is
  selected by no batch, and no batch, clean-up or requeue request changes it.
\<close>

lemma sending_row_stranded:
  assumes "r \<in> set (dd_queue db)" "nq_State r = StateSending"
  shows "(\<forall>queryOk scanOk dbLe ds now batch. ProcessQueue queryOk scanOk dbLe ds now db = Some batch \<longrightarrow> r \<notin> set batch) \<and>
    r \<in> set (dd_queue (CleanupOld ok dbLt cutoff db)) \<and> r \<in> set (dd_queue (RequeueDeadLetters ok ids now' db))"
proof (intro conjI allI impI)
  fix queryOk scanOk dbLe ds now batch
  assume "ProcessQueue queryOk scanOk dbLe ds now db = Some batch"
  from ProcessQueue_subset [OF this, of r] assms(2) show "r \<notin> set batch" by (auto simp: pending_row_def state_defs)
next
  show "r \<in> set (dd_queue (CleanupOld ok dbLt cutoff db))"
    using assms by (simp add: CleanupOld_def in_set_sql_delete state_defs)
  show "r \<in> set (dd_queue (RequeueDeadLetters ok ids now' db))"
    using assms by (force simp: RequeueDeadLetters_def sql_update_def state_defs)
qed

lemma sending_row_stranded_example:
  "\<exists>r. r \<in> set (dd_queue (updateState True 1 StateSending 4 one_mail)) \<and>
     (\<forall>batch. ProcessQueue True (\<lambda>r. True) (\<le>) NewDeliverySystem 9 (updateState True 1 StateSending 4 one_mail) = Some batch
        \<longrightarrow> r \<notin> set batch)"
proof -
  obtain r where "r \<in> set (dd_queue (updateState True 1 StateSending 4 one_mail))" "nq_State r = StateSending"
    by (simp add: updateState_def queue_update_def sql_update_def one_mail_def Enqueue_def empty_queue_def)
  from this(1) sending_row_stranded [OF this] show ?thesis by blast
qed

end
