(* ===== verification/Sessions.thy ===== *)
theory Sessions
  imports Sql_Table Dbtime
begin

text \<open>
  User sessions, \<^verbatim>\<open>src/server/model/session.go\<close>: the table \<^verbatim>\<open>user_sessions\<close> keyed by the hash of the
  bearer token, and every operation of \<^verbatim>\<open>SessionModel\<close>. The token hash (SHA-256 in hexadecimal) and the
  random token are arguments, as are the outcomes of the statements and the clock readings.
\<close>

section \<open>State\<close>

record session_row =
  us_id :: int
  us_token_hash :: string
  us_user_id :: int
  us_data :: "string option"
  us_expires_at :: scanned
  us_created_at :: scanned
  us_ip_address :: "string option"
  us_user_agent :: "string option"
  us_last_used_at :: scanned

record session_table =
  st_next :: int
  st_rows :: "session_row list"

record Session =
  ses_ID :: string
  ses_UserID :: int
  ses_Data :: "string option"
  ses_ExpiresAt :: instant
  ses_CreatedAt :: instant

datatype session_error =
    InvalidUserIDType
  | GenerateFailed
  | CreateFailed
  | SessionNotFound
  | QueryFailed
  | SessionExpired
  | ExpiredCleanupFailed
  | BadSessionData
  | WriteFailed

type_synonym token_hash = "string \<Rightarrow> string"

section \<open>Operations\<close>

text \<open>The two integer types of a user id, and anything else.\<close>

datatype user_id = UidInt int | UidInt64 int | UidOther

record create_io =
  cr_token :: "string option"
  cr_expiry_base :: instant
  cr_now :: instant
  cr_insert_ok :: bool

text \<open>The UNIQUE constraint on the hash makes a second row with the same hash an error.\<close>

definition CreateSession ::
  "token_hash \<Rightarrow> create_io \<Rightarrow> user_id \<Rightarrow> int \<Rightarrow> session_table \<Rightarrow> session_table \<times> (session_error + Session)" where
  "CreateSession hash io userID sessionTimeout t =
     (case (case userID of UidInt v \<Rightarrow> Some v | UidInt64 v \<Rightarrow> Some v | UidOther \<Rightarrow> None) of
        None \<Rightarrow> (t, Inl InvalidUserIDType)
      | Some uid \<Rightarrow>
          (case cr_token io of
             None \<Rightarrow> (t, Inl GenerateFailed)
           | Some rawToken \<Rightarrow>
               (let expiresAt = cr_expiry_base io + wrap64 (sessionTimeout * second_ns);
                    taken = (\<exists>r\<in>set (st_rows t). us_token_hash r = hash rawToken)
                in if \<not> cr_insert_ok io \<or> taken then (t, Inl CreateFailed)
                   else (\<lparr>st_next = st_next t + 1,
                          st_rows = st_rows t @
                            [\<lparr>us_id = st_next t, us_token_hash = hash rawToken, us_user_id = uid, us_data = None,
                              us_expires_at = VStr (FormatSQLTimestamp expiresAt),
                              us_created_at = VStr (FormatSQLTimestamp (cr_now io)),
                              us_ip_address = None, us_user_agent = None, us_last_used_at = VNil\<rparr>]\<rparr>,
                         Inr \<lparr>ses_ID = rawToken, ses_UserID = uid, ses_Data = None, ses_ExpiresAt = expiresAt,
                              ses_CreatedAt = cr_now io\<rparr>))))"

definition DeleteSession :: "token_hash \<Rightarrow> bool \<Rightarrow> string \<Rightarrow> session_table \<Rightarrow> session_table \<times> bool" where
  "DeleteSession hash ok rawToken t =
     (if ok then (t\<lparr>st_rows := sql_delete (\<lambda>r. us_token_hash r = hash rawToken) (st_rows t)\<rparr>, True) else (t, False))"

text \<open>\<open>decodes\<close>: whether the stored data is valid JSON.\<close>

record get_io =
  gt_query_ok :: bool
  gt_delete_ok :: bool
  gt_now :: instant

definition GetByID ::
  "token_hash \<Rightarrow> (string \<Rightarrow> bool) \<Rightarrow> get_io \<Rightarrow> string \<Rightarrow> session_table \<Rightarrow> session_table \<times> (session_error + Session)" where
  "GetByID hash decodes io rawToken t =
     (if \<not> gt_query_ok io then (t, Inl QueryFailed)
      else case sql_lookup us_token_hash (hash rawToken) (st_rows t) of
        None \<Rightarrow> (t, Inl SessionNotFound)
      | Some r \<Rightarrow>
          (let createdAt = (case ParseStoredTimestamp (us_created_at r) of Some c \<Rightarrow> c | None \<Rightarrow> zero_time);
               expired = (case DeleteSession hash (gt_delete_ok io) rawToken t of
                   (t', True) \<Rightarrow> (t', Inl SessionExpired)
                 | (t', False) \<Rightarrow> (t', Inl ExpiredCleanupFailed))
           in case ParseStoredTimestamp (us_expires_at r) of
                None \<Rightarrow> expired
              | Some expiresAt \<Rightarrow>
                  if \<not> gt_now io < expiresAt then expired
                  else
                    (case us_data r of
                       Some d \<Rightarrow>
                         if d \<noteq> [] \<and> \<not> decodes d then (t, Inl BadSessionData)
                         else (t, Inr \<lparr>ses_ID = rawToken, ses_UserID = us_user_id r,
                                       ses_Data = (if d = [] then None else Some d),
                                       ses_ExpiresAt = expiresAt, ses_CreatedAt = createdAt\<rparr>)
                     | None \<Rightarrow>
                         (t, Inr \<lparr>ses_ID = rawToken, ses_UserID = us_user_id r, ses_Data = None,
                                  ses_ExpiresAt = expiresAt, ses_CreatedAt = createdAt\<rparr>))))"

definition session_update ::
  "token_hash \<Rightarrow> bool \<Rightarrow> string \<Rightarrow> (session_row \<Rightarrow> session_row) \<Rightarrow> session_table \<Rightarrow> session_table \<times> bool" where
  "session_update hash ok rawToken f t =
     (if ok then (t\<lparr>st_rows := sql_update (\<lambda>r. us_token_hash r = hash rawToken) f (st_rows t)\<rparr>, True) else (t, False))"

definition UpdateData :: "token_hash \<Rightarrow> bool \<Rightarrow> string \<Rightarrow> string \<Rightarrow> session_table \<Rightarrow> session_table \<times> bool" where
  "UpdateData hash ok rawToken dataJSON t = session_update hash ok rawToken (\<lambda>r. r\<lparr>us_data := Some dataJSON\<rparr>) t"

definition Extend :: "token_hash \<Rightarrow> bool \<Rightarrow> instant \<Rightarrow> string \<Rightarrow> int \<Rightarrow> session_table \<Rightarrow> session_table \<times> bool" where
  "Extend hash ok now rawToken sessionTimeout t =
     session_update hash ok rawToken
       (\<lambda>r. r\<lparr>us_expires_at := VStr (FormatSQLTimestamp (now + wrap64 (sessionTimeout * second_ns)))\<rparr>) t"

definition DeleteByUserID :: "bool \<Rightarrow> int \<Rightarrow> session_table \<Rightarrow> session_table \<times> bool" where
  "DeleteByUserID ok userID t =
     (if ok then (t\<lparr>st_rows := sql_delete (\<lambda>r. us_user_id r = userID) (st_rows t)\<rparr>, True) else (t, False))"

definition CleanupExpired :: "bool \<Rightarrow> bool list \<Rightarrow> instant \<Rightarrow> session_table \<Rightarrow> session_table \<times> bool" where
  "CleanupExpired selectOk oks now t =
     (case DeleteRowsWithTimestampBefore (\<lambda>r. VInt (us_id r)) us_expires_at selectOk oks now False (st_rows t) of
        (rows, n, ok) \<Rightarrow> (t\<lparr>st_rows := rows\<rparr>, ok))"

section \<open>The table\<close>

definition session_ok :: "session_row \<Rightarrow> bool" where
  "session_ok r \<longleftrightarrow> us_expires_at r \<noteq> VNil"

inductive session_change :: "session_row \<Rightarrow> session_row \<Rightarrow> bool" where
  "session_change r (r\<lparr>us_data := d\<rparr>)"
| "session_change r (r\<lparr>us_expires_at := VStr e\<rparr>)"

interpretation session_rows: row_machine us_id session_ok session_change
proof
  fix r r'
  assume c: "session_change r r'"
  then show "us_id r' = us_id r" by cases simp_all
  assume "session_ok r"
  with c show "session_ok r'" by cases (simp_all add: session_ok_def)
qed

definition sessions_wf :: "session_table \<Rightarrow> bool" where
  "sessions_wf t \<longleftrightarrow> session_rows.table_ok (st_next t) (st_rows t) \<and> distinct (map us_token_hash (st_rows t))"

lemma delete_hash_distinct: "distinct (map f rows) \<Longrightarrow> distinct (map f (sql_delete P rows))"
  by (simp add: sql_delete_def distinct_map_filter)

lemma DeleteSession_wf: "sessions_wf t \<Longrightarrow> sessions_wf (fst (DeleteSession hash ok raw t))"
  by (simp add: sessions_wf_def DeleteSession_def session_rows.delete_ok delete_hash_distinct)

lemma CreateSession_wf: "sessions_wf t \<Longrightarrow> sessions_wf (fst (CreateSession hash io u n t))"
proof -
  assume wf: "sessions_wf t"
  have "sessions_wf \<lparr>st_next = st_next t + 1, st_rows = st_rows t @ [r]\<rparr>"
    if "session_ok r" "us_id r = st_next t" "\<forall>q\<in>set (st_rows t). us_token_hash q \<noteq> us_token_hash r" for r
    using wf that by (auto simp: sessions_wf_def session_rows.insert_ok)
  with wf show ?thesis
    by (auto simp: CreateSession_def Let_def session_ok_def split: option.splits user_id.splits)
qed

lemma session_update_wf:
  assumes "sessions_wf t" "\<And>r. session_change r (f r)" "\<And>r. us_token_hash (f r) = us_token_hash r"
  shows "sessions_wf (fst (session_update hash ok raw f t))"
proof -
  have "map us_token_hash (sql_update P f (st_rows t)) = map us_token_hash (st_rows t)" for P
    using assms(3) by (simp add: sql_update_def)
  with assms(1,2) show ?thesis by (simp add: sessions_wf_def session_update_def session_rows.update_ok)
qed

lemma GetByID_table: "fst (GetByID hash dec io raw t) \<in> {t, fst (DeleteSession hash True raw t)}"
  by (auto simp: GetByID_def Let_def DeleteSession_def split: option.splits if_splits)

lemma CleanupExpired_rows:
  assumes "sessions_wf t" "list_all id oks"
  shows "CleanupExpired True oks now t =
    (t\<lparr>st_rows := filter (\<lambda>r. \<not> timestamp_expired now False (us_expires_at r)) (st_rows t)\<rparr>, True)"
proof -
  have "distinct_keys (\<lambda>r. VInt (us_id r)) (st_rows t)"
    using assms(1) by (auto simp: distinct_keys_def sessions_wf_def session_rows.table_ok_def distinct_map inj_on_def NormalizeScannedRowID_def)
  from DeleteRows_ok [OF this assms(2)] show ?thesis by (simp add: CleanupExpired_def)
qed

text \<open>
  C32. A session lives exactly as long as it was given: after \<open>CreateSession\<close> the raw token finds the
  session, with its user, until the expiry rounded down to the second; from then on the token is
  refused and its row removed, so that the table is as before. Other tokens are not affected.
\<close>

theorem session_round_trip:
  assumes "\<forall>r\<in>set (st_rows t). us_token_hash r \<noteq> hash raw" "cr_token io = Some raw" "cr_insert_ok io"
    "expiry = cr_expiry_base io + wrap64 (timeout * second_ns)"
    "0 \<le> year utc expiry" "year utc expiry \<le> 9999" "0 \<le> year utc (cr_now io)" "year utc (cr_now io) \<le> 9999"
    "CreateSession hash io (UidInt u) timeout t = (t', res)"
  shows "(\<exists>s. res = Inr s \<and> ses_ID s = raw \<and> ses_UserID s = u) \<and>
    (\<forall>now. GetByID hash dec \<lparr>gt_query_ok = True, gt_delete_ok = True, gt_now = now\<rparr> raw t' =
       (if now < expiry - expiry mod second_ns
        then (t', Inr \<lparr>ses_ID = raw, ses_UserID = u, ses_Data = None, ses_ExpiresAt = expiry - expiry mod second_ns,
                       ses_CreatedAt = cr_now io - cr_now io mod second_ns\<rparr>)
        else (t\<lparr>st_next := st_next t'\<rparr>, Inl SessionExpired))) \<and>
    (\<forall>raw'. hash raw' \<noteq> hash raw \<longrightarrow>
       sql_lookup us_token_hash (hash raw') (st_rows t') = sql_lookup us_token_hash (hash raw') (st_rows t))"
proof -
  let ?r = "\<lparr>us_id = st_next t, us_token_hash = hash raw, us_user_id = u, us_data = None,
     us_expires_at = VStr (FormatSQLTimestamp expiry), us_created_at = VStr (FormatSQLTimestamp (cr_now io)),
                              us_ip_address = None, us_user_agent = None, us_last_used_at = VNil\<rparr>"
  have fresh: "\<not> (\<exists>r\<in>set (st_rows t). us_token_hash r = hash raw)" using assms(1) by blast
  have t': "t' = \<lparr>st_next = st_next t + 1, st_rows = st_rows t @ [?r]\<rparr>"
    and res: "res = Inr \<lparr>ses_ID = raw, ses_UserID = u, ses_Data = None, ses_ExpiresAt = expiry, ses_CreatedAt = cr_now io\<rparr>"
    using assms(9) fresh by (auto simp: CreateSession_def assms(2,3) Let_def simp flip: assms(4))
  have none: "sql_lookup us_token_hash (hash raw) (st_rows t) = None" using assms(1) by (auto simp: sql_lookup_None)
  have found: "sql_lookup us_token_hash (hash raw) (st_rows t') = Some ?r"
    by (simp add: t' sql_lookup_append none)
  have del: "fst (DeleteSession hash True raw t') = t\<lparr>st_next := st_next t'\<rparr>"
    using assms(1) by (simp add: DeleteSession_def t' sql_delete_def filter_id_conv)
  have "GetByID hash dec \<lparr>gt_query_ok = True, gt_delete_ok = True, gt_now = now\<rparr> raw t' =
       (if now < expiry - expiry mod second_ns
        then (t', Inr \<lparr>ses_ID = raw, ses_UserID = u, ses_Data = None, ses_ExpiresAt = expiry - expiry mod second_ns,
                       ses_CreatedAt = cr_now io - cr_now io mod second_ns\<rparr>)
        else (t\<lparr>st_next := st_next t'\<rparr>, Inl SessionExpired))" for now
    using stored_text_reads_back [OF assms(5,6)] stored_text_reads_back [OF assms(7,8)] del
    by (simp add: GetByID_def found DeleteSession_def)
  moreover have "sql_lookup us_token_hash (hash raw') (st_rows t') = sql_lookup us_token_hash (hash raw') (st_rows t)"
    if "hash raw' \<noteq> hash raw" for raw'
    using that by (auto simp: t' sql_lookup_append split: option.splits)
  ultimately show ?thesis using res by simp
qed

definition create_ok :: "string \<Rightarrow> create_io" where
  "create_ok raw = \<lparr>cr_token = Some raw, cr_expiry_base = 1700000000 * second_ns, cr_now = 1700000000 * second_ns, cr_insert_ok = True\<rparr>"

theorem session_round_trip_witness:
  "\<exists>t'. fst (CreateSession id (create_ok ''tok'') (UidInt 7) 60 \<lparr>st_next = 1, st_rows = []\<rparr>) = t' \<and>
     snd (GetByID id (\<lambda>d. True) \<lparr>gt_query_ok = True, gt_delete_ok = True, gt_now = 1700000061 * second_ns\<rparr> ''tok'' t')
       = Inl SessionExpired"
proof -
  let ?e = "1700000060 * second_ns"
  have y: "year utc ?e = 2023" "year utc (1700000000 * second_ns) = 2023" by code_simp+
  have w: "?e = cr_expiry_base (create_ok ''tok'') + wrap64 (60 * second_ns)" by code_simp
  obtain t' res where c: "CreateSession id (create_ok ''tok'') (UidInt 7) 60 \<lparr>st_next = 1, st_rows = []\<rparr> = (t', res)"
    by (cases "CreateSession id (create_ok ''tok'') (UidInt 7) 60 \<lparr>st_next = 1, st_rows = []\<rparr>")
  have "\<not> 1700000061 * second_ns < ?e - ?e mod second_ns" by code_simp
  with session_round_trip [where dec = "\<lambda>d. True" and raw = "''tok''", OF _ _ _ w _ _ _ _ c] y c show ?thesis
    by (simp add: create_ok_def)
qed

lemma GetByID_live:
  assumes "GetByID hash dec io raw t = (t', Inr s)"
  shows "\<exists>r e. sql_lookup us_token_hash (hash raw) (st_rows t) = Some r \<and> ParseStoredTimestamp (us_expires_at r) = Some e \<and>
    gt_now io < e \<and> t' = t \<and> ses_ID s = raw \<and> ses_UserID s = us_user_id r \<and> ses_ExpiresAt s = e"
proof -
  have q: "gt_query_ok io" using assms by (auto simp: GetByID_def split: if_splits)
  then obtain r where r: "sql_lookup us_token_hash (hash raw) (st_rows t) = Some r"
    using assms by (auto simp: GetByID_def split: option.splits)
  have exp: "snd (case DeleteSession hash (gt_delete_ok io) raw t of
                   (t', True) \<Rightarrow> (t', Inl SessionExpired) | (t', False) \<Rightarrow> (t', Inl ExpiredCleanupFailed)) \<noteq> Inr s"
    by (auto simp: DeleteSession_def)
  obtain e where e: "ParseStoredTimestamp (us_expires_at r) = Some e" "gt_now io < e"
    using assms q r exp by (fastforce simp: GetByID_def Let_def split: option.splits if_splits)
  with assms q r show ?thesis by (auto simp: GetByID_def split: option.splits if_splits)
qed

text \<open>
  A token opens a session only while it is live: when \<open>GetByID\<close> returns a session, the table holds a
  row for the token's hash whose expiry parses and lies in the future, and the session is that row's;
  after a deletion, of the token or of all sessions of the user, none is returned; and the clean-up
  never takes away a session that would still be accepted.
\<close>

lemma session_access_safe:
  assumes "sessions_wf t"
  shows "(\<forall>t' s. GetByID hash dec io raw t = (t', Inr s) \<longrightarrow>
      (\<exists>r\<in>set (st_rows t). \<exists>e. us_token_hash r = hash raw \<and> ses_UserID s = us_user_id r \<and>
         ParseStoredTimestamp (us_expires_at r) = Some e \<and> gt_now io < e)) \<and>
    (\<forall>t' s. GetByID hash dec io raw (fst (DeleteSession hash True raw t)) \<noteq> (t', Inr s)) \<and>
    (\<forall>t' s. GetByID hash dec io raw (fst (DeleteByUserID True u t)) = (t', Inr s) \<longrightarrow> ses_UserID s \<noteq> u) \<and>
    (\<forall>t' s oks. GetByID hash dec io raw t = (t', Inr s) \<longrightarrow> list_all id oks \<longrightarrow>
       snd (GetByID hash dec io raw (fst (CleanupExpired True oks (gt_now io) t))) = Inr s)"
proof (intro conjI allI impI)
  fix t' s
  assume "GetByID hash dec io raw t = (t', Inr s)"
  from GetByID_live [OF this] show "\<exists>r\<in>set (st_rows t). \<exists>e. us_token_hash r = hash raw \<and> ses_UserID s = us_user_id r \<and>
         ParseStoredTimestamp (us_expires_at r) = Some e \<and> gt_now io < e"
    by (fastforce dest: sql_lookup_Some)
next
  fix t' s
  have "sql_lookup us_token_hash (hash raw) (st_rows (fst (DeleteSession hash True raw t))) = None"
    by (auto simp: DeleteSession_def sql_lookup_None in_set_sql_delete)
  then show "GetByID hash dec io raw (fst (DeleteSession hash True raw t)) \<noteq> (t', Inr s)"
    using GetByID_live [of hash dec io raw "fst (DeleteSession hash True raw t)" t' s] by auto
next
  fix t' s
  assume "GetByID hash dec io raw (fst (DeleteByUserID True u t)) = (t', Inr s)"
  from GetByID_live [OF this] show "ses_UserID s \<noteq> u"
    by (auto simp: DeleteByUserID_def in_set_sql_delete dest!: sql_lookup_Some)
next
  fix t' s oks
  assume g: "GetByID hash dec io raw t = (t', Inr s)" and oks: "list_all id oks"
  from GetByID_live [OF g] obtain r e where r: "sql_lookup us_token_hash (hash raw) (st_rows t) = Some r"
      "ParseStoredTimestamp (us_expires_at r) = Some e" "gt_now io < e" by blast
  let ?t = "fst (CleanupExpired True oks (gt_now io) t)"
  have "st_rows ?t = sql_delete (\<lambda>r. timestamp_expired (gt_now io) False (us_expires_at r)) (st_rows t)"
    by (simp add: CleanupExpired_rows [OF assms oks] sql_delete_def)
  then have "sql_lookup us_token_hash (hash raw) (st_rows ?t) = Some r"
    using assms r by (simp add: sql_lookup_delete sessions_wf_def timestamp_expired_def)
  with g r show "snd (GetByID hash dec io raw ?t) = Inr s"
    by (auto simp: GetByID_def Let_def split: option.splits if_splits)
qed

lemma session_access_safe_example:
  "snd (GetByID id (\<lambda>d. True) \<lparr>gt_query_ok = True, gt_delete_ok = True, gt_now = 0\<rparr> ''tok''
     (fst (DeleteSession id True ''tok'' (fst (CreateSession id (create_ok ''tok'') (UidInt 7) 60 \<lparr>st_next = 1, st_rows = []\<rparr>)))))
   \<noteq> Inr \<lparr>ses_ID = ''tok'', ses_UserID = 7, ses_Data = None, ses_ExpiresAt = 0, ses_CreatedAt = 0\<rparr>"
proof -
  have "sessions_wf (fst (CreateSession id (create_ok ''tok'') (UidInt 7) 60 \<lparr>st_next = 1, st_rows = []\<rparr>))"
    by (rule CreateSession_wf) (simp add: sessions_wf_def session_rows.table_ok_def)
  from session_access_safe [OF this, of id "\<lambda>d. True" "\<lparr>gt_query_ok = True, gt_delete_ok = True, gt_now = 0\<rparr>" "''tok''"]
  show ?thesis by (metis prod.collapse)
qed

end
