(* ===== verification/Recovery_Keys.thy ===== *)
theory Recovery_Keys
  imports Sql_Table Go_Time
begin

text \<open>
  The one-time recovery keys of \<^verbatim>\<open>src/server/model/recovery_keys.go\<close>. The key hash and the random bytes
  are arguments. Verification is two statements, a SELECT and an UPDATE; they are separate
  definitions, because other requests may run between them.
\<close>

section \<open>Hexadecimal text\<close>

definition hex_digit :: "nat \<Rightarrow> char" where
  "hex_digit n = ''0123456789abcdef'' ! (n mod 16)"

definition hex_encode :: "nat list \<Rightarrow> string" where
  "hex_encode bs = concat (map (\<lambda>b. [hex_digit (b div 16), hex_digit b]) bs)"

definition hex_char :: "char \<Rightarrow> bool" where
  "hex_char c \<longleftrightarrow> c \<in> set ''0123456789abcdef''"

lemma hex_digit_char: "hex_char (hex_digit n)"
proof -
  have "n mod 16 < length ''0123456789abcdef''" by simp
  then show ?thesis unfolding hex_char_def hex_digit_def by (rule nth_mem)
qed

lemma hex_encode_chars: "list_all hex_char (hex_encode bs)"
  by (induction bs) (simp_all add: hex_encode_def hex_digit_char)

lemma hex_encode_length: "length (hex_encode bs) = 2 * length bs"
  by (induction bs) (simp_all add: hex_encode_def)

section \<open>State and operations\<close>

record RecoveryKey =
  rk_ID :: int
  rk_UserID :: int
  rk_KeyHash :: string
  rk_UsedAt :: "instant option"
  rk_CreatedAt :: instant

record key_table =
  kt_next :: int
  kt_rows :: "RecoveryKey list"

type_synonym key_hash = "string \<Rightarrow> string"

definition DeleteAllForUser :: "bool \<Rightarrow> int \<Rightarrow> key_table \<Rightarrow> key_table \<times> bool" where
  "DeleteAllForUser ok userID t =
     (if ok then (t\<lparr>kt_rows := sql_delete (\<lambda>r. rk_UserID r = userID) (kt_rows t)\<rparr>, True) else (t, False))"

definition format_key :: "nat list \<Rightarrow> string" where
  "format_key raw = take 8 (hex_encode raw) @ ''-'' @ drop 8 (hex_encode raw)"

datatype key_error = DeleteFailed | RandomFailed | StoreFailed | KeyQueryFailed | ScanFailed | MarkFailed

text \<open>One round: the six random bytes (\<open>None\<close> on an error), the outcome of the INSERT and the clock.\<close>

record round_io =
  rd_bytes :: "nat list option"
  rd_insert_ok :: bool
  rd_now :: instant

fun generate_rounds ::
  "key_hash \<Rightarrow> int \<Rightarrow> round_io list \<Rightarrow> key_table \<Rightarrow> string list \<Rightarrow> key_table \<times> (key_error + string list)" where
  "generate_rounds hash userID [] t keys = (t, Inr keys)"
| "generate_rounds hash userID (io # ios) t keys =
     (case rd_bytes io of
        None \<Rightarrow> (t, Inl RandomFailed)
      | Some raw \<Rightarrow>
          if \<not> rd_insert_ok io then (t, Inl StoreFailed)
          else generate_rounds hash userID ios
                 \<lparr>kt_next = kt_next t + 1,
                  kt_rows = kt_rows t @ [\<lparr>rk_ID = kt_next t, rk_UserID = userID, rk_KeyHash = hash (format_key raw),
                                          rk_UsedAt = None, rk_CreatedAt = rd_now io\<rparr>]\<rparr>
                 (keys @ [format_key raw]))"

text \<open>\<open>ios\<close> holds the ten rounds.\<close>

definition GenerateRecoveryKeys ::
  "key_hash \<Rightarrow> bool \<Rightarrow> round_io list \<Rightarrow> int \<Rightarrow> key_table \<Rightarrow> key_table \<times> (key_error + string list)" where
  "GenerateRecoveryKeys hash deleteOk ios userID t =
     (case DeleteAllForUser deleteOk userID t of
        (t1, False) \<Rightarrow> (t1, Inl DeleteFailed)
      | (t1, True) \<Rightarrow> generate_rounds hash userID (take 10 ios) t1 [])"

definition canonical_key :: "string \<Rightarrow> string" where
  "canonical_key key0 =
     (let key = toLower (remove_char CHR '' '' key0);
          stripped = remove_char CHR ''-'' key
      in if length stripped = 12 then take 8 stripped @ ''-'' @ drop 8 stripped else key)"

text \<open>The SELECT: \<open>Some None\<close> when no unused key matches.\<close>

definition verify_select :: "key_hash \<Rightarrow> bool \<Rightarrow> int \<Rightarrow> string \<Rightarrow> key_table \<Rightarrow> int option option" where
  "verify_select hash queryOk userID key t =
     (if \<not> queryOk then None
      else Some (map_option rk_ID
        (find (\<lambda>r. rk_UserID r = userID \<and> rk_KeyHash r = hash (canonical_key key) \<and> rk_UsedAt r = None) (kt_rows t))))"

text \<open>The UPDATE that marks the key, and whether the verification succeeds.\<close>

definition verify_mark :: "bool \<Rightarrow> instant \<Rightarrow> int \<Rightarrow> key_table \<Rightarrow> key_table \<times> (key_error + bool)" where
  "verify_mark updateOk now i t =
     (if \<not> updateOk then (t, Inl MarkFailed)
      else (t\<lparr>kt_rows := sql_update (\<lambda>r. rk_ID r = i) (\<lambda>r. r\<lparr>rk_UsedAt := Some now\<rparr>) (kt_rows t)\<rparr>, Inr True))"

record verify_io =
  vf_query_ok :: bool
  vf_scan_ok :: bool
  vf_update_ok :: bool
  vf_now :: instant

definition VerifyAndUseRecoveryKey ::
  "key_hash \<Rightarrow> verify_io \<Rightarrow> int \<Rightarrow> string \<Rightarrow> key_table \<Rightarrow> key_table \<times> (key_error + bool)" where
  "VerifyAndUseRecoveryKey hash io userID key t =
     (case verify_select hash (vf_query_ok io) userID key t of
        None \<Rightarrow> (t, Inl KeyQueryFailed)
      | Some None \<Rightarrow> (t, Inr False)
      | Some (Some i) \<Rightarrow>
          if \<not> vf_scan_ok io then (t, Inl ScanFailed)
          else verify_mark (vf_update_ok io) (vf_now io) i t)"

definition GetUnusedKeysCount :: "bool \<Rightarrow> int \<Rightarrow> key_table \<Rightarrow> int option" where
  "GetUnusedKeysCount ok userID t =
     (if ok then Some (affected (\<lambda>r. rk_UserID r = userID \<and> rk_UsedAt r = None) (kt_rows t)) else None)"

definition GetAllKeysForUser :: "bool \<Rightarrow> (RecoveryKey \<Rightarrow> bool) \<Rightarrow> int \<Rightarrow> key_table \<Rightarrow> RecoveryKey list option" where
  "GetAllKeysForUser ok scanOk userID t =
     (let rows = sort_key (\<lambda>r. - rk_CreatedAt r) (filter (\<lambda>r. rk_UserID r = userID) (kt_rows t))
      in if ok \<and> list_all scanOk rows then Some rows else None)"

section \<open>The canonical spelling\<close>

lemma hex_lower: "hex_char c \<Longrightarrow> lower_ascii c = c"
  by (auto simp: hex_char_def lower_ascii_def)

lemma lower_ascii_punct: "lower_ascii c = CHR '' '' \<longleftrightarrow> c = CHR '' ''" "lower_ascii c = CHR ''-'' \<longleftrightarrow> c = CHR ''-''"
proof -
  have "lower_ascii c = d \<longleftrightarrow> c = d" if "(of_char d :: nat) < 65" for d
  proof (cases "65 \<le> (of_char c :: nat) \<and> (of_char c :: nat) \<le> 90")
    case True
    then have "(of_char (lower_ascii c) :: nat) = of_char c + 32" by (simp add: lower_ascii_def)
    with True that show ?thesis by auto
  next
    case False
    then show ?thesis by (simp only: lower_ascii_def if_False)
  qed
  then show "lower_ascii c = CHR '' '' \<longleftrightarrow> c = CHR '' ''" "lower_ascii c = CHR ''-'' \<longleftrightarrow> c = CHR ''-''" by simp_all
qed

lemma remove_lower:
  "remove_char CHR ''-'' (map lower_ascii (remove_char CHR '' '' s)) =
     filter (\<lambda>c. c \<noteq> CHR '' '' \<and> c \<noteq> CHR ''-'') (map lower_ascii s)"
  by (induction s) (auto simp: remove_char_def lower_ascii_punct)

text \<open>Any spelling of a key, in capitals, without the dash or with blanks, is read as the key.\<close>

lemma canonical_spelling:
  assumes "\<forall>c\<in>set s. (of_char c :: nat) < 128"
    "filter (\<lambda>c. c \<noteq> CHR '' '' \<and> c \<noteq> CHR ''-'') (map lower_ascii s) = hex_encode raw" "length raw = 6"
  shows "canonical_key s = format_key raw"
proof -
  have "toLower (remove_char CHR '' '' s) = map lower_ascii (remove_char CHR '' '' s)"
    using assms(1) by (intro toLower_ascii) (auto simp: remove_char_def)
  then have "remove_char CHR ''-'' (toLower (remove_char CHR '' '' s)) = hex_encode raw"
    using assms(2) by (simp add: remove_lower)
  then show ?thesis using assms(3) by (simp add: canonical_key_def format_key_def hex_encode_length Let_def)
qed

section \<open>Generated keys\<close>

definition key_ok :: "RecoveryKey \<Rightarrow> bool" where
  "key_ok r \<longleftrightarrow> 0 < rk_ID r"

inductive key_change :: "RecoveryKey \<Rightarrow> RecoveryKey \<Rightarrow> bool" where
  "key_change r (r\<lparr>rk_UsedAt := Some now\<rparr>)"

interpretation key_rows: row_machine rk_ID key_ok key_change
  by unfold_locales (auto simp: key_ok_def elim: key_change.cases)

definition keys_wf :: "key_table \<Rightarrow> bool" where
  "keys_wf t \<longleftrightarrow> 0 < kt_next t \<and> key_rows.table_ok (kt_next t) (kt_rows t)"

lemma verify_mark_wf: "keys_wf t \<Longrightarrow> keys_wf (fst (verify_mark ok now i t))"
  by (auto simp: keys_wf_def verify_mark_def intro!: key_rows.update_ok key_change.intros)

lemma generate_rounds_spec:
  assumes "generate_rounds hash u ios t acc = (t', Inr keys)" "keys_wf t"
  shows "\<exists>new ks. kt_rows t' = kt_rows t @ new \<and> keys = acc @ ks \<and> map rk_KeyHash new = map hash ks \<and>
    (\<forall>r\<in>set new. rk_UserID r = u \<and> rk_UsedAt r = None) \<and> keys_wf t'"
  using assms
proof (induction ios arbitrary: t acc)
  case (Cons io ios)
  obtain raw where raw: "rd_bytes io = Some raw" "rd_insert_ok io"
    using Cons.prems(1) by (auto split: option.splits if_splits)
  let ?r = "\<lparr>rk_ID = kt_next t, rk_UserID = u, rk_KeyHash = hash (format_key raw), rk_UsedAt = None, rk_CreatedAt = rd_now io\<rparr>"
  let ?t = "\<lparr>kt_next = kt_next t + 1, kt_rows = kt_rows t @ [?r]\<rparr>"
  have "keys_wf ?t" using Cons.prems(2) by (simp add: keys_wf_def key_rows.insert_ok key_ok_def)
  moreover have "generate_rounds hash u ios ?t (acc @ [format_key raw]) = (t', Inr keys)"
    using Cons.prems(1) raw by simp
  ultimately obtain new ks where n: "kt_rows t' = kt_rows ?t @ new" "keys = (acc @ [format_key raw]) @ ks"
      "map rk_KeyHash new = map hash ks" "\<forall>r\<in>set new. rk_UserID r = u \<and> rk_UsedAt r = None" "keys_wf t'"
    using Cons.IH by blast
  show ?case
    using n by (intro exI [of _ "?r # new"] exI [of _ "format_key raw # ks"]) simp
qed simp

lemma GenerateRecoveryKeys_rows:
  assumes "GenerateRecoveryKeys hash True ios u t = (t', Inr keys)" "keys_wf t"
  shows "keys_wf t' \<and> (\<exists>new old. kt_rows t' = old @ new \<and> map rk_KeyHash new = map hash keys \<and>
    (\<forall>r\<in>set new. rk_UserID r = u \<and> rk_UsedAt r = None) \<and> (\<forall>r\<in>set old. rk_UserID r \<noteq> u))"
proof -
  let ?t1 = "t\<lparr>kt_rows := sql_delete (\<lambda>r. rk_UserID r = u) (kt_rows t)\<rparr>"
  have g: "generate_rounds hash u (take 10 ios) ?t1 [] = (t', Inr keys)"
    using assms(1) by (simp add: GenerateRecoveryKeys_def DeleteAllForUser_def)
  have "keys_wf ?t1" using assms(2) by (simp add: keys_wf_def key_rows.delete_ok)
  from generate_rounds_spec [OF g this] obtain new where n: "kt_rows t' = kt_rows ?t1 @ new"
      "map rk_KeyHash new = map hash keys" "\<forall>r\<in>set new. rk_UserID r = u \<and> rk_UsedAt r = None" "keys_wf t'" by auto
  then show ?thesis by (intro conjI exI [of _ new] exI [of _ "kt_rows ?t1"]) (auto simp: in_set_sql_delete)
qed

lemma verify_true:
  assumes "keys_wf t" "r \<in> set (kt_rows t)" "rk_UserID r = u" "rk_UsedAt r = None" "rk_KeyHash r = hash (canonical_key s)"
    "\<And>q. q \<in> set (kt_rows t) \<Longrightarrow> rk_UserID q = u \<Longrightarrow> rk_KeyHash q = hash (canonical_key s) \<Longrightarrow> q = r"
    "vf_query_ok io" "vf_scan_ok io" "vf_update_ok io"
  shows "VerifyAndUseRecoveryKey hash io u s t =
    (t\<lparr>kt_rows := sql_update (\<lambda>q. q = r) (\<lambda>q. q\<lparr>rk_UsedAt := Some (vf_now io)\<rparr>) (kt_rows t)\<rparr>, Inr True)"
proof -
  let ?P = "\<lambda>r. rk_UserID r = u \<and> rk_KeyHash r = hash (canonical_key s) \<and> rk_UsedAt r = None"
  obtain q where q: "find ?P (kt_rows t) = Some q" using assms(2-5) by (cases "find ?P (kt_rows t)") (auto simp: find_None_iff)
  then have "q = r" using assms(6) by (auto simp: find_Some_iff)
  have "sql_update (\<lambda>q. rk_ID q = rk_ID r) f (kt_rows t) = sql_update (\<lambda>q. q = r) f (kt_rows t)" for f
    using assms(1,2) by (auto simp: sql_update_def keys_wf_def key_rows.table_ok_def distinct_map inj_on_def)
  with q \<open>q = r\<close> assms(7-9) show ?thesis
    by (simp add: VerifyAndUseRecoveryKey_def verify_select_def verify_mark_def)
qed

lemma verify_false:
  assumes "\<And>q. q \<in> set (kt_rows t) \<Longrightarrow> rk_UserID q = u \<Longrightarrow> rk_KeyHash q = hash (canonical_key s) \<Longrightarrow> rk_UsedAt q \<noteq> None"
    "vf_query_ok io"
  shows "VerifyAndUseRecoveryKey hash io u s t = (t, Inr False)"
proof -
  have "find (\<lambda>r. rk_UserID r = u \<and> rk_KeyHash r = hash (canonical_key s) \<and> rk_UsedAt r = None) (kt_rows t) = None"
    using assms(1) by (auto simp: find_None_iff)
  with assms(2) show ?thesis by (simp add: VerifyAndUseRecoveryKey_def verify_select_def)
qed

lemma affected_mark:
  assumes "distinct rows" "r \<in> set rows" "P r" "\<not> P (f r)"
  shows "affected P (sql_update (\<lambda>q. q = r) f rows) = affected P rows - 1"
  using assms
proof (induction rows)
  case (Cons a rows)
  show ?case
  proof (cases "a = r")
    case True
    with Cons.prems have "sql_update (\<lambda>q. q = r) f rows = rows" by (auto simp: sql_update_def intro: map_idI)
    with True Cons.prems show ?thesis by (simp add: affected_def sql_update_def)
  next
    case False
    with Cons have "affected P (sql_update (\<lambda>q. q = r) f rows) = affected P rows - 1" by simp
    with False show ?thesis by (simp add: affected_def sql_update_def)
  qed
qed simp

text \<open>
  A recovery key works exactly once: each key that \<open>GenerateRecoveryKeys\<close> returns, in any spelling
  with the same canonical form, is accepted; the second request with it, in any such spelling, is
  refused; and the number of unused keys, all of them at first, goes down by one.
\<close>

lemma recovery_key_once:
  assumes "keys_wf t" "GenerateRecoveryKeys hash True ios u t = (t', Inr keys)" "distinct (map hash keys)"
    "k \<in> set keys" "canonical_key s = k" "canonical_key s' = k"
    "vf_query_ok io \<and> vf_scan_ok io \<and> vf_update_ok io" "vf_query_ok io'"
    "VerifyAndUseRecoveryKey hash io u s t' = (t1, res)"
  shows "res = Inr True \<and> VerifyAndUseRecoveryKey hash io' u s' t1 = (t1, Inr False) \<and>
    GetUnusedKeysCount True u t' = Some (int (length keys)) \<and>
    GetUnusedKeysCount True u t1 = Some (int (length keys) - 1)"
proof -
  obtain new old where n: "kt_rows t' = old @ new" "map rk_KeyHash new = map hash keys"
      "\<forall>r\<in>set new. rk_UserID r = u \<and> rk_UsedAt r = None" "\<forall>r\<in>set old. rk_UserID r \<noteq> u" and wf: "keys_wf t'"
    using GenerateRecoveryKeys_rows [OF assms(2,1)] by blast
  have "hash k \<in> set (map rk_KeyHash new)" using n(2) assms(4) by simp
  then obtain r where r: "r \<in> set new" "rk_KeyHash r = hash k" by auto
  have uniq: "q = r" if "q \<in> set (kt_rows t')" "rk_UserID q = u" "rk_KeyHash q = hash k" for q
  proof -
    have "q \<in> set new" using that n(1,4) by auto
    moreover have "inj_on rk_KeyHash (set new)" using n(2) assms(3) by (metis distinct_map)
    ultimately show ?thesis using r that(3) by (simp add: inj_on_def)
  qed
  have v: "t1 = t'\<lparr>kt_rows := sql_update (\<lambda>q. q = r) (\<lambda>q. q\<lparr>rk_UsedAt := Some (vf_now io)\<rparr>) (kt_rows t')\<rparr> \<and> res = Inr True"
    using verify_true [OF wf, of r u hash s io] r n uniq assms(5,7,9) by auto
  have used: "rk_UsedAt q \<noteq> None" if "q \<in> set (kt_rows t1)" "rk_UserID q = u" "rk_KeyHash q = hash k" for q
    using that v uniq by (auto simp: sql_update_def split: if_splits)
  have second: "VerifyAndUseRecoveryKey hash io' u s' t1 = (t1, Inr False)"
    by (rule verify_false) (use used assms(6,8) in auto)
  let ?P = "\<lambda>r. rk_UserID r = u \<and> rk_UsedAt r = None"
  have "filter ?P (kt_rows t') = new" using n by (auto simp: filter_empty_conv filter_id_conv)
  moreover have "length new = length keys" using n(2) by (metis length_map)
  ultimately have c: "affected ?P (kt_rows t') = int (length keys)" by (simp add: affected_def)
  have "distinct (kt_rows t')" using wf by (simp add: keys_wf_def key_rows.table_ok_def distinct_map)
  then have "affected ?P (kt_rows t1) = int (length keys) - 1"
    using affected_mark [of "kt_rows t'" r ?P "\<lambda>q. q\<lparr>rk_UsedAt := Some (vf_now io)\<rparr>"] v r n c by simp
  with v second c show ?thesis by (simp add: GetUnusedKeysCount_def)
qed

definition verify_ok :: verify_io where
  "verify_ok = \<lparr>vf_query_ok = True, vf_scan_ok = True, vf_update_ok = True, vf_now = 5\<rparr>"

definition two_rounds :: "round_io list" where
  "two_rounds = [\<lparr>rd_bytes = Some [161, 178, 195, 212, 229, 246], rd_insert_ok = True, rd_now = 1\<rparr>,
     \<lparr>rd_bytes = Some [1, 2, 3, 4, 5, 6], rd_insert_ok = True, rd_now = 1\<rparr>]"

definition two_keys :: key_table where
  "two_keys = fst (GenerateRecoveryKeys id True two_rounds 7 \<lparr>kt_next = 1, kt_rows = []\<rparr>)"

lemma recovery_key_once_example:
  "snd (VerifyAndUseRecoveryKey id verify_ok 7 ''A1B2C3D4E5F6'' two_keys) = Inr True \<and>
   snd (VerifyAndUseRecoveryKey id verify_ok 7 ''a1b2c3d4-e5f6''
     (fst (VerifyAndUseRecoveryKey id verify_ok 7 ''A1B2C3D4E5F6'' two_keys))) = Inr False"
proof -
  have g: "GenerateRecoveryKeys id True two_rounds 7 \<lparr>kt_next = 1, kt_rows = []\<rparr> =
      (two_keys, Inr [''a1b2c3d4-e5f6'', ''01020304-0506''])"
    unfolding two_keys_def by (simp add: prod_eq_iff) code_simp
  have c: "canonical_key ''A1B2C3D4E5F6'' = ''a1b2c3d4-e5f6''" "canonical_key ''a1b2c3d4-e5f6'' = ''a1b2c3d4-e5f6''"
    by code_simp+
  obtain t1 res where v: "VerifyAndUseRecoveryKey id verify_ok 7 ''A1B2C3D4E5F6'' two_keys = (t1, res)"
    by (cases "VerifyAndUseRecoveryKey id verify_ok 7 ''A1B2C3D4E5F6'' two_keys")
  have "keys_wf \<lparr>kt_next = 1, kt_rows = []\<rparr>" by (simp add: keys_wf_def key_rows.table_ok_def)
  from recovery_key_once [OF this g _ _ c(1) c(2), of verify_ok verify_ok t1 res] v show ?thesis
    by (simp add: verify_ok_def)
qed

text \<open>
  Two requests at the same time can both use one key: the UPDATE does not ask whether the key is
  still unused. Whenever two requests for an unused key run their SELECT before either runs its UPDATE,
  and the statements succeed, both are accepted.
\<close>

lemma recovery_key_race:
  assumes "r \<in> set (kt_rows t)" "rk_UserID r = u" "rk_KeyHash r = hash (canonical_key s)" "rk_UsedAt r = None"
  shows "\<exists>i t1 t2. verify_select hash True u s t = Some (Some i) \<and>
    verify_mark True now i t = (t1, Inr True) \<and> verify_mark True now' i t1 = (t2, Inr True)"
proof -
  obtain q where "find (\<lambda>r. rk_UserID r = u \<and> rk_KeyHash r = hash (canonical_key s) \<and> rk_UsedAt r = None) (kt_rows t) = Some q"
    using assms by (cases "find (\<lambda>r. rk_UserID r = u \<and> rk_KeyHash r = hash (canonical_key s) \<and> rk_UsedAt r = None) (kt_rows t)")
      (auto simp: find_None_iff)
  then show ?thesis by (simp add: verify_select_def verify_mark_def)
qed

lemma recovery_key_race_example:
  "\<exists>i t1 t2. verify_select id True 7 ''a1b2c3d4-e5f6'' two_keys = Some (Some i) \<and>
     verify_mark True 5 i two_keys = (t1, Inr True) \<and> verify_mark True 6 i t1 = (t2, Inr True)"
proof -
  let ?r = "\<lparr>rk_ID = 1, rk_UserID = 7, rk_KeyHash = ''a1b2c3d4-e5f6'', rk_UsedAt = None, rk_CreatedAt = 1\<rparr>"
  have "?r \<in> set (kt_rows two_keys)" by code_simp
  moreover have "rk_KeyHash ?r = id (canonical_key ''a1b2c3d4-e5f6'')" by code_simp
  ultimately show ?thesis using recovery_key_race [of ?r two_keys 7 id "''a1b2c3d4-e5f6''" 5 6] by simp
qed

end
