(* ===== verification/Sql_Order.thy ===== *)
theory Sql_Order
  imports Dbtime "HOL-Library.Char_ord" "HOL-Library.List_Lexorder"
begin

text \<open>
  The order the database gives a column of timestamps: it compares the stored texts byte by byte (NULL first),
  not the instants they stand for. For texts \<open>FormatSQLTimestamp\<close> wrote, with a year of four digits, the two
  orders agree, which is what the statements with \<^verbatim>\<open>ORDER BY created_at\<close> rely on.
\<close>

section \<open>The order of a column\<close>

text \<open>The text of a value; what the driver hands out as a time was stored as its canonical text.\<close>

definition column_text :: "scanned \<Rightarrow> string" where
  "column_text v =
     (case v of VNil \<Rightarrow> [] | VTime t \<Rightarrow> FormatSQLTimestamp t | VBytes s \<Rightarrow> s | VStr s \<Rightarrow> s | VInt i \<Rightarrow> itoa i)"

text \<open>
  \<^verbatim>\<open>ORDER BY\<close> a column \<^verbatim>\<open>DESC\<close>, whose text is \<open>key\<close>. Rows with equal texts come in an order of the database's choice: \<open>ties\<close> permutes the
  rows first, and the sort is stable.
\<close>

definition order_by_desc :: "('r \<Rightarrow> string) \<Rightarrow> ('r list \<Rightarrow> 'r list) \<Rightarrow> 'r list \<Rightarrow> 'r list" where
  "order_by_desc key ties rows = rev (sort_key key (ties rows))"

lemma sorted_order_by_desc:
  "sorted_wrt (\<lambda>r q. key q \<le> key r) (order_by_desc key ties rows)"
  using sorted_sort_key [of key "ties rows"]
  by (simp add: order_by_desc_def sorted_wrt_rev sorted_map)

text \<open>What a LIMIT cuts off is not above anything it keeps.\<close>

lemma take_order_by_desc:
  assumes "r \<in> set (take n (order_by_desc key ties rows))" "q \<in> set (drop n (order_by_desc key ties rows))"
  shows "key q \<le> key r"
proof -
  have "sorted_wrt (\<lambda>r q. key q \<le> key r)
      (take n (order_by_desc key ties rows) @ drop n (order_by_desc key ties rows))"
    by (simp add: sorted_order_by_desc)
  then show ?thesis using assms unfolding sorted_wrt_append by blast
qed

section \<open>Canonical texts are ordered like instants\<close>

lemma append_less: "length a = length b \<Longrightarrow> a < b \<or> (a = b \<and> x < y) \<Longrightarrow> a @ x < b @ (y :: string)"
proof (induction a b rule: list_induct2)
  case (Cons c a d b)
  then show ?case by (cases "c = d") auto
qed simp

lemma digit_char_less: "0 \<le> a \<Longrightarrow> a < b \<Longrightarrow> b \<le> 9 \<Longrightarrow> digit_char a < digit_char b"
  by (simp add: digit_char_def less_char_def)

lemma digit_char_mod: "digit_char (a mod 10) = digit_char a"
  by (simp add: digit_char_def)

lemma digits_less:
  assumes "0 \<le> a" "a < b" "b div 10 \<le> 9"
  shows "digit_char (a div 10) < digit_char (b div 10) \<or> (a div 10 = b div 10 \<and> digit_char a < digit_char b)"
proof (cases "a div 10 = b div 10")
  case True
  then have "a mod 10 < b mod 10" using assms(2) by (metis div_mult_mod_eq add_less_cancel_left)
  with True digit_char_less [of "a mod 10" "b mod 10"] show ?thesis by (simp add: digit_char_mod)
next
  case False
  then have "a div 10 < b div 10" using assms zdiv_mono1 [of a b 10] by simp
  then show ?thesis using assms by (intro disjI1 digit_char_less) auto
qed

lemma pad2_less: "0 \<le> a \<Longrightarrow> a < b \<Longrightarrow> b < 100 \<Longrightarrow> pad2 a < pad2 b"
  using digits_less [of a b] by (auto simp: pad2_def)

lemma pad4_split: "0 \<le> y \<Longrightarrow> y \<le> 9999 \<Longrightarrow> pad4 y = pad2 (y div 100) @ pad2 (y mod 100)"
proof -
  assume y: "0 \<le> y" "y \<le> 9999"
  have "y mod 100 = 10 * (y div 10 mod 10) + y mod 10" using zmod_zmult2_eq [of 10 y 10] by simp
  then have "y mod 100 div 10 = y div 10 mod 10" by simp
  then have "digit_char (y mod 100 div 10) = digit_char (y div 10)" by (simp only: digit_char_mod)
  moreover have "digit_char (y mod 100) = digit_char y" by (simp add: digit_char_def mod_mod_cancel)
  moreover have "y div 100 div 10 = y div 1000" using zdiv_zmult2_eq [of 10 y 100] by simp
  moreover have "pad4 y = [digit_char (y div 1000), digit_char (y div 100), digit_char (y div 10), digit_char y]"
    using y by (simp only: pad4_def if_True simp_thms)
  ultimately show ?thesis by (simp only: pad2_def append.simps)
qed

lemma length_pads [simp]: "length (pad2 a) = 2" "0 \<le> y \<Longrightarrow> y \<le> 9999 \<Longrightarrow> length (pad4 y) = 4"
  by (simp_all add: pad2_def pad4_def)

lemma pad4_less:
  assumes "0 \<le> a" "a < b" "b \<le> 9999"
  shows "pad4 a < pad4 b"
proof -
  have "pad2 (a div 100) < pad2 (b div 100) \<or>
      (pad2 (a div 100) = pad2 (b div 100) \<and> pad2 (a mod 100) < pad2 (b mod 100))"
  proof (cases "a div 100 = b div 100")
    case True
    then have "a mod 100 < b mod 100" using assms(2) by (metis div_mult_mod_eq add_less_cancel_left)
    with True show ?thesis by (simp add: pad2_less)
  next
    case False
    then have "a div 100 < b div 100" using assms zdiv_mono1 [of a b 100] by simp
    then show ?thesis using assms by (intro disjI1 pad2_less) auto
  qed
  then show ?thesis using assms by (simp add: pad4_split append_less)
qed

lemma days_of_less:
  assumes v: "valid_date y m d" "valid_date y' m' d'" and less: "y < y' \<or> (y = y' \<and> (m < m' \<or> (m = m' \<and> d < d')))"
  shows "days_of y m d < days_of y' m' d'"
proof -
  have first: "0 \<le> days_before_month z k" "days_before_month z k + e - 1 < days_before_year (z + 1) - days_before_year z"
    if "valid_date z k e" for z k e
    using that days_before_month_mono [of 1 k z] month_len_bounds [of z 1] days_before_month_mono [of k 13 z]
      days_before_year_Suc [of z]
    by (cases "k = 1"; auto simp: valid_date_def days_before_month_13)+
  from less consider "y < y'" | "y = y'" "m < m'" | "y = y'" "m = m'" "d < d'" by blast
  then show ?thesis
  proof cases
    case 1
    then show ?thesis
      using days_before_year_mono [of y y'] first [OF v(1)] first(1) [OF v(2)] v by (simp add: days_of_def valid_date_def)
  next
    case 2
    then show ?thesis
      using days_before_month_mono [of m m' y] v by (simp add: days_of_def valid_date_def)
  qed (simp add: days_of_def)
qed

lemma sql_text_less:
  assumes r: "0 \<le> y" "y' \<le> 9999" "0 \<le> y'" "y \<le> 9999" "valid_date y m d" "valid_date y' m' d'" "0 \<le> h" "h < 24" "0 \<le> h'" "h' < 24"
      "0 \<le> mi" "mi < 60" "0 \<le> mi'" "mi' < 60" "0 \<le> se" "se < 60" "0 \<le> se'" "se' < 60"
    and less: "y < y' \<or> (y = y' \<and> (m < m' \<or> (m = m' \<and> (d < d' \<or> (d = d' \<and> (h < h' \<or> (h = h' \<and>
      (mi < mi' \<or> (mi = mi' \<and> se < se')))))))))"
  shows "sql_text y m d h mi se < sql_text y' m' d' h' mi' se'"
proof -
  have md: "0 \<le> m" "m' < 100" "0 \<le> d" "d' < 100"
    using r(5,6) month_len_bounds [of y' m'] by (auto simp: valid_date_def)
  have p: "m < m' \<Longrightarrow> pad2 m < pad2 m'" "d < d' \<Longrightarrow> pad2 d < pad2 d'" "h < h' \<Longrightarrow> pad2 h < pad2 h'"
    "mi < mi' \<Longrightarrow> pad2 mi < pad2 mi'" "se < se' \<Longrightarrow> pad2 se < pad2 se'" "y < y' \<Longrightarrow> pad4 y < pad4 y'"
    using r md by (auto intro: pad2_less pad4_less)
  show ?thesis
    unfolding sql_text_def
    by (rule append_less, simp add: r, use less p in \<open>auto intro!: append_less\<close>)
qed

lemma fields_less:
  assumes "local_sec utc t < local_sec utc u"
  shows "year utc t < year utc u \<or> (year utc t = year utc u \<and> (month utc t < month utc u \<or> (month utc t = month utc u \<and>
    (day utc t < day utc u \<or> (day utc t = day utc u \<and> (hour utc t < hour utc u \<or> (hour utc t = hour utc u \<and>
    (minute utc t < minute utc u \<or> (minute utc t = minute utc u \<and> sec utc t < sec utc u)))))))))"
proof (rule ccontr)
  assume n: "\<not> ?thesis"
  define date where "date v = days_of (year utc v) (month utc v) (day utc v)" for v
  have split: "date v * 86400 + hour utc v * 3600 + minute utc v * 60 + sec utc v = local_sec utc v"
    and ranges: "0 \<le> hour utc v" "hour utc v \<le> 23" "0 \<le> minute utc v" "minute utc v \<le> 59" "0 \<le> sec utc v" "sec utc v \<le> 59" for v
    using local_sec_split [of utc v] field_ranges [of utc v] by (simp_all add: date_def sec_def)
  have "date u \<le> date t"
    using n days_of_less [OF date_valid [of utc u] date_valid [of utc t]] unfolding date_def
    by (metis linorder_neqE_linordered_idom order.strict_implies_order order_refl)
  moreover have "\<not> date u < date t"
    using assms split [of t] split [of u] ranges [of t] ranges [of u] by linarith
  ultimately have "date u = date t" by simp
  then have d: "year utc t = year utc u" "month utc t = month utc u" "day utc t = day utc u"
    using days_of_less [OF date_valid [of utc u] date_valid [of utc t]] days_of_less [OF date_valid [of utc t] date_valid [of utc u]]
    unfolding date_def by (metis linorder_neqE_linordered_idom less_irrefl)+
  with n assms split [of t] split [of u] ranges [of t] ranges [of u] \<open>date u = date t\<close> show False by linarith
qed

lemma FormatSQLTimestamp_order:
  assumes "0 \<le> year utc t" "year utc t \<le> 9999" "0 \<le> year utc u" "year utc u \<le> 9999"
    and le: "FormatSQLTimestamp u \<le> FormatSQLTimestamp t"
  shows "u div second_ns \<le> t div second_ns"
proof (rule ccontr)
  assume "\<not> ?thesis"
  then have "local_sec utc t < local_sec utc u" by (simp add: local_sec_def utc_def unix_sec_def)
  moreover have "0 \<le> sec utc v" "sec utc v < 60" "hour utc v < 24" "minute utc v < 60" for v
    using field_ranges [of utc v] by (simp_all add: sec_def)
  ultimately have "FormatSQLTimestamp t < FormatSQLTimestamp u"
    unfolding FormatSQLTimestamp_def sql_text_def [symmetric]
    using assms field_ranges [of utc t] field_ranges [of utc u] date_valid fields_less [of t u]
    by (intro sql_text_less) auto
  with le show False by simp
qed

text \<open>A column value \<open>FormatSQLTimestamp\<close> wrote at some instant of the years 0 to 9999.\<close>

definition canonical_at :: "instant \<Rightarrow> scanned \<Rightarrow> bool" where
  "canonical_at t v \<longleftrightarrow> 0 \<le> year utc t \<and> year utc t \<le> 9999 \<and> v = VStr (FormatSQLTimestamp t)"

lemma canonical_order:
  "canonical_at t v \<Longrightarrow> canonical_at u w \<Longrightarrow> column_text w \<le> column_text v \<Longrightarrow> u div second_ns \<le> t div second_ns"
  by (auto simp: canonical_at_def column_text_def intro: FormatSQLTimestamp_order)

end
