(* ===== verification/Tokens.thy ===== *)
theory Tokens
  imports Recovery_Keys Sql_Order
begin

text \<open>
  API tokens, \<^verbatim>\<open>src/server/model/token_v2.go\<close> and \<^verbatim>\<open>src/server/model/token.go\<close>: two models over the one
  table \<^verbatim>\<open>user_tokens\<close>. The token hash and the random bytes are arguments, as are the outcomes of the
  statements and the clock readings.

  A timestamp column holds what the statement bound to it: canonical text (\<open>VStr\<close>), a \<^verbatim>\<open>time.Time\<close> (\<open>VTime\<close>), which these two
  models bind as it is, or NULL. The database driver writes a time in a text of its own, and reads a column into a
  \<^verbatim>\<open>time.Time\<close> or \<^verbatim>\<open>sql.NullTime\<close> if it understands the text; both are parameters.
\<close>

section \<open>State\<close>

text \<open>
  \<open>td_text\<close>: the text a bound value is stored as. \<open>td_time\<close>: the scan of the column into a \<^verbatim>\<open>sql.NullTime\<close>, \<open>None\<close> when it fails,
  \<open>Some None\<close> for NULL.
\<close>

record time_driver =
  td_text :: "scanned \<Rightarrow> string"
  td_time :: "scanned \<Rightarrow> instant option option"

text \<open>A driver that understands canonical text, and one that reads back every time that was bound.\<close>

definition reads_canonical :: "time_driver \<Rightarrow> bool" where
  "reads_canonical drv \<longleftrightarrow> td_time drv VNil = Some None \<and>
     (\<forall>t. 0 \<le> year utc t \<and> year utc t \<le> 9999 \<longrightarrow>
        td_time drv (VStr (FormatSQLTimestamp t)) = Some (Some (t - t mod second_ns)))"

definition reads_bound :: "time_driver \<Rightarrow> bool" where
  "reads_bound drv \<longleftrightarrow> td_time drv VNil = Some None \<and> (\<forall>t. td_time drv (VTime t) = Some (Some t))"

record token_row =
  tk_id :: int
  tk_user_id :: int
  tk_hash :: string
  tk_prefix :: string
  tk_name :: "string option"
  tk_scopes :: "string option"
  tk_created_at :: scanned
  tk_expires_at :: scanned
  tk_last_used_at :: scanned

record token_table =
  tt_next :: int
  tt_rows :: "token_row list"

record Token =
  tok_ID :: int
  tok_OwnerType :: string
  tok_OwnerID :: int
  tok_Name :: string
  tok_TokenHash :: string
  tok_TokenPrefix :: string
  tok_Scope :: string
  tok_ExpiresAt :: "instant option"
  tok_LastUsedAt :: "instant option"
  tok_Token :: string

datatype token_error =
    InvalidOwnerType string
  | OwnerTypeNotStored string
  | InvalidScope string
  | TokenGenerateFailed
  | InsertTokenFailed
  | TokenIdFailed
  | InvalidAgentFormat
  | MissingPrefix
  | UnknownPrefix string
  | WrongRandomLength
  | InvalidToken
  | TokenDatabaseError
  | TokenExpired
  | TokenNotFound
  | UpdateTokenFailed

type_synonym tok_hash = "string \<Rightarrow> string"

definition ScopeGlobal :: string where "ScopeGlobal = ''global''"
definition ScopeReadWrite :: string where "ScopeReadWrite = ''read-write''"
definition ScopeRead :: string where "ScopeRead = ''read''"

definition OwnerTypeAdmin :: string where "OwnerTypeAdmin = ''admin''"
definition OwnerTypeUser :: string where "OwnerTypeUser = ''user''"
definition OwnerTypeOrg :: string where "OwnerTypeOrg = ''org''"

definition PrefixAdmin :: string where "PrefixAdmin = ''adm_''"
definition PrefixUser :: string where "PrefixUser = ''usr_''"
definition PrefixOrg :: string where "PrefixOrg = ''org_''"
definition PrefixAdminAgt :: string where "PrefixAdminAgt = ''adm_agt_''"
definition PrefixUserAgt :: string where "PrefixUserAgt = ''usr_agt_''"
definition PrefixOrgAgt :: string where "PrefixOrgAgt = ''org_agt_''"

lemmas prefix_consts = PrefixAdmin_def PrefixUser_def PrefixOrg_def PrefixAdminAgt_def PrefixUserAgt_def
  PrefixOrgAgt_def

section \<open>Token text\<close>

text \<open>\<open>bytes\<close>: the sixteen random bytes, \<open>None\<close> on an error.\<close>

definition GenerateTokenWithPrefix :: "string \<Rightarrow> nat list option \<Rightarrow> string option" where
  "GenerateTokenWithPrefix pre bytes = map_option (\<lambda>bs. pre @ hex_encode bs) bytes"

definition GetTokenPrefix :: "string \<Rightarrow> string" where
  "GetTokenPrefix token = (if length token < 8 then token else take 8 token)"

definition ValidateTokenFormat :: "string \<Rightarrow> token_error option" where
  "ValidateTokenFormat token =
     (if prefix PrefixAdminAgt token then
        (if length token \<noteq> length PrefixAdminAgt + 32 then Some InvalidAgentFormat else None)
      else if prefix PrefixUserAgt token then
        (if length token \<noteq> length PrefixUserAgt + 32 then Some InvalidAgentFormat else None)
      else if prefix PrefixOrgAgt token then
        (if length token \<noteq> length PrefixOrgAgt + 32 then Some InvalidAgentFormat else None)
      else
        (case cut_char CHR ''_'' token of
           (a, None) \<Rightarrow> Some MissingPrefix
         | (a, Some random) \<Rightarrow>
             (let pre = a @ ''_''
              in if pre \<noteq> PrefixAdmin \<and> pre \<noteq> PrefixUser \<and> pre \<noteq> PrefixOrg then Some (UnknownPrefix pre)
                 else if length random \<noteq> 32 then Some WrongRandomLength
                 else None)))"

section \<open>TokenModelV2\<close>

record token_io =
  ti_bytes :: "nat list option"
  ti_write_ok :: bool
  ti_id_ok :: bool
  ti_now :: instant

definition hash_taken :: "string \<Rightarrow> token_row list \<Rightarrow> bool" where
  "hash_taken h rows \<longleftrightarrow> (\<exists>r\<in>set rows. tk_hash r = h)"

definition bound_time :: "instant option \<Rightarrow> scanned" where
  "bound_time t = (case t of None \<Rightarrow> VNil | Some x \<Rightarrow> VTime x)"

definition CreateToken ::
  "tok_hash \<Rightarrow> token_io \<Rightarrow> string \<Rightarrow> int \<Rightarrow> string \<Rightarrow> string \<Rightarrow> duration \<Rightarrow> token_table \<Rightarrow>
     token_table \<times> (token_error + Token)" where
  "CreateToken hash io ownerType ownerID name scope expiration t =
     (if ownerType \<noteq> OwnerTypeAdmin \<and> ownerType \<noteq> OwnerTypeUser \<and> ownerType \<noteq> OwnerTypeOrg
      then (t, Inl (InvalidOwnerType ownerType))
      else if ownerType \<noteq> OwnerTypeUser then (t, Inl (OwnerTypeNotStored ownerType))
      else if scope \<noteq> ScopeGlobal \<and> scope \<noteq> ScopeReadWrite \<and> scope \<noteq> ScopeRead
      then (t, Inl (InvalidScope scope))
      else case GenerateTokenWithPrefix PrefixUser (ti_bytes io) of
        None \<Rightarrow> (t, Inl TokenGenerateFailed)
      | Some fullToken \<Rightarrow>
          (let tokenHash = hash fullToken; tokenPrefix = GetTokenPrefix fullToken;
               expiresAt = (if expiration > 0 then Some (ti_now io + expiration) else None)
           in if \<not> ti_write_ok io \<or> hash_taken tokenHash (tt_rows t) then (t, Inl InsertTokenFailed)
              else (\<lparr>tt_next = tt_next t + 1,
                     tt_rows = tt_rows t @
                       [\<lparr>tk_id = tt_next t, tk_user_id = ownerID, tk_hash = tokenHash, tk_prefix = tokenPrefix,
                         tk_name = Some name, tk_scopes = Some scope, tk_created_at = VTime (ti_now io),
                         tk_expires_at = bound_time expiresAt, tk_last_used_at = VNil\<rparr>]\<rparr>,
                    if \<not> ti_id_ok io then Inl TokenIdFailed
                    else Inr \<lparr>tok_ID = tt_next t, tok_OwnerType = ownerType, tok_OwnerID = ownerID, tok_Name = name,
                              tok_TokenHash = tokenHash, tok_TokenPrefix = tokenPrefix, tok_Scope = scope,
                              tok_ExpiresAt = expiresAt, tok_LastUsedAt = None, tok_Token = fullToken\<rparr>)))"

definition null_text :: "string option \<Rightarrow> string" where
  "null_text v = (case v of None \<Rightarrow> [] | Some s \<Rightarrow> s)"

definition row_token :: "instant option \<Rightarrow> instant option \<Rightarrow> token_row \<Rightarrow> Token" where
  "row_token expires lastUsed r =
     \<lparr>tok_ID = tk_id r, tok_OwnerType = OwnerTypeUser, tok_OwnerID = tk_user_id r, tok_Name = null_text (tk_name r),
      tok_TokenHash = tk_hash r, tok_TokenPrefix = tk_prefix r, tok_Scope = null_text (tk_scopes r),
      tok_ExpiresAt = expires, tok_LastUsedAt = lastUsed, tok_Token = []\<rparr>"

text \<open>The scan of a row's timestamps: the creation, which must not be NULL, the expiry and the last use.\<close>

definition scan_times :: "time_driver \<Rightarrow> token_row \<Rightarrow> (instant option \<times> instant option) option" where
  "scan_times drv r =
     (case (td_time drv (tk_created_at r), td_time drv (tk_expires_at r), td_time drv (tk_last_used_at r)) of
        (Some (Some _), Some e, Some l) \<Rightarrow> Some (e, l)
      | _ \<Rightarrow> None)"

definition ValidateToken :: "tok_hash \<Rightarrow> time_driver \<Rightarrow> bool \<Rightarrow> instant \<Rightarrow> string \<Rightarrow> token_table \<Rightarrow> token_error + Token" where
  "ValidateToken hash drv queryOk now token t =
     (case ValidateTokenFormat token of
        Some e \<Rightarrow> Inl e
      | None \<Rightarrow>
          if \<not> queryOk then Inl TokenDatabaseError
          else case sql_lookup tk_hash (hash token) (tt_rows t) of
            None \<Rightarrow> Inl InvalidToken
          | Some r \<Rightarrow>
              (case scan_times drv r of
                 None \<Rightarrow> Inl TokenDatabaseError
               | Some (expires, lastUsed) \<Rightarrow>
                   (case expires of
                      Some e \<Rightarrow> if now > e then Inl TokenExpired else Inr (row_token expires lastUsed r)
                    | None \<Rightarrow> Inr (row_token expires lastUsed r))))"

definition UpdateLastUsed :: "bool \<Rightarrow> instant \<Rightarrow> int \<Rightarrow> token_table \<Rightarrow> token_table \<times> bool" where
  "UpdateLastUsed ok now tokenID t =
     (if ok then (t\<lparr>tt_rows := sql_update (\<lambda>r. tk_id r = tokenID) (\<lambda>r. r\<lparr>tk_last_used_at := VTime now\<rparr>) (tt_rows t)\<rparr>, True)
      else (t, False))"

text \<open>\<^verbatim>\<open>ORDER BY created_at DESC\<close>; \<open>ties\<close> is the database's order of equal texts.\<close>

definition newest_tokens :: "time_driver \<Rightarrow> (token_row list \<Rightarrow> token_row list) \<Rightarrow> int \<Rightarrow> token_table \<Rightarrow> token_row list" where
  "newest_tokens drv ties userID t =
     order_by_desc (\<lambda>r. td_text drv (tk_created_at r)) ties (filter (\<lambda>r. tk_user_id r = userID) (tt_rows t))"

text \<open>The hash is not selected by the listing.\<close>

definition ListTokens ::
  "time_driver \<Rightarrow> (token_row list \<Rightarrow> token_row list) \<Rightarrow> bool \<Rightarrow> string \<Rightarrow> int \<Rightarrow> token_table \<Rightarrow> token_error + Token list" where
  "ListTokens drv ties queryOk ownerType ownerID t =
     (if ownerType \<noteq> OwnerTypeUser then Inl (OwnerTypeNotStored ownerType)
      else let rows = newest_tokens drv ties ownerID t
           in if \<not> queryOk \<or> \<not> list_all (\<lambda>r. scan_times drv r \<noteq> None) rows then Inl TokenDatabaseError
              else Inr (map (\<lambda>r. case the (scan_times drv r) of (e, l) \<Rightarrow> (row_token e l r)\<lparr>tok_TokenHash := []\<rparr>) rows))"

definition DeleteToken :: "bool \<Rightarrow> int \<Rightarrow> string \<Rightarrow> int \<Rightarrow> token_table \<Rightarrow> token_table \<times> token_error option" where
  "DeleteToken ok i ownerType ownerID t =
     (if ownerType \<noteq> OwnerTypeUser then (t, Some (OwnerTypeNotStored ownerType))
      else if \<not> ok then (t, Some TokenDatabaseError)
      else let P = (\<lambda>r. tk_id r = i \<and> tk_user_id r = ownerID)
           in (t\<lparr>tt_rows := sql_delete P (tt_rows t)\<rparr>, if affected P (tt_rows t) = 0 then Some TokenNotFound else None))"

definition RotateToken ::
  "tok_hash \<Rightarrow> time_driver \<Rightarrow> bool \<Rightarrow> token_io \<Rightarrow> int \<Rightarrow> string \<Rightarrow> int \<Rightarrow> token_table \<Rightarrow> token_table \<times> (token_error + Token)" where
  "RotateToken hash drv queryOk io i ownerType ownerID t =
     (if ownerType \<noteq> OwnerTypeUser then (t, Inl (OwnerTypeNotStored ownerType))
      else if \<not> queryOk then (t, Inl TokenDatabaseError)
      else case find (\<lambda>r. tk_id r = i \<and> tk_user_id r = ownerID) (tt_rows t) of
        None \<Rightarrow> (t, Inl TokenNotFound)
      | Some r \<Rightarrow>
          (case (td_time drv (tk_created_at r), td_time drv (tk_expires_at r)) of
             (Some (Some _), Some expires) \<Rightarrow>
               (case GenerateTokenWithPrefix PrefixUser (ti_bytes io) of
                  None \<Rightarrow> (t, Inl TokenGenerateFailed)
                | Some fullToken \<Rightarrow>
                    (let tokenHash = hash fullToken; tokenPrefix = GetTokenPrefix fullToken
                     in if \<not> ti_write_ok io \<or> hash_taken tokenHash (filter (\<lambda>q. tk_id q \<noteq> i) (tt_rows t))
                        then (t, Inl UpdateTokenFailed)
                        else (t\<lparr>tt_rows := sql_update (\<lambda>r. tk_id r = i)
                                  (\<lambda>r. r\<lparr>tk_hash := tokenHash, tk_prefix := tokenPrefix, tk_last_used_at := VNil\<rparr>) (tt_rows t)\<rparr>,
                              Inr ((row_token expires None r)\<lparr>tok_TokenHash := tokenHash, tok_TokenPrefix := tokenPrefix,
                                                 tok_Token := fullToken\<rparr>))))
           | _ \<Rightarrow> (t, Inl TokenDatabaseError)))"

section \<open>TokenModel\<close>

record APIToken =
  at_ID :: int
  at_UserID :: int
  at_TokenPrefix :: string
  at_Name :: string
  at_ExpiresAt :: "instant option"
  at_LastUsedAt :: "instant option"
  at_Token :: string

definition GenerateToken :: "nat list option \<Rightarrow> string option" where
  "GenerateToken bytes = map_option (\<lambda>bs. ''usr_'' @ hex_encode bs) bytes"

definition CreateAPIToken ::
  "tok_hash \<Rightarrow> token_io \<Rightarrow> int \<Rightarrow> string \<Rightarrow> token_table \<Rightarrow> token_table \<times> (token_error + APIToken)" where
  "CreateAPIToken hash io userID name t =
     (case GenerateToken (ti_bytes io) of
        None \<Rightarrow> (t, Inl TokenGenerateFailed)
      | Some token \<Rightarrow>
          (let tokenHash = hash token; tokenPrefix = GetTokenPrefix token
           in if \<not> ti_write_ok io \<or> hash_taken tokenHash (tt_rows t) then (t, Inl InsertTokenFailed)
              else (\<lparr>tt_next = tt_next t + 1,
                     tt_rows = tt_rows t @
                       [\<lparr>tk_id = tt_next t, tk_user_id = userID, tk_hash = tokenHash, tk_prefix = tokenPrefix,
                         tk_name = Some name, tk_scopes = None, tk_created_at = VTime (ti_now io),
                         tk_expires_at = VNil, tk_last_used_at = VNil\<rparr>]\<rparr>,
                    if \<not> ti_id_ok io then Inl TokenIdFailed
                    else Inr \<lparr>at_ID = tt_next t, at_UserID = userID, at_TokenPrefix = tokenPrefix, at_Name = name,
                              at_ExpiresAt = None, at_LastUsedAt = None, at_Token = token\<rparr>)))"

text \<open>A NULL name does not scan into a string.\<close>

definition GetByToken :: "tok_hash \<Rightarrow> time_driver \<Rightarrow> bool \<Rightarrow> instant \<Rightarrow> string \<Rightarrow> token_table \<Rightarrow> token_error + APIToken" where
  "GetByToken hash drv queryOk now token t =
     (if \<not> queryOk then Inl TokenDatabaseError
      else case sql_lookup tk_hash (hash token) (tt_rows t) of
        None \<Rightarrow> Inl TokenNotFound
      | Some r \<Rightarrow>
          (case (tk_name r, scan_times drv r) of
             (Some name, Some (expires, lastUsed)) \<Rightarrow>
               (let a = \<lparr>at_ID = tk_id r, at_UserID = tk_user_id r, at_TokenPrefix = tk_prefix r, at_Name = name,
                         at_ExpiresAt = expires, at_LastUsedAt = lastUsed, at_Token = []\<rparr>
                in case expires of
                     Some e \<Rightarrow> if \<not> now < e then Inl TokenExpired else Inr a
                   | None \<Rightarrow> Inr a)
           | _ \<Rightarrow> Inl TokenDatabaseError))"

text \<open>The listing does not select the expiry.\<close>

definition GetByUserID ::
  "time_driver \<Rightarrow> (token_row list \<Rightarrow> token_row list) \<Rightarrow> bool \<Rightarrow> int \<Rightarrow> token_table \<Rightarrow> token_error + APIToken list" where
  "GetByUserID drv ties queryOk userID t =
     (let rows = newest_tokens drv ties userID t
      in if \<not> queryOk \<or> \<not> list_all (\<lambda>r. tk_name r \<noteq> None \<and> Option.bind (td_time drv (tk_created_at r)) id \<noteq> None \<and>
                                       td_time drv (tk_last_used_at r) \<noteq> None) rows
         then Inl TokenDatabaseError
         else Inr (map (\<lambda>r. \<lparr>at_ID = tk_id r, at_UserID = tk_user_id r, at_TokenPrefix = tk_prefix r,
                             at_Name = null_text (tk_name r), at_ExpiresAt = None,
                             at_LastUsedAt = the (td_time drv (tk_last_used_at r)), at_Token = []\<rparr>) rows))"

definition DeleteAPIToken :: "bool \<Rightarrow> int \<Rightarrow> token_table \<Rightarrow> token_table \<times> bool" where
  "DeleteAPIToken ok i t = (if ok then (t\<lparr>tt_rows := sql_delete (\<lambda>r. tk_id r = i) (tt_rows t)\<rparr>, True) else (t, False))"

definition DeleteTokensByUserID :: "bool \<Rightarrow> int \<Rightarrow> token_table \<Rightarrow> token_table \<times> bool" where
  "DeleteTokensByUserID ok userID t =
     (if ok then (t\<lparr>tt_rows := sql_delete (\<lambda>r. tk_user_id r = userID) (tt_rows t)\<rparr>, True) else (t, False))"

section \<open>The table\<close>

definition token_ok :: "token_row \<Rightarrow> bool" where
  "token_ok r \<longleftrightarrow> length (tk_prefix r) \<le> 8"

inductive token_change :: "token_row \<Rightarrow> token_row \<Rightarrow> bool" where
  "token_change r (r\<lparr>tk_last_used_at := x\<rparr>)"
| "token_change r (r\<lparr>tk_hash := h, tk_prefix := GetTokenPrefix tok, tk_last_used_at := VNil\<rparr>)"

lemma GetTokenPrefix_length: "length (GetTokenPrefix token) \<le> 8"
  by (simp add: GetTokenPrefix_def)

interpretation token_rows: row_machine tk_id token_ok token_change
  by unfold_locales (auto simp: token_ok_def GetTokenPrefix_length elim: token_change.cases)

definition tokens_wf :: "token_table \<Rightarrow> bool" where
  "tokens_wf t \<longleftrightarrow> token_rows.table_ok (tt_next t) (tt_rows t) \<and> distinct (map tk_hash (tt_rows t))"

section \<open>The life of a token\<close>

lemma hex_not_agent: "list_all hex_char s \<Longrightarrow> \<not> prefix ''agt_'' s"
  by (auto simp: prefix_def hex_char_def)

lemma user_token_format:
  assumes "length bs = 16"
  shows "ValidateTokenFormat (PrefixUser @ hex_encode bs) = None"
proof -
  have n: "\<not> prefix PrefixUserAgt (PrefixUser @ hex_encode bs)"
    using hex_not_agent [OF hex_encode_chars] by (auto simp: prefix_consts)
  have "cut_char CHR ''_'' (PrefixUser @ hex_encode bs) = (''usr'', Some (hex_encode bs))"
    using cut_char_append [of "CHR ''_''" "''usr''" "hex_encode bs"] by (simp add: PrefixUser_def)
  with n assms show ?thesis
    by (simp add: ValidateTokenFormat_def prefix_consts hex_encode_length)
qed

lemma CreateToken_result:
  assumes "CreateToken hash io ty u name scope d t = (t', Inr tk)"
  shows "\<exists>bs r. ti_bytes io = Some bs \<and> tok_Token tk = PrefixUser @ hex_encode bs \<and> ty = OwnerTypeUser \<and>
    t' = \<lparr>tt_next = tt_next t + 1, tt_rows = tt_rows t @ [r]\<rparr> \<and> \<not> hash_taken (hash (tok_Token tk)) (tt_rows t) \<and>
    r = \<lparr>tk_id = tt_next t, tk_user_id = u, tk_hash = hash (tok_Token tk), tk_prefix = GetTokenPrefix (tok_Token tk),
         tk_name = Some name, tk_scopes = Some scope, tk_created_at = VTime (ti_now io),
         tk_expires_at = (if d > 0 then VTime (ti_now io + d) else VNil), tk_last_used_at = VNil\<rparr> \<and> tok_ID tk = tt_next t"
  using assms by (auto simp: CreateToken_def GenerateTokenWithPrefix_def Let_def bound_time_def split: if_splits option.splits)

lemma CreateToken_wf:
  assumes "tokens_wf t" "CreateToken hash io ty u name scope d t = (t', Inr tk)"
  shows "tokens_wf t'"
proof -
  obtain r where r: "t' = \<lparr>tt_next = tt_next t + 1, tt_rows = tt_rows t @ [r]\<rparr>" "tk_id r = tt_next t"
      "\<not> hash_taken (tk_hash r) (tt_rows t)" "tk_prefix r = GetTokenPrefix (tok_Token tk)"
    using CreateToken_result [OF assms(2)] by auto
  have "token_ok r" by (simp add: token_ok_def r(4) GetTokenPrefix_length)
  with assms(1) r show ?thesis by (auto simp: tokens_wf_def token_rows.insert_ok hash_taken_def)
qed

text \<open>
  A created token authenticates its owner for its whole life and nobody can remove it but the
  owner: the returned text is accepted, with the owner, name and scope it was created with, up to and
  including its expiry (always, without one), and as expired afterwards; another user's request to
  delete it changes nothing and fails; after the owner's request the text is refused. (Hypothesis: the
  driver reads back the times that were bound.)
\<close>

lemma token_lifecycle:
  assumes "tokens_wf t" "ti_bytes io = Some bs" "length bs = 16"
    "CreateToken hash io ty u name scope d t = (t', Inr tk)" and drv: "reads_bound drv"
  shows "tokens_wf t' \<and>
    (\<forall>now. if 0 < d \<and> ti_now io + d < now
       then ValidateToken hash drv True now (tok_Token tk) t' = Inl TokenExpired
       else \<exists>v. ValidateToken hash drv True now (tok_Token tk) t' = Inr v \<and> tok_OwnerID v = u \<and> tok_Name v = name \<and>
              tok_Scope v = scope \<and> tok_ID v = tok_ID tk) \<and>
    (\<forall>w. w \<noteq> u \<longrightarrow> DeleteToken True (tok_ID tk) OwnerTypeUser w t' = (t', Some TokenNotFound)) \<and>
    snd (DeleteToken True (tok_ID tk) OwnerTypeUser u t') = None \<and>
    (\<forall>now. ValidateToken hash drv True now (tok_Token tk) (fst (DeleteToken True (tok_ID tk) OwnerTypeUser u t')) = Inl InvalidToken)"
proof -
  obtain r where tok: "tok_Token tk = PrefixUser @ hex_encode bs"
    and t': "t' = \<lparr>tt_next = tt_next t + 1, tt_rows = tt_rows t @ [r]\<rparr>"
    and fresh: "\<not> hash_taken (hash (tok_Token tk)) (tt_rows t)"
    and r: "r = \<lparr>tk_id = tt_next t, tk_user_id = u, tk_hash = hash (tok_Token tk), tk_prefix = GetTokenPrefix (tok_Token tk),
         tk_name = Some name, tk_scopes = Some scope, tk_created_at = VTime (ti_now io),
         tk_expires_at = (if d > 0 then VTime (ti_now io + d) else VNil), tk_last_used_at = VNil\<rparr>"
    and id: "tok_ID tk = tt_next t"
    using CreateToken_result [OF assms(4)] assms(2) by auto
  have fmt: "ValidateTokenFormat (tok_Token tk) = None" by (simp add: tok user_token_format assms(3))
  have none: "sql_lookup tk_hash (hash (tok_Token tk)) (tt_rows t) = None"
    using fresh by (auto simp: sql_lookup_None hash_taken_def)
  have found: "sql_lookup tk_hash (hash (tok_Token tk)) (tt_rows t') = Some r"
    by (simp add: t' sql_lookup_append none r)
  have ids: "tk_id q \<noteq> tt_next t" if "q \<in> set (tt_rows t)" for q
    using assms(1) that by (auto simp: tokens_wf_def token_rows.table_ok_def)
  have del: "sql_delete (\<lambda>q. tk_id q = tt_next t \<and> tk_user_id q = w) (tt_rows t') =
      (if w = u then tt_rows t else tt_rows t')"
    "affected (\<lambda>q. tk_id q = tt_next t \<and> tk_user_id q = w) (tt_rows t') = (if w = u then 1 else 0)" for w
    using ids by (auto simp: t' r sql_delete_def affected_def filter_id_conv filter_empty_conv)
  have "tokens_wf t'" by (rule CreateToken_wf [OF assms(1,4)])
  moreover have "if 0 < d \<and> ti_now io + d < now
       then ValidateToken hash drv True now (tok_Token tk) t' = Inl TokenExpired
       else \<exists>v. ValidateToken hash drv True now (tok_Token tk) t' = Inr v \<and> tok_OwnerID v = u \<and> tok_Name v = name \<and>
              tok_Scope v = scope \<and> tok_ID v = tok_ID tk" for now
    using drv by (simp add: ValidateToken_def fmt found scan_times_def reads_bound_def) (simp add: r row_token_def null_text_def id)
  moreover have "DeleteToken True (tok_ID tk) OwnerTypeUser w t' = (t', Some TokenNotFound)" if "w \<noteq> u" for w
    using that by (simp add: DeleteToken_def id del)
  moreover have "DeleteToken True (tok_ID tk) OwnerTypeUser u t' = (t'\<lparr>tt_rows := tt_rows t\<rparr>, None)"
    by (simp add: DeleteToken_def id del)
  moreover have "ValidateToken hash drv True now (tok_Token tk) (t'\<lparr>tt_rows := tt_rows t\<rparr>) = Inl InvalidToken" for now
    by (simp add: ValidateToken_def fmt none)
  ultimately show ?thesis by simp
qed

text \<open>A driver that stores and reads every time in the canonical layout.\<close>

definition plain_driver :: time_driver where
  "plain_driver = \<lparr>td_text = column_text,
     td_time = (\<lambda>v. case v of VNil \<Rightarrow> Some None | VTime t \<Rightarrow> Some (Some t) | _ \<Rightarrow> map_option Some (ParseStoredTimestamp v))\<rparr>"

lemma plain_driver_reads: "reads_canonical plain_driver" "reads_bound plain_driver"
  using stored_text_reads_back by (auto simp: reads_canonical_def reads_bound_def plain_driver_def)

definition token_io_ok :: "nat \<Rightarrow> token_io" where
  "token_io_ok b = \<lparr>ti_bytes = Some (replicate 16 b), ti_write_ok = True, ti_id_ok = True, ti_now = 100\<rparr>"

lemma empty_tokens_wf: "tokens_wf \<lparr>tt_next = 1, tt_rows = []\<rparr>"
  by (simp add: tokens_wf_def token_rows.table_ok_def)

lemma token_lifecycle_example:
  "\<exists>t' tk. CreateToken id (token_io_ok 171) OwnerTypeUser 7 ''ci'' ScopeRead 50 \<lparr>tt_next = 1, tt_rows = []\<rparr> = (t', Inr tk) \<and>
     tok_Token tk = ''usr_abababababababababababababababab'' \<and>
     ValidateToken id plain_driver True 151 (tok_Token tk) t' = Inl TokenExpired"
proof -
  have ok: "ti_bytes (token_io_ok 171) = Some (replicate 16 171)" by (simp add: token_io_ok_def)
  have h: "PrefixUser @ hex_encode (replicate 16 171) = ''usr_abababababababababababababababab''" by code_simp
  obtain t' tk where c: "CreateToken id (token_io_ok 171) OwnerTypeUser 7 ''ci'' ScopeRead 50 \<lparr>tt_next = 1, tt_rows = []\<rparr> = (t', Inr tk)"
    by (simp add: CreateToken_def token_io_ok_def GenerateTokenWithPrefix_def hash_taken_def Let_def)
  have "tok_Token tk = ''usr_abababababababababababababababab''"
    using CreateToken_result [OF c] ok h by auto
  moreover have "ti_now (token_io_ok 171) = 100" by (simp add: token_io_ok_def)
  then have "ValidateToken id plain_driver True 151 (tok_Token tk) t' = Inl TokenExpired"
    using token_lifecycle [OF empty_tokens_wf ok length_replicate c plain_driver_reads(2)]
    by (elim conjE allE [of _ 151]) simp
  ultimately show ?thesis using c by blast
qed

section \<open>Rotation\<close>

lemma find_id:
  assumes "tokens_wf t" "find (\<lambda>r. tk_id r = i \<and> tk_user_id r = u) (tt_rows t) = Some r"
  shows "r \<in> set (tt_rows t) \<and> tk_id r = i \<and> (\<forall>q\<in>set (tt_rows t). tk_id q = i \<longrightarrow> q = r)"
proof -
  have r: "r \<in> set (tt_rows t)" "tk_id r = i" using assms(2) by (auto simp: find_Some_iff)
  moreover have "inj_on tk_id (set (tt_rows t))"
    using assms(1) by (simp add: tokens_wf_def token_rows.table_ok_def distinct_map)
  ultimately show ?thesis by (auto simp: inj_on_def)
qed

lemma RotateToken_result:
  assumes "tokens_wf t" "RotateToken hash drv True io i ty u t = (t', Inr tk)"
  shows "\<exists>bs r. ti_bytes io = Some bs \<and> tok_Token tk = PrefixUser @ hex_encode bs \<and>
    r \<in> set (tt_rows t) \<and> tk_id r = i \<and> tk_user_id r = u \<and>
    t' = t\<lparr>tt_rows := sql_update (\<lambda>q. q = r)
       (\<lambda>q. q\<lparr>tk_hash := hash (tok_Token tk), tk_prefix := GetTokenPrefix (tok_Token tk), tk_last_used_at := VNil\<rparr>) (tt_rows t)\<rparr> \<and>
    (\<forall>q\<in>set (tt_rows t). q \<noteq> r \<longrightarrow> tk_hash q \<noteq> hash (tok_Token tk))"
proof -
  obtain r where f: "find (\<lambda>r. tk_id r = i \<and> tk_user_id r = u) (tt_rows t) = Some r"
    using assms(2) by (auto simp: RotateToken_def split: if_splits option.splits)
  obtain bs where bs: "ti_bytes io = Some bs"
    using assms(2) f by (cases "ti_bytes io") (auto simp: RotateToken_def GenerateTokenWithPrefix_def split: if_splits option.splits)
  note id = find_id [OF assms(1) f]
  have up: "sql_update (\<lambda>q. tk_id q = i) g (tt_rows t) = sql_update (\<lambda>q. q = r) g (tt_rows t)" for g
  proof -
    have "(tk_id q = i) = (q = r)" if "q \<in> set (tt_rows t)" for q using id that by blast
    then show ?thesis unfolding sql_update_def by (intro map_cong) simp_all
  qed
  have u: "tk_user_id r = u" using f by (auto simp: find_Some_iff)
  have tk: "tok_Token tk = PrefixUser @ hex_encode bs" and ok: "\<not> hash_taken (hash (tok_Token tk)) (filter (\<lambda>q. tk_id q \<noteq> i) (tt_rows t))"
    and t': "t' = t\<lparr>tt_rows := sql_update (\<lambda>q. tk_id q = i)
       (\<lambda>q. q\<lparr>tk_hash := hash (tok_Token tk), tk_prefix := GetTokenPrefix (tok_Token tk), tk_last_used_at := VNil\<rparr>) (tt_rows t)\<rparr>"
    using assms(2) f bs by (auto simp: RotateToken_def GenerateTokenWithPrefix_def Let_def split: if_splits option.splits)
  show ?thesis
    using bs tk t' up id u ok by (intro exI [of _ bs] exI [of _ r]) (auto simp: hash_taken_def)
qed

lemma rotated_rows:
  assumes "distinct (map tk_hash rows)" "r \<in> set rows" "\<forall>x\<in>set rows. x \<noteq> r \<longrightarrow> tk_hash x \<noteq> h"
    "\<And>x. tk_hash (f x) = h" "rows' = sql_update (\<lambda>x. x = r) f rows" "tk_hash r \<noteq> h"
  shows "sql_lookup tk_hash h rows' = Some (f r) \<and> sql_lookup tk_hash (tk_hash r) rows' = None \<and>
    (\<forall>k. k \<noteq> h \<longrightarrow> k \<noteq> tk_hash r \<longrightarrow> sql_lookup tk_hash k rows' = sql_lookup tk_hash k rows)"
proof (intro conjI allI impI)
  have rows: "set rows' = insert (f r) (set rows - {r})" using assms(2,5) by (auto simp: sql_update_def)
  have "map tk_hash rows' = map (\<lambda>x. if x = r then h else tk_hash x) rows"
    using assms(4,5) by (simp add: sql_update_def)
  moreover have inj: "tk_hash x \<noteq> tk_hash y" if "x \<in> set rows" "y \<in> set rows" "x \<noteq> y" for x y
    using assms(1) that by (auto simp: distinct_map inj_on_def)
  moreover have "inj_on (\<lambda>x. if x = r then h else tk_hash x) (set rows)"
    using assms(3) inj by (intro inj_onI) (auto split: if_splits)
  ultimately have d': "distinct (map tk_hash rows')" using assms(1) by (simp add: distinct_map)
  show "sql_lookup tk_hash h rows' = Some (f r)" using rows assms(4) by (simp add: sql_lookup_iff [OF d'])
  show "sql_lookup tk_hash (tk_hash r) rows' = None"
    using rows assms(4,6) by (auto simp: sql_lookup_None dest: inj [OF _ assms(2)])
  fix k
  assume k: "k \<noteq> h" "k \<noteq> tk_hash r"
  have "sql_lookup tk_hash k rows' = Some x \<longleftrightarrow> sql_lookup tk_hash k rows = Some x" for x
    using rows k assms(4) by (auto simp: sql_lookup_iff [OF d'] sql_lookup_iff [OF assms(1)])
  then show "sql_lookup tk_hash k rows' = sql_lookup tk_hash k rows" by (metis option.exhaust)
qed

text \<open>
  Rotation replaces the secret and nothing else: after a successful rotation the new text is
  accepted with the owner, name, scope and expiry of the token, the old text is refused as unknown
  (when the two hashes differ), and every other token is validated as before.
\<close>

lemma token_rotation:
  assumes "tokens_wf t" "ti_bytes io = Some bs" "length bs = 16" "RotateToken hash drv True io i ty u t = (t', Inr tk)"
    "sql_lookup tk_id i (tt_rows t) = Some r" "tk_hash r = hash old" "hash old \<noteq> hash (tok_Token tk)"
    "td_time drv (tk_created_at r) = Some (Some c)" "td_time drv (tk_expires_at r) = Some expires" "td_time drv VNil = Some None"
    "case expires of None \<Rightarrow> True | Some e \<Rightarrow> now \<le> e"
  shows "ValidateToken hash drv True now (tok_Token tk) t' =
      Inr ((row_token expires None r)\<lparr>tok_TokenHash := hash (tok_Token tk), tok_TokenPrefix := GetTokenPrefix (tok_Token tk)\<rparr>) \<and>
    ValidateToken hash drv True now old t' \<noteq> Inr v \<and> sql_lookup tk_hash (hash old) (tt_rows t') = None \<and>
    (\<forall>other. hash other \<noteq> hash old \<longrightarrow> hash other \<noteq> hash (tok_Token tk) \<longrightarrow>
       ValidateToken hash drv True now other t' = ValidateToken hash drv True now other t)"
proof -
  let ?h = "hash (tok_Token tk)"
  let ?f = "\<lambda>q. q\<lparr>tk_hash := ?h, tk_prefix := GetTokenPrefix (tok_Token tk), tk_last_used_at := VNil\<rparr>"
  have dist: "distinct (map tk_id (tt_rows t))" "distinct (map tk_hash (tt_rows t))"
    using assms(1) by (simp_all add: tokens_wf_def token_rows.table_ok_def)
  have r: "r \<in> set (tt_rows t)" "tk_id r = i" using sql_lookup_Some [OF assms(5)] by auto
  obtain q where q: "q \<in> set (tt_rows t)" "tk_id q = i" "tok_Token tk = PrefixUser @ hex_encode bs"
      "tt_rows t' = sql_update (\<lambda>x. x = q) ?f (tt_rows t)"
      "\<forall>x\<in>set (tt_rows t). x \<noteq> q \<longrightarrow> tk_hash x \<noteq> ?h"
    using RotateToken_result [OF assms(1,4)] assms(2) by auto
  have "q = r" using dist(1) r q(1,2) by (auto simp: distinct_map inj_on_def)
  note rot = rotated_rows [OF dist(2) r(1) q(5) [unfolded \<open>q = r\<close>] _ q(4) [unfolded \<open>q = r\<close>]]
  have new: "sql_lookup tk_hash ?h (tt_rows t') = Some (?f r)"
    and gone: "sql_lookup tk_hash (hash old) (tt_rows t') = None"
    and same: "\<And>other. hash other \<noteq> ?h \<Longrightarrow> hash other \<noteq> hash old \<Longrightarrow>
      sql_lookup tk_hash (hash other) (tt_rows t') = sql_lookup tk_hash (hash other) (tt_rows t)"
    using rot assms(6,7) by auto
  have fmt: "ValidateTokenFormat (tok_Token tk) = None" by (simp add: q(3) user_token_format assms(3))
  have "ValidateToken hash drv True now (tok_Token tk) t' = Inr ((row_token expires None r)\<lparr>tok_TokenHash := ?h,
      tok_TokenPrefix := GetTokenPrefix (tok_Token tk)\<rparr>)"
    using assms(8-11) by (auto simp: ValidateToken_def fmt new row_token_def scan_times_def split: option.splits)
  moreover have "ValidateToken hash drv True now old t' \<noteq> Inr v"
    by (simp add: ValidateToken_def gone split: option.splits)
  moreover have "ValidateToken hash drv True now other t' = ValidateToken hash drv True now other t"
    if "hash other \<noteq> hash old" "hash other \<noteq> ?h" for other
    unfolding ValidateToken_def same [OF that(2,1)] ..
  ultimately show ?thesis using gone by blast
qed

definition one_token :: token_table where
  "one_token = fst (CreateToken id (token_io_ok 171) OwnerTypeUser 7 ''ci'' ScopeRead 50 \<lparr>tt_next = 1, tt_rows = []\<rparr>)"

lemma token_rotation_example:
  "\<exists>t' tk. RotateToken id plain_driver True (token_io_ok 18) 1 OwnerTypeUser 7 one_token = (t', Inr tk) \<and>
     sql_lookup tk_hash ''usr_abababababababababababababababab'' (tt_rows t') = None \<and>
     tok_Token tk = ''usr_12121212121212121212121212121212''"
proof -
  have texts: "PrefixUser @ hex_encode (replicate 16 171) = ''usr_abababababababababababababababab''"
    "PrefixUser @ hex_encode (replicate 16 18) = ''usr_12121212121212121212121212121212''" by code_simp+
  let ?r = "\<lparr>tk_id = 1, tk_user_id = 7, tk_hash = ''usr_abababababababababababababababab'', tk_prefix = ''usr_abab'',
     tk_name = Some ''ci'', tk_scopes = Some ScopeRead, tk_created_at = VTime 100, tk_expires_at = VTime 150, tk_last_used_at = VNil\<rparr>"
  have t: "one_token = \<lparr>tt_next = 2, tt_rows = [?r]\<rparr>"
    using texts(1) by (simp add: one_token_def CreateToken_def token_io_ok_def GenerateTokenWithPrefix_def hash_taken_def
        Let_def GetTokenPrefix_def bound_time_def)
  have wf: "tokens_wf one_token" by (simp add: t tokens_wf_def token_rows.table_ok_def token_ok_def)
  have b: "ti_bytes (token_io_ok 18) = Some (replicate 16 18)" by (simp add: token_io_ok_def)
  obtain t' tk where c: "RotateToken id plain_driver True (token_io_ok 18) 1 OwnerTypeUser 7 one_token = (t', Inr tk)"
    by (simp add: RotateToken_def t token_io_ok_def GenerateTokenWithPrefix_def hash_taken_def Let_def plain_driver_def)
  have tok: "tok_Token tk = ''usr_12121212121212121212121212121212''"
    using RotateToken_result [OF wf c] b texts(2) by auto
  have l: "sql_lookup tk_id 1 (tt_rows one_token) = Some ?r" by (simp add: t)
  have "sql_lookup tk_hash (id ''usr_abababababababababababababababab'') (tt_rows t') = None"
    using token_rotation [OF wf b length_replicate c l, of "''usr_abababababababababababababababab''" 100 "Some 150" 120] tok
    by (simp add: plain_driver_def)
  with c tok show ?thesis by auto
qed

text \<open>The two models of the table disagree on a token at the very instant of its expiry.\<close>

lemma expiry_instant_disagreement:
  assumes "sql_lookup tk_hash (hash token) (tt_rows t) = Some r" "ValidateTokenFormat token = None"
    "tk_name r = Some n" "scan_times drv r = Some (Some e, l)"
  shows "ValidateToken hash drv True e token t = Inr (row_token (Some e) l r) \<and> GetByToken hash drv True e token t = Inl TokenExpired"
  using assms by (simp add: ValidateToken_def GetByToken_def)

text \<open>
  The use of a token stores a time as it is. With a driver that cannot read such a time back, which \<^verbatim>\<open>user_settings.go\<close> says of
  the layout the driver writes, a token is refused from its first use on.
\<close>

lemma token_refused_after_use:
  assumes "sql_lookup tk_hash (hash token) (tt_rows t) = Some r" "td_time drv (VTime used) = None"
  shows "GetByToken hash drv True now token (fst (UpdateLastUsed True used (tk_id r) t)) = Inl TokenDatabaseError"
proof -
  have "sql_lookup tk_hash (hash token) (tt_rows (fst (UpdateLastUsed True used (tk_id r) t))) = Some (r\<lparr>tk_last_used_at := VTime used\<rparr>)"
    using assms(1) by (simp add: UpdateLastUsed_def sql_update_lookup)
  then show ?thesis using assms(2) by (simp add: GetByToken_def scan_times_def split: option.split)
qed

end
