(* ===== verification/Path_Security.thy ===== *)
theory Path_Security
  imports Go_Prelude
begin

text \<open>
  Path handling, \<^verbatim>\<open>src/server/middleware/path_security.go\<close>: the validation of user-supplied paths, the
  confinement of file paths to a base directory and the two middlewares that rewrite request paths,
  over \<^verbatim>\<open>path.Clean\<close> and \<^verbatim>\<open>filepath.Join\<close>/\<^verbatim>\<open>Abs\<close> of the standard library (on a system with / as separator).
\<close>

section \<open>path.Clean, filepath.Join and filepath.Abs\<close>

abbreviation slash :: char where "slash \<equiv> CHR ''/''"

definition clean_elem :: "bool \<Rightarrow> string list \<Rightarrow> string \<Rightarrow> string list" where
  "clean_elem rooted st e =
     (if e = [] \<or> e = ''.'' then st
      else if e = ''..'' then
        (if st \<noteq> [] \<and> last st \<noteq> ''..'' then butlast st else if rooted then st else st @ [''..''])
      else st @ [e])"

definition clean_elems :: "bool \<Rightarrow> string list \<Rightarrow> string list \<Rightarrow> string list" where
  "clean_elems rooted st es = foldl (clean_elem rooted) st es"

definition path_clean :: "string \<Rightarrow> string" where
  "path_clean p =
     (if p = [] then ''.''
      else let rooted = (hd p = slash);
               body = join_char slash (clean_elems rooted [] (split_char slash p))
           in if rooted then slash # body else if body = [] then ''.'' else body)"

definition filepath_join :: "string \<Rightarrow> string \<Rightarrow> string" where
  "filepath_join a b =
     (if a \<noteq> [] then path_clean (a @ slash # b) else if b \<noteq> [] then path_clean b else [])"

text \<open>\<open>cwd\<close>: the working directory, \<open>None\<close> when the system call fails.\<close>

definition filepath_abs :: "string option \<Rightarrow> string \<Rightarrow> string option" where
  "filepath_abs cwd p =
     (if p \<noteq> [] \<and> hd p = slash then Some (path_clean p)
      else map_option (\<lambda>wd. filepath_join wd p) cwd)"

section \<open>Validation\<close>

datatype path_error = ErrPathTraversal | ErrInvalidPath | ErrPathTooLong | ErrWorkingDir

definition normalizePath :: "string \<Rightarrow> string" where
  "normalizePath input =
     (if input = [] then []
      else let cleaned = trim_char slash (path_clean input)
           in if contains ''..'' cleaned then [] else cleaned)"

definition segment_char :: "char \<Rightarrow> bool" where
  "segment_char c \<longleftrightarrow>
     (let n = of_char c :: nat in (97 \<le> n \<and> n \<le> 122) \<or> (48 \<le> n \<and> n \<le> 57) \<or> c = CHR ''_'' \<or> c = CHR ''-'')"

definition validatePathSegment :: "string \<Rightarrow> path_error option" where
  "validatePathSegment segment =
     (if segment = [] then Some ErrInvalidPath
      else if length segment > 64 then Some ErrPathTooLong
      else if \<not> list_all segment_char segment then Some ErrInvalidPath
      else if segment = ''.'' \<or> segment = ''..'' then Some ErrPathTraversal
      else None)"

fun first_error :: "string list \<Rightarrow> path_error option" where
  "first_error [] = None"
| "first_error (s # ss) = (case validatePathSegment s of Some e \<Rightarrow> Some e | None \<Rightarrow> first_error ss)"

definition validatePath :: "string \<Rightarrow> path_error option" where
  "validatePath p =
     (if length p > 2048 then Some ErrPathTooLong
      else if contains ''..'' p then Some ErrPathTraversal
      else let normalized = trim_char slash p
           in if normalized = [] then None else first_error (split_char slash normalized))"

definition SafePath :: "string \<Rightarrow> path_error + string" where
  "SafePath input = (case validatePath input of Some e \<Rightarrow> Inl e | None \<Rightarrow> Inr (normalizePath input))"

definition SafeFilePath :: "string option \<Rightarrow> string \<Rightarrow> string \<Rightarrow> path_error + string" where
  "SafeFilePath cwd baseDir userPath =
     (case SafePath userPath of
        Inl e \<Rightarrow> Inl e
      | Inr safe \<Rightarrow>
          (case filepath_abs cwd (filepath_join baseDir safe) of
             None \<Rightarrow> Inl ErrWorkingDir
           | Some absPath \<Rightarrow>
               (case filepath_abs cwd baseDir of
                  None \<Rightarrow> Inl ErrWorkingDir
                | Some absBase \<Rightarrow>
                    if \<not> prefix (absBase @ ''/'') absPath \<and> absPath \<noteq> absBase then Inl ErrPathTraversal
                    else Inr absPath)))"

section \<open>Middleware\<close>

datatype verdict = Rejected | Passed string

definition PathSecurityMiddleware :: "string \<Rightarrow> string \<Rightarrow> verdict" where
  "PathSecurityMiddleware original rawURL =
     (let rawPath = (if rawURL = [] then original else rawURL)
      in if contains ''..'' original \<or> contains ''..'' rawPath \<or> contains ''%2e'' (toLower rawPath) then Rejected
         else let cleaned = path_clean original;
                  rooted = (if prefix ''/'' cleaned then cleaned else ''/'' @ cleaned)
              in Passed (if original \<noteq> ''/'' \<and> suffix ''/'' original \<and> \<not> suffix ''/'' rooted then rooted @ ''/'' else rooted))"

text \<open>One \<^verbatim>\<open>strings.ReplaceAll(p, "//", "/")\<close>.\<close>

fun halve_slashes :: "string \<Rightarrow> string" where
  "halve_slashes (a # b # s) =
     (if a = slash \<and> b = slash then slash # halve_slashes s else a # halve_slashes (b # s))"
| "halve_slashes s = s"

lemma halve_slashes_length: "length (halve_slashes s) \<le> length s"
  by (induction s rule: halve_slashes.induct) auto

lemma halve_slashes_less: "contains ''//'' s \<Longrightarrow> length (halve_slashes s) < length s"
proof (induction s rule: halve_slashes.induct)
  case (1 a b s)
  show ?case
  proof (cases "a = slash \<and> b = slash")
    case True
    with halve_slashes_length [of s] show ?thesis by simp
  qed (use 1 in auto)
qed auto

function collapse_slashes :: "string \<Rightarrow> string" where
  "collapse_slashes p = (if contains ''//'' p then collapse_slashes (halve_slashes p) else p)"
  by pat_completeness auto
termination by (relation "measure length") (auto dest: halve_slashes_less)

declare collapse_slashes.simps [simp del]

definition literalTxtPaths :: "string list" where
  "literalTxtPaths = [''/robots.txt'', ''/security.txt'', ''/.well-known/security.txt'']"

text \<open>The rewritten path and whether the request asks for plain text.\<close>

definition URLNormalizeMiddleware :: "string \<Rightarrow> string \<times> bool" where
  "URLNormalizeMiddleware path =
     (let p = collapse_slashes path
      in if suffix ''.txt'' p \<and> p \<notin> set literalTxtPaths
         then (let trimmed = take (length p - 4) p in (if trimmed = [] then ''/'' else trimmed, True))
         else (p, False))"

section \<open>Cleaning\<close>

definition proper :: "string \<Rightarrow> bool" where
  "proper e \<longleftrightarrow> e \<noteq> [] \<and> e \<noteq> ''.'' \<and> e \<noteq> ''..'' \<and> slash \<notin> set e"

lemma clean_elems_proper: "\<forall>e\<in>set es. proper e \<Longrightarrow> clean_elems r st es = st @ es"
  by (induction es arbitrary: st) (auto simp: clean_elems_def clean_elem_def proper_def)

lemma clean_elems_append: "clean_elems r st (es @ fs) = clean_elems r (clean_elems r st es) fs"
  by (simp add: clean_elems_def)

lemma clean_elems_blank [simp]: "clean_elems r st ([] # es) = clean_elems r st es"
  by (simp add: clean_elems_def clean_elem_def)

lemma clean_elems_nil [simp]: "clean_elems r st [] = st"
  by (simp add: clean_elems_def)

lemma rooted_stack:
  assumes "\<forall>e\<in>set es. slash \<notin> set e" "\<forall>e\<in>set st. proper e"
  shows "\<forall>e\<in>set (clean_elems True st es). proper e"
  using assms
proof (induction es arbitrary: st)
  case (Cons e es)
  have "\<forall>x\<in>set (clean_elem True st e). proper x"
    using Cons.prems by (auto simp: clean_elem_def proper_def dest: in_set_butlastD)
  with Cons show ?case by (simp add: clean_elems_def)
qed simp

lemma split_no_slash: "\<forall>e\<in>set (split_char slash s). slash \<notin> set e"
  using split_char_parts by blast

lemma clean_fold_dropWhile:
  "clean_elems r st (split_char slash (dropWhile (\<lambda>x. x = slash) s)) = clean_elems r st (split_char slash s)"
  by (induction s) auto

lemma clean_fold_trim:
  "clean_elems r st (split_char slash (trim_char slash s)) = clean_elems r st (split_char slash s)"
proof -
  have tail: "clean_elems r st (split_char slash (rev (dropWhile (\<lambda>x. x = slash) (rev t)))) = clean_elems r st (split_char slash t)" for t
  proof (induction t rule: rev_induct)
    case (snoc c t)
    have "split_char slash (t @ [slash]) = split_char slash t @ [[]]" using split_char_sep [of slash t "[]"] by simp
    with snoc show ?case by (cases "c = slash") (simp_all add: clean_elems_append)
  qed simp
  show ?thesis unfolding trim_char_def by (simp add: tail clean_fold_dropWhile)
qed

text \<open>Rooted paths clean to a slash and the joined stack, which is its own cleaning.\<close>

lemma path_clean_rooted:
  "path_clean (slash # p) = slash # join_char slash (clean_elems True [] (split_char slash p))"
  by (simp add: path_clean_def)

lemma clean_joined: "\<forall>e\<in>set es. proper e \<Longrightarrow> clean_elems True st (split_char slash (join_char slash es)) = st @ es"
proof (cases "es = []")
  case False
  assume "\<forall>e\<in>set es. proper e"
  moreover from this have "split_char slash (join_char slash es) = es"
    using False by (intro split_join_char) (auto simp: proper_def)
  ultimately show ?thesis by (simp add: clean_elems_proper)
qed simp

lemma join_char_append:
  "as \<noteq> [] \<Longrightarrow> bs \<noteq> [] \<Longrightarrow> join_char c (as @ bs) = join_char c as @ c # join_char c bs"
proof (induction as)
  case (Cons a as)
  then show ?case by (cases as) (auto simp: join_char_cons)
qed simp

lemma join_proper: "es \<noteq> [] \<Longrightarrow> \<forall>e\<in>set es. proper e \<Longrightarrow> join_char slash es \<noteq> [] \<and> hd (join_char slash es) \<noteq> slash \<and> last (join_char slash es) \<noteq> slash"
proof (induction es)
  case (Cons e es)
  then have "e \<noteq> []" "slash \<notin> set e" by (auto simp: proper_def)
  then have e: "e \<noteq> []" "hd e \<noteq> slash" "last e \<noteq> slash" using hd_in_set [of e] last_in_set [of e] by metis+
  show ?case
  proof (cases "es = []")
    case False
    with Cons show ?thesis using e by (simp add: join_char_cons)
  qed (use e in simp)
qed simp

section \<open>Confinement\<close>

definition user_segments :: "string \<Rightarrow> string list" where
  "user_segments p = (let t = trim_char slash p in if t = [] then [] else split_char slash t)"

lemma first_error_None: "first_error ss = None \<longleftrightarrow> (\<forall>s\<in>set ss. validatePathSegment s = None)"
  by (induction ss) (auto split: option.splits)

lemma segment_facts:
  assumes "validatePathSegment s = None"
  shows "proper s \<and> CHR ''.'' \<notin> set s \<and> length s \<le> 64 \<and> list_all segment_char s"
proof -
  have s: "s \<noteq> []" "length s \<le> 64" "list_all segment_char s"
    using assms by (auto simp: validatePathSegment_def split: if_splits)
  have "\<not> segment_char slash" "\<not> segment_char CHR ''.''" by (simp_all add: segment_char_def)
  with s(3) have "slash \<notin> set s" "CHR ''.'' \<notin> set s" by (auto simp: list_all_iff)
  with s show ?thesis by (auto simp: proper_def)
qed

lemma valid_segments:
  "validatePath p = None \<Longrightarrow> \<forall>s\<in>set (user_segments p). validatePathSegment s = None"
  by (auto simp: validatePath_def user_segments_def Let_def first_error_None split: if_splits)

lemma normalizePath_valid:
  assumes "validatePath p = None"
  shows "normalizePath p = join_char slash (user_segments p)"
proof (cases "p = []")
  case False
  let ?segs = "user_segments p" and ?r = "hd p = slash"
  have sf: "\<forall>s\<in>set ?segs. proper s \<and> CHR ''.'' \<notin> set s" using valid_segments [OF assms] segment_facts by blast
  have "clean_elems ?r [] (split_char slash p) = clean_elems ?r [] (split_char slash (trim_char slash p))"
    by (rule clean_fold_trim [symmetric])
  also have "\<dots> = ?segs"
    using sf clean_elems_proper [of ?segs ?r "[]"] by (cases "trim_char slash p = []") (simp_all add: user_segments_def)
  finally have st: "clean_elems ?r [] (split_char slash p) = ?segs" .
  have dot: "\<not> contains ''..'' (join_char slash ?segs)"
  proof
    assume "contains ''..'' (join_char slash ?segs)"
    then have "CHR ''.'' \<in> set (join_char slash ?segs)" using contains_chars by fastforce
    moreover have "set (join_char slash es) \<subseteq> insert slash (\<Union> (set ` set es))" for es
      by (induction slash es rule: join_char.induct) auto
    ultimately show False using sf by fastforce
  qed
  show ?thesis
  proof (cases "?segs = []")
    case True
    then have "trim_char slash p = []" by (auto simp: user_segments_def Let_def split: if_splits)
    from trim_char_eq_nil [OF this] have ?r using False by simp
    with True st False show ?thesis by (simp add: normalizePath_def path_clean_def)
  next
    case n: False
    with join_proper [OF n] sf have "trim_char slash (join_char slash ?segs) = join_char slash ?segs"
      by (intro trim_char_id) auto
    moreover have "join_char slash ?segs \<noteq> []" using join_proper [OF n] sf by blast
    moreover have "path_clean p = (if ?r then slash # join_char slash ?segs else join_char slash ?segs)"
      unfolding path_clean_def Let_def st using False calculation(2) by simp
    ultimately show ?thesis using False dot by (simp add: normalizePath_def)
  qed
qed (simp add: normalizePath_def user_segments_def)

lemma SafeFilePath_absolute:
  assumes "validatePath userPath = None" "S = clean_elems True [] (split_char slash b)" "segs = user_segments userPath"
  shows "filepath_abs cwd (filepath_join (slash # b) (normalizePath userPath)) = Some (slash # join_char slash (S @ segs)) \<and>
    filepath_abs cwd (slash # b) = Some (slash # join_char slash S) \<and> path_clean (slash # b) = slash # join_char slash S \<and>
    (\<forall>e\<in>set (S @ segs). proper e)"
proof -
  have sp: "\<forall>e\<in>set S. proper e" unfolding assms(2) by (rule rooted_stack [OF split_no_slash]) simp
  have up: "\<forall>e\<in>set segs. proper e" using valid_segments [OF assms(1)] segment_facts assms(3) by blast
  have "filepath_join (slash # b) (normalizePath userPath) = path_clean (slash # (b @ slash # join_char slash segs))"
    by (simp add: filepath_join_def normalizePath_valid [OF assms(1)] assms(3))
  also have "\<dots> = slash # join_char slash (S @ segs)"
    using up by (simp only: path_clean_rooted split_char_sep clean_elems_append clean_joined flip: assms(2))
  finally have j: "filepath_join (slash # b) (normalizePath userPath) = slash # join_char slash (S @ segs)" .
  have "path_clean (slash # join_char slash (S @ segs)) = slash # join_char slash (S @ segs)"
    using sp up by (simp add: path_clean_rooted clean_joined [of "S @ segs" "[]", simplified] ball_Un)
  with j sp up show ?thesis by (simp add: filepath_abs_def path_clean_rooted assms(2) ball_Un)
qed

text \<open>
  C33. A path a user supplies cannot leave the base directory: for an absolute base the result of
  \<open>SafeFilePath\<close> is an error of the validation, or the base itself, or the cleaned base followed by the
  user's segments, each a non-empty word of at most 64 lower-case letters, digits, hyphens and
  underscores. (With the root directory as the base every non-empty path is refused.)
\<close>

theorem SafeFilePath_confined:
  "(case validatePath userPath of
      Some e \<Rightarrow> SafeFilePath cwd (slash # b) userPath = Inl e
    | None \<Rightarrow>
        SafeFilePath cwd (slash # b) userPath =
          (if user_segments userPath = [] then Inr (path_clean (slash # b))
           else if path_clean (slash # b) = ''/'' then Inl ErrPathTraversal
           else Inr (path_clean (slash # b) @ slash # join_char slash (user_segments userPath))) \<and>
        (\<forall>s\<in>set (user_segments userPath). s \<noteq> [] \<and> length s \<le> 64 \<and> list_all segment_char s \<and> slash \<notin> set s \<and> CHR ''.'' \<notin> set s))"
proof (cases "validatePath userPath")
  case None
  define S where "S = clean_elems True [] (split_char slash b)"
  let ?segs = "user_segments userPath"
  note a = SafeFilePath_absolute [OF None S_def refl, of cwd]
  have pr: "\<forall>e\<in>set S. proper e" "\<forall>e\<in>set ?segs. proper e" using a by auto
  have facts: "\<forall>s\<in>set ?segs. s \<noteq> [] \<and> length s \<le> 64 \<and> list_all segment_char s \<and> slash \<notin> set s \<and> CHR ''.'' \<notin> set s"
    using valid_segments [OF None] segment_facts by (auto simp: proper_def)
  have root: "path_clean (slash # b) = ''/'' \<longleftrightarrow> S = []" using a join_proper [OF _ pr(1)] by (cases "S = []") auto
  have sp: "SafePath userPath = Inr (normalizePath userPath)" by (simp add: SafePath_def None)
  show ?thesis
  proof (cases "?segs = []")
    case True
    with a sp None show ?thesis by (simp add: SafeFilePath_def)
  next
    case n: False
    show ?thesis
    proof (cases "S = []")
      case True
      have "\<not> prefix ''//'' (slash # join_char slash ?segs)" "join_char slash ?segs \<noteq> []"
        using join_proper [OF n pr(2)] by (cases "join_char slash ?segs"; auto)+
      with True a sp None n root facts show ?thesis by (simp add: SafeFilePath_def)
    next
      case False
      with a sp None n root facts show ?thesis by (simp add: SafeFilePath_def join_char_append)
    qed
  qed
qed (simp add: SafeFilePath_def SafePath_def)

theorem SafeFilePath_confined_witness:
  "SafeFilePath None ''/srv/data'' ''/maps/tile_7/'' = Inr ''/srv/data/maps/tile_7''"
proof -
  have "validatePath ''/maps/tile_7/'' = None" "user_segments ''/maps/tile_7/'' = [''maps'', ''tile_7'']"
    "path_clean ''/srv/data'' = ''/srv/data''" by code_simp+
  with SafeFilePath_confined [where userPath = "''/maps/tile_7/''" and cwd = None and b = "''srv/data''"] show ?thesis by simp
qed

section \<open>Request paths\<close>

text \<open>The segments of a request path: what lies between slashes, less the empty and the current-directory ones.\<close>

definition request_segments :: "string \<Rightarrow> string list" where
  "request_segments p = filter (\<lambda>e. e \<noteq> [] \<and> e \<noteq> ''.'') (split_char slash p)"

lemma contains_pair_around:
  assumes "a \<noteq> c" "b \<noteq> c"
  shows "contains [a, b] (e @ c # r) \<longleftrightarrow> contains [a, b] e \<or> contains [a, b] r"
proof (induction e)
  case Nil
  then show ?case using assms by (cases r) auto
next
  case (Cons x e)
  then show ?case using assms by (cases e) auto
qed

lemma contains_split:
  assumes "a \<noteq> c" "b \<noteq> c"
  shows "contains [a, b] s \<longleftrightarrow> (\<exists>e\<in>set (split_char c s). contains [a, b] e)"
proof -
  have joined: "es \<noteq> [] \<Longrightarrow> contains [a, b] (join_char c es) \<longleftrightarrow> (\<exists>e\<in>set es. contains [a, b] e)" for es
  proof (induction es)
    case (Cons e es)
    then show ?case using contains_pair_around [OF assms] by (cases "es = []") (simp_all add: join_char_cons)
  qed simp
  from this [of "split_char c s"] show ?thesis by simp
qed

lemma double_slash_append:
  "slash \<notin> set e \<Longrightarrow> contains ''//'' (e @ slash # r) \<longleftrightarrow> prefix ''/'' r \<or> contains ''//'' r"
proof (induction e)
  case Nil
  then show ?case by (cases r) auto
next
  case (Cons x e)
  then show ?case by (cases e) auto
qed

lemma no_double_slash: "slash \<notin> set e \<Longrightarrow> \<not> contains ''//'' e"
  using contains_chars [of "''//''" e] by auto

lemma joined_no_double_slash:
  assumes "t = [] \<or> t = ''/''"
  shows "es \<noteq> [] \<Longrightarrow> \<forall>e\<in>set es. proper e \<Longrightarrow> \<not> contains ''//'' (join_char slash es @ t)"
proof (induction es)
  case (Cons e es)
  then have e: "slash \<notin> set e" by (simp add: proper_def)
  show ?case
  proof (cases "es = []")
    case True
    with e assms show ?thesis by (auto simp: no_double_slash double_slash_append)
  next
    case False
    with Cons join_proper [OF False] have h: "join_char slash es \<noteq> []" "hd (join_char slash es) \<noteq> slash" by auto
    then have "\<not> prefix ''/'' (join_char slash es @ t)" by (cases "join_char slash es") auto
    with Cons False e show ?thesis by (simp add: join_char_cons double_slash_append)
  qed
qed simp

lemma clean_no_dotdot:
  "''..'' \<notin> set es \<Longrightarrow> clean_elems r st es = st @ filter (\<lambda>e. e \<noteq> [] \<and> e \<noteq> ''.'') es"
  by (induction es arbitrary: st) (auto simp: clean_elems_def clean_elem_def)

lemma request_segments_proper:
  assumes "\<not> contains ''..'' p"
  shows "\<forall>e\<in>set (request_segments p). proper e \<and> \<not> contains ''..'' e"
    and "path_clean (slash # p) = slash # join_char slash (request_segments p)"
proof -
  have nd: "\<not> contains ''..'' e" if "e \<in> set (split_char slash p)" for e
    using assms contains_split [of "CHR ''.''" slash "CHR ''.''" p] that by auto
  then show "\<forall>e\<in>set (request_segments p). proper e \<and> \<not> contains ''..'' e"
    by (fastforce simp: request_segments_def proper_def dest: split_char_parts)
  have "''..'' \<notin> set (split_char slash p)" using nd [of "''..''"] by auto
  then show "path_clean (slash # p) = slash # join_char slash (request_segments p)"
    by (simp add: path_clean_rooted clean_no_dotdot request_segments_def)
qed

lemma joined_no_dotdot:
  assumes "t = [] \<or> t = ''/''"
  shows "\<forall>e\<in>set es. \<not> contains ''..'' e \<Longrightarrow> \<not> contains ''..'' (join_char slash es @ t)"
proof (induction es)
  case Nil
  then show ?case using assms by auto
next
  case (Cons e es)
  note around = contains_pair_around [of "CHR ''.''" slash "CHR ''.''" e, simplified]
  show ?case
  proof (cases "es = []")
    case True
    with Cons.prems assms show ?thesis using around [of "[]"] by fastforce
  next
    case False
    with Cons show ?thesis using around [of "join_char slash es @ t"] by (simp add: join_char_cons)
  qed
qed

lemma suffix_slash: "suffix ''/'' s \<longleftrightarrow> s \<noteq> [] \<and> last s = slash"
  by (cases s rule: rev_cases) (auto simp: suffix_def)

text \<open>
  The path check of every request: for a request path (which starts with a slash) the middleware
  answers 400 exactly when the decoded path or the path as sent contains two dots in a row, or the path
  as sent contains an encoded dot. Otherwise it hands on a path with the same segments in the same
  order, less the empty and the current-directory ones, a final slash kept, in which no two dots and no
  two slashes are adjacent.
\<close>

lemma PathSecurityMiddleware_normalises:
  "case PathSecurityMiddleware (slash # u) raw of
     Rejected \<Rightarrow> contains ''..'' u \<or> contains ''..'' raw \<or> contains ''%2e'' (toLower (if raw = [] then slash # u else raw))
   | Passed p \<Rightarrow>
       p = slash # join_char slash (request_segments u) @ (if request_segments u \<noteq> [] \<and> suffix ''/'' u then ''/'' else []) \<and>
       \<not> contains ''..'' u \<and> \<not> contains ''..'' raw \<and> \<not> contains ''%2e'' (toLower (if raw = [] then slash # u else raw)) \<and>
       \<not> contains ''..'' p \<and> \<not> contains ''//'' p"
proof (cases "contains ''..'' (slash # u) \<or> contains ''..'' raw \<or> contains ''%2e'' (toLower (if raw = [] then slash # u else raw))")
  case True
  then show ?thesis by (cases "raw = []") (auto simp: PathSecurityMiddleware_def Let_def)
next
  case ok: False
  let ?segs = "request_segments u" and ?t = "if request_segments u \<noteq> [] \<and> suffix ''/'' u then ''/'' else []"
  from ok have u: "\<not> contains ''..'' u" by auto
  note seg = request_segments_proper [OF u]
  have pr: "\<forall>e\<in>set ?segs. proper e" and nd: "\<forall>e\<in>set ?segs. \<not> contains ''..'' e" using seg(1) by auto
  have sfx: "suffix ''/'' (slash # join_char slash ?segs) \<longleftrightarrow> ?segs = []"
    using join_proper [OF _ pr] by (cases "?segs = []") (auto simp: suffix_slash)
  have t: "?t = [] \<or> ?t = ''/''" by simp
  have pass: "PathSecurityMiddleware (slash # u) raw = Passed (slash # join_char slash ?segs @ ?t)"
    using ok sfx by (cases "raw = []") (auto simp: PathSecurityMiddleware_def Let_def seg(2) suffix_slash)
  have "\<not> contains ''//'' (slash # join_char slash ?segs @ ?t)"
  proof (cases "?segs = []")
    case False
    with joined_no_double_slash [OF t False pr] join_proper [OF False pr] show ?thesis
      by (cases "join_char slash ?segs") auto
  qed simp
  with ok u joined_no_dotdot [OF t nd] show ?thesis unfolding pass verdict.case by auto
qed

section \<open>Collapsing slashes\<close>

lemma split_char_cons:
  "split_char c (a # t) = (if a = c then [] # split_char c t else (a # hd (split_char c t)) # tl (split_char c t))"
  by (cases "split_char c t") auto

lemma halve_slashes_split:
  "hd (split_char slash (halve_slashes s)) = hd (split_char slash s) \<and>
   filter (\<lambda>e. e \<noteq> []) (tl (split_char slash (halve_slashes s))) = filter (\<lambda>e. e \<noteq> []) (tl (split_char slash s))"
proof (induction s rule: halve_slashes.induct)
  case (1 a b s)
  have whole: "filter (\<lambda>e. e \<noteq> []) (split_char slash t) = filter (\<lambda>e. e \<noteq> []) (split_char slash u)"
    if "hd (split_char slash t) = hd (split_char slash u) \<and>
        filter (\<lambda>e. e \<noteq> []) (tl (split_char slash t)) = filter (\<lambda>e. e \<noteq> []) (tl (split_char slash u))" for t u
    using that by (cases "split_char slash t"; cases "split_char slash u") auto
  show ?case
  proof (cases "a = slash \<and> b = slash")
    case True
    with whole [OF 1(1)] show ?thesis by simp
  next
    case False
    with 1(2) whole [OF 1(2)] show ?thesis
      by (cases "a = slash") (simp_all add: split_char_cons [of slash] del: split_char.simps)
  qed
qed auto

lemma request_segments_halve: "request_segments (halve_slashes s) = request_segments s"
proof -
  have via: "request_segments t = filter (\<lambda>e. e \<noteq> ''.'') (filter (\<lambda>e. e \<noteq> []) (split_char slash t))" for t
    by (simp add: request_segments_def)
  have "split_char slash t = hd (split_char slash t) # tl (split_char slash t)" for t by simp
  then have "filter (\<lambda>e. e \<noteq> []) (split_char slash (halve_slashes s)) = filter (\<lambda>e. e \<noteq> []) (split_char slash s)"
    using halve_slashes_split [of s] by (metis (no_types, lifting) filter.simps(2))
  then show ?thesis by (simp only: via)
qed

lemma collapse_slashes_ok:
  "\<not> contains ''//'' (collapse_slashes p) \<and> request_segments (collapse_slashes p) = request_segments p"
proof (induction p rule: collapse_slashes.induct)
  case (1 p)
  then show ?case
    by (cases "contains ''//'' p") (simp_all add: collapse_slashes.simps [of p] request_segments_halve)
qed

end
