(* ===== verification/Cluster.thy ===== *)
theory Cluster
  imports Dbtime Sql_Table "HOL-Library.Char_ord" "HOL-Library.List_Lexorder"
begin

text \<open>
  Cluster membership, \<^verbatim>\<open>src/cluster/cluster.go\<close>: registration, heartbeats, the health check that marks
  silent nodes and triggers an election, and the election of a primary, over the table
  \<^verbatim>\<open>cluster_nodes\<close> that all nodes share. Every node also keeps its own idea of its state. The outcomes
  of the statements and the clock readings are arguments (\<open>cluster_io\<close>).
\<close>

section \<open>State\<close>

definition NodeStatePrimary :: string where "NodeStatePrimary = ''primary''"
definition NodeStateSecondary :: string where "NodeStateSecondary = ''secondary''"
definition NodeStateUnknown :: string where "NodeStateUnknown = ''unknown''"

lemmas node_state_defs = NodeStatePrimary_def NodeStateSecondary_def NodeStateUnknown_def

record node_row =
  cn_id :: string
  cn_address :: string
  cn_state :: string
  cn_last_heartbeat :: scanned
  cn_is_healthy :: bool
  cn_created_at :: scanned
  cn_updated_at :: scanned

type_synonym node_table = "node_row list"

record ClusterManager =
  cm_nodeID :: string
  cm_nodeAddress :: string
  cm_currentState :: string
  cm_enabled :: bool

datatype cluster_error =
    InitTablesFailed | RegisterFailed | HeartbeatFailed | StaleQueryFailed | StaleScanFailed | MarkFailed
  | CandidateQueryFailed | NoHealthyNodes | DemoteFailed | PromoteFailed
  | NoHealthyPrimary | PrimaryQueryFailed | SecondaryQueryFailed | ConfigQueryFailed | InfoQueryFailed

text \<open>
  Outcomes of the statements of one operation. \<open>ci_mark_oks\<close>: one per chunk, missing ones succeed;
  \<open>ci_pick\<close>: which row a SELECT with LIMIT 1 and no ORDER BY returns.
\<close>

record cluster_io =
  ci_now :: instant
  ci_init_ok :: bool
  ci_register_ok :: bool
  ci_heartbeat_ok :: bool
  ci_stale_query_ok :: bool
  ci_stale_scan_ok :: "node_row \<Rightarrow> bool"
  ci_stale_rows_ok :: bool
  ci_mark_oks :: "bool list"
  ci_primary_query_ok :: bool
  ci_pick :: nat
  ci_elect_query_ok :: bool
  ci_elect_scan_ok :: "node_row \<Rightarrow> bool"
  ci_demote_ok :: bool
  ci_promote_ok :: bool
  ci_unregister_ok :: bool

definition NewClusterManager :: "string \<Rightarrow> string \<Rightarrow> bool \<Rightarrow> ClusterManager" where
  "NewClusterManager nodeID nodeAddress enabled =
     \<lparr>cm_nodeID = nodeID, cm_nodeAddress = nodeAddress, cm_currentState = NodeStateUnknown, cm_enabled = enabled\<rparr>"

definition IsPrimary :: "ClusterManager \<Rightarrow> bool" where
  "IsPrimary cm \<longleftrightarrow> cm_currentState cm = NodeStatePrimary"

section \<open>Heartbeats and health\<close>

definition registerNode :: "cluster_io \<Rightarrow> ClusterManager \<Rightarrow> node_table \<Rightarrow> node_table \<times> cluster_error option" where
  "registerNode io cm tbl =
     (if \<not> ci_register_ok io then (tbl, Some RegisterFailed)
      else let now = VStr (FormatSQLTimestamp (ci_now io))
           in (sql_delete (\<lambda>r. cn_id r = cm_nodeID cm) tbl @
                 [\<lparr>cn_id = cm_nodeID cm, cn_address = cm_nodeAddress cm, cn_state = NodeStateSecondary,
                   cn_last_heartbeat = now, cn_is_healthy = True, cn_created_at = now, cn_updated_at = now\<rparr>], None))"

definition unregisterNode :: "cluster_io \<Rightarrow> ClusterManager \<Rightarrow> node_table \<Rightarrow> node_table" where
  "unregisterNode io cm tbl =
     (if ci_unregister_ok io
      then sql_update (\<lambda>r. cn_id r = cm_nodeID cm) (\<lambda>r. r\<lparr>cn_is_healthy := False, cn_state := NodeStateUnknown\<rparr>) tbl
      else tbl)"

definition sendHeartbeat :: "cluster_io \<Rightarrow> ClusterManager \<Rightarrow> node_table \<Rightarrow> node_table" where
  "sendHeartbeat io cm tbl =
     (if ci_heartbeat_ok io
      then sql_update (\<lambda>r. cn_id r = cm_nodeID cm)
             (\<lambda>r. r\<lparr>cn_last_heartbeat := VStr (FormatSQLTimestamp (ci_now io)), cn_state := cm_currentState cm\<rparr>) tbl
      else tbl)"

definition heartbeatDegradedThreshold :: duration where
  "heartbeatDegradedThreshold = 90 * second_ns"

definition stale_node :: "instant \<Rightarrow> node_row \<Rightarrow> bool" where
  "stale_node cutoff r \<longleftrightarrow>
     (case ParseStoredTimestamp (cn_last_heartbeat r) of None \<Rightarrow> False | Some t \<Rightarrow> t < cutoff)"

definition staleNodeIDs :: "cluster_io \<Rightarrow> instant \<Rightarrow> node_table \<Rightarrow> cluster_error + string list" where
  "staleNodeIDs io cutoff tbl =
     (let rows = filter (\<lambda>r. cn_is_healthy r \<and> cn_last_heartbeat r \<noteq> VNil) tbl
      in if \<not> ci_stale_query_ok io then Inl StaleQueryFailed
         else if \<not> list_all (ci_stale_scan_ok io) rows then Inl StaleScanFailed
         else if \<not> ci_stale_rows_ok io then Inl StaleQueryFailed
         else Inr (map cn_id (filter (stale_node cutoff) rows)))"

definition updateChunkSize :: nat where "updateChunkSize = 500"

function markNodesUnhealthy :: "bool list \<Rightarrow> string list \<Rightarrow> node_table \<Rightarrow> node_table \<times> bool" where
  "markNodesUnhealthy oks nodeIDs tbl =
     (if nodeIDs = [] then (tbl, True)
      else if oks \<noteq> [] \<and> \<not> hd oks then (tbl, False)
      else markNodesUnhealthy (tl oks) (drop updateChunkSize nodeIDs)
             (sql_update (\<lambda>r. cn_id r \<in> set (take updateChunkSize nodeIDs)) (\<lambda>r. r\<lparr>cn_is_healthy := False\<rparr>) tbl))"
  by pat_completeness auto
termination
  by (relation "measure (\<lambda>(oks, ids, tbl). length ids)") (auto simp: updateChunkSize_def)

declare markNodesUnhealthy.simps [simp del]

section \<open>Election\<close>

definition demote_all :: "node_table \<Rightarrow> node_table" where
  "demote_all tbl = sql_update (\<lambda>r. True) (\<lambda>r. r\<lparr>cn_state := NodeStateSecondary\<rparr>) tbl"

definition promote :: "string \<Rightarrow> node_table \<Rightarrow> node_table" where
  "promote n tbl = sql_update (\<lambda>r. cn_id r = n) (\<lambda>r. r\<lparr>cn_state := NodeStatePrimary\<rparr>) tbl"

definition election_candidates :: "(node_row \<Rightarrow> bool) \<Rightarrow> node_table \<Rightarrow> string list" where
  "election_candidates scanOk tbl = sort (map cn_id (filter scanOk (filter cn_is_healthy tbl)))"

definition electPrimary ::
  "cluster_io \<Rightarrow> ClusterManager \<times> node_table \<Rightarrow> (ClusterManager \<times> node_table) \<times> cluster_error option" where
  "electPrimary io w =
     (case w of (cm, tbl) \<Rightarrow>
        if \<not> ci_elect_query_ok io then ((cm, tbl), Some CandidateQueryFailed)
        else case election_candidates (ci_elect_scan_ok io) tbl of
          [] \<Rightarrow> ((cm, tbl), Some NoHealthyNodes)
        | newPrimary # _ \<Rightarrow>
            if \<not> ci_demote_ok io then ((cm, tbl), Some DemoteFailed)
            else let tbl1 = demote_all tbl
                 in if \<not> ci_promote_ok io then ((cm, tbl1), Some PromoteFailed)
                    else ((cm\<lparr>cm_currentState :=
                              (if newPrimary = cm_nodeID cm then NodeStatePrimary else NodeStateSecondary)\<rparr>,
                           promote newPrimary tbl1), None))"

text \<open>What the check for a healthy primary scans: false when the query fails or finds no row.\<close>

definition primary_healthy :: "cluster_io \<Rightarrow> node_table \<Rightarrow> bool" where
  "primary_healthy io tbl =
     (let rows = filter (\<lambda>r. cn_state r = NodeStatePrimary) tbl
      in ci_primary_query_ok io \<and> rows \<noteq> [] \<and> cn_is_healthy (rows ! (ci_pick io mod length rows)))"

definition checkClusterHealth ::
  "cluster_io \<Rightarrow> ClusterManager \<times> node_table \<Rightarrow> (ClusterManager \<times> node_table) \<times> cluster_error option" where
  "checkClusterHealth io w =
     (case w of (cm, tbl) \<Rightarrow>
        case staleNodeIDs io (ci_now io - heartbeatDegradedThreshold) tbl of
          Inl e \<Rightarrow> ((cm, tbl), Some e)
        | Inr staleIDs \<Rightarrow>
            (case markNodesUnhealthy (ci_mark_oks io) staleIDs tbl of
               (tbl1, False) \<Rightarrow> ((cm, tbl1), Some MarkFailed)
             | (tbl1, True) \<Rightarrow>
                 if primary_healthy io tbl1 then ((cm, tbl1), None) else electPrimary io (cm, tbl1)))"

text \<open>One tick of the heartbeat loop; errors are logged.\<close>

definition heartbeat_tick :: "cluster_io \<Rightarrow> ClusterManager \<times> node_table \<Rightarrow> ClusterManager \<times> node_table" where
  "heartbeat_tick io w = (case w of (cm, tbl) \<Rightarrow> fst (checkClusterHealth io (cm, sendHeartbeat io cm tbl)))"

definition StartClusterManager ::
  "cluster_io \<Rightarrow> ClusterManager \<times> node_table \<Rightarrow> (ClusterManager \<times> node_table) \<times> cluster_error option" where
  "StartClusterManager io w =
     (case w of (cm, tbl) \<Rightarrow>
        if \<not> cm_enabled cm then ((cm\<lparr>cm_currentState := NodeStatePrimary\<rparr>, tbl), None)
        else if \<not> ci_init_ok io then ((cm, tbl), Some InitTablesFailed)
        else case registerNode io cm tbl of
          (tbl1, Some e) \<Rightarrow> ((cm, tbl1), Some e)
        | (tbl1, None) \<Rightarrow> (fst (electPrimary io (cm, tbl1)), None))"

definition StopClusterManager :: "cluster_io \<Rightarrow> ClusterManager \<times> node_table \<Rightarrow> ClusterManager \<times> node_table" where
  "StopClusterManager io w =
     (case w of (cm, tbl) \<Rightarrow> (cm, if cm_enabled cm then unregisterNode io cm tbl else tbl))"

section \<open>Views and configuration\<close>

record Node =
  nd_ID :: string
  nd_Address :: string
  nd_LastHeartbeat :: instant
  nd_State :: string
  nd_IsHealthy :: bool

text \<open>Rows in descending order of state, within a state by ascending id; rows that fail to scan are skipped.\<close>

definition GetClusterInfo :: "bool \<Rightarrow> (node_row \<Rightarrow> bool) \<Rightarrow> node_table \<Rightarrow> cluster_error + Node list" where
  "GetClusterInfo queryOk scanOk tbl =
     (if \<not> queryOk then Inl InfoQueryFailed
      else Inr (map (\<lambda>r. \<lparr>nd_ID = cn_id r, nd_Address = cn_address r,
                         nd_LastHeartbeat = (case ParseStoredTimestamp (cn_last_heartbeat r) of Some t \<Rightarrow> t | None \<Rightarrow> zero_time),
                         nd_State = cn_state r, nd_IsHealthy = cn_is_healthy r\<rparr>)
                 (filter scanOk (rev (sort_key cn_state (rev (sort_key cn_id tbl)))))))"

text \<open>
  The configuration lives in the database all nodes share, so that a synchronisation only reads: the
  result is what it logs, the number of settings and the primary's address or the number of nodes.
\<close>

datatype sync_result = SyncStandalone | SyncPulled nat string | SyncNoSecondaries | SyncPushed nat nat

record sync_io =
  sy_primary_ok :: bool
  sy_pick :: nat
  sy_config_ok :: bool
  sy_secondary_ok :: bool
  sy_secondary_scan_ok :: "node_row \<Rightarrow> bool"

definition pullConfigFromPrimary :: "sync_io \<Rightarrow> bool list \<Rightarrow> node_table \<Rightarrow> cluster_error + sync_result" where
  "pullConfigFromPrimary io configScans tbl =
     (let rows = filter (\<lambda>r. cn_state r = NodeStatePrimary \<and> cn_is_healthy r) tbl
      in if \<not> sy_primary_ok io then Inl PrimaryQueryFailed
         else if rows = [] then Inl NoHealthyPrimary
         else if \<not> sy_config_ok io then Inl ConfigQueryFailed
         else Inr (SyncPulled (length (filter id configScans)) (cn_address (rows ! (sy_pick io mod length rows)))))"

definition pushConfigToSecondaries :: "sync_io \<Rightarrow> bool list \<Rightarrow> node_table \<Rightarrow> cluster_error + sync_result" where
  "pushConfigToSecondaries io configRows tbl =
     (let secondaries = filter (sy_secondary_scan_ok io) (filter (\<lambda>r. cn_state r = NodeStateSecondary \<and> cn_is_healthy r) tbl)
      in if \<not> sy_secondary_ok io then Inl SecondaryQueryFailed
         else if secondaries = [] then Inr SyncNoSecondaries
         else if \<not> sy_config_ok io then Inl ConfigQueryFailed
         else Inr (SyncPushed (length configRows) (length secondaries)))"

definition SyncConfig :: "sync_io \<Rightarrow> bool list \<Rightarrow> ClusterManager \<Rightarrow> node_table \<Rightarrow> cluster_error + sync_result" where
  "SyncConfig io configRows cm tbl =
     (if \<not> cm_enabled cm then Inr SyncStandalone
      else if \<not> IsPrimary cm then pullConfigFromPrimary io configRows tbl
      else pushConfigToSecondaries io configRows tbl)"

section \<open>Marking and electing\<close>

text \<open>Whatever the statements' outcomes, marking clears the flag of some of the listed nodes and changes nothing else.\<close>

lemma mark_some:
  "\<exists>S \<subseteq> set ids. fst (markNodesUnhealthy oks ids tbl) = sql_update (\<lambda>r. cn_id r \<in> S) (\<lambda>r. r\<lparr>cn_is_healthy := False\<rparr>) tbl \<and>
     (False \<notin> set oks \<longrightarrow> S = set ids \<and> snd (markNodesUnhealthy oks ids tbl))"
proof (induction oks ids tbl rule: markNodesUnhealthy.induct)
  case (1 oks ids tbl)
  show ?case
  proof (cases "ids = [] \<or> oks \<noteq> [] \<and> \<not> hd oks")
    case True
    then have "markNodesUnhealthy oks ids tbl = (tbl, ids = [])" by (subst markNodesUnhealthy.simps) auto
    moreover have "sql_update (\<lambda>r. cn_id r \<in> {}) f tbl = tbl" for f by (simp add: sql_update_def)
    ultimately show ?thesis using True by (intro exI [of _ "{}"]) (cases oks; auto)
  next
    case False
    let ?t = "set (take updateChunkSize ids)" and ?d = "set (drop updateChunkSize ids)"
    let ?tbl = "sql_update (\<lambda>r. cn_id r \<in> ?t) (\<lambda>r. r\<lparr>cn_is_healthy := False\<rparr>) tbl"
    from False have c: "ids \<noteq> []" "\<not> (oks \<noteq> [] \<and> \<not> hd oks)" by auto
    from 1 [OF c] obtain S where S: "S \<subseteq> ?d"
      "fst (markNodesUnhealthy (tl oks) (drop updateChunkSize ids) ?tbl) = sql_update (\<lambda>r. cn_id r \<in> S) (\<lambda>r. r\<lparr>cn_is_healthy := False\<rparr>) ?tbl"
      "False \<notin> set (tl oks) \<longrightarrow> S = ?d \<and> snd (markNodesUnhealthy (tl oks) (drop updateChunkSize ids) ?tbl)"
      by blast
    have "?t \<union> ?d = set ids" by (metis append_take_drop_id set_append)
    moreover have "sql_update (\<lambda>r. cn_id r \<in> S) (\<lambda>r. r\<lparr>cn_is_healthy := False\<rparr>) ?tbl =
        sql_update (\<lambda>r. cn_id r \<in> ?t \<union> S) (\<lambda>r. r\<lparr>cn_is_healthy := False\<rparr>) tbl"
      by (auto simp: sql_update_def)
    moreover have "False \<notin> set oks \<Longrightarrow> False \<notin> set (tl oks)" by (cases oks) auto
    moreover have "markNodesUnhealthy oks ids tbl = markNodesUnhealthy (tl oks) (drop updateChunkSize ids) ?tbl"
      using c by (subst markNodesUnhealthy.simps) auto
    ultimately show ?thesis using S by (intro exI [of _ "?t \<union> S"]) auto
  qed
qed

text \<open>All statements succeed.\<close>

definition io_all_ok :: "cluster_io \<Rightarrow> bool" where
  "io_all_ok io \<longleftrightarrow> ci_stale_query_ok io \<and> ci_stale_rows_ok io \<and> ci_primary_query_ok io \<and> ci_elect_query_ok io \<and>
     ci_demote_ok io \<and> ci_promote_ok io \<and> ci_stale_scan_ok io = (\<lambda>r. True) \<and> ci_elect_scan_ok io = (\<lambda>r. True) \<and>
     False \<notin> set (ci_mark_oks io)"

definition silent :: "instant \<Rightarrow> node_row \<Rightarrow> bool" where
  "silent now r \<longleftrightarrow> stale_node (now - heartbeatDegradedThreshold) r"

definition mark_silent :: "instant \<Rightarrow> node_table \<Rightarrow> node_table" where
  "mark_silent now tbl = sql_update (silent now) (\<lambda>r. r\<lparr>cn_is_healthy := False\<rparr>) tbl"

lemma check_marks:
  assumes "distinct (map cn_id tbl)" "io_all_ok io"
  shows "checkClusterHealth io (cm, tbl) =
    (let T = mark_silent (ci_now io) tbl in if primary_healthy io T then ((cm, T), None) else electPrimary io (cm, T))"
proof -
  let ?ids = "map cn_id (filter (silent (ci_now io)) (filter (\<lambda>r. cn_is_healthy r \<and> cn_last_heartbeat r \<noteq> VNil) tbl))"
  have st: "staleNodeIDs io (ci_now io - heartbeatDegradedThreshold) tbl = Inr ?ids"
    using assms(2) by (simp add: staleNodeIDs_def io_all_ok_def silent_def [abs_def] list_all_iff)
  have nil: "silent n r \<Longrightarrow> cn_last_heartbeat r \<noteq> VNil" for n r
    by (auto simp: silent_def stale_node_def ParseStoredTimestamp_def)
  have "cn_id r \<in> set ?ids \<longleftrightarrow> cn_is_healthy r \<and> silent (ci_now io) r" if "r \<in> set tbl" for r
    using that assms(1) nil by (auto simp: distinct_map inj_on_def)
  then have "sql_update (\<lambda>r. cn_id r \<in> set ?ids) (\<lambda>r. r\<lparr>cn_is_healthy := False\<rparr>) tbl = mark_silent (ci_now io) tbl"
    by (auto simp: sql_update_def mark_silent_def)
  moreover obtain T ok where m: "markNodesUnhealthy (ci_mark_oks io) ?ids tbl = (T, ok)"
    by (cases "markNodesUnhealthy (ci_mark_oks io) ?ids tbl")
  ultimately have "T = mark_silent (ci_now io) tbl \<and> ok"
    using mark_some [of ?ids "ci_mark_oks io" tbl] assms(2) by (auto simp: io_all_ok_def)
  with st m show ?thesis by (simp add: checkClusterHealth_def Let_def)
qed

lemma sort_head: "sort xs = (x :: 'a :: linorder) # ys \<Longrightarrow> x = Min (set xs)"
proof -
  assume s: "sort xs = x # ys"
  then have "sorted (x # ys)" "set (x # ys) = set xs" by (metis sorted_sort, metis set_sort)
  then have "x \<in> set xs" "\<forall>y\<in>set xs. x \<le> y" by auto
  then show ?thesis by (intro Min_eqI [symmetric]) auto
qed

lemma ids_where_map:
  assumes "\<And>r. cn_id (f r) = cn_id r"
  shows "cn_id ` {r \<in> set (map f tbl). P r} = cn_id ` {r \<in> set tbl. P (f r)}"
proof -
  have "{r \<in> set (map f tbl). P r} = f ` {r \<in> set tbl. P (f r)}" by auto
  with assms show ?thesis by (simp add: image_image)
qed

definition healthy_ids :: "node_table \<Rightarrow> string set" where
  "healthy_ids tbl = cn_id ` {r \<in> set tbl. cn_is_healthy r}"

definition primary_ids :: "node_table \<Rightarrow> string set" where
  "primary_ids tbl = cn_id ` {r \<in> set tbl. cn_state r = NodeStatePrimary}"

lemma elected_table:
  assumes "n \<in> cn_id ` set tbl"
  shows "primary_ids (promote n (demote_all tbl)) = {n}"
    and "healthy_ids (promote n (demote_all tbl)) = healthy_ids tbl"
    and "map cn_id (promote n (demote_all tbl)) = map cn_id tbl"
proof -
  let ?f = "\<lambda>r. r\<lparr>cn_state := (if cn_id r = n then NodeStatePrimary else NodeStateSecondary)\<rparr>"
  have rows: "promote n (demote_all tbl) = map ?f tbl"
    by (simp add: promote_def demote_all_def sql_update_def)
  have "primary_ids (promote n (demote_all tbl)) = cn_id ` {r \<in> set tbl. cn_state (?f r) = NodeStatePrimary}"
    unfolding rows primary_ids_def by (rule ids_where_map) simp
  then show "primary_ids (promote n (demote_all tbl)) = {n}"
    using assms by (auto simp: node_state_defs)
  show "healthy_ids (promote n (demote_all tbl)) = healthy_ids tbl"
    unfolding rows healthy_ids_def by (subst ids_where_map) simp_all
  show "map cn_id (promote n (demote_all tbl)) = map cn_id tbl"
    unfolding rows by simp
qed

lemma elect_ok:
  assumes "io_all_ok io"
  shows "electPrimary io (cm, tbl) =
    (if healthy_ids tbl = {} then ((cm, tbl), Some NoHealthyNodes)
     else let n = Min (healthy_ids tbl)
          in ((cm\<lparr>cm_currentState := (if n = cm_nodeID cm then NodeStatePrimary else NodeStateSecondary)\<rparr>,
               promote n (demote_all tbl)), None))"
proof (cases "election_candidates (ci_elect_scan_ok io) tbl")
  case Nil
  then have "healthy_ids tbl = {}"
    using assms by (auto simp: election_candidates_def healthy_ids_def io_all_ok_def filter_empty_conv dest: arg_cong [where f = length])
  with Nil assms show ?thesis by (simp add: electPrimary_def io_all_ok_def)
next
  case (Cons n ns)
  then have "n = Min (set (map cn_id (filter (ci_elect_scan_ok io) (filter cn_is_healthy tbl))))"
    unfolding election_candidates_def by (rule sort_head)
  then have "n = Min (healthy_ids tbl)" using assms by (simp add: healthy_ids_def io_all_ok_def)
  moreover have "healthy_ids tbl \<noteq> {}"
    using arg_cong [OF Cons, of set] unfolding election_candidates_def set_sort by (auto simp: healthy_ids_def)
  ultimately show ?thesis using Cons assms by (simp add: electPrimary_def io_all_ok_def Let_def)
qed

lemma mark_silent_rows:
  "map cn_id (mark_silent now tbl) = map cn_id tbl"
  "healthy_ids (mark_silent now tbl) = cn_id ` {r \<in> set tbl. cn_is_healthy r \<and> \<not> silent now r}"
  "primary_ids (mark_silent now tbl) = primary_ids tbl"
proof -
  let ?f = "\<lambda>r. if silent now r then r\<lparr>cn_is_healthy := False\<rparr> else r"
  have rows: "mark_silent now tbl = map ?f tbl" by (simp add: mark_silent_def sql_update_def)
  have k: "cn_id (?f r) = cn_id r" for r by simp
  show "map cn_id (mark_silent now tbl) = map cn_id tbl" by (simp add: rows)
  show "healthy_ids (mark_silent now tbl) = cn_id ` {r \<in> set tbl. cn_is_healthy r \<and> \<not> silent now r}"
    unfolding rows healthy_ids_def ids_where_map [OF k] by (rule arg_cong [where f = "image cn_id"]) auto
  show "primary_ids (mark_silent now tbl) = primary_ids tbl"
    unfolding rows primary_ids_def ids_where_map [OF k] by (rule arg_cong [where f = "image cn_id"]) auto
qed

lemma primary_healthy_ids: "primary_healthy io tbl \<Longrightarrow> primary_ids tbl \<inter> healthy_ids tbl \<noteq> {}"
proof -
  assume p: "primary_healthy io tbl"
  let ?rows = "filter (\<lambda>r. cn_state r = NodeStatePrimary) tbl"
  let ?r = "?rows ! (ci_pick io mod length ?rows)"
  from p have "?rows \<noteq> []" "cn_is_healthy ?r" by (simp_all add: primary_healthy_def Let_def)
  then have "?r \<in> set ?rows" by (intro nth_mem) simp
  with \<open>cn_is_healthy ?r\<close> have "cn_id ?r \<in> primary_ids tbl \<inter> healthy_ids tbl"
    unfolding primary_ids_def healthy_ids_def by auto
  then show ?thesis by blast
qed

text \<open>
  C38. The health check does its work: when its statements succeed, the nodes that count as healthy
  afterwards are exactly those that counted as healthy and have not been silent for more than 90
  seconds (an unreadable heartbeat does not count against a node); as long as there is one, the check
  succeeds and leaves a primary that is healthy, and when no primary was, the one primary is the
  healthy node with the least id, and the checking node knows whether it is the one.
\<close>

theorem checkClusterHealth_correct:
  assumes "distinct (map cn_id tbl)" "io_all_ok io" "checkClusterHealth io (cm, tbl) = ((cm', tbl'), err)"
    "live = cn_id ` {r \<in> set tbl. cn_is_healthy r \<and> \<not> silent (ci_now io) r}"
  shows "map cn_id tbl' = map cn_id tbl \<and> healthy_ids tbl' = live \<and>
    (if live = {} then err = Some NoHealthyNodes
     else err = None \<and> primary_ids tbl' \<inter> live \<noteq> {} \<and>
       (primary_ids tbl \<inter> live = {} \<longrightarrow> primary_ids tbl' = {Min live} \<and> (IsPrimary cm' \<longleftrightarrow> cm_nodeID cm = Min live)))"
proof -
  let ?T = "mark_silent (ci_now io) tbl"
  note T = mark_silent_rows [of "ci_now io" tbl, folded assms(4)]
  show ?thesis
  proof (cases "primary_healthy io ?T")
    case True
    with assms check_marks [OF assms(1,2)] have "tbl' = ?T" "err = None" by auto
    with primary_healthy_ids [OF True] T show ?thesis by auto
  next
    case False
    with assms(3) check_marks [OF assms(1,2), of cm] have e: "electPrimary io (cm, ?T) = ((cm', tbl'), err)" by simp
    show ?thesis
    proof (cases "live = {}")
      case True
      with e elect_ok [OF assms(2), of cm ?T] T show ?thesis by auto
    next
      case False
      have "finite live" using assms(4) by simp
      with False have m: "Min live \<in> live" by (simp add: Min_in)
      then have "Min live \<in> cn_id ` set ?T" using assms(4) arg_cong [OF T(1), of set] by auto
      note el = elected_table [OF this]
      from e elect_ok [OF assms(2), of cm ?T] T(2) False
      have "tbl' = promote (Min live) (demote_all ?T)" "err = None"
        "cm_currentState cm' = (if Min live = cm_nodeID cm then NodeStatePrimary else NodeStateSecondary)"
        by (auto simp: Let_def)
      with el T m False show ?thesis by (auto simp: IsPrimary_def node_state_defs)
    qed
  qed
qed

definition cio_ok :: "instant \<Rightarrow> cluster_io" where
  "cio_ok now = \<lparr>ci_now = now, ci_init_ok = True, ci_register_ok = True, ci_heartbeat_ok = True,
     ci_stale_query_ok = True, ci_stale_scan_ok = (\<lambda>r. True), ci_stale_rows_ok = True, ci_mark_oks = [],
     ci_primary_query_ok = True, ci_pick = 0, ci_elect_query_ok = True, ci_elect_scan_ok = (\<lambda>r. True),
     ci_demote_ok = True, ci_promote_ok = True, ci_unregister_ok = True\<rparr>"

definition member :: "string \<Rightarrow> string \<Rightarrow> instant \<Rightarrow> node_row" where
  "member n state beat = \<lparr>cn_id = n, cn_address = n, cn_state = state,
     cn_last_heartbeat = VStr (FormatSQLTimestamp beat), cn_is_healthy = True, cn_created_at = VNil, cn_updated_at = VNil\<rparr>"

text \<open>The primary has been silent for two minutes when the other node checks: the other node takes over.\<close>

definition two_nodes :: node_table where
  "two_nodes = [member ''a'' NodeStatePrimary 0, member ''b'' NodeStateSecondary (110 * second_ns)]"

lemma two_nodes_live: "cn_id ` {r \<in> set two_nodes. cn_is_healthy r \<and> \<not> silent (120 * second_ns) r} = {''b''}"
proof -
  have "silent (120 * second_ns) (member ''a'' NodeStatePrimary 0)" by code_simp
  moreover have "\<not> silent (120 * second_ns) (member ''b'' NodeStateSecondary (110 * second_ns))" by code_simp
  ultimately have "{r \<in> set two_nodes. cn_is_healthy r \<and> \<not> silent (120 * second_ns) r} = {member ''b'' NodeStateSecondary (110 * second_ns)}"
    by (auto simp: two_nodes_def) (simp add: member_def)
  then show ?thesis by (simp add: member_def)
qed

theorem checkClusterHealth_correct_witness:
  "primary_ids (snd (fst (checkClusterHealth (cio_ok (120 * second_ns)) (NewClusterManager ''b'' ''b'' True, two_nodes)))) = {''b''}"
proof -
  let ?w = "(NewClusterManager ''b'' ''b'' True, two_nodes)"
  obtain cm' tbl' err where c: "checkClusterHealth (cio_ok (120 * second_ns)) ?w = ((cm', tbl'), err)" by (metis prod.collapse)
  have "primary_ids two_nodes \<inter> {''b''} = {}"
    by (auto simp: primary_ids_def two_nodes_def member_def node_state_defs)
  moreover have "distinct (map cn_id two_nodes)" by (simp add: two_nodes_def member_def)
  moreover have "io_all_ok (cio_ok (120 * second_ns))" by (simp add: io_all_ok_def cio_ok_def)
  ultimately show ?thesis
    using checkClusterHealth_correct [OF _ _ c refl] two_nodes_live c by (simp add: cio_ok_def)
qed

section \<open>Several nodes\<close>

text \<open>
  The nodes run their ticks in any order and with any outcome of the statements; they stop and start
  again, except that the nodes of \<open>N\<close> are not started.
\<close>

type_synonym cluster_world = "(nat \<Rightarrow> ClusterManager) \<times> node_table"

inductive cluster_step :: "string set \<Rightarrow> cluster_world \<Rightarrow> cluster_world \<Rightarrow> bool" for N where
  tick: "heartbeat_tick io (cms i, tbl) = (cm', tbl') \<Longrightarrow> cluster_step N (cms, tbl) (cms(i := cm'), tbl')"
| stop: "StopClusterManager io (cms i, tbl) = (cm', tbl') \<Longrightarrow> cluster_step N (cms, tbl) (cms(i := cm'), tbl')"
| start: "cm_nodeID (cms i) \<notin> N \<Longrightarrow> StartClusterManager io (cms i, tbl) = ((cm', tbl'), err) \<Longrightarrow>
    cluster_step N (cms, tbl) (cms(i := cm'), tbl')"

lemma healthy_update:
  assumes "\<And>r. cn_id (f r) = cn_id r" "\<And>r. cn_is_healthy (f r) \<Longrightarrow> cn_is_healthy r"
  shows "healthy_ids (sql_update P f tbl) \<subseteq> healthy_ids tbl"
proof -
  have "cn_id (if P r then f r else r) = cn_id r" for r using assms(1) by simp
  then show ?thesis unfolding healthy_ids_def sql_update_def using assms(2) by (subst ids_where_map) (auto split: if_splits)
qed

lemma healthy_mark: "healthy_ids (fst (markNodesUnhealthy oks ids tbl)) \<subseteq> healthy_ids tbl"
proof -
  obtain S where "fst (markNodesUnhealthy oks ids tbl) = sql_update (\<lambda>r. cn_id r \<in> S) (\<lambda>r. r\<lparr>cn_is_healthy := False\<rparr>) tbl"
    using mark_some [of ids oks tbl] by blast
  moreover have "healthy_ids (sql_update (\<lambda>r. cn_id r \<in> S) (\<lambda>r. r\<lparr>cn_is_healthy := False\<rparr>) tbl) \<subseteq> healthy_ids tbl"
    by (rule healthy_update) simp_all
  ultimately show ?thesis by simp
qed

lemma healthy_beat: "healthy_ids (sendHeartbeat io cm tbl) \<subseteq> healthy_ids tbl"
  unfolding sendHeartbeat_def by (cases "ci_heartbeat_ok io") (simp_all, rule healthy_update, simp_all)

lemma healthy_unregister: "healthy_ids (unregisterNode io cm tbl) \<subseteq> healthy_ids tbl"
  unfolding unregisterNode_def by (cases "ci_unregister_ok io") (simp_all, rule healthy_update, simp_all)

lemma healthy_elect: "electPrimary io (cm, tbl) = ((cm', tbl'), err) \<Longrightarrow> healthy_ids tbl' \<subseteq> healthy_ids tbl"
proof -
  have d: "healthy_ids (demote_all tbl) \<subseteq> healthy_ids tbl" unfolding demote_all_def by (rule healthy_update) simp_all
  have p: "healthy_ids (promote n (demote_all tbl)) \<subseteq> healthy_ids (demote_all tbl)" for n
    unfolding promote_def by (rule healthy_update) simp_all
  assume "electPrimary io (cm, tbl) = ((cm', tbl'), err)"
  then show ?thesis using d subset_trans [OF p d]
    by (auto simp: electPrimary_def Let_def split: if_splits list.splits)
qed

lemma healthy_check: "checkClusterHealth io (cm, tbl) = ((cm', tbl'), err) \<Longrightarrow> healthy_ids tbl' \<subseteq> healthy_ids tbl"
proof (cases "staleNodeIDs io (ci_now io - heartbeatDegradedThreshold) tbl")
  case (Inr ids)
  assume c: "checkClusterHealth io (cm, tbl) = ((cm', tbl'), err)"
  obtain T ok where m: "markNodesUnhealthy (ci_mark_oks io) ids tbl = (T, ok)" by (cases "markNodesUnhealthy (ci_mark_oks io) ids tbl")
  have "healthy_ids T \<subseteq> healthy_ids tbl" using healthy_mark [of "ci_mark_oks io" ids tbl] m by simp
  moreover have "tbl' = T \<or> electPrimary io (cm, T) = ((cm', tbl'), err)"
    using c Inr m by (cases ok) (auto simp: checkClusterHealth_def split: if_splits)
  ultimately show ?thesis using healthy_elect [of io cm T cm' tbl' err] by blast
qed (auto simp: checkClusterHealth_def)

lemma healthy_tick: "heartbeat_tick io (cm, tbl) = (cm', tbl') \<Longrightarrow> healthy_ids tbl' \<subseteq> healthy_ids tbl"
proof -
  assume t: "heartbeat_tick io (cm, tbl) = (cm', tbl')"
  obtain err where "checkClusterHealth io (cm, sendHeartbeat io cm tbl) = ((cm', tbl'), err)"
    using t by (cases "checkClusterHealth io (cm, sendHeartbeat io cm tbl)") (auto simp: heartbeat_tick_def)
  from healthy_check [OF this] have "healthy_ids tbl' \<subseteq> healthy_ids (sendHeartbeat io cm tbl)" .
  also have "\<dots> \<subseteq> healthy_ids tbl" by (rule healthy_beat)
  finally show ?thesis .
qed

lemma healthy_start:
  assumes "StartClusterManager io (cm, tbl) = ((cm', tbl'), err)"
  shows "healthy_ids tbl' \<subseteq> insert (cm_nodeID cm) (healthy_ids tbl)"
proof -
  have r: "healthy_ids (fst (registerNode io cm tbl)) \<subseteq> insert (cm_nodeID cm) (healthy_ids tbl)"
    by (auto simp: registerNode_def healthy_ids_def sql_delete_def Let_def)
  obtain T e where reg: "registerNode io cm tbl = (T, e)" by (cases "registerNode io cm tbl")
  have "tbl' = tbl \<or> tbl' = T \<or> (\<exists>err'. electPrimary io (cm, T) = ((cm', tbl'), err'))"
    using assms reg by (cases e; cases "electPrimary io (cm, T)") (auto simp: StartClusterManager_def split: if_splits)
  with r reg healthy_elect [of io cm T cm' tbl'] show ?thesis by fastforce
qed

lemma cluster_step_healthy:
  "cluster_step N w w' \<Longrightarrow> healthy_ids (snd w) \<inter> N = {} \<Longrightarrow> healthy_ids (snd w') \<inter> N = {}"
proof (induction rule: cluster_step.induct)
  case (tick io cms i tbl cm' tbl')
  with healthy_tick [OF tick(1)] show ?case by auto
next
  case (stop io cms i tbl cm' tbl')
  with healthy_unregister [of io "cms i" tbl] show ?case by (auto simp: StopClusterManager_def split: if_splits)
next
  case (start cms i io tbl cm' tbl' err)
  with healthy_start [OF start(2)] show ?case by auto
qed

text \<open>
  A node that was marked unhealthy never counts again until it is restarted: its own heartbeats
  do not set the flag, so that no run of ticks and stops of the cluster, and of starts of other nodes,
  makes it healthy or a candidate of an election. When every node has been marked, each election fails
  from then on and no ticking brings the cluster a primary back.
\<close>

lemma unhealthy_never_recovers:
  assumes "(cluster_step N)\<^sup>*\<^sup>* (cms, tbl) (cms', tbl')" "healthy_ids tbl \<inter> N = {}"
  shows "healthy_ids tbl' \<inter> N = {} \<and> set (election_candidates scanOk tbl') \<inter> N = {} \<and>
    (N = UNIV \<longrightarrow> snd (electPrimary io (cm, tbl')) \<noteq> None \<and> snd (fst (electPrimary io (cm, tbl'))) = tbl')"
proof -
  have h: "healthy_ids tbl' \<inter> N = {}"
    using assms(1)
  proof (induction rule: rtranclp_induct2)
    case (step cms1 tbl1 cms2 tbl2)
    then show ?case using cluster_step_healthy [OF step(2)] by simp
  qed (use assms(2) in simp)
  have c: "set (election_candidates ok tbl') \<subseteq> healthy_ids tbl'" for ok
    by (auto simp: election_candidates_def healthy_ids_def)
  have "snd (electPrimary io (cm, tbl')) \<noteq> None \<and> snd (fst (electPrimary io (cm, tbl'))) = tbl'" if "N = UNIV"
  proof -
    have "election_candidates (ci_elect_scan_ok io) tbl' = []" using h c [of "ci_elect_scan_ok io"] that by auto
    then show ?thesis by (simp add: electPrimary_def)
  qed
  with h c [of scanOk] show ?thesis by blast
qed

text \<open>Both nodes paused for longer than the threshold; the first one to wake marks both.\<close>

definition all_silent :: node_table where
  "all_silent = [(member ''a'' NodeStatePrimary 0)\<lparr>cn_is_healthy := False\<rparr>, (member ''b'' NodeStateSecondary 0)\<lparr>cn_is_healthy := False\<rparr>]"

lemma unhealthy_never_recovers_example:
  "healthy_ids (snd (heartbeat_tick (cio_ok (200 * second_ns)) (NewClusterManager ''a'' ''a'' True, all_silent))) = {}"
proof -
  let ?cms = "\<lambda>i :: nat. NewClusterManager ''a'' ''a'' True"
  obtain cm' tbl' where t: "heartbeat_tick (cio_ok (200 * second_ns)) (?cms 0, all_silent) = (cm', tbl')" by fastforce
  have "(cluster_step UNIV)\<^sup>*\<^sup>* (?cms, all_silent) (?cms(0 := cm'), tbl')"
    using cluster_step.tick [where cms = ?cms and i = 0, OF t] by blast
  moreover have "healthy_ids all_silent = {}" by (auto simp: healthy_ids_def all_silent_def)
  ultimately show ?thesis using unhealthy_never_recovers t by fastforce
qed

text \<open>
  Two primaries. The primary \<open>a\<close> was silent for two minutes, \<open>b\<close> found out and was elected; then \<open>a\<close> wakes up
  and ticks. Its heartbeat writes the state it still believes in, and when the query for the primary
  (LIMIT 1, no order) returns the row of \<open>b\<close>, nothing corrects it: both nodes believe to be the primary,
  the table says so, and further ticks of either node leave it that way.
\<close>

definition cluster_run :: "(ClusterManager \<times> ClusterManager) \<times> node_table" where
  "cluster_run =
     (let a = (NewClusterManager ''a'' ''a'' True)\<lparr>cm_currentState := NodeStatePrimary\<rparr>;
          b = (NewClusterManager ''b'' ''b'' True)\<lparr>cm_currentState := NodeStateSecondary\<rparr>;
          (b1, t1) = heartbeat_tick (cio_ok (120 * second_ns)) (b, two_nodes);
          (a1, t2) = heartbeat_tick ((cio_ok (125 * second_ns))\<lparr>ci_pick := 1\<rparr>) (a, t1)
      in ((a1, b1), t2))"

lemma cluster_split_brain:
  "case cluster_run of ((a, b), tbl) \<Rightarrow>
     IsPrimary a \<and> IsPrimary b \<and> map (\<lambda>r. (cn_id r, cn_state r)) tbl = [(''a'', NodeStatePrimary), (''b'', NodeStatePrimary)] \<and>
     heartbeat_tick ((cio_ok (125 * second_ns))\<lparr>ci_pick := 1\<rparr>) (a, tbl) = (a, tbl)"
  by code_simp

end
