(* ===== verification/Refinement.thy ===== *)
theory Refinement
  imports Main
begin

text \<open>
  Refinement of an abstract specification: the detailed transition system of a component, its
  invariant and the abstraction of its states. The laws of the locale are the proof obligations of a
  forward simulation with stuttering; what the component inherits from its specification is proved once
  here.
\<close>

locale simulation =
  fixes cstep :: "'c \<Rightarrow> 'c \<Rightarrow> bool" and astep :: "'a \<Rightarrow> 'a \<Rightarrow> bool" and abs :: "'c \<Rightarrow> 'a" and inv :: "'c \<Rightarrow> bool"
  assumes inv_step: "inv c \<Longrightarrow> cstep c c' \<Longrightarrow> inv c'"
    and step_refines: "inv c \<Longrightarrow> cstep c c' \<Longrightarrow> abs c' = abs c \<or> astep (abs c) (abs c')"
begin

lemma reach_inv: "cstep\<^sup>*\<^sup>* c c' \<Longrightarrow> inv c \<Longrightarrow> inv c'"
  by (induction rule: rtranclp_induct) (auto intro: inv_step)

lemma reach_refines: "cstep\<^sup>*\<^sup>* c c' \<Longrightarrow> inv c \<Longrightarrow> astep\<^sup>*\<^sup>* (abs c) (abs c')"
proof (induction rule: rtranclp_induct)
  case (step c1 c2)
  then have "astep\<^sup>*\<^sup>* (abs c) (abs c1)" "abs c2 = abs c1 \<or> astep (abs c1) (abs c2)"
    using reach_inv step_refines by blast+
  then show ?case by (auto intro: rtranclp.rtrancl_into_rtrancl)
qed simp

text \<open>A property the specification keeps holds of the abstraction of every reachable state.\<close>

lemma spec_invariant:
  assumes "cstep\<^sup>*\<^sup>* c c'" "inv c" "P (abs c)" "\<And>a a'. P a \<Longrightarrow> astep a a' \<Longrightarrow> P a'"
  shows "P (abs c')"
  using reach_refines [OF assms(1,2)] assms(3) by (induction rule: rtranclp_induct) (auto intro: assms(4))

end

end
