(* ===== verification/Failover.thy ===== *)
theory Failover
  imports Go_Time Refinement "HOL-Library.Multiset"
begin

text \<open>
  Database failover, \<^verbatim>\<open>src/database/failover.go\<close>: reads that fall back to the cache database, writes
  that are queued while the primary database is unavailable, and the recovery that replays them. The
  primary database is the list of the statements it has executed; whether a statement succeeds is an
  argument.
\<close>

section \<open>State\<close>

type_synonym statement = "string \<times> string list"

record QueuedWrite =
  qw_Query :: string
  qw_Args :: "string list"
  qw_Timestamp :: instant

definition qw_statement :: "QueuedWrite \<Rightarrow> statement" where
  "qw_statement w = (qw_Query w, qw_Args w)"

record FailoverManager =
  fm_readOnly :: bool
  fm_writeQueue :: "QueuedWrite list"
  fm_lastError :: "string option"
  fm_lastErrorAt :: instant
  fm_retryTicker :: bool

definition NewFailoverManager :: FailoverManager where
  "NewFailoverManager = \<lparr>fm_readOnly = False, fm_writeQueue = [], fm_lastError = None, fm_lastErrorAt = zero_time,
     fm_retryTicker = False\<rparr>"

definition IsReadOnly :: "FailoverManager \<Rightarrow> bool" where
  "IsReadOnly fm = fm_readOnly fm"

definition GetLastError :: "FailoverManager \<Rightarrow> instant \<times> string option" where
  "GetLastError fm = (fm_lastErrorAt fm, fm_lastError fm)"

definition GetQueuedWriteCount :: "FailoverManager \<Rightarrow> nat" where
  "GetQueuedWriteCount fm = length (fm_writeQueue fm)"

text \<open>
  The outcome of a write sent to the primary: done, an error with no effect, or an error (such as a
  timeout) although the statement was executed.
\<close>

datatype exec_outcome = Done | Refused string | Landed string

fun primary_exec :: "exec_outcome \<Rightarrow> statement \<Rightarrow> statement list \<Rightarrow> statement list \<times> string option" where
  "primary_exec Done st db = (db @ [st], None)"
| "primary_exec (Refused e) st db = (db, Some e)"
| "primary_exec (Landed e) st db = (db @ [st], Some e)"

section \<open>Operations\<close>

definition queueWrite :: "statement \<Rightarrow> instant \<Rightarrow> FailoverManager \<Rightarrow> FailoverManager" where
  "queueWrite st now fm =
     fm\<lparr>fm_writeQueue := fm_writeQueue fm @ [\<lparr>qw_Query = fst st, qw_Args = snd st, qw_Timestamp = now\<rparr>]\<rparr>"

definition handlePrimaryFailure :: "string \<Rightarrow> instant \<Rightarrow> FailoverManager \<Rightarrow> FailoverManager" where
  "handlePrimaryFailure err now fm =
     (if fm_readOnly fm then fm
      else fm\<lparr>fm_readOnly := True, fm_lastError := Some err, fm_lastErrorAt := now, fm_retryTicker := True\<rparr>)"

text \<open>Which database answers a read; \<open>primaryErr\<close> is the primary's error, if it has one.\<close>

datatype read_source = FromPrimary | FromCache

definition Query :: "string option \<Rightarrow> instant \<Rightarrow> FailoverManager \<Rightarrow> FailoverManager \<times> read_source" where
  "Query primaryErr now fm =
     (if fm_readOnly fm then (fm, FromCache)
      else case primaryErr of
        Some e \<Rightarrow> (handlePrimaryFailure e now fm, FromCache)
      | None \<Rightarrow> (fm, FromPrimary))"

definition QueryRow :: "FailoverManager \<Rightarrow> read_source" where
  "QueryRow fm = (if fm_readOnly fm then FromCache else FromPrimary)"

datatype exec_result = Executed | WriteQueued "string option"

definition Exec ::
  "exec_outcome \<Rightarrow> instant \<Rightarrow> statement \<Rightarrow> FailoverManager \<times> statement list \<Rightarrow> (FailoverManager \<times> statement list) \<times> exec_result" where
  "Exec out now st w =
     (case w of (fm, db) \<Rightarrow>
        if fm_readOnly fm then ((queueWrite st now fm, db), WriteQueued None)
        else case primary_exec out st db of
          (db', None) \<Rightarrow> ((fm, db'), Executed)
        | (db', Some e) \<Rightarrow> ((queueWrite st now (handlePrimaryFailure e now fm), db'), WriteQueued (Some e)))"

text \<open>The loop of \<open>replayWrites\<close> over the copied queue.\<close>

fun replay_loop ::
  "exec_outcome list \<Rightarrow> instant \<Rightarrow> QueuedWrite list \<Rightarrow> FailoverManager \<times> statement list \<Rightarrow> FailoverManager \<times> statement list" where
  "replay_loop outs now [] w = w"
| "replay_loop outs now (q # qs) (fm, db) =
     (case primary_exec (if outs = [] then Done else hd outs) (qw_statement q) db of
        (db', None) \<Rightarrow> replay_loop (tl outs) now qs (fm, db')
      | (db', Some e) \<Rightarrow> replay_loop (tl outs) now qs (queueWrite (qw_statement q) now fm, db'))"

definition replayWrites ::
  "exec_outcome list \<Rightarrow> instant \<Rightarrow> FailoverManager \<times> statement list \<Rightarrow> FailoverManager \<times> statement list" where
  "replayWrites outs now w =
     (case w of (fm, db) \<Rightarrow> replay_loop outs now (fm_writeQueue fm) (fm\<lparr>fm_writeQueue := []\<rparr>, db))"

definition exit_read_only :: "FailoverManager \<Rightarrow> FailoverManager" where
  "exit_read_only fm = fm\<lparr>fm_readOnly := False, fm_lastError := None, fm_retryTicker := False\<rparr>"

definition attemptRecovery ::
  "bool \<Rightarrow> bool \<Rightarrow> exec_outcome list \<Rightarrow> instant \<Rightarrow> FailoverManager \<times> statement list \<Rightarrow> FailoverManager \<times> statement list" where
  "attemptRecovery pingOk selectOk outs now w =
     (case w of (fm, db) \<Rightarrow>
        if \<not> fm_readOnly fm then (fm, db)
        else if \<not> pingOk then (fm, db)
        else if \<not> selectOk then (fm, db)
        else (case replayWrites outs now (fm, db) of (fm', db') \<Rightarrow> (exit_read_only fm', db')))"

section \<open>Interleaving\<close>

text \<open>
  Calls of \<open>Exec\<close> and the monitor goroutine between their critical sections: a call that has read the
  flag is about to queue or to try its statement, one whose statement failed has yet to report the
  failure; the monitor works through its copy of the queue. The list holds the calls that have not
  returned.
\<close>

datatype exec_pc = WillQueue statement | WillTry statement | WillReport statement string | Returned

datatype monitor_pc = MIdle | MProbing | MReplaying "QueuedWrite list" | MRequeue QueuedWrite "QueuedWrite list" | MExit

record fo_world =
  fw_fm :: FailoverManager
  fw_db :: "statement list"
  fw_calls :: "exec_pc list"
  fw_monitor :: monitor_pc
  fw_submitted :: "statement multiset"

inductive fo_step :: "fo_world \<Rightarrow> fo_world \<Rightarrow> bool" where
  call: "fo_step w (w\<lparr>fw_calls := fw_calls w @ [if fm_readOnly (fw_fm w) then WillQueue st else WillTry st],
           fw_submitted := add_mset st (fw_submitted w)\<rparr>)"
| send: "i < length (fw_calls w) \<Longrightarrow> fw_calls w ! i = WillTry st \<Longrightarrow> primary_exec out st (fw_db w) = (db', e) \<Longrightarrow>
    fo_step w (w\<lparr>fw_db := db', fw_calls := (fw_calls w)[i := (case e of None \<Rightarrow> Returned | Some e \<Rightarrow> WillReport st e)]\<rparr>)"
| report: "i < length (fw_calls w) \<Longrightarrow> fw_calls w ! i = WillReport st e \<Longrightarrow>
    fo_step w (w\<lparr>fw_fm := handlePrimaryFailure e now (fw_fm w), fw_calls := (fw_calls w)[i := WillQueue st]\<rparr>)"
| enqueue: "i < length (fw_calls w) \<Longrightarrow> fw_calls w ! i = WillQueue st \<Longrightarrow>
    fo_step w (w\<lparr>fw_fm := queueWrite st now (fw_fm w), fw_calls := (fw_calls w)[i := Returned]\<rparr>)"
| failed_read: "fo_step w (w\<lparr>fw_fm := fst (Query err now (fw_fm w))\<rparr>)"
| probe: "fw_monitor w = MIdle \<Longrightarrow> fm_readOnly (fw_fm w) \<Longrightarrow> fo_step w (w\<lparr>fw_monitor := MProbing\<rparr>)"
| probe_failed: "fw_monitor w = MProbing \<Longrightarrow> fo_step w (w\<lparr>fw_monitor := MIdle\<rparr>)"
| copy: "fw_monitor w = MProbing \<Longrightarrow>
    fo_step w (w\<lparr>fw_monitor := MReplaying (fm_writeQueue (fw_fm w)), fw_fm := (fw_fm w)\<lparr>fm_writeQueue := []\<rparr>\<rparr>)"
| replay: "fw_monitor w = MReplaying (q # qs) \<Longrightarrow> primary_exec out (qw_statement q) (fw_db w) = (db', e) \<Longrightarrow>
    fo_step w (w\<lparr>fw_db := db', fw_monitor := (case e of None \<Rightarrow> MReplaying qs | Some _ \<Rightarrow> MRequeue q qs)\<rparr>)"
| requeue: "fw_monitor w = MRequeue q qs \<Longrightarrow>
    fo_step w (w\<lparr>fw_fm := queueWrite (qw_statement q) now (fw_fm w), fw_monitor := MReplaying qs\<rparr>)"
| replayed: "fw_monitor w = MReplaying [] \<Longrightarrow> fo_step w (w\<lparr>fw_monitor := MExit\<rparr>)"
| leave: "fw_monitor w = MExit \<Longrightarrow> fo_step w (w\<lparr>fw_fm := exit_read_only (fw_fm w), fw_monitor := MIdle\<rparr>)"

section \<open>Specification\<close>

text \<open>
  What the failover promises: a store that takes writes and applies each of them, possibly more than
  once, at some later point; it forgets none and invents none.
\<close>

record write_store =
  sp_pending :: "statement multiset"
  sp_applied :: "statement list"
  sp_submitted :: "statement multiset"

inductive store_step :: "write_store \<Rightarrow> write_store \<Rightarrow> bool" where
  submit: "store_step s (s\<lparr>sp_pending := add_mset st (sp_pending s), sp_submitted := add_mset st (sp_submitted s)\<rparr>)"
| apply_once: "st \<in># sp_pending s \<Longrightarrow>
    store_step s (s\<lparr>sp_pending := sp_pending s - {#st#}, sp_applied := sp_applied s @ [st]\<rparr>)"
| apply_early: "st \<in># sp_pending s \<Longrightarrow> store_step s (s\<lparr>sp_applied := sp_applied s @ [st]\<rparr>)"

definition store_ok :: "write_store \<Rightarrow> bool" where
  "store_ok s \<longleftrightarrow> sp_submitted s \<subseteq># mset (sp_applied s) + sp_pending s \<and>
     set (sp_applied s) \<union> set_mset (sp_pending s) \<subseteq> set_mset (sp_submitted s)"

lemma store_step_ok: "store_step s s' \<Longrightarrow> store_ok s \<Longrightarrow> store_ok s'"
proof (induction rule: store_step.induct)
  case (apply_once st s)
  then have "mset (sp_applied s @ [st]) + (sp_pending s - {#st#}) = mset (sp_applied s) + sp_pending s" by simp
  with apply_once show ?case by (auto simp: store_ok_def dest: in_diffD)
next
  case (apply_early st s)
  then show ?case by (auto simp: store_ok_def intro: subset_mset.order_trans)
qed (auto simp: store_ok_def)

fun call_writes :: "exec_pc \<Rightarrow> statement multiset" where
  "call_writes (WillQueue st) = {#st#}"
| "call_writes (WillTry st) = {#st#}"
| "call_writes (WillReport st e) = {#st#}"
| "call_writes Returned = {#}"

fun monitor_writes :: "monitor_pc \<Rightarrow> statement multiset" where
  "monitor_writes (MReplaying qs) = mset (map qw_statement qs)"
| "monitor_writes (MRequeue q qs) = add_mset (qw_statement q) (mset (map qw_statement qs))"
| "monitor_writes m = {#}"

definition pending_writes :: "fo_world \<Rightarrow> statement multiset" where
  "pending_writes w = mset (map qw_statement (fm_writeQueue (fw_fm w))) + sum_list (map call_writes (fw_calls w)) +
     monitor_writes (fw_monitor w)"

definition fo_abs :: "fo_world \<Rightarrow> write_store" where
  "fo_abs w = \<lparr>sp_pending = pending_writes w, sp_applied = fw_db w, sp_submitted = fw_submitted w\<rparr>"

lemma calls_update:
  "i < length cs \<Longrightarrow> sum_list (map call_writes (cs[i := pc])) + call_writes (cs ! i) = sum_list (map call_writes cs) + call_writes pc"
proof (induction cs arbitrary: i)
  case (Cons c cs)
  then show ?case by (cases i) (auto simp: ac_simps)
qed simp

lemma queueWrite_statements [simp]:
  "image_mset qw_statement (mset (fm_writeQueue (queueWrite st now fm))) = add_mset st (image_mset qw_statement (mset (fm_writeQueue fm)))"
  by (simp add: queueWrite_def qw_statement_def)

lemma handlePrimaryFailure_queue [simp]: "fm_writeQueue (handlePrimaryFailure e now fm) = fm_writeQueue fm"
  by (simp add: handlePrimaryFailure_def)

lemma exit_read_only_queue [simp]: "fm_writeQueue (exit_read_only fm) = fm_writeQueue fm"
  by (simp add: exit_read_only_def)

lemma Query_queue [simp]: "fm_writeQueue (fst (Query err now fm)) = fm_writeQueue fm"
  by (simp add: Query_def split: option.splits)

text \<open>A statement that is tried moves out of the pending writes, stays there, or is applied and stays.\<close>

lemma exec_refines:
  assumes "primary_exec out st (fw_db w) = (fw_db w', e)" "fw_submitted w' = fw_submitted w"
    "e = None \<Longrightarrow> pending_writes w = add_mset st (pending_writes w')"
    "e \<noteq> None \<Longrightarrow> pending_writes w' = pending_writes w \<and> st \<in># pending_writes w"
  shows "fo_abs w' = fo_abs w \<or> store_step (fo_abs w) (fo_abs w')"
proof (cases out)
  case Done
  with assms(1) have "fw_db w' = fw_db w @ [st]" "e = None" by auto
  with assms(2,3) store_step.apply_once [of st "fo_abs w"] show ?thesis by (simp add: fo_abs_def)
next
  case (Landed x)
  with assms(1) have "fw_db w' = fw_db w @ [st]" "e \<noteq> None" by auto
  with assms(2,4) store_step.apply_early [of st "fo_abs w"] show ?thesis by (simp add: fo_abs_def)
next
  case (Refused x)
  with assms show ?thesis by (auto simp: fo_abs_def)
qed

lemma fo_step_refines: "fo_step w w' \<Longrightarrow> fo_abs w' = fo_abs w \<or> store_step (fo_abs w) (fo_abs w')"
proof (induction rule: fo_step.induct)
  case (call w st)
  have "fo_abs (w\<lparr>fw_calls := fw_calls w @ [if fm_readOnly (fw_fm w) then WillQueue st else WillTry st],
           fw_submitted := add_mset st (fw_submitted w)\<rparr>) =
      (fo_abs w)\<lparr>sp_pending := add_mset st (sp_pending (fo_abs w)), sp_submitted := add_mset st (sp_submitted (fo_abs w))\<rparr>"
    by (simp add: fo_abs_def pending_writes_def)
  then show ?case using store_step.submit [of "fo_abs w" st] by simp
next
  case (send i w st out db' e)
  let ?pc = "case e of None \<Rightarrow> Returned | Some e \<Rightarrow> WillReport st e"
  note u = calls_update [OF send(1), of ?pc]
  show ?case
  proof (rule exec_refines [where out = out and e = e])
    assume "e = None"
    with u send(2) show "pending_writes w = add_mset st (pending_writes (w\<lparr>fw_db := db', fw_calls := (fw_calls w)[i := ?pc]\<rparr>))"
      by (simp add: pending_writes_def flip: add_mset_add_single)
  next
    assume "e \<noteq> None"
    then have "call_writes ?pc = {#st#}" by auto
    with u send(2) have "sum_list (map call_writes ((fw_calls w)[i := ?pc])) = sum_list (map call_writes (fw_calls w))" by simp
    moreover have "st \<in># call_writes (fw_calls w ! i)" using send(2) by simp
    then have "st \<in># sum_list (map call_writes (fw_calls w))" using send(1) by (fastforce simp: in_set_conv_nth)
    ultimately show "pending_writes (w\<lparr>fw_db := db', fw_calls := (fw_calls w)[i := ?pc]\<rparr>) = pending_writes w \<and> st \<in># pending_writes w"
      by (simp add: pending_writes_def)
  qed (use send(3) in simp_all)
next
  case (report i w st e now)
  with calls_update [OF report(1), of "WillQueue st"] show ?case by (simp add: fo_abs_def pending_writes_def)
next
  case (enqueue i w st now)
  with calls_update [OF enqueue(1), of Returned]
  have "sum_list (map call_writes (fw_calls w)) = add_mset st (sum_list (map call_writes ((fw_calls w)[i := Returned])))" by simp
  then show ?case by (simp add: fo_abs_def pending_writes_def)
next
  case (replay w q qs out db' e)
  show ?case
    by (rule exec_refines [where out = out and e = e and st = "qw_statement q"])
      (use replay in \<open>auto simp: pending_writes_def\<close>)
qed (auto simp: fo_abs_def pending_writes_def)

interpretation failover: simulation fo_step store_step fo_abs "\<lambda>w. True"
  by unfold_locales (simp_all add: fo_step_refines)

section \<open>The operations as steps\<close>

text \<open>An undisturbed call of \<open>Exec\<close>, and an undisturbed recovery, are runs of the step relation.\<close>

lemma step_then: "fo_step w w1 \<Longrightarrow> fo_step\<^sup>*\<^sup>* w1 w2 \<Longrightarrow> fo_step\<^sup>*\<^sup>* w w2"
  by (rule converse_rtranclp_into_rtranclp)

lemma Exec_steps:
  assumes "Exec out now st (fw_fm w, fw_db w) = ((fm', db'), r)"
  shows "fo_step\<^sup>*\<^sup>* w (w\<lparr>fw_fm := fm', fw_db := db', fw_calls := fw_calls w @ [Returned],
    fw_submitted := add_mset st (fw_submitted w)\<rparr>)"
proof (cases "fm_readOnly (fw_fm w)")
  case True
  let ?w = "w\<lparr>fw_calls := fw_calls w @ [WillQueue st], fw_submitted := add_mset st (fw_submitted w)\<rparr>"
  have c: "fo_step w ?w" using fo_step.call [of w st] True by simp
  have q: "fo_step ?w (?w\<lparr>fw_fm := queueWrite st now (fw_fm w), fw_calls := fw_calls w @ [Returned]\<rparr>)"
    using fo_step.enqueue [of "length (fw_calls w)" ?w st now] by (simp add: nth_append list_update_append)
  from True assms have "fm' = queueWrite st now (fw_fm w)" "db' = fw_db w" by (auto simp: Exec_def)
  with q show ?thesis by (intro step_then [OF c] r_into_rtranclp) (cases w; simp)
next
  case False
  let ?w = "w\<lparr>fw_calls := fw_calls w @ [WillTry st], fw_submitted := add_mset st (fw_submitted w)\<rparr>"
  have c: "fo_step w ?w" using fo_step.call [of w st] False by simp
  obtain d e where x: "primary_exec out st (fw_db w) = (d, e)" by (cases "primary_exec out st (fw_db w)")
  have s: "fo_step ?w (?w\<lparr>fw_db := d, fw_calls := fw_calls w @ [case e of None \<Rightarrow> Returned | Some e \<Rightarrow> WillReport st e]\<rparr>)"
    using fo_step.send [of "length (fw_calls w)" ?w st out d e] x by (simp add: nth_append list_update_append)
  show ?thesis
  proof (cases e)
    case None
    with False assms x have "fm' = fw_fm w" "db' = d" by (auto simp: Exec_def)
    with None s show ?thesis by (intro step_then [OF c] r_into_rtranclp) (cases w; simp)
  next
    case (Some err)
    let ?v = "?w\<lparr>fw_db := d, fw_calls := fw_calls w @ [WillReport st err]\<rparr>"
    let ?u = "?v\<lparr>fw_fm := handlePrimaryFailure err now (fw_fm w), fw_calls := fw_calls w @ [WillQueue st]\<rparr>"
    have r: "fo_step ?v ?u"
      using fo_step.report [of "length (fw_calls w)" ?v st err now] by (simp add: nth_append list_update_append)
    have q: "fo_step ?u (?u\<lparr>fw_fm := queueWrite st now (handlePrimaryFailure err now (fw_fm w)), fw_calls := fw_calls w @ [Returned]\<rparr>)"
      using fo_step.enqueue [of "length (fw_calls w)" ?u st now] by (simp add: nth_append list_update_append)
    from False assms x Some have "fm' = queueWrite st now (handlePrimaryFailure err now (fw_fm w))" "db' = d"
      by (auto simp: Exec_def)
    moreover from s Some have "fo_step ?w ?v" by simp
    note step_then [OF c step_then [OF this step_then [OF r r_into_rtranclp [of fo_step, OF q]]]]
    ultimately show ?thesis by (cases w) simp
  qed
qed

lemma replay_steps:
  "replay_loop outs now qs (fw_fm w, fw_db w) = (fm', db') \<Longrightarrow> fw_monitor w = MReplaying qs \<Longrightarrow>
     fo_step\<^sup>*\<^sup>* w (w\<lparr>fw_fm := fm', fw_db := db', fw_monitor := MReplaying []\<rparr>)"
proof (induction qs arbitrary: outs w)
  case Nil
  then have "w\<lparr>fw_fm := fm', fw_db := db', fw_monitor := MReplaying []\<rparr> = w" by simp
  then show ?case by (metis rtranclp.rtrancl_refl)
next
  case (Cons q qs)
  let ?out = "if outs = [] then Done else hd outs"
  obtain d e where x: "primary_exec ?out (qw_statement q) (fw_db w) = (d, e)" by fastforce
  let ?v = "w\<lparr>fw_db := d, fw_monitor := (case e of None \<Rightarrow> MReplaying qs | Some _ \<Rightarrow> MRequeue q qs)\<rparr>"
  have s: "fo_step w ?v" using fo_step.replay [OF Cons.prems(2) x] .
  show ?case
  proof (cases e)
    case None
    with Cons.prems(1) x have "replay_loop (tl outs) now qs (fw_fm ?v, fw_db ?v) = (fm', db')" by simp
    from Cons.IH [OF this] None have "fo_step\<^sup>*\<^sup>* ?v (?v\<lparr>fw_fm := fm', fw_db := db', fw_monitor := MReplaying []\<rparr>)" by simp
    with s show ?thesis by (intro step_then [OF s]) simp
  next
    case (Some err)
    let ?u = "?v\<lparr>fw_fm := queueWrite (qw_statement q) now (fw_fm ?v), fw_monitor := MReplaying qs\<rparr>"
    have r: "fo_step ?v ?u" by (rule fo_step.requeue) (simp add: Some)
    from Some Cons.prems(1) x have "replay_loop (tl outs) now qs (fw_fm ?u, fw_db ?u) = (fm', db')" by simp
    from Cons.IH [OF this] have "fo_step\<^sup>*\<^sup>* ?u (?u\<lparr>fw_fm := fm', fw_db := db', fw_monitor := MReplaying []\<rparr>)" by simp
    with s r show ?thesis by (intro step_then [OF s] step_then [OF r]) simp
  qed
qed

lemma attemptRecovery_steps:
  assumes "attemptRecovery pingOk selectOk outs now (fw_fm w, fw_db w) = (fm', db')" "fw_monitor w = MIdle"
  shows "fo_step\<^sup>*\<^sup>* w (w\<lparr>fw_fm := fm', fw_db := db'\<rparr>)"
proof (cases "fm_readOnly (fw_fm w) \<and> pingOk \<and> selectOk")
  case False
  with assms(1) have "w\<lparr>fw_fm := fm', fw_db := db'\<rparr> = w" by (auto simp: attemptRecovery_def split: if_splits)
  then show ?thesis by (metis rtranclp.rtrancl_refl)
next
  case True
  let ?p = "w\<lparr>fw_monitor := MProbing\<rparr>"
  let ?c = "?p\<lparr>fw_monitor := MReplaying (fm_writeQueue (fw_fm w)), fw_fm := (fw_fm w)\<lparr>fm_writeQueue := []\<rparr>\<rparr>"
  obtain fm1 db1 where x: "replay_loop outs now (fm_writeQueue (fw_fm w)) (fw_fm ?c, fw_db ?c) = (fm1, db1)" by fastforce
  with True assms(1) have f: "fm' = exit_read_only fm1" "db' = db1"
    by (auto simp: attemptRecovery_def replayWrites_def)
  have p: "fo_step w ?p" using True assms(2) by (auto intro: fo_step.probe)
  have c: "fo_step ?p ?c" using fo_step.copy [of ?p] by simp
  let ?r = "?c\<lparr>fw_fm := fm1, fw_db := db1, fw_monitor := MReplaying []\<rparr>"
  let ?e = "?r\<lparr>fw_monitor := MExit\<rparr>"
  have "fo_step\<^sup>*\<^sup>* ?c ?r" by (rule replay_steps [OF x]) simp
  moreover have "fo_step ?r ?e" by (rule fo_step.replayed) simp
  moreover have "fo_step ?e (?e\<lparr>fw_fm := exit_read_only (fw_fm ?e), fw_monitor := MIdle\<rparr>)" by (rule fo_step.leave) simp
  ultimately have "fo_step\<^sup>*\<^sup>* ?c (?e\<lparr>fw_fm := exit_read_only (fw_fm ?e), fw_monitor := MIdle\<rparr>)"
    by (rule rtranclp.rtrancl_into_rtrancl [OF rtranclp.rtrancl_into_rtrancl])
  moreover have "?e\<lparr>fw_fm := exit_read_only (fw_fm ?e), fw_monitor := MIdle\<rparr> = w\<lparr>fw_fm := fm', fw_db := db'\<rparr>"
    using f assms(2) by simp
  ultimately show ?thesis using step_then [OF p step_then [OF c]] by metis
qed

section \<open>No write is lost\<close>

definition fo_init :: fo_world where
  "fo_init = \<lparr>fw_fm = NewFailoverManager, fw_db = [], fw_calls = [], fw_monitor = MIdle, fw_submitted = {#}\<rparr>"

text \<open>
  C37. The failover implements a store that loses no write: in every interleaving of calls of \<open>Exec\<close>,
  of failing reads and of the monitor's recovery, step by step between the critical sections and with
  every outcome of the statements (an error after the statement took effect included), each step is a
  step of the abstract store or invisible to it. Hence a submitted write is executed at least once or
  still pending (queued, in the hands of a call, or in the monitor's copy), as often as it was
  submitted, and nothing that was not submitted is ever executed.
\<close>

theorem failover_refines_store:
  assumes "fo_step\<^sup>*\<^sup>* fo_init w"
  shows "store_step\<^sup>*\<^sup>* (fo_abs fo_init) (fo_abs w) \<and>
    fw_submitted w \<subseteq># mset (fw_db w) + pending_writes w \<and> set (fw_db w) \<subseteq> set_mset (fw_submitted w)"
proof -
  have "store_ok (fo_abs fo_init)"
    by (simp add: fo_abs_def fo_init_def store_ok_def pending_writes_def NewFailoverManager_def)
  then have "store_ok (fo_abs w)"
    by (rule failover.spec_invariant [OF assms TrueI]) (rule store_step_ok)
  with failover.reach_refines [OF assms] show ?thesis by (simp add: store_ok_def fo_abs_def)
qed

definition backup_write :: statement where
  "backup_write = (''INSERT INTO t VALUES (?)'', [''1''])"

theorem failover_refines_store_witness:
  "let ((fm, db), r) = Exec (Refused ''connection refused'') 7 backup_write (NewFailoverManager, []);
       (fm2, db2) = attemptRecovery True True [] 60 (fm, db)
   in fm_readOnly fm \<and> db = [] \<and> GetQueuedWriteCount fm = 1 \<and> \<not> fm_readOnly fm2 \<and> set db2 \<subseteq> {backup_write} \<and> db2 \<noteq> []"
proof -
  let ?x = "Exec (Refused ''connection refused'') 7 backup_write (NewFailoverManager, [])"
  have x: "fm_readOnly (fst (fst ?x))" "snd (fst ?x) = []" "GetQueuedWriteCount (fst (fst ?x)) = 1" by code_simp+
  obtain fm2 db2 where r: "attemptRecovery True True [] 60 (fst ?x) = (fm2, db2)" by fastforce
  have "snd (attemptRecovery True True [] 60 (fst ?x)) \<noteq> []" "\<not> fm_readOnly (fst (attemptRecovery True True [] 60 (fst ?x)))"
    by code_simp+
  with r have db2: "db2 \<noteq> []" "\<not> fm_readOnly fm2" by simp_all
  let ?v = "fo_init\<lparr>fw_fm := fst (fst ?x), fw_db := snd (fst ?x), fw_calls := [Returned], fw_submitted := {#backup_write#}\<rparr>"
  have "fo_step\<^sup>*\<^sup>* fo_init ?v"
    using Exec_steps [of _ 7 backup_write fo_init "fst (fst ?x)" "snd (fst ?x)" "snd ?x"] by (simp add: fo_init_def)
  moreover have "fo_step\<^sup>*\<^sup>* ?v (?v\<lparr>fw_fm := fm2, fw_db := db2\<rparr>)"
    by (rule attemptRecovery_steps [where now = 60]) (use r in \<open>simp_all add: fo_init_def\<close>)
  ultimately have "fo_step\<^sup>*\<^sup>* fo_init (?v\<lparr>fw_fm := fm2, fw_db := db2\<rparr>)" by simp
  from failover_refines_store [OF this] have "set db2 \<subseteq> {backup_write}" by simp
  moreover obtain fm1 r1 where "?x = ((fm1, []), r1)" using x(2) by (metis prod.collapse)
  ultimately show ?thesis using x r db2 by (simp add: Let_def)
qed

section \<open>Requeued writes\<close>

lemma replay_keeps: "set (fm_writeQueue fm) \<subseteq> set (fm_writeQueue (fst (replay_loop outs now qs (fm, db))))"
proof (induction qs arbitrary: outs fm db)
  case (Cons q qs)
  obtain d e where x: "primary_exec (if outs = [] then Done else hd outs) (qw_statement q) db = (d, e)" by fastforce
  let ?fm = "queueWrite (qw_statement q) now fm"
  have "set (fm_writeQueue fm) \<subseteq> set (fm_writeQueue ?fm)" by (auto simp: queueWrite_def)
  also have "\<dots> \<subseteq> set (fm_writeQueue (fst (replay_loop (tl outs) now qs (?fm, d))))" by (rule Cons)
  finally show ?case using Cons [of fm "tl outs" d] by (cases e) (simp_all only: replay_loop.simps x option.case prod.case)
qed simp

lemma replay_requeues:
  "i < length qs \<Longrightarrow> i < length outs \<Longrightarrow> outs ! i \<noteq> Done \<Longrightarrow>
     qw_statement (qs ! i) \<in> qw_statement ` set (fm_writeQueue (fst (replay_loop outs now qs (fm, db))))"
proof (induction qs arbitrary: outs i fm db)
  case (Cons q qs)
  then obtain out outs' where o: "outs = out # outs'" by (cases outs) auto
  show ?case
  proof (cases i)
    case 0
    with Cons.prems o obtain d e where x: "primary_exec out (qw_statement q) db = (d, Some e)" by (cases out) auto
    let ?fm = "queueWrite (qw_statement q) now fm"
    have "qw_statement q \<in> qw_statement ` set (fm_writeQueue ?fm)" by (auto simp: queueWrite_def qw_statement_def)
    with replay_keeps [of ?fm outs' now qs d] 0 o x show ?thesis by auto
  next
    case (Suc j)
    with Cons.prems o Cons.IH [of j outs'] show ?thesis by (auto split: prod.splits option.splits)
  qed
qed simp

text \<open>
  A write whose replay fails is stranded by the recovery: the manager leaves read-only mode and
  drops its retry ticker although the write is back in the queue. From then on no recovery attempt
  touches the queue, and any number of later writes is executed before it, in normal operation.
\<close>

lemma failover_requeued_stranded:
  assumes "fm_readOnly fm" "i < length (fm_writeQueue fm)" "i < length outs" "outs ! i \<noteq> Done"
    "attemptRecovery True True outs now (fm, db) = (fm', db')"
  shows "qw_statement (fm_writeQueue fm ! i) \<in> qw_statement ` set (fm_writeQueue fm') \<and>
    \<not> fm_readOnly fm' \<and> \<not> fm_retryTicker fm' \<and> attemptRecovery pingOk selectOk outs' later (fm', db'') = (fm', db'') \<and>
    foldl (\<lambda>w st. fst (Exec Done later st w)) (fm', db') sts = (fm', db' @ sts)"
proof -
  obtain fm1 where f: "replayWrites outs now (fm, db) = (fm1, db')" "fm' = exit_read_only fm1"
    using assms(1,5) by (cases "replayWrites outs now (fm, db)") (auto simp: attemptRecovery_def)
  have "qw_statement (fm_writeQueue fm ! i) \<in> qw_statement ` set (fm_writeQueue fm')"
    using replay_requeues [OF assms(2-4), of now "fm\<lparr>fm_writeQueue := []\<rparr>" db] f by (simp add: replayWrites_def)
  moreover have "\<not> fm_readOnly fm'" "\<not> fm_retryTicker fm'" using f(2) by (simp_all add: exit_read_only_def)
  moreover have "foldl (\<lambda>w st. fst (Exec Done later st w)) (fm', d) sts = (fm', d @ sts)" for d
    using \<open>\<not> fm_readOnly fm'\<close> by (induction sts arbitrary: d) (simp_all add: Exec_def)
  ultimately show ?thesis by (simp add: attemptRecovery_def)
qed

lemma failover_requeued_stranded_example:
  "let fm = fst (fst (Exec (Refused ''connection refused'') 7 backup_write (NewFailoverManager, [])));
       fm' = fst (attemptRecovery True True [Refused ''constraint failed''] 60 (fm, []))
   in \<not> fm_readOnly fm' \<and> \<not> fm_retryTicker fm' \<and> fm_writeQueue fm' \<noteq> []"
proof -
  let ?fm = "fst (fst (Exec (Refused ''connection refused'') 7 backup_write (NewFailoverManager, [])))"
  have "fm_readOnly ?fm" "0 < length (fm_writeQueue ?fm)" by code_simp+
  moreover obtain fm' db' where "attemptRecovery True True [Refused ''constraint failed''] 60 (?fm, []) = (fm', db')" by fastforce
  ultimately show ?thesis
    using failover_requeued_stranded [of ?fm 0 "[Refused ''constraint failed'']" 60 "[]" fm' db'] by (auto simp: Let_def)
qed

end
