(* ===== verification/WebSocket_Hub.thy ===== *)
theory WebSocket_Hub
  imports Go_Time "HOL-Library.AList" "HOL-Library.Multiset"
begin

text \<open>
  The WebSocket hub, \<^verbatim>\<open>src/server/service/websocket_hub.go\<close>: the goroutine that owns the table of
  clients, the buffered channels towards it, the clients' send channels, and the goroutines that read,
  write and broadcast. Go's channels are modelled with their capacities: a send into a full channel
  blocks, a send into or a second close of a closed channel panics.
\<close>

section \<open>State\<close>

type_synonym cptr = nat

record WebSocketClient =
  wc_ID :: string
  wc_UserID :: "int option"
  wc_AdminID :: "int option"
  wc_LastPing :: instant
  wc_Send :: "string list"
  wc_closed :: bool
  wc_conn_open :: bool

text \<open>The send channel holds 256 messages (\<^verbatim>\<open>src/server/handler/notification_api.go\<close>).\<close>

definition send_cap :: nat where "send_cap = 256"
definition register_cap :: nat where "register_cap = 10"
definition unregister_cap :: nat where "unregister_cap = 10"
definition broadcast_cap :: nat where "broadcast_cap = 100"

text \<open>
  The clients live in a heap, and the hub and the channels hold pointers to them. \<open>ws_senders\<close>: the
  goroutines that have looked up a client and are about to send to it.
\<close>

record WebSocketHub =
  ws_heap :: "cptr \<Rightarrow> WebSocketClient"
  ws_clients :: "(string \<times> cptr) list"
  ws_register :: "cptr list"
  ws_unregister :: "cptr list"
  ws_broadcast :: "string option list"
  ws_done :: bool
  ws_senders :: "(cptr \<times> string option) list"

datatype 'a outcome = Continues 'a | Blocks | Panics

fun and_then :: "'a outcome \<Rightarrow> ('a \<Rightarrow> 'b outcome) \<Rightarrow> 'b outcome" where
  "and_then (Continues x) f = f x"
| "and_then Blocks f = Blocks"
| "and_then Panics f = Panics"

definition NewWebSocketHub :: "(cptr \<Rightarrow> WebSocketClient) \<Rightarrow> WebSocketHub" where
  "NewWebSocketHub heap = \<lparr>ws_heap = heap, ws_clients = [], ws_register = [], ws_unregister = [], ws_broadcast = [],
     ws_done = False, ws_senders = []\<rparr>"

definition set_client :: "cptr \<Rightarrow> (WebSocketClient \<Rightarrow> WebSocketClient) \<Rightarrow> WebSocketHub \<Rightarrow> WebSocketHub" where
  "set_client p f h = h\<lparr>ws_heap := (ws_heap h)(p := f (ws_heap h p))\<rparr>"

section \<open>Channels\<close>

definition RegisterClient :: "cptr \<Rightarrow> WebSocketHub \<Rightarrow> WebSocketHub outcome" where
  "RegisterClient p h =
     (if length (ws_register h) < register_cap then Continues (h\<lparr>ws_register := ws_register h @ [p]\<rparr>) else Blocks)"

definition UnregisterClient :: "cptr \<Rightarrow> WebSocketHub \<Rightarrow> WebSocketHub outcome" where
  "UnregisterClient p h =
     (if length (ws_unregister h) < unregister_cap then Continues (h\<lparr>ws_unregister := ws_unregister h @ [p]\<rparr>) else Blocks)"

definition close_send :: "cptr \<Rightarrow> WebSocketHub \<Rightarrow> WebSocketHub outcome" where
  "close_send p h = (if wc_closed (ws_heap h p) then Panics else Continues (set_client p (\<lambda>c. c\<lparr>wc_closed := True\<rparr>) h))"

definition close_conn :: "cptr \<Rightarrow> WebSocketHub \<Rightarrow> WebSocketHub" where
  "close_conn p h = set_client p (\<lambda>c. c\<lparr>wc_conn_open := False\<rparr>) h"

text \<open>\<open>data\<close>: the encoded message, \<open>None\<close> when it cannot be encoded.\<close>

definition sendToClient :: "string option \<Rightarrow> cptr \<Rightarrow> WebSocketHub \<Rightarrow> WebSocketHub outcome" where
  "sendToClient data p h =
     (case data of
        None \<Rightarrow> Continues h
      | Some d \<Rightarrow>
          if wc_closed (ws_heap h p) then Panics
          else if length (wc_Send (ws_heap h p)) < send_cap
          then Continues (set_client p (\<lambda>c. c\<lparr>wc_Send := wc_Send c @ [d]\<rparr>) h)
          else and_then (UnregisterClient p h) (\<lambda>h'. Continues (close_conn p h')))"

section \<open>The hub's goroutine\<close>

definition hub_register :: "WebSocketHub \<Rightarrow> WebSocketHub outcome" where
  "hub_register h =
     (case ws_register h of
        [] \<Rightarrow> Blocks
      | p # ps \<Rightarrow> Continues (h\<lparr>ws_register := ps, ws_clients := AList.update (wc_ID (ws_heap h p)) p (ws_clients h)\<rparr>))"

definition hub_unregister :: "WebSocketHub \<Rightarrow> WebSocketHub outcome" where
  "hub_unregister h =
     (case ws_unregister h of
        [] \<Rightarrow> Blocks
      | p # ps \<Rightarrow>
          (let h1 = h\<lparr>ws_unregister := ps\<rparr>; cid = wc_ID (ws_heap h p)
           in if map_of (ws_clients h) cid \<noteq> None
              then close_send p (h1\<lparr>ws_clients := AList.delete cid (ws_clients h)\<rparr>)
              else Continues h1))"

fun send_all :: "string option \<Rightarrow> cptr list \<Rightarrow> WebSocketHub \<Rightarrow> WebSocketHub outcome" where
  "send_all data [] h = Continues h"
| "send_all data (p # ps) h = and_then (sendToClient data p h) (send_all data ps)"

text \<open>\<open>shuffle\<close>: the order in which the runtime walks the map of clients.\<close>

definition broadcastToAll :: "(cptr list \<Rightarrow> cptr list) \<Rightarrow> string option \<Rightarrow> WebSocketHub \<Rightarrow> WebSocketHub outcome" where
  "broadcastToAll shuffle data h = send_all data (shuffle (map snd (ws_clients h))) h"

definition hub_broadcast :: "(cptr list \<Rightarrow> cptr list) \<Rightarrow> WebSocketHub \<Rightarrow> WebSocketHub outcome" where
  "hub_broadcast shuffle h =
     (case ws_broadcast h of [] \<Rightarrow> Blocks | m # ms \<Rightarrow> broadcastToAll shuffle m (h\<lparr>ws_broadcast := ms\<rparr>))"

definition pingClients :: "(cptr list \<Rightarrow> cptr list) \<Rightarrow> string \<Rightarrow> WebSocketHub \<Rightarrow> WebSocketHub outcome" where
  "pingClients shuffle ping h = send_all (Some ping) (shuffle (map snd (ws_clients h))) h"

fun remove_stale :: "cptr list \<Rightarrow> WebSocketHub \<Rightarrow> WebSocketHub outcome" where
  "remove_stale [] h = Continues h"
| "remove_stale (p # ps) h =
     and_then (close_send p (h\<lparr>ws_clients := AList.delete (wc_ID (ws_heap h p)) (ws_clients h)\<rparr>))
       (\<lambda>h'. remove_stale ps (close_conn p h'))"

definition cleanupStaleConnections :: "(cptr list \<Rightarrow> cptr list) \<Rightarrow> instant \<Rightarrow> WebSocketHub \<Rightarrow> WebSocketHub outcome" where
  "cleanupStaleConnections shuffle now h =
     remove_stale (filter (\<lambda>p. now - wc_LastPing (ws_heap h p) > 2 * minute_ns) (shuffle (map snd (ws_clients h)))) h"

section \<open>Other goroutines\<close>

definition ClientIDForUser :: "int \<Rightarrow> string" where
  "ClientIDForUser userID = ''user-'' @ itoa userID"

definition ClientIDForAdmin :: "int \<Rightarrow> string" where
  "ClientIDForAdmin adminID = ''admin-'' @ itoa adminID"

text \<open>A broadcast looks the client up under the lock and sends after releasing it.\<close>

definition lookup_and_send :: "string \<Rightarrow> string option \<Rightarrow> WebSocketHub \<Rightarrow> WebSocketHub" where
  "lookup_and_send cid data h =
     (case map_of (ws_clients h) cid of None \<Rightarrow> h | Some p \<Rightarrow> h\<lparr>ws_senders := ws_senders h @ [(p, data)]\<rparr>)"

definition BroadcastToUser :: "int \<Rightarrow> string option \<Rightarrow> WebSocketHub \<Rightarrow> WebSocketHub" where
  "BroadcastToUser userID data h = lookup_and_send (ClientIDForUser userID) data h"

definition BroadcastToAdmin :: "int \<Rightarrow> string option \<Rightarrow> WebSocketHub \<Rightarrow> WebSocketHub" where
  "BroadcastToAdmin adminID data h = lookup_and_send (ClientIDForAdmin adminID) data h"

definition BroadcastToAllUsers :: "string option \<Rightarrow> WebSocketHub \<Rightarrow> WebSocketHub" where
  "BroadcastToAllUsers data h =
     h\<lparr>ws_senders := ws_senders h @ map (\<lambda>p. (p, data)) (filter (\<lambda>p. wc_UserID (ws_heap h p) \<noteq> None) (map snd (ws_clients h)))\<rparr>"

definition BroadcastToAllAdmins :: "string option \<Rightarrow> WebSocketHub \<Rightarrow> WebSocketHub" where
  "BroadcastToAllAdmins data h =
     h\<lparr>ws_senders := ws_senders h @ map (\<lambda>p. (p, data)) (filter (\<lambda>p. wc_AdminID (ws_heap h p) \<noteq> None) (map snd (ws_clients h)))\<rparr>"

definition run_sender :: "nat \<Rightarrow> WebSocketHub \<Rightarrow> WebSocketHub outcome" where
  "run_sender i h =
     (let (p, data) = ws_senders h ! i
      in sendToClient data p (h\<lparr>ws_senders := take i (ws_senders h) @ drop (Suc i) (ws_senders h)\<rparr>))"

text \<open>A client's reader notes a pong, and on a read error unregisters the client and closes the connection.\<close>

definition read_pong :: "instant \<Rightarrow> cptr \<Rightarrow> WebSocketHub \<Rightarrow> WebSocketHub" where
  "read_pong now p h = set_client p (\<lambda>c. c\<lparr>wc_LastPing := now\<rparr>) h"

definition read_error :: "cptr \<Rightarrow> WebSocketHub \<Rightarrow> WebSocketHub outcome" where
  "read_error p h = and_then (UnregisterClient p h) (\<lambda>h'. Continues (close_conn p h'))"

text \<open>
  A client's writer sends what is buffered as one message and ends, closing the connection, when the
  message cannot be begun (one entry is lost) or completed; when the channel is closed and empty it ends
  too.
\<close>

datatype write_result = Written | NoWriter | CloseFailed

definition write_pump :: "write_result \<Rightarrow> cptr \<Rightarrow> WebSocketHub \<Rightarrow> WebSocketHub outcome" where
  "write_pump res p h =
     (if wc_Send (ws_heap h p) \<noteq> [] then
        Continues
          (case res of
             Written \<Rightarrow> set_client p (\<lambda>c. c\<lparr>wc_Send := []\<rparr>) h
           | NoWriter \<Rightarrow> close_conn p (set_client p (\<lambda>c. c\<lparr>wc_Send := tl (wc_Send c)\<rparr>) h)
           | CloseFailed \<Rightarrow> close_conn p (set_client p (\<lambda>c. c\<lparr>wc_Send := []\<rparr>) h))
      else if wc_closed (ws_heap h p) then Continues (close_conn p h)
      else Blocks)"

definition StopWebSocketHub :: "WebSocketHub \<Rightarrow> WebSocketHub outcome" where
  "StopWebSocketHub h =
     (if ws_done h then Panics
      else Continues (fold close_conn (map snd (ws_clients h)) (h\<lparr>ws_done := True\<rparr>)))"

definition GetConnectedCount :: "WebSocketHub \<Rightarrow> nat" where
  "GetConnectedCount h = length (ws_clients h)"

definition GetConnectedUserCount :: "WebSocketHub \<Rightarrow> nat" where
  "GetConnectedUserCount h = length (filter (\<lambda>(cid, p). wc_UserID (ws_heap h p) \<noteq> None) (ws_clients h))"

definition GetConnectedAdminCount :: "WebSocketHub \<Rightarrow> nat" where
  "GetConnectedAdminCount h = length (filter (\<lambda>(cid, p). wc_AdminID (ws_heap h p) \<noteq> None) (ws_clients h))"

definition IsUserConnected :: "int \<Rightarrow> WebSocketHub \<Rightarrow> bool" where
  "IsUserConnected userID h \<longleftrightarrow> map_of (ws_clients h) (ClientIDForUser userID) \<noteq> None"

definition IsAdminConnected :: "int \<Rightarrow> WebSocketHub \<Rightarrow> bool" where
  "IsAdminConnected adminID h \<longleftrightarrow> map_of (ws_clients h) (ClientIDForAdmin adminID) \<noteq> None"

section \<open>The goroutines together\<close>

text \<open>
  All the goroutines: the hub's cases in any order, new connections, broadcasts, readers and writers. \<open>R\<close> are the clients whose
  reader runs: it starts with the connection and ends with the read error, when it unregisters the client. \<open>busy\<close> are the
  clients a goroutine still has to do with: they have a reader, are in the table or in a channel, or a broadcast is about to send
  to them. A new connection brings a client that is neither busy nor closed; \<open>admit\<close> says when an account may connect.
\<close>

definition busy :: "WebSocketHub \<Rightarrow> cptr set \<Rightarrow> cptr set" where
  "busy h R = R \<union> set (ws_register h) \<union> set (ws_unregister h) \<union> snd ` set (ws_clients h) \<union> fst ` set (ws_senders h)"

lemma busy_parts: "set (ws_register h) \<subseteq> busy h R" "snd ` set (ws_clients h) \<subseteq> busy h R" "fst ` set (ws_senders h) \<subseteq> busy h R"
  by (auto simp: busy_def)

definition order_ok :: "(cptr list \<Rightarrow> cptr list) \<Rightarrow> bool" where
  "order_ok shuffle \<longleftrightarrow> (\<forall>ps. mset (shuffle ps) = mset ps)"

inductive ws_step :: "(WebSocketHub \<Rightarrow> cptr set \<Rightarrow> cptr \<Rightarrow> bool) \<Rightarrow> WebSocketHub \<times> cptr set \<Rightarrow> WebSocketHub \<times> cptr set \<Rightarrow> bool"
  for admit where
  register: "hub_register h = Continues h' \<Longrightarrow> ws_step admit (h, R) (h', R)"
| unregister: "hub_unregister h = Continues h' \<Longrightarrow> ws_step admit (h, R) (h', R)"
| broadcast: "order_ok sh \<Longrightarrow> hub_broadcast sh h = Continues h' \<Longrightarrow> ws_step admit (h, R) (h', R)"
| ping: "order_ok sh \<Longrightarrow> pingClients sh m h = Continues h' \<Longrightarrow> ws_step admit (h, R) (h', R)"
| cleanup: "order_ok sh \<Longrightarrow> cleanupStaleConnections sh now h = Continues h' \<Longrightarrow> ws_step admit (h, R) (h', R)"
| connect: "admit h R p \<Longrightarrow> \<not> wc_closed (ws_heap h p) \<Longrightarrow> p \<notin> busy h R \<Longrightarrow> RegisterClient p h = Continues h' \<Longrightarrow>
    ws_step admit (h, R) (h', insert p R)"
| announce: "length (ws_broadcast h) < broadcast_cap \<Longrightarrow> ws_step admit (h, R) (h\<lparr>ws_broadcast := ws_broadcast h @ [m]\<rparr>, R)"
| send_one: "ws_step admit (h, R) (lookup_and_send cid data h, R)"
| send_users: "ws_step admit (h, R) (BroadcastToAllUsers data h, R)"
| send_admins: "ws_step admit (h, R) (BroadcastToAllAdmins data h, R)"
| sender: "i < length (ws_senders h) \<Longrightarrow> run_sender i h = Continues h' \<Longrightarrow> ws_step admit (h, R) (h', R)"
| pong: "ws_step admit (h, R) (read_pong now p h, R)"
| disconnect: "p \<in> R \<Longrightarrow> read_error p h = Continues h' \<Longrightarrow> ws_step admit (h, R) (h', R - {p})"
| flush: "write_pump res p h = Continues h' \<Longrightarrow> ws_step admit (h, R) (h', R)"
| shutdown: "StopWebSocketHub h = Continues h' \<Longrightarrow> ws_step admit (h, R) (h', R)"

text \<open>Two rules for new connections: the account has no busy client, or only none whose connection is open.\<close>

definition settled :: "WebSocketHub \<Rightarrow> cptr set \<Rightarrow> cptr \<Rightarrow> bool" where
  "settled h R p \<longleftrightarrow> (\<forall>q\<in>busy h R. wc_ID (ws_heap h q) \<noteq> wc_ID (ws_heap h p))"

definition disconnected :: "WebSocketHub \<Rightarrow> cptr set \<Rightarrow> cptr \<Rightarrow> bool" where
  "disconnected h R p \<longleftrightarrow> (\<forall>q\<in>busy h R. wc_ID (ws_heap h q) = wc_ID (ws_heap h p) \<longrightarrow> \<not> wc_conn_open (ws_heap h q))"

section \<open>One busy client per account\<close>

definition one_per_account :: "WebSocketHub \<Rightarrow> cptr set \<Rightarrow> bool" where
  "one_per_account h R \<longleftrightarrow> inj_on (\<lambda>p. wc_ID (ws_heap h p)) (busy h R)"

definition ws_inv :: "WebSocketHub \<Rightarrow> cptr set \<Rightarrow> bool" where
  "ws_inv h R \<longleftrightarrow> one_per_account h R \<and> distinct (map fst (ws_clients h)) \<and>
     (\<forall>e \<in> set (ws_clients h). fst e = wc_ID (ws_heap h (snd e)) \<and> \<not> wc_closed (ws_heap h (snd e))) \<and>
     distinct (ws_register h) \<and> (\<forall>p \<in> set (ws_register h). \<not> wc_closed (ws_heap h p)) \<and>
     set (ws_register h) \<inter> snd ` set (ws_clients h) = {}"

text \<open>What most steps leave alone; \<open>P\<close> are clients that may be queued for removal or sent to.\<close>

definition frame :: "cptr set \<Rightarrow> WebSocketHub \<Rightarrow> WebSocketHub \<Rightarrow> bool" where
  "frame P h h' \<longleftrightarrow> (\<forall>p. wc_ID (ws_heap h' p) = wc_ID (ws_heap h p) \<and> wc_closed (ws_heap h' p) = wc_closed (ws_heap h p)) \<and>
     ws_clients h' = ws_clients h \<and> ws_register h' = ws_register h \<and>
     set (ws_unregister h') \<subseteq> set (ws_unregister h) \<union> P \<and> fst ` set (ws_senders h') \<subseteq> fst ` set (ws_senders h) \<union> P"

lemma frame_refl [simp]: "frame P h h"
  by (simp add: frame_def)

lemma frame_trans [trans]: "frame P h h1 \<Longrightarrow> frame P h1 h2 \<Longrightarrow> frame P h h2"
proof -
  assume a: "frame P h h1" and b: "frame P h1 h2"
  have "set (ws_unregister h2) \<subseteq> set (ws_unregister h) \<union> P" "fst ` set (ws_senders h2) \<subseteq> fst ` set (ws_senders h) \<union> P"
    using a b unfolding frame_def by blast+
  with a b show ?thesis by (simp add: frame_def)
qed

lemma frame_mono: "frame P h h' \<Longrightarrow> P \<subseteq> Q \<Longrightarrow> frame Q h h'"
  unfolding frame_def by blast

lemma frame_inv: "frame P h h' \<Longrightarrow> ws_inv h R \<Longrightarrow> P \<subseteq> busy h R \<Longrightarrow> R' \<subseteq> R \<Longrightarrow> ws_inv h' R'"
proof -
  assume f: "frame P h h'" and i: "ws_inv h R" and s: "P \<subseteq> busy h R" "R' \<subseteq> R"
  have u: "set (ws_unregister h') \<subseteq> set (ws_unregister h) \<union> P" "fst ` set (ws_senders h') \<subseteq> fst ` set (ws_senders h) \<union> P"
    and c: "ws_clients h' = ws_clients h" "ws_register h' = ws_register h"
    and ids: "\<And>p. wc_ID (ws_heap h' p) = wc_ID (ws_heap h p)" "\<And>p. wc_closed (ws_heap h' p) = wc_closed (ws_heap h p)"
    using f by (simp_all add: frame_def)
  have "busy h' R' \<subseteq> busy h R \<union> P" using u s(2) c unfolding busy_def by (intro Un_least) auto
  with s(1) have "busy h' R' \<subseteq> busy h R" by blast
  with i show ?thesis unfolding ws_inv_def one_per_account_def c ids by (blast intro: inj_on_subset)
qed

lemma frame_set_client:
  "(\<And>c. wc_ID (f c) = wc_ID c \<and> wc_closed (f c) = wc_closed c) \<Longrightarrow> frame P h (set_client p f h)"
  by (simp add: frame_def set_client_def)

lemma frame_close_conn [simp]: "frame P h (close_conn p h)"
  unfolding close_conn_def by (rule frame_set_client) simp

lemma frame_unregister: "UnregisterClient p h = Continues h' \<Longrightarrow> frame {p} h h'"
  by (auto simp: UnregisterClient_def frame_def split: if_splits)

lemma and_then_Continues: "and_then x f = Continues y \<longleftrightarrow> (\<exists>z. x = Continues z \<and> f z = Continues y)"
  by (cases x) auto

lemma and_then_Panics: "and_then x f = Panics \<longleftrightarrow> x = Panics \<or> (\<exists>z. x = Continues z \<and> f z = Panics)"
  by (cases x) auto

lemma frame_send: "sendToClient data p h = Continues h' \<Longrightarrow> frame {p} h h'"
proof -
  have "frame {p} h (set_client p (\<lambda>c. c\<lparr>wc_Send := wc_Send c @ [d]\<rparr>) h)" for d by (rule frame_set_client) simp
  moreover assume "sendToClient data p h = Continues h'"
  ultimately show ?thesis
    by (auto simp: sendToClient_def and_then_Continues split: option.splits if_splits
        intro: frame_trans [OF frame_unregister frame_close_conn])
qed

lemma frame_send_all: "send_all data ps h = Continues h' \<Longrightarrow> frame (set ps) h h'"
proof (induction ps arbitrary: h)
  case (Cons p ps)
  then obtain h1 where h1: "sendToClient data p h = Continues h1" "send_all data ps h1 = Continues h'"
    by (auto simp: and_then_Continues)
  have "frame (set (p # ps)) h h1" by (rule frame_mono [OF frame_send [OF h1(1)]]) simp
  moreover have "frame (set (p # ps)) h1 h'" by (rule frame_mono [OF Cons.IH [OF h1(2)]]) auto
  ultimately show ?case by (rule frame_trans)
qed simp

lemma frame_disconnect: "read_error p h = Continues h' \<Longrightarrow> frame {p} h h'"
  by (auto simp: read_error_def and_then_Continues intro: frame_trans [OF frame_unregister frame_close_conn])

lemma frame_write: "write_pump res p h = Continues h' \<Longrightarrow> frame {} h h'"
  by (auto simp: write_pump_def frame_def set_client_def close_conn_def split: if_splits write_result.splits)

lemma frame_stop: "StopWebSocketHub h = Continues h' \<Longrightarrow> frame {} h h'"
proof -
  have "frame {} h (fold close_conn ps h)" for ps h
    by (induction ps arbitrary: h) (auto intro: frame_trans [OF frame_close_conn])
  moreover have "frame {} h (h\<lparr>ws_done := True\<rparr>)" by (simp add: frame_def)
  ultimately show "StopWebSocketHub h = Continues h' \<Longrightarrow> frame {} h h'"
    by (auto simp: StopWebSocketHub_def split: if_splits intro: frame_trans)
qed

lemma frame_sender:
  assumes "i < length (ws_senders h)" "run_sender i h = Continues h'"
  shows "frame (fst ` set (ws_senders h)) h h'"
proof -
  obtain p d where e: "ws_senders h ! i = (p, d)" by fastforce
  let ?h = "h\<lparr>ws_senders := take i (ws_senders h) @ drop (Suc i) (ws_senders h)\<rparr>"
  have p: "p \<in> fst ` set (ws_senders h)" using nth_mem [OF assms(1)] e by force
  have "set (take i (ws_senders h) @ drop (Suc i) (ws_senders h)) \<subseteq> set (ws_senders h)"
    by (auto dest: in_set_takeD in_set_dropD)
  then have "frame (fst ` set (ws_senders h)) h ?h" by (auto simp: frame_def)
  also have "frame (fst ` set (ws_senders h)) ?h h'"
    using assms(2) p by (intro frame_mono [OF frame_send [of d p]]) (auto simp: run_sender_def e)
  finally show ?thesis .
qed

lemma frame_broadcast: "order_ok sh \<Longrightarrow> hub_broadcast sh h = Continues h' \<Longrightarrow> frame (snd ` set (ws_clients h)) h h'"
proof -
  assume o: "order_ok sh" and b: "hub_broadcast sh h = Continues h'"
  have "set (sh (map snd (ws_clients h))) = snd ` set (ws_clients h)"
    using o mset_eq_setD [of "sh (map snd (ws_clients h))" "map snd (ws_clients h)"] by (simp add: order_ok_def)
  with b show ?thesis
    by (auto simp: hub_broadcast_def broadcastToAll_def split: list.splits dest!: frame_send_all) (simp add: frame_def)
qed

text \<open>Removing a client the table holds closes its channel for the first time and keeps the invariant.\<close>

lemma remove_client:
  assumes "ws_inv h R" "p \<in> snd ` set (ws_clients h)"
  defines "h1 \<equiv> h\<lparr>ws_clients := AList.delete (wc_ID (ws_heap h p)) (ws_clients h)\<rparr>"
  shows "close_send p h1 = Continues (set_client p (\<lambda>c. c\<lparr>wc_closed := True\<rparr>) h1)"
    and "ws_inv (set_client p (\<lambda>c. c\<lparr>wc_closed := True\<rparr>) h1) R"
    and "snd ` set (ws_clients h1) = snd ` set (ws_clients h) - {p}"
proof -
  let ?g = "set_client p (\<lambda>c. c\<lparr>wc_closed := True\<rparr>) h1"
  have e: "fst e = wc_ID (ws_heap h (snd e)) \<and> \<not> wc_closed (ws_heap h (snd e))" if "e \<in> set (ws_clients h)" for e
    using assms(1) that by (simp add: ws_inv_def)
  have one: "inj_on (\<lambda>p. wc_ID (ws_heap h p)) (busy h R)" using assms(1) by (simp add: ws_inv_def one_per_account_def)
  have inj: "wc_ID (ws_heap h q) = wc_ID (ws_heap h p) \<Longrightarrow> q \<in> snd ` set (ws_clients h) \<Longrightarrow> q = p" for q
    by (rule inj_onD [OF one]) (use assms(2) in \<open>auto simp: busy_def\<close>)
  have set1: "set (ws_clients h1) = {e \<in> set (ws_clients h). fst e \<noteq> wc_ID (ws_heap h p)}"
    by (auto simp: h1_def AList.delete_eq)
  have "fst x = wc_ID (ws_heap h p) \<longleftrightarrow> snd x = p" if "x \<in> set (ws_clients h)" for x
    using e [OF that] inj [of "snd x"] that by auto
  with set1 have set2: "set (ws_clients h1) = {e \<in> set (ws_clients h). snd e \<noteq> p}" by auto
  show "close_send p h1 = Continues ?g"
    using assms(2) e by (auto simp: close_send_def h1_def)
  show img: "snd ` set (ws_clients h1) = snd ` set (ws_clients h) - {p}" unfolding set2 by blast
  have g: "wc_ID (ws_heap ?g q) = wc_ID (ws_heap h q)" "wc_closed (ws_heap ?g q) \<longleftrightarrow> q = p \<or> wc_closed (ws_heap h q)"
    "ws_clients ?g = ws_clients h1" "ws_register ?g = ws_register h" for q by (simp_all add: set_client_def h1_def)
  have "busy ?g R \<subseteq> busy h R" using img by (auto simp: busy_def set_client_def h1_def)
  then have "inj_on (\<lambda>p. wc_ID (ws_heap h p)) (busy ?g R)" using one by (rule inj_on_subset [rotated])
  moreover have "p \<notin> set (ws_register h)" using assms(1,2) by (auto simp: ws_inv_def)
  moreover have "distinct (map fst (ws_clients h1))" using assms(1) by (simp add: h1_def ws_inv_def AList.distinct_delete)
  moreover have "distinct (ws_register h)" "\<forall>q \<in> set (ws_register h). \<not> wc_closed (ws_heap h q)"
    "set (ws_register h) \<inter> snd ` set (ws_clients h) = {}" using assms(1) by (simp_all add: ws_inv_def)
  ultimately show "ws_inv ?g R"
    unfolding ws_inv_def one_per_account_def g img using e set2 by auto
qed

lemma hub_unregister_ok:
  assumes "ws_inv h R"
  shows "hub_unregister h \<noteq> Panics \<and> (hub_unregister h = Continues h' \<longrightarrow> ws_inv h' R)"
proof (cases "ws_unregister h")
  case (Cons p ps)
  let ?h = "h\<lparr>ws_unregister := ps\<rparr>"
  have f: "frame {} h ?h" using Cons by (auto simp: frame_def)
  have i: "ws_inv ?h R" using frame_inv [OF f assms] by simp
  show ?thesis
  proof (cases "map_of (ws_clients h) (wc_ID (ws_heap h p))")
    case None
    with Cons i show ?thesis by (auto simp: hub_unregister_def)
  next
    case (Some q)
    then have m: "(wc_ID (ws_heap h p), q) \<in> set (ws_clients h)" by (rule map_of_SomeD)
    then have "wc_ID (ws_heap h p) = wc_ID (ws_heap h q)" using assms by (fastforce simp: ws_inv_def)
    moreover have "p \<in> busy h R" "q \<in> busy h R" using Cons m by (force simp: busy_def)+
    ultimately have "p = q" using assms by (auto simp: ws_inv_def one_per_account_def dest: inj_onD)
    with m have "p \<in> snd ` set (ws_clients ?h)" by force
    from remove_client [OF i this] Cons Some show ?thesis by (auto simp: hub_unregister_def Let_def)
  qed
qed (simp add: hub_unregister_def)

lemma remove_stale_ok:
  "ws_inv h R \<Longrightarrow> distinct ps \<Longrightarrow> set ps \<subseteq> snd ` set (ws_clients h) \<Longrightarrow>
     remove_stale ps h \<noteq> Panics \<and> (remove_stale ps h = Continues h' \<longrightarrow> ws_inv h' R)"
proof (induction ps arbitrary: h)
  case (Cons p ps)
  let ?h = "h\<lparr>ws_clients := AList.delete (wc_ID (ws_heap h p)) (ws_clients h)\<rparr>"
  let ?g = "close_conn p (set_client p (\<lambda>c. c\<lparr>wc_closed := True\<rparr>) ?h)"
  have "p \<in> snd ` set (ws_clients h)" using Cons.prems(3) by simp
  note r = remove_client [OF Cons.prems(1) this]
  have "set ps \<subseteq> snd ` set (ws_clients ?g)"
    using r(3) Cons.prems(2,3) by (auto simp: close_conn_def set_client_def)
  with Cons.IH [of ?g] Cons.prems(2) frame_inv [OF frame_close_conn [of "{}"] r(2)] r(1) show ?case by simp
qed auto

lemma ws_inv_values: "ws_inv h R \<Longrightarrow> distinct (map snd (ws_clients h))"
proof -
  assume "ws_inv h R"
  then have "distinct (map fst (ws_clients h))" "\<forall>e \<in> set (ws_clients h). fst e = wc_ID (ws_heap h (snd e))"
    by (auto simp: ws_inv_def)
  then have "map fst (ws_clients h) = map (\<lambda>p. wc_ID (ws_heap h p)) (map snd (ws_clients h))" by auto
  with \<open>distinct (map fst (ws_clients h))\<close> show ?thesis by (metis distinct_map)
qed

lemma order_ok_list: "order_ok sh \<Longrightarrow> set (sh ps) = set ps \<and> distinct (sh ps) = distinct ps"
  unfolding order_ok_def by (metis mset_eq_imp_distinct_iff mset_eq_setD)

lemma cleanup_ok:
  assumes "ws_inv h R" "order_ok sh"
  shows "cleanupStaleConnections sh now h \<noteq> Panics \<and> (cleanupStaleConnections sh now h = Continues h' \<longrightarrow> ws_inv h' R)"
proof -
  have "distinct (sh (map snd (ws_clients h)))" "set (sh (map snd (ws_clients h))) = snd ` set (ws_clients h)"
    using order_ok_list [OF assms(2), of "map snd (ws_clients h)"] ws_inv_values [OF assms(1)] by auto
  then show ?thesis unfolding cleanupStaleConnections_def by (intro remove_stale_ok [OF assms(1)]) auto
qed

lemma send_no_panic: "\<not> wc_closed (ws_heap h p) \<Longrightarrow> sendToClient data p h \<noteq> Panics"
  by (auto simp: sendToClient_def and_then_Panics UnregisterClient_def split: option.splits)

lemma send_all_no_panic: "\<forall>p \<in> set ps. \<not> wc_closed (ws_heap h p) \<Longrightarrow> send_all data ps h \<noteq> Panics"
proof (induction ps arbitrary: h)
  case (Cons p ps)
  then show ?case using send_no_panic [of h p data] frame_send [of data p h]
    by (auto simp: and_then_Panics frame_def)
qed simp

lemma table_open: "ws_inv h R \<Longrightarrow> order_ok sh \<Longrightarrow> \<forall>p \<in> set (sh (map snd (ws_clients h))). \<not> wc_closed (ws_heap h p)"
  using order_ok_list [of sh "map snd (ws_clients h)"] by (auto simp: ws_inv_def)

lemma update_fresh: "k \<notin> fst ` set al \<Longrightarrow> AList.update k v al = al @ [(k, v)]"
  by (induction al) auto

lemma hub_register_inv:
  assumes "ws_inv h R" "hub_register h = Continues h'"
  shows "ws_inv h' R"
proof -
  from assms(2) obtain p ps where r: "ws_register h = p # ps"
    "h' = h\<lparr>ws_register := ps, ws_clients := AList.update (wc_ID (ws_heap h p)) p (ws_clients h)\<rparr>"
    by (auto simp: hub_register_def split: list.splits)
  have one: "inj_on (\<lambda>p. wc_ID (ws_heap h p)) (busy h R)" using assms(1) by (simp add: ws_inv_def one_per_account_def)
  have new: "wc_ID (ws_heap h p) \<notin> fst ` set (ws_clients h)"
  proof
    assume "wc_ID (ws_heap h p) \<in> fst ` set (ws_clients h)"
    then obtain e where e: "e \<in> set (ws_clients h)" "fst e = wc_ID (ws_heap h p)" by auto
    moreover from this have "wc_ID (ws_heap h (snd e)) = wc_ID (ws_heap h p)" using assms(1) by (simp add: ws_inv_def)
    moreover have "snd e \<in> busy h R" "p \<in> busy h R" using e(1) r(1) by (auto simp: busy_def)
    ultimately have "snd e = p" using one by (auto dest: inj_onD)
    with e r(1) assms(1) show False by (auto simp: ws_inv_def)
  qed
  note table = update_fresh [OF this, of p]
  have "busy h' R \<subseteq> busy h R" using r by (auto simp: busy_def table)
  then have "one_per_account h' R" using inj_on_subset [OF one] r(2) by (simp add: one_per_account_def)
  moreover have "ws_clients h' = ws_clients h @ [(wc_ID (ws_heap h p), p)]" "ws_register h' = ps" "ws_heap h' = ws_heap h"
    by (simp_all add: r(2) table)
  ultimately show ?thesis using assms(1) r(1) new unfolding ws_inv_def by auto
qed

lemma connect_inv:
  assumes "ws_inv h R" "settled h R p" "\<not> wc_closed (ws_heap h p)" "p \<notin> busy h R" "RegisterClient p h = Continues h'"
  shows "ws_inv h' (insert p R)"
proof -
  have h': "h' = h\<lparr>ws_register := ws_register h @ [p]\<rparr>" using assms(5) by (simp add: RegisterClient_def split: if_splits)
  have b: "busy h' (insert p R) = insert p (busy h R)" by (auto simp: h' busy_def)
  have "inj_on (\<lambda>p. wc_ID (ws_heap h p)) (insert p (busy h R))"
    using assms(1,2,4) by (auto simp: ws_inv_def one_per_account_def settled_def)
  with assms(1,3,4) show ?thesis unfolding ws_inv_def one_per_account_def b by (auto simp: h' busy_def)
qed

lemma ws_step_inv: "ws_step settled s s' \<Longrightarrow> ws_inv (fst s) (snd s) \<Longrightarrow> ws_inv (fst s') (snd s')"
proof (induction rule: ws_step.induct)
  case (register h h' R)
  then show ?case using hub_register_inv by simp
next
  case (unregister h h' R)
  then show ?case using hub_unregister_ok by simp
next
  case (cleanup sh now h h' R)
  then show ?case using cleanup_ok by simp
next
  case (connect h R p h')
  then show ?case using connect_inv by simp
next
  case (broadcast sh h h' R)
  then show ?case using frame_inv [OF frame_broadcast, of sh h h' R R] busy_parts by simp
next
  case (ping sh m h h' R)
  then have "frame (set (sh (map snd (ws_clients h)))) h h'" unfolding pingClients_def by (intro frame_send_all)
  then have "frame (snd ` set (ws_clients h)) h h'" using order_ok_list [OF ping(1), of "map snd (ws_clients h)"] by simp
  from frame_inv [OF this, of R R] ping(3) busy_parts show ?case by simp
next
  case (sender i h h' R)
  then show ?case using frame_inv [OF frame_sender, of i h h' R R] busy_parts by simp
next
  case (disconnect p R h h')
  then show ?case using frame_inv [OF frame_disconnect, of p h h' R "R - {p}"] by (auto simp: busy_def)
next
  case (flush res p h h' R)
  then show ?case using frame_inv [OF frame_write, of res p h h' R R] by simp
next
  case (shutdown h h' R)
  then show ?case using frame_inv [OF frame_stop, of h h' R R] by simp
next
  case (pong h R now p)
  have "frame {} h (read_pong now p h)" by (simp add: read_pong_def frame_set_client)
  from frame_inv [OF this, of R R] pong show ?case by simp
next
  case (send_one h R cid data)
  have "frame (snd ` set (ws_clients h)) h (lookup_and_send cid data h)"
    by (auto simp: lookup_and_send_def frame_def rev_image_eqI dest!: map_of_SomeD split: option.splits)
  from frame_inv [OF this, of R R] send_one busy_parts show ?case by simp
next
  case (announce h R m)
  have "frame {} h (h\<lparr>ws_broadcast := ws_broadcast h @ [m]\<rparr>)" by (simp add: frame_def)
  from frame_inv [OF this, of R R] announce show ?case by simp
next
  case (send_users h R data)
  have "frame (snd ` set (ws_clients h)) h (BroadcastToAllUsers data h)" by (force simp: frame_def BroadcastToAllUsers_def)
  from frame_inv [OF this, of R R] send_users busy_parts show ?case by simp
next
  case (send_admins h R data)
  have "frame (snd ` set (ws_clients h)) h (BroadcastToAllAdmins data h)" by (force simp: frame_def BroadcastToAllAdmins_def)
  from frame_inv [OF this, of R R] send_admins busy_parts show ?case by simp
qed

text \<open>
  C39. As long as an account connects again only after the hub and all goroutines are through with its former client (it is not in the
  table or in a channel, its reader has ended, no broadcast is about to send to it), the hub's goroutine never panics: in
  every interleaving of connections, disconnections, broadcasts, pings, clean-ups and writers, whatever
  the order in which the hub serves its channels, the next registration, unregistration, broadcast,
  ping round or clean-up neither closes a channel twice nor sends into a closed one, and every client
  in the table is open and listed under its own id. It is not enough that the former connection is closed (\<open>hub_reconnect_panics\<close>).
\<close>

theorem hub_never_panics:
  assumes "(ws_step settled)\<^sup>*\<^sup>* (NewWebSocketHub heap, {}) (h, R)" "order_ok shuffle"
  shows "hub_register h \<noteq> Panics \<and> hub_unregister h \<noteq> Panics \<and> hub_broadcast shuffle h \<noteq> Panics \<and>
    pingClients shuffle m h \<noteq> Panics \<and> cleanupStaleConnections shuffle now h \<noteq> Panics \<and>
    (\<forall>(k, p) \<in> set (ws_clients h). k = wc_ID (ws_heap h p) \<and> \<not> wc_closed (ws_heap h p))"
proof -
  have "ws_inv (fst (NewWebSocketHub heap, {})) (snd (NewWebSocketHub heap, {}))"
    by (simp add: ws_inv_def NewWebSocketHub_def one_per_account_def busy_def)
  with assms(1) have "ws_inv (fst (h, R)) (snd (h, R))" by (rule rtranclp_induct) (auto intro: ws_step_inv)
  then have inv: "ws_inv h R" by simp
  have b: "hub_broadcast shuffle h \<noteq> Panics"
    using send_all_no_panic [OF table_open [OF inv assms(2)]] send_all_no_panic [of _ "h\<lparr>ws_broadcast := _\<rparr>"]
      table_open [OF inv assms(2)] by (auto simp: hub_broadcast_def broadcastToAll_def split: list.splits)
  have p: "pingClients shuffle m h \<noteq> Panics"
    unfolding pingClients_def by (rule send_all_no_panic [OF table_open [OF inv assms(2)]])
  have r: "hub_register h \<noteq> Panics" by (simp add: hub_register_def split: list.splits)
  show ?thesis
    using b p r hub_unregister_ok [OF inv] cleanup_ok [OF inv assms(2)] inv by (auto simp: ws_inv_def)
qed

definition user_client :: "int \<Rightarrow> WebSocketClient" where
  "user_client n = \<lparr>wc_ID = ClientIDForUser n, wc_UserID = Some n, wc_AdminID = None, wc_LastPing = 0, wc_Send = [],
     wc_closed = False, wc_conn_open = True\<rparr>"

lemma order_ok_id: "order_ok (\<lambda>ps. ps)"
  by (simp add: order_ok_def)

text \<open>Every client is a connection of the same account.\<close>

definition two_tabs :: "cptr \<Rightarrow> WebSocketClient" where
  "two_tabs p = user_client 7"

lemma ws_run_step [trans]: "(ws_step admit)\<^sup>*\<^sup>* h h1 \<Longrightarrow> ws_step admit h1 h2 \<Longrightarrow> (ws_step admit)\<^sup>*\<^sup>* h h2"
  by (rule rtranclp.rtrancl_into_rtrancl)

text \<open>An account that connects, disconnects, is unregistered and connects again, the hub then cleans up.\<close>

theorem hub_never_panics_witness:
  "\<exists>h. (ws_step settled)\<^sup>*\<^sup>* (NewWebSocketHub two_tabs, {}) (h, {1}) \<and> ws_clients h = [(''user-7'', 1)] \<and>
     cleanupStaleConnections (\<lambda>ps. ps) (3 * minute_ns) h \<noteq> Panics"
proof -
  let ?n = "NewWebSocketHub two_tabs" and ?id = "wc_ID (user_client 7)"
  let ?off = "two_tabs(0 := (user_client 7)\<lparr>wc_conn_open := False\<rparr>)"
  let ?gone = "two_tabs(0 := (user_client 7)\<lparr>wc_closed := True, wc_conn_open := False\<rparr>)"
  let ?last = "?n\<lparr>ws_heap := ?gone, ws_clients := [(?id, 1)]\<rparr>"
  note defs = NewWebSocketHub_def two_tabs_def user_client_def busy_def settled_def
  have "(ws_step settled)\<^sup>*\<^sup>* (?n, {}) (?n, {})" by simp
  also have "ws_step settled \<dots> (?n\<lparr>ws_register := [0]\<rparr>, {0})"
    by (rule ws_step.connect [of _ _ _ 0]) (simp_all add: defs RegisterClient_def register_cap_def)
  also have "ws_step settled \<dots> (?n\<lparr>ws_clients := [(?id, 0)]\<rparr>, {0})"
    by (rule ws_step.register) (simp add: hub_register_def defs)
  also have "ws_step settled \<dots> (?n\<lparr>ws_heap := ?off, ws_clients := [(?id, 0)], ws_unregister := [0]\<rparr>, {0} - {0})"
    by (rule ws_step.disconnect)
      (simp_all add: read_error_def UnregisterClient_def unregister_cap_def close_conn_def set_client_def defs fun_eq_iff)
  also have "ws_step settled \<dots> (?n\<lparr>ws_heap := ?gone\<rparr>, {0} - {0})"
    by (rule ws_step.unregister) (simp add: hub_unregister_def close_send_def set_client_def defs fun_eq_iff)
  also have "ws_step settled \<dots> (?n\<lparr>ws_heap := ?gone, ws_register := [1]\<rparr>, insert 1 ({0} - {0}))"
    by (rule ws_step.connect [of _ _ _ 1]) (simp_all add: defs RegisterClient_def register_cap_def)
  also have "ws_step settled \<dots> (?last, insert 1 ({0} - {0}))"
    by (rule ws_step.register) (simp add: hub_register_def defs)
  finally have r: "(ws_step settled)\<^sup>*\<^sup>* (?n, {}) (?last, {1})" by simp
  have "ws_clients ?last = [(''user-7'', 1)]" by (simp add: user_client_def) (simp add: ClientIDForUser_def, code_simp)
  with r hub_never_panics [OF r order_ok_id] show ?thesis by blast
qed

section \<open>Two connections of one account\<close>

text \<open>
  Two connections of one account bring the server down, also one after the other: the table is keyed by the account, so
  that unregistering a connection whose account has connected again removes the new entry and closes
  the old channel a second time. From an empty hub: the account connects, goes silent and is cleaned
  up, the reader of this connection unregisters it, the account connects again, without any open connection by then, and is
  registered first; the hub's goroutine panics at the unregistration, which ends the process.
\<close>

lemma hub_reconnect_panics:
  "\<exists>h R. (ws_step disconnected)\<^sup>*\<^sup>* (NewWebSocketHub two_tabs, {}) (h, R) \<and> hub_unregister h = Panics"
proof -
  let ?n = "NewWebSocketHub two_tabs" and ?id = "wc_ID (user_client 7)"
  let ?gone = "two_tabs(0 := (user_client 7)\<lparr>wc_closed := True, wc_conn_open := False\<rparr>)"
  let ?last = "?n\<lparr>ws_heap := ?gone, ws_unregister := [0], ws_clients := [(?id, 1)]\<rparr>"
  note defs = NewWebSocketHub_def two_tabs_def user_client_def busy_def disconnected_def
  have "(ws_step disconnected)\<^sup>*\<^sup>* (?n, {}) (?n, {})" by simp
  also have "ws_step disconnected \<dots> (?n\<lparr>ws_register := [0]\<rparr>, {0})"
    by (rule ws_step.connect [of _ _ _ 0]) (simp_all add: defs RegisterClient_def register_cap_def)
  also have "ws_step disconnected \<dots> (?n\<lparr>ws_clients := [(?id, 0)]\<rparr>, {0})"
    by (rule ws_step.register) (simp add: hub_register_def defs)
  also have "ws_step disconnected \<dots> (?n\<lparr>ws_heap := ?gone\<rparr>, {0})"
    by (rule ws_step.cleanup [OF order_ok_id, of "3 * minute_ns"])
      (simp add: cleanupStaleConnections_def close_send_def set_client_def close_conn_def defs unit_defs fun_eq_iff)
  also have "ws_step disconnected \<dots> (?n\<lparr>ws_heap := ?gone, ws_unregister := [0]\<rparr>, {0} - {0})"
    by (rule ws_step.disconnect)
      (simp_all add: read_error_def UnregisterClient_def unregister_cap_def close_conn_def set_client_def defs fun_eq_iff)
  also have "ws_step disconnected \<dots> (?n\<lparr>ws_heap := ?gone, ws_unregister := [0], ws_register := [1]\<rparr>, insert 1 ({0} - {0}))"
    by (rule ws_step.connect [of _ _ _ 1]) (simp_all add: defs RegisterClient_def register_cap_def)
  also have "ws_step disconnected \<dots> (?last, insert 1 ({0} - {0}))"
    by (rule ws_step.register) (simp add: hub_register_def defs)
  finally have "(ws_step disconnected)\<^sup>*\<^sup>* (?n, {}) (?last, insert 1 ({0} - {0}))" .
  moreover have "hub_unregister ?last = Panics" by (simp add: hub_unregister_def close_send_def defs)
  ultimately show ?thesis by blast
qed

text \<open>Every pointer with an id of its own.\<close>

definition own_ids :: "cptr \<Rightarrow> WebSocketClient" where
  "own_ids p = (user_client 7)\<lparr>wc_ID := replicate p (CHR ''c'')\<rparr>"

section \<open>Full channels\<close>

definition full :: "WebSocketHub \<Rightarrow> cptr \<Rightarrow> bool" where
  "full h p \<longleftrightarrow> send_cap \<le> length (wc_Send (ws_heap h p))"

lemma send_all_blocks:
  "distinct ps \<Longrightarrow> \<forall>p \<in> set ps. \<not> wc_closed (ws_heap h p) \<Longrightarrow> length (ws_unregister h) \<le> unregister_cap \<Longrightarrow>
     unregister_cap < length (ws_unregister h) + length (filter (full h) ps) \<Longrightarrow> send_all (Some d) ps h = Blocks"
proof (induction ps arbitrary: h)
  case (Cons p ps)
  show ?case
  proof (cases "full h p")
    case True
    show ?thesis
    proof (cases "length (ws_unregister h) < unregister_cap")
      case room: True
      let ?h = "close_conn p (h\<lparr>ws_unregister := ws_unregister h @ [p]\<rparr>)"
      have s: "sendToClient (Some d) p h = Continues ?h"
        using True room Cons.prems(2) by (simp add: sendToClient_def full_def UnregisterClient_def)
      have f: "wc_closed (ws_heap ?h q) = wc_closed (ws_heap h q)" "full ?h q = full h q" "ws_unregister ?h = ws_unregister h @ [p]" for q
        by (simp_all add: close_conn_def set_client_def full_def)
      have "send_all (Some d) ps ?h = Blocks"
        by (rule Cons.IH) (use Cons.prems True room in \<open>simp_all add: f\<close>)
      with s show ?thesis by simp
    qed (use True Cons.prems in \<open>simp add: sendToClient_def full_def UnregisterClient_def\<close>)
  next
    case False
    let ?h = "set_client p (\<lambda>c. c\<lparr>wc_Send := wc_Send c @ [d]\<rparr>) h"
    have s: "sendToClient (Some d) p h = Continues ?h"
      using False Cons.prems(2) by (simp add: sendToClient_def full_def)
    have f: "wc_closed (ws_heap ?h q) = wc_closed (ws_heap h q)" "q \<noteq> p \<Longrightarrow> full ?h q = full h q" "ws_unregister ?h = ws_unregister h" for q
      by (simp_all add: set_client_def full_def)
    have "full ?h q = full h q" if "q \<in> set ps" for q using that Cons.prems(1) f(2) [of q] by (cases "q = p") simp_all
    then have "filter (full ?h) ps = filter (full h) ps" by (intro filter_cong) simp_all
    then have "send_all (Some d) ps ?h = Blocks"
      by (intro Cons.IH) (use Cons.prems False in \<open>simp_all add: f\<close>)
    with s show ?thesis by simp
  qed
qed simp

text \<open>
  The hub can wait for itself forever: a ping round (or a broadcast) asks for the removal of
  every client whose buffer is full by a send into the hub's own unregister channel, which has room for
  ten and which only the hub's goroutine empties. Whenever more clients than there is room for have full
  buffers, the round blocks, and with it every registration, removal and broadcast.
\<close>

lemma hub_blocks_itself:
  assumes "ws_inv h R" "order_ok shuffle" "length (ws_unregister h) \<le> unregister_cap"
    "unregister_cap < length (ws_unregister h) + length (filter (full h) (map snd (ws_clients h)))"
  shows "pingClients shuffle m h = Blocks \<and> broadcastToAll shuffle (Some m) h = Blocks"
proof -
  let ?ps = "shuffle (map snd (ws_clients h))"
  have "mset ?ps = mset (map snd (ws_clients h))" using assms(2) by (simp only: order_ok_def)
  then have "length (filter (full h) ?ps) = length (filter (full h) (map snd (ws_clients h)))"
    by (metis mset_filter size_mset)
  then have "send_all (Some m) ?ps h = Blocks"
    using assms order_ok_list [OF assms(2), of "map snd (ws_clients h)"] ws_inv_values [OF assms(1)] table_open [OF assms(1,2)]
    by (intro send_all_blocks) simp_all
  then show ?thesis by (simp add: pingClients_def broadcastToAll_def)
qed

text \<open>Eleven clients that have stopped reading.\<close>

definition eleven_full :: WebSocketHub where
  "eleven_full = (NewWebSocketHub (\<lambda>p. (own_ids p)\<lparr>wc_Send := replicate 256 ''m''\<rparr>))
     \<lparr>ws_clients := map (\<lambda>p. (replicate p (CHR ''c''), p)) [0..<11]\<rparr>"

lemma hub_blocks_itself_example: "pingClients (\<lambda>ps. ps) ''ping'' eleven_full = Blocks"
proof -
  have "map snd (ws_clients eleven_full) = [0..<11]" by (simp add: eleven_full_def comp_def)
  moreover have "full eleven_full p" for p by (simp add: full_def eleven_full_def NewWebSocketHub_def send_cap_def)
  moreover have "ws_unregister eleven_full = []" by (simp add: eleven_full_def NewWebSocketHub_def)
  moreover have "ws_inv eleven_full {}"
    by (auto simp: ws_inv_def one_per_account_def eleven_full_def NewWebSocketHub_def own_ids_def user_client_def
        distinct_map inj_on_def replicate_eq_replicate)
  ultimately show ?thesis using hub_blocks_itself [OF _ order_ok_id, of eleven_full] by (simp add: unregister_cap_def)
qed

end
