(* ===== verification/Go_Net.thy ===== *)
theory Go_Net
  imports Go_Prelude "HOL-Library.Word"
begin

text \<open>
  What the components use of Go's package \<^verbatim>\<open>net\<close>: splitting \<open>host:port\<close>, parsing IPv4 and IPv6
  addresses and CIDR blocks, and membership of an address in a block. An address is the byte slice the
  package uses, of 4 or 16 bytes; the lemmas at the end show that membership, computed byte by byte
  with a mask, is agreement of the two addresses on the leading bits.
\<close>

unbundle bit_operations_syntax

type_synonym byte = "8 word"

type_synonym IP = "byte list"

section \<open>SplitHostPort\<close>

text \<open>\<open>last_colon s\<close> splits at the last colon: what stands in front of it and what is behind it.\<close>

definition last_colon :: "string \<Rightarrow> (string \<times> string) option" where
  "last_colon s =
     (if CHR '':'' \<in> set s
      then Some (rev (tl (dropWhile (\<lambda>c. c \<noteq> CHR '':'') (rev s))),
                 rev (takeWhile (\<lambda>c. c \<noteq> CHR '':'') (rev s)))
      else None)"

text \<open>
  With a leading bracket the first closing bracket must stand right before the last colon; a further
  opening bracket anywhere behind position 0, or a closing one behind the first, is an error.
\<close>

definition SplitHostPort :: "string \<Rightarrow> (string \<times> string) option" where
  "SplitHostPort s =
     (case last_colon s of
        None \<Rightarrow> None
      | Some (front, port) \<Rightarrow>
          (case s of
             c # r \<Rightarrow>
               if c = CHR ''['' then
                 (if CHR '']'' \<notin> set r then None
                  else
                    (let host = takeWhile (\<lambda>x. x \<noteq> CHR '']'') r;
                         behind = tl (dropWhile (\<lambda>x. x \<noteq> CHR '']'') r)
                     in if behind \<noteq> CHR '':'' # port then None
                        else if CHR ''['' \<in> set r \<or> CHR '']'' \<in> set behind then None
                        else Some (host, port)))
               else
                 (if CHR '':'' \<in> set front \<or> CHR ''['' \<in> set s \<or> CHR '']'' \<in> set s then None
                  else Some (front, port))
           | [] \<Rightarrow> None))"

section \<open>Addresses\<close>

text \<open>An IPv4 octet: one to three digits, no leading zero, at most 255.\<close>

definition octet :: "string \<Rightarrow> byte option" where
  "octet p =
     (if p = [] \<or> \<not> list_all is_digit p \<or> (1 < length p \<and> hd p = CHR ''0'') \<or> 255 < digits_val p then None
      else Some (word_of_int (digits_val p)))"

text \<open>All the results of a list of partial results, or none.\<close>

fun collect :: "'a option list \<Rightarrow> 'a list option" where
  "collect [] = Some []"
| "collect (None # xs) = None"
| "collect (Some x # xs) = map_option ((#) x) (collect xs)"

definition parseIPv4 :: "string \<Rightarrow> IP option" where
  "parseIPv4 s =
     (let ps = split_char (CHR ''.'') s in if length ps = 4 then collect (map octet ps) else None)"

definition hex_val :: "char \<Rightarrow> nat option" where
  "hex_val c =
     (let n = (of_char c :: nat) in
        if 48 \<le> n \<and> n \<le> 57 then Some (n - 48)
        else if 97 \<le> n \<and> n \<le> 102 then Some (n - 87)
        else if 65 \<le> n \<and> n \<le> 70 then Some (n - 55)
        else None)"

text \<open>The longest hexadecimal prefix: its value, its length and the rest.\<close>

fun hex_prefix :: "nat \<Rightarrow> nat \<Rightarrow> string \<Rightarrow> nat \<times> nat \<times> string" where
  "hex_prefix acc off [] = (acc, off, [])"
| "hex_prefix acc off (c # s) =
     (case hex_val c of
        None \<Rightarrow> (acc, off, c # s)
      | Some d \<Rightarrow> hex_prefix (16 * acc + d) (Suc off) s)"

text \<open>
  The loop over the groups of an IPv6 address: the bytes so far, the position of the ellipsis and
  what is left. At most eight groups are read; \<open>fuel\<close> counts them. A group has one to four digits; an
  embedded IPv4 address ends the address and must fill exactly the last four bytes or follow an
  ellipsis. The result is the bytes, the position of the ellipsis and the unread rest.
\<close>

fun ipv6_groups :: "nat \<Rightarrow> IP \<Rightarrow> nat option \<Rightarrow> string \<Rightarrow> (IP \<times> nat option \<times> string) option" where
  "ipv6_groups 0 bs ell s = Some (bs, ell, s)"
| "ipv6_groups (Suc fuel) bs ell s =
     (let (acc, off, r) = hex_prefix 0 0 s in
        if off = 0 \<or> 4 < off then None
        else if r \<noteq> [] \<and> hd r = CHR ''.'' then
          (if (ell = None \<and> length bs \<noteq> 12) \<or> 16 < length bs + 4 then None
           else (case parseIPv4 s of None \<Rightarrow> None | Some v4 \<Rightarrow> Some (bs @ v4, ell, [])))
        else
          (let bs' = bs @ [word_of_nat (acc div 256), word_of_nat (acc mod 256)] in
             case r of
               [] \<Rightarrow> Some (bs', ell, [])
             | c # r' \<Rightarrow>
                 if c \<noteq> CHR '':'' then None
                 else (case r' of
                     [] \<Rightarrow> None
                   | c' # r'' \<Rightarrow>
                       if c' = CHR '':'' then
                         (if ell \<noteq> None then None
                          else if r'' = [] then Some (bs', Some (length bs'), [])
                          else ipv6_groups fuel bs' (Some (length bs')) r'')
                       else ipv6_groups fuel bs' ell r')))"

text \<open>The ellipsis expands to at least one group of zeros.\<close>

definition parseIPv6 :: "string \<Rightarrow> IP option" where
  "parseIPv6 s =
     (if s = ''::'' then Some (replicate 16 0)
      else
        (let (ell, s') = (if take 2 s = ''::'' then (Some 0, drop 2 s) else (None, s)) in
           case ipv6_groups 8 [] ell s' of
             None \<Rightarrow> None
           | Some (bs, ell', rest) \<Rightarrow>
               if rest \<noteq> [] then None
               else if length bs < 16 then
                 (case ell' of
                    None \<Rightarrow> None
                  | Some e \<Rightarrow> Some (take e bs @ replicate (16 - length bs) 0 @ drop e bs))
               else if ell' \<noteq> None then None
               else Some bs))"

text \<open>
  The first of the characters \<open>.\<close>, \<open>:\<close> and \<open>%\<close> decides the family. An address with a zone is
  never the value of \<open>ParseIP\<close> or \<open>ParseCIDR\<close>, so a percent sign anywhere is an error.
\<close>

definition parseAddr :: "string \<Rightarrow> IP option" where
  "parseAddr s =
     (case find (\<lambda>c. c \<in> {CHR ''.'', CHR '':'', CHR ''%''}) s of
        None \<Rightarrow> None
      | Some c \<Rightarrow>
          if c = CHR ''.'' then parseIPv4 s
          else if c = CHR '':'' then (if CHR ''%'' \<in> set s then None else parseIPv6 s)
          else None)"

definition v4_prefix :: IP where
  "v4_prefix = [0, 0, 0, 0, 0, 0, 0, 0, 0, 0, 255, 255]"

definition as16 :: "IP \<Rightarrow> IP" where
  "as16 ip = (if length ip = 4 then v4_prefix @ ip else ip)"

definition ParseIP :: "string \<Rightarrow> IP option" where
  "ParseIP s = map_option as16 (parseAddr s)"

definition To4 :: "IP \<Rightarrow> IP option" where
  "To4 ip =
     (if length ip = 4 then Some ip
      else if length ip = 16 \<and> take 12 ip = v4_prefix then Some (drop 12 ip)
      else None)"

definition ip_Equal :: "IP \<Rightarrow> IP \<Rightarrow> bool" where
  "ip_Equal a b \<longleftrightarrow> as16 a = as16 b"

definition IsLoopback :: "IP \<Rightarrow> bool" where
  "IsLoopback ip = (case To4 ip of Some v4 \<Rightarrow> hd v4 = 127 | None \<Rightarrow> ip = replicate 15 0 @ [1])"

definition IsUnspecified :: "IP \<Rightarrow> bool" where
  "IsUnspecified ip \<longleftrightarrow> ip_Equal ip (replicate 4 0) \<or> ip_Equal ip (replicate 16 0)"

section \<open>CIDR blocks\<close>

record IPNet =
  net_IP :: IP
  net_Mask :: IP

definition mask_byte :: "nat \<Rightarrow> byte" where
  "mask_byte k = push_bit (8 - k) (mask k)"

fun CIDRMask :: "nat \<Rightarrow> nat \<Rightarrow> IP" where
  "CIDRMask ones 0 = []"
| "CIDRMask ones (Suc len) = mask_byte (min 8 ones) # CIDRMask (ones - 8) len"

definition ip_Mask :: "IP \<Rightarrow> IP \<Rightarrow> IP" where
  "ip_Mask ip m =
     (let ip' = (if length m = 4 \<and> length ip = 16 \<and> take 12 ip = v4_prefix then drop 12 ip else ip)
      in map2 (\<lambda>a b. a AND b) ip' m)"

text \<open>\<open>dtoi\<close>: decimal digits below the package's bound, and nothing else behind them.\<close>

definition dtoi :: "string \<Rightarrow> nat option" where
  "dtoi s = (if s = [] \<or> \<not> list_all is_digit s \<or> 16777215 \<le> digits_val s then None else Some (nat (digits_val s)))"

definition ParseCIDR :: "string \<Rightarrow> IPNet option" where
  "ParseCIDR s =
     (case cut_char (CHR ''/'') s of
        (addr, Some m) \<Rightarrow>
          (case (parseAddr addr, dtoi m) of
             (Some a, Some n) \<Rightarrow>
               if 8 * length a < n then None
               else Some \<lparr>net_IP = ip_Mask (as16 a) (CIDRMask n (length a)), net_Mask = CIDRMask n (length a)\<rparr>
           | _ \<Rightarrow> None)
      | (_, None) \<Rightarrow> None)"

definition network_number :: "IPNet \<Rightarrow> IP \<times> IP" where
  "network_number n =
     (let ip = (case To4 (net_IP n) of Some v4 \<Rightarrow> v4 | None \<Rightarrow> net_IP n);
          m = (if length (net_Mask n) = 16 \<and> length ip = 4 then drop 12 (net_Mask n) else net_Mask n)
      in (ip, m))"

definition net_Contains :: "IPNet \<Rightarrow> IP \<Rightarrow> bool" where
  "net_Contains n ip =
     (let (nn, m) = network_number n;
          x = (case To4 ip of Some v4 \<Rightarrow> v4 | None \<Rightarrow> ip)
      in length x = length nn \<and> list_all (\<lambda>(a, b, c). a AND b = c AND b) (zip nn (zip m x)))"

section \<open>Lengths\<close>

lemma collect_length: "collect xs = Some ys \<Longrightarrow> length ys = length xs"
  by (induction xs arbitrary: ys rule: collect.induct) auto

lemma parseIPv4_length: "parseIPv4 s = Some a \<Longrightarrow> length a = 4"
  by (auto simp: parseIPv4_def Let_def dest: collect_length split: if_splits)

lemma ipv6_groups_length:
  "ipv6_groups fuel bs ell s = Some (bs', ell', r) \<Longrightarrow> length bs + 2 * fuel \<le> 16 \<Longrightarrow> length bs' \<le> 16"
proof (induction fuel arbitrary: bs ell s)
  case (Suc fuel)
  obtain acc off q where h: "hex_prefix 0 0 s = (acc, off, q)" by (cases "hex_prefix 0 0 s")
  note g = Suc.prems(1) [unfolded ipv6_groups.simps h Let_def prod.case]
  show ?case
  proof (cases "q \<noteq> [] \<and> hd q = CHR ''.''")
    case True
    with g show ?thesis by (auto split: if_splits option.splits dest: parseIPv4_length)
  next
    case False
    show ?thesis
    proof (cases q)
      case Nil
      with g False Suc.prems(2) show ?thesis by (auto split: if_splits)
    next
      case (Cons c t)
      with g False Suc.prems(2) show ?thesis
        by (cases t) (auto split: if_splits dest!: Suc.IH)
    qed
  qed
qed simp

lemma parseIPv6_length: "parseIPv6 s = Some a \<Longrightarrow> length a = 16"
  using ipv6_groups_length [of 8 "[]"]
  by (fastforce simp: parseIPv6_def Let_def split: if_splits option.splits)

lemma parseAddr_length: "parseAddr s = Some a \<Longrightarrow> length a = 4 \<or> length a = 16"
  by (auto simp: parseAddr_def dest: parseIPv4_length parseIPv6_length split: option.splits if_splits)

lemma length_v4_prefix [simp]: "length v4_prefix = 12"
  by (simp add: v4_prefix_def)

lemma length_as16: "length a = 4 \<or> length a = 16 \<Longrightarrow> length (as16 a) = 16"
  by (auto simp: as16_def)

lemma ParseIP_length: "ParseIP s = Some a \<Longrightarrow> length a = 16"
  by (auto simp: ParseIP_def length_as16 dest: parseAddr_length)

lemma length_CIDRMask [simp]: "length (CIDRMask ones len) = len"
  by (induction ones len rule: CIDRMask.induct) auto

section \<open>Membership and leading bits\<close>

text \<open>The bits of an address, the most significant one first.\<close>

definition byte_bits :: "byte \<Rightarrow> bool list" where
  "byte_bits b = map (\<lambda>i. bit b (7 - i)) [0..<8]"

definition ip_bits :: "IP \<Rightarrow> bool list" where
  "ip_bits ip = concat (map byte_bits ip)"

lemma ip_bits_simps [simp]: "ip_bits [] = []" "ip_bits (b # bs) = byte_bits b @ ip_bits bs"
  "ip_bits (as @ bs) = ip_bits as @ ip_bits bs"
  by (simp_all add: ip_bits_def)

lemma length_byte_bits [simp]: "length (byte_bits b) = 8"
  by (simp add: byte_bits_def)

lemma length_ip_bits [simp]: "length (ip_bits ip) = 8 * length ip"
  by (induction ip) auto

lemma bit_mask_byte: "k \<le> 8 \<Longrightarrow> bit (mask_byte k) n \<longleftrightarrow> 8 - k \<le> n \<and> n < 8"
  by (auto simp: mask_byte_def bit_simps)

lemma masked_byte:
  assumes "k \<le> 8"
  shows "a AND mask_byte k = c AND mask_byte k \<longleftrightarrow> take k (byte_bits a) = take k (byte_bits c)"
proof -
  have "a AND mask_byte k = c AND mask_byte k \<longleftrightarrow> (\<forall>n. 8 - k \<le> n \<and> n < 8 \<longrightarrow> bit a n = bit c n)"
    using assms by (auto simp: bit_eq_iff bit_and_iff bit_mask_byte)
  also have "\<dots> \<longleftrightarrow> (\<forall>i<k. bit a (7 - i) = bit c (7 - i))"
  proof
    assume e: "\<forall>n. 8 - k \<le> n \<and> n < 8 \<longrightarrow> bit a n = bit c n"
    show "\<forall>i<k. bit a (7 - i) = bit c (7 - i)"
    proof (intro allI impI)
      fix i assume "i < k"
      then have "8 - k \<le> 7 - i" "7 - i < 8" using assms by auto
      with e show "bit a (7 - i) = bit c (7 - i)" by blast
    qed
  next
    assume e: "\<forall>i<k. bit a (7 - i) = bit c (7 - i)"
    show "\<forall>n. 8 - k \<le> n \<and> n < 8 \<longrightarrow> bit a n = bit c n"
    proof (intro allI impI)
      fix n assume "8 - k \<le> n \<and> n < 8"
      then have "7 - n < k" "7 - (7 - n) = n" using assms by auto
      with e show "bit a n = bit c n" by metis
    qed
  qed
  also have "\<dots> \<longleftrightarrow> take k (byte_bits a) = take k (byte_bits c)"
    using assms by (auto simp: byte_bits_def take_map list_eq_iff_nth_eq)
  finally show ?thesis .
qed

text \<open>The same comparison as a division: the masked parts agree iff the numbers agree above the unmasked bits.\<close>

lemma masked_div:
  assumes "k \<le> 8"
  shows "a AND mask_byte k = c AND mask_byte k \<longleftrightarrow> unat a div 2 ^ (8 - k) = unat c div 2 ^ (8 - k)"
proof -
  have "a AND mask_byte k = c AND mask_byte k \<longleftrightarrow> drop_bit (8 - k) a = drop_bit (8 - k) c"
  proof
    assume e: "a AND mask_byte k = c AND mask_byte k"
    show "drop_bit (8 - k) a = drop_bit (8 - k) c"
    proof (rule bit_eqI)
      fix n assume "possible_bit TYPE(byte) n"
      have "bit (a AND mask_byte k) (8 - k + n) = bit (c AND mask_byte k) (8 - k + n)" using e by simp
      then show "bit (drop_bit (8 - k) a) n = bit (drop_bit (8 - k) c) n"
        using assms by (auto simp: bit_and_iff bit_mask_byte bit_drop_bit_eq not_less dest: bit_imp_le_length)
    qed
  next
    assume e: "drop_bit (8 - k) a = drop_bit (8 - k) c"
    show "a AND mask_byte k = c AND mask_byte k"
    proof (rule bit_eqI)
      fix n assume "possible_bit TYPE(byte) n"
      have "8 - k \<le> n \<Longrightarrow> bit a n = bit c n"
        using arg_cong [OF e, of "\<lambda>w. bit w (n - (8 - k))"] by (simp add: bit_drop_bit_eq)
      then show "bit (a AND mask_byte k) n = bit (c AND mask_byte k) n"
        using assms by (auto simp: bit_and_iff bit_mask_byte)
    qed
  qed
  also have "\<dots> \<longleftrightarrow> unat (drop_bit (8 - k) a) = unat (drop_bit (8 - k) c)"
    by (rule word_eq_iff_unsigned)
  also have "\<dots> \<longleftrightarrow> unat a div 2 ^ (8 - k) = unat c div 2 ^ (8 - k)"
    by (simp only: unat_drop_bit_eq) (simp only: drop_bit_eq_div)
  finally show ?thesis .
qed
text \<open>The comparison of \<open>net_Contains\<close> on slices of equal length.\<close>

lemma masked_prefix:
  "length as = len \<Longrightarrow> length cs = len \<Longrightarrow>
     list_all (\<lambda>(a, b, c). a AND b = c AND b) (zip as (zip (CIDRMask ones len) cs))
     \<longleftrightarrow> take ones (ip_bits as) = take ones (ip_bits cs)"
proof (induction ones len arbitrary: as cs rule: CIDRMask.induct)
  case (2 ones len)
  obtain a as' c cs' where s: "as = a # as'" "cs = c # cs'" using 2 by (cases as; cases cs) auto
  have "take ones (byte_bits a @ ip_bits as') = take ones (byte_bits c @ ip_bits cs')
     \<longleftrightarrow> take (min 8 ones) (byte_bits a) = take (min 8 ones) (byte_bits c)
         \<and> take (ones - 8) (ip_bits as') = take (ones - 8) (ip_bits cs')"
    by (cases "ones \<le> 8") (auto simp: min_def)
  with 2 s show ?case by (simp add: masked_byte)
qed simp

lemma masked_network:
  assumes "length as = len" "length cs = len"
  shows "list_all (\<lambda>(a, b, c). a AND b = c AND b)
      (zip (map2 (\<lambda>a b. a AND b) as (CIDRMask ones len)) (zip (CIDRMask ones len) cs))
    \<longleftrightarrow> take ones (ip_bits as) = take ones (ip_bits cs)"
proof -
  have "list_all (\<lambda>(a, b, c). a AND b = c AND b) (zip (map2 (\<lambda>a b. a AND b) as ms) (zip ms cs))
      = list_all (\<lambda>(a, b, c). a AND b = c AND b) (zip as (zip ms cs))" if "length as = length ms" for ms
    using that by (induction as ms arbitrary: cs rule: list_induct2) (auto simp: zip_Cons1 and.assoc split: list.splits)
  from this [of "CIDRMask ones len"] show ?thesis using assms by (simp only: masked_prefix length_CIDRMask)
qed

section \<open>Blocks\<close>

lemma To4_Some: "To4 ip = Some x \<Longrightarrow> length x = 4 \<and> as16 ip = v4_prefix @ x"
  by (auto simp: To4_def as16_def split: if_splits) (metis append_take_drop_id)+

lemma To4_None: "To4 ip = None \<Longrightarrow> length ip = 4 \<or> length ip = 16 \<Longrightarrow> length ip = 16 \<and> as16 ip = ip"
  by (auto simp: To4_def as16_def split: if_splits)

lemma ip_Mask_v4: "length a = 4 \<Longrightarrow> length m = 4 \<Longrightarrow> ip_Mask (as16 a) m = map2 (\<lambda>a b. a AND b) a m"
  by (simp add: ip_Mask_def as16_def)

lemma ip_Mask_v6: "length a = 16 \<Longrightarrow> length m = 16 \<Longrightarrow> ip_Mask (as16 a) m = map2 (\<lambda>a b. a AND b) a m"
  by (simp add: ip_Mask_def as16_def)

definition same_masked :: "IP \<Rightarrow> IP \<Rightarrow> IP \<Rightarrow> bool" where
  "same_masked as ms cs \<longleftrightarrow> list_all (\<lambda>(a, b, c). a AND b = c AND b) (zip as (zip ms cs))"

lemma same_masked_refl: "same_masked as ms as"
proof (induction as arbitrary: ms)
  case (Cons a as)
  then show ?case by (cases ms) (auto simp: same_masked_def)
qed (simp add: same_masked_def)

lemma same_masked_split:
  "same_masked as ms cs \<longleftrightarrow> same_masked (take n as) (take n ms) (take n cs) \<and> same_masked (drop n as) (drop n ms) (drop n cs)"
proof -
  let ?z = "zip as (zip ms cs)" and ?P = "\<lambda>(a :: byte, b, c). a AND b = c AND b"
  have "list_all ?P (take n ?z @ drop n ?z) \<longleftrightarrow> list_all ?P (take n ?z) \<and> list_all ?P (drop n ?z)"
    by (rule list_all_append)
  then show ?thesis unfolding same_masked_def append_take_drop_id by (simp only: take_zip drop_zip)
qed

text \<open>
  A block contains exactly the addresses of its family that agree with it on the leading bits, both
  taken as 16-byte addresses; a block and an address are of the same family when both or none of them
  is an IPv4 address, mapped ones included.
\<close>

lemma net_Contains_bits:
  assumes a: "length a = 4 \<or> length a = 16"
    and n: "n = \<lparr>net_IP = ip_Mask (as16 a) (CIDRMask k (length a)), net_Mask = CIDRMask k (length a)\<rparr>"
    and ip: "length ip = 4 \<or> length ip = 16"
  shows "net_Contains n ip \<longleftrightarrow>
    (To4 ip = None \<longleftrightarrow> To4 (net_IP n) = None) \<and>
    take (128 - 8 * length a + k) (ip_bits (as16 a)) = take (128 - 8 * length a + k) (ip_bits (as16 ip))"
  using a
proof
  assume l: "length a = 4"
  let ?w = "map2 (\<lambda>a b. a AND b) a (CIDRMask k 4)"
  have w: "net_IP n = ?w" "net_Mask n = CIDRMask k 4" using l by (simp_all add: n ip_Mask_v4)
  have t: "To4 ?w = Some ?w" using l by (simp add: To4_def)
  show ?thesis
  proof (cases "To4 ip")
    case None
    then show ?thesis using To4_None [OF None ip] t l w by (simp add: net_Contains_def network_number_def)
  next
    case (Some x)
    have "take (96 + k) (ip_bits (as16 a)) = take (96 + k) (ip_bits (as16 ip)) \<longleftrightarrow> take k (ip_bits a) = take k (ip_bits x)"
      using To4_Some [OF Some] l by (simp add: as16_def)
    then show ?thesis using To4_Some [OF Some] Some t l w masked_network [of a 4 x k]
      by (simp add: net_Contains_def network_number_def)
  qed
next
  assume l: "length a = 16"
  let ?m = "CIDRMask k 16"
  let ?w = "map2 (\<lambda>a b. a AND b) a ?m"
  have w: "net_IP n = ?w" "net_Mask n = ?m" "length ?w = 16" using l by (simp_all add: n ip_Mask_v6)
  have full: "same_masked ?w ?m x \<longleftrightarrow> take k (ip_bits a) = take k (ip_bits x)" if "length x = 16" for x
    using masked_network [of a 16 x k] l that by (simp add: same_masked_def)
  have a16: "as16 a = a" using l by (simp add: as16_def)
  show ?thesis
  proof (cases "To4 ?w")
    case None
    then show ?thesis
    proof (cases "To4 ip")
      case (Some x)
      with None To4_Some [OF Some] w show ?thesis by (simp add: net_Contains_def network_number_def)
    next
      case n4: None
      with None To4_None [OF n4 ip] full [of ip] a16 l w show ?thesis
        by (simp add: net_Contains_def network_number_def same_masked_def)
    qed
  next
    case (Some y)
    have y: "y = drop 12 ?w" "take 12 ?w = v4_prefix" using Some w(3) by (auto simp: To4_def split: if_splits)
    show ?thesis
    proof (cases "To4 ip")
      case None
      with Some w To4_None [OF None ip] To4_Some [OF Some] show ?thesis by (simp add: net_Contains_def network_number_def)
    next
      case s4: (Some x)
      note x = To4_Some [OF s4]
      have "same_masked ?w ?m (as16 ip) \<longleftrightarrow> same_masked y (drop 12 ?m) x"
        using x y same_masked_refl [of v4_prefix] by (subst same_masked_split [of _ _ _ 12]) simp
      moreover have "net_Contains n ip \<longleftrightarrow> same_masked y (drop 12 ?m) x"
        using Some s4 x w To4_Some [OF Some] by (simp add: net_Contains_def network_number_def same_masked_def)
      ultimately show ?thesis using full [of "as16 ip"] x a16 Some s4 w l by simp
    qed
  qed
qed

lemma ParseCIDR_Some:
  assumes "ParseCIDR s = Some n"
  obtains addr m a k where "cut_char (CHR ''/'') s = (addr, Some m)" "parseAddr addr = Some a" "dtoi m = Some k"
    "k \<le> 8 * length a" "n = \<lparr>net_IP = ip_Mask (as16 a) (CIDRMask k (length a)), net_Mask = CIDRMask k (length a)\<rparr>"
  using assms by (fastforce simp: ParseCIDR_def split: prod.splits option.splits if_splits)

end
