(* ===== verification/Config.thy ===== *)
theory Config
  imports Go_Net
begin

text \<open>
  The settings of \<^verbatim>\<open>server.yml\<close> and their validation: \<^verbatim>\<open>src/config/validate.go\<close>,
  \<^verbatim>\<open>src/config/server_settings.go\<close>, \<^verbatim>\<open>src/config/bool.go\<close> and the language, I2P and robots
  policy parts of \<^verbatim>\<open>src/config/config.go\<close>. A configuration is a record with the settings these
  files read or replace; sections that no modelled operation touches (branding, database, privacy
  texts and the like) are left out. The functions that mutate a configuration through a pointer
  return it; the warnings they print on stderr are left out.
\<close>

section \<open>Boolean words\<close>

definition truthyValues :: "string list" where
  "truthyValues = [''1'', ''y'', ''t'', ''yes'', ''true'', ''on'', ''ok'', ''enable'', ''enabled'', ''yep'',
     ''yup'', ''yeah'', ''aye'', ''si'', ''oui'', ''da'', ''hai'', ''affirmative'', ''accept'', ''allow'',
     ''grant'', ''sure'', ''totally'']"

definition falsyValues :: "string list" where
  "falsyValues = [''0'', ''n'', ''f'', ''no'', ''false'', ''off'', ''disable'', ''disabled'', ''nope'', ''nah'',
     ''nay'', ''nein'', ''non'', ''niet'', ''iie'', ''lie'', ''negative'', ''reject'', ''block'', ''revoke'',
     ''deny'', ''never'', ''noway'']"

text \<open>The error carries the offending word.\<close>

definition ParseBool :: "string \<Rightarrow> bool \<Rightarrow> string + bool" where
  "ParseBool s defaultVal =
     (let w = trimSpace (toLower s) in
        if w = [] then Inr defaultVal
        else if in_table truthyValues w then Inr True
        else if in_table falsyValues w then Inr False
        else Inl w)"

text \<open>A panic is \<open>None\<close>.\<close>

definition MustParseBool :: "string \<Rightarrow> bool \<Rightarrow> bool option" where
  "MustParseBool s defaultVal = (case ParseBool s defaultVal of Inl _ \<Rightarrow> None | Inr v \<Rightarrow> Some v)"

definition IsTruthy :: "string \<Rightarrow> bool" where
  "IsTruthy s \<longleftrightarrow> in_table truthyValues (trimSpace (toLower s))"

definition IsFalsy :: "string \<Rightarrow> bool" where
  "IsFalsy s \<longleftrightarrow> in_table falsyValues (trimSpace (toLower s))"

section \<open>Settings\<close>

record LimitsConfig =
  lim_MaxBodySize :: string
  lim_ReadTimeout :: string
  lim_WriteTimeout :: string
  lim_IdleTimeout :: string

definition DefaultLimitsConfig :: LimitsConfig where
  "DefaultLimitsConfig = \<lparr>lim_MaxBodySize = ''10MB'', lim_ReadTimeout = ''30s'', lim_WriteTimeout = ''30s'',
     lim_IdleTimeout = ''120s''\<rparr>"

record CompressionConfig =
  cmp_Enabled :: bool
  cmp_Level :: int
  cmp_Types :: "string list"

definition DefaultCompressionConfig :: CompressionConfig where
  "DefaultCompressionConfig = \<lparr>cmp_Enabled = True, cmp_Level = 5,
     cmp_Types = [''text/html'', ''text/css'', ''text/javascript'', ''application/json'', ''application/xml'']\<rparr>"

record SessionRoleConfig =
  sr_CookieName :: string
  sr_MaxAge :: string
  sr_IdleTimeout :: string

record SessionConfig =
  sc_Admin :: SessionRoleConfig
  sc_User :: SessionRoleConfig
  sc_ExtendOnActivity :: bool
  sc_Secure :: string
  sc_HTTPOnly :: bool
  sc_SameSite :: string

definition DefaultSessionConfig :: SessionConfig where
  "DefaultSessionConfig =
     \<lparr>sc_Admin = \<lparr>sr_CookieName = ''admin_session'', sr_MaxAge = ''30d'', sr_IdleTimeout = ''24h''\<rparr>,
      sc_User = \<lparr>sr_CookieName = ''user_session'', sr_MaxAge = ''7d'', sr_IdleTimeout = ''24h''\<rparr>,
      sc_ExtendOnActivity = True, sc_Secure = ''auto'', sc_HTTPOnly = True, sc_SameSite = ''strict''\<rparr>"

record I18nConfig =
  i18_DefaultLanguage :: string
  i18_Supported :: "string list"

definition DefaultI18nConfig :: I18nConfig where
  "DefaultI18nConfig = \<lparr>i18_DefaultLanguage = ''en'', i18_Supported = [''en'']\<rparr>"

text \<open>Indexing a Go map of strings gives the empty string for an absent key.\<close>

definition string_index :: "(string \<times> string) list \<Rightarrow> string \<Rightarrow> string" where
  "string_index m k = (case map_of m k of Some v \<Rightarrow> v | None \<Rightarrow> [])"

record ContactRoleConfig =
  cr_Email :: string
  cr_Webhooks :: "(string \<times> string) list"

record ContactConfig =
  cc_Admin :: ContactRoleConfig
  cc_Security :: ContactRoleConfig
  cc_Abuse :: ContactRoleConfig
  cc_General :: ContactRoleConfig

definition DefaultContactConfig :: "string \<Rightarrow> ContactConfig" where
  "DefaultContactConfig fqdn =
     \<lparr>cc_Admin = \<lparr>cr_Email = ''admin@'' @ fqdn, cr_Webhooks = []\<rparr>,
      cc_Security = \<lparr>cr_Email = ''security@'' @ fqdn, cr_Webhooks = []\<rparr>,
      cc_Abuse = \<lparr>cr_Email = [], cr_Webhooks = []\<rparr>,
      cc_General = \<lparr>cr_Email = [], cr_Webhooks = []\<rparr>\<rparr>"

definition ResolveContactEmail :: "ContactConfig \<Rightarrow> string \<Rightarrow> string" where
  "ResolveContactEmail c role =
     (if role = ''security'' \<and> cr_Email (cc_Security c) \<noteq> [] then cr_Email (cc_Security c)
      else if role = ''abuse'' \<and> cr_Email (cc_Abuse c) \<noteq> [] then cr_Email (cc_Abuse c)
      else if (role = ''abuse'' \<or> role = ''general'') \<and> cr_Email (cc_General c) \<noteq> [] then cr_Email (cc_General c)
      else cr_Email (cc_Admin c))"

definition ResolveContactWebhook :: "ContactConfig \<Rightarrow> string \<Rightarrow> string \<Rightarrow> string" where
  "ResolveContactWebhook c role transport =
     (let url = (\<lambda>r. string_index (cr_Webhooks r) transport) in
      if role = ''security'' \<and> url (cc_Security c) \<noteq> [] then url (cc_Security c)
      else if role = ''abuse'' \<and> url (cc_Abuse c) \<noteq> [] then url (cc_Abuse c)
      else if (role = ''abuse'' \<or> role = ''general'') \<and> url (cc_General c) \<noteq> [] then url (cc_General c)
      else url (cc_Admin c))"

record TrackingConfig =
  trk_Type :: string
  trk_ID :: string
  trk_URL :: string

definition ValidTrackingTypes :: "string list" where
  "ValidTrackingTypes = [''google'', ''matomo'', ''piwik'', ''owa'', ''fathom'', ''plausible'', ''umami'', ''simple'',
     ''cloudflare'']"

definition trackingTypesRequiringURL :: "string list" where
  "trackingTypesRequiringURL = [''matomo'', ''piwik'', ''owa'', ''umami'']"

record CacheConfig =
  cch_Type :: string
  cch_URL :: string
  cch_Host :: string
  cch_Port :: int
  cch_Username :: string
  cch_Password :: string
  cch_DB :: int
  cch_TLS :: bool
  cch_TLSSkipVerify :: bool
  cch_PoolSize :: int
  cch_MinIdle :: int
  cch_Timeout :: string
  cch_Prefix :: string
  cch_TTL :: string
  cch_Cluster :: bool
  cch_ClusterNodes :: "string list"

definition DefaultCacheConfig :: CacheConfig where
  "DefaultCacheConfig =
     \<lparr>cch_Type = ''memory'', cch_URL = [], cch_Host = ''localhost'', cch_Port = 6379, cch_Username = [],
      cch_Password = [], cch_DB = 0, cch_TLS = False, cch_TLSSkipVerify = False, cch_PoolSize = 10, cch_MinIdle = 2,
      cch_Timeout = ''5s'', cch_Prefix = ''wthr:'', cch_TTL = ''1h'', cch_Cluster = False, cch_ClusterNodes = []\<rparr>"

record RateLimitBucket =
  rb_Requests :: int
  rb_Window :: int

record RateLimitAuthConfig =
  ra_Login :: RateLimitBucket
  ra_PasswordReset :: RateLimitBucket
  ra_Registration :: RateLimitBucket

record RateLimitConfig =
  rl_Enabled :: bool
  rl_Read :: RateLimitBucket
  rl_Write :: RateLimitBucket
  rl_Health :: RateLimitBucket
  rl_GlobalBurst :: int
  rl_Auth :: RateLimitAuthConfig

definition DefaultRateLimitConfig :: RateLimitConfig where
  "DefaultRateLimitConfig =
     \<lparr>rl_Enabled = True, rl_Read = \<lparr>rb_Requests = 120, rb_Window = 60\<rparr>, rl_Write = \<lparr>rb_Requests = 10, rb_Window = 60\<rparr>,
      rl_Health = \<lparr>rb_Requests = 120, rb_Window = 60\<rparr>, rl_GlobalBurst = 240,
      rl_Auth = \<lparr>ra_Login = \<lparr>rb_Requests = 5, rb_Window = 900\<rparr>, ra_PasswordReset = \<lparr>rb_Requests = 3, rb_Window = 3600\<rparr>,
                ra_Registration = \<lparr>rb_Requests = 5, rb_Window = 3600\<rparr>\<rparr>\<rparr>"

record I2PConfig =
  i2p_Enabled :: bool
  i2p_Binary :: string
  i2p_SAMAddress :: string
  i2p_VirtualPort :: int
  i2p_InboundLength :: int
  i2p_OutboundLength :: int
  i2p_InboundQuantity :: int
  i2p_OutboundQuantity :: int
  i2p_SignatureType :: int
  i2p_BootstrapTimeout :: int

definition DefaultI2PConfig :: I2PConfig where
  "DefaultI2PConfig =
     \<lparr>i2p_Enabled = False, i2p_Binary = [], i2p_SAMAddress = ''127.0.0.1:7656'', i2p_VirtualPort = 80,
      i2p_InboundLength = 3, i2p_OutboundLength = 3, i2p_InboundQuantity = 5, i2p_OutboundQuantity = 5,
      i2p_SignatureType = 7, i2p_BootstrapTimeout = 300\<rparr>"

record SecurityConfig =
  sec_EncryptionKey :: string
  sec_EncryptionKeyVersion :: int

text \<open>The robots policy: the overrides are in the order in which a loop over the Go map visits them.\<close>

record AIBotsConfig =
  ab_Default :: string
  ab_Bots :: "(string \<times> string) list"

record RegistrationConfig =
  rg_Mode :: string
  rg_RequireEmailVerification :: bool
  rg_InviteExpirationDays :: int

text \<open>The dynamic type of the port: an \<^verbatim>\<open>int\<close>, a \<^verbatim>\<open>string\<close> or anything else.\<close>

datatype port_value = PortInt int | PortString string | PortOther

record ServerConfig =
  sv_Port :: port_value
  sv_FQDN :: string
  sv_Address :: string
  sv_Mode :: string
  sv_AdminPath :: string
  sv_APIVersion :: string
  sv_BaseURL :: string
  sv_HealthzRoot :: bool
  sv_Lang :: string
  sv_RateLimit :: RateLimitConfig
  sv_I2P :: I2PConfig
  sv_FeatureI2P :: bool
  sv_Security :: SecurityConfig
  sv_TrustedProxies :: "string list"
  sv_Limits :: LimitsConfig
  sv_Compression :: CompressionConfig
  sv_Session :: SessionConfig
  sv_I18n :: I18nConfig
  sv_Contact :: ContactConfig
  sv_Tracking :: TrackingConfig
  sv_Cache :: CacheConfig

record AppConfig =
  ac_Server :: ServerConfig
  ac_RobotsTxt :: string
  ac_SecurityTxt :: string
  ac_AIBots :: AIBotsConfig
  ac_UsersEnabled :: bool
  ac_Registration :: RegistrationConfig

end
