(* ===== verification/Config_Validate.thy ===== *)
theory Config_Validate
  imports Config
begin

text \<open>
  Validation of a loaded configuration, \<^verbatim>\<open>src/config/validate.go\<close>, and of the I2P section and the robots
  policy, \<^verbatim>\<open>src/config/config.go\<close>: every setting out of range is replaced by its default. The theorems
  say which settings hold afterwards and that a configuration already in range is left alone.
\<close>

section \<open>Replacement of bad settings\<close>

text \<open>\<open>randomPort\<close> from the 32 random bits it reads.\<close>

definition randomPort :: "32 word \<Rightarrow> int" where
  "randomPort b = 64000 + uint b mod 1000"

text \<open>A blank string is one that is empty after trimming.\<close>

abbreviation blank :: "string \<Rightarrow> bool" where
  "blank s \<equiv> trimSpace s = []"

definition or_default :: "string \<Rightarrow> string \<Rightarrow> string" where
  "or_default v def = (if blank v then def else v)"

definition port_in_range :: "int \<Rightarrow> bool" where
  "port_in_range n \<longleftrightarrow> 0 \<le> n \<and> n \<le> 65535"

fun isValidPortValue :: "port_value \<Rightarrow> bool" where
  "isValidPortValue (PortInt p) = port_in_range p"
| "isValidPortValue (PortString p) =
     (let parts = split_char (CHR '','') p in
        length parts \<le> 2 \<and>
        list_all (\<lambda>part. case atoi (trimSpace part) of None \<Rightarrow> False | Some n \<Rightarrow> port_in_range n) parts)"
| "isValidPortValue PortOther = False"

definition normalizeBaseURL :: "string \<Rightarrow> string" where
  "normalizeBaseURL raw =
     (let b = trimSpace raw in
        if b = [] then ''/''
        else
          (let b1 = (if prefix ''/'' b then b else CHR ''/'' # b);
               b2 = trim_right_char (CHR ''/'') b1
           in if b2 = [] then ''/'' else b2))"

definition validModes :: "string list" where
  "validModes = [''production'', ''prod'', ''development'', ''devel'', ''dev'', ''debug'']"

definition path_segment_ok :: "string \<Rightarrow> bool" where
  "path_segment_ok s \<longleftrightarrow> \<not> blank s \<and> CHR ''/'' \<notin> set s"

definition validateServerIdentity :: "int \<Rightarrow> ServerConfig \<Rightarrow> ServerConfig \<times> bool" where
  "validateServerIdentity p sv =
     (let replaced = \<not> isValidPortValue (sv_Port sv) in
      (sv\<lparr>sv_Port := (if replaced then PortInt p else sv_Port sv),
          sv_BaseURL := normalizeBaseURL (sv_BaseURL sv),
          sv_Mode := (if in_table validModes (toLower (trimSpace (sv_Mode sv))) then sv_Mode sv else ''production''),
          sv_AdminPath := (if path_segment_ok (sv_AdminPath sv) then sv_AdminPath sv else ''admin''),
          sv_APIVersion := (if path_segment_ok (sv_APIVersion sv) then sv_APIVersion sv else ''v1'')\<rparr>,
       replaced))"

definition validateServerLimits :: "ServerConfig \<Rightarrow> ServerConfig" where
  "validateServerLimits sv =
     (let d = DefaultLimitsConfig; l = sv_Limits sv; c = sv_Compression sv in
      sv\<lparr>sv_Limits := l\<lparr>lim_MaxBodySize := or_default (lim_MaxBodySize l) (lim_MaxBodySize d),
                       lim_ReadTimeout := or_default (lim_ReadTimeout l) (lim_ReadTimeout d),
                       lim_WriteTimeout := or_default (lim_WriteTimeout l) (lim_WriteTimeout d),
                       lim_IdleTimeout := or_default (lim_IdleTimeout l) (lim_IdleTimeout d)\<rparr>,
         sv_Compression := c\<lparr>cmp_Level := (if cmp_Level c < 1 \<or> 9 < cmp_Level c then cmp_Level DefaultCompressionConfig
                                           else cmp_Level c),
                            cmp_Types := (if cmp_Types c = [] then cmp_Types DefaultCompressionConfig
                                          else cmp_Types c)\<rparr>\<rparr>)"

definition validateSessionRole :: "SessionRoleConfig \<Rightarrow> SessionRoleConfig \<Rightarrow> SessionRoleConfig" where
  "validateSessionRole role d =
     role\<lparr>sr_CookieName := or_default (sr_CookieName role) (sr_CookieName d),
          sr_MaxAge := or_default (sr_MaxAge role) (sr_MaxAge d),
          sr_IdleTimeout := or_default (sr_IdleTimeout role) (sr_IdleTimeout d)\<rparr>"

definition sameSiteWords :: "string list" where "sameSiteWords = [''strict'', ''lax'', ''none'']"

definition secureWords :: "string list" where "secureWords = [''auto'', ''true'', ''false'']"

definition validateServerSession :: "ServerConfig \<Rightarrow> ServerConfig" where
  "validateServerSession sv =
     (let d = DefaultSessionConfig; s = sv_Session sv in
      sv\<lparr>sv_Session :=
           s\<lparr>sc_Admin := validateSessionRole (sc_Admin s) (sc_Admin d),
             sc_User := validateSessionRole (sc_User s) (sc_User d),
             sc_SameSite := (if in_table sameSiteWords (toLower (trimSpace (sc_SameSite s))) then sc_SameSite s
                             else sc_SameSite d),
             sc_Secure := (if in_table secureWords (toLower (trimSpace (sc_Secure s))) then sc_Secure s
                           else sc_Secure d),
             sc_HTTPOnly := True\<rparr>\<rparr>)"

definition validateRateLimitBucket :: "RateLimitBucket \<Rightarrow> RateLimitBucket \<Rightarrow> RateLimitBucket" where
  "validateRateLimitBucket b d =
     b\<lparr>rb_Requests := (if rb_Requests b < 1 then rb_Requests d else rb_Requests b),
       rb_Window := (if rb_Window b < 1 then rb_Window d else rb_Window b)\<rparr>"

definition validateServerRateLimit :: "ServerConfig \<Rightarrow> ServerConfig" where
  "validateServerRateLimit sv =
     (let d = DefaultRateLimitConfig; rl = sv_RateLimit sv; a = rl_Auth rl in
      sv\<lparr>sv_RateLimit :=
           rl\<lparr>rl_Read := validateRateLimitBucket (rl_Read rl) (rl_Read d),
              rl_Write := validateRateLimitBucket (rl_Write rl) (rl_Write d),
              rl_Health := validateRateLimitBucket (rl_Health rl) (rl_Health d),
              rl_Auth := a\<lparr>ra_Login := validateRateLimitBucket (ra_Login a) (ra_Login (rl_Auth d)),
                           ra_PasswordReset := validateRateLimitBucket (ra_PasswordReset a) (ra_PasswordReset (rl_Auth d)),
                           ra_Registration := validateRateLimitBucket (ra_Registration a) (ra_Registration (rl_Auth d))\<rparr>,
              rl_GlobalBurst := (if rl_GlobalBurst rl < 1 then rl_GlobalBurst d else rl_GlobalBurst rl)\<rparr>\<rparr>)"

definition validateServerI18n :: "ServerConfig \<Rightarrow> ServerConfig" where
  "validateServerI18n sv =
     (let d = DefaultI18nConfig; i = sv_I18n sv;
          lang = or_default (i18_DefaultLanguage i) (i18_DefaultLanguage d);
          sup = (if i18_Supported i = [] then i18_Supported d else i18_Supported i)
      in sv\<lparr>sv_I18n :=
           (if lang \<in> set sup then i\<lparr>i18_DefaultLanguage := lang, i18_Supported := sup\<rparr>
            else i\<lparr>i18_DefaultLanguage := i18_DefaultLanguage d, i18_Supported := sup @ [i18_DefaultLanguage d]\<rparr>)\<rparr>)"

definition validateServerTracking :: "ServerConfig \<Rightarrow> ServerConfig" where
  "validateServerTracking sv =
     (let t = sv_Tracking sv; kind = toLower (trimSpace (trk_Type t)) in
      sv\<lparr>sv_Tracking := t\<lparr>trk_Type :=
          (if kind = [] \<or> kind = ''none'' then []
           else if \<not> in_table ValidTrackingTypes kind then []
           else if trk_ID t = [] then []
           else if in_table trackingTypesRequiringURL kind \<and> blank (trk_URL t) then []
           else kind)\<rparr>\<rparr>)"

definition cacheTypes :: "string list" where "cacheTypes = [''memory'', ''valkey'', ''redis'']"

definition validateServerCache :: "ServerConfig \<Rightarrow> ServerConfig" where
  "validateServerCache sv =
     (let d = DefaultCacheConfig; c = sv_Cache sv; kind = toLower (trimSpace (cch_Type c));
          pool = (if cch_PoolSize c < 1 then cch_PoolSize d else cch_PoolSize c)
      in sv\<lparr>sv_Cache :=
           c\<lparr>cch_Type := (if in_table cacheTypes kind then kind else cch_Type d),
             cch_Port := (if cch_Port c < 1 \<or> 65535 < cch_Port c then cch_Port d else cch_Port c),
             cch_PoolSize := pool,
             cch_MinIdle := (if cch_MinIdle c < 0 \<or> pool < cch_MinIdle c then cch_MinIdle d else cch_MinIdle c),
             cch_Timeout := or_default (cch_Timeout c) (cch_Timeout d),
             cch_TTL := or_default (cch_TTL c) (cch_TTL d),
             cch_Prefix := or_default (cch_Prefix c) (cch_Prefix d)\<rparr>\<rparr>)"

text \<open>\<open>p\<close> is the port \<open>randomPort\<close> would give.\<close>

definition validateConfig :: "int \<Rightarrow> AppConfig \<Rightarrow> AppConfig \<times> bool" where
  "validateConfig p cfg =
     (let (sv, portReplaced) = validateServerIdentity p (ac_Server cfg);
          sv1 = validateServerLimits sv;
          sv2 = validateServerSession sv1;
          sv3 = validateServerRateLimit sv2;
          sv4 = validateServerI18n sv3;
          sv5 = validateServerTracking sv4;
          sv6 = validateServerCache sv5
      in (cfg\<lparr>ac_Server := sv6\<rparr>, portReplaced))"

section \<open>The I2P section\<close>

definition i2pSignatureTypes :: "int list" where "i2pSignatureTypes = [0, 7]"

record ValidationError =
  ve_Field :: string
  ve_Message :: string

definition bad :: "bool \<Rightarrow> string \<Rightarrow> string \<Rightarrow> ValidationError list" where
  "bad b field msg = (if b then [\<lparr>ve_Field = field, ve_Message = msg\<rparr>] else [])"

definition ValidateI2PConfig :: "I2PConfig option \<Rightarrow> ValidationError list" where
  "ValidateI2PConfig cfg =
     (case cfg of
        None \<Rightarrow> [\<lparr>ve_Field = ''i2p'', ve_Message = ''configuration is missing''\<rparr>]
      | Some c \<Rightarrow>
          bad (i2p_VirtualPort c < 1 \<or> 65535 < i2p_VirtualPort c) ''virtual_port'' ''must be between 1 and 65535'' @
          bad (i2p_InboundLength c < 0 \<or> 7 < i2p_InboundLength c) ''inbound_length'' ''must be between 0 and 7'' @
          bad (i2p_OutboundLength c < 0 \<or> 7 < i2p_OutboundLength c) ''outbound_length'' ''must be between 0 and 7'' @
          bad (i2p_InboundQuantity c < 1 \<or> 16 < i2p_InboundQuantity c) ''inbound_quantity'' ''must be between 1 and 16'' @
          bad (i2p_OutboundQuantity c < 1 \<or> 16 < i2p_OutboundQuantity c) ''outbound_quantity'' ''must be between 1 and 16'' @
          bad (i2p_SignatureType c \<notin> set i2pSignatureTypes) ''signature_type'' ''must be 0 or 7'' @
          bad (i2p_BootstrapTimeout c < 30 \<or> 600 < i2p_BootstrapTimeout c) ''bootstrap_timeout''
            ''must be between 30 and 600 seconds'' @
          bad (\<not> blank (i2p_SAMAddress c) \<and> SplitHostPort (trimSpace (i2p_SAMAddress c)) = None) ''sam_address''
            ''must be a host:port address'')"

definition NormalizeI2PConfig :: "I2PConfig \<Rightarrow> I2PConfig" where
  "NormalizeI2PConfig c =
     (let d = DefaultI2PConfig in
      c\<lparr>i2p_SAMAddress := or_default (i2p_SAMAddress c) (i2p_SAMAddress d),
        i2p_VirtualPort := (if i2p_VirtualPort c < 1 \<or> 65535 < i2p_VirtualPort c then i2p_VirtualPort d
                            else i2p_VirtualPort c),
        i2p_InboundLength := (if i2p_InboundLength c < 0 \<or> 7 < i2p_InboundLength c then i2p_InboundLength d
                              else i2p_InboundLength c),
        i2p_OutboundLength := (if i2p_OutboundLength c < 0 \<or> 7 < i2p_OutboundLength c then i2p_OutboundLength d
                               else i2p_OutboundLength c),
        i2p_InboundQuantity := (if i2p_InboundQuantity c < 1 \<or> 16 < i2p_InboundQuantity c then i2p_InboundQuantity d
                                else i2p_InboundQuantity c),
        i2p_OutboundQuantity := (if i2p_OutboundQuantity c < 1 \<or> 16 < i2p_OutboundQuantity c then i2p_OutboundQuantity d
                                 else i2p_OutboundQuantity c),
        i2p_SignatureType := (if i2p_SignatureType c \<notin> set i2pSignatureTypes then i2p_SignatureType d
                              else i2p_SignatureType c),
        i2p_BootstrapTimeout := (if i2p_BootstrapTimeout c < 30 \<or> 600 < i2p_BootstrapTimeout c then i2p_BootstrapTimeout d
                                 else i2p_BootstrapTimeout c)\<rparr>)"

section \<open>The robots policy\<close>

definition RecognizedAIBots :: "string list" where
  "RecognizedAIBots = [''GPTBot'', ''ChatGPT-User'', ''ClaudeBot'', ''anthropic-ai'', ''Claude-Web'', ''CCBot'',
     ''Google-Extended'', ''Bytespider'', ''PerplexityBot'', ''Applebot-Extended'', ''Amazonbot'', ''Diffbot'',
     ''FacebookBot'', ''cohere-ai'']"

text \<open>The first override whose name folds to the bot decides; another value keeps the default.\<close>

definition bot_denied :: "AIBotsConfig \<Rightarrow> string \<Rightarrow> bool" where
  "bot_denied c b =
     (let denyByDefault = equalFold (trimSpace (ab_Default c)) ''deny'' in
        case find (\<lambda>(name, value). equalFold (trimSpace name) b) (ab_Bots c) of
          None \<Rightarrow> denyByDefault
        | Some (_, value) \<Rightarrow>
            (let v = toLower (trimSpace value) in
               if v = ''deny'' then True else if v = ''allow'' then False else denyByDefault))"

definition DeniedAIBots :: "AIBotsConfig \<Rightarrow> string list" where
  "DeniedAIBots c = filter (bot_denied c) RecognizedAIBots"

definition newline :: string where "newline = [char_of (10 :: nat)]"

fun bot_stanzas :: "bool \<Rightarrow> string list \<Rightarrow> string" where
  "bot_stanzas first [] = []"
| "bot_stanzas first (b # bs) =
     (if first then [] else newline) @ ''User-agent: '' @ b @ newline @ ''Disallow: /'' @ newline @ bot_stanzas False bs"

definition AIBotStanzas :: "AIBotsConfig \<Rightarrow> string" where
  "AIBotStanzas c =
     (let denied = DeniedAIBots c in
        if denied = [] then []
        else ''# AI crawlers denied by server policy'' @ newline @ bot_stanzas True denied)"

definition normalizeAIBotPolicy :: "string \<Rightarrow> string option" where
  "normalizeAIBotPolicy value =
     (let v = toLower (trimSpace value) in
        if v = [] \<or> v = ''allow'' then Some ''allow'' else if v = ''deny'' then Some ''deny'' else None)"

section \<open>Languages, mail addresses and paths\<close>

text \<open>Host names and locale codes are ASCII, for which \<open>toLower\<close> is exact.\<close>

text \<open>The value in front of the first of the given characters, unless it stands at position 0.\<close>

definition cut_any :: "char list \<Rightarrow> string \<Rightarrow> string" where
  "cut_any cs s = (let h = takeWhile (\<lambda>c. c \<notin> set cs) s in if h = [] then s else h)"

definition normalizeLanguageCode :: "string \<Rightarrow> string" where
  "normalizeLanguageCode value =
     (let lang = cut_any ''-_'' (cut_any ''._@'' (toLower (trimSpace value)))
      in if lang = [] \<or> lang = ''auto'' \<or> lang = ''c'' \<or> lang = ''posix'' then [] else lang)"

definition ResolveLanguage :: "(string \<Rightarrow> string) \<Rightarrow> AppConfig option \<Rightarrow> string" where
  "ResolveLanguage getenv cfg =
     (let cli = normalizeLanguageCode (getenv ''CLI_LANG'');
          server = (case cfg of None \<Rightarrow> [] | Some c \<Rightarrow> normalizeLanguageCode (sv_Lang (ac_Server c)));
          lcAll = normalizeLanguageCode (getenv ''LC_ALL'');
          lang = normalizeLanguageCode (getenv ''LANG'')
      in if cli \<noteq> [] then cli else if server \<noteq> [] then server
         else if lcAll \<noteq> [] then lcAll else if lang \<noteq> [] then lang else ''en'')"

definition defaultEmailAddressForHost :: "string \<Rightarrow> string \<Rightarrow> string" where
  "defaultEmailAddressForHost localPart host =
     (let h0 = trimSpace (toLower host);
          h1 = (case SplitHostPort h0 of Some (h, _) \<Rightarrow> h | None \<Rightarrow> h0);
          h2 = (if h1 = [] \<or> h1 = ''localhost'' \<or> ParseIP h1 \<noteq> None \<or> CHR ''.'' \<notin> set h1 then ''wthr.top'' else h1)
      in (if localPart = [] then ''admin'' else localPart) @ ''@'' @ h2)"

definition DefaultEmailAddress :: "string \<Rightarrow> AppConfig option \<Rightarrow> string" where
  "DefaultEmailAddress localPart cfg =
     (case cfg of None \<Rightarrow> defaultEmailAddressForHost localPart []
      | Some c \<Rightarrow> defaultEmailAddressForHost localPart (sv_FQDN (ac_Server c)))"

definition GetAdminPath :: "AppConfig option \<Rightarrow> string" where
  "GetAdminPath cfg =
     (case cfg of None \<Rightarrow> ''admin'' | Some c \<Rightarrow> let p = sv_AdminPath (ac_Server c) in if p = [] then ''admin'' else p)"

definition GetAPIVersion :: "AppConfig option \<Rightarrow> string" where
  "GetAPIVersion cfg =
     (case cfg of None \<Rightarrow> ''v1'' | Some c \<Rightarrow> let v = sv_APIVersion (ac_Server c) in if v = [] then ''v1'' else v)"

definition GetAPIPath :: "AppConfig option \<Rightarrow> string" where
  "GetAPIPath cfg = ''/api/'' @ GetAPIVersion cfg"

definition GetAdminAPIPath :: "AppConfig option \<Rightarrow> string" where
  "GetAdminAPIPath cfg = GetAPIPath cfg @ ''/server/'' @ GetAdminPath cfg"

definition IsHealthzRootAliasEnabled :: "AppConfig option \<Rightarrow> bool" where
  "IsHealthzRootAliasEnabled cfg = (case cfg of None \<Rightarrow> False | Some c \<Rightarrow> sv_HealthzRoot (ac_Server c))"

section \<open>Settings in range\<close>

definition base_url_ok :: "string \<Rightarrow> bool" where
  "base_url_ok b \<longleftrightarrow> prefix ''/'' b \<and> (b = ''/'' \<or> last b \<noteq> CHR ''/'')"

definition identity_ok :: "ServerConfig \<Rightarrow> bool" where
  "identity_ok sv \<longleftrightarrow> isValidPortValue (sv_Port sv) \<and> base_url_ok (sv_BaseURL sv) \<and>
     toLower (trimSpace (sv_Mode sv)) \<in> set validModes \<and>
     path_segment_ok (sv_AdminPath sv) \<and> path_segment_ok (sv_APIVersion sv)"

definition limits_ok :: "ServerConfig \<Rightarrow> bool" where
  "limits_ok sv \<longleftrightarrow>
     \<not> blank (lim_MaxBodySize (sv_Limits sv)) \<and> \<not> blank (lim_ReadTimeout (sv_Limits sv)) \<and>
     \<not> blank (lim_WriteTimeout (sv_Limits sv)) \<and> \<not> blank (lim_IdleTimeout (sv_Limits sv)) \<and>
     1 \<le> cmp_Level (sv_Compression sv) \<and> cmp_Level (sv_Compression sv) \<le> 9 \<and> cmp_Types (sv_Compression sv) \<noteq> []"

definition role_ok :: "SessionRoleConfig \<Rightarrow> bool" where
  "role_ok r \<longleftrightarrow> \<not> blank (sr_CookieName r) \<and> \<not> blank (sr_MaxAge r) \<and> \<not> blank (sr_IdleTimeout r)"

definition session_ok :: "ServerConfig \<Rightarrow> bool" where
  "session_ok sv \<longleftrightarrow> role_ok (sc_Admin (sv_Session sv)) \<and> role_ok (sc_User (sv_Session sv)) \<and>
     toLower (trimSpace (sc_SameSite (sv_Session sv))) \<in> set sameSiteWords \<and>
     toLower (trimSpace (sc_Secure (sv_Session sv))) \<in> set secureWords \<and> sc_HTTPOnly (sv_Session sv)"

definition bucket_ok :: "RateLimitBucket \<Rightarrow> bool" where
  "bucket_ok b \<longleftrightarrow> 1 \<le> rb_Requests b \<and> 1 \<le> rb_Window b"

definition rate_limit_ok :: "ServerConfig \<Rightarrow> bool" where
  "rate_limit_ok sv \<longleftrightarrow> (let rl = sv_RateLimit sv; a = rl_Auth rl in
     bucket_ok (rl_Read rl) \<and> bucket_ok (rl_Write rl) \<and> bucket_ok (rl_Health rl) \<and> bucket_ok (ra_Login a) \<and>
     bucket_ok (ra_PasswordReset a) \<and> bucket_ok (ra_Registration a) \<and> 1 \<le> rl_GlobalBurst rl)"

definition i18n_ok :: "ServerConfig \<Rightarrow> bool" where
  "i18n_ok sv \<longleftrightarrow> \<not> blank (i18_DefaultLanguage (sv_I18n sv)) \<and>
     i18_DefaultLanguage (sv_I18n sv) \<in> set (i18_Supported (sv_I18n sv))"

definition tracking_ok :: "ServerConfig \<Rightarrow> bool" where
  "tracking_ok sv \<longleftrightarrow> (let t = sv_Tracking sv in
     trk_Type t = [] \<or>
     trk_Type t \<in> set ValidTrackingTypes \<and> trk_ID t \<noteq> [] \<and>
     (trk_Type t \<in> set trackingTypesRequiringURL \<longrightarrow> \<not> blank (trk_URL t)))"

text \<open>The cache without the bound of the idle connections by the pool, and with it.\<close>

definition cache_fields_ok :: "ServerConfig \<Rightarrow> bool" where
  "cache_fields_ok sv \<longleftrightarrow> (let c = sv_Cache sv in
     cch_Type c \<in> set cacheTypes \<and> 1 \<le> cch_Port c \<and> cch_Port c \<le> 65535 \<and> 1 \<le> cch_PoolSize c \<and> 0 \<le> cch_MinIdle c \<and>
     \<not> blank (cch_Timeout c) \<and> \<not> blank (cch_TTL c) \<and> \<not> blank (cch_Prefix c))"

definition cache_ok :: "ServerConfig \<Rightarrow> bool" where
  "cache_ok sv \<longleftrightarrow> cache_fields_ok sv \<and> cch_MinIdle (sv_Cache sv) \<le> cch_PoolSize (sv_Cache sv)"

text \<open>Everything but the bound of the idle connections, and everything.\<close>

definition server_fields_ok :: "ServerConfig \<Rightarrow> bool" where
  "server_fields_ok sv \<longleftrightarrow> identity_ok sv \<and> limits_ok sv \<and> session_ok sv \<and> rate_limit_ok sv \<and> i18n_ok sv \<and>
     tracking_ok sv \<and> cache_fields_ok sv"

definition server_ok :: "ServerConfig \<Rightarrow> bool" where
  "server_ok sv \<longleftrightarrow> server_fields_ok sv \<and> cache_ok sv"

named_theorems cfg_defs \<open>unfolding rules of the validators\<close>
lemmas [cfg_defs] = Let_def in_table_iff or_default_def

lemma or_default_not_blank: "\<not> blank d \<Longrightarrow> \<not> blank (or_default v d)"
  by (simp add: or_default_def)

lemma or_default_id: "\<not> blank v \<Longrightarrow> or_default v d = v"
  by (simp add: or_default_def)

lemma normalizeBaseURL_ok: "base_url_ok (normalizeBaseURL raw)"
proof -
  let ?b = "trimSpace raw"
  let ?b1 = "if prefix ''/'' ?b then ?b else CHR ''/'' # ?b"
  have p: "prefix ''/'' ?b1" by auto
  show ?thesis
  proof (cases "?b = [] \<or> trim_right_char (CHR ''/'') ?b1 = []")
    case True
    then show ?thesis by (auto simp: normalizeBaseURL_def base_url_ok_def Let_def)
  next
    case False
    let ?r = "trim_right_char (CHR ''/'') ?b1"
    have "prefix ?r ?b1" by (rule prefix_trim_right_char)
    with False p have "prefix ''/'' ?r" by (cases ?r) (auto simp: prefix_def)
    with False trim_right_char_last [of "CHR ''/''" ?b1] show ?thesis
      by (simp add: normalizeBaseURL_def base_url_ok_def Let_def)
  qed
qed

lemma normalizeBaseURL_id: "base_url_ok b \<Longrightarrow> trimSpace b = b \<Longrightarrow> normalizeBaseURL b = b"
proof (cases "b = ''/''")
  case True
  assume "trimSpace b = b"
  then show ?thesis by (simp add: True normalizeBaseURL_def trim_right_char_def)
next
  case False
  assume "base_url_ok b" and t: "trimSpace b = b"
  with False have "prefix ''/'' b" "last b \<noteq> CHR ''/''" "b \<noteq> []" by (auto simp: base_url_ok_def)
  then show ?thesis by (simp add: normalizeBaseURL_def t trim_right_char_id)
qed

text \<open>The words the settings are compared with are in their normal form.\<close>

lemma words_normal:
  "\<forall>w\<in>set ValidTrackingTypes. toLower (trimSpace w) = w \<and> w \<noteq> [] \<and> w \<noteq> ''none''"
  "\<forall>w\<in>set cacheTypes. toLower (trimSpace w) = w"
  by code_simp+

lemma default_words:
  "path_segment_ok ''admin''" "path_segment_ok ''v1''" "toLower (trimSpace ''production'') \<in> set validModes"
  "toLower (trimSpace (sc_SameSite DefaultSessionConfig)) \<in> set sameSiteWords"
  "toLower (trimSpace (sc_Secure DefaultSessionConfig)) \<in> set secureWords"
  "role_ok (sc_Admin DefaultSessionConfig)" "role_ok (sc_User DefaultSessionConfig)"
  by code_simp+

lemma default_not_blank:
  "\<not> blank (lim_MaxBodySize DefaultLimitsConfig)" "\<not> blank (lim_ReadTimeout DefaultLimitsConfig)"
  "\<not> blank (lim_WriteTimeout DefaultLimitsConfig)" "\<not> blank (lim_IdleTimeout DefaultLimitsConfig)"
  "\<not> blank (cch_Timeout DefaultCacheConfig)" "\<not> blank (cch_TTL DefaultCacheConfig)" "\<not> blank (cch_Prefix DefaultCacheConfig)"
  "\<not> blank (i18_DefaultLanguage DefaultI18nConfig)" "\<not> blank ''en''"
  by code_simp+

section \<open>Every validator establishes its part and keeps the others\<close>

lemma identity_establishes:
  "port_in_range p \<Longrightarrow> identity_ok (fst (validateServerIdentity p sv))"
  using default_words
  by (auto simp: validateServerIdentity_def identity_ok_def normalizeBaseURL_ok cfg_defs)

lemma limits_establishes: "limits_ok (validateServerLimits sv)"
  by (simp add: validateServerLimits_def limits_ok_def or_default_not_blank default_not_blank
      DefaultCompressionConfig_def Let_def)

lemma validateSessionRole_ok: "role_ok d \<Longrightarrow> role_ok (validateSessionRole r d)"
  by (simp add: validateSessionRole_def role_ok_def or_default_not_blank)

lemma session_establishes: "session_ok (validateServerSession sv)"
  using default_words by (auto simp: validateServerSession_def session_ok_def validateSessionRole_ok Let_def)

lemma validateRateLimitBucket_ok: "bucket_ok d \<Longrightarrow> bucket_ok (validateRateLimitBucket b d)"
  by (auto simp: validateRateLimitBucket_def bucket_ok_def)

lemma bucket_ok_simps [simp]:
  "bucket_ok \<lparr>rb_Requests = r, rb_Window = w\<rparr> \<longleftrightarrow> 1 \<le> r \<and> 1 \<le> w"
  by (simp add: bucket_ok_def)

lemma rate_limit_establishes: "rate_limit_ok (validateServerRateLimit sv)"
  unfolding validateServerRateLimit_def rate_limit_ok_def Let_def
  by (simp add: DefaultRateLimitConfig_def validateRateLimitBucket_ok)

lemma i18n_establishes: "i18n_ok (validateServerI18n sv)"
  using default_not_blank
  by (auto simp: validateServerI18n_def i18n_ok_def DefaultI18nConfig_def or_default_not_blank Let_def)

lemma tracking_establishes: "tracking_ok (validateServerTracking sv)"
  by (auto simp: validateServerTracking_def tracking_ok_def Let_def)

lemma cache_establishes: "cache_fields_ok (validateServerCache sv)"
  using default_not_blank
  by (auto simp: validateServerCache_def cache_fields_ok_def or_default_not_blank Let_def cacheTypes_def DefaultCacheConfig_def)

lemma cache_idle:
  "if cch_PoolSize (sv_Cache sv) = 1 \<and> (cch_MinIdle (sv_Cache sv) < 0 \<or> 1 < cch_MinIdle (sv_Cache sv))
   then cch_PoolSize (sv_Cache (validateServerCache sv)) = 1 \<and> cch_MinIdle (sv_Cache (validateServerCache sv)) = 2
   else cache_ok (validateServerCache sv)"
  using cache_establishes [of sv] by (auto simp: cache_ok_def validateServerCache_def Let_def DefaultCacheConfig_def)

lemmas section_defs = identity_ok_def limits_ok_def session_ok_def rate_limit_ok_def i18n_ok_def tracking_ok_def cache_fields_ok_def
lemmas validator_defs = validateServerIdentity_def validateServerLimits_def validateServerSession_def
  validateServerRateLimit_def validateServerI18n_def validateServerTracking_def validateServerCache_def

lemma validators_keep:
  "identity_ok (validateServerLimits sv) = identity_ok sv" "identity_ok (validateServerSession sv) = identity_ok sv"
  "identity_ok (validateServerRateLimit sv) = identity_ok sv" "identity_ok (validateServerI18n sv) = identity_ok sv"
  "identity_ok (validateServerTracking sv) = identity_ok sv" "identity_ok (validateServerCache sv) = identity_ok sv"
  "limits_ok (validateServerSession sv) = limits_ok sv" "limits_ok (validateServerRateLimit sv) = limits_ok sv"
  "limits_ok (validateServerI18n sv) = limits_ok sv" "limits_ok (validateServerTracking sv) = limits_ok sv"
  "limits_ok (validateServerCache sv) = limits_ok sv"
  "session_ok (validateServerRateLimit sv) = session_ok sv" "session_ok (validateServerI18n sv) = session_ok sv"
  "session_ok (validateServerTracking sv) = session_ok sv" "session_ok (validateServerCache sv) = session_ok sv"
  "rate_limit_ok (validateServerI18n sv) = rate_limit_ok sv" "rate_limit_ok (validateServerTracking sv) = rate_limit_ok sv"
  "rate_limit_ok (validateServerCache sv) = rate_limit_ok sv"
  "i18n_ok (validateServerTracking sv) = i18n_ok sv" "i18n_ok (validateServerCache sv) = i18n_ok sv"
  "tracking_ok (validateServerCache sv) = tracking_ok sv"
  by (simp_all add: section_defs validator_defs Let_def)

lemma validateConfig_server_ok: "port_in_range p \<Longrightarrow> server_fields_ok (ac_Server (fst (validateConfig p cfg)))"
  using identity_establishes [of p "ac_Server cfg"]
  by (simp add: validateConfig_def server_fields_ok_def validators_keep limits_establishes session_establishes
      rate_limit_establishes i18n_establishes tracking_establishes cache_establishes Let_def split_beta)

lemma validators_cache:
  "sv_Cache (fst (validateServerIdentity p sv)) = sv_Cache sv" "sv_Cache (validateServerLimits sv) = sv_Cache sv"
  "sv_Cache (validateServerSession sv) = sv_Cache sv" "sv_Cache (validateServerRateLimit sv) = sv_Cache sv"
  "sv_Cache (validateServerI18n sv) = sv_Cache sv" "sv_Cache (validateServerTracking sv) = sv_Cache sv"
  by (simp_all add: validator_defs Let_def)

lemma validateConfig_idle:
  "let c = sv_Cache (ac_Server cfg); sv' = ac_Server (fst (validateConfig p cfg)) in
   if cch_PoolSize c = 1 \<and> (cch_MinIdle c < 0 \<or> 1 < cch_MinIdle c)
   then cch_PoolSize (sv_Cache sv') = 1 \<and> cch_MinIdle (sv_Cache sv') = 2 else cache_ok sv'"
proof -
  obtain sv1 where sv1: "ac_Server (fst (validateConfig p cfg)) = validateServerCache sv1" "sv_Cache sv1 = sv_Cache (ac_Server cfg)"
    by (simp add: validateConfig_def split_beta Let_def) (metis validators_cache)
  show ?thesis unfolding Let_def sv1 using cache_idle [of sv1] by (simp only: sv1(2))
qed

section \<open>A configuration in range is kept\<close>

lemma identity_keeps:
  "identity_ok sv \<Longrightarrow> trimSpace (sv_BaseURL sv) = sv_BaseURL sv \<Longrightarrow> validateServerIdentity p sv = (sv, False)"
  by (simp add: validateServerIdentity_def identity_ok_def normalizeBaseURL_id cfg_defs)

lemma limits_keeps: "limits_ok sv \<Longrightarrow> validateServerLimits sv = sv"
  by (simp add: validateServerLimits_def limits_ok_def or_default_id Let_def)

lemma session_keeps: "session_ok sv \<Longrightarrow> validateServerSession sv = sv"
  by (simp add: validateServerSession_def session_ok_def role_ok_def validateSessionRole_def or_default_id Let_def)

lemma rate_limit_keeps: "rate_limit_ok sv \<Longrightarrow> validateServerRateLimit sv = sv"
  by (simp add: validateServerRateLimit_def rate_limit_ok_def bucket_ok_def validateRateLimitBucket_def Let_def)

lemma i18n_keeps: "i18n_ok sv \<Longrightarrow> validateServerI18n sv = sv"
  by (cases "i18_Supported (sv_I18n sv)") (simp_all add: validateServerI18n_def i18n_ok_def or_default_id Let_def)

lemma tracking_keeps:
  assumes "tracking_ok sv"
  shows "validateServerTracking sv = sv"
proof (cases "trk_Type (sv_Tracking sv) = []")
  case True
  have "toLower (trimSpace []) = []" by code_simp
  with True show ?thesis by (simp add: validateServerTracking_def)
next
  case False
  let ?t = "trk_Type (sv_Tracking sv)"
  have t: "?t \<in> set ValidTrackingTypes" "trk_ID (sv_Tracking sv) \<noteq> []"
    "\<not> (?t \<in> set trackingTypesRequiringURL \<and> blank (trk_URL (sv_Tracking sv)))"
    using assms False by (simp_all add: tracking_ok_def Let_def)
  have k: "toLower (trimSpace ?t) = ?t" "?t \<noteq> ''none''" using words_normal(1) t(1) by blast+
  show ?thesis unfolding validateServerTracking_def Let_def k(1) in_table_iff using t k(2) False by simp
qed

lemma cache_keeps:
  assumes "cache_ok sv"
  shows "validateServerCache sv = sv"
proof -
  let ?c = "sv_Cache sv"
  have c: "cch_Type ?c \<in> set cacheTypes" "\<not> (cch_Port ?c < 1 \<or> 65535 < cch_Port ?c)" "\<not> cch_PoolSize ?c < 1"
    "\<not> blank (cch_Timeout ?c)" "\<not> blank (cch_TTL ?c)" "\<not> blank (cch_Prefix ?c)"
    using assms by (simp_all add: cache_ok_def cache_fields_ok_def Let_def)
  have i: "(if cch_MinIdle ?c < 0 \<or> cch_PoolSize ?c < cch_MinIdle ?c then 2 else cch_MinIdle ?c) = cch_MinIdle ?c"
    using assms by (auto simp: cache_ok_def cache_fields_ok_def Let_def)
  have k: "toLower (trimSpace (cch_Type ?c)) = cch_Type ?c" using words_normal(2) c(1) by blast
  have d: "cch_MinIdle DefaultCacheConfig = 2" by (simp add: DefaultCacheConfig_def)
  have p: "(if cch_PoolSize ?c < 1 then cch_PoolSize DefaultCacheConfig else cch_PoolSize ?c) = cch_PoolSize ?c"
    using c by simp
  show ?thesis unfolding validateServerCache_def Let_def k in_table_iff p d i using c by (simp add: or_default_id)
qed

lemma validateConfig_keeps:
  assumes "server_ok (ac_Server cfg)" "trimSpace (sv_BaseURL (ac_Server cfg)) = sv_BaseURL (ac_Server cfg)"
  shows "validateConfig p cfg = (cfg, False)"
  using assms by (simp add: validateConfig_def server_ok_def server_fields_ok_def identity_keeps limits_keeps session_keeps rate_limit_keeps
      i18n_keeps tracking_keeps cache_keeps)

section \<open>Validation\<close>

lemma randomPort_range: "port_in_range (randomPort b) \<and> 64000 \<le> randomPort b \<and> randomPort b \<le> 64999"
proof -
  have "0 \<le> uint b mod 1000" "uint b mod 1000 < 1000" by simp_all
  then show ?thesis unfolding randomPort_def port_in_range_def by linarith
qed

lemma validators_port:
  "sv_Port (validateServerLimits sv) = sv_Port sv" "sv_Port (validateServerSession sv) = sv_Port sv"
  "sv_Port (validateServerRateLimit sv) = sv_Port sv" "sv_Port (validateServerI18n sv) = sv_Port sv"
  "sv_Port (validateServerTracking sv) = sv_Port sv" "sv_Port (validateServerCache sv) = sv_Port sv"
  by (simp_all add: validator_defs Let_def)

lemma validators_security:
  "sv_Security (fst (validateServerIdentity p sv)) = sv_Security sv"
  "sv_Security (validateServerLimits sv) = sv_Security sv" "sv_Security (validateServerSession sv) = sv_Security sv"
  "sv_Security (validateServerRateLimit sv) = sv_Security sv" "sv_Security (validateServerI18n sv) = sv_Security sv"
  "sv_Security (validateServerTracking sv) = sv_Security sv" "sv_Security (validateServerCache sv) = sv_Security sv"
  by (simp_all add: validator_defs Let_def)

lemma validateConfig_replaced: "snd (validateConfig p cfg) \<longleftrightarrow> \<not> isValidPortValue (sv_Port (ac_Server cfg))"
  by (simp add: validateConfig_def validateServerIdentity_def Let_def)

lemma validateConfig_port:
  "sv_Port (ac_Server (fst (validateConfig p cfg))) =
     (if isValidPortValue (sv_Port (ac_Server cfg)) then sv_Port (ac_Server cfg) else PortInt p)"
  by (simp add: validateConfig_def validators_port split_beta Let_def) (simp add: validateServerIdentity_def Let_def)

lemma validateConfig_security: "sv_Security (ac_Server (fst (validateConfig p cfg))) = sv_Security (ac_Server cfg)"
  by (simp add: validateConfig_def validators_security split_beta Let_def)

text \<open>
  C35. Validation of a loaded configuration is total and sound, but for one bound: whatever was loaded, afterwards every
  setting is in its range (ports, base URL, mode, path segments, limits, session cookies, rate-limit
  buckets, languages with the default among the supported ones, analytics, cache), except that beside a cache pool of one connection
  a number of idle connections out of range is replaced by the default of two, which exceeds the pool; the flag is set
  exactly when the port had to be replaced, and a configuration that is in range already and has a
  trimmed base URL is returned unchanged.
\<close>

theorem validateConfig_sound:
  "(let c = sv_Cache (ac_Server cfg); sv' = ac_Server (fst (validateConfig (randomPort b) cfg)) in
    if cch_PoolSize c = 1 \<and> (cch_MinIdle c < 0 \<or> 1 < cch_MinIdle c)
    then server_fields_ok sv' \<and> cch_PoolSize (sv_Cache sv') = 1 \<and> cch_MinIdle (sv_Cache sv') = 2
    else server_ok sv') \<and>
   (snd (validateConfig (randomPort b) cfg) \<longleftrightarrow> \<not> isValidPortValue (sv_Port (ac_Server cfg))) \<and>
   (server_ok (ac_Server cfg) \<and> trimSpace (sv_BaseURL (ac_Server cfg)) = sv_BaseURL (ac_Server cfg)
      \<longrightarrow> validateConfig (randomPort b) cfg = (cfg, False))"
  using validateConfig_server_ok [of "randomPort b" cfg] randomPort_range [of b] validateConfig_keeps [of cfg]
    validateConfig_idle [of cfg "randomPort b"]
  by (simp add: validateConfig_replaced server_ok_def Let_def split: if_split_asm)

definition sample_server :: ServerConfig where
  "sample_server =
     \<lparr>sv_Port = PortString ''8090,8443'', sv_FQDN = ''example.org'', sv_Address = ''[::]'', sv_Mode = ''production'',
      sv_AdminPath = ''admin'', sv_APIVersion = ''v1'', sv_BaseURL = ''/weather'', sv_HealthzRoot = False, sv_Lang = ''auto'',
      sv_RateLimit = DefaultRateLimitConfig, sv_I2P = DefaultI2PConfig, sv_FeatureI2P = False,
      sv_Security = \<lparr>sec_EncryptionKey = ''k'', sec_EncryptionKeyVersion = 1\<rparr>, sv_TrustedProxies = [],
      sv_Limits = DefaultLimitsConfig, sv_Compression = DefaultCompressionConfig, sv_Session = DefaultSessionConfig,
      sv_I18n = DefaultI18nConfig, sv_Contact = DefaultContactConfig ''example.org'',
      sv_Tracking = \<lparr>trk_Type = ''umami'', trk_ID = ''7'', trk_URL = ''https://stats.example.org''\<rparr>,
      sv_Cache = DefaultCacheConfig\<rparr>"

definition sample_config :: AppConfig where
  "sample_config =
     \<lparr>ac_Server = sample_server, ac_RobotsTxt = [], ac_SecurityTxt = [],
      ac_AIBots = \<lparr>ab_Default = ''allow'', ab_Bots = []\<rparr>, ac_UsersEnabled = True,
      ac_Registration = \<lparr>rg_Mode = ''open'', rg_RequireEmailVerification = True, rg_InviteExpirationDays = 7\<rparr>\<rparr>"

lemma sample_server_ok: "server_ok sample_server"
  by code_simp

theorem validateConfig_sound_witness:
  "validateConfig (randomPort 0) sample_config = (sample_config, False) \<and>
   sv_Port (ac_Server (fst (validateConfig (randomPort 7)
     (sample_config\<lparr>ac_Server := sample_server\<lparr>sv_Port := PortInt 70000\<rparr>\<rparr>)))) = PortInt 64007"
proof
  have "trimSpace (sv_BaseURL (ac_Server sample_config)) = sv_BaseURL (ac_Server sample_config)" by code_simp
  moreover have "server_ok (ac_Server sample_config)" using sample_server_ok by (simp add: sample_config_def)
  ultimately show "validateConfig (randomPort 0) sample_config = (sample_config, False)"
    using validateConfig_sound [where b = 0 and cfg = sample_config] by blast
  show "sv_Port (ac_Server (fst (validateConfig (randomPort 7)
     (sample_config\<lparr>ac_Server := sample_server\<lparr>sv_Port := PortInt 70000\<rparr>\<rparr>)))) = PortInt 64007"
    by (simp add: validateConfig_port port_in_range_def randomPort_def)
qed

text \<open>
  Two gaps of the validation. An out-of-range number of idle connections beside a pool of one is
  replaced by a value that is out of range too, and a base URL that ends in white space between slashes
  is normalised to one that the next load changes again.
\<close>

lemma validateServerCache_min_idle:
  "cch_PoolSize (sv_Cache sv) = 1 \<Longrightarrow> cch_MinIdle (sv_Cache sv) = 5 \<Longrightarrow>
     cch_PoolSize (sv_Cache (validateServerCache sv)) < cch_MinIdle (sv_Cache (validateServerCache sv))"
  by (simp add: validateServerCache_def DefaultCacheConfig_def Let_def)

lemma normalizeBaseURL_unstable:
  "normalizeBaseURL ''/a /'' = ''/a '' \<and> normalizeBaseURL ''/a '' = ''/a''"
  by code_simp

section \<open>I2P\<close>

text \<open>
  Normalising the I2P section makes it acceptable to the validation that guards the admin panel,
  except for a malformed SAM address: afterwards the validation reports an error exactly when the
  normalised SAM address is not of the form \<open>host:port\<close>, and then only that error. A section the
  validation accepts and whose SAM address is set is kept.
\<close>

lemma NormalizeI2PConfig_validates:
  "ValidateI2PConfig (Some (NormalizeI2PConfig c)) =
     (if SplitHostPort (trimSpace (i2p_SAMAddress (NormalizeI2PConfig c))) = None
      then [\<lparr>ve_Field = ''sam_address'', ve_Message = ''must be a host:port address''\<rparr>] else []) \<and>
   (ValidateI2PConfig (Some c) = [] \<and> \<not> blank (i2p_SAMAddress c) \<longrightarrow> NormalizeI2PConfig c = c)"
proof
  have d: "\<not> blank ''127.0.0.1:7656''" by code_simp
  then have s: "\<not> blank (i2p_SAMAddress (NormalizeI2PConfig c))"
    by (simp add: NormalizeI2PConfig_def DefaultI2PConfig_def or_default_not_blank Let_def)
  show "ValidateI2PConfig (Some (NormalizeI2PConfig c)) =
     (if SplitHostPort (trimSpace (i2p_SAMAddress (NormalizeI2PConfig c))) = None
      then [\<lparr>ve_Field = ''sam_address'', ve_Message = ''must be a host:port address''\<rparr>] else [])"
    unfolding ValidateI2PConfig_def option.case using s
    by (simp add: bad_def NormalizeI2PConfig_def DefaultI2PConfig_def Let_def i2pSignatureTypes_def)
  show "ValidateI2PConfig (Some c) = [] \<and> \<not> blank (i2p_SAMAddress c) \<longrightarrow> NormalizeI2PConfig c = c"
    by (auto simp: ValidateI2PConfig_def bad_def NormalizeI2PConfig_def Let_def or_default_id split: if_splits)
qed

lemma NormalizeI2PConfig_validates_example:
  "NormalizeI2PConfig DefaultI2PConfig = DefaultI2PConfig \<and>
   ValidateI2PConfig (Some (NormalizeI2PConfig (DefaultI2PConfig\<lparr>i2p_SAMAddress := ''sam'', i2p_VirtualPort := 0\<rparr>)))
     = [\<lparr>ve_Field = ''sam_address'', ve_Message = ''must be a host:port address''\<rparr>]"
proof
  have "ValidateI2PConfig (Some DefaultI2PConfig) = []" "\<not> blank (i2p_SAMAddress DefaultI2PConfig)" by code_simp+
  then show "NormalizeI2PConfig DefaultI2PConfig = DefaultI2PConfig"
    using NormalizeI2PConfig_validates [of DefaultI2PConfig] by blast
  show "ValidateI2PConfig (Some (NormalizeI2PConfig (DefaultI2PConfig\<lparr>i2p_SAMAddress := ''sam'', i2p_VirtualPort := 0\<rparr>)))
     = [\<lparr>ve_Field = ''sam_address'', ve_Message = ''must be a host:port address''\<rparr>]"
    by code_simp
qed

section \<open>Boolean words\<close>

lemma truthy_falsy_disjoint: "set truthyValues \<inter> set falsyValues = {}"
  by code_simp

lemma empty_not_word: "[] \<notin> set truthyValues" "[] \<notin> set falsyValues"
  by code_simp+

text \<open>The three readings of a boolean word agree, and \<open>MustParseBool\<close> panics exactly on the other words.\<close>

lemma ParseBool_readings:
  "IsTruthy s \<longleftrightarrow> ParseBool s False = Inr True" "IsFalsy s \<longleftrightarrow> ParseBool s True = Inr False"
  "\<not> (IsTruthy s \<and> IsFalsy s)"
  "MustParseBool s d = None \<longleftrightarrow> trimSpace (toLower s) \<noteq> [] \<and> \<not> IsTruthy s \<and> \<not> IsFalsy s"
  using truthy_falsy_disjoint empty_not_word
  by (auto simp: IsTruthy_def IsFalsy_def ParseBool_def MustParseBool_def Let_def split: if_splits)

end
