(* ===== verification/Config_Load.thy ===== *)
theory Config_Load
  imports Config_Validate
begin

text \<open>
  Loading and saving \<^verbatim>\<open>server.yml\<close> and the updates from the admin panel, \<^verbatim>\<open>src/config/config.go\<close>. The
  file system is a map from paths to contents. YAML is a parameter: \<open>marshal\<close> renders a configuration,
  \<open>decode\<close> gives \<open>None\<close> for a malformed document and otherwise the function by which the document
  overwrites the settings it names in the structure it is decoded into. Random bytes and the outcomes
  of file operations are given per run of the program.
\<close>

section \<open>Files\<close>

type_synonym files = "string \<rightharpoonup> string"

record yaml =
  ya_marshal :: "AppConfig \<Rightarrow> string"
  ya_decode :: "string \<Rightarrow> (AppConfig \<Rightarrow> AppConfig) option"

text \<open>
  The paths of the process: \<^verbatim>\<open>server.yml\<close> under \<^verbatim>\<open>CONFIG_DIR\<close> when that is set, the standard path
  of \<open>getConfigPath\<close> and its \<^verbatim>\<open>.yaml\<close> sibling.
\<close>

record config_paths =
  cp_configDir :: "string option"
  cp_standard :: string
  cp_yaml :: string

text \<open>Nothing found is the empty path.\<close>

definition findConfigFile :: "config_paths \<Rightarrow> bool \<Rightarrow> files \<Rightarrow> files \<times> string" where
  "findConfigFile ps renameOk fs =
     (let standard =
        (if fs (cp_standard ps) \<noteq> None then (fs, cp_standard ps)
         else case fs (cp_yaml ps) of
           Some d \<Rightarrow> if renameOk then (fs(cp_yaml ps := None, cp_standard ps \<mapsto> d), cp_standard ps) else (fs, cp_yaml ps)
         | None \<Rightarrow> (fs, []))
      in case cp_configDir ps of
           Some p \<Rightarrow> if fs p \<noteq> None then (fs, p) else standard
         | None \<Rightarrow> standard)"

text \<open>\<open>ok\<close>: creating the directory, rendering and writing all succeed.\<close>

definition SaveConfig :: "yaml \<Rightarrow> config_paths \<Rightarrow> bool \<Rightarrow> bool \<Rightarrow> AppConfig \<Rightarrow> files \<Rightarrow> files \<times> bool" where
  "SaveConfig y ps renameOk ok cfg fs =
     (let (fs1, path) = findConfigFile ps renameOk fs;
          target = (if path = [] then cp_standard ps else path)
      in if ok then (fs1(target \<mapsto> ya_marshal y cfg), True) else (fs1, False))"

definition config_header :: string where
  "config_header =
     ''# ============================================================================='' @ newline @
     ''# Weather Configuration (AI.md PART 4)'' @ newline @
     ''# ============================================================================='' @ newline @
     ''# This file was auto-generated on first run with sane defaults.'' @ newline @
     ''# Edit as needed and restart the service to apply changes.'' @ newline @
     ''# ============================================================================='' @ newline @ newline"

definition createDefaultConfig :: "yaml \<Rightarrow> bool \<Rightarrow> AppConfig \<Rightarrow> string \<Rightarrow> files \<Rightarrow> files" where
  "createDefaultConfig y ok cfg path fs =
     (if ok then fs(path \<mapsto> config_header @ ya_marshal y cfg) else fs)"

section \<open>Loading\<close>

definition generateEncryptionKey :: "nat list \<Rightarrow> string" where
  "generateEncryptionKey bytes = StdEncoding bytes"

text \<open>What one run of the program draws and meets: 32 random bytes for a key, two draws for ports.\<close>

record load_run =
  lr_hostname :: string
  lr_default_port :: "32 word"
  lr_other_port :: "32 word"
  lr_key_bytes :: "nat list"
  lr_rename_ok :: bool
  lr_read_ok :: bool
  lr_create_ok :: bool
  lr_save_port_ok :: bool
  lr_save_key_ok :: bool

definition default_config :: "load_run \<Rightarrow> AppConfig" where
  "default_config r =
     \<lparr>ac_Server =
        \<lparr>sv_Port = PortInt (randomPort (lr_default_port r)), sv_FQDN = lr_hostname r, sv_Address = ''[::]'',
         sv_Mode = ''production'', sv_AdminPath = ''admin'', sv_APIVersion = ''v1'', sv_BaseURL = ''/'',
         sv_HealthzRoot = False, sv_Lang = ''auto'', sv_RateLimit = DefaultRateLimitConfig, sv_I2P = DefaultI2PConfig,
         sv_FeatureI2P = False, sv_Security = \<lparr>sec_EncryptionKey = [], sec_EncryptionKeyVersion = 0\<rparr>,
         sv_TrustedProxies = [], sv_Limits = DefaultLimitsConfig, sv_Compression = DefaultCompressionConfig,
         sv_Session = DefaultSessionConfig, sv_I18n = DefaultI18nConfig, sv_Contact = DefaultContactConfig (lr_hostname r),
         sv_Tracking = \<lparr>trk_Type = [], trk_ID = [], trk_URL = []\<rparr>, sv_Cache = DefaultCacheConfig\<rparr>,
      ac_RobotsTxt = [], ac_SecurityTxt = [], ac_AIBots = \<lparr>ab_Default = [], ab_Bots = []\<rparr>, ac_UsersEnabled = True,
      ac_Registration = \<lparr>rg_Mode = ''open'', rg_RequireEmailVerification = True, rg_InviteExpirationDays = 7\<rparr>\<rparr>"

definition set_security :: "(SecurityConfig \<Rightarrow> SecurityConfig) \<Rightarrow> AppConfig \<Rightarrow> AppConfig" where
  "set_security f cfg = cfg\<lparr>ac_Server := (ac_Server cfg)\<lparr>sv_Security := f (sv_Security (ac_Server cfg))\<rparr>\<rparr>"

abbreviation security :: "AppConfig \<Rightarrow> SecurityConfig" where
  "security cfg \<equiv> sv_Security (ac_Server cfg)"

abbreviation encryption_key :: "AppConfig \<Rightarrow> string" where
  "encryption_key cfg \<equiv> sec_EncryptionKey (security cfg)"

text \<open>The part of \<open>LoadConfig\<close> behind the decoding: normalise, validate, fill in the key.\<close>

definition finish_load :: "yaml \<Rightarrow> config_paths \<Rightarrow> load_run \<Rightarrow> AppConfig \<Rightarrow> files \<Rightarrow> AppConfig \<times> files" where
  "finish_load y ps r parsed fs =
     (let cfg1 = parsed\<lparr>ac_Server := (ac_Server parsed)\<lparr>sv_I2P := NormalizeI2PConfig (sv_I2P (ac_Server parsed))\<rparr>\<rparr>;
          (cfg2, replaced) = validateConfig (randomPort (lr_other_port r)) cfg1;
          fs2 = (if replaced then fst (SaveConfig y ps (lr_rename_ok r) (lr_save_port_ok r) cfg2 fs) else fs)
      in if encryption_key cfg2 = [] then
           (let cfg3 = set_security (\<lambda>s. s\<lparr>sec_EncryptionKey := generateEncryptionKey (lr_key_bytes r),
                  sec_EncryptionKeyVersion := (if sec_EncryptionKeyVersion s = 0 then 1 else sec_EncryptionKeyVersion s)\<rparr>) cfg2
            in (cfg3, fst (SaveConfig y ps (lr_rename_ok r) (lr_save_key_ok r) cfg3 fs2)))
         else (cfg2, fs2))"

text \<open>The flag tells whether the file could be read.\<close>

definition LoadConfig :: "yaml \<Rightarrow> config_paths \<Rightarrow> load_run \<Rightarrow> files \<Rightarrow> AppConfig \<times> bool \<times> files" where
  "LoadConfig y ps r fs =
     (let cfg = default_config r; (fs1, path) = findConfigFile ps (lr_rename_ok r) fs in
      if path = [] then
        (let first = set_security (\<lambda>s. \<lparr>sec_EncryptionKey = generateEncryptionKey (lr_key_bytes r),
                       sec_EncryptionKeyVersion = 1\<rparr>) cfg
         in (first, True, createDefaultConfig y (lr_create_ok r) first (cp_standard ps) fs1))
      else if \<not> lr_read_ok r then (cfg, False, fs1)
      else
        (let parsed = (case ya_decode y (the (fs1 path)) of None \<Rightarrow> cfg | Some patch \<Rightarrow> patch cfg);
             (cfg', fs') = finish_load y ps r parsed fs1
         in (cfg', True, fs')))"

section \<open>Updates from the admin panel\<close>

text \<open>
  The global configuration and the files. A policy update walks over the submitted map in some order;
  a later entry for the same bot overwrites an earlier one.
\<close>

record config_state =
  cs_global :: "AppConfig option"
  cs_files :: files

datatype config_error =
    NotInitialized
  | InvalidDefault
  | UnrecognizedBot string
  | InvalidPolicy string
  | SaveFailed
  | Invalid "ValidationError list"

definition canonical_bot :: "string \<Rightarrow> string option" where
  "canonical_bot name = find (equalFold (trimSpace name)) RecognizedAIBots"

fun normalize_bots ::
  "(string \<times> string) list \<Rightarrow> (string \<times> string) list \<Rightarrow> config_error + (string \<times> string) list" where
  "normalize_bots [] acc = Inr acc"
| "normalize_bots ((name, value) # rest) acc =
     (case canonical_bot name of
        None \<Rightarrow> Inl (UnrecognizedBot name)
      | Some canonical \<Rightarrow>
          (case normalizeAIBotPolicy value of
             None \<Rightarrow> Inl (InvalidPolicy canonical)
           | Some policy \<Rightarrow>
               normalize_bots rest ((canonical, policy) # filter (\<lambda>e. fst e \<noteq> canonical) acc)))"

definition save_global ::
  "yaml \<Rightarrow> config_paths \<Rightarrow> bool \<Rightarrow> bool \<Rightarrow> AppConfig \<Rightarrow> config_state \<Rightarrow> config_state \<times> config_error option" where
  "save_global y ps renameOk ok cfg st =
     (let (fs, saved) = SaveConfig y ps renameOk ok cfg (cs_files st)
      in (\<lparr>cs_global = Some cfg, cs_files = fs\<rparr>, if saved then None else Some SaveFailed))"

definition UpdateWebRobotsAIBots ::
  "yaml \<Rightarrow> config_paths \<Rightarrow> bool \<Rightarrow> bool \<Rightarrow> string \<Rightarrow> (string \<times> string) list \<Rightarrow> config_state
     \<Rightarrow> config_state \<times> config_error option" where
  "UpdateWebRobotsAIBots y ps renameOk ok defaultPolicy bots st =
     (case cs_global st of
        None \<Rightarrow> (st, Some NotInitialized)
      | Some cfg \<Rightarrow>
          (case normalizeAIBotPolicy defaultPolicy of
             None \<Rightarrow> (st, Some InvalidDefault)
           | Some normalized \<Rightarrow>
               (case normalize_bots bots [] of
                  Inl e \<Rightarrow> (st, Some e)
                | Inr bs \<Rightarrow>
                    save_global y ps renameOk ok (cfg\<lparr>ac_AIBots := \<lparr>ab_Default = normalized, ab_Bots = bs\<rparr>\<rparr>) st)))"

definition UpdateWebRobotsTxt ::
  "yaml \<Rightarrow> config_paths \<Rightarrow> bool \<Rightarrow> bool \<Rightarrow> string \<Rightarrow> config_state \<Rightarrow> config_state \<times> config_error option" where
  "UpdateWebRobotsTxt y ps renameOk ok content st =
     (case cs_global st of
        None \<Rightarrow> (st, Some NotInitialized)
      | Some cfg \<Rightarrow> save_global y ps renameOk ok (cfg\<lparr>ac_RobotsTxt := content\<rparr>) st)"

definition UpdateWebSecurityTxt ::
  "yaml \<Rightarrow> config_paths \<Rightarrow> bool \<Rightarrow> bool \<Rightarrow> string \<Rightarrow> config_state \<Rightarrow> config_state \<times> config_error option" where
  "UpdateWebSecurityTxt y ps renameOk ok content st =
     (case cs_global st of
        None \<Rightarrow> (st, Some NotInitialized)
      | Some cfg \<Rightarrow> save_global y ps renameOk ok (cfg\<lparr>ac_SecurityTxt := content\<rparr>) st)"

definition UpdateI2PConfig ::
  "yaml \<Rightarrow> config_paths \<Rightarrow> bool \<Rightarrow> bool \<Rightarrow> I2PConfig \<Rightarrow> config_state \<Rightarrow> config_state \<times> config_error option" where
  "UpdateI2PConfig y ps renameOk ok nxt st =
     (case cs_global st of
        None \<Rightarrow> (st, Some NotInitialized)
      | Some cfg \<Rightarrow>
          (let n = nxt\<lparr>i2p_SAMAddress := trimSpace (i2p_SAMAddress nxt), i2p_Binary := trimSpace (i2p_Binary nxt)\<rparr>;
               errs = ValidateI2PConfig (Some n)
           in if errs \<noteq> [] then (st, Some (Invalid errs))
              else save_global y ps renameOk ok
                (cfg\<lparr>ac_Server := (ac_Server cfg)\<lparr>sv_I2P := n, sv_FeatureI2P := i2p_Enabled n\<rparr>\<rparr>) st))"

section \<open>Registration\<close>

definition IsMultiUserEnabled :: "AppConfig option \<Rightarrow> bool" where
  "IsMultiUserEnabled cfg = (case cfg of None \<Rightarrow> True | Some c \<Rightarrow> ac_UsersEnabled c)"

definition GetRegistrationMode :: "AppConfig option \<Rightarrow> string" where
  "GetRegistrationMode cfg =
     (let mode = (case cfg of None \<Rightarrow> [] | Some c \<Rightarrow> rg_Mode (ac_Registration c))
      in if mode = ''open'' \<or> mode = ''private'' then mode else ''open'')"

definition GetUserInviteExpirationDays :: "AppConfig option \<Rightarrow> int" where
  "GetUserInviteExpirationDays cfg =
     (case cfg of None \<Rightarrow> 7
      | Some c \<Rightarrow> let d = rg_InviteExpirationDays (ac_Registration c) in if d \<le> 0 then 7 else d)"

definition IsRegistrationOpen :: "AppConfig option \<Rightarrow> bool" where
  "IsRegistrationOpen cfg \<longleftrightarrow> GetRegistrationMode cfg = ''open''"

definition IsRegistrationPrivate :: "AppConfig option \<Rightarrow> bool" where
  "IsRegistrationPrivate cfg \<longleftrightarrow> GetRegistrationMode cfg = ''private''"

section \<open>The file a process reads\<close>

definition paths_ok :: "config_paths \<Rightarrow> bool" where
  "paths_ok ps \<longleftrightarrow> cp_standard ps \<noteq> [] \<and> cp_yaml ps \<noteq> [] \<and> cp_configDir ps \<noteq> Some []"

definition config_content :: "config_paths \<Rightarrow> files \<Rightarrow> string option" where
  "config_content ps fs =
     (let standard = (if fs (cp_standard ps) \<noteq> None then fs (cp_standard ps) else fs (cp_yaml ps))
      in case cp_configDir ps of Some p \<Rightarrow> if fs p \<noteq> None then fs p else standard | None \<Rightarrow> standard)"

lemma findConfigFile_content:
  assumes "paths_ok ps" "findConfigFile ps rn fs = (fs1, path)"
  shows "path = [] \<longleftrightarrow> config_content ps fs = None" "path \<noteq> [] \<Longrightarrow> fs1 path = config_content ps fs"
    "config_content ps fs1 = config_content ps fs"
  using assms
  by (auto simp: findConfigFile_def config_content_def paths_ok_def Let_def split: option.splits if_splits)

lemma SaveConfig_content:
  assumes "paths_ok ps"
  shows "config_content ps (fst (SaveConfig y ps rn ok cfg fs)) = (if ok then Some (ya_marshal y cfg) else config_content ps fs)"
  using assms
  by (auto simp: SaveConfig_def findConfigFile_def config_content_def paths_ok_def Let_def split: option.splits if_splits)

section \<open>What a load returns and writes\<close>

lemma finish_load_security:
  "security (fst (finish_load y ps r parsed fs)) =
     (if encryption_key parsed = []
      then \<lparr>sec_EncryptionKey = generateEncryptionKey (lr_key_bytes r),
            sec_EncryptionKeyVersion = (if sec_EncryptionKeyVersion (security parsed) = 0 then 1
                                        else sec_EncryptionKeyVersion (security parsed))\<rparr>
      else security parsed)"
  by (simp add: finish_load_def Let_def split_beta validateConfig_security set_security_def)

lemma finish_load_port:
  "sv_Port (ac_Server (fst (finish_load y ps r parsed fs))) =
     (if isValidPortValue (sv_Port (ac_Server parsed)) then sv_Port (ac_Server parsed)
      else PortInt (randomPort (lr_other_port r)))"
  by (simp add: finish_load_def Let_def split_beta validateConfig_port set_security_def)

lemma finish_load_content:
  assumes "paths_ok ps" "lr_save_port_ok r" "lr_save_key_ok r"
  shows "config_content ps (snd (finish_load y ps r parsed fs)) =
    (if isValidPortValue (sv_Port (ac_Server parsed)) \<and> encryption_key parsed \<noteq> [] then config_content ps fs
     else Some (ya_marshal y (fst (finish_load y ps r parsed fs))))"
  using assms
  by (simp add: finish_load_def Let_def split_beta validateConfig_replaced validateConfig_security SaveConfig_content)

lemma LoadConfig_existing:
  assumes "paths_ok ps" "lr_read_ok r" "config_content ps fs = Some d"
  obtains fs1 where "config_content ps fs1 = Some d"
    "LoadConfig y ps r fs =
       (let res = finish_load y ps r (case ya_decode y d of None \<Rightarrow> default_config r | Some patch \<Rightarrow> patch (default_config r)) fs1
        in (fst res, True, snd res))"
proof -
  obtain fs1 path where f: "findConfigFile ps (lr_rename_ok r) fs = (fs1, path)" by fastforce
  note c = findConfigFile_content [OF assms(1) f]
  have "path \<noteq> []" "fs1 path = Some d" "config_content ps fs1 = Some d" using c assms(3) by auto
  with f assms(2) show thesis by (intro that [of fs1]) (simp_all add: LoadConfig_def Let_def split_beta)
qed

lemma LoadConfig_first:
  assumes "paths_ok ps" "config_content ps fs = None" "LoadConfig y ps r fs = (cfg, ok, fs')"
  shows "encryption_key cfg = generateEncryptionKey (lr_key_bytes r)" "isValidPortValue (sv_Port (ac_Server cfg))"
    "lr_create_ok r \<Longrightarrow> config_content ps fs' = Some (config_header @ ya_marshal y cfg)"
proof -
  obtain fs1 path where f: "findConfigFile ps (lr_rename_ok r) fs = (fs1, path)" by fastforce
  note c = findConfigFile_content [OF assms(1) f]
  have p: "path = []" "config_content ps fs1 = None" using c assms(2) by auto
  show "encryption_key cfg = generateEncryptionKey (lr_key_bytes r)" "isValidPortValue (sv_Port (ac_Server cfg))"
    using assms(3) f p randomPort_range by (auto simp: LoadConfig_def Let_def set_security_def default_config_def)
  assume "lr_create_ok r"
  then have "fs' = fs1(cp_standard ps \<mapsto> config_header @ ya_marshal y cfg)"
    using assms(3) f p by (auto simp: LoadConfig_def createDefaultConfig_def Let_def)
  with p(2) show "config_content ps fs' = Some (config_header @ ya_marshal y cfg)"
    by (auto simp: config_content_def Let_def split: option.splits if_splits)
qed

text \<open>A load of a file that the program itself wrote.\<close>

lemma LoadConfig_written:
  assumes "paths_ok ps" "lr_read_ok r" "config_content ps fs = Some d" "ya_decode y d = Some (\<lambda>_. c)"
    "encryption_key c \<noteq> []" "isValidPortValue (sv_Port (ac_Server c))"
    and l: "LoadConfig y ps r fs = (cfg, ok, fs')"
  shows "encryption_key cfg = encryption_key c \<and> sv_Port (ac_Server cfg) = sv_Port (ac_Server c)"
proof -
  obtain fs1 where "LoadConfig y ps r fs = (let res = finish_load y ps r c fs1 in (fst res, True, snd res))"
    using LoadConfig_existing [OF assms(1-3), of y] assms(4) by (metis option.case(2))
  then have "cfg = fst (finish_load y ps r c fs1)" using l by (simp add: Let_def)
  with assms(5,6) show ?thesis by (simp add: finish_load_security finish_load_port)
qed

section \<open>Restarts\<close>

text \<open>What YAML wrote for a configuration reads back as that configuration, under the file header too.\<close>

definition reads_back :: "yaml \<Rightarrow> AppConfig \<Rightarrow> bool" where
  "reads_back y c \<longleftrightarrow>
     ya_decode y (ya_marshal y c) = Some (\<lambda>_. c) \<and> ya_decode y (config_header @ ya_marshal y c) = Some (\<lambda>_. c)"

text \<open>A document sets the security section, or parts of it, without regard to the other sections.\<close>

definition sections_independent :: "(AppConfig \<Rightarrow> AppConfig) \<Rightarrow> bool" where
  "sections_independent patch \<longleftrightarrow> (\<forall>a b. security a = security b \<longrightarrow> security (patch a) = security (patch b))"

lemma default_security [simp]: "security (default_config r) = \<lparr>sec_EncryptionKey = [], sec_EncryptionKeyVersion = 0\<rparr>"
  by (simp add: default_config_def)

text \<open>
  The encryption key and a drawn port survive restarts. Suppose YAML reads back the configuration the
  first run ends with and the file, if there is one, is well formed. Then after a run whose writes succeed there is a key, it is
  the key of the file when that has one, and the next run, whatever it draws, comes up with the same
  key; and when the first run had to draw a port (no file, or an unusable port in it) the next run
  listens on that port too.
\<close>

lemma LoadConfig_restart:
  assumes "paths_ok ps" "reads_back y cfg1"
    and wf: "\<And>d. config_content ps fs = Some d \<Longrightarrow> \<exists>patch. ya_decode y d = Some patch \<and> sections_independent patch"
    and run1: "lr_read_ok r1" "lr_create_ok r1" "lr_save_port_ok r1" "lr_save_key_ok r1" "lr_key_bytes r1 \<noteq> []"
    and run2: "lr_read_ok r2"
    and l1: "LoadConfig y ps r1 fs = (cfg1, ok1, fs1)" and l2: "LoadConfig y ps r2 fs1 = (cfg2, ok2, fs2)"
  shows "encryption_key cfg1 \<noteq> [] \<and> encryption_key cfg2 = encryption_key cfg1 \<and>
    (\<forall>d patch. config_content ps fs = Some d \<and> ya_decode y d = Some patch \<and> encryption_key (patch (default_config r1)) \<noteq> []
       \<longrightarrow> encryption_key cfg1 = encryption_key (patch (default_config r1))) \<and>
    (config_content ps fs = None \<or>
     (\<exists>d patch. config_content ps fs = Some d \<and> ya_decode y d = Some patch \<and>
        \<not> isValidPortValue (sv_Port (ac_Server (patch (default_config r1)))))
       \<longrightarrow> sv_Port (ac_Server cfg2) = sv_Port (ac_Server cfg1))"
proof (cases "config_content ps fs")
  case None
  note f = LoadConfig_first [OF assms(1) None l1]
  have k: "encryption_key cfg1 \<noteq> []" using f(1) run1(5) by (simp add: generateEncryptionKey_def)
  have dec: "ya_decode y (config_header @ ya_marshal y cfg1) = Some (\<lambda>_. cfg1)"
    using assms(2) by (simp add: reads_back_def)
  from LoadConfig_written [OF assms(1) run2 f(3) [OF run1(2)] dec k f(2) l2] k None show ?thesis by simp
next
  case (Some d)
  then obtain patch where patch: "ya_decode y d = Some patch" "sections_independent patch" using wf by blast
  let ?p = "patch (default_config r1)"
  obtain fs0 where c0: "config_content ps fs0 = Some d"
    and "LoadConfig y ps r1 fs = (let res = finish_load y ps r1 ?p fs0 in (fst res, True, snd res))"
    using LoadConfig_existing [OF assms(1) run1(1) Some, of y] patch(1) by (metis option.case(2))
  then have res: "cfg1 = fst (finish_load y ps r1 ?p fs0)" "fs1 = snd (finish_load y ps r1 ?p fs0)"
    using l1 by (simp_all add: Let_def)
  have k: "encryption_key cfg1 \<noteq> []" "encryption_key ?p \<noteq> [] \<Longrightarrow> encryption_key cfg1 = encryption_key ?p"
    using run1(5) by (simp_all add: res finish_load_security generateEncryptionKey_def)
  have v: "isValidPortValue (sv_Port (ac_Server cfg1))"
    using randomPort_range by (simp add: res finish_load_port)
  note c1 = finish_load_content [OF assms(1) run1(3,4), of y ?p fs0, folded res]
  show ?thesis
  proof (cases "isValidPortValue (sv_Port (ac_Server ?p)) \<and> encryption_key ?p \<noteq> []")
    case True
    have p2: "security (patch (default_config r2)) = security ?p"
      using patch(2) unfolding sections_independent_def by simp
    obtain fs' where "LoadConfig y ps r2 fs1 =
        (let res = finish_load y ps r2 (patch (default_config r2)) fs' in (fst res, True, snd res))"
      using LoadConfig_existing [OF assms(1) run2, of fs1 d y] patch(1) c1 c0 True by (metis option.case(2))
    then have "cfg2 = fst (finish_load y ps r2 (patch (default_config r2)) fs')" using l2 by (simp add: Let_def)
    then have "encryption_key cfg2 = encryption_key ?p" using True p2 by (simp add: finish_load_security)
    with k True Some patch(1) show ?thesis by simp
  next
    case False
    have "config_content ps fs1 = Some (ya_marshal y cfg1)" by (subst c1) (rule if_not_P [OF False])
    moreover have "ya_decode y (ya_marshal y cfg1) = Some (\<lambda>_. cfg1)" using assms(2) by (simp add: reads_back_def)
    ultimately show ?thesis using LoadConfig_written [OF assms(1) run2 _ _ k(1) v l2] k Some patch(1) by simp
  qed
qed

text \<open>
  A malformed file is destroyed: when \<^verbatim>\<open>server.yml\<close> exists and does not parse, one load replaces
  its contents by the defaults with a freshly generated key, so that the settings and the key that
  were in it are gone.
\<close>

lemma LoadConfig_malformed_overwrites:
  assumes "paths_ok ps" "config_content ps fs = Some d" "ya_decode y d = None"
    and "lr_read_ok r" "lr_save_port_ok r" "lr_save_key_ok r"
    and l: "LoadConfig y ps r fs = (cfg, ok, fs')"
  shows "config_content ps fs' = Some (ya_marshal y cfg) \<and> encryption_key cfg = generateEncryptionKey (lr_key_bytes r) \<and>
    sv_Port (ac_Server cfg) = sv_Port (ac_Server (default_config r))"
proof -
  obtain fs1 where c: "config_content ps fs1 = Some d"
    and "LoadConfig y ps r fs = (let res = finish_load y ps r (default_config r) fs1 in (fst res, True, snd res))"
    using LoadConfig_existing [OF assms(1,4,2), of y] assms(3) by (metis option.case(1))
  then have res: "cfg = fst (finish_load y ps r (default_config r) fs1)" "fs' = snd (finish_load y ps r (default_config r) fs1)"
    using l by (simp_all add: Let_def)
  have "isValidPortValue (sv_Port (ac_Server (default_config r)))"
    using randomPort_range by (simp add: default_config_def)
  then show ?thesis using finish_load_content [OF assms(1,5,6), of y "default_config r" fs1]
    by (simp add: res finish_load_security finish_load_port)
qed

section \<open>The robots policy\<close>

lemma recognized_graphic: "\<forall>a\<in>set RecognizedAIBots. a \<noteq> [] \<and> list_all ascii_graphic a"
  by (simp add: RecognizedAIBots_def ascii_graphic_def)

lemma recognized_distinct: "distinct (map (map lower_ascii) RecognizedAIBots)"
  by (simp add: RecognizedAIBots_def lower_ascii_def)

lemma recognized_lower: "a \<in> set RecognizedAIBots \<Longrightarrow> fold_case (trimSpace a) = map lower_ascii a"
proof -
  assume "a \<in> set RecognizedAIBots"
  with recognized_graphic have g: "a \<noteq> []" "\<forall>c\<in>set a. ascii_graphic c" by (auto simp: list_all_iff)
  then have "trimSpace a = a" by (intro trimSpace_ends_graphic) auto
  moreover have "\<forall>c\<in>set a. (of_char c :: nat) < 128" using g(2) by (force simp: ascii_graphic_def)
  ultimately show ?thesis by (simp add: fold_case_ascii)
qed

lemma recognized_fold:
  "a \<in> set RecognizedAIBots \<Longrightarrow> b \<in> set RecognizedAIBots \<Longrightarrow> equalFold (trimSpace a) b \<longleftrightarrow> a = b"
  using recognized_lower [of a] recognized_distinct by (auto simp: equalFold_def distinct_map inj_on_def)

lemma canonical_bot_recognized: "canonical_bot n = Some b \<Longrightarrow> b \<in> set RecognizedAIBots"
  by (auto simp: canonical_bot_def find_Some_iff)

lemma policy_words: "normalizeAIBotPolicy v = Some p \<Longrightarrow> p = ''allow'' \<or> p = ''deny''"
  by (auto simp: normalizeAIBotPolicy_def Let_def split: if_splits)

lemma policy_normal:
  "toLower (trimSpace ''allow'') = ''allow''" "toLower (trimSpace ''deny'') = ''deny''"
  "equalFold (trimSpace ''allow'') ''deny'' = False" "equalFold (trimSpace ''deny'') ''deny'' = True"
  by code_simp+

text \<open>The map built by the loop: entries for recognized bots with a valid policy, at most one per bot.\<close>

definition bots_ok :: "(string \<times> string) list \<Rightarrow> bool" where
  "bots_ok bs \<longleftrightarrow> distinct (map fst bs) \<and> (\<forall>e\<in>set bs. fst e \<in> set RecognizedAIBots \<and> (snd e = ''allow'' \<or> snd e = ''deny''))"

lemma normalize_bots_ok: "normalize_bots bots acc = Inr bs \<Longrightarrow> bots_ok acc \<Longrightarrow> bots_ok bs"
proof (induction bots acc rule: normalize_bots.induct)
  case (2 nm vl rest acc)
  from 2(2) obtain c p where cp: "canonical_bot nm = Some c" "normalizeAIBotPolicy vl = Some p"
    and r: "normalize_bots rest ((c, p) # filter (\<lambda>e. fst e \<noteq> c) acc) = Inr bs"
    by (auto split: option.splits)
  have "bots_ok ((c, p) # filter (\<lambda>e. fst e \<noteq> c) acc)"
    using 2(3) cp policy_words canonical_bot_recognized by (auto simp: bots_ok_def distinct_map_filter)
  with 2(1) cp r show ?case by blast
qed simp

text \<open>The policy an update submits for a bot: that of its last entry.\<close>

definition submitted :: "(string \<times> string) list \<Rightarrow> string \<Rightarrow> string option" where
  "submitted bots b = map_of (rev (map (\<lambda>(n, v). (the (canonical_bot n), the (normalizeAIBotPolicy v))) bots)) b"

lemma normalize_bots_lookup:
  "normalize_bots bots acc = Inr bs \<Longrightarrow>
     map_of bs b = (case submitted bots b of None \<Rightarrow> map_of acc b | Some p \<Rightarrow> Some p)"
proof (induction bots acc rule: normalize_bots.induct)
  case (1 acc)
  then show ?case by (simp add: submitted_def)
next
  case (2 nm vl rest acc)
  from 2(2) obtain c p where cp: "canonical_bot nm = Some c" "normalizeAIBotPolicy vl = Some p"
    and r: "normalize_bots rest ((c, p) # filter (\<lambda>e. fst e \<noteq> c) acc) = Inr bs"
    by (auto split: option.splits)
  have f: "map_of (filter (\<lambda>e. fst e \<noteq> c) acc) b = (if b = c then None else map_of acc b)"
    by (induction acc) auto
  have "submitted ((nm, vl) # rest) b = (case submitted rest b of None \<Rightarrow> if b = c then Some p else None | Some q \<Rightarrow> Some q)"
    using cp by (auto simp: submitted_def map_add_def split: option.splits)
  with 2(1) [OF cp r] f show ?case by (auto split: option.splits)
qed

lemma bot_denied_normalized:
  assumes "bots_ok bs" "b \<in> set RecognizedAIBots" "d = ''allow'' \<or> d = ''deny''"
  shows "bot_denied \<lparr>ab_Default = d, ab_Bots = bs\<rparr> b \<longleftrightarrow>
    (case map_of bs b of None \<Rightarrow> d = ''deny'' | Some p \<Rightarrow> p = ''deny'')"
proof -
  have "find (\<lambda>(name, value). equalFold (trimSpace name) b) bs = find (\<lambda>(name, value). name = b) bs"
    using assms(1,2) recognized_fold by (intro find_cong) (auto simp: bots_ok_def)
  moreover have "find (\<lambda>(name, value). name = b) bs = map_option (Pair b) (map_of bs b)"
    by (induction bs) auto
  moreover have "map_of bs b = Some p \<Longrightarrow> p = ''allow'' \<or> p = ''deny''" for p
    using assms(1) by (auto simp: bots_ok_def dest!: map_of_SomeD)
  ultimately show ?thesis using assms(3) policy_normal
    by (auto simp: bot_denied_def Let_def split: option.splits)
qed

text \<open>
  The robots policy that is submitted is the one that is served: an update that is accepted makes
  \<^verbatim>\<open>robots.txt\<close> deny exactly the recognized crawlers whose submitted policy is deny or, without an entry
  of their own, all of them when the submitted default is deny; an update that is refused (an unknown
  crawler, a policy other than allow or deny) changes neither the configuration nor the file.
\<close>

lemma UpdateWebRobotsAIBots_enforced:
  assumes "UpdateWebRobotsAIBots y ps rn ok dflt bots st = (st', err)"
  shows "(err = None \<longrightarrow> (\<exists>cfg. cs_global st' = Some cfg \<and>
      DeniedAIBots (ac_AIBots cfg) = filter (\<lambda>b. case submitted bots b of
        Some p \<Rightarrow> p = ''deny'' | None \<Rightarrow> normalizeAIBotPolicy dflt = Some ''deny'') RecognizedAIBots)) \<and>
    (err \<noteq> None \<longrightarrow> st' = st \<or> err = Some SaveFailed)"
proof (cases "err \<noteq> None")
  case True
  then show ?thesis using assms
    by (auto simp: UpdateWebRobotsAIBots_def save_global_def split_beta Let_def split: option.splits sum.splits if_splits)
next
  case False
  with assms obtain cfg0 p bs where a: "normalizeAIBotPolicy dflt = Some p" "normalize_bots bots [] = Inr bs"
    "cs_global st' = Some (cfg0\<lparr>ac_AIBots := \<lparr>ab_Default = p, ab_Bots = bs\<rparr>\<rparr>)"
    by (auto simp: UpdateWebRobotsAIBots_def save_global_def split_beta Let_def split: option.splits sum.splits if_splits)
  have ok: "bots_ok bs" using normalize_bots_ok [OF a(2)] by (simp add: bots_ok_def)
  have "DeniedAIBots \<lparr>ab_Default = p, ab_Bots = bs\<rparr> = filter (\<lambda>b. case submitted bots b of
      Some p \<Rightarrow> p = ''deny'' | None \<Rightarrow> normalizeAIBotPolicy dflt = Some ''deny'') RecognizedAIBots"
    unfolding DeniedAIBots_def
    by (rule filter_cong [OF refl])
       (simp add: bot_denied_normalized [OF ok _ policy_words [OF a(1)]] normalize_bots_lookup [OF a(2)] a(1) split: option.splits)
  with a(3) False show ?thesis by simp
qed

section \<open>Witnesses\<close>

definition demo_paths :: config_paths where
  "demo_paths = \<lparr>cp_configDir = None, cp_standard = ''/etc/server.yml'', cp_yaml = ''/etc/server.yaml''\<rparr>"

definition demo_run :: "32 word \<Rightarrow> nat \<Rightarrow> load_run" where
  "demo_run port key =
     \<lparr>lr_hostname = ''host'', lr_default_port = port, lr_other_port = port, lr_key_bytes = replicate 32 key,
      lr_rename_ok = True, lr_read_ok = True, lr_create_ok = True, lr_save_port_ok = True, lr_save_key_ok = True\<rparr>"

definition demo_files :: files where
  "demo_files = [''/etc/server.yml'' \<mapsto> ''port: 70000'']"

definition set_port :: "AppConfig \<Rightarrow> AppConfig" where
  "set_port c = c\<lparr>ac_Server := (ac_Server c)\<lparr>sv_Port := PortInt 70000\<rparr>\<rparr>"

lemma finish_load_config: "fst (finish_load y ps r c fs) = fst (finish_load y' ps' r c fs')"
  by (simp add: finish_load_def Let_def split_beta)

text \<open>A YAML that knows two documents: the one in the file and the configuration the first run ends with.\<close>

definition demo_result :: AppConfig where
  "demo_result = fst (finish_load \<lparr>ya_marshal = (\<lambda>_. []), ya_decode = (\<lambda>_. None)\<rparr> demo_paths (demo_run 7 1)
     (set_port (default_config (demo_run 7 1))) demo_files)"

definition demo_yaml :: yaml where
  "demo_yaml =
     \<lparr>ya_marshal = (\<lambda>_. ''saved''),
      ya_decode = (\<lambda>d. if d = ''port: 70000'' then Some set_port
                      else if d = ''saved'' \<or> d = config_header @ ''saved'' then Some (\<lambda>_. demo_result) else None)\<rparr>"

lemma demo_paths_ok: "paths_ok demo_paths"
  by (simp add: paths_ok_def demo_paths_def)

lemma demo_content: "config_content demo_paths demo_files = Some ''port: 70000''"
  by (simp add: config_content_def demo_paths_def demo_files_def)

lemma LoadConfig_restart_example:
  "\<exists>cfg1 ok1 fs1 cfg2 ok2 fs2.
     LoadConfig demo_yaml demo_paths (demo_run 7 1) demo_files = (cfg1, ok1, fs1) \<and>
     LoadConfig demo_yaml demo_paths (demo_run 8 2) fs1 = (cfg2, ok2, fs2) \<and>
     encryption_key cfg2 = generateEncryptionKey (replicate 32 1) \<and> sv_Port (ac_Server cfg2) = PortInt 64007"
proof -
  obtain cfg1 ok1 fs1 where l1: "LoadConfig demo_yaml demo_paths (demo_run 7 1) demo_files = (cfg1, ok1, fs1)"
    by (rule prod_cases3)
  obtain cfg2 ok2 fs2 where l2: "LoadConfig demo_yaml demo_paths (demo_run 8 2) fs1 = (cfg2, ok2, fs2)"
    by (rule prod_cases3)
  have dec: "ya_decode demo_yaml ''port: 70000'' = Some set_port" by (simp add: demo_yaml_def)
  have run: "lr_read_ok (demo_run p k)" "lr_create_ok (demo_run p k)" "lr_save_port_ok (demo_run p k)"
    "lr_save_key_ok (demo_run p k)" "lr_key_bytes (demo_run p k) \<noteq> []" for p k
    by (simp_all add: demo_run_def)
  obtain fs0 where "LoadConfig demo_yaml demo_paths (demo_run 7 1) demo_files =
      (let res = finish_load demo_yaml demo_paths (demo_run 7 1) (set_port (default_config (demo_run 7 1))) fs0
       in (fst res, True, snd res))"
    using LoadConfig_existing [OF demo_paths_ok run(1) demo_content, of demo_yaml 7 1] dec by (metis option.case(2))
  then have c1: "cfg1 = demo_result"
    unfolding demo_result_def using l1 finish_load_config by (simp add: Let_def) metis
  have "sections_independent set_port" by (simp add: sections_independent_def set_port_def)
  moreover have "reads_back demo_yaml cfg1"
    unfolding reads_back_def c1 by (simp add: demo_yaml_def config_header_def)
  moreover have p: "sv_Port (ac_Server (set_port c)) = PortInt 70000" "\<not> isValidPortValue (PortInt 70000)" for c
    by (simp_all add: set_port_def port_in_range_def)
  ultimately have r: "encryption_key cfg2 = encryption_key cfg1 \<and> sv_Port (ac_Server cfg2) = sv_Port (ac_Server cfg1)"
    using LoadConfig_restart [OF demo_paths_ok _ _ run run(1) l1 l2] demo_content dec by fastforce
  have "encryption_key cfg1 = generateEncryptionKey (replicate 32 1)" "sv_Port (ac_Server cfg1) = PortInt 64007"
    using p by (simp_all add: c1 demo_result_def finish_load_security finish_load_port set_port_def demo_run_def randomPort_def)
  with r l1 l2 show ?thesis by auto
qed

lemma LoadConfig_malformed_overwrites_example:
  "config_content demo_paths (snd (snd (LoadConfig \<lparr>ya_marshal = (\<lambda>_. ''defaults''), ya_decode = (\<lambda>_. None)\<rparr> demo_paths
     (demo_run 7 1) [''/etc/server.yml'' \<mapsto> ''encryption_key: [x'']))) = Some ''defaults''"
proof -
  let ?y = "\<lparr>ya_marshal = (\<lambda>_. ''defaults''), ya_decode = (\<lambda>_. None)\<rparr>" and ?fs = "[''/etc/server.yml'' \<mapsto> ''encryption_key: [x'']"
  obtain cfg ok fs' where l: "LoadConfig ?y demo_paths (demo_run 7 1) ?fs = (cfg, ok, fs')" by (rule prod_cases3)
  have "config_content demo_paths ?fs = Some ''encryption_key: [x''" by (simp add: config_content_def demo_paths_def)
  moreover have "lr_read_ok (demo_run 7 1)" "lr_save_port_ok (demo_run 7 1)" "lr_save_key_ok (demo_run 7 1)"
    by (simp_all add: demo_run_def)
  ultimately show ?thesis using LoadConfig_malformed_overwrites [OF demo_paths_ok _ _ _ _ _ l] l by simp
qed

definition demo_state :: config_state where
  "demo_state = \<lparr>cs_global = Some sample_config, cs_files = Map.empty\<rparr>"

lemma UpdateWebRobotsAIBots_enforced_example:
  "\<exists>st'. UpdateWebRobotsAIBots demo_yaml demo_paths True True ''deny'' [('' gptbot'', ''Allow'')] demo_state = (st', None) \<and>
     DeniedAIBots (ac_AIBots (the (cs_global st'))) = tl RecognizedAIBots"
proof -
  let ?b = "[('' gptbot'', ''Allow'')]"
  have n: "normalizeAIBotPolicy ''deny'' = Some ''deny''" "normalize_bots ?b [] = Inr [(''GPTBot'', ''allow'')]" by code_simp+
  obtain st' where u: "UpdateWebRobotsAIBots demo_yaml demo_paths True True ''deny'' ?b demo_state = (st', None)"
    by (simp add: UpdateWebRobotsAIBots_def n demo_state_def save_global_def SaveConfig_def split_beta Let_def
        del: normalize_bots.simps)
  have "filter (\<lambda>b. case submitted ?b b of Some p \<Rightarrow> p = ''deny'' | None \<Rightarrow> normalizeAIBotPolicy ''deny'' = Some ''deny'')
      RecognizedAIBots = tl RecognizedAIBots"
    by code_simp
  with UpdateWebRobotsAIBots_enforced [OF u] u show ?thesis by force
qed

end
