(* ===== verification/Trusted_Proxies.thy ===== *)
theory Trusted_Proxies
  imports Config Go_Time
begin

text \<open>
  Who may name the client: \<^verbatim>\<open>src/util/trusted_proxies.go\<close> and the request resolvers of
  \<^verbatim>\<open>src/util/host.go\<close>. A request is reduced to what these functions read. DNS answers, the clock and
  the host's own name are arguments; the cache of DNS answers is state.
\<close>

section \<open>Requests\<close>

text \<open>
  \<open>rq_Header\<close> is \<^verbatim>\<open>Header.Get\<close>: the empty string for an absent header. \<^verbatim>\<open>net/http\<close> admits only ASCII
  in the Host header, for which \<open>toLower\<close> is exact.
\<close>

record Request =
  rq_RemoteAddr :: string
  rq_Host :: string
  rq_TLS :: bool
  rq_Header :: "string \<Rightarrow> string"

definition strip_port :: "string \<Rightarrow> string" where
  "strip_port s = (case SplitHostPort s of Some (h, _) \<Rightarrow> h | None \<Rightarrow> s)"

definition OverlayHostFromRequest :: "Request \<Rightarrow> string" where
  "OverlayHostFromRequest r =
     (let lower = toLower (trimSuffix (strip_port (rq_Host r)) ''.'')
      in if suffix ''.onion'' lower \<or> suffix ''.i2p'' lower then lower else [])"

text \<open>The first non-empty header of a list.\<close>

fun first_header :: "Request \<Rightarrow> string list \<Rightarrow> string" where
  "first_header r [] = []"
| "first_header r (h # hs) = (if rq_Header r h \<noteq> [] then rq_Header r h else first_header r hs)"

definition hostHeaders :: "string list" where
  "hostHeaders = [''X-Forwarded-Host'', ''X-Real-Host'', ''X-Original-Host'']"

definition GetHostFromRequest :: "string \<Rightarrow> Request \<Rightarrow> string" where
  "GetHostFromRequest fqdn r =
     (let overlay = OverlayHostFromRequest r; host = first_header r hostHeaders
      in if overlay \<noteq> [] then overlay else if host \<noteq> [] then strip_port host else fqdn)"

text \<open>Of \<^verbatim>\<open>X-Forwarded-For\<close> the part before the first comma counts.\<close>

definition GetClientIP :: "Request \<Rightarrow> string" where
  "GetClientIP r =
     (let h = rq_Header r in
      if h ''CF-Connecting-IP'' \<noteq> [] then h ''CF-Connecting-IP''
      else if h ''X-Real-IP'' \<noteq> [] then h ''X-Real-IP''
      else if h ''X-Forwarded-For'' \<noteq> [] then takeWhile (\<lambda>c. c \<noteq> CHR '','') (h ''X-Forwarded-For'')
      else if h ''True-Client-IP'' \<noteq> [] then h ''True-Client-IP''
      else if h ''X-Client-IP'' \<noteq> [] then h ''X-Client-IP''
      else strip_port (rq_RemoteAddr r))"

section \<open>Trusted peers\<close>

definition trustedCIDRs :: "string list" where
  "trustedCIDRs = [''127.0.0.0/8'', ''10.0.0.0/8'', ''172.16.0.0/12'', ''192.168.0.0/16'', ''fc00::/7'', ''169.254.0.0/16'',
     ''fe80::/10'']"

text \<open>A panic is \<open>None\<close>.\<close>

definition mustParseCIDRs :: "string list \<Rightarrow> IPNet list option" where
  "mustParseCIDRs cidrs = collect (map ParseCIDR cidrs)"

definition alwaysTrustedCIDRs :: "IPNet list" where
  "alwaysTrustedCIDRs = the (mustParseCIDRs trustedCIDRs)"

record dnsTrustEntry =
  de_ips :: "IP list"
  de_resolved :: instant

type_synonym dns_cache = "string \<rightharpoonup> dnsTrustEntry"

text \<open>What one request meets of DNS and of the clock, per name: the answer and the two clock readings.\<close>

record dns_io =
  di_lookup :: "string \<Rightarrow> IP list option"
  di_since :: "string \<Rightarrow> instant"
  di_now :: "string \<Rightarrow> instant"

definition dnsTrustRefresh :: int where
  "dnsTrustRefresh = 5 * minute_ns"

definition resolveDNSTrustEntry :: "dns_io \<Rightarrow> string \<Rightarrow> dns_cache \<Rightarrow> dns_cache \<times> IP list" where
  "resolveDNSTrustEntry io name cache =
     (let fresh = (let addrs = (case di_lookup io name of Some a \<Rightarrow> a | None \<Rightarrow> [])
                   in (cache(name \<mapsto> \<lparr>de_ips = addrs, de_resolved = di_now io name\<rparr>), addrs))
      in case cache name of
           Some e \<Rightarrow> if di_since io name - de_resolved e < dnsTrustRefresh then (cache, de_ips e) else fresh
         | None \<Rightarrow> fresh)"

definition sameSlash24 :: "IP \<Rightarrow> string \<Rightarrow> bool" where
  "sameSlash24 ip listenAddr =
     (case To4 ip of
        None \<Rightarrow> False
      | Some ip4 \<Rightarrow>
          (case ParseIP (strip_port listenAddr) of
             None \<Rightarrow> False
           | Some listenIP \<Rightarrow>
               (case To4 listenIP of
                  None \<Rightarrow> False
                | Some l4 \<Rightarrow> \<not> IsUnspecified listenIP \<and> ip4 ! 0 = l4 ! 0 \<and> ip4 ! 1 = l4 ! 1 \<and> ip4 ! 2 = l4 ! 2)))"

text \<open>The loop over the additional entries: an address, a block or a name.\<close>

fun trusted_entry :: "dns_io \<Rightarrow> IP \<Rightarrow> string list \<Rightarrow> dns_cache \<Rightarrow> dns_cache \<times> bool" where
  "trusted_entry io ip [] cache = (cache, False)"
| "trusted_entry io ip (e # es) cache =
     (if e = [] then trusted_entry io ip es cache
      else case ParseIP e of
        Some eip \<Rightarrow> if ip_Equal eip ip then (cache, True) else trusted_entry io ip es cache
      | None \<Rightarrow>
          (case ParseCIDR e of
             Some n \<Rightarrow> if net_Contains n ip then (cache, True) else trusted_entry io ip es cache
           | None \<Rightarrow>
               (let (cache', ips) = resolveDNSTrustEntry io e cache
                in if list_ex (\<lambda>r. ip_Equal r ip) ips then (cache', True) else trusted_entry io ip es cache')))"

definition isTrustedPeer ::
  "ServerConfig option \<Rightarrow> dns_io \<Rightarrow> string \<Rightarrow> dns_cache \<Rightarrow> dns_cache \<times> bool" where
  "isTrustedPeer cfg io remoteAddr cache =
     (case ParseIP (strip_port remoteAddr) of
        None \<Rightarrow> (cache, False)
      | Some ip \<Rightarrow>
          if IsLoopback ip then (cache, True)
          else if list_ex (\<lambda>n. net_Contains n ip) alwaysTrustedCIDRs then (cache, True)
          else
            (case cfg of
               None \<Rightarrow> (cache, False)
             | Some sv \<Rightarrow>
                 if sv_Address sv \<noteq> [] \<and> sameSlash24 ip (sv_Address sv) then (cache, True)
                 else trusted_entry io ip (sv_TrustedProxies sv) cache))"

section \<open>Gated resolvers\<close>

definition TrustedGetClientIP ::
  "ServerConfig option \<Rightarrow> dns_io \<Rightarrow> Request \<Rightarrow> dns_cache \<Rightarrow> dns_cache \<times> string" where
  "TrustedGetClientIP cfg io r cache =
     (let (cache', trusted) = isTrustedPeer cfg io (rq_RemoteAddr r) cache
      in if \<not> trusted then (cache', strip_port (rq_RemoteAddr r)) else (cache', GetClientIP r))"

definition TrustedIsHTTPS ::
  "ServerConfig option \<Rightarrow> dns_io \<Rightarrow> Request option \<Rightarrow> dns_cache \<Rightarrow> dns_cache \<times> bool" where
  "TrustedIsHTTPS cfg io req cache =
     (case req of
        None \<Rightarrow> (cache, False)
      | Some r \<Rightarrow>
          if rq_TLS r then (cache, True)
          else
            (let (cache', trusted) = isTrustedPeer cfg io (rq_RemoteAddr r) cache in
             if \<not> trusted then (cache', False)
             else if equalFold (trimSpace (rq_Header r ''X-Forwarded-Proto'')) ''https'' then (cache', True)
             else (cache', equalFold (trimSpace (rq_Header r ''X-Forwarded-Ssl'')) ''on'')))"

definition TrustedGetHostFromRequest ::
  "ServerConfig option \<Rightarrow> dns_io \<Rightarrow> string \<Rightarrow> Request option \<Rightarrow> dns_cache \<Rightarrow> dns_cache \<times> string" where
  "TrustedGetHostFromRequest cfg io fqdn req cache =
     (case req of
        None \<Rightarrow> (cache, [])
      | Some r \<Rightarrow>
          if OverlayHostFromRequest r \<noteq> [] then (cache, OverlayHostFromRequest r)
          else
            (let (cache', trusted) = isTrustedPeer cfg io (rq_RemoteAddr r) cache; host = first_header r hostHeaders
             in if trusted \<and> host \<noteq> [] then (cache', strip_port host) else (cache', fqdn)))"

record HostInfo =
  hi_Protocol :: string
  hi_Hostname :: string
  hi_Port :: string
  hi_FullHost :: string
  hi_ExampleURL :: string

definition host_info :: "string \<Rightarrow> string \<Rightarrow> string \<Rightarrow> HostInfo" where
  "host_info protocol hostname port =
     \<lparr>hi_Protocol = protocol, hi_Hostname = hostname, hi_Port = port, hi_FullHost = protocol @ ''://'' @ hostname,
      hi_ExampleURL = protocol @ ''://'' @ hostname @ ''/London''\<rparr>"

definition GetHostInfo ::
  "ServerConfig option \<Rightarrow> dns_io \<Rightarrow> string \<Rightarrow> string \<Rightarrow> Request \<Rightarrow> dns_cache \<Rightarrow> dns_cache \<times> HostInfo" where
  "GetHostInfo cfg io fqdn portEnv r cache =
     (if OverlayHostFromRequest r \<noteq> [] then (cache, host_info ''http'' (OverlayHostFromRequest r) [])
      else
        (let (c1, https) = TrustedIsHTTPS cfg io (Some r) cache;
             (c2, hostname) = TrustedGetHostFromRequest cfg io fqdn (Some r) c1
         in (c2, host_info (if https then ''https'' else ''http'') hostname portEnv)))"

section \<open>The ranges that are always trusted\<close>

lemma mask_byte_0 [simp]: "mask_byte 0 = 0"
  by (simp add: mask_byte_def)

lemmas addr_eval = parseAddr_def parseIPv4_def octet_def is_digit_def digits_val_def digit_val_def

lemma parse_v4_blocks:
  "parseAddr ''127.0.0.0'' = Some [127, 0, 0, 0]" "parseAddr ''10.0.0.0'' = Some [10, 0, 0, 0]"
  "parseAddr ''172.16.0.0'' = Some [172, 16, 0, 0]" "parseAddr ''192.168.0.0'' = Some [192, 168, 0, 0]"
  "parseAddr ''169.254.0.0'' = Some [169, 254, 0, 0]"
  by (simp_all add: addr_eval)

lemma parse_v6_blocks:
  "parseAddr ''fc00::'' = Some (252 # 0 # replicate 14 0)" "parseAddr ''fe80::'' = Some (254 # 128 # replicate 14 0)"
proof -
  have e: "(8 :: nat) = Suc 7" by simp
  have "ipv6_groups 8 [] None ''fc00::'' = Some ([252, 0], Some 2, [])"
    by (subst e, subst ipv6_groups.simps) (simp add: hex_val_def)
  then show "parseAddr ''fc00::'' = Some (252 # 0 # replicate 14 0)" by (simp add: parseAddr_def parseIPv6_def)
  have "ipv6_groups 8 [] None ''fe80::'' = Some ([254, 128], Some 2, [])"
    by (subst e, subst ipv6_groups.simps) (simp add: hex_val_def)
  then show "parseAddr ''fe80::'' = Some (254 # 128 # replicate 14 0)" by (simp add: parseAddr_def parseIPv6_def)
qed

lemma dtoi_blocks: "dtoi ''8'' = Some 8" "dtoi ''12'' = Some 12" "dtoi ''16'' = Some 16" "dtoi ''7'' = Some 7" "dtoi ''10'' = Some 10"
  by (simp_all add: dtoi_def is_digit_def digits_val_def digit_val_def)

lemma CIDRMask_zero: "CIDRMask 0 n = replicate n 0"
  by (induction n) simp_all

lemma CIDRMask_two: "k \<le> 16 \<Longrightarrow> CIDRMask k (Suc (Suc n)) = mask_byte (min 8 k) # mask_byte (min 8 (k - 8)) # replicate n 0"
  by (simp add: CIDRMask_zero)

text \<open>Blocks of at most 16 bits, as all the built-in ones are: membership is decided by the first two bytes.\<close>

definition in_block :: "nat \<Rightarrow> nat \<Rightarrow> nat \<Rightarrow> nat \<Rightarrow> nat \<Rightarrow> bool" where
  "in_block k p q a b \<longleftrightarrow> p div 2 ^ (8 - min 8 k) = a div 2 ^ (8 - min 8 k) \<and>
     q div 2 ^ (8 - min 8 (k - 8)) = b div 2 ^ (8 - min 8 (k - 8))"

definition block4 :: "nat \<Rightarrow> byte \<Rightarrow> byte \<Rightarrow> IPNet" where
  "block4 k p q = \<lparr>net_IP = ip_Mask (as16 [p, q, 0, 0]) (CIDRMask k (Suc (Suc 2))), net_Mask = CIDRMask k (Suc (Suc 2))\<rparr>"

definition block16 :: "nat \<Rightarrow> byte \<Rightarrow> byte \<Rightarrow> IPNet" where
  "block16 k p q = \<lparr>net_IP = ip_Mask (as16 (p # q # replicate 14 0)) (CIDRMask k (Suc (Suc 14))), net_Mask = CIDRMask k (Suc (Suc 14))\<rparr>"

lemma ParseCIDR_block:
  assumes "cut_char (CHR ''/'') s = (addr, Some m)" "dtoi m = Some k" "k \<le> 16"
  shows "parseAddr addr = Some [p, q, 0, 0] \<Longrightarrow> ParseCIDR s = Some (block4 k p q)"
    "parseAddr addr = Some (p # q # replicate 14 0) \<Longrightarrow> ParseCIDR s = Some (block16 k p q)"
  using assms by (simp_all add: ParseCIDR_def block4_def block16_def numeral_2_eq_2)

lemma trustedCIDRs_parse:
  "mustParseCIDRs trustedCIDRs =
     Some [block4 8 127 0, block4 8 10 0, block4 12 172 16, block4 16 192 168, block16 7 252 0, block4 16 169 254,
           block16 10 254 128]"
proof -
  have "ParseCIDR ''127.0.0.0/8'' = Some (block4 8 127 0)" "ParseCIDR ''10.0.0.0/8'' = Some (block4 8 10 0)"
    "ParseCIDR ''172.16.0.0/12'' = Some (block4 12 172 16)" "ParseCIDR ''192.168.0.0/16'' = Some (block4 16 192 168)"
    "ParseCIDR ''169.254.0.0/16'' = Some (block4 16 169 254)"
    by (rule ParseCIDR_block(1), simp, rule dtoi_blocks, simp, rule parse_v4_blocks)+
  moreover have "ParseCIDR ''fc00::/7'' = Some (block16 7 252 0)" "ParseCIDR ''fe80::/10'' = Some (block16 10 254 128)"
    by (rule ParseCIDR_block(2), simp, rule dtoi_blocks, simp, rule parse_v6_blocks)+
  ultimately show ?thesis by (simp add: mustParseCIDRs_def trustedCIDRs_def)
qed

lemma To4_list: "To4 ip = Some v \<Longrightarrow> \<exists>a b c d. v = [a, b, c, d]"
  using To4_Some [of ip v] by (auto simp: length_Suc_conv numeral_eq_Suc)

lemma block4_eq:
  assumes "k \<le> 16"
  shows "block4 k p q = \<lparr>net_IP = [p AND mask_byte (min 8 k), q AND mask_byte (min 8 (k - 8)), 0, 0],
    net_Mask = [mask_byte (min 8 k), mask_byte (min 8 (k - 8)), 0, 0]\<rparr>"
proof -
  let ?m = "[mask_byte (min 8 k), mask_byte (min 8 (k - 8)), 0, 0]"
  have m: "CIDRMask k (Suc (Suc 2)) = ?m" using assms CIDRMask_two [of k 2] by (simp only: numeral_2_eq_2 replicate.simps)
  have "ip_Mask (as16 [p, q, 0, 0]) ?m = [p AND mask_byte (min 8 k), q AND mask_byte (min 8 (k - 8)), 0, 0]"
    by (simp add: ip_Mask_v4)
  then show ?thesis unfolding block4_def m by simp
qed

lemma block4_Contains:
  assumes "k \<le> 16" "length ip = 16"
  shows "net_Contains (block4 k p q) ip \<longleftrightarrow>
    (case To4 ip of None \<Rightarrow> False | Some v \<Rightarrow> in_block k (unat p) (unat q) (unat (v ! 0)) (unat (v ! 1)))"
proof (cases "To4 ip")
  case None
  then show ?thesis
    using assms(2) unfolding block4_eq [OF assms(1)]
    by (simp add: net_Contains_def network_number_def To4_def [of "[_, _, _, _]"])
next
  case (Some v)
  then obtain a b c d where "v = [a, b, c, d]" using To4_list by blast
  with Some show ?thesis unfolding block4_eq [OF assms(1)]
    by (simp add: net_Contains_def network_number_def To4_def [of "[_, _, _, _]"] in_block_def and.assoc masked_div)
qed

lemma block16_eq:
  assumes "k \<le> 16"
  shows "block16 k p q = \<lparr>net_IP = (p AND mask_byte (min 8 k)) # (q AND mask_byte (min 8 (k - 8))) # replicate 14 0,
    net_Mask = mask_byte (min 8 k) # mask_byte (min 8 (k - 8)) # replicate 14 0\<rparr>"
proof -
  let ?m = "mask_byte (min 8 k) # mask_byte (min 8 (k - 8)) # replicate 14 0"
  have m: "CIDRMask k (Suc (Suc 14)) = ?m" using assms by (rule CIDRMask_two)
  have "ip_Mask (as16 (p # q # replicate 14 0)) ?m
      = (p AND mask_byte (min 8 k)) # (q AND mask_byte (min 8 (k - 8))) # replicate 14 0"
    by (simp add: ip_Mask_v6 zip_replicate1 zip_replicate2)
  then show ?thesis unfolding block16_def m by simp
qed

lemma masked_zeros: "list_all (\<lambda>(a :: byte, b, c). a AND b = c AND b) (zip (replicate n 0) (zip (replicate n 0) xs))"
proof (induction n arbitrary: xs)
  case (Suc n)
  then show ?case by (cases xs) auto
qed simp

lemma block16_Contains:
  assumes "k \<le> 16" "length ip = 16"
  shows "net_Contains (block16 k p q) ip \<longleftrightarrow>
    To4 ip = None \<and> in_block k (unat p) (unat q) (unat (ip ! 0)) (unat (ip ! 1))"
proof -
  have t: "To4 (x # y # replicate 14 0) = None" for x y
  proof -
    have "v4_prefix ! 10 \<noteq> take 12 (x # y # replicate 14 0) ! 10" by (simp add: v4_prefix_def)
    then have "take 12 (x # y # replicate 14 0) \<noteq> v4_prefix" by metis
    then show ?thesis by (simp add: To4_def)
  qed
  obtain a r' where r': "ip = a # r'" using assms(2) by (cases ip) auto
  then obtain b r where ip: "ip = a # b # r" using assms(2) by (cases r') auto
  show ?thesis
  proof (cases "To4 ip")
    case None
    with assms ip show ?thesis unfolding block16_eq [OF assms(1)]
      by (simp add: net_Contains_def network_number_def t in_block_def and.assoc masked_div masked_zeros)
  next
    case (Some v)
    with To4_Some [OF Some] show ?thesis unfolding block16_eq [OF assms(1)]
      by (simp add: net_Contains_def network_number_def t)
  qed
qed

text \<open>
  The reference: private, loopback and link-local ranges as the numbers of the first two bytes of an
  IPv4 address, mapped ones included, and of an IPv6 address.
\<close>

definition private_v4 :: "nat \<Rightarrow> nat \<Rightarrow> bool" where
  "private_v4 a b \<longleftrightarrow> a = 127 \<or> a = 10 \<or> a = 172 \<and> 16 \<le> b \<and> b \<le> 31 \<or> a = 192 \<and> b = 168 \<or> a = 169 \<and> b = 254"

definition private_v6 :: "nat \<Rightarrow> nat \<Rightarrow> bool" where
  "private_v6 a b \<longleftrightarrow> a = 252 \<or> a = 253 \<or> a = 254 \<and> 128 \<le> b \<and> b \<le> 191"

definition private_address :: "IP \<Rightarrow> bool" where
  "private_address ip =
     (case To4 ip of
        Some v \<Rightarrow> private_v4 (unat (v ! 0)) (unat (v ! 1))
      | None \<Rightarrow> private_v6 (unat (ip ! 0)) (unat (ip ! 1)) \<or> ip = replicate 15 0 @ [1])"

lemma in_block_ranges:
  "a < 256 \<Longrightarrow> b < 256 \<Longrightarrow> in_block 8 127 0 a b \<longleftrightarrow> a = 127"
  "a < 256 \<Longrightarrow> b < 256 \<Longrightarrow> in_block 8 10 0 a b \<longleftrightarrow> a = 10"
  "a < 256 \<Longrightarrow> b < 256 \<Longrightarrow> in_block 12 172 16 a b \<longleftrightarrow> a = 172 \<and> 16 \<le> b \<and> b \<le> 31"
  "in_block 16 192 168 a b \<longleftrightarrow> a = 192 \<and> b = 168" "in_block 16 169 254 a b \<longleftrightarrow> a = 169 \<and> b = 254"
  "a < 256 \<Longrightarrow> b < 256 \<Longrightarrow> in_block 7 252 0 a b \<longleftrightarrow> a = 252 \<or> a = 253"
  "a < 256 \<Longrightarrow> b < 256 \<Longrightarrow> in_block 10 254 128 a b \<longleftrightarrow> a = 254 \<and> 128 \<le> b \<and> b \<le> 191"
  by (auto simp: in_block_def)

lemma always_trusted_iff:
  assumes "length ip = 16"
  shows "IsLoopback ip \<or> list_ex (\<lambda>n. net_Contains n ip) alwaysTrustedCIDRs \<longleftrightarrow> private_address ip"
proof -
  have u: "unat (w :: byte) < 256" for w using unsigned_less [of w] by simp
  show ?thesis
  proof (cases "To4 ip")
    case None
    then show ?thesis using assms
      by (simp add: alwaysTrustedCIDRs_def trustedCIDRs_parse block4_Contains block16_Contains IsLoopback_def
          private_address_def in_block_ranges u private_v6_def; blast)
  next
    case (Some v)
    then obtain a b c d where v: "v = [a, b, c, d]" using To4_list by blast
    have "a = 127 \<longleftrightarrow> unat a = 127" by (simp add: word_eq_iff_unsigned [where ?'a = nat])
    then show ?thesis using assms Some v
      by (simp add: alwaysTrustedCIDRs_def trustedCIDRs_parse block4_Contains block16_Contains IsLoopback_def
          private_address_def in_block_ranges u private_v4_def)
  qed
qed

section \<open>Trust\<close>

lemma resolve_stable:
  "snd (resolveDNSTrustEntry io e (fst (resolveDNSTrustEntry io n cache))) = snd (resolveDNSTrustEntry io e cache)"
  by (auto simp: resolveDNSTrustEntry_def Let_def split: option.splits)

text \<open>An answer that is used is at most five minutes old or has just been asked for.\<close>

lemma resolve_recent:
  "resolveDNSTrustEntry io name cache = (cache', ips) \<Longrightarrow>
     ips = (case di_lookup io name of Some a \<Rightarrow> a | None \<Rightarrow> []) \<or>
     (\<exists>e. cache name = Some e \<and> ips = de_ips e \<and> di_since io name < de_resolved e + dnsTrustRefresh)"
  by (auto simp: resolveDNSTrustEntry_def Let_def split: option.splits if_splits)

text \<open>What an entry of the allow-list admits, read against the cache at the start of the request.\<close>

definition entry_admits :: "dns_io \<Rightarrow> dns_cache \<Rightarrow> IP \<Rightarrow> string \<Rightarrow> bool" where
  "entry_admits io cache ip e \<longleftrightarrow> e \<noteq> [] \<and>
     (case ParseIP e of
        Some eip \<Rightarrow> ip_Equal eip ip
      | None \<Rightarrow> (case ParseCIDR e of
            Some n \<Rightarrow> net_Contains n ip
          | None \<Rightarrow> \<exists>r\<in>set (snd (resolveDNSTrustEntry io e cache)). ip_Equal r ip))"

lemma entry_admits_stable:
  "entry_admits io (fst (resolveDNSTrustEntry io n cache)) ip e = entry_admits io cache ip e"
  unfolding entry_admits_def resolve_stable ..

lemma entry_admits_cases:
  "\<not> entry_admits io cache ip []"
  "e \<noteq> [] \<Longrightarrow> ParseIP e = Some a \<Longrightarrow> entry_admits io cache ip e \<longleftrightarrow> ip_Equal a ip"
  "e \<noteq> [] \<Longrightarrow> ParseIP e = None \<Longrightarrow> ParseCIDR e = Some n \<Longrightarrow> entry_admits io cache ip e \<longleftrightarrow> net_Contains n ip"
  "e \<noteq> [] \<Longrightarrow> ParseIP e = None \<Longrightarrow> ParseCIDR e = None \<Longrightarrow>
     entry_admits io cache ip e \<longleftrightarrow> list_ex (\<lambda>r. ip_Equal r ip) (snd (resolveDNSTrustEntry io e cache))"
  by (simp_all add: entry_admits_def list_ex_iff)

lemma trusted_entry_iff: "snd (trusted_entry io ip es cache) \<longleftrightarrow> (\<exists>e\<in>set es. entry_admits io cache ip e)"
proof (induction es arbitrary: cache)
  case (Cons e es)
  consider "e = []" | a where "e \<noteq> []" "ParseIP e = Some a" | n where "e \<noteq> []" "ParseIP e = None" "ParseCIDR e = Some n"
    | "e \<noteq> []" "ParseIP e = None" "ParseCIDR e = None"
    by (cases "e = []"; cases "ParseIP e"; cases "ParseCIDR e") auto
  then show ?case
  proof cases
    case 4
    obtain c ips where r: "resolveDNSTrustEntry io e cache = (c, ips)" by fastforce
    have "snd (trusted_entry io ip es c) \<longleftrightarrow> (\<exists>e'\<in>set es. entry_admits io cache ip e')"
      using Cons [of c] entry_admits_stable [of io e cache ip] r by simp
    then show ?thesis using 4 r by (simp add: entry_admits_cases)
  qed (simp_all add: Cons entry_admits_cases)
qed simp

text \<open>
  C34. The peers whose forwarding headers count are exactly these: those with an address in the private,
  loopback or link-local ranges (the byte-wise masks of \<^verbatim>\<open>net.IPNet\<close> decide the numeric ranges of the
  reference), those in the same /24 as the listen address, and those admitted by an entry of the
  allow-list, as an address, a block or a name; the built-in block list parses, so that the program
  does not panic on it.
\<close>

theorem isTrustedPeer_iff:
  "mustParseCIDRs trustedCIDRs \<noteq> None \<and>
   (snd (isTrustedPeer cfg io remoteAddr cache) \<longleftrightarrow>
      (\<exists>ip. ParseIP (strip_port remoteAddr) = Some ip \<and>
         (private_address ip \<or>
          (\<exists>sv. cfg = Some sv \<and>
             (sv_Address sv \<noteq> [] \<and> sameSlash24 ip (sv_Address sv) \<or>
              (\<exists>e\<in>set (sv_TrustedProxies sv). entry_admits io cache ip e))))))"
proof
  show "mustParseCIDRs trustedCIDRs \<noteq> None" by (simp add: trustedCIDRs_parse)
  show "snd (isTrustedPeer cfg io remoteAddr cache) \<longleftrightarrow>
      (\<exists>ip. ParseIP (strip_port remoteAddr) = Some ip \<and>
         (private_address ip \<or>
          (\<exists>sv. cfg = Some sv \<and>
             (sv_Address sv \<noteq> [] \<and> sameSlash24 ip (sv_Address sv) \<or>
              (\<exists>e\<in>set (sv_TrustedProxies sv). entry_admits io cache ip e)))))"
  proof (cases "ParseIP (strip_port remoteAddr)")
    case (Some ip)
    show ?thesis
      using always_trusted_iff [OF ParseIP_length [OF Some]] trusted_entry_iff Some
      by (cases cfg) (auto simp: isTrustedPeer_def)
  qed (simp add: isTrustedPeer_def)
qed

text \<open>
  Forged headers have no effect: for a peer that is not trusted the client address, the HTTPS
  decision and the host name do not depend on any header; they are the peer's own address, whether the
  connection itself is TLS, and the overlay host of the Host field or else the server's own name.
\<close>

lemma untrusted_headers_ignored:
  assumes "\<not> snd (isTrustedPeer cfg io (rq_RemoteAddr r) cache)"
  shows "snd (TrustedGetClientIP cfg io (r\<lparr>rq_Header := h\<rparr>) cache) = strip_port (rq_RemoteAddr r) \<and>
    snd (TrustedIsHTTPS cfg io (Some (r\<lparr>rq_Header := h\<rparr>)) cache) = rq_TLS r \<and>
    snd (TrustedGetHostFromRequest cfg io fqdn (Some (r\<lparr>rq_Header := h\<rparr>)) cache) =
      (if OverlayHostFromRequest r \<noteq> [] then OverlayHostFromRequest r else fqdn)"
proof -
  have "OverlayHostFromRequest (r\<lparr>rq_Header := h\<rparr>) = OverlayHostFromRequest r" by (simp add: OverlayHostFromRequest_def)
  with assms show ?thesis
    by (simp add: TrustedGetClientIP_def TrustedIsHTTPS_def TrustedGetHostFromRequest_def split_beta)
qed

definition public_request :: Request where
  "public_request = \<lparr>rq_RemoteAddr = ''8.8.4.4:4711'', rq_Host = ''wthr.top'', rq_TLS = False, rq_Header = (\<lambda>_. [])\<rparr>"

lemma public_not_trusted: "\<not> snd (isTrustedPeer None io ''8.8.4.4:4711'' cache)"
proof -
  have "strip_port ''8.8.4.4:4711'' = ''8.8.4.4''" by code_simp
  moreover have "ParseIP ''8.8.4.4'' = Some (v4_prefix @ [8, 8, 4, 4])" by (simp add: ParseIP_def addr_eval as16_def)
  moreover have "\<not> private_address (v4_prefix @ [8, 8, 4, 4])"
    by (simp add: private_address_def To4_def private_v4_def)
  moreover have "length (v4_prefix @ [8, 8, 4, 4]) = 16" by simp
  ultimately show ?thesis using always_trusted_iff [of "v4_prefix @ [8, 8, 4, 4]"] by (auto simp: isTrustedPeer_def)
qed

definition no_dns :: dns_io where
  "no_dns = \<lparr>di_lookup = (\<lambda>_. None), di_since = (\<lambda>_. 0), di_now = (\<lambda>_. 0)\<rparr>"

lemma untrusted_headers_ignored_example:
  "snd (TrustedGetClientIP None no_dns (public_request\<lparr>rq_Header := (\<lambda>_. ''10.0.0.1'')\<rparr>) Map.empty) = ''8.8.4.4''"
proof -
  have "strip_port ''8.8.4.4:4711'' = ''8.8.4.4''" by code_simp
  moreover have "\<not> snd (isTrustedPeer None no_dns (rq_RemoteAddr public_request) Map.empty)"
    using public_not_trusted by (simp add: public_request_def)
  ultimately show ?thesis
    using untrusted_headers_ignored [of None no_dns public_request Map.empty "\<lambda>_. ''10.0.0.1''"] by (simp add: public_request_def)
qed

end
