(* ===== verification/Rate_Limit.thy ===== *)
theory Rate_Limit
  imports Config_Validate Go_Time
begin

text \<open>
  Rate limiting, \<^verbatim>\<open>src/server/middleware/ratelimit.go\<close>. The limiter of \<^verbatim>\<open>httprate\<close> is a parameter: \<open>hr_fresh\<close> is
  the counter state of a new limiter, \<open>hr_run\<close> what its handler does to the response writer for one
  request, given its limit and window; the inner handler it wraps only records that it was called. The
  cached limiter set is state; the configuration is resolved anew for every request.
\<close>

section \<open>Resolved limits\<close>

definition LoginRequestsPerWindow :: int where "LoginRequestsPerWindow = 5"
definition PasswordResetRequestsPerWindow :: int where "PasswordResetRequestsPerWindow = 3"
definition RegistrationRequestsPerWindow :: int where "RegistrationRequestsPerWindow = 5"
definition FileUploadRequestsPerWindow :: int where "FileUploadRequestsPerWindow = 10"
definition FileUploadWindowDuration :: int where "FileUploadWindowDuration = 60 * minute_ns"
definition GlobalBurst :: int where "GlobalBurst = 240"

record rateLimitBuckets =
  rlb_Enabled :: bool
  rlb_GlobalLimit :: int
  rlb_GlobalWindow :: int
  rlb_ReadLimit :: int
  rlb_ReadWindow :: int
  rlb_HealthLimit :: int
  rlb_HealthWindow :: int
  rlb_WriteLimit :: int
  rlb_WriteWindow :: int
  rlb_LoginLimit :: int
  rlb_LoginWindow :: int
  rlb_PasswordReset :: int
  rlb_PasswordResetT :: int
  rlb_Registration :: int
  rlb_RegistrationT :: int
  rlb_FileUpload :: int
  rlb_FileUploadT :: int

text \<open>The closure \<open>bucket\<close>: a non-positive number becomes the default; seconds become a duration.\<close>

definition bucket_limit :: "int \<Rightarrow> int \<Rightarrow> int" where
  "bucket_limit requests defRequests = (if requests \<le> 0 then defRequests else requests)"

definition bucket_window :: "int \<Rightarrow> int \<Rightarrow> int" where
  "bucket_window window defWindow = wrap64 ((if window \<le> 0 then defWindow else window) * second_ns)"

definition resolveRateLimitBuckets :: "ServerConfig option \<Rightarrow> rateLimitBuckets" where
  "resolveRateLimitBuckets cfg =
     (let limits = (case cfg of Some sv \<Rightarrow> sv_RateLimit sv | None \<Rightarrow> DefaultRateLimitConfig); a = rl_Auth limits in
      \<lparr>rlb_Enabled = rl_Enabled limits,
       rlb_GlobalLimit = (if rl_GlobalBurst limits \<le> 0 then GlobalBurst else rl_GlobalBurst limits),
       rlb_GlobalWindow = minute_ns,
       rlb_ReadLimit = bucket_limit (rb_Requests (rl_Read limits)) 120,
       rlb_ReadWindow = bucket_window (rb_Window (rl_Read limits)) 60,
       rlb_HealthLimit = bucket_limit (rb_Requests (rl_Health limits)) 120,
       rlb_HealthWindow = bucket_window (rb_Window (rl_Health limits)) 60,
       rlb_WriteLimit = bucket_limit (rb_Requests (rl_Write limits)) 10,
       rlb_WriteWindow = bucket_window (rb_Window (rl_Write limits)) 60,
       rlb_LoginLimit = bucket_limit (rb_Requests (ra_Login a)) LoginRequestsPerWindow,
       rlb_LoginWindow = bucket_window (rb_Window (ra_Login a)) 900,
       rlb_PasswordReset = bucket_limit (rb_Requests (ra_PasswordReset a)) PasswordResetRequestsPerWindow,
       rlb_PasswordResetT = bucket_window (rb_Window (ra_PasswordReset a)) 3600,
       rlb_Registration = bucket_limit (rb_Requests (ra_Registration a)) RegistrationRequestsPerWindow,
       rlb_RegistrationT = bucket_window (rb_Window (ra_Registration a)) 3600,
       rlb_FileUpload = FileUploadRequestsPerWindow,
       rlb_FileUploadT = FileUploadWindowDuration\<rparr>)"

datatype rateLimiterName =
    rateLimitGlobal | rateLimitRead | rateLimitHealth | rateLimitWrite | rateLimitLogin | rateLimitPasswordReset
  | rateLimitRegistration | rateLimitFileUpload

fun bucket :: "rateLimitBuckets \<Rightarrow> rateLimiterName \<Rightarrow> int \<times> int" where
  "bucket b rateLimitGlobal = (rlb_GlobalLimit b, rlb_GlobalWindow b)"
| "bucket b rateLimitRead = (rlb_ReadLimit b, rlb_ReadWindow b)"
| "bucket b rateLimitHealth = (rlb_HealthLimit b, rlb_HealthWindow b)"
| "bucket b rateLimitWrite = (rlb_WriteLimit b, rlb_WriteWindow b)"
| "bucket b rateLimitLogin = (rlb_LoginLimit b, rlb_LoginWindow b)"
| "bucket b rateLimitPasswordReset = (rlb_PasswordReset b, rlb_PasswordResetT b)"
| "bucket b rateLimitRegistration = (rlb_Registration b, rlb_RegistrationT b)"
| "bucket b rateLimitFileUpload = (rlb_FileUpload b, rlb_FileUploadT b)"

section \<open>Responses\<close>

text \<open>
  An \<^verbatim>\<open>http.ResponseWriter\<close>: the status is fixed by the first \<open>WriteHeader\<close>, a body written before fixes
  200. The limiter's own JSON answer is kept as a value.
\<close>

datatype body_part = Raw string | RateLimitedBody string int

record Response =
  rs_status :: "int option"
  rs_header :: "string \<Rightarrow> string"
  rs_body :: "body_part list"

definition WriteHeader :: "int \<Rightarrow> Response \<Rightarrow> Response" where
  "WriteHeader code w = (case rs_status w of None \<Rightarrow> w\<lparr>rs_status := Some code\<rparr> | Some _ \<Rightarrow> w)"

definition WriteBody :: "body_part \<Rightarrow> Response \<Rightarrow> Response" where
  "WriteBody p w = (let w' = WriteHeader 200 w in w'\<lparr>rs_body := rs_body w' @ [p]\<rparr>)"

definition SetHeader :: "string \<Rightarrow> string \<Rightarrow> Response \<Rightarrow> Response" where
  "SetHeader k v w = w\<lparr>rs_header := (rs_header w)(k := v)\<rparr>"

definition StatusTooManyRequests :: int where "StatusTooManyRequests = 429"

record rateLimitResponseWriter =
  rw_ResponseWriter :: Response
  rw_statusCode :: int

definition rw_WriteHeader :: "int \<Rightarrow> rateLimitResponseWriter \<Rightarrow> rateLimitResponseWriter" where
  "rw_WriteHeader code w =
     (let w1 = w\<lparr>rw_statusCode := code\<rparr> in
      if code = StatusTooManyRequests then w1
      else w1\<lparr>rw_ResponseWriter := WriteHeader code (rw_ResponseWriter w1)\<rparr>)"

definition rw_Write :: "string \<Rightarrow> rateLimitResponseWriter \<Rightarrow> rateLimitResponseWriter" where
  "rw_Write b w =
     (if rw_statusCode w = StatusTooManyRequests then w
      else w\<lparr>rw_ResponseWriter := WriteBody (Raw b) (rw_ResponseWriter w)\<rparr>)"

text \<open>What a handler does with its writer. The header map of the wrapper is that of the wrapped writer.\<close>

datatype wr_action = ASet string string | AHeader int | AWrite string | ACallInner

fun rw_step :: "wr_action \<Rightarrow> rateLimitResponseWriter \<times> bool \<Rightarrow> rateLimitResponseWriter \<times> bool" where
  "rw_step (ASet k v) (w, called) = (w\<lparr>rw_ResponseWriter := SetHeader k v (rw_ResponseWriter w)\<rparr>, called)"
| "rw_step (AHeader code) (w, called) = (rw_WriteHeader code w, called)"
| "rw_step (AWrite b) (w, called) = (rw_Write b w, called)"
| "rw_step ACallInner (w, called) = (w, True)"

section \<open>The limiter set\<close>

record 's limiter =
  lm_limit :: int
  lm_window :: int
  lm_state :: 's

record ('s, 'r) httprate =
  hr_fresh :: 's
  hr_run :: "int \<Rightarrow> int \<Rightarrow> 'r \<Rightarrow> 's \<Rightarrow> 's \<times> wr_action list"

text \<open>\<open>None\<close> before the first request: the pointers of the set are nil.\<close>

record 's limiter_cache =
  lc_buckets :: rateLimitBuckets
  lc_limiters :: "(rateLimiterName \<Rightarrow> 's limiter) option"

definition newLimiter :: "('s, 'r) httprate \<Rightarrow> int \<times> int \<Rightarrow> 's limiter" where
  "newLimiter hr lw = \<lparr>lm_limit = fst lw, lm_window = snd lw, lm_state = hr_fresh hr\<rparr>"

definition getRateLimiters ::
  "('s, 'r) httprate \<Rightarrow> rateLimitBuckets \<Rightarrow> 's limiter_cache \<Rightarrow> 's limiter_cache \<times> (rateLimiterName \<Rightarrow> 's limiter)" where
  "getRateLimiters hr b c =
     (let built = (\<lambda>name. newLimiter hr (bucket b name)) in
      case lc_limiters c of
        Some ls \<Rightarrow> if lc_buckets c = b then (c, ls) else (\<lparr>lc_buckets = b, lc_limiters = Some built\<rparr>, built)
      | None \<Rightarrow> (\<lparr>lc_buckets = b, lc_limiters = Some built\<rparr>, built))"

definition pick :: "(rateLimiterName \<Rightarrow> 's limiter) \<Rightarrow> rateLimiterName \<Rightarrow> 's limiter" where
  "pick ls name = ls name"

section \<open>The middleware\<close>

text \<open>
  \<open>secs\<close> is \<^verbatim>\<open>int(window.Seconds())\<close>, which goes through floating point. The result: the limiter after the
  request, the response, and whether the rest of the chain runs.
\<close>

definition serveRateLimited ::
  "('s, 'r) httprate \<Rightarrow> (int \<Rightarrow> int) \<Rightarrow> string \<Rightarrow> ('r \<Rightarrow> Response \<Rightarrow> Response) \<Rightarrow> 's limiter \<Rightarrow> int \<Rightarrow> 'r \<Rightarrow> Response
     \<Rightarrow> 's limiter \<times> Response" where
  "serveRateLimited hr secs message nxt lim window r w =
     (let (s', acts) = hr_run hr (lm_limit lim) (lm_window lim) r (lm_state lim);
          (writer, nextCalled) = fold rw_step acts (\<lparr>rw_ResponseWriter = w, rw_statusCode = 0\<rparr>, False);
          w1 = rw_ResponseWriter writer; lim' = lim\<lparr>lm_state := s'\<rparr>
      in if \<not> nextCalled then
           (let retryAfter = secs window in
            (lim', WriteBody (RateLimitedBody message retryAfter)
                     (WriteHeader StatusTooManyRequests
                       (SetHeader ''Content-Type'' ''application/json; charset=utf-8''
                         (SetHeader ''Retry-After'' (itoa retryAfter) w1)))))
         else
           (lim', nxt r
             (SetHeader ''X-RateLimit-Reset'' (rs_header w1 ''X-RateLimit-Reset'')
               (SetHeader ''X-RateLimit-Remaining'' (rs_header w1 ''X-RateLimit-Remaining'')
                 (SetHeader ''X-RateLimit-Limit'' (rs_header w1 ''X-RateLimit-Limit'') w1)))))"

definition put_limiter :: "rateLimiterName \<Rightarrow> 's limiter \<Rightarrow> 's limiter_cache \<Rightarrow> 's limiter_cache" where
  "put_limiter name l c = c\<lparr>lc_limiters := map_option (\<lambda>ls. ls(name := l)) (lc_limiters c)\<rparr>"

definition newRateLimitMiddleware ::
  "('s, 'r) httprate \<Rightarrow> (int \<Rightarrow> int) \<Rightarrow> string \<Rightarrow> rateLimiterName \<Rightarrow> ServerConfig option \<Rightarrow> ('r \<Rightarrow> Response \<Rightarrow> Response)
     \<Rightarrow> 'r \<Rightarrow> Response \<Rightarrow> 's limiter_cache \<Rightarrow> 's limiter_cache \<times> Response" where
  "newRateLimitMiddleware hr secs message name cfg nxt r w c =
     (let b = resolveRateLimitBuckets cfg in
      if \<not> rlb_Enabled b then (c, nxt r w)
      else
        (let window = snd (bucket b name);
             (c1, ls) = getRateLimiters hr b c;
             (lim', w') = serveRateLimited hr secs message nxt (pick ls name) window r w
         in (put_limiter name lim' c1, w')))"

definition newMethodRateLimitMiddleware ::
  "('r \<Rightarrow> string) \<Rightarrow> ('s, 'r) httprate \<Rightarrow> (int \<Rightarrow> int) \<Rightarrow> string \<Rightarrow> rateLimiterName \<Rightarrow> string list \<Rightarrow> ServerConfig option
     \<Rightarrow> ('r \<Rightarrow> Response \<Rightarrow> Response) \<Rightarrow> 'r \<Rightarrow> Response \<Rightarrow> 's limiter_cache \<Rightarrow> 's limiter_cache \<times> Response" where
  "newMethodRateLimitMiddleware meth hr secs message name methods cfg nxt r w c =
     (if meth r \<in> set methods then newRateLimitMiddleware hr secs message name cfg nxt r w c else (c, nxt r w))"

definition readMethods :: "string list" where "readMethods = [''GET'', ''HEAD'', ''OPTIONS'']"
definition writeMethods :: "string list" where "writeMethods = [''POST'', ''PUT'', ''PATCH'', ''DELETE'']"

definition ReadRateLimitMiddleware where
  "ReadRateLimitMiddleware meth hr secs message = newMethodRateLimitMiddleware meth hr secs message rateLimitRead readMethods"

definition WriteRateLimitMiddleware where
  "WriteRateLimitMiddleware meth hr secs message = newMethodRateLimitMiddleware meth hr secs message rateLimitWrite writeMethods"

definition GlobalRateLimitMiddleware where
  "GlobalRateLimitMiddleware hr secs message = newRateLimitMiddleware hr secs message rateLimitGlobal"

definition LoginRateLimitMiddleware where
  "LoginRateLimitMiddleware hr secs message = newRateLimitMiddleware hr secs message rateLimitLogin"

definition PasswordResetRateLimitMiddleware where
  "PasswordResetRateLimitMiddleware hr secs message = newRateLimitMiddleware hr secs message rateLimitPasswordReset"

definition APIRateLimitMiddleware where
  "APIRateLimitMiddleware hr secs message = newRateLimitMiddleware hr secs message rateLimitRead"

definition RegistrationRateLimitMiddleware where
  "RegistrationRateLimitMiddleware hr secs message = newRateLimitMiddleware hr secs message rateLimitRegistration"

definition FileUploadRateLimitMiddleware where
  "FileUploadRateLimitMiddleware hr secs message = newRateLimitMiddleware hr secs message rateLimitFileUpload"

definition HealthRateLimitMiddleware where
  "HealthRateLimitMiddleware hr secs message = newRateLimitMiddleware hr secs message rateLimitHealth"

section \<open>Limits that are enforced\<close>

text \<open>The configured numbers of a class.\<close>

fun configured :: "RateLimitConfig \<Rightarrow> rateLimiterName \<Rightarrow> int \<times> int" where
  "configured l rateLimitGlobal = (rl_GlobalBurst l, 60)"
| "configured l rateLimitRead = (rb_Requests (rl_Read l), rb_Window (rl_Read l))"
| "configured l rateLimitHealth = (rb_Requests (rl_Health l), rb_Window (rl_Health l))"
| "configured l rateLimitWrite = (rb_Requests (rl_Write l), rb_Window (rl_Write l))"
| "configured l rateLimitLogin = (rb_Requests (ra_Login (rl_Auth l)), rb_Window (ra_Login (rl_Auth l)))"
| "configured l rateLimitPasswordReset = (rb_Requests (ra_PasswordReset (rl_Auth l)), rb_Window (ra_PasswordReset (rl_Auth l)))"
| "configured l rateLimitRegistration = (rb_Requests (ra_Registration (rl_Auth l)), rb_Window (ra_Registration (rl_Auth l)))"
| "configured l rateLimitFileUpload = (10, 3600)"

definition max_window :: int where "max_window = 9223372036"

lemma bucket_window_exact: "0 < w \<Longrightarrow> w \<le> max_window \<Longrightarrow> bucket_window w d = w * second_ns"
  by (simp add: bucket_window_def max_window_def second_ns_def int64_defs)

lemma bucket_limit_pos: "0 < d \<Longrightarrow> 1 \<le> bucket_limit r d"
  by (simp add: bucket_limit_def)

lemma limit_positive: "1 \<le> fst (bucket (resolveRateLimitBuckets cfg) name)"
  by (cases name) (simp_all add: resolveRateLimitBuckets_def Let_def bucket_limit_pos LoginRequestsPerWindow_def
      PasswordResetRequestsPerWindow_def RegistrationRequestsPerWindow_def FileUploadRequestsPerWindow_def GlobalBurst_def)

lemma validated_limits:
  assumes "rate_limit_ok sv" "snd (configured (sv_RateLimit sv) name) \<le> max_window"
  shows "bucket (resolveRateLimitBuckets (Some sv)) name =
    (fst (configured (sv_RateLimit sv) name), snd (configured (sv_RateLimit sv) name) * second_ns)"
  using assms
  by (cases name) (simp_all add: resolveRateLimitBuckets_def rate_limit_ok_def bucket_ok_def Let_def bucket_limit_def
      bucket_window_exact FileUploadRequestsPerWindow_def FileUploadWindowDuration_def minute_ns_def second_ns_def)

text \<open>
  What the administrator configures is what is enforced: for every configuration, validated or
  not, each class admits at least one request, and for a configuration that went through validation the
  limit and the window of every class are exactly the configured ones, as long as the window in
  nanoseconds fits 64 bits.
\<close>

lemma rate_limits_enforced:
  "1 \<le> fst (bucket (resolveRateLimitBuckets cfg) name) \<and>
   (let sv = ac_Server (fst (validateConfig (randomPort rnd) acfg)) in
      snd (configured (sv_RateLimit sv) name) \<le> max_window \<longrightarrow>
        bucket (resolveRateLimitBuckets (Some sv)) name =
          (fst (configured (sv_RateLimit sv) name), snd (configured (sv_RateLimit sv) name) * second_ns))"
  using validateConfig_server_ok [of "randomPort rnd" acfg] randomPort_range [of rnd]
  by (simp add: limit_positive Let_def server_fields_ok_def validated_limits)

lemma rate_limits_enforced_example:
  "bucket (resolveRateLimitBuckets (Some (ac_Server (fst (validateConfig (randomPort 0) sample_config))))) rateLimitLogin
     = (5, 900 * second_ns)"
proof -
  have v: "fst (validateConfig (randomPort 0) sample_config) = sample_config"
  proof -
    have "trimSpace (sv_BaseURL (ac_Server sample_config)) = sv_BaseURL (ac_Server sample_config)" by code_simp
    then show ?thesis using validateConfig_keeps [of sample_config "randomPort 0"] sample_server_ok
      by (simp add: sample_config_def)
  qed
  have "configured (sv_RateLimit (ac_Server sample_config)) rateLimitLogin = (5, 900)"
    by (simp add: sample_config_def sample_server_def DefaultRateLimitConfig_def)
  with v show ?thesis using rate_limits_enforced [of None rateLimitLogin 0 sample_config]
    by (simp add: max_window_def Let_def)
qed

text \<open>Beyond that bound, which validation does not check, the window wraps around to a negative duration.\<close>

lemma window_overflow: "bucket_window (max_window + 1) 60 < 0"
  by (simp add: bucket_window_def max_window_def second_ns_def int64_defs)

section \<open>One response per request\<close>

text \<open>The documented behaviour of the limiter's handler: it calls the inner handler, or answers 429.\<close>

definition only_headers :: "wr_action list \<Rightarrow> bool" where
  "only_headers acts \<longleftrightarrow> (\<forall>a\<in>set acts. \<exists>k v. a = ASet k v)"

definition only_writes :: "wr_action list \<Rightarrow> bool" where
  "only_writes acts \<longleftrightarrow> (\<forall>a\<in>set acts. \<exists>b. a = AWrite b)"

definition admits :: "wr_action list \<Rightarrow> bool" where
  "admits acts \<longleftrightarrow> (\<exists>hs. acts = hs @ [ACallInner] \<and> only_headers hs)"

definition refuses :: "wr_action list \<Rightarrow> bool" where
  "refuses acts \<longleftrightarrow> (\<exists>hs ws. acts = hs @ AHeader StatusTooManyRequests # ws \<and> only_headers hs \<and> only_writes ws)"

lemma fold_headers:
  "only_headers hs \<Longrightarrow> \<exists>w'. fold rw_step hs (w, called) = (w', called) \<and> rw_statusCode w' = rw_statusCode w \<and>
     rs_status (rw_ResponseWriter w') = rs_status (rw_ResponseWriter w) \<and>
     rs_body (rw_ResponseWriter w') = rs_body (rw_ResponseWriter w)"
proof (induction hs arbitrary: w)
  case (Cons a hs)
  then obtain k v where "a = ASet k v" "only_headers hs" by (auto simp: only_headers_def)
  with Cons.IH [of "w\<lparr>rw_ResponseWriter := SetHeader k v (rw_ResponseWriter w)\<rparr>"] show ?case
    by (simp add: SetHeader_def)
qed simp

lemma fold_swallowed:
  "only_writes ws \<Longrightarrow> rw_statusCode w = StatusTooManyRequests \<Longrightarrow> fold rw_step ws (w, called) = (w, called)"
proof (induction ws)
  case (Cons a ws)
  then show ?case by (auto simp: only_writes_def rw_Write_def)
qed simp

lemma fold_refused:
  assumes "refuses acts"
  shows "\<exists>w'. fold rw_step acts (\<lparr>rw_ResponseWriter = w, rw_statusCode = 0\<rparr>, False) = (w', False) \<and>
    rs_status (rw_ResponseWriter w') = rs_status w \<and> rs_body (rw_ResponseWriter w') = rs_body w"
proof -
  obtain hs ws where a: "acts = hs @ AHeader StatusTooManyRequests # ws" "only_headers hs" "only_writes ws"
    using assms by (auto simp: refuses_def)
  obtain w1 where w1: "fold rw_step hs (\<lparr>rw_ResponseWriter = w, rw_statusCode = 0\<rparr>, False) = (w1, False)"
    "rs_status (rw_ResponseWriter w1) = rs_status w" "rs_body (rw_ResponseWriter w1) = rs_body w"
    using fold_headers [OF a(2), of "\<lparr>rw_ResponseWriter = w, rw_statusCode = 0\<rparr>" False] by auto
  have "fold rw_step acts (\<lparr>rw_ResponseWriter = w, rw_statusCode = 0\<rparr>, False)
      = (w1\<lparr>rw_statusCode := StatusTooManyRequests\<rparr>, False)"
    using fold_swallowed [OF a(3), of "w1\<lparr>rw_statusCode := StatusTooManyRequests\<rparr>" False]
    by (simp add: a(1) w1(1) rw_WriteHeader_def)
  with w1 show ?thesis by simp
qed

text \<open>
  A request is answered once: with a limiter that keeps its contract, a refused request gets status
  429 with exactly the JSON answer as body (the limiter's own text is swallowed), the retry time in the
  \<^verbatim>\<open>Retry-After\<close> header and in the body, and the handler behind it does not run; an admitted request
  reaches that handler with nothing written yet.
\<close>

lemma serveRateLimited_answers:
  assumes "hr_run hr (lm_limit lim) (lm_window lim) r (lm_state lim) = (s', acts)"
    and "rs_status w = None" "rs_body w = []"
    and "serveRateLimited hr secs message nxt lim window r w = (lim', w')"
  shows "lm_state lim' = s' \<and>
    (refuses acts \<longrightarrow> rs_status w' = Some 429 \<and> rs_body w' = [RateLimitedBody message (secs window)] \<and>
       rs_header w' ''Retry-After'' = itoa (secs window)) \<and>
    (admits acts \<longrightarrow> (\<exists>w1. w' = nxt r w1 \<and> rs_status w1 = None \<and> rs_body w1 = []))"
proof -
  let ?w0 = "\<lparr>rw_ResponseWriter = w, rw_statusCode = 0\<rparr>"
  have "lm_state lim' = s'" using assms(1,4) by (auto simp: serveRateLimited_def Let_def split: prod.splits if_splits)
  moreover have "rs_status w' = Some 429 \<and> rs_body w' = [RateLimitedBody message (secs window)] \<and>
      rs_header w' ''Retry-After'' = itoa (secs window)" if refused: "refuses acts"
  proof -
    obtain v where "fold rw_step acts (?w0, False) = (v, False)" "rs_status (rw_ResponseWriter v) = None"
      "rs_body (rw_ResponseWriter v) = []"
      using fold_refused [OF refused, of w] assms(2,3) by auto
    then show ?thesis using assms(1,4)
      by (auto simp: serveRateLimited_def WriteBody_def WriteHeader_def SetHeader_def StatusTooManyRequests_def Let_def)
  qed
  moreover have "\<exists>w1. w' = nxt r w1 \<and> rs_status w1 = None \<and> rs_body w1 = []" if admitted: "admits acts"
  proof -
    obtain hs where hs: "acts = hs @ [ACallInner]" "only_headers hs" using admitted by (auto simp: admits_def)
    obtain v where "fold rw_step hs (?w0, False) = (v, False)" "rs_status (rw_ResponseWriter v) = None"
      "rs_body (rw_ResponseWriter v) = []"
      using fold_headers [OF hs(2), of ?w0 False] assms(2,3) by auto
    then show ?thesis using assms(1,4) hs(1) by (auto simp: serveRateLimited_def SetHeader_def Let_def)
  qed
  ultimately show ?thesis by blast
qed

text \<open>A limiter that counts requests and never forgets, as an instance of the contract.\<close>

definition counting :: "(nat, unit) httprate" where
  "counting = \<lparr>hr_fresh = 0, hr_run = (\<lambda>limit window r n.
     if int n < limit then (n + 1, [ASet ''X-RateLimit-Limit'' (itoa limit), ACallInner])
     else (n, [AHeader StatusTooManyRequests, AWrite ''Too Many Requests'']))\<rparr>"

definition empty_response :: Response where
  "empty_response = \<lparr>rs_status = None, rs_header = (\<lambda>_. []), rs_body = []\<rparr>"

lemma serveRateLimited_answers_example:
  "rs_status (snd (serveRateLimited counting (\<lambda>d. d div second_ns) ''slow down'' (\<lambda>r w. w)
      \<lparr>lm_limit = 5, lm_window = 900 * second_ns, lm_state = 5\<rparr> (900 * second_ns) () empty_response)) = Some 429"
proof -
  let ?lim = "\<lparr>lm_limit = 5, lm_window = 900 * second_ns, lm_state = 5 :: nat\<rparr>"
  let ?acts = "[AHeader StatusTooManyRequests, AWrite ''Too Many Requests'']"
  have run: "hr_run counting (lm_limit ?lim) (lm_window ?lim) () (lm_state ?lim) = (5, ?acts)" by (simp add: counting_def)
  have "refuses ?acts"
    unfolding refuses_def by (rule exI [of _ "[]"], rule exI [of _ "[AWrite ''Too Many Requests'']"])
      (simp add: only_headers_def only_writes_def)
  moreover have "rs_status empty_response = None" "rs_body empty_response = []" by (simp_all add: empty_response_def)
  ultimately show ?thesis
    using serveRateLimited_answers [OF run, of empty_response "\<lambda>d. d div second_ns" "''slow down''" "\<lambda>r w. w"
        "900 * second_ns"] by (metis prod.collapse)
qed

section \<open>Live reload\<close>

definition cache_consistent :: "'s limiter_cache \<Rightarrow> bool" where
  "cache_consistent c \<longleftrightarrow>
     (\<forall>ls. lc_limiters c = Some ls \<longrightarrow> (\<forall>name. (lm_limit (ls name), lm_window (ls name)) = bucket (lc_buckets c) name))"

text \<open>The states of the cache that requests of any class reach under configurations that change at will.\<close>

inductive rl_reach :: "('s, 'r) httprate \<Rightarrow> 's limiter_cache \<Rightarrow> bool" for hr where
  startup: "rl_reach hr \<lparr>lc_buckets = b0, lc_limiters = None\<rparr>"
| request: "rl_reach hr c \<Longrightarrow> rl_reach hr (fst (newRateLimitMiddleware hr secs message name cfg nxt r w c))"

lemma getRateLimiters_current:
  assumes "cache_consistent c" "getRateLimiters hr b c = (c1, ls)"
  shows "lc_buckets c1 = b" "lc_limiters c1 = Some ls" "(lm_limit (ls name), lm_window (ls name)) = bucket b name"
  using assms by (auto simp: getRateLimiters_def newLimiter_def cache_consistent_def Let_def split: option.splits if_splits)

lemma serve_keeps_limits:
  "lm_limit (fst (serveRateLimited hr secs message nxt lim window r w)) = lm_limit lim"
  "lm_window (fst (serveRateLimited hr secs message nxt lim window r w)) = lm_window lim"
  by (simp_all add: serveRateLimited_def Let_def split_beta)

lemma middleware_state:
  assumes "rlb_Enabled (resolveRateLimitBuckets cfg)" "getRateLimiters hr (resolveRateLimitBuckets cfg) c = (c1, ls)"
  shows "fst (newRateLimitMiddleware hr secs message name cfg nxt r w c) =
    put_limiter name (fst (serveRateLimited hr secs message nxt (ls name) (snd (bucket (resolveRateLimitBuckets cfg) name)) r w)) c1"
  using assms by (simp add: newRateLimitMiddleware_def Let_def pick_def split_beta)

lemma rl_reach_consistent: "rl_reach hr c \<Longrightarrow> cache_consistent c"
proof (induction rule: rl_reach.induct)
  case (request c secs message name cfg nxt r w)
  let ?b = "resolveRateLimitBuckets cfg"
  obtain c1 ls where g: "getRateLimiters hr ?b c = (c1, ls)" by fastforce
  show ?case
  proof (cases "rlb_Enabled ?b")
    case True
    have "bucket ?b n = (lm_limit (ls n), lm_window (ls n))" for n
      using getRateLimiters_current(3) [OF request.IH g] by simp
    then show ?thesis using getRateLimiters_current(1,2) [OF request.IH g]
      unfolding middleware_state [OF True g] cache_consistent_def put_limiter_def
      by (simp add: serve_keeps_limits)
  next
    case False
    with request.IH show ?thesis by (simp add: newRateLimitMiddleware_def Let_def)
  qed
qed (simp add: cache_consistent_def)

text \<open>
  Live reload: in every state requests can reach, whatever configurations were in force before, an
  enabled request is decided with the limit and window of the configuration in force now; its counter is
  the one the last request of its class left when the resolved limits have not changed since, and a
  fresh one otherwise; and it leaves the counters of the other classes alone.
\<close>

lemma rate_limit_live_reload:
  assumes "rl_reach hr c" "b = resolveRateLimitBuckets cfg" "rlb_Enabled b"
  shows "\<exists>ls ls'. getRateLimiters hr b c = (fst (getRateLimiters hr b c), ls) \<and>
    lc_limiters (fst (newRateLimitMiddleware hr secs message name cfg nxt r w c)) = Some ls' \<and>
    lm_state (ls' name) = fst (hr_run hr (fst (bucket b name)) (snd (bucket b name)) r (lm_state (ls name))) \<and>
    lm_state (ls name) = (case lc_limiters c of
       Some old \<Rightarrow> if lc_buckets c = b then lm_state (old name) else hr_fresh hr | None \<Rightarrow> hr_fresh hr) \<and>
    (\<forall>other. other \<noteq> name \<longrightarrow> ls' other = ls other)"
proof -
  obtain c1 ls where g: "getRateLimiters hr b c = (c1, ls)" by fastforce
  note cur = getRateLimiters_current [OF rl_reach_consistent [OF assms(1)] g]
  let ?lim = "fst (serveRateLimited hr secs message nxt (ls name) (snd (bucket b name)) r w)"
  have "lc_limiters (fst (newRateLimitMiddleware hr secs message name cfg nxt r w c)) = Some (ls(name := ?lim))"
    using middleware_state [of cfg hr c c1 ls] assms(2,3) g cur(2) by (simp add: put_limiter_def)
  moreover have "lm_state ?lim = fst (hr_run hr (fst (bucket b name)) (snd (bucket b name)) r (lm_state (ls name)))"
    by (simp add: serveRateLimited_def Let_def split_beta flip: cur(3))
  moreover have "lm_state (ls name) = (case lc_limiters c of
       Some old \<Rightarrow> if lc_buckets c = b then lm_state (old name) else hr_fresh hr | None \<Rightarrow> hr_fresh hr)"
    using g by (auto simp: getRateLimiters_def newLimiter_def Let_def split: option.splits if_splits)
  ultimately show ?thesis using g by (intro exI [of _ ls] exI [of _ "ls(name := ?lim)"]) simp
qed

lemma rate_limit_live_reload_example:
  "\<exists>ls'. lc_limiters (fst (newRateLimitMiddleware counting (\<lambda>d. d) [] rateLimitLogin None (\<lambda>r w. w) () empty_response
       \<lparr>lc_buckets = resolveRateLimitBuckets None, lc_limiters = None\<rparr>)) = Some ls' \<and> lm_state (ls' rateLimitLogin) = 1"
proof -
  have "rl_reach counting \<lparr>lc_buckets = resolveRateLimitBuckets None, lc_limiters = None\<rparr>" by (rule startup)
  moreover have "rlb_Enabled (resolveRateLimitBuckets None)"
    by (simp add: resolveRateLimitBuckets_def DefaultRateLimitConfig_def Let_def)
  moreover have "fst (bucket (resolveRateLimitBuckets None) rateLimitLogin) = 5"
    by (simp add: resolveRateLimitBuckets_def DefaultRateLimitConfig_def Let_def bucket_limit_def)
  ultimately show ?thesis
    using rate_limit_live_reload [of counting _ "resolveRateLimitBuckets None" None "\<lambda>d. d" "[]" rateLimitLogin "\<lambda>r w. w" "()"
        empty_response] by (fastforce simp: counting_def)
qed

end
