(* ===== verification/Go_Path_Match.thy ===== *)
theory Go_Path_Match
  imports Go_Prelude
begin

text \<open>
  \<^verbatim>\<open>path.Match\<close> of the Go standard library, with the decoding of UTF-8 it needs: the scan of a pattern into
  chunks behind stars, the match of one chunk and the search over the positions a star can skip. A
  malformed pattern is an error. The lemmas give its meaning on the patterns the program uses: a star
  and literal text.
\<close>

section \<open>Runes\<close>

definition cont_byte :: "nat \<Rightarrow> bool" where
  "cont_byte b \<longleftrightarrow> 128 \<le> b \<and> b \<le> 191"

text \<open>\<open>utf8.DecodeRuneInString\<close> on a non-empty string: the rune and its width; (65533, 1) when invalid.\<close>

definition decode_rune :: "string \<Rightarrow> nat \<times> nat" where
  "decode_rune s =
     (let b = (\<lambda>i. if i < length s then of_char (s ! i) else (0 :: nat)); b0 = b 0; b1 = b 1; b2 = b 2; b3 = b 3 in
      if b0 < 128 then (b0, 1)
      else if 194 \<le> b0 \<and> b0 \<le> 223 \<and> cont_byte b1 then ((b0 - 192) * 64 + (b1 - 128), 2)
      else if 224 \<le> b0 \<and> b0 \<le> 239 \<and> cont_byte b1 \<and> cont_byte b2 \<and> (b0 = 224 \<longrightarrow> 160 \<le> b1) \<and> (b0 = 237 \<longrightarrow> b1 \<le> 159)
      then ((b0 - 224) * 4096 + (b1 - 128) * 64 + (b2 - 128), 3)
      else if 240 \<le> b0 \<and> b0 \<le> 244 \<and> cont_byte b1 \<and> cont_byte b2 \<and> cont_byte b3 \<and>
              (b0 = 240 \<longrightarrow> 144 \<le> b1) \<and> (b0 = 244 \<longrightarrow> b1 \<le> 143)
      then ((b0 - 240) * 262144 + (b1 - 128) * 4096 + (b2 - 128) * 64 + (b3 - 128), 4)
      else (65533, 1))"

lemma decode_rune_width: "1 \<le> snd (decode_rune s)"
  by (simp add: decode_rune_def Let_def)

section \<open>Chunks\<close>

text \<open>The scan up to the next star outside brackets; an escaped byte is skipped.\<close>

fun scan_rest :: "bool \<Rightarrow> string \<Rightarrow> string \<times> string" where
  "scan_rest inrange [] = ([], [])"
| "scan_rest inrange (c # p) =
     (if c = CHR 0x5C then
        (case p of
           [] \<Rightarrow> ([c], [])
         | d # p' \<Rightarrow> (let (a, b) = scan_rest inrange p' in (c # d # a, b)))
      else if c = CHR ''['' then (let (a, b) = scan_rest True p in (c # a, b))
      else if c = CHR '']'' then (let (a, b) = scan_rest False p in (c # a, b))
      else if c = CHR ''*'' \<and> \<not> inrange then ([], c # p)
      else (let (a, b) = scan_rest inrange p in (c # a, b)))"

definition scanChunk :: "string \<Rightarrow> bool \<times> string \<times> string" where
  "scanChunk pattern =
     (let p = dropWhile (\<lambda>c. c = CHR ''*'') pattern; (chunk, rest) = scan_rest False p
      in (p \<noteq> pattern, chunk, rest))"

text \<open>\<open>getEsc\<close>: one possibly escaped rune of a class; something must follow it.\<close>

definition getEsc :: "string \<Rightarrow> (nat \<times> string) option" where
  "getEsc chunk =
     (if chunk = [] \<or> hd chunk = CHR ''-'' \<or> hd chunk = CHR '']'' then None
      else
        (let c = (if hd chunk = CHR 0x5C then tl chunk else chunk) in
           if c = [] then None
           else
             (let (r, n) = decode_rune c; rest = drop n c
              in if (r = 65533 \<and> n = 1) \<or> rest = [] then None else Some (r, rest))))"

text \<open>
  The ranges of a class up to its closing bracket: whether the rune is in one of them and the rest.
  Each range takes at least one byte, so the length of the chunk is enough fuel.
\<close>

fun class_ranges :: "nat \<Rightarrow> nat \<Rightarrow> bool \<Rightarrow> bool \<Rightarrow> string \<Rightarrow> (bool \<times> string) option" where
  "class_ranges 0 r any matched chunk = None"
| "class_ranges (Suc fuel) r any matched chunk =
     (if chunk \<noteq> [] \<and> hd chunk = CHR '']'' \<and> any then Some (matched, tl chunk)
      else case getEsc chunk of
        None \<Rightarrow> None
      | Some (lo, c1) \<Rightarrow>
          (case (if hd c1 = CHR ''-'' then getEsc (tl c1) else Some (lo, c1)) of
             None \<Rightarrow> None
           | Some (hi, c2) \<Rightarrow> class_ranges fuel r True (matched \<or> (lo \<le> r \<and> r \<le> hi)) c2))"

text \<open>
  The outcome of a chunk: an error, no match, or the rest of the name. \<open>failed\<close> as in the source: after a
  mismatch the chunk is still read to its end for errors. The fuel is the length of the chunk.
\<close>

datatype chunk_result = BadPattern | NoMatch | Rest string

fun match_chunk :: "nat \<Rightarrow> bool \<Rightarrow> string \<Rightarrow> string \<Rightarrow> chunk_result" where
  "match_chunk fuel failed [] s = (if failed then NoMatch else Rest s)"
| "match_chunk 0 failed (c # ch) s = BadPattern"
| "match_chunk (Suc fuel) failed (c # ch) s =
     (let failed = (failed \<or> s = []) in
      if c = CHR ''['' then
        (let (r, n) = (if failed then (0, 0) else decode_rune s);
             negated = (ch \<noteq> [] \<and> hd ch = CHR 0x5E);
             ch1 = (if negated then tl ch else ch)
         in case class_ranges (Suc (length ch1)) r False False ch1 of
              None \<Rightarrow> BadPattern
            | Some (m, ch2) \<Rightarrow> match_chunk fuel (failed \<or> m = negated) ch2 (if failed then s else drop n s))
      else if c = CHR ''?'' then
        (if failed then match_chunk fuel True ch s
         else match_chunk fuel (hd s = CHR ''/'') ch (drop (snd (decode_rune s)) s))
      else if c = CHR 0x5C \<and> ch = [] then BadPattern
      else
        (let (lit, ch1) = (if c = CHR 0x5C then (hd ch, tl ch) else (c, ch)) in
         if failed then match_chunk fuel True ch1 s
         else match_chunk fuel (lit \<noteq> hd s) ch1 (tl s)))"

definition matchChunk :: "string \<Rightarrow> string \<Rightarrow> chunk_result" where
  "matchChunk chunk s = match_chunk (length chunk) False chunk s"

text \<open>The positions behind skipped bytes, none of them a slash.\<close>

fun skips :: "string \<Rightarrow> string list" where
  "skips [] = []"
| "skips (c # s) = (if c = CHR ''/'' then [] else s # skips s)"

text \<open>The first position at which the chunk matches; at the last chunk the name must be used up.\<close>

fun star_match :: "string \<Rightarrow> bool \<Rightarrow> string list \<Rightarrow> chunk_result" where
  "star_match chunk lastp [] = NoMatch"
| "star_match chunk lastp (s # ss) =
     (case matchChunk chunk s of
        Rest t \<Rightarrow> if lastp \<and> t \<noteq> [] then star_match chunk lastp ss else Rest t
      | NoMatch \<Rightarrow> star_match chunk lastp ss
      | BadPattern \<Rightarrow> BadPattern)"

lemma scan_rest_length: "length (fst (scan_rest i p)) + length (snd (scan_rest i p)) = length p"
  by (induction i p rule: scan_rest.induct) (auto simp: split_beta Let_def split: list.splits)

lemma scan_rest_nonempty: "p \<noteq> [] \<Longrightarrow> hd p \<noteq> CHR ''*'' \<Longrightarrow> fst (scan_rest False p) \<noteq> []"
  by (cases p) (auto simp: split_beta Let_def split: list.splits)

lemma scanChunk_shorter: "pattern \<noteq> [] \<Longrightarrow> scanChunk pattern = (star, chunk, rest) \<Longrightarrow> length rest < length pattern"
proof -
  assume ne: "pattern \<noteq> []" and sc: "scanChunk pattern = (star, chunk, rest)"
  let ?p = "dropWhile (\<lambda>c. c = CHR ''*'') pattern"
  have r: "rest = snd (scan_rest False ?p)" "chunk = fst (scan_rest False ?p)"
    using sc by (auto simp: scanChunk_def Let_def split_beta)
  have l: "length chunk + length rest = length ?p" using scan_rest_length [of False ?p] r by simp
  show "length rest < length pattern"
  proof (cases "?p = pattern")
    case True
    then have "hd pattern \<noteq> CHR ''*''" using ne dropWhile_eq_self_iff [of "\<lambda>c. c = CHR ''*''" pattern] by simp
    then have "chunk \<noteq> []" using scan_rest_nonempty [OF ne] True r by simp
    then have "0 < length chunk" by simp
    with l [unfolded True] show ?thesis by linarith
  next
    case False
    have le: "length ?p \<le> length pattern" by (rule length_dropWhile_le)
    have "length ?p \<noteq> length pattern"
      using False by (metis append_eq_append_conv takeWhile_dropWhile_id append_Nil)
    with le l show ?thesis by linarith
  qed
qed

text \<open>
  The rest of a pattern that did not match is still read for errors. For the match itself \<open>Some\<close> is a
  result without error and \<open>None\<close> is \<^verbatim>\<open>ErrBadPattern\<close>.
\<close>

function pattern_valid :: "string \<Rightarrow> bool" where
  "pattern_valid p =
     (if p = [] then True
      else case scanChunk p of (_, chunk, rest) \<Rightarrow> matchChunk chunk [] \<noteq> BadPattern \<and> pattern_valid rest)"
  by pat_completeness auto
termination by (relation "measure length") (auto dest: scanChunk_shorter [OF _ sym])

function path_match :: "string \<Rightarrow> string \<Rightarrow> bool option" where
  "path_match pattern name =
     (if pattern = [] then Some (name = [])
      else case scanChunk pattern of
        (star, chunk, rest) \<Rightarrow>
          if star \<and> chunk = [] then Some (CHR ''/'' \<notin> set name)
          else case (case matchChunk chunk name of
                 BadPattern \<Rightarrow> BadPattern
               | Rest t \<Rightarrow> if t = [] \<or> rest \<noteq> [] then Rest t
                           else if star then star_match chunk (rest = []) (skips name) else NoMatch
               | NoMatch \<Rightarrow> if star then star_match chunk (rest = []) (skips name) else NoMatch) of
            BadPattern \<Rightarrow> None
          | Rest t \<Rightarrow> path_match rest t
          | NoMatch \<Rightarrow> if pattern_valid rest then Some False else None)"
  by pat_completeness auto
termination by (relation "measure (\<lambda>(p, n). length p)") (auto dest: scanChunk_shorter [OF _ sym])

declare pattern_valid.simps [simp del] path_match.simps [simp del]

section \<open>Stars and literals\<close>

definition literal :: "string \<Rightarrow> bool" where
  "literal p \<longleftrightarrow> (\<forall>c\<in>set p. c \<notin> {CHR ''*'', CHR ''?'', CHR ''['', CHR '']'', CHR 0x5C})"

lemma scan_rest_literal: "literal p \<Longrightarrow> scan_rest False p = (p, [])"
  by (induction p) (auto simp: literal_def)

lemma scanChunk_literal: "literal p \<Longrightarrow> scanChunk p = (False, p, [])"
proof -
  assume l: "literal p"
  then have "dropWhile (\<lambda>c. c = CHR ''*'') p = p" by (cases p) (auto simp: literal_def)
  with scan_rest_literal [OF l] show ?thesis by (simp add: scanChunk_def)
qed

lemma match_chunk_failed: "literal p \<Longrightarrow> length p \<le> fuel \<Longrightarrow> match_chunk fuel True p s = NoMatch"
proof (induction p arbitrary: fuel)
  case (Cons c p)
  then show ?case by (cases fuel) (auto simp: literal_def)
qed simp

lemma match_chunk_literal:
  "literal p \<Longrightarrow> length p \<le> fuel \<Longrightarrow>
     match_chunk fuel False p s = (if prefix p s then Rest (drop (length p) s) else NoMatch)"
proof (induction p arbitrary: fuel s)
  case (Cons c p)
  obtain f where f: "fuel = Suc f" "length p \<le> f" using Cons.prems(2) by (cases fuel) auto
  have l: "literal p" using Cons.prems(1) by (simp add: literal_def)
  show ?case
  proof (cases s)
    case Nil
    then show ?thesis using Cons.prems(1) f match_chunk_failed [OF l f(2)] by (auto simp: literal_def)
  next
    case (Cons d t)
    show ?thesis
    proof (cases "c = d")
      case True
      then show ?thesis using Cons Cons.prems(1) f Cons.IH [OF l f(2), of t] by (auto simp: literal_def)
    next
      case False
      then show ?thesis using Cons Cons.prems(1) f match_chunk_failed [OF l f(2), of t] by (auto simp: literal_def)
    qed
  qed
qed simp

lemma path_match_literal: "literal p \<Longrightarrow> path_match p s = Some (s = p)"
proof (cases "p = []")
  case True
  then show ?thesis by (subst path_match.simps) simp
next
  case False
  assume l: "literal p"
  have e: "path_match [] t = Some (t = [])" for t by (subst path_match.simps) simp
  have v: "pattern_valid []" by (subst pattern_valid.simps) simp
  have "matchChunk p s = (if prefix p s then Rest (drop (length p) s) else NoMatch)"
    using match_chunk_literal [OF l] by (simp add: matchChunk_def)
  then show ?thesis using False scanChunk_literal [OF l] e v
    by (subst path_match.simps) (auto simp: prefix_def)
qed

lemma path_match_star: "path_match ''*'' s = Some (CHR ''/'' \<notin> set s)"
  by (subst path_match.simps) (simp add: scanChunk_def)

end
