(* ===== verification/Csrf.thy ===== *)
theory Csrf
  imports Go_Path_Match
begin

text \<open>
  CSRF protection, \<^verbatim>\<open>src/server/middleware/csrf.go\<close>. A request is reduced to what the middleware reads of
  it; the random source is an argument; the result is the cookie it sets, the audit entry it writes and
  either the token handed to the next handler or the error response.
\<close>

section \<open>Requests and configuration\<close>

record CSRFConfig =
  csrf_Enabled :: bool
  csrf_TokenLength :: nat
  csrf_CookieName :: string
  csrf_HeaderName :: string
  csrf_Secure :: string
  csrf_ExemptPaths :: "string list"

definition DefaultCSRFConfig :: CSRFConfig where
  "DefaultCSRFConfig =
     \<lparr>csrf_Enabled = True, csrf_TokenLength = 32, csrf_CookieName = ''csrf_token'', csrf_HeaderName = ''X-CSRF-Token'',
      csrf_Secure = ''auto'', csrf_ExemptPaths = [''/api/*/server/auth/oidc/*/callback'', ''/api/*/webhooks/*'']\<rparr>"

text \<open>
  \<open>cq_Cookie\<close> is \<^verbatim>\<open>r.Cookie\<close> with \<open>None\<close> for \<^verbatim>\<open>ErrNoCookie\<close>, \<open>cq_Header\<close> is \<^verbatim>\<open>Header.Get\<close> and \<open>cq_Form\<close> is
  \<^verbatim>\<open>PostFormValue\<close>. The two flags say whether the request context holds a user or an administrator.
\<close>

record csrf_request =
  cq_Method :: string
  cq_Path :: string
  cq_TLS :: bool
  cq_Cookie :: "string \<Rightarrow> string option"
  cq_Header :: "string \<Rightarrow> string"
  cq_Form :: "string \<Rightarrow> string"
  cq_user :: bool
  cq_admin :: bool
  cq_auditLogger :: bool

record Cookie =
  ck_Name :: string
  ck_Value :: string
  ck_Path :: string
  ck_Secure :: bool
  ck_HttpOnly :: bool
  ck_SameSiteStrict :: bool

datatype csrf_outcome =
    Next "string option"
  | APIError int string string

record csrf_result =
  cx_setCookie :: "Cookie option"
  cx_audit :: "string option"
  cx_outcome :: csrf_outcome

section \<open>Helpers\<close>

definition hasBearerCredential :: "csrf_request \<Rightarrow> bool" where
  "hasBearerCredential r \<longleftrightarrow>
     prefix ''Bearer '' (cq_Header r ''Authorization'') \<or>
     list_ex (\<lambda>h. cq_Header r h \<noteq> []) [''X-API-Token'', ''X-Api-Key'', ''X-Auth-Token'']"

definition isWebSocketUpgrade :: "csrf_request \<Rightarrow> bool" where
  "isWebSocketUpgrade r \<longleftrightarrow> equalFold (cq_Header r ''Upgrade'') ''websocket''"

definition isPublicEndpoint :: "string \<Rightarrow> bool" where
  "isPublicEndpoint path \<longleftrightarrow> list_ex (\<lambda>p. prefix p path) [''/server/healthz'', ''/healthz'', ''/metrics'', ''/openapi'']"

definition segments :: "string \<Rightarrow> string list" where
  "segments p = split_char (CHR ''/'') (trim_char (CHR ''/'') p)"

text \<open>One pattern against the segments of the request path.\<close>

definition pattern_matches :: "string list \<Rightarrow> string \<Rightarrow> bool" where
  "pattern_matches requestSegments pattern =
     (let ps = segments pattern; trailing = (last ps = ''*'') in
      if length requestSegments < length ps \<or> (length ps < length requestSegments \<and> \<not> trailing) then False
      else list_all2 (\<lambda>p s. path_match p s = Some True) ps (take (length ps) requestSegments))"

definition matchesExemptPath :: "string \<Rightarrow> string list \<Rightarrow> bool" where
  "matchesExemptPath requestPath patterns =
     (let rs = segments requestPath in list_ex (\<lambda>p. p \<noteq> [] \<and> pattern_matches rs p) patterns)"

text \<open>\<open>rnd n\<close> gives \<open>n\<close> random bytes or fails.\<close>

definition generateCSRFToken :: "(nat \<Rightarrow> nat list option) \<Rightarrow> nat \<Rightarrow> string option" where
  "generateCSRFToken rnd len = map_option URLEncoding (rnd len)"

definition setCSRFCookie :: "csrf_request \<Rightarrow> CSRFConfig \<Rightarrow> string \<Rightarrow> Cookie" where
  "setCSRFCookie r cfg token =
     \<lparr>ck_Name = csrf_CookieName cfg, ck_Value = token, ck_Path = ''/'',
      ck_Secure = (if csrf_Secure cfg = ''auto'' then cq_TLS r else csrf_Secure cfg = ''true''),
      ck_HttpOnly = True, ck_SameSiteStrict = True\<rparr>"

definition logCSRFFailure :: "csrf_request \<Rightarrow> string \<Rightarrow> string option" where
  "logCSRFFailure r reason = (if cq_auditLogger r then Some reason else None)"

definition writeCSRFForbidden :: "string \<Rightarrow> csrf_outcome" where
  "writeCSRFForbidden message = APIError 403 ''CSRF_FAILED'' message"

section \<open>The middleware\<close>

definition cookie_token :: "CSRFConfig \<Rightarrow> csrf_request \<Rightarrow> string" where
  "cookie_token cfg r = (case cq_Cookie r (csrf_CookieName cfg) of Some v \<Rightarrow> v | None \<Rightarrow> [])"

definition request_token :: "CSRFConfig \<Rightarrow> csrf_request \<Rightarrow> string" where
  "request_token cfg r =
     (if cq_Form r ''csrf_token'' = [] then cq_Header r (csrf_HeaderName cfg) else cq_Form r ''csrf_token'')"

definition safe_method :: "csrf_request \<Rightarrow> bool" where
  "safe_method r \<longleftrightarrow> cq_Method r = ''GET'' \<or> cq_Method r = ''HEAD'' \<or> cq_Method r = ''OPTIONS''"

text \<open>The part behind the provision of the token: \<open>setc\<close> is the cookie set so far.\<close>

definition check_request :: "CSRFConfig \<Rightarrow> csrf_request \<Rightarrow> Cookie option \<Rightarrow> string \<Rightarrow> csrf_result" where
  "check_request cfg r setc token =
     (let pass = \<lparr>cx_setCookie = setc, cx_audit = None, cx_outcome = Next (Some token)\<rparr>;
          reject = (\<lambda>reason. \<lparr>cx_setCookie = setc, cx_audit = logCSRFFailure r reason, cx_outcome = writeCSRFForbidden reason\<rparr>)
      in if safe_method r then pass
         else if hasBearerCredential r \<or> isWebSocketUpgrade r \<or> isPublicEndpoint (cq_Path r) \<or>
                 matchesExemptPath (cq_Path r) (csrf_ExemptPaths cfg) then pass
         else if \<not> cq_user r \<and> \<not> cq_admin r then pass
         else if cookie_token cfg r = [] then reject ''CSRF token missing''
         else if request_token cfg r = [] then reject ''CSRF token not provided''
         else if request_token cfg r \<noteq> cookie_token cfg r then reject ''CSRF token validation failed''
         else pass)"

definition CSRFProtection :: "(nat \<Rightarrow> nat list option) \<Rightarrow> CSRFConfig \<Rightarrow> csrf_request \<Rightarrow> csrf_result" where
  "CSRFProtection rnd cfg r =
     (if \<not> csrf_Enabled cfg then \<lparr>cx_setCookie = None, cx_audit = None, cx_outcome = Next None\<rparr>
      else if cookie_token cfg r = [] then
        (case generateCSRFToken rnd (csrf_TokenLength cfg) of
           None \<Rightarrow> \<lparr>cx_setCookie = None, cx_audit = None,
                    cx_outcome = APIError 500 ''SERVER_ERROR'' ''Internal server error''\<rparr>
         | Some token \<Rightarrow> check_request cfg r (Some (setCSRFCookie r cfg token)) token)
      else check_request cfg r None (cookie_token cfg r))"

text \<open>The new cookie and the token put into the context, or the error of the random source.\<close>

definition RegenerateCSRFToken ::
  "(nat \<Rightarrow> nat list option) \<Rightarrow> csrf_request \<Rightarrow> CSRFConfig \<Rightarrow> (Cookie \<times> string) option" where
  "RegenerateCSRFToken rnd r cfg =
     map_option (\<lambda>token. (setCSRFCookie r cfg token, token)) (generateCSRFToken rnd (csrf_TokenLength cfg))"

section \<open>What passes\<close>

definition bypasses :: "CSRFConfig \<Rightarrow> csrf_request \<Rightarrow> bool" where
  "bypasses cfg r \<longleftrightarrow> hasBearerCredential r \<or> isWebSocketUpgrade r \<or> isPublicEndpoint (cq_Path r) \<or>
     matchesExemptPath (cq_Path r) (csrf_ExemptPaths cfg)"

definition authenticated :: "csrf_request \<Rightarrow> bool" where
  "authenticated r \<longleftrightarrow> cq_user r \<or> cq_admin r"

definition tokens_match :: "CSRFConfig \<Rightarrow> csrf_request \<Rightarrow> bool" where
  "tokens_match cfg r \<longleftrightarrow> cookie_token cfg r \<noteq> [] \<and> request_token cfg r = cookie_token cfg r"

lemma check_request_passes:
  "(\<exists>t. cx_outcome (check_request cfg r setc token) = Next t) \<longleftrightarrow>
     safe_method r \<or> bypasses cfg r \<or> \<not> authenticated r \<or> tokens_match cfg r"
  by (auto simp: check_request_def bypasses_def authenticated_def tokens_match_def writeCSRFForbidden_def Let_def)

lemma check_request_rejects:
  assumes "\<not> (safe_method r \<or> bypasses cfg r \<or> \<not> authenticated r \<or> tokens_match cfg r)"
  shows "\<exists>reason. check_request cfg r setc token =
    \<lparr>cx_setCookie = setc, cx_audit = logCSRFFailure r reason, cx_outcome = APIError 403 ''CSRF_FAILED'' reason\<rparr>"
  using assms
  by (auto simp: check_request_def bypasses_def authenticated_def tokens_match_def writeCSRFForbidden_def Let_def)

lemma CSRFProtection_checks:
  assumes "csrf_Enabled cfg" "\<not> (cookie_token cfg r = [] \<and> rnd (csrf_TokenLength cfg) = None)"
  shows "\<exists>setc token. CSRFProtection rnd cfg r = check_request cfg r setc token"
proof (cases "cookie_token cfg r = []")
  case True
  with assms obtain bs where "rnd (csrf_TokenLength cfg) = Some bs" by auto
  with True assms(1) show ?thesis by (auto simp: CSRFProtection_def generateCSRFToken_def)
next
  case False
  with assms(1) show ?thesis by (auto simp: CSRFProtection_def)
qed

text \<open>
  A request goes through exactly when it may: with protection enabled and a token at hand (a cookie,
  or a random source that works) the next handler runs if and only if the method is safe, or the request
  carries a credential a browser does not attach by itself or goes to a public or exempt path, or nobody
  is signed in, or the submitted token is the token of the cookie. Every other request is answered with
  403 and recorded in the audit log where there is one; without a token at hand the answer is 500.
\<close>

lemma CSRFProtection_decides:
  assumes "csrf_Enabled cfg"
  shows "(if cookie_token cfg r = [] \<and> rnd (csrf_TokenLength cfg) = None
          then cx_outcome (CSRFProtection rnd cfg r) = APIError 500 ''SERVER_ERROR'' ''Internal server error''
          else if safe_method r \<or> bypasses cfg r \<or> \<not> authenticated r \<or> tokens_match cfg r
          then \<exists>t. cx_outcome (CSRFProtection rnd cfg r) = Next (Some t) \<and>
                 (cookie_token cfg r \<noteq> [] \<longrightarrow> t = cookie_token cfg r)
          else \<exists>reason. cx_outcome (CSRFProtection rnd cfg r) = APIError 403 ''CSRF_FAILED'' reason \<and>
                 (cq_auditLogger r \<longrightarrow> cx_audit (CSRFProtection rnd cfg r) = Some reason))"
proof -
  have pass: "cx_outcome (check_request cfg r setc token) = Next (Some token)"
    if "safe_method r \<or> bypasses cfg r \<or> \<not> authenticated r \<or> tokens_match cfg r" for setc token
    using that by (auto simp: check_request_def bypasses_def authenticated_def tokens_match_def Let_def)
  show ?thesis
  proof (cases "safe_method r \<or> bypasses cfg r \<or> \<not> authenticated r \<or> tokens_match cfg r")
    case True
    show ?thesis using assms True pass [OF True]
      by (auto simp: CSRFProtection_def generateCSRFToken_def split: option.splits)
  next
    case False
    show ?thesis
    proof (cases "cookie_token cfg r = [] \<and> rnd (csrf_TokenLength cfg) = None")
      case True
      then show ?thesis using assms by (simp add: CSRFProtection_def generateCSRFToken_def)
    next
      case ready: False
      obtain setc token where c: "CSRFProtection rnd cfg r = check_request cfg r setc token"
        using CSRFProtection_checks [of cfg r rnd] assms ready by blast
      show ?thesis using ready False check_request_rejects [OF False, of setc token] by (auto simp: c logCSRFFailure_def)
    qed
  qed
qed

definition forged_post :: csrf_request where
  "forged_post =
     \<lparr>cq_Method = ''POST'', cq_Path = ''/api/v1/users/me'', cq_TLS = True,
      cq_Cookie = (\<lambda>n. if n = ''csrf_token'' then Some ''secret'' else None), cq_Header = (\<lambda>_. []), cq_Form = (\<lambda>_. []),
      cq_user = True, cq_admin = False, cq_auditLogger = True\<rparr>"

lemma CSRFProtection_decides_example:
  "\<exists>reason. cx_outcome (CSRFProtection (\<lambda>_. None) DefaultCSRFConfig forged_post) = APIError 403 ''CSRF_FAILED'' reason \<and>
     cx_audit (CSRFProtection (\<lambda>_. None) DefaultCSRFConfig forged_post) = Some reason"
proof -
  have "\<not> (safe_method forged_post \<or> bypasses DefaultCSRFConfig forged_post \<or> \<not> authenticated forged_post \<or>
      tokens_match DefaultCSRFConfig forged_post)" "cookie_token DefaultCSRFConfig forged_post \<noteq> []"
    "csrf_Enabled DefaultCSRFConfig" "cq_auditLogger forged_post"
    by code_simp+
  then show ?thesis using CSRFProtection_decides [of DefaultCSRFConfig forged_post "\<lambda>_. None"] by simp
qed

section \<open>Exempt paths\<close>

lemma segments_no_slash: "x \<in> set (segments p) \<Longrightarrow> CHR ''/'' \<notin> set x"
  by (auto simp: segments_def dest: split_char_parts)

lemma segment_star: "x \<in> set (segments p) \<Longrightarrow> path_match ''*'' x = Some True"
  by (simp add: path_match_star segments_no_slash)

lemma default_segments:
  "segments ''/api/*/server/auth/oidc/*/callback'' = [''api'', ''*'', ''server'', ''auth'', ''oidc'', ''*'', ''callback'']"
  "segments ''/api/*/webhooks/*'' = [''api'', ''*'', ''webhooks'', ''*'']"
  by code_simp+

lemma default_literals:
  "literal ''api''" "literal ''server''" "literal ''auth''" "literal ''oidc''" "literal ''callback''" "literal ''webhooks''"
  by (simp_all add: literal_def)

lemmas default_match = path_match_literal [OF default_literals(1)] path_match_literal [OF default_literals(2)]
  path_match_literal [OF default_literals(3)] path_match_literal [OF default_literals(4)]
  path_match_literal [OF default_literals(5)] path_match_literal [OF default_literals(6)]

lemma oidc_matches:
  assumes "\<forall>x\<in>set rs. path_match ''*'' x = Some True"
  shows "pattern_matches rs ''/api/*/server/auth/oidc/*/callback'' \<longleftrightarrow>
    (\<exists>v p. rs = [''api'', v, ''server'', ''auth'', ''oidc'', p, ''callback''])"
  using assms unfolding pattern_matches_def default_segments
  by (auto simp: Let_def default_match list_all2_Cons1 not_less take_Cons' split: if_splits)

lemma webhooks_matches:
  assumes "\<forall>x\<in>set rs. path_match ''*'' x = Some True"
  shows "pattern_matches rs ''/api/*/webhooks/*'' \<longleftrightarrow> (\<exists>v x rest. rs = ''api'' # v # ''webhooks'' # x # rest)"
proof
  assume m: "pattern_matches rs ''/api/*/webhooks/*''"
  then have l: "4 \<le> length rs" "list_all2 (\<lambda>p s. path_match p s = Some True) [''api'', ''*'', ''webhooks'', ''*''] (take 4 rs)"
    unfolding pattern_matches_def default_segments by (auto simp: Let_def numeral_eq_Suc split: if_splits)
  then obtain v x where "take 4 rs = [''api'', v, ''webhooks'', x]" by (auto simp: default_match list_all2_Cons1)
  then have "rs = [''api'', v, ''webhooks'', x] @ drop 4 rs" by (metis append_take_drop_id)
  then show "\<exists>v x rest. rs = ''api'' # v # ''webhooks'' # x # rest" by auto
next
  assume "\<exists>v x rest. rs = ''api'' # v # ''webhooks'' # x # rest"
  with assms show "pattern_matches rs ''/api/*/webhooks/*''"
    unfolding pattern_matches_def default_segments by (auto simp: Let_def default_match)
qed

text \<open>
  The default exemptions cover exactly what they name: a path is exempt if and only if, split at its
  slashes, it is the OIDC callback of some API version and provider, or lies below the webhooks of some
  API version, at any depth but not the webhooks path itself.
\<close>

lemma default_exempt_paths:
  "matchesExemptPath path (csrf_ExemptPaths DefaultCSRFConfig) \<longleftrightarrow>
     (\<exists>v p. segments path = [''api'', v, ''server'', ''auth'', ''oidc'', p, ''callback'']) \<or>
     (\<exists>v x rest. segments path = ''api'' # v # ''webhooks'' # x # rest)"
proof -
  have "\<forall>x\<in>set (segments path). path_match ''*'' x = Some True" using segment_star by blast
  then show ?thesis
    unfolding matchesExemptPath_def Let_def
    by (simp add: DefaultCSRFConfig_def oidc_matches webhooks_matches)
qed

end
