(* ===== verification/User_Sessions.thy ===== *)
theory User_Sessions
  imports Sessions
begin

text \<open>
  The second model over the table \<^verbatim>\<open>user_sessions\<close>, \<^verbatim>\<open>UserSessionModel\<close> of \<^verbatim>\<open>src/server/model/user.go\<close>, which the
  settings pages and the LDAP and OIDC logins use beside \<^verbatim>\<open>SessionModel\<close>. It also writes and reads the
  address, the user agent and the time of last use; scanning a NULL into a Go string is an error.
\<close>

section \<open>Operations\<close>

record UserSession =
  uss_ID :: int
  uss_UserID :: int
  uss_SessionID :: string
  uss_IPAddress :: string
  uss_UserAgent :: string
  uss_CreatedAt :: instant
  uss_ExpiresAt :: instant
  uss_LastUsedAt :: instant

datatype user_session_error =
    SessionTokenFailed
  | SessionInsertFailed
  | NoSessionID
  | NoSuchSession
  | SessionReadFailed
  | SessionScanFailed

record open_io =
  op_token :: "string option"
  op_now :: instant
  op_insert_ok :: bool
  op_id_ok :: bool

definition CreateUserSession ::
  "token_hash \<Rightarrow> open_io \<Rightarrow> int \<Rightarrow> string \<Rightarrow> string \<Rightarrow> int \<Rightarrow> session_table \<Rightarrow> session_table \<times> (user_session_error + UserSession)"
where
  "CreateUserSession hash io userID ipAddress userAgent duration t =
     (case op_token io of
        None \<Rightarrow> (t, Inl SessionTokenFailed)
      | Some sessionID \<Rightarrow>
          (let now = op_now io; expiresAt = now + duration; i = st_next t in
           if \<not> op_insert_ok io \<or> (\<exists>r\<in>set (st_rows t). us_token_hash r = hash sessionID) then (t, Inl SessionInsertFailed)
           else
             (let t' = \<lparr>st_next = i + 1, st_rows = st_rows t @
                  [\<lparr>us_id = i, us_token_hash = hash sessionID, us_user_id = userID, us_data = None,
                    us_expires_at = VStr (FormatSQLTimestamp expiresAt), us_created_at = VStr (FormatSQLTimestamp now),
                    us_ip_address = Some ipAddress, us_user_agent = Some userAgent,
                    us_last_used_at = VStr (FormatSQLTimestamp now)\<rparr>]\<rparr> in
              if \<not> op_id_ok io then (t', Inl NoSessionID)
              else (t', Inr \<lparr>uss_ID = i, uss_UserID = userID, uss_SessionID = sessionID, uss_IPAddress = ipAddress,
                             uss_UserAgent = userAgent, uss_CreatedAt = now, uss_ExpiresAt = expiresAt,
                             uss_LastUsedAt = now\<rparr>))))"

text \<open>One row as \<open>Scan\<close> reads it into the fields of a \<^verbatim>\<open>UserSession\<close>.\<close>

definition scan_session :: "session_row \<Rightarrow> UserSession option" where
  "scan_session r =
     (case (us_ip_address r, us_user_agent r) of
        (Some ip, Some agent) \<Rightarrow>
          Some \<lparr>uss_ID = us_id r, uss_UserID = us_user_id r, uss_SessionID = us_token_hash r, uss_IPAddress = ip,
                uss_UserAgent = agent,
                uss_CreatedAt = (case ParseStoredTimestamp (us_created_at r) of Some c \<Rightarrow> c | None \<Rightarrow> zero_time),
                uss_ExpiresAt = (case ParseStoredTimestamp (us_expires_at r) of Some c \<Rightarrow> c | None \<Rightarrow> zero_time),
                uss_LastUsedAt = (case ParseStoredTimestamp (us_last_used_at r) of Some c \<Rightarrow> c | None \<Rightarrow> zero_time)\<rparr>
      | _ \<Rightarrow> None)"

definition GetUserSession :: "token_hash \<Rightarrow> bool \<Rightarrow> string \<Rightarrow> session_table \<Rightarrow> user_session_error + UserSession" where
  "GetUserSession hash ok rawToken t =
     (if \<not> ok then Inl SessionReadFailed
      else case sql_lookup us_token_hash (hash rawToken) (st_rows t) of
        None \<Rightarrow> Inl NoSuchSession
      | Some r \<Rightarrow> (case scan_session r of None \<Rightarrow> Inl SessionReadFailed | Some s \<Rightarrow> Inr s))"

definition UserSessionExpired :: "instant \<Rightarrow> UserSession \<Rightarrow> bool" where
  "UserSessionExpired now s \<longleftrightarrow> uss_ExpiresAt s < now"

definition UpdateSessionLastUsed :: "token_hash \<Rightarrow> bool \<Rightarrow> instant \<Rightarrow> string \<Rightarrow> session_table \<Rightarrow> session_table \<times> bool" where
  "UpdateSessionLastUsed hash ok now rawToken t =
     session_update hash ok rawToken (\<lambda>r. r\<lparr>us_last_used_at := VStr (FormatSQLTimestamp now)\<rparr>) t"

definition DeleteUserSession :: "token_hash \<Rightarrow> bool \<Rightarrow> string \<Rightarrow> session_table \<Rightarrow> session_table \<times> bool" where
  "DeleteUserSession hash ok rawToken t =
     (if ok then (t\<lparr>st_rows := sql_delete (\<lambda>r. us_token_hash r = hash rawToken) (st_rows t)\<rparr>, True) else (t, False))"

definition DeleteSessionByRowID :: "bool \<Rightarrow> int \<Rightarrow> session_table \<Rightarrow> session_table \<times> bool" where
  "DeleteSessionByRowID ok rowID t =
     (if ok then (t\<lparr>st_rows := sql_delete (\<lambda>r. us_id r = rowID) (st_rows t)\<rparr>, True) else (t, False))"

text \<open>The row id of a live session, 0 when there is none, \<open>None\<close> when the query fails.\<close>

definition GetRowIDByToken :: "token_hash \<Rightarrow> bool \<Rightarrow> instant \<Rightarrow> string \<Rightarrow> session_table \<Rightarrow> int option" where
  "GetRowIDByToken hash ok now rawToken t =
     (if \<not> ok then None
      else case sql_lookup us_token_hash (hash rawToken) (st_rows t) of
        None \<Rightarrow> Some 0
      | Some r \<Rightarrow> if \<not> IsAfter (us_expires_at r) now then Some 0 else Some (us_id r))"

definition DeleteAllSessionsForUser :: "bool \<Rightarrow> int \<Rightarrow> session_table \<Rightarrow> session_table \<times> bool" where
  "DeleteAllSessionsForUser ok userID t =
     (if ok then (t\<lparr>st_rows := sql_delete (\<lambda>r. us_user_id r = userID) (st_rows t)\<rparr>, True) else (t, False))"

definition DeleteExpiredSessions :: "bool \<Rightarrow> bool list \<Rightarrow> instant \<Rightarrow> session_table \<Rightarrow> session_table \<times> bool" where
  "DeleteExpiredSessions selectOk oks now t =
     (case DeleteRowsWithTimestampBefore (\<lambda>r. VInt (us_id r)) us_expires_at selectOk oks now False (st_rows t) of
        (rows, n, ok) \<Rightarrow> (t\<lparr>st_rows := rows\<rparr>, ok))"

text \<open>The loop over the rows of a user: a row that cannot be scanned ends it with an error, an expired row is skipped.\<close>

fun active_loop :: "instant \<Rightarrow> session_row list \<Rightarrow> UserSession list option" where
  "active_loop now [] = Some []"
| "active_loop now (r # rows) =
     (case scan_session r of
        None \<Rightarrow> None
      | Some s \<Rightarrow>
          (case ParseStoredTimestamp (us_expires_at r) of
             None \<Rightarrow> active_loop now rows
           | Some expiresAt \<Rightarrow>
               if \<not> now < expiresAt then active_loop now rows
               else map_option (\<lambda>rest. s # rest) (active_loop now rows)))"

definition GetActiveSessions :: "bool \<Rightarrow> bool \<Rightarrow> instant \<Rightarrow> int \<Rightarrow> session_table \<Rightarrow> user_session_error + UserSession list" where
  "GetActiveSessions queryOk rowsOk now userID t =
     (if \<not> queryOk then Inl SessionReadFailed
      else case active_loop now (filter (\<lambda>r. us_user_id r = userID) (st_rows t)) of
        None \<Rightarrow> Inl SessionScanFailed
      | Some sessions \<Rightarrow>
          if \<not> rowsOk then Inl SessionReadFailed
          else Inr (sort_key (\<lambda>s. - uss_LastUsedAt s) sessions))"

section \<open>The two models on one table\<close>

lemma active_loop_fails: "\<exists>r\<in>set rows. scan_session r = None \<Longrightarrow> active_loop now rows = None"
  by (induction rows) (auto split: option.splits)

lemma active_loop_live:
  "\<forall>r\<in>set rows. scan_session r \<noteq> None \<Longrightarrow>
   active_loop now rows = Some (map (the \<circ> scan_session) (filter (\<lambda>r. IsAfter (us_expires_at r) now) rows))"
  by (induction rows) (auto simp: IsAfter_def split: option.splits)

lemma CreateUserSession_wf: "sessions_wf t \<Longrightarrow> sessions_wf (fst (CreateUserSession hash io u ip ag d t))"
proof -
  assume wf: "sessions_wf t"
  have "sessions_wf \<lparr>st_next = st_next t + 1, st_rows = st_rows t @ [r]\<rparr>"
    if "session_ok r" "us_id r = st_next t" "\<forall>q\<in>set (st_rows t). us_token_hash q \<noteq> us_token_hash r" for r
    using wf that by (auto simp: sessions_wf_def session_rows.insert_ok)
  with wf show ?thesis
    by (auto simp: CreateUserSession_def Let_def session_ok_def split: option.splits)
qed

text \<open>
  The list of active sessions and its failure. When every session of the user carries an address and a
  user agent, \<open>GetActiveSessions\<close> returns exactly the unexpired ones, the most recently used first. But the
  password login opens its sessions with \<open>SessionModel\<close>, which leaves both columns NULL: as long as one
  such session of the user is stored, expired or not, the whole list is an error.
\<close>

lemma active_sessions_listed:
  assumes login: "CreateSession hash io (UidInt64 u) timeout t = (t', Inr s)"
  shows "GetActiveSessions True True now u t' = Inl SessionScanFailed \<and>
    ((\<forall>r\<in>set (st_rows t). us_user_id r = u \<longrightarrow> us_ip_address r \<noteq> None \<and> us_user_agent r \<noteq> None) \<longrightarrow>
     (\<exists>ss. GetActiveSessions True True now u t = Inr ss \<and>
        set ss = {the (scan_session r) | r. r \<in> set (st_rows t) \<and> us_user_id r = u \<and> IsAfter (us_expires_at r) now} \<and>
        sorted_wrt (\<lambda>a b. uss_LastUsedAt b \<le> uss_LastUsedAt a) ss))"
proof
  have "\<exists>r\<in>set (st_rows t'). us_user_id r = u \<and> scan_session r = None"
    using login by (auto simp: CreateSession_def Let_def scan_session_def split: option.splits if_splits)
  then have "\<exists>r\<in>set (filter (\<lambda>r. us_user_id r = u) (st_rows t')). scan_session r = None" by auto
  then show "GetActiveSessions True True now u t' = Inl SessionScanFailed"
    by (simp add: GetActiveSessions_def active_loop_fails)
  show "(\<forall>r\<in>set (st_rows t). us_user_id r = u \<longrightarrow> us_ip_address r \<noteq> None \<and> us_user_agent r \<noteq> None) \<longrightarrow>
     (\<exists>ss. GetActiveSessions True True now u t = Inr ss \<and>
        set ss = {the (scan_session r) | r. r \<in> set (st_rows t) \<and> us_user_id r = u \<and> IsAfter (us_expires_at r) now} \<and>
        sorted_wrt (\<lambda>a b. uss_LastUsedAt b \<le> uss_LastUsedAt a) ss)"
  proof
    assume all: "\<forall>r\<in>set (st_rows t). us_user_id r = u \<longrightarrow> us_ip_address r \<noteq> None \<and> us_user_agent r \<noteq> None"
    let ?rows = "filter (\<lambda>r. us_user_id r = u) (st_rows t)"
    let ?ss = "map (the \<circ> scan_session) (filter (\<lambda>r. IsAfter (us_expires_at r) now) ?rows)"
    have "active_loop now ?rows = Some ?ss"
      using all by (intro active_loop_live) (auto simp: scan_session_def)
    then have "GetActiveSessions True True now u t = Inr (sort_key (\<lambda>s. - uss_LastUsedAt s) ?ss)"
      by (simp add: GetActiveSessions_def)
    moreover have "sorted_wrt (\<lambda>a b. uss_LastUsedAt b \<le> uss_LastUsedAt a) (sort_key (\<lambda>s. - uss_LastUsedAt s) ?ss)"
      using sorted_sort_key [of "\<lambda>s. - uss_LastUsedAt s" ?ss] by (simp add: sorted_map sorted_wrt_map del: sorted_sort_key)
    moreover have "set (sort_key (\<lambda>s. - uss_LastUsedAt s) ?ss) =
        {the (scan_session r) | r. r \<in> set (st_rows t) \<and> us_user_id r = u \<and> IsAfter (us_expires_at r) now}" by auto
    ultimately show "\<exists>ss. GetActiveSessions True True now u t = Inr ss \<and>
        set ss = {the (scan_session r) | r. r \<in> set (st_rows t) \<and> us_user_id r = u \<and> IsAfter (us_expires_at r) now} \<and>
        sorted_wrt (\<lambda>a b. uss_LastUsedAt b \<le> uss_LastUsedAt a) ss" by blast
  qed
qed

lemma active_sessions_listed_example:
  "GetActiveSessions True True 0 7 (fst (CreateSession id (create_ok ''tok'') (UidInt64 7) 60 \<lparr>st_next = 1, st_rows = []\<rparr>))
     = Inl SessionScanFailed"
proof -
  obtain t' s where c: "CreateSession id (create_ok ''tok'') (UidInt64 7) 60 \<lparr>st_next = 1, st_rows = []\<rparr> = (t', Inr s)"
    by (simp add: CreateSession_def create_ok_def Let_def)
  from active_sessions_listed [OF this, of 0] show ?thesis by (simp add: c)
qed

text \<open>\<open>GetSession\<close> does not look at the expiry: it returns an expired session; \<open>GetRowIDByToken\<close> does not.\<close>

lemma GetUserSession_expired:
  assumes "CreateUserSession hash io u ip ag d t = (t', Inr s)" "op_token io = Some raw"
    "\<forall>r\<in>set (st_rows t). us_token_hash r \<noteq> hash raw" "0 \<le> year utc (op_now io + d)" "year utc (op_now io + d) \<le> 9999"
    "op_now io + d \<le> now"
  shows "(\<exists>s'. GetUserSession hash True raw t' = Inr s') \<and> GetRowIDByToken hash True now raw t' = Some 0"
proof -
  have none: "sql_lookup us_token_hash (hash raw) (st_rows t) = None" using assms(3) by (auto simp: sql_lookup_None)
  have "\<exists>r. sql_lookup us_token_hash (hash raw) (st_rows t') = Some r \<and>
      us_expires_at r = VStr (FormatSQLTimestamp (op_now io + d)) \<and> us_ip_address r \<noteq> None \<and> us_user_agent r \<noteq> None"
    using assms(1,2) by (auto simp: CreateUserSession_def Let_def sql_lookup_append none split: if_splits)
  moreover have "0 \<le> (op_now io + d) mod second_ns" by (simp add: second_ns_def)
  then have "(op_now io + d) - (op_now io + d) mod second_ns \<le> now" using assms(6) by linarith
  ultimately show ?thesis
    using stored_text_reads_back [OF assms(4,5)]
    by (auto simp: GetUserSession_def GetRowIDByToken_def scan_session_def IsAfter_def)
qed

end
