(* ===== verification/Passwords.thy ===== *)
theory Passwords
  imports Go_Prelude
begin

text \<open>
  Password hashes and encryption at rest: \<^verbatim>\<open>src/util/password.go\<close>, \<^verbatim>\<open>src/util/encryption.go\<close> and the
  password functions of \<^verbatim>\<open>src/server/model/admin.go\<close>. Argon2id and AES-256-GCM are parameters; random bytes
  are arguments, \<open>None\<close> when the source of randomness fails. Bytes are characters.
\<close>

section \<open>Base64\<close>

text \<open>\<open>RawStdEncoding.EncodeToString\<close>: the standard alphabet without padding.\<close>

definition b64_char :: "nat \<Rightarrow> char" where
  "b64_char n = (base64_chars @ ''+/'') ! n"

definition b64_value :: "char \<Rightarrow> nat option" where
  "b64_value c =
     (let n = of_char c :: nat in
      if 65 \<le> n \<and> n \<le> 90 then Some (n - 65)
      else if 97 \<le> n \<and> n \<le> 122 then Some (n - 71)
      else if 48 \<le> n \<and> n \<le> 57 then Some (n + 4)
      else if n = 43 then Some 62
      else if n = 47 then Some 63
      else None)"

fun raw_encode :: "nat list \<Rightarrow> string" where
  "raw_encode [] = []"
| "raw_encode [a] = [b64_char (a div 4), b64_char (a mod 4 * 16)]"
| "raw_encode [a, b] = [b64_char (a div 4), b64_char (a mod 4 * 16 + b div 16), b64_char (b mod 16 * 4)]"
| "raw_encode (a # b # c # r) =
     [b64_char (a div 4), b64_char (a mod 4 * 16 + b div 16), b64_char (b mod 16 * 4 + c div 64), b64_char (c mod 64)]
       @ raw_encode r"

definition RawStdEncoding :: "string \<Rightarrow> string" where
  "RawStdEncoding s = raw_encode (map of_char s)"

text \<open>
  \<open>DecodeString\<close>: line ends are skipped, a quantum of one character or a character outside the alphabet is
  an error, and the bits a short last quantum does not need are ignored.
\<close>

definition quad :: "char \<Rightarrow> char \<Rightarrow> char \<Rightarrow> char \<Rightarrow> nat list option" where
  "quad a b c d =
     (case (b64_value a, b64_value b, b64_value c, b64_value d) of
        (Some va, Some vb, Some vc, Some vd) \<Rightarrow>
          Some [va * 4 + vb div 16, vb mod 16 * 16 + vc div 4, vc mod 4 * 64 + vd]
      | _ \<Rightarrow> None)"

definition short2 :: "char \<Rightarrow> char \<Rightarrow> nat list option" where
  "short2 a b = map_option (take 1) (quad a b CHR ''A'' CHR ''A'')"

definition short3 :: "char \<Rightarrow> char \<Rightarrow> char \<Rightarrow> nat list option" where
  "short3 a b c = map_option (take 2) (quad a b c CHR ''A'')"

fun raw_decode :: "string \<Rightarrow> nat list option" where
  "raw_decode [] = Some []"
| "raw_decode [a] = None"
| "raw_decode [a, b] = short2 a b"
| "raw_decode [a, b, c] = short3 a b c"
| "raw_decode (a # b # c # d # r) =
     (case (quad a b c d, raw_decode r) of (Some x, Some y) \<Rightarrow> Some (x @ y) | _ \<Rightarrow> None)"

text \<open>\<open>StdEncoding.DecodeString\<close>: padding closes the text.\<close>

fun pad_decode :: "string \<Rightarrow> nat list option" where
  "pad_decode [] = Some []"
| "pad_decode (a # b # c # d # r) =
     (if d = CHR ''='' then
        (if r \<noteq> [] then None else if c = CHR ''='' then short2 a b else short3 a b c)
      else case (quad a b c d, pad_decode r) of (Some x, Some y) \<Rightarrow> Some (x @ y) | _ \<Rightarrow> None)"
| "pad_decode _ = None"

definition line_end :: "char \<Rightarrow> bool" where
  "line_end c \<longleftrightarrow> c = CHR 10 \<or> c = CHR 13"

definition RawStdDecode :: "string \<Rightarrow> string option" where
  "RawStdDecode s = map_option (map char_of) (raw_decode (filter (\<lambda>c. \<not> line_end c) s))"

definition StdDecode :: "string \<Rightarrow> string option" where
  "StdDecode s = map_option (map char_of) (pad_decode (filter (\<lambda>c. \<not> line_end c) s))"

definition StdEncode :: "string \<Rightarrow> string" where
  "StdEncode s = StdEncoding (map of_char s)"

definition RawURLEncoding :: "string \<Rightarrow> string" where
  "RawURLEncoding s =
     map (\<lambda>c. if c = CHR ''+'' then CHR ''-'' else if c = CHR ''/'' then CHR ''_'' else c) (RawStdEncoding s)"

section \<open>Password hashes\<close>

text \<open>
  \<open>argon2.IDKey\<close>: password, salt, passes, memory, threads and key length; \<open>None\<close> is the panic the package
  raises for parameters it refuses.
\<close>

type_synonym argon2 = "string \<Rightarrow> string \<Rightarrow> nat \<Rightarrow> nat \<Rightarrow> nat \<Rightarrow> nat \<Rightarrow> string option"

definition argon2Time :: nat where "argon2Time = 3"
definition argon2Memory :: nat where "argon2Memory = 64 * 1024"
definition argon2Threads :: nat where "argon2Threads = 4"
definition argon2KeyLen :: nat where "argon2KeyLen = 32"

datatype password_error =
    NoSalt
  | InvalidHashFormat
  | UnsupportedAlgorithm
  | BadParameters
  | BadSaltEncoding
  | BadKeyEncoding
  | Argon2Panic

definition phc_text :: "string \<Rightarrow> string \<Rightarrow> string" where
  "phc_text salt key =
     ''$argon2id$v=19$m='' @ itoa (int argon2Memory) @ '',t='' @ itoa (int argon2Time) @ '',p='' @
     itoa (int argon2Threads) @ ''$'' @ RawStdEncoding salt @ ''$'' @ RawStdEncoding key"

definition HashPassword :: "argon2 \<Rightarrow> string option \<Rightarrow> string \<Rightarrow> password_error + string" where
  "HashPassword argon random password =
     (case random of
        None \<Rightarrow> Inl NoSalt
      | Some salt \<Rightarrow>
          (case argon password salt argon2Time argon2Memory argon2Threads argon2KeyLen of
             None \<Rightarrow> Inl Argon2Panic
           | Some key \<Rightarrow> Inr (phc_text salt key)))"

text \<open>
  \<open>fmt.Sscanf\<close> with the format \<^verbatim>\<open>m=%d,t=%d,p=%d\<close> into two 32-bit and one 8-bit unsigned integers. A verb skips
  leading space, but not a line feed; what follows the last number is not read.
\<close>

function scan_skip :: "string \<Rightarrow> string option" where
  "scan_skip s =
     (if s = [] \<or> space_at s = 0 then Some s
      else if hd s = CHR 10 then None
      else scan_skip (drop (space_at s) s))"
  by pat_completeness auto
termination
  by (relation "measure length") auto

declare scan_skip.simps [simp del]

definition scan_uint :: "nat \<Rightarrow> string \<Rightarrow> (nat \<times> string) option" where
  "scan_uint bits s =
     (case scan_skip s of
        None \<Rightarrow> None
      | Some t \<Rightarrow>
          (let digits = takeWhile is_digit t; v = nat (digits_val digits) in
           if digits = [] \<or> v \<ge> 2 ^ bits then None else Some (v, dropWhile is_digit t)))"

definition scan_lit :: "string \<Rightarrow> string \<Rightarrow> string option" where
  "scan_lit lit s = (if prefix lit s then Some (drop (length lit) s) else None)"

definition scan_params :: "string \<Rightarrow> (nat \<times> nat \<times> nat) option" where
  "scan_params s =
     Option.bind (scan_lit ''m='' s) (\<lambda>s1. Option.bind (scan_uint 32 s1) (\<lambda>(memory, s2).
     Option.bind (scan_lit '',t='' s2) (\<lambda>s3. Option.bind (scan_uint 32 s3) (\<lambda>(passes, s4).
     Option.bind (scan_lit '',p='' s4) (\<lambda>s5. Option.bind (scan_uint 8 s5) (\<lambda>(threads, s6).
       Some (memory, passes, threads)))))))"

text \<open>\<open>VerifyPassword\<close> of package \<^verbatim>\<open>model\<close> reads the parameters from the stored text.\<close>

definition VerifyPassword :: "argon2 \<Rightarrow> string \<Rightarrow> string \<Rightarrow> password_error + bool" where
  "VerifyPassword argon password hash =
     (let parts = split_char CHR ''$'' hash in
      if length parts \<noteq> 6 then Inl InvalidHashFormat
      else if parts ! 1 \<noteq> ''argon2id'' then Inl UnsupportedAlgorithm
      else case scan_params (parts ! 3) of
        None \<Rightarrow> Inl BadParameters
      | Some (memory, passes, threads) \<Rightarrow>
          (case RawStdDecode (parts ! 4) of
             None \<Rightarrow> Inl BadSaltEncoding
           | Some salt \<Rightarrow>
               (case RawStdDecode (parts ! 5) of
                  None \<Rightarrow> Inl BadKeyEncoding
                | Some expected \<Rightarrow>
                    (case argon password salt passes memory threads (length expected) of
                       None \<Rightarrow> Inl Argon2Panic
                     | Some provided \<Rightarrow> Inr (provided = expected)))))"

text \<open>\<open>VerifyPassword\<close> of package \<^verbatim>\<open>util\<close> uses its own constants whatever the text says.\<close>

definition util_VerifyPassword :: "argon2 \<Rightarrow> string \<Rightarrow> string \<Rightarrow> password_error + bool" where
  "util_VerifyPassword argon password encodedHash =
     (let parts = split_char CHR ''$'' encodedHash in
      if length parts \<noteq> 6 then Inl InvalidHashFormat
      else if parts ! 1 \<noteq> ''argon2id'' then Inl UnsupportedAlgorithm
      else case RawStdDecode (parts ! 4) of
        None \<Rightarrow> Inl BadSaltEncoding
      | Some salt \<Rightarrow>
          (case RawStdDecode (parts ! 5) of
             None \<Rightarrow> Inl BadKeyEncoding
           | Some hash \<Rightarrow>
               (case argon password salt argon2Time argon2Memory argon2Threads argon2KeyLen of
                  None \<Rightarrow> Inl Argon2Panic
                | Some inputHash \<Rightarrow> Inr (hash = inputHash))))"

definition IsBcryptHash :: "string \<Rightarrow> bool" where
  "IsBcryptHash hash \<longleftrightarrow> prefix ''$2a$'' hash \<or> prefix ''$2b$'' hash \<or> prefix ''$2y$'' hash"

definition IsArgon2idHash :: "string \<Rightarrow> bool" where
  "IsArgon2idHash hash \<longleftrightarrow> prefix ''$argon2id$'' hash"

text \<open>\<open>GenerateSecureToken(32)\<close> and the prefixed token of \<^verbatim>\<open>util\<close>, from the random bytes.\<close>

definition GenerateSecureToken :: "string option \<Rightarrow> string option" where
  "GenerateSecureToken random = map_option (\<lambda>bytes. URLEncoding (map of_char bytes)) random"

definition util_GenerateAPIToken :: "string \<Rightarrow> string option \<Rightarrow> string option" where
  "util_GenerateAPIToken prefx random = map_option (\<lambda>bytes. prefx @ RawURLEncoding bytes) random"

section \<open>Encryption at rest\<close>

text \<open>
  AES-256-GCM as package \<^verbatim>\<open>crypto/cipher\<close> documents it: \<open>gcm_seal key nonce text\<close> is ciphertext and tag,
  \<open>gcm_open\<close> the text or an error.
\<close>

record gcm =
  gcm_seal :: "string \<Rightarrow> string \<Rightarrow> string \<Rightarrow> string"
  gcm_open :: "string \<Rightarrow> string \<Rightarrow> string \<Rightarrow> string option"

datatype crypt_error = ErrEncryptionKeyInvalid | NoNonce | BadCiphertext | CiphertextTooShort | OpenFailed

definition newAESCipher :: "string \<Rightarrow> crypt_error + string" where
  "newAESCipher base64Key =
     (case StdDecode base64Key of
        None \<Rightarrow> Inl ErrEncryptionKeyInvalid
      | Some key \<Rightarrow> if length key \<noteq> 32 then Inl ErrEncryptionKeyInvalid else Inr key)"

definition nonceSize :: nat where "nonceSize = 12"

definition EncryptAtRest :: "gcm \<Rightarrow> string option \<Rightarrow> string \<Rightarrow> string \<Rightarrow> crypt_error + string" where
  "EncryptAtRest g random base64Key plaintext =
     (case newAESCipher base64Key of
        Inl err \<Rightarrow> Inl err
      | Inr key \<Rightarrow>
          (case random of
             None \<Rightarrow> Inl NoNonce
           | Some nonce \<Rightarrow> Inr (StdEncode (nonce @ gcm_seal g key nonce plaintext))))"

definition DecryptAtRest :: "gcm \<Rightarrow> string \<Rightarrow> string \<Rightarrow> crypt_error + string" where
  "DecryptAtRest g base64Key encoded =
     (case newAESCipher base64Key of
        Inl err \<Rightarrow> Inl err
      | Inr key \<Rightarrow>
          (case StdDecode encoded of
             None \<Rightarrow> Inl BadCiphertext
           | Some sealed \<Rightarrow>
               if length sealed < nonceSize then Inl CiphertextTooShort
               else (case gcm_open g key (take nonceSize sealed) (drop nonceSize sealed) of
                       None \<Rightarrow> Inl OpenFailed
                     | Some plaintext \<Rightarrow> Inr plaintext)))"

definition IsEncryptedAtRest :: "gcm \<Rightarrow> string \<Rightarrow> string \<Rightarrow> bool" where
  "IsEncryptedAtRest g base64Key v =
     (if v = [] then False else (case DecryptAtRest g base64Key v of Inl _ \<Rightarrow> False | Inr _ \<Rightarrow> True))"

section \<open>Round trips of the encodings\<close>

lemma base64_codes:
  "map of_char (base64_chars @ ''+/'') = ([65..<91] @ [97..<123] @ [48..<58] @ [43, 47] :: nat list)"
  by (simp add: base64_chars_def upt_rec_numeral)

lemma b64_char_code:
  assumes "n < 64"
  shows "(of_char (b64_char n) :: nat) =
    (if n < 26 then n + 65 else if n < 52 then n + 71 else if n < 62 then n - 4 else if n = 62 then 43 else 47)"
proof -
  have len: "length (base64_chars @ ''+/'') = 64" by (simp add: base64_chars_def)
  have "(of_char (b64_char n) :: nat) = map of_char (base64_chars @ ''+/'') ! n"
    using assms len by (simp add: b64_char_def nth_map del: map_append)
  also have "\<dots> = ([65..<91] @ [97..<123] @ [48..<58] @ [43, 47] :: nat list) ! n" by (simp only: base64_codes)
  also have "\<dots> = (if n < 26 then n + 65 else if n < 52 then n + 71 else if n < 62 then n - 4 else if n = 62 then 43 else 47)"
    using assms by (auto simp: nth_append nth_Cons')
  finally show ?thesis .
qed

lemma b64_value_char: "n < 64 \<Longrightarrow> b64_value (b64_char n) = Some n"
  by (auto simp: b64_value_def b64_char_code Let_def)

lemma b64_char_class:
  assumes "n < 64"
  shows "b64_char n \<noteq> CHR ''=''" "b64_char n \<noteq> CHR ''$''" "\<not> line_end (b64_char n)"
proof -
  have "(of_char (b64_char n) :: nat) \<notin> {61, 36, 10, 13}" using assms by (auto simp: b64_char_code)
  then show "b64_char n \<noteq> CHR ''=''" "b64_char n \<noteq> CHR ''$''" "\<not> line_end (b64_char n)"
    by (auto simp: line_end_def)
qed

lemma quad_chars:
  "a < 64 \<Longrightarrow> b < 64 \<Longrightarrow> c < 64 \<Longrightarrow> d < 64 \<Longrightarrow>
   quad (b64_char a) (b64_char b) (b64_char c) (b64_char d) =
     Some [a * 4 + b div 16, b mod 16 * 16 + c div 4, c mod 4 * 64 + d]"
  by (simp add: quad_def b64_value_char)

lemma b64_zero: "CHR ''A'' = b64_char 0"
  by (simp add: b64_char_def base64_chars_def)

lemma high_bits: "(b :: nat) < 256 \<Longrightarrow> b div 4 < 64 \<and> b div 16 < 16 \<and> b div 64 < 4"
  by (simp add: less_mult_imp_div_less)

lemma split_byte:
  fixes a b c :: nat
  shows "a < 256 \<Longrightarrow> a div 4 < 64" "b < 256 \<Longrightarrow> a mod 4 * 16 + b div 16 < 64"
    "c < 256 \<Longrightarrow> b mod 16 * 4 + c div 64 < 64" "c mod 64 < 64" "a mod 4 * 16 < 64" "b mod 16 * 4 < 64"
proof -
  have m: "a mod 4 < 4" "b mod 16 < 16" by simp_all
  show "a < 256 \<Longrightarrow> a div 4 < 64" by (simp add: less_mult_imp_div_less)
  show "b < 256 \<Longrightarrow> a mod 4 * 16 + b div 16 < 64" using high_bits [of b] m(1) by linarith
  show "c < 256 \<Longrightarrow> b mod 16 * 4 + c div 64 < 64" using high_bits [of c] m(2) by linarith
  show "c mod 64 < 64" by simp
  show "a mod 4 * 16 < 64" "b mod 16 * 4 < 64" using m by linarith+
qed

lemma join_byte:
  fixes b c :: nat
  shows "b < 256 \<Longrightarrow> b div 16 div 16 = 0" "b < 256 \<Longrightarrow> b div 16 mod 16 * 16 + b mod 16 = b"
    "b < 256 \<Longrightarrow> c < 256 \<Longrightarrow> b div 16 mod 16 * 16 + (b mod 16 + c div 64 div 4) = b"
    "c < 256 \<Longrightarrow> c div 64 mod 4 * 64 + c mod 64 = c"
  using high_bits [of b] high_bits [of c] div_mult_mod_eq [of b 16] div_mult_mod_eq [of c 64] by simp_all

lemma raw_decode_encode: "\<forall>b\<in>set bs. b < 256 \<Longrightarrow> raw_decode (raw_encode bs) = Some bs"
  by (induction bs rule: raw_encode.induct)
     (simp_all add: short2_def short3_def b64_zero quad_chars split_byte join_byte div_mult_mod_eq)

lemma StdEncoding_alt: "StdEncoding = base64_encode b64_char"
  by (simp add: StdEncoding_def b64_char_def [abs_def])

lemma pad_decode_encode: "\<forall>b\<in>set bs. b < 256 \<Longrightarrow> pad_decode (base64_encode b64_char bs) = Some bs"
  by (induction b64_char bs rule: base64_encode.induct)
     (simp_all add: short2_def short3_def b64_zero quad_chars split_byte join_byte div_mult_mod_eq b64_char_class)

lemma raw_encode_chars: "\<forall>b\<in>set bs. b < 256 \<Longrightarrow> c \<in> set (raw_encode bs) \<Longrightarrow> \<exists>n<64. c = b64_char n"
  by (induction bs rule: raw_encode.induct) (auto intro: split_byte)

lemma std_encode_chars:
  "\<forall>b\<in>set bs. b < 256 \<Longrightarrow> c \<in> set (base64_encode b64_char bs) \<Longrightarrow> c = CHR ''='' \<or> (\<exists>n<64. c = b64_char n)"
  by (induction b64_char bs rule: base64_encode.induct) (auto intro: split_byte)

lemma RawStd_round_trip: "RawStdDecode (RawStdEncoding s) = Some s"
proof -
  have "filter (\<lambda>c. \<not> line_end c) (raw_encode (map of_char s)) = raw_encode (map of_char s)"
    using raw_encode_chars [of "map of_char s"] b64_char_class(3) by (fastforce intro: filter_True)
  then show ?thesis by (simp add: RawStdDecode_def RawStdEncoding_def raw_decode_encode comp_def)
qed

lemma StdEncode_round_trip: "StdDecode (StdEncode s) = Some s"
proof -
  have "filter (\<lambda>c. \<not> line_end c) (base64_encode b64_char (map of_char s)) = base64_encode b64_char (map of_char s)"
    using std_encode_chars [of "map of_char s"] b64_char_class(3) by (fastforce intro: filter_True simp: line_end_def)
  then show ?thesis by (simp add: StdDecode_def StdEncode_def StdEncoding_alt pad_decode_encode comp_def)
qed

lemma RawStd_no_dollar: "CHR ''$'' \<notin> set (RawStdEncoding s)"
  using raw_encode_chars [of "map of_char s"] b64_char_class(2) by (fastforce simp: RawStdEncoding_def)

section \<open>Passwords\<close>

lemma phc_params: "itoa (int argon2Memory) = ''65536'' \<and> itoa (int argon2Time) = ''3'' \<and> itoa (int argon2Threads) = ''4''"
  by (simp add: itoa_def argon2Memory_def argon2Time_def argon2Threads_def nat_digits.simps char_of_eq_iff)

lemma phc_parts:
  "split_char CHR ''$'' (phc_text salt key) =
     [[], ''argon2id'', ''v=19'', ''m=65536,t=3,p=4'', RawStdEncoding salt, RawStdEncoding key]"
proof -
  have "phc_text salt key =
      [] @ CHR ''$'' # ''argon2id'' @ CHR ''$'' # ''v=19'' @ CHR ''$'' # ''m=65536,t=3,p=4'' @ CHR ''$'' #
      RawStdEncoding salt @ CHR ''$'' # RawStdEncoding key"
    by (simp add: phc_text_def phc_params)
  then show ?thesis by (simp only: split_char_sep) (simp add: split_char_no_sep RawStd_no_dollar)
qed

lemma phc_scan: "scan_params ''m=65536,t=3,p=4'' = Some (65536, 3, 4)"
  by (simp add: scan_params_def scan_lit_def scan_uint_def scan_skip.simps ascii_space_def is_digit_def digits_val_def digit_val_def
      space_rune2_def space_rune3_def)

lemmas argon_consts = argon2Time_def argon2Memory_def argon2Threads_def argon2KeyLen_def

lemma HashPassword_phc:
  "argon p salt 3 65536 4 32 = Some key \<Longrightarrow> HashPassword argon (Some salt) p = Inr (phc_text salt key)"
  by (simp add: HashPassword_def argon_consts)

lemma VerifyPassword_phc:
  assumes "argon other salt 3 65536 4 32 = Some key'" "length key = 32"
  shows "VerifyPassword argon other (phc_text salt key) = Inr (key' = key)"
    "util_VerifyPassword argon other (phc_text salt key) = Inr (key' = key)"
  using assms by (auto simp: VerifyPassword_def util_VerifyPassword_def phc_parts phc_scan RawStd_round_trip argon_consts)

text \<open>
  A stored password hash verifies exactly the passwords that derive the same Argon2id key: the text
  written by \<open>HashPassword\<close> is parsed back into the parameters, the salt and the key it was made of, by
  both verifiers. In particular the password itself is accepted. (Hypothesis: Argon2id returns a key of
  the requested length for these parameters.)
\<close>

lemma password_round_trip:
  assumes "argon password salt 3 65536 4 32 = Some key" "length key = 32"
  shows "\<exists>hash. HashPassword argon (Some salt) password = Inr hash \<and> IsArgon2idHash hash \<and> \<not> IsBcryptHash hash \<and>
    VerifyPassword argon password hash = Inr True \<and> util_VerifyPassword argon password hash = Inr True \<and>
    (\<forall>other key'. argon other salt 3 65536 4 32 = Some key' \<longrightarrow>
       VerifyPassword argon other hash = Inr (key' = key) \<and> util_VerifyPassword argon other hash = Inr (key' = key))"
proof -
  have "VerifyPassword argon other (phc_text salt key) = Inr (key' = key) \<and>
      util_VerifyPassword argon other (phc_text salt key) = Inr (key' = key)"
    if "argon other salt 3 65536 4 32 = Some key'" for other key'
    using VerifyPassword_phc [of argon, OF that assms(2)] by simp
  moreover have "IsArgon2idHash (phc_text salt key)" "\<not> IsBcryptHash (phc_text salt key)"
    by (simp_all add: IsArgon2idHash_def IsBcryptHash_def phc_text_def)
  ultimately show ?thesis
    using HashPassword_phc [of argon, OF assms(1)] assms(1) by (intro exI [of _ "phc_text salt key"]) simp
qed

definition toy_argon :: argon2 where
  "toy_argon password salt passes memory threads keyLen = Some (take keyLen (password @ replicate keyLen CHR ''.''))"

definition toy_hash :: string where
  "toy_hash = phc_text ''0123456789abcdef'' (take 32 (''secret'' @ replicate 32 CHR ''.''))"

lemma toy_verify: "VerifyPassword toy_argon ''secret'' toy_hash = Inr True"
  unfolding toy_hash_def
  by (subst VerifyPassword_phc(1) [where key' = "take 32 (''secret'' @ replicate 32 CHR ''.'')"]) (simp_all add: toy_argon_def)

lemma password_round_trip_example:
  "\<exists>hash. HashPassword toy_argon (Some ''0123456789abcdef'') ''secret'' = Inr hash \<and>
     VerifyPassword toy_argon ''secret'' hash = Inr True \<and> VerifyPassword toy_argon ''guess'' hash = Inr False"
proof -
  define key where "key p = take 32 (p @ replicate 32 CHR ''.'')" for p :: string
  have keys: "toy_argon p ''0123456789abcdef'' 3 65536 4 32 = Some (key p)" "length (key p) = 32" for p
    by (simp_all add: toy_argon_def key_def)
  have "key ''guess'' \<noteq> key ''secret''" by (simp add: key_def)
  with password_round_trip [of toy_argon, OF keys [of "''secret''"]] keys(1) [of "''guess''"] show ?thesis by fastforce
qed

lemma encrypt_round_trip:
  assumes "newAESCipher k = Inr key" "length nonce = nonceSize" "gcm_open g key nonce (gcm_seal g key nonce text) = Some text"
  shows "\<exists>enc. EncryptAtRest g (Some nonce) k text = Inr enc \<and> DecryptAtRest g k enc = Inr text \<and>
    IsEncryptedAtRest g k enc \<and> enc \<noteq> []"
proof -
  let ?enc = "StdEncode (nonce @ gcm_seal g key nonce text)"
  have "nonce \<noteq> []" using assms(2) by (auto simp: nonceSize_def)
  then have "?enc \<noteq> []" by (simp add: StdEncode_def)
  moreover have "DecryptAtRest g k ?enc = Inr text"
    using assms by (simp add: DecryptAtRest_def StdEncode_round_trip)
  ultimately show ?thesis using assms(1) by (simp add: EncryptAtRest_def IsEncryptedAtRest_def)
qed

end
