(* ===== verification/User_Accounts.thy ===== *)
theory User_Accounts
  imports Sql_Table Dbtime Passwords
begin

text \<open>
  User accounts, \<^verbatim>\<open>UserModel\<close> of \<^verbatim>\<open>src/server/model/user.go\<close>: the table \<^verbatim>\<open>user_accounts\<close> with its UNIQUE
  columns (user name, e-mail address, phone number) and the table \<^verbatim>\<open>user_preferences\<close>, and every operation on
  them. Columns that may be NULL are options. The outcomes of the statements and the clock readings are
  arguments; an UPDATE or INSERT that would repeat a UNIQUE value is an error of the database.
\<close>

section \<open>State\<close>

record user_row =
  ua_id :: int
  ua_username :: string
  ua_email :: string
  ua_display_name :: "string option"
  ua_notification_email :: "string option"
  ua_phone :: "string option"
  ua_password_hash :: string
  ua_email_verified :: bool
  ua_is_active :: bool
  ua_is_banned :: bool
  ua_ban_reason :: "string option"
  ua_role :: string
  ua_visibility :: "string option"
  ua_two_factor_enabled :: bool
  ua_two_factor_secret :: "string option"
  ua_avatar_type :: "string option"
  ua_avatar_url :: "string option"
  ua_bio :: "string option"
  ua_location :: "string option"
  ua_website :: "string option"
  ua_timezone :: "string option"
  ua_language :: "string option"
  ua_created_at :: scanned
  ua_updated_at :: scanned
  ua_last_login_at :: scanned
  ua_last_login_ip :: "string option"

record UserPreferences =
  pf_UserID :: int
  pf_Theme :: string
  pf_Language :: string
  pf_Timezone :: string
  pf_TemperatureUnit :: string
  pf_PressureUnit :: string
  pf_WindSpeedUnit :: string
  pf_PrecipitationUnit :: string
  pf_NotificationsEnabled :: bool
  pf_EmailNotifications :: bool
  pf_CreatedAt :: scanned
  pf_UpdatedAt :: scanned

record user_db =
  ud_next :: int
  ud_accounts :: "user_row list"
  ud_preferences :: "UserPreferences list"

record User =
  u_ID :: int
  u_Username :: string
  u_DisplayName :: string
  u_Email :: string
  u_NotificationEmail :: string
  u_Phone :: string
  u_PasswordHash :: string
  u_EmailVerified :: bool
  u_IsActive :: bool
  u_IsBanned :: bool
  u_BanReason :: string
  u_Role :: string
  u_Visibility :: string
  u_TwoFactorEnabled :: bool
  u_TwoFactorSecret :: string
  u_AvatarType :: string
  u_AvatarURL :: string
  u_Bio :: string
  u_Location :: string
  u_Website :: string
  u_Timezone :: string
  u_Language :: string
  u_CreatedAt :: instant
  u_UpdatedAt :: instant
  u_LastLoginAt :: "instant option"
  u_LastLoginIP :: string

datatype user_error =
    HashFailed
  | UniqueViolation
  | UserCreateFailed
  | NoInsertID
  | PreferencesFailed
  | UserNotFound
  | UserQueryFailed
  | UserUpdateFailed
  | InvalidCredentials
  | VerifyFailed
  | AccountDisabled
  | AccountBanned string
  | SecretEncryptFailed

section \<open>Reading accounts\<close>

text \<open>A NULL text column leaves the field empty; a timestamp that does not parse leaves it the zero time.\<close>

definition null_str :: "string option \<Rightarrow> string" where
  "null_str v = (case v of None \<Rightarrow> [] | Some s \<Rightarrow> s)"

definition stored_time :: "scanned \<Rightarrow> instant" where
  "stored_time v = (case ParseStoredTimestamp v of Some t \<Rightarrow> t | None \<Rightarrow> zero_time)"

definition zero_user :: User where
  "zero_user = \<lparr>u_ID = 0, u_Username = [], u_DisplayName = [], u_Email = [], u_NotificationEmail = [], u_Phone = [],
     u_PasswordHash = [], u_EmailVerified = False, u_IsActive = False, u_IsBanned = False, u_BanReason = [],
     u_Role = [], u_Visibility = [], u_TwoFactorEnabled = False, u_TwoFactorSecret = [], u_AvatarType = [],
     u_AvatarURL = [], u_Bio = [], u_Location = [], u_Website = [], u_Timezone = [], u_Language = [],
     u_CreatedAt = zero_time, u_UpdatedAt = zero_time, u_LastLoginAt = None, u_LastLoginIP = []\<rparr>"

text \<open>The columns every reader scans, those \<open>GetByUsername\<close> and \<open>GetByEmail\<close> add, and all of them.\<close>

definition listed_user :: "user_row \<Rightarrow> User" where
  "listed_user r = zero_user\<lparr>u_ID := ua_id r, u_Username := ua_username r, u_Email := ua_email r,
     u_EmailVerified := ua_email_verified r, u_IsActive := ua_is_active r, u_IsBanned := ua_is_banned r,
     u_BanReason := null_str (ua_ban_reason r), u_TwoFactorEnabled := ua_two_factor_enabled r,
     u_CreatedAt := stored_time (ua_created_at r), u_UpdatedAt := stored_time (ua_updated_at r),
     u_LastLoginAt := ParseStoredTimestamp (ua_last_login_at r), u_LastLoginIP := null_str (ua_last_login_ip r)\<rparr>"

definition login_user :: "user_row \<Rightarrow> User" where
  "login_user r = (listed_user r)\<lparr>u_PasswordHash := ua_password_hash r,
     u_TwoFactorSecret := null_str (ua_two_factor_secret r)\<rparr>"

definition full_user :: "user_row \<Rightarrow> User" where
  "full_user r = (login_user r)\<lparr>u_DisplayName := null_str (ua_display_name r),
     u_NotificationEmail := null_str (ua_notification_email r), u_Phone := null_str (ua_phone r),
     u_Role := ua_role r, u_Visibility := null_str (ua_visibility r), u_AvatarType := null_str (ua_avatar_type r),
     u_AvatarURL := null_str (ua_avatar_url r), u_Bio := null_str (ua_bio r), u_Location := null_str (ua_location r),
     u_Website := null_str (ua_website r), u_Timezone := null_str (ua_timezone r), u_Language := null_str (ua_language r)\<rparr>"

definition user_query ::
  "(user_row \<Rightarrow> 'k) \<Rightarrow> (user_row \<Rightarrow> User) \<Rightarrow> bool \<Rightarrow> 'k \<Rightarrow> user_db \<Rightarrow> user_error + User" where
  "user_query key view ok k db =
     (if \<not> ok then Inl UserQueryFailed
      else case sql_lookup key k (ud_accounts db) of None \<Rightarrow> Inl UserNotFound | Some r \<Rightarrow> Inr (view r))"

definition GetUserByID :: "bool \<Rightarrow> int \<Rightarrow> user_db \<Rightarrow> user_error + User" where
  "GetUserByID ok i db = user_query ua_id full_user ok i db"

definition GetByUsername :: "bool \<Rightarrow> string \<Rightarrow> user_db \<Rightarrow> user_error + User" where
  "GetByUsername ok username db = user_query ua_username login_user ok username db"

definition GetByEmail :: "bool \<Rightarrow> string \<Rightarrow> user_db \<Rightarrow> user_error + User" where
  "GetByEmail ok email db = user_query ua_email login_user ok email db"

definition GetByIdentifier :: "bool \<Rightarrow> bool \<Rightarrow> string \<Rightarrow> user_db \<Rightarrow> user_error + User" where
  "GetByIdentifier ok1 ok2 ident db =
     (case GetByUsername ok1 ident db of Inr user \<Rightarrow> Inr user | Inl _ \<Rightarrow> GetByEmail ok2 ident db)"

text \<open>\<open>newest\<close> is the order the database gives \<^verbatim>\<open>ORDER BY created_at DESC\<close>. SQLite reads a negative limit as none.\<close>

definition ListUsers ::
  "(user_row list \<Rightarrow> user_row list) \<Rightarrow> bool \<Rightarrow> int \<Rightarrow> int \<Rightarrow> user_db \<Rightarrow> user_error + User list" where
  "ListUsers newest ok offset limit db =
     (if \<not> ok then Inl UserQueryFailed
      else (let rows = drop (nat offset) (newest (ud_accounts db)) in
            Inr (map listed_user (if limit < 0 then rows else take (nat limit) rows))))"

definition GetAllUsers :: "(user_row list \<Rightarrow> user_row list) \<Rightarrow> bool \<Rightarrow> user_db \<Rightarrow> user_error + User list" where
  "GetAllUsers newest ok db = ListUsers newest ok 0 10000 db"

definition CountUsers :: "bool \<Rightarrow> user_db \<Rightarrow> user_error + int" where
  "CountUsers ok db = (if ok then Inr (int (length (ud_accounts db))) else Inl UserQueryFailed)"

definition CountByRole :: "bool \<Rightarrow> string \<Rightarrow> user_db \<Rightarrow> user_error + int" where
  "CountByRole ok role db = (if ok then Inr (affected (\<lambda>r. ua_role r = role) (ud_accounts db)) else Inl UserQueryFailed)"

section \<open>Changing accounts\<close>

text \<open>Whether a row repeats a UNIQUE value of another; NULL never does.\<close>

definition clashes :: "user_row \<Rightarrow> user_row \<Rightarrow> bool" where
  "clashes r q \<longleftrightarrow> ua_username r = ua_username q \<or> ua_email r = ua_email q \<or>
     (ua_phone r \<noteq> None \<and> ua_phone r = ua_phone q)"

record create_user_io =
  cu_salt :: "string option"
  cu_now :: instant
  cu_insert_ok :: bool
  cu_id_ok :: bool
  cu_prefs_ok :: bool
  cu_get_ok :: bool

text \<open>The row of a new account: the columns the INSERT names and the defaults of the schema for the others.\<close>

definition new_account :: "int \<Rightarrow> string \<Rightarrow> string \<Rightarrow> string \<Rightarrow> string \<Rightarrow> string \<Rightarrow> user_row" where
  "new_account i username email hash role stamp =
     \<lparr>ua_id = i, ua_username = username, ua_email = email, ua_display_name = None, ua_notification_email = None,
      ua_phone = None, ua_password_hash = hash, ua_email_verified = False, ua_is_active = True, ua_is_banned = False,
      ua_ban_reason = None, ua_role = role, ua_visibility = Some ''public'', ua_two_factor_enabled = False,
      ua_two_factor_secret = None, ua_avatar_type = Some ''gravatar'', ua_avatar_url = None, ua_bio = None,
      ua_location = None, ua_website = None, ua_timezone = None, ua_language = Some ''en'',
      ua_created_at = VStr stamp, ua_updated_at = VStr stamp, ua_last_login_at = VNil, ua_last_login_ip = None\<rparr>"

definition default_preferences :: "int \<Rightarrow> string \<Rightarrow> UserPreferences" where
  "default_preferences i stamp =
     \<lparr>pf_UserID = i, pf_Theme = ''auto'', pf_Language = ''en'', pf_Timezone = ''UTC'', pf_TemperatureUnit = ''celsius'',
      pf_PressureUnit = ''hPa'', pf_WindSpeedUnit = ''kmh'', pf_PrecipitationUnit = ''mm'',
      pf_NotificationsEnabled = True, pf_EmailNotifications = True, pf_CreatedAt = VStr stamp, pf_UpdatedAt = VStr stamp\<rparr>"

definition CreateUserAccount ::
  "argon2 \<Rightarrow> create_user_io \<Rightarrow> string \<Rightarrow> string \<Rightarrow> string \<Rightarrow> string \<Rightarrow> user_db \<Rightarrow> user_db \<times> (user_error + User)" where
  "CreateUserAccount argon io username email password role db =
     (let userRole = (if role \<noteq> [] then role else ''user'') in
      case HashPassword argon (cu_salt io) password of
        Inl _ \<Rightarrow> (db, Inl HashFailed)
      | Inr passwordHash \<Rightarrow>
          (let stamp = FormatSQLTimestamp (cu_now io); i = ud_next db;
               r = new_account i username email passwordHash userRole stamp in
           if \<not> cu_insert_ok io then (db, Inl UserCreateFailed)
           else if \<exists>q\<in>set (ud_accounts db). clashes r q then (db, Inl UniqueViolation)
           else
             (let db1 = db\<lparr>ud_next := i + 1, ud_accounts := ud_accounts db @ [r]\<rparr> in
              if \<not> cu_id_ok io then (db1, Inl NoInsertID)
              else if \<not> cu_prefs_ok io then (db1, Inl PreferencesFailed)
              else
                (let db2 = db1\<lparr>ud_preferences := ud_preferences db1 @ [default_preferences i stamp]\<rparr>
                 in (db2, GetUserByID (cu_get_ok io) i db2)))))"

text \<open>An UPDATE of one account by its id: of columns without a constraint, and of UNIQUE columns.\<close>

definition user_set :: "bool \<Rightarrow> int \<Rightarrow> (user_row \<Rightarrow> user_row) \<Rightarrow> user_db \<Rightarrow> user_db \<times> bool" where
  "user_set ok i f db =
     (if ok then (db\<lparr>ud_accounts := sql_update (\<lambda>r. ua_id r = i) f (ud_accounts db)\<rparr>, True) else (db, False))"

definition user_set_unique :: "bool \<Rightarrow> int \<Rightarrow> (user_row \<Rightarrow> user_row) \<Rightarrow> user_db \<Rightarrow> user_db \<times> bool" where
  "user_set_unique ok i f db =
     (if \<exists>r\<in>set (ud_accounts db). ua_id r = i \<and> (\<exists>q\<in>set (ud_accounts db). ua_id q \<noteq> i \<and> clashes (f r) q)
      then (db, False) else user_set ok i f db)"

definition UpdateUserProfile ::
  "bool \<Rightarrow> instant \<Rightarrow> int \<Rightarrow> string \<Rightarrow> string \<Rightarrow> string \<Rightarrow> user_db \<Rightarrow> user_db \<times> bool" where
  "UpdateUserProfile ok now i username email role db =
     (let stamp = VStr (FormatSQLTimestamp now) in
      if role \<noteq> []
      then user_set_unique ok i (\<lambda>r. r\<lparr>ua_username := username, ua_email := email, ua_role := role, ua_updated_at := stamp\<rparr>) db
      else user_set_unique ok i (\<lambda>r. r\<lparr>ua_username := username, ua_email := email, ua_updated_at := stamp\<rparr>) db)"

definition UpdateProfile :: "bool \<Rightarrow> instant \<Rightarrow> int \<Rightarrow> string \<Rightarrow> string \<Rightarrow> user_db \<Rightarrow> user_db \<times> bool" where
  "UpdateProfile ok now i displayName phone db =
     user_set_unique ok i (\<lambda>r. r\<lparr>ua_display_name := Some displayName, ua_phone := Some phone,
       ua_updated_at := VStr (FormatSQLTimestamp now)\<rparr>) db"

definition UpdatePassword ::
  "argon2 \<Rightarrow> string option \<Rightarrow> bool \<Rightarrow> instant \<Rightarrow> int \<Rightarrow> string \<Rightarrow> user_db \<Rightarrow> user_db \<times> bool" where
  "UpdatePassword argon salt ok now i newPassword db =
     (case HashPassword argon salt newPassword of
        Inl _ \<Rightarrow> (db, False)
      | Inr hash \<Rightarrow> user_set ok i (\<lambda>r. r\<lparr>ua_password_hash := hash, ua_updated_at := VStr (FormatSQLTimestamp now)\<rparr>) db)"

definition UpdateLastLogin :: "bool \<Rightarrow> instant \<Rightarrow> int \<Rightarrow> string \<Rightarrow> user_db \<Rightarrow> user_db \<times> bool" where
  "UpdateLastLogin ok now i ipAddress db =
     user_set ok i (\<lambda>r. r\<lparr>ua_last_login_at := VStr (FormatSQLTimestamp now), ua_last_login_ip := Some ipAddress\<rparr>) db"

definition VerifyEmail :: "bool \<Rightarrow> instant \<Rightarrow> int \<Rightarrow> user_db \<Rightarrow> user_db \<times> bool" where
  "VerifyEmail ok now i db =
     user_set ok i (\<lambda>r. r\<lparr>ua_email_verified := True, ua_updated_at := VStr (FormatSQLTimestamp now)\<rparr>) db"

definition SetActive :: "bool \<Rightarrow> instant \<Rightarrow> int \<Rightarrow> bool \<Rightarrow> user_db \<Rightarrow> user_db \<times> bool" where
  "SetActive ok now i isActive db =
     user_set ok i (\<lambda>r. r\<lparr>ua_is_active := isActive, ua_updated_at := VStr (FormatSQLTimestamp now)\<rparr>) db"

definition BanUser :: "bool \<Rightarrow> instant \<Rightarrow> int \<Rightarrow> string \<Rightarrow> user_db \<Rightarrow> user_db \<times> bool" where
  "BanUser ok now i reason db =
     user_set ok i (\<lambda>r. r\<lparr>ua_is_banned := True, ua_ban_reason := Some reason,
       ua_updated_at := VStr (FormatSQLTimestamp now)\<rparr>) db"

definition UnbanUser :: "bool \<Rightarrow> instant \<Rightarrow> int \<Rightarrow> user_db \<Rightarrow> user_db \<times> bool" where
  "UnbanUser ok now i db =
     user_set ok i (\<lambda>r. r\<lparr>ua_is_banned := False, ua_ban_reason := None,
       ua_updated_at := VStr (FormatSQLTimestamp now)\<rparr>) db"

text \<open>
  The statement deletes the account. Its preferences go with it by the foreign key, if the connection the
  pool hands out enforces foreign keys (\<open>fk\<close>): SQLite keeps that switch per connection, and
  \<^verbatim>\<open>database/dual_db.go\<close> turns it on once, on whichever connection of the pool runs the PRAGMA.
\<close>

definition DeleteUserAccount :: "bool \<Rightarrow> bool \<Rightarrow> int \<Rightarrow> user_db \<Rightarrow> user_db \<times> bool" where
  "DeleteUserAccount fk ok i db =
     (if ok then (db\<lparr>ud_accounts := sql_delete (\<lambda>r. ua_id r = i) (ud_accounts db),
                     ud_preferences := (if fk then sql_delete (\<lambda>p. pf_UserID p = i) (ud_preferences db)
                                        else ud_preferences db)\<rparr>, True)
      else (db, False))"

section \<open>Writers outside the model\<close>

text \<open>
  The sign-in handlers of external providers insert accounts themselves: \<^verbatim>\<open>server/handler/auth_oidc.go\<close>, which
  tries a second name with the provider's appended when the first INSERT fails, and \<^verbatim>\<open>auth_ldap.go\<close>. They
  write no preferences. The hash is of a random token nobody knows. A row id the driver cannot tell is read as 0.
\<close>

definition external_account :: "int \<Rightarrow> string \<Rightarrow> string \<Rightarrow> string \<Rightarrow> string \<Rightarrow> bool \<Rightarrow> string \<Rightarrow> user_row" where
  "external_account i username email displayName pwHash verified stamp =
     (new_account i username email pwHash ''user'' stamp)\<lparr>ua_display_name := Some displayName, ua_email_verified := verified\<rparr>"

definition insert_account :: "bool \<Rightarrow> user_row \<Rightarrow> user_db \<Rightarrow> user_db option" where
  "insert_account ok r db =
     (if \<not> ok \<or> (\<exists>q\<in>set (ud_accounts db). clashes r q) then None
      else Some (db\<lparr>ud_next := ud_next db + 1, ud_accounts := ud_accounts db @ [r]\<rparr>))"

record external_io =
  ex_token :: "string option"
  ex_salt :: "string option"
  ex_now :: instant
  ex_insert1_ok :: bool
  ex_insert2_ok :: bool
  ex_id_ok :: bool

definition inserted_id :: "external_io \<Rightarrow> user_db \<Rightarrow> int" where
  "inserted_id io db = (if ex_id_ok io then ud_next db else 0)"

definition provision_oidc ::
  "argon2 \<Rightarrow> external_io \<Rightarrow> string \<Rightarrow> string \<Rightarrow> string \<Rightarrow> string \<Rightarrow> bool \<Rightarrow> user_db \<Rightarrow> user_db \<times> int option" where
  "provision_oidc argon io provider username email0 name verified db =
     (let email = (if email0 = [] then username @ ''@'' @ provider @ ''.oidc'' else email0);
          displayName = (if name = [] then username else name);
          stamp = FormatSQLTimestamp (ex_now io) in
      case ex_token io of
        None \<Rightarrow> (db, None)
      | Some token \<Rightarrow>
          (case HashPassword argon (ex_salt io) token of
             Inl _ \<Rightarrow> (db, None)
           | Inr pwHash \<Rightarrow>
               (case insert_account (ex_insert1_ok io) (external_account (ud_next db) username email displayName pwHash verified stamp) db of
                  Some db' \<Rightarrow> (db', Some (inserted_id io db))
                | None \<Rightarrow>
                    (case insert_account (ex_insert2_ok io)
                        (external_account (ud_next db) (username @ ''_'' @ provider) email displayName pwHash verified stamp) db of
                       Some db' \<Rightarrow> (db', Some (inserted_id io db))
                     | None \<Rightarrow> (db, None)))))"

definition provision_ldap ::
  "argon2 \<Rightarrow> external_io \<Rightarrow> string \<Rightarrow> string \<Rightarrow> string \<Rightarrow> user_db \<Rightarrow> user_db \<times> int option" where
  "provision_ldap argon io username email0 name db =
     (let email = (if email0 = [] then username @ ''@ldap.local'' else email0);
          displayName = (if name = [] then username else name) in
      case ex_token io of
        None \<Rightarrow> (db, None)
      | Some token \<Rightarrow>
          (case HashPassword argon (ex_salt io) token of
             Inl _ \<Rightarrow> (db, None)
           | Inr pwHash \<Rightarrow>
               (case insert_account (ex_insert1_ok io)
                   (external_account (ud_next db) username email displayName pwHash True (FormatSQLTimestamp (ex_now io))) db of
                  Some db' \<Rightarrow> (db', Some (inserted_id io db))
                | None \<Rightarrow> (db, None))))"

text \<open>
  \<open>ChangeEmail\<close> of \<^verbatim>\<open>server/handler/user_public.go\<close>: the UPDATE, after a search for another account with the
  address whose own failure is ignored.
\<close>

definition ChangeEmail_write :: "bool \<Rightarrow> bool \<Rightarrow> instant \<Rightarrow> int \<Rightarrow> string \<Rightarrow> user_db \<Rightarrow> user_db \<times> bool" where
  "ChangeEmail_write search_ok ok now i newEmail db =
     (if search_ok \<and> (\<exists>q\<in>set (ud_accounts db). ua_email q = newEmail \<and> ua_id q \<noteq> i) then (db, False)
      else user_set_unique ok i (\<lambda>r. r\<lparr>ua_email := newEmail, ua_email_verified := False,
             ua_updated_at := VStr (FormatSQLTimestamp now)\<rparr>) db)"

text \<open>The INSERT of a missing preferences row (\<^verbatim>\<open>user_settings.go\<close>); \<open>fk\<close> as in \<open>DeleteUserAccount\<close>.\<close>

definition insert_preferences :: "bool \<Rightarrow> bool \<Rightarrow> UserPreferences \<Rightarrow> user_db \<Rightarrow> user_db" where
  "insert_preferences fk ok p db =
     (if \<not> ok \<or> pf_UserID p \<in> pf_UserID ` set (ud_preferences db) \<or> (fk \<and> pf_UserID p \<notin> ua_id ` set (ud_accounts db)) then db
      else db\<lparr>ud_preferences := ud_preferences db @ [p]\<rparr>)"

section \<open>Credentials and second factors\<close>

definition VerifyCredentials ::
  "argon2 \<Rightarrow> bool \<Rightarrow> bool \<Rightarrow> string \<Rightarrow> string \<Rightarrow> user_db \<Rightarrow> user_error + User" where
  "VerifyCredentials argon ok1 ok2 username password db =
     (case (case GetByUsername ok1 username db of Inr user \<Rightarrow> Inr user | Inl _ \<Rightarrow> GetByEmail ok2 username db) of
        Inl _ \<Rightarrow> Inl InvalidCredentials
      | Inr user \<Rightarrow>
          (case VerifyPassword argon password (u_PasswordHash user) of
             Inl _ \<Rightarrow> Inl VerifyFailed
           | Inr valid \<Rightarrow>
               if \<not> valid then Inl InvalidCredentials
               else if \<not> u_IsActive user then Inl AccountDisabled
               else if u_IsBanned user then Inl (AccountBanned (u_BanReason user))
               else Inr user))"

definition CheckPassword :: "argon2 \<Rightarrow> User \<Rightarrow> string \<Rightarrow> bool" where
  "CheckPassword argon user password \<longleftrightarrow> VerifyPassword argon password (u_PasswordHash user) = Inr True"

text \<open>The configured key, empty when no configuration is loaded.\<close>

definition encryptTwoFactorSecret :: "gcm \<Rightarrow> string option \<Rightarrow> string \<Rightarrow> string \<Rightarrow> crypt_error + string" where
  "encryptTwoFactorSecret g random key secret = (if key = [] then Inr secret else EncryptAtRest g random key secret)"

definition DecryptTwoFactorSecret :: "gcm \<Rightarrow> string \<Rightarrow> string \<Rightarrow> crypt_error + string" where
  "DecryptTwoFactorSecret g key stored =
     (if stored = [] then Inr []
      else if key \<noteq> [] \<and> IsEncryptedAtRest g key stored then DecryptAtRest g key stored
      else Inr stored)"

definition Enable2FA ::
  "gcm \<Rightarrow> string option \<Rightarrow> string \<Rightarrow> bool \<Rightarrow> instant \<Rightarrow> int \<Rightarrow> string \<Rightarrow> user_db \<Rightarrow> user_db \<times> bool" where
  "Enable2FA g random key ok now i secret db =
     (case encryptTwoFactorSecret g random key secret of
        Inl _ \<Rightarrow> (db, False)
      | Inr enc \<Rightarrow>
          user_set ok i (\<lambda>r. r\<lparr>ua_two_factor_enabled := True, ua_two_factor_secret := Some enc,
            ua_updated_at := VStr (FormatSQLTimestamp now)\<rparr>) db)"

definition Disable2FA :: "bool \<Rightarrow> instant \<Rightarrow> int \<Rightarrow> user_db \<Rightarrow> user_db \<times> bool" where
  "Disable2FA ok now i db =
     user_set ok i (\<lambda>r. r\<lparr>ua_two_factor_enabled := False, ua_two_factor_secret := None,
       ua_updated_at := VStr (FormatSQLTimestamp now)\<rparr>) db"

section \<open>The invariant of the tables\<close>

text \<open>An account has a reason for its ban exactly while it is banned, and a secret exactly while its second factor is on.\<close>

definition account_ok :: "user_row \<Rightarrow> bool" where
  "account_ok r \<longleftrightarrow> (ua_ban_reason r \<noteq> None \<longleftrightarrow> ua_is_banned r) \<and>
     (ua_two_factor_secret r \<noteq> None \<longleftrightarrow> ua_two_factor_enabled r)"

inductive account_change :: "user_row \<Rightarrow> user_row \<Rightarrow> bool" where
  columns: "ua_id r' = ua_id r \<Longrightarrow> ua_is_banned r' = ua_is_banned r \<Longrightarrow> ua_ban_reason r' = ua_ban_reason r \<Longrightarrow>
    ua_two_factor_enabled r' = ua_two_factor_enabled r \<Longrightarrow> ua_two_factor_secret r' = ua_two_factor_secret r \<Longrightarrow>
    account_change r r'"
| ban: "account_change r (r\<lparr>ua_is_banned := True, ua_ban_reason := Some reason, ua_updated_at := s\<rparr>)"
| unban: "account_change r (r\<lparr>ua_is_banned := False, ua_ban_reason := None, ua_updated_at := s\<rparr>)"
| enable: "account_change r (r\<lparr>ua_two_factor_enabled := True, ua_two_factor_secret := Some x, ua_updated_at := s\<rparr>)"
| disable: "account_change r (r\<lparr>ua_two_factor_enabled := False, ua_two_factor_secret := None, ua_updated_at := s\<rparr>)"

interpretation account_rows: row_machine ua_id account_ok account_change
proof
  fix r r'
  assume c: "account_change r r'"
  then show "ua_id r' = ua_id r" by cases simp_all
  assume "account_ok r"
  with c show "account_ok r'" by cases (auto simp: account_ok_def)
qed

definition unique_accounts :: "user_row list \<Rightarrow> bool" where
  "unique_accounts rows \<longleftrightarrow> (\<forall>r\<in>set rows. \<forall>q\<in>set rows. ua_id r \<noteq> ua_id q \<longrightarrow> \<not> clashes r q)"

definition users_wf :: "user_db \<Rightarrow> bool" where
  "users_wf db \<longleftrightarrow> account_rows.table_ok (ud_next db) (ud_accounts db) \<and> unique_accounts (ud_accounts db) \<and>
     distinct (map pf_UserID (ud_preferences db)) \<and> (\<forall>p\<in>set (ud_preferences db). pf_UserID p < ud_next db)"

definition no_orphans :: "user_db \<Rightarrow> bool" where
  "no_orphans db \<longleftrightarrow> pf_UserID ` set (ud_preferences db) \<subseteq> ua_id ` set (ud_accounts db)"

definition empty_users :: user_db where
  "empty_users = \<lparr>ud_next = 1, ud_accounts = [], ud_preferences = []\<rparr>"

lemma empty_users_wf: "users_wf empty_users"
  by (simp add: users_wf_def empty_users_def account_rows.table_ok_def unique_accounts_def)

lemma same_id: "users_wf db \<Longrightarrow> r \<in> set (ud_accounts db) \<Longrightarrow> q \<in> set (ud_accounts db) \<Longrightarrow> ua_id r = ua_id q \<Longrightarrow> r = q"
  by (auto simp: users_wf_def account_rows.table_ok_def distinct_map dest: inj_onD)

lemma distinct_unique:
  assumes "users_wf db" "\<And>r q. key r = key q \<Longrightarrow> clashes r q"
  shows "distinct (map key (ud_accounts db))"
proof -
  have "distinct (ud_accounts db)" using assms(1) by (auto simp: users_wf_def account_rows.table_ok_def distinct_map)
  moreover have "r = q" if "r \<in> set (ud_accounts db)" "q \<in> set (ud_accounts db)" "key r = key q" for r q
    using same_id [OF assms(1) that(1,2)] assms that by (auto simp: users_wf_def unique_accounts_def)
  ultimately show ?thesis by (auto simp: distinct_map inj_on_def)
qed

lemma distinct_names:
  assumes "users_wf db"
  shows "distinct (map ua_username (ud_accounts db))" "distinct (map ua_email (ud_accounts db))"
    "distinct (map ua_id (ud_accounts db))"
  using distinct_unique [OF assms, of ua_username] distinct_unique [OF assms, of ua_email] assms
  by (auto simp: clashes_def users_wf_def account_rows.table_ok_def)

lemma update_ids: "(\<And>r. ua_id (f r) = ua_id r) \<Longrightarrow> ua_id ` set (sql_update P f rows) = ua_id ` set rows"
proof -
  assume id: "\<And>r. ua_id (f r) = ua_id r"
  have "map ua_id (sql_update P f rows) = map ua_id rows" by (simp add: sql_update_def id)
  then show ?thesis by (metis list.set_map)
qed

lemma clashes_sym: "clashes r q \<longleftrightarrow> clashes q r"
  unfolding clashes_def by metis

lemma user_set_unique_wf:
  assumes wf: "users_wf db" and ch: "\<And>r. account_change r (f r)"
  shows "users_wf (fst (user_set_unique ok i f db))"
proof (cases "\<exists>r\<in>set (ud_accounts db). ua_id r = i \<and> (\<exists>q\<in>set (ud_accounts db). ua_id q \<noteq> i \<and> clashes (f r) q)")
  case False
  let ?rows = "sql_update (\<lambda>r. ua_id r = i) f (ud_accounts db)"
  have id: "ua_id (f r) = ua_id r" for r using ch account_rows.change_key by blast
  have "unique_accounts ?rows"
    unfolding unique_accounts_def
  proof (intro ballI impI)
    fix r q
    assume "r \<in> set ?rows" "q \<in> set ?rows" and n: "ua_id r \<noteq> ua_id q"
    then obtain r0 q0 where r: "r0 \<in> set (ud_accounts db)" "r = (if ua_id r0 = i then f r0 else r0)"
      and q: "q0 \<in> set (ud_accounts db)" "q = (if ua_id q0 = i then f q0 else q0)"
      by (auto simp: sql_update_def)
    have "ua_id r = ua_id r0" "ua_id q = ua_id q0" using r q id by simp_all
    with n have "ua_id r0 \<noteq> ua_id q0" by simp
    moreover from this have "\<not> clashes r0 q0" using wf r(1) q(1) by (simp add: users_wf_def unique_accounts_def)
    ultimately show "\<not> clashes r q"
      using False r q by (cases "ua_id r0 = i"; cases "ua_id q0 = i") (simp_all, metis, metis clashes_sym)
  qed
  moreover have "account_rows.table_ok (ud_next db) ?rows"
    using wf ch by (intro account_rows.update_ok) (auto simp: users_wf_def)
  ultimately show ?thesis
    using wf id False update_ids [of f] by (simp add: user_set_unique_def user_set_def users_wf_def)
qed (use wf in \<open>simp add: user_set_unique_def\<close>)

lemma user_set_wf:
  assumes wf: "users_wf db" and ch: "\<And>r. account_change r (f r)"
    and cols: "\<And>r q. clashes (f r) q = clashes r q"
  shows "users_wf (fst (user_set ok i f db))"
proof -
  have "\<not> (\<exists>r\<in>set (ud_accounts db). ua_id r = i \<and> (\<exists>q\<in>set (ud_accounts db). ua_id q \<noteq> i \<and> clashes (f r) q))"
    using wf cols by (auto simp: users_wf_def unique_accounts_def)
  with user_set_unique_wf [OF wf ch, where ok = ok and i = i] show ?thesis by (simp add: user_set_unique_def)
qed

lemma CreateUserAccount_wf: "users_wf db \<Longrightarrow> users_wf (fst (CreateUserAccount argon io n e p ro db))"
proof -
  assume wf: "users_wf db"
  have new: "users_wf (db\<lparr>ud_next := ud_next db + 1, ud_accounts := ud_accounts db @ [r]\<rparr>)"
    "users_wf (db\<lparr>ud_next := ud_next db + 1, ud_accounts := ud_accounts db @ [r],
       ud_preferences := ud_preferences db @ [default_preferences (ud_next db) st]\<rparr>)"
    if r: "ua_id r = ud_next db" "account_ok r" "\<forall>q\<in>set (ud_accounts db). \<not> clashes r q" for r st
  proof -
    have t: "account_rows.table_ok (ud_next db + 1) (ud_accounts db @ [r])"
      using wf r by (simp add: users_wf_def account_rows.insert_ok)
    have "unique_accounts (ud_accounts db @ [r])"
      using wf r(3) by (simp add: users_wf_def unique_accounts_def) (metis clashes_sym)
    moreover have "ud_next db \<notin> pf_UserID ` set (ud_preferences db)"
      using wf by (fastforce simp: users_wf_def account_rows.table_ok_def)
    ultimately show "users_wf (db\<lparr>ud_next := ud_next db + 1, ud_accounts := ud_accounts db @ [r]\<rparr>)"
      "users_wf (db\<lparr>ud_next := ud_next db + 1, ud_accounts := ud_accounts db @ [r],
         ud_preferences := ud_preferences db @ [default_preferences (ud_next db) st]\<rparr>)"
      using wf t r(1) by (auto simp: users_wf_def default_preferences_def)
  qed
  show ?thesis
    using wf by (auto simp: CreateUserAccount_def Let_def new_account_def account_ok_def intro!: new
        split: sum.splits)
qed

lemma DeleteUserAccount_wf: "users_wf db \<Longrightarrow> users_wf (fst (DeleteUserAccount fk ok i db))"
  by (auto simp: users_wf_def DeleteUserAccount_def account_rows.delete_ok in_set_sql_delete unique_accounts_def)
     (auto simp: sql_delete_def distinct_map_filter)

lemma insert_account_wf:
  assumes "users_wf db" "insert_account ok r db = Some db'" "ua_id r = ud_next db" "account_ok r"
  shows "users_wf db'"
proof -
  have db': "db' = db\<lparr>ud_next := ud_next db + 1, ud_accounts := ud_accounts db @ [r]\<rparr>"
    and c: "\<forall>q\<in>set (ud_accounts db). \<not> clashes r q"
    using assms(2) by (auto simp: insert_account_def split: if_splits)
  have "unique_accounts (ud_accounts db @ [r])"
    using assms(1) c by (simp add: users_wf_def unique_accounts_def) (metis clashes_sym)
  then show ?thesis using assms db' by (force simp: users_wf_def account_rows.insert_ok)
qed

lemma external_account_ok: "ua_id (external_account i n e d h v s) = i" "account_ok (external_account i n e d h v s)"
  by (simp_all add: external_account_def new_account_def account_ok_def)

lemma provision_wf:
  assumes "users_wf db"
  shows "users_wf (fst (provision_oidc argon io pr n e d v db))" "users_wf (fst (provision_ldap argon io n e d db))"
  using assms insert_account_wf [OF assms _ external_account_ok]
  by (auto simp: provision_oidc_def provision_ldap_def Let_def split: option.split sum.split)

lemma insert_preferences_wf:
  "users_wf db \<Longrightarrow> pf_UserID p < ud_next db \<Longrightarrow> users_wf (insert_preferences fk ok p db)"
  by (auto simp: users_wf_def insert_preferences_def)

lemma update_preferences_wf:
  assumes "users_wf db" "\<And>p. pf_UserID (f p) = pf_UserID p"
  shows "users_wf (db\<lparr>ud_preferences := sql_update P f (ud_preferences db)\<rparr>)"
proof -
  have "map pf_UserID (sql_update P f (ud_preferences db)) = map pf_UserID (ud_preferences db)"
    using assms(2) by (simp add: sql_update_def)
  moreover have "\<forall>p\<in>set (sql_update P f (ud_preferences db)). pf_UserID p < ud_next db"
    using assms by (auto simp: users_wf_def sql_update_def)
  ultimately show ?thesis using assms(1) by (simp add: users_wf_def)
qed

lemmas user_update_defs = UpdatePassword_def UpdateLastLogin_def VerifyEmail_def SetActive_def BanUser_def UnbanUser_def
  Enable2FA_def Disable2FA_def

lemma column_change:
  "clashes (r\<lparr>ua_password_hash := h, ua_updated_at := s\<rparr>) q = clashes r q"
  "clashes (r\<lparr>ua_last_login_at := s, ua_last_login_ip := p\<rparr>) q = clashes r q"
  "clashes (r\<lparr>ua_email_verified := b, ua_updated_at := s\<rparr>) q = clashes r q"
  "clashes (r\<lparr>ua_is_active := b, ua_updated_at := s\<rparr>) q = clashes r q"
  "clashes (r\<lparr>ua_is_banned := b, ua_ban_reason := x, ua_updated_at := s\<rparr>) q = clashes r q"
  "clashes (r\<lparr>ua_two_factor_enabled := b, ua_two_factor_secret := x, ua_updated_at := s\<rparr>) q = clashes r q"
  by (simp_all add: clashes_def)

lemma user_updates_wf:
  assumes "users_wf db"
  shows "users_wf (fst (UpdatePassword argon salt ok now i p db))" "users_wf (fst (UpdateLastLogin ok now i ip db))"
    "users_wf (fst (VerifyEmail ok now i db))" "users_wf (fst (SetActive ok now i b db))"
    "users_wf (fst (BanUser ok now i x db))" "users_wf (fst (UnbanUser ok now i db))"
    "users_wf (fst (Enable2FA g rnd key ok now i x db))" "users_wf (fst (Disable2FA ok now i db))"
    "users_wf (fst (UpdateUserProfile ok now i u e ro db))" "users_wf (fst (UpdateProfile ok now i d ph db))"
    "users_wf (fst (ChangeEmail_write sok ok now i e db))"
  using assms
  by (auto simp: user_update_defs UpdateUserProfile_def UpdateProfile_def ChangeEmail_write_def Let_def column_change
      intro!: user_set_wf user_set_unique_wf intro: account_change.intros split: sum.splits)

text \<open>
  Everything that writes the two tables, in any order, with any outcomes of the statements: the operations of
  \<open>UserModel\<close>, the INSERTs of the external sign-ins, the change of address, the UPDATEs of handlers
  (\<^verbatim>\<open>user_settings.go\<close>, \<^verbatim>\<open>user_public.go\<close>, \<^verbatim>\<open>auth_api.go\<close>, \<^verbatim>\<open>main.go\<close>), which set columns of one account that
  are neither UNIQUE nor about bans or second factors, and the handlers' INSERT and UPDATE of preferences, for
  the id of an account that exists or existed. \<open>enforced\<close> says that every connection enforces foreign keys.
\<close>

definition plain_columns :: "(user_row \<Rightarrow> user_row) \<Rightarrow> bool" where
  "plain_columns f \<longleftrightarrow> (\<forall>r. ua_id (f r) = ua_id r \<and> ua_username (f r) = ua_username r \<and> ua_email (f r) = ua_email r \<and>
     ua_phone (f r) = ua_phone r \<and> ua_is_banned (f r) = ua_is_banned r \<and> ua_ban_reason (f r) = ua_ban_reason r \<and>
     ua_two_factor_enabled (f r) = ua_two_factor_enabled r \<and> ua_two_factor_secret (f r) = ua_two_factor_secret r)"

inductive user_step :: "argon2 \<Rightarrow> gcm \<Rightarrow> bool \<Rightarrow> user_db \<Rightarrow> user_db \<Rightarrow> bool" for argon g enforced where
  create: "user_step argon g enforced db (fst (CreateUserAccount argon io n e p ro db))"
| profile: "user_step argon g enforced db (fst (UpdateUserProfile ok now i n e ro db))"
| own_profile: "user_step argon g enforced db (fst (UpdateProfile ok now i d ph db))"
| password: "user_step argon g enforced db (fst (UpdatePassword argon salt ok now i p db))"
| last_login: "user_step argon g enforced db (fst (UpdateLastLogin ok now i ip db))"
| verify: "user_step argon g enforced db (fst (VerifyEmail ok now i db))"
| active: "user_step argon g enforced db (fst (SetActive ok now i b db))"
| ban_user: "user_step argon g enforced db (fst (BanUser ok now i x db))"
| unban_user: "user_step argon g enforced db (fst (UnbanUser ok now i db))"
| enable_2fa: "user_step argon g enforced db (fst (Enable2FA g rnd key ok now i x db))"
| disable_2fa: "user_step argon g enforced db (fst (Disable2FA ok now i db))"
| delete: "enforced \<longrightarrow> fk \<Longrightarrow> user_step argon g enforced db (fst (DeleteUserAccount fk ok i db))"
| oidc: "user_step argon g enforced db (fst (provision_oidc argon xio pr n e d v db))"
| ldap: "user_step argon g enforced db (fst (provision_ldap argon xio n e d db))"
| email: "user_step argon g enforced db (fst (ChangeEmail_write sok ok now i e db))"
| columns: "plain_columns f \<Longrightarrow> user_step argon g enforced db (fst (user_set ok i f db))"
| preferences: "enforced \<longrightarrow> fk \<Longrightarrow> pf_UserID pr < ud_next db \<Longrightarrow> user_step argon g enforced db (insert_preferences fk ok pr db)"
| set_preferences: "(\<And>q. pf_UserID (f q) = pf_UserID q) \<Longrightarrow>
    user_step argon g enforced db (db\<lparr>ud_preferences := sql_update (\<lambda>q. pf_UserID q = i) f (ud_preferences db)\<rparr>)"

lemma plain_columns_wf: "users_wf db \<Longrightarrow> plain_columns f \<Longrightarrow> users_wf (fst (user_set ok i f db))"
  by (rule user_set_wf) (auto simp: plain_columns_def clashes_def intro: account_change.columns)

lemma user_step_wf: "user_step argon g enforced db db' \<Longrightarrow> users_wf db \<Longrightarrow> users_wf db'"
  by (induction rule: user_step.induct)
     (auto intro: CreateUserAccount_wf user_updates_wf DeleteUserAccount_wf provision_wf plain_columns_wf
       insert_preferences_wf update_preferences_wf)

text \<open>What a step leaves in the tables: an account row stays unless it is deleted, preferences come with an account.\<close>

lemma user_set_orphans: "(\<And>r. ua_id (f r) = ua_id r) \<Longrightarrow> no_orphans (fst (user_set ok i f db)) = no_orphans db"
  "(\<And>r. ua_id (f r) = ua_id r) \<Longrightarrow> no_orphans (fst (user_set_unique ok i f db)) = no_orphans db"
  by (auto simp: no_orphans_def user_set_def user_set_unique_def update_ids)

lemma insert_account_orphans: "insert_account ok r db = Some db' \<Longrightarrow> no_orphans db \<Longrightarrow> no_orphans db'"
  by (force simp: no_orphans_def insert_account_def split: if_splits)

lemma CreateUserAccount_orphans: "no_orphans db \<Longrightarrow> no_orphans (fst (CreateUserAccount argon io n e p ro db))"
  by (auto simp: no_orphans_def CreateUserAccount_def Let_def new_account_def default_preferences_def split: sum.split)

lemma provision_orphans:
  assumes "no_orphans db"
  shows "no_orphans (fst (provision_oidc argon io pr n e d v db))" "no_orphans (fst (provision_ldap argon io n e d db))"
  using insert_account_orphans [OF _ assms] assms
  by (auto simp: provision_oidc_def provision_ldap_def Let_def split: option.split sum.split)

lemma user_updates_orphans:
  "no_orphans (fst (UpdatePassword argon salt ok now i p db)) = no_orphans db"
  "no_orphans (fst (UpdateLastLogin ok now i ip db)) = no_orphans db" "no_orphans (fst (VerifyEmail ok now i db)) = no_orphans db"
  "no_orphans (fst (SetActive ok now i b db)) = no_orphans db" "no_orphans (fst (BanUser ok now i x db)) = no_orphans db"
  "no_orphans (fst (UnbanUser ok now i db)) = no_orphans db" "no_orphans (fst (Enable2FA g rnd key ok now i x db)) = no_orphans db"
  "no_orphans (fst (Disable2FA ok now i db)) = no_orphans db" "no_orphans (fst (UpdateUserProfile ok now i u e ro db)) = no_orphans db"
  "no_orphans (fst (UpdateProfile ok now i d ph db)) = no_orphans db" "no_orphans (fst (ChangeEmail_write sok ok now i e db)) = no_orphans db"
  by (simp_all add: user_update_defs UpdateUserProfile_def UpdateProfile_def ChangeEmail_write_def Let_def user_set_orphans
      split: sum.split)

lemma user_step_orphans: "user_step argon g enforced db db' \<Longrightarrow> enforced \<Longrightarrow> no_orphans db \<Longrightarrow> no_orphans db'"
proof (induction rule: user_step.induct)
  case (delete fk db ok i)
  then show ?case by (force simp: no_orphans_def DeleteUserAccount_def in_set_sql_delete)
next
  case (preferences fk pr db ok)
  then show ?case by (auto simp: no_orphans_def insert_preferences_def)
next
  case (set_preferences f db i)
  then have "map pf_UserID (sql_update (\<lambda>q. pf_UserID q = i) f (ud_preferences db)) = map pf_UserID (ud_preferences db)"
    by (simp add: sql_update_def)
  then have "pf_UserID ` set (sql_update (\<lambda>q. pf_UserID q = i) f (ud_preferences db)) = pf_UserID ` set (ud_preferences db)"
    by (metis list.set_map)
  with set_preferences(3) show ?case by (simp add: no_orphans_def)
next
  case (columns f db ok i)
  then show ?case by (simp add: user_set_orphans plain_columns_def)
qed (simp_all add: user_updates_orphans CreateUserAccount_orphans provision_orphans)

text \<open>
  C16. Whatever is done to the accounts, by the operations of \<open>UserModel\<close>, the sign-ins of external providers
  or the handlers that write the tables themselves, and whichever statements fail on the way, no two
  accounts share a user name, an e-mail address, a phone number or an id, no account has two preferences
  rows, an account has a reason for a ban exactly while it is banned and a second-factor secret exactly while
  the second factor is enabled; and if every connection enforces foreign keys, every preferences row
  belongs to an account.
\<close>

theorem accounts_invariant:
  assumes "(user_step argon g enforced)\<^sup>*\<^sup>* empty_users db"
  shows "distinct (map ua_id (ud_accounts db)) \<and> distinct (map ua_username (ud_accounts db)) \<and>
    distinct (map ua_email (ud_accounts db)) \<and> unique_accounts (ud_accounts db) \<and>
    distinct (map pf_UserID (ud_preferences db)) \<and> list_all account_ok (ud_accounts db) \<and>
    (enforced \<longrightarrow> pf_UserID ` set (ud_preferences db) \<subseteq> ua_id ` set (ud_accounts db))"
proof -
  from assms have wf: "users_wf db"
    by (induction rule: rtranclp_induct) (auto intro: empty_users_wf user_step_wf)
  from assms have "enforced \<longrightarrow> no_orphans db"
  proof (induction rule: rtranclp_induct)
    case (step y z)
    then show ?case by (blast intro: user_step_orphans)
  qed (simp add: no_orphans_def empty_users_def)
  moreover have "list_all account_ok (ud_accounts db)"
    using wf by (auto simp: users_wf_def account_rows.table_ok_def list_all_iff)
  ultimately show ?thesis using wf distinct_names [OF wf] by (simp add: users_wf_def no_orphans_def)
qed

text \<open>On a connection that does not enforce them, deleting an account leaves its preferences behind.\<close>

lemma DeleteUserAccount_orphan:
  "p \<in> set (ud_preferences db) \<Longrightarrow> \<not> no_orphans (fst (DeleteUserAccount False True (pf_UserID p) db))"
  by (auto simp: no_orphans_def DeleteUserAccount_def sql_delete_def)

definition create_user_ok :: create_user_io where
  "create_user_ok = \<lparr>cu_salt = Some ''0123456789abcdef'', cu_now = 0, cu_insert_ok = True, cu_id_ok = True,
     cu_prefs_ok = True, cu_get_ok = True\<rparr>"

definition no_gcm :: gcm where
  "no_gcm = \<lparr>gcm_seal = (\<lambda>k n t. t), gcm_open = (\<lambda>k n c. Some c)\<rparr>"

theorem accounts_invariant_witness:
  "let db = fst (DeleteUserAccount True True 1
       (fst (CreateUserAccount toy_argon create_user_ok ''ann'' ''ann@a.org'' ''secret'' [] empty_users))) in
   distinct (map ua_username (ud_accounts db)) \<and> pf_UserID ` set (ud_preferences db) \<subseteq> ua_id ` set (ud_accounts db)"
proof -
  let ?a = "fst (CreateUserAccount toy_argon create_user_ok ''ann'' ''ann@a.org'' ''secret'' [] empty_users)"
  have "(user_step toy_argon no_gcm True)\<^sup>*\<^sup>* empty_users (fst (DeleteUserAccount True True 1 ?a))"
    using user_step.create [of toy_argon no_gcm True empty_users] user_step.delete [of True True toy_argon no_gcm ?a]
    by (meson rtranclp.rtrancl_into_rtrancl rtranclp.rtrancl_refl)
  from accounts_invariant [OF this] show ?thesis by (simp add: Let_def)
qed

section \<open>Credentials\<close>

definition login_row :: "string \<Rightarrow> user_db \<Rightarrow> user_row option" where
  "login_row ident db = (case sql_lookup ua_username ident (ud_accounts db) of
     Some r \<Rightarrow> Some r | None \<Rightarrow> sql_lookup ua_email ident (ud_accounts db))"

lemma login_user_fields [simp]:
  "u_ID (login_user r) = ua_id r" "u_Username (login_user r) = ua_username r" "u_Email (login_user r) = ua_email r"
  "u_PasswordHash (login_user r) = ua_password_hash r" "u_EmailVerified (login_user r) = ua_email_verified r"
  "u_IsActive (login_user r) = ua_is_active r" "u_IsBanned (login_user r) = ua_is_banned r"
  "u_BanReason (login_user r) = null_str (ua_ban_reason r)" "u_TwoFactorEnabled (login_user r) = ua_two_factor_enabled r"
  "u_TwoFactorSecret (login_user r) = null_str (ua_two_factor_secret r)" "u_Role (login_user r) = []"
  by (simp_all add: login_user_def listed_user_def zero_user_def)

lemma full_user_fields [simp]:
  "u_ID (full_user r) = ua_id r" "u_Username (full_user r) = ua_username r" "u_Email (full_user r) = ua_email r"
  "u_PasswordHash (full_user r) = ua_password_hash r" "u_EmailVerified (full_user r) = ua_email_verified r"
  "u_IsActive (full_user r) = ua_is_active r" "u_IsBanned (full_user r) = ua_is_banned r"
  "u_TwoFactorEnabled (full_user r) = ua_two_factor_enabled r"
  "u_TwoFactorSecret (full_user r) = null_str (ua_two_factor_secret r)" "u_Role (full_user r) = ua_role r"
  "u_Phone (full_user r) = null_str (ua_phone r)"
  by (simp_all add: full_user_def)

lemma GetByIdentifier_row:
  "GetByIdentifier True True ident db =
     (case login_row ident db of None \<Rightarrow> Inl UserNotFound | Some r \<Rightarrow> Inr (login_user r))"
  by (simp add: GetByIdentifier_def GetByUsername_def GetByEmail_def user_query_def login_row_def split: option.splits)

lemma VerifyCredentials_row:
  "VerifyCredentials argon True True ident p db =
     (case login_row ident db of
        None \<Rightarrow> Inl InvalidCredentials
      | Some r \<Rightarrow>
          (case VerifyPassword argon p (ua_password_hash r) of
             Inl _ \<Rightarrow> Inl VerifyFailed
           | Inr valid \<Rightarrow>
               if \<not> valid then Inl InvalidCredentials
               else if \<not> ua_is_active r then Inl AccountDisabled
               else if ua_is_banned r then Inl (AccountBanned (null_str (ua_ban_reason r)))
               else Inr (login_user r)))"
  unfolding VerifyCredentials_def GetByIdentifier_def [symmetric] GetByIdentifier_row
  by (simp split: option.split sum.split)

lemma login_row_set:
  assumes "\<And>r. ua_username (f r) = ua_username r \<and> ua_email (f r) = ua_email r"
  shows "login_row ident (fst (user_set True i f db)) =
    map_option (\<lambda>r. if ua_id r = i then f r else r) (login_row ident db)"
  using assms by (simp add: login_row_def user_set_def sql_update_lookup split: option.splits)

lemma login_row_deleted:
  assumes "\<forall>q\<in>set (ud_accounts db). ua_username q = ident \<or> ua_email q = ident \<longrightarrow> ua_id q = i"
  shows "login_row ident (fst (DeleteUserAccount fk True i db)) = None"
proof -
  have "ident \<notin> ua_username ` set (sql_delete (\<lambda>r. ua_id r = i) (ud_accounts db))"
    "ident \<notin> ua_email ` set (sql_delete (\<lambda>r. ua_id r = i) (ud_accounts db))"
    using assms by (auto simp: in_set_sql_delete)
  then show ?thesis by (simp add: login_row_def DeleteUserAccount_def sql_lookup_None [THEN iffD2])
qed

lemma CreateUserAccount_result:
  assumes "CreateUserAccount argon io n e p ro db = (db', Inr user)" "cu_salt io = Some salt"
    "argon p salt 3 65536 4 32 = Some key" "users_wf db"
  shows "\<exists>r. ud_accounts db' = ud_accounts db @ [r] \<and> ua_id r = ud_next db \<and> ua_username r = n \<and> ua_email r = e \<and>
    ua_password_hash r = phc_text salt key \<and> ua_is_active r \<and> \<not> ua_is_banned r \<and> \<not> ua_two_factor_enabled r \<and>
    \<not> ua_email_verified r \<and> ua_role r = (if ro = [] then ''user'' else ro) \<and>
    (\<forall>q\<in>set (ud_accounts db). \<not> clashes r q) \<and> user = full_user r"
proof -
  define r where "r = new_account (ud_next db) n e (phc_text salt key) (if ro \<noteq> [] then ro else ''user'') (FormatSQLTimestamp (cu_now io))"
  have h: "HashPassword argon (cu_salt io) p = Inr (phc_text salt key)"
    using assms(2,3) by (simp add: HashPassword_def argon2Time_def argon2Memory_def argon2Threads_def argon2KeyLen_def)
  have rows: "ud_accounts db' = ud_accounts db @ [r]" "\<forall>q\<in>set (ud_accounts db). \<not> clashes r q"
      and get: "user_query ua_id full_user True (ud_next db) db' = Inr user"
    using assms(1) unfolding CreateUserAccount_def h r_def [symmetric] GetUserByID_def user_query_def
    by (auto simp: Let_def r_def [symmetric] split: if_splits)
  have id: "ua_id r = ud_next db" by (simp add: r_def new_account_def)
  have "sql_lookup ua_id (ud_next db) (ud_accounts db) = None"
    using assms(4) by (auto simp: sql_lookup_None users_wf_def account_rows.table_ok_def)
  then have "user = full_user r" using get by (simp add: user_query_def rows(1) sql_lookup_append id)
  with rows id show ?thesis by (simp add: r_def new_account_def)
qed

text \<open>
  C17. The life of an account's credentials: after \<open>CreateUserAccount\<close> the password opens the account under
  its user name and under its address, and no other password does (unless it derives the same key);
  a banned account is refused with the reason given, a disabled one as disabled. An account whose password was
  changed accepts the new one and no other, the old one included (unless it derives the same key), and a
  deleted account accepts none. (Hypotheses: the address is nobody's user name and the user name nobody's
  address, which \<open>GetByIdentifier\<close> would take for the other, the queries of the verification succeed, and
  Argon2id returns keys of 32 bytes.)
\<close>

theorem credentials_lifecycle:
  assumes create: "CreateUserAccount argon io n e p ro db = (db', Inr user)" and wf: "users_wf db"
    and salt: "cu_salt io = Some salt" and key: "argon p salt 3 65536 4 32 = Some key" "length key = 32"
    and name: "e \<notin> ua_username ` set (ud_accounts db)" "n \<notin> ua_email ` set (ud_accounts db)"
    and ident: "ident = n \<or> ident = e"
    and other: "argon p' salt 3 65536 4 32 = Some key'" "argon p' salt' 3 65536 4 32 = Some new" "length new = 32"
      "argon q salt' 3 65536 4 32 = Some qkey"
  shows "(\<exists>u. VerifyCredentials argon True True ident p db' = Inr u \<and> u_ID u = u_ID user) \<and>
    (key' \<noteq> key \<longrightarrow> VerifyCredentials argon True True ident p' db' = Inl InvalidCredentials) \<and>
    VerifyCredentials argon True True ident p (fst (BanUser True now (u_ID user) reason db')) = Inl (AccountBanned reason) \<and>
    VerifyCredentials argon True True ident p (fst (SetActive True now (u_ID user) False db')) = Inl AccountDisabled \<and>
    (\<exists>u. VerifyCredentials argon True True ident p' (fst (UpdatePassword argon (Some salt') True now (u_ID user) p' db')) = Inr u \<and>
       u_ID u = u_ID user) \<and>
    (qkey \<noteq> new \<longrightarrow>
       VerifyCredentials argon True True ident q (fst (UpdatePassword argon (Some salt') True now (u_ID user) p' db'))
         = Inl InvalidCredentials) \<and>
    VerifyCredentials argon True True ident any (fst (DeleteUserAccount fk True (u_ID user) db')) = Inl InvalidCredentials"
proof -
  obtain r where r: "ud_accounts db' = ud_accounts db @ [r]" "ua_id r = ud_next db" "ua_username r = n" "ua_email r = e"
      "ua_password_hash r = phc_text salt key" "ua_is_active r" "\<not> ua_is_banned r"
      "\<forall>q\<in>set (ud_accounts db). \<not> clashes r q" "user = full_user r"
    using CreateUserAccount_result [OF create salt, OF key(1) wf] by blast
  have fresh: "\<forall>q\<in>set (ud_accounts db). ua_username q \<noteq> ident \<and> ua_email q \<noteq> ident"
    using ident name r(3,4,8) unfolding clashes_def by blast
  then have "sql_lookup ua_username ident (ud_accounts db) = None" "sql_lookup ua_email ident (ud_accounts db) = None"
    by (auto simp: sql_lookup_None)
  then have row: "login_row ident db' = Some r"
    using ident r(1,3,4) by (auto simp: login_row_def sql_lookup_append)
  have id: "u_ID user = ua_id r" using r(9) by simp
  note verify = VerifyPassword_phc(1) [of argon]
  note hash = HashPassword_phc [of argon, OF other(2)]
  have gone: "login_row ident (fst (DeleteUserAccount fk True (ua_id r) db')) = None"
    using fresh r(1) by (intro login_row_deleted) auto
  show ?thesis
    unfolding VerifyCredentials_row id
    using row gone r key other verify [OF key(1) key(2)] verify [OF other(1) key(2)] verify [OF other(2,3)]
      verify [OF other(4,3)]
    by (simp add: BanUser_def SetActive_def UpdatePassword_def hash login_row_set null_str_def)
qed

theorem credentials_lifecycle_witness:
  "VerifyCredentials toy_argon True True ''ann'' ''secret''
     (fst (BanUser True 0 1 ''spam'' (fst (CreateUserAccount toy_argon create_user_ok ''ann'' ''ann@a.org'' ''secret'' [] empty_users))))
   = Inl (AccountBanned ''spam'')"
proof -
  define key where "key p = take 32 (p @ replicate 32 CHR ''.'')" for p :: string
  have keys: "toy_argon p s 3 65536 4 32 = Some (key p)" "length (key p) = 32" for p s
    by (simp_all add: toy_argon_def key_def)
  have h: "HashPassword toy_argon (cu_salt create_user_ok) ''secret'' = Inr (phc_text ''0123456789abcdef'' (key ''secret''))"
    by (simp add: HashPassword_def create_user_ok_def keys argon2Time_def argon2Memory_def argon2Threads_def argon2KeyLen_def)
  obtain db' user where c: "CreateUserAccount toy_argon create_user_ok ''ann'' ''ann@a.org'' ''secret'' [] empty_users = (db', Inr user)"
      "u_ID user = 1"
    unfolding CreateUserAccount_def h
    by (simp add: create_user_ok_def empty_users_def GetUserByID_def user_query_def Let_def) (simp add: new_account_def)
  have "VerifyCredentials toy_argon True True ''ann'' ''secret'' (fst (BanUser True 0 (u_ID user) ''spam'' db')) = Inl (AccountBanned ''spam'')"
    using credentials_lifecycle [OF c(1) empty_users_wf, of "''0123456789abcdef''" "key ''secret''" "''ann''" "''secret''" "key ''secret''"
      "''0123456789abcdef''" "key ''secret''" "''secret''" "key ''secret''" 0 "''spam''"]
    by (simp add: keys create_user_ok_def empty_users_def)
  then show ?thesis using c by simp
qed

text \<open>What a login sees of an account has no role: \<open>GetByUsername\<close> and \<open>GetByEmail\<close> do not read that column.\<close>

lemma login_role_empty: "GetByIdentifier ok1 ok2 ident db = Inr user \<Longrightarrow> u_Role user = []"
  by (auto simp: GetByIdentifier_def GetByUsername_def GetByEmail_def user_query_def split: sum.splits option.splits if_splits)

section \<open>Failures that stay\<close>

text \<open>
  The phone number is optional, but only one account can do without it: \<open>UpdateProfile\<close> stores the empty
  text, which the UNIQUE column treats as a number like any other, so once one account has saved its
  profile without a phone number, every other account that saves its profile without one gets an error
  and keeps its old profile.
\<close>

lemma UpdateProfile_second_empty_phone:
  assumes "UpdateProfile True now i name [] db = (db', True)" "r \<in> set (ud_accounts db)" "ua_id r = i"
    "q \<in> set (ud_accounts db)" "ua_id q = j" "i \<noteq> j"
  shows "UpdateProfile ok now' j name' [] db' = (db', False)"
proof -
  let ?f = "\<lambda>r. r\<lparr>ua_display_name := Some name, ua_phone := Some [], ua_updated_at := VStr (FormatSQLTimestamp now)\<rparr>"
  have "ud_accounts db' = sql_update (\<lambda>r. ua_id r = i) ?f (ud_accounts db)"
    using assms(1) by (auto simp: UpdateProfile_def user_set_unique_def user_set_def split: if_splits)
  then have "?f r \<in> set (ud_accounts db')" "q \<in> set (ud_accounts db')"
    using assms by (auto simp: sql_update_def image_iff)
  moreover have "ua_id (?f r) \<noteq> j" "clashes (q\<lparr>ua_display_name := d, ua_phone := Some [], ua_updated_at := s\<rparr>) (?f r)" for d s
    using assms by (simp_all add: clashes_def)
  ultimately have "\<exists>x\<in>set (ud_accounts db'). ua_id x = j \<and> (\<exists>y\<in>set (ud_accounts db'). ua_id y \<noteq> j \<and>
      clashes (x\<lparr>ua_display_name := d, ua_phone := Some [], ua_updated_at := s\<rparr>) y)" for d s
    using assms(5) by blast
  then show ?thesis unfolding UpdateProfile_def user_set_unique_def by simp
qed

definition two_accounts :: user_db where
  "two_accounts = \<lparr>ud_next = 3, ud_accounts = [new_account 1 ''ann'' ''ann@a.org'' ''h1'' ''user'' ''s'',
     new_account 2 ''bob'' ''bob@b.org'' ''h2'' ''user'' ''s''], ud_preferences = []\<rparr>"

lemma UpdateProfile_second_empty_phone_example:
  "snd (UpdateProfile True 0 1 ''Ann'' [] two_accounts) \<and>
   \<not> snd (UpdateProfile True 0 2 ''Bob'' [] (fst (UpdateProfile True 0 1 ''Ann'' [] two_accounts)))"
proof -
  obtain db' where u: "UpdateProfile True 0 1 ''Ann'' [] two_accounts = (db', True)"
    by (simp add: UpdateProfile_def user_set_unique_def user_set_def two_accounts_def new_account_def clashes_def)
  from UpdateProfile_second_empty_phone [OF u, of "ud_accounts two_accounts ! 0" "ud_accounts two_accounts ! 1" 2 True 0 "''Bob''"]
  have "UpdateProfile True 0 2 ''Bob'' [] db' = (db', False)" by (simp add: two_accounts_def new_account_def)
  then show ?thesis using u by simp
qed

text \<open>
  An account whose preferences could not be written stays behind: the caller is told that the creation
  failed, and a second attempt fails because the name is taken.
\<close>

lemma CreateUserAccount_partial:
  assumes "CreateUserAccount argon io n e p ro db = (db', Inl PreferencesFailed)" "cu_insert_ok io2"
    "HashPassword argon (cu_salt io2) p = Inr h"
  shows "n \<in> ua_username ` set (ud_accounts db') \<and> CreateUserAccount argon io2 n e p ro db' = (db', Inl UniqueViolation)"
proof -
  obtain h0 s where "ud_accounts db' = ud_accounts db @ [new_account (ud_next db) n e h0 (if ro \<noteq> [] then ro else ''user'') s]"
    using assms(1) by (auto simp: CreateUserAccount_def Let_def GetUserByID_def user_query_def split: sum.splits if_splits option.splits)
  then have "\<exists>q\<in>set (ud_accounts db'). ua_username q = n" by (auto simp: new_account_def)
  then show ?thesis using assms(2,3) by (auto simp: CreateUserAccount_def Let_def clashes_def new_account_def)
qed

section \<open>Second-factor secrets\<close>

text \<open>
  The second-factor secret is read back as it was stored: after \<open>Enable2FA\<close> has succeeded, the row of
  the account holds a value from which \<open>DecryptTwoFactorSecret\<close> recovers the secret, with a configured key
  (the value is then a ciphertext) and without one; and a value that is no ciphertext under the key, as
  older builds stored it, is returned unchanged. (Hypothesis: GCM opens what it sealed.)
\<close>

lemma two_factor_secret_round_trip:
  assumes en: "Enable2FA g (Some nonce) key True now i secret db = (db', True)" and nonce: "length nonce = nonceSize"
    and gcm: "\<And>k. gcm_open g k nonce (gcm_seal g k nonce secret) = Some secret"
    and r: "r \<in> set (ud_accounts db)" "ua_id r = i" and legacy: "\<not> IsEncryptedAtRest g key old"
  shows "(\<exists>q enc. q \<in> set (ud_accounts db') \<and> ua_id q = i \<and> ua_two_factor_enabled q \<and> ua_two_factor_secret q = Some enc \<and>
      DecryptTwoFactorSecret g key enc = Inr secret \<and> (key \<noteq> [] \<longrightarrow> IsEncryptedAtRest g key enc)) \<and>
    DecryptTwoFactorSecret g key old = Inr old"
proof -
  obtain enc where enc: "encryptTwoFactorSecret g (Some nonce) key secret = Inr enc"
    using en by (auto simp: Enable2FA_def split: sum.splits)
  have dec: "DecryptTwoFactorSecret g key enc = Inr secret \<and> (key \<noteq> [] \<longrightarrow> IsEncryptedAtRest g key enc)"
  proof (cases "key = []")
    case True
    then show ?thesis using enc by (simp add: encryptTwoFactorSecret_def DecryptTwoFactorSecret_def)
  next
    case False
    then have e: "EncryptAtRest g (Some nonce) key secret = Inr enc" using enc by (simp add: encryptTwoFactorSecret_def)
    then obtain k where k: "newAESCipher key = Inr k" by (auto simp: EncryptAtRest_def split: sum.splits)
    from encrypt_round_trip [OF k nonce gcm] e False show ?thesis by (auto simp: DecryptTwoFactorSecret_def)
  qed
  let ?q = "r\<lparr>ua_two_factor_enabled := True, ua_two_factor_secret := Some enc, ua_updated_at := VStr (FormatSQLTimestamp now)\<rparr>"
  have "?q \<in> set (ud_accounts db')"
    using en r by (auto simp: Enable2FA_def enc user_set_def sql_update_def image_iff)
  moreover have "ua_id ?q = i \<and> ua_two_factor_enabled ?q \<and> ua_two_factor_secret ?q = Some enc" using r by simp
  moreover have "DecryptTwoFactorSecret g key old = Inr old" using legacy by (simp add: DecryptTwoFactorSecret_def)
  ultimately show ?thesis using dec by blast
qed

lemma two_factor_secret_round_trip_example:
  "\<exists>q enc. q \<in> set (ud_accounts (fst (Enable2FA no_gcm (Some ''0123456789ab'') [] True 0 1 ''JBSWY3DP'' two_accounts))) \<and>
     ua_two_factor_secret q = Some enc \<and> DecryptTwoFactorSecret no_gcm [] enc = Inr ''JBSWY3DP''"
proof -
  obtain db' where e: "Enable2FA no_gcm (Some ''0123456789ab'') [] True 0 1 ''JBSWY3DP'' two_accounts = (db', True)"
    by (simp add: Enable2FA_def encryptTwoFactorSecret_def user_set_def)
  have legacy: "\<not> IsEncryptedAtRest no_gcm [] []" by (simp add: IsEncryptedAtRest_def)
  have gcm: "gcm_open no_gcm k n (gcm_seal no_gcm k n s) = Some s" for k n s by (simp add: no_gcm_def)
  have r: "ud_accounts two_accounts ! 0 \<in> set (ud_accounts two_accounts)" "ua_id (ud_accounts two_accounts ! 0) = 1"
    by (simp_all add: two_accounts_def new_account_def)
  from two_factor_secret_round_trip [OF e _ gcm r legacy] show ?thesis by (auto simp: e nonceSize_def)
qed

end
