(* ===== verification/Account_Tokens.thy ===== *)
theory Account_Tokens
  imports Sql_Table Dbtime Passwords
begin

text \<open>
  The one-time tokens of accounts and the activity log, in \<^verbatim>\<open>src/server/model/user.go\<close>: verification of
  e-mail addresses, password resets, invitations. Every table stores the hash of its tokens in a UNIQUE
  column; the hash is the parameter \<open>hash\<close>. Random bytes, clock readings and the outcomes of the
  statements are arguments.
\<close>

section \<open>Verifications and resets\<close>

text \<open>The tables \<^verbatim>\<open>user_email_verifications\<close> and \<^verbatim>\<open>user_password_resets\<close>; only the first has an address.\<close>

record ticket_row =
  tr_id :: int
  tr_user_id :: int
  tr_token :: string
  tr_email :: string
  tr_created_at :: scanned
  tr_expires_at :: scanned
  tr_used_at :: scanned

record ticket_table =
  tb_next :: int
  tb_rows :: "ticket_row list"

record UserEmailVerification =
  tk_ID :: int
  tk_UserID :: int
  tk_Token :: string
  tk_Email :: string
  tk_CreatedAt :: instant
  tk_ExpiresAt :: instant
  tk_UsedAt :: "instant option"

datatype ticket_error = TicketTokenFailed | TicketInsertFailed | NoTicketID | TicketNotFound | TicketQueryFailed

record ticket_io =
  vi_random :: "string option"
  vi_expiry_base :: instant
  vi_now :: instant
  vi_built :: instant
  vi_insert_ok :: bool
  vi_id_ok :: bool

definition create_ticket ::
  "(string \<Rightarrow> string) \<Rightarrow> int \<Rightarrow> ticket_io \<Rightarrow> int \<Rightarrow> string \<Rightarrow> ticket_table \<Rightarrow> ticket_table \<times> (ticket_error + UserEmailVerification)"
where
  "create_ticket hash lifetime io userID email t =
     (case GenerateSecureToken (vi_random io) of
        None \<Rightarrow> (t, Inl TicketTokenFailed)
      | Some token \<Rightarrow>
          (let expiresAt = vi_expiry_base io + lifetime; i = tb_next t in
           if \<not> vi_insert_ok io \<or> (\<exists>r\<in>set (tb_rows t). tr_token r = hash token) then (t, Inl TicketInsertFailed)
           else
             (let t' = \<lparr>tb_next = i + 1, tb_rows = tb_rows t @
                  [\<lparr>tr_id = i, tr_user_id = userID, tr_token = hash token, tr_email = email,
                    tr_created_at = VStr (FormatSQLTimestamp (vi_now io)),
                    tr_expires_at = VStr (FormatSQLTimestamp expiresAt), tr_used_at = VNil\<rparr>]\<rparr> in
              if \<not> vi_id_ok io then (t', Inl NoTicketID)
              else (t', Inr \<lparr>tk_ID = i, tk_UserID = userID, tk_Token = token, tk_Email = email,
                             tk_CreatedAt = vi_built io, tk_ExpiresAt = expiresAt, tk_UsedAt = None\<rparr>))))"

definition CreateVerification ::
  "(string \<Rightarrow> string) \<Rightarrow> ticket_io \<Rightarrow> int \<Rightarrow> string \<Rightarrow> ticket_table \<Rightarrow> ticket_table \<times> (ticket_error + UserEmailVerification)"
where
  "CreateVerification hash io userID email t = create_ticket hash (24 * hour_ns) io userID email t"

definition CreateReset ::
  "(string \<Rightarrow> string) \<Rightarrow> ticket_io \<Rightarrow> int \<Rightarrow> ticket_table \<Rightarrow> ticket_table \<times> (ticket_error + UserEmailVerification)" where
  "CreateReset hash io userID t = create_ticket hash hour_ns io userID [] t"

definition ticket_view :: "ticket_row \<Rightarrow> UserEmailVerification" where
  "ticket_view r =
     \<lparr>tk_ID = tr_id r, tk_UserID = tr_user_id r, tk_Token = tr_token r, tk_Email = tr_email r,
      tk_CreatedAt = (case ParseStoredTimestamp (tr_created_at r) of Some c \<Rightarrow> c | None \<Rightarrow> zero_time),
      tk_ExpiresAt = (case ParseStoredTimestamp (tr_expires_at r) of Some c \<Rightarrow> c | None \<Rightarrow> zero_time),
      tk_UsedAt = ParseStoredTimestamp (tr_used_at r)\<rparr>"

definition get_ticket :: "(string \<Rightarrow> string) \<Rightarrow> bool \<Rightarrow> string \<Rightarrow> ticket_table \<Rightarrow> ticket_error + UserEmailVerification" where
  "get_ticket hash ok token t =
     (if \<not> ok then Inl TicketQueryFailed
      else case sql_lookup tr_token (hash token) (tb_rows t) of
        None \<Rightarrow> Inl TicketNotFound
      | Some r \<Rightarrow> Inr (ticket_view r))"

definition GetVerification :: "(string \<Rightarrow> string) \<Rightarrow> bool \<Rightarrow> string \<Rightarrow> ticket_table \<Rightarrow> ticket_error + UserEmailVerification" where
  "GetVerification hash ok token t = get_ticket hash ok token t"

definition GetReset :: "(string \<Rightarrow> string) \<Rightarrow> bool \<Rightarrow> string \<Rightarrow> ticket_table \<Rightarrow> ticket_error + UserEmailVerification" where
  "GetReset hash ok token t = get_ticket hash ok token t"

definition ticket_expired :: "instant \<Rightarrow> UserEmailVerification \<Rightarrow> bool" where
  "ticket_expired now v \<longleftrightarrow> tk_ExpiresAt v < now"

definition ticket_used :: "UserEmailVerification \<Rightarrow> bool" where
  "ticket_used v \<longleftrightarrow> tk_UsedAt v \<noteq> None"

definition MarkVerificationUsed :: "(string \<Rightarrow> string) \<Rightarrow> bool \<Rightarrow> instant \<Rightarrow> string \<Rightarrow> ticket_table \<Rightarrow> ticket_table \<times> bool" where
  "MarkVerificationUsed hash ok now token t =
     (if ok then (t\<lparr>tb_rows := sql_update (\<lambda>r. tr_token r = hash token)
                       (\<lambda>r. r\<lparr>tr_used_at := VStr (FormatSQLTimestamp now)\<rparr>) (tb_rows t)\<rparr>, True)
      else (t, False))"

definition MarkResetUsed :: "(string \<Rightarrow> string) \<Rightarrow> bool \<Rightarrow> instant \<Rightarrow> string \<Rightarrow> ticket_table \<Rightarrow> ticket_table \<times> bool" where
  "MarkResetUsed hash ok now token t = MarkVerificationUsed hash ok now token t"

text \<open>Clean-up: used rows by a statement, expired rows by the comparison in Go.\<close>

definition DeleteExpiredVerifications :: "bool \<Rightarrow> bool \<Rightarrow> bool list \<Rightarrow> instant \<Rightarrow> ticket_table \<Rightarrow> ticket_table \<times> bool" where
  "DeleteExpiredVerifications usedOk selectOk oks now t =
     (if \<not> usedOk then (t, False)
      else (let rows = sql_delete (\<lambda>r. tr_used_at r \<noteq> VNil) (tb_rows t) in
            case DeleteRowsWithTimestampBefore (\<lambda>r. VInt (tr_id r)) tr_expires_at selectOk oks now False rows of
              (rows', n, ok) \<Rightarrow> (t\<lparr>tb_rows := rows'\<rparr>, ok)))"

definition DeleteExpiredResets :: "bool \<Rightarrow> bool \<Rightarrow> bool list \<Rightarrow> instant \<Rightarrow> ticket_table \<Rightarrow> ticket_table \<times> bool" where
  "DeleteExpiredResets usedOk selectOk oks now t = DeleteExpiredVerifications usedOk selectOk oks now t"

section \<open>Invitations\<close>

record invite_row =
  ir_id :: int
  ir_code :: string
  ir_username :: "string option"
  ir_email :: "string option"
  ir_invited_by :: "int option"
  ir_role :: string
  ir_created_at :: scanned
  ir_expires_at :: scanned
  ir_used_by :: "int option"
  ir_used_at :: scanned
  ir_max_uses :: int
  ir_use_count :: int

record invite_table =
  it_next :: int
  it_rows :: "invite_row list"

record UserInvite =
  iv_ID :: int
  iv_Token :: string
  iv_Username :: string
  iv_Email :: string
  iv_Role :: string
  iv_CreatedBy :: int
  iv_CreatedAt :: instant
  iv_ExpiresAt :: instant
  iv_MaxUses :: int
  iv_UseCount :: int
  iv_UsedAt :: "instant option"

datatype invite_error =
    SchemaFailed
  | InviteTokenFailed
  | BadInviteExpiration
  | InviteInsertFailed
  | NoInviteID
  | InviteQueryFailed
  | InvalidInvite
  | InviteExpired
  | InviteUsed
  | InviteUpdateFailed

record invite_io =
  ii_schema_ok :: bool
  ii_random :: "string option"
  ii_expiry_base :: instant
  ii_now :: instant
  ii_built :: instant
  ii_insert_ok :: bool
  ii_id_ok :: bool

definition CreateInvite ::
  "(string \<Rightarrow> string) \<Rightarrow> invite_io \<Rightarrow> string \<Rightarrow> string \<Rightarrow> string \<Rightarrow> int \<Rightarrow> invite_table \<Rightarrow> invite_table \<times> (invite_error + UserInvite)"
where
  "CreateInvite hash io username email role0 expiresInDays t =
     (if \<not> ii_schema_ok io then (t, Inl SchemaFailed)
      else case GenerateSecureToken (ii_random io) of
        None \<Rightarrow> (t, Inl InviteTokenFailed)
      | Some token \<Rightarrow>
          if expiresInDays \<le> 0 then (t, Inl BadInviteExpiration)
          else
            (let role = (if role0 = [] then ''user'' else role0);
                 expiresAt = ii_expiry_base io + wrap64 (wrap64 (expiresInDays * 24) * hour_ns);
                 i = it_next t in
             if \<not> ii_insert_ok io \<or> (\<exists>r\<in>set (it_rows t). ir_code r = hash token) then (t, Inl InviteInsertFailed)
             else
               (let t' = \<lparr>it_next = i + 1, it_rows = it_rows t @
                    [\<lparr>ir_id = i, ir_code = hash token, ir_username = Some username, ir_email = Some email,
                      ir_invited_by = None, ir_role = role, ir_created_at = VStr (FormatSQLTimestamp (ii_now io)),
                      ir_expires_at = VStr (FormatSQLTimestamp expiresAt), ir_used_by = None, ir_used_at = VNil,
                      ir_max_uses = 1, ir_use_count = 0\<rparr>]\<rparr> in
                if \<not> ii_id_ok io then (t', Inl NoInviteID)
                else (t', Inr \<lparr>iv_ID = i, iv_Token = token, iv_Username = username, iv_Email = email, iv_Role = role,
                               iv_CreatedBy = 0, iv_CreatedAt = ii_built io, iv_ExpiresAt = expiresAt,
                               iv_MaxUses = 1, iv_UseCount = 0, iv_UsedAt = None\<rparr>))))"

definition invite_view :: "invite_row \<Rightarrow> UserInvite" where
  "invite_view r =
     \<lparr>iv_ID = ir_id r, iv_Token = ir_code r,
      iv_Username = (case ir_username r of Some u \<Rightarrow> u | None \<Rightarrow> []), iv_Email = (case ir_email r of Some e \<Rightarrow> e | None \<Rightarrow> []),
      iv_Role = ir_role r, iv_CreatedBy = (case ir_invited_by r of Some b \<Rightarrow> b | None \<Rightarrow> 0),
      iv_CreatedAt = (case ParseStoredTimestamp (ir_created_at r) of Some c \<Rightarrow> c | None \<Rightarrow> zero_time),
      iv_ExpiresAt = (case ParseStoredTimestamp (ir_expires_at r) of Some c \<Rightarrow> c | None \<Rightarrow> zero_time),
      iv_MaxUses = ir_max_uses r, iv_UseCount = ir_use_count r, iv_UsedAt = ParseStoredTimestamp (ir_used_at r)\<rparr>"

definition get_invite ::
  "(invite_row \<Rightarrow> 'k) \<Rightarrow> bool \<Rightarrow> bool \<Rightarrow> 'k \<Rightarrow> invite_table \<Rightarrow> invite_error + UserInvite option" where
  "get_invite key schemaOk ok k t =
     (if \<not> schemaOk then Inl SchemaFailed
      else if \<not> ok then Inl InviteQueryFailed
      else Inr (map_option invite_view (sql_lookup key k (it_rows t))))"

definition GetInviteByToken :: "(string \<Rightarrow> string) \<Rightarrow> bool \<Rightarrow> bool \<Rightarrow> string \<Rightarrow> invite_table \<Rightarrow> invite_error + UserInvite option" where
  "GetInviteByToken hash schemaOk ok token t = get_invite ir_code schemaOk ok (hash token) t"

definition GetInviteByID :: "bool \<Rightarrow> bool \<Rightarrow> int \<Rightarrow> invite_table \<Rightarrow> invite_error + UserInvite option" where
  "GetInviteByID schemaOk ok i t = get_invite ir_id schemaOk ok i t"

definition VerifyInvite ::
  "(string \<Rightarrow> string) \<Rightarrow> bool \<Rightarrow> bool \<Rightarrow> instant \<Rightarrow> string \<Rightarrow> invite_table \<Rightarrow> invite_error + UserInvite" where
  "VerifyInvite hash schemaOk ok now token t =
     (case GetInviteByToken hash schemaOk ok token t of
        Inl err \<Rightarrow> Inl err
      | Inr None \<Rightarrow> Inl InvalidInvite
      | Inr (Some invite) \<Rightarrow>
          if iv_ExpiresAt invite < now then Inl InviteExpired
          else if iv_UsedAt invite \<noteq> None then Inl InviteUsed
          else if 0 < iv_MaxUses invite \<and> iv_MaxUses invite \<le> iv_UseCount invite then Inl InviteUsed
          else Inr invite)"

definition MarkInviteUsed ::
  "(string \<Rightarrow> string) \<Rightarrow> bool \<Rightarrow> bool \<Rightarrow> instant \<Rightarrow> string \<Rightarrow> int \<Rightarrow> invite_table \<Rightarrow> invite_table \<times> bool" where
  "MarkInviteUsed hash schemaOk ok now token usedBy t =
     (if \<not> schemaOk \<or> \<not> ok then (t, False)
      else (t\<lparr>it_rows := sql_update (\<lambda>r. ir_code r = hash token)
                (\<lambda>r. r\<lparr>ir_used_by := Some usedBy, ir_used_at := VStr (FormatSQLTimestamp now),
                       ir_use_count := ir_use_count r + 1\<rparr>) (it_rows t)\<rparr>, True))"

definition DeleteExpiredInvites ::
  "bool \<Rightarrow> bool \<Rightarrow> bool \<Rightarrow> bool list \<Rightarrow> instant \<Rightarrow> invite_table \<Rightarrow> invite_table \<times> bool" where
  "DeleteExpiredInvites schemaOk usedOk selectOk oks now t =
     (if \<not> schemaOk \<or> \<not> usedOk then (t, False)
      else (let rows = sql_delete (\<lambda>r. ir_used_at r \<noteq> VNil) (it_rows t) in
            case DeleteRowsWithTimestampBefore (\<lambda>r. VInt (ir_id r)) ir_expires_at selectOk oks now False rows of
              (rows', n, ok) \<Rightarrow> (t\<lparr>it_rows := rows'\<rparr>, ok)))"

text \<open>\<open>newest\<close> is the order of \<^verbatim>\<open>ORDER BY created_at DESC\<close>.\<close>

definition ListInvites ::
  "(invite_row list \<Rightarrow> invite_row list) \<Rightarrow> bool \<Rightarrow> bool \<Rightarrow> invite_table \<Rightarrow> invite_error + UserInvite list" where
  "ListInvites newest schemaOk ok t =
     (if \<not> schemaOk then Inl SchemaFailed
      else if \<not> ok then Inl InviteQueryFailed
      else Inr (map invite_view (newest (it_rows t))))"

definition invite_pending :: "instant \<Rightarrow> UserInvite \<Rightarrow> bool" where
  "invite_pending now invite \<longleftrightarrow>
     iv_UsedAt invite = None \<and> now < iv_ExpiresAt invite \<and> (iv_MaxUses invite = 0 \<or> iv_UseCount invite < iv_MaxUses invite)"

definition GetPendingInvites ::
  "(invite_row list \<Rightarrow> invite_row list) \<Rightarrow> bool \<Rightarrow> bool \<Rightarrow> instant \<Rightarrow> invite_table \<Rightarrow> invite_error + UserInvite list" where
  "GetPendingInvites newest schemaOk ok now t =
     (case ListInvites newest schemaOk ok t of
        Inl err \<Rightarrow> Inl err
      | Inr invites \<Rightarrow> Inr (filter (invite_pending now) invites))"

definition DeleteInvite :: "bool \<Rightarrow> bool \<Rightarrow> int \<Rightarrow> invite_table \<Rightarrow> invite_table \<times> bool" where
  "DeleteInvite schemaOk ok i t =
     (if \<not> schemaOk \<or> \<not> ok then (t, False)
      else (t\<lparr>it_rows := sql_delete (\<lambda>r. ir_id r = i) (it_rows t)\<rparr>, True))"

section \<open>Activity log\<close>

record activity_row =
  al_id :: int
  al_user_id :: int
  al_activity_type :: string
  al_ip_address :: string
  al_user_agent :: string
  al_description :: string
  al_created_at :: scanned

record activity_log =
  ag_next :: int
  ag_rows :: "activity_row list"

definition LogActivity ::
  "bool \<Rightarrow> instant \<Rightarrow> int \<Rightarrow> string \<Rightarrow> string \<Rightarrow> string \<Rightarrow> string \<Rightarrow> activity_log \<Rightarrow> activity_log \<times> bool" where
  "LogActivity ok now userID activityType ipAddress userAgent details t =
     (if \<not> ok then (t, False)
      else (\<lparr>ag_next = ag_next t + 1, ag_rows = ag_rows t @
               [\<lparr>al_id = ag_next t, al_user_id = userID, al_activity_type = activityType, al_ip_address = ipAddress,
                 al_user_agent = userAgent, al_description = details,
                 al_created_at = VStr (FormatSQLTimestamp now)\<rparr>]\<rparr>, True))"

definition GetActivities ::
  "(activity_row list \<Rightarrow> activity_row list) \<Rightarrow> bool \<Rightarrow> int \<Rightarrow> int \<Rightarrow> int \<Rightarrow> activity_log \<Rightarrow> activity_row list option" where
  "GetActivities newest ok userID offset limit t =
     (if \<not> ok then None
      else (let rows = drop (nat offset) (newest (filter (\<lambda>r. al_user_id r = userID) (ag_rows t))) in
            Some (if limit < 0 then rows else take (nat limit) rows)))"

definition DeleteOldActivities :: "bool \<Rightarrow> bool list \<Rightarrow> instant \<Rightarrow> int \<Rightarrow> activity_log \<Rightarrow> activity_log \<times> bool" where
  "DeleteOldActivities selectOk oks now days t =
     (case DeleteRowsWithTimestampBefore (\<lambda>r. VInt (al_id r)) al_created_at selectOk oks (now - days * (24 * hour_ns)) False
             (ag_rows t) of
        (rows, n, ok) \<Rightarrow> (t\<lparr>ag_rows := rows\<rparr>, ok))"

section \<open>Invitations are used once\<close>

lemma sql_lookup_new:
  "\<forall>r\<in>set rows. key r \<noteq> key r0 \<Longrightarrow> sql_lookup key (key r0) (rows @ [r0]) = Some r0"
proof -
  assume "\<forall>r\<in>set rows. key r \<noteq> key r0"
  then have "sql_lookup key (key r0) rows = None" by (auto simp: sql_lookup_None)
  then show ?thesis by (simp add: sql_lookup_append)
qed

lemma CreateInvite_row:
  assumes "CreateInvite hash io u e ro days t = (t', Inr invite)"
  shows "\<exists>r. sql_lookup ir_code (hash (iv_Token invite)) (it_rows t') = Some r \<and> ir_username r = Some u \<and> ir_email r = Some e \<and>
    ir_role r = (if ro = [] then ''user'' else ro) \<and> ir_expires_at r = VStr (FormatSQLTimestamp (iv_ExpiresAt invite)) \<and>
    ir_used_at r = VNil \<and> ir_max_uses r = 1 \<and> ir_use_count r = 0 \<and> 0 < days \<and>
    iv_ExpiresAt invite = ii_expiry_base io + wrap64 (wrap64 (days * 24) * hour_ns)"
proof -
  obtain tok where tok: "GenerateSecureToken (ii_random io) = Some tok" "ii_schema_ok io" "0 < days"
      "\<not> (\<exists>r\<in>set (it_rows t). ir_code r = hash tok)" "ii_insert_ok io" "ii_id_ok io"
    using assms by (auto simp: CreateInvite_def Let_def split: if_splits option.splits)
  let ?x = "ii_expiry_base io + wrap64 (wrap64 (days * 24) * hour_ns)"
  let ?r = "\<lparr>ir_id = it_next t, ir_code = hash tok, ir_username = Some u, ir_email = Some e,
      ir_invited_by = None, ir_role = (if ro = [] then ''user'' else ro), ir_created_at = VStr (FormatSQLTimestamp (ii_now io)),
      ir_expires_at = VStr (FormatSQLTimestamp ?x), ir_used_by = None, ir_used_at = VNil, ir_max_uses = 1, ir_use_count = 0\<rparr>"
  have "t' = \<lparr>it_next = it_next t + 1, it_rows = it_rows t @ [?r]\<rparr> \<and>
      invite = \<lparr>iv_ID = it_next t, iv_Token = tok, iv_Username = u, iv_Email = e, iv_Role = (if ro = [] then ''user'' else ro),
        iv_CreatedBy = 0, iv_CreatedAt = ii_built io, iv_ExpiresAt = ?x, iv_MaxUses = 1, iv_UseCount = 0, iv_UsedAt = None\<rparr>"
    using assms unfolding CreateInvite_def Let_def tok(1) using tok(2-) by (simp split: if_split_asm)
  then have rows: "it_rows t' = it_rows t @ [?r]" "iv_ExpiresAt invite = ?x" "iv_Token invite = tok" by simp_all
  have "sql_lookup ir_code (hash tok) (it_rows t') = Some ?r"
    using sql_lookup_new [of "it_rows t" ir_code ?r] tok(4) rows(1) by auto
  then show ?thesis using tok rows(2,3) by simp
qed

text \<open>
  An invitation is good for one use: from its creation until its expiry (rounded down to the second)
  \<open>VerifyInvite\<close> accepts the token and returns the name, address and role it was made for; after the
  expiry, or once it is marked as used, the token is refused.
\<close>

lemma invite_lifecycle:
  assumes create: "CreateInvite hash io u e ro days t = (t', Inr invite)"
    and years: "0 \<le> year utc (iv_ExpiresAt invite)" "year utc (iv_ExpiresAt invite) \<le> 9999"
  shows "(\<forall>now. if iv_ExpiresAt invite - iv_ExpiresAt invite mod second_ns < now
        then VerifyInvite hash True True now (iv_Token invite) t' = Inl InviteExpired
        else (\<exists>v. VerifyInvite hash True True now (iv_Token invite) t' = Inr v \<and> iv_Username v = u \<and> iv_Email v = e \<and>
                iv_Role v = (if ro = [] then ''user'' else ro))) \<and>
    (\<forall>now used by'. \<exists>err. VerifyInvite hash True True now (iv_Token invite)
        (fst (MarkInviteUsed hash True True used (iv_Token invite) by' t')) = Inl err \<and> err \<in> {InviteExpired, InviteUsed})"
proof -
  obtain r where r: "sql_lookup ir_code (hash (iv_Token invite)) (it_rows t') = Some r" "ir_username r = Some u"
      "ir_email r = Some e" "ir_role r = (if ro = [] then ''user'' else ro)"
      "ir_expires_at r = VStr (FormatSQLTimestamp (iv_ExpiresAt invite))" "ir_used_at r = VNil" "ir_max_uses r = 1"
      "ir_use_count r = 0"
    using CreateInvite_row [OF create] by blast
  have x: "ParseStoredTimestamp (ir_expires_at r) = Some (iv_ExpiresAt invite - iv_ExpiresAt invite mod second_ns)"
    using stored_text_reads_back [OF years] r(5) by simp
  have nil: "ParseStoredTimestamp VNil = None" by (simp add: ParseStoredTimestamp_def)
  have code: "ir_code r = hash (iv_Token invite)" using r(1) by (auto dest: sql_lookup_Some)
  have "sql_lookup ir_code (hash (iv_Token invite))
      (it_rows (fst (MarkInviteUsed hash True True used (iv_Token invite) by' t'))) =
      Some (r\<lparr>ir_used_by := Some by', ir_used_at := VStr (FormatSQLTimestamp used), ir_use_count := ir_use_count r + 1\<rparr>)" for used by'
    using r(1) code by (simp add: MarkInviteUsed_def sql_update_lookup)
  with r x nil show ?thesis
    by (auto simp: VerifyInvite_def GetInviteByToken_def get_invite_def invite_view_def)
qed

definition invite_io_ok :: invite_io where
  "invite_io_ok = \<lparr>ii_schema_ok = True, ii_random = Some ''abc'', ii_expiry_base = 1700000000 * second_ns,
     ii_now = 1700000000 * second_ns, ii_built = 1700000000 * second_ns, ii_insert_ok = True, ii_id_ok = True\<rparr>"

lemma invite_lifecycle_example:
  "\<exists>invite t'. CreateInvite id invite_io_ok ''ann'' ''ann@a.org'' [] 7 \<lparr>it_next = 1, it_rows = []\<rparr> = (t', Inr invite) \<and>
     (\<exists>v. VerifyInvite id True True (1700000001 * second_ns) (iv_Token invite) t' = Inr v \<and> iv_Role v = ''user'')"
proof -
  obtain t' invite where c: "CreateInvite id invite_io_ok ''ann'' ''ann@a.org'' [] 7 \<lparr>it_next = 1, it_rows = []\<rparr> = (t', Inr invite)"
    by (simp add: CreateInvite_def invite_io_ok_def GenerateSecureToken_def Let_def)
  have x: "iv_ExpiresAt invite = 1700604800 * second_ns"
    using CreateInvite_row [OF c] by (auto simp: invite_io_ok_def wrap64_def hour_ns_def minute_ns_def second_ns_def)
  have y: "year utc (1700604800 * second_ns) = 2023" by code_simp
  have "\<not> 1700604800 * second_ns - 1700604800 * second_ns mod second_ns < 1700000001 * second_ns" by code_simp
  moreover have years: "0 \<le> year utc (iv_ExpiresAt invite)" "year utc (iv_ExpiresAt invite) \<le> 9999" using x y by simp_all
  moreover have "if 1700604800 * second_ns - 1700604800 * second_ns mod second_ns < 1700000001 * second_ns
      then VerifyInvite id True True (1700000001 * second_ns) (iv_Token invite) t' = Inl InviteExpired
      else (\<exists>v. VerifyInvite id True True (1700000001 * second_ns) (iv_Token invite) t' = Inr v \<and>
        iv_Username v = ''ann'' \<and> iv_Email v = ''ann@a.org'' \<and> iv_Role v = (if [] = [] then ''user'' else []))"
    using invite_lifecycle [OF c years] unfolding x by (meson)
  ultimately show ?thesis using c by (simp del: mod_mult_self2_is_0) blast
qed

text \<open>The lifetime is a 64-bit duration: beyond 106751 days it wraps round and the invitation has expired when it is made.\<close>

lemma invite_lifetime_overflow: "wrap64 (wrap64 (106752 * 24) * hour_ns) < 0"
  by code_simp

end
