(* ===== verification/Go_Regexp.thy ===== *)
theory Go_Regexp
  imports Go_Prelude
begin

text \<open>
  The part of package \<^verbatim>\<open>regexp\<close> the validators use: classes of ASCII characters, sequence, option and
  repetition, anchored or searched for anywhere. A pattern is matched by consuming the text one byte at a
  time; \<open>rx_accepts_iff\<close> relates this to the language of the pattern, and the lemmas after it give that
  language for the shapes the patterns of the program have. An ASCII byte never occurs inside a longer
  rune, so a class of ASCII characters can be matched on bytes, and a rune outside the class is a byte
  outside it.
\<close>

datatype rx =
    NoMatchRx
  | EmptyRx
  | Class "char \<Rightarrow> bool"
  | Then rx rx
  | OrElse rx rx
  | Repeat rx

fun rx_empty :: "rx \<Rightarrow> bool" where
  "rx_empty NoMatchRx = False"
| "rx_empty EmptyRx = True"
| "rx_empty (Class P) = False"
| "rx_empty (Then r q) = (rx_empty r \<and> rx_empty q)"
| "rx_empty (OrElse r q) = (rx_empty r \<or> rx_empty q)"
| "rx_empty (Repeat r) = True"

text \<open>What is left to match after one byte.\<close>

fun rx_after :: "char \<Rightarrow> rx \<Rightarrow> rx" where
  "rx_after c NoMatchRx = NoMatchRx"
| "rx_after c EmptyRx = NoMatchRx"
| "rx_after c (Class P) = (if P c then EmptyRx else NoMatchRx)"
| "rx_after c (Then r q) =
     (if rx_empty r then OrElse (Then (rx_after c r) q) (rx_after c q) else Then (rx_after c r) q)"
| "rx_after c (OrElse r q) = OrElse (rx_after c r) (rx_after c q)"
| "rx_after c (Repeat r) = Then (rx_after c r) (Repeat r)"

fun rx_accepts :: "rx \<Rightarrow> string \<Rightarrow> bool" where
  "rx_accepts r [] = rx_empty r"
| "rx_accepts r (c # s) = rx_accepts (rx_after c r) s"

section \<open>The language of a pattern\<close>

inductive rx_lang :: "rx \<Rightarrow> string \<Rightarrow> bool" where
  empty: "rx_lang EmptyRx []"
| one: "P c \<Longrightarrow> rx_lang (Class P) [c]"
| thn: "rx_lang r a \<Longrightarrow> rx_lang q b \<Longrightarrow> rx_lang (Then r q) (a @ b)"
| left: "rx_lang r a \<Longrightarrow> rx_lang (OrElse r q) a"
| right: "rx_lang q a \<Longrightarrow> rx_lang (OrElse r q) a"
| stop: "rx_lang (Repeat r) []"
| more: "rx_lang r a \<Longrightarrow> rx_lang (Repeat r) b \<Longrightarrow> rx_lang (Repeat r) (a @ b)"

inductive_simps rx_lang_simps [simp]:
  "rx_lang NoMatchRx s" "rx_lang EmptyRx s" "rx_lang (Class P) s" "rx_lang (OrElse r q) s"

inductive_simps rx_lang_then: "rx_lang (Then r q) s"

lemma rx_empty_iff: "rx_empty r \<longleftrightarrow> rx_lang r []"
  by (induction r) (auto simp: rx_lang_then intro: rx_lang.stop)

lemma repeat_cons:
  assumes "rx_lang (Repeat r) s"
  shows "s = [] \<or> (\<exists>a b. s = a @ b \<and> a \<noteq> [] \<and> rx_lang r a \<and> rx_lang (Repeat r) b)"
  using assms
proof (induction "Repeat r" s rule: rx_lang.induct)
  case (more a b)
  then show ?case by (cases "a = []") auto
qed simp

lemma rx_after_iff: "rx_lang (rx_after c r) s \<longleftrightarrow> rx_lang r (c # s)"
proof (induction r arbitrary: s)
  case (Then r q)
  then show ?case by (auto simp: rx_lang_then rx_empty_iff Cons_eq_append_conv)
next
  case (Repeat r)
  have "rx_lang (Repeat r) (c # s)" if "rx_lang r (c # a)" "rx_lang (Repeat r) b" "s = a @ b" for a b
    using rx_lang.more [OF that(1,2)] that(3) by simp
  moreover have "\<exists>a b. s = a @ b \<and> rx_lang r (c # a) \<and> rx_lang (Repeat r) b" if "rx_lang (Repeat r) (c # s)"
    using repeat_cons [OF that] by (auto simp: Cons_eq_append_conv)
  ultimately show ?case by (auto simp: rx_lang_then Repeat)
qed auto

lemma rx_accepts_iff: "rx_accepts r s \<longleftrightarrow> rx_lang r s"
  by (induction s arbitrary: r) (simp_all add: rx_empty_iff rx_after_iff)

section \<open>The shapes of the program's patterns\<close>

text \<open>\<open>MatchString\<close> of a pattern without anchors, with \<^verbatim>\<open>^\<close> only and with \<^verbatim>\<open>$\<close> only.\<close>

definition AnyText :: rx where
  "AnyText = Repeat (Class (\<lambda>c. True))"

definition rx_search :: "rx \<Rightarrow> string \<Rightarrow> bool" where
  "rx_search r s = rx_accepts (Then AnyText (Then r AnyText)) s"

definition rx_starts :: "rx \<Rightarrow> string \<Rightarrow> bool" where
  "rx_starts r s = rx_accepts (Then r AnyText) s"

definition rx_ends :: "rx \<Rightarrow> string \<Rightarrow> bool" where
  "rx_ends r s = rx_accepts (Then AnyText r) s"

text \<open>\<^verbatim>\<open>[...]+\<close> and \<^verbatim>\<open>[...]{2,}\<close>.\<close>

definition Some1 :: "(char \<Rightarrow> bool) \<Rightarrow> rx" where
  "Some1 P = Then (Class P) (Repeat (Class P))"

definition Some2 :: "(char \<Rightarrow> bool) \<Rightarrow> rx" where
  "Some2 P = Then (Class P) (Some1 P)"

lemma rx_lang_repeat_class [simp]: "rx_lang (Repeat (Class P)) s \<longleftrightarrow> (\<forall>c\<in>set s. P c)"
proof
  assume "rx_lang (Repeat (Class P)) s"
  then show "\<forall>c\<in>set s. P c" by (induction "Repeat (Class P)" s rule: rx_lang.induct) auto
next
  assume "\<forall>c\<in>set s. P c"
  then show "rx_lang (Repeat (Class P)) s"
  proof (induction s)
    case (Cons c s)
    then show ?case using rx_lang.more [OF rx_lang.one [of P c], of s] by simp
  qed (rule rx_lang.stop)
qed

lemma rx_lang_any [simp]: "rx_lang AnyText s"
  by (simp add: AnyText_def)

lemma rx_lang_class_then: "rx_lang (Then (Class P) r) s \<longleftrightarrow> (\<exists>c t. s = c # t \<and> P c \<and> rx_lang r t)"
  unfolding rx_lang_then rx_lang_simps by (metis append_Cons append_Nil)

lemma rx_lang_then_class: "rx_lang (Then r (Class P)) s \<longleftrightarrow> (\<exists>t c. s = t @ [c] \<and> rx_lang r t \<and> P c)"
  by (auto simp: rx_lang_then)

lemma rx_lang_Some1 [simp]: "rx_lang (Some1 P) s \<longleftrightarrow> s \<noteq> [] \<and> (\<forall>c\<in>set s. P c)"
  by (cases s) (auto simp: Some1_def rx_lang_class_then)

lemma rx_lang_Some2 [simp]: "rx_lang (Some2 P) s \<longleftrightarrow> 2 \<le> length s \<and> (\<forall>c\<in>set s. P c)"
  by (cases s) (auto simp: Some2_def rx_lang_class_then Suc_le_eq)

lemma rx_search_class [simp]: "rx_search (Class P) s \<longleftrightarrow> (\<exists>c\<in>set s. P c)"
  unfolding rx_search_def rx_accepts_iff rx_lang_then [of AnyText] rx_lang_class_then
  by simp (metis in_set_conv_decomp)

lemma rx_starts_class [simp]: "rx_starts (Class P) s \<longleftrightarrow> s \<noteq> [] \<and> P (hd s)"
  unfolding rx_starts_def rx_accepts_iff rx_lang_class_then by (cases s) auto

lemma rx_ends_class [simp]: "rx_ends (Class P) s \<longleftrightarrow> s \<noteq> [] \<and> P (last s)"
  unfolding rx_ends_def rx_accepts_iff rx_lang_then_class by (cases s rule: rev_cases) auto

end
