(* ===== verification/User_Names.thy ===== *)
theory User_Names
  imports Go_Regexp Go_Path_Match
begin

text \<open>
  Names and addresses of accounts: \<^verbatim>\<open>src/util/username.go\<close>, \<^verbatim>\<open>src/util/blocklist.go\<close> and
  \<^verbatim>\<open>src/util/email.go\<close>. The regular expressions are written with the constructors of \<^verbatim>\<open>Go_Regexp\<close>. The
  lower case of runes beyond ASCII (the Unicode tables) is the parameter \<open>lo\<close>.
\<close>

section \<open>Lower case\<close>

text \<open>\<open>utf8.AppendRune\<close>; surrogates and numbers out of range become U+FFFD.\<close>

definition encode_rune :: "nat \<Rightarrow> string" where
  "encode_rune r =
     (if r < 128 then [char_of r]
      else if r < 2048 then map char_of [192 + r div 64, 128 + r mod 64]
      else if 55296 \<le> r \<and> r \<le> 57343 \<or> 1114111 < r then map char_of [239, 191, 189 :: nat]
      else if r < 65536 then map char_of [224 + r div 4096, 128 + r div 64 mod 64, 128 + r mod 64]
      else map char_of [240 + r div 262144, 128 + r div 4096 mod 64, 128 + r div 64 mod 64, 128 + r mod 64])"

function decode_runes :: "string \<Rightarrow> nat list" where
  "decode_runes s = (if s = [] then [] else fst (decode_rune s) # decode_runes (drop (snd (decode_rune s)) s))"
  by pat_completeness auto
termination
proof (relation "measure length", simp)
  fix s :: string
  assume "s \<noteq> []"
  then show "(drop (snd (decode_rune s)) s, s) \<in> measure length" using decode_rune_width [of s] by auto
qed

declare decode_runes.simps [simp del]

text \<open>\<open>strings.ToLower\<close>: every rune is replaced by its lower case, an invalid byte by U+FFFD.\<close>

definition lower_rune :: "(nat \<Rightarrow> nat) \<Rightarrow> nat \<Rightarrow> nat" where
  "lower_rune lo r = (if 65 \<le> r \<and> r \<le> 90 then r + 32 else if r < 128 then r else lo r)"

definition ToLower :: "(nat \<Rightarrow> nat) \<Rightarrow> string \<Rightarrow> string" where
  "ToLower lo s = concat (map (\<lambda>r. encode_rune (lower_rune lo r)) (decode_runes s))"

section \<open>The blocklist\<close>

definition UsernameBlocklist :: "string list" where
  "UsernameBlocklist = [
    ''admin'', ''administrator'', ''root'', ''system'', ''sysadmin'', ''superuser'', ''master'', ''owner'',
    ''operator'', ''manager'', ''moderator'', ''mod'', ''staff'', ''support'', ''helpdesk'', ''help'',
    ''service'', ''daemon'', ''server'', ''host'', ''node'', ''cluster'', ''api'', ''www'', ''web'', ''mail'',
    ''email'', ''smtp'', ''ftp'', ''ssh'', ''dns'', ''proxy'', ''gateway'', ''router'', ''firewall'',
    ''localhost'', ''local'', ''internal'', ''external'', ''public'', ''private'', ''network'', ''database'',
    ''db'', ''cache'', ''redis'', ''mysql'', ''postgres'', ''mongodb'', ''elastic'', ''nginx'', ''apache'',
    ''docker'', ''app'', ''application'', ''bot'', ''robot'', ''crawler'', ''spider'', ''scraper'',
    ''webhook'', ''callback'', ''cron'', ''scheduler'', ''worker'', ''queue'', ''job'', ''task'', ''process'',
    ''service'', ''microservice'', ''lambda'', ''function'', ''auth'', ''authentication'', ''login'',
    ''logout'', ''signin'', ''signout'', ''signup'', ''register'', ''password'', ''passwd'', ''token'',
    ''oauth'', ''sso'', ''saml'', ''ldap'', ''kerberos'', ''security'', ''secure'', ''ssl'', ''tls'',
    ''certificate'', ''cert'', ''key'', ''secret'', ''credential'', ''session'', ''guest'', ''anonymous'',
    ''anon'', ''user'', ''users'', ''member'', ''members'', ''subscriber'', ''editor'', ''author'',
    ''contributor'', ''reviewer'', ''auditor'', ''analyst'', ''developer'', ''dev'', ''devops'', ''engineer'',
    ''architect'', ''designer'', ''tester'', ''qa'', ''billing'', ''finance'', ''legal'', ''hr'', ''sales'',
    ''marketing'', ''ceo'', ''cto'', ''cfo'', ''coo'', ''founder'', ''cofounder'', ''account'', ''accounts'',
    ''profile'', ''profiles'', ''settings'', ''config'', ''configuration'', ''dashboard'', ''panel'',
    ''console'', ''portal'', ''home'', ''index'', ''main'', ''default'', ''null'', ''nil'', ''undefined'',
    ''void'', ''true'', ''false'', ''test'', ''debug'', ''demo'', ''example'', ''sample'', ''temp'',
    ''temporary'', ''tmp'', ''backup'', ''archive'', ''log'', ''logs'', ''audit'', ''report'', ''reports'',
    ''analytics'', ''stats'', ''status'', ''api'', ''rest'', ''graphql'', ''grpc'', ''websocket'', ''ws'',
    ''wss'', ''http'', ''https'', ''endpoint'', ''endpoints'', ''route'', ''routes'', ''path'', ''url'',
    ''uri'', ''callback'', ''hook'', ''hooks'', ''event'', ''events'', ''stream'', ''blog'', ''news'',
    ''article'', ''articles'', ''post'', ''posts'', ''page'', ''pages'', ''feed'', ''rss'', ''atom'',
    ''sitemap'', ''robots'', ''favicon'', ''static'', ''assets'', ''images'', ''image'', ''img'', ''media'',
    ''upload'', ''uploads'', ''download'', ''downloads'', ''file'', ''files'', ''document'', ''documents'',
    ''contact'', ''message'', ''messages'', ''chat'', ''notification'', ''notifications'', ''alert'',
    ''alerts'', ''inbox'', ''outbox'', ''sent'', ''draft'', ''drafts'', ''spam'', ''abuse'', ''report'',
    ''flag'', ''block'', ''mute'', ''ban'', ''shop'', ''store'', ''cart'', ''checkout'', ''order'',
    ''orders'', ''invoice'', ''invoices'', ''payment'', ''payments'', ''subscription'', ''subscriptions'',
    ''plan'', ''plans'', ''pricing'', ''billing'', ''refund'', ''coupon'', ''discount'', ''follow'',
    ''follower'', ''followers'', ''following'', ''friend'', ''friends'', ''like'', ''likes'', ''share'',
    ''shares'', ''comment'', ''comments'', ''reply'', ''mention'', ''mentions'', ''tag'', ''tags'', ''group'',
    ''groups'', ''team'', ''teams'', ''community'', ''communities'', ''forum'', ''forums'', ''channel'',
    ''channels'', ''official'', ''verified'', ''trusted'', ''partner'', ''affiliate'', ''sponsor'', ''brand'',
    ''trademark'', ''copyright'', ''legal'', ''terms'', ''privacy'', ''policy'', ''policies'', ''tos'',
    ''eula'', ''gdpr'', ''dmca'', ''abuse'', ''fuck'', ''shit'', ''ass'', ''bitch'', ''bastard'', ''damn'',
    ''cunt'', ''dick'', ''penis'', ''vagina'', ''sex'', ''porn'', ''xxx'', ''nude'', ''naked'', ''nsfw'',
    ''kill'', ''murder'', ''death'', ''die'', ''suicide'', ''hate'', ''nazi'', ''hitler'', ''racist'',
    ''racism'', ''terrorist'', ''terrorism'', ''isis'', ''alqaeda'', ''0'', ''1'', ''123'', ''1234'',
    ''12345'', ''000'', ''111'', ''666'', ''911'', ''420'', ''69'', ''info'', ''noreply'', ''no-reply'',
    ''donotreply'', ''mailer'', ''postmaster'', ''webmaster'', ''hostmaster'', ''abuse'', ''spam'', ''junk'',
    ''trash'', ''wthr'', ''webappsgo'']"

definition criticalSubstringTerms :: "string list" where
  "criticalSubstringTerms = [''admin'', ''root'', ''system'', ''mod'', ''official'', ''verified'']"

definition suffix_char :: "char \<Rightarrow> bool" where
  "suffix_char c \<longleftrightarrow> is_digit c \<or> c = CHR ''-'' \<or> c = CHR ''_'' \<or> c = CHR ''.''"

definition isSimpleSuffix :: "string \<Rightarrow> bool" where
  "isSimpleSuffix s \<longleftrightarrow> s = [] \<or> list_all suffix_char s"

text \<open>The loop over the blocklist that looks at what follows a blocked word.\<close>

definition blocked_with_suffix :: "(nat \<Rightarrow> nat) \<Rightarrow> string \<Rightarrow> string \<Rightarrow> bool" where
  "blocked_with_suffix lo username blocked =
     (let blockedLower = ToLower lo blocked in
      if list_ex (\<lambda>critical. blockedLower = critical) criticalSubstringTerms then False
      else if \<not> prefix blockedLower username then False
      else (let suffix = drop (length blockedLower) username in
            if suffix \<noteq> [] \<and> \<not> isSimpleSuffix suffix then False
            else suffix = [] \<or> isSimpleSuffix suffix))"

definition IsUsernameBlocked :: "(nat \<Rightarrow> nat) \<Rightarrow> string \<Rightarrow> bool" where
  "IsUsernameBlocked lo email =
     (let parts = split_char CHR ''@'' email in
      if length parts < 2 \<or> parts ! 0 = [] then True
      else
        (let username = ToLower lo (trimSpace (parts ! 0)) in
         if username = [] then True
         else if list_ex (\<lambda>blocked. username = ToLower lo blocked) UsernameBlocklist then True
         else if list_ex (\<lambda>critical. contains critical username) criticalSubstringTerms then True
         else list_ex (blocked_with_suffix lo username) UsernameBlocklist))"

definition GetBlocklistSize :: int where
  "GetBlocklistSize = int (length UsernameBlocklist)"

section \<open>Usernames\<close>

definition MinUsernameLength :: nat where "MinUsernameLength = 2"

definition MaxUsernameLength :: nat where "MaxUsernameLength = 39"

definition az :: "char \<Rightarrow> bool" where
  "az c \<longleftrightarrow> 97 \<le> (of_char c :: nat) \<and> (of_char c :: nat) \<le> 122"

definition upper_AZ :: "char \<Rightarrow> bool" where
  "upper_AZ c \<longleftrightarrow> 65 \<le> (of_char c :: nat) \<and> (of_char c :: nat) \<le> 90"

definition az09 :: "char \<Rightarrow> bool" where
  "az09 c \<longleftrightarrow> az c \<or> is_digit c"

definition usernameRegex :: rx where
  "usernameRegex =
     Then (Class az09)
       (OrElse (Then (Repeat (Class (\<lambda>c. az09 c \<or> c = CHR ''-''))) (Class az09)) EmptyRx)"

datatype username_error =
    SurroundingSpace
  | UppercaseLetter
  | UsernameTooShort
  | UsernameTooLong
  | BadStart
  | HyphenAtEnd
  | BadCharacter
  | BadFormat
  | ConsecutiveHyphens
  | ReservedUsername

definition ValidateUsername :: "(nat \<Rightarrow> nat) \<Rightarrow> string \<Rightarrow> username_error option" where
  "ValidateUsername lo username =
     (if username \<noteq> trimSpace username then Some SurroundingSpace
      else if rx_search (Class upper_AZ) username then Some UppercaseLetter
      else if length username < MinUsernameLength then Some UsernameTooShort
      else if length username > MaxUsernameLength then Some UsernameTooLong
      else if \<not> rx_accepts usernameRegex username then
        (if \<not> rx_starts (Class az09) username then Some BadStart
         else if rx_ends (Class (\<lambda>c. c = CHR ''-'')) username then Some HyphenAtEnd
         else if rx_search (Class (\<lambda>c. \<not> (az09 c \<or> c = CHR ''-''))) username then Some BadCharacter
         else Some BadFormat)
      else if contains ''--'' username then Some ConsecutiveHyphens
      else if IsUsernameBlocked lo (username @ ''@example.com'') then Some ReservedUsername
      else None)"

definition NormalizeUsername :: "(nat \<Rightarrow> nat) \<Rightarrow> string \<Rightarrow> string" where
  "NormalizeUsername lo username = ToLower lo (trimSpace username)"

definition phone_char :: "char \<Rightarrow> bool" where
  "phone_char c \<longleftrightarrow> is_digit c \<or> c = CHR ''+''"

text \<open>The result is whether the number is accepted.\<close>

definition ValidatePhone :: "string \<Rightarrow> bool" where
  "ValidatePhone phone =
     (if phone = [] then True
      else (let cleaned = filter phone_char phone in \<not> (length cleaned < 10 \<or> length cleaned > 15)))"

definition NormalizePhone :: "string \<Rightarrow> string" where
  "NormalizePhone phone = (if phone = [] then [] else filter phone_char phone)"

section \<open>E-mail addresses\<close>

definition localPartRegex :: rx where
  "localPartRegex = Some1 (\<lambda>c. az09 c \<or> c \<in> set ''.+_-'')"

definition domainRegex :: rx where
  "domainRegex =
     Then (Class az09) (Then (Repeat (Class (\<lambda>c. az09 c \<or> c \<in> set ''.-'')))
       (Then (Class az09) (Then (Class (\<lambda>c. c = CHR ''.'')) (Some2 az))))"

definition singleCharDomainRegex :: rx where
  "singleCharDomainRegex = Then (Class az09) (Then (Class (\<lambda>c. c = CHR ''.'')) (Some2 az))"

definition EmailDomainBlocklist :: "string list" where
  "EmailDomainBlocklist = [
    ''tempmail.com'', ''throwaway.email'', ''guerrillamail.com'', ''mailinator.com'', ''10minutemail.com'',
    ''trashmail.com'', ''fakeinbox.com'', ''sharklasers.com'', ''guerrillamail.info'', ''grr.la'',
    ''spam4.me'', ''temp-mail.org'', ''disposablemail.com'', ''yopmail.com'', ''maildrop.cc'',
    ''getairmail.com'', ''mohmal.com'', ''tempail.com'', ''discard.email'', ''mailnesia.com'']"

datatype email_error =
    ErrEmailTooLong
  | ErrEmailInvalidFormat
  | ErrEmailLocalPartLength
  | ErrEmailLocalPartDot
  | ErrEmailConsecutiveDots
  | ErrEmailDomainLength
  | ErrEmailDomainNoTLD
  | ErrEmailLocalPartChars
  | ErrEmailDomainFormat
  | ErrEmailDisposableDomain

definition NormalizeEmail :: "(nat \<Rightarrow> nat) \<Rightarrow> string \<Rightarrow> string" where
  "NormalizeEmail lo email = trimSpace (ToLower lo email)"

definition ValidateEmail :: "(nat \<Rightarrow> nat) \<Rightarrow> string \<Rightarrow> email_error option" where
  "ValidateEmail lo email0 =
     (let email = trimSpace (ToLower lo email0); parts = split_char CHR ''@'' email in
      if length email > 254 then Some ErrEmailTooLong
      else if length parts \<noteq> 2 then Some ErrEmailInvalidFormat
      else
        (let local = parts ! 0; domain = parts ! 1 in
         if length local = 0 \<or> length local > 64 then Some ErrEmailLocalPartLength
         else if prefix ''.'' local \<or> suffix ''.'' local then Some ErrEmailLocalPartDot
         else if contains ''..'' local then Some ErrEmailConsecutiveDots
         else if length domain = 0 \<or> length domain > 255 then Some ErrEmailDomainLength
         else if \<not> contains ''.'' domain then Some ErrEmailDomainNoTLD
         else if \<not> rx_accepts localPartRegex local then Some ErrEmailLocalPartChars
         else if \<not> rx_accepts domainRegex domain \<and> \<not> rx_accepts singleCharDomainRegex domain
         then Some ErrEmailDomainFormat
         else None))"

definition ValidateEmailWithBlocklist :: "(nat \<Rightarrow> nat) \<Rightarrow> string \<Rightarrow> email_error option" where
  "ValidateEmailWithBlocklist lo email0 =
     (case ValidateEmail lo email0 of
        Some err \<Rightarrow> Some err
      | None \<Rightarrow>
          (let email = trimSpace (ToLower lo email0); parts = split_char CHR ''@'' email in
           if length parts \<noteq> 2 then Some ErrEmailInvalidFormat
           else if list_ex (\<lambda>blocked. parts ! 1 = blocked) EmailDomainBlocklist then Some ErrEmailDisposableDomain
           else None))"

text \<open>A byte converted to a string is the rune of that number, so \<^verbatim>\<open>string(local[0])\<close> re-encodes a byte beyond ASCII.\<close>

definition MaskEmail :: "(nat \<Rightarrow> nat) \<Rightarrow> string \<Rightarrow> string" where
  "MaskEmail lo email0 =
     (let email = NormalizeEmail lo email0; parts = split_char CHR ''@'' email in
      if length parts \<noteq> 2 then ''***''
      else
        (let local = parts ! 0; domain = parts ! 1; domainParts = split_char CHR ''.'' domain;
             maskedLocal =
               (if length local \<le> 2 then replicate (length local) CHR ''*''
                else encode_rune (of_char (local ! 0)) @ replicate (length local - 2) CHR ''*'' @
                     encode_rune (of_char (local ! (length local - 1))));
             maskedDomain =
               (if 2 \<le> length domainParts
                then (let firstPart = domainParts ! 0; tld = domainParts ! (length domainParts - 1) in
                      if length firstPart \<le> 1 then firstPart @ ''.'' @ tld
                      else encode_rune (of_char (firstPart ! 0)) @ replicate (length firstPart - 1) CHR ''*'' @ ''.'' @ tld)
                else replicate (length domain) CHR ''*'')
         in maskedLocal @ ''@'' @ maskedDomain))"

section \<open>Lower case of ASCII text\<close>

lemma decode_rune_ascii: "(of_char c :: nat) < 128 \<Longrightarrow> decode_rune (c # s) = (of_char c, 1)"
  by (simp add: decode_rune_def)

lemma encode_rune_ascii: "(of_char c :: nat) < 128 \<Longrightarrow> encode_rune (of_char c) = [c]"
  by (simp add: encode_rune_def)

lemma decode_runes_ascii: "\<forall>c\<in>set s. (of_char c :: nat) < 128 \<Longrightarrow> decode_runes s = map of_char s"
  by (induction s) (subst decode_runes.simps, simp add: decode_rune_ascii)+

lemma encode_lower_ascii: "(of_char c :: nat) < 128 \<Longrightarrow> encode_rune (lower_rune lo (of_char c)) = [lower_ascii c]"
  by (auto simp: lower_rune_def lower_ascii_def encode_rune_def)

lemma ToLower_ascii: "\<forall>c\<in>set s. (of_char c :: nat) < 128 \<Longrightarrow> ToLower lo s = map lower_ascii s"
proof (induction s)
  case (Cons c s)
  then show ?case by (simp add: ToLower_def decode_runes_ascii encode_lower_ascii)
qed (simp add: ToLower_def decode_runes.simps)

definition plain :: "char \<Rightarrow> bool" where
  "plain c \<longleftrightarrow> ascii_graphic c \<and> \<not> upper_AZ c"

lemma plain_ascii: "plain c \<Longrightarrow> (of_char c :: nat) < 128 \<and> lower_ascii c = c"
  by (auto simp: plain_def ascii_graphic_def upper_AZ_def lower_ascii_def)

lemma ToLower_plain: "\<forall>c\<in>set s. plain c \<Longrightarrow> ToLower lo s = s"
proof -
  assume s: "\<forall>c\<in>set s. plain c"
  then have "ToLower lo s = map lower_ascii s" using plain_ascii by (intro ToLower_ascii) blast
  also have "\<dots> = s" using s plain_ascii by (intro map_idI) blast
  finally show ?thesis .
qed

lemma trimSpace_plain: "\<forall>c\<in>set s. plain c \<Longrightarrow> trimSpace s = s"
  by (cases "s = []") (auto intro!: trimSpace_ends_graphic simp: plain_def)

lemma az09_plain [simp]: "az09 c \<Longrightarrow> plain c"
  by (auto simp: az09_def az_def is_digit_def plain_def ascii_graphic_def upper_AZ_def)

lemma sign_plain [simp]:
  "plain CHR ''-''" "plain CHR ''.''" "plain CHR ''+''" "plain CHR ''_''" "plain CHR ''@''"
  by (simp_all add: plain_def ascii_graphic_def upper_AZ_def)

lemma not_az09_hyphen [simp]: "\<not> az09 CHR ''-''"
  by (simp add: az09_def az_def is_digit_def)

section \<open>Accepted usernames\<close>

lemma usernameRegex_iff:
  "rx_accepts usernameRegex s \<longleftrightarrow>
     s \<noteq> [] \<and> (\<forall>c\<in>set s. az09 c \<or> c = CHR ''-'') \<and> hd s \<noteq> CHR ''-'' \<and> last s \<noteq> CHR ''-''"
proof (cases s)
  case (Cons c t)
  then show ?thesis
    by (cases t rule: rev_cases) (auto simp: usernameRegex_def rx_accepts_iff rx_lang_class_then rx_lang_then_class)
qed (simp add: usernameRegex_def)

lemma az09_chars:
  "az09 CHR ''a''" "az09 CHR ''b''" "az09 CHR ''c''" "az09 CHR ''d''" "az09 CHR ''e''" "az09 CHR ''f''" "az09 CHR ''g''" "az09 CHR ''h''" "az09 CHR ''i''" "az09 CHR ''j''" "az09 CHR ''k''" "az09 CHR ''l''" "az09 CHR ''m''"
  "az09 CHR ''n''" "az09 CHR ''o''" "az09 CHR ''p''" "az09 CHR ''q''" "az09 CHR ''r''" "az09 CHR ''s''" "az09 CHR ''t''" "az09 CHR ''u''" "az09 CHR ''v''" "az09 CHR ''w''" "az09 CHR ''x''" "az09 CHR ''y''" "az09 CHR ''z''"
  "az09 CHR ''0''" "az09 CHR ''1''" "az09 CHR ''2''" "az09 CHR ''3''" "az09 CHR ''4''" "az09 CHR ''5''" "az09 CHR ''6''" "az09 CHR ''7''" "az09 CHR ''8''" "az09 CHR ''9''"
  by (simp_all add: az09_def az_def is_digit_def)

lemma blocklist_plain: "w \<in> set UsernameBlocklist \<Longrightarrow> list_all az09 w \<or> w = ''no-reply''"
proof -
  have "list_all (\<lambda>w. list_all az09 w \<or> w = ''no-reply'') UsernameBlocklist"
    by (simp only: UsernameBlocklist_def list.pred_inject az09_chars simp_thms)
  then show "w \<in> set UsernameBlocklist \<Longrightarrow> ?thesis" by (auto simp: list_all_iff)
qed

lemma blocklist_lower: "w \<in> set UsernameBlocklist \<Longrightarrow> ToLower lo w = w"
  using blocklist_plain [of w] by (intro ToLower_plain) (auto simp: list_all_iff az09_chars)

lemma contains_prefix: "prefix p s \<Longrightarrow> contains p s"
  by (cases s) auto

text \<open>
  What the blocklist reserves: every word of it, alone or followed by digits, hyphens, underscores and
  dots only, and every name that contains a critical term anywhere.
\<close>

definition reserved_name :: "string \<Rightarrow> bool" where
  "reserved_name u \<longleftrightarrow>
     (\<exists>b\<in>set UsernameBlocklist. \<exists>x. u = b @ x \<and> (\<forall>c\<in>set x. suffix_char c)) \<or>
     (\<exists>c\<in>set criticalSubstringTerms. contains c u)"

lemma blocked_with_suffix_iff:
  assumes "b \<in> set UsernameBlocklist"
  shows "blocked_with_suffix lo u b \<longleftrightarrow>
    b \<notin> set criticalSubstringTerms \<and> (\<exists>x. u = b @ x \<and> (\<forall>c\<in>set x. suffix_char c))"
  using blocklist_lower [OF assms, of lo]
  by (auto simp: blocked_with_suffix_def Let_def isSimpleSuffix_def list_all_iff list_ex_iff prefix_def)

lemma IsUsernameBlocked_iff:
  assumes u: "u \<noteq> []" "\<forall>c\<in>set u. plain c" "CHR ''@'' \<notin> set u" "CHR ''@'' \<notin> set d"
  shows "IsUsernameBlocked lo (u @ CHR ''@'' # d) \<longleftrightarrow> reserved_name u"
proof -
  have parts: "split_char CHR ''@'' (u @ CHR ''@'' # d) = [u, d]"
    using u(3,4) by (simp add: split_char_sep split_char_no_sep)
  have low: "ToLower lo (trimSpace u) = u" using u(2) by (simp add: trimSpace_plain ToLower_plain)
  have exact: "(\<exists>b\<in>set UsernameBlocklist. u = ToLower lo b) \<longleftrightarrow> u \<in> set UsernameBlocklist"
    by (auto simp: blocklist_lower)
  have word: "reserved_name u" if "u \<in> set UsernameBlocklist"
    using that by (auto simp: reserved_name_def intro!: bexI [of _ u])
  have crit: "contains b u" if "u = b @ x" for b x
    using that by (simp add: contains_prefix)
  have "IsUsernameBlocked lo (u @ CHR ''@'' # d) \<longleftrightarrow>
      u \<in> set UsernameBlocklist \<or> (\<exists>c\<in>set criticalSubstringTerms. contains c u) \<or>
      (\<exists>b\<in>set UsernameBlocklist. blocked_with_suffix lo u b)"
    using u(1) by (auto simp: IsUsernameBlocked_def parts low list_ex_iff simp flip: exact)
  also have "\<dots> \<longleftrightarrow> reserved_name u"
    using word crit unfolding reserved_name_def by (simp add: blocked_with_suffix_iff) blast
  finally show ?thesis .
qed

definition username_spec :: "string \<Rightarrow> bool" where
  "username_spec u \<longleftrightarrow>
     2 \<le> length u \<and> length u \<le> 39 \<and> (\<forall>c\<in>set u. az09 c \<or> c = CHR ''-'') \<and>
     hd u \<noteq> CHR ''-'' \<and> last u \<noteq> CHR ''-'' \<and> \<not> contains ''--'' u \<and> \<not> reserved_name u"

lemma username_chars:
  assumes "\<forall>c\<in>set u. az09 c \<or> c = CHR ''-''"
  shows "\<forall>c\<in>set u. plain c" "CHR ''@'' \<notin> set u" "\<not> rx_search (Class upper_AZ) u" "trimSpace u = u"
proof -
  show p: "\<forall>c\<in>set u. plain c" using assms by auto
  then show "trimSpace u = u" by (rule trimSpace_plain)
  show "\<not> rx_search (Class upper_AZ) u" using p by (auto simp: plain_def)
  show "CHR ''@'' \<notin> set u" using assms by (auto simp: az09_def az_def is_digit_def)
qed

lemma ValidateUsername_iff: "ValidateUsername lo u = None \<longleftrightarrow> username_spec u"
proof (cases "2 \<le> length u \<and> rx_accepts usernameRegex u")
  case True
  then have r: "\<forall>c\<in>set u. az09 c \<or> c = CHR ''-''" "u \<noteq> []" "hd u \<noteq> CHR ''-''" "last u \<noteq> CHR ''-''"
    by (auto simp: usernameRegex_iff)
  note c = username_chars [OF r(1)]
  have "IsUsernameBlocked lo (u @ ''@example.com'') \<longleftrightarrow> reserved_name u"
    by (rule IsUsernameBlocked_iff [OF r(2) c(1,2)]) simp
  with True r c show ?thesis
    by (auto simp: ValidateUsername_def username_spec_def MinUsernameLength_def MaxUsernameLength_def)
next
  case False
  then show ?thesis
    by (auto simp: ValidateUsername_def username_spec_def MinUsernameLength_def usernameRegex_iff)
qed

text \<open>
  \<open>ValidateUsername\<close> accepts exactly the names of 2 to 39 lower-case letters, digits and hyphens,
  without a hyphen at either end or two in a row, that are not reserved: no word of the blocklist, alone
  or with a suffix of digits and punctuation, and no name that contains a critical term.
\<close>

lemma ValidateUsername_accepts: "ValidateUsername lo u = None \<longleftrightarrow> username_spec u"
  by (rule ValidateUsername_iff)

text \<open>
  The last error of the format check is never given: a name that fails the pattern fails one of the three
  tests before it.
\<close>

lemma BadFormat_unreachable: "ValidateUsername lo u \<noteq> Some BadFormat"
  by (auto simp: ValidateUsername_def usernameRegex_iff MinUsernameLength_def)

lemma NormalizePhone_valid: "ValidatePhone phone \<Longrightarrow> ValidatePhone (NormalizePhone phone)"
  by (auto simp: ValidatePhone_def NormalizePhone_def Let_def)

section \<open>Accepted addresses\<close>

definition host_spec :: "string \<Rightarrow> bool" where
  "host_spec h \<longleftrightarrow> h \<noteq> [] \<and> az09 (hd h) \<and> az09 (last h) \<and> (\<forall>c\<in>set h. az09 c \<or> c \<in> set ''.-'')"

lemma domainRegex_iff:
  "rx_accepts domainRegex d \<or> rx_accepts singleCharDomainRegex d \<longleftrightarrow>
     (\<exists>h tld. d = h @ CHR ''.'' # tld \<and> host_spec h \<and> 2 \<le> length tld \<and> (\<forall>c\<in>set tld. az c))"
proof
  assume "rx_accepts domainRegex d \<or> rx_accepts singleCharDomainRegex d"
  then consider c m e tld where "d = (c # m @ [e]) @ CHR ''.'' # tld" "az09 c" "az09 e" "2 \<le> length tld"
      "\<forall>c\<in>set tld. az c" "\<forall>c\<in>set m. az09 c \<or> c \<in> set ''.-''"
    | c tld where "d = [c] @ CHR ''.'' # tld" "az09 c" "2 \<le> length tld" "\<forall>c\<in>set tld. az c"
    unfolding domainRegex_def singleCharDomainRegex_def rx_accepts_iff rx_lang_class_then
    by (auto simp: rx_lang_then [of "Repeat r" for r] rx_lang_class_then)
  then show "\<exists>h tld. d = h @ CHR ''.'' # tld \<and> host_spec h \<and> 2 \<le> length tld \<and> (\<forall>c\<in>set tld. az c)"
  proof cases
    case 1
    then have "host_spec (c # m @ [e])" by (auto simp: host_spec_def)
    with 1 show ?thesis by blast
  next
    case 2
    then have "host_spec [c]" by (auto simp: host_spec_def)
    with 2 show ?thesis by blast
  qed
next
  assume "\<exists>h tld. d = h @ CHR ''.'' # tld \<and> host_spec h \<and> 2 \<le> length tld \<and> (\<forall>c\<in>set tld. az c)"
  then obtain h tld where d: "d = h @ CHR ''.'' # tld" "host_spec h" "rx_lang (Some2 az) tld" by auto
  then have t: "rx_lang (Then (Class (\<lambda>c. c = CHR ''.'')) (Some2 az)) (CHR ''.'' # tld)"
    by (simp add: rx_lang_class_then)
  obtain c h' where h: "h = c # h'" "az09 c" using d(2) by (cases h) (auto simp: host_spec_def)
  show "rx_accepts domainRegex d \<or> rx_accepts singleCharDomainRegex d"
  proof (cases h' rule: rev_cases)
    case Nil
    then show ?thesis using d h t by (simp add: singleCharDomainRegex_def rx_accepts_iff rx_lang_class_then)
  next
    case (snoc m e)
    then have m: "\<forall>c\<in>set m. az09 c \<or> c \<in> set ''.-''" "az09 e" using d(2) h by (auto simp: host_spec_def)
    then have "rx_lang (Repeat (Class (\<lambda>c. az09 c \<or> c \<in> set ''.-''))) m" by simp
    moreover have "rx_lang (Then (Class az09) (Then (Class (\<lambda>c. c = CHR ''.'')) (Some2 az))) (e # CHR ''.'' # tld)"
      using m(2) t by (simp add: rx_lang_class_then [of az09])
    ultimately have "rx_accepts domainRegex (c # m @ e # CHR ''.'' # tld)"
      unfolding domainRegex_def rx_accepts_iff rx_lang_class_then [of az09 "Then (Repeat r) q" for r q]
      using h(2) by (blast intro: rx_lang.thn)
    then show ?thesis using d(1) h(1) snoc by simp
  qed
qed

definition address_parts :: "string \<Rightarrow> string \<Rightarrow> string \<Rightarrow> bool" where
  "address_parts local host tld \<longleftrightarrow>
     length (local @ CHR ''@'' # host @ CHR ''.'' # tld) \<le> 254 \<and>
     local \<noteq> [] \<and> length local \<le> 64 \<and> (\<forall>c\<in>set local. az09 c \<or> c \<in> set ''.+_-'') \<and>
     hd local \<noteq> CHR ''.'' \<and> last local \<noteq> CHR ''.'' \<and> \<not> contains ''..'' local \<and>
     host_spec host \<and> 2 \<le> length tld \<and> (\<forall>c\<in>set tld. az c)"

definition email_spec :: "string \<Rightarrow> bool" where
  "email_spec e \<longleftrightarrow> (\<exists>local host tld. e = local @ CHR ''@'' # host @ CHR ''.'' # tld \<and> address_parts local host tld)"

lemma prefix_char: "prefix [c] s \<longleftrightarrow> s \<noteq> [] \<and> hd s = c"
  by (cases s) auto

lemma suffix_char_last: "suffix [c] s \<longleftrightarrow> s \<noteq> [] \<and> last s = c"
  by (cases s rule: rev_cases) auto

lemma contains_char: "contains [c] s \<longleftrightarrow> c \<in> set s"
  by (induction s) (auto simp: prefix_char)

lemma not_at [simp]: "\<not> az CHR ''@''" "\<not> az09 CHR ''@''"
  by (simp_all add: az09_def az_def is_digit_def)

lemma az_plain: "az c \<Longrightarrow> plain c"
  by (simp add: az09_def)

lemma address_parts_no_at:
  assumes "address_parts l h t"
  shows "CHR ''@'' \<notin> set l" "CHR ''@'' \<notin> set (h @ CHR ''.'' # t)"
  using assms by (auto simp: address_parts_def host_spec_def)

lemma address_parts_plain: "address_parts l h t \<Longrightarrow> \<forall>c\<in>set (l @ CHR ''@'' # h @ CHR ''.'' # t). plain c"
  by (auto simp: address_parts_def host_spec_def az_plain)

lemma split_two:
  "length (split_char c s) = 2 \<longleftrightarrow> (\<exists>a b. s = a @ c # b \<and> c \<notin> set a \<and> c \<notin> set b)"
proof
  assume two: "length (split_char c s) = 2"
  then obtain a b where ab: "split_char c s = [a, b]"
    by (metis (no_types, lifting) One_nat_def length_0_conv length_Suc_conv numeral_2_eq_2)
  then have "s = a @ c # b" using join_split_char [of c s] by simp
  moreover have "c \<notin> set a" "c \<notin> set b" using split_char_parts [of _ c s] ab by auto
  ultimately show "\<exists>a b. s = a @ c # b \<and> c \<notin> set a \<and> c \<notin> set b" by blast
qed (auto simp: split_char_sep split_char_no_sep)

lemma email_spec_plain: "email_spec e \<Longrightarrow> \<forall>c\<in>set e. plain c"
  using address_parts_plain by (auto simp: email_spec_def)

lemma NormalizeEmail_plain: "\<forall>c\<in>set e. plain c \<Longrightarrow> NormalizeEmail lo e = e"
  by (simp add: NormalizeEmail_def ToLower_plain trimSpace_plain)

lemma ValidateEmail_split:
  assumes "NormalizeEmail lo e = l @ CHR ''@'' # d" "CHR ''@'' \<notin> set l" "CHR ''@'' \<notin> set d"
  shows "ValidateEmail lo e = None \<longleftrightarrow> email_spec (l @ CHR ''@'' # d)"
proof -
  have parts: "split_char CHR ''@'' (l @ CHR ''@'' # d) = [l, d]"
    using assms(2,3) by (simp add: split_char_sep split_char_no_sep)
  have loc: "rx_accepts localPartRegex l \<longleftrightarrow> l \<noteq> [] \<and> (\<forall>c\<in>set l. az09 c \<or> c \<in> set ''.+_-'')"
    by (simp add: localPartRegex_def rx_accepts_iff)
  have "ValidateEmail lo e = None \<longleftrightarrow>
      length (l @ CHR ''@'' # d) \<le> 254 \<and> l \<noteq> [] \<and> length l \<le> 64 \<and> hd l \<noteq> CHR ''.'' \<and> last l \<noteq> CHR ''.'' \<and>
      \<not> contains ''..'' l \<and> d \<noteq> [] \<and> length d \<le> 255 \<and> CHR ''.'' \<in> set d \<and> (\<forall>c\<in>set l. az09 c \<or> c \<in> set ''.+_-'') \<and>
      (rx_accepts domainRegex d \<or> rx_accepts singleCharDomainRegex d)"
    unfolding ValidateEmail_def Let_def NormalizeEmail_def [symmetric] assms(1) parts
    by (auto simp: loc prefix_char suffix_char_last contains_char)
  also have "\<dots> \<longleftrightarrow> (\<exists>h tld. d = h @ CHR ''.'' # tld \<and> address_parts l h tld)"
    unfolding domainRegex_iff address_parts_def by (rule iffI) fastforce+
  also have "\<dots> \<longleftrightarrow> email_spec (l @ CHR ''@'' # d)"
    unfolding email_spec_def
    using append_Cons_eq_iff [OF assms(2,3)] address_parts_no_at by (metis (no_types, lifting))
  finally show ?thesis .
qed

text \<open>
  \<open>ValidateEmail\<close> accepts exactly the texts whose normal form (lower case, surrounding space
  removed) is an address: at most 254 bytes, a local part of 1 to 64 allowed characters with no dot at
  either end and no two dots in a row, one at sign, a host that starts and ends with a letter or digit
  and a top-level domain of at least two letters. What was accepted is accepted again in its normal
  form, which is its own normal form.
\<close>

lemma ValidateEmail_accepts:
  "(ValidateEmail lo e = None \<longleftrightarrow> email_spec (NormalizeEmail lo e)) \<and>
   (ValidateEmail lo e = None \<longrightarrow>
      NormalizeEmail lo (NormalizeEmail lo e) = NormalizeEmail lo e \<and> ValidateEmail lo (NormalizeEmail lo e) = None)"
proof -
  have iff: "ValidateEmail lo e = None \<longleftrightarrow> email_spec (NormalizeEmail lo e)" for e
  proof (cases "\<exists>l d. NormalizeEmail lo e = l @ CHR ''@'' # d \<and> CHR ''@'' \<notin> set l \<and> CHR ''@'' \<notin> set d")
    case True
    then show ?thesis using ValidateEmail_split by metis
  next
    case False
    then have "length (split_char CHR ''@'' (NormalizeEmail lo e)) \<noteq> 2" by (simp add: split_two)
    then have "ValidateEmail lo e \<noteq> None" by (simp add: ValidateEmail_def NormalizeEmail_def Let_def)
    moreover have "\<not> email_spec (NormalizeEmail lo e)"
    proof
      assume "email_spec (NormalizeEmail lo e)"
      then obtain l h tld where "NormalizeEmail lo e = l @ CHR ''@'' # h @ CHR ''.'' # tld" "address_parts l h tld"
        unfolding email_spec_def by blast
      with address_parts_no_at [of l h tld] show False using False by blast
    qed
    ultimately show ?thesis by blast
  qed
  moreover have "NormalizeEmail lo (NormalizeEmail lo e) = NormalizeEmail lo e" if "ValidateEmail lo e = None"
    using that iff email_spec_plain NormalizeEmail_plain by blast
  ultimately show ?thesis by metis
qed

lemma ValidateEmail_accepts_example:
  "ValidateEmail id ''Ann.B@Example.org '' = None \<and> email_spec (NormalizeEmail id ''Ann.B@Example.org '') \<and>
   ValidateEmail id (NormalizeEmail id ''Ann.B@Example.org '') = None"
proof -
  have "ValidateEmail id ''Ann.B@Example.org '' = None" by code_simp
  with ValidateEmail_accepts [of id "''Ann.B@Example.org ''"] show ?thesis by blast
qed

text \<open>The pattern for domains lets empty labels and labels that start or end with a hyphen pass.\<close>

lemma ValidateEmail_empty_label:
  "ValidateEmail id ''ann@a..b.org'' = None" "ValidateEmail id ''ann@a.-b.org'' = None"
  by code_simp+

lemma ValidateEmailWithBlocklist_accepts:
  "ValidateEmailWithBlocklist lo e = None \<longleftrightarrow>
     ValidateEmail lo e = None \<and>
     (\<forall>l d. NormalizeEmail lo e = l @ CHR ''@'' # d \<and> CHR ''@'' \<notin> set l \<and> CHR ''@'' \<notin> set d \<longrightarrow>
        d \<notin> set EmailDomainBlocklist)"
proof (cases "length (split_char CHR ''@'' (NormalizeEmail lo e)) = 2")
  case True
  then obtain l d where n: "NormalizeEmail lo e = l @ CHR ''@'' # d" "CHR ''@'' \<notin> set l" "CHR ''@'' \<notin> set d"
    by (auto simp: split_two)
  then have "split_char CHR ''@'' (NormalizeEmail lo e) = [l, d]" by (simp add: split_char_sep split_char_no_sep)
  with n show ?thesis
    using append_Cons_eq_iff [OF n(2,3)]
    by (auto simp: ValidateEmailWithBlocklist_def NormalizeEmail_def list_ex_iff split: option.splits)
next
  case False
  then have "ValidateEmail lo e \<noteq> None" by (simp add: ValidateEmail_def NormalizeEmail_def Let_def)
  then show ?thesis by (auto simp: ValidateEmailWithBlocklist_def split: option.splits)
qed

section \<open>Masked addresses\<close>

text \<open>What \<open>MaskEmail\<close> shows of an address: lengths, the ends of the local part, the first letter and the last label of the domain.\<close>

definition mask_view :: "string \<Rightarrow> string \<Rightarrow> nat \<times> string \<times> nat \<times> string \<times> string" where
  "mask_view l d =
     (let ps = split_char CHR ''.'' d in
      (length l, (if length l \<le> 2 then [] else [hd l, last l]),
       (if 2 \<le> length ps then length (hd ps) else length d),
       (if 2 \<le> length ps then take 1 (hd ps) else []), (if 2 \<le> length ps then last ps else [])))"

text \<open>
  A masked address tells no more than it is meant to: two addresses that agree in the length of
  the local part and (when it is longer than two) in its first and last character, in the length and first
  character of the first label of the domain and in the top-level domain have the same mask.
\<close>

lemma MaskEmail_hides:
  assumes e: "NormalizeEmail lo e = l @ CHR ''@'' # d" "CHR ''@'' \<notin> set l" "CHR ''@'' \<notin> set d"
    and f: "NormalizeEmail lo f = k @ CHR ''@'' # c" "CHR ''@'' \<notin> set k" "CHR ''@'' \<notin> set c"
    and dots: "CHR ''.'' \<in> set d \<longleftrightarrow> CHR ''.'' \<in> set c"
    and same: "mask_view l d = mask_view k c"
  shows "MaskEmail lo e = MaskEmail lo f"
proof -
  have two: "2 \<le> length (split_char CHR ''.'' s) \<longleftrightarrow> CHR ''.'' \<in> set s" for s
  proof
    assume "2 \<le> length (split_char CHR ''.'' s)"
    then show "CHR ''.'' \<in> set s" using split_char_no_sep [of "CHR ''.''" s] by (cases "CHR ''.'' \<in> set s") auto
  next
    assume "CHR ''.'' \<in> set s"
    then obtain a b where s: "s = a @ CHR ''.'' # b" by (auto simp: in_set_conv_decomp)
    have "1 \<le> length (split_char CHR ''.'' x)" for x by (cases "split_char CHR ''.'' x") (auto dest: split_char_not_nil [THEN notE])
    from this [of a] this [of b] show "2 \<le> length (split_char CHR ''.'' s)" by (simp add: s split_char_sep)
  qed
  have parts: "split_char CHR ''@'' (l @ CHR ''@'' # d) = [l, d]" "split_char CHR ''@'' (k @ CHR ''@'' # c) = [k, c]"
    using e f by (simp_all add: split_char_sep split_char_no_sep)
  have len: "length l = length k" and "2 < length l \<Longrightarrow> hd l = hd k \<and> last l = last k"
    using same by (auto simp: mask_view_def Let_def split: if_splits)
  then have loc: "l ! 0 = k ! 0 \<and> l ! (length l - 1) = k ! (length l - 1)" if "2 < length l"
    using that hd_conv_nth [of l] hd_conv_nth [of k] last_conv_nth [of l] last_conv_nth [of k]
    by (cases "l = []"; cases "k = []") auto
  have dom: "length (split_char CHR ''.'' d ! 0) = length (split_char CHR ''.'' c ! 0) \<and>
      take 1 (split_char CHR ''.'' d ! 0) = take 1 (split_char CHR ''.'' c ! 0) \<and>
      split_char CHR ''.'' d ! (length (split_char CHR ''.'' d) - 1) =
      split_char CHR ''.'' c ! (length (split_char CHR ''.'' c) - 1)" if "CHR ''.'' \<in> set d"
    using same that dots by (simp add: mask_view_def Let_def two hd_conv_nth last_conv_nth)
  have first: "a ! 0 = b ! 0 \<and> (length a \<le> 1 \<longrightarrow> a = b)" if "length a = length b" "take 1 a = take 1 b" "a \<noteq> []"
    for a b :: string
    using that by (cases a; cases b) auto
  have nodot: "length d = length c" if "CHR ''.'' \<notin> set d"
    using same that dots by (simp add: mask_view_def Let_def two)
  show ?thesis
  proof (cases "CHR ''.'' \<in> set d")
    case True
    note dm = dom [OF True]
    show ?thesis
    proof (cases "split_char CHR ''.'' d ! 0 = []")
      case empty: True
      then show ?thesis
        using dm True dots loc len by (simp add: MaskEmail_def Let_def e(1) f(1) parts two)
    next
      case False
      with dm first [of "split_char CHR ''.'' d ! 0" "split_char CHR ''.'' c ! 0"] show ?thesis
        using True dots loc len by (simp add: MaskEmail_def Let_def e(1) f(1) parts two)
    qed
  next
    case False
    then show ?thesis using nodot [OF False] dots loc len by (simp add: MaskEmail_def Let_def e(1) f(1) parts two)
  qed
qed

end
