(* ===== verification/Login.thy ===== *)
theory Login
  imports Sessions Tokens User_Accounts Account_Tokens User_Names
begin

text \<open>
  Signing in, \<^verbatim>\<open>src/server/handler/auth_api.go\<close>, \<^verbatim>\<open>src/server/handler/auth.go\<close> and
  \<^verbatim>\<open>src/server/middleware/auth.go\<close>: the composition of the accounts, sessions, recovery keys, passkeys, API tokens and
  one-time tokens. The state is the users database, one field per table. What is not of this repository
  (Argon2, AES-GCM, TOTP, SHA-256, the Unicode case table, the JSON reader, the reading of times by the database driver) is collected in \<open>auth_env\<close>; the outcomes of
  the statements, the clock readings and random bytes of one request are collected in \<open>auth_io\<close>.
\<close>

section \<open>State\<close>

record world =
  w_users :: user_db
  w_sessions :: session_table
  w_keys :: key_table
  w_passkeys :: "int list"
  w_tokens :: token_table
  w_verifications :: ticket_table
  w_resets :: ticket_table
  w_invites :: invite_table

text \<open>A value of a decoded JSON object, as far as the code looks at it. \<open>verify_email\<close> is the answer of \<^verbatim>\<open>requiresEmailVerification\<close>.\<close>

datatype json_value = JString string | JBool bool | JOther

record auth_env =
  en_argon :: argon2
  en_gcm :: gcm
  en_secret_key :: string
  en_totp :: "string \<Rightarrow> string \<Rightarrow> bool"
  en_hash :: "string \<Rightarrow> string"
  en_lower :: "nat \<Rightarrow> nat"
  en_unmarshal :: "string \<Rightarrow> (string \<rightharpoonup> json_value) option"
  en_verify_email :: bool
  en_registration_open :: bool
  en_multi_user :: bool
  en_driver :: time_driver

record auth_io =
  io_name_ok :: bool
  io_email_ok :: bool
  io_user_ok :: bool
  io_passkeys_ok :: bool
  io_session :: create_io
  io_data_ok :: bool
  io_delete_ok :: bool
  io_get :: get_io
  io_key :: verify_io
  io_count_ok :: bool
  io_login_ok :: bool
  io_update_ok :: bool
  io_ticket_ok :: bool
  io_token_ok :: bool
  io_now :: instant
  io_salt :: "string option"
  io_create :: create_user_io
  io_ticket :: ticket_io

datatype auth_error =
    PasswordWhitespace
  | BadLogin
  | Disabled
  | Suspended
  | PasskeyStatusFailed
  | SessionFailed
  | PendingFailed
  | BadCode
  | BadRecoveryKey
  | RemainingFailed
  | BadSessionToken
  | RegistrationUnavailable
  | RegistrationClosed
  | BadUsername username_error
  | BadEmail email_error
  | PasswordTooShort
  | AccountExists
  | AccountFailed
  | VerificationFailed
  | SessionRequired
  | LogoutFailed
  | RefreshFailed
  | BadTicket
  | VerifyEmailFailed
  | PasswordHashFailed
  | ResetFailed
  | TokenRequired
  | InviteRefused invite_error
  | InviteNameMismatch
  | InviteWithoutEmail
  | FinalizeAccountFailed
  | FinalizeInviteFailed

record AuthUserSummary =
  as_ID :: int
  as_Username :: string
  as_Email :: string
  as_Role :: string

record AuthLoginResponse =
  ar_RequiresTwoFactor :: bool
  ar_SessionToken :: string
  ar_Token :: string
  ar_User :: "AuthUserSummary option"
  ar_ExpiresAt :: "instant option"
  ar_RemainingKeys :: "int option"

record APILoginRequest =
  lr_Identifier :: string
  lr_Password :: string
  lr_TwoFactorCode :: string
  lr_RecoveryKey :: string

section \<open>Sessions of a sign-in\<close>

definition authSessionTTLSeconds :: int where "authSessionTTLSeconds = 30 * 24 * 60 * 60"

definition authPendingSessionTTLSeconds :: int where "authPendingSessionTTLSeconds = 15 * 60"

definition authPendingStageTwoFactor :: string where "authPendingStageTwoFactor = ''pending_2fa''"

text \<open>The text \<^verbatim>\<open>json.Marshal\<close> writes for the data of a pending session; the keys are sorted.\<close>

definition pending_json :: string where
  "pending_json = ''{\"auth_stage\":\"'' @ authPendingStageTwoFactor @ ''\",\"requires_2fa\":true,\"temporary_session\":true}''"

definition buildAuthUserSummary :: "auth_env \<Rightarrow> User \<Rightarrow> AuthUserSummary" where
  "buildAuthUserSummary env user = \<lparr>as_ID = u_ID user, as_Username = u_Username user,
     as_Email = MaskEmail (en_lower env) (u_Email user), as_Role = u_Role user\<rparr>"

definition validateAuthUser :: "auth_env \<Rightarrow> User \<Rightarrow> auth_error option" where
  "validateAuthUser env user =
     (if \<not> u_IsActive user then Some Disabled
      else if u_IsBanned user then Some Suspended
      else if en_verify_email env \<and> \<not> u_EmailVerified user then Some BadLogin
      else None)"

definition createFullAuthSession ::
  "auth_env \<Rightarrow> auth_io \<Rightarrow> User \<Rightarrow> world \<Rightarrow> world \<times> (auth_error + AuthLoginResponse)" where
  "createFullAuthSession env io user w =
     (case CreateSession (en_hash env) (io_session io) (UidInt64 (u_ID user)) authSessionTTLSeconds (w_sessions w) of
        (t, Inl _) \<Rightarrow> (w\<lparr>w_sessions := t\<rparr>, Inl SessionFailed)
      | (t, Inr session) \<Rightarrow>
          (w\<lparr>w_sessions := t\<rparr>,
           Inr \<lparr>ar_RequiresTwoFactor = False, ar_SessionToken = [], ar_Token = ses_ID session,
                ar_User = Some (buildAuthUserSummary env user), ar_ExpiresAt = Some (ses_ExpiresAt session),
                ar_RemainingKeys = None\<rparr>))"

definition userHasPasskeys :: "bool \<Rightarrow> int \<Rightarrow> world \<Rightarrow> bool option" where
  "userHasPasskeys ok userID w = (if ok then Some (userID \<in> set (w_passkeys w)) else None)"

text \<open>When the data cannot be stored the session is deleted again; that deletion may fail too.\<close>

definition createPendingTwoFactorSession ::
  "auth_env \<Rightarrow> auth_io \<Rightarrow> int \<Rightarrow> world \<Rightarrow> world \<times> (auth_error + Session)" where
  "createPendingTwoFactorSession env io userID w =
     (case CreateSession (en_hash env) (io_session io) (UidInt64 userID) authPendingSessionTTLSeconds (w_sessions w) of
        (t, Inl _) \<Rightarrow> (w\<lparr>w_sessions := t\<rparr>, Inl PendingFailed)
      | (t, Inr session) \<Rightarrow>
          (case UpdateData (en_hash env) (io_data_ok io) (ses_ID session) pending_json t of
             (t1, False) \<Rightarrow>
               (w\<lparr>w_sessions := fst (DeleteSession (en_hash env) (io_delete_ok io) (ses_ID session) t1)\<rparr>, Inl PendingFailed)
           | (t1, True) \<Rightarrow> (w\<lparr>w_sessions := t1\<rparr>, Inr (session\<lparr>ses_Data := Some pending_json\<rparr>))))"

text \<open>\<^verbatim>\<open>SessionModel.GetByID\<close> in this world; an expired session is removed.\<close>

definition get_session :: "auth_env \<Rightarrow> get_io \<Rightarrow> string \<Rightarrow> world \<Rightarrow> world \<times> (session_error + Session)" where
  "get_session env io raw w =
     (case GetByID (en_hash env) (\<lambda>d. en_unmarshal env d \<noteq> None) io raw (w_sessions w) of
        (t, res) \<Rightarrow> (w\<lparr>w_sessions := t\<rparr>, res))"

definition loadPendingTwoFactorSession ::
  "auth_env \<Rightarrow> auth_io \<Rightarrow> string \<Rightarrow> world \<Rightarrow> world \<times> (auth_error + Session)" where
  "loadPendingTwoFactorSession env io sessionToken w =
     (case get_session env (io_get io) (trimSpace sessionToken) w of
        (w', Inl _) \<Rightarrow> (w', Inl BadSessionToken)
      | (w', Inr session) \<Rightarrow>
          (w', case ses_Data session of
             None \<Rightarrow> Inl BadSessionToken
           | Some d \<Rightarrow>
               (case en_unmarshal env d of
                  None \<Rightarrow> Inl BadSessionToken
                | Some m \<Rightarrow>
                    (let authStage = (case m ''auth_stage'' of Some (JString s) \<Rightarrow> s | _ \<Rightarrow> []);
                         requiresTwoFactor = (case m ''requires_2fa'' of Some (JBool b) \<Rightarrow> b | _ \<Rightarrow> False)
                     in if authStage \<noteq> authPendingStageTwoFactor \<or> \<not> requiresTwoFactor then Inl BadSessionToken
                        else Inr session))))"

section \<open>Signing in\<close>

definition touch_login :: "auth_io \<Rightarrow> int \<Rightarrow> string \<Rightarrow> world \<Rightarrow> world" where
  "touch_login io i clientIP w = w\<lparr>w_users := fst (UpdateLastLogin (io_login_ok io) (io_now io) i clientIP (w_users w))\<rparr>"

definition totp_accepts :: "auth_env \<Rightarrow> User \<Rightarrow> string \<Rightarrow> bool" where
  "totp_accepts env user code =
     (case DecryptTwoFactorSecret (en_gcm env) (en_secret_key env) (u_TwoFactorSecret user) of
        Inl _ \<Rightarrow> False
      | Inr secret \<Rightarrow> en_totp env secret code)"

definition loginWithTwoFactorCode ::
  "auth_env \<Rightarrow> auth_io \<Rightarrow> User \<Rightarrow> string \<Rightarrow> string \<Rightarrow> world \<Rightarrow> world \<times> (auth_error + AuthLoginResponse)" where
  "loginWithTwoFactorCode env io user code clientIP w =
     (if \<not> totp_accepts env user code then (w, Inl BadCode)
      else case createFullAuthSession env io user w of
        (w1, Inl err) \<Rightarrow> (w1, Inl err)
      | (w1, Inr response) \<Rightarrow> (touch_login io (u_ID user) clientIP w1, Inr response))"

definition loginWithRecoveryKey ::
  "auth_env \<Rightarrow> auth_io \<Rightarrow> User \<Rightarrow> string \<Rightarrow> string \<Rightarrow> world \<Rightarrow> world \<times> (auth_error + AuthLoginResponse)" where
  "loginWithRecoveryKey env io user recoveryKey clientIP w =
     (case VerifyAndUseRecoveryKey (en_hash env) (io_key io) (u_ID user) recoveryKey (w_keys w) of
        (k, Inl _) \<Rightarrow> (w\<lparr>w_keys := k\<rparr>, Inl BadRecoveryKey)
      | (k, Inr False) \<Rightarrow> (w\<lparr>w_keys := k\<rparr>, Inl BadRecoveryKey)
      | (k, Inr True) \<Rightarrow>
          (case createFullAuthSession env io user (w\<lparr>w_keys := k\<rparr>) of
             (w1, Inl err) \<Rightarrow> (w1, Inl err)
           | (w1, Inr response) \<Rightarrow>
               (case GetUnusedKeysCount (io_count_ok io) (u_ID user) (w_keys w1) of
                  None \<Rightarrow> (w1, Inl RemainingFailed)
                | Some n \<Rightarrow>
                    (touch_login io (u_ID user) clientIP w1, Inr (response\<lparr>ar_RemainingKeys := Some n\<rparr>)))))"

definition LoginAPIUser ::
  "auth_env \<Rightarrow> auth_io \<Rightarrow> APILoginRequest \<Rightarrow> string \<Rightarrow> world \<Rightarrow> world \<times> (auth_error + AuthLoginResponse)" where
  "LoginAPIUser env io req clientIP w =
     (let ident = trimSpace (lr_Identifier req) in
      if lr_Password req \<noteq> trimSpace (lr_Password req) then (w, Inl PasswordWhitespace)
      else case GetByIdentifier (io_name_ok io) (io_email_ok io) ident (w_users w) of
        Inl _ \<Rightarrow> (w, Inl BadLogin)
      | Inr user \<Rightarrow>
          if \<not> CheckPassword (en_argon env) user (lr_Password req) then (w, Inl BadLogin)
          else case validateAuthUser env user of
            Some err \<Rightarrow> (w, Inl err)
          | None \<Rightarrow>
              (case userHasPasskeys (io_passkeys_ok io) (u_ID user) w of
                 None \<Rightarrow> (w, Inl PasskeyStatusFailed)
               | Some hasPasskeys \<Rightarrow>
                   if u_TwoFactorEnabled user \<or> hasPasskeys then
                     (if lr_RecoveryKey req \<noteq> [] then loginWithRecoveryKey env io user (lr_RecoveryKey req) clientIP w
                      else if lr_TwoFactorCode req \<noteq> [] then
                        (if \<not> u_TwoFactorEnabled user then (w, Inl BadCode)
                         else loginWithTwoFactorCode env io user (lr_TwoFactorCode req) clientIP w)
                      else case createPendingTwoFactorSession env io (u_ID user) w of
                        (w1, Inl err) \<Rightarrow> (w1, Inl err)
                      | (w1, Inr pendingSession) \<Rightarrow>
                          (w1, Inr \<lparr>ar_RequiresTwoFactor = True, ar_SessionToken = ses_ID pendingSession, ar_Token = [],
                                    ar_User = None, ar_ExpiresAt = None, ar_RemainingKeys = None\<rparr>))
                   else case createFullAuthSession env io user w of
                     (w1, Inl err) \<Rightarrow> (w1, Inl err)
                   | (w1, Inr response) \<Rightarrow> (touch_login io (u_ID user) clientIP w1, Inr response)))"

text \<open>The two ways to complete a pending sign-in share everything but the second factor \<open>factor\<close>.\<close>

definition complete_pending ::
  "(User \<Rightarrow> world \<Rightarrow> world \<times> (auth_error + AuthLoginResponse)) \<Rightarrow> auth_env \<Rightarrow> auth_io \<Rightarrow> string \<Rightarrow> world \<Rightarrow>
   world \<times> (auth_error + AuthLoginResponse)" where
  "complete_pending factor env io sessionToken w =
     (case loadPendingTwoFactorSession env io sessionToken w of
        (w1, Inl err) \<Rightarrow> (w1, Inl err)
      | (w1, Inr pendingSession) \<Rightarrow>
          (case GetUserByID (io_user_ok io) (ses_UserID pendingSession) (w_users w1) of
             Inl _ \<Rightarrow> (w1, Inl BadSessionToken)
           | Inr user \<Rightarrow>
               (case validateAuthUser env user of
                  Some err \<Rightarrow> (w1, Inl err)
                | None \<Rightarrow>
                    (case factor user w1 of
                       (w2, Inl err) \<Rightarrow> (w2, Inl err)
                     | (w2, Inr response) \<Rightarrow>
                         (w2\<lparr>w_sessions := fst (DeleteSession (en_hash env) (io_delete_ok io) (ses_ID pendingSession) (w_sessions w2))\<rparr>,
                          Inr response)))))"

definition CompleteAPIUserTwoFactor ::
  "auth_env \<Rightarrow> auth_io \<Rightarrow> string \<Rightarrow> string \<Rightarrow> string \<Rightarrow> world \<Rightarrow> world \<times> (auth_error + AuthLoginResponse)" where
  "CompleteAPIUserTwoFactor env io sessionToken code clientIP w =
     complete_pending (\<lambda>user. loginWithTwoFactorCode env io user code clientIP) env io sessionToken w"

definition UseAPIUserRecoveryKey ::
  "auth_env \<Rightarrow> auth_io \<Rightarrow> string \<Rightarrow> string \<Rightarrow> string \<Rightarrow> world \<Rightarrow> world \<times> (auth_error + AuthLoginResponse)" where
  "UseAPIUserRecoveryKey env io sessionToken recoveryKey clientIP w =
     complete_pending (\<lambda>user. loginWithRecoveryKey env io user recoveryKey clientIP) env io sessionToken w"

definition LogoutCurrentUserSession ::
  "auth_env \<Rightarrow> auth_io \<Rightarrow> Session option \<Rightarrow> world \<Rightarrow> world \<times> auth_error option" where
  "LogoutCurrentUserSession env io session w =
     (case session of
        None \<Rightarrow> (w, Some SessionRequired)
      | Some s \<Rightarrow>
          (case DeleteSession (en_hash env) (io_delete_ok io) (ses_ID s) (w_sessions w) of
             (t, ok) \<Rightarrow> (w\<lparr>w_sessions := t\<rparr>, if ok then None else Some LogoutFailed)))"

definition RefreshCurrentUserSession ::
  "auth_env \<Rightarrow> auth_io \<Rightarrow> Session option \<Rightarrow> User option \<Rightarrow> world \<Rightarrow> world \<times> (auth_error + AuthLoginResponse)" where
  "RefreshCurrentUserSession env io session user w =
     (case (session, user) of
        (Some s, Some u) \<Rightarrow>
          (case DeleteSession (en_hash env) (io_delete_ok io) (ses_ID s) (w_sessions w) of
             (t, False) \<Rightarrow> (w\<lparr>w_sessions := t\<rparr>, Inl RefreshFailed)
           | (t, True) \<Rightarrow>
               (case createFullAuthSession env io u (w\<lparr>w_sessions := t\<rparr>) of
                  (w1, Inl _) \<Rightarrow> (w1, Inl RefreshFailed)
                | (w1, Inr response) \<Rightarrow> (w1, Inr response)))
      | _ \<Rightarrow> (w, Inl SessionRequired))"

section \<open>What a sign-in requires\<close>

text \<open>The request added exactly one session: for this token, this account, with this data.\<close>

definition opens :: "auth_env \<Rightarrow> int \<Rightarrow> string option \<Rightarrow> string \<Rightarrow> world \<Rightarrow> world \<Rightarrow> bool" where
  "opens env u d tok w w' \<longleftrightarrow>
     (\<exists>r. st_rows (w_sessions w') = st_rows (w_sessions w) @ [r] \<and> us_token_hash r = en_hash env tok \<and> us_user_id r = u \<and>
        us_data r = d \<and> (\<forall>q\<in>set (st_rows (w_sessions w)). us_token_hash q \<noteq> en_hash env tok))"

lemma CreateSession_row:
  assumes "CreateSession hash io (UidInt64 u) n t = (t', Inr s)"
  shows "\<exists>r. st_rows t' = st_rows t @ [r] \<and> us_token_hash r = hash (ses_ID s) \<and> us_user_id r = u \<and> us_data r = None \<and>
    us_expires_at r = VStr (FormatSQLTimestamp (ses_ExpiresAt s)) \<and>
    ses_ExpiresAt s = cr_expiry_base io + wrap64 (n * second_ns) \<and>
    (\<forall>q\<in>set (st_rows t). us_token_hash q \<noteq> hash (ses_ID s))"
proof -
  obtain raw where raw: "cr_token io = Some raw" "cr_insert_ok io" "\<not> (\<exists>r\<in>set (st_rows t). us_token_hash r = hash raw)"
    using assms by (auto simp: CreateSession_def Let_def split: option.splits if_splits)
  define x where "x = cr_expiry_base io + wrap64 (n * second_ns)"
  have "st_rows t' = st_rows t @ [\<lparr>us_id = st_next t, us_token_hash = hash raw, us_user_id = u, us_data = None,
      us_expires_at = VStr (FormatSQLTimestamp x), us_created_at = VStr (FormatSQLTimestamp (cr_now io)),
      us_ip_address = None, us_user_agent = None, us_last_used_at = VNil\<rparr>]"
    "s = \<lparr>ses_ID = raw, ses_UserID = u, ses_Data = None, ses_ExpiresAt = x, ses_CreatedAt = cr_now io\<rparr>"
    using assms raw by (auto simp: CreateSession_def Let_def simp flip: x_def)
  with raw(3) show ?thesis by (auto simp: x_def)
qed

lemma createFull_opens:
  assumes "createFullAuthSession env io user w = (w', Inr resp)"
  shows "opens env (u_ID user) None (ar_Token resp) w w' \<and> \<not> ar_RequiresTwoFactor resp \<and> w' = w\<lparr>w_sessions := w_sessions w'\<rparr> \<and>
    ar_User resp = Some (buildAuthUserSummary env user)"
proof -
  obtain t s where c: "CreateSession (en_hash env) (io_session io) (UidInt64 (u_ID user)) authSessionTTLSeconds (w_sessions w) = (t, Inr s)"
    and w': "w' = w\<lparr>w_sessions := t\<rparr>" "ar_Token resp = ses_ID s" "\<not> ar_RequiresTwoFactor resp"
      "ar_User resp = Some (buildAuthUserSummary env user)"
    using assms by (auto simp: createFullAuthSession_def split: prod.splits sum.splits)
  from CreateSession_row [OF c] show ?thesis by (auto simp: opens_def w')
qed

lemma createPending_opens:
  assumes "createPendingTwoFactorSession env io u w = (w', Inr s)"
  shows "opens env u (Some pending_json) (ses_ID s) w w' \<and> w_users w' = w_users w \<and>
    (\<exists>r. sql_lookup us_token_hash (en_hash env (ses_ID s)) (st_rows (w_sessions w')) = Some r \<and> us_user_id r = u \<and>
       us_data r = Some pending_json \<and>
       us_expires_at r = VStr (FormatSQLTimestamp (cr_expiry_base (io_session io) + wrap64 (authPendingSessionTTLSeconds * second_ns))))"
proof -
  obtain t s0 where c: "CreateSession (en_hash env) (io_session io) (UidInt64 u) authPendingSessionTTLSeconds (w_sessions w) = (t, Inr s0)"
    and ok: "io_data_ok io" and s: "ses_ID s = ses_ID s0"
    and w': "w' = w\<lparr>w_sessions := fst (UpdateData (en_hash env) True (ses_ID s0) pending_json t)\<rparr>"
    using assms by (auto simp: createPendingTwoFactorSession_def UpdateData_def session_update_def
        split: prod.splits sum.splits bool.splits if_splits)
  from CreateSession_row [OF c] obtain r where r: "st_rows t = st_rows (w_sessions w) @ [r]" "us_token_hash r = en_hash env (ses_ID s0)"
      "us_user_id r = u" "\<forall>q\<in>set (st_rows (w_sessions w)). us_token_hash q \<noteq> en_hash env (ses_ID s0)"
      "us_expires_at r = VStr (FormatSQLTimestamp (cr_expiry_base (io_session io) + wrap64 (authPendingSessionTTLSeconds * second_ns)))"
    by auto
  have "sql_update (\<lambda>q. us_token_hash q = en_hash env (ses_ID s0)) f (st_rows (w_sessions w)) = st_rows (w_sessions w)" for f
    using r(4) by (auto simp: sql_update_def intro: map_idI)
  then have rows: "st_rows (w_sessions w') = st_rows (w_sessions w) @ [r\<lparr>us_data := Some pending_json\<rparr>]"
    using r(1,2) by (simp add: w' UpdateData_def session_update_def sql_update_def)
  have "sql_lookup us_token_hash (en_hash env (ses_ID s0)) (st_rows (w_sessions w)) = None"
    using r(4) by (auto simp: sql_lookup_None)
  with rows r s show ?thesis by (simp add: opens_def sql_lookup_append) (simp add: w')
qed

lemma opens_cong: "opens env u d tok w w1 \<Longrightarrow> w_sessions w' = w_sessions w1 \<Longrightarrow> opens env u d tok w w'"
  by (simp add: opens_def)

lemma touch_login_sessions [simp]: "w_sessions (touch_login io i ip w) = w_sessions w"
  by (simp add: touch_login_def)

lemma loginWithTwoFactorCode_opens:
  assumes "loginWithTwoFactorCode env io user code ip w = (w', Inr resp)"
  shows "totp_accepts env user code \<and> opens env (u_ID user) None (ar_Token resp) w w' \<and> \<not> ar_RequiresTwoFactor resp"
proof -
  obtain w1 where "totp_accepts env user code" "createFullAuthSession env io user w = (w1, Inr resp)"
      "w' = touch_login io (u_ID user) ip w1"
    using assms by (auto simp: loginWithTwoFactorCode_def split: prod.splits sum.splits if_splits)
  with createFull_opens [of env io user w w1 resp] show ?thesis by (auto intro: opens_cong)
qed

lemma loginWithRecoveryKey_opens:
  assumes "loginWithRecoveryKey env io user key ip w = (w', Inr resp)"
  shows "snd (VerifyAndUseRecoveryKey (en_hash env) (io_key io) (u_ID user) key (w_keys w)) = Inr True \<and>
    opens env (u_ID user) None (ar_Token resp) w w' \<and> \<not> ar_RequiresTwoFactor resp"
proof -
  obtain k w1 r0 n where k: "VerifyAndUseRecoveryKey (en_hash env) (io_key io) (u_ID user) key (w_keys w) = (k, Inr True)"
    and c: "createFullAuthSession env io user (w\<lparr>w_keys := k\<rparr>) = (w1, Inr r0)"
    and w': "w' = touch_login io (u_ID user) ip w1" "resp = r0\<lparr>ar_RemainingKeys := Some n\<rparr>"
    using assms by (auto simp: loginWithRecoveryKey_def split: prod.splits sum.splits bool.splits option.splits)
  from createFull_opens [OF c] have "opens env (u_ID user) None (ar_Token resp) w w1" by (simp add: opens_def w')
  with k createFull_opens [OF c] w' show ?thesis by (auto intro: opens_cong)
qed

lemma GetByIdentifier_Inr:
  assumes "GetByIdentifier ok1 ok2 ident db = Inr user"
  shows "\<exists>r\<in>set (ud_accounts db). user = login_user r \<and> (ua_username r = ident \<or> ua_email r = ident)"
proof -
  have "\<exists>r\<in>set (ud_accounts db). user = login_user r \<and> key r = k"
    if "user_query key login_user ok k db = Inr user" for ok and key :: "user_row \<Rightarrow> string" and k
    using that by (auto simp: user_query_def split: if_splits option.splits dest!: sql_lookup_Some)
  from this [of ua_username ok1 ident] this [of ua_email ok2 ident] assms show ?thesis
    by (auto simp: GetByIdentifier_def GetByUsername_def GetByEmail_def split: sum.splits)
qed

lemma validateAuthUser_None:
  "validateAuthUser env user = None \<longleftrightarrow> u_IsActive user \<and> \<not> u_IsBanned user \<and> (u_EmailVerified user \<or> \<not> en_verify_email env)"
  by (auto simp: validateAuthUser_def)

text \<open>The four ways \<open>LoginAPIUser\<close> answers without an error.\<close>

lemma LoginAPIUser_Inr:
  assumes "LoginAPIUser env io req ip w = (w', Inr resp)"
  obtains (row) r where "r \<in> set (ud_accounts (w_users w))"
    "ua_username r = trimSpace (lr_Identifier req) \<or> ua_email r = trimSpace (lr_Identifier req)"
    "CheckPassword (en_argon env) (login_user r) (lr_Password req)" "validateAuthUser env (login_user r) = None"
    "(\<exists>w1. \<not> ua_two_factor_enabled r \<and> ua_id r \<notin> set (w_passkeys w) \<and>
        createFullAuthSession env io (login_user r) w = (w1, Inr resp) \<and> w' = touch_login io (ua_id r) ip w1) \<or>
     loginWithRecoveryKey env io (login_user r) (lr_RecoveryKey req) ip w = (w', Inr resp) \<or>
     ua_two_factor_enabled r \<and> loginWithTwoFactorCode env io (login_user r) (lr_TwoFactorCode req) ip w = (w', Inr resp) \<or>
     (\<exists>s. (ua_two_factor_enabled r \<or> ua_id r \<in> set (w_passkeys w)) \<and>
        createPendingTwoFactorSession env io (ua_id r) w = (w', Inr s) \<and> ar_RequiresTwoFactor resp \<and>
        ar_Token resp = [] \<and> ar_SessionToken resp = ses_ID s)"
proof -
  obtain user where user: "GetByIdentifier (io_name_ok io) (io_email_ok io) (trimSpace (lr_Identifier req)) (w_users w) = Inr user"
      "CheckPassword (en_argon env) user (lr_Password req)" "validateAuthUser env user = None" "io_passkeys_ok io"
    using assms by (auto simp: LoginAPIUser_def Let_def userHasPasskeys_def split: if_splits sum.splits option.splits)
  obtain r where r: "r \<in> set (ud_accounts (w_users w))" "user = login_user r"
      "ua_username r = trimSpace (lr_Identifier req) \<or> ua_email r = trimSpace (lr_Identifier req)"
    using GetByIdentifier_Inr [OF user(1)] by blast
  show thesis
    using assms user r(2)
    by (intro row [OF r(1) r(3)]) (auto simp: LoginAPIUser_def Let_def userHasPasskeys_def split: if_splits prod.splits sum.splits)
qed

text \<open>
  C10. What \<open>LoginAPIUser\<close> asks for. When it answers without an error, the identifier names an account, the password
  verifies against its hash, the account is active, not banned and, where the server asks for it, its address is verified.
  A full session is opened only if the account has no second factor (neither TOTP nor a passkey), or a
  recovery key of the account was spent, or the TOTP code fits the account's secret; otherwise the answer holds no
  session token but a pending one, and the row it opened is marked as pending. Either way exactly one
  session row is added, for that account.
\<close>

theorem LoginAPIUser_factors:
  assumes "LoginAPIUser env io req ip w = (w', Inr resp)"
  shows "\<exists>r\<in>set (ud_accounts (w_users w)).
    (ua_username r = trimSpace (lr_Identifier req) \<or> ua_email r = trimSpace (lr_Identifier req)) \<and>
    VerifyPassword (en_argon env) (lr_Password req) (ua_password_hash r) = Inr True \<and>
    ua_is_active r \<and> \<not> ua_is_banned r \<and> (ua_email_verified r \<or> \<not> en_verify_email env) \<and>
    (if ar_RequiresTwoFactor resp
     then (ua_two_factor_enabled r \<or> ua_id r \<in> set (w_passkeys w)) \<and> ar_Token resp = [] \<and>
       opens env (ua_id r) (Some pending_json) (ar_SessionToken resp) w w'
     else opens env (ua_id r) None (ar_Token resp) w w' \<and>
       (\<not> ua_two_factor_enabled r \<and> ua_id r \<notin> set (w_passkeys w) \<or>
        snd (VerifyAndUseRecoveryKey (en_hash env) (io_key io) (ua_id r) (lr_RecoveryKey req) (w_keys w)) = Inr True \<or>
        ua_two_factor_enabled r \<and> totp_accepts env (login_user r) (lr_TwoFactorCode req)))"
  using assms
proof (cases rule: LoginAPIUser_Inr)
  case (row r)
  let ?two = "ua_two_factor_enabled r \<or> ua_id r \<in> set (w_passkeys w)"
  from row(5) consider
      (full) w1 where "\<not> ?two" "createFullAuthSession env io (login_user r) w = (w1, Inr resp)" "w' = touch_login io (ua_id r) ip w1"
    | (key) "loginWithRecoveryKey env io (login_user r) (lr_RecoveryKey req) ip w = (w', Inr resp)"
    | (code) "ua_two_factor_enabled r" "loginWithTwoFactorCode env io (login_user r) (lr_TwoFactorCode req) ip w = (w', Inr resp)"
    | (pending) s where "?two" "createPendingTwoFactorSession env io (ua_id r) w = (w', Inr s)" "ar_RequiresTwoFactor resp"
        "ar_Token resp = []" "ar_SessionToken resp = ses_ID s"
    by blast
  then have "if ar_RequiresTwoFactor resp
     then ?two \<and> ar_Token resp = [] \<and> opens env (ua_id r) (Some pending_json) (ar_SessionToken resp) w w'
     else opens env (ua_id r) None (ar_Token resp) w w' \<and> (\<not> ua_two_factor_enabled r \<and> ua_id r \<notin> set (w_passkeys w) \<or>
        snd (VerifyAndUseRecoveryKey (en_hash env) (io_key io) (ua_id r) (lr_RecoveryKey req) (w_keys w)) = Inr True \<or>
        ua_two_factor_enabled r \<and> totp_accepts env (login_user r) (lr_TwoFactorCode req))"
  proof cases
    case full
    then show ?thesis using createFull_opens [OF full(2)] by (auto intro: opens_cong)
  next
    case key
    then show ?thesis using loginWithRecoveryKey_opens [OF key] by auto
  next
    case code
    then show ?thesis using loginWithTwoFactorCode_opens [OF code(2)] by auto
  next
    case pending
    then show ?thesis using createPending_opens [OF pending(2)] by auto
  qed
  with row(1-4) show ?thesis by (auto simp: CheckPassword_def validateAuthUser_None)
qed

section \<open>A sample state\<close>

definition ann :: user_row where
  "ann = new_account 1 ''ann'' ''ann@a.org'' toy_hash ''user'' []"

definition demo_env :: auth_env where
  "demo_env = \<lparr>en_argon = toy_argon, en_gcm = no_gcm, en_secret_key = [], en_totp = (\<lambda>secret code. code = secret), en_hash = id,
     en_lower = id,
     en_unmarshal = (\<lambda>d. if d = pending_json
       then Some [''auth_stage'' \<mapsto> JString ''pending_2fa'', ''requires_2fa'' \<mapsto> JBool True, ''temporary_session'' \<mapsto> JBool True]
       else None),
     en_verify_email = False, en_registration_open = True, en_multi_user = True, en_driver = plain_driver\<rparr>"

definition demo_io :: auth_io where
  "demo_io = \<lparr>io_name_ok = True, io_email_ok = True, io_user_ok = True, io_passkeys_ok = True, io_session = create_ok ''tok'',
     io_data_ok = True, io_delete_ok = True,
     io_get = \<lparr>gt_query_ok = True, gt_delete_ok = True, gt_now = 1700000001 * second_ns\<rparr>, io_key = verify_ok, io_count_ok = True,
     io_login_ok = True, io_update_ok = True, io_ticket_ok = True, io_token_ok = True, io_now = 1700000000 * second_ns,
     io_salt = Some ''0123456789abcdef'', io_create = create_user_ok,
     io_ticket = \<lparr>vi_random = Some ''abc'', vi_expiry_base = 1700000000 * second_ns, vi_now = 1700000000 * second_ns,
       vi_built = 1700000000 * second_ns, vi_insert_ok = True, vi_id_ok = True\<rparr>\<rparr>"

definition demo_world :: "user_row \<Rightarrow> world" where
  "demo_world r = \<lparr>w_users = \<lparr>ud_next = 2, ud_accounts = [r], ud_preferences = []\<rparr>,
     w_sessions = \<lparr>st_next = 1, st_rows = []\<rparr>, w_keys = \<lparr>kt_next = 1, kt_rows = []\<rparr>, w_passkeys = [],
     w_tokens = \<lparr>tt_next = 1, tt_rows = []\<rparr>, w_verifications = \<lparr>tb_next = 1, tb_rows = []\<rparr>,
     w_resets = \<lparr>tb_next = 1, tb_rows = []\<rparr>, w_invites = \<lparr>it_next = 1, it_rows = []\<rparr>\<rparr>"

definition ann_login :: APILoginRequest where
  "ann_login = \<lparr>lr_Identifier = ''ann'', lr_Password = ''secret'', lr_TwoFactorCode = [], lr_RecoveryKey = []\<rparr>"

lemma demo_env_fields [simp]:
  "en_argon demo_env = toy_argon" "en_hash demo_env = id" "en_totp demo_env = (\<lambda>secret code. code = secret)" "en_gcm demo_env = no_gcm"
  "en_secret_key demo_env = []" "\<not> en_verify_email demo_env" "en_registration_open demo_env" "en_multi_user demo_env" "en_lower demo_env = id" "en_driver demo_env = plain_driver"
  "en_unmarshal demo_env pending_json =
     Some [''auth_stage'' \<mapsto> JString ''pending_2fa'', ''requires_2fa'' \<mapsto> JBool True, ''temporary_session'' \<mapsto> JBool True]"
  by (simp_all add: demo_env_def)

lemma demo_io_fields [simp]:
  "io_name_ok demo_io" "io_email_ok demo_io" "io_user_ok demo_io" "io_passkeys_ok demo_io" "io_session demo_io = create_ok ''tok''"
  "io_data_ok demo_io" "io_delete_ok demo_io" "io_update_ok demo_io" "io_ticket_ok demo_io" "io_token_ok demo_io"
  "io_now demo_io = 1700000000 * second_ns" "io_salt demo_io = Some ''0123456789abcdef''" "io_create demo_io = create_user_ok"
  "io_get demo_io = \<lparr>gt_query_ok = True, gt_delete_ok = True, gt_now = 1700000001 * second_ns\<rparr>"
  by (simp_all add: demo_io_def)

lemma demo_world_fields [simp]:
  "w_users (demo_world r) = \<lparr>ud_next = 2, ud_accounts = [r], ud_preferences = []\<rparr>"
  "w_sessions (demo_world r) = \<lparr>st_next = 1, st_rows = []\<rparr>" "w_passkeys (demo_world r) = []"
  "w_tokens (demo_world r) = \<lparr>tt_next = 1, tt_rows = []\<rparr>"
  by (simp_all add: demo_world_def)

lemma demo_session:
  "CreateSession id (create_ok ''tok'') (UidInt64 u) n \<lparr>st_next = 1, st_rows = []\<rparr> =
     (\<lparr>st_next = 2, st_rows = [\<lparr>us_id = 1, us_token_hash = ''tok'', us_user_id = u, us_data = None,
        us_expires_at = VStr (FormatSQLTimestamp (1700000000 * second_ns + wrap64 (n * second_ns))),
        us_created_at = VStr (FormatSQLTimestamp (1700000000 * second_ns)),
        us_ip_address = None, us_user_agent = None, us_last_used_at = VNil\<rparr>]\<rparr>,
      Inr \<lparr>ses_ID = ''tok'', ses_UserID = u, ses_Data = None, ses_ExpiresAt = 1700000000 * second_ns + wrap64 (n * second_ns),
           ses_CreatedAt = 1700000000 * second_ns\<rparr>)"
  by (simp add: CreateSession_def create_ok_def Let_def)

text \<open>\<open>LoginAPIUser\<close> once the account is found and the password fits.\<close>

lemma LoginAPIUser_known:
  assumes "lr_Password req = trimSpace (lr_Password req)" "io_passkeys_ok io" "CheckPassword (en_argon env) user (lr_Password req)"
    "GetByIdentifier (io_name_ok io) (io_email_ok io) (trimSpace (lr_Identifier req)) (w_users w) = Inr user"
  shows "validateAuthUser env user = Some err \<Longrightarrow> LoginAPIUser env io req ip w = (w, Inl err)"
    "validateAuthUser env user = None \<Longrightarrow> \<not> u_TwoFactorEnabled user \<Longrightarrow> u_ID user \<notin> set (w_passkeys w) \<Longrightarrow>
       createFullAuthSession env io user w = (w1, Inr resp) \<Longrightarrow>
       LoginAPIUser env io req ip w = (touch_login io (u_ID user) ip w1, Inr resp)"
    "validateAuthUser env user = None \<Longrightarrow> u_TwoFactorEnabled user \<or> u_ID user \<in> set (w_passkeys w) \<Longrightarrow>
       lr_RecoveryKey req = [] \<Longrightarrow> lr_TwoFactorCode req = [] \<Longrightarrow> createPendingTwoFactorSession env io (u_ID user) w = (w1, Inr s) \<Longrightarrow>
       LoginAPIUser env io req ip w = (w1, Inr \<lparr>ar_RequiresTwoFactor = True, ar_SessionToken = ses_ID s, ar_Token = [],
         ar_User = None, ar_ExpiresAt = None, ar_RemainingKeys = None\<rparr>)"
  using assms by (auto simp: LoginAPIUser_def Let_def userHasPasskeys_def)

lemma demo_full:
  "createFullAuthSession demo_env demo_io user (demo_world r) = (w1, Inr resp) \<longleftrightarrow>
     w1 = (demo_world r)\<lparr>w_sessions := fst (CreateSession id (create_ok ''tok'') (UidInt64 (u_ID user)) authSessionTTLSeconds
       \<lparr>st_next = 1, st_rows = []\<rparr>)\<rparr> \<and>
     resp = \<lparr>ar_RequiresTwoFactor = False, ar_SessionToken = [], ar_Token = ''tok'',
       ar_User = Some (buildAuthUserSummary demo_env user),
       ar_ExpiresAt = Some (1700000000 * second_ns + wrap64 (authSessionTTLSeconds * second_ns)), ar_RemainingKeys = None\<rparr>"
  by (auto simp: createFullAuthSession_def demo_session)

lemma demo_trim: "trimSpace ''ann'' = ''ann''" "trimSpace ''secret'' = ''secret''" "trimSpace ''tok'' = ''tok''"
  by (simp_all add: trimSpace_ends_graphic ascii_graphic_def)

lemma ann_fields [simp]:
  "ua_id ann = 1" "ua_username ann = ''ann''" "ua_email ann = ''ann@a.org''" "ua_password_hash ann = toy_hash" "ua_is_active ann"
  "\<not> ua_is_banned ann" "\<not> ua_two_factor_enabled ann" "ua_two_factor_secret ann = None" "ua_role ann = ''user''"
  by (simp_all add: ann_def new_account_def)

lemma demo_login:
  assumes "ua_id r = 1" "ua_username r = ''ann''" "ua_password_hash r = toy_hash" "ua_is_active r" "\<not> ua_is_banned r"
  shows "GetByIdentifier True True ''ann'' (w_users (demo_world r)) = Inr (login_user r)"
    "CheckPassword toy_argon (login_user r) ''secret''" "validateAuthUser demo_env (login_user r) = None"
  using assms
  by (simp_all add: GetByIdentifier_row login_row_def demo_world_def CheckPassword_def toy_verify validateAuthUser_None demo_env_def)

theorem LoginAPIUser_factors_witness:
  "\<exists>w' resp. LoginAPIUser demo_env demo_io ann_login [] (demo_world ann) = (w', Inr resp) \<and> \<not> ar_RequiresTwoFactor resp \<and>
     opens demo_env 1 None (ar_Token resp) (demo_world ann) w'"
proof -
  obtain w1 resp where f: "createFullAuthSession demo_env demo_io (login_user ann) (demo_world ann) = (w1, Inr resp)"
      "\<not> ar_RequiresTwoFactor resp"
    by (simp add: demo_full)
  from f(1) have l: "LoginAPIUser demo_env demo_io ann_login [] (demo_world ann) = (touch_login demo_io 1 [] w1, Inr resp)"
    using LoginAPIUser_known(2) [of ann_login demo_io demo_env "login_user ann" "demo_world ann" w1 resp "[]"] demo_login [of ann]
    by (simp add: ann_login_def demo_trim)
  from LoginAPIUser_factors [OF l] l f(2) show ?thesis by auto
qed

end
