(* ===== verification/Request_Auth.thy ===== *)
theory Request_Auth
  imports Login
begin

text \<open>
  Authentication of requests, \<^verbatim>\<open>src/server/middleware/auth.go\<close> and \<^verbatim>\<open>src/server/middleware/token_auth.go\<close>,
  over the request context of \<^verbatim>\<open>src/server/reqctx\<close>, and the sign-in page of \<^verbatim>\<open>src/server/handler/auth.go\<close>.
\<close>

section \<open>The session middleware\<close>

text \<open>The keys of the request context that authentication sets; a key that is absent or nil is \<open>None\<close>, as \<^verbatim>\<open>GetValue\<close> reports it.\<close>

record req_ctx =
  cx_user :: "User option"
  cx_user_id :: "int option"
  cx_session :: "Session option"
  cx_auth_method :: "string option"

definition anonymous :: req_ctx where
  "anonymous = \<lparr>cx_user = None, cx_user_id = None, cx_session = None, cx_auth_method = None\<rparr>"

record http_req =
  rq_path :: string
  rq_authorization :: string
  rq_cookie :: "string option"
  rq_accept :: string

datatype auth_outcome = NextHandler req_ctx | RedirectTo string | ApiError nat string

text \<open>The token of an \<^verbatim>\<open>Authorization: Bearer\<close> header: \<^verbatim>\<open>strings.SplitN\<close> into two parts at the first blank.\<close>

definition bearer_token :: "string \<Rightarrow> string option" where
  "bearer_token header =
     (case cut_char CHR '' '' header of
        (scheme, Some token) \<Rightarrow> if scheme = ''Bearer'' then Some token else None
      | (scheme, None) \<Rightarrow> None)"

text \<open>The account of an API token, with the id of the token.\<close>

definition token_account :: "auth_env \<Rightarrow> auth_io \<Rightarrow> http_req \<Rightarrow> world \<Rightarrow> (User \<times> int) option" where
  "token_account env io req w =
     (if rq_authorization req = [] then None
      else case bearer_token (rq_authorization req) of
        None \<Rightarrow> None
      | Some token \<Rightarrow>
          (case GetByToken (en_hash env) (en_driver env) (io_token_ok io) (io_now io) token (w_tokens w) of
             Inl _ \<Rightarrow> None
           | Inr apiToken \<Rightarrow>
               (case GetUserByID (io_user_ok io) (at_UserID apiToken) (w_users w) of
                  Inl _ \<Rightarrow> None
                | Inr user \<Rightarrow> Some (user, at_ID apiToken))))"

text \<open>The account of a session cookie; looking an expired session up removes it.\<close>

definition cookie_account :: "auth_env \<Rightarrow> auth_io \<Rightarrow> http_req \<Rightarrow> world \<Rightarrow> world \<times> (User \<times> Session) option" where
  "cookie_account env io req w =
     (case rq_cookie req of
        None \<Rightarrow> (w, None)
      | Some sessionID \<Rightarrow>
          if sessionID = [] then (w, None)
          else case get_session env (io_get io) sessionID w of
            (w', Inl _) \<Rightarrow> (w', None)
          | (w', Inr session) \<Rightarrow>
              (case GetUserByID (io_user_ok io) (ses_UserID session) (w_users w') of
                 Inl _ \<Rightarrow> (w', None)
               | Inr user \<Rightarrow> (w', Some (user, session))))"

text \<open>The time a token was last used is written by a goroutine; \<open>io_login_ok\<close> says whether that statement took place.\<close>

definition AuthMiddleware ::
  "auth_env \<Rightarrow> auth_io \<Rightarrow> bool \<Rightarrow> http_req \<Rightarrow> req_ctx \<Rightarrow> world \<Rightarrow> world \<times> auth_outcome" where
  "AuthMiddleware env io required req ctx w =
     (case token_account env io req w of
        Some (user, tokenID) \<Rightarrow>
          (w\<lparr>w_tokens := fst (UpdateLastUsed (io_login_ok io) (io_now io) tokenID (w_tokens w))\<rparr>,
           NextHandler (ctx\<lparr>cx_user := Some user, cx_user_id := Some (u_ID user), cx_auth_method := Some ''api_token''\<rparr>))
      | None \<Rightarrow>
          (case cookie_account env io req w of
             (w', Some (user, session)) \<Rightarrow>
               (w', NextHandler (ctx\<lparr>cx_user := Some user, cx_user_id := Some (u_ID user), cx_session := Some session,
                                     cx_auth_method := Some ''session''\<rparr>))
           | (w', None) \<Rightarrow>
               (w', if required
                    then (if contains ''text/html'' (rq_accept req) then RedirectTo ''/server/auth/login''
                          else ApiError 401 ''UNAUTHORIZED'')
                    else NextHandler ctx)))"

definition RequireAuth :: "auth_env \<Rightarrow> auth_io \<Rightarrow> http_req \<Rightarrow> req_ctx \<Rightarrow> world \<Rightarrow> world \<times> auth_outcome" where
  "RequireAuth env io req ctx w = AuthMiddleware env io True req ctx w"

definition OptionalAuth :: "auth_env \<Rightarrow> auth_io \<Rightarrow> http_req \<Rightarrow> req_ctx \<Rightarrow> world \<Rightarrow> world \<times> auth_outcome" where
  "OptionalAuth env io req ctx w = AuthMiddleware env io False req ctx w"

definition RequireAdmin :: "req_ctx \<Rightarrow> auth_outcome" where
  "RequireAdmin ctx =
     (case cx_user ctx of
        None \<Rightarrow> ApiError 401 ''UNAUTHORIZED''
      | Some user \<Rightarrow> if u_Role user \<noteq> ''admin'' then ApiError 403 ''FORBIDDEN'' else NextHandler ctx)"

definition IsAuthenticated :: "req_ctx \<Rightarrow> bool" where
  "IsAuthenticated ctx \<longleftrightarrow> cx_user ctx \<noteq> None"

definition IsAdmin :: "req_ctx \<Rightarrow> bool" where
  "IsAdmin ctx \<longleftrightarrow> (case cx_user ctx of None \<Rightarrow> False | Some user \<Rightarrow> u_Role user = ''admin'')"

text \<open>\<open>adminPath\<close> is \<^verbatim>\<open>/server/\<close> followed by the configured path, or \<^verbatim>\<open>/server/admin\<close> without a configuration.\<close>

definition RestrictAdminToAdminRoutes :: "string \<Rightarrow> string \<Rightarrow> req_ctx \<Rightarrow> auth_outcome" where
  "RestrictAdminToAdminRoutes adminPath path ctx =
     (if list_ex (\<lambda>p. prefix p path)
           [adminPath, ''/api'', ''/static'', ''/server/auth/login'', ''/server/auth/logout'', ''/server/auth/register'',
            ''/server/healthz'', ''/healthz'', ''/debug'', ''/docs''] then NextHandler ctx
      else if IsAdmin ctx then NextHandler (ctx\<lparr>cx_user := None, cx_session := None\<rparr>)
      else NextHandler ctx)"

definition BlockAdminFromUserRoutes :: "string \<Rightarrow> string \<Rightarrow> string \<Rightarrow> req_ctx \<Rightarrow> auth_outcome" where
  "BlockAdminFromUserRoutes adminPath path accept ctx =
     (if \<not> prefix ''/users'' path then NextHandler ctx
      else if IsAdmin ctx then
        (if contains ''text/html'' accept then RedirectTo adminPath else ApiError 403 ''FORBIDDEN'')
      else NextHandler ctx)"

section \<open>Kinds of tokens\<close>

datatype TokenType =
  TokenTypeUnknown | TokenTypeAdmin | TokenTypeUser | TokenTypeOrg | TokenTypeAdminAgent | TokenTypeUserAgent | TokenTypeOrgAgent

definition DetectTokenType :: "string \<Rightarrow> TokenType" where
  "DetectTokenType token =
     (if prefix PrefixAdminAgt token then TokenTypeAdminAgent
      else if prefix PrefixUserAgt token then TokenTypeUserAgent
      else if prefix PrefixOrgAgt token then TokenTypeOrgAgent
      else if prefix PrefixAdmin token then TokenTypeAdmin
      else if prefix PrefixUser token then TokenTypeUser
      else if prefix PrefixOrg token then TokenTypeOrg
      else TokenTypeUnknown)"

definition ValidateTokenPrefix :: "string \<Rightarrow> bool" where
  "ValidateTokenPrefix token \<longleftrightarrow> DetectTokenType token \<noteq> TokenTypeUnknown"

text \<open>
  Who a token of the API speaks for. \<open>admin_of\<close> is the lookup of the administrators' tokens, kept in the server
  database.
\<close>

datatype 'a token_identity = AdminToken 'a | UserToken User Token

definition TokenAuthMiddleware ::
  "auth_env \<Rightarrow> auth_io \<Rightarrow> (string \<Rightarrow> 'a option) \<Rightarrow> string \<Rightarrow> world \<Rightarrow> world \<times> (nat \<times> string + 'a token_identity)" where
  "TokenAuthMiddleware env io admin_of header w =
     (if header = [] then (w, Inl (401, ''UNAUTHORIZED''))
      else case bearer_token header of
        None \<Rightarrow> (w, Inl (401, ''UNAUTHORIZED''))
      | Some token \<Rightarrow>
          if \<not> ValidateTokenPrefix token then (w, Inl (401, ''TOKEN_INVALID''))
          else case DetectTokenType token of
            TokenTypeAdmin \<Rightarrow>
              (w, case admin_of token of None \<Rightarrow> Inl (401, ''TOKEN_INVALID'') | Some admin \<Rightarrow> Inr (AdminToken admin))
          | TokenTypeUser \<Rightarrow>
              (case ValidateToken (en_hash env) (en_driver env) (io_token_ok io) (io_now io) token (w_tokens w) of
                 Inl _ \<Rightarrow> (w, Inl (401, ''TOKEN_INVALID''))
               | Inr validated \<Rightarrow>
                   (case GetUserByID (io_user_ok io) (tok_OwnerID validated) (w_users w) of
                      Inl _ \<Rightarrow> (w, Inl (401, ''TOKEN_INVALID''))
                    | Inr user \<Rightarrow>
                        (w\<lparr>w_tokens := fst (UpdateLastUsed (io_login_ok io) (io_now io) (tok_ID validated) (w_tokens w))\<rparr>,
                         Inr (UserToken user validated))))
          | _ \<Rightarrow> (w, Inl (401, ''TOKEN_INVALID'')))"

definition RequireAdminToken :: "'a token_identity \<Rightarrow> nat \<times> string + 'a" where
  "RequireAdminToken who = (case who of AdminToken a \<Rightarrow> Inr a | UserToken u t \<Rightarrow> Inl (403, ''FORBIDDEN''))"

section \<open>The sign-in page\<close>

text \<open>
  \<^verbatim>\<open>HandleLogin\<close> for accounts of the users table, that is when the credentials are not those of an administrator.
  A sign-in sets the session cookie with its lifetime in seconds and redirects, or answers in JSON.
\<close>

record LoginRequest =
  lq_Identifier :: string
  lq_Password :: string
  lq_TwoFactorCode :: string
  lq_UseRecoveryKey :: bool

datatype login_page = LoginRefused nat | CodePrompt | SignedIn string int "string option"

text \<open>The setting \<^verbatim>\<open>auth.session_timeout\<close>, \<open>None\<close> when it cannot be read; thirty days when it is not a number.\<close>

definition session_timeout :: "string option \<Rightarrow> int" where
  "session_timeout timeoutStr = (case Option.bind timeoutStr atoi of Some n \<Rightarrow> n | None \<Rightarrow> 2592000)"

definition second_factor ::
  "auth_env \<Rightarrow> auth_io \<Rightarrow> User \<Rightarrow> LoginRequest \<Rightarrow> world \<Rightarrow> world \<times> (nat + bool)" where
  "second_factor env io user req w =
     (let code = trimSpace (lq_TwoFactorCode req) in
      if lq_UseRecoveryKey req then
        (case VerifyAndUseRecoveryKey (en_hash env) (io_key io) (u_ID user) code (w_keys w) of
           (k, Inl _) \<Rightarrow> (w\<lparr>w_keys := k\<rparr>, Inl 500)
         | (k, Inr verified) \<Rightarrow> (w\<lparr>w_keys := k\<rparr>, Inr verified))
      else
        (case DecryptTwoFactorSecret (en_gcm env) (en_secret_key env) (u_TwoFactorSecret user) of
           Inl _ \<Rightarrow> (w, Inl 500)
         | Inr secret \<Rightarrow> (w, Inr (en_totp env secret code))))"

definition page_session ::
  "auth_env \<Rightarrow> auth_io \<Rightarrow> string option \<Rightarrow> bool \<Rightarrow> string \<Rightarrow> User \<Rightarrow> world \<Rightarrow> world \<times> login_page" where
  "page_session env io timeoutStr json redirect user w =
     (let sessionTimeout = session_timeout timeoutStr in
      case CreateSession (en_hash env) (io_session io) (UidInt64 (u_ID user)) sessionTimeout (w_sessions w) of
        (t, Inl _) \<Rightarrow> (w\<lparr>w_sessions := t\<rparr>, LoginRefused 500)
      | (t, Inr session) \<Rightarrow>
          (w\<lparr>w_sessions := t\<rparr>,
           SignedIn (ses_ID session) sessionTimeout
             (if json then None
              else if redirect \<noteq> [] \<and> prefix ''/'' redirect then Some redirect else Some ''/users/dashboard'')))"

definition HandleLogin_users ::
  "auth_env \<Rightarrow> auth_io \<Rightarrow> string option \<Rightarrow> bool \<Rightarrow> string \<Rightarrow> LoginRequest \<Rightarrow> world \<Rightarrow> world \<times> login_page" where
  "HandleLogin_users env io timeoutStr json redirect req w =
     (let ident = trimSpace (lq_Identifier req) in
      if lq_Password req \<noteq> trimSpace (lq_Password req) then (w, LoginRefused 400)
      else if ident = [] \<or> lq_Password req = [] then (w, LoginRefused 400)
      else case GetByIdentifier (io_name_ok io) (io_email_ok io) ident (w_users w) of
        Inl _ \<Rightarrow> (w, LoginRefused 401)
      | Inr user \<Rightarrow>
          if \<not> CheckPassword (en_argon env) user (lq_Password req) then (w, LoginRefused 401)
          else if en_verify_email env \<and> \<not> u_EmailVerified user then (w, LoginRefused 401)
          else if u_TwoFactorEnabled user then
            (if trimSpace (lq_TwoFactorCode req) = [] then (w, CodePrompt)
             else case second_factor env io user req w of
               (w1, Inl status) \<Rightarrow> (w1, LoginRefused status)
             | (w1, Inr verified) \<Rightarrow>
                 if \<not> verified then (w1, LoginRefused 401)
                 else page_session env io timeoutStr json redirect user w1)
          else page_session env io timeoutStr json redirect user w)"

section \<open>A pending sign-in is already signed in\<close>

lemma get_session_row:
  assumes "gt_query_ok io" "sql_lookup us_token_hash (en_hash env raw) (st_rows (w_sessions w)) = Some r"
    "ParseStoredTimestamp (us_expires_at r) = Some e" "gt_now io < e"
    "\<And>d. us_data r = Some d \<Longrightarrow> en_unmarshal env d \<noteq> None"
  shows "\<exists>s. get_session env io raw w = (w, Inr s) \<and> ses_ID s = raw \<and> ses_UserID s = us_user_id r"
  using assms by (cases "us_data r") (auto simp: get_session_def GetByID_def Let_def)

lemma GetUserByID_row:
  "users_wf db \<Longrightarrow> r \<in> set (ud_accounts db) \<Longrightarrow> GetUserByID True (ua_id r) db = Inr (full_user r)"
  using sql_lookup_in [of ua_id "ud_accounts db" r] by (simp add: GetUserByID_def user_query_def distinct_names)

definition cookie_request :: "string \<Rightarrow> http_req" where
  "cookie_request tok = \<lparr>rq_path = ''/users'', rq_authorization = [], rq_cookie = Some tok, rq_accept = []\<rparr>"

lemma AuthMiddleware_cookie:
  assumes "get_session env (io_get io) tok w = (w, Inr s)" "tok \<noteq> []" "GetUserByID (io_user_ok io) (ses_UserID s) (w_users w) = Inr user"
  shows "AuthMiddleware env io required (cookie_request tok) ctx w =
    (w, NextHandler (ctx\<lparr>cx_user := Some user, cx_user_id := Some (u_ID user), cx_session := Some s, cx_auth_method := Some ''session''\<rparr>))"
  using assms by (simp add: AuthMiddleware_def token_account_def cookie_account_def cookie_request_def)

lemma createPending_keys: "createPendingTwoFactorSession env io u w = (w', Inr s) \<Longrightarrow> w_keys w' = w_keys w"
  by (auto simp: createPendingTwoFactorSession_def split: prod.splits sum.splits bool.splits)

lemma pending_session_accepted:
  assumes login: "LoginAPIUser env io req ip w = (w', Inr resp)" "ar_RequiresTwoFactor resp" "ar_SessionToken resp \<noteq> []"
    and wf: "users_wf (w_users w)" and json: "en_unmarshal env pending_json \<noteq> None"
    and expiry: "expiry = cr_expiry_base (io_session io) + wrap64 (authPendingSessionTTLSeconds * second_ns)"
      "0 \<le> year utc expiry" "year utc expiry \<le> 9999"
    and later: "io_user_ok io'" "gt_query_ok (io_get io')" "gt_now (io_get io') < expiry - expiry mod second_ns"
  shows "\<exists>r\<in>set (ud_accounts (w_users w)). \<exists>s.
    (ua_username r = trimSpace (lr_Identifier req) \<or> ua_email r = trimSpace (lr_Identifier req)) \<and>
    CheckPassword (en_argon env) (login_user r) (lr_Password req) \<and> (ua_two_factor_enabled r \<or> ua_id r \<in> set (w_passkeys w)) \<and>
    w_users w' = w_users w \<and> w_keys w' = w_keys w \<and>
    AuthMiddleware env io' True (cookie_request (ar_SessionToken resp)) ctx w' =
      (w', NextHandler (ctx\<lparr>cx_user := Some (full_user r), cx_user_id := Some (ua_id r), cx_session := Some s,
                            cx_auth_method := Some ''session''\<rparr>))"
  using login(1)
proof (cases rule: LoginAPIUser_Inr)
  case (row r)
  then obtain s where p: "createPendingTwoFactorSession env io (ua_id r) w = (w', Inr s)" "ar_SessionToken resp = ses_ID s"
      "ua_two_factor_enabled r \<or> ua_id r \<in> set (w_passkeys w)"
    using login(2) createFull_opens [of env io "login_user r" w _ resp]
      loginWithRecoveryKey_opens [of env io "login_user r" "lr_RecoveryKey req" ip w w' resp]
      loginWithTwoFactorCode_opens [of env io "login_user r" "lr_TwoFactorCode req" ip w w' resp] by blast
  obtain q where q: "sql_lookup us_token_hash (en_hash env (ses_ID s)) (st_rows (w_sessions w')) = Some q" "us_user_id q = ua_id r"
      "us_data q = Some pending_json" "us_expires_at q = VStr (FormatSQLTimestamp expiry)" "w_users w' = w_users w"
    using createPending_opens [OF p(1)] expiry(1) by auto
  have "ParseStoredTimestamp (us_expires_at q) = Some (expiry - expiry mod second_ns)"
    using stored_text_reads_back [OF expiry(2,3)] q(4) by simp
  from get_session_row [OF later(2) q(1) this later(3)] q(2,3) json obtain s' where
      "get_session env (io_get io') (ses_ID s) w' = (w', Inr s')" "ses_UserID s' = ua_id r" by auto
  from AuthMiddleware_cookie [OF this(1), of "full_user r" True ctx] this(2) GetUserByID_row [OF wf row(1)] later(1) q(5) p(2) login(3)
  have "AuthMiddleware env io' True (cookie_request (ar_SessionToken resp)) ctx w' =
      (w', NextHandler (ctx\<lparr>cx_user := Some (full_user r), cx_user_id := Some (ua_id r), cx_session := Some s',
                            cx_auth_method := Some ''session''\<rparr>))" by simp
  with row(1-3) p(3) q(5) createPending_keys [OF p(1)] show ?thesis by blast
qed

text \<open>
  C11. The second factor is not enforced. When \<open>LoginAPIUser\<close> asks for a second factor it hands out a pending session
  token; that token is an ordinary row of the sessions table, and \<open>AuthMiddleware\<close>, which does not look at the
  data of a session, lets a request with it as its cookie through, as the account, until the fifteen minutes are over.
  The password alone is enough.
\<close>

theorem pending_token_authenticates:
  assumes login: "LoginAPIUser env io req ip w = (w', Inr resp)" "ar_RequiresTwoFactor resp" "ar_SessionToken resp \<noteq> []"
    and wf: "users_wf (w_users w)" and json: "en_unmarshal env pending_json \<noteq> None"
    and expiry: "expiry = cr_expiry_base (io_session io) + wrap64 (authPendingSessionTTLSeconds * second_ns)"
      "0 \<le> year utc expiry" "year utc expiry \<le> 9999"
    and later: "io_user_ok io'" "gt_query_ok (io_get io')" "gt_now (io_get io') < expiry - expiry mod second_ns"
  shows "\<exists>r\<in>set (ud_accounts (w_users w)). \<exists>s.
    (ua_username r = trimSpace (lr_Identifier req) \<or> ua_email r = trimSpace (lr_Identifier req)) \<and>
    AuthMiddleware env io' True (cookie_request (ar_SessionToken resp)) ctx w' =
      (w', NextHandler (ctx\<lparr>cx_user := Some (full_user r), cx_user_id := Some (ua_id r), cx_session := Some s,
                            cx_auth_method := Some ''session''\<rparr>))"
  using pending_session_accepted [OF assms] by blast

definition ann_2fa :: user_row where
  "ann_2fa = ann\<lparr>ua_two_factor_enabled := True, ua_two_factor_secret := Some ''s3''\<rparr>"

lemma demo_users_wf: "users_wf \<lparr>ud_next = 2, ud_accounts = [ann_2fa], ud_preferences = []\<rparr>"
  by (simp add: users_wf_def account_rows.table_ok_def unique_accounts_def account_ok_def ann_2fa_def) (simp add: ann_def new_account_def)

lemma demo_pending_login:
  "\<exists>w' resp. LoginAPIUser demo_env demo_io ann_login [] (demo_world ann_2fa) = (w', Inr resp) \<and> ar_RequiresTwoFactor resp \<and>
     ar_SessionToken resp = ''tok''"
proof -
  obtain w1 s where p: "createPendingTwoFactorSession demo_env demo_io 1 (demo_world ann_2fa) = (w1, Inr s)" "ses_ID s = ''tok''"
    by (simp add: createPendingTwoFactorSession_def demo_session UpdateData_def session_update_def)
  have fields: "ua_id ann_2fa = 1" "ua_username ann_2fa = ''ann''" "ua_password_hash ann_2fa = toy_hash" "ua_is_active ann_2fa"
      "\<not> ua_is_banned ann_2fa" "ua_two_factor_enabled ann_2fa"
    by (simp_all add: ann_2fa_def)
  have "LoginAPIUser demo_env demo_io ann_login [] (demo_world ann_2fa) = (w1, Inr \<lparr>ar_RequiresTwoFactor = True,
      ar_SessionToken = ses_ID s, ar_Token = [], ar_User = None, ar_ExpiresAt = None, ar_RemainingKeys = None\<rparr>)"
    using LoginAPIUser_known(3) [of ann_login demo_io demo_env "login_user ann_2fa" "demo_world ann_2fa" w1 s "[]"]
      p(1) demo_login [OF fields(1-5)] fields
    by (simp add: ann_login_def demo_trim)
  with p(2) show ?thesis by auto
qed

lemma demo_expiry:
  "year utc (1700000900 * second_ns) = 2023"
  "1700000900 * second_ns = cr_expiry_base (io_session demo_io) + wrap64 (authPendingSessionTTLSeconds * second_ns)"
  "gt_now (io_get demo_io) < 1700000900 * second_ns - 1700000900 * second_ns mod second_ns"
proof -
  show "year utc (1700000900 * second_ns) = 2023" by code_simp
  show "1700000900 * second_ns = cr_expiry_base (io_session demo_io) + wrap64 (authPendingSessionTTLSeconds * second_ns)"
    by (simp add: create_ok_def) code_simp
  show "gt_now (io_get demo_io) < 1700000900 * second_ns - 1700000900 * second_ns mod second_ns" by (simp add: unit_defs)
qed

theorem pending_token_authenticates_witness:
  "\<exists>w' resp s. LoginAPIUser demo_env demo_io ann_login [] (demo_world ann_2fa) = (w', Inr resp) \<and> ar_RequiresTwoFactor resp \<and>
     AuthMiddleware demo_env demo_io True (cookie_request (ar_SessionToken resp)) anonymous w' =
       (w', NextHandler (anonymous\<lparr>cx_user := Some (full_user ann_2fa), cx_user_id := Some 1, cx_session := Some s,
                                   cx_auth_method := Some ''session''\<rparr>))"
proof -
  obtain w1 resp where l: "LoginAPIUser demo_env demo_io ann_login [] (demo_world ann_2fa) = (w1, Inr resp)"
      "ar_RequiresTwoFactor resp" "ar_SessionToken resp = ''tok''"
    using demo_pending_login by blast
  have "ua_id ann_2fa = 1" by (simp add: ann_2fa_def)
  with pending_token_authenticates [OF l(1,2) _ _ _ demo_expiry(2), of demo_io anonymous] demo_expiry l demo_users_wf
  show ?thesis by auto
qed

section \<open>The sign-in page and suspended accounts\<close>

lemma page_session_opens:
  assumes "cr_token (io_session io) = Some tok" "cr_insert_ok (io_session io)"
    "\<forall>q\<in>set (st_rows (w_sessions w)). us_token_hash q \<noteq> en_hash env tok"
  shows "\<exists>w' target. page_session env io timeoutStr json redirect user w = (w', SignedIn tok (session_timeout timeoutStr) target) \<and>
    opens env (u_ID user) None tok w w'"
proof -
  have "\<not> (\<exists>q\<in>set (st_rows (w_sessions w)). us_token_hash q = en_hash env tok)" using assms(3) by blast
  then obtain t s where c: "CreateSession (en_hash env) (io_session io) (UidInt64 (u_ID user)) (session_timeout timeoutStr) (w_sessions w) = (t, Inr s)"
      "ses_ID s = tok"
    using assms(1,2) by (simp add: CreateSession_def Let_def)
  from CreateSession_row [OF c(1)] c show ?thesis by (auto simp: page_session_def Let_def opens_def)
qed

text \<open>
  C20. The two ways to sign in disagree on suspended accounts. An account that is disabled or banned, whose password is
  right and which has no TOTP secret, is refused by \<open>LoginAPIUser\<close>; the sign-in page accepts it and opens a session.
\<close>

theorem suspended_account_signs_in:
  assumes account: "GetByIdentifier (io_name_ok io) (io_email_ok io) (trimSpace ident) (w_users w) = Inr (login_user r)"
      "VerifyPassword (en_argon env) p (ua_password_hash r) = Inr True" "\<not> ua_is_active r \<or> ua_is_banned r"
      "ua_email_verified r \<or> \<not> en_verify_email env" "\<not> ua_two_factor_enabled r"
    and typed: "p = trimSpace p" "p \<noteq> []" "trimSpace ident \<noteq> []"
    and session: "cr_token (io_session io) = Some tok" "cr_insert_ok (io_session io)" "io_passkeys_ok io"
      "\<forall>q\<in>set (st_rows (w_sessions w)). us_token_hash q \<noteq> en_hash env tok"
  shows "LoginAPIUser env io \<lparr>lr_Identifier = ident, lr_Password = p, lr_TwoFactorCode = [], lr_RecoveryKey = []\<rparr> ip w =
      (w, Inl (if ua_is_active r then Suspended else Disabled)) \<and>
    (\<exists>w' target. HandleLogin_users env io timeoutStr json redirect
        \<lparr>lq_Identifier = ident, lq_Password = p, lq_TwoFactorCode = [], lq_UseRecoveryKey = False\<rparr> w =
        (w', SignedIn tok (session_timeout timeoutStr) target) \<and> opens env (ua_id r) None tok w w')"
proof
  have check: "CheckPassword (en_argon env) (login_user r) p" using account(2) by (simp add: CheckPassword_def)
  show "LoginAPIUser env io \<lparr>lr_Identifier = ident, lr_Password = p, lr_TwoFactorCode = [], lr_RecoveryKey = []\<rparr> ip w =
      (w, Inl (if ua_is_active r then Suspended else Disabled))"
    using account check typed(1) session(3) by (intro LoginAPIUser_known(1)) (auto simp: validateAuthUser_def)
  have "HandleLogin_users env io timeoutStr json redirect
        \<lparr>lq_Identifier = ident, lq_Password = p, lq_TwoFactorCode = [], lq_UseRecoveryKey = False\<rparr> w =
      page_session env io timeoutStr json redirect (login_user r) w"
    using account check typed by (auto simp: HandleLogin_users_def Let_def)
  with page_session_opens [OF session(1,2,4), of timeoutStr json redirect "login_user r"]
  show "\<exists>w' target. HandleLogin_users env io timeoutStr json redirect
        \<lparr>lq_Identifier = ident, lq_Password = p, lq_TwoFactorCode = [], lq_UseRecoveryKey = False\<rparr> w =
        (w', SignedIn tok (session_timeout timeoutStr) target) \<and> opens env (ua_id r) None tok w w'" by simp
qed

theorem suspended_account_signs_in_witness:
  "\<exists>w' target. HandleLogin_users demo_env demo_io None False []
      \<lparr>lq_Identifier = ''ann'', lq_Password = ''secret'', lq_TwoFactorCode = [], lq_UseRecoveryKey = False\<rparr>
      (demo_world (ann\<lparr>ua_is_banned := True, ua_ban_reason := Some ''spam''\<rparr>)) = (w', SignedIn ''tok'' 2592000 target)"
proof -
  let ?r = "ann\<lparr>ua_is_banned := True, ua_ban_reason := Some ''spam''\<rparr>"
  have "GetByIdentifier True True (trimSpace ''ann'') (w_users (demo_world ?r)) = Inr (login_user ?r)"
    by (simp add: GetByIdentifier_row login_row_def demo_trim)
  with suspended_account_signs_in [of demo_io "''ann''" "demo_world ?r" ?r demo_env "''secret''" "''tok''" "[]" None False "[]"]
  show ?thesis by (auto simp: demo_trim toy_verify create_ok_def session_timeout_def)
qed

text \<open>What the page accepts as the target of its redirect: any text that starts with a slash, also \<^verbatim>\<open>//host\<close>, another site.\<close>

lemma open_redirect:
  "page_session demo_env demo_io None False ''//evil.example'' (login_user ann) (demo_world ann) =
     (w', SignedIn tok n (Some ''//evil.example'')) \<longleftrightarrow>
   w' = fst (page_session demo_env demo_io None False ''//evil.example'' (login_user ann) (demo_world ann)) \<and> tok = ''tok'' \<and> n = 2592000"
  by (auto simp: page_session_def demo_session Let_def session_timeout_def)

section \<open>Administrators\<close>

lemma bearer_token_iff: "bearer_token header = Some token \<longleftrightarrow> header = ''Bearer '' @ token"
proof
  assume "bearer_token header = Some token"
  then have c: "cut_char CHR '' '' header = (''Bearer'', Some token)"
    by (auto simp: bearer_token_def split: prod.splits option.splits if_splits)
  then show "header = ''Bearer '' @ token" using cut_char_join by fastforce
qed (simp add: bearer_token_def)

text \<open>
  C21. The administration routes are closed to user tokens: behind \<open>TokenAuthMiddleware\<close> and \<open>RequireAdminToken\<close> a request
  goes through exactly when its header is \<^verbatim>\<open>Bearer\<close>, a blank and a token that starts with \<^verbatim>\<open>adm_\<close>, is not an agent's token and
  is known as an administrator's; the request is then that administrator's.
\<close>

theorem admin_routes_need_admin_token:
  "(\<exists>who. snd (TokenAuthMiddleware env io admin_of header w) = Inr who \<and> RequireAdminToken who = Inr a) \<longleftrightarrow>
   (\<exists>token. header = ''Bearer '' @ token \<and> prefix ''adm_'' token \<and> \<not> prefix ''adm_agt_'' token \<and> admin_of token = Some a)"
proof -
  have type: "DetectTokenType token = TokenTypeAdmin \<longleftrightarrow> prefix ''adm_'' token \<and> \<not> prefix ''adm_agt_'' token" for token
    by (auto simp: DetectTokenType_def prefix_consts prefix_def)
  have "(\<exists>who. snd (TokenAuthMiddleware env io admin_of header w) = Inr who \<and> RequireAdminToken who = Inr a) \<longleftrightarrow>
      (\<exists>token. bearer_token header = Some token \<and> DetectTokenType token = TokenTypeAdmin \<and> admin_of token = Some a)"
    by (cases "header = []")
      (auto simp: TokenAuthMiddleware_def ValidateTokenPrefix_def RequireAdminToken_def bearer_token_def
        split: option.splits TokenType.splits sum.splits prod.splits if_splits)
  then show ?thesis by (simp add: bearer_token_iff type)
qed

text \<open>An administrator on another route is treated as a guest, but the number of the account stays in the context.\<close>

lemma restricted_admin_keeps_id:
  assumes "IsAdmin ctx" "cx_user_id ctx = Some i"
  shows "\<exists>ctx'. RestrictAdminToAdminRoutes ''/server/admin'' ''/users'' ctx = NextHandler ctx' \<and> \<not> IsAuthenticated ctx' \<and>
    cx_user_id ctx' = Some i"
  using assms by (simp add: RestrictAdminToAdminRoutes_def IsAuthenticated_def)

end
