(* ===== verification/Registration.thy ===== *)
theory Registration
  imports Request_Auth
begin

text \<open>
  Becoming and staying a user, \<^verbatim>\<open>src/server/handler/auth_api.go\<close> and \<^verbatim>\<open>src/server/handler/auth.go\<close>: registration, verification of
  the e-mail address, password resets and invitations, as compositions of the accounts, the one-time
  tokens and the sessions. The mails themselves are not modelled.
\<close>

section \<open>Registration\<close>

record AuthRegisterResponse =
  rr_VerificationRequired :: bool
  rr_Token :: string
  rr_User :: AuthUserSummary

definition create_account ::
  "auth_env \<Rightarrow> auth_io \<Rightarrow> string \<Rightarrow> string \<Rightarrow> string \<Rightarrow> string \<Rightarrow> world \<Rightarrow> world \<times> (user_error + User)" where
  "create_account env io username email password role w =
     (case CreateUserAccount (en_argon env) (io_create io) username email password role (w_users w) of
        (db, res) \<Rightarrow> (w\<lparr>w_users := db\<rparr>, res))"

definition createUserEmailVerification :: "auth_env \<Rightarrow> auth_io \<Rightarrow> int \<Rightarrow> string \<Rightarrow> world \<Rightarrow> world \<times> bool" where
  "createUserEmailVerification env io userID email w =
     (case CreateVerification (en_hash env) (io_ticket io) userID email (w_verifications w) of
        (t, Inl _) \<Rightarrow> (w\<lparr>w_verifications := t\<rparr>, False)
      | (t, Inr _) \<Rightarrow> (w\<lparr>w_verifications := t\<rparr>, True))"

definition RegisterAPIUser ::
  "auth_env \<Rightarrow> auth_io \<Rightarrow> string \<Rightarrow> string \<Rightarrow> string \<Rightarrow> world \<Rightarrow> world \<times> (auth_error + AuthRegisterResponse)" where
  "RegisterAPIUser env io name0 email0 password w =
     (if \<not> en_multi_user env then (w, Inl RegistrationUnavailable)
      else if \<not> en_registration_open env then (w, Inl RegistrationClosed)
      else
        (let email = trimSpace email0; username = NormalizeUsername (en_lower env) (trimSpace name0) in
         case ValidateUsername (en_lower env) username of
           Some e \<Rightarrow> (w, Inl (BadUsername e))
         | None \<Rightarrow>
             (case ValidateEmail (en_lower env) email of
                Some e \<Rightarrow> (w, Inl (BadEmail e))
              | None \<Rightarrow>
                  if length password < 8 then (w, Inl PasswordTooShort)
                  else case create_account env io username email password ''user'' w of
                    (w1, Inl UniqueViolation) \<Rightarrow> (w1, Inl AccountExists)
                  | (w1, Inl _) \<Rightarrow> (w1, Inl AccountFailed)
                  | (w1, Inr user) \<Rightarrow>
                      (let summary = buildAuthUserSummary env user in
                       if en_verify_email env then
                         (case createUserEmailVerification env io (u_ID user) (u_Email user) w1 of
                            (w2, False) \<Rightarrow> (w2, Inl VerificationFailed)
                          | (w2, True) \<Rightarrow> (w2, Inr \<lparr>rr_VerificationRequired = True, rr_Token = [], rr_User = summary\<rparr>))
                       else
                         (case createFullAuthSession env io user w1 of
                            (w2, Inl _) \<Rightarrow> (w2, Inl SessionFailed)
                          | (w2, Inr response) \<Rightarrow>
                              (w2, Inr \<lparr>rr_VerificationRequired = False, rr_Token = ar_Token response, rr_User = summary\<rparr>))))))"

text \<open>The registration page. The minimal length of a password is only asked for in JSON requests, before this code runs.\<close>

datatype register_page = RegisterRefused nat | PleaseVerify | Registered string int "string option"

definition HandleRegister ::
  "auth_env \<Rightarrow> auth_io \<Rightarrow> string option \<Rightarrow> bool \<Rightarrow> string \<Rightarrow> string \<Rightarrow> string \<Rightarrow> string \<Rightarrow> string \<Rightarrow> world \<Rightarrow> world \<times> register_page" where
  "HandleRegister env io timeoutStr json redirect name0 email0 password confirm w =
     (if \<not> (en_multi_user env \<and> en_registration_open env) then (w, RegisterRefused 404)
      else
        (let email = trimSpace email0; username = NormalizeUsername (en_lower env) (trimSpace name0) in
         if password \<noteq> trimSpace password then (w, RegisterRefused 400)
         else if password \<noteq> confirm then (w, RegisterRefused 400)
         else if ValidateEmail (en_lower env) email \<noteq> None then (w, RegisterRefused 400)
         else if ValidateUsername (en_lower env) username \<noteq> None then (w, RegisterRefused 400)
         else case create_account env io username email password ''user'' w of
           (w1, Inl UniqueViolation) \<Rightarrow> (w1, RegisterRefused 400)
         | (w1, Inl _) \<Rightarrow> (w1, RegisterRefused 500)
         | (w1, Inr user) \<Rightarrow>
             if en_verify_email env then
               (case createUserEmailVerification env io (u_ID user) (u_Email user) w1 of
                  (w2, False) \<Rightarrow> (w2, RegisterRefused 500)
                | (w2, True) \<Rightarrow> (w2, PleaseVerify))
             else
               (let sessionTimeout = session_timeout timeoutStr in
                case CreateSession (en_hash env) (io_session io) (UidInt64 (u_ID user)) sessionTimeout (w_sessions w1) of
                  (t, Inl _) \<Rightarrow> (w1\<lparr>w_sessions := t\<rparr>, RegisterRefused 500)
                | (t, Inr session) \<Rightarrow>
                    (w1\<lparr>w_sessions := t\<rparr>,
                     Registered (ses_ID session) sessionTimeout
                       (if json then None
                        else if redirect = [] \<or> prefix ''/server/admin'' redirect then Some ''/users'' else Some redirect)))))"

section \<open>Verification of the address, and password resets\<close>

text \<open>The redemption of a ticket: the row of the token's hash, while its expiry lies in the future. \<^verbatim>\<open>used_at\<close> is not looked at.\<close>

definition redeem :: "auth_env \<Rightarrow> auth_io \<Rightarrow> string \<Rightarrow> ticket_table \<Rightarrow> ticket_row option" where
  "redeem env io token t =
     (if \<not> io_ticket_ok io then None
      else case sql_lookup tr_token (en_hash env (trimSpace token)) (tb_rows t) of
        None \<Rightarrow> None
      | Some r \<Rightarrow> if IsAfter (tr_expires_at r) (io_now io) then Some r else None)"

definition delete_ticket :: "bool \<Rightarrow> int \<Rightarrow> ticket_table \<Rightarrow> ticket_table" where
  "delete_ticket ok i t = (if ok then t\<lparr>tb_rows := sql_delete (\<lambda>r. tr_id r = i) (tb_rows t)\<rparr> else t)"

definition VerifyAPIUserEmail :: "auth_env \<Rightarrow> auth_io \<Rightarrow> string \<Rightarrow> world \<Rightarrow> world \<times> auth_error option" where
  "VerifyAPIUserEmail env io token w =
     (case redeem env io token (w_verifications w) of
        None \<Rightarrow> (w, Some BadTicket)
      | Some r \<Rightarrow>
          (case user_set (io_update_ok io) (tr_user_id r)
                  (\<lambda>u. u\<lparr>ua_email_verified := True, ua_updated_at := VStr (FormatSQLTimestamp (io_now io))\<rparr>) (w_users w) of
             (db, False) \<Rightarrow> (w\<lparr>w_users := db\<rparr>, Some VerifyEmailFailed)
           | (db, True) \<Rightarrow>
               (w\<lparr>w_users := db, w_verifications := delete_ticket (io_delete_ok io) (tr_id r) (w_verifications w)\<rparr>, None)))"

text \<open>The goroutine of a reset request, up to the mail; the answer to the request says nothing of it.\<close>

definition request_reset :: "auth_env \<Rightarrow> auth_io \<Rightarrow> string \<Rightarrow> world \<Rightarrow> world" where
  "request_reset env io email w =
     (if \<not> io_email_ok io then w
      else case find (\<lambda>u. ua_email u = email \<and> ua_is_active u) (ud_accounts (w_users w)) of
        None \<Rightarrow> w
      | Some u \<Rightarrow>
          (case GenerateSecureToken (vi_random (io_ticket io)) of
             None \<Rightarrow> w
           | Some token \<Rightarrow>
               (let t = w_resets w in
                if \<not> vi_insert_ok (io_ticket io) \<or> (\<exists>r\<in>set (tb_rows t). tr_token r = en_hash env token) then w
                else w\<lparr>w_resets := \<lparr>tb_next = tb_next t + 1, tb_rows = tb_rows t @
                       [\<lparr>tr_id = tb_next t, tr_user_id = ua_id u, tr_token = en_hash env token, tr_email = [],
                         tr_created_at = VStr (FormatSQLTimestamp (io_now io)),
                         tr_expires_at = VStr (FormatSQLTimestamp (io_now io + hour_ns)), tr_used_at = VNil\<rparr>]\<rparr>\<rparr>)))"

definition RequestAPIUserPasswordReset :: "auth_env \<Rightarrow> auth_io \<Rightarrow> string \<Rightarrow> world \<Rightarrow> world \<times> email_error option" where
  "RequestAPIUserPasswordReset env io email0 w =
     (let email = trimSpace email0 in
      case ValidateEmail (en_lower env) email of
        Some e \<Rightarrow> (w, Some e)
      | None \<Rightarrow> (request_reset env io email w, None))"

definition ResetAPIUserPassword :: "auth_env \<Rightarrow> auth_io \<Rightarrow> string \<Rightarrow> string \<Rightarrow> world \<Rightarrow> world \<times> auth_error option" where
  "ResetAPIUserPassword env io token password w =
     (if length password < 8 then (w, Some PasswordTooShort)
      else case redeem env io token (w_resets w) of
        None \<Rightarrow> (w, Some BadTicket)
      | Some r \<Rightarrow>
          (case HashPassword (en_argon env) (io_salt io) password of
             Inl _ \<Rightarrow> (w, Some PasswordHashFailed)
           | Inr hashed \<Rightarrow>
               (case user_set (io_update_ok io) (tr_user_id r)
                       (\<lambda>u. u\<lparr>ua_password_hash := hashed, ua_updated_at := VStr (FormatSQLTimestamp (io_now io))\<rparr>) (w_users w) of
                  (db, False) \<Rightarrow> (w\<lparr>w_users := db\<rparr>, Some ResetFailed)
                | (db, True) \<Rightarrow>
                    (w\<lparr>w_users := db, w_resets := delete_ticket (io_delete_ok io) (tr_id r) (w_resets w),
                       w_sessions := fst (DeleteByUserID (io_data_ok io) (tr_user_id r) (w_sessions w))\<rparr>, None))))"

section \<open>Invitations\<close>

record invite_call =
  ic_schema_ok :: bool
  ic_ok :: bool
  ic_now :: instant
  ic_mark_ok :: bool

definition ValidateAPIUserInvite :: "auth_env \<Rightarrow> invite_call \<Rightarrow> string \<Rightarrow> world \<Rightarrow> auth_error + UserInvite" where
  "ValidateAPIUserInvite env ic token0 w =
     (let token = trimSpace token0 in
      if token = [] then Inl TokenRequired
      else case VerifyInvite (en_hash env) (ic_schema_ok ic) (ic_ok ic) (ic_now ic) token (w_invites w) of
        Inl e \<Rightarrow> Inl (InviteRefused e)
      | Inr invite \<Rightarrow> Inr (invite\<lparr>iv_Email := MaskEmail (en_lower env) (iv_Email invite)\<rparr>))"

text \<open>The answer: the token of a session and the account, or a message that the account exists but has no session.\<close>

datatype invite_answer = InviteSession string AuthUserSummary | PleaseLogIn

definition CompleteAPIUserInvite ::
  "auth_env \<Rightarrow> auth_io \<Rightarrow> invite_call \<Rightarrow> string \<Rightarrow> string \<Rightarrow> string \<Rightarrow> world \<Rightarrow> world \<times> (auth_error + invite_answer)" where
  "CompleteAPIUserInvite env io ic token0 username0 password w =
     (let token = trimSpace token0; username = NormalizeUsername (en_lower env) username0 in
      if token = [] then (w, Inl TokenRequired)
      else case VerifyInvite (en_hash env) (ic_schema_ok ic) (ic_ok ic) (ic_now ic) token (w_invites w) of
        Inl e \<Rightarrow> (w, Inl (InviteRefused e))
      | Inr invite \<Rightarrow>
          (case ValidateUsername (en_lower env) username of
             Some e \<Rightarrow> (w, Inl (BadUsername e))
           | None \<Rightarrow>
               if iv_Username invite \<noteq> [] \<and> username \<noteq> NormalizeUsername (en_lower env) (iv_Username invite)
               then (w, Inl InviteNameMismatch)
               else if iv_Email invite = [] then (w, Inl InviteWithoutEmail)
               else case create_account env io username (iv_Email invite) password (iv_Role invite) w of
                 (w1, Inl _) \<Rightarrow> (w1, Inl AccountFailed)
               | (w1, Inr user) \<Rightarrow>
                   (case user_set (io_update_ok io) (u_ID user)
                           (\<lambda>u. u\<lparr>ua_email_verified := True, ua_updated_at := VStr (FormatSQLTimestamp (io_now io))\<rparr>) (w_users w1) of
                      (db, False) \<Rightarrow> (w1\<lparr>w_users := db\<rparr>, Inl FinalizeAccountFailed)
                    | (db, True) \<Rightarrow>
                        (case MarkInviteUsed (en_hash env) (ic_schema_ok ic) (ic_mark_ok ic) (ic_now ic) token (u_ID user) (w_invites w1) of
                           (t, False) \<Rightarrow> (w1\<lparr>w_users := db, w_invites := t\<rparr>, Inl FinalizeInviteFailed)
                         | (t, True) \<Rightarrow>
                             (let w2 = w1\<lparr>w_users := db, w_invites := t\<rparr> in
                              case CreateSession (en_hash env) (io_session io) (UidInt64 (u_ID user)) authSessionTTLSeconds
                                     (w_sessions w2) of
                                (s, Inl _) \<Rightarrow> (w2\<lparr>w_sessions := s\<rparr>, Inr PleaseLogIn)
                              | (s, Inr session) \<Rightarrow>
                                  (w2\<lparr>w_sessions := s\<rparr>, Inr (InviteSession (ses_ID session) (buildAuthUserSummary env user))))))))"

section \<open>Registering and signing in\<close>

lemma createFull_ok:
  assumes "cr_token (io_session io) = Some tok" "cr_insert_ok (io_session io)"
    "\<forall>q\<in>set (st_rows (w_sessions w)). us_token_hash q \<noteq> en_hash env tok"
  shows "\<exists>w' resp. createFullAuthSession env io user w = (w', Inr resp) \<and> ar_Token resp = tok"
proof -
  have "\<not> (\<exists>q\<in>set (st_rows (w_sessions w)). us_token_hash q = en_hash env tok)" using assms(3) by blast
  with assms(1,2) show ?thesis by (simp add: createFullAuthSession_def CreateSession_def Let_def)
qed

lemma createFull_frame:
  assumes "createFullAuthSession env io user w = (w', res)"
  shows "w_users w' = w_users w" "w_passkeys w' = w_passkeys w"
  using assms by (auto simp: createFullAuthSession_def split: prod.splits sum.splits)

lemma create_account_row:
  assumes "create_account env io n e p ro w = (w', Inr user)" "users_wf (w_users w)" "cu_salt (io_create io) = Some salt"
    "en_argon env p salt 3 65536 4 32 = Some key"
  shows "w_passkeys w' = w_passkeys w \<and> w_sessions w' = w_sessions w \<and> w_invites w' = w_invites w \<and>
    (\<exists>r. ud_accounts (w_users w') = ud_accounts (w_users w) @ [r] \<and> ua_id r = ud_next (w_users w) \<and> ua_username r = n \<and> ua_email r = e \<and>
       ua_password_hash r = phc_text salt key \<and> ua_is_active r \<and> \<not> ua_is_banned r \<and> \<not> ua_two_factor_enabled r \<and>
       (\<forall>q\<in>set (ud_accounts (w_users w)). \<not> clashes r q) \<and> user = full_user r)"
proof -
  obtain db where c: "CreateUserAccount (en_argon env) (io_create io) n e p ro (w_users w) = (db, Inr user)" "w' = w\<lparr>w_users := db\<rparr>"
    using assms(1) by (auto simp: create_account_def split: prod.splits)
  from CreateUserAccount_result [OF c(1) assms(3), OF assms(4,2)] c(2) show ?thesis by auto
qed

lemma register_Inr:
  assumes "RegisterAPIUser env io name0 email0 p w = (w', Inr resp)" "\<not> en_verify_email env"
  obtains w1 user response where
    "create_account env io (NormalizeUsername (en_lower env) (trimSpace name0)) (trimSpace email0) p ''user'' w = (w1, Inr user)"
    "createFullAuthSession env io user w1 = (w', Inr response)" "8 \<le> length p" "rr_Token resp = ar_Token response"
proof -
  obtain w1 res where c: "create_account env io (NormalizeUsername (en_lower env) (trimSpace name0)) (trimSpace email0) p ''user'' w = (w1, res)"
    by fastforce
  have l: "8 \<le> length p" using assms by (auto simp: RegisterAPIUser_def Let_def split: if_splits option.splits)
  obtain user where u: "res = Inr user"
    using assms c by (auto simp: RegisterAPIUser_def Let_def split: if_splits option.splits sum.splits user_error.splits)
  have "\<exists>response. createFullAuthSession env io user w1 = (w', Inr response) \<and> rr_Token resp = ar_Token response"
    using assms c u by (auto simp: RegisterAPIUser_def Let_def split: if_splits option.splits sum.splits prod.splits)
  with that c u l show thesis by blast
qed

text \<open>
  C18. Who registers can sign in, unless the password begins or ends with white space. After \<open>RegisterAPIUser\<close> succeeded
  (addresses are not verified), \<open>LoginAPIUser\<close> with the registered name and password opens a session for the
  new account when the password has no surrounding white space; otherwise the account was made all the same, and the
  sign-in refuses its password.
\<close>

theorem register_then_login:
  assumes reg: "RegisterAPIUser env io name0 email0 p w = (w', Inr resp)"
    and wf: "users_wf (w_users w)" and nov: "\<not> en_verify_email env"
    and key: "cu_salt (io_create io) = Some salt" "en_argon env p salt 3 65536 4 32 = Some key" "length key = 32"
    and fresh: "\<forall>i\<in>set (w_passkeys w). i < ud_next (w_users w)"
    and later: "io_name_ok io'" "io_passkeys_ok io'" "cr_token (io_session io') = Some tok" "cr_insert_ok (io_session io')"
      "\<forall>q\<in>set (st_rows (w_sessions w')). us_token_hash q \<noteq> en_hash env tok"
    and ident: "trimSpace ident = NormalizeUsername (en_lower env) (trimSpace name0)"
  shows "if p = trimSpace p
    then \<exists>w2 resp'. LoginAPIUser env io' \<lparr>lr_Identifier = ident, lr_Password = p, lr_TwoFactorCode = [], lr_RecoveryKey = []\<rparr> ip w' = (w2, Inr resp') \<and>
      ar_Token resp' = tok \<and> opens env (ud_next (w_users w)) None tok w' w2
    else LoginAPIUser env io' \<lparr>lr_Identifier = ident, lr_Password = p, lr_TwoFactorCode = [], lr_RecoveryKey = []\<rparr> ip w' = (w', Inl PasswordWhitespace)"
proof (cases "p = trimSpace p")
  case True
  let ?req = "\<lparr>lr_Identifier = ident, lr_Password = p, lr_TwoFactorCode = [], lr_RecoveryKey = []\<rparr>"
  obtain w1 user response where c: "create_account env io (trimSpace ident) (trimSpace email0) p ''user'' w = (w1, Inr user)"
      "createFullAuthSession env io user w1 = (w', Inr response)"
    using register_Inr [OF reg nov] ident by metis
  obtain r where r: "ud_accounts (w_users w1) = ud_accounts (w_users w) @ [r]" "ua_id r = ud_next (w_users w)"
      "ua_username r = trimSpace ident" "ua_password_hash r = phc_text salt key" "ua_is_active r" "\<not> ua_is_banned r"
      "\<not> ua_two_factor_enabled r" "\<forall>q\<in>set (ud_accounts (w_users w)). \<not> clashes r q" "w_passkeys w1 = w_passkeys w"
    using create_account_row [OF c(1) wf key(1,2)] by auto
  have same: "w_users w' = w_users w1" "w_passkeys w' = w_passkeys w1"
    using createFull_frame [OF c(2)] by simp_all
  have "sql_lookup ua_username (trimSpace ident) (ud_accounts (w_users w)) = None"
    using r(3,8) by (auto simp: sql_lookup_None clashes_def)
  then have user: "GetByIdentifier (io_name_ok io') (io_email_ok io') (trimSpace ident) (w_users w') = Inr (login_user r)"
    using later(1) r(1,3) by (simp add: GetByIdentifier_def GetByUsername_def user_query_def same sql_lookup_append)
  have check: "CheckPassword (en_argon env) (login_user r) p"
    using VerifyPassword_phc(1) [of "en_argon env", OF key(2,3)] by (simp add: CheckPassword_def r(4))
  have valid: "validateAuthUser env (login_user r) = None" using r(5,6) nov by (simp add: validateAuthUser_None)
  obtain w2 resp' where f: "createFullAuthSession env io' (login_user r) w' = (w2, Inr resp')" "ar_Token resp' = tok"
    using createFull_ok [OF later(3-5)] by blast
  have "LoginAPIUser env io' ?req ip w' = (touch_login io' (u_ID (login_user r)) ip w2, Inr resp')"
    using later(2) True check user valid r(2,7,9) same(2) fresh f(1) by (intro LoginAPIUser_known(2)) auto
  with createFull_opens [OF f(1)] f(2) r(2) True show ?thesis by (auto intro: opens_cong)
qed (simp add: LoginAPIUser_def)

definition zoe_io :: auth_io where
  "zoe_io = demo_io\<lparr>io_session := create_ok ''tok2''\<rparr>"

lemma zoe_name:
  "trimSpace ''zoe'' = ''zoe''" "NormalizeUsername id ''zoe'' = ''zoe''" "ValidateUsername lo ''zoe'' = None"
  "trimSpace ''zoe@c.org'' = ''zoe@c.org''" "ValidateEmail id ''zoe@c.org'' = None" "trimSpace ''secret 12'' = ''secret 12''"
proof -
  have "list_all (\<lambda>b. \<not> prefix b ''zoe'') UsernameBlocklist" by (simp add: UsernameBlocklist_def)
  moreover have "list_all (\<lambda>b. \<not> contains b ''zoe'') criticalSubstringTerms" by (simp add: criticalSubstringTerms_def)
  ultimately have "\<not> reserved_name ''zoe''" unfolding reserved_name_def list_all_iff by auto
  then show "ValidateUsername lo ''zoe'' = None"
    unfolding ValidateUsername_iff username_spec_def by (simp add: az09_def az_def)
  show "trimSpace ''zoe'' = ''zoe''" "NormalizeUsername id ''zoe'' = ''zoe''" "trimSpace ''zoe@c.org'' = ''zoe@c.org''"
    "ValidateEmail id ''zoe@c.org'' = None" "trimSpace ''secret 12'' = ''secret 12''" by code_simp+
qed

theorem register_then_login_witness:
  "\<exists>w' resp. RegisterAPIUser demo_env demo_io ''zoe'' ''zoe@c.org'' ''secret 12'' (demo_world ann) = (w', Inr resp) \<and>
     (\<exists>w2 resp'. LoginAPIUser demo_env zoe_io \<lparr>lr_Identifier = ''zoe'', lr_Password = ''secret 12'', lr_TwoFactorCode = [],
        lr_RecoveryKey = []\<rparr> [] w' = (w2, Inr resp') \<and> ar_Token resp' = ''tok2'')"
proof -
  define key where "key = take 32 (''secret 12'' @ replicate 32 CHR ''.'')"
  have key: "en_argon demo_env ''secret 12'' ''0123456789abcdef'' 3 65536 4 32 = Some key" "length key = 32"
    by (simp_all add: toy_argon_def key_def)
  have wf: "users_wf (w_users (demo_world ann))"
    by (simp add: users_wf_def account_rows.table_ok_def unique_accounts_def account_ok_def) (simp add: ann_def new_account_def)
  have hash: "HashPassword toy_argon (Some ''0123456789abcdef'') ''secret 12'' = Inr (phc_text ''0123456789abcdef'' key)"
    using HashPassword_phc [of "en_argon demo_env", OF key(1)] by simp
  obtain w1 user where c: "create_account demo_env demo_io ''zoe'' ''zoe@c.org'' ''secret 12'' ''user'' (demo_world ann) = (w1, Inr user)"
    by (simp add: create_account_def CreateUserAccount_def create_user_ok_def hash Let_def GetUserByID_def user_query_def clashes_def
        new_account_def sql_lookup_def)
  have s: "w_sessions w1 = \<lparr>st_next = 1, st_rows = []\<rparr>"
    using create_account_row [OF c wf _ key(1)] by (simp add: create_user_ok_def)
  obtain w2 response where f: "createFullAuthSession demo_env demo_io user w1 = (w2, Inr response)"
      "\<forall>q\<in>set (st_rows (w_sessions w2)). us_token_hash q = ''tok''"
    by (simp add: createFullAuthSession_def s demo_session)
  have reg: "\<exists>resp. RegisterAPIUser demo_env demo_io ''zoe'' ''zoe@c.org'' ''secret 12'' (demo_world ann) = (w2, Inr resp)"
    using c f(1) by (simp add: RegisterAPIUser_def Let_def zoe_name)
  then obtain resp where r: "RegisterAPIUser demo_env demo_io ''zoe'' ''zoe@c.org'' ''secret 12'' (demo_world ann) = (w2, Inr resp)" ..
  have "\<forall>q\<in>set (st_rows (w_sessions w2)). us_token_hash q \<noteq> en_hash demo_env ''tok2''" using f(2) by auto
  with register_then_login [OF r wf _ _ key, of zoe_io "''tok2''" "''zoe''" "[]"] r show ?thesis
    by (auto simp: zoe_name create_user_ok_def create_ok_def zoe_io_def)
qed

section \<open>Password resets\<close>

lemma redeem_Some:
  "redeem env io token t = Some r \<Longrightarrow> r \<in> set (tb_rows t) \<and> tr_token r = en_hash env (trimSpace token) \<and> IsAfter (tr_expires_at r) (io_now io)"
  by (auto simp: redeem_def split: if_splits option.splits dest: sql_lookup_Some)

lemma redeem_gone: "en_hash env (trimSpace token) \<notin> tr_token ` set (tb_rows t) \<Longrightarrow> redeem env io token t = None"
  by (auto simp: redeem_def sql_lookup_None [THEN iffD2])

lemma reset_Some:
  assumes "ResetAPIUserPassword env io token p w = (w', None)"
  obtains r hashed where "redeem env io token (w_resets w) = Some r" "HashPassword (en_argon env) (io_salt io) p = Inr hashed"
    "io_update_ok io" "8 \<le> length p"
    "w' = w\<lparr>w_users := fst (user_set True (tr_user_id r)
              (\<lambda>u. u\<lparr>ua_password_hash := hashed, ua_updated_at := VStr (FormatSQLTimestamp (io_now io))\<rparr>) (w_users w)),
            w_resets := delete_ticket (io_delete_ok io) (tr_id r) (w_resets w),
            w_sessions := fst (DeleteByUserID (io_data_ok io) (tr_user_id r) (w_sessions w))\<rparr>"
  using assms
  by (auto simp: ResetAPIUserPassword_def user_set_def split: if_splits option.splits sum.splits)

text \<open>
  C19. A password reset does what it promises (when its deletions take place): it needs the token of an unexpired ticket;
  afterwards the new password verifies for the account of the ticket, no other account has changed, every session of
  the account is gone, and the token opens nothing a second time.
\<close>

theorem password_reset_effect:
  assumes reset: "ResetAPIUserPassword env io token p w = (w', None)" and ok: "io_delete_ok io" "io_data_ok io"
    and key: "io_salt io = Some salt" "en_argon env p salt 3 65536 4 32 = Some key" "length key = 32"
    and unique: "distinct (map tr_token (tb_rows (w_resets w)))"
  shows "\<exists>r\<in>set (tb_rows (w_resets w)). tr_token r = en_hash env (trimSpace token) \<and> IsAfter (tr_expires_at r) (io_now io) \<and>
    (\<forall>u\<in>set (ud_accounts (w_users w')). ua_id u = tr_user_id r \<longrightarrow> VerifyPassword (en_argon env) p (ua_password_hash u) = Inr True) \<and>
    (\<forall>u. ua_id u \<noteq> tr_user_id r \<longrightarrow> u \<in> set (ud_accounts (w_users w')) \<longleftrightarrow> u \<in> set (ud_accounts (w_users w))) \<and>
    (\<forall>s\<in>set (st_rows (w_sessions w')). us_user_id s \<noteq> tr_user_id r) \<and>
    (\<forall>io2 p2. \<exists>err. ResetAPIUserPassword env io2 token p2 w' = (w', Some err) \<and> err \<in> {PasswordTooShort, BadTicket})"
  using reset
proof (cases rule: reset_Some)
  case (1 r hashed)
  from redeem_Some [OF 1(1)] have r: "r \<in> set (tb_rows (w_resets w))" "tr_token r = en_hash env (trimSpace token)"
    "IsAfter (tr_expires_at r) (io_now io)" by simp_all
  have h: "hashed = phc_text salt key" using 1(2) HashPassword_phc [of "en_argon env", OF key(2)] key(1) by simp
  have "q = r" if "q \<in> set (tb_rows (w_resets w))" "tr_token q = tr_token r" for q
    using unique that r(1) by (auto simp: distinct_map dest: inj_onD)
  then have gone: "en_hash env (trimSpace token) \<notin> tr_token ` set (tb_rows (w_resets w'))"
    using ok(1) r(2) by (auto simp: 1(5) delete_ticket_def in_set_sql_delete)
  have accounts: "ud_accounts (w_users w') = map (\<lambda>u. if ua_id u = tr_user_id r
      then u\<lparr>ua_password_hash := hashed, ua_updated_at := VStr (FormatSQLTimestamp (io_now io))\<rparr> else u) (ud_accounts (w_users w))"
    by (simp add: 1(5) user_set_def sql_update_def)
  have new: "\<forall>u\<in>set (ud_accounts (w_users w')). ua_id u = tr_user_id r \<longrightarrow> VerifyPassword (en_argon env) p (ua_password_hash u) = Inr True"
    using VerifyPassword_phc(1) [of "en_argon env", OF key(2,3)] by (auto simp: accounts h)
  have frame: "u \<in> set (ud_accounts (w_users w')) \<longleftrightarrow> u \<in> set (ud_accounts (w_users w))" if "ua_id u \<noteq> tr_user_id r" for u
    using that by (force simp: accounts image_iff)
  have sessions: "\<forall>s\<in>set (st_rows (w_sessions w')). us_user_id s \<noteq> tr_user_id r"
    using ok(2) by (auto simp: 1(5) DeleteByUserID_def in_set_sql_delete)
  have again: "\<exists>err. ResetAPIUserPassword env io2 token p2 w' = (w', Some err) \<and> err \<in> {PasswordTooShort, BadTicket}" for io2 p2
    by (simp add: ResetAPIUserPassword_def redeem_gone [OF gone])
  from r new frame sessions again show ?thesis by blast
qed

text \<open>The deletion of the ticket is not checked: when it fails, the token goes on working until it expires.\<close>

lemma reset_token_reusable:
  assumes "ResetAPIUserPassword env io token p w = (w', None)" "\<not> io_delete_ok io" "io_ticket_ok io2" "io_now io2 \<le> io_now io"
    "8 \<le> length p2" "HashPassword (en_argon env) (io_salt io2) p2 = Inr hashed" "io_update_ok io2"
  shows "\<exists>w2. ResetAPIUserPassword env io2 token p2 w' = (w2, None)"
  using assms(1)
proof (cases rule: reset_Some)
  case (1 r h)
  have "w_resets w' = w_resets w" using assms(2) by (simp add: 1(5) delete_ticket_def)
  moreover have "redeem env io2 token (w_resets w) = Some r"
    using 1(1) assms(3,4) by (auto simp: redeem_def IsAfter_def split: if_splits option.splits)
  ultimately show ?thesis using assms(5-7) by (simp add: ResetAPIUserPassword_def user_set_def)
qed

section \<open>Verified addresses\<close>

text \<open>
  A ticket vouches for the address it was sent to, but the account is marked as verified whatever its address is by now.
\<close>

lemma verification_ignores_address:
  assumes "redeem env io token (w_verifications w) = Some t" "io_update_ok io" "u \<in> set (ud_accounts (w_users w))" "ua_id u = tr_user_id t"
  shows "\<exists>w'. VerifyAPIUserEmail env io token w = (w', None) \<and>
    (\<exists>u'\<in>set (ud_accounts (w_users w')). ua_id u' = ua_id u \<and> ua_email u' = ua_email u \<and> ua_email_verified u')"
proof -
  let ?f = "\<lambda>u. u\<lparr>ua_email_verified := True, ua_updated_at := VStr (FormatSQLTimestamp (io_now io))\<rparr>"
  have "?f u \<in> set (sql_update (\<lambda>r. ua_id r = tr_user_id t) ?f (ud_accounts (w_users w)))"
    using assms(3,4) by (force simp: sql_update_def image_iff)
  then show ?thesis
    using assms(1,2) by (simp add: VerifyAPIUserEmail_def user_set_def) (rule bexI [of _ "?f u"], simp_all)
qed

definition reset_world :: world where
  "reset_world = (demo_world ann)\<lparr>w_resets := \<lparr>tb_next = 2, tb_rows =
     [\<lparr>tr_id = 1, tr_user_id = 1, tr_token = ''tok'', tr_email = [], tr_created_at = VStr (FormatSQLTimestamp (1700000000 * second_ns)),
       tr_expires_at = VStr (FormatSQLTimestamp (1700003600 * second_ns)), tr_used_at = VNil\<rparr>]\<rparr>\<rparr>"

theorem password_reset_effect_witness:
  "\<exists>w'. ResetAPIUserPassword demo_env demo_io ''tok'' ''secret 12'' reset_world = (w', None) \<and>
     snd (ResetAPIUserPassword demo_env demo_io ''tok'' ''secret 34'' w') \<noteq> None"
proof -
  define key where "key = take 32 (''secret 12'' @ replicate 32 CHR ''.'')"
  have key: "en_argon demo_env ''secret 12'' ''0123456789abcdef'' 3 65536 4 32 = Some key" "length key = 32"
    by (simp_all add: toy_argon_def key_def)
  have hash: "HashPassword toy_argon (Some ''0123456789abcdef'') ''secret 12'' = Inr (phc_text ''0123456789abcdef'' key)"
    using HashPassword_phc [of "en_argon demo_env", OF key(1)] by simp
  have y: "year utc (1700003600 * second_ns) = 2023" by code_simp
  have "IsAfter (VStr (FormatSQLTimestamp (1700003600 * second_ns))) (1700000000 * second_ns)"
    using stored_text_reads_back [of "1700003600 * second_ns"] y by (simp add: IsAfter_def unit_defs)
  then obtain w' where r: "ResetAPIUserPassword demo_env demo_io ''tok'' ''secret 12'' reset_world = (w', None)"
    by (simp add: ResetAPIUserPassword_def redeem_def reset_world_def demo_trim hash user_set_def)
  have "distinct (map tr_token (tb_rows (w_resets reset_world)))" by (simp add: reset_world_def)
  then have "\<forall>io2 p2. \<exists>err. ResetAPIUserPassword demo_env io2 ''tok'' p2 w' = (w', Some err)"
    using password_reset_effect [OF r _ _ _ key] by (simp del: insert_iff) blast
  from this [THEN spec, THEN spec, of demo_io "''secret 34''"] r show ?thesis by auto
qed

section \<open>Invitations are completed once\<close>

lemma create_account_new:
  assumes "create_account env io n e p ro w = (w', Inr user)" "users_wf (w_users w)"
  shows "w_invites w' = w_invites w \<and> (\<exists>h stamp. ud_accounts (w_users w') = ud_accounts (w_users w) @
    [new_account (ud_next (w_users w)) n e h (if ro \<noteq> [] then ro else ''user'') stamp] \<and> u_ID user = ud_next (w_users w))"
proof -
  obtain db where c: "CreateUserAccount (en_argon env) (io_create io) n e p ro (w_users w) = (db, Inr user)" "w' = w\<lparr>w_users := db\<rparr>"
    using assms(1) by (auto simp: create_account_def split: prod.splits)
  then obtain h where h: "HashPassword (en_argon env) (cu_salt (io_create io)) p = Inr h"
    by (auto simp: CreateUserAccount_def Let_def split: sum.splits)
  let ?r = "new_account (ud_next (w_users w)) n e h (if ro \<noteq> [] then ro else ''user'') (FormatSQLTimestamp (cu_now (io_create io)))"
  have db: "ud_accounts db = ud_accounts (w_users w) @ [?r]" and get: "user_query ua_id full_user True (ud_next (w_users w)) db = Inr user"
    using c(1) unfolding CreateUserAccount_def Let_def h
    by (auto simp: GetUserByID_def user_query_def split: if_splits)
  have "ud_next (w_users w) \<notin> ua_id ` set (ud_accounts (w_users w))"
    using assms(2) by (auto simp: users_wf_def account_rows.table_ok_def)
  then have "sql_lookup ua_id (ud_next (w_users w)) (ud_accounts db) = Some ?r"
    by (simp add: db sql_lookup_append sql_lookup_None [THEN iffD2]) (simp add: new_account_def)
  with get have "user = full_user ?r" by (simp add: user_query_def)
  then have "u_ID user = ud_next (w_users w)" by (simp add: new_account_def)
  with db c(2) show ?thesis by auto
qed

lemma complete_Inr:
  assumes "CompleteAPIUserInvite env io ic token n p w = (w', Inr ans)"
  obtains invite w1 user where
    "VerifyInvite (en_hash env) (ic_schema_ok ic) (ic_ok ic) (ic_now ic) (trimSpace token) (w_invites w) = Inr invite"
    "create_account env io (NormalizeUsername (en_lower env) n) (iv_Email invite) p (iv_Role invite) w = (w1, Inr user)"
    "ic_schema_ok ic" "ic_mark_ok ic" "trimSpace token \<noteq> []"
    "w_users w' = fst (user_set True (u_ID user)
       (\<lambda>u. u\<lparr>ua_email_verified := True, ua_updated_at := VStr (FormatSQLTimestamp (io_now io))\<rparr>) (w_users w1))"
    "w_invites w' = fst (MarkInviteUsed (en_hash env) True True (ic_now ic) (trimSpace token) (u_ID user) (w_invites w1))"
  using assms
  by (auto simp: CompleteAPIUserInvite_def user_set_def MarkInviteUsed_def Let_def
      split: if_splits option.splits sum.splits prod.splits)

lemma complete_refused:
  "VerifyInvite (en_hash env) (ic_schema_ok ic) (ic_ok ic) (ic_now ic) (trimSpace token) (w_invites w) = Inl err \<Longrightarrow>
   trimSpace token \<noteq> [] \<Longrightarrow> CompleteAPIUserInvite env io ic token n p w = (w, Inl (InviteRefused err))"
  by (simp add: CompleteAPIUserInvite_def Let_def)

text \<open>
  An invitation makes one account. When \<open>CompleteAPIUserInvite\<close> succeeds, the account it made has the chosen name and the
  address and role of the invitation, and its address counts as verified; every later attempt with the same
  token is refused and changes nothing.
\<close>

lemma invite_completed_once:
  assumes complete: "CompleteAPIUserInvite env io ic token n p w = (w', Inr ans)" and wf: "users_wf (w_users w)"
    and years: "0 \<le> year utc (ic_now ic)" "year utc (ic_now ic) \<le> 9999"
  shows "(\<exists>r\<in>set (it_rows (w_invites w)). \<exists>u\<in>set (ud_accounts (w_users w')).
      ir_code r = en_hash env (trimSpace token) \<and> ua_username u = NormalizeUsername (en_lower env) n \<and>
      ua_email u = null_str (ir_email r) \<and> ua_role u = (if ir_role r = [] then ''user'' else ir_role r) \<and> ua_email_verified u) \<and>
    (\<forall>io2 ic2 n2 p2. \<exists>err. CompleteAPIUserInvite env io2 ic2 token n2 p2 w' = (w', Inl (InviteRefused err)))"
  using complete
proof (cases rule: complete_Inr)
  case (1 invite w1 user)
  obtain r where r: "sql_lookup ir_code (en_hash env (trimSpace token)) (it_rows (w_invites w)) = Some r" "invite = invite_view r"
    using 1(1) by (auto simp: VerifyInvite_def GetInviteByToken_def get_invite_def split: sum.splits option.splits if_splits)
  obtain h stamp where acc: "ud_accounts (w_users w1) = ud_accounts (w_users w) @ [new_account (ud_next (w_users w))
        (NormalizeUsername (en_lower env) n) (iv_Email invite) h (if iv_Role invite \<noteq> [] then iv_Role invite else ''user'') stamp]"
      "u_ID user = ud_next (w_users w)" "w_invites w1 = w_invites w"
    using create_account_new [OF 1(2) wf] by blast
  let ?u = "(new_account (ud_next (w_users w)) (NormalizeUsername (en_lower env) n) (iv_Email invite) h
      (if iv_Role invite \<noteq> [] then iv_Role invite else ''user'') stamp)
      \<lparr>ua_email_verified := True, ua_updated_at := VStr (FormatSQLTimestamp (io_now io))\<rparr>"
  have "?u \<in> set (ud_accounts (w_users w'))"
    by (simp add: 1(6) user_set_def sql_update_def acc) (simp add: new_account_def)
  moreover have "ua_username ?u = NormalizeUsername (en_lower env) n \<and> ua_email ?u = null_str (ir_email r) \<and>
      ua_role ?u = (if ir_role r = [] then ''user'' else ir_role r) \<and> ua_email_verified ?u"
    by (simp add: new_account_def r(2) invite_view_def null_str_def)
  moreover have "r \<in> set (it_rows (w_invites w))" "ir_code r = en_hash env (trimSpace token)"
    using sql_lookup_Some [OF r(1)] by simp_all
  ultimately have first: "\<exists>r\<in>set (it_rows (w_invites w)). \<exists>u\<in>set (ud_accounts (w_users w')).
      ir_code r = en_hash env (trimSpace token) \<and> ua_username u = NormalizeUsername (en_lower env) n \<and>
      ua_email u = null_str (ir_email r) \<and> ua_role u = (if ir_role r = [] then ''user'' else ir_role r) \<and> ua_email_verified u" by blast
  have used: "ParseStoredTimestamp (VStr (FormatSQLTimestamp (ic_now ic))) \<noteq> None" using stored_text_reads_back [OF years] by simp
  have "\<exists>err. VerifyInvite (en_hash env) s ok now (trimSpace token) (w_invites w') = Inl err" for s ok now
    using r(1) used \<open>ir_code r = en_hash env (trimSpace token)\<close>
    by (auto simp: 1(7) acc(3) MarkInviteUsed_def VerifyInvite_def GetInviteByToken_def get_invite_def sql_update_lookup invite_view_def)
  then have "\<exists>err. CompleteAPIUserInvite env io2 ic2 token n2 p2 w' = (w', Inl (InviteRefused err))" for io2 ic2 n2 p2
    using complete_refused [OF _ 1(5)] by metis
  with first show ?thesis by blast
qed

definition zoe_invited :: world where
  "zoe_invited = (demo_world ann)\<lparr>w_invites := fst (CreateInvite id invite_io_ok ''zoe'' ''zoe@c.org'' [] 7 \<lparr>it_next = 1, it_rows = []\<rparr>)\<rparr>"

definition invite_ok :: invite_call where
  "invite_ok = \<lparr>ic_schema_ok = True, ic_ok = True, ic_now = 1700000001 * second_ns, ic_mark_ok = True\<rparr>"

lemma invite_completed_once_example:
  "\<exists>token w' ans. CompleteAPIUserInvite demo_env demo_io invite_ok token ''zoe'' ''secret 12'' zoe_invited = (w', Inr ans) \<and>
     (\<exists>err. CompleteAPIUserInvite demo_env demo_io invite_ok token ''bob'' ''other'' w' = (w', Inl (InviteRefused err)))"
proof -
  define token where "token = RawURLEncoding ''abc''"
  have tok: "GenerateSecureToken (Some ''abc'') = Some token" "trimSpace token = token" "token \<noteq> []"
    unfolding token_def GenerateSecureToken_def by code_simp+
  let ?x = "1700604800 * second_ns"
  define r where "r = \<lparr>ir_id = 1, ir_code = token, ir_username = Some ''zoe'', ir_email = Some ''zoe@c.org'',
      ir_invited_by = None, ir_role = ''user'', ir_created_at = VStr (FormatSQLTimestamp (1700000000 * second_ns)),
      ir_expires_at = VStr (FormatSQLTimestamp ?x), ir_used_by = None, ir_used_at = VNil, ir_max_uses = 1, ir_use_count = 0\<rparr>"
  have x: "1700000000 * second_ns + wrap64 (wrap64 (7 * 24) * hour_ns) = ?x" by code_simp
  have inv: "w_invites zoe_invited = \<lparr>it_next = 2, it_rows = [r]\<rparr>"
    by (simp add: zoe_invited_def CreateInvite_def invite_io_ok_def tok Let_def r_def flip: x)
  have y: "year utc ?x = 2023" "year utc (1700000001 * second_ns) = 2023" by code_simp+
  have p: "ParseStoredTimestamp (VStr (FormatSQLTimestamp ?x)) = Some ?x"
    using stored_text_reads_back [of ?x] y by (simp add: unit_defs)
  have v: "VerifyInvite id True True (1700000001 * second_ns) token (w_invites zoe_invited) = Inr (invite_view r)"
    using p by (simp add: VerifyInvite_def GetInviteByToken_def get_invite_def inv invite_view_def r_def ParseStoredTimestamp_def)
      (simp add: unit_defs)
  have view: "iv_Username (invite_view r) = ''zoe''" "iv_Email (invite_view r) = ''zoe@c.org''" "iv_Role (invite_view r) = ''user''"
    by (simp_all add: invite_view_def r_def)
  define key where "key = take 32 (''secret 12'' @ replicate 32 CHR ''.'')"
  have hash: "HashPassword toy_argon (Some ''0123456789abcdef'') ''secret 12'' = Inr (phc_text ''0123456789abcdef'' key)"
    by (rule HashPassword_phc) (simp add: toy_argon_def key_def)
  have users: "w_users zoe_invited = w_users (demo_world ann)" "w_sessions zoe_invited = w_sessions (demo_world ann)"
    by (simp_all add: zoe_invited_def)
  obtain w1 user where c: "create_account demo_env demo_io ''zoe'' ''zoe@c.org'' ''secret 12'' ''user'' zoe_invited = (w1, Inr user)"
      "w_sessions w1 = w_sessions zoe_invited"
    by (simp add: create_account_def CreateUserAccount_def create_user_ok_def hash Let_def GetUserByID_def user_query_def clashes_def
        new_account_def sql_lookup_def users)
  have "\<exists>w' ans. CompleteAPIUserInvite demo_env demo_io invite_ok token ''zoe'' ''secret 12'' zoe_invited = (w', Inr ans)"
    using c v view by (simp add: CompleteAPIUserInvite_def invite_ok_def tok zoe_name user_set_def MarkInviteUsed_def users Let_def demo_session)
  then obtain w' ans where did: "CompleteAPIUserInvite demo_env demo_io invite_ok token ''zoe'' ''secret 12'' zoe_invited = (w', Inr ans)"
    by blast
  have "users_wf (w_users zoe_invited)"
    by (simp add: users users_wf_def account_rows.table_ok_def unique_accounts_def account_ok_def) (simp add: ann_def new_account_def)
  from invite_completed_once [OF did this] y(2) did show ?thesis by (force simp: invite_ok_def)
qed

end
