(* ===== verification/Admins.thy ===== *)
theory Admins
  imports Registration
begin

text \<open>
  Server administrators: \<^verbatim>\<open>src/server/model/admin.go\<close>, the invitations of \<^verbatim>\<open>src/server/service/admin_invite.go\<close>, the session check
  of \<^verbatim>\<open>src/server/middleware/admin_auth.go\<close> and the first step of the sign-in page. They live in the server database.
  Its foreign keys cascade only on a connection that enforces them, which SQLite decides per connection;
  operations that depend on it have the argument \<open>fk\<close>.
\<close>

section \<open>State\<close>

record admin_row =
  ad_id :: int
  ad_username :: string
  ad_email :: string
  ad_password_hash :: string
  ad_token_hash :: "string option"
  ad_token_prefix :: "string option"
  ad_is_super_admin :: bool
  ad_is_active :: bool
  ad_created_at :: scanned
  ad_updated_at :: scanned
  ad_last_login_at :: scanned

record AdminPreferences =
  ap_AdminID :: int
  ap_Theme :: string
  ap_Language :: string
  ap_Timezone :: string
  ap_NotificationsEnabled :: bool
  ap_EmailNotifications :: bool

record admin_session_row =
  sn_id :: string
  sn_admin_id :: int
  sn_ip_address :: "string option"
  sn_user_agent :: "string option"
  sn_created_at :: scanned
  sn_expires_at :: scanned

record admin_invite_row =
  ai_rowid :: int
  ai_token :: string
  ai_invited_email :: string
  ai_invited_by :: int
  ai_created_at :: scanned
  ai_expires_at :: scanned
  ai_used_by :: "int option"
  ai_used_at :: scanned

record admin_db =
  sv_next :: int
  sv_admins :: "admin_row list"
  sv_preferences :: "AdminPreferences list"
  sv_sessions :: "admin_session_row list"
  sv_invites :: "admin_invite_row list"
  sv_passkeys :: "int list"

record Admin =
  adm_ID :: int
  adm_Username :: string
  adm_Email :: string
  adm_PasswordHash :: string
  adm_APITokenPrefix :: string
  adm_IsSuperAdmin :: bool
  adm_IsActive :: bool
  adm_CreatedAt :: instant
  adm_UpdatedAt :: instant
  adm_LastLoginAt :: "instant option"

datatype admin_error =
    AdminHashFailed
  | AdminTokenFailed
  | AdminInsertFailed
  | NoAdminID
  | AdminPreferencesFailed
  | AdminNotFound
  | AdminQueryFailed
  | FlagsNotBool
  | AdminUpdateFailed
  | LastSuperAdmin
  | AdminDeleteFailed
  | AdminBadCredentials
  | AdminVerifyFailed
  | AdminDisabled

section \<open>Accounts of administrators\<close>

definition admin_view :: "admin_row \<Rightarrow> Admin" where
  "admin_view r =
     \<lparr>adm_ID = ad_id r, adm_Username = ad_username r, adm_Email = ad_email r, adm_PasswordHash = ad_password_hash r,
      adm_APITokenPrefix = null_str (ad_token_prefix r), adm_IsSuperAdmin = ad_is_super_admin r, adm_IsActive = ad_is_active r,
      adm_CreatedAt = stored_time (ad_created_at r), adm_UpdatedAt = stored_time (ad_updated_at r),
      adm_LastLoginAt = ParseStoredTimestamp (ad_last_login_at r)\<rparr>"

definition GetAllAdmins :: "bool \<Rightarrow> admin_db \<Rightarrow> admin_error + Admin list" where
  "GetAllAdmins ok db =
     (if \<not> ok then Inl AdminQueryFailed
      else Inr (map (\<lambda>r. (admin_view r)\<lparr>adm_PasswordHash := [], adm_APITokenPrefix := []\<rparr>) (sort_key ad_id (sv_admins db))))"

definition admin_query :: "(admin_row \<Rightarrow> bool) \<Rightarrow> bool \<Rightarrow> admin_db \<Rightarrow> admin_error + Admin" where
  "admin_query P ok db =
     (if \<not> ok then Inl AdminQueryFailed
      else case find P (sv_admins db) of None \<Rightarrow> Inl AdminNotFound | Some r \<Rightarrow> Inr (admin_view r))"

definition GetAdminByID :: "bool \<Rightarrow> int \<Rightarrow> admin_db \<Rightarrow> admin_error + Admin" where
  "GetAdminByID ok i db = admin_query (\<lambda>r. ad_id r = i) ok db"

definition GetAdminByEmail :: "bool \<Rightarrow> string \<Rightarrow> admin_db \<Rightarrow> admin_error + Admin" where
  "GetAdminByEmail ok email db = admin_query (\<lambda>r. ad_email r = email) ok db"

definition GetByAPIToken :: "(string \<Rightarrow> string) \<Rightarrow> bool \<Rightarrow> string \<Rightarrow> admin_db \<Rightarrow> admin_error + Admin" where
  "GetByAPIToken hash ok token db = admin_query (\<lambda>r. ad_token_hash r = Some (hash token) \<and> ad_is_active r) ok db"

definition GetAdminCount :: "bool \<Rightarrow> admin_db \<Rightarrow> admin_error + int" where
  "GetAdminCount ok db = (if ok then Inr (int (length (sv_admins db))) else Inl AdminQueryFailed)"

definition GenerateAPIToken :: "nat list option \<Rightarrow> string option" where
  "GenerateAPIToken bytes = map_option (\<lambda>bs. ''adm_'' @ hex_encode bs) bytes"

text \<open>The UNIQUE columns: name, address and token hash.\<close>

definition admin_clashes :: "admin_row \<Rightarrow> admin_row \<Rightarrow> bool" where
  "admin_clashes r q \<longleftrightarrow> ad_username r = ad_username q \<or> ad_email r = ad_email q \<or>
     (ad_token_hash r \<noteq> None \<and> ad_token_hash r = ad_token_hash q)"

record create_admin_io =
  ca_salt :: "string option"
  ca_bytes :: "nat list option"
  ca_now :: instant
  ca_insert_ok :: bool
  ca_id_ok :: bool
  ca_prefs_ok :: bool
  ca_get_ok :: bool

definition CreateAdminAccount ::
  "argon2 \<Rightarrow> (string \<Rightarrow> string) \<Rightarrow> create_admin_io \<Rightarrow> string \<Rightarrow> string \<Rightarrow> string \<Rightarrow> bool \<Rightarrow> admin_db \<Rightarrow> admin_db \<times> (admin_error + Admin)" where
  "CreateAdminAccount argon hash io username email password isSuperAdmin db =
     (case HashPassword argon (ca_salt io) password of
        Inl _ \<Rightarrow> (db, Inl AdminHashFailed)
      | Inr passwordHash \<Rightarrow>
          (case GenerateAPIToken (ca_bytes io) of
             None \<Rightarrow> (db, Inl AdminTokenFailed)
           | Some apiToken \<Rightarrow>
               (let stamp = VStr (FormatSQLTimestamp (ca_now io)); i = sv_next db;
                    r = \<lparr>ad_id = i, ad_username = username, ad_email = email, ad_password_hash = passwordHash,
                         ad_token_hash = Some (hash apiToken), ad_token_prefix = Some (GetTokenPrefix apiToken),
                         ad_is_super_admin = isSuperAdmin, ad_is_active = True, ad_created_at = stamp, ad_updated_at = stamp,
                         ad_last_login_at = VNil\<rparr> in
                if \<not> ca_insert_ok io \<or> (\<exists>q\<in>set (sv_admins db). admin_clashes r q) then (db, Inl AdminInsertFailed)
                else
                  (let db1 = db\<lparr>sv_next := i + 1, sv_admins := sv_admins db @ [r]\<rparr> in
                   if \<not> ca_id_ok io then (db1, Inl NoAdminID)
                   else if \<not> ca_prefs_ok io then (db1, Inl AdminPreferencesFailed)
                   else
                     (let db2 = db1\<lparr>sv_preferences := sv_preferences db1 @
                            [\<lparr>ap_AdminID = i, ap_Theme = ''auto'', ap_Language = ''en'', ap_Timezone = ''UTC'',
                              ap_NotificationsEnabled = True, ap_EmailNotifications = True\<rparr>]\<rparr>
                      in (db2, GetAdminByID (ca_get_ok io) i db2))))))"

text \<open>An UPDATE of one administrator; it fails when it would repeat a UNIQUE value.\<close>

definition admin_set :: "bool \<Rightarrow> int \<Rightarrow> (admin_row \<Rightarrow> admin_row) \<Rightarrow> admin_db \<Rightarrow> admin_db \<times> bool" where
  "admin_set ok i f db =
     (if \<not> ok \<or> (\<exists>r\<in>set (sv_admins db). ad_id r = i \<and> (\<exists>q\<in>set (sv_admins db). ad_id q \<noteq> i \<and> admin_clashes (f r) q)) then (db, False)
      else (db\<lparr>sv_admins := sql_update (\<lambda>r. ad_id r = i) f (sv_admins db)\<rparr>, True))"

text \<open>The optional flags: none (or one), two booleans, or two values of other types.\<close>

datatype update_opts = NoFlags | Flags bool bool | OtherFlags

definition UpdateAdminAccount ::
  "bool \<Rightarrow> instant \<Rightarrow> int \<Rightarrow> string \<Rightarrow> string \<Rightarrow> update_opts \<Rightarrow> admin_db \<Rightarrow> admin_db \<times> admin_error option" where
  "UpdateAdminAccount ok now i username email opts db =
     (let stamp = VStr (FormatSQLTimestamp now);
          answer = (\<lambda>(db', done'). (db', if done' then None else Some AdminUpdateFailed)) in
      case opts of
        Flags isSuperAdmin isActive \<Rightarrow>
          answer (admin_set ok i (\<lambda>r. r\<lparr>ad_username := username, ad_email := email, ad_is_super_admin := isSuperAdmin,
            ad_is_active := isActive, ad_updated_at := stamp\<rparr>) db)
      | OtherFlags \<Rightarrow> (db, Some FlagsNotBool)
      | NoFlags \<Rightarrow> answer (admin_set ok i (\<lambda>r. r\<lparr>ad_username := username, ad_email := email, ad_updated_at := stamp\<rparr>) db))"

definition UpdateAdminPassword ::
  "argon2 \<Rightarrow> string option \<Rightarrow> bool \<Rightarrow> instant \<Rightarrow> int \<Rightarrow> string \<Rightarrow> admin_db \<Rightarrow> admin_db \<times> bool" where
  "UpdateAdminPassword argon salt ok now i newPassword db =
     (case HashPassword argon salt newPassword of
        Inl _ \<Rightarrow> (db, False)
      | Inr h \<Rightarrow> admin_set ok i (\<lambda>r. r\<lparr>ad_password_hash := h, ad_updated_at := VStr (FormatSQLTimestamp now)\<rparr>) db)"

definition RegenerateAPIToken ::
  "(string \<Rightarrow> string) \<Rightarrow> nat list option \<Rightarrow> bool \<Rightarrow> instant \<Rightarrow> int \<Rightarrow> admin_db \<Rightarrow> admin_db \<times> string option" where
  "RegenerateAPIToken hash bytes ok now i db =
     (case GenerateAPIToken bytes of
        None \<Rightarrow> (db, None)
      | Some apiToken \<Rightarrow>
          (case admin_set ok i (\<lambda>r. r\<lparr>ad_token_hash := Some (hash apiToken), ad_token_prefix := Some (GetTokenPrefix apiToken),
                  ad_updated_at := VStr (FormatSQLTimestamp now)\<rparr>) db of
             (db', True) \<Rightarrow> (db', Some apiToken)
           | (db', False) \<Rightarrow> (db', None)))"

definition RevokeAPIToken :: "bool \<Rightarrow> instant \<Rightarrow> int \<Rightarrow> admin_db \<Rightarrow> admin_db \<times> bool" where
  "RevokeAPIToken ok now i db =
     admin_set ok i (\<lambda>r. r\<lparr>ad_token_hash := None, ad_token_prefix := None, ad_updated_at := VStr (FormatSQLTimestamp now)\<rparr>) db"

definition UpdateAdminLastLogin :: "bool \<Rightarrow> instant \<Rightarrow> int \<Rightarrow> admin_db \<Rightarrow> admin_db \<times> bool" where
  "UpdateAdminLastLogin ok now i db = admin_set ok i (\<lambda>r. r\<lparr>ad_last_login_at := VStr (FormatSQLTimestamp now)\<rparr>) db"

text \<open>The deletion reads twice before it writes: the number of other active super administrators, and the account.\<close>

definition delete_admin_check :: "bool \<Rightarrow> bool \<Rightarrow> int \<Rightarrow> admin_db \<Rightarrow> admin_error option" where
  "delete_admin_check countOk getOk i db =
     (if \<not> countOk then Some AdminQueryFailed
      else case GetAdminByID getOk i db of
        Inl err \<Rightarrow> Some err
      | Inr admin \<Rightarrow>
          if adm_IsSuperAdmin admin \<and> affected (\<lambda>r. ad_is_super_admin r \<and> ad_is_active r \<and> ad_id r \<noteq> i) (sv_admins db) = 0
          then Some LastSuperAdmin else None)"

text \<open>With foreign keys the rows of the account go with it, and its mark on a used invitation is set to NULL.\<close>

definition delete_admin_exec :: "bool \<Rightarrow> int \<Rightarrow> admin_db \<Rightarrow> admin_db" where
  "delete_admin_exec fk i db =
     (let db1 = db\<lparr>sv_admins := sql_delete (\<lambda>r. ad_id r = i) (sv_admins db)\<rparr> in
      if fk \<and> (\<exists>r\<in>set (sv_admins db). ad_id r = i)
      then db1\<lparr>sv_preferences := sql_delete (\<lambda>p. ap_AdminID p = i) (sv_preferences db),
               sv_sessions := sql_delete (\<lambda>s. sn_admin_id s = i) (sv_sessions db),
               sv_invites := sql_update (\<lambda>v. ai_used_by v = Some i) (\<lambda>v. v\<lparr>ai_used_by := None\<rparr>)
                 (sql_delete (\<lambda>v. ai_invited_by v = i) (sv_invites db)),
               sv_passkeys := filter (\<lambda>p. p \<noteq> i) (sv_passkeys db)\<rparr>
      else db1)"

definition DeleteAdminAccount ::
  "bool \<Rightarrow> bool \<Rightarrow> bool \<Rightarrow> bool \<Rightarrow> int \<Rightarrow> admin_db \<Rightarrow> admin_db \<times> admin_error option" where
  "DeleteAdminAccount fk countOk getOk ok i db =
     (case delete_admin_check countOk getOk i db of
        Some err \<Rightarrow> (db, Some err)
      | None \<Rightarrow> if ok then (delete_admin_exec fk i db, None) else (db, Some AdminDeleteFailed))"

definition VerifyAdminCredentials ::
  "argon2 \<Rightarrow> bool \<Rightarrow> bool \<Rightarrow> string \<Rightarrow> string \<Rightarrow> admin_db \<Rightarrow> admin_error + Admin" where
  "VerifyAdminCredentials argon ok1 ok2 username password db =
     (case (case GetAdminByEmail ok1 username db of
              Inr admin \<Rightarrow> Inr admin
            | Inl _ \<Rightarrow> admin_query (\<lambda>r. ad_username r = username \<and> ad_is_active r) ok2 db) of
        Inl AdminNotFound \<Rightarrow> Inl AdminBadCredentials
      | Inl err \<Rightarrow> Inl err
      | Inr admin \<Rightarrow>
          (case VerifyPassword argon password (adm_PasswordHash admin) of
             Inl _ \<Rightarrow> Inl AdminVerifyFailed
           | Inr valid \<Rightarrow>
               if \<not> valid then Inl AdminBadCredentials
               else if \<not> adm_IsActive admin then Inl AdminDisabled
               else Inr admin))"

section \<open>Sessions of administrators\<close>

record AdminSession =
  ss_SessionID :: string
  ss_AdminID :: int
  ss_IPAddress :: string
  ss_UserAgent :: string
  ss_CreatedAt :: instant
  ss_ExpiresAt :: instant
  ss_LastUsedAt :: instant

record admin_session_io =
  so_token :: "string option"
  so_expiry_base :: instant
  so_now :: instant
  so_built :: instant
  so_insert_ok :: bool

text \<open>The token is the key of the row; an enforced foreign key asks for the administrator.\<close>

definition CreateAdminSession ::
  "bool \<Rightarrow> admin_session_io \<Rightarrow> int \<Rightarrow> string \<Rightarrow> string \<Rightarrow> int \<Rightarrow> admin_db \<Rightarrow> admin_db \<times> AdminSession option" where
  "CreateAdminSession fk io adminID ipAddress userAgent duration db =
     (case so_token io of
        None \<Rightarrow> (db, None)
      | Some sessionID \<Rightarrow>
          (let expiresAt = so_expiry_base io + duration in
           if \<not> so_insert_ok io \<or> (\<exists>s\<in>set (sv_sessions db). sn_id s = sessionID) \<or>
              (fk \<and> \<not> (\<exists>r\<in>set (sv_admins db). ad_id r = adminID)) then (db, None)
           else (db\<lparr>sv_sessions := sv_sessions db @
                     [\<lparr>sn_id = sessionID, sn_admin_id = adminID, sn_ip_address = Some ipAddress, sn_user_agent = Some userAgent,
                       sn_created_at = VStr (FormatSQLTimestamp (so_now io)),
                       sn_expires_at = VStr (FormatSQLTimestamp expiresAt)\<rparr>]\<rparr>,
                 Some \<lparr>ss_SessionID = sessionID, ss_AdminID = adminID, ss_IPAddress = ipAddress, ss_UserAgent = userAgent,
                       ss_CreatedAt = so_built io, ss_ExpiresAt = expiresAt, ss_LastUsedAt = so_built io\<rparr>)))"

text \<open>A NULL address or user agent does not scan into a string.\<close>

definition admin_session_view :: "admin_session_row \<Rightarrow> AdminSession option" where
  "admin_session_view s =
     (case (sn_ip_address s, sn_user_agent s) of
        (Some ip, Some agent) \<Rightarrow>
          Some \<lparr>ss_SessionID = sn_id s, ss_AdminID = sn_admin_id s, ss_IPAddress = ip, ss_UserAgent = agent,
                ss_CreatedAt = stored_time (sn_created_at s), ss_ExpiresAt = stored_time (sn_expires_at s),
                ss_LastUsedAt = stored_time (sn_created_at s)\<rparr>
      | _ \<Rightarrow> None)"

definition GetAdminSession :: "bool \<Rightarrow> string \<Rightarrow> admin_db \<Rightarrow> AdminSession option" where
  "GetAdminSession ok sessionID db =
     (if \<not> ok then None else Option.bind (sql_lookup sn_id sessionID (sv_sessions db)) admin_session_view)"

definition DeleteAdminSession :: "bool \<Rightarrow> string \<Rightarrow> admin_db \<Rightarrow> admin_db \<times> bool" where
  "DeleteAdminSession ok sessionID db =
     (if ok then (db\<lparr>sv_sessions := sql_delete (\<lambda>s. sn_id s = sessionID) (sv_sessions db)\<rparr>, True) else (db, False))"

definition DeleteAllSessionsForAdmin :: "bool \<Rightarrow> int \<Rightarrow> admin_db \<Rightarrow> admin_db \<times> bool" where
  "DeleteAllSessionsForAdmin ok adminID db =
     (if ok then (db\<lparr>sv_sessions := sql_delete (\<lambda>s. sn_admin_id s = adminID) (sv_sessions db)\<rparr>, True) else (db, False))"

definition DeleteExpiredAdminSessions :: "bool \<Rightarrow> bool list \<Rightarrow> instant \<Rightarrow> admin_db \<Rightarrow> admin_db \<times> bool" where
  "DeleteExpiredAdminSessions selectOk oks now db =
     (case DeleteRowsWithTimestampBefore (\<lambda>s. VStr (sn_id s)) sn_expires_at selectOk oks now False (sv_sessions db) of
        (rows, n, ok) \<Rightarrow> (db\<lparr>sv_sessions := rows\<rparr>, ok))"

fun admin_active_loop :: "instant \<Rightarrow> admin_session_row list \<Rightarrow> AdminSession list option" where
  "admin_active_loop now [] = Some []"
| "admin_active_loop now (s # rows) =
     (case admin_session_view s of
        None \<Rightarrow> None
      | Some v \<Rightarrow>
          if \<not> IsAfter (sn_expires_at s) now then admin_active_loop now rows
          else map_option (\<lambda>vs. v # vs) (admin_active_loop now rows))"

definition GetActiveAdminSessions ::
  "(admin_session_row list \<Rightarrow> admin_session_row list) \<Rightarrow> bool \<Rightarrow> instant \<Rightarrow> int \<Rightarrow> admin_db \<Rightarrow> AdminSession list option" where
  "GetActiveAdminSessions newest ok now adminID db =
     (if \<not> ok then None
      else admin_active_loop now (newest (filter (\<lambda>s. sn_admin_id s = adminID \<and> sn_expires_at s \<noteq> VNil) (sv_sessions db))))"

text \<open>The filter before the administration pages: the id of the administrator, or the sign-in page with its status.\<close>

definition RequireAdminAuth :: "bool \<Rightarrow> instant \<Rightarrow> string option \<Rightarrow> admin_db \<Rightarrow> nat + int" where
  "RequireAdminAuth ok now cookie db =
     (case cookie of
        None \<Rightarrow> Inl 200
      | Some session \<Rightarrow>
          if session = [] then Inl 200
          else if \<not> ok then Inl 200
          else case sql_lookup sn_id session (sv_sessions db) of
            None \<Rightarrow> Inl 200
          | Some s \<Rightarrow> if IsAfter (sn_expires_at s) now then Inr (sn_admin_id s) else Inl 200)"

section \<open>Invitations of administrators\<close>

record AdminInvite =
  vt_ID :: int
  vt_Token :: string
  vt_InvitedEmail :: string
  vt_InvitedBy :: int
  vt_CreatedAt :: instant
  vt_ExpiresAt :: instant
  vt_UsedBy :: "int option"
  vt_UsedAt :: "instant option"

datatype admin_invite_error =
    InviteEmailInvalid email_error
  | InviteBadExpiration
  | InviterNotFound
  | AlreadyAdmin
  | AdminInviteTokenFailed
  | AdminInviteInsertFailed
  | NoAdminInviteID
  | UnknownInvite
  | AdminInviteUsed
  | AdminInviteExpired
  | InviteUsernameInvalid username_error
  | InviteAccountFailed admin_error

definition adminInviteExpirations :: "string \<rightharpoonup> int" where
  "adminInviteExpirations = [''1h'' \<mapsto> hour_ns, ''6h'' \<mapsto> 6 * hour_ns, ''24h'' \<mapsto> 24 * hour_ns, ''48h'' \<mapsto> 48 * hour_ns,
     ''7d'' \<mapsto> 7 * 24 * hour_ns]"

definition ParseAdminInviteExpiration :: "string \<Rightarrow> (string \<times> int) option" where
  "ParseAdminInviteExpiration v =
     (let normalized = (if v = [] then ''24h'' else v) in map_option (\<lambda>d. (normalized, d)) (adminInviteExpirations normalized))"

record admin_invite_io =
  ao_random :: "string option"
  ao_expiry_base :: instant
  ao_now :: instant
  ao_built :: instant
  ao_insert_ok :: bool
  ao_id_ok :: bool

text \<open>The table has no id of its own; SQLite gives a row the number after the largest.\<close>

definition next_rowid :: "admin_invite_row list \<Rightarrow> int" where
  "next_rowid rows = foldr max (map ai_rowid rows) 0 + 1"

definition CreateAdminInvite ::
  "(string \<Rightarrow> string) \<Rightarrow> bool \<Rightarrow> admin_invite_io \<Rightarrow> string \<Rightarrow> int \<Rightarrow> int \<Rightarrow> admin_db \<Rightarrow> admin_db \<times> (admin_invite_error + AdminInvite)" where
  "CreateAdminInvite hash fk io email invitedBy expiresIn db =
     (case GenerateSecureToken (ao_random io) of
        None \<Rightarrow> (db, Inl AdminInviteTokenFailed)
      | Some token \<Rightarrow>
          if expiresIn \<le> 0 then (db, Inl InviteBadExpiration)
          else
            (let expiresAt = ao_expiry_base io + expiresIn; i = next_rowid (sv_invites db) in
             if \<not> ao_insert_ok io \<or> (\<exists>v\<in>set (sv_invites db). ai_token v = hash token) \<or>
                (fk \<and> \<not> (\<exists>r\<in>set (sv_admins db). ad_id r = invitedBy)) then (db, Inl AdminInviteInsertFailed)
             else
               (let db' = db\<lparr>sv_invites := sv_invites db @
                    [\<lparr>ai_rowid = i, ai_token = hash token, ai_invited_email = email, ai_invited_by = invitedBy,
                      ai_created_at = VStr (FormatSQLTimestamp (ao_now io)), ai_expires_at = VStr (FormatSQLTimestamp expiresAt),
                      ai_used_by = None, ai_used_at = VNil\<rparr>]\<rparr> in
                if \<not> ao_id_ok io then (db', Inl NoAdminInviteID)
                else (db', Inr \<lparr>vt_ID = i, vt_Token = token, vt_InvitedEmail = email, vt_InvitedBy = invitedBy,
                                vt_CreatedAt = ao_built io, vt_ExpiresAt = expiresAt, vt_UsedBy = None, vt_UsedAt = None\<rparr>))))"

definition admin_invite_view :: "admin_invite_row \<Rightarrow> AdminInvite" where
  "admin_invite_view v =
     \<lparr>vt_ID = ai_rowid v, vt_Token = ai_token v, vt_InvitedEmail = ai_invited_email v, vt_InvitedBy = ai_invited_by v,
      vt_CreatedAt = stored_time (ai_created_at v), vt_ExpiresAt = stored_time (ai_expires_at v),
      vt_UsedBy = ai_used_by v, vt_UsedAt = ParseStoredTimestamp (ai_used_at v)\<rparr>"

definition GetAdminInvite :: "(string \<Rightarrow> string) \<Rightarrow> bool \<Rightarrow> string \<Rightarrow> admin_db \<Rightarrow> AdminInvite option" where
  "GetAdminInvite hash ok token db =
     (if \<not> ok then None else map_option admin_invite_view (sql_lookup ai_token (hash token) (sv_invites db)))"

text \<open>With foreign keys the UPDATE fails when the user of the invitation is no administrator.\<close>

definition MarkAdminInviteUsed ::
  "(string \<Rightarrow> string) \<Rightarrow> bool \<Rightarrow> bool \<Rightarrow> instant \<Rightarrow> string \<Rightarrow> int \<Rightarrow> admin_db \<Rightarrow> admin_db \<times> bool" where
  "MarkAdminInviteUsed hash fk ok now token usedBy db =
     (if \<not> ok \<or> (fk \<and> (\<exists>v\<in>set (sv_invites db). ai_token v = hash token) \<and> \<not> (\<exists>r\<in>set (sv_admins db). ad_id r = usedBy))
      then (db, False)
      else (db\<lparr>sv_invites := sql_update (\<lambda>v. ai_token v = hash token)
                 (\<lambda>v. v\<lparr>ai_used_by := Some usedBy, ai_used_at := VStr (FormatSQLTimestamp now)\<rparr>) (sv_invites db)\<rparr>, True))"

definition DeleteExpiredAdminInvites :: "bool \<Rightarrow> bool \<Rightarrow> bool list \<Rightarrow> instant \<Rightarrow> admin_db \<Rightarrow> admin_db \<times> bool" where
  "DeleteExpiredAdminInvites usedOk selectOk oks now db =
     (if \<not> usedOk then (db, False)
      else (let rows = sql_delete (\<lambda>v. ai_used_at v \<noteq> VNil) (sv_invites db) in
            case DeleteRowsWithTimestampBefore (\<lambda>v. VInt (ai_rowid v)) ai_expires_at selectOk oks now False rows of
              (rows', n, ok) \<Rightarrow> (db\<lparr>sv_invites := rows'\<rparr>, ok)))"

definition GetPendingAdminInvites ::
  "(admin_invite_row list \<Rightarrow> admin_invite_row list) \<Rightarrow> bool \<Rightarrow> instant \<Rightarrow> admin_db \<Rightarrow> AdminInvite list option" where
  "GetPendingAdminInvites newest ok now db =
     (if \<not> ok then None
      else Some (map (\<lambda>v. (admin_invite_view v)\<lparr>vt_UsedBy := None, vt_UsedAt := None\<rparr>)
             (filter (\<lambda>v. IsAfter (ai_expires_at v) now)
               (newest (filter (\<lambda>v. ai_used_at v = VNil \<and> ai_expires_at v \<noteq> VNil) (sv_invites db))))))"

text \<open>\<open>InviteAdmin\<close> is \<^verbatim>\<open>AdminInviteService.CreateInvite\<close>, without the mail.\<close>

definition InviteAdmin ::
  "(nat \<Rightarrow> nat) \<Rightarrow> (string \<Rightarrow> string) \<Rightarrow> bool \<Rightarrow> bool \<Rightarrow> bool \<Rightarrow> admin_invite_io \<Rightarrow> string \<Rightarrow> int \<Rightarrow> string \<Rightarrow> admin_db \<Rightarrow>
   admin_db \<times> (admin_invite_error + AdminInvite \<times> string)" where
  "InviteAdmin lower hash fk getOk mailOk io email0 invitedByID expiration db =
     (let email = NormalizeEmail lower email0 in
      case ValidateEmail lower email of
        Some e \<Rightarrow> (db, Inl (InviteEmailInvalid e))
      | None \<Rightarrow>
          (case ParseAdminInviteExpiration expiration of
             None \<Rightarrow> (db, Inl InviteBadExpiration)
           | Some (normalized, expiresIn) \<Rightarrow>
               (case GetAdminByID getOk invitedByID db of
                  Inl _ \<Rightarrow> (db, Inl InviterNotFound)
                | Inr _ \<Rightarrow>
                    (case GetAdminByEmail mailOk email db of
                       Inr _ \<Rightarrow> (db, Inl AlreadyAdmin)
                     | Inl _ \<Rightarrow>
                         (case CreateAdminInvite hash fk io email invitedByID expiresIn db of
                            (db', Inl e) \<Rightarrow> (db', Inl e)
                          | (db', Inr invite) \<Rightarrow> (db', Inr (invite, normalized)))))))"

definition VerifyAdminInvite ::
  "(string \<Rightarrow> string) \<Rightarrow> bool \<Rightarrow> instant \<Rightarrow> string \<Rightarrow> admin_db \<Rightarrow> admin_invite_error + AdminInvite" where
  "VerifyAdminInvite hash ok now token db =
     (case GetAdminInvite hash ok token db of
        None \<Rightarrow> Inl UnknownInvite
      | Some invite \<Rightarrow>
          if vt_UsedBy invite \<noteq> None then Inl AdminInviteUsed
          else if vt_ExpiresAt invite < now then Inl AdminInviteExpired
          else Inr invite)"

record accept_io =
  ac_get_ok :: bool
  ac_now :: instant
  ac_create :: create_admin_io
  ac_mark_ok :: bool

definition AcceptInvite ::
  "argon2 \<Rightarrow> (nat \<Rightarrow> nat) \<Rightarrow> (string \<Rightarrow> string) \<Rightarrow> bool \<Rightarrow> accept_io \<Rightarrow> string \<Rightarrow> string \<Rightarrow> string \<Rightarrow> admin_db \<Rightarrow>
   admin_db \<times> (admin_invite_error + Admin)" where
  "AcceptInvite argon lower hash fk io token username password db =
     (case VerifyAdminInvite hash (ac_get_ok io) (ac_now io) token db of
        Inl e \<Rightarrow> (db, Inl e)
      | Inr invite \<Rightarrow>
          (let name = NormalizeUsername lower username in
           case ValidateUsername lower name of
             Some e \<Rightarrow> (db, Inl (InviteUsernameInvalid e))
           | None \<Rightarrow>
               (case CreateAdminAccount argon hash (ac_create io) name (vt_InvitedEmail invite) password False db of
                  (db1, Inl e) \<Rightarrow> (db1, Inl (InviteAccountFailed e))
                | (db1, Inr admin) \<Rightarrow>
                    (fst (MarkAdminInviteUsed hash fk (ac_mark_ok io) (ac_now io) token (adm_ID admin) db1), Inr admin))))"

definition RevokeInvite :: "(string \<Rightarrow> string) \<Rightarrow> bool \<Rightarrow> bool \<Rightarrow> instant \<Rightarrow> string \<Rightarrow> admin_db \<Rightarrow> admin_db \<times> bool" where
  "RevokeInvite hash fk ok now token db = MarkAdminInviteUsed hash fk ok now token 0 db"

section \<open>The administrator step of the sign-in page\<close>

record admin_login_io =
  lg_mail_ok :: bool
  lg_name_ok :: bool
  lg_passkeys_ok :: bool
  lg_pending :: "string option"
  lg_session :: admin_session_io
  lg_login_ok :: bool
  lg_now :: instant

text \<open>A sign-in as an administrator ends with a session, with a token for the passkey challenge, or with an error status.\<close>

datatype admin_page = AdminRefused nat | PasskeyPending string | AdminSignedIn string

definition HandleLogin_admin ::
  "argon2 \<Rightarrow> bool \<Rightarrow> admin_login_io \<Rightarrow> string \<Rightarrow> string \<Rightarrow> Admin \<Rightarrow> admin_db \<Rightarrow> admin_db \<times> admin_page" where
  "HandleLogin_admin argon fk io ip agent admin db =
     (if \<not> lg_passkeys_ok io then (db, AdminRefused 500)
      else if adm_ID admin \<in> set (sv_passkeys db) then
        (db, if adm_ID admin \<le> 0 then AdminRefused 500
             else case lg_pending io of None \<Rightarrow> AdminRefused 500 | Some token \<Rightarrow> PasskeyPending token)
      else
        (case CreateAdminSession fk (lg_session io) (adm_ID admin) ip agent (30 * 24 * hour_ns) db of
           (db1, None) \<Rightarrow> (db1, AdminRefused 500)
         | (db1, Some session) \<Rightarrow>
             (fst (UpdateAdminLastLogin (lg_login_ok io) (lg_now io) (adm_ID admin) db1), AdminSignedIn (ss_SessionID session))))"

definition HandleLogin ::
  "auth_env \<Rightarrow> auth_io \<Rightarrow> bool \<Rightarrow> admin_login_io \<Rightarrow> string option \<Rightarrow> bool \<Rightarrow> string \<Rightarrow> LoginRequest \<Rightarrow> string \<Rightarrow> string \<Rightarrow>
   admin_db \<times> world \<Rightarrow> (admin_db \<times> world) \<times> (admin_page + login_page)" where
  "HandleLogin env io fk aio timeoutStr json redirect req ip agent s =
     (let ident = trimSpace (lq_Identifier req); password = lq_Password req in
      if password \<noteq> trimSpace password \<or> ident = [] \<or> password = [] then (s, Inr (LoginRefused 400))
      else case VerifyAdminCredentials (en_argon env) (lg_mail_ok aio) (lg_name_ok aio) ident password (fst s) of
        Inr admin \<Rightarrow>
          (case HandleLogin_admin (en_argon env) fk aio ip agent admin (fst s) of (db, page) \<Rightarrow> ((db, snd s), Inl page))
      | Inl _ \<Rightarrow>
          (case HandleLogin_users env io timeoutStr json redirect req (snd s) of (w, page) \<Rightarrow> ((fst s, w), Inr page)))"

section \<open>The last super administrator\<close>

lemma admin_query_Inr:
  assumes "admin_query P ok db = Inr a"
  shows "\<exists>r\<in>set (sv_admins db). P r \<and> a = admin_view r"
  using assms by (auto simp: admin_query_def find_Some_iff split: if_splits option.splits)

lemma admin_view_fields [simp]:
  "adm_ID (admin_view r) = ad_id r" "adm_IsSuperAdmin (admin_view r) = ad_is_super_admin r" "adm_IsActive (admin_view r) = ad_is_active r"
  "adm_PasswordHash (admin_view r) = ad_password_hash r" "adm_Email (admin_view r) = ad_email r"
  by (simp_all add: admin_view_def)

definition has_super :: "admin_db \<Rightarrow> bool" where
  "has_super db \<longleftrightarrow> (\<exists>r\<in>set (sv_admins db). ad_is_super_admin r \<and> ad_is_active r)"

text \<open>
  C22. \<open>DeleteAdminAccount\<close> never leaves the server without an active super administrator: if there is one before the
  call, there is one after it, whatever its statements answer. (Hypothesis: ids are unique, as the primary key makes them.)
\<close>

theorem last_super_admin_stays:
  assumes "has_super db" "distinct (map ad_id (sv_admins db))"
  shows "has_super (fst (DeleteAdminAccount fk countOk getOk ok i db))"
proof (cases "delete_admin_check countOk getOk i db = None \<and> ok")
  case True
  then obtain a where a: "GetAdminByID getOk i db = Inr a"
      "\<not> (adm_IsSuperAdmin a \<and> affected (\<lambda>r. ad_is_super_admin r \<and> ad_is_active r \<and> ad_id r \<noteq> i) (sv_admins db) = 0)"
    by (auto simp: delete_admin_check_def split: if_splits sum.splits)
  obtain q where q: "q \<in> set (sv_admins db)" "ad_id q = i" "a = admin_view q"
    using admin_query_Inr a(1) unfolding GetAdminByID_def by blast
  obtain s where s: "s \<in> set (sv_admins db)" "ad_is_super_admin s" "ad_is_active s"
    using assms(1) by (auto simp: has_super_def)
  have same: "s = q" if "ad_id s = i"
    using assms(2) that q(1,2) s(1) by (auto simp: distinct_map dest: inj_onD)
  have "\<exists>r\<in>set (sv_admins db). ad_is_super_admin r \<and> ad_is_active r \<and> ad_id r \<noteq> i"
  proof (cases "ad_id s = i")
    case True
    then have "ad_is_super_admin q" using same s(2) by simp
    then show ?thesis using a(2) q(3) by (auto simp: affected_def filter_empty_conv)
  next
    case False
    with s show ?thesis by blast
  qed
  then have "has_super (delete_admin_exec fk i db)"
    by (auto simp: has_super_def delete_admin_exec_def Let_def in_set_sql_delete)
  then show ?thesis using True by (simp add: DeleteAdminAccount_def)
qed (use assms in \<open>auto simp: DeleteAdminAccount_def split: option.splits\<close>)

definition admin_named :: "int \<Rightarrow> string \<Rightarrow> bool \<Rightarrow> admin_row" where
  "admin_named i name super =
     \<lparr>ad_id = i, ad_username = name, ad_email = name @ ''@a.org'', ad_password_hash = toy_hash, ad_token_hash = None, ad_token_prefix = None,
      ad_is_super_admin = super, ad_is_active = True, ad_created_at = VNil, ad_updated_at = VNil, ad_last_login_at = VNil\<rparr>"

definition demo_admins :: admin_db where
  "demo_admins = \<lparr>sv_next = 3, sv_admins = [admin_named 1 ''root'' True, admin_named 2 ''eve'' False], sv_preferences = [],
     sv_sessions = [\<lparr>sn_id = ''s2'', sn_admin_id = 2, sn_ip_address = Some [], sn_user_agent = Some [], sn_created_at = VNil,
        sn_expires_at = VTime (100 * second_ns)\<rparr>],
     sv_invites = [\<lparr>ai_rowid = 1, ai_token = ''inv'', ai_invited_email = ''zoe@c.org'', ai_invited_by = 1, ai_created_at = VNil,
        ai_expires_at = VTime (100 * second_ns), ai_used_by = None, ai_used_at = VNil\<rparr>],
     sv_passkeys = []\<rparr>"

theorem last_super_admin_stays_witness:
  "snd (DeleteAdminAccount True True True True 1 demo_admins) = Some LastSuperAdmin \<and>
   has_super (fst (DeleteAdminAccount True True True True 2 demo_admins))"
proof -
  have "has_super demo_admins" by (simp add: has_super_def demo_admins_def admin_named_def)
  moreover have "distinct (map ad_id (sv_admins demo_admins))" by (simp add: demo_admins_def admin_named_def)
  ultimately have "has_super (fst (DeleteAdminAccount True True True True 2 demo_admins))" by (rule last_super_admin_stays)
  moreover have "snd (DeleteAdminAccount True True True True 1 demo_admins) = Some LastSuperAdmin"
    by (simp add: DeleteAdminAccount_def delete_admin_check_def GetAdminByID_def admin_query_def affected_def demo_admins_def admin_named_def)
  ultimately show ?thesis by simp
qed

text \<open>The check and the deletion are separate statements: two requests that delete the two last super administrators both pass.\<close>

lemma super_admin_race:
  assumes "r \<in> set (sv_admins db)" "q \<in> set (sv_admins db)" "ad_id r \<noteq> ad_id q" "distinct (map ad_id (sv_admins db))"
    "ad_is_super_admin r" "ad_is_active r" "ad_is_super_admin q" "ad_is_active q"
    "\<forall>s\<in>set (sv_admins db). ad_is_super_admin s \<and> ad_is_active s \<longrightarrow> s = r \<or> s = q"
  shows "delete_admin_check True True (ad_id r) db = None" "delete_admin_check True True (ad_id q) db = None"
    "\<not> has_super (delete_admin_exec fk (ad_id q) (delete_admin_exec fk (ad_id r) db))"
proof -
  have check: "delete_admin_check True True (ad_id x) db = None"
    if "x \<in> set (sv_admins db)" "y \<in> set (sv_admins db)" "ad_id x \<noteq> ad_id y" "ad_is_super_admin y" "ad_is_active y" for x y
  proof -
    have "find (\<lambda>s. ad_id s = ad_id x) (sv_admins db) = Some x"
      using sql_lookup_in [OF assms(4) that(1)] by (simp add: sql_lookup_def)
    moreover have "affected (\<lambda>s. ad_is_super_admin s \<and> ad_is_active s \<and> ad_id s \<noteq> ad_id x) (sv_admins db) \<noteq> 0"
      using that by (auto simp: affected_def filter_empty_conv)
    ultimately show ?thesis by (simp add: delete_admin_check_def GetAdminByID_def admin_query_def)
  qed
  show "delete_admin_check True True (ad_id r) db = None" "delete_admin_check True True (ad_id q) db = None"
    using assms by (auto intro: check)
  show "\<not> has_super (delete_admin_exec fk (ad_id q) (delete_admin_exec fk (ad_id r) db))"
    using assms(9) by (auto simp: has_super_def delete_admin_exec_def Let_def in_set_sql_delete)
qed

section \<open>Taking access away\<close>

lemma admin_set_True: "admin_set ok i f db = (db', True) \<Longrightarrow> db' = db\<lparr>sv_admins := sql_update (\<lambda>r. ad_id r = i) f (sv_admins db)\<rparr>"
  unfolding admin_set_def by (metis Pair_inject)

lemma disabled_rows:
  "(\<And>r. \<not> ad_is_active (f r)) \<Longrightarrow>
   \<forall>r\<in>set (sv_admins (db\<lparr>sv_admins := sql_update (\<lambda>r. ad_id r = i) f rows\<rparr>)). ad_is_active r \<longrightarrow> ad_id r \<noteq> i"
  by (auto simp: sql_update_def)

lemma RequireAdminAuth_Inr:
  "RequireAdminAuth ok now cookie db = Inr i \<Longrightarrow> \<exists>s\<in>set (sv_sessions db). sn_admin_id s = i \<and> cookie = Some (sn_id s) \<and> IsAfter (sn_expires_at s) now"
  by (auto simp: RequireAdminAuth_def split: option.splits if_splits dest: sql_lookup_Some)

lemma RequireAdminAuth_sessions: "sv_sessions db' = sv_sessions db \<Longrightarrow> RequireAdminAuth ok now cookie db' = RequireAdminAuth ok now cookie db"
  by (simp add: RequireAdminAuth_def split: option.split)

lemma VerifyAdminCredentials_Inr:
  assumes "VerifyAdminCredentials argon ok1 ok2 n p db = Inr a"
  shows "\<exists>r\<in>set (sv_admins db). a = admin_view r \<and> ad_is_active r \<and> VerifyPassword argon p (ad_password_hash r) = Inr True"
proof -
  obtain a' where a': "GetAdminByEmail ok1 n db = Inr a' \<or> admin_query (\<lambda>r. ad_username r = n \<and> ad_is_active r) ok2 db = Inr a'"
      "a = a'" "VerifyPassword argon p (adm_PasswordHash a') = Inr True" "adm_IsActive a'"
    using assms by (auto simp: VerifyAdminCredentials_def split: sum.splits admin_error.splits if_splits)
  then show ?thesis unfolding GetAdminByEmail_def using admin_query_Inr by fastforce
qed

text \<open>
  C23. What disabling or deleting an administrator takes away. A disabled administrator can neither sign in nor use an API
  token; but a session that is open stays open, since the filter before the administration pages looks at the session
  only. Deleting the account ends its sessions on a connection that enforces foreign keys, and leaves them open on one
  that does not.
\<close>

theorem admin_access_revocation:
  assumes disable: "UpdateAdminAccount True now i u e (Flags super False) db = (db1, None)"
    and delete: "DeleteAdminAccount fk True True True i db = (db2, None)"
  shows "(\<forall>a ok token. GetByAPIToken hash ok token db1 = Inr a \<longrightarrow> adm_ID a \<noteq> i) \<and>
    (\<forall>a ok1 ok2 n p. VerifyAdminCredentials argon ok1 ok2 n p db1 = Inr a \<longrightarrow> adm_ID a \<noteq> i) \<and>
    (\<forall>ok t cookie. RequireAdminAuth ok t cookie db1 = RequireAdminAuth ok t cookie db) \<and>
    (\<forall>ok t cookie. if fk then RequireAdminAuth ok t cookie db2 \<noteq> Inr i
       else RequireAdminAuth ok t cookie db2 = RequireAdminAuth ok t cookie db)"
proof -
  let ?f = "\<lambda>r. r\<lparr>ad_username := u, ad_email := e, ad_is_super_admin := super, ad_is_active := False,
      ad_updated_at := VStr (FormatSQLTimestamp now)\<rparr>"
  have db1: "db1 = db\<lparr>sv_admins := sql_update (\<lambda>r. ad_id r = i) ?f (sv_admins db)\<rparr>"
    using disable by (intro admin_set_True) (auto simp: UpdateAdminAccount_def Let_def split: prod.splits if_splits)
  have off: "\<forall>r\<in>set (sv_admins db1). ad_is_active r \<longrightarrow> ad_id r \<noteq> i"
    unfolding db1 by (rule disabled_rows) simp
  have token: "adm_ID a \<noteq> i" if "GetByAPIToken hash ok token db1 = Inr a" for a ok token
    using admin_query_Inr [OF that [unfolded GetByAPIToken_def]] off by auto
  have cred: "adm_ID a \<noteq> i" if "VerifyAdminCredentials argon ok1 ok2 n p db1 = Inr a" for a ok1 ok2 n p
    using VerifyAdminCredentials_Inr [OF that] off by auto
  have "delete_admin_check True True i db = None" and db2: "db2 = delete_admin_exec fk i db"
    using delete by (auto simp: DeleteAdminAccount_def split: option.splits)
  then have present: "\<exists>r\<in>set (sv_admins db). ad_id r = i"
    using admin_query_Inr by (fastforce simp: delete_admin_check_def GetAdminByID_def split: sum.splits if_splits)
  have gone: "RequireAdminAuth ok t cookie db2 \<noteq> Inr i" if fk for ok t cookie
    using RequireAdminAuth_Inr [of ok t cookie db2 i] present that
    by (auto simp: db2 delete_admin_exec_def Let_def in_set_sql_delete)
  have "sv_sessions db2 = sv_sessions db" if "\<not> fk" using that by (simp add: db2 delete_admin_exec_def Let_def)
  with token cred gone show ?thesis by (auto simp: db1 intro!: RequireAdminAuth_sessions)
qed

theorem admin_access_revocation_witness:
  "\<exists>db1. UpdateAdminAccount True 0 2 ''eve'' ''eve@a.org'' (Flags False False) demo_admins = (db1, None) \<and>
     RequireAdminAuth True 0 (Some ''s2'') db1 = Inr 2"
proof -
  obtain db1 where d: "UpdateAdminAccount True 0 2 ''eve'' ''eve@a.org'' (Flags False False) demo_admins = (db1, None)"
    by (simp add: UpdateAdminAccount_def admin_set_def demo_admins_def admin_named_def admin_clashes_def)
  obtain db2 where x: "DeleteAdminAccount True True True True 2 demo_admins = (db2, None)"
    by (simp add: DeleteAdminAccount_def delete_admin_check_def GetAdminByID_def admin_query_def demo_admins_def admin_named_def admin_view_def)
  have "RequireAdminAuth True 0 (Some ''s2'') demo_admins = Inr 2"
    by (simp add: RequireAdminAuth_def demo_admins_def IsAfter_def ParseStoredTimestamp_def unit_defs)
  with admin_access_revocation [OF d x] d show ?thesis by auto
qed

section \<open>Invitations\<close>

lemma CreateAdminAccount_new:
  assumes "CreateAdminAccount argon hash io n e p super db = (db', Inr admin)" "\<forall>r\<in>set (sv_admins db). ad_id r < sv_next db"
  shows "adm_ID admin = sv_next db \<and> adm_Email admin = e \<and> adm_IsSuperAdmin admin = super \<and> sv_invites db' = sv_invites db \<and>
    (\<exists>r. sv_admins db' = sv_admins db @ [r] \<and> ad_id r = sv_next db \<and> ad_email r = e \<and> ad_is_active r \<and> ad_is_super_admin r = super)"
proof -
  obtain h tok where h: "HashPassword argon (ca_salt io) p = Inr h" "GenerateAPIToken (ca_bytes io) = Some tok"
    using assms(1) by (auto simp: CreateAdminAccount_def split: sum.splits option.splits)
  let ?s = "VStr (FormatSQLTimestamp (ca_now io))"
  let ?r = "\<lparr>ad_id = sv_next db, ad_username = n, ad_email = e, ad_password_hash = h, ad_token_hash = Some (hash tok),
      ad_token_prefix = Some (GetTokenPrefix tok), ad_is_super_admin = super, ad_is_active = True, ad_created_at = ?s,
      ad_updated_at = ?s, ad_last_login_at = VNil\<rparr>"
  have rows: "sv_admins db' = sv_admins db @ [?r]" "sv_invites db' = sv_invites db"
      and get: "admin_query (\<lambda>r. ad_id r = sv_next db) True db' = Inr admin"
    using assms(1) unfolding CreateAdminAccount_def h
    by (auto simp: Let_def GetAdminByID_def admin_query_def split: if_splits)
  have "adm_ID admin = sv_next db" using admin_query_Inr [OF get] by auto
  moreover have "find (\<lambda>r. ad_id r = sv_next db) (sv_admins db) = None" using assms(2) by (auto simp: find_None_iff)
  then have "admin = admin_view ?r"
    using get by (simp add: admin_query_def rows(1) sql_lookup_append [unfolded sql_lookup_def]) 
  ultimately show ?thesis using rows by simp
qed

lemma AcceptInvite_Inr:
  assumes "AcceptInvite argon lower hash fk io token n p db = (db', Inr admin)"
  obtains invite db1 where "VerifyAdminInvite hash (ac_get_ok io) (ac_now io) token db = Inr invite"
    "CreateAdminAccount argon hash (ac_create io) (NormalizeUsername lower n) (vt_InvitedEmail invite) p False db = (db1, Inr admin)"
    "db' = fst (MarkAdminInviteUsed hash fk (ac_mark_ok io) (ac_now io) token (adm_ID admin) db1)"
  using assms by (auto simp: AcceptInvite_def Let_def split: sum.splits option.splits prod.splits)

text \<open>
  An invitation comes back to life. Accepting it makes an ordinary administrator for the invited address and uses it up;
  but when that administrator is deleted, the foreign key sets \<^verbatim>\<open>used_by\<close> to NULL, and \<open>VerifyAdminInvite\<close>, which
  does not look at \<^verbatim>\<open>used_at\<close>, accepts the same token again until it expires.
\<close>

lemma admin_invite_reopens:
  assumes accept: "AcceptInvite argon lower hash True io token n p db = (db1, Inr admin)" and ok: "ac_mark_ok io"
    and keys: "\<forall>r\<in>set (sv_admins db). ad_id r < sv_next db" "distinct (map ai_token (sv_invites db))"
      "\<forall>v\<in>set (sv_invites db). ai_invited_by v < sv_next db"
    and delete: "DeleteAdminAccount True True True True (adm_ID admin) db1 = (db2, None)"
    and live: "VerifyAdminInvite hash True now token db = Inr invite"
  shows "\<not> adm_IsSuperAdmin admin \<and> adm_Email admin = vt_InvitedEmail invite \<and>
    VerifyAdminInvite hash True now token db1 = Inl AdminInviteUsed \<and>
    (\<exists>invite'. VerifyAdminInvite hash True now token db2 = Inr invite' \<and> vt_InvitedEmail invite' = vt_InvitedEmail invite)"
  using accept
proof (cases rule: AcceptInvite_Inr)
  case (1 v0 da)
  obtain v where v: "sql_lookup ai_token (hash token) (sv_invites db) = Some v" "invite = admin_invite_view v" "ai_used_by v = None"
      "\<not> stored_time (ai_expires_at v) < now"
    using live by (auto simp: VerifyAdminInvite_def GetAdminInvite_def admin_invite_view_def split: option.splits if_splits)
  have v0: "v0 = invite" using 1(1) v(1,2) by (auto simp: VerifyAdminInvite_def GetAdminInvite_def split: option.splits if_splits)
  note new = CreateAdminAccount_new [OF 1(2) keys(1)]
  have id: "adm_ID admin = sv_next db" using new by simp
  let ?m = "\<lambda>v. v\<lparr>ai_used_by := Some (sv_next db), ai_used_at := VStr (FormatSQLTimestamp (ac_now io))\<rparr>"
  have inv1: "sv_invites db1 = sql_update (\<lambda>v. ai_token v = hash token) ?m (sv_invites db)" and adm1: "sv_admins db1 = sv_admins da"
    using new ok by (auto simp: 1(3) MarkAdminInviteUsed_def)
  have tok: "ai_token v = hash token" "v \<in> set (sv_invites db)" using sql_lookup_Some [OF v(1)] by simp_all
  have look1: "sql_lookup ai_token (hash token) (sv_invites db1) = Some (?m v)"
    using v(1) tok(1) by (simp add: inv1 sql_update_lookup)
  have db2: "sv_invites db2 = sql_update (\<lambda>v. ai_used_by v = Some (sv_next db)) (\<lambda>v. v\<lparr>ai_used_by := None\<rparr>)
      (sql_delete (\<lambda>v. ai_invited_by v = sv_next db) (sv_invites db1))"
    using delete new unfolding id
    by (auto simp: DeleteAdminAccount_def delete_admin_exec_def Let_def adm1 split: option.splits)
  have dist: "distinct (map ai_token (sv_invites db1))"
    using keys(2) by (simp add: inv1 sql_update_def comp_def if_distrib cong: if_cong)
  have inviter: "ai_invited_by v \<noteq> sv_next db" using keys(3) tok(2) by auto
  have look2: "sql_lookup ai_token (hash token) (sv_invites db2) = Some ((?m v)\<lparr>ai_used_by := None\<rparr>)"
    by (simp add: db2 sql_update_lookup sql_lookup_delete [OF dist] look1 inviter)
  have "adm_Email admin = vt_InvitedEmail invite \<and> \<not> adm_IsSuperAdmin admin"
    using new v0 by simp
  with look1 look2 v(2,4) show ?thesis
    by (simp add: VerifyAdminInvite_def GetAdminInvite_def admin_invite_view_def)
qed

definition accept_ok :: accept_io where
  "accept_ok = \<lparr>ac_get_ok = True, ac_now = 0, ac_create = \<lparr>ca_salt = Some ''0123456789abcdef'', ca_bytes = Some [1, 2], ca_now = 0,
     ca_insert_ok = True, ca_id_ok = True, ca_prefs_ok = True, ca_get_ok = True\<rparr>, ac_mark_ok = True\<rparr>"

lemma admin_invite_reopens_example:
  "\<exists>db1 db2 admin invite. AcceptInvite toy_argon id id True accept_ok ''inv'' ''zoe'' ''secret 12'' demo_admins = (db1, Inr admin) \<and>
     DeleteAdminAccount True True True True (adm_ID admin) db1 = (db2, None) \<and>
     VerifyAdminInvite id True 0 ''inv'' db2 = Inr invite"
proof -
  have live: "VerifyAdminInvite id True 0 ''inv'' demo_admins = Inr (admin_invite_view (hd (sv_invites demo_admins)))"
    by (simp add: VerifyAdminInvite_def GetAdminInvite_def demo_admins_def admin_invite_view_def stored_time_def ParseStoredTimestamp_def unit_defs)
  define key where "key = take 32 (''secret 12'' @ replicate 32 CHR ''.'')"
  have hash: "HashPassword toy_argon (Some ''0123456789abcdef'') ''secret 12'' = Inr (phc_text ''0123456789abcdef'' key)"
    by (rule HashPassword_phc) (simp add: toy_argon_def key_def)
  have mail: "vt_InvitedEmail (admin_invite_view (hd (sv_invites demo_admins))) = ''zoe@c.org''"
    by (simp add: admin_invite_view_def demo_admins_def)
  obtain da admin where c: "CreateAdminAccount toy_argon id (ac_create accept_ok) ''zoe'' ''zoe@c.org'' ''secret 12'' False demo_admins = (da, Inr admin)"
    by (simp add: accept_ok_def CreateAdminAccount_def hash GenerateAPIToken_def Let_def admin_clashes_def
        GetAdminByID_def admin_query_def demo_admins_def admin_named_def)
  have keys: "\<forall>r\<in>set (sv_admins demo_admins). ad_id r < sv_next demo_admins" "distinct (map ai_token (sv_invites demo_admins))"
      "\<forall>v\<in>set (sv_invites demo_admins). ai_invited_by v < sv_next demo_admins" "sv_next demo_admins = 3"
    by (simp_all add: demo_admins_def admin_named_def)
  obtain r where new: "adm_ID admin = 3" "sv_admins da = sv_admins demo_admins @ [r]" "ad_id r = 3" "\<not> ad_is_super_admin r"
    using CreateAdminAccount_new [OF c keys(1)] keys(4) by auto
  define db1 where "db1 = fst (MarkAdminInviteUsed id True True 0 ''inv'' 3 da)"
  have acc: "AcceptInvite toy_argon id id True accept_ok ''inv'' ''zoe'' ''secret 12'' demo_admins = (db1, Inr admin)"
    using c live mail new(1) by (simp add: AcceptInvite_def accept_ok_def zoe_name db1_def)
  have "find (\<lambda>r. ad_id r = 3) (sv_admins db1) = Some r"
    using new by (auto simp: db1_def MarkAdminInviteUsed_def demo_admins_def admin_named_def)
  then have del: "DeleteAdminAccount True True True True (adm_ID admin) db1 = (delete_admin_exec True 3 db1, None)"
    using new by (simp add: DeleteAdminAccount_def delete_admin_check_def GetAdminByID_def admin_query_def)
  have "\<exists>invite'. VerifyAdminInvite id True 0 ''inv'' (delete_admin_exec True 3 db1) = Inr invite'"
    using admin_invite_reopens [OF acc _ keys(1-3) del live] by (auto simp: accept_ok_def)
  with acc del show ?thesis by blast
qed

text \<open>Revoking an invitation names the administrator 0 as its user: with foreign keys the UPDATE always fails.\<close>

lemma RevokeInvite_fails:
  assumes "v \<in> set (sv_invites db)" "ai_token v = hash token" "\<forall>r\<in>set (sv_admins db). 0 < ad_id r"
  shows "RevokeInvite hash True ok now token db = (db, False)"
  using assms by (force simp: RevokeInvite_def MarkAdminInviteUsed_def)

end
