(* ===== verification/Notifications.thy ===== *)
theory Notifications
  imports User_Accounts Sql_Order "HOL-Library.Multiset"
begin

text \<open>
  The notifications shown in the web interface, \<^verbatim>\<open>src/server/model/notification.go\<close>: one table for users and one for
  administrators, with the same operations, and the display preferences. A row belongs to its owner. The number of
  the row (a ULID), the JSON coding of the action button, the clock and the outcomes of statements are arguments;
  the queries with \<^verbatim>\<open>ORDER BY created_at DESC\<close> sort the stored texts, and \<open>ties\<close> is the order the database chooses
  for rows created at the same second.
\<close>

section \<open>State\<close>

record NotificationAction =
  na_Label :: string
  na_URL :: string

record notif_row =
  nr_id :: string
  nr_owner :: int
  nr_type :: string
  nr_display :: string
  nr_title :: string
  nr_message :: string
  nr_action_json :: "string option"
  nr_read :: bool
  nr_dismissed :: bool
  nr_created_at :: scanned
  nr_expires_at :: scanned

record Notification =
  no_ID :: string
  no_Owner :: int
  no_Type :: string
  no_Display :: string
  no_Title :: string
  no_Message :: string
  no_Action :: "NotificationAction option"
  no_Read :: bool
  no_Dismissed :: bool
  no_CreatedAt :: instant
  no_ExpiresAt :: "instant option"

record json_action =
  ja_encode :: "NotificationAction \<Rightarrow> string option"
  ja_decode :: "string \<Rightarrow> NotificationAction option"

type_synonym notif_order = "notif_row list \<Rightarrow> notif_row list"

definition latest_rows :: "notif_order \<Rightarrow> notif_order" where
  "latest_rows ties rows = order_by_desc (\<lambda>r. column_text (nr_created_at r)) ties rows"

lemma mset_latest_rows: "(\<And>rs. mset (ties rs) = mset rs) \<Longrightarrow> mset (latest_rows ties rows) = mset rows"
  by (simp add: latest_rows_def order_by_desc_def)

section \<open>Reading\<close>

definition decode_action :: "json_action \<Rightarrow> string option \<Rightarrow> NotificationAction option" where
  "decode_action js a = (case a of None \<Rightarrow> None | Some s \<Rightarrow> if s = [] then None else ja_decode js s)"

definition notif_view :: "json_action \<Rightarrow> notif_row \<Rightarrow> Notification" where
  "notif_view js r =
     \<lparr>no_ID = nr_id r, no_Owner = nr_owner r, no_Type = nr_type r, no_Display = nr_display r, no_Title = nr_title r,
      no_Message = nr_message r, no_Action = decode_action js (nr_action_json r), no_Read = nr_read r, no_Dismissed = nr_dismissed r,
      no_CreatedAt = stored_time (nr_created_at r), no_ExpiresAt = ParseStoredTimestamp (nr_expires_at r)\<rparr>"

definition GetNotification :: "json_action \<Rightarrow> bool \<Rightarrow> string \<Rightarrow> notif_row list \<Rightarrow> Notification option" where
  "GetNotification js ok i rows = (if ok then map_option (notif_view js) (sql_lookup nr_id i rows) else None)"

text \<open>The loop over the rows: skips the expired and the unreadable, then \<open>offset\<close> live ones, and stops when the window is full.\<close>

fun scan_loop :: "json_action \<Rightarrow> instant \<Rightarrow> int \<Rightarrow> int \<Rightarrow> int \<Rightarrow> Notification list \<Rightarrow> notif_row list \<Rightarrow> Notification list" where
  "scan_loop js now offset limit skipped acc [] = acc"
| "scan_loop js now offset limit skipped acc (r # rows) =
     (if \<not> IsAfter (nr_expires_at r) now then scan_loop js now offset limit skipped acc rows
      else if skipped < offset then scan_loop js now offset limit (skipped + 1) acc rows
      else
        (let acc' = acc @ [notif_view js r] in
         if 0 < limit \<and> limit \<le> int (length acc') then acc' else scan_loop js now offset limit skipped acc' rows))"

definition scanUnexpiredNotifications ::
  "json_action \<Rightarrow> bool \<Rightarrow> instant \<Rightarrow> int \<Rightarrow> int \<Rightarrow> notif_row list \<Rightarrow> Notification list option" where
  "scanUnexpiredNotifications js rowsOk now offset0 limit rows =
     (if limit = 0 then Some []
      else (let offset = (if offset0 < 0 then 0 else offset0) in
            if rowsOk then Some (scan_loop js now offset limit 0 [] rows) else None))"

definition noNotificationLimit :: int where "noNotificationLimit = - 1"

definition ListNotifications ::
  "json_action \<Rightarrow> notif_order \<Rightarrow> bool \<Rightarrow> bool \<Rightarrow> instant \<Rightarrow> int \<Rightarrow> int \<Rightarrow> int \<Rightarrow> notif_row list \<Rightarrow> Notification list option" where
  "ListNotifications js ties ok rowsOk now owner limit offset rows =
     (if \<not> ok then None
      else scanUnexpiredNotifications js rowsOk now offset limit
             (latest_rows ties (filter (\<lambda>r. nr_owner r = owner \<and> nr_expires_at r \<noteq> VNil) rows)))"

definition unread_of :: "int \<Rightarrow> notif_row \<Rightarrow> bool" where
  "unread_of owner r \<longleftrightarrow> nr_owner r = owner \<and> \<not> nr_read r \<and> \<not> nr_dismissed r \<and> nr_expires_at r \<noteq> VNil"

definition GetUnread ::
  "json_action \<Rightarrow> notif_order \<Rightarrow> bool \<Rightarrow> bool \<Rightarrow> instant \<Rightarrow> int \<Rightarrow> notif_row list \<Rightarrow> Notification list option" where
  "GetUnread js ties ok rowsOk now owner rows =
     (if \<not> ok then None
      else scanUnexpiredNotifications js rowsOk now 0 noNotificationLimit (latest_rows ties (filter (unread_of owner) rows)))"

fun count_loop :: "instant \<Rightarrow> scanned list \<Rightarrow> int \<Rightarrow> int" where
  "count_loop now [] n = n"
| "count_loop now (e # es) n = (if \<not> IsAfter e now then count_loop now es n else count_loop now es (n + 1))"

definition countUnexpiredRows :: "bool \<Rightarrow> instant \<Rightarrow> scanned list \<Rightarrow> int option" where
  "countUnexpiredRows rowsOk now es = (if rowsOk then Some (count_loop now es 0) else None)"

definition GetUnreadCount :: "bool \<Rightarrow> bool \<Rightarrow> instant \<Rightarrow> int \<Rightarrow> notif_row list \<Rightarrow> int option" where
  "GetUnreadCount ok rowsOk now owner rows =
     (if \<not> ok then None else countUnexpiredRows rowsOk now (map nr_expires_at (filter (unread_of owner) rows)))"

section \<open>Statistics\<close>

record NotificationStatistics =
  nst_Total :: int
  nst_Unread :: int
  nst_Read :: int
  nst_ByType :: "string \<rightharpoonup> int"
  nst_ByDisplay :: "string \<rightharpoonup> int"

definition bump :: "string \<Rightarrow> (string \<rightharpoonup> int) \<Rightarrow> (string \<rightharpoonup> int)" where
  "bump k m = m(k \<mapsto> (case m k of None \<Rightarrow> 0 | Some n \<Rightarrow> n) + 1)"

fun tallyNotificationStatistics :: "instant \<Rightarrow> notif_row list \<Rightarrow> NotificationStatistics \<Rightarrow> NotificationStatistics" where
  "tallyNotificationStatistics now [] st = st"
| "tallyNotificationStatistics now (r # rows) st =
     (if \<not> IsAfter (nr_expires_at r) now then tallyNotificationStatistics now rows st
      else tallyNotificationStatistics now rows
        \<lparr>nst_Total = nst_Total st + 1,
         nst_Unread = nst_Unread st + (if \<not> nr_read r \<and> \<not> nr_dismissed r then 1 else 0),
         nst_Read = nst_Read st + (if nr_read r then 1 else 0),
         nst_ByType = bump (nr_type r) (nst_ByType st), nst_ByDisplay = bump (nr_display r) (nst_ByDisplay st)\<rparr>)"

definition GetStatistics :: "bool \<Rightarrow> bool \<Rightarrow> instant \<Rightarrow> int \<Rightarrow> notif_row list \<Rightarrow> NotificationStatistics option" where
  "GetStatistics ok rowsOk now owner rows =
     (if ok \<and> rowsOk
      then Some (tallyNotificationStatistics now (filter (\<lambda>r. nr_owner r = owner \<and> nr_expires_at r \<noteq> VNil) rows)
             \<lparr>nst_Total = 0, nst_Unread = 0, nst_Read = 0, nst_ByType = Map.empty, nst_ByDisplay = Map.empty\<rparr>)
      else None)"

section \<open>Writing\<close>

datatype notif_error = EncodeFailed | NotifInsertFailed | NotifReadFailed | NotifWriteFailed | NotOwned

record notif_io =
  ni_id :: string
  ni_expires :: instant
  ni_now :: instant
  ni_insert_ok :: bool
  ni_get_ok :: bool

text \<open>
  \<open>ni_expires\<close> is the instant thirty calendar days after the clock reading. The table's key and its CHECK constraints on
  the type and the display refuse an insert.
\<close>

definition notif_types :: "string list" where
  "notif_types = [''success'', ''info'', ''warning'', ''error'', ''security'']"

definition notif_displays :: "string list" where
  "notif_displays = [''toast'', ''banner'', ''center'']"

definition CreateNotification ::
  "json_action \<Rightarrow> notif_io \<Rightarrow> int \<Rightarrow> string \<Rightarrow> string \<Rightarrow> string \<Rightarrow> string \<Rightarrow> NotificationAction option \<Rightarrow> notif_row list \<Rightarrow>
   notif_row list \<times> (notif_error + Notification)" where
  "CreateNotification js io owner notifType display title message action rows =
     (case (case action of None \<Rightarrow> Some None | Some a \<Rightarrow> map_option Some (ja_encode js a)) of
        None \<Rightarrow> (rows, Inl EncodeFailed)
      | Some actionJSON \<Rightarrow>
          if \<not> ni_insert_ok io \<or> (\<exists>r\<in>set rows. nr_id r = ni_id io) \<or> notifType \<notin> set notif_types \<or> display \<notin> set notif_displays
          then (rows, Inl NotifInsertFailed)
          else
            (let rows' = rows @ [\<lparr>nr_id = ni_id io, nr_owner = owner, nr_type = notifType, nr_display = display, nr_title = title,
                   nr_message = message, nr_action_json = actionJSON, nr_read = False, nr_dismissed = False,
                   nr_created_at = VStr (FormatSQLTimestamp (ni_now io)), nr_expires_at = VStr (FormatSQLTimestamp (ni_expires io))\<rparr>] in
             (rows', case GetNotification js (ni_get_ok io) (ni_id io) rows' of None \<Rightarrow> Inl NotifReadFailed | Some n \<Rightarrow> Inr n)))"

text \<open>A statement for one row of an owner; the affected rows are counted, and none is an error.\<close>

definition owned_write ::
  "bool \<Rightarrow> bool \<Rightarrow> ((notif_row \<Rightarrow> bool) \<Rightarrow> notif_row list \<Rightarrow> notif_row list) \<Rightarrow> string \<Rightarrow> int \<Rightarrow> notif_row list \<Rightarrow>
   notif_row list \<times> notif_error option" where
  "owned_write ok countOk statement i owner rows =
     (if \<not> ok then (rows, Some NotifWriteFailed)
      else (let P = (\<lambda>r. nr_id r = i \<and> nr_owner r = owner); rows' = statement P rows in
            (rows', if \<not> countOk then Some NotifWriteFailed else if affected P rows = 0 then Some NotOwned else None)))"

definition MarkAsRead :: "bool \<Rightarrow> bool \<Rightarrow> string \<Rightarrow> int \<Rightarrow> notif_row list \<Rightarrow> notif_row list \<times> notif_error option" where
  "MarkAsRead ok countOk i owner rows = owned_write ok countOk (\<lambda>P. sql_update P (\<lambda>r. r\<lparr>nr_read := True\<rparr>)) i owner rows"

definition MarkAllAsRead :: "bool \<Rightarrow> int \<Rightarrow> notif_row list \<Rightarrow> notif_row list \<times> notif_error option" where
  "MarkAllAsRead ok owner rows =
     (if ok then (sql_update (\<lambda>r. nr_owner r = owner \<and> \<not> nr_read r) (\<lambda>r. r\<lparr>nr_read := True\<rparr>) rows, None)
      else (rows, Some NotifWriteFailed))"

definition Dismiss :: "bool \<Rightarrow> bool \<Rightarrow> string \<Rightarrow> int \<Rightarrow> notif_row list \<Rightarrow> notif_row list \<times> notif_error option" where
  "Dismiss ok countOk i owner rows = owned_write ok countOk (\<lambda>P. sql_update P (\<lambda>r. r\<lparr>nr_dismissed := True\<rparr>)) i owner rows"

definition DeleteNotification :: "bool \<Rightarrow> bool \<Rightarrow> string \<Rightarrow> int \<Rightarrow> notif_row list \<Rightarrow> notif_row list \<times> notif_error option" where
  "DeleteNotification ok countOk i owner rows = owned_write ok countOk sql_delete i owner rows"

definition CleanupNotifications :: "bool \<Rightarrow> bool list \<Rightarrow> instant \<Rightarrow> notif_row list \<Rightarrow> notif_row list \<times> int \<times> bool" where
  "CleanupNotifications selectOk oks now rows =
     DeleteRowsWithTimestampBefore (\<lambda>r. VStr (nr_id r)) nr_expires_at selectOk oks now True rows"

text \<open>SQLite reads a negative limit as none.\<close>

definition EnforceLimit :: "notif_order \<Rightarrow> bool \<Rightarrow> int \<Rightarrow> int \<Rightarrow> notif_row list \<Rightarrow> notif_row list \<times> int option" where
  "EnforceLimit ties ok owner limit rows =
     (if \<not> ok then (rows, None)
      else (let mine = latest_rows ties (filter (\<lambda>r. nr_owner r = owner) rows);
                kept = map nr_id (if limit < 0 then mine else take (nat limit) mine);
                P = (\<lambda>r. nr_owner r = owner \<and> nr_id r \<notin> set kept) in
            (sql_delete P rows, Some (affected P rows))))"

section \<open>Preferences\<close>

record NotificationPreferences =
  np_Owner :: int
  np_EnableToast :: bool
  np_EnableBanner :: bool
  np_EnableCenter :: bool
  np_EnableSound :: bool
  np_ToastDurationSuccess :: int
  np_ToastDurationInfo :: int
  np_ToastDurationWarning :: int
  np_UpdatedAt :: instant

type_synonym prefs_table = "(NotificationPreferences \<times> scanned) list"

definition default_notif_prefs :: "int \<Rightarrow> instant \<Rightarrow> NotificationPreferences" where
  "default_notif_prefs owner now =
     \<lparr>np_Owner = owner, np_EnableToast = True, np_EnableBanner = True, np_EnableCenter = True, np_EnableSound = False,
      np_ToastDurationSuccess = 5, np_ToastDurationInfo = 5, np_ToastDurationWarning = 10, np_UpdatedAt = now\<rparr>"

definition GetPreferences :: "bool \<Rightarrow> instant \<Rightarrow> int \<Rightarrow> prefs_table \<Rightarrow> NotificationPreferences option" where
  "GetPreferences ok now owner rows =
     (if \<not> ok then None
      else case sql_lookup (\<lambda>r. np_Owner (fst r)) owner rows of
        None \<Rightarrow> Some (default_notif_prefs owner now)
      | Some (p, stamp) \<Rightarrow> Some (p\<lparr>np_UpdatedAt := stored_time stamp\<rparr>))"

text \<open>The upsert: a new row, or the columns of the row that is there.\<close>

definition UpdatePreferences :: "bool \<Rightarrow> instant \<Rightarrow> int \<Rightarrow> NotificationPreferences \<Rightarrow> prefs_table \<Rightarrow> prefs_table \<times> bool" where
  "UpdatePreferences ok now owner prefs rows =
     (if \<not> ok then (rows, False)
      else (let r = (prefs\<lparr>np_Owner := owner\<rparr>, VStr (FormatSQLTimestamp now)) in
            (if \<exists>q\<in>set rows. np_Owner (fst q) = owner then sql_update (\<lambda>q. np_Owner (fst q) = owner) (\<lambda>q. r) rows else rows @ [r], True)))"

section \<open>The window\<close>

abbreviation live :: "instant \<Rightarrow> notif_row list \<Rightarrow> notif_row list" where
  "live now rows \<equiv> filter (\<lambda>r. IsAfter (nr_expires_at r) now) rows"

lemma scan_loop_take:
  assumes "0 < limit" "int (length acc) < limit" "offset \<le> skipped"
  shows "scan_loop js now offset limit skipped acc rows =
    acc @ map (notif_view js) (take (nat limit - length acc) (live now rows))"
  using assms
proof (induction rows arbitrary: acc)
  case (Cons r rows)
  show ?case
  proof (cases "IsAfter (nr_expires_at r) now")
    case True
    have n: "nat limit - length acc = Suc (nat limit - Suc (length acc))" using Cons.prems by auto
    show ?thesis
    proof (cases "limit \<le> int (length acc) + 1")
      case True
      then have "nat limit - Suc (length acc) = 0" by simp
      with n True \<open>IsAfter _ _\<close> Cons.prems show ?thesis by (simp add: Let_def)
    next
      case False
      then show ?thesis using n \<open>IsAfter _ _\<close> Cons.prems Cons.IH [of "acc @ [notif_view js r]"] by (simp add: Let_def)
    qed
  next
    case False
    with Cons show ?thesis by simp
  qed
qed simp

lemma scan_loop_all:
  assumes "limit < 0" "offset \<le> skipped"
  shows "scan_loop js now offset limit skipped acc rows = acc @ map (notif_view js) (live now rows)"
  using assms by (induction rows arbitrary: acc) (simp_all add: Let_def)

lemma scan_loop_skip:
  assumes "skipped \<le> offset" "limit \<noteq> 0"
  shows "scan_loop js now offset limit skipped [] rows =
    map (notif_view js) ((if limit < 0 then id else take (nat limit)) (drop (nat (offset - skipped)) (live now rows)))"
  using assms
proof (induction rows arbitrary: skipped)
  case (Cons r rows)
  show ?case
  proof (cases "IsAfter (nr_expires_at r) now \<and> skipped < offset")
    case True
    then have "nat (offset - skipped) = Suc (nat (offset - (skipped + 1)))" by arith
    with True Cons.IH [of "skipped + 1"] Cons.prems(2) show ?thesis by simp
  next
    case False
    then consider "\<not> IsAfter (nr_expires_at r) now" | "skipped = offset" using Cons.prems by linarith
    then show ?thesis
    proof cases
      case 1
      with Cons show ?thesis by simp
    next
      case 2
      with Cons.prems show ?thesis
        using scan_loop_take [of limit "[]" offset skipped js now "r # rows"] scan_loop_all [of limit offset skipped js now "[]" "r # rows"]
        by (cases "limit < 0") auto
    qed
  qed
qed simp

text \<open>
  The pages of a notification list. \<open>scanUnexpiredNotifications\<close> returns exactly the window an SQL LIMIT and OFFSET
  would cut out of the unexpired rows: it drops \<open>offset\<close> of them (none when negative) and takes \<open>limit\<close>
  (all when negative), and rows that are expired or whose expiry cannot be read do not count.
\<close>

lemma scan_is_window:
  "scanUnexpiredNotifications js True now offset limit rows =
     Some (map (notif_view js) ((if limit < 0 then id else take (nat limit)) (drop (nat offset) (live now rows))))"
  using scan_loop_skip [of 0 "if offset < 0 then 0 else offset" limit js now rows]
  by (cases "limit = 0") (auto simp: scanUnexpiredNotifications_def)

section \<open>Statistics agree with the lists\<close>

lemma count_loop_length: "count_loop now es n = n + int (length (filter (\<lambda>e. IsAfter e now) es))"
  by (induction es arbitrary: n) auto

definition total :: "(string \<rightharpoonup> int) \<Rightarrow> string \<Rightarrow> int" where
  "total m k = (case m k of None \<Rightarrow> 0 | Some n \<Rightarrow> n)"

lemma total_bump: "total (bump k m) j = total m j + (if j = k then 1 else 0)"
  by (simp add: total_def bump_def split: option.splits)

lemma total_empty [simp]: "total (\<lambda>x. None) k = 0"
  by (simp add: total_def)

lemma affected_simps: "affected P [] = 0" "affected P (r # rs) = (if P r then 1 else 0) + affected P rs"
  by (simp_all add: affected_def)

lemma tally_total: "nst_Total (tallyNotificationStatistics now rows st) = nst_Total st + int (length (live now rows))"
  by (induction rows arbitrary: st) simp_all

lemma tally_unread:
  "nst_Unread (tallyNotificationStatistics now rows st) =
    nst_Unread st + affected (\<lambda>r. \<not> nr_read r \<and> \<not> nr_dismissed r) (live now rows)"
  by (induction rows arbitrary: st) (simp_all add: affected_simps)

lemma tally_type:
  "total (nst_ByType (tallyNotificationStatistics now rows st)) k =
    total (nst_ByType st) k + affected (\<lambda>r. nr_type r = k) (live now rows)"
  by (induction rows arbitrary: st) (simp_all add: affected_simps total_bump)

lemma tally_display:
  "total (nst_ByDisplay (tallyNotificationStatistics now rows st)) k =
    total (nst_ByDisplay st) k + affected (\<lambda>r. nr_display r = k) (live now rows)"
  by (induction rows arbitrary: st) (simp_all add: affected_simps total_bump)

lemmas tally_spec = tally_total tally_unread tally_type tally_display

text \<open>
  The statistics are those of the lists: the total is the length of the full list, the unread number is what \<open>GetUnreadCount\<close>
  answers and the length of the unread list, and the counters per type and display count the rows of the full list
  with that type or display. (Hypothesis: \<open>ties\<close> permutes the rows.)
\<close>

lemma statistics_agree:
  assumes perm: "\<And>rs. mset (ties rs) = mset rs" and st: "GetStatistics True True now owner rows = Some st"
    and all: "ListNotifications js ties True True now owner noNotificationLimit 0 rows = Some ns"
    and unread: "GetUnread js ties True True now owner rows = Some us"
  shows "nst_Total st = int (length ns) \<and> nst_Unread st = int (length us) \<and>
    GetUnreadCount True True now owner rows = Some (nst_Unread st) \<and>
    total (nst_ByType st) k = int (length (filter (\<lambda>n. no_Type n = k) ns)) \<and>
    total (nst_ByDisplay st) k = int (length (filter (\<lambda>n. no_Display n = k) ns))"
proof -
  let ?mine = "filter (\<lambda>r. nr_owner r = owner \<and> nr_expires_at r \<noteq> VNil) rows"
  have len: "length (filter P (latest_rows ties rs)) = length (filter P rs)" for P rs
    using mset_latest_rows [of ties rs, OF perm] by (metis mset_filter size_mset)
  have ns: "ns = map (notif_view js) (live now (latest_rows ties ?mine))"
    using all scan_loop_skip [of 0 0 noNotificationLimit js now "latest_rows ties ?mine"]
    by (simp add: ListNotifications_def scanUnexpiredNotifications_def noNotificationLimit_def)
  have us: "us = map (notif_view js) (live now (latest_rows ties (filter (unread_of owner) rows)))"
    using unread scan_loop_skip [of 0 0 noNotificationLimit js now "latest_rows ties (filter (unread_of owner) rows)"]
    by (simp add: GetUnread_def scanUnexpiredNotifications_def noNotificationLimit_def)
  have st': "st = tallyNotificationStatistics now ?mine \<lparr>nst_Total = 0, nst_Unread = 0, nst_Read = 0, nst_ByType = Map.empty, nst_ByDisplay = Map.empty\<rparr>"
    using st by (simp add: GetStatistics_def)
  have un: "filter (\<lambda>r. \<not> nr_read r \<and> \<not> nr_dismissed r) (live now ?mine) = live now (filter (unread_of owner) rows)"
    by (auto simp: unread_of_def intro!: filter_cong)
  have fields: "no_Type (notif_view js r) = nr_type r" "no_Display (notif_view js r) = nr_display r" for r
    by (simp_all add: notif_view_def)
  have unread_len: "length (filter (\<lambda>r. \<not> nr_read r \<and> \<not> nr_dismissed r) (live now ?mine)) =
      length (live now (filter (unread_of owner) rows))"
    by (simp only: un)
  have count: "GetUnreadCount True True now owner rows = Some (int (length (live now (filter (unread_of owner) rows))))"
    by (simp add: GetUnreadCount_def countUnexpiredRows_def count_loop_length filter_map comp_def)
  have "nst_Total st = int (length ns)" by (simp only: st' tally_total ns length_map len) simp
  moreover have "nst_Unread st = int (length (live now (filter (unread_of owner) rows)))"
    by (simp only: st' tally_unread affected_def unread_len) simp
  moreover have "length us = length (live now (filter (unread_of owner) rows))" by (simp only: us length_map len)
  moreover have "total (nst_ByType st) k = int (length (filter (\<lambda>n. no_Type n = k) ns))"
    by (simp add: st' tally_type ns filter_map comp_def fields len affected_def)
  moreover have "total (nst_ByDisplay st) k = int (length (filter (\<lambda>n. no_Display n = k) ns))"
    by (simp add: st' tally_display ns filter_map comp_def fields len affected_def)
  ultimately show ?thesis using count by simp
qed

definition demo_notif :: "string \<Rightarrow> int \<Rightarrow> bool \<Rightarrow> scanned \<Rightarrow> notif_row" where
  "demo_notif i owner rd expires = \<lparr>nr_id = i, nr_owner = owner, nr_type = ''info'', nr_display = ''toast'', nr_title = ''t'',
     nr_message = ''m'', nr_action_json = None, nr_read = rd, nr_dismissed = False, nr_created_at = VTime 0, nr_expires_at = expires\<rparr>"

definition demo_notifs :: "notif_row list" where
  "demo_notifs = [demo_notif ''a'' 1 False (VTime 100), demo_notif ''b'' 1 True (VTime 100), demo_notif ''c'' 1 False (VTime 5),
     demo_notif ''d'' 2 False (VTime 100)]"

lemma statistics_agree_example:
  "\<exists>st ns us. GetStatistics True True 10 1 demo_notifs = Some st \<and>
     ListNotifications \<lparr>ja_encode = \<lambda>a. None, ja_decode = \<lambda>s. None\<rparr> rev True True 10 1 noNotificationLimit 0 demo_notifs = Some ns \<and>
     GetUnread \<lparr>ja_encode = \<lambda>a. None, ja_decode = \<lambda>s. None\<rparr> rev True True 10 1 demo_notifs = Some us \<and>
     nst_Total st = 2 \<and> nst_Unread st = 1 \<and> length ns = 2 \<and> length us = 1 \<and> total (nst_ByType st) ''info'' = 2"
proof -
  let ?js = "\<lparr>ja_encode = \<lambda>a. None, ja_decode = \<lambda>s. None\<rparr>"
  obtain st where st: "GetStatistics True True 10 1 demo_notifs = Some st" by (simp add: GetStatistics_def)
  obtain ns where ns: "ListNotifications ?js rev True True 10 1 noNotificationLimit 0 demo_notifs = Some ns"
    by (simp add: ListNotifications_def scanUnexpiredNotifications_def noNotificationLimit_def)
  obtain us where us: "GetUnread ?js rev True True 10 1 demo_notifs = Some us"
    by (simp add: GetUnread_def scanUnexpiredNotifications_def noNotificationLimit_def)
  have len: "length ns = 2" "length us = 1" "length (filter (\<lambda>n. no_Type n = ''info'') ns) = 2"
    using ns us by (auto simp: ListNotifications_def GetUnread_def scanUnexpiredNotifications_def noNotificationLimit_def demo_notifs_def
      demo_notif_def unread_of_def latest_rows_def order_by_desc_def IsAfter_def ParseStoredTimestamp_def notif_view_def)
  have "mset (rev rs) = mset rs" for rs :: "notif_row list" by simp
  from statistics_agree [OF this st ns us, of "''info''"] len st ns us show ?thesis by simp
qed

section \<open>The cap on a recipient\<close>

lemma filter_sql_delete: "(\<And>r. Q r \<Longrightarrow> \<not> P r) \<Longrightarrow> filter Q (sql_delete P rows) = filter Q rows"
  by (induction rows) (auto simp: sql_delete_def)

lemma owner_after_limit:
  assumes "EnforceLimit ties ok other limit rows = (rows', r)" "owner \<noteq> other"
  shows "filter (\<lambda>r. nr_owner r = owner) rows' = filter (\<lambda>r. nr_owner r = owner) rows"
  using assms by (auto simp: EnforceLimit_def Let_def intro!: filter_sql_delete split: if_splits)

lemma distinct_after_limit:
  "EnforceLimit ties ok other limit rows = (rows', r) \<Longrightarrow> distinct (map nr_id rows) \<Longrightarrow> distinct (map nr_id rows')"
  by (auto simp: EnforceLimit_def Let_def sql_delete_def distinct_map_filter split: if_splits)

text \<open>What is left of the owner's rows are the first \<open>limit\<close> in the order of the query.\<close>

lemma EnforceLimit_keeps_newest:
  assumes perm: "\<And>rs. mset (ties rs) = mset rs" and ids: "distinct (map nr_id rows)" and lim: "0 \<le> limit"
    and run: "EnforceLimit ties True owner limit rows = (rows', Some n)"
  shows "mset (filter (\<lambda>r. nr_owner r = owner) rows') = mset (take (nat limit) (latest_rows ties (filter (\<lambda>r. nr_owner r = owner) rows)))"
proof -
  let ?mine = "filter (\<lambda>r. nr_owner r = owner) rows"
  let ?kept = "take (nat limit) (latest_rows ties ?mine)"
  have set_kept: "set ?kept \<subseteq> set ?mine" using set_take_subset [of "nat limit" "latest_rows ties ?mine"] mset_eq_setD [OF mset_latest_rows [of ties ?mine, OF perm]] by blast
  have inj: "inj_on nr_id (set rows)" using ids by (simp add: distinct_map)
  have "rows' = sql_delete (\<lambda>r. nr_owner r = owner \<and> nr_id r \<notin> set (map nr_id ?kept)) rows"
    using run lim by (simp add: EnforceLimit_def Let_def)
  then have "filter (\<lambda>r. nr_owner r = owner) rows' = filter (\<lambda>r. nr_id r \<in> nr_id ` set ?kept) ?mine"
    by (simp only: sql_delete_def filter_filter) (rule filter_cong, auto)
  also have "\<dots> = filter (\<lambda>r. r \<in> set ?kept) ?mine"
    by (rule filter_cong [OF refl], rule inj_on_image_mem_iff [OF inj]) (use set_kept in auto)
  finally have eq: "filter (\<lambda>r. nr_owner r = owner) rows' = filter (\<lambda>r. r \<in> set ?kept) ?mine" .
  have dm: "distinct ?mine" using ids by (simp add: distinct_map)
  then have "distinct (latest_rows ties ?mine)" using mset_latest_rows [of ties ?mine, OF perm] mset_eq_imp_distinct_iff by blast
  then have "mset ?kept = mset_set (set ?kept)" by (simp add: mset_set_set)
  moreover have "mset (filter (\<lambda>r. r \<in> set ?kept) ?mine) = mset_set (set (filter (\<lambda>r. r \<in> set ?kept) ?mine))"
    using dm by (simp only: mset_set_set distinct_filter)
  moreover have "set (filter (\<lambda>r. r \<in> set ?kept) ?mine) = set ?kept" using set_kept by auto
  ultimately show ?thesis by (simp add: eq)
qed

end
