(* ===== verification/Notification_Service.thy ===== *)
theory Notification_Service
  imports Notifications WebSocket_Hub Scheduler
begin

text \<open>
  The notification service, \<^verbatim>\<open>src/server/service/notification_service.go\<close>, over the two tables of Notifications and the
  WebSocket hub, and its daily maintenance, \<^verbatim>\<open>src/scheduler/notification_cleanup.go\<close>, registered with the scheduler.
  The goroutine that trims a recipient's list after a send is a step of its own (\<open>run_user_trim\<close>, \<open>run_admin_trim\<close>).
\<close>

section \<open>State\<close>

record NotificationService =
  ns_UserNotif :: "notif_row list"
  ns_AdminNotif :: "notif_row list"
  ns_UserPrefs :: prefs_table
  ns_AdminPrefs :: prefs_table
  ns_WSHub :: WebSocketHub
  ns_user_trims :: "int list"
  ns_admin_trims :: "int list"

text \<open>\<open>so_prefs_ok\<close>: the preferences can be read; \<open>so_encode\<close>: the message as the hub encodes it.\<close>

record send_io =
  so_json :: json_action
  so_row :: notif_io
  so_prefs_ok :: bool
  so_encode :: "Notification \<Rightarrow> string option"

datatype send_error = DisplayDisabled | CreateFailed notif_error

section \<open>The administrators' table\<close>

text \<open>\<open>AdminNotificationModel\<close> repeats the statements of \<open>UserNotificationModel\<close> on \<^verbatim>\<open>server_admin_notifications\<close>.\<close>

definition CreateAdminNotification ::
  "json_action \<Rightarrow> notif_io \<Rightarrow> int \<Rightarrow> string \<Rightarrow> string \<Rightarrow> string \<Rightarrow> string \<Rightarrow> NotificationAction option \<Rightarrow> notif_row list \<Rightarrow> notif_row list \<times> (notif_error + Notification)" where
  "CreateAdminNotification = CreateNotification"

definition GetAdminNotification ::
  "json_action \<Rightarrow> bool \<Rightarrow> string \<Rightarrow> notif_row list \<Rightarrow> Notification option" where
  "GetAdminNotification = GetNotification"

definition GetByAdminID ::
  "json_action \<Rightarrow> notif_order \<Rightarrow> bool \<Rightarrow> bool \<Rightarrow> instant \<Rightarrow> int \<Rightarrow> int \<Rightarrow> int \<Rightarrow> notif_row list \<Rightarrow> Notification list option" where
  "GetByAdminID = ListNotifications"

definition AdminGetUnread ::
  "json_action \<Rightarrow> notif_order \<Rightarrow> bool \<Rightarrow> bool \<Rightarrow> instant \<Rightarrow> int \<Rightarrow> notif_row list \<Rightarrow> Notification list option" where
  "AdminGetUnread = GetUnread"

definition AdminGetUnreadCount ::
  "bool \<Rightarrow> bool \<Rightarrow> instant \<Rightarrow> int \<Rightarrow> notif_row list \<Rightarrow> int option" where
  "AdminGetUnreadCount = GetUnreadCount"

definition AdminMarkAsRead ::
  "bool \<Rightarrow> bool \<Rightarrow> string \<Rightarrow> int \<Rightarrow> notif_row list \<Rightarrow> notif_row list \<times> notif_error option" where
  "AdminMarkAsRead = MarkAsRead"

definition AdminMarkAllAsRead ::
  "bool \<Rightarrow> int \<Rightarrow> notif_row list \<Rightarrow> notif_row list \<times> notif_error option" where
  "AdminMarkAllAsRead = MarkAllAsRead"

definition AdminDismiss ::
  "bool \<Rightarrow> bool \<Rightarrow> string \<Rightarrow> int \<Rightarrow> notif_row list \<Rightarrow> notif_row list \<times> notif_error option" where
  "AdminDismiss = Dismiss"

definition DeleteAdminNotification_model ::
  "bool \<Rightarrow> bool \<Rightarrow> string \<Rightarrow> int \<Rightarrow> notif_row list \<Rightarrow> notif_row list \<times> notif_error option" where
  "DeleteAdminNotification_model = DeleteNotification"

definition AdminCleanupExpired ::
  "bool \<Rightarrow> bool list \<Rightarrow> instant \<Rightarrow> notif_row list \<Rightarrow> notif_row list \<times> int \<times> bool" where
  "AdminCleanupExpired = CleanupNotifications"

definition AdminEnforceLimit ::
  "notif_order \<Rightarrow> bool \<Rightarrow> int \<Rightarrow> int \<Rightarrow> notif_row list \<Rightarrow> notif_row list \<times> int option" where
  "AdminEnforceLimit = EnforceLimit"

definition AdminGetStatistics ::
  "bool \<Rightarrow> bool \<Rightarrow> instant \<Rightarrow> int \<Rightarrow> notif_row list \<Rightarrow> NotificationStatistics option" where
  "AdminGetStatistics = GetStatistics"

definition GetAdminPreferences ::
  "bool \<Rightarrow> instant \<Rightarrow> int \<Rightarrow> prefs_table \<Rightarrow> NotificationPreferences option" where
  "GetAdminPreferences = GetPreferences"

definition UpdateAdminPreferences ::
  "bool \<Rightarrow> instant \<Rightarrow> int \<Rightarrow> NotificationPreferences \<Rightarrow> prefs_table \<Rightarrow> prefs_table \<times> bool" where
  "UpdateAdminPreferences = UpdatePreferences"

lemmas admin_model_defs =
  CreateAdminNotification_def GetAdminNotification_def GetByAdminID_def AdminGetUnread_def AdminGetUnreadCount_def AdminMarkAsRead_def AdminMarkAllAsRead_def AdminDismiss_def DeleteAdminNotification_model_def AdminCleanupExpired_def AdminEnforceLimit_def AdminGetStatistics_def GetAdminPreferences_def UpdateAdminPreferences_def

section \<open>Sending\<close>

definition shouldSendNotification :: "string \<Rightarrow> bool \<Rightarrow> bool \<Rightarrow> bool \<Rightarrow> bool" where
  "shouldSendNotification display enableToast enableBanner enableCenter =
     (if display = ''toast'' then enableToast
      else if display = ''banner'' then enableBanner
      else if display = ''center'' then enableCenter
      else True)"

definition display_enabled :: "string \<Rightarrow> NotificationPreferences option \<Rightarrow> bool" where
  "display_enabled display prefs =
     (case prefs of
        None \<Rightarrow> True
      | Some p \<Rightarrow> shouldSendNotification display (np_EnableToast p) (np_EnableBanner p) (np_EnableCenter p))"

definition SendUserNotification ::
  "send_io \<Rightarrow> int \<Rightarrow> string \<Rightarrow> string \<Rightarrow> string \<Rightarrow> string \<Rightarrow> NotificationAction option \<Rightarrow> NotificationService \<Rightarrow>
   NotificationService \<times> (send_error + Notification)" where
  "SendUserNotification io userID notifType display title message action s =
     (if \<not> display_enabled display (GetPreferences (so_prefs_ok io) (ni_now (so_row io)) userID (ns_UserPrefs s))
      then (s, Inl DisplayDisabled)
      else
        (case CreateNotification (so_json io) (so_row io) userID notifType display title message action (ns_UserNotif s) of
           (rows, Inl e) \<Rightarrow> (s\<lparr>ns_UserNotif := rows\<rparr>, Inl (CreateFailed e))
         | (rows, Inr notif) \<Rightarrow>
             (s\<lparr>ns_UserNotif := rows,
                ns_WSHub := (if IsUserConnected userID (ns_WSHub s) then BroadcastToUser userID (so_encode io notif) (ns_WSHub s) else ns_WSHub s),
                ns_user_trims := ns_user_trims s @ [userID]\<rparr>, Inr notif)))"

definition SendAdminNotification ::
  "send_io \<Rightarrow> int \<Rightarrow> string \<Rightarrow> string \<Rightarrow> string \<Rightarrow> string \<Rightarrow> NotificationAction option \<Rightarrow> NotificationService \<Rightarrow>
   NotificationService \<times> (send_error + Notification)" where
  "SendAdminNotification io adminID notifType display title message action s =
     (if \<not> display_enabled display (GetAdminPreferences (so_prefs_ok io) (ni_now (so_row io)) adminID (ns_AdminPrefs s))
      then (s, Inl DisplayDisabled)
      else
        (case CreateAdminNotification (so_json io) (so_row io) adminID notifType display title message action (ns_AdminNotif s) of
           (rows, Inl e) \<Rightarrow> (s\<lparr>ns_AdminNotif := rows\<rparr>, Inl (CreateFailed e))
         | (rows, Inr notif) \<Rightarrow>
             (s\<lparr>ns_AdminNotif := rows,
                ns_WSHub := (if IsAdminConnected adminID (ns_WSHub s) then BroadcastToAdmin adminID (so_encode io notif) (ns_WSHub s) else ns_WSHub s),
                ns_admin_trims := ns_admin_trims s @ [adminID]\<rparr>, Inr notif)))"

definition run_user_trim :: "notif_order \<Rightarrow> bool \<Rightarrow> nat \<Rightarrow> NotificationService \<Rightarrow> NotificationService" where
  "run_user_trim ties ok i s =
     s\<lparr>ns_UserNotif := fst (EnforceLimit ties ok (ns_user_trims s ! i) 100 (ns_UserNotif s)),
       ns_user_trims := take i (ns_user_trims s) @ drop (Suc i) (ns_user_trims s)\<rparr>"

definition run_admin_trim :: "notif_order \<Rightarrow> bool \<Rightarrow> nat \<Rightarrow> NotificationService \<Rightarrow> NotificationService" where
  "run_admin_trim ties ok i s =
     s\<lparr>ns_AdminNotif := fst (AdminEnforceLimit ties ok (ns_admin_trims s ! i) 100 (ns_AdminNotif s)),
       ns_admin_trims := take i (ns_admin_trims s) @ drop (Suc i) (ns_admin_trims s)\<rparr>"

definition SendSuccessToUser ::
  "send_io \<Rightarrow> int \<Rightarrow> string \<Rightarrow> string \<Rightarrow> NotificationService \<Rightarrow> NotificationService \<times> (send_error + Notification)" where
  "SendSuccessToUser io i title message s = SendUserNotification io i ''success'' ''toast'' title message None s"

definition SendInfoToUser ::
  "send_io \<Rightarrow> int \<Rightarrow> string \<Rightarrow> string \<Rightarrow> NotificationService \<Rightarrow> NotificationService \<times> (send_error + Notification)" where
  "SendInfoToUser io i title message s = SendUserNotification io i ''info'' ''toast'' title message None s"

definition SendWarningToUser ::
  "send_io \<Rightarrow> int \<Rightarrow> string \<Rightarrow> string \<Rightarrow> NotificationService \<Rightarrow> NotificationService \<times> (send_error + Notification)" where
  "SendWarningToUser io i title message s = SendUserNotification io i ''warning'' ''toast'' title message None s"

definition SendErrorToUser ::
  "send_io \<Rightarrow> int \<Rightarrow> string \<Rightarrow> string \<Rightarrow> NotificationService \<Rightarrow> NotificationService \<times> (send_error + Notification)" where
  "SendErrorToUser io i title message s = SendUserNotification io i ''error'' ''toast'' title message None s"

definition SendSecurityToUser ::
  "send_io \<Rightarrow> int \<Rightarrow> string \<Rightarrow> string \<Rightarrow> NotificationService \<Rightarrow> NotificationService \<times> (send_error + Notification)" where
  "SendSecurityToUser io i title message s = SendUserNotification io i ''security'' ''banner'' title message None s"

definition SendSuccessToAdmin ::
  "send_io \<Rightarrow> int \<Rightarrow> string \<Rightarrow> string \<Rightarrow> NotificationService \<Rightarrow> NotificationService \<times> (send_error + Notification)" where
  "SendSuccessToAdmin io i title message s = SendAdminNotification io i ''success'' ''toast'' title message None s"

definition SendInfoToAdmin ::
  "send_io \<Rightarrow> int \<Rightarrow> string \<Rightarrow> string \<Rightarrow> NotificationService \<Rightarrow> NotificationService \<times> (send_error + Notification)" where
  "SendInfoToAdmin io i title message s = SendAdminNotification io i ''info'' ''toast'' title message None s"

definition SendWarningToAdmin ::
  "send_io \<Rightarrow> int \<Rightarrow> string \<Rightarrow> string \<Rightarrow> NotificationService \<Rightarrow> NotificationService \<times> (send_error + Notification)" where
  "SendWarningToAdmin io i title message s = SendAdminNotification io i ''warning'' ''toast'' title message None s"

definition SendErrorToAdmin ::
  "send_io \<Rightarrow> int \<Rightarrow> string \<Rightarrow> string \<Rightarrow> NotificationService \<Rightarrow> NotificationService \<times> (send_error + Notification)" where
  "SendErrorToAdmin io i title message s = SendAdminNotification io i ''error'' ''toast'' title message None s"

definition SendSecurityToAdmin ::
  "send_io \<Rightarrow> int \<Rightarrow> string \<Rightarrow> string \<Rightarrow> NotificationService \<Rightarrow> NotificationService \<times> (send_error + Notification)" where
  "SendSecurityToAdmin io i title message s = SendAdminNotification io i ''security'' ''banner'' title message None s"

text \<open>Mail or page: without SMTP never a mail, for a severe event always, otherwise when the recipient is offline.\<close>

definition ShouldSendEmail :: "int \<Rightarrow> string \<Rightarrow> string \<Rightarrow> bool \<Rightarrow> NotificationService \<Rightarrow> bool" where
  "ShouldSendEmail userID eventType severity smtpConfigured s =
     (if \<not> smtpConfigured then False
      else if severity = ''critical'' \<or> severity = ''error'' then True
      else if \<not> IsUserConnected userID (ns_WSHub s) then True
      else False)"

definition ShouldSendEmailToAdmin :: "int \<Rightarrow> string \<Rightarrow> string \<Rightarrow> bool \<Rightarrow> NotificationService \<Rightarrow> bool" where
  "ShouldSendEmailToAdmin adminID eventType severity smtpConfigured s =
     (if \<not> smtpConfigured then False
      else if severity = ''critical'' \<or> severity = ''error'' then True
      else if \<not> IsAdminConnected adminID (ns_WSHub s) then True
      else False)"

section \<open>Operations of a recipient\<close>

definition MarkUserNotificationAsRead :: "bool \<Rightarrow> bool \<Rightarrow> string \<Rightarrow> int \<Rightarrow> NotificationService \<Rightarrow> NotificationService \<times> notif_error option" where
  "MarkUserNotificationAsRead ok countOk notifID i s =
     (case MarkAsRead ok countOk notifID i (ns_UserNotif s) of (rows, e) \<Rightarrow> (s\<lparr>ns_UserNotif := rows\<rparr>, e))"

definition DismissUserNotification :: "bool \<Rightarrow> bool \<Rightarrow> string \<Rightarrow> int \<Rightarrow> NotificationService \<Rightarrow> NotificationService \<times> notif_error option" where
  "DismissUserNotification ok countOk notifID i s =
     (case Dismiss ok countOk notifID i (ns_UserNotif s) of (rows, e) \<Rightarrow> (s\<lparr>ns_UserNotif := rows\<rparr>, e))"

definition DeleteUserNotification :: "bool \<Rightarrow> bool \<Rightarrow> string \<Rightarrow> int \<Rightarrow> NotificationService \<Rightarrow> NotificationService \<times> notif_error option" where
  "DeleteUserNotification ok countOk notifID i s =
     (case DeleteNotification ok countOk notifID i (ns_UserNotif s) of (rows, e) \<Rightarrow> (s\<lparr>ns_UserNotif := rows\<rparr>, e))"

definition MarkAllUserNotificationsAsRead :: "bool \<Rightarrow> int \<Rightarrow> NotificationService \<Rightarrow> NotificationService \<times> notif_error option" where
  "MarkAllUserNotificationsAsRead ok i s = (case MarkAllAsRead ok i (ns_UserNotif s) of (rows, e) \<Rightarrow> (s\<lparr>ns_UserNotif := rows\<rparr>, e))"

definition Service_UpdateUserPreferences :: "bool \<Rightarrow> instant \<Rightarrow> int \<Rightarrow> NotificationPreferences \<Rightarrow> NotificationService \<Rightarrow> NotificationService \<times> bool" where
  "Service_UpdateUserPreferences ok now i prefs s = (case UpdatePreferences ok now i prefs (ns_UserPrefs s) of (rows, saved) \<Rightarrow> (s\<lparr>ns_UserPrefs := rows\<rparr>, saved))"

definition MarkAdminNotificationAsRead :: "bool \<Rightarrow> bool \<Rightarrow> string \<Rightarrow> int \<Rightarrow> NotificationService \<Rightarrow> NotificationService \<times> notif_error option" where
  "MarkAdminNotificationAsRead ok countOk notifID i s =
     (case AdminMarkAsRead ok countOk notifID i (ns_AdminNotif s) of (rows, e) \<Rightarrow> (s\<lparr>ns_AdminNotif := rows\<rparr>, e))"

definition DismissAdminNotification :: "bool \<Rightarrow> bool \<Rightarrow> string \<Rightarrow> int \<Rightarrow> NotificationService \<Rightarrow> NotificationService \<times> notif_error option" where
  "DismissAdminNotification ok countOk notifID i s =
     (case AdminDismiss ok countOk notifID i (ns_AdminNotif s) of (rows, e) \<Rightarrow> (s\<lparr>ns_AdminNotif := rows\<rparr>, e))"

definition DeleteAdminNotification :: "bool \<Rightarrow> bool \<Rightarrow> string \<Rightarrow> int \<Rightarrow> NotificationService \<Rightarrow> NotificationService \<times> notif_error option" where
  "DeleteAdminNotification ok countOk notifID i s =
     (case DeleteAdminNotification_model ok countOk notifID i (ns_AdminNotif s) of (rows, e) \<Rightarrow> (s\<lparr>ns_AdminNotif := rows\<rparr>, e))"

definition MarkAllAdminNotificationsAsRead :: "bool \<Rightarrow> int \<Rightarrow> NotificationService \<Rightarrow> NotificationService \<times> notif_error option" where
  "MarkAllAdminNotificationsAsRead ok i s = (case AdminMarkAllAsRead ok i (ns_AdminNotif s) of (rows, e) \<Rightarrow> (s\<lparr>ns_AdminNotif := rows\<rparr>, e))"

definition Service_UpdateAdminPreferences :: "bool \<Rightarrow> instant \<Rightarrow> int \<Rightarrow> NotificationPreferences \<Rightarrow> NotificationService \<Rightarrow> NotificationService \<times> bool" where
  "Service_UpdateAdminPreferences ok now i prefs s = (case UpdateAdminPreferences ok now i prefs (ns_AdminPrefs s) of (rows, saved) \<Rightarrow> (s\<lparr>ns_AdminPrefs := rows\<rparr>, saved))"

section \<open>Daily maintenance\<close>

text \<open>The clean-up of both tables; an error at the users' table leaves the administrators' alone. The clock is read before each.\<close>

definition CleanupExpiredNotifications ::
  "bool \<Rightarrow> bool list \<Rightarrow> instant \<Rightarrow> bool \<Rightarrow> bool list \<Rightarrow> instant \<Rightarrow> NotificationService \<Rightarrow> NotificationService \<times> bool" where
  "CleanupExpiredNotifications userSel userOks now1 adminSel adminOks now2 s =
     (case CleanupNotifications userSel userOks now1 (ns_UserNotif s) of
        (rows, userDeleted, ok) \<Rightarrow>
          if \<not> ok then (s\<lparr>ns_UserNotif := rows\<rparr>, False)
          else
            (case AdminCleanupExpired adminSel adminOks now2 (ns_AdminNotif s) of
               (rows', adminDeleted, ok') \<Rightarrow> (s\<lparr>ns_UserNotif := rows, ns_AdminNotif := rows'\<rparr>, ok')))"

text \<open>The service has a copy of its own.\<close>

definition Service_CleanupExpired ::
  "bool \<Rightarrow> bool list \<Rightarrow> instant \<Rightarrow> bool \<Rightarrow> bool list \<Rightarrow> instant \<Rightarrow> NotificationService \<Rightarrow> NotificationService \<times> bool" where
  "Service_CleanupExpired = CleanupExpiredNotifications"

definition maxNotificationsPerRecipient :: int where "maxNotificationsPerRecipient = 100"

fun enforce_loop :: "(int \<Rightarrow> int \<Rightarrow> 't \<Rightarrow> 't \<times> int option) \<Rightarrow> int list \<Rightarrow> int \<Rightarrow> 't \<Rightarrow> 't \<times> int \<times> bool" where
  "enforce_loop enforce [] tot t = (t, tot, True)"
| "enforce_loop enforce (i # ids) tot t =
     (case enforce i maxNotificationsPerRecipient t of
        (t', None) \<Rightarrow> (t', tot, False)
      | (t', Some deleted) \<Rightarrow> enforce_loop enforce ids (tot + deleted) t')"

text \<open>\<open>query\<close>: the recipients, \<open>None\<close> when they cannot be read.\<close>

definition enforceRecipientLimits ::
  "bool \<Rightarrow> ('t \<Rightarrow> int list option) \<Rightarrow> (int \<Rightarrow> int \<Rightarrow> 't \<Rightarrow> 't \<times> int option) \<Rightarrow> 't \<Rightarrow> 't \<times> int \<times> bool" where
  "enforceRecipientLimits hasDB query enforce t =
     (if \<not> hasDB then (t, 0, True)
      else case query t of None \<Rightarrow> (t, 0, False) | Some ids \<Rightarrow> enforce_loop enforce ids 0 t)"

record limit_io =
  li_order :: "int list \<Rightarrow> int list"
  li_query_ok :: bool
  li_exec_ok :: "int \<Rightarrow> bool"

text \<open>\<^verbatim>\<open>SELECT DISTINCT\<close> in the order the database gives (\<open>li_order\<close>).\<close>

definition recipients :: "limit_io \<Rightarrow> notif_row list \<Rightarrow> int list option" where
  "recipients io rows = (if li_query_ok io then Some (li_order io (remdups (map nr_owner rows))) else None)"

definition EnforceLimits ::
  "notif_order \<Rightarrow> bool \<Rightarrow> limit_io \<Rightarrow> bool \<Rightarrow> limit_io \<Rightarrow> NotificationService \<Rightarrow> NotificationService \<times> bool" where
  "EnforceLimits ties userDB uio adminDB aio s =
     (case enforceRecipientLimits userDB (recipients uio) (\<lambda>i. EnforceLimit ties (li_exec_ok uio i) i) (ns_UserNotif s) of
        (rows, userTrimmed, ok) \<Rightarrow>
          if \<not> ok then (s\<lparr>ns_UserNotif := rows\<rparr>, False)
          else
            (case enforceRecipientLimits adminDB (recipients aio) (\<lambda>i. AdminEnforceLimit ties (li_exec_ok aio i) i) (ns_AdminNotif s) of
               (rows', adminTrimmed, ok') \<Rightarrow> (s\<lparr>ns_UserNotif := rows, ns_AdminNotif := rows'\<rparr>, ok')))"

section \<open>Registration with the scheduler\<close>

definition dailyCronFromClockTime :: "string \<Rightarrow> string option" where
  "dailyCronFromClockTime targetTime =
     (case cut_char CHR '':'' targetTime of
        (hh, None) \<Rightarrow> None
      | (hh, Some mm) \<Rightarrow>
          (case atoi hh of
             None \<Rightarrow> None
           | Some h \<Rightarrow>
               if h < 0 \<or> h > 23 then None
               else (case atoi mm of
                       None \<Rightarrow> None
                     | Some m \<Rightarrow> if m < 0 \<or> m > 59 then None else Some (itoa m @ '' '' @ itoa h @ '' * * *''))))"

definition addDailyTask ::
  "frac_ns \<Rightarrow> location \<Rightarrow> add_io \<Rightarrow> string \<Rightarrow> string \<Rightarrow> Scheduler \<times> server_db \<Rightarrow> (Scheduler \<times> server_db) option" where
  "addDailyTask fr z io name targetTime w =
     (case dailyCronFromClockTime targetTime of
        None \<Rightarrow> Some w
      | Some schedule \<Rightarrow> map_option snd (AddTask fr z io name schedule w))"

definition ScheduleNotificationCleanup ::
  "frac_ns \<Rightarrow> location \<Rightarrow> add_io \<Rightarrow> string \<Rightarrow> Scheduler \<times> server_db \<Rightarrow> (Scheduler \<times> server_db) option" where
  "ScheduleNotificationCleanup fr z io targetTime w = addDailyTask fr z io ''cleanup-notifications'' targetTime w"

definition ScheduleNotificationLimitEnforcement ::
  "frac_ns \<Rightarrow> location \<Rightarrow> add_io \<Rightarrow> string \<Rightarrow> Scheduler \<times> server_db \<Rightarrow> (Scheduler \<times> server_db) option" where
  "ScheduleNotificationLimitEnforcement fr z io targetTime w = addDailyTask fr z io ''enforce-notification-limits'' targetTime w"

section \<open>The cap on every recipient\<close>

lemma enforce_loop_owner:
  assumes perm: "\<And>rs. mset (ties rs) = mset rs"
    and run: "enforce_loop (\<lambda>i. EnforceLimit ties (ok i) i) ids n rows = (rows', tot, True)"
    and ids: "distinct ids" "distinct (map nr_id rows)"
  shows "mset (filter (\<lambda>r. nr_owner r = owner) rows') =
    mset (if owner \<in> set ids then take 100 (latest_rows ties (filter (\<lambda>r. nr_owner r = owner) rows)) else filter (\<lambda>r. nr_owner r = owner) rows)"
  using run ids
proof (induction ids arbitrary: n rows)
  case (Cons i ids)
  obtain rows1 r where e: "EnforceLimit ties (ok i) i 100 rows = (rows1, r)" by fastforce
  with Cons.prems(1) obtain d where r: "r = Some d"
    and rest: "enforce_loop (\<lambda>i. EnforceLimit ties (ok i) i) ids (n + d) rows1 = (rows', tot, True)"
    by (cases r) (auto simp: maxNotificationsPerRecipient_def)
  have ok: "ok i" using e r by (auto simp: EnforceLimit_def split: if_splits)
  note IH = Cons.IH [OF rest _ distinct_after_limit [OF e]]
  show ?case
  proof (cases "owner = i")
    case True
    have "mset (filter (\<lambda>r. nr_owner r = owner) rows1) = mset (take 100 (latest_rows ties (filter (\<lambda>r. nr_owner r = owner) rows)))"
      using EnforceLimit_keeps_newest [OF perm Cons.prems(3), of 100 owner rows1 d] e r ok True by simp
    with IH Cons.prems True show ?thesis by simp
  next
    case False
    with IH Cons.prems owner_after_limit [OF e, of owner] show ?thesis by simp
  qed
qed simp

text \<open>One table after the task, for every recipient at once.\<close>

lemma recipient_limits:
  assumes perm: "\<And>rs. mset (ties rs) = mset rs" and order: "\<And>is. mset (li_order io is) = mset is"
    and run: "enforceRecipientLimits True (recipients io) (\<lambda>i. EnforceLimit ties (li_exec_ok io i) i) rows = (rows', tot, True)"
    and key: "distinct (map nr_id rows)"
  shows "mset (filter (\<lambda>r. nr_owner r = owner) rows') = mset (take 100 (latest_rows ties (filter (\<lambda>r. nr_owner r = owner) rows)))"
proof -
  define ids where "ids = li_order io (remdups (map nr_owner rows))"
  have loop: "enforce_loop (\<lambda>i. EnforceLimit ties (li_exec_ok io i) i) ids 0 rows = (rows', tot, True)"
    using run by (auto simp: enforceRecipientLimits_def recipients_def ids_def split: if_splits)
  have "distinct ids" using order mset_eq_imp_distinct_iff distinct_remdups unfolding ids_def by blast
  moreover have "set ids = nr_owner ` set rows" using mset_eq_setD [OF order] by (simp add: ids_def)
  moreover have "latest_rows ties [] = []" using mset_latest_rows [of ties "[]", OF perm] by simp
  moreover have "owner \<notin> nr_owner ` set rows \<Longrightarrow> filter (\<lambda>r. nr_owner r = owner) rows = []" by (auto simp: filter_empty_conv)
  ultimately show ?thesis using enforce_loop_owner [OF perm loop _ key, of owner] by (cases "owner \<in> set ids") auto
qed

text \<open>
  What the cap leaves a recipient of \<open>mine\<close>: some of these rows as they were, a hundred or all of them when there are
  fewer, and nothing that went is newer than anything that stayed, in the order of the stored texts, and in time
  wherever the creation times are stored as \<open>FormatSQLTimestamp\<close> writes them.
\<close>

definition newest_hundred :: "notif_row list \<Rightarrow> notif_row list \<Rightarrow> bool" where
  "newest_hundred mine left \<longleftrightarrow> mset left \<subseteq># mset mine \<and> length left = min 100 (length mine) \<and>
     (\<forall>r\<in>set mine - set left. \<forall>q\<in>set left. column_text (nr_created_at r) \<le> column_text (nr_created_at q) \<and>
       (\<forall>t u. canonical_at t (nr_created_at r) \<longrightarrow> canonical_at u (nr_created_at q) \<longrightarrow> t div second_ns \<le> u div second_ns))"

lemma newest_hundred_take:
  assumes perm: "\<And>rs. mset (ties rs) = mset rs" and left: "mset left = mset (take 100 (latest_rows ties mine))"
  shows "newest_hundred mine left"
proof -
  let ?all = "latest_rows ties mine"
  have all: "mset ?all = mset mine" by (rule mset_latest_rows [OF perm])
  have "mset (take 100 ?all) + mset (drop 100 ?all) = mset mine"
    by (metis all append_take_drop_id mset_append)
  then have sub: "mset left \<subseteq># mset mine" using left by (metis mset_subset_eq_add_left)
  have len: "length left = min 100 (length mine)"
    using mset_eq_length [OF left] mset_eq_length [OF all] by simp
  have sets: "set left = set (take 100 ?all)" "set mine = set (take 100 ?all) \<union> set (drop 100 ?all)"
    using mset_eq_setD [OF left] mset_eq_setD [OF all] by (simp_all flip: set_append)
  have "column_text (nr_created_at r) \<le> column_text (nr_created_at q)" if "r \<in> set mine - set left" "q \<in> set left" for r q
    using that sets take_order_by_desc [of q 100 "\<lambda>r. column_text (nr_created_at r)" ties mine r] by (auto simp: latest_rows_def)
  then show ?thesis unfolding newest_hundred_def using sub len by (meson canonical_order)
qed

text \<open>
  C25. The daily limit task. When \<open>EnforceLimits\<close> succeeds, every user and every administrator is left with the
  hundred newest of the notifications they had, unchanged (all of them when there are fewer), whatever the order in which
  the recipients were visited: nothing that was removed is newer than anything kept, in the order of the stored creation
  times, which is the order in time for all that the program writes. (Hypotheses: for rows of the same second ORDER BY
  picks some order, SELECT DISTINCT gives the recipients in some order, and the ids of a table are its primary key.)
\<close>

theorem notification_caps:
  assumes "\<And>rs. mset (ties rs) = mset rs" "\<And>is. mset (li_order uio is) = mset is" "\<And>is. mset (li_order aio is) = mset is"
    and "distinct (map nr_id (ns_UserNotif s))" "distinct (map nr_id (ns_AdminNotif s))"
    and "EnforceLimits ties True uio True aio s = (s', True)"
  shows "newest_hundred (filter (\<lambda>r. nr_owner r = i) (ns_UserNotif s)) (filter (\<lambda>r. nr_owner r = i) (ns_UserNotif s')) \<and>
    newest_hundred (filter (\<lambda>r. nr_owner r = i) (ns_AdminNotif s)) (filter (\<lambda>r. nr_owner r = i) (ns_AdminNotif s'))"
proof -
  obtain rows t1 rows' t2 where u: "enforceRecipientLimits True (recipients uio) (\<lambda>i. EnforceLimit ties (li_exec_ok uio i) i) (ns_UserNotif s) = (rows, t1, True)"
    and a: "enforceRecipientLimits True (recipients aio) (\<lambda>i. EnforceLimit ties (li_exec_ok aio i) i) (ns_AdminNotif s) = (rows', t2, True)"
    and s': "ns_UserNotif s' = rows" "ns_AdminNotif s' = rows'"
    using assms(6) unfolding EnforceLimits_def admin_model_defs by (auto split: prod.splits if_splits)
  show ?thesis
    unfolding s'
    using newest_hundred_take [OF assms(1) recipient_limits [OF assms(1,2) u assms(4)]]
      newest_hundred_take [OF assms(1) recipient_limits [OF assms(1,3) a assms(5)]] by blast
qed

definition demo_service :: NotificationService where
  "demo_service = \<lparr>ns_UserNotif = demo_notifs, ns_AdminNotif = [], ns_UserPrefs = [], ns_AdminPrefs = [],
     ns_WSHub = NewWebSocketHub (\<lambda>p. \<lparr>wc_ID = ''user-1'', wc_UserID = Some 1, wc_AdminID = None, wc_LastPing = 0, wc_Send = [], wc_closed = False, wc_conn_open = True\<rparr>),
     ns_user_trims = [], ns_admin_trims = []\<rparr>"

definition limits_ok :: limit_io where
  "limits_ok = \<lparr>li_order = rev, li_query_ok = True, li_exec_ok = \<lambda>i. True\<rparr>"

theorem notification_caps_witness:
  "\<exists>s'. EnforceLimits rev True limits_ok True limits_ok demo_service = (s', True) \<and>
     newest_hundred (filter (\<lambda>r. nr_owner r = 1) demo_notifs) (filter (\<lambda>r. nr_owner r = 1) (ns_UserNotif s'))"
proof -
  obtain s' where run: "EnforceLimits rev True limits_ok True limits_ok demo_service = (s', True)"
    by (auto simp: EnforceLimits_def enforceRecipientLimits_def recipients_def limits_ok_def demo_service_def demo_notifs_def demo_notif_def
      EnforceLimit_def admin_model_defs Let_def split: prod.splits)
  have "newest_hundred (filter (\<lambda>r. nr_owner r = 1) (ns_UserNotif demo_service)) (filter (\<lambda>r. nr_owner r = 1) (ns_UserNotif s'))"
    using notification_caps [of rev limits_ok limits_ok demo_service s' 1] run
    by (simp add: limits_ok_def demo_service_def demo_notifs_def demo_notif_def)
  then show ?thesis using run by (auto simp: demo_service_def)
qed

section \<open>Nobody touches another's notifications\<close>

text \<open>Everything that happens on behalf of user \<open>u\<close>: what others send to \<open>u\<close>, the trimming it starts, and \<open>u\<close>'s own operations.\<close>

inductive recipient_step :: "int \<Rightarrow> NotificationService \<Rightarrow> NotificationService \<Rightarrow> bool" for u where
  send: "SendUserNotification io u ty display title message action s = (s', r) \<Longrightarrow> recipient_step u s s'"
| trim: "i < length (ns_user_trims s) \<Longrightarrow> ns_user_trims s ! i = u \<Longrightarrow> recipient_step u s (run_user_trim ties ok i s)"
| read_one: "MarkUserNotificationAsRead ok countOk nid u s = (s', e) \<Longrightarrow> recipient_step u s s'"
| read_all: "MarkAllUserNotificationsAsRead ok u s = (s', e) \<Longrightarrow> recipient_step u s s'"
| dismiss: "DismissUserNotification ok countOk nid u s = (s', e) \<Longrightarrow> recipient_step u s s'"
| delete: "DeleteUserNotification ok countOk nid u s = (s', e) \<Longrightarrow> recipient_step u s s'"
| prefs: "Service_UpdateUserPreferences ok now u p s = (s', saved) \<Longrightarrow> recipient_step u s s'"

definition others :: "int \<Rightarrow> notif_row list \<Rightarrow> notif_row list" where
  "others u rows = filter (\<lambda>r. nr_owner r \<noteq> u) rows"

definition others_prefs :: "int \<Rightarrow> prefs_table \<Rightarrow> prefs_table" where
  "others_prefs u rows = filter (\<lambda>q. np_Owner (fst q) \<noteq> u) rows"

definition only_to :: "string \<Rightarrow> WebSocketHub \<Rightarrow> WebSocketHub \<Rightarrow> bool" where
  "only_to cid h h' \<longleftrightarrow> (\<exists>new. h' = h\<lparr>ws_senders := ws_senders h @ new\<rparr> \<and> (\<forall>e\<in>set new. map_of (ws_clients h) cid = Some (fst e)))"

lemma only_to_refl [simp]: "only_to cid h h"
  by (auto simp: only_to_def intro!: exI [of _ "[]"])

lemma only_to_trans:
  assumes "only_to cid h h1" "only_to cid h1 h2"
  shows "only_to cid h h2"
proof -
  obtain a where a: "h1 = h\<lparr>ws_senders := ws_senders h @ a\<rparr>" "\<forall>e\<in>set a. map_of (ws_clients h) cid = Some (fst e)"
    using assms(1) unfolding only_to_def by blast
  obtain b where b: "h2 = h1\<lparr>ws_senders := ws_senders h1 @ b\<rparr>" "\<forall>e\<in>set b. map_of (ws_clients h1) cid = Some (fst e)"
    using assms(2) unfolding only_to_def by blast
  show ?thesis unfolding only_to_def using a b by (intro exI [of _ "a @ b"]) auto
qed

lemma only_to_send [simp]: "only_to cid h (lookup_and_send cid data h)"
proof (cases "map_of (ws_clients h) cid")
  case (Some p)
  then show ?thesis by (auto simp: only_to_def lookup_and_send_def intro!: exI [of _ "[(p, data)]"])
qed (simp add: lookup_and_send_def)

lemma others_update: "(\<And>r. P r \<Longrightarrow> nr_owner r = u \<and> nr_owner (f r) = u) \<Longrightarrow> others u (sql_update P f rows) = others u rows"
  by (induction rows) (auto simp: others_def sql_update_def)

lemma others_delete: "(\<And>r. P r \<Longrightarrow> nr_owner r = u) \<Longrightarrow> others u (sql_delete P rows) = others u rows"
  by (auto simp: others_def intro!: filter_sql_delete)

lemma others_owned_write:
  assumes "owned_write ok countOk stmt i u rows = (rows', e)"
    and "others u (stmt (\<lambda>r. nr_id r = i \<and> nr_owner r = u) rows) = others u rows"
  shows "others u rows' = others u rows"
  using assms by (auto simp: owned_write_def Let_def split: if_splits)

lemma others_writes:
  "MarkAsRead ok countOk i u rows = (rows', e) \<Longrightarrow> others u rows' = others u rows"
  "Dismiss ok countOk i u rows = (rows', e) \<Longrightarrow> others u rows' = others u rows"
  "DeleteNotification ok countOk i u rows = (rows', e) \<Longrightarrow> others u rows' = others u rows"
  "MarkAllAsRead ok u rows = (rows', e) \<Longrightarrow> others u rows' = others u rows"
  "EnforceLimit ties ok u limit rows = (rows', n) \<Longrightarrow> others u rows' = others u rows"
  "CreateNotification js io u ty d t m a rows = (rows', res) \<Longrightarrow> others u rows' = others u rows"
proof -
  show "MarkAsRead ok countOk i u rows = (rows', e) \<Longrightarrow> others u rows' = others u rows"
    unfolding MarkAsRead_def by (erule others_owned_write) (rule others_update, simp)
  show "Dismiss ok countOk i u rows = (rows', e) \<Longrightarrow> others u rows' = others u rows"
    unfolding Dismiss_def by (erule others_owned_write) (rule others_update, simp)
  show "DeleteNotification ok countOk i u rows = (rows', e) \<Longrightarrow> others u rows' = others u rows"
    unfolding DeleteNotification_def by (erule others_owned_write) (rule others_delete, simp)
  show "MarkAllAsRead ok u rows = (rows', e) \<Longrightarrow> others u rows' = others u rows"
    by (auto simp: MarkAllAsRead_def intro!: others_update split: if_splits)
  show "EnforceLimit ties ok u limit rows = (rows', n) \<Longrightarrow> others u rows' = others u rows"
    by (auto simp: EnforceLimit_def Let_def intro!: others_delete split: if_splits)
  show "CreateNotification js io u ty d t m a rows = (rows', res) \<Longrightarrow> others u rows' = others u rows"
    by (auto simp: CreateNotification_def Let_def others_def split: option.splits if_splits)
qed

lemma others_prefs_write: "UpdatePreferences ok now u p rows = (rows', b) \<Longrightarrow> others_prefs u rows' = others_prefs u rows"
proof -
  have "filter (\<lambda>q. np_Owner (fst q) \<noteq> u) (sql_update (\<lambda>q. np_Owner (fst q) = u) (\<lambda>q. (p\<lparr>np_Owner := u\<rparr>, st)) rows) =
      filter (\<lambda>q. np_Owner (fst q) \<noteq> u) rows" for st
    by (induction rows) (auto simp: sql_update_def)
  then show "UpdatePreferences ok now u p rows = (rows', b) \<Longrightarrow> ?thesis"
    by (auto simp: UpdatePreferences_def Let_def others_prefs_def split: if_splits)
qed

definition untouched :: "int \<Rightarrow> NotificationService \<Rightarrow> NotificationService \<Rightarrow> bool" where
  "untouched u s s' \<longleftrightarrow> others u (ns_UserNotif s') = others u (ns_UserNotif s) \<and> others_prefs u (ns_UserPrefs s') = others_prefs u (ns_UserPrefs s) \<and>
     ns_AdminNotif s' = ns_AdminNotif s \<and> ns_AdminPrefs s' = ns_AdminPrefs s \<and> only_to (ClientIDForUser u) (ns_WSHub s) (ns_WSHub s')"

lemma recipient_step_untouched: "recipient_step u s s' \<Longrightarrow> untouched u s s'"
proof (induction rule: recipient_step.induct)
  case (send io ty display title message action s s' r)
  then show ?case
    by (auto simp: SendUserNotification_def untouched_def BroadcastToUser_def dest: others_writes(6) split: if_splits prod.splits sum.splits)
next
  case (trim i s ties ok)
  then show ?case by (auto simp: run_user_trim_def untouched_def intro: others_writes(5) [OF surjective_pairing])
qed (auto simp: untouched_def MarkUserNotificationAsRead_def MarkAllUserNotificationsAsRead_def DismissUserNotification_def
    DeleteUserNotification_def Service_UpdateUserPreferences_def dest: others_writes(1-4) others_prefs_write split: prod.splits)

text \<open>
  Isolation of the recipients. Whatever is done on behalf of one user, in any order and with any
  statement failing (sends, the trimming they start, reading, dismissing, deleting, changing preferences), the notifications and
  preferences of every other user and of all administrators stay exactly as they were, and the
  hub gets messages only for that user's own connection.
\<close>

lemma recipients_isolated:
  assumes "(recipient_step u)\<^sup>*\<^sup>* s s'"
  shows "filter (\<lambda>r. nr_owner r \<noteq> u) (ns_UserNotif s') = filter (\<lambda>r. nr_owner r \<noteq> u) (ns_UserNotif s) \<and>
    filter (\<lambda>q. np_Owner (fst q) \<noteq> u) (ns_UserPrefs s') = filter (\<lambda>q. np_Owner (fst q) \<noteq> u) (ns_UserPrefs s) \<and>
    ns_AdminNotif s' = ns_AdminNotif s \<and> ns_AdminPrefs s' = ns_AdminPrefs s \<and> only_to (ClientIDForUser u) (ns_WSHub s) (ns_WSHub s')"
proof -
  have "untouched u s s'"
    using assms by induction (auto dest!: recipient_step_untouched simp: untouched_def intro: only_to_trans)
  then show ?thesis by (simp add: untouched_def others_def others_prefs_def)
qed

lemma recipients_isolated_example:
  "\<exists>s'. (recipient_step 1)\<^sup>*\<^sup>* demo_service s' \<and> length (ns_UserNotif s') = 3 \<and>
     filter (\<lambda>r. nr_owner r \<noteq> 1) (ns_UserNotif s') = [demo_notif ''d'' 2 False (VTime 100)]"
proof -
  define s' where "s' = fst (DeleteUserNotification True True ''a'' 1 demo_service)"
  have "recipient_step 1 demo_service s'" unfolding s'_def by (rule recipient_step.delete) (rule surjective_pairing)
  then have step: "(recipient_step 1)\<^sup>*\<^sup>* demo_service s'" by simp
  have "length (ns_UserNotif s') = 3"
    by (simp add: s'_def DeleteUserNotification_def DeleteNotification_def owned_write_def sql_delete_def demo_service_def demo_notifs_def demo_notif_def Let_def)
  moreover have "filter (\<lambda>r. nr_owner r \<noteq> 1) (ns_UserNotif demo_service) = [demo_notif ''d'' 2 False (VTime 100)]"
    by (simp add: demo_service_def demo_notifs_def demo_notif_def)
  ultimately show ?thesis using recipients_isolated [OF step] step by auto
qed

section \<open>Daily tasks\<close>

lemma fields_go_word:
  assumes "list_all ascii_graphic w"
  shows "fields_go cur (w @ rest) = fields_go (rev w @ cur) rest"
  using assms
proof (induction w arbitrary: cur)
  case (Cons c w)
  then have "space_at (c # w @ rest) = 0" by (intro space_at_graphic) simp
  then show ?case using Cons by (subst fields_go.simps) (simp del: space_at.simps)
qed simp

lemma fields_go_blank: "fields_go cur (CHR '' '' # s) = (if cur = [] then [] else [rev cur]) @ fields_go [] s"
  by (subst fields_go.simps) (simp add: ascii_space_def)

lemma fields_go_end: "fields_go cur [] = (if cur = [] then [] else [rev cur])"
  by (subst fields_go.simps) simp

lemma digit_graphic: "is_digit c \<Longrightarrow> ascii_graphic c"
  by (simp add: is_digit_def ascii_graphic_def)

lemma itoa_digits: "0 \<le> v \<Longrightarrow> itoa v \<noteq> [] \<and> list_all is_digit (itoa v)"
  using nat_digits_props [of "nat v"] by (simp add: itoa_def)

lemma itoa_not_in: "0 \<le> v \<Longrightarrow> \<not> is_digit c \<Longrightarrow> c \<notin> set (itoa v)"
  using itoa_digits [of v] by (auto simp: list_all_iff)

lemma cron_text_fields:
  assumes "0 \<le> m" "0 \<le> h"
  shows "str_fields (itoa m @ '' '' @ itoa h @ '' * * *'') = [itoa m, itoa h, ''*'', ''*'', ''*'']"
proof -
  have g: "list_all ascii_graphic (itoa v) \<and> itoa v \<noteq> []" if "0 \<le> v" for v
    using itoa_digits [OF that] digit_graphic by (auto simp: list_all_iff)
  have star: "fields_go [] ''* * *'' = [''*'', ''*'', ''*'']" by code_simp
  show ?thesis
    using g [OF assms(1)] g [OF assms(2)] star
    by (simp add: str_fields_def fields_go_word fields_go_blank)
qed

lemma parseField_number:
  assumes "mn \<le> v" "v \<le> mx" "0 \<le> mn" "mx < 2 ^ 61"
  shows "parseField (itoa v) mn mx = Some (Inr {v})"
proof -
  have v: "0 \<le> v" "in_int64 v" "v + 1 \<le> int64_max" using assms by (simp_all add: int64_defs)
  have nd: "CHR '','' \<notin> set (itoa v)" "CHR ''/'' \<notin> set (itoa v)" "CHR ''-'' \<notin> set (itoa v)" "itoa v \<noteq> ''*''"
    using itoa_not_in [OF v(1), of "CHR '',''"] itoa_not_in [OF v(1), of "CHR ''/''"] itoa_not_in [OF v(1), of "CHR ''-''"]
      itoa_not_in [OF v(1), of "CHR ''*''"] by (auto simp: is_digit_def)
  have "splitStep (itoa v) = Inr (itoa v, 1)" by (simp add: splitStep_def cut_char_no_sep nd)
  moreover have "part_bounds (itoa v) mn mx = Inr (v, v)" by (simp add: part_bounds_def cut_char_no_sep nd atoi_itoa v)
  moreover have "fill_range v v 1 {} = Some {v}" using v by (subst fill_range_exact) auto
  ultimately show ?thesis using assms by (simp add: parseField_def split_char_no_sep nd)
qed

lemma parseField_star:
  assumes "0 \<le> mn" "mn \<le> mx" "mx < 2 ^ 61"
  shows "parseField ''*'' mn mx = Some (Inr {mn..mx})"
proof -
  have "splitStep ''*'' = Inr (''*'', 1)" "part_bounds ''*'' mn mx = Inr (mn, mx)" by (simp_all add: splitStep_def part_bounds_def)
  moreover have "fill_range mn mx 1 {} = Some {mn..mx}" using assms by (subst fill_range_exact) (auto simp: int64_defs)
  ultimately show ?thesis using assms by (simp add: parseField_def)
qed

definition daily :: "int \<Rightarrow> int \<Rightarrow> cronSchedule" where
  "daily h m = \<lparr>cminute = {m}, chour = {h}, cdom = {1..31}, cmonth = {1..12}, cdow = {0..6}\<rparr>"

lemma parse_daily:
  assumes "0 \<le> h" "h \<le> 23" "0 \<le> m" "m \<le> 59"
  shows "parseSchedule fr (itoa m @ '' '' @ itoa h @ '' * * *'') = Some (Inr (CronSchedule (daily h m)))"
proof -
  let ?s = "itoa m @ '' '' @ itoa h @ '' * * *''"
  obtain c cs where m: "itoa m = c # cs" and c: "is_digit c" using itoa_digits [OF assms(3)] by (cases "itoa m") auto
  have "trimSpace ?s = ?s"
    using m digit_graphic [OF c] by (intro trimSpace_ends_graphic) (auto simp: ascii_graphic_def)
  moreover have "\<not> prefix ''@'' ?s" "\<not> prefix ''@every '' ?s" "?s \<noteq> []" using m c by (auto simp: is_digit_def)
  moreover have dow: "insert 0 {0..7} - {7} = {0..6 :: int}" by auto
  have "parse_cron ?s = Some (Inr (CronSchedule (daily h m)))"
    unfolding parse_cron_def cron_text_fields [OF assms(3,1)]
    using assms by (simp add: Let_def bind_field_def parseField_number parseField_star daily_def dow)
  ultimately show ?thesis by (simp add: parseSchedule_def Let_def)
qed

text \<open>In a zone with a constant offset every day has the minute.\<close>

lemma daily_matches_within_a_day:
  assumes "\<And>s. z s = off" "0 \<le> h" "h \<le> 23" "0 \<le> m" "m \<le> 59"
  shows "\<exists>l<1440. cron_matches z (daily h m) (truncate_minute t + minute_ns + int l * minute_ns)"
proof -
  define M where "M = t div minute_ns + 1 + off div 60"
  define l where "l = (60 * h + m - M) mod 1440"
  let ?u = "truncate_minute t + minute_ns + l * minute_ns"
  have l: "0 \<le> l" "l < 1440" by (simp_all add: l_def)
  have tm: "truncate_minute t = t div minute_ns * minute_ns" by (simp add: truncate_minute_def minus_mod_eq_div_mult)
  have "?u = (60 * (t div minute_ns + 1 + l)) * second_ns" by (simp add: tm minute_ns_def algebra_simps)
  then have "unix_sec ?u = 60 * (t div minute_ns + 1 + l)" by (simp add: unix_sec_def second_ns_def)
  then have sec: "local_sec z ?u = 60 * (M + l) + off mod 60" by (simp add: local_sec_def assms(1) M_def algebra_simps)
  define q where "q = (M + l) div 1440"
  define r where "r = off mod 60"
  have r: "0 \<le> r" "r < 60" by (simp_all add: r_def)
  have "(M + l) mod 1440 = (60 * h + m) mod 1440" by (simp add: l_def mod_add_right_eq)
  then have "(M + l) mod 1440 = 60 * h + m" using assms by simp
  then have "M + l = 1440 * q + (60 * h + m)" using mult_div_mod_eq [of 1440 "M + l"] by (simp add: q_def)
  then have day: "local_sec z ?u = 86400 * q + (3600 * h + (60 * m + r))" unfolding sec r_def by simp
  have "local_sec z ?u mod 86400 = 3600 * h + (60 * m + r)" using day assms r by (intro int_mod_pos_eq) auto
  then have hour: "hour z ?u = h" unfolding hour_def using assms r by (intro int_div_pos_eq [where r = "60 * m + r"]) auto
  have "local_sec z ?u mod 3600 = 60 * m + r" using day assms r by (intro int_mod_pos_eq [where q = "24 * q + h"]) auto
  then have min: "minute z ?u = m" unfolding minute_def using r by (intro int_div_pos_eq [where r = r]) auto
  have "cron_matches z (daily h m) ?u" using field_ranges [of z ?u] hour min by (simp add: cron_matches_def daily_def)
  then show ?thesis using l by (intro exI [of _ "nat l"]) simp
qed

lemma cron_next_within:
  assumes "\<exists>l<n. cron_matches z c (truncate_minute t + minute_ns + int l * minute_ns)" "int n \<le> maxScanMinutes"
  shows "t < cron_next z c t \<and> cron_next z c t \<le> t + int n * minute_ns \<and> cron_matches z c (cron_next z c t)"
proof -
  obtain l where l: "l < n" "cron_matches z c (truncate_minute t + minute_ns + int l * minute_ns)" using assms(1) by blast
  then have "\<not> (\<forall>l<nat (maxScanMinutes - 0). \<not> cron_matches z c (truncate_minute t + minute_ns + int l * minute_ns))"
    using assms(2) by (metis diff_zero nat_int nat_mono order_less_le_trans)
  then obtain k where k: "cron_next z c t = truncate_minute t + minute_ns + int k * minute_ns" "cron_matches z c (cron_next z c t)"
    "\<forall>l<k. \<not> cron_matches z c (truncate_minute t + minute_ns + int l * minute_ns)"
    using cron_scan_spec [of 0 z c "truncate_minute t + minute_ns"] unfolding cron_next_def by metis
  have "k < n" using k(3) l by (meson linorder_not_less order_le_less_trans)
  then have "int k * minute_ns + minute_ns \<le> int n * minute_ns"
    using mult_right_mono [of "int k + 1" "int n" minute_ns] by (simp add: unit_defs algebra_simps)
  moreover have "truncate_minute t \<le> t" "t < truncate_minute t + minute_ns" using truncate_minute_bounds [of t] by auto
  moreover have "0 \<le> int k * minute_ns" by (simp add: unit_defs)
  ultimately have "t < cron_next z c t \<and> cron_next z c t \<le> t + int n * minute_ns" unfolding k(1) by linarith
  with k(2) show ?thesis by simp
qed

text \<open>
  C24. Daily tasks come due every day. Registering a maintenance task at a clock time such as 02:00 (any valid hour and minute)
  always returns and puts an enabled task into the scheduler's table; its next run, and from any
  instant the next activation of its schedule, lies after that instant, at most twenty-four hours later, and shows that hour and minute
  on the local clock. (Hypothesis: the zone has one offset; across a change of offset a clock time may be skipped or come late.)
\<close>

theorem daily_task_comes_due:
  assumes "\<And>s. z s = off" "atoi hh = Some h" "0 \<le> h" "h \<le> 23" "atoi mm = Some m" "0 \<le> m" "m \<le> 59" "CHR '':'' \<notin> set hh"
  shows "\<exists>s' db' task. addDailyTask fr z io name (hh @ '':'' @ mm) (s, db) = Some (s', db') \<and>
    map_of (s_tasks s') name = Some task \<and> t_enabled task \<and> t_nextRun task = schedule_next z (t_schedule task) (ad_now io) \<and>
    (\<forall>t. t < schedule_next z (t_schedule task) t \<and> schedule_next z (t_schedule task) t \<le> t + 24 * hour_ns \<and>
       hour z (schedule_next z (t_schedule task) t) = h \<and> minute z (schedule_next z (t_schedule task) t) = m)"
proof -
  let ?spec = "itoa m @ '' '' @ itoa h @ '' * * *''"
  have spec: "dailyCronFromClockTime (hh @ '':'' @ mm) = Some ?spec"
    using assms by (simp add: dailyCronFromClockTime_def cut_char_append)
  have due: "t < cron_next z (daily h m) t \<and> cron_next z (daily h m) t \<le> t + 24 * hour_ns \<and>
      hour z (cron_next z (daily h m) t) = h \<and> minute z (cron_next z (daily h m) t) = m" for t
    using cron_next_within [OF daily_matches_within_a_day [OF assms(1,3,4,6,7)], of t]
    by (simp add: maxScanMinutes_def cron_matches_def daily_def hour_ns_def)
  show ?thesis
    using spec parse_daily [OF assms(3,4,6,7), of fr] due
    by (auto simp: addDailyTask_def AddTask_def Let_def schedule_next_def update_conv')
qed

theorem daily_task_comes_due_witness:
  "\<exists>s' db' task. addDailyTask (\<lambda>f u s. 0) utc \<lparr>ad_insert_ok = True, ad_update_ok = True, ad_now = 0\<rparr> ''cleanup-notifications'' ''02:00''
       (NewScheduler None False, demo_db) = Some (s', db') \<and>
     map_of (s_tasks s') ''cleanup-notifications'' = Some task \<and> 0 < t_nextRun task \<and> t_nextRun task \<le> 24 * hour_ns \<and> hour utc (t_nextRun task) = 2"
proof -
  let ?io = "\<lparr>ad_insert_ok = True, ad_update_ok = True, ad_now = 0\<rparr>"
  have digits: "atoi ''02'' = Some 2" "atoi ''00'' = Some 0" by code_simp+
  have "utc s = 0" for s by (simp add: utc_def)
  from daily_task_comes_due [where z = utc and fr = "\<lambda>f u s. 0" and io = ?io and name = "''cleanup-notifications''"
    and s = "NewScheduler None False" and db = demo_db, OF this digits(1) _ _ digits(2)]
  obtain s' db' task where r: "addDailyTask (\<lambda>f u s. 0) utc ?io ''cleanup-notifications'' ''02:00'' (NewScheduler None False, demo_db) = Some (s', db')"
      "map_of (s_tasks s') ''cleanup-notifications'' = Some task" "t_nextRun task = schedule_next utc (t_schedule task) 0"
    and due: "\<forall>t. t < schedule_next utc (t_schedule task) t \<and> schedule_next utc (t_schedule task) t \<le> t + 24 * hour_ns \<and>
       hour utc (schedule_next utc (t_schedule task) t) = 2 \<and> minute utc (schedule_next utc (t_schedule task) t) = 0"
    by auto
  from due have "0 < t_nextRun task" "t_nextRun task \<le> 24 * hour_ns" "hour utc (t_nextRun task) = 2"
    unfolding r(3) by (metis add_0)+
  with r show ?thesis by blast
qed

end
