(* ===== verification/Two_Factor.thy ===== *)
theory Two_Factor
  imports Request_Auth
begin

text \<open>
  Management of the second factor by a signed-in user, \<^verbatim>\<open>src/server/handler/twofa.go\<close>: set-up, activation with
  recovery keys and its roll-back, deactivation, verification and new recovery keys, with the handlers that guard them.
  The account passed to an operation is the copy the authentication middleware has read.
\<close>

section \<open>Operations\<close>

record TwoFactorStatusResponse =
  ts_Enabled :: bool
  ts_RecoveryKeysCount :: int

record TwoFactorSetupResponse =
  tu_Secret :: string
  tu_QRCode :: string
  tu_ManualURL :: string
  tu_Account :: string
  tu_Issuer :: string

record RecoveryKeysResponse =
  rr_Message :: string
  rr_RecoveryKeys :: "string list"

datatype twofa_error =
    AlreadyEnabled
  | NotEnabled
  | SecretFailed
  | InvalidCode
  | InvalidPassword
  | EnableFailed
  | KeysFailed
  | RollbackFailed
  | DisableFailed
  | RemoveKeysFailed
  | StatusFailed

text \<open>The outcomes of the statements of one request, its clock readings and random bytes.\<close>

record twofa_io =
  ti_random :: "string option"
  ti_enable_ok :: bool
  ti_enable_now :: instant
  ti_delete_ok :: bool
  ti_rounds :: "round_io list"
  ti_disable_ok :: bool
  ti_disable_now :: instant
  ti_count_ok :: bool

definition GenerateOTPAuthURL :: "string \<Rightarrow> string \<Rightarrow> string \<Rightarrow> string" where
  "GenerateOTPAuthURL email secret issuer =
     ''otpauth://totp/'' @ issuer @ '':'' @ email @ ''?secret='' @ secret @ ''&issuer='' @ issuer"

definition loadCurrentUserTwoFactorStatus :: "twofa_io \<Rightarrow> User \<Rightarrow> world \<Rightarrow> twofa_error + TwoFactorStatusResponse" where
  "loadCurrentUserTwoFactorStatus io user w =
     (if u_TwoFactorEnabled user then
        (case GetUnusedKeysCount (ti_count_ok io) (u_ID user) (w_keys w) of
           None \<Rightarrow> Inl StatusFailed
         | Some count \<Rightarrow> Inr \<lparr>ts_Enabled = u_TwoFactorEnabled user, ts_RecoveryKeysCount = count\<rparr>)
      else Inr \<lparr>ts_Enabled = u_TwoFactorEnabled user, ts_RecoveryKeysCount = 0\<rparr>)"

text \<open>\<open>generated\<close>: the secret and the picture the TOTP library makes for an address and an issuer.\<close>

definition prepareCurrentUserTwoFactorSetup ::
  "(string \<Rightarrow> string \<Rightarrow> (string \<times> string) option) \<Rightarrow> User \<Rightarrow> twofa_error + TwoFactorSetupResponse" where
  "prepareCurrentUserTwoFactorSetup generated user =
     (if u_TwoFactorEnabled user then Inl AlreadyEnabled
      else case generated (u_Email user) ''Weather'' of
        None \<Rightarrow> Inl SecretFailed
      | Some (secret, qr) \<Rightarrow>
          Inr \<lparr>tu_Secret = secret, tu_QRCode = qr, tu_ManualURL = GenerateOTPAuthURL (u_Email user) secret ''Weather'',
               tu_Account = u_Email user, tu_Issuer = ''Weather''\<rparr>)"

definition enableCurrentUserTwoFactor ::
  "auth_env \<Rightarrow> twofa_io \<Rightarrow> User \<Rightarrow> string \<Rightarrow> string \<Rightarrow> world \<Rightarrow> world \<times> (twofa_error + RecoveryKeysResponse)" where
  "enableCurrentUserTwoFactor env io user secret code w =
     (if u_TwoFactorEnabled user then (w, Inl AlreadyEnabled)
      else if \<not> en_totp env secret code then (w, Inl InvalidCode)
      else case Enable2FA (en_gcm env) (ti_random io) (en_secret_key env) (ti_enable_ok io) (ti_enable_now io) (u_ID user) secret (w_users w) of
        (us, False) \<Rightarrow> (w\<lparr>w_users := us\<rparr>, Inl EnableFailed)
      | (us, True) \<Rightarrow>
          (case GenerateRecoveryKeys (en_hash env) (ti_delete_ok io) (ti_rounds io) (u_ID user) (w_keys w) of
             (ks, Inl _) \<Rightarrow>
               (case Disable2FA (ti_disable_ok io) (ti_disable_now io) (u_ID user) us of
                  (us', False) \<Rightarrow> (w\<lparr>w_users := us', w_keys := ks\<rparr>, Inl RollbackFailed)
                | (us', True) \<Rightarrow> (w\<lparr>w_users := us', w_keys := ks\<rparr>, Inl KeysFailed))
           | (ks, Inr recoveryKeys) \<Rightarrow>
               (w\<lparr>w_users := us, w_keys := ks\<rparr>,
                Inr \<lparr>rr_Message = ''Two-factor authentication enabled successfully'', rr_RecoveryKeys = recoveryKeys\<rparr>)))"

definition disableCurrentUserTwoFactor ::
  "auth_env \<Rightarrow> twofa_io \<Rightarrow> User \<Rightarrow> string \<Rightarrow> world \<Rightarrow> world \<times> twofa_error option" where
  "disableCurrentUserTwoFactor env io user password w =
     (if \<not> u_TwoFactorEnabled user then (w, Some NotEnabled)
      else if \<not> CheckPassword (en_argon env) user password then (w, Some InvalidPassword)
      else case Disable2FA (ti_disable_ok io) (ti_disable_now io) (u_ID user) (w_users w) of
        (us, False) \<Rightarrow> (w\<lparr>w_users := us\<rparr>, Some DisableFailed)
      | (us, True) \<Rightarrow>
          (case DeleteAllForUser (ti_delete_ok io) (u_ID user) (w_keys w) of
             (ks, ok) \<Rightarrow> (w\<lparr>w_users := us, w_keys := ks\<rparr>, if ok then None else Some RemoveKeysFailed)))"

definition verifyCurrentUserTwoFactorCode :: "auth_env \<Rightarrow> User \<Rightarrow> string \<Rightarrow> twofa_error option" where
  "verifyCurrentUserTwoFactorCode env user code =
     (if \<not> u_TwoFactorEnabled user then Some NotEnabled
      else case DecryptTwoFactorSecret (en_gcm env) (en_secret_key env) (u_TwoFactorSecret user) of
        Inl _ \<Rightarrow> Some InvalidCode
      | Inr secret \<Rightarrow> if \<not> en_totp env secret code then Some InvalidCode else None)"

definition regenerateCurrentUserRecoveryKeys ::
  "auth_env \<Rightarrow> twofa_io \<Rightarrow> User \<Rightarrow> string \<Rightarrow> world \<Rightarrow> world \<times> (twofa_error + RecoveryKeysResponse)" where
  "regenerateCurrentUserRecoveryKeys env io user code w =
     (if \<not> u_TwoFactorEnabled user then (w, Inl NotEnabled)
      else case DecryptTwoFactorSecret (en_gcm env) (en_secret_key env) (u_TwoFactorSecret user) of
        Inl _ \<Rightarrow> (w, Inl InvalidCode)
      | Inr secret \<Rightarrow>
          if \<not> en_totp env secret code then (w, Inl InvalidCode)
          else (case GenerateRecoveryKeys (en_hash env) (ti_delete_ok io) (ti_rounds io) (u_ID user) (w_keys w) of
                  (ks, Inl _) \<Rightarrow> (w\<lparr>w_keys := ks\<rparr>, Inl KeysFailed)
                | (ks, Inr recoveryKeys) \<Rightarrow>
                    (w\<lparr>w_keys := ks\<rparr>, Inr \<lparr>rr_Message = ''Recovery keys regenerated successfully'', rr_RecoveryKeys = recoveryKeys\<rparr>)))"

section \<open>Handlers\<close>

text \<open>The answer: a body with status 200, or an error status.\<close>

datatype 'a answer = Ok200 'a | Status nat

text \<open>A request body that does not decode is \<open>None\<close>.\<close>

record Enable2FARequest =
  er_Secret :: string
  er_Code :: string
  er_Password :: string

definition GetTwoFactorStatus :: "twofa_io \<Rightarrow> req_ctx \<Rightarrow> world \<Rightarrow> TwoFactorStatusResponse answer" where
  "GetTwoFactorStatus io ctx w =
     (case cx_user ctx of
        None \<Rightarrow> Status 401
      | Some user \<Rightarrow> (case loadCurrentUserTwoFactorStatus io user w of Inl _ \<Rightarrow> Status 500 | Inr st \<Rightarrow> Ok200 st))"

definition SetupTwoFactor :: "(string \<Rightarrow> string \<Rightarrow> (string \<times> string) option) \<Rightarrow> req_ctx \<Rightarrow> TwoFactorSetupResponse answer" where
  "SetupTwoFactor generated ctx =
     (case cx_user ctx of
        None \<Rightarrow> Status 401
      | Some user \<Rightarrow>
          (case prepareCurrentUserTwoFactorSetup generated user of
             Inl e \<Rightarrow> Status (if e = AlreadyEnabled then 400 else 500)
           | Inr setup \<Rightarrow> Ok200 setup))"

definition EnableTwoFactor ::
  "auth_env \<Rightarrow> twofa_io \<Rightarrow> req_ctx \<Rightarrow> Enable2FARequest option \<Rightarrow> world \<Rightarrow> world \<times> string list answer" where
  "EnableTwoFactor env io ctx body w =
     (case cx_user ctx of
        None \<Rightarrow> (w, Status 401)
      | Some user \<Rightarrow>
          (case body of
             None \<Rightarrow> (w, Status 400)
           | Some req \<Rightarrow>
               if er_Secret req = [] \<or> er_Code req = [] \<or> er_Password req = [] then (w, Status 400)
               else if \<not> CheckPassword (en_argon env) user (er_Password req) then (w, Status 401)
               else case enableCurrentUserTwoFactor env io user (er_Secret req) (er_Code req) w of
                 (w', Inl e) \<Rightarrow> (w', Status (if e = AlreadyEnabled \<or> e = InvalidCode then 400 else 500))
               | (w', Inr resp) \<Rightarrow> (w', Ok200 (rr_RecoveryKeys resp))))"

definition DisableTwoFactor :: "auth_env \<Rightarrow> twofa_io \<Rightarrow> req_ctx \<Rightarrow> string option \<Rightarrow> world \<Rightarrow> world \<times> unit answer" where
  "DisableTwoFactor env io ctx body w =
     (case cx_user ctx of
        None \<Rightarrow> (w, Status 401)
      | Some user \<Rightarrow>
          (case body of
             None \<Rightarrow> (w, Status 400)
           | Some password \<Rightarrow>
               if password = [] then (w, Status 400)
               else case disableCurrentUserTwoFactor env io user password w of
                 (w', Some e) \<Rightarrow> (w', Status (if e = NotEnabled then 400 else if e = InvalidPassword then 401 else 500))
               | (w', None) \<Rightarrow> (w', Ok200 ())))"

definition VerifyTwoFactorCode :: "auth_env \<Rightarrow> req_ctx \<Rightarrow> string option \<Rightarrow> unit answer" where
  "VerifyTwoFactorCode env ctx body =
     (case cx_user ctx of
        None \<Rightarrow> Status 401
      | Some user \<Rightarrow>
          (case body of
             None \<Rightarrow> Status 400
           | Some code \<Rightarrow>
               if code = [] then Status 400
               else case verifyCurrentUserTwoFactorCode env user code of Some _ \<Rightarrow> Status 400 | None \<Rightarrow> Ok200 ()))"

definition RegenerateRecoveryKeys ::
  "auth_env \<Rightarrow> twofa_io \<Rightarrow> req_ctx \<Rightarrow> string option \<Rightarrow> world \<Rightarrow> world \<times> string list answer" where
  "RegenerateRecoveryKeys env io ctx body w =
     (case cx_user ctx of
        None \<Rightarrow> (w, Status 401)
      | Some user \<Rightarrow>
          (case body of
             None \<Rightarrow> (w, Status 400)
           | Some code \<Rightarrow>
               if code = [] then (w, Status 400)
               else case regenerateCurrentUserRecoveryKeys env io user code w of
                 (w', Inl e) \<Rightarrow> (w', Status (if e = NotEnabled \<or> e = InvalidCode then 400 else 500))
               | (w', Inr resp) \<Rightarrow> (w', Ok200 (rr_RecoveryKeys resp))))"

section \<open>Activation\<close>

definition account :: "int \<Rightarrow> world \<Rightarrow> user_row option" where
  "account i w = sql_lookup ua_id i (ud_accounts (w_users w))"

lemma Enable2FA_cases:
  assumes "Enable2FA g rnd key ok now i secret db = (db', res)"
  obtains (failed) "db' = db" "\<not> res"
  | (enabled) enc where "encryptTwoFactorSecret g rnd key secret = Inr enc" "res"
      "db' = db\<lparr>ud_accounts := sql_update (\<lambda>r. ua_id r = i) (\<lambda>r. r\<lparr>ua_two_factor_enabled := True, ua_two_factor_secret := Some enc,
         ua_updated_at := VStr (FormatSQLTimestamp now)\<rparr>) (ud_accounts db)\<rparr>"
  using assms by (auto simp: Enable2FA_def user_set_def split: sum.splits if_splits)

lemma account_update:
  "(\<And>r. ua_id (f r) = ua_id r) \<Longrightarrow> sql_lookup ua_id i (sql_update (\<lambda>r. ua_id r = j) f rows) =
    (if i = j then map_option f (sql_lookup ua_id i rows) else sql_lookup ua_id i rows)"
  using sql_update_lookup [of ua_id f i "\<lambda>r. ua_id r = j" rows]
  by (cases "sql_lookup ua_id i rows") (auto dest: sql_lookup_Some)

lemma stored_secret:
  assumes "encryptTwoFactorSecret g rnd key secret = Inr enc" "rnd = Some nonce" "length nonce = nonceSize"
    "\<And>k. gcm_open g k nonce (gcm_seal g k nonce secret) = Some secret"
  shows "DecryptTwoFactorSecret g key enc = Inr secret"
proof (cases "key = []")
  case True
  then show ?thesis using assms(1) by (simp add: encryptTwoFactorSecret_def DecryptTwoFactorSecret_def)
next
  case False
  then have e: "EncryptAtRest g (Some nonce) key secret = Inr enc" using assms(1,2) by (simp add: encryptTwoFactorSecret_def)
  then obtain k where k: "newAESCipher key = Inr k" by (auto simp: EncryptAtRest_def split: sum.splits)
  from encrypt_round_trip [OF k assms(3,4)] e False show ?thesis by (auto simp: DecryptTwoFactorSecret_def)
qed

text \<open>
  C12. Activating the second factor is all or nothing, with recovery keys. When \<open>enableCurrentUserTwoFactor\<close> answers with keys,
  the account is enabled, a code is accepted at sign-in exactly when it fits the secret the user confirmed, and the keys of the
  answer are the account's only ones, all unused. When the keys cannot be made, the roll-back leaves the account with the
  factor off and no secret; only if the roll-back fails too is the factor left on. A wrong code or an active factor changes
  nothing. Other accounts never change. (Hypothesis: GCM opens what it sealed.)
\<close>

theorem two_factor_activation:
  assumes run: "enableCurrentUserTwoFactor env io user secret code w = (w', res)"
    and user: "user = full_user r" "account (ua_id r) w = Some r" and keys: "keys_wf (w_keys w)"
    and gcm: "ti_random io = Some nonce" "length nonce = nonceSize"
      "\<And>k. gcm_open (en_gcm env) k nonce (gcm_seal (en_gcm env) k nonce secret) = Some secret"
  shows "(\<forall>i. i \<noteq> ua_id r \<longrightarrow> account i w' = account i w) \<and>
    (case res of
       Inr resp \<Rightarrow> \<exists>r'. account (ua_id r) w' = Some r' \<and> ua_two_factor_enabled r' \<and>
         (\<forall>c. totp_accepts env (full_user r') c \<longleftrightarrow> en_totp env secret c) \<and> en_totp env secret code \<and>
         GetUnusedKeysCount True (ua_id r) (w_keys w') = Some (int (length (rr_RecoveryKeys resp))) \<and>
         map rk_KeyHash (filter (\<lambda>k. rk_UserID k = ua_id r) (kt_rows (w_keys w'))) = map (en_hash env) (rr_RecoveryKeys resp)
     | Inl KeysFailed \<Rightarrow> \<exists>r'. account (ua_id r) w' = Some r' \<and> \<not> ua_two_factor_enabled r' \<and> ua_two_factor_secret r' = None
     | Inl RollbackFailed \<Rightarrow> \<exists>r'. account (ua_id r) w' = Some r' \<and> ua_two_factor_enabled r' \<and> \<not> ti_disable_ok io
     | Inl e \<Rightarrow> w' = w)"
proof (cases "ua_two_factor_enabled r \<or> \<not> en_totp env secret code")
  case True
  then show ?thesis using run by (auto simp: enableCurrentUserTwoFactor_def user(1) split: if_splits)
next
  case False
  obtain us ok where en: "Enable2FA (en_gcm env) (ti_random io) (en_secret_key env) (ti_enable_ok io) (ti_enable_now io) (ua_id r) secret (w_users w) = (us, ok)"
    by fastforce
  from en show ?thesis
  proof (cases rule: Enable2FA_cases)
    case failed
    then show ?thesis using run False en by (auto simp: enableCurrentUserTwoFactor_def user(1))
  next
    case (enabled enc)
    let ?on = "\<lambda>r. r\<lparr>ua_two_factor_enabled := True, ua_two_factor_secret := Some enc, ua_updated_at := VStr (FormatSQLTimestamp (ti_enable_now io))\<rparr>"
    have row: "sql_lookup ua_id i (ud_accounts us) = (if i = ua_id r then Some (?on r) else account i w)" for i
      using user(2) by (cases "account i w") (auto simp: enabled(3) account_update account_def)
    have dec: "DecryptTwoFactorSecret (en_gcm env) (en_secret_key env) enc = Inr secret" by (rule stored_secret [OF enabled(1) gcm])
    obtain ks kr where g: "GenerateRecoveryKeys (en_hash env) (ti_delete_ok io) (ti_rounds io) (ua_id r) (w_keys w) = (ks, kr)" by fastforce
    show ?thesis
    proof (cases kr)
      case (Inr new_keys)
      have res: "w' = w\<lparr>w_users := us, w_keys := ks\<rparr>"
          "res = Inr \<lparr>rr_Message = ''Two-factor authentication enabled successfully'', rr_RecoveryKeys = new_keys\<rparr>"
        using run False en enabled(2) g Inr by (simp_all add: enableCurrentUserTwoFactor_def user(1))
      have "ti_delete_ok io" using g Inr by (auto simp: GenerateRecoveryKeys_def DeleteAllForUser_def split: if_splits)
      with g Inr GenerateRecoveryKeys_rows [of "en_hash env" "ti_rounds io" "ua_id r" "w_keys w" ks new_keys] keys
      obtain new old where rows: "kt_rows ks = old @ new" "map rk_KeyHash new = map (en_hash env) new_keys"
          "\<forall>k\<in>set new. rk_UserID k = ua_id r \<and> rk_UsedAt k = None" "\<forall>k\<in>set old. rk_UserID k \<noteq> ua_id r" by auto
      have mine: "filter (\<lambda>k. rk_UserID k = ua_id r) (kt_rows ks) = new" "filter (\<lambda>k. rk_UserID k = ua_id r \<and> rk_UsedAt k = None) (kt_rows ks) = new"
        using rows by (auto simp: filter_empty_conv filter_id_conv)
      have "length new = length new_keys" using rows(2) by (metis length_map)
      with mine have count: "GetUnusedKeysCount True (ua_id r) ks = Some (int (length new_keys))" by (simp add: GetUnusedKeysCount_def affected_def)
      have accepts: "totp_accepts env (full_user (?on r)) c = en_totp env secret c" for c by (simp add: totp_accepts_def dec null_str_def)
      show ?thesis using row count mine rows(2) accepts False by (auto simp: res account_def)
    next
      case (Inl e)
      show ?thesis
      proof (cases "ti_disable_ok io")
        case True
        have res: "w_users w' = us\<lparr>ud_accounts := sql_update (\<lambda>r'. ua_id r' = ua_id r) (\<lambda>r. r\<lparr>ua_two_factor_enabled := False, ua_two_factor_secret := None,
            ua_updated_at := VStr (FormatSQLTimestamp (ti_disable_now io))\<rparr>) (ud_accounts us)\<rparr>" "res = Inl KeysFailed"
          using run False en enabled(2) g Inl True by (simp_all add: enableCurrentUserTwoFactor_def user(1) Disable2FA_def user_set_def) auto
        show ?thesis using row by (simp add: res account_def account_update)
      next
        case no: False
        have res: "w_users w' = us" "res = Inl RollbackFailed"
          using run False en enabled(2) g Inl no by (simp_all add: enableCurrentUserTwoFactor_def user(1) Disable2FA_def user_set_def) auto
        show ?thesis using row no by (simp add: res account_def)
      qed
    qed
  qed
qed

definition enable_ok :: twofa_io where
  "enable_ok = \<lparr>ti_random = Some ''0123456789ab'', ti_enable_ok = True, ti_enable_now = 0, ti_delete_ok = True, ti_rounds = two_rounds,
     ti_disable_ok = True, ti_disable_now = 0, ti_count_ok = True\<rparr>"

lemma enable_ok_fields [simp]:
  "ti_random enable_ok = Some ''0123456789ab''" "ti_enable_ok enable_ok" "ti_delete_ok enable_ok" "ti_rounds enable_ok = two_rounds"
  "ti_disable_ok enable_ok" "ti_count_ok enable_ok"
  by (simp_all add: enable_ok_def)

theorem two_factor_activation_witness:
  "\<exists>w' resp r'. enableCurrentUserTwoFactor demo_env enable_ok (full_user ann) ''s3'' ''s3'' (demo_world ann) = (w', Inr resp) \<and>
     account 1 w' = Some r' \<and> ua_two_factor_enabled r' \<and> totp_accepts demo_env (full_user r') ''s3'' \<and> length (rr_RecoveryKeys resp) = 2"
proof -
  let ?w = "demo_world ann"
  have ann: "ua_id ann = 1" "\<not> ua_two_factor_enabled ann" by (simp_all add: ann_def new_account_def)
  have acc: "account (ua_id ann) ?w = Some ann" by (simp add: account_def demo_world_def)
  let ?t = "\<lparr>kt_next = 1, kt_rows = []\<rparr>"
  have g0: "GenerateRecoveryKeys id True two_rounds 1 ?t = (fst (GenerateRecoveryKeys id True two_rounds 1 ?t), Inr [''a1b2c3d4-e5f6'', ''01020304-0506''])"
    by (simp add: prod_eq_iff) code_simp
  obtain ks where g: "GenerateRecoveryKeys id True two_rounds 1 ?t = (ks, Inr [''a1b2c3d4-e5f6'', ''01020304-0506''])" by (rule that [OF g0])
  have t: "w_keys ?w = ?t" by (simp add: demo_world_def)
  obtain w' resp where run: "enableCurrentUserTwoFactor demo_env enable_ok (full_user ann) ''s3'' ''s3'' ?w = (w', Inr resp)"
      and resp: "rr_RecoveryKeys resp = [''a1b2c3d4-e5f6'', ''01020304-0506'']"
    by (simp add: enableCurrentUserTwoFactor_def ann Enable2FA_def encryptTwoFactorSecret_def user_set_def t g)
  have wf: "keys_wf (w_keys ?w)" by (simp add: demo_world_def keys_wf_def key_rows.table_ok_def)
  have n: "length ''0123456789ab'' = nonceSize" by (simp add: nonceSize_def)
  from two_factor_activation [OF run refl acc wf enable_ok_fields(1) n] obtain r' where "account (ua_id ann) w' = Some r'" "ua_two_factor_enabled r'"
      "\<forall>c. totp_accepts demo_env (full_user r') c \<longleftrightarrow> en_totp demo_env ''s3'' c"
    by (auto simp: no_gcm_def)
  with run resp ann show ?thesis by simp
qed

section \<open>The password alone turns it off\<close>

lemma disable_effect:
  assumes "ua_two_factor_enabled r" "CheckPassword (en_argon env) (full_user r) p" "ti_disable_ok io" "ti_delete_ok io"
    "account (ua_id r) w = Some r"
  shows "\<exists>w'. disableCurrentUserTwoFactor env io (full_user r) p w = (w', None) \<and>
    (\<exists>r'. account (ua_id r) w' = Some r' \<and> \<not> ua_two_factor_enabled r' \<and> ua_two_factor_secret r' = None) \<and>
    (\<forall>k\<in>set (kt_rows (w_keys w')). rk_UserID k \<noteq> ua_id r) \<and> w_passkeys w' = w_passkeys w"
  using assms by (simp add: disableCurrentUserTwoFactor_def Disable2FA_def user_set_def DeleteAllForUser_def account_def account_update
      sql_delete_def)

text \<open>
  C13. The authenticator can be turned off with the password alone. The pending session that \<open>LoginAPIUser\<close> hands out instead of
  a session passes the authentication middleware, as the account of that name and password, until its fifteen minutes are
  over. When this account has the authenticator enabled, the handler that turns it off asks for nothing but the password, which
  the caller has just used: if its two statements succeed, the account has neither authenticator nor secret afterwards and no
  recovery key, used or unused, is left of it. Passkeys, the other second factor, are not touched, so an account without
  passkeys is left with no second factor at all.
\<close>

theorem password_disables_second_factor:
  assumes login: "LoginAPIUser env io req ip w = (w', Inr resp)" "ar_RequiresTwoFactor resp" "ar_SessionToken resp \<noteq> []"
    and wf: "users_wf (w_users w)" and json: "en_unmarshal env pending_json \<noteq> None"
    and expiry: "expiry = cr_expiry_base (io_session io) + wrap64 (authPendingSessionTTLSeconds * second_ns)"
      "0 \<le> year utc expiry" "year utc expiry \<le> 9999"
    and later: "io_user_ok io'" "gt_query_ok (io_get io')" "gt_now (io_get io') < expiry - expiry mod second_ns"
    and off: "ti_disable_ok tio" "ti_delete_ok tio" "lr_Password req \<noteq> []"
  shows "\<exists>r ctx'. r \<in> set (ud_accounts (w_users w)) \<and>
    (ua_username r = trimSpace (lr_Identifier req) \<or> ua_email r = trimSpace (lr_Identifier req)) \<and>
    CheckPassword (en_argon env) (login_user r) (lr_Password req) \<and> (ua_two_factor_enabled r \<or> ua_id r \<in> set (w_passkeys w)) \<and>
    AuthMiddleware env io' True (cookie_request (ar_SessionToken resp)) ctx w' = (w', NextHandler ctx') \<and>
    cx_user_id ctx' = Some (ua_id r) \<and>
    (ua_two_factor_enabled r \<longrightarrow>
     (\<exists>w''. DisableTwoFactor env tio ctx' (Some (lr_Password req)) w' = (w'', Ok200 ()) \<and>
       (\<exists>r'. account (ua_id r) w'' = Some r' \<and> \<not> ua_two_factor_enabled r' \<and> ua_two_factor_secret r' = None) \<and>
       (\<forall>k\<in>set (kt_rows (w_keys w'')). rk_UserID k \<noteq> ua_id r) \<and> w_passkeys w'' = w_passkeys w'))"
proof -
  obtain r s where r: "r \<in> set (ud_accounts (w_users w))" "CheckPassword (en_argon env) (login_user r) (lr_Password req)"
      "w_users w' = w_users w" "ua_username r = trimSpace (lr_Identifier req) \<or> ua_email r = trimSpace (lr_Identifier req)"
      "ua_two_factor_enabled r \<or> ua_id r \<in> set (w_passkeys w)"
    and auth: "AuthMiddleware env io' True (cookie_request (ar_SessionToken resp)) ctx w' =
      (w', NextHandler (ctx\<lparr>cx_user := Some (full_user r), cx_user_id := Some (ua_id r), cx_session := Some s, cx_auth_method := Some ''session''\<rparr>))"
    using pending_session_accepted [OF login wf json expiry later, of ctx] by auto
  let ?ctx = "ctx\<lparr>cx_user := Some (full_user r), cx_user_id := Some (ua_id r), cx_session := Some s, cx_auth_method := Some ''session''\<rparr>"
  have acc: "account (ua_id r) w' = Some r"
    using r sql_lookup_in [of ua_id "ud_accounts (w_users w)" r] wf by (simp add: account_def distinct_names)
  have pw: "CheckPassword (en_argon env) (full_user r) (lr_Password req)" using r(2) by (simp add: CheckPassword_def)
  have "\<exists>w''. DisableTwoFactor env tio ?ctx (Some (lr_Password req)) w' = (w'', Ok200 ()) \<and>
       (\<exists>r'. account (ua_id r) w'' = Some r' \<and> \<not> ua_two_factor_enabled r' \<and> ua_two_factor_secret r' = None) \<and>
       (\<forall>k\<in>set (kt_rows (w_keys w'')). rk_UserID k \<noteq> ua_id r) \<and> w_passkeys w'' = w_passkeys w'" if "ua_two_factor_enabled r"
  proof -
    from disable_effect [OF that pw off(1,2) acc] obtain w'' where w'': "disableCurrentUserTwoFactor env tio (full_user r) (lr_Password req) w' = (w'', None)"
      "\<exists>r'. account (ua_id r) w'' = Some r' \<and> \<not> ua_two_factor_enabled r' \<and> ua_two_factor_secret r' = None"
      "\<forall>k\<in>set (kt_rows (w_keys w'')). rk_UserID k \<noteq> ua_id r" "w_passkeys w'' = w_passkeys w'" by blast
    moreover from w''(1) have "DisableTwoFactor env tio ?ctx (Some (lr_Password req)) w' = (w'', Ok200 ())"
      using off(3) by (simp add: DisableTwoFactor_def)
    ultimately show ?thesis by blast
  qed
  with r auth show ?thesis by (intro exI [of _ r] exI [of _ ?ctx]) simp
qed

theorem password_disables_second_factor_witness:
  "\<exists>w' resp ctx' w''. LoginAPIUser demo_env demo_io ann_login [] (demo_world ann_2fa) = (w', Inr resp) \<and>
     AuthMiddleware demo_env demo_io True (cookie_request (ar_SessionToken resp)) anonymous w' = (w', NextHandler ctx') \<and>
     DisableTwoFactor demo_env enable_ok ctx' (Some ''secret'') w' = (w'', Ok200 ()) \<and>
     (\<exists>r'. account 1 w'' = Some r' \<and> \<not> ua_two_factor_enabled r')"
proof -
  obtain w' resp where l: "LoginAPIUser demo_env demo_io ann_login [] (demo_world ann_2fa) = (w', Inr resp)"
      "ar_RequiresTwoFactor resp" "ar_SessionToken resp = ''tok''"
    using demo_pending_login by blast
  let ?e = "1700000900 * second_ns"
  have y: "0 \<le> year utc ?e" "year utc ?e \<le> 9999" using demo_expiry by simp_all
  have pw: "lr_Password ann_login = ''secret''" by (simp add: ann_login_def)
  have "gt_now (io_get demo_io) < ?e - ?e mod second_ns" by (simp add: unit_defs)
  from password_disables_second_factor [OF l(1,2) _ _ _ demo_expiry(2) y _ _ this enable_ok_fields(5,3), of anonymous] l(3) pw
  obtain r ctx' where r0: "r \<in> set (ud_accounts (w_users (demo_world ann_2fa)))"
      "AuthMiddleware demo_env demo_io True (cookie_request (ar_SessionToken resp)) anonymous w' = (w', NextHandler ctx')"
      "ua_two_factor_enabled r \<longrightarrow> (\<exists>w''. DisableTwoFactor demo_env enable_ok ctx' (Some ''secret'') w' = (w'', Ok200 ()) \<and>
        (\<exists>r'. account (ua_id r) w'' = Some r' \<and> \<not> ua_two_factor_enabled r' \<and> ua_two_factor_secret r' = None))"
    using demo_users_wf by (auto simp: demo_world_def)
  have "ua_two_factor_enabled r" using r0(1) by (simp add: demo_world_def ann_2fa_def)
  with r0 obtain w'' where r: "r \<in> set (ud_accounts (w_users (demo_world ann_2fa)))"
      "AuthMiddleware demo_env demo_io True (cookie_request (ar_SessionToken resp)) anonymous w' = (w', NextHandler ctx')"
      "DisableTwoFactor demo_env enable_ok ctx' (Some ''secret'') w' = (w'', Ok200 ())"
      "\<exists>r'. account (ua_id r) w'' = Some r' \<and> \<not> ua_two_factor_enabled r'" by blast
  have "ua_id r = 1" using r(1) by (simp add: demo_world_def ann_2fa_def ann_def new_account_def)
  with l r show ?thesis by auto
qed

end
