(* ===== verification/User_Settings.thy ===== *)
theory User_Settings
  imports Two_Factor User_Sessions Config
begin

text \<open>
  The settings of a signed-in user, \<^verbatim>\<open>src/server/handler/user_settings.go\<close>: the four sections of settings with
  their forms and their API, API tokens with their limit, and the sessions a user sees and revokes.
\<close>

section \<open>Sections of settings\<close>

record AccountSettings =
  ac_DisplayName :: string
  ac_Bio :: string
  ac_Location :: string
  ac_Website :: string
  ac_Timezone :: string
  ac_Language :: string
  ac_DateFormat :: string
  ac_TimeFormat :: string

record PrivacySettings =
  pv_Visibility :: string
  pv_ShowEmail :: bool
  pv_ShowActivity :: bool
  pv_Searchable :: bool

record NotificationSettings =
  nt_EmailSecurity :: bool
  nt_EmailMentions :: bool
  nt_EmailUpdates :: bool
  nt_EmailDigest :: string
  nt_PushEnabled :: bool
  nt_PushMentions :: bool

record AppearanceSettings =
  ap_Theme :: string
  ap_FontSize :: string
  ap_ReduceMotion :: bool

record UserSettingsResponse =
  sr_Account :: AccountSettings
  sr_Privacy :: PrivacySettings
  sr_Notifications :: NotificationSettings
  sr_Appearance :: AppearanceSettings

text \<open>A section that is absent from a request is \<open>None\<close>; a field that is absent from a section is empty or false.\<close>

record UpdateSettingsRequest =
  ur_Account :: "AccountSettings option"
  ur_Privacy :: "PrivacySettings option"
  ur_Notifications :: "NotificationSettings option"
  ur_Appearance :: "AppearanceSettings option"

record ExtendedPreferences =
  xp_DateFormat :: string
  xp_TimeFormat :: string
  xp_ShowEmail :: bool
  xp_ShowActivity :: bool
  xp_Searchable :: bool
  xp_EmailUpdates :: bool
  xp_EmailDigest :: string
  xp_PushMentions :: bool
  xp_FontSize :: string
  xp_ReduceMotion :: bool

datatype settings_error = BioTooLong | BadTheme | SettingsFailed

text \<open>The outcomes of the statements of one request and the clock; a read fails as well when a column cannot be scanned.\<close>

record settings_io =
  se_account_ok :: bool
  se_prefs_read_ok :: bool
  se_prefs_insert_ok :: bool
  se_account_write_ok :: bool
  se_privacy_ok :: bool
  se_notifications_ok :: bool
  se_appearance_ok :: bool
  se_now :: instant

definition getExtendedPreferences :: ExtendedPreferences where
  "getExtendedPreferences = \<lparr>xp_DateFormat = ''YYYY-MM-DD'', xp_TimeFormat = ''24h'', xp_ShowEmail = False, xp_ShowActivity = True,
     xp_Searchable = True, xp_EmailUpdates = False, xp_EmailDigest = ''weekly'', xp_PushMentions = True, xp_FontSize = ''medium'',
     xp_ReduceMotion = False\<rparr>"

definition created_preferences :: "int \<Rightarrow> instant \<Rightarrow> UserPreferences" where
  "created_preferences userID now =
     \<lparr>pf_UserID = userID, pf_Theme = ''dark'', pf_Language = ''en'', pf_Timezone = ''UTC'', pf_TemperatureUnit = ''celsius'',
      pf_PressureUnit = ''hPa'', pf_WindSpeedUnit = ''kmh'', pf_PrecipitationUnit = ''mm'', pf_NotificationsEnabled = True,
      pf_EmailNotifications = True, pf_CreatedAt = VStr (FormatSQLTimestamp now), pf_UpdatedAt = VStr (FormatSQLTimestamp now)\<rparr>"

definition getOrCreatePreferences :: "settings_io \<Rightarrow> int \<Rightarrow> user_db \<Rightarrow> user_db \<times> UserPreferences option" where
  "getOrCreatePreferences io userID db =
     (if \<not> se_prefs_read_ok io then (db, None)
      else case sql_lookup pf_UserID userID (ud_preferences db) of
        Some prefs \<Rightarrow> (db, Some prefs)
      | None \<Rightarrow>
          if \<not> se_prefs_insert_ok io then (db, None)
          else (db\<lparr>ud_preferences := ud_preferences db @ [created_preferences userID (se_now io)]\<rparr>,
                Some (created_preferences userID (se_now io))))"

definition settings_view :: "user_row \<Rightarrow> UserPreferences \<Rightarrow> ExtendedPreferences \<Rightarrow> UserSettingsResponse" where
  "settings_view r prefs ext =
     \<lparr>sr_Account = \<lparr>ac_DisplayName = null_str (ua_display_name r), ac_Bio = null_str (ua_bio r), ac_Location = null_str (ua_location r),
        ac_Website = null_str (ua_website r), ac_Timezone = null_str (ua_timezone r), ac_Language = null_str (ua_language r),
        ac_DateFormat = xp_DateFormat ext, ac_TimeFormat = xp_TimeFormat ext\<rparr>,
      sr_Privacy = \<lparr>pv_Visibility = null_str (ua_visibility r), pv_ShowEmail = xp_ShowEmail ext, pv_ShowActivity = xp_ShowActivity ext,
        pv_Searchable = xp_Searchable ext\<rparr>,
      sr_Notifications = \<lparr>nt_EmailSecurity = True, nt_EmailMentions = pf_EmailNotifications prefs, nt_EmailUpdates = xp_EmailUpdates ext,
        nt_EmailDigest = xp_EmailDigest ext, nt_PushEnabled = pf_NotificationsEnabled prefs, nt_PushMentions = xp_PushMentions ext\<rparr>,
      sr_Appearance = \<lparr>ap_Theme = pf_Theme prefs, ap_FontSize = xp_FontSize ext, ap_ReduceMotion = xp_ReduceMotion ext\<rparr>\<rparr>"

text \<open>The visibility is scanned into a Go string, so a NULL there is an error.\<close>

definition loadSettings :: "settings_io \<Rightarrow> int \<Rightarrow> user_db \<Rightarrow> user_db \<times> UserSettingsResponse option" where
  "loadSettings io userID db =
     (if \<not> se_account_ok io then (db, None)
      else case sql_lookup ua_id userID (ud_accounts db) of
        None \<Rightarrow> (db, None)
      | Some r \<Rightarrow>
          if ua_visibility r = None then (db, None)
          else (case getOrCreatePreferences io userID db of
                  (db', None) \<Rightarrow> (db', None)
                | (db', Some prefs) \<Rightarrow> (db', Some (settings_view r prefs getExtendedPreferences))))"

section \<open>Updates\<close>

definition completeWebsite :: "string \<Rightarrow> string" where
  "completeWebsite site =
     (if site \<noteq> [] \<and> \<not> prefix ''http://'' site \<and> \<not> prefix ''https://'' site then ''https://'' @ site else site)"

definition updateAccountSettings :: "settings_io \<Rightarrow> int \<Rightarrow> AccountSettings \<Rightarrow> user_db \<Rightarrow> user_db \<times> settings_error option" where
  "updateAccountSettings io userID settings db =
     (if 500 < length (ac_Bio settings) then (db, Some BioTooLong)
      else case user_set (se_account_write_ok io) userID
          (\<lambda>r. r\<lparr>ua_display_name := Some (ac_DisplayName settings), ua_bio := Some (ac_Bio settings),
             ua_location := Some (ac_Location settings), ua_website := Some (completeWebsite (ac_Website settings)),
             ua_timezone := Some (ac_Timezone settings), ua_language := Some (ac_Language settings),
             ua_updated_at := VStr (FormatSQLTimestamp (se_now io))\<rparr>) db of
        (db', ok) \<Rightarrow> (db', if ok then None else Some SettingsFailed))"

definition updatePrivacySettings :: "settings_io \<Rightarrow> int \<Rightarrow> PrivacySettings \<Rightarrow> user_db \<Rightarrow> user_db \<times> settings_error option" where
  "updatePrivacySettings io userID settings db =
     (case user_set (se_privacy_ok io) userID
         (\<lambda>r. r\<lparr>ua_visibility := Some (pv_Visibility settings), ua_updated_at := VStr (FormatSQLTimestamp (se_now io))\<rparr>) db of
        (db', ok) \<Rightarrow> (db', if ok then None else Some SettingsFailed))"

definition prefs_set :: "bool \<Rightarrow> int \<Rightarrow> (UserPreferences \<Rightarrow> UserPreferences) \<Rightarrow> user_db \<Rightarrow> user_db \<times> settings_error option" where
  "prefs_set ok userID f db =
     (if ok then (db\<lparr>ud_preferences := sql_update (\<lambda>p. pf_UserID p = userID) f (ud_preferences db)\<rparr>, None)
      else (db, Some SettingsFailed))"

definition updateNotificationSettings ::
  "settings_io \<Rightarrow> int \<Rightarrow> NotificationSettings \<Rightarrow> user_db \<Rightarrow> user_db \<times> settings_error option" where
  "updateNotificationSettings io userID settings db =
     prefs_set (se_notifications_ok io) userID
       (\<lambda>p. p\<lparr>pf_NotificationsEnabled := nt_PushEnabled settings, pf_EmailNotifications := nt_EmailMentions settings,
          pf_UpdatedAt := VStr (FormatSQLTimestamp (se_now io))\<rparr>) db"

definition validThemes :: "string list" where "validThemes = [''dark'', ''light'', ''auto'']"

definition updateAppearanceSettings ::
  "settings_io \<Rightarrow> int \<Rightarrow> AppearanceSettings \<Rightarrow> user_db \<Rightarrow> user_db \<times> settings_error option" where
  "updateAppearanceSettings io userID settings db =
     (if ap_Theme settings \<notin> set validThemes then (db, Some BadTheme)
      else prefs_set (se_appearance_ok io) userID
        (\<lambda>p. p\<lparr>pf_Theme := ap_Theme settings, pf_UpdatedAt := VStr (FormatSQLTimestamp (se_now io))\<rparr>) db)"

text \<open>One section after the other; the first error ends the update, and what was written before it stays.\<close>

definition then_section ::
  "'s option \<Rightarrow> ('s \<Rightarrow> user_db \<Rightarrow> user_db \<times> settings_error option) \<Rightarrow> user_db \<times> settings_error option \<Rightarrow>
   user_db \<times> settings_error option" where
  "then_section s update res =
     (case res of
        (db, Some e) \<Rightarrow> (db, Some e)
      | (db, None) \<Rightarrow> (case s of None \<Rightarrow> (db, None) | Some x \<Rightarrow> update x db))"

definition applySettingsUpdate ::
  "settings_io \<Rightarrow> int \<Rightarrow> UpdateSettingsRequest \<Rightarrow> user_db \<Rightarrow> user_db \<times> settings_error option" where
  "applySettingsUpdate io userID req db =
     then_section (ur_Appearance req) (updateAppearanceSettings io userID)
       (then_section (ur_Notifications req) (updateNotificationSettings io userID)
         (then_section (ur_Privacy req) (updatePrivacySettings io userID)
           (then_section (ur_Account req) (updateAccountSettings io userID) (db, None))))"

section \<open>Handlers of the settings\<close>

definition GetSettings :: "settings_io \<Rightarrow> req_ctx \<Rightarrow> world \<Rightarrow> world \<times> UserSettingsResponse answer" where
  "GetSettings io ctx w =
     (case cx_user ctx of
        None \<Rightarrow> (w, Status 401)
      | Some user \<Rightarrow>
          (case loadSettings io (u_ID user) (w_users w) of
             (db, None) \<Rightarrow> (w\<lparr>w_users := db\<rparr>, Status 500)
           | (db, Some response) \<Rightarrow> (w\<lparr>w_users := db\<rparr>, Ok200 response)))"

text \<open>The answer carries the theme written to the cookie of the pages, \<open>None\<close> when the cookie is left alone.\<close>

definition UpdateSettings ::
  "settings_io \<Rightarrow> req_ctx \<Rightarrow> UpdateSettingsRequest option \<Rightarrow> world \<Rightarrow> world \<times> string option answer" where
  "UpdateSettings io ctx body w =
     (case cx_user ctx of
        None \<Rightarrow> (w, Status 401)
      | Some user \<Rightarrow>
          (case body of
             None \<Rightarrow> (w, Status 400)
           | Some req \<Rightarrow>
               (case applySettingsUpdate io (u_ID user) req (w_users w) of
                  (db, Some e) \<Rightarrow> (w\<lparr>w_users := db\<rparr>, Status (if e = SettingsFailed then 500 else 400))
                | (db, None) \<Rightarrow>
                    (w\<lparr>w_users := db\<rparr>,
                     Ok200 (case ur_Appearance req of
                              None \<Rightarrow> None
                            | Some a \<Rightarrow> if ap_Theme a = [] then None else Some (ap_Theme a))))))"

text \<open>The forms: \<open>form\<close> gives the value of a field, empty when it is absent. The answer is the error flag of the flash message and the page.\<close>

definition formChecked :: "(string \<Rightarrow> string) \<Rightarrow> string \<Rightarrow> bool" where
  "formChecked form name = (let v = form name in if v = [] then False else IsTruthy v \<or> v = ''on'')"

datatype page = LoginPage | FlashPage bool string

definition post_section ::
  "(int \<Rightarrow> user_db \<Rightarrow> user_db \<times> settings_error option) \<Rightarrow> string \<Rightarrow> req_ctx \<Rightarrow> world \<Rightarrow> world \<times> page" where
  "post_section update target ctx w =
     (case cx_user ctx of
        None \<Rightarrow> (w, LoginPage)
      | Some user \<Rightarrow>
          (case update (u_ID user) (w_users w) of (db, err) \<Rightarrow> (w\<lparr>w_users := db\<rparr>, FlashPage (err = None) target)))"

definition PostAccountSettings :: "settings_io \<Rightarrow> req_ctx \<Rightarrow> (string \<Rightarrow> string) \<Rightarrow> world \<Rightarrow> world \<times> page" where
  "PostAccountSettings io ctx form w =
     post_section (\<lambda>i. updateAccountSettings io i
         \<lparr>ac_DisplayName = trimSpace (form ''displayName''), ac_Bio = trimSpace (form ''bio''), ac_Location = trimSpace (form ''location''),
          ac_Website = trimSpace (form ''website''), ac_Timezone = trimSpace (form ''timezone''), ac_Language = trimSpace (form ''language''),
          ac_DateFormat = trimSpace (form ''dateFormat''), ac_TimeFormat = trimSpace (form ''timeFormat'')\<rparr>)
       ''/users/settings'' ctx w"

definition PostPrivacySettings :: "settings_io \<Rightarrow> req_ctx \<Rightarrow> (string \<Rightarrow> string) \<Rightarrow> world \<Rightarrow> world \<times> page" where
  "PostPrivacySettings io ctx form w =
     post_section (\<lambda>i. updatePrivacySettings io i
         \<lparr>pv_Visibility = trimSpace (form ''visibility''), pv_ShowEmail = formChecked form ''showEmail'',
          pv_ShowActivity = formChecked form ''showActivity'', pv_Searchable = formChecked form ''searchable''\<rparr>)
       ''/users/settings/privacy'' ctx w"

definition PostNotificationSettings :: "settings_io \<Rightarrow> req_ctx \<Rightarrow> (string \<Rightarrow> string) \<Rightarrow> world \<Rightarrow> world \<times> page" where
  "PostNotificationSettings io ctx form w =
     post_section (\<lambda>i. updateNotificationSettings io i
         \<lparr>nt_EmailSecurity = True, nt_EmailMentions = formChecked form ''emailMentions'', nt_EmailUpdates = formChecked form ''emailUpdates'',
          nt_EmailDigest = trimSpace (form ''emailDigest''), nt_PushEnabled = formChecked form ''pushEnabled'',
          nt_PushMentions = formChecked form ''pushMentions''\<rparr>)
       ''/users/settings/notifications'' ctx w"

text \<open>The appearance form also writes the theme to the cookie when it has been saved.\<close>

definition PostAppearanceSettings :: "settings_io \<Rightarrow> req_ctx \<Rightarrow> (string \<Rightarrow> string) \<Rightarrow> world \<Rightarrow> world \<times> page \<times> string option" where
  "PostAppearanceSettings io ctx form w =
     (let settings = \<lparr>ap_Theme = trimSpace (form ''theme''), ap_FontSize = trimSpace (form ''fontSize''),
                      ap_ReduceMotion = formChecked form ''reduceMotion''\<rparr>;
          (w', p) = post_section (\<lambda>i. updateAppearanceSettings io i settings) ''/users/settings/appearance'' ctx w
      in (w', p, case p of FlashPage True _ \<Rightarrow> Some (ap_Theme settings) | _ \<Rightarrow> None))"

section \<open>API tokens\<close>

record UserToken =
  ut_ID :: int
  ut_Name :: string
  ut_TokenPrefix :: string
  ut_Scopes :: string
  ut_CreatedAt :: instant
  ut_ExpiresAt :: "instant option"
  ut_LastUsedAt :: "instant option"

text \<open>
  \<open>readable\<close>: the row can be scanned; others are passed over. The timestamps are scanned as the driver hands them out, as text or as
  a time, which \<open>ParseStoredTimestamp\<close> takes for the same instant.
\<close>

definition getUserTokens ::
  "time_driver \<Rightarrow> (token_row list \<Rightarrow> token_row list) \<Rightarrow> bool \<Rightarrow> (token_row \<Rightarrow> bool) \<Rightarrow> int \<Rightarrow> token_table \<Rightarrow> UserToken list option" where
  "getUserTokens drv ties ok readable userID t =
     (if \<not> ok then None
      else Some (map (\<lambda>r. \<lparr>ut_ID = tk_id r, ut_Name = null_str (tk_name r), ut_TokenPrefix = tk_prefix r, ut_Scopes = null_str (tk_scopes r),
             ut_CreatedAt = stored_time (tk_created_at r), ut_ExpiresAt = ParseStoredTimestamp (tk_expires_at r),
             ut_LastUsedAt = ParseStoredTimestamp (tk_last_used_at r)\<rparr>)
           (filter readable (newest_tokens drv ties userID t))))"

record CreateTokenRequest =
  qr_Name :: string
  qr_Scopes :: string
  qr_ExpiresIn :: int

text \<open>\<open>nk_days n\<close>: the instant \<open>n\<close> calendar days after the clock reading. \<open>nk_count_ok\<close>: the count of the tokens is read.\<close>

record new_token_io =
  nk_count_ok :: bool
  nk_bytes :: "nat list option"
  nk_days :: "int \<Rightarrow> instant"
  nk_now :: instant
  nk_insert_ok :: bool

text \<open>What a canonical timestamp keeps of an instant.\<close>

definition whole_seconds :: "instant \<Rightarrow> instant" where "whole_seconds t = t - t mod second_ns"

definition token_count :: "int \<Rightarrow> world \<Rightarrow> int" where
  "token_count userID w = affected (\<lambda>r. tk_user_id r = userID) (tt_rows (w_tokens w))"

definition CreateUserToken ::
  "auth_env \<Rightarrow> new_token_io \<Rightarrow> req_ctx \<Rightarrow> CreateTokenRequest option \<Rightarrow> world \<Rightarrow> world \<times> string answer" where
  "CreateUserToken env io ctx body w =
     (case cx_user ctx of
        None \<Rightarrow> (w, Status 401)
      | Some user \<Rightarrow>
          (case body of
             None \<Rightarrow> (w, Status 400)
           | Some req \<Rightarrow>
               if qr_Name req = [] then (w, Status 400)
               else if 5 \<le> (if nk_count_ok io then token_count (u_ID user) w else 0) then (w, Status 400)
               else case GenerateTokenWithPrefix PrefixUser (nk_bytes io) of
                 None \<Rightarrow> (w, Status 500)
               | Some token \<Rightarrow>
                   if \<not> nk_insert_ok io \<or> hash_taken (en_hash env token) (tt_rows (w_tokens w)) then (w, Status 500)
                   else
                     (w\<lparr>w_tokens := \<lparr>tt_next = tt_next (w_tokens w) + 1, tt_rows = tt_rows (w_tokens w) @
                          [\<lparr>tk_id = tt_next (w_tokens w), tk_user_id = u_ID user, tk_hash = en_hash env token,
                            tk_prefix = GetTokenPrefix token @ ''...'', tk_name = Some (qr_Name req), tk_scopes = Some (qr_Scopes req),
                            tk_created_at = VStr (FormatSQLTimestamp (nk_now io)),
                            tk_expires_at = (if 0 < qr_ExpiresIn req then VStr (FormatSQLTimestamp (nk_days io (qr_ExpiresIn req))) else VNil),
                            tk_last_used_at = VNil\<rparr>]\<rparr>\<rparr>, Ok200 token)))"

text \<open>\<open>key\<close>: the number the database reads the id of the path as, \<open>None\<close> when it is none.\<close>

definition RevokeToken :: "(string \<Rightarrow> int option) \<Rightarrow> bool \<Rightarrow> req_ctx \<Rightarrow> string \<Rightarrow> world \<Rightarrow> world \<times> unit answer" where
  "RevokeToken key ok ctx tokenID w =
     (case cx_user ctx of
        None \<Rightarrow> (w, Status 401)
      | Some user \<Rightarrow>
          if \<not> ok then (w, Status 500)
          else (let P = (\<lambda>r. Some (tk_id r) = key tokenID \<and> tk_user_id r = u_ID user); rows = tt_rows (w_tokens w) in
                (w\<lparr>w_tokens := (w_tokens w)\<lparr>tt_rows := sql_delete P rows\<rparr>\<rparr>,
                 if affected P rows = 0 then Status 404 else Ok200 ())))"

definition ListUserTokens ::
  "auth_env \<Rightarrow> (token_row list \<Rightarrow> token_row list) \<Rightarrow> bool \<Rightarrow> (token_row \<Rightarrow> bool) \<Rightarrow> req_ctx \<Rightarrow> world \<Rightarrow> UserToken list answer" where
  "ListUserTokens env ties ok readable ctx w =
     (case cx_user ctx of
        None \<Rightarrow> Status 401
      | Some user \<Rightarrow> (case getUserTokens (en_driver env) ties ok readable (u_ID user) (w_tokens w) of None \<Rightarrow> Status 500 | Some ts \<Rightarrow> Ok200 ts))"

section \<open>Sessions\<close>

text \<open>A listed session, and whether it is the one of the request.\<close>

definition ListSessions :: "auth_env \<Rightarrow> bool \<Rightarrow> bool \<Rightarrow> instant \<Rightarrow> req_ctx \<Rightarrow> world \<Rightarrow> (UserSession \<times> bool) list answer" where
  "ListSessions env queryOk rowsOk now ctx w =
     (case cx_user ctx of
        None \<Rightarrow> Status 401
      | Some user \<Rightarrow>
          (case GetActiveSessions queryOk rowsOk now (u_ID user) (w_sessions w) of
             Inl _ \<Rightarrow> Status 500
           | Inr sessions \<Rightarrow>
               (let currentTokenHash = (case cx_session ctx of None \<Rightarrow> [] | Some s \<Rightarrow> en_hash env (ses_ID s)) in
                Ok200 (map (\<lambda>s. (s, currentTokenHash \<noteq> [] \<and> uss_SessionID s = currentTokenHash)) sessions))))"

text \<open>\<open>ParseInt\<close> of the id of the path; a NULL expiry cannot be scanned into a Go string.\<close>

definition RevokeSession ::
  "bool \<Rightarrow> bool \<Rightarrow> instant \<Rightarrow> req_ctx \<Rightarrow> string \<Rightarrow> world \<Rightarrow> world \<times> unit answer" where
  "RevokeSession queryOk deleteOk now ctx rowIDStr w =
     (case cx_user ctx of
        None \<Rightarrow> (w, Status 401)
      | Some user \<Rightarrow>
          if rowIDStr = [] then (w, Status 400)
          else case atoi rowIDStr of
            None \<Rightarrow> (w, Status 400)
          | Some rowID \<Rightarrow>
              (case (if queryOk then sql_lookup us_id rowID (st_rows (w_sessions w)) else None) of
                 None \<Rightarrow> (w, Status 404)
               | Some r \<Rightarrow>
                   if us_expires_at r = VNil \<or> \<not> IsAfter (us_expires_at r) now then (w, Status 404)
                   else if us_user_id r \<noteq> u_ID user then (w, Status 403)
                   else (case DeleteSessionByRowID deleteOk rowID (w_sessions w) of
                           (t, ok) \<Rightarrow> (w\<lparr>w_sessions := t\<rparr>, if ok then Ok200 () else Status 500))))"

definition RevokeAllSessions :: "bool \<Rightarrow> req_ctx \<Rightarrow> world \<Rightarrow> world \<times> unit answer" where
  "RevokeAllSessions ok ctx w =
     (case cx_user ctx of
        None \<Rightarrow> (w, Status 401)
      | Some user \<Rightarrow>
          (case DeleteAllSessionsForUser ok (u_ID user) (w_sessions w) of
             (t, done_ok) \<Rightarrow> (w\<lparr>w_sessions := t\<rparr>, if done_ok then Ok200 () else Status 500)))"

section \<open>A revoked session is refused\<close>

lemma cookie_account_hash:
  assumes "snd (cookie_account env io (cookie_request tok) w) = Some (user, s)"
  shows "\<exists>r\<in>set (st_rows (w_sessions w)). us_token_hash r = en_hash env tok \<and> us_user_id r = ses_UserID s"
proof -
  obtain w' where "get_session env (io_get io) tok w = (w', Inr s)"
    using assms by (auto simp: cookie_account_def cookie_request_def split: if_splits prod.splits sum.splits)
  then have "snd (GetByID (en_hash env) (\<lambda>d. en_unmarshal env d \<noteq> None) (io_get io) tok (w_sessions w)) = Inr s"
    by (auto simp: get_session_def split: prod.splits)
  then show ?thesis
    by (auto simp: GetByID_def Let_def dest!: sql_lookup_Some split: if_splits option.splits prod.splits bool.splits)
qed

lemma RevokeSession_refused:
  "RevokeSession queryOk deleteOk now ctx i w = (w', res) \<Longrightarrow> res \<noteq> Ok200 () \<Longrightarrow> w' = w"
  by (simp add: RevokeSession_def DeleteSessionByRowID_def split: if_splits option.splits)

lemma RevokeSession_revoked:
  assumes "RevokeSession queryOk deleteOk now ctx i w = (w', Ok200 ())" "cx_user ctx = Some user"
  shows "\<exists>r. r \<in> set (st_rows (w_sessions w)) \<and> atoi i = Some (us_id r) \<and> us_user_id r = u_ID user \<and>
    w' = w\<lparr>w_sessions := (w_sessions w)\<lparr>st_rows := sql_delete (\<lambda>q. us_id q = us_id r) (st_rows (w_sessions w))\<rparr>\<rparr>"
proof -
  obtain k where k: "atoi i = Some k" using assms by (cases "atoi i") (simp_all add: RevokeSession_def split: if_splits)
  obtain r where r: "sql_lookup us_id k (st_rows (w_sessions w)) = Some r"
    using assms k by (cases "sql_lookup us_id k (st_rows (w_sessions w))") (simp_all add: RevokeSession_def split: if_splits)
  then have "w' = w\<lparr>w_sessions := (w_sessions w)\<lparr>st_rows := sql_delete (\<lambda>q. us_id q = k) (st_rows (w_sessions w))\<rparr>\<rparr>" "us_user_id r = u_ID user"
    using assms k by (simp_all add: RevokeSession_def DeleteSessionByRowID_def split: if_splits)
  with sql_lookup_Some [OF r] k show ?thesis by blast
qed

text \<open>
  C14. Revoking sessions ends their access. A session is revoked only by its own user; after \<open>RevokeSession\<close> succeeds the row
  with the id that the request names is gone and no other row is, and the token of that row no longer authenticates a request, and when it does not succeed nothing has
  changed. After \<open>RevokeAllSessions\<close> no session cookie whatsoever authenticates as the user, the pending ones included, while
  the sessions of others and all API tokens stay.
\<close>

theorem revoked_sessions_refused:
  assumes user: "cx_user ctx = Some user" and wf: "sessions_wf (w_sessions w)"
    and one: "RevokeSession queryOk deleteOk now ctx i w = (w1, res1)" and all: "RevokeAllSessions allOk ctx w = (w2, res2)"
  shows "(res1 = Ok200 () \<longrightarrow> (\<exists>r\<in>set (st_rows (w_sessions w)). atoi i = Some (us_id r) \<and> us_user_id r = u_ID user \<and>
      set (st_rows (w_sessions w1)) = set (st_rows (w_sessions w)) - {r} \<and>
      (\<forall>tok io. en_hash env tok = us_token_hash r \<longrightarrow> snd (cookie_account env io (cookie_request tok) w1) = None))) \<and>
    (res1 \<noteq> Ok200 () \<longrightarrow> w1 = w) \<and>
    (res2 = Ok200 () \<longrightarrow> w_tokens w2 = w_tokens w \<and>
      filter (\<lambda>r. us_user_id r \<noteq> u_ID user) (st_rows (w_sessions w2)) = filter (\<lambda>r. us_user_id r \<noteq> u_ID user) (st_rows (w_sessions w)) \<and>
      (\<forall>tok io u s. snd (cookie_account env io (cookie_request tok) w2) = Some (u, s) \<longrightarrow> ses_UserID s \<noteq> u_ID user))"
proof (intro conjI impI)
  have key: "inj_on us_id (set (st_rows (w_sessions w)))" "inj_on us_token_hash (set (st_rows (w_sessions w)))"
    using wf by (simp_all add: sessions_wf_def session_rows.table_ok_def distinct_map)
  assume "res1 = Ok200 ()"
  with RevokeSession_revoked one user obtain r where revoked: "r \<in> set (st_rows (w_sessions w))" "us_user_id r = u_ID user"
      "w1 = w\<lparr>w_sessions := (w_sessions w)\<lparr>st_rows := sql_delete (\<lambda>q. us_id q = us_id r) (st_rows (w_sessions w))\<rparr>\<rparr>"
      "atoi i = Some (us_id r)"
    by blast
  show "\<exists>r\<in>set (st_rows (w_sessions w)). atoi i = Some (us_id r) \<and> us_user_id r = u_ID user \<and>
      set (st_rows (w_sessions w1)) = set (st_rows (w_sessions w)) - {r} \<and>
      (\<forall>tok io. en_hash env tok = us_token_hash r \<longrightarrow> snd (cookie_account env io (cookie_request tok) w1) = None)"
  proof -
    have rows: "set (st_rows (w_sessions w1)) = set (st_rows (w_sessions w)) - {r}"
      using revoked(1,3) key(1) by (auto simp: sql_delete_def inj_on_def)
    have "snd (cookie_account env io (cookie_request tok) w1) = None" if "en_hash env tok = us_token_hash r" for tok io
    proof (rule ccontr)
      assume "\<not> ?thesis"
      then obtain u s where "snd (cookie_account env io (cookie_request tok) w1) = Some (u, s)" by auto
      from cookie_account_hash [OF this] that rows key(2) revoked(1) show False by (auto simp: inj_on_def)
    qed
    with revoked rows show ?thesis by blast
  qed
next
  assume "res1 \<noteq> Ok200 ()"
  with one show "w1 = w" by (rule RevokeSession_refused)
next
  assume "res2 = Ok200 ()"
  then have w2: "w2 = w\<lparr>w_sessions := (w_sessions w)\<lparr>st_rows := sql_delete (\<lambda>r. us_user_id r = u_ID user) (st_rows (w_sessions w))\<rparr>\<rparr>"
    using all user by (auto simp: RevokeAllSessions_def DeleteAllSessionsForUser_def split: if_splits)
  show "w_tokens w2 = w_tokens w" by (simp add: w2)
  show "filter (\<lambda>r. us_user_id r \<noteq> u_ID user) (st_rows (w_sessions w2)) = filter (\<lambda>r. us_user_id r \<noteq> u_ID user) (st_rows (w_sessions w))"
    by (simp add: w2 sql_delete_def)
  show "\<forall>tok io u s. snd (cookie_account env io (cookie_request tok) w2) = Some (u, s) \<longrightarrow> ses_UserID s \<noteq> u_ID user"
  proof (intro allI impI)
    fix tok io u s assume "snd (cookie_account env io (cookie_request tok) w2) = Some (u, s)"
    from cookie_account_hash [OF this] show "ses_UserID s \<noteq> u_ID user" by (auto simp: w2 sql_delete_def)
  qed
qed

definition session_world :: world where
  "session_world = (demo_world ann)\<lparr>w_sessions := \<lparr>st_next = 2, st_rows =
     [\<lparr>us_id = 1, us_token_hash = ''tok'', us_user_id = 1, us_data = None, us_expires_at = VTime 100, us_created_at = VTime 0,
       us_ip_address = None, us_user_agent = None, us_last_used_at = VNil\<rparr>]\<rparr>\<rparr>"

definition signed_in :: "user_row \<Rightarrow> req_ctx" where
  "signed_in r = anonymous\<lparr>cx_user := Some (full_user r)\<rparr>"

lemma signed_in_user [simp]: "cx_user (signed_in r) = Some (full_user r)"
  by (simp add: signed_in_def)

theorem revoked_sessions_refused_witness:
  "\<exists>w1. RevokeSession True True 5 (signed_in ann) ''1'' session_world = (w1, Ok200 ()) \<and>
     snd (cookie_account demo_env demo_io (cookie_request ''tok'') w1) = None"
proof -
  have one: "atoi ''1'' = Some 1" by code_simp
  have row: "sql_lookup us_id 1 (st_rows (w_sessions session_world)) = Some (hd (st_rows (w_sessions session_world)))"
    by (simp add: session_world_def sql_lookup_def)
  have ann: "ua_id ann = 1" by (simp add: ann_def new_account_def)
  have wf: "sessions_wf (w_sessions session_world)"
    by (simp add: session_world_def sessions_wf_def session_rows.table_ok_def session_ok_def)
  obtain w1 where r: "RevokeSession True True 5 (signed_in ann) ''1'' session_world = (w1, Ok200 ())"
    by (simp add: RevokeSession_def one row DeleteSessionByRowID_def ann)
      (simp add: session_world_def IsAfter_def ParseStoredTimestamp_def DeleteSessionByRowID_def)
  obtain w2 res2 where all: "RevokeAllSessions True (signed_in ann) session_world = (w2, res2)" by fastforce
  from revoked_sessions_refused [OF signed_in_user wf r all, of demo_env] show ?thesis
    using r by (auto simp: session_world_def)
qed

section \<open>The limit of API tokens\<close>

definition bearer_request :: "string \<Rightarrow> http_req" where
  "bearer_request tok = \<lparr>rq_path = ''/api'', rq_authorization = ''Bearer '' @ tok, rq_cookie = None, rq_accept = []\<rparr>"

lemma bearer_token_of [simp]: "bearer_token (rq_authorization (bearer_request tok)) = Some tok"
  using cut_char_append [of "CHR '' ''" "''Bearer''" tok] by (simp add: bearer_token_def bearer_request_def)

lemma bearer_request_given [simp]: "rq_authorization (bearer_request tok) \<noteq> []"
  by (simp add: bearer_request_def)

lemma CreateUserToken_row:
  assumes "CreateUserToken env io ctx body w = (w', res)" "cx_user ctx = Some user"
  shows "(w' = w \<and> (\<forall>tok. res \<noteq> Ok200 tok)) \<or>
    (\<exists>tok row. res = Ok200 tok \<and> (nk_count_ok io \<longrightarrow> token_count (u_ID user) w < 5) \<and>
      w_tokens w' = \<lparr>tt_next = tt_next (w_tokens w) + 1, tt_rows = tt_rows (w_tokens w) @ [row]\<rparr> \<and> w_users w' = w_users w \<and>
      tk_user_id row = u_ID user \<and> tk_hash row = en_hash env tok \<and> tk_name row \<noteq> None \<and>
      \<not> hash_taken (en_hash env tok) (tt_rows (w_tokens w)) \<and>
      tk_created_at row = VStr (FormatSQLTimestamp (nk_now io)) \<and> tk_last_used_at row = VNil \<and>
      tk_expires_at row = (if 0 < qr_ExpiresIn (the body) then VStr (FormatSQLTimestamp (nk_days io (qr_ExpiresIn (the body)))) else VNil))"
proof (cases "\<exists>tok. res = Ok200 tok")
  case True
  then obtain tok where res: "res = Ok200 tok" by blast
  obtain req where req: "body = Some req" "qr_Name req \<noteq> []"
    using assms res by (cases body) (auto simp: CreateUserToken_def split: if_splits)
  have tok: "GenerateTokenWithPrefix PrefixUser (nk_bytes io) = Some tok" "\<not> hash_taken (en_hash env tok) (tt_rows (w_tokens w))"
      "\<not> 5 \<le> (if nk_count_ok io then token_count (u_ID user) w else 0)" "nk_insert_ok io"
    using assms req res by (auto simp: CreateUserToken_def split: if_splits option.splits)
  have w': "w' = w\<lparr>w_tokens := \<lparr>tt_next = tt_next (w_tokens w) + 1, tt_rows = tt_rows (w_tokens w) @
      [\<lparr>tk_id = tt_next (w_tokens w), tk_user_id = u_ID user, tk_hash = en_hash env tok,
        tk_prefix = GetTokenPrefix tok @ ''...'', tk_name = Some (qr_Name req), tk_scopes = Some (qr_Scopes req),
        tk_created_at = VStr (FormatSQLTimestamp (nk_now io)),
        tk_expires_at = (if 0 < qr_ExpiresIn req then VStr (FormatSQLTimestamp (nk_days io (qr_ExpiresIn req))) else VNil),
        tk_last_used_at = VNil\<rparr>]\<rparr>\<rparr>"
    using assms req tok by (simp add: CreateUserToken_def)
  show ?thesis unfolding w' using res tok req by auto
next
  case False
  with assms have "w' = w" by (auto simp: CreateUserToken_def split: option.splits if_splits)
  with False show ?thesis by blast
qed

text \<open>
  C15. At most five API tokens per user. As long as the count can be read, \<open>CreateUserToken\<close> takes no user beyond five tokens and adds
  at most one, for the signed-in user; the token in the answer then authenticates requests as that user until it expires. (The limit holds for
  one request at a time: the count and the INSERT are separate statements. Hypotheses: the database driver reads NULL and canonical timestamps,
  and the clock, and the expiry if there is one, are in the years 0 to 9999, which the text of a timestamp holds.)
\<close>

theorem token_limit:
  assumes five: "\<forall>u. token_count u w \<le> 5" and io: "nk_count_ok io" and user: "cx_user ctx = Some (full_user r)" "r \<in> set (ud_accounts (w_users w))"
    and wf: "users_wf (w_users w)" and run: "CreateUserToken env io ctx body w = (w', res)"
    and drv: "reads_canonical (en_driver env)" and years: "0 \<le> year utc (nk_now io)" "year utc (nk_now io) \<le> 9999"
      "0 < qr_ExpiresIn (the body) \<longrightarrow> 0 \<le> year utc (nk_days io (qr_ExpiresIn (the body))) \<and> year utc (nk_days io (qr_ExpiresIn (the body))) \<le> 9999"
  shows "(\<forall>u. token_count u w' \<le> 5) \<and>
    (case res of
       Status n \<Rightarrow> w' = w
     | Ok200 tok \<Rightarrow> token_count (ua_id r) w' = token_count (ua_id r) w + 1 \<and>
         (\<forall>aio. io_token_ok aio \<and> io_user_ok aio \<and> (qr_ExpiresIn (the body) \<le> 0 \<or> io_now aio < whole_seconds (nk_days io (qr_ExpiresIn (the body)))) \<longrightarrow>
            (\<exists>i. token_account env aio (bearer_request tok) w' = Some (full_user r, i))))"
proof (cases "\<exists>tok. res = Ok200 tok")
  case True
  then obtain tok row where row: "res = Ok200 tok" "token_count (ua_id r) w < 5"
      "w_tokens w' = \<lparr>tt_next = tt_next (w_tokens w) + 1, tt_rows = tt_rows (w_tokens w) @ [row]\<rparr>" "w_users w' = w_users w"
      "tk_user_id row = ua_id r" "tk_hash row = en_hash env tok" "tk_name row \<noteq> None" "\<not> hash_taken (en_hash env tok) (tt_rows (w_tokens w))"
      "tk_created_at row = VStr (FormatSQLTimestamp (nk_now io))" "tk_last_used_at row = VNil"
      "tk_expires_at row = (if 0 < qr_ExpiresIn (the body) then VStr (FormatSQLTimestamp (nk_days io (qr_ExpiresIn (the body)))) else VNil)"
    using CreateUserToken_row [OF run user(1)] io by auto
  have count: "token_count u w' = token_count u w + (if u = ua_id r then 1 else 0)" for u
    using row(3,5) by (simp add: token_count_def affected_def)
  have "sql_lookup tk_hash (en_hash env tok) (tt_rows (w_tokens w)) = None" using row(8) by (auto simp: sql_lookup_None hash_taken_def)
  then have look: "sql_lookup tk_hash (en_hash env tok) (tt_rows (w_tokens w')) = Some row" by (simp add: row sql_lookup_append)
  have acc: "GetUserByID True (ua_id r) (w_users w') = Inr (full_user r)" using GetUserByID_row [OF wf user(2)] row(4) by simp
  have times: "scan_times (en_driver env) row =
      Some (if 0 < qr_ExpiresIn (the body) then Some (whole_seconds (nk_days io (qr_ExpiresIn (the body)))) else None, None)"
    using drv years row(9-11) by (simp add: scan_times_def reads_canonical_def whole_seconds_def)
  have "token_account env aio (bearer_request tok) w' = Some (full_user r, tk_id row)"
    if "io_token_ok aio" "io_user_ok aio" "qr_ExpiresIn (the body) \<le> 0 \<or> io_now aio < whole_seconds (nk_days io (qr_ExpiresIn (the body)))" for aio
    using that look acc row(5,7) times by (auto simp: token_account_def GetByToken_def Let_def)
  with count row(1,2) five show ?thesis by auto
next
  case False
  then have "w' = w" using CreateUserToken_row [OF run user(1)] by auto
  with False five show ?thesis by (cases res) auto
qed

definition new_token :: new_token_io where
  "new_token = \<lparr>nk_count_ok = True, nk_bytes = Some [], nk_days = (\<lambda>n. n * day_ns), nk_now = 0, nk_insert_ok = True\<rparr>"

theorem token_limit_witness:
  "\<exists>w' tok i. CreateUserToken demo_env new_token (signed_in ann) (Some \<lparr>qr_Name = ''ci'', qr_Scopes = [], qr_ExpiresIn = 0\<rparr>) (demo_world ann) = (w', Ok200 tok) \<and>
     token_account demo_env demo_io (bearer_request tok) w' = Some (full_user ann, i)"
proof -
  let ?body = "Some \<lparr>qr_Name = ''ci'', qr_Scopes = [], qr_ExpiresIn = 0\<rparr>"
  have c: "token_count u (demo_world ann) = 0" for u by (simp add: token_count_def affected_def)
  obtain w' tok where run: "CreateUserToken demo_env new_token (signed_in ann) ?body (demo_world ann) = (w', Ok200 tok)"
    by (simp add: CreateUserToken_def new_token_def c GenerateTokenWithPrefix_def hash_taken_def)
  have five: "\<forall>u. token_count u (demo_world ann) \<le> 5" by (simp add: c)
  have wf: "users_wf (w_users (demo_world ann))"
    by (simp add: users_wf_def account_rows.table_ok_def unique_accounts_def account_ok_def) (simp add: ann_def new_account_def)
  have ok: "nk_count_ok new_token" by (simp add: new_token_def)
  have mem: "ann \<in> set (ud_accounts (w_users (demo_world ann)))" by simp
  have aio: "io_token_ok demo_io \<and> io_user_ok demo_io" by simp
  have "year utc (nk_now new_token) = 1970" by code_simp
  from token_limit [OF five ok signed_in_user mem wf run] this aio plain_driver_reads(1) obtain i where "token_account demo_env demo_io (bearer_request tok) w' = Some (full_user ann, i)"
    by (auto dest!: spec [where x = demo_io])
  with run show ?thesis by blast
qed

text \<open>When the count cannot be read it is taken as zero, and the limit is gone.\<close>

lemma token_limit_without_count:
  assumes "cx_user ctx = Some user" "\<not> nk_count_ok io" "GenerateTokenWithPrefix PrefixUser (nk_bytes io) = Some tok" "nk_insert_ok io"
    "\<not> hash_taken (en_hash env tok) (tt_rows (w_tokens w))" "qr_Name req \<noteq> []"
  shows "token_count (u_ID user) (fst (CreateUserToken env io ctx (Some req) w)) = token_count (u_ID user) w + 1"
  using assms by (simp add: CreateUserToken_def token_count_def affected_def)

section \<open>Settings are read back as they were saved\<close>

definition settings_io_ok :: "instant \<Rightarrow> settings_io" where
  "settings_io_ok now = \<lparr>se_account_ok = True, se_prefs_read_ok = True, se_prefs_insert_ok = True, se_account_write_ok = True,
     se_privacy_ok = True, se_notifications_ok = True, se_appearance_ok = True, se_now = now\<rparr>"

lemma settings_io_ok_fields [simp]:
  "se_account_ok (settings_io_ok now)" "se_prefs_read_ok (settings_io_ok now)" "se_prefs_insert_ok (settings_io_ok now)"
  "se_account_write_ok (settings_io_ok now)" "se_privacy_ok (settings_io_ok now)" "se_notifications_ok (settings_io_ok now)"
  "se_appearance_ok (settings_io_ok now)" "se_now (settings_io_ok now) = now"
  by (simp_all add: settings_io_ok_def)

lemma lookup_updated:
  assumes "sql_lookup key k rows = Some r" "\<And>q. key (f q) = key q"
  shows "sql_lookup key k (sql_update (\<lambda>q. key q = k) f rows) = Some (f r)"
  using assms sql_lookup_Some [OF assms(1)] by (simp add: sql_update_lookup)

text \<open>
  The settings round trip. When \<open>UpdateSettings\<close> is given all four sections, with a biography of at most 500 bytes and a
  known theme, and its statements succeed, \<open>GetSettings\<close> answers with the saved profile (the website completed to an https
  address), visibility, e-mail, push and theme. The other fields of the request are accepted and lost: whatever was sent, the answer holds the
  built-in date and time formats, digest, font size and flags.
\<close>

lemma settings_round_trip:
  assumes user: "cx_user ctx = Some user" "sql_lookup ua_id (u_ID user) (ud_accounts (w_users w)) = Some r"
    "sql_lookup pf_UserID (u_ID user) (ud_preferences (w_users w)) = Some p"
    and valid: "length (ac_Bio acct) \<le> 500" "ap_Theme appr \<in> set validThemes"
  shows "\<exists>w' resp. UpdateSettings (settings_io_ok now) ctx (Some \<lparr>ur_Account = Some acct, ur_Privacy = Some priv, ur_Notifications = Some notif, ur_Appearance = Some appr\<rparr>) w
      = (w', Ok200 (Some (ap_Theme appr))) \<and>
    GetSettings (settings_io_ok now') ctx w' = (w', Ok200 resp) \<and>
    sr_Account resp = acct\<lparr>ac_Website := completeWebsite (ac_Website acct), ac_DateFormat := ''YYYY-MM-DD'', ac_TimeFormat := ''24h''\<rparr> \<and>
    sr_Privacy resp = priv\<lparr>pv_ShowEmail := False, pv_ShowActivity := True, pv_Searchable := True\<rparr> \<and>
    sr_Notifications resp = notif\<lparr>nt_EmailSecurity := True, nt_EmailUpdates := False, nt_EmailDigest := ''weekly'', nt_PushMentions := True\<rparr> \<and>
    sr_Appearance resp = appr\<lparr>ap_FontSize := ''medium'', ap_ReduceMotion := False\<rparr>"
proof -
  let ?u = "u_ID user" and ?s = "VStr (FormatSQLTimestamp now)"
  let ?fa = "\<lambda>r. r\<lparr>ua_display_name := Some (ac_DisplayName acct), ua_bio := Some (ac_Bio acct), ua_location := Some (ac_Location acct),
      ua_website := Some (completeWebsite (ac_Website acct)), ua_timezone := Some (ac_Timezone acct), ua_language := Some (ac_Language acct), ua_updated_at := ?s\<rparr>"
  let ?fp = "\<lambda>r. r\<lparr>ua_visibility := Some (pv_Visibility priv), ua_updated_at := ?s\<rparr>"
  let ?fn = "\<lambda>p. p\<lparr>pf_NotificationsEnabled := nt_PushEnabled notif, pf_EmailNotifications := nt_EmailMentions notif, pf_UpdatedAt := ?s\<rparr>"
  let ?ft = "\<lambda>p. p\<lparr>pf_Theme := ap_Theme appr, pf_UpdatedAt := ?s\<rparr>"
  define acc1 where "acc1 = sql_update (\<lambda>r. ua_id r = ?u) ?fa (ud_accounts (w_users w))"
  define acc2 where "acc2 = sql_update (\<lambda>r. ua_id r = ?u) ?fp acc1"
  define pre1 where "pre1 = sql_update (\<lambda>p. pf_UserID p = ?u) ?fn (ud_preferences (w_users w))"
  define pre2 where "pre2 = sql_update (\<lambda>p. pf_UserID p = ?u) ?ft pre1"
  let ?w' = "w\<lparr>w_users := (w_users w)\<lparr>ud_accounts := acc2, ud_preferences := pre2\<rparr>\<rparr>"
  let ?req = "\<lparr>ur_Account = Some acct, ur_Privacy = Some priv, ur_Notifications = Some notif, ur_Appearance = Some appr\<rparr>"
  have theme: "ap_Theme appr \<noteq> []" using valid(2) by (auto simp: validThemes_def)
  have upd: "UpdateSettings (settings_io_ok now) ctx (Some ?req) w = (?w', Ok200 (Some (ap_Theme appr)))"
    using valid theme
    by (simp add: UpdateSettings_def user applySettingsUpdate_def then_section_def updateAccountSettings_def updatePrivacySettings_def
        updateNotificationSettings_def updateAppearanceSettings_def user_set_def prefs_set_def acc2_def acc1_def pre2_def pre1_def)
  have "sql_lookup ua_id ?u acc1 = Some (?fa r)" unfolding acc1_def by (rule lookup_updated [OF user(2)]) simp
  then have acc: "sql_lookup ua_id ?u acc2 = Some (?fp (?fa r))" unfolding acc2_def by (rule lookup_updated) simp
  have "sql_lookup pf_UserID ?u pre1 = Some (?fn p)" unfolding pre1_def by (rule lookup_updated [OF user(3)]) simp
  then have pre: "sql_lookup pf_UserID ?u pre2 = Some (?ft (?fn p))" unfolding pre2_def by (rule lookup_updated) simp
  have get: "GetSettings (settings_io_ok now') ctx ?w' = (?w', Ok200 (settings_view (?fp (?fa r)) (?ft (?fn p)) getExtendedPreferences))"
    by (simp add: GetSettings_def user(1) loadSettings_def getOrCreatePreferences_def acc pre)
  show ?thesis
    by (rule exI [of _ ?w'], rule exI [of _ "settings_view (?fp (?fa r)) (?ft (?fn p)) getExtendedPreferences"])
      (simp only: upd get, simp add: settings_view_def getExtendedPreferences_def null_str_def)
qed

lemma settings_round_trip_example:
  "\<exists>w w' resp. UpdateSettings (settings_io_ok 0) (signed_in ann)
       (Some \<lparr>ur_Account = Some \<lparr>ac_DisplayName = ''Ann'', ac_Bio = ''hi'', ac_Location = [], ac_Website = ''a.org'', ac_Timezone = [], ac_Language = ''en'',
                ac_DateFormat = ''DD.MM.YYYY'', ac_TimeFormat = []\<rparr>,
              ur_Privacy = Some \<lparr>pv_Visibility = ''private'', pv_ShowEmail = True, pv_ShowActivity = True, pv_Searchable = True\<rparr>,
              ur_Notifications = Some \<lparr>nt_EmailSecurity = True, nt_EmailMentions = True, nt_EmailUpdates = True, nt_EmailDigest = [], nt_PushEnabled = True, nt_PushMentions = True\<rparr>,
              ur_Appearance = Some \<lparr>ap_Theme = ''light'', ap_FontSize = [], ap_ReduceMotion = True\<rparr>\<rparr>) w = (w', Ok200 (Some ''light'')) \<and>
     GetSettings (settings_io_ok 0) (signed_in ann) w' = (w', Ok200 resp) \<and>
     ac_Website (sr_Account resp) = ''https://a.org'' \<and> ac_DateFormat (sr_Account resp) = ''YYYY-MM-DD'' \<and> pv_Visibility (sr_Privacy resp) = ''private''"
proof -
  let ?w = "(demo_world ann)\<lparr>w_users := \<lparr>ud_next = 2, ud_accounts = [ann], ud_preferences = [created_preferences 1 0]\<rparr>\<rparr>"
  have ann: "ua_id ann = 1" by (simp add: ann_def new_account_def)
  have rows: "sql_lookup ua_id (u_ID (full_user ann)) (ud_accounts (w_users ?w)) = Some ann"
    "sql_lookup pf_UserID (u_ID (full_user ann)) (ud_preferences (w_users ?w)) = Some (created_preferences 1 0)"
    by (simp_all add: ann created_preferences_def)
  let ?acct = "\<lparr>ac_DisplayName = ''Ann'', ac_Bio = ''hi'', ac_Location = [], ac_Website = ''a.org'', ac_Timezone = [], ac_Language = ''en'',
                ac_DateFormat = ''DD.MM.YYYY'', ac_TimeFormat = []\<rparr>"
  let ?priv = "\<lparr>pv_Visibility = ''private'', pv_ShowEmail = True, pv_ShowActivity = True, pv_Searchable = True\<rparr>"
  let ?notif = "\<lparr>nt_EmailSecurity = True, nt_EmailMentions = True, nt_EmailUpdates = True, nt_EmailDigest = [], nt_PushEnabled = True, nt_PushMentions = True\<rparr>"
  let ?appr = "\<lparr>ap_Theme = ''light'', ap_FontSize = [], ap_ReduceMotion = True\<rparr>"
  have v: "length (ac_Bio ?acct) \<le> 500" "ap_Theme ?appr \<in> set validThemes" by (simp_all add: validThemes_def)
  from settings_round_trip [OF signed_in_user rows v, of 0 ?priv ?notif 0] obtain w' resp where
    "UpdateSettings (settings_io_ok 0) (signed_in ann) (Some \<lparr>ur_Account = Some ?acct, ur_Privacy = Some ?priv, ur_Notifications = Some ?notif, ur_Appearance = Some ?appr\<rparr>) ?w
       = (w', Ok200 (Some ''light''))" "GetSettings (settings_io_ok 0) (signed_in ann) w' = (w', Ok200 resp)"
    "sr_Account resp = ?acct\<lparr>ac_Website := completeWebsite (ac_Website ?acct), ac_DateFormat := ''YYYY-MM-DD'', ac_TimeFormat := ''24h''\<rparr>"
    "sr_Privacy resp = ?priv\<lparr>pv_ShowEmail := False, pv_ShowActivity := True, pv_Searchable := True\<rparr>" by auto
  then show ?thesis by (intro exI [of _ ?w] exI [of _ w'] exI [of _ resp]) (simp add: completeWebsite_def)
qed

text \<open>The sections are saved one by one: a bad theme is reported although the profile has been changed.\<close>

lemma settings_partly_saved:
  assumes "length (ac_Bio acct) \<le> 500" "ap_Theme appr \<notin> set validThemes"
  shows "applySettingsUpdate (settings_io_ok now) u \<lparr>ur_Account = Some acct, ur_Privacy = None, ur_Notifications = None, ur_Appearance = Some appr\<rparr> db =
    (fst (updateAccountSettings (settings_io_ok now) u acct db), Some BadTheme)"
  using assms by (simp add: applySettingsUpdate_def then_section_def updateAccountSettings_def user_set_def updateAppearanceSettings_def)

text \<open>An account without a row of preferences: the update reports success and changes nothing, and the next reading creates the defaults.\<close>

lemma preferences_update_lost:
  assumes "u \<notin> pf_UserID ` set (ud_preferences db)"
  shows "updateNotificationSettings (settings_io_ok now) u notif db = (db, None)"
proof -
  have "sql_update (\<lambda>p. pf_UserID p = u) f (ud_preferences db) = ud_preferences db" for f
    using assms by (auto simp: sql_update_def image_iff intro!: map_idI)
  then show ?thesis by (simp add: updateNotificationSettings_def prefs_set_def)
qed

end
