(* ===== verification/Server_Settings.thy ===== *)
theory Server_Settings
  imports Sql_Table Dbtime Passwords "HOL-Library.List_Lexorder" "HOL-Library.Char_ord" "HOL-Library.Multiset"
begin

text \<open>
  The table \<^verbatim>\<open>server_config\<close> of the server database and what reads and writes it: \<^verbatim>\<open>src/server/model/settings.go\<close>, the settings
  API of \<^verbatim>\<open>src/server/handler/admin_settings.go\<close> and the ports of \<^verbatim>\<open>src/util/port.go\<close>. The columns \<^verbatim>\<open>updated_at\<close> and
  \<^verbatim>\<open>updated_by\<close>, which only pages show, are left out.
\<close>

section \<open>The table\<close>

record config_row =
  sc_key :: string
  sc_value :: "string option"
  sc_type :: "string option"
  sc_description :: "string option"

text \<open>\<open>INSERT ... ON CONFLICT(key) DO UPDATE SET ...\<close>: \<open>change\<close> is applied to the row of the key when there is one.\<close>

definition upsert :: "config_row \<Rightarrow> (config_row \<Rightarrow> config_row) \<Rightarrow> config_row list \<Rightarrow> config_row list" where
  "upsert fresh change rows =
     (if sql_lookup sc_key (sc_key fresh) rows = None then rows @ [fresh]
      else sql_update (\<lambda>r. sc_key r = sc_key fresh) change rows)"

text \<open>An upsert that sets the value alone: the type is written by the INSERT only.\<close>

definition put_value :: "string \<Rightarrow> string \<Rightarrow> string \<Rightarrow> string option \<Rightarrow> config_row list \<Rightarrow> config_row list" where
  "put_value key value type description rows =
     upsert \<lparr>sc_key = key, sc_value = Some value, sc_type = Some type, sc_description = description\<rparr> (\<lambda>r. r\<lparr>sc_value := Some value\<rparr>) rows"

section \<open>The settings model\<close>

record Setting =
  st_ID :: int
  st_Key :: string
  st_Value :: string
  st_Type :: string
  st_Description :: string
  st_Category :: string

datatype setting_error = SettingNotFound | SettingQueryFailed

definition scan_setting :: "config_row \<Rightarrow> Setting option" where
  "scan_setting r =
     (case (sc_value r, sc_type r) of
        (Some v, Some t) \<Rightarrow> Some \<lparr>st_ID = 0, st_Key = sc_key r, st_Value = v, st_Type = t, st_Description = [], st_Category = []\<rparr>
      | _ \<Rightarrow> None)"

definition GetSetting :: "bool \<Rightarrow> string \<Rightarrow> config_row list \<Rightarrow> setting_error + Setting" where
  "GetSetting ok key rows =
     (if \<not> ok then Inl SettingQueryFailed
      else case sql_lookup sc_key key rows of
        None \<Rightarrow> Inl SettingNotFound
      | Some r \<Rightarrow> (case scan_setting r of None \<Rightarrow> Inl SettingQueryFailed | Some s \<Rightarrow> Inr s))"

definition GetString :: "bool \<Rightarrow> string \<Rightarrow> string \<Rightarrow> config_row list \<Rightarrow> string" where
  "GetString ok key defaultValue rows = (case GetSetting ok key rows of Inl _ \<Rightarrow> defaultValue | Inr s \<Rightarrow> st_Value s)"

text \<open>
  \<open>fmt.Sscanf\<close> with \<^verbatim>\<open>%d\<close>: white space is skipped, but a line feed is an error; a sign and the longest run of digits follow, and
  the rest of the text is not looked at.
\<close>

definition scan_number :: "bool \<Rightarrow> string \<Rightarrow> int option" where
  "scan_number neg s =
     (let ds = takeWhile is_digit s; v = (if neg then - digits_val ds else digits_val ds)
      in if ds \<noteq> [] \<and> in_int64 v then Some v else None)"

definition sscanf_d :: "string \<Rightarrow> int option" where
  "sscanf_d s =
     (case scan_skip s of
        None \<Rightarrow> None
      | Some [] \<Rightarrow> None
      | Some (c # r) \<Rightarrow>
          if c = CHR ''-'' then scan_number True r else if c = CHR ''+'' then scan_number False r else scan_number False (c # r))"

definition GetInt :: "bool \<Rightarrow> string \<Rightarrow> int \<Rightarrow> config_row list \<Rightarrow> int" where
  "GetInt ok key defaultValue rows =
     (case GetSetting ok key rows of
        Inl _ \<Rightarrow> defaultValue
      | Inr s \<Rightarrow> (case sscanf_d (st_Value s) of None \<Rightarrow> defaultValue | Some v \<Rightarrow> v))"

definition GetBool :: "bool \<Rightarrow> string \<Rightarrow> bool \<Rightarrow> config_row list \<Rightarrow> bool" where
  "GetBool ok key defaultValue rows =
     (case GetSetting ok key rows of Inl _ \<Rightarrow> defaultValue | Inr s \<Rightarrow> st_Value s = ''true'' \<or> st_Value s = ''1'')"

text \<open>\<open>decode\<close> is \<open>json.Unmarshal\<close> into the destination.\<close>

definition GetJSON :: "(string \<Rightarrow> 'a option) \<Rightarrow> bool \<Rightarrow> string \<Rightarrow> config_row list \<Rightarrow> 'a option" where
  "GetJSON decode ok key rows = (case GetSetting ok key rows of Inl _ \<Rightarrow> None | Inr s \<Rightarrow> decode (st_Value s))"

text \<open>The writers return the table and whether the statement succeeded.\<close>

definition SetSetting :: "bool \<Rightarrow> string \<Rightarrow> string \<Rightarrow> string \<Rightarrow> config_row list \<Rightarrow> config_row list \<times> bool" where
  "SetSetting ok key value type rows =
     (if \<not> ok then (rows, False)
      else (upsert \<lparr>sc_key = key, sc_value = Some value, sc_type = Some type, sc_description = None\<rparr>
              (\<lambda>r. r\<lparr>sc_value := Some value, sc_type := Some type\<rparr>) rows, True))"

definition SetWithDescription :: "bool \<Rightarrow> string \<Rightarrow> string \<Rightarrow> string \<Rightarrow> string \<Rightarrow> config_row list \<Rightarrow> config_row list \<times> bool" where
  "SetWithDescription ok key value type description rows =
     (if \<not> ok then (rows, False)
      else (upsert \<lparr>sc_key = key, sc_value = Some value, sc_type = Some type, sc_description = Some description\<rparr>
              (\<lambda>r. r\<lparr>sc_value := Some value, sc_type := Some type, sc_description := Some description\<rparr>) rows, True))"

definition SetString :: "bool \<Rightarrow> string \<Rightarrow> string \<Rightarrow> config_row list \<Rightarrow> config_row list \<times> bool" where
  "SetString ok key value rows = SetSetting ok key value ''string'' rows"

definition SetInt :: "bool \<Rightarrow> string \<Rightarrow> int \<Rightarrow> config_row list \<Rightarrow> config_row list \<times> bool" where
  "SetInt ok key value rows = SetSetting ok key (itoa value) ''number'' rows"

definition SetBool :: "bool \<Rightarrow> string \<Rightarrow> bool \<Rightarrow> config_row list \<Rightarrow> config_row list \<times> bool" where
  "SetBool ok key value rows = SetSetting ok key (if value then ''true'' else ''false'') ''boolean'' rows"

definition SetJSON :: "('a \<Rightarrow> string option) \<Rightarrow> bool \<Rightarrow> string \<Rightarrow> 'a \<Rightarrow> config_row list \<Rightarrow> config_row list \<times> bool" where
  "SetJSON encode ok key value rows =
     (case encode value of None \<Rightarrow> (rows, False) | Some json \<Rightarrow> SetSetting ok key json ''json'' rows)"

definition DeleteSetting :: "bool \<Rightarrow> string \<Rightarrow> config_row list \<Rightarrow> config_row list \<times> bool" where
  "DeleteSetting ok key rows = (if ok then (sql_delete (\<lambda>r. sc_key r = key) rows, True) else (rows, False))"

text \<open>A listing fails as a whole at the first row with a NULL.\<close>

definition ListSettings :: "bool \<Rightarrow> config_row list \<Rightarrow> Setting list option" where
  "ListSettings ok rows = (if ok then those (map scan_setting (sort_key sc_key rows)) else None)"

text \<open>\<open>LIKE\<close> of SQLite, on ASCII: letters match in either case, an underscore any character and a percent sign any text.\<close>

fun sql_like :: "string \<Rightarrow> string \<Rightarrow> bool" where
  "sql_like [] s \<longleftrightarrow> s = []"
| "sql_like (p # ps) [] \<longleftrightarrow> p = CHR ''%'' \<and> sql_like ps []"
| "sql_like (p # ps) (c # s) \<longleftrightarrow>
     (if p = CHR ''%'' then sql_like ps (c # s) \<or> sql_like (p # ps) s
      else (p = CHR ''_'' \<or> lower_ascii p = lower_ascii c) \<and> sql_like ps s)"

definition ListByPrefix :: "bool \<Rightarrow> string \<Rightarrow> config_row list \<Rightarrow> Setting list option" where
  "ListByPrefix ok pre rows =
     (if ok then those (map scan_setting (sort_key sc_key (filter (\<lambda>r. sql_like (pre @ ''%'') (sc_key r)) rows))) else None)"

section \<open>Defaults\<close>

abbreviation newline :: char where "newline \<equiv> CHR 0x0A"

abbreviation apostrophe :: char where "apostrophe \<equiv> CHR 0x27"

text \<open>
  The defaults as key, value, type and description; the backup path and the text of \<^verbatim>\<open>security.txt\<close>, which has the contact address
  and a date a year ahead, are arguments.
\<close>

definition default_settings :: "string \<Rightarrow> string \<Rightarrow> (string \<times> string \<times> string \<times> string) list" where
  "default_settings backupPath security_txt =
     [
      (''server.title'', ''Weather'', ''string'', ''Application display name shown in the header and page titles''),
      (''server.tagline'', ''Your personal weather dashboard'', ''string'', ''Short subtitle or slogan displayed under the title''),
      (''server.description'', ''A comprehensive platform for weather forecasts, moon phases, earthquakes, and hurricane tracking.'', ''string'', ''Full description shown on about page and in meta tags''),
      (''server.port'', ''64580'', ''number'', ''Server listen port (requires restart to apply)''),
      (''server.mode'', ''production'', ''string'', ''Server mode: production or development (requires restart)''),
      (''server.fqdn'', [], ''string'', ''Fully qualified domain name (auto-detected if empty)''),
      (''server.address'', ''[::]'', ''string'', ''Server listen address ([::] for all IPv4/IPv6, requires restart)''),
      (''server.daemonize'', ''false'', ''boolean'', ''Detach from terminal on start (requires restart, not for systemd/docker)''),
      (''server.pidfile'', ''true'', ''boolean'', ''Create PID file for process management (requires restart)''),
      (''server.http_port'', ''0'', ''number'', ''HTTP port number (requires restart to apply)''),
      (''server.https_port'', ''0'', ''number'', ''HTTPS port number (0 to disable, requires restart)''),
      (''server.https_enabled'', ''false'', ''boolean'', ''Enable HTTPS/TLS connections''),
      (''server.timezone'', ''America/New_York'', ''string'', ''Default server timezone for date/time display''),
      (''server.date_format'', ''US'', ''string'', ''Date format: US (Jan 1, 2024), EU (1 Jan 2024), or ISO (2024-01-01)''),
      (''server.time_format'', ''12-hour'', ''string'', ''Time format: 12-hour (3:30 PM) or 24-hour (15:30)''),
      (''security.session_timeout'', ''2592000'', ''number'', ''Session timeout in seconds (default: 2592000 = 30 days)''),
      (''security.max_login_attempts'', ''5'', ''number'', ''Maximum failed login attempts before account lockout''),
      (''security.lockout_duration'', ''30'', ''number'', ''Account lockout duration in minutes after max login attempts''),
      (''security.password_min_length'', ''8'', ''number'', ''Minimum required password length for user accounts''),
      (''security.contact'', [], ''string'', ''Security contact (email, URL, or phone) - comma separated for multiple''),
      (''security.expires'', [], ''string'', ''security.txt expiration date (RFC3339 format) - auto-renewed yearly''),
      (''security.languages'', ''en'', ''string'', ''Preferred languages for security reports (comma separated)''),
      (''security.canonical'', [], ''string'', ''Canonical URL for security.txt - auto-generated if empty''),
      (''security.encryption'', [], ''string'', ''PGP key URL for encrypted communications (optional)''),
      (''security.acknowledgments'', [], ''string'', ''URL to security acknowledgments/hall of fame (optional)''),
      (''security.policy'', [], ''string'', ''URL to security policy/disclosure policy (optional)''),
      (''security.hiring'', [], ''string'', ''URL to security job postings (optional)''),
      (''app.name'', ''Weather'', ''string'', ''Alias for server.title - Application display name''),
      (''app.tagline'', ''Your personal weather dashboard'', ''string'', ''Alias for server.tagline - Short subtitle''),
      (''app.description'', ''A comprehensive platform for weather forecasts, moon phases, earthquakes, and hurricane tracking.'', ''string'', ''Alias for server.description - Full description''),
      (''seo.keywords'', ''weather, forecast, alerts, temperature, humidity, precipitation'', ''string'', ''Meta keywords for search engines (comma-separated)''),
      (''seo.author'', [], ''string'', ''Website author or organization name''),
      (''seo.og_image'', [], ''string'', ''Social media preview image URL (1200x630px recommended)''),
      (''web.robots_txt'', (''User-agent: *'' @ [newline] @ ''Allow: /'' @ [newline] @ ''Disallow: /admin/'' @ [newline] @ ''Disallow: /api/'' @ [newline] @ ''Sitemap: {app_url}/sitemap.xml''), ''text'', ''robots.txt content - {app_url} will be replaced with actual URL''),
      (''web.security_txt'', security_txt, ''text'', ''security.txt content (RFC 9116) - {app_url} will be replaced with actual URL''),
      (''features.registration_enabled'', ''true'', ''boolean'', ''Allow new users to register accounts''),
      (''features.api_enabled'', ''true'', ''boolean'', ''Enable JSON API endpoints''),
      (''features.weather_alerts'', ''true'', ''boolean'', ''Enable weather alert notifications''),
      (''database.pool_size'', ''25'', ''number'', ''Maximum database connection pool size''),
      (''database.timeout'', ''30'', ''number'', ''Database query timeout in seconds''),
      (''database.auto_optimize'', ''false'', ''boolean'', ''Automatically optimize database weekly''),
      (''backup.enabled'', ''true'', ''boolean'', ''Enable automatic backup system''),
      (''backup.interval'', ''6'', ''number'', ''Backup interval in hours''),
      (''backup.retention'', ''30'', ''number'', ''Number of days to retain backups''),
      (''backup.location'', backupPath, ''string'', ''Directory path for storing backups''),
      (''logging.level'', ''info'', ''string'', ''Log level: debug, info, warn, error''),
      (''logging.format'', ''apache'', ''string'', ''Log format: apache, json, or plain''),
      (''logging.access_log'', ''true'', ''boolean'', ''Enable HTTP access logging''),
      (''logging.error_log'', ''true'', ''boolean'', ''Enable error logging''),
      (''logging.audit_log'', ''true'', ''boolean'', ''Enable audit logging for security events''),
      (''logging.rotation_days'', ''30'', ''number'', ''Number of days to retain log files before rotation''),
      (''smtp.enabled'', ''false'', ''boolean'', ''Enable email notifications via SMTP''),
      (''smtp.host'', [], ''string'', ''SMTP server hostname or IP address''),
      (''smtp.port'', ''587'', ''number'', ''SMTP server port (usually 587 for TLS, 465 for SSL)''),
      (''smtp.username'', [], ''string'', ''SMTP authentication username''),
      (''smtp.password'', [], ''string'', ''SMTP authentication password''),
      (''smtp.from_address'', [], ''string'', ''Email address to send notifications from''),
      (''smtp.from_name'', [], ''string'', ''Display name for sent emails''),
      (''smtp.encryption'', ''tls'', ''string'', ''Encryption method: tls (STARTTLS), ssl, or none''),
      (''smtp.use_tls'', ''true'', ''boolean'', ''Legacy: Use TLS/STARTTLS for secure SMTP connections''),
      (''smtp.test_recipient'', [], ''string'', ''Test email address for verifying SMTP configuration''),
      (''security.csp'', (''default-src '' @ [apostrophe] @ ''self'' @ [apostrophe] @ ''; script-src '' @ [apostrophe] @ ''self'' @ [apostrophe] @ '' '' @ [apostrophe] @ ''unsafe-inline'' @ [apostrophe] @ ''; style-src '' @ [apostrophe] @ ''self'' @ [apostrophe] @ '' '' @ [apostrophe] @ ''unsafe-inline'' @ [apostrophe] @ ''; img-src '' @ [apostrophe] @ ''self'' @ [apostrophe] @ '' data: https:;''), ''text'', ''Content-Security-Policy header value''),
      (''security.hsts'', ''max-age=31536000; includeSubDomains'', ''string'', ''Strict-Transport-Security header value''),
      (''security.x_frame_options'', ''DENY'', ''string'', ''X-Frame-Options header (DENY, SAMEORIGIN, or ALLOW-FROM)''),
      (''security.x_content_type'', ''nosniff'', ''string'', ''X-Content-Type-Options header''),
      (''security.referrer_policy'', ''strict-origin-when-cross-origin'', ''string'', ''Referrer-Policy header''),
      (''security.permissions_policy'', ''geolocation=(), microphone=(), camera=()'', ''text'', ''Permissions-Policy header''),
      (''security.cors_enabled'', ''false'', ''boolean'', ''Enable Cross-Origin Resource Sharing''),
      (''security.cors_origins'', ''*'', ''text'', ''Allowed CORS origins (one per line, or * for all)''),
      (''security.cors_methods'', ''GET, POST, PUT, DELETE, OPTIONS'', ''string'', ''Allowed HTTP methods for CORS''),
      (''security.cors_headers'', ''Content-Type, Authorization, X-Requested-With'', ''string'', ''Allowed request headers for CORS''),
      (''security.cors_credentials'', ''false'', ''boolean'', ''Allow credentials in CORS requests''),
      (''security.cors_max_age'', ''3600'', ''number'', ''CORS preflight cache duration in seconds''),
      (''rate_limit.enabled'', ''true'', ''boolean'', ''Enable rate limiting to prevent abuse''),
      (''rate_limit.global'', ''100'', ''number'', ''Global rate limit (requests per second)''),
      (''rate_limit.per_ip'', ''60'', ''number'', ''Per-IP rate limit (requests per minute)''),
      (''rate_limit.api'', ''120'', ''number'', ''API rate limit (requests per minute)''),
      (''rate_limit.admin'', ''300'', ''number'', ''Admin panel rate limit (requests per minute)''),
      (''rate_limit.window'', ''900'', ''number'', ''Rate limit window in seconds (default: 900 = 15 minutes)''),
      (''ssl.enabled'', ''false'', ''boolean'', ''Enable SSL/TLS for HTTPS connections''),
      (''ssl.cert_file'', [], ''string'', ''Path to SSL certificate file''),
      (''ssl.key_file'', [], ''string'', ''Path to SSL private key file''),
      (''ssl.acme_enabled'', ''false'', ''boolean'', (''Enable automatic certificate management via ACME (Let'' @ [apostrophe] @ ''s Encrypt)'')),
      (''ssl.acme_email'', [], ''string'', ''Email address for ACME certificate registration''),
      (''ssl.acme_provider'', ''letsencrypt'', ''string'', ''ACME provider: letsencrypt or zerossl''),
      (''weather.refresh_interval'', ''1800'', ''number'', ''Weather data refresh interval in seconds (default: 1800 = 30 minutes)''),
      (''weather.default_units'', ''auto'', ''string'', ''Default units: auto, metric, or imperial''),
      (''weather.cache_enabled'', ''true'', ''boolean'', ''Enable weather data caching for faster responses''),
      (''alerts.enabled'', ''true'', ''boolean'', ''Enable severe weather alert monitoring''),
      (''alerts.check_interval'', ''900'', ''number'', ''Alert check interval in seconds (default: 900 = 15 minutes)''),
      (''notifications.enabled'', ''true'', ''boolean'', ''Enable notification system''),
      (''notifications.queue_workers'', ''4'', ''number'', ''Number of notification queue worker threads''),
      (''notifications.retry_max'', ''3'', ''number'', ''Maximum retry attempts for failed notifications''),
      (''notifications.retry_backoff'', ''exponential'', ''string'', ''Retry backoff strategy: linear or exponential''),
      (''geoip.enabled'', ''true'', ''boolean'', ''Enable GeoIP location detection''),
      (''geoip.update_interval'', ''604800'', ''number'', ''GeoIP database update interval in seconds (default: 604800 = 7 days)''),
      (''cors.enabled'', ''true'', ''boolean'', ''Enable Cross-Origin Resource Sharing (CORS)''),
      (''cors.allowed_origins'', ''*'', ''string'', ''Allowed CORS origins (comma-separated, * for all)''),
      (''cors.allow_credentials'', ''true'', ''boolean'', ''Allow credentials in CORS requests''),
      (''cors.max_age'', ''43200'', ''number'', ''CORS preflight cache duration in seconds (default: 43200 = 12 hours)''),
      (''scheduler.enabled'', ''true'', ''boolean'', ''Enable scheduled task system''),
      (''scheduler.cleanup_sessions_interval'', ''3600'', ''number'', ''Session cleanup interval in seconds (default: 3600 = 1 hour)''),
      (''scheduler.cleanup_audit_logs_days'', ''90'', ''number'', ''Audit log retention in days''),
      (''scheduler.weather_alerts_interval'', ''900'', ''number'', ''Weather alerts check interval in seconds (default: 900 = 15 minutes)''),
      (''scheduler.notification_queue_interval'', ''120'', ''number'', ''Notification queue processing interval in seconds (default: 120 = 2 minutes)''),
      (''scheduler.cleanup_notifications_days'', ''30'', ''number'', ''Notification retention in days''),
      (''scheduler.geoip_update_day'', ''sunday'', ''string'', ''Day of week for GeoIP database updates''),
      (''scheduler.geoip_update_time'', ''03:00'', ''string'', ''Time for GeoIP database updates (HH:MM format)''),
      (''tor.enabled'', ''true'', ''boolean'', ''Enable Tor hidden service (.onion address)''),
      (''tor.onion_address'', [], ''string'', ''Tor hidden service .onion address (auto-generated)''),
      (''tor.socks_port'', ''9050'', ''number'', ''Tor SOCKS5 proxy port''),
      (''tor.control_port'', ''9051'', ''number'', ''Tor control port''),
      (''tor.data_dir'', [], ''string'', ''Tor data directory (auto-set to {data_dir}/tor)''),
      (''history.enabled'', ''true'', ''boolean'', ''Enable historical weather data feature''),
      (''history.default_years'', ''10'', ''number'', ''Default number of years to display in historical view (5-50)''),
      (''history.min_years'', ''5'', ''number'', ''Minimum number of years allowed for historical queries''),
      (''history.max_years'', ''50'', ''number'', ''Maximum number of years allowed for historical queries'')
     ]"

definition default_backup_path :: "string \<Rightarrow> string" where
  "default_backup_path backupPath = (if backupPath = [] then ''/data/backups'' else backupPath)"

text \<open>
  The loop over the map of defaults, in the order in which the map is iterated; \<open>reads\<close> and \<open>writes\<close> say for which keys the
  statements succeed. The first failing write ends it.
\<close>

fun defaults_loop ::
  "(string \<Rightarrow> bool) \<Rightarrow> (string \<Rightarrow> bool) \<Rightarrow> (string \<times> string \<times> string \<times> string) list \<Rightarrow> config_row list \<Rightarrow> config_row list \<times> bool" where
  "defaults_loop reads writes [] rows = (rows, True)"
| "defaults_loop reads writes ((key, value, type, description) # rest) rows =
     (if GetSetting (reads key) key rows = Inl SettingNotFound then
        (case SetWithDescription (writes key) key value type description rows of
           (rows', True) \<Rightarrow> defaults_loop reads writes rest rows'
         | (rows', False) \<Rightarrow> (rows', False))
      else defaults_loop reads writes rest rows)"

definition InitializeDefaults ::
  "(string \<Rightarrow> bool) \<Rightarrow> (string \<Rightarrow> bool) \<Rightarrow> ((string \<times> string \<times> string \<times> string) list \<Rightarrow> (string \<times> string \<times> string \<times> string) list)
    \<Rightarrow> string \<Rightarrow> string \<Rightarrow> config_row list \<Rightarrow> config_row list \<times> bool" where
  "InitializeDefaults reads writes order security_txt backupPath rows =
     defaults_loop reads writes (order (default_settings (default_backup_path backupPath) security_txt)) rows"

section \<open>The settings API\<close>

datatype setting_json = SettingBool bool | SettingString string | SettingOther string

text \<open>\<open>SettingOther\<close> is a value with the text \<open>json.Marshal\<close> gives for it.\<close>

definition setting_text :: "setting_json \<Rightarrow> string" where
  "setting_text v = (case v of SettingBool b \<Rightarrow> if b then ''true'' else ''false'' | SettingString s \<Rightarrow> s | SettingOther s \<Rightarrow> s)"

definition update_value :: "string \<Rightarrow> string \<Rightarrow> config_row list \<Rightarrow> config_row list" where
  "update_value key value rows = sql_update (\<lambda>r. sc_key r = key) (\<lambda>r. r\<lparr>sc_value := Some value\<rparr>) rows"

text \<open>The keys that were applied and those that failed, over the map of the request in its iteration order.\<close>

fun update_loop ::
  "(string \<Rightarrow> bool) \<Rightarrow> (string \<times> setting_json) list \<Rightarrow> config_row list \<Rightarrow> config_row list \<times> string list \<times> string list" where
  "update_loop ok [] rows = (rows, [], [])"
| "update_loop ok ((key, value) # rest) rows =
     (if \<not> ok key then (let (rows', applied, failed) = update_loop ok rest rows in (rows', applied, key # failed))
      else let hit = 0 < affected (\<lambda>r. sc_key r = key) rows;
               (rows', applied, failed) = update_loop ok rest (update_value key (setting_text value) rows)
           in if hit then (rows', key # applied, failed) else (rows', applied, key # failed))"

definition AdminUpdateSettings ::
  "(string \<Rightarrow> bool) \<Rightarrow> (string \<times> setting_json) list option \<Rightarrow> config_row list \<Rightarrow> config_row list \<times> (string list \<times> string list) option" where
  "AdminUpdateSettings ok body rows =
     (case body of
        None \<Rightarrow> (rows, None)
      | Some settings \<Rightarrow> (let (rows', applied, failed) = update_loop ok settings rows in (rows', Some (applied, failed))))"

text \<open>The part of a key before its first dot; a key without one belongs to \<^verbatim>\<open>other\<close>.\<close>

definition setting_category :: "string \<Rightarrow> string" where
  "setting_category key = (case cut_char CHR ''.'' key of (before, Some _) \<Rightarrow> before | (_, None) \<Rightarrow> ''other'')"

datatype 'n parsed_value = ParsedBool bool | ParsedNumber 'n | ParsedJson string | ParsedText string

definition parse_setting :: "(string \<Rightarrow> 'n) \<Rightarrow> string \<Rightarrow> string \<Rightarrow> 'n parsed_value" where
  "parse_setting number type value =
     (if type = ''boolean'' then ParsedBool (value = ''true'')
      else if type = ''number'' then ParsedNumber (number value)
      else if type = ''json'' then ParsedJson value
      else ParsedText value)"

text \<open>\<open>GetAllSettings\<close>: category, key, value and description of every row that can be scanned.\<close>

definition GetAllSettings :: "(string \<Rightarrow> 'n) \<Rightarrow> bool \<Rightarrow> config_row list \<Rightarrow> (string \<times> string \<times> 'n parsed_value \<times> string) list option" where
  "GetAllSettings number ok rows =
     (if \<not> ok then None
      else Some (map (\<lambda>r. (setting_category (sc_key r), sc_key r, parse_setting number (the (sc_type r)) (the (sc_value r)),
                           case sc_description r of None \<Rightarrow> [] | Some d \<Rightarrow> d))
                  (filter (\<lambda>r. sc_value r \<noteq> None \<and> sc_type r \<noteq> None) (sort_key sc_key rows))))"

record reset_io =
  rs_read_ok :: bool
  rs_begin_ok :: bool
  rs_delete_ok :: bool
  rs_commit_ok :: bool
  rs_reads :: "string \<Rightarrow> bool"
  rs_writes :: "string \<Rightarrow> bool"

definition ResetSettings ::
  "reset_io \<Rightarrow> ((string \<times> string \<times> string \<times> string) list \<Rightarrow> (string \<times> string \<times> string \<times> string) list) \<Rightarrow> string \<Rightarrow> config_row list \<Rightarrow> config_row list \<times> bool" where
  "ResetSettings io order security_txt rows =
     (let backupPath = GetString (rs_read_ok io) ''backup.location'' ''/data/backups'' rows in
      if \<not> rs_begin_ok io \<or> \<not> rs_delete_ok io \<or> \<not> rs_commit_ok io then (rows, False)
      else InitializeDefaults (rs_reads io) (rs_writes io) order security_txt backupPath [])"

definition ExportSettings :: "bool \<Rightarrow> config_row list \<Rightarrow> (string \<times> string) list option" where
  "ExportSettings ok rows =
     (if ok then Some (map (\<lambda>r. (sc_key r, the (sc_value r))) (filter (\<lambda>r. sc_value r \<noteq> None) (sort_key sc_key rows))) else None)"

fun import_loop :: "(string \<Rightarrow> bool) \<Rightarrow> (string \<times> string) list \<Rightarrow> config_row list \<Rightarrow> config_row list \<times> nat" where
  "import_loop ok [] rows = (rows, 0)"
| "import_loop ok ((key, value) # rest) rows =
     (if ok key then (case import_loop ok rest (update_value key value rows) of (rows', n) \<Rightarrow> (rows', n + 1))
      else import_loop ok rest rows)"

text \<open>The numbers in the answer: imported settings and settings of the request.\<close>

definition ImportSettings ::
  "(string \<Rightarrow> bool) \<Rightarrow> (string \<times> string) list option \<Rightarrow> config_row list \<Rightarrow> config_row list \<times> (nat \<times> nat) option" where
  "ImportSettings ok body rows =
     (case body of
        None \<Rightarrow> (rows, None)
      | Some settings \<Rightarrow> (case import_loop ok settings rows of (rows', n) \<Rightarrow> (rows', Some (n, length settings))))"

definition AdminUpdateSetting :: "bool \<Rightarrow> string \<Rightarrow> string option \<Rightarrow> config_row list \<Rightarrow> config_row list \<times> nat" where
  "AdminUpdateSetting ok key body rows =
     (case body of
        None \<Rightarrow> (rows, 400)
      | Some value \<Rightarrow> if value = [] then (rows, 400) else if \<not> ok then (rows, 500) else (update_value key value rows, 200))"

section \<open>Ports\<close>

definition MinPort :: int where "MinPort = 64000"

definition MaxPort :: int where "MaxPort = 64999"

text \<open>A column read into an \<^verbatim>\<open>int\<close>: the driver's text is parsed as a decimal number.\<close>

definition scan_int :: "bool \<Rightarrow> string \<Rightarrow> config_row list \<Rightarrow> int option" where
  "scan_int ok key rows =
     (if \<not> ok then None else case sql_lookup sc_key key rows of None \<Rightarrow> None | Some r \<Rightarrow> Option.bind (sc_value r) atoi)"

definition getIntSetting :: "bool \<Rightarrow> string \<Rightarrow> int \<Rightarrow> config_row list \<Rightarrow> int" where
  "getIntSetting ok key defaultValue rows = (case scan_int ok key rows of None \<Rightarrow> defaultValue | Some v \<Rightarrow> v)"

definition setIntSetting :: "bool \<Rightarrow> string \<Rightarrow> int \<Rightarrow> config_row list \<Rightarrow> config_row list" where
  "setIntSetting ok key value rows = (if ok then put_value key (itoa value) ''integer'' None rows else rows)"

definition setBoolSetting :: "bool \<Rightarrow> string \<Rightarrow> bool \<Rightarrow> config_row list \<Rightarrow> config_row list" where
  "setBoolSetting ok key value rows = (if ok then put_value key (if value then ''true'' else ''false'') ''boolean'' None rows else rows)"

text \<open>
  \<open>pi_available\<close> says which ports can be bound during the call, \<open>pi_random\<close> are the 32-bit numbers drawn. A failing source of
  randomness panics and is not modelled.
\<close>

record port_io =
  pi_available :: "int \<Rightarrow> bool"
  pi_random :: "nat \<Rightarrow> nat"
  pi_read_ok :: "string \<Rightarrow> bool"
  pi_write_ok :: "string \<Rightarrow> bool"
  pi_PORT :: string

fun random_port_loop :: "port_io \<Rightarrow> nat \<Rightarrow> nat \<Rightarrow> int option" where
  "random_port_loop io i 0 = None"
| "random_port_loop io i (Suc n) =
     (let port = int (pi_random io i) mod (MaxPort - MinPort + 1) + MinPort
      in if pi_available io port then Some port else random_port_loop io (i + 1) n)"

definition GetRandomAvailablePort :: "port_io \<Rightarrow> int option" where
  "GetRandomAvailablePort io = random_port_loop io 0 100"

definition port_key :: "string \<Rightarrow> string" where "port_key portType = ''server.port.'' @ portType"

definition GetOrAssignPort :: "port_io \<Rightarrow> string \<Rightarrow> config_row list \<Rightarrow> config_row list \<times> int option" where
  "GetOrAssignPort io portType rows =
     (let key = port_key portType; saved = scan_int (pi_read_ok io key) key rows in
      if saved \<noteq> None \<and> 0 < the saved \<and> pi_available io (the saved) then (rows, saved)
      else case GetRandomAvailablePort io of
        None \<Rightarrow> (rows, None)
      | Some newPort \<Rightarrow>
          if \<not> pi_write_ok io key then (rows, None)
          else (put_value key (itoa newPort) ''integer'' (Some (''Auto-assigned '' @ portType @ '' port'')) rows, Some newPort))"

definition SavePort :: "bool \<Rightarrow> string \<Rightarrow> int \<Rightarrow> config_row list \<Rightarrow> config_row list \<times> bool" where
  "SavePort ok portType port rows =
     (if ok then (put_value (port_key portType) (itoa port) ''integer'' (Some (portType @ '' port'')) rows, True) else (rows, False))"

definition GetSavedPort :: "bool \<Rightarrow> string \<Rightarrow> config_row list \<Rightarrow> int option" where
  "GetSavedPort ok portType rows = scan_int ok (port_key portType) rows"

definition set_int :: "port_io \<Rightarrow> string \<Rightarrow> int \<Rightarrow> config_row list \<Rightarrow> config_row list" where
  "set_int io key value rows = setIntSetting (pi_write_ok io key) key value rows"

definition set_bool :: "port_io \<Rightarrow> string \<Rightarrow> bool \<Rightarrow> config_row list \<Rightarrow> config_row list" where
  "set_bool io key value rows = setBoolSetting (pi_write_ok io key) key value rows"

definition ParsePortConfig :: "port_io \<Rightarrow> string \<Rightarrow> config_row list \<Rightarrow> config_row list \<times> (int \<times> int) option" where
  "ParsePortConfig io portStr rows =
     (let parts = split_char CHR '','' portStr in
      case atoi (trimSpace (hd parts)) of
        None \<Rightarrow> (rows, None)
      | Some httpPort \<Rightarrow>
          if \<not> pi_available io httpPort then (rows, None)
          else if length parts = 1 then
            (set_int io ''server.https_port'' 0 (set_int io ''server.http_port'' httpPort rows), Some (httpPort, 0))
          else case atoi (trimSpace (parts ! 1)) of
            None \<Rightarrow> (rows, None)
          | Some httpsPort \<Rightarrow>
              if \<not> pi_available io httpsPort then (rows, None)
              else let saved = set_bool io ''server.https_enabled'' True
                                 (set_int io ''server.https_port'' httpsPort (set_int io ''server.http_port'' httpPort rows))
                   in (if httpPort = 80 \<and> httpsPort = 443 then set_bool io ''server.letsencrypt_enabled'' True saved else saved,
                       Some (httpPort, httpsPort)))"

definition GetServerPortsWithConfig :: "port_io \<Rightarrow> int \<Rightarrow> config_row list \<Rightarrow> config_row list \<times> (int \<times> int) option" where
  "GetServerPortsWithConfig io configPort rows =
     (let httpPort = getIntSetting (pi_read_ok io ''server.http_port'') ''server.http_port'' 0 rows;
          httpsPort = getIntSetting (pi_read_ok io ''server.https_port'') ''server.https_port'' 0 rows in
      if 0 < httpPort \<and> pi_available io httpPort then (rows, Some (httpPort, httpsPort))
      else if 0 < configPort \<and> pi_available io configPort then
        (set_int io ''server.http_port'' configPort rows, Some (configPort, 0))
      else if pi_PORT io \<noteq> [] then ParsePortConfig io (pi_PORT io) rows
      else case GetRandomAvailablePort io of
        None \<Rightarrow> (rows, None)
      | Some randomPort \<Rightarrow>
          (set_int io ''server.https_port'' 0 (set_int io ''server.http_port'' randomPort rows), Some (randomPort, 0)))"

definition GetServerPorts :: "port_io \<Rightarrow> config_row list \<Rightarrow> config_row list \<times> (int \<times> int) option" where
  "GetServerPorts io rows = GetServerPortsWithConfig io 0 rows"

definition UpdatePort :: "port_io \<Rightarrow> int \<Rightarrow> int \<Rightarrow> config_row list \<Rightarrow> config_row list \<times> bool" where
  "UpdatePort io httpPort httpsPort rows =
     (if \<not> pi_available io httpPort then (rows, False)
      else let rows1 = set_int io ''server.http_port'' httpPort rows in
        if 0 < httpsPort then
          if \<not> pi_available io httpsPort then (rows1, False)
          else (set_bool io ''server.https_enabled'' True (set_int io ''server.https_port'' httpsPort rows1), True)
        else (set_bool io ''server.https_enabled'' False (set_int io ''server.https_port'' 0 rows1), True))"

text \<open>\<open>GetServerAddress\<close>, given the address of the machine.\<close>

definition GetServerAddress :: "string \<Rightarrow> int \<Rightarrow> bool \<Rightarrow> string" where
  "GetServerAddress ip port https =
     (let protocol = (if https then ''https'' else ''http'') in
      if (\<not> https \<and> port = 80) \<or> (https \<and> port = 443) then protocol @ ''://'' @ ip
      else protocol @ ''://'' @ ip @ '':'' @ itoa port)"

section \<open>Rows under writes\<close>

lemma upsert_lookup:
  assumes "\<And>r. sc_key (change r) = sc_key r"
  shows "sql_lookup sc_key k (upsert fresh change rows) =
    (if k = sc_key fresh then Some (case sql_lookup sc_key k rows of None \<Rightarrow> fresh | Some r \<Rightarrow> change r) else sql_lookup sc_key k rows)"
proof (cases "sql_lookup sc_key (sc_key fresh) rows")
  case None
  then show ?thesis by (auto simp: upsert_def sql_lookup_append split: option.split)
next
  case (Some q)
  have "sql_lookup sc_key k (upsert fresh change rows) =
      map_option (\<lambda>r. if sc_key r = sc_key fresh then change r else r) (sql_lookup sc_key k rows)"
    using Some assms by (simp add: upsert_def sql_update_lookup)
  with Some show ?thesis by (cases "sql_lookup sc_key k rows") (auto dest: sql_lookup_Some)
qed

lemma put_value_lookup:
  "sql_lookup sc_key k (put_value key value type description rows) =
    (if k = key then Some (case sql_lookup sc_key k rows of
        None \<Rightarrow> \<lparr>sc_key = key, sc_value = Some value, sc_type = Some type, sc_description = description\<rparr>
      | Some r \<Rightarrow> r\<lparr>sc_value := Some value\<rparr>) else sql_lookup sc_key k rows)"
  by (simp add: put_value_def upsert_lookup)

lemma GetSetting_put:
  assumes "sql_lookup sc_key k rows = Some r" "sc_value r = Some v" "sc_type r = Some t"
  shows "\<exists>s. GetSetting True k rows = Inr s \<and> st_Value s = v"
  using assms by (simp add: GetSetting_def scan_setting_def)

lemma SetSetting_lookup:
  "sql_lookup sc_key k (fst (SetSetting True key value type rows)) =
    (if k = key then Some (case sql_lookup sc_key k rows of
        None \<Rightarrow> \<lparr>sc_key = key, sc_value = Some value, sc_type = Some type, sc_description = None\<rparr>
      | Some r \<Rightarrow> r\<lparr>sc_value := Some value, sc_type := Some type\<rparr>) else sql_lookup sc_key k rows)"
  by (simp add: SetSetting_def upsert_lookup)

lemma SetSetting_value: "\<exists>s. GetSetting True key (fst (SetSetting True key value type rows)) = Inr s \<and> st_Value s = value"
  by (rule GetSetting_put [where r = "the (sql_lookup sc_key key (fst (SetSetting True key value type rows)))" and t = type])
    (simp_all add: SetSetting_lookup split: option.split)

lemma GetSetting_frame:
  "k \<noteq> key \<Longrightarrow> GetSetting ok k (fst (SetSetting True key value type rows)) = GetSetting ok k rows"
  by (simp add: GetSetting_def SetSetting_lookup)

lemma scan_skip_id: "space_at s = 0 \<Longrightarrow> scan_skip s = Some s"
  by (subst scan_skip.simps) simp

lemma digit_no_space: "is_digit c \<Longrightarrow> space_at (c # s) = 0"
  by (cases s; cases "tl s") (auto simp: is_digit_def ascii_space_def space_rune2_def space_rune3_def)

lemma minus_no_space: "space_at (CHR ''-'' # s) = 0"
  by (cases s; cases "tl s") (auto simp: ascii_space_def space_rune2_def space_rune3_def)

lemma scan_minus: "scan_skip (CHR ''-'' # s) = Some (CHR ''-'' # s)"
  by (rule scan_skip_id [OF minus_no_space])

lemma scan_digit: "is_digit c \<Longrightarrow> scan_skip (c # s) = Some (c # s)"
  by (rule scan_skip_id [OF digit_no_space])

lemma takeWhile_digits: "list_all is_digit s \<Longrightarrow> takeWhile is_digit s = s"
  by (induction s) auto

lemma sscanf_d_itoa: "in_int64 v \<Longrightarrow> sscanf_d (itoa v) = Some v"
proof -
  assume r: "in_int64 v"
  obtain c ds where p: "nat_digits n = c # ds" "is_digit c" if "n = nat \<bar>v\<bar>" for n
    using nat_digits_props [of "nat \<bar>v\<bar>"] by (cases "nat_digits (nat \<bar>v\<bar>)") auto
  have q: "nat_digits (nat \<bar>v\<bar>) = c # ds" "is_digit c" using p by auto
  have d: "takeWhile is_digit (nat_digits n) = nat_digits n" "digits_val (nat_digits n) = int n" "nat_digits n \<noteq> []" for n
    using nat_digits_props [of n] takeWhile_digits by auto
  show ?thesis
  proof (cases "v < 0")
    case True
    then have "itoa v = CHR ''-'' # nat_digits (nat \<bar>v\<bar>)" by (simp add: itoa_def)
    with True r d [of "nat \<bar>v\<bar>"] show ?thesis by (simp add: sscanf_d_def scan_minus scan_number_def Let_def del: takeWhile_eq_all_conv)
  next
    case False
    then have i: "itoa v = nat_digits (nat \<bar>v\<bar>)" by (simp add: itoa_def)
    have "c \<noteq> CHR ''-''" "c \<noteq> CHR ''+''" using q(2) by (auto simp: is_digit_def)
    with False r i q d [of "nat \<bar>v\<bar>"] show ?thesis
      by (simp add: sscanf_d_def scan_digit scan_number_def Let_def del: takeWhile_eq_all_conv)
  qed
qed

text \<open>
  The typed settings. After a successful \<open>SetString\<close>, \<open>SetInt\<close>, \<open>SetBool\<close> or \<open>SetJSON\<close> the reader of the
  same type answers with the value that was set, whatever row the key had before, and every other setting reads as before.
\<close>

lemma settings_typed_round_trip:
  assumes "in_int64 v" "encode x = Some json" "decode json = Some x"
  shows "GetString True key d (fst (SetString True key s rows)) = s \<and>
    GetInt True key di (fst (SetInt True key v rows)) = v \<and>
    GetBool True key db (fst (SetBool True key b rows)) = b \<and>
    GetJSON decode True key (fst (SetJSON encode True key x rows)) = Some x \<and>
    (k = key \<or> GetSetting ok k (fst (SetString True key s rows)) = GetSetting ok k rows \<and>
      GetSetting ok k (fst (SetInt True key v rows)) = GetSetting ok k rows \<and>
      GetSetting ok k (fst (SetBool True key b rows)) = GetSetting ok k rows \<and>
      GetSetting ok k (fst (SetJSON encode True key x rows)) = GetSetting ok k rows)"
proof -
  have val: "\<exists>q. GetSetting True key (fst (SetSetting True key val tp rows)) = Inr q \<and> st_Value q = val" for val tp
    by (rule SetSetting_value)
  have "GetString True key d (fst (SetString True key s rows)) = s"
    using val [of s "''string''"] by (auto simp: GetString_def SetString_def split: sum.split)
  moreover have "GetInt True key di (fst (SetInt True key v rows)) = v"
    using val [of "itoa v" "''number''"] assms(1) by (auto simp: GetInt_def SetInt_def sscanf_d_itoa)
  moreover have "GetBool True key db (fst (SetBool True key b rows)) = b"
    using val [of "if b then ''true'' else ''false''" "''boolean''"] by (auto simp: GetBool_def SetBool_def)
  moreover have "GetJSON decode True key (fst (SetJSON encode True key x rows)) = Some x"
    using val [of json "''json''"] assms(2,3) by (auto simp: GetJSON_def SetJSON_def)
  ultimately show ?thesis
    using assms(2) by (auto simp: GetSetting_frame SetString_def SetInt_def SetBool_def SetJSON_def)
qed

lemma settings_typed_round_trip_example:
  "GetInt True ''cors.max_age'' 0 (fst (SetInt True ''cors.max_age'' (- 43200) [])) = - 43200"
  using settings_typed_round_trip
    [of "- 43200" "\<lambda>u :: unit. Some ''null''" "()" "''null''" "\<lambda>s. if s = ''null'' then Some () else None" "''cors.max_age''" "[]" "[]" "[]" 0]
  by (simp add: in_int64_def int64_min_def int64_max_def)

text \<open>\<open>GetInt\<close> takes the leading number of a text and ignores what follows.\<close>

lemma GetInt_prefix: "GetInt True k 7 (fst (SetString True k '' 30 minutes'' rows)) = 30"
proof -
  obtain q where "GetSetting True k (fst (SetString True k '' 30 minutes'' rows)) = Inr q" "st_Value q = '' 30 minutes''"
    using SetSetting_value [of k "'' 30 minutes''" "''string''" rows] by (auto simp: SetString_def)
  moreover have "sscanf_d '' 30 minutes'' = Some 30" by code_simp
  ultimately show ?thesis by (simp add: GetInt_def)
qed

section \<open>Defaults\<close>

lemma SetWithDescription_lookup:
  "sql_lookup sc_key k (fst (SetWithDescription True key value type description rows)) =
    (if k = key then Some (case sql_lookup sc_key k rows of
        None \<Rightarrow> \<lparr>sc_key = key, sc_value = Some value, sc_type = Some type, sc_description = Some description\<rparr>
      | Some r \<Rightarrow> r\<lparr>sc_value := Some value, sc_type := Some type, sc_description := Some description\<rparr>) else sql_lookup sc_key k rows)"
  by (simp add: SetWithDescription_def upsert_lookup)

lemma GetSetting_missing: "GetSetting True key rows = Inl SettingNotFound \<longleftrightarrow> sql_lookup sc_key key rows = None"
  by (simp add: GetSetting_def split: option.split)

definition default_row :: "string \<times> string \<times> string \<times> string \<Rightarrow> config_row" where
  "default_row = (\<lambda>(k, v, t, d). \<lparr>sc_key = k, sc_value = Some v, sc_type = Some t, sc_description = Some d\<rparr>)"

definition filled :: "(string \<times> string \<times> string \<times> string) list \<Rightarrow> config_row list \<Rightarrow> config_row list \<Rightarrow> bool" where
  "filled defaults rows rows' \<longleftrightarrow> (\<forall>k.
     case sql_lookup sc_key k rows of
       Some r \<Rightarrow> sql_lookup sc_key k rows' = Some r
     | None \<Rightarrow> if k \<in> fst ` set defaults then \<exists>e \<in> set defaults. fst e = k \<and> sql_lookup sc_key k rows' = Some (default_row e)
              else sql_lookup sc_key k rows' = None)"

lemma defaults_loop_fills:
  "\<exists>rows'. defaults_loop (\<lambda>_. True) (\<lambda>_. True) es rows = (rows', True) \<and> filled es rows rows'"
proof (induction es arbitrary: rows)
  case Nil
  then show ?case by (simp add: filled_def split: option.split)
next
  case (Cons e es)
  obtain k v t d where e: "e = (k, v, t, d)" by (cases e)
  show ?case
  proof (cases "sql_lookup sc_key k rows")
    case (Some r)
    obtain rows' where step: "defaults_loop (\<lambda>_. True) (\<lambda>_. True) es rows = (rows', True)" and f: "filled es rows rows'" using Cons by blast
    have "filled (e # es) rows rows'"
      unfolding filled_def
    proof
      fix x
      have "case sql_lookup sc_key x rows of
          Some r \<Rightarrow> sql_lookup sc_key x rows' = Some r
        | None \<Rightarrow> if x \<in> fst ` set es then \<exists>e \<in> set es. fst e = x \<and> sql_lookup sc_key x rows' = Some (default_row e)
                 else sql_lookup sc_key x rows' = None"
        using f by (simp add: filled_def)
      with Some show "case sql_lookup sc_key x rows of
          Some r \<Rightarrow> sql_lookup sc_key x rows' = Some r
        | None \<Rightarrow> if x \<in> fst ` set (e # es) then \<exists>e \<in> set (e # es). fst e = x \<and> sql_lookup sc_key x rows' = Some (default_row e)
                 else sql_lookup sc_key x rows' = None"
        by (cases "x = k") (auto simp: e split: option.splits if_splits)
    qed
    with step Some show ?thesis by (simp add: e GetSetting_missing)
  next
    case None
    let ?mid = "fst (SetWithDescription True k v t d rows)"
    obtain rows' where step: "defaults_loop (\<lambda>_. True) (\<lambda>_. True) es ?mid = (rows', True)" and f: "filled es ?mid rows'" using Cons by blast
    have mid: "sql_lookup sc_key x ?mid = (if x = k then Some (default_row e) else sql_lookup sc_key x rows)" for x
      using None by (simp add: SetWithDescription_lookup default_row_def e)
    have "filled (e # es) rows rows'"
      unfolding filled_def
    proof
      fix x
      have "case sql_lookup sc_key x ?mid of
          Some r \<Rightarrow> sql_lookup sc_key x rows' = Some r
        | None \<Rightarrow> if x \<in> fst ` set es then \<exists>e \<in> set es. fst e = x \<and> sql_lookup sc_key x rows' = Some (default_row e)
                 else sql_lookup sc_key x rows' = None"
        using f by (simp add: filled_def)
      with None mid [of x] show "case sql_lookup sc_key x rows of
          Some r \<Rightarrow> sql_lookup sc_key x rows' = Some r
        | None \<Rightarrow> if x \<in> fst ` set (e # es) then \<exists>e \<in> set (e # es). fst e = x \<and> sql_lookup sc_key x rows' = Some (default_row e)
                 else sql_lookup sc_key x rows' = None"
        by (cases "x = k") (auto simp: e split: option.splits if_splits)
    qed
    with step None show ?thesis by (simp add: e GetSetting_missing SetWithDescription_def)
  qed
qed

lemma defaults_loop_present:
  "fst ` set es \<subseteq> {k. sql_lookup sc_key k rows \<noteq> None} \<Longrightarrow> defaults_loop reads writes es rows = (rows, True)"
proof (induction es)
  case (Cons e es)
  then show ?case by (cases e) (auto simp: GetSetting_def split: option.split)
qed simp

text \<open>
  C30. \<open>InitializeDefaults\<close> fills in what is missing and nothing else: in whatever order Go iterates over the map of defaults, a setting
  that has a row keeps it, a default key without one gets the row of its default, no other key appears, and a second run changes nothing.
\<close>

theorem defaults_fill_missing:
  assumes "set (order (default_settings (default_backup_path backup) sectxt)) = set (default_settings (default_backup_path backup) sectxt)"
  shows "\<exists>rows'. InitializeDefaults (\<lambda>_. True) (\<lambda>_. True) order sectxt backup rows = (rows', True) \<and>
    (\<forall>k. case sql_lookup sc_key k rows of
       Some r \<Rightarrow> sql_lookup sc_key k rows' = Some r
     | None \<Rightarrow> if k \<in> fst ` set (default_settings (default_backup_path backup) sectxt)
         then \<exists>(key, value, type, description) \<in> set (default_settings (default_backup_path backup) sectxt).
                key = k \<and> sql_lookup sc_key k rows' = Some \<lparr>sc_key = k, sc_value = Some value, sc_type = Some type, sc_description = Some description\<rparr>
         else sql_lookup sc_key k rows' = None) \<and>
    InitializeDefaults (\<lambda>_. True) (\<lambda>_. True) order sectxt backup rows' = (rows', True)"
proof -
  define es where "es = order (default_settings (default_backup_path backup) sectxt)"
  have set: "set (default_settings (default_backup_path backup) sectxt) = set es" using assms by (simp add: es_def)
  obtain rows' where run: "defaults_loop (\<lambda>_. True) (\<lambda>_. True) es rows = (rows', True)" and f: "filled es rows rows'"
    using defaults_loop_fills by blast
  have again: "defaults_loop (\<lambda>_. True) (\<lambda>_. True) es rows' = (rows', True)"
  proof (rule defaults_loop_present, rule subsetI)
    fix k assume k: "k \<in> fst ` set es"
    have "case sql_lookup sc_key k rows of
        Some r \<Rightarrow> sql_lookup sc_key k rows' = Some r
      | None \<Rightarrow> if k \<in> fst ` set es then \<exists>e \<in> set es. fst e = k \<and> sql_lookup sc_key k rows' = Some (default_row e)
               else sql_lookup sc_key k rows' = None" using f by (simp add: filled_def)
    with k show "k \<in> {k. sql_lookup sc_key k rows' \<noteq> None}" by (cases "sql_lookup sc_key k rows") auto
  qed
  have "case sql_lookup sc_key k rows of
       Some r \<Rightarrow> sql_lookup sc_key k rows' = Some r
     | None \<Rightarrow> if k \<in> fst ` set es
         then \<exists>(key, value, type, description) \<in> set es.
                key = k \<and> sql_lookup sc_key k rows' = Some \<lparr>sc_key = k, sc_value = Some value, sc_type = Some type, sc_description = Some description\<rparr>
         else sql_lookup sc_key k rows' = None" for k
  proof -
    have "case sql_lookup sc_key k rows of
       Some r \<Rightarrow> sql_lookup sc_key k rows' = Some r
     | None \<Rightarrow> if k \<in> fst ` set es then \<exists>e \<in> set es. fst e = k \<and> sql_lookup sc_key k rows' = Some (default_row e)
              else sql_lookup sc_key k rows' = None" using f by (simp add: filled_def)
    moreover have "(\<exists>e \<in> set es. fst e = k \<and> sql_lookup sc_key k rows' = Some (default_row e)) \<Longrightarrow>
      \<exists>(key, value, type, description) \<in> set es.
         key = k \<and> sql_lookup sc_key k rows' = Some \<lparr>sc_key = k, sc_value = Some value, sc_type = Some type, sc_description = Some description\<rparr>"
      by (fastforce simp: default_row_def)
    ultimately show ?thesis by (auto split: option.splits if_splits)
  qed
  with run again show ?thesis unfolding InitializeDefaults_def es_def [symmetric] set by blast
qed

theorem defaults_fill_missing_witness:
  "\<exists>rows'. InitializeDefaults (\<lambda>_. True) (\<lambda>_. True) rev [] [] [\<lparr>sc_key = ''x'', sc_value = Some ''1'', sc_type = None, sc_description = None\<rparr>] = (rows', True) \<and>
     sql_lookup sc_key ''x'' rows' = Some \<lparr>sc_key = ''x'', sc_value = Some ''1'', sc_type = None, sc_description = None\<rparr>"
  using defaults_fill_missing [of rev "[]" "[]" "[\<lparr>sc_key = ''x'', sc_value = Some ''1'', sc_type = None, sc_description = None\<rparr>]"]
  by (auto dest!: spec [where x = "''x''"])

section \<open>Export and import\<close>

lemma update_value_lookup:
  "sql_lookup sc_key k (update_value key value rows) =
    map_option (\<lambda>r. if k = key then r\<lparr>sc_value := Some value\<rparr> else r) (sql_lookup sc_key k rows)"
  by (cases "sql_lookup sc_key k rows") (auto simp: update_value_def sql_update_lookup dest: sql_lookup_Some)

lemma import_loop_lookup:
  assumes "distinct (map fst m)"
  shows "\<exists>rows'. import_loop (\<lambda>_. True) m rows = (rows', length m) \<and>
    (\<forall>k. sql_lookup sc_key k rows' =
       map_option (\<lambda>r. case map_of m k of None \<Rightarrow> r | Some v \<Rightarrow> r\<lparr>sc_value := Some v\<rparr>) (sql_lookup sc_key k rows))"
  using assms
proof (induction m arbitrary: rows)
  case Nil
  then show ?case by (simp add: option.map_ident)
next
  case (Cons e m)
  obtain key v where e: "e = (key, v)" by (cases e)
  obtain rows' where run: "import_loop (\<lambda>_. True) m (update_value key v rows) = (rows', length m)"
    and look: "\<forall>k. sql_lookup sc_key k rows' =
       map_option (\<lambda>r. case map_of m k of None \<Rightarrow> r | Some v \<Rightarrow> r\<lparr>sc_value := Some v\<rparr>) (sql_lookup sc_key k (update_value key v rows))"
    using Cons by fastforce
  have "map_of m key = None" using Cons.prems by (simp add: e map_of_eq_None_iff)
  with look have "sql_lookup sc_key k rows' =
       map_option (\<lambda>r. case map_of (e # m) k of None \<Rightarrow> r | Some v \<Rightarrow> r\<lparr>sc_value := Some v\<rparr>) (sql_lookup sc_key k rows)" for k
    by (cases "sql_lookup sc_key k rows") (auto simp: update_value_lookup e)
  with run show ?case by (simp add: e)
qed

lemma export_distinct:
  assumes "distinct (map sc_key rows)" "ExportSettings ok rows = Some m"
  shows "distinct (map fst m)"
proof -
  have m: "map fst m = map sc_key (filter (\<lambda>r. sc_value r \<noteq> None) (sort_key sc_key rows))"
    using assms(2) by (auto simp: ExportSettings_def comp_def split: if_splits)
  have "distinct (map sc_key (sort_key sc_key rows))"
    using assms(1) by (metis distinct_map distinct_sort set_sort)
  then show ?thesis unfolding m by (simp add: distinct_map_filter)
qed

lemma export_map_of:
  assumes "distinct (map sc_key rows)" "ExportSettings ok rows = Some m"
  shows "map_of m k = Option.bind (sql_lookup sc_key k rows) sc_value"
proof -
  have s: "(k, v) \<in> set m \<longleftrightarrow> (\<exists>r \<in> set rows. sc_key r = k \<and> sc_value r = Some v)" for k v
    using assms(2) by (force simp: ExportSettings_def split: if_splits)
  show ?thesis
  proof (cases "sql_lookup sc_key k rows")
    case None
    then have "k \<notin> sc_key ` set rows" by (simp add: sql_lookup_None)
    with s have "k \<notin> fst ` set m" by (auto simp: image_iff)
    with None show ?thesis by (simp add: map_of_eq_None_iff)
  next
    case (Some r)
    then have r: "r \<in> set rows" "sc_key r = k" by (auto dest: sql_lookup_Some)
    have uniq: "q = r" if "q \<in> set rows" "sc_key q = k" for q
      using that r assms(1) by (metis eq_key_imp_eq_value inj_on_eq_iff distinct_map)
    show ?thesis
    proof (cases "sc_value r")
      case None
      with s uniq have "k \<notin> fst ` set m" by force
      with Some None show ?thesis by (simp add: map_of_eq_None_iff)
    next
      case (Some v)
      with r s have "(k, v) \<in> set m" by blast
      with export_distinct [OF assms] have "map_of m k = Some v" by simp
      with Some \<open>sql_lookup sc_key k rows = Some r\<close> show ?thesis by simp
    qed
  qed
qed

text \<open>
  C29. Export and import of the settings. Importing an export, in whatever order its map is iterated, gives every setting the table
  still has the exported value and leaves the settings alone that had no value; a setting whose row is gone in the meantime does not come back, although the
  answer counts it as imported.
\<close>

theorem import_restores_export:
  assumes "distinct (map sc_key rows)" "ExportSettings True rows = Some m" "mset m' = mset m"
  shows "\<exists>later'. ImportSettings (\<lambda>_. True) (Some m') later = (later', Some (length m, length m)) \<and>
    (\<forall>k. case sql_lookup sc_key k later of
       None \<Rightarrow> sql_lookup sc_key k later' = None
     | Some r \<Rightarrow> sql_lookup sc_key k later' =
         Some (case Option.bind (sql_lookup sc_key k rows) sc_value of None \<Rightarrow> r | Some v \<Rightarrow> r\<lparr>sc_value := Some v\<rparr>))"
proof -
  have d: "distinct (map fst m)" by (rule export_distinct [OF assms(1,2)])
  have "mset (map fst m') = mset (map fst m)" using assms(3) by simp
  then have d': "distinct (map fst m')" using d by (metis mset_eq_imp_distinct_iff)
  have same: "map_of m' = map_of m" using map_of_inject_set [OF d' d] mset_eq_setD [OF assms(3)] by simp
  obtain later' where run: "import_loop (\<lambda>_. True) m' later = (later', length m')"
    and look: "\<forall>k. sql_lookup sc_key k later' =
       map_option (\<lambda>r. case map_of m' k of None \<Rightarrow> r | Some v \<Rightarrow> r\<lparr>sc_value := Some v\<rparr>) (sql_lookup sc_key k later)"
    using import_loop_lookup [OF d'] by blast
  have len: "length m' = length m" using assms(3) by (rule mset_eq_length)
  have "case sql_lookup sc_key k later of
       None \<Rightarrow> sql_lookup sc_key k later' = None
     | Some r \<Rightarrow> sql_lookup sc_key k later' =
         Some (case Option.bind (sql_lookup sc_key k rows) sc_value of None \<Rightarrow> r | Some v \<Rightarrow> r\<lparr>sc_value := Some v\<rparr>)" for k
    using look by (simp add: same export_map_of [OF assms(1,2)] split: option.split)
  with run len show ?thesis by (simp add: ImportSettings_def)
qed

theorem import_restores_export_witness:
  "\<exists>later'. ImportSettings (\<lambda>_. True) (Some [(''app.name'', ''Storm''), (''gone'', ''1'')])
       [\<lparr>sc_key = ''app.name'', sc_value = Some ''Weather'', sc_type = Some ''string'', sc_description = None\<rparr>] = (later', Some (2, 2)) \<and>
     sql_lookup sc_key ''app.name'' later' = Some \<lparr>sc_key = ''app.name'', sc_value = Some ''Storm'', sc_type = Some ''string'', sc_description = None\<rparr> \<and>
     sql_lookup sc_key ''gone'' later' = None"
proof -
  let ?rows = "[\<lparr>sc_key = ''gone'', sc_value = Some ''1'', sc_type = None, sc_description = None\<rparr>,
    \<lparr>sc_key = ''app.name'', sc_value = Some ''Storm'', sc_type = Some ''string'', sc_description = None\<rparr>]"
  let ?later = "[\<lparr>sc_key = ''app.name'', sc_value = Some ''Weather'', sc_type = Some ''string'', sc_description = None\<rparr>]"
  have d: "distinct (map sc_key ?rows)" by simp
  have ex: "ExportSettings True ?rows = Some [(''app.name'', ''Storm''), (''gone'', ''1'')]"
    by (simp add: ExportSettings_def less_char_def less_eq_char_def)
  from import_restores_export [where later = ?later, OF d ex refl] obtain later' where
    "ImportSettings (\<lambda>_. True) (Some [(''app.name'', ''Storm''), (''gone'', ''1'')]) ?later = (later', Some (2, 2))"
    "\<forall>k. case sql_lookup sc_key k ?later of
       None \<Rightarrow> sql_lookup sc_key k later' = None
     | Some r \<Rightarrow> sql_lookup sc_key k later' =
         Some (case Option.bind (sql_lookup sc_key k ?rows) sc_value of None \<Rightarrow> r | Some v \<Rightarrow> r\<lparr>sc_value := Some v\<rparr>)"
    by (auto simp: numeral_2_eq_2)
  moreover from this(2) [THEN spec, of "''app.name''"] this(2) [THEN spec, of "''gone''"]
  have "sql_lookup sc_key ''app.name'' later' = Some \<lparr>sc_key = ''app.name'', sc_value = Some ''Storm'', sc_type = Some ''string'', sc_description = None\<rparr>"
    "sql_lookup sc_key ''gone'' later' = None"
    by (simp_all add: sql_lookup_def)
  ultimately show ?thesis by blast
qed

text \<open>A reset commits the deletion before the defaults are written: when the first write fails, the table stays empty.\<close>

lemma reset_can_empty:
  assumes "rs_begin_ok io" "rs_delete_ok io" "rs_commit_ok io" "\<And>k. rs_reads io k" "\<And>k. \<not> rs_writes io k"
    "order (default_settings (default_backup_path (GetString (rs_read_ok io) ''backup.location'' ''/data/backups'' rows)) sectxt) \<noteq> []"
  shows "ResetSettings io order sectxt rows = ([], False)"
proof -
  have "defaults_loop (rs_reads io) (rs_writes io) es [] = ([], False)" if "es \<noteq> []" for es
    using that assms(4,5) by (cases es; cases "hd es") (auto simp: GetSetting_def SetWithDescription_def)
  with assms show ?thesis by (simp add: ResetSettings_def InitializeDefaults_def)
qed

text \<open>Every key of an update is answered: as applied when its statement changed a row, else as failed.\<close>

lemma update_loop_answers:
  "update_loop ok settings rows = (rows', applied, failed) \<Longrightarrow> mset applied + mset failed = mset (map fst settings)"
  by (induction ok settings rows arbitrary: rows' applied failed rule: update_loop.induct)
    (auto simp: Let_def split: if_splits prod.splits)

section \<open>The listening ports\<close>

lemma random_port_range:
  "random_port_loop io i n = Some p \<Longrightarrow> MinPort \<le> p \<and> p \<le> MaxPort \<and> pi_available io p"
proof (induction io i n rule: random_port_loop.induct)
  case (2 io i n)
  have "0 \<le> int (pi_random io i) mod 1000 \<and> int (pi_random io i) mod 1000 < 1000" by simp
  with 2 show ?case by (auto simp: Let_def MinPort_def MaxPort_def split: if_splits)
qed simp

lemma scan_int_put:
  "scan_int True k (put_value key (itoa v) type description rows) = (if k = key then atoi (itoa v) else scan_int True k rows)"
  by (simp add: scan_int_def put_value_lookup split: option.split)

lemma scan_int_put_text:
  "k \<noteq> key \<Longrightarrow> scan_int ok k (put_value key value type description rows) = scan_int ok k rows"
  by (simp add: scan_int_def put_value_lookup)

lemma getIntSetting_set_int:
  "in_int64 v \<Longrightarrow> getIntSetting True k d (set_int io key v rows) =
     (if k = key \<and> pi_write_ok io key then v else getIntSetting True k d rows)"
  by (simp add: getIntSetting_def set_int_def setIntSetting_def scan_int_put atoi_itoa)

lemma getIntSetting_set_bool:
  "k \<noteq> key \<Longrightarrow> getIntSetting True k d (set_bool io key b rows) = getIntSetting True k d rows"
  by (simp add: getIntSetting_def set_bool_def setBoolSetting_def scan_int_put_text)

lemma zero_in_int64 [simp]: "in_int64 0" by (simp add: in_int64_def int64_min_def int64_max_def)

text \<open>The setting \<open>k\<close> after a start, which tried to store \<open>v\<close> there.\<close>

definition stored_if :: "port_io \<Rightarrow> string \<Rightarrow> int \<Rightarrow> config_row list \<Rightarrow> config_row list \<Rightarrow> bool" where
  "stored_if io k v rows rows' \<longleftrightarrow>
     getIntSetting True k 0 rows' = (if pi_write_ok io k then v else getIntSetting True k 0 rows)"

lemma ParsePortConfig_stores:
  assumes "ParsePortConfig io portStr rows = (rows', Some (h, s))"
  shows "pi_available io h \<and> stored_if io ''server.http_port'' h rows rows' \<and> stored_if io ''server.https_port'' s rows rows'"
  using assms
  by (auto simp: ParsePortConfig_def Let_def stored_if_def getIntSetting_set_int getIntSetting_set_bool atoi_range
      split: option.splits if_splits)

lemma getIntSetting_read: "getIntSetting ok k d rows = (if ok then getIntSetting True k d rows else d)"
  by (simp add: getIntSetting_def scan_int_def)

lemma GetServerPortsWithConfig_stores:
  assumes run: "GetServerPortsWithConfig io configPort rows = (rows', Some (h, s))" and c: "in_int64 configPort"
  shows "pi_available io h \<and> (stored_if io ''server.http_port'' h rows rows' \<or> rows' = rows \<and> getIntSetting True ''server.http_port'' 0 rows = h) \<and>
    (stored_if io ''server.https_port'' s rows rows' \<or> s = getIntSetting (pi_read_ok io ''server.https_port'') ''server.https_port'' 0 rows' \<or> h = configPort \<and> s = 0)"
proof -
  let ?saved = "getIntSetting (pi_read_ok io ''server.http_port'') ''server.http_port'' 0 rows"
  have rnd: "pi_available io p \<and> in_int64 p" if "GetRandomAvailablePort io = Some p" for p
    using random_port_range [of io 0 100 p] that
    by (simp add: GetRandomAvailablePort_def MinPort_def MaxPort_def in_int64_def int64_min_def int64_max_def)
  consider (saved) "0 < ?saved" "pi_available io ?saved"
    | (config) "\<not> (0 < ?saved \<and> pi_available io ?saved)" "0 < configPort \<and> pi_available io configPort"
    | (env) "\<not> (0 < ?saved \<and> pi_available io ?saved)" "\<not> (0 < configPort \<and> pi_available io configPort)" "pi_PORT io \<noteq> []"
    | (random) "\<not> (0 < ?saved \<and> pi_available io ?saved)" "\<not> (0 < configPort \<and> pi_available io configPort)" "pi_PORT io = []" by blast
  then show ?thesis
  proof cases
    case saved
    then have "pi_read_ok io ''server.http_port''" by (subst (asm) getIntSetting_read) (simp split: if_splits)
    with run saved show ?thesis by (auto simp: GetServerPortsWithConfig_def Let_def)
  next
    case config
    from config(1) have "GetServerPortsWithConfig io configPort rows = (set_int io ''server.http_port'' configPort rows, Some (configPort, 0))"
      unfolding GetServerPortsWithConfig_def Let_def using config(2) by auto
    with run have "h = configPort" "s = 0" "rows' = set_int io ''server.http_port'' configPort rows" by auto
    with c config(2) show ?thesis by (simp add: stored_if_def getIntSetting_set_int)
  next
    case env
    then have "GetServerPortsWithConfig io configPort rows = ParsePortConfig io (pi_PORT io) rows"
      unfolding GetServerPortsWithConfig_def Let_def by auto
    with run ParsePortConfig_stores [of io "pi_PORT io" rows rows' h s] show ?thesis by simp
  next
    case random
    then have r: "GetServerPortsWithConfig io configPort rows = (case GetRandomAvailablePort io of None \<Rightarrow> (rows, None)
        | Some p \<Rightarrow> (set_int io ''server.https_port'' 0 (set_int io ''server.http_port'' p rows), Some (p, 0)))"
      unfolding GetServerPortsWithConfig_def Let_def by auto
    with run obtain p where p: "GetRandomAvailablePort io = Some p" by (cases "GetRandomAvailablePort io") auto
    with run r have "h = p" "s = 0" "rows' = set_int io ''server.https_port'' 0 (set_int io ''server.http_port'' p rows)" by auto
    with rnd [OF p] show ?thesis by (simp add: stored_if_def getIntSetting_set_int)
  qed
qed

text \<open>
  C31. The port of a start is the port of the next, if it could be written. Whatever the outcomes of the statements, the HTTP port
  \<open>GetServerPortsWithConfig\<close> takes (from the table, the configuration, the environment or chance) could be bound; if its write succeeds,
  the table holds it, and if not, which the code ignores, the table holds what it held. When the table holds it and it is positive (\<^verbatim>\<open>PORT=0\<close> makes it
  0, which counts as none), every later start that can read the table and bind the port has the same HTTP port, whatever the configuration says then, with
  the HTTPS port of the table. The HTTPS port of this start is the stored one too if it could be read and written, unless the port came from the
  configuration file. (Hypothesis: the configured port is a 64-bit integer.)
\<close>

theorem server_port_sticks:
  assumes run: "GetServerPortsWithConfig io configPort rows = (rows', Some (h, s))" and config: "in_int64 configPort"
  shows "pi_available io h \<and>
    (if pi_write_ok io ''server.http_port'' then getIntSetting True ''server.http_port'' 0 rows' = h
     else getIntSetting True ''server.http_port'' 0 rows' = getIntSetting True ''server.http_port'' 0 rows) \<and>
    (getIntSetting True ''server.http_port'' 0 rows' = h \<and> 0 < h \<and> pi_read_ok io' ''server.http_port'' \<and> pi_available io' h \<longrightarrow>
       GetServerPortsWithConfig io' configPort' rows' =
         (rows', Some (h, getIntSetting (pi_read_ok io' ''server.https_port'') ''server.https_port'' 0 rows'))) \<and>
    (pi_write_ok io ''server.https_port'' \<and> pi_read_ok io ''server.https_port'' \<longrightarrow>
       s = getIntSetting True ''server.https_port'' 0 rows' \<or> h = configPort \<and> s = 0)"
proof -
  note st = GetServerPortsWithConfig_stores [OF run config]
  have later: "GetServerPortsWithConfig io' configPort' rows' =
      (rows', Some (h, getIntSetting (pi_read_ok io' ''server.https_port'') ''server.https_port'' 0 rows'))"
    if "getIntSetting True ''server.http_port'' 0 rows' = h" "0 < h" "pi_read_ok io' ''server.http_port''" "pi_available io' h"
    using that by (simp add: GetServerPortsWithConfig_def Let_def)
  have https: "s = getIntSetting True ''server.https_port'' 0 rows' \<or> h = configPort \<and> s = 0"
    if "pi_write_ok io ''server.https_port''" "pi_read_ok io ''server.https_port''"
    using st that by (auto simp: stored_if_def)
  show ?thesis using st later https by (auto simp: stored_if_def)
qed

definition free_ports :: "string \<Rightarrow> port_io" where
  "free_ports port = \<lparr>pi_available = (\<lambda>p. p \<noteq> 80), pi_random = (\<lambda>i. i), pi_read_ok = (\<lambda>_. True), pi_write_ok = (\<lambda>_. True), pi_PORT = port\<rparr>"

lemma free_ports_fields [simp]:
  "pi_available (free_ports port) p \<longleftrightarrow> p \<noteq> 80" "pi_random (free_ports port) i = i" "pi_read_ok (free_ports port) k" "pi_write_ok (free_ports port) k"
  "pi_PORT (free_ports port) = port"
  by (simp_all add: free_ports_def)

theorem server_port_sticks_witness:
  "\<exists>rows'. GetServerPortsWithConfig (free_ports ''8080,8443'') 80 [] = (rows', Some (8080, 8443)) \<and>
     GetServerPortsWithConfig (free_ports []) 9000 rows' = (rows', Some (8080, 8443))"
proof -
  have p: "split_char CHR '','' ''8080,8443'' = [''8080'', ''8443'']" "atoi (trimSpace ''8080'') = Some 8080" "atoi (trimSpace ''8443'') = Some 8443"
    by code_simp+
  have "\<exists>rows'. GetServerPortsWithConfig (free_ports ''8080,8443'') 80 [] = (rows', Some (8080, 8443))"
    by (simp add: GetServerPortsWithConfig_def getIntSetting_def scan_int_def ParsePortConfig_def Let_def p)
  then obtain rows' where run: "GetServerPortsWithConfig (free_ports ''8080,8443'') 80 [] = (rows', Some (8080, 8443))" by blast
  have c: "in_int64 80" by (simp add: in_int64_def int64_min_def int64_max_def)
  from server_port_sticks [OF run c, of "free_ports []" 9000]
  have "GetServerPortsWithConfig (free_ports []) 9000 rows' = (rows', Some (8080, 8443))" by simp
  with run show ?thesis by blast
qed

text \<open>A port from the configuration file hides the HTTPS port of the table at this start; the next one has it again.\<close>

lemma config_port_hides_https:
  assumes "\<And>k. pi_read_ok io k" "\<And>k. pi_write_ok io k" "getIntSetting True ''server.http_port'' 0 rows = 0"
    "0 < configPort" "pi_available io configPort" "in_int64 configPort"
  shows "\<exists>rows'. GetServerPortsWithConfig io configPort rows = (rows', Some (configPort, 0)) \<and>
    GetServerPortsWithConfig io configPort rows' = (rows', Some (configPort, getIntSetting True ''server.https_port'' 0 rows))"
  using assms by (simp add: GetServerPortsWithConfig_def Let_def getIntSetting_set_int)

text \<open>The port 0 of \<^verbatim>\<open>PORT=0\<close>, which can always be bound, is stored and counts as no port at the next start.\<close>

lemma port_zero_does_not_stick:
  assumes "pi_write_ok io ''server.http_port''" "\<not> 0 < configPort" "pi_PORT io = ''0''" "pi_available io 0"
    "getIntSetting (pi_read_ok io ''server.http_port'') ''server.http_port'' 0 rows = 0"
    "pi_PORT io' = []" "GetRandomAvailablePort io' = Some p"
  shows "\<exists>rows' rows''. GetServerPortsWithConfig io configPort rows = (rows', Some (0, 0)) \<and>
    GetServerPortsWithConfig io' configPort rows' = (rows'', Some (p, 0))"
proof -
  have p: "split_char CHR '','' ''0'' = [''0'']" "atoi (trimSpace ''0'') = Some 0" by code_simp+
  let ?rows' = "set_int io ''server.https_port'' 0 (set_int io ''server.http_port'' 0 rows)"
  have "GetServerPortsWithConfig io configPort rows = (?rows', Some (0, 0))"
    using assms p by (simp add: GetServerPortsWithConfig_def Let_def ParsePortConfig_def)
  moreover have "getIntSetting (pi_read_ok io' ''server.http_port'') ''server.http_port'' 0 ?rows' = 0"
    using assms(1) by (subst getIntSetting_read) (simp add: getIntSetting_set_int)
  ultimately show ?thesis using assms by (simp add: GetServerPortsWithConfig_def Let_def)
qed

text \<open>An update that reports a failure may have changed the HTTP port already.\<close>

lemma UpdatePort_partial:
  assumes "pi_available io h" "0 < s" "\<not> pi_available io s" "pi_write_ok io ''server.http_port''" "in_int64 h"
  shows "\<exists>rows'. UpdatePort io h s rows = (rows', False) \<and> getIntSetting True ''server.http_port'' 0 rows' = h"
  using assms by (simp add: UpdatePort_def Let_def getIntSetting_set_int)

lemma GetOrAssignPort_stable:
  assumes "GetOrAssignPort io portType rows = (rows', Some p)" "pi_read_ok io (port_key portType)"
    "pi_available io' p" "pi_read_ok io' (port_key portType)"
  shows "0 < p \<and> pi_available io p \<and> GetOrAssignPort io' portType rows' = (rows', Some p)"
proof (cases "rows' = rows \<and> scan_int True (port_key portType) rows = Some p \<and> 0 < p \<and> pi_available io p")
  case True
  with assms show ?thesis by (simp add: GetOrAssignPort_def Let_def)
next
  case False
  with assms(1,2) have new: "GetRandomAvailablePort io = Some p"
      "rows' = put_value (port_key portType) (itoa p) ''integer'' (Some (''Auto-assigned '' @ portType @ '' port'')) rows"
    by (auto simp: GetOrAssignPort_def Let_def split: if_splits option.splits)
  have r: "MinPort \<le> p" "p \<le> MaxPort" "pi_available io p" using random_port_range new(1) by (auto simp: GetRandomAvailablePort_def)
  then have "in_int64 p" "0 < p" by (simp_all add: MinPort_def MaxPort_def in_int64_def int64_min_def int64_max_def)
  with assms(3,4) r new(2) show ?thesis by (simp add: GetOrAssignPort_def Let_def scan_int_put atoi_itoa)
qed

end
