(* ===== verification/Setup.thy ===== *)
theory Setup
  imports Admins Server_Settings Config "HOL-Library.AList"
begin

text \<open>
  The first-run setup: \<^verbatim>\<open>src/server/handler/setup.go\<close>, the filters of \<^verbatim>\<open>src/server/middleware/setup.go\<close>, the signed proof of
  \<^verbatim>\<open>src/util/setup_proof.go\<close>, the token file of \<^verbatim>\<open>src/util/firstrun.go\<close> and the one-request setup of
  \<^verbatim>\<open>src/server/handler/setup_wizard.go\<close>. The wizard is modelled with the filters in front of it, as \<^verbatim>\<open>main.go\<close> mounts it.
\<close>

section \<open>State\<close>

record setup_world =
  su_admins :: admin_db
  su_config :: "config_row list"
  su_state :: "(string \<times> string) list"
  su_token_file :: "string option"

text \<open>Argon2id, SHA-256 in hexadecimal, HMAC-SHA256 of a key and a message, the lower case of runes.\<close>

record setup_env =
  ev_argon :: argon2
  ev_sha :: "string \<Rightarrow> string"
  ev_mac :: "string \<Rightarrow> string \<Rightarrow> string"
  ev_lower :: "nat \<Rightarrow> nat"

section \<open>The setup token and its proof\<close>

definition GenerateSetupToken :: "nat list option \<Rightarrow> string option" where
  "GenerateSetupToken bytes = map_option hex_encode bytes"

definition HashSetupToken :: "setup_env \<Rightarrow> string \<Rightarrow> string" where
  "HashSetupToken env token = ev_sha env token"

definition SaveSetupToken :: "setup_env \<Rightarrow> bool \<Rightarrow> bool \<Rightarrow> string \<Rightarrow> setup_world \<Rightarrow> setup_world \<times> bool" where
  "SaveSetupToken env dirOk writeOk token w =
     (if dirOk \<and> writeOk then (w\<lparr>su_token_file := Some (HashSetupToken env token)\<rparr>, True) else (w, False))"

text \<open>\<open>None\<close>: the file is missing or cannot be read.\<close>

definition ValidateSetupToken :: "setup_env \<Rightarrow> bool \<Rightarrow> string \<Rightarrow> setup_world \<Rightarrow> bool option" where
  "ValidateSetupToken env readOk token w =
     (case su_token_file w of
        None \<Rightarrow> None
      | Some stored \<Rightarrow> if readOk then Some (HashSetupToken env (trimSpace token) = trimSpace stored) else None)"

definition DeleteSetupToken :: "bool \<Rightarrow> setup_world \<Rightarrow> setup_world \<times> bool" where
  "DeleteSetupToken ok w = (if ok then (w\<lparr>su_token_file := None\<rparr>, True) else (w, su_token_file w = None))"

definition SetupTokenExists :: "setup_world \<Rightarrow> bool" where
  "SetupTokenExists w \<longleftrightarrow> su_token_file w \<noteq> None"

definition setupProofTTL :: int where "setupProofTTL = hour_ns"

definition setupProofMAC :: "setup_env \<Rightarrow> string \<Rightarrow> string \<Rightarrow> string" where
  "setupProofMAC env base64Key issued =
     (case StdDecode base64Key of None \<Rightarrow> [] | Some key \<Rightarrow> RawURLEncoding (ev_mac env key issued))"

definition SignSetupProof :: "setup_env \<Rightarrow> string \<Rightarrow> instant \<Rightarrow> string" where
  "SignSetupProof env base64Key now =
     (let issued = itoa (now div second_ns) in issued @ ''.'' @ setupProofMAC env base64Key issued)"

definition VerifySetupProof :: "setup_env \<Rightarrow> string \<Rightarrow> string \<Rightarrow> instant \<Rightarrow> bool" where
  "VerifySetupProof env base64Key value now =
     (case StdDecode base64Key of
        None \<Rightarrow> False
      | Some key \<Rightarrow>
          key \<noteq> [] \<and>
          (case cut_char CHR ''.'' value of
             (issued, None) \<Rightarrow> False
           | (issued, Some signature) \<Rightarrow>
               signature \<noteq> [] \<and> signature = setupProofMAC env base64Key issued \<and>
               (case atoi issued of
                  None \<Rightarrow> False
                | Some n \<Rightarrow> n * second_ns \<le> now \<and> now - n * second_ns < setupProofTTL)))"

section \<open>Answers\<close>

text \<open>What the browser gets: a redirect, a page or JSON answer by its status, and what the creation of the administrator hands out.\<close>

record handed_out =
  ho_session :: string
  ho_api_token :: string
  ho_password :: "string option"
  ho_username :: string

datatype setup_answer = Redirect string | Answer nat | Created handed_out string

text \<open>\<open>cookie\<close> is the value of the cookie \<^verbatim>\<open>setup_token_verified\<close>, \<open>key\<close> the encryption key of the configuration when there is one.\<close>

definition setupTokenVerified :: "setup_env \<Rightarrow> string option \<Rightarrow> instant \<Rightarrow> string option \<Rightarrow> bool" where
  "setupTokenVerified env key now cookie =
     (case (cookie, key) of (Some value, Some k) \<Rightarrow> VerifySetupProof env k value now | _ \<Rightarrow> False)"

text \<open>The outcome of a verification: the answer and the cookie it sets.\<close>

definition VerifySetupTokenAtAdmin ::
  "setup_env \<Rightarrow> string \<Rightarrow> string option \<Rightarrow> instant \<Rightarrow> bool \<Rightarrow> string \<Rightarrow> setup_world \<Rightarrow> setup_answer \<times> string option" where
  "VerifySetupTokenAtAdmin env adminPath key now readOk setupToken w =
     (if setupToken = [] then (Answer 400, None)
      else case ValidateSetupToken env readOk setupToken w of
        None \<Rightarrow> (Answer 400, None)
      | Some valid \<Rightarrow>
          if \<not> valid then (Answer 401, None)
          else (Redirect (adminPath @ ''/config/setup''), map_option (\<lambda>k. SignSetupProof env k now) key))"

text \<open>\<open>body\<close> is the token of the JSON or form body, \<open>None\<close> when it cannot be decoded.\<close>

definition VerifySetupToken ::
  "setup_env \<Rightarrow> string option \<Rightarrow> instant \<Rightarrow> bool \<Rightarrow> string option \<Rightarrow> setup_world \<Rightarrow> setup_answer \<times> string option" where
  "VerifySetupToken env key now readOk body w =
     (case body of
        None \<Rightarrow> (Answer 400, None)
      | Some setupToken \<Rightarrow>
          if setupToken = [] then (Answer 400, None)
          else case ValidateSetupToken env readOk setupToken w of
            None \<Rightarrow> (Answer 400, None)
          | Some valid \<Rightarrow> if \<not> valid then (Answer 401, None) else (Answer 200, map_option (\<lambda>k. SignSetupProof env k now) key))"

section \<open>The first administrator\<close>

record setup_input =
  in_Username :: string
  in_Email :: string
  in_UseRandom :: bool
  in_Password :: string
  in_ConfirmPassword :: string

record setup_io =
  ci_random :: "nat list option"
  ci_count_ok :: bool
  ci_salt :: "string option"
  ci_created :: instant
  ci_insert_ok :: bool
  ci_id_ok :: bool
  ci_session_bytes :: "nat list option"
  ci_session_base :: instant
  ci_session_now :: instant
  ci_session_ok :: bool
  ci_fk :: bool
  ci_ip :: string
  ci_agent :: string
  ci_delete_ok :: bool
  ci_token_bytes :: "string option"
  ci_token_now :: instant
  ci_token_ok :: bool

definition password_charset :: string where
  "password_charset = ''abcdefghijklmnopqrstuvwxyzABCDEFGHIJKLMNOPQRSTUVWXYZ0123456789!@#-_$''"

text \<open>\<open>numbers\<close> are the numbers drawn below the size of the character set, \<open>None\<close> when the source fails.\<close>

definition generateRandomPassword :: "nat list option \<Rightarrow> nat \<Rightarrow> string option" where
  "generateRandomPassword numbers n = map_option (\<lambda>ns. map (\<lambda>i. password_charset ! i) (take n ns)) numbers"

definition generateAPIToken :: "string option \<Rightarrow> string option" where
  "generateAPIToken bytes = map_option (\<lambda>bs. ''adm_'' @ RawURLEncoding bs) bytes"

definition generateSessionID :: "nat list option \<Rightarrow> string option" where
  "generateSessionID bytes = map_option URLEncoding bytes"

text \<open>The password of the request, or the status of the refusal; the second component is the password that was generated.\<close>

definition chosen_password :: "setup_io \<Rightarrow> setup_input \<Rightarrow> nat + string \<times> string option" where
  "chosen_password io input =
     (if in_UseRandom input then
        (case generateRandomPassword (ci_random io) 32 of None \<Rightarrow> Inl 500 | Some p \<Rightarrow> Inr (p, Some p))
      else if in_Password input = [] then Inl 400
      else if in_Password input \<noteq> trimSpace (in_Password input) then Inl 400
      else if length (in_Password input) < 12 then Inl 400
      else if in_Password input \<noteq> in_ConfirmPassword input then Inl 400
      else Inr (in_Password input, None))"

definition setup_username :: "setup_env \<Rightarrow> string \<Rightarrow> string" where
  "setup_username env name = (let n = trimSpace name in ToLower (ev_lower env) (if n = [] then ''administrator'' else n))"

text \<open>The INSERT of the administrator.\<close>

definition setup_row :: "int \<Rightarrow> string \<Rightarrow> string \<Rightarrow> string \<Rightarrow> instant \<Rightarrow> admin_row" where
  "setup_row i username email passwordHash created =
     \<lparr>ad_id = i, ad_username = username, ad_email = email, ad_password_hash = passwordHash, ad_token_hash = None, ad_token_prefix = None,
      ad_is_super_admin = True, ad_is_active = True, ad_created_at = VStr (FormatSQLTimestamp created),
      ad_updated_at = VStr (FormatSQLTimestamp created), ad_last_login_at = VNil\<rparr>"

definition setup_session_io :: "setup_io \<Rightarrow> string \<Rightarrow> admin_session_io" where
  "setup_session_io io sessionID =
     \<lparr>so_token = Some sessionID, so_expiry_base = ci_session_base io, so_now = ci_session_now io, so_built = ci_session_now io,
      so_insert_ok = ci_session_ok io\<rparr>"

text \<open>Session, deletion of the token file and API token, once the account exists.\<close>

definition finish_admin ::
  "setup_env \<Rightarrow> setup_io \<Rightarrow> string \<Rightarrow> int \<Rightarrow> string \<Rightarrow> string option \<Rightarrow> setup_world \<Rightarrow> setup_world \<times> setup_answer" where
  "finish_admin env io path adminID username generated w =
     (case generateSessionID (ci_session_bytes io) of
        None \<Rightarrow> (w, Answer 500)
      | Some sessionID \<Rightarrow>
          (case CreateAdminSession (ci_fk io) (setup_session_io io sessionID) adminID (ci_ip io) (ci_agent io) (7 * 24 * hour_ns) (su_admins w) of
             (db, None) \<Rightarrow> (w, Answer 500)
           | (db, Some _) \<Rightarrow>
               (let w1 = fst (DeleteSetupToken (ci_delete_ok io) (w\<lparr>su_admins := db\<rparr>)) in
                case generateAPIToken (ci_token_bytes io) of
                  None \<Rightarrow> (w1, Answer 500)
                | Some apiToken \<Rightarrow>
                    (w1\<lparr>su_admins := fst (admin_set (ci_token_ok io) adminID
                        (\<lambda>r. r\<lparr>ad_token_hash := Some (ev_sha env apiToken), ad_token_prefix := Some ''adm_'',
                               ad_updated_at := VStr (FormatSQLTimestamp (ci_token_now io))\<rparr>) (su_admins w1))\<rparr>,
                     Created \<lparr>ho_session = sessionID, ho_api_token = apiToken, ho_password = generated, ho_username = username\<rparr>
                       (path @ ''/api-token'')))))"

definition CreateAdmin ::
  "setup_env \<Rightarrow> setup_io \<Rightarrow> bool \<Rightarrow> string \<Rightarrow> setup_input option \<Rightarrow> setup_world \<Rightarrow> setup_world \<times> setup_answer" where
  "CreateAdmin env io verified path body w =
     (if \<not> verified then (w, Answer 401)
      else case body of
        None \<Rightarrow> (w, Answer 400)
      | Some input \<Rightarrow>
          (let email = trimSpace (in_Email input); username = setup_username env (in_Username input) in
           if email = [] \<or> \<not> contains ''@'' email \<or> \<not> contains ''.'' email then (w, Answer 400)
           else case chosen_password io input of
             Inl status \<Rightarrow> (w, Answer status)
           | Inr (password, generated) \<Rightarrow>
               if \<not> ci_count_ok io then (w, Answer 500)
               else if \<exists>r\<in>set (sv_admins (su_admins w)). ad_username r = username then (w, Answer 409)
               else case HashPassword (ev_argon env) (ci_salt io) password of
                 Inl _ \<Rightarrow> (w, Answer 500)
               | Inr hashedPassword \<Rightarrow>
                   (let db = su_admins w; i = sv_next db; r = setup_row i username email hashedPassword (ci_created io) in
                    if \<not> ci_insert_ok io \<or> (\<exists>q\<in>set (sv_admins db). admin_clashes r q) then (w, Answer 500)
                    else (let w1 = w\<lparr>su_admins := db\<lparr>sv_next := i + 1, sv_admins := sv_admins db @ [r]\<rparr>\<rparr> in
                          if \<not> ci_id_ok io then (w1, Answer 500) else finish_admin env io path i username generated w1))))"

section \<open>The further steps of the wizard\<close>

text \<open>A form is the function from its fields to their values, \<open>None\<close> when it cannot be parsed; \<open>ok\<close> says for which keys the writes succeed.\<close>

definition save_config :: "(string \<Rightarrow> bool) \<Rightarrow> string \<Rightarrow> string \<Rightarrow> setup_world \<Rightarrow> setup_world" where
  "save_config ok key value w =
     (if ok key then w\<lparr>su_config := put_value key value ''string'' None (su_config w)\<rparr> else w)"

definition step_path :: "string \<Rightarrow> string \<Rightarrow> string \<Rightarrow> string" where
  "step_path path this next_step = trimSuffix this path @ next_step"

definition ProcessAPIToken :: "string \<Rightarrow> setup_world \<Rightarrow> setup_world \<times> setup_answer" where
  "ProcessAPIToken path w = (w, Redirect (step_path path ''/api-token'' ''/config''))"

definition server_config_fields :: "(string \<Rightarrow> string) \<Rightarrow> (string \<times> string) list" where
  "server_config_fields form =
     [(''server.branding.title'', form ''app_name''), (''server.domain'', form ''domain''), (''mode'', form ''mode''),
      (''server.timezone'', form ''timezone'')]"

definition ProcessServerConfig ::
  "(string \<Rightarrow> bool) \<Rightarrow> string \<Rightarrow> (string \<Rightarrow> string) option \<Rightarrow> setup_world \<Rightarrow> setup_world \<times> setup_answer" where
  "ProcessServerConfig ok path body w =
     (case body of
        None \<Rightarrow> (w, Answer 400)
      | Some form \<Rightarrow>
          (fold (\<lambda>(key, value) w. if value \<noteq> [] then save_config ok key value w else w) (server_config_fields form) w,
           Redirect (step_path path ''/config'' ''/security'')))"

definition ProcessSecurity ::
  "setup_env \<Rightarrow> string option \<Rightarrow> (string \<Rightarrow> bool) \<Rightarrow> string \<Rightarrow> (string \<Rightarrow> string) option \<Rightarrow> setup_world \<Rightarrow> setup_world \<times> setup_answer" where
  "ProcessSecurity env salt ok path body w =
     (case body of
        None \<Rightarrow> (w, Answer 400)
      | Some form \<Rightarrow>
          (let password = form ''backup_password'' in
           if password \<noteq> [] \<and> password \<noteq> form ''backup_password_confirm'' then (w, Answer 400)
           else (if password = [] then w
                 else case HashPassword (ev_argon env) salt password of
                   Inl _ \<Rightarrow> w
                 | Inr hashed \<Rightarrow> save_config ok ''backup.encryption_hash'' hashed w,
                 Redirect (step_path path ''/security'' ''/services''))))"

definition ProcessServices ::
  "(string \<Rightarrow> bool) \<Rightarrow> string \<Rightarrow> (string \<Rightarrow> string) option \<Rightarrow> setup_world \<Rightarrow> setup_world \<times> setup_answer" where
  "ProcessServices ok path body w =
     (case body of
        None \<Rightarrow> (w, Answer 400)
      | Some form \<Rightarrow>
          (let given = (\<lambda>field key w. if form field \<noteq> [] then save_config ok key (form field) w else w);
               w1 = (if IsTruthy (form ''enable_ssl'')
                     then given ''ssl_email'' ''ssl.email'' (given ''ssl_domain'' ''ssl.domain'' (save_config ok ''ssl.enabled'' ''true'' w)) else w);
               w2 = (if IsTruthy (form ''enable_multiuser'')
                     then given ''registration_mode'' ''users.registration_mode'' (save_config ok ''features.multiuser'' ''true'' w1) else w1)
           in (w2, Redirect (step_path path ''/services'' ''/complete''))))"

definition CompleteSetup :: "bool \<Rightarrow> setup_world \<Rightarrow> setup_world \<times> setup_answer" where
  "CompleteSetup ok w =
     (if ok then w\<lparr>su_config := put_value ''setup.completed'' ''true'' ''bool'' (Some ''Server setup completed'') (su_config w)\<rparr> else w, Answer 200)"

record setup_status =
  ss_status :: string
  ss_step :: nat
  ss_next_route :: string
  ss_is_complete :: bool

definition GetSetupStatus :: "bool \<Rightarrow> bool \<Rightarrow> string \<Rightarrow> setup_world \<Rightarrow> setup_status option" where
  "GetSetupStatus countOk configOk adminPath w =
     (if \<not> countOk then None
      else if sv_admins (su_admins w) = [] then
        Some \<lparr>ss_status = ''not_started'', ss_step = 0, ss_next_route = adminPath, ss_is_complete = False\<rparr>
      else if \<not> configOk \<or> Option.bind (sql_lookup sc_key ''setup.completed'' (su_config w)) sc_value \<noteq> Some ''true'' then
        Some \<lparr>ss_status = ''admin_created'', ss_step = 1, ss_next_route = adminPath @ ''/config/setup/api-token'', ss_is_complete = False\<rparr>
      else Some \<lparr>ss_status = ''completed'', ss_step = 2, ss_next_route = adminPath, ss_is_complete = True\<rparr>)"

section \<open>The filters\<close>

text \<open>\<open>None\<close>: the request goes on to the next handler.\<close>

definition SetupTokenRequired ::
  "setup_env \<Rightarrow> string \<Rightarrow> string \<Rightarrow> instant \<Rightarrow> bool \<Rightarrow> string option \<Rightarrow> string \<Rightarrow> setup_world \<Rightarrow> setup_answer option" where
  "SetupTokenRequired env adminPath key now countOk cookie reqPath w =
     (let setupPath = adminPath @ ''/config/setup'' in
      if \<not> prefix adminPath reqPath then None
      else if prefix setupPath reqPath then None
      else if \<not> countOk then None
      else if sv_admins (su_admins w) \<noteq> [] then None
      else if \<not> SetupTokenExists w then Some (Answer 503)
      else if setupTokenVerified env (Some key) now cookie then Some (Redirect setupPath)
      else if reqPath \<noteq> adminPath then Some (Redirect adminPath)
      else Some (Answer 200))"

definition BlockSetupAfterComplete :: "string \<Rightarrow> bool \<Rightarrow> setup_world \<Rightarrow> setup_answer option" where
  "BlockSetupAfterComplete adminPath countOk w =
     (if countOk \<and> sv_admins (su_admins w) \<noteq> [] then Some (Redirect (adminPath @ ''/dashboard''))
      else if \<not> SetupTokenExists w then Some (Redirect adminPath)
      else None)"

definition RequireSetupTokenVerified :: "setup_env \<Rightarrow> string \<Rightarrow> string \<Rightarrow> instant \<Rightarrow> string option \<Rightarrow> setup_answer option" where
  "RequireSetupTokenVerified env adminPath key now cookie =
     (if setupTokenVerified env (Some key) now cookie then None else Some (Redirect adminPath))"

definition BlockSetupAfterAdminExists :: "string \<Rightarrow> bool \<Rightarrow> setup_world \<Rightarrow> setup_answer option" where
  "BlockSetupAfterAdminExists adminPath countOk w =
     (if \<not> countOk then Some (Answer 500)
      else if sv_admins (su_admins w) \<noteq> [] then Some (Redirect (adminPath @ ''/dashboard''))
      else None)"

section \<open>The wizard as it is mounted\<close>

datatype wizard_call =
    ShowAdminSetup
  | PostAdmin setup_io "setup_input option"
  | ShowAPIToken
  | PostAPIToken
  | ShowServerConfig bool
  | PostServerConfig "string \<Rightarrow> bool" "(string \<Rightarrow> string) option"
  | ShowSecurity bool
  | PostSecurity "string option" "string \<Rightarrow> bool" "(string \<Rightarrow> string) option"
  | ShowServices bool
  | PostServices "string \<Rightarrow> bool" "(string \<Rightarrow> string) option"
  | GetComplete bool

text \<open>The pages that only render take the parameter \<^verbatim>\<open>skip\<close>, which redirects to the next step.\<close>

definition wizard_handler :: "setup_env \<Rightarrow> string \<Rightarrow> string option \<Rightarrow> instant \<Rightarrow> string option \<Rightarrow> wizard_call \<Rightarrow> setup_world \<Rightarrow> setup_world \<times> setup_answer" where
  "wizard_handler env base key now cookie call w =
     (case call of
        ShowAdminSetup \<Rightarrow> (w, Answer 200)
      | PostAdmin io body \<Rightarrow> CreateAdmin env io (setupTokenVerified env key now cookie) base body w
      | ShowAPIToken \<Rightarrow> (w, Answer 200)
      | PostAPIToken \<Rightarrow> ProcessAPIToken (base @ ''/api-token'') w
      | ShowServerConfig skip \<Rightarrow> (w, if skip then Redirect (base @ ''/security'') else Answer 200)
      | PostServerConfig ok body \<Rightarrow> ProcessServerConfig ok (base @ ''/config'') body w
      | ShowSecurity skip \<Rightarrow> (w, if skip then Redirect (base @ ''/services'') else Answer 200)
      | PostSecurity salt ok body \<Rightarrow> ProcessSecurity env salt ok (base @ ''/security'') body w
      | ShowServices skip \<Rightarrow> (w, if skip then Redirect (base @ ''/complete'') else Answer 200)
      | PostServices ok body \<Rightarrow> ProcessServices ok (base @ ''/services'') body w
      | GetComplete ok \<Rightarrow> CompleteSetup ok w)"

text \<open>\<open>key\<close> is the key the filters were built with, \<open>key'\<close> the one the handlers load.\<close>

record wizard_request =
  wr_now :: instant
  wr_count_ok :: bool
  wr_key :: "string option"
  wr_cookie :: "string option"
  wr_call :: wizard_call

definition wizard :: "setup_env \<Rightarrow> string \<Rightarrow> string \<Rightarrow> wizard_request \<Rightarrow> setup_world \<Rightarrow> setup_world \<times> setup_answer" where
  "wizard env adminPath key rq w =
     (case BlockSetupAfterComplete adminPath (wr_count_ok rq) w of
        Some answer \<Rightarrow> (w, answer)
      | None \<Rightarrow>
          (case RequireSetupTokenVerified env adminPath key (wr_now rq) (wr_cookie rq) of
             Some answer \<Rightarrow> (w, answer)
           | None \<Rightarrow> wizard_handler env (adminPath @ ''/config/setup'') (wr_key rq) (wr_now rq) (wr_cookie rq) (wr_call rq) w))"

section \<open>The setup in one request\<close>

record SetupWizardRequest =
  wz_SetupToken :: string
  wz_Username :: string
  wz_Email :: string
  wz_Password :: string
  wz_ConfirmPassword :: string

definition ascii_letter :: "char \<Rightarrow> bool" where
  "ascii_letter c \<longleftrightarrow> (97 \<le> (of_char c :: nat) \<and> (of_char c :: nat) \<le> 122) \<or> (65 \<le> (of_char c :: nat) \<and> (of_char c :: nat) \<le> 90)"

definition setupUsernameRegex :: rx where
  "setupUsernameRegex = Some1 (\<lambda>c. ascii_letter c \<or> is_digit c \<or> c = CHR ''_'' \<or> c = CHR ''-'')"

definition setupEmailRegex :: rx where
  "setupEmailRegex =
     Then (Some1 (\<lambda>c. ascii_letter c \<or> is_digit c \<or> c \<in> set ''._%+-''))
       (Then (Class (\<lambda>c. c = CHR ''@''))
         (Then (Some1 (\<lambda>c. ascii_letter c \<or> is_digit c \<or> c \<in> set ''.-''))
           (Then (Class (\<lambda>c. c = CHR ''.'')) (Some2 ascii_letter))))"

datatype setup_invalid =
    UsernameRequired | SetupUsernameTooShort | SetupUsernameTooLong | UsernameCharacters | EmailRequired | EmailFormat
  | PasswordRequired | PasswordSpaces | PasswordShort | PasswordLong | PasswordSimple | PasswordsDiffer

definition validateSetupRequest :: "SetupWizardRequest \<Rightarrow> setup_invalid option" where
  "validateSetupRequest rq =
     (if wz_Username rq = [] then Some UsernameRequired
      else if length (wz_Username rq) < 3 then Some SetupUsernameTooShort
      else if 32 < length (wz_Username rq) then Some SetupUsernameTooLong
      else if \<not> rx_accepts setupUsernameRegex (wz_Username rq) then Some UsernameCharacters
      else if wz_Email rq = [] then Some EmailRequired
      else if \<not> rx_accepts setupEmailRegex (wz_Email rq) then Some EmailFormat
      else if wz_Password rq = [] then Some PasswordRequired
      else if wz_Password rq \<noteq> trimSpace (wz_Password rq) then Some PasswordSpaces
      else if length (wz_Password rq) < 8 then Some PasswordShort
      else if 128 < length (wz_Password rq) then Some PasswordLong
      else if \<not> rx_search (Class (\<lambda>c. c \<in> set ''ABCDEFGHIJKLMNOPQRSTUVWXYZ'')) (wz_Password rq)
           \<or> \<not> rx_search (Class (\<lambda>c. c \<in> set ''abcdefghijklmnopqrstuvwxyz'')) (wz_Password rq)
           \<or> \<not> rx_search (Class is_digit) (wz_Password rq) then Some PasswordSimple
      else if wz_Password rq \<noteq> wz_ConfirmPassword rq then Some PasswordsDiffer
      else None)"

definition validateSetupToken :: "setup_env \<Rightarrow> bool \<Rightarrow> string \<Rightarrow> setup_world \<Rightarrow> bool" where
  "validateSetupToken env readOk token w \<longleftrightarrow>
     token \<noteq> [] \<and> ValidateSetupToken env readOk (trimSpace token) w = Some True"

definition markSetupComplete :: "bool \<Rightarrow> setup_world \<Rightarrow> setup_world" where
  "markSetupComplete ok w = (if ok then w\<lparr>su_state := AList.update ''setup_completed'' ''1'' (su_state w)\<rparr> else w)"

definition SetupStatusHandler :: "bool \<Rightarrow> bool \<Rightarrow> setup_world \<Rightarrow> nat \<times> bool" where
  "SetupStatusHandler get ok w =
     (if \<not> get then (405, False)
      else case GetAdminCount ok (su_admins w) of Inl _ \<Rightarrow> (500, False) | Inr n \<Rightarrow> (200, 0 < n))"

text \<open>Status and, on success, the administrator.\<close>

definition SetupWizardHandler ::
  "setup_env \<Rightarrow> create_admin_io \<Rightarrow> bool \<Rightarrow> bool \<Rightarrow> bool \<Rightarrow> bool \<Rightarrow> bool \<Rightarrow> SetupWizardRequest option \<Rightarrow> setup_world
    \<Rightarrow> setup_world \<times> (nat + Admin)" where
  "SetupWizardHandler env io post countOk readOk markOk deleteOk body w =
     (if \<not> post then (w, Inl 405)
      else case GetAdminCount countOk (su_admins w) of
        Inl _ \<Rightarrow> (w, Inl 500)
      | Inr n \<Rightarrow>
          if 0 < n then (w, Inl 403)
          else case body of
            None \<Rightarrow> (w, Inl 400)
          | Some rq \<Rightarrow>
              if \<not> validateSetupToken env readOk (wz_SetupToken rq) w then (w, Inl 401)
              else if validateSetupRequest rq \<noteq> None then (w, Inl 400)
              else case CreateAdminAccount (ev_argon env) (ev_sha env) io (wz_Username rq) (wz_Email rq) (wz_Password rq) True (su_admins w) of
                (db, Inl _) \<Rightarrow> (w\<lparr>su_admins := db\<rparr>, Inl 500)
              | (db, Inr admin) \<Rightarrow>
                  (fst (DeleteSetupToken deleteOk (markSetupComplete markOk (w\<lparr>su_admins := db\<rparr>))),
                   Inr (admin\<lparr>adm_PasswordHash := [], adm_APITokenPrefix := []\<rparr>)))"

definition IsSetupComplete :: "bool \<Rightarrow> setup_world \<Rightarrow> bool option" where
  "IsSetupComplete ok w = (case GetAdminCount ok (su_admins w) of Inl _ \<Rightarrow> None | Inr n \<Rightarrow> Some (0 < n))"

definition SetupRequiredMiddleware :: "bool \<Rightarrow> string \<Rightarrow> setup_world \<Rightarrow> setup_answer option" where
  "SetupRequiredMiddleware ok path w =
     (if path \<in> set [''/setup'', ''/setup/status'', ''/api/setup'', ''/api/setup/status''] then None
      else case IsSetupComplete ok w of
        None \<Rightarrow> Some (Answer 500)
      | Some complete \<Rightarrow>
          if complete then None
          else if prefix ''/api'' path then Some (Answer 503)
          else Some (Redirect ''/setup''))"

section \<open>Proofs of a verified token\<close>

lemma itoa_chars: "c \<in> set (itoa v) \<Longrightarrow> is_digit c \<or> c = CHR ''-''"
proof -
  have "list_all is_digit (nat_digits n)" for n using nat_digits_props by blast
  then show "c \<in> set (itoa v) \<Longrightarrow> is_digit c \<or> c = CHR ''-''" by (auto simp: itoa_def list_all_iff split: if_splits)
qed

lemma itoa_no_dot: "CHR ''.'' \<notin> set (itoa v)"
  using itoa_chars [of "CHR ''.''" v] by (auto simp: is_digit_def)

lemma VerifySetupProof_iff:
  assumes "StdDecode key = Some k" "k \<noteq> []"
  shows "VerifySetupProof env key v now \<longleftrightarrow>
    (\<exists>issued n. v = issued @ ''.'' @ setupProofMAC env key issued \<and> CHR ''.'' \<notin> set issued \<and> setupProofMAC env key issued \<noteq> [] \<and>
       atoi issued = Some n \<and> n * second_ns \<le> now \<and> now - n * second_ns < setupProofTTL)" (is "_ \<longleftrightarrow> ?R")
proof (cases "cut_char CHR ''.'' v")
  case (Pair a b)
  show ?thesis
  proof (cases b)
    case None
    have no: "CHR ''.'' \<notin> set v" using Pair None cut_char_None [of "CHR ''.''" v] by simp
    then have "\<not> ?R" by auto
    moreover have "\<not> VerifySetupProof env key v now" using Pair None assms by (simp add: VerifySetupProof_def)
    ultimately show ?thesis by simp
  next
    case (Some sig)
    have v: "v = a @ CHR ''.'' # sig" "CHR ''.'' \<notin> set a"
      using Pair Some cut_char_join [of "CHR ''.''" v a sig] cut_char_fst [of "CHR ''.''" v] set_takeWhileD [of "CHR ''.''" "\<lambda>x. x \<noteq> CHR ''.''" v]
      by auto
    have "VerifySetupProof env key v now \<longleftrightarrow> sig \<noteq> [] \<and> sig = setupProofMAC env key a \<and>
        (\<exists>n. atoi a = Some n \<and> n * second_ns \<le> now \<and> now - n * second_ns < setupProofTTL)"
      using Pair Some assms by (auto simp: VerifySetupProof_def split: option.splits)
    moreover have "?R \<longleftrightarrow> sig \<noteq> [] \<and> sig = setupProofMAC env key a \<and>
        (\<exists>n. atoi a = Some n \<and> n * second_ns \<le> now \<and> now - n * second_ns < setupProofTTL)"
    proof
      assume ?R
      then obtain issued n where r: "v = issued @ CHR ''.'' # setupProofMAC env key issued" "CHR ''.'' \<notin> set issued"
          "setupProofMAC env key issued \<noteq> []" "atoi issued = Some n" "n * second_ns \<le> now" "now - n * second_ns < setupProofTTL" by auto
      have "cut_char CHR ''.'' v = (issued, Some (setupProofMAC env key issued))" unfolding r(1) by (rule cut_char_append [OF r(2)])
      with Pair Some have "a = issued" "sig = setupProofMAC env key issued" by auto
      with r show "sig \<noteq> [] \<and> sig = setupProofMAC env key a \<and>
        (\<exists>n. atoi a = Some n \<and> n * second_ns \<le> now \<and> now - n * second_ns < setupProofTTL)" by metis
    qed (use v in auto)
    ultimately show ?thesis by simp
  qed
qed

text \<open>
  How long the proof of a verified setup token is good. The cookie that \<open>SignSetupProof\<close> makes at \<open>t\<close> is accepted
  under the same key from the beginning of the second of \<open>t\<close> for less than an hour and at no other time; whatever v is accepted
  is a number of seconds in that window with the message authentication code of exactly that text under the key; and without a key nothing is accepted.
\<close>

lemma setup_proof_window:
  assumes key: "StdDecode key = Some k" "k \<noteq> []" and mac: "\<forall>m. ev_mac env k m \<noteq> []" and range: "in_int64 (t div second_ns)"
  shows "(VerifySetupProof env key (SignSetupProof env key t) now \<longleftrightarrow> t - t mod second_ns \<le> now \<and> now < t - t mod second_ns + hour_ns) \<and>
    (VerifySetupProof env key v now \<longleftrightarrow>
      (\<exists>issued n. v = issued @ ''.'' @ RawURLEncoding (ev_mac env k issued) \<and> CHR ''.'' \<notin> set issued \<and>
         atoi issued = Some n \<and> now - hour_ns < n * second_ns \<and> n * second_ns \<le> now)) \<and>
    \<not> VerifySetupProof env [] v now"
proof -
  have "RawURLEncoding s \<noteq> []" if "s \<noteq> []" for s
  proof -
    have "RawStdEncoding s \<noteq> []" using that RawStd_round_trip [of s] RawStd_round_trip [of "[]"]
      by (metis RawStdEncoding_def list.simps(8) option.inject raw_encode.simps(1))
    then show ?thesis by (simp add: RawURLEncoding_def)
  qed
  with mac have mac': "setupProofMAC env key m = RawURLEncoding (ev_mac env k m)" "setupProofMAC env key m \<noteq> []" for m
    by (simp_all add: setupProofMAC_def key)
  have all: "VerifySetupProof env key v now \<longleftrightarrow>
      (\<exists>issued n. v = issued @ ''.'' @ RawURLEncoding (ev_mac env k issued) \<and> CHR ''.'' \<notin> set issued \<and>
         atoi issued = Some n \<and> now - hour_ns < n * second_ns \<and> n * second_ns \<le> now)" for v
    using mac' by (auto simp: VerifySetupProof_iff [OF key] setupProofTTL_def)
  have "t - t mod second_ns = t div second_ns * second_ns" by (simp add: minus_mod_eq_div_mult)
  moreover have "VerifySetupProof env key (SignSetupProof env key t) now \<longleftrightarrow>
      t div second_ns * second_ns \<le> now \<and> now - t div second_ns * second_ns < hour_ns"
    using cut_char_append [OF itoa_no_dot, of "t div second_ns" "setupProofMAC env key (itoa (t div second_ns))"] mac' atoi_itoa [OF range] key
    by (simp add: VerifySetupProof_def SignSetupProof_def Let_def setupProofTTL_def)
  ultimately have sign: "VerifySetupProof env key (SignSetupProof env key t) now \<longleftrightarrow>
      t - t mod second_ns \<le> now \<and> now < t - t mod second_ns + hour_ns" by auto
  have "StdDecode [] = Some []" by code_simp
  then have "\<not> VerifySetupProof env [] v now" by (simp add: VerifySetupProof_def)
  with sign all show ?thesis by blast
qed

definition demo_setup_env :: setup_env where
  "demo_setup_env = \<lparr>ev_argon = toy_argon, ev_sha = (\<lambda>s. ''#'' @ s), ev_mac = (\<lambda>k m. k @ m), ev_lower = (\<lambda>n. n)\<rparr>"

lemma demo_setup_env_fields [simp]:
  "ev_argon demo_setup_env = toy_argon" "ev_sha demo_setup_env s = ''#'' @ s" "ev_mac demo_setup_env k m = k @ m" "ev_lower demo_setup_env n = n"
  by (simp_all add: demo_setup_env_def)

lemma demo_key: "StdDecode ''a2V5'' = Some ''key''" by code_simp

lemma setup_proof_window_example:
  "VerifySetupProof demo_setup_env ''a2V5'' (SignSetupProof demo_setup_env ''a2V5'' (7 * second_ns + 5)) (7 * second_ns) \<and>
   \<not> VerifySetupProof demo_setup_env ''a2V5'' (SignSetupProof demo_setup_env ''a2V5'' (7 * second_ns + 5)) (3607 * second_ns)"
proof -
  have r: "in_int64 ((7 * second_ns + 5) div second_ns)" by (simp add: second_ns_def in_int64_def int64_min_def int64_max_def)
  have m: "\<forall>m. ev_mac demo_setup_env ''key'' m \<noteq> []" by simp
  show ?thesis
    using setup_proof_window [OF demo_key _ m r, THEN conjunct1, of "7 * second_ns"] setup_proof_window [OF demo_key _ m r, THEN conjunct1, of "3607 * second_ns"]
    by (simp add: unit_defs)
qed

section \<open>The first administrator\<close>

lemma setup_row_fields [simp]:
  "ad_id (setup_row i u e h t) = i" "ad_username (setup_row i u e h t) = u" "ad_email (setup_row i u e h t) = e"
  "ad_password_hash (setup_row i u e h t) = h" "ad_is_super_admin (setup_row i u e h t)" "ad_is_active (setup_row i u e h t)"
  "ad_token_hash (setup_row i u e h t) = None"
  by (simp_all add: setup_row_def)

lemma CreateAdmin_rows:
  assumes "CreateAdmin env io verified path body w = (w', answer)"
  shows "(verified \<and> body \<noteq> None) \<and>
      (\<exists>input p generated h. body = Some input \<and> chosen_password io input = Inr (p, generated) \<and>
         HashPassword (ev_argon env) (ci_salt io) p = Inr h \<and>
         (let i = sv_next (su_admins w); username = setup_username env (in_Username input);
              r = setup_row i username (trimSpace (in_Email input)) h (ci_created io);
              w1 = w\<lparr>su_admins := (su_admins w)\<lparr>sv_next := i + 1, sv_admins := sv_admins (su_admins w) @ [r]\<rparr>\<rparr> in
          (\<forall>q\<in>set (sv_admins (su_admins w)). \<not> admin_clashes r q) \<and>
          (if ci_id_ok io then (w', answer) = finish_admin env io path i username generated w1 else w' = w1 \<and> answer = Answer 500)))
    \<or> (w' = w \<and> (\<exists>n. answer = Answer n))"
  using assms by (auto simp: CreateAdmin_def Let_def split: option.splits if_splits sum.splits prod.splits)

lemma CreateAdminSession_Some:
  assumes "CreateAdminSession fk io i ip agent d db = (db', Some s)" "so_token io = Some tok"
  shows "sv_admins db' = sv_admins db \<and> sql_lookup sn_id tok (sv_sessions db) = None \<and>
    (\<exists>row. sv_sessions db' = sv_sessions db @ [row] \<and> sn_id row = tok \<and> sn_admin_id row = i \<and>
       sn_expires_at row = VStr (FormatSQLTimestamp (so_expiry_base io + d)))"
  using assms by (auto simp: CreateAdminSession_def Let_def sql_lookup_None split: if_splits)

lemma admin_set_sessions: "sv_sessions (fst (admin_set ok i f db)) = sv_sessions db"
  by (simp add: admin_set_def)

lemma admin_set_single:
  assumes "sv_admins db = [r]" "ad_id r = i"
  shows "sv_admins (fst (admin_set ok i f db)) = [if ok then f r else r]"
  using assms by (auto simp: admin_set_def sql_update_def)

lemma finish_admin_Created:
  assumes "finish_admin env io path i username generated w = (w', Created h target)" "sv_admins (su_admins w) = [r]" "ad_id r = i"
  shows "target = path @ ''/api-token'' \<and> ho_username h = username \<and> ho_password h = generated \<and>
    su_token_file w' = (if ci_delete_ok io then None else su_token_file w) \<and> su_config w' = su_config w \<and>
    (\<exists>row. sv_sessions (su_admins w') = sv_sessions (su_admins w) @ [row] \<and> sn_id row = ho_session h \<and> sn_admin_id row = i \<and>
       sql_lookup sn_id (ho_session h) (sv_sessions (su_admins w)) = None \<and>
       sn_expires_at row = VStr (FormatSQLTimestamp (ci_session_base io + 7 * 24 * hour_ns))) \<and>
    sv_admins (su_admins w') = [if ci_token_ok io then r\<lparr>ad_token_hash := Some (ev_sha env (ho_api_token h)), ad_token_prefix := Some ''adm_'',
                               ad_updated_at := VStr (FormatSQLTimestamp (ci_token_now io))\<rparr> else r]"
proof -
  obtain sid where sid: "generateSessionID (ci_session_bytes io) = Some sid"
    using assms(1) by (auto simp: finish_admin_def split: option.splits)
  obtain db s where db: "CreateAdminSession (ci_fk io) (setup_session_io io sid) i (ci_ip io) (ci_agent io) (7 * 24 * hour_ns) (su_admins w) = (db, Some s)"
    using assms(1) sid by (auto simp: finish_admin_def split: option.splits prod.splits)
  obtain tok where tok: "generateAPIToken (ci_token_bytes io) = Some tok"
    using assms(1) sid db by (auto simp: finish_admin_def Let_def split: option.splits)
  let ?w1 = "fst (DeleteSetupToken (ci_delete_ok io) (w\<lparr>su_admins := db\<rparr>))"
  let ?f = "\<lambda>r. r\<lparr>ad_token_hash := Some (ev_sha env tok), ad_token_prefix := Some ''adm_'', ad_updated_at := VStr (FormatSQLTimestamp (ci_token_now io))\<rparr>"
  have fin: "w' = ?w1\<lparr>su_admins := fst (admin_set (ci_token_ok io) i ?f (su_admins ?w1))\<rparr>" "target = path @ ''/api-token''"
    "h = \<lparr>ho_session = sid, ho_api_token = tok, ho_password = generated, ho_username = username\<rparr>"
    using assms(1) by (simp_all add: finish_admin_def Let_def sid db [simplified] tok)
  have w1: "su_admins ?w1 = db" "su_config ?w1 = su_config w" "su_token_file ?w1 = (if ci_delete_ok io then None else su_token_file w)"
    by (simp_all add: DeleteSetupToken_def)
  have s: "sv_admins db = sv_admins (su_admins w)" "sql_lookup sn_id sid (sv_sessions (su_admins w)) = None"
    "\<exists>row. sv_sessions db = sv_sessions (su_admins w) @ [row] \<and> sn_id row = sid \<and> sn_admin_id row = i \<and>
       sn_expires_at row = VStr (FormatSQLTimestamp (ci_session_base io + 7 * 24 * hour_ns))"
    using CreateAdminSession_Some [OF db] by (simp_all add: setup_session_io_def)
  have "sv_admins (fst (admin_set (ci_token_ok io) i ?f db)) = [if ci_token_ok io then ?f r else r]"
    using s(1) assms(2,3) by (intro admin_set_single) auto
  with fin w1 s show ?thesis by (simp add: admin_set_sessions)
qed

text \<open>
  C27. The administrator of the setup can work. When \<open>CreateAdmin\<close> succeeds on a server without administrators, the name it
  reports and the chosen or generated password pass \<open>VerifyAdminCredentials\<close>, the session it hands out opens the
  administration pages for seven days, and the API token, when it could be stored, is the administrator's. The setup token is
  gone if its file could be deleted; a failed deletion is only logged, and the token is still there after the success.
  (Hypotheses: Argon2id returns keys of 32 bytes, and the session ends in a year of the text format, 0 to 9999.)
\<close>

theorem created_admin_signs_in:
  assumes run: "CreateAdmin env io verified path (Some input) w = (w', Created h target)" and none: "sv_admins (su_admins w) = []"
    and argon: "\<forall>p s k. ev_argon env p s 3 65536 4 32 = Some k \<longrightarrow> length k = 32"
    and years: "0 \<le> year utc (ci_session_base io + 7 * 24 * hour_ns)" "year utc (ci_session_base io + 7 * 24 * hour_ns) \<le> 9999"
  shows "(\<exists>admin. VerifyAdminCredentials (ev_argon env) True True (ho_username h) (case ho_password h of Some p \<Rightarrow> p | None \<Rightarrow> in_Password input) (su_admins w')
        = Inr admin \<and> adm_IsSuperAdmin admin \<and> adm_ID admin = sv_next (su_admins w)) \<and>
    (\<forall>t. RequireAdminAuth True t (Some (ho_session h)) (su_admins w') =
       (let e = ci_session_base io + 7 * 24 * hour_ns in if ho_session h \<noteq> [] \<and> t < e - e mod second_ns then Inr (sv_next (su_admins w)) else Inl 200)) \<and>
    (ci_token_ok io \<longrightarrow> (\<exists>admin. GetByAPIToken (ev_sha env) True (ho_api_token h) (su_admins w') = Inr admin \<and> adm_ID admin = sv_next (su_admins w))) \<and>
    su_token_file w' = (if ci_delete_ok io then None else su_token_file w)"
proof -
  obtain p generated hash where g: "chosen_password io input = Inr (p, generated)" "HashPassword (ev_argon env) (ci_salt io) p = Inr hash"
    and fin: "finish_admin env io path (sv_next (su_admins w)) (setup_username env (in_Username input)) generated
      (w\<lparr>su_admins := (su_admins w)\<lparr>sv_next := sv_next (su_admins w) + 1, sv_admins :=
        [setup_row (sv_next (su_admins w)) (setup_username env (in_Username input)) (trimSpace (in_Email input)) hash (ci_created io)]\<rparr>\<rparr>) = (w', Created h target)"
    using CreateAdmin_rows [OF run] none by (auto simp: Let_def split: if_splits)
  let ?r = "setup_row (sv_next (su_admins w)) (setup_username env (in_Username input)) (trimSpace (in_Email input)) hash (ci_created io)"
  have pw: "p = (case ho_password h of Some q \<Rightarrow> q | None \<Rightarrow> in_Password input)" if "ho_password h = generated"
    using g(1) that by (auto simp: chosen_password_def split: if_splits option.splits)
  have f: "ho_username h = setup_username env (in_Username input)" "ho_password h = generated" "su_token_file w' = (if ci_delete_ok io then None else su_token_file w)"
    "\<exists>row. sv_sessions (su_admins w') = sv_sessions (su_admins w) @ [row] \<and> sn_id row = ho_session h \<and> sn_admin_id row = sv_next (su_admins w) \<and>
       sql_lookup sn_id (ho_session h) (sv_sessions (su_admins w)) = None \<and>
       sn_expires_at row = VStr (FormatSQLTimestamp (ci_session_base io + 7 * 24 * hour_ns))"
    "sv_admins (su_admins w') = [if ci_token_ok io then ?r\<lparr>ad_token_hash := Some (ev_sha env (ho_api_token h)), ad_token_prefix := Some ''adm_'',
                               ad_updated_at := VStr (FormatSQLTimestamp (ci_token_now io))\<rparr> else ?r]"
    using finish_admin_Created [OF fin, of ?r] none by simp_all
  obtain salt key where h: "ev_argon env p salt 3 65536 4 32 = Some key" "hash = phc_text salt key"
    using g(2) by (auto simp: HashPassword_def argon_consts split: option.splits)
  have len: "length key = 32" using argon h(1) by blast
  have ok: "VerifyPassword (ev_argon env) p hash = Inr True"
    unfolding h(2) using VerifyPassword_phc(1) [where argon = "ev_argon env", OF h(1) len] by simp
  have cred: "\<exists>admin. VerifyAdminCredentials (ev_argon env) True True (ho_username h) p (su_admins w') = Inr admin \<and> adm_IsSuperAdmin admin \<and>
      adm_ID admin = sv_next (su_admins w)"
    using f(1,5) ok by (simp add: VerifyAdminCredentials_def GetAdminByEmail_def admin_query_def admin_view_def)
  obtain row where row: "sql_lookup sn_id (ho_session h) (sv_sessions (su_admins w')) = Some row" "sn_admin_id row = sv_next (su_admins w)"
      "sn_expires_at row = VStr (FormatSQLTimestamp (ci_session_base io + 7 * 24 * hour_ns))"
    using f(4) by (auto simp: sql_lookup_append)
  have "IsAfter (sn_expires_at row) t \<longleftrightarrow> t < (let e = ci_session_base io + 7 * 24 * hour_ns in e - e mod second_ns)" for t
    using stored_text_reads_back [OF years] by (simp add: row(3) IsAfter_def Let_def)
  then have sess: "RequireAdminAuth True t (Some (ho_session h)) (su_admins w') =
       (let e = ci_session_base io + 7 * 24 * hour_ns in if ho_session h \<noteq> [] \<and> t < e - e mod second_ns then Inr (sv_next (su_admins w)) else Inl 200)" for t
    using row(1,2) by (simp add: RequireAdminAuth_def Let_def)
  have api: "ci_token_ok io \<longrightarrow> (\<exists>admin. GetByAPIToken (ev_sha env) True (ho_api_token h) (su_admins w') = Inr admin \<and> adm_ID admin = sv_next (su_admins w))"
    using f(5) by (simp add: GetByAPIToken_def admin_query_def admin_view_def)
  from cred sess api f(3) pw [OF f(2)] show ?thesis by simp
qed

definition demo_create :: setup_io where
  "demo_create = \<lparr>ci_random = None, ci_count_ok = True, ci_salt = Some ''0123456789abcdef'', ci_created = 0, ci_insert_ok = True, ci_id_ok = True,
     ci_session_bytes = Some [0, 0, 0], ci_session_base = 0, ci_session_now = 0, ci_session_ok = True, ci_fk = True, ci_ip = ''127.0.0.1'',
     ci_agent = ''curl'', ci_delete_ok = True, ci_token_bytes = Some ''xyz'', ci_token_now = 0, ci_token_ok = True\<rparr>"

definition demo_input :: "string \<Rightarrow> setup_input" where
  "demo_input name = \<lparr>in_Username = name, in_Email = name @ ''@a.org'', in_UseRandom = False, in_Password = ''correct-horse'', in_ConfirmPassword = ''correct-horse''\<rparr>"

definition fresh_server :: setup_world where
  "fresh_server = \<lparr>su_admins = \<lparr>sv_next = 1, sv_admins = [], sv_preferences = [], sv_sessions = [], sv_invites = [], sv_passkeys = []\<rparr>,
     su_config = [], su_state = [], su_token_file = Some ''#abc''\<rparr>"

lemma fresh_server_fields [simp]:
  "su_admins fresh_server = \<lparr>sv_next = 1, sv_admins = [], sv_preferences = [], sv_sessions = [], sv_invites = [], sv_passkeys = []\<rparr>"
  "su_config fresh_server = []" "su_token_file fresh_server = Some ''#abc''"
  by (simp_all add: fresh_server_def)

lemma demo_password: "chosen_password demo_create (demo_input name) = Inr (''correct-horse'', None)"
proof -
  have "trimSpace ''correct-horse'' = ''correct-horse''" by code_simp
  then show ?thesis by (simp add: chosen_password_def demo_input_def)
qed

lemma demo_hash: "\<exists>h. HashPassword toy_argon (Some ''0123456789abcdef'') ''correct-horse'' = Inr h"
  by (simp add: HashPassword_def toy_argon_def argon_consts)

lemma demo_names:
  "setup_username demo_setup_env ''ann'' = ''ann''" "trimSpace ''ann@a.org'' = ''ann@a.org''" "contains ''@'' ''ann@a.org''" "contains ''.'' ''ann@a.org''"
  "setup_username demo_setup_env ''eve'' = ''eve''" "trimSpace ''eve@a.org'' = ''eve@a.org''" "contains ''@'' ''eve@a.org''" "contains ''.'' ''eve@a.org''"
  by code_simp+

lemma demo_CreateAdmin: "\<exists>w' h. CreateAdmin demo_setup_env demo_create True path (Some (demo_input ''ann'')) fresh_server = (w', Created h (path @ ''/api-token''))"
proof -
  obtain hash where "HashPassword toy_argon (Some ''0123456789abcdef'') ''correct-horse'' = Inr hash" using demo_hash by blast
  then show ?thesis
    using demo_names demo_password [of "''ann''"]
    by (simp add: CreateAdmin_def Let_def demo_input_def demo_create_def finish_admin_def generateSessionID_def generateAPIToken_def
        CreateAdminSession_def setup_session_io_def DeleteSetupToken_def)
qed

theorem created_admin_signs_in_witness:
  "\<exists>w' h admin. CreateAdmin demo_setup_env demo_create True ''/setup'' (Some (demo_input ''ann'')) fresh_server = (w', Created h ''/setup/api-token'') \<and>
     VerifyAdminCredentials toy_argon True True (ho_username h) (case ho_password h of Some p \<Rightarrow> p | None \<Rightarrow> in_Password (demo_input ''ann'')) (su_admins w') = Inr admin"
proof -
  obtain w' h where run: "CreateAdmin demo_setup_env demo_create True ''/setup'' (Some (demo_input ''ann'')) fresh_server = (w', Created h ''/setup/api-token'')"
    using demo_CreateAdmin [of "''/setup''"] by auto
  have y: "year utc (ci_session_base demo_create + 7 * 24 * hour_ns) = 1970" by code_simp
  have a: "\<forall>p s k. ev_argon demo_setup_env p s 3 65536 4 32 = Some k \<longrightarrow> length k = 32" by (simp add: toy_argon_def min_def)
  have n: "sv_admins (su_admins fresh_server) = []" by simp
  from created_admin_signs_in [OF run n a] y run show ?thesis by auto
qed

section \<open>The wizard behind its filters\<close>

text \<open>
  The filter counts the administrators; when the count fails it goes on as if there were none, and what keeps the request
  out is then that the token file is gone.
\<close>

lemma wizard_closed:
  "wr_count_ok rq \<Longrightarrow> sv_admins (su_admins w) \<noteq> [] \<Longrightarrow> wizard env adminPath key rq w = (w, Redirect (adminPath @ ''/dashboard''))"
  "\<not> wr_count_ok rq \<Longrightarrow> su_token_file w = None \<Longrightarrow> wizard env adminPath key rq w = (w, Redirect adminPath)"
  by (simp_all add: wizard_def BlockSetupAfterComplete_def SetupTokenExists_def)

definition wizard_run :: "setup_env \<Rightarrow> string \<Rightarrow> string \<Rightarrow> wizard_request list \<Rightarrow> setup_world \<Rightarrow> setup_world" where
  "wizard_run env adminPath key rqs w = fold (\<lambda>rq w. fst (wizard env adminPath key rq w)) rqs w"

lemma wizard_run_closed:
  "\<forall>rq\<in>set rqs. wr_count_ok rq \<or> su_token_file w = None \<Longrightarrow> sv_admins (su_admins w) \<noteq> [] \<Longrightarrow> wizard_run env adminPath key rqs w = w"
proof (induction rqs)
  case (Cons rq rqs)
  then have "fst (wizard env adminPath key rq w) = w" by (cases "wr_count_ok rq") (auto simp: wizard_closed)
  with Cons show ?case by (simp add: wizard_run_def)
qed (simp add: wizard_run_def)

lemma finish_admin_frame:
  "finish_admin env io path i username generated w = (w', answer) \<Longrightarrow>
    su_config w' = su_config w \<and> su_token_file w' \<in> {su_token_file w, None} \<and> map ad_id (sv_admins (su_admins w')) = map ad_id (sv_admins (su_admins w))"
  by (auto simp: finish_admin_def Let_def DeleteSetupToken_def CreateAdminSession_def admin_set_def sql_update_def
      split: option.splits prod.splits if_splits)

lemma CreateAdmin_frame:
  assumes "CreateAdmin env io verified path body w = (w', answer)"
  shows "su_config w' = su_config w \<and> su_token_file w' \<in> {su_token_file w, None} \<and> ((w' = w \<and> (\<exists>n. answer = Answer n)) \<or> verified \<and> sv_admins (su_admins w') \<noteq> [])"
  using CreateAdmin_rows [OF assms]
proof (elim disjE conjE exE)
  fix input p generated h
  assume body: "body = Some input" "verified" and r: "let i = sv_next (su_admins w); username = setup_username env (in_Username input);
              r = setup_row i username (trimSpace (in_Email input)) h (ci_created io);
              w1 = w\<lparr>su_admins := (su_admins w)\<lparr>sv_next := i + 1, sv_admins := sv_admins (su_admins w) @ [r]\<rparr>\<rparr> in
          (\<forall>q\<in>set (sv_admins (su_admins w)). \<not> admin_clashes r q) \<and>
          (if ci_id_ok io then (w', answer) = finish_admin env io path i username generated w1 else w' = w1 \<and> answer = Answer 500)"
  show ?thesis
  proof (cases "ci_id_ok io")
    case True
    with r have "su_config w' = su_config w \<and> su_token_file w' \<in> {su_token_file w, None} \<and> map ad_id (sv_admins (su_admins w')) \<noteq> []"
      by (auto simp: Let_def dest!: finish_admin_frame [OF sym])
    with body show ?thesis by auto
  next
    case False
    with r body show ?thesis by (simp add: Let_def)
  qed
qed simp

lemma CreateAdmin_deletes:
  assumes "CreateAdmin env io verified path body w = (w', Created h target)" "ci_delete_ok io"
  shows "su_token_file w' = None"
  using assms by (auto simp: CreateAdmin_def finish_admin_def DeleteSetupToken_def Let_def split: option.splits if_splits sum.splits prod.splits)

text \<open>
  C28. The wizard ends with its first step. As soon as \<open>CreateAdmin\<close> has made the administrator, the filter in front of the wizard
  sends a wizard request to the dashboard if it can count the administrators, and to the administration's root if it cannot but the setup token
  is gone; so if the token's deletion succeeded, or as long as the counts succeed, no request of the wizard changes anything: no second administrator
  can be made this way, but the steps that follow, first of all the page with the API token to which \<open>CreateAdmin\<close> itself redirects,
  are never reached either. Unless the setup was marked as completed before there was an administrator, it never is, and \<open>GetSetupStatus\<close> goes
  on to name the unreachable page as the next step.
\<close>

theorem wizard_closes_after_admin:
  assumes created: "CreateAdmin env io verified path body w = (w', Created h target)"
    and open': "Option.bind (sql_lookup sc_key ''setup.completed'' (su_config w)) sc_value \<noteq> Some ''true''"
    and rqs: "\<forall>rq\<in>set rqs. wr_count_ok rq \<or> ci_delete_ok io"
  shows "target = path @ ''/api-token'' \<and>
    (\<forall>rq. wr_count_ok rq \<longrightarrow> wizard env adminPath key rq (wizard_run env adminPath key rqs w') = (w', Redirect (adminPath @ ''/dashboard''))) \<and>
    (\<forall>rq. \<not> wr_count_ok rq \<and> ci_delete_ok io \<longrightarrow> wizard env adminPath key rq (wizard_run env adminPath key rqs w') = (w', Redirect adminPath)) \<and>
    GetSetupStatus True ok adminPath (wizard_run env adminPath key rqs w') =
      Some \<lparr>ss_status = ''admin_created'', ss_step = 1, ss_next_route = adminPath @ ''/config/setup/api-token'', ss_is_complete = False\<rparr>"
proof -
  have f: "su_config w' = su_config w" "sv_admins (su_admins w') \<noteq> []" using CreateAdmin_frame [OF created] by auto
  have t: "target = path @ ''/api-token''"
    using created by (auto simp: CreateAdmin_def finish_admin_def Let_def split: option.splits if_splits sum.splits prod.splits)
  have gone: "su_token_file w' = None" if "ci_delete_ok io" by (rule CreateAdmin_deletes [OF created that])
  have run: "wizard_run env adminPath key rqs w' = w'" using rqs gone f(2) by (intro wizard_run_closed) auto
  with t f open' gone show ?thesis by (simp add: wizard_closed GetSetupStatus_def)
qed

theorem wizard_closes_after_admin_witness:
  "\<exists>w' h. CreateAdmin demo_setup_env demo_create True ''/server/admin/config/setup'' (Some (demo_input ''ann'')) fresh_server =
       (w', Created h ''/server/admin/config/setup/api-token'') \<and>
     wizard demo_setup_env ''/server/admin'' ''a2V5'' \<lparr>wr_now = 0, wr_count_ok = True, wr_key = None, wr_cookie = None, wr_call = ShowAPIToken\<rparr> w' =
       (w', Redirect ''/server/admin/dashboard'')"
proof -
  let ?rq = "\<lparr>wr_now = 0, wr_count_ok = True, wr_key = None, wr_cookie = None, wr_call = ShowAPIToken\<rparr>"
  obtain w' h where run: "CreateAdmin demo_setup_env demo_create True ''/server/admin/config/setup'' (Some (demo_input ''ann'')) fresh_server =
       (w', Created h ''/server/admin/config/setup/api-token'')"
    using demo_CreateAdmin [of "''/server/admin/config/setup''"] by auto
  have o: "Option.bind (sql_lookup sc_key ''setup.completed'' (su_config fresh_server)) sc_value \<noteq> Some ''true''" by simp
  have "wizard demo_setup_env ''/server/admin'' ''a2V5'' ?rq (wizard_run demo_setup_env ''/server/admin'' ''a2V5'' [] w') =
      (w', Redirect (''/server/admin'' @ ''/dashboard''))"
    using wizard_closes_after_admin [OF run o, of "[]"] by simp
  with run show ?thesis by (auto simp: wizard_run_def)
qed

lemma second_admin:
  "\<exists>w1 h1. CreateAdmin demo_setup_env (demo_create\<lparr>ci_delete_ok := False\<rparr>) True path (Some (demo_input ''ann'')) fresh_server = (w1, Created h1 (path @ ''/api-token'')) \<and>
     su_token_file w1 = Some ''#abc'' \<and>
     (\<forall>path. \<exists>w2 h2. CreateAdmin demo_setup_env (demo_create\<lparr>ci_session_bytes := Some [1, 1, 1], ci_token_bytes := Some ''uvw''\<rparr>) True path (Some (demo_input ''eve'')) w1
       = (w2, Created h2 (path @ ''/api-token'')) \<and> map ad_username (filter ad_is_super_admin (sv_admins (su_admins w2))) = [''ann'', ''eve''])"
proof -
  obtain hash where "HashPassword toy_argon (Some ''0123456789abcdef'') ''correct-horse'' = Inr hash" using demo_hash by blast
  moreover have "trimSpace ''correct-horse'' = ''correct-horse''" "URLEncoding [0, 0, 0] \<noteq> URLEncoding [1, 1, 1]" "RawURLEncoding ''xyz'' \<noteq> RawURLEncoding ''uvw''" by code_simp+
  ultimately show ?thesis
    using demo_names
    by (simp add: CreateAdmin_def Let_def demo_input_def demo_create_def chosen_password_def finish_admin_def generateSessionID_def generateAPIToken_def
        CreateAdminSession_def setup_session_io_def DeleteSetupToken_def setup_row_def
        admin_clashes_def admin_set_def sql_update_def)
qed

text \<open>The filter and the handler are two statements: two requests that pass the filter together both make a super administrator.\<close>

lemma setup_race:
  "\<exists>w1 w2 h1 h2. BlockSetupAfterComplete ''/server/admin'' True fresh_server = None \<and>
     CreateAdmin demo_setup_env (demo_create\<lparr>ci_delete_ok := False\<rparr>) True path (Some (demo_input ''ann'')) fresh_server = (w1, Created h1 (path @ ''/api-token'')) \<and>
     CreateAdmin demo_setup_env (demo_create\<lparr>ci_session_bytes := Some [1, 1, 1], ci_token_bytes := Some ''uvw''\<rparr>) True path (Some (demo_input ''eve'')) w1
       = (w2, Created h2 (path @ ''/api-token'')) \<and>
     map ad_username (filter ad_is_super_admin (sv_admins (su_admins w2))) = [''ann'', ''eve'']"
proof -
  have open': "BlockSetupAfterComplete ''/server/admin'' True fresh_server = None" by (simp add: BlockSetupAfterComplete_def SetupTokenExists_def)
  show ?thesis by (insert second_admin [of path] open', elim exE conjE, drule spec [of _ path], elim exE conjE, intro exI conjI)
qed

text \<open>
  When the token file could not be deleted and the count fails, the filter lets the request through: whoever still holds a
  setup cookie makes a second super administrator.
\<close>

lemma wizard_reopens:
  "\<exists>w1 w2 h1 h2. CreateAdmin demo_setup_env (demo_create\<lparr>ci_delete_ok := False\<rparr>) True path (Some (demo_input ''ann'')) fresh_server = (w1, Created h1 (path @ ''/api-token'')) \<and>
     wizard demo_setup_env ''/server/admin'' ''a2V5'' \<lparr>wr_now = 0, wr_count_ok = False, wr_key = Some ''a2V5'', wr_cookie = Some (SignSetupProof demo_setup_env ''a2V5'' 0),
       wr_call = PostAdmin (demo_create\<lparr>ci_session_bytes := Some [1, 1, 1], ci_token_bytes := Some ''uvw''\<rparr>) (Some (demo_input ''eve''))\<rparr> w1
       = (w2, Created h2 ''/server/admin/config/setup/api-token'') \<and>
     map ad_username (filter ad_is_super_admin (sv_admins (su_admins w2))) = [''ann'', ''eve'']"
proof -
  obtain w1 h1 where one: "CreateAdmin demo_setup_env (demo_create\<lparr>ci_delete_ok := False\<rparr>) True path (Some (demo_input ''ann'')) fresh_server = (w1, Created h1 (path @ ''/api-token''))"
    and tok: "su_token_file w1 = Some ''#abc''"
    and two: "\<And>path. \<exists>w2 h2. CreateAdmin demo_setup_env (demo_create\<lparr>ci_session_bytes := Some [1, 1, 1], ci_token_bytes := Some ''uvw''\<rparr>) True path (Some (demo_input ''eve'')) w1
       = (w2, Created h2 (path @ ''/api-token'')) \<and> map ad_username (filter ad_is_super_admin (sv_admins (su_admins w2))) = [''ann'', ''eve'']"
    using second_admin [of path] by blast
  have v: "VerifySetupProof demo_setup_env ''a2V5'' (SignSetupProof demo_setup_env ''a2V5'' 0) 0" by code_simp
  obtain w2 h2 where "CreateAdmin demo_setup_env (demo_create\<lparr>ci_session_bytes := Some [1, 1, 1], ci_token_bytes := Some ''uvw''\<rparr>) True (''/server/admin'' @ ''/config/setup'')
      (Some (demo_input ''eve'')) w1 = (w2, Created h2 (''/server/admin'' @ ''/config/setup'' @ ''/api-token''))"
    "map ad_username (filter ad_is_super_admin (sv_admins (su_admins w2))) = [''ann'', ''eve'']"
    using two [of "''/server/admin'' @ ''/config/setup''"] by auto
  with one tok v show ?thesis
    by (simp add: wizard_def BlockSetupAfterComplete_def SetupTokenExists_def RequireSetupTokenVerified_def setupTokenVerified_def wizard_handler_def)
qed

text \<open>A failure after the INSERT: the generated password is lost, the administrator exists, and the wizard is closed.\<close>

lemma setup_lockout:
  assumes "CreateAdmin env io verified path (Some input) w = (w', Answer 500)" "w' \<noteq> w"
  shows "sv_admins (su_admins w') \<noteq> [] \<and> (wr_count_ok rq \<longrightarrow> wizard env adminPath key rq w' = (w', Redirect (adminPath @ ''/dashboard'')))"
  using CreateAdmin_frame [OF assms(1)] assms(2) by (auto simp: wizard_closed)

lemma setup_lockout_example:
  "\<exists>w'. CreateAdmin demo_setup_env (demo_create\<lparr>ci_random := Some (replicate 32 0), ci_session_ok := False\<rparr>) True path
      (Some ((demo_input ''ann'')\<lparr>in_UseRandom := True\<rparr>)) fresh_server = (w', Answer 500) \<and> w' \<noteq> fresh_server"
proof -
  have "chosen_password (demo_create\<lparr>ci_random := Some (replicate 32 0), ci_session_ok := False\<rparr>) ((demo_input ''ann'')\<lparr>in_UseRandom := True\<rparr>)
      = Inr (replicate 32 CHR ''a'', Some (replicate 32 CHR ''a''))"
    by (simp add: chosen_password_def demo_input_def demo_create_def generateRandomPassword_def password_charset_def)
  moreover obtain hash where "HashPassword toy_argon (Some ''0123456789abcdef'') (replicate 32 CHR ''a'') = Inr hash"
    by (simp add: HashPassword_def toy_argon_def argon_consts)
  ultimately show ?thesis
    using demo_names
    by (simp add: CreateAdmin_def Let_def demo_input_def demo_create_def finish_admin_def generateSessionID_def CreateAdminSession_def setup_session_io_def
        fresh_server_def)
qed

section \<open>Who can make the first administrator\<close>

lemma save_config_frame [simp]:
  "su_admins (save_config ok k v w) = su_admins w" "su_token_file (save_config ok k v w) = su_token_file w"
  by (simp_all add: save_config_def)

lemma save_all_frame [simp]:
  "su_admins (fold (\<lambda>(key, v) w. if v \<noteq> [] then save_config ok key v w else w) fs w) = su_admins w"
  "su_token_file (fold (\<lambda>(key, v) w. if v \<noteq> [] then save_config ok key v w else w) fs w) = su_token_file w"
  by (induction fs arbitrary: w) auto

lemma wizard_handler_frame:
  assumes "wizard_handler env base key now cookie call w = (w', answer)"
  shows "su_token_file w' \<in> {su_token_file w, None} \<and> (sv_admins (su_admins w') = sv_admins (su_admins w) \<or> setupTokenVerified env key now cookie)"
proof (cases call)
  case (PostAdmin io body)
  with assms CreateAdmin_frame [of env io "setupTokenVerified env key now cookie" base body w w' answer] show ?thesis
    by (auto simp: wizard_handler_def)
next
  case (PostServerConfig ok body)
  with assms show ?thesis by (auto simp: wizard_handler_def ProcessServerConfig_def split: option.splits)
next
  case (PostSecurity salt ok body)
  with assms show ?thesis
    by (auto simp: wizard_handler_def ProcessSecurity_def Let_def split: option.splits if_splits sum.splits)
next
  case (PostServices ok body)
  with assms show ?thesis by (auto simp: wizard_handler_def ProcessServices_def Let_def split: option.splits if_splits)
next
  case (GetComplete ok)
  with assms show ?thesis by (auto simp: wizard_handler_def CompleteSetup_def split: if_splits)
qed (use assms in \<open>auto simp: wizard_handler_def ProcessAPIToken_def\<close>)

text \<open>
  The requests of the setup. The second component are the tokens that were presented, the third the cookies the server has
  minted; the cookie of a wizard request may be anything the client knows, but a proof that verifies has been minted: nobody else can compute
  the code.
\<close>

inductive setup_step :: "setup_env \<Rightarrow> string \<Rightarrow> string \<Rightarrow> setup_world \<times> string set \<times> string set \<Rightarrow> setup_world \<times> string set \<times> string set \<Rightarrow> bool"
  for env adminPath key where
  present: "VerifySetupTokenAtAdmin env adminPath k now readOk token w = (answer, cookie) \<Longrightarrow>
    setup_step env adminPath key (w, P, M) (w, insert token P, M \<union> set_option cookie)"
| wizard_call: "(\<And>c. wr_cookie rq = Some c \<Longrightarrow> VerifySetupProof env key c (wr_now rq) \<Longrightarrow> c \<in> M) \<Longrightarrow>
    setup_step env adminPath key (w, P, M) (fst (wizard env adminPath key rq w), P, M)"

definition setup_guarded :: "setup_env \<Rightarrow> string option \<Rightarrow> setup_world \<times> string set \<times> string set \<Rightarrow> bool" where
  "setup_guarded env stored = (\<lambda>(w, P, M). su_token_file w \<in> {stored, None} \<and>
     (M \<noteq> {} \<longrightarrow> (\<exists>token\<in>P. \<exists>s. stored = Some s \<and> HashSetupToken env (trimSpace token) = trimSpace s)) \<and>
     (sv_admins (su_admins w) \<noteq> [] \<longrightarrow> M \<noteq> {}))"

lemma setup_step_guarded:
  assumes "setup_step env adminPath key c c'" "setup_guarded env stored c"
  shows "setup_guarded env stored c'"
  using assms
proof cases
  case (present k now readOk token w answer cookie P M)
  have right: "\<exists>s. su_token_file w = Some s \<and> HashSetupToken env (trimSpace token) = trimSpace s" if "cookie \<noteq> None"
    using present(3) that by (auto simp: VerifySetupTokenAtAdmin_def ValidateSetupToken_def split: if_splits option.splits)
  with present(1,2) assms(2) show ?thesis by (cases cookie) (auto simp: setup_guarded_def)
next
  case (wizard_call rq M w P)
  have cookie: "M \<noteq> {}" if "setupTokenVerified env (Some key) (wr_now rq) (wr_cookie rq)"
    using that wizard_call(3) by (auto simp: setupTokenVerified_def split: option.splits)
  have "su_token_file (fst (wizard env adminPath key rq w)) \<in> {su_token_file w, None} \<and>
      (sv_admins (su_admins (fst (wizard env adminPath key rq w))) = sv_admins (su_admins w) \<or> M \<noteq> {})"
    using cookie wizard_handler_frame [of env "adminPath @ ''/config/setup''" "wr_key rq" "wr_now rq" "wr_cookie rq" "wr_call rq" w]
    by (cases "wizard_handler env (adminPath @ ''/config/setup'') (wr_key rq) (wr_now rq) (wr_cookie rq) (wr_call rq) w")
      (auto simp: wizard_def RequireSetupTokenVerified_def split: option.splits if_splits)
  with wizard_call(1,2) assms(2) show ?thesis by (auto simp: setup_guarded_def)
qed

text \<open>
  C26. The first administrator needs the setup token. On a server without administrators and without proofs in circulation, whatever
  requests of the setup are made in whatever order, with any cookies a client can have, when an administrator exists then somebody
  has presented a token whose hash is the content of the token file.
\<close>

theorem admin_needs_setup_token:
  assumes "(setup_step env adminPath key)\<^sup>*\<^sup>* (w0, {}, {}) (w, P, M)" "sv_admins (su_admins w0) = []" "sv_admins (su_admins w) \<noteq> []"
  shows "\<exists>token\<in>P. \<exists>stored. su_token_file w0 = Some stored \<and> HashSetupToken env (trimSpace token) = trimSpace stored"
proof -
  have "setup_guarded env (su_token_file w0) (w0, {}, {})" using assms(2) by (simp add: setup_guarded_def)
  with assms(1) have "setup_guarded env (su_token_file w0) (w, P, M)"
    by (induction rule: rtranclp_induct) (auto intro: setup_step_guarded)
  with assms(3) show ?thesis by (auto simp: setup_guarded_def)
qed

theorem admin_needs_setup_token_witness:
  "\<exists>w P M. (setup_step demo_setup_env ''/server/admin'' ''a2V5'')\<^sup>*\<^sup>* (fresh_server, {}, {}) (w, P, M) \<and> sv_admins (su_admins w) \<noteq> [] \<and>
     (\<exists>token\<in>P. HashSetupToken demo_setup_env (trimSpace token) = ''#abc'')"
proof -
  let ?env = demo_setup_env and ?key = "''a2V5''" and ?c = "SignSetupProof demo_setup_env ''a2V5'' 0"
  let ?rq = "\<lparr>wr_now = 0, wr_count_ok = True, wr_key = Some ?key, wr_cookie = Some ?c, wr_call = PostAdmin demo_create (Some (demo_input ''ann''))\<rparr>"
  have t: "trimSpace ''abc'' = ''abc''" "trimSpace ''#abc'' = ''#abc''" by code_simp+
  have v: "VerifySetupProof ?env ?key ?c 0" by code_simp
  have s1: "setup_step ?env ''/server/admin'' ?key (fresh_server, {}, {}) (fresh_server, {''abc''}, {?c})"
    using setup_step.present [of ?env "''/server/admin''" "Some ?key" 0 True "''abc''" fresh_server _ "Some ?c" ?key "{}" "{}"] t
    by (simp add: VerifySetupTokenAtAdmin_def ValidateSetupToken_def HashSetupToken_def)
  obtain w h where w: "CreateAdmin ?env demo_create True ''/server/admin/config/setup'' (Some (demo_input ''ann'')) fresh_server = (w, Created h ''/server/admin/config/setup/api-token'')"
    using demo_CreateAdmin [of "''/server/admin/config/setup''"] by auto
  have "wizard ?env ''/server/admin'' ?key ?rq fresh_server = (w, Created h ''/server/admin/config/setup/api-token'')"
    using v w by (simp add: wizard_def BlockSetupAfterComplete_def SetupTokenExists_def RequireSetupTokenVerified_def setupTokenVerified_def wizard_handler_def)
  then have s2: "setup_step ?env ''/server/admin'' ?key (fresh_server, {''abc''}, {?c}) (w, {''abc''}, {?c})"
    using setup_step.wizard_call [of ?rq ?env ?key "{?c}" "''/server/admin''" fresh_server "{''abc''}"] by simp
  have ne: "sv_admins (su_admins w) \<noteq> []" using CreateAdmin_frame [OF w] by auto
  have run: "(setup_step ?env ''/server/admin'' ?key)\<^sup>*\<^sup>* (fresh_server, {}, {}) (w, {''abc''}, {?c})" using s1 s2 by auto
  have n: "sv_admins (su_admins fresh_server) = []" by simp
  have "\<exists>token\<in>{''abc''}. \<exists>stored. su_token_file fresh_server = Some stored \<and> HashSetupToken ?env (trimSpace token) = trimSpace stored"
    by (rule admin_needs_setup_token [OF run n ne])
  with run ne t show ?thesis by (intro exI [of _ w] exI [of _ "{''abc''}"] exI [of _ "{?c}"]) (auto simp: HashSetupToken_def)
qed

end
