(* ===== verification/Spec2Isabelle.thy ===== *)
theory Spec2Isabelle
  imports Scheduler Retention Delivery Sessions Tokens Path_Security Cluster Failover WebSocket_Hub
    Config_Load Trusted_Proxies Rate_Limit Csrf User_Sessions Admins Notification_Service
    Two_Factor User_Settings Setup
begin

text \<open>
  A verification of the server core of the Weather Service (\<^verbatim>\<open>wthr\<close>), a Go program that serves
  forecasts, alerts, user accounts and notifications from one binary, alone or as a cluster of nodes
  that share a database. File names below are relative to the module directory \<^verbatim>\<open>src/\<close> of the
  repository.

  \<^bold>\<open>The program and how its parts interact.\<close>
  \<^item> At start the program loads \<^verbatim>\<open>server.yml\<close>, replaces what is out of range and writes missing secrets
    back (\<^verbatim>\<open>config/\<close>). The request filters read the result anew for every request.
  \<^item> A request passes path normalisation, the resolution of the client's address behind trusted proxies,
    rate limits and CSRF protection (\<^verbatim>\<open>server/middleware/\<close>, \<^verbatim>\<open>util/\<close>) before a handler looks up the session
    or API token (\<^verbatim>\<open>server/model/\<close>).
  \<^item> A scheduler (\<^verbatim>\<open>scheduler/\<close>) runs maintenance tasks; nodes exclude each other with a lock row per task and
    agree on a primary through \<^verbatim>\<open>cluster/\<close>. Tasks delete expired rows (\<^verbatim>\<open>common/dbtime/\<close>) and prune backups
    (\<^verbatim>\<open>backup/\<close>).
  \<^item> Notifications are queued and delivered with retries through channels, and pushed to browsers by a
    WebSocket hub (\<^verbatim>\<open>server/service/\<close>).
  \<^item> When the primary database fails, writes are buffered and replayed (\<^verbatim>\<open>database/failover.go\<close>).

  \<^bold>\<open>Conventions.\<close> A Go string is a list of bytes, an \<^verbatim>\<open>int\<close> an integer with \<open>wrap64\<close> applied wherever the
  source's arithmetic can overflow, an instant a number of nanoseconds since the epoch. A method that
  mutates through a pointer returns the changed record. A database table is a list of rows, and a
  statement may fail: its outcome, like the clock readings, is an argument of the operation. Where the
  source reads and later writes a row, the two statements are separate definitions, so that step
  relations can interleave what other goroutines or nodes do between them. Go panics, blocked sends and
  errors are values of the models.

  \<^bold>\<open>Language and library layer.\<close>
  \<^item> \<^verbatim>\<open>Go_Prelude\<close>: \<open>wrap64\<close>, packages \<^verbatim>\<open>strings\<close>, \<^verbatim>\<open>strconv\<close>, \<^verbatim>\<open>encoding/base64\<close>, case folding, and the lemma
    collections \<open>go_simps\<close> that the component proofs use.
  \<^item> \<^verbatim>\<open>Go_Time\<close>: the calendar, civil fields of an instant and back, durations and their printing.
  \<^item> \<^verbatim>\<open>Go_Net\<close>: \<^verbatim>\<open>SplitHostPort\<close>, \<^verbatim>\<open>ParseIP\<close>, \<^verbatim>\<open>ParseCIDR\<close>, \<^verbatim>\<open>IPNet.Contains\<close>; membership by masks is
    agreement on the leading bits.
  \<^item> \<^verbatim>\<open>Go_Path_Match\<close>: \<^verbatim>\<open>path.Match\<close> with its UTF-8 decoding.
  \<^item> \<^verbatim>\<open>Sql_Table\<close>: tables and the locale \<open>row_machine\<close> (what a component promises about its rows under every
    statement), interpreted for the rows of accounts, sessions, recovery keys, tokens and the delivery
    queue.
  \<^item> \<^verbatim>\<open>Refinement\<close>: the locale \<open>simulation\<close> (forward simulation with stuttering), interpreted by \<^verbatim>\<open>Failover\<close>.

  \<^bold>\<open>Scheduling and cluster.\<close>
  \<^item> \<^verbatim>\<open>Cron\<close> (\<^verbatim>\<open>scheduler/cron.go\<close>): the field and schedule parsers and the search for the next activation. The
    parser always returns and yields a well-formed schedule that denotes what the text says; \<open>cron_next\<close> is
    the first matching minute after its argument, or the zero time when the scan of \<open>maxScanMinutes\<close> finds
    none.
  \<^item> \<^verbatim>\<open>Dbtime\<close> (\<^verbatim>\<open>common/dbtime/dbtime.go\<close>): stored timestamps are read back as written; the chunked deletion
    removes exactly the expired rows.
  \<^item> \<^verbatim>\<open>Task_Lock\<close> (\<^verbatim>\<open>scheduler/scheduler.go\<close>): the lock protocol as atomic statements of runs, any number per node,
    with failing writes and releases and shutdown. No two runs of different nodes hold a task as long as no run outlives its
    lock and the runs of one node do not overlap; the code ensures neither, and two lemmas give the double
    acquisitions that follow.
  \<^item> \<^verbatim>\<open>Task_History\<close> (\<^verbatim>\<open>scheduler/task_history.go\<close>) and \<^verbatim>\<open>Scheduler\<close> (\<^verbatim>\<open>scheduler/scheduler.go\<close>): registration, ticks,
    execution with panics and errors, retries, catch-up, shutdown. An invariant holds in every reachable
    state; a tick dispatches exactly the due tasks, and a later tick dispatches a task according to its schedule or to
    the retry set in between; an execution is recorded and unlocked where the statements for that succeed. The locale
    \<open>schedule_source\<close> is the contract of the \<^verbatim>\<open>Schedule\<close> interface, interpreted on both implementations.
  \<^item> \<^verbatim>\<open>Retention\<close> (\<^verbatim>\<open>backup/retention.go\<close> and the backup guard of the scheduler): which backups the tiers keep,
    that the size cap is met and that it removes the oldest first. The locale \<open>backup_sorter\<close> is the contract of \<^verbatim>\<open>sort.Slice\<close>.
  \<^item> \<^verbatim>\<open>Cluster\<close> (\<^verbatim>\<open>cluster/cluster.go\<close>): heartbeats, the health check and the election over the shared table.

  \<^bold>\<open>Notifications and storage.\<close>
  \<^item> \<^verbatim>\<open>Channels\<close> (\<^verbatim>\<open>server/service/channel_manager.go\<close>) and \<^verbatim>\<open>Delivery\<close> (\<^verbatim>\<open>server/service/delivery_system.go\<close>): the queue
    with concurrent workers; its invariant, the bound on attempts and the rows that stay behind after a
    crash.
  \<^item> \<^verbatim>\<open>WebSocket_Hub\<close> (\<^verbatim>\<open>server/service/websocket_hub.go\<close>): goroutines and bounded channels; the hub never panics while an
    account reconnects only after its former connection is wound up, and a run that panics when it reconnects earlier is given.
  \<^item> \<^verbatim>\<open>Sql_Order\<close>: what SQL's descending order on a text column is, with the order of equal values as an argument; on
    canonical timestamps it is the order of time.
  \<^item> \<^verbatim>\<open>Notifications\<close> (\<^verbatim>\<open>server/model/notification.go\<close>), \<^verbatim>\<open>Notification_Service\<close>
    (\<^verbatim>\<open>server/service/notification_service.go\<close>, \<^verbatim>\<open>scheduler/notification_cleanup.go\<close>): the notifications of the web interface,
    their lists and counts, which agree with each other; sends with preferences and push, which touch nobody else's rows; the
    daily cap of a hundred, and the daily tasks, which come due at their clock time within every day.
  \<^item> \<^verbatim>\<open>Failover\<close> (\<^verbatim>\<open>database/failover.go\<close>): the buffer refines a store in which every accepted write is executed
    or pending, in order; requeued writes of a failed replay can be stranded.

  \<^bold>\<open>Accounts.\<close>
  \<^item> \<^verbatim>\<open>Sessions\<close> (\<^verbatim>\<open>server/model/session.go\<close>), \<^verbatim>\<open>Recovery_Keys\<close> (\<^verbatim>\<open>server/model/recovery_keys.go\<close>), \<^verbatim>\<open>Tokens\<close>
    (\<^verbatim>\<open>server/model/token.go\<close>, \<^verbatim>\<open>token_v2.go\<close>): a credential gives access exactly while it is stored, unexpired and
    unused; round trips of creation and lookup. The time columns of \<^verbatim>\<open>user_tokens\<close> hold what was bound, text or a time; what the
    driver reads from them is a parameter, and reading back canonical text is a hypothesis of the theorems that need it.
  \<^item> \<^verbatim>\<open>Go_Regexp\<close>, \<^verbatim>\<open>User_Names\<close> (\<^verbatim>\<open>util/username.go\<close>, \<^verbatim>\<open>blocklist.go\<close>, \<^verbatim>\<open>email.go\<close>): patterns are matched by derivatives; the
    validators accept exactly the names and addresses of a specification that mentions no pattern.
  \<^item> \<^verbatim>\<open>Passwords\<close> (\<^verbatim>\<open>util/password.go\<close>, \<^verbatim>\<open>util/encryption.go\<close>, the hash functions of \<^verbatim>\<open>server/model/admin.go\<close>): the stored text
    of a hash verifies exactly the passwords with the same key; encryption at rest is undone by decryption.
  \<^item> \<^verbatim>\<open>User_Accounts\<close>, \<^verbatim>\<open>User_Sessions\<close>, \<^verbatim>\<open>Account_Tokens\<close> (\<^verbatim>\<open>server/model/user.go\<close>): accounts with UNIQUE columns and their
    invariant under every writer, with the sign-in handlers of external providers and the change of address, and with or
    without foreign keys on the connection of a deletion; credentials through ban, password change and deletion; the listing of sessions; verification and reset
    tokens, invitations, activity log.
  \<^item> \<^verbatim>\<open>Login\<close>, \<^verbatim>\<open>Request_Auth\<close>, \<^verbatim>\<open>Registration\<close> (\<^verbatim>\<open>server/handler/auth_api.go\<close>, \<^verbatim>\<open>server/handler/auth.go\<close>,
    \<^verbatim>\<open>server/middleware/auth.go\<close>, \<^verbatim>\<open>token_auth.go\<close>): the components above composed, over one record with all tables of the
    users database. What a sign-in requires, and two ways round it: the token of a pending sign-in already
    authenticates, and the sign-in page admits suspended accounts. Registration leads to a sign-in, a password reset
    ends the sessions and spends its token, an invitation makes one account, user tokens do not open the
    administration routes.
  \<^item> \<^verbatim>\<open>Two_Factor\<close> (\<^verbatim>\<open>server/handler/twofa.go\<close>): the second factor is asked for at the sign-in from its activation on; a
    pending sign-in and the password remove it.
  \<^item> \<^verbatim>\<open>User_Settings\<close> (\<^verbatim>\<open>server/handler/user_settings.go\<close>): settings are read back as saved, apart from fields that are
    accepted and lost; five API tokens at most; a revoked session is refused.
  \<^item> \<^verbatim>\<open>Admins\<close> (\<^verbatim>\<open>server/model/admin.go\<close>, \<^verbatim>\<open>server/service/admin_invite.go\<close>, \<^verbatim>\<open>server/middleware/admin_auth.go\<close>,
    \<^verbatim>\<open>HandleLogin\<close>): accounts, sessions and invitations of administrators. A super administrator stays, except in a race of
    two deletions; what ends an administrator's access; a used invitation can open again.
  \<^item> \<^verbatim>\<open>Setup\<close> (\<^verbatim>\<open>server/handler/setup.go\<close>, \<^verbatim>\<open>setup_proof.go\<close>, \<^verbatim>\<open>setup_wizard.go\<close>, \<^verbatim>\<open>server/service/firstrun.go\<close>,
    \<^verbatim>\<open>server/middleware/setup.go\<close>): the first run. Only the holder of the setup token makes the first administrator, who
    signs in with the generated password; from then on no step of the wizard answers unless the token file
    stayed and the count of administrators fails, and what a race of two requests and a failure half-way leave behind.

  \<^bold>\<open>Requests and configuration.\<close>
  \<^item> \<^verbatim>\<open>Server_Settings\<close> (\<^verbatim>\<open>server/model/settings.go\<close>, \<^verbatim>\<open>server/handler/admin_settings.go\<close>, \<^verbatim>\<open>util/port.go\<close>): the
    key-value settings with their typed accessors, defaults, reset, export and import; the choice of the server's
    ports, which stay the same over restarts once they are stored.
  \<^item> \<^verbatim>\<open>Path_Security\<close> (\<^verbatim>\<open>server/middleware/path_security.go\<close>): confinement to the base directory, canonical request
    paths.
  \<^item> \<^verbatim>\<open>Trusted_Proxies\<close> (\<^verbatim>\<open>util/trusted_proxies.go\<close>, \<^verbatim>\<open>util/host.go\<close>): the trust decision as a membership of the
    peer's address in sets of addresses; headers of other peers have no effect.
  \<^item> \<^verbatim>\<open>Rate_Limit\<close> (\<^verbatim>\<open>server/middleware/ratelimit.go\<close>): limits in force, live reload, what the client sees.
  \<^item> \<^verbatim>\<open>Csrf\<close> (\<^verbatim>\<open>server/middleware/csrf.go\<close>): which requests pass, and which paths are exempt.
  \<^item> \<^verbatim>\<open>Config\<close>, \<^verbatim>\<open>Config_Validate\<close>, \<^verbatim>\<open>Config_Load\<close> (\<^verbatim>\<open>config/\<close>): a validated configuration is in range, but for
    one combination of the cache's pool settings, and validation is idempotent on it; a saved configuration is loaded back at restart; a malformed file is
    overwritten by the defaults.

  \<^bold>\<open>Parameters.\<close> Code outside the repository is an argument: the \<^verbatim>\<open>httprate\<close> limiter, YAML, Argon2id, AES-GCM,
  SHA-256, TOTP, the Unicode case table, random bytes, DNS answers, the zone database, \<^verbatim>\<open>sort.Slice\<close>, floating-point operations, JSON and
  SMTP. What a theorem needs of them is a hypothesis of the theorem, with a witness that instantiates it.

  \<^bold>\<open>Bounds and fuel.\<close> The cron scan is bounded as in the source (\<open>maxScanMinutes\<close>, four leap years of minutes).
  The parsers of IPv6 groups, of character classes and of pattern chunks recurse on a counter that starts
  at the number of groups (8) or the length of the text: every step consumes a group or a byte. The value
  loop of the cron parser may in principle run forever, so it is a partial function, with a proof that it
  returns on every input the parser gives it. The other loops are total functions with a measure.

  \<^bold>\<open>Not modelled.\<close> The clients of weather, earthquake and geolocation services and the moon computation
  (network input and floating point); rendering, handlers, GraphQL and the command line (wiring around the
  components above, partly generated); backup archives (tar, gzip and encryption libraries); Tor, I2P and
  mail transports; the bodies of maintenance tasks that only call services; connection handling and
  schemas of the databases, except the columns and uniqueness constraints the models use.
\<close>

end
